(* ===== verification/K4_Prelude.thy ===== *)
theory K4_Prelude
  imports Main "HOL-Library.Multiset"
begin

text \<open>
  Shared vocabulary of the development: the outcome of running a Go function (a value, a run-time
  panic, or no return at all), 64-bit wrap-around, Go's truncating division, slices updated and
  shortened in place, and the generic list lemmas the components use.
\<close>

named_theorems wrap_simps \<open>removal of 64-bit wrap-around for values in range\<close>
named_theorems go_simps \<open>symbolic execution of the outcome type\<close>

section \<open>Outcomes of Go code\<close>

text \<open>
  A Go function can return, panic, or never return. \<open>Diverge\<close> is the last case: a loop
  whose exit condition is never met. Panics carry the run-time error that causes them; a fatal log
  entry, which ends the process, counts as one.
\<close>

datatype panic = IndexOutOfRange | SliceOutOfRange | NilDereference | NilMapWrite | IntegerDivideByZero | CloseOfClosedChannel | FatalExit

datatype 'a go = Ret 'a | Panic panic | Diverge

fun go_bind :: "'a go \<Rightarrow> ('a \<Rightarrow> 'b go) \<Rightarrow> 'b go" where
  "go_bind (Ret a) f = f a"
| "go_bind (Panic p) f = Panic p"
| "go_bind Diverge f = Diverge"

primrec go_of_option :: "'a option \<Rightarrow> 'a go" where
  "go_of_option None = Diverge"
| "go_of_option (Some a) = Ret a"

lemma go_bind_Ret_iff [go_simps]:
  "go_bind m f = Ret b \<longleftrightarrow> (\<exists>a. m = Ret a \<and> f a = Ret b)"
  by (cases m) auto

lemma go_bind_Panic_iff [go_simps]:
  "go_bind m f = Panic p \<longleftrightarrow> m = Panic p \<or> (\<exists>a. m = Ret a \<and> f a = Panic p)"
  by (cases m) auto

lemma go_of_option_Ret [simp]: "go_of_option x = Ret a \<longleftrightarrow> x = Some a"
  by (cases x) auto

lemma go_of_option_not_Panic [simp]: "go_of_option x \<noteq> Panic p"
  by (cases x) auto

lemma go_bind_cong [fundef_cong]:
  "m = m' \<Longrightarrow> (\<And>a. m' = Ret a \<Longrightarrow> f a = g a) \<Longrightarrow> go_bind m f = go_bind m' g"
  by (cases m') auto

section \<open>64-bit integers\<close>

text \<open>
  Go's \<open>int\<close> and \<open>int64\<close> on the supported 64-bit platforms: two's complement, silent
  wrap-around. Values are HOL integers; every arithmetic operation that can leave the range is
  followed by \<open>wrap64\<close>.
\<close>

definition wrap64 :: "int \<Rightarrow> int" where
  "wrap64 x = (x + 2 ^ 63) mod 2 ^ 64 - 2 ^ 63"

definition int64 :: "int \<Rightarrow> bool" where
  "int64 x \<longleftrightarrow> - (2 ^ 63) \<le> x \<and> x < 2 ^ 63"

lemma wrap64_id [wrap_simps]: "int64 x \<Longrightarrow> wrap64 x = x"
  by (simp add: wrap64_def int64_def)

lemma int64_wrap64 [simp]: "int64 (wrap64 x)"
proof -
  have "0 \<le> (x + 2 ^ 63) mod 2 ^ 64" and "(x + 2 ^ 63) mod 2 ^ 64 < (2 ^ 64 :: int)"
    by simp_all
  then show ?thesis by (simp add: wrap64_def int64_def)
qed

lemma wrap64_range: "- 9223372036854775808 \<le> x \<Longrightarrow> x < 9223372036854775808 \<Longrightarrow> wrap64 x = x"
  by (simp add: wrap64_def)

lemma wrap64_wrap64_add [wrap_simps]: "wrap64 (wrap64 x + y) = wrap64 (x + y)"
proof -
  have "((x + 2 ^ 63) mod 2 ^ 64 - 2 ^ 63 + y + 2 ^ 63) mod 2 ^ 64 =
      ((x + 2 ^ 63) mod 2 ^ 64 + y) mod (2 ^ 64 :: int)" by (simp add: algebra_simps)
  also have "\<dots> = (x + y + 2 ^ 63) mod 2 ^ 64"
    by (simp only: mod_add_left_eq) (simp add: algebra_simps)
  finally show ?thesis by (simp add: wrap64_def)
qed

text \<open>Go's \<open>/\<close> truncates towards zero; a zero divisor panics and is guarded where it can occur.\<close>

definition go_div :: "int \<Rightarrow> int \<Rightarrow> int" where
  "go_div a b = sgn a * sgn b * (\<bar>a\<bar> div \<bar>b\<bar>)"

lemma go_div_nonneg: "0 \<le> a \<Longrightarrow> 0 < b \<Longrightarrow> go_div a b = a div b"
  by (cases "a = 0") (simp_all add: go_div_def)

section \<open>Slices\<close>

text \<open>\<open>sort.SliceStable\<close> with a comparison of an integer key.\<close>

definition sliceStable :: "('a \<Rightarrow> int) \<Rightarrow> 'a list \<Rightarrow> 'a list" where
  "sliceStable f xs = sort_key f xs"

lemma sliceStable_mset [simp]: "mset (sliceStable f xs) = mset xs"
  by (simp add: sliceStable_def)

lemma sliceStable_set [simp]: "set (sliceStable f xs) = set xs"
  by (simp add: sliceStable_def)

lemma sliceStable_length [simp]: "length (sliceStable f xs) = length xs"
  by (simp add: sliceStable_def)

lemma sliceStable_sorted: "sorted (map f (sliceStable f xs))"
  by (simp add: sliceStable_def)

lemma sliceStable_stable:
  "filter (\<lambda>y. f y = k) (sliceStable f xs) = filter (\<lambda>y. f y = k) xs"
  unfolding sliceStable_def by (rule sort_key_stable)

lemma sliceStable_id: "sorted (map f xs) \<Longrightarrow> sliceStable f xs = xs"
  unfolding sliceStable_def by (rule sort_key_id_if_sorted)

lemma sum_list_sliceStable [simp]:
  "sum_list (map g (sliceStable f xs)) = (sum_list (map g xs) :: int)"
  by (metis mset_map sliceStable_mset sum_mset_sum_list)

text \<open>Sorting a sorted slice after an append inserts the new element behind its equals.\<close>

lemma sliceStable_map: "sliceStable f (map g xs) = map g (sliceStable (\<lambda>x. f (g x)) xs)"
proof -
  have "insort_key f (g x) (map g ys) = map g (insort_key (\<lambda>x. f (g x)) x ys)" for x ys
    by (induction ys) auto
  then show ?thesis by (induction xs) (simp_all add: sliceStable_def)
qed

lemma sliceStable_snoc:
  assumes "sorted (map f xs)"
  shows "sliceStable f (xs @ [x]) = takeWhile (\<lambda>y. \<not> f x < f y) xs @ x # dropWhile (\<lambda>y. \<not> f x < f y) xs"
  using assms
proof (induction xs)
  case (Cons a xs)
  let ?P = "\<lambda>y. \<not> f x < f y"
  have s: "sliceStable f ((a # xs) @ [x]) = insort_key f a (takeWhile ?P xs @ x # dropWhile ?P xs)"
    using Cons by (simp add: sliceStable_def)
  show ?case
  proof (cases "f x < f a")
    case True
    then have "takeWhile ?P xs = []" "dropWhile ?P xs = xs" using Cons.prems by (cases xs; force)+
    moreover have "insort_key f a xs = a # xs" using Cons.prems by (intro insort_is_Cons) auto
    ultimately show ?thesis using True s by simp
  next
    case False
    have "insort_key f a (takeWhile ?P xs @ x # dropWhile ?P xs) = a # takeWhile ?P xs @ x # dropWhile ?P xs"
      using False Cons.prems by (intro insort_is_Cons) (auto dest: set_takeWhileD set_dropWhileD)
    then show ?thesis using False s by simp
  qed
qed (simp add: sliceStable_def)

text \<open>\<open>append(s[:i], s[i+1:]...)\<close> for an index in range.\<close>

definition slice_remove :: "nat \<Rightarrow> 'a list \<Rightarrow> 'a list" where
  "slice_remove i xs = take i xs @ drop (Suc i) xs"

lemma slice_remove_length: "i < length xs \<Longrightarrow> Suc (length (slice_remove i xs)) = length xs"
  by (simp add: slice_remove_def)

lemma slice_remove_mset: "i < length xs \<Longrightarrow> mset (slice_remove i xs) = mset xs - {#xs ! i#}"
proof -
  assume i: "i < length xs"
  then have "mset xs = mset (take i xs @ xs ! i # drop (Suc i) xs)"
    by (simp only: id_take_nth_drop [symmetric])
  then show ?thesis by (simp add: slice_remove_def)
qed

lemma slice_remove_subset: "set (slice_remove i xs) \<subseteq> set xs"
  by (auto simp: slice_remove_def dest: in_set_takeD in_set_dropD)

end
