(* ===== verification/Go_Float.thy ===== *)
theory Go_Float
  imports K4_Prelude Complex_Main "HOL-Library.Log_Nat"
begin

text \<open>
  Go's floating-point numbers as far as the code uses them: conversions from integers, division,
  subtraction, \<open>math.Ceil\<close>, \<open>math.Floor\<close> and the conversion back to \<open>int\<close>. A finite
  value is the rational it denotes; \<open>fl p\<close> rounds to \<open>p\<close> significant bits, ties to even
  (53 bits for \<open>float64\<close>, 24 for \<open>float32\<close>). Operands come from 64-bit integers, so the
  exponent range of the formats is never left and sub-normal numbers do not occur.
\<close>

section \<open>Rounding\<close>

definition ilog2 :: "rat \<Rightarrow> int" where
  "ilog2 q = (let (n, d) = quotient_of q;
                  e = int (floorlog 2 (nat n)) - int (floorlog 2 (nat d))
              in if 2 powi e \<le> q then e else e - 1)"

definition rnd_even :: "rat \<Rightarrow> int" where
  "rnd_even q = (let f = \<lfloor>q\<rfloor>; d = q - of_int f
                 in if d < 1 / 2 then f else if 1 / 2 < d then f + 1
                    else if even f then f else f + 1)"

definition fl :: "nat \<Rightarrow> rat \<Rightarrow> rat" where
  "fl p q = (if q = 0 then 0
             else let e = ilog2 \<bar>q\<bar> - (int p - 1)
                  in sgn q * of_int (rnd_even (\<bar>q\<bar> / 2 powi e)) * 2 powi e)"

section \<open>The values and their operations\<close>

datatype flt = NaN | PosInf | NegInf | Fin rat

definition f64_of_int :: "int \<Rightarrow> flt" where
  "f64_of_int i = Fin (fl 53 (of_int i))"

fun f64_div :: "flt \<Rightarrow> flt \<Rightarrow> flt" where
  "f64_div (Fin a) (Fin b) =
     (if b = 0 then if a = 0 then NaN else if 0 < a then PosInf else NegInf
      else Fin (fl 53 (a / b)))"
| "f64_div PosInf (Fin b) = (if b < 0 then NegInf else PosInf)"
| "f64_div NegInf (Fin b) = (if b < 0 then PosInf else NegInf)"
| "f64_div (Fin a) PosInf = Fin 0"
| "f64_div (Fin a) NegInf = Fin 0"
| "f64_div _ _ = NaN"

fun f64_sub1 :: "flt \<Rightarrow> flt" where
  "f64_sub1 (Fin a) = Fin (fl 53 (a - 1))"
| "f64_sub1 x = x"

fun math_Ceil :: "flt \<Rightarrow> flt" where
  "math_Ceil (Fin a) = Fin (of_int \<lceil>a\<rceil>)"
| "math_Ceil x = x"

fun math_Floor :: "flt \<Rightarrow> flt" where
  "math_Floor (Fin a) = Fin (of_int \<lfloor>a\<rfloor>)"
| "math_Floor x = x"

text \<open>
  \<open>int(x)\<close> truncates. Outside the range of \<open>int\<close> the language leaves the value to the
  implementation; the model takes the value of the amd64 instruction, the least \<open>int\<close>.
\<close>

definition int_of_f64 :: "flt \<Rightarrow> int" where
  "int_of_f64 x = (case x of
      Fin a \<Rightarrow> (let t = (if 0 \<le> a then \<lfloor>a\<rfloor> else \<lceil>a\<rceil>) in if int64 t then t else - (2 ^ 63))
    | _ \<Rightarrow> - (2 ^ 63))"

section \<open>What the clients rely on\<close>

text \<open>
  The interface of a rounding function of \<open>p\<close> bits: a relative error of half a unit in the
  last place, and integers of at most \<open>p\<close> bits are exact.
\<close>

locale float_rounding =
  fixes rnd :: "rat \<Rightarrow> rat" and prec :: nat
  assumes rel_error: "\<bar>rnd q - q\<bar> \<le> \<bar>q\<bar> / 2 ^ prec"
    and exact_int: "\<bar>i\<bar> \<le> 2 ^ prec \<Longrightarrow> rnd (of_int i) = of_int i"
begin

lemma rnd_div_between:
  assumes b: "0 < (b::int)" and a: "\<bar>a\<bar> < 2 ^ prec" and nd: "\<not> b dvd a"
  shows "of_int (a div b) < rnd (of_int a / of_int b)"
    and "rnd (of_int a / of_int b) < of_int (a div b + 1)"
proof -
  let ?q = "of_int a / of_int b :: rat"
  have rb: "0 < (of_int b :: rat)" using b by simp
  have "\<bar>?q\<bar> / 2 ^ prec = of_int \<bar>a\<bar> / 2 ^ prec / of_int b"
    using b by (simp add: abs_divide)
  also have "of_int \<bar>a\<bar> / 2 ^ prec < (1::rat)"
    using a by (simp add: divide_less_eq_1 flip: of_int_less_iff [where ?'a = rat])
  then have "of_int \<bar>a\<bar> / 2 ^ prec / of_int b < (1::rat) / of_int b"
    using rb by (rule divide_strict_right_mono)
  finally have err: "\<bar>rnd ?q - ?q\<bar> < 1 / of_int b"
    using rel_error [of ?q] by linarith
  have "1 \<le> a mod b" "a mod b \<le> b - 1"
    using b nd pos_mod_sign [OF b, of a] pos_mod_bound [OF b, of a]
    by (auto simp: dvd_eq_mod_eq_0)
  then have "(of_int 1 :: rat) \<le> of_int (a mod b)" "(of_int (a mod b) :: rat) \<le> of_int (b - 1)"
    by (simp_all only: of_int_le_iff)
  then have m: "(1::rat) / of_int b \<le> of_int (a mod b) / of_int b"
      "(of_int (a mod b) :: rat) / of_int b \<le> (of_int b - 1) / of_int b"
    using rb by (simp_all add: divide_right_mono)
  have "(of_int a :: rat) = of_int b * of_int (a div b) + of_int (a mod b)"
    by (simp flip: of_int_mult of_int_add)
  then have q: "?q = of_int (a div b) + of_int (a mod b) / of_int b"
    using rb by (simp add: field_simps)
  have r: "(of_int b - 1) / of_int b = 1 - (1::rat) / of_int b"
    using rb by (simp add: diff_divide_distrib)
  show "of_int (a div b) < rnd ?q" and "rnd ?q < of_int (a div b + 1)"
    using err m q r by auto
qed

lemma ceil_rnd_div:
  assumes b: "0 < (b::int)" and a: "\<bar>a\<bar> < 2 ^ prec"
  shows "\<lceil>rnd (of_int a / of_int b)\<rceil> = - ((- a) div b)"
proof (cases "b dvd a")
  case True
  then obtain k where k: "a = b * k" by (rule dvdE)
  have "\<bar>k\<bar> \<le> \<bar>a\<bar>" using b by (simp add: k abs_mult mult_le_cancel_right1)
  with a have "rnd (of_int k) = of_int k" by (intro exact_int) simp
  moreover have "- (b * k) div b = - k" using b by (simp flip: mult_minus_right)
  ultimately show ?thesis using b by (simp add: k)
next
  case False
  with rnd_div_between [OF b a False] have "\<lceil>rnd (of_int a / of_int b)\<rceil> = a div b + 1"
    by (intro ceiling_unique) auto
  moreover have "(- a) div b = - (a div b) - 1"
    using False b by (simp add: div_minus_right zdiv_zminus1_eq_if dvd_eq_mod_eq_0)
  ultimately show ?thesis by simp
qed

lemma floor_rnd_div:
  assumes b: "0 < (b::int)" and a: "\<bar>a\<bar> < 2 ^ prec"
  shows "\<lfloor>rnd (of_int a / of_int b)\<rfloor> = a div b"
proof (cases "b dvd a")
  case True
  then obtain k where k: "a = b * k" by (rule dvdE)
  have "\<bar>k\<bar> \<le> \<bar>a\<bar>" using b by (simp add: k abs_mult mult_le_cancel_right1)
  with a have "rnd (of_int k) = of_int k" by (intro exact_int) simp
  with b show ?thesis by (simp add: k)
next
  case False
  from rnd_div_between [OF b a False] show ?thesis by (intro floor_unique) auto
qed

end

section \<open>The rounding function satisfies the interface\<close>

lemma floorlog2_bounds:
  assumes "0 < n"
  shows "2 ^ (floorlog 2 n - 1) \<le> n" "n < 2 ^ floorlog 2 n" "0 < floorlog 2 n"
  using assms floorlog_bounds [of n 2] by (auto simp: floorlog_def)

lemma ilog2_bounds:
  assumes q: "0 < q"
  shows "2 powi (ilog2 q) \<le> q" and "q < 2 powi (ilog2 q + 1)"
proof -
  obtain n d where nd: "quotient_of q = (n, d)" by (cases "quotient_of q")
  have d: "0 < d" using quotient_of_denom_pos [OF nd] .
  have qd: "q = of_int n / of_int d" using quotient_of_div [OF nd] .
  with q d have n: "0 < n" by (simp add: zero_less_divide_iff)
  let ?a = "floorlog 2 (nat n)" and ?b = "floorlog 2 (nat d)"
  have A: "2 ^ (?a - 1) \<le> nat n" "nat n < 2 ^ ?a" "0 < ?a"
    using floorlog2_bounds [of "nat n"] n by auto
  have B: "2 ^ (?b - 1) \<le> nat d" "nat d < 2 ^ ?b" "0 < ?b"
    using floorlog2_bounds [of "nat d"] d by auto
  define e where "e = int ?a - int ?b"
  have I: "2 ^ (?a - 1) \<le> n" "2 ^ (?b - 1) \<le> d" and J: "n < 2 ^ ?a" "d < 2 ^ ?b"
    using A B n d by (simp_all add: le_nat_iff nat_less_iff)
  have r: "(2::rat) ^ (?a - 1) \<le> of_int n" "of_int n < (2::rat) ^ ?a"
      "(2::rat) ^ (?b - 1) \<le> of_int d" "of_int d < (2::rat) ^ ?b"
    using I [THEN of_int_le_iff [where ?'a = rat, THEN iffD2]]
      J [THEN of_int_less_iff [where ?'a = rat, THEN iffD2]] by simp_all
  have pe: "2 powi e = (2::rat) ^ ?a / 2 ^ ?b"
    by (simp add: e_def power_int_diff)
  have lo: "2 powi (e - 1) \<le> q"
  proof -
    have "(2::rat) powi (e - 1) = 2 ^ (?a - 1) / 2 ^ ?b"
      using A(3) pe by (simp add: power_int_diff power_diff)
    also have "\<dots> \<le> of_int n / of_int d"
      using r n d by (intro frac_le) (auto intro: less_imp_le)
    finally show ?thesis by (simp add: qd)
  qed
  have hi: "q < 2 powi (e + 1)"
  proof -
    have "q < 2 ^ ?a / 2 ^ (?b - 1)"
      unfolding qd using r n by (intro frac_less) auto
    also have "\<dots> = 2 powi (e + 1)"
      using B(3) pe by (simp add: power_int_add power_diff)
    finally show ?thesis .
  qed
  have il: "ilog2 q = (if 2 powi e \<le> q then e else e - 1)"
    by (simp add: ilog2_def nd e_def Let_def)
  show "2 powi (ilog2 q) \<le> q" and "q < 2 powi (ilog2 q + 1)"
    using lo hi by (auto simp: il)
qed

lemma rnd_even_error: "\<bar>of_int (rnd_even q) - q\<bar> \<le> 1 / 2"
proof -
  have "of_int \<lfloor>q\<rfloor> \<le> q" "q < of_int \<lfloor>q\<rfloor> + 1" by linarith+
  then have "q - of_int \<lfloor>q\<rfloor> < 1 / 2 \<Longrightarrow> \<bar>of_int \<lfloor>q\<rfloor> - q\<bar> \<le> 1 / 2"
      "\<not> q - of_int \<lfloor>q\<rfloor> < 1 / 2 \<Longrightarrow> \<bar>of_int (\<lfloor>q\<rfloor> + 1) - q\<bar> \<le> 1 / 2"
      "\<not> 1 / 2 < q - of_int \<lfloor>q\<rfloor> \<Longrightarrow> \<bar>of_int \<lfloor>q\<rfloor> - q\<bar> \<le> 1 / 2"
    by (simp_all only: abs_le_iff of_int_add of_int_1) linarith+
  then show ?thesis by (simp add: rnd_even_def Let_def)
qed

lemma rnd_even_of_int [simp]: "rnd_even (of_int i) = i"
  by (simp add: rnd_even_def)

lemma fl_rel_error:
  assumes p: "0 < p"
  shows "\<bar>fl p q - q\<bar> \<le> \<bar>q\<bar> / 2 ^ p"
proof (cases "q = 0")
  case True
  then show ?thesis by (simp add: fl_def)
next
  case False
  define e where "e = ilog2 \<bar>q\<bar> - (int p - 1)"
  define s where "s = \<bar>q\<bar> / 2 powi e"
  have pe: "0 < (2::rat) powi e" by simp
  have q: "q = sgn q * s * 2 powi e"
    using False pe by (simp add: s_def sgn_mult_abs)
  have fl: "fl p q = sgn q * of_int (rnd_even s) * 2 powi e"
    using False by (simp add: fl_def e_def s_def Let_def)
  have "fl p q - q = sgn q * (of_int (rnd_even s) - s) * 2 powi e"
    by (subst (2) q, simp add: fl algebra_simps)
  then have "\<bar>fl p q - q\<bar> = \<bar>of_int (rnd_even s) - s\<bar> * 2 powi e"
    using False by (simp add: abs_mult abs_sgn_eq)
  also have "\<dots> \<le> 1 / 2 * 2 powi e"
    using rnd_even_error [of s] pe by (intro mult_right_mono) auto
  also have "\<dots> = 2 powi (ilog2 \<bar>q\<bar>) / 2 ^ p"
    using p by (simp add: e_def power_int_diff power_int_add field_simps power_int_minus)
  also have "\<dots> \<le> \<bar>q\<bar> / 2 ^ p"
    using ilog2_bounds(1) [of "\<bar>q\<bar>"] False by (intro divide_right_mono) auto
  finally show ?thesis .
qed

lemma fl_exact_int:
  assumes p: "0 < p" and i: "\<bar>i\<bar> \<le> 2 ^ p"
  shows "fl p (of_int i) = of_int i"
proof (cases "i = 0")
  case True
  then show ?thesis by (simp add: fl_def)
next
  case False
  define q :: rat where "q = \<bar>of_int i\<bar>"
  define e where "e = ilog2 q - (int p - 1)"
  have q: "0 < q" using False by (simp add: q_def)
  have pe: "0 < (2::rat) powi e" by simp
  have "\<exists>k. q / 2 powi e = of_int k"
  proof (cases "e \<le> 0")
    case True
    then have "q / 2 powi e = of_int (\<bar>i\<bar> * 2 ^ nat (- e))"
      by (simp add: q_def power_int_def field_simps)
    then show ?thesis by blast
  next
    case False
    have qi: "q \<le> 2 powi (int p)"
      using of_int_le_iff [where ?'a = rat, THEN iffD2, OF i] by (simp add: q_def)
    have "2 powi (ilog2 q) \<le> (2::rat) powi (int p)"
      using ilog2_bounds(1) [OF q] qi by linarith
    then have "ilog2 q \<le> int p" using power_int_strict_increasing [of "int p" "ilog2 q" "2::rat"]
      by (meson not_le one_less_numeral_iff semiring_norm(76))
    with False have il: "ilog2 q = int p" and e1: "e = 1" by (simp_all add: e_def)
    with ilog2_bounds(1) [OF q] qi have "q = 2 ^ p" by simp
    then have "q / 2 powi e = of_int (2 ^ (p - 1))"
      using p e1 by (cases p) simp_all
    then show ?thesis by blast
  qed
  then obtain k where k: "q / 2 powi e = of_int k" by blast
  have "fl p (of_int i) = sgn (of_int i) * (q / 2 powi e) * 2 powi e"
    using False by (simp add: fl_def e_def q_def Let_def k [unfolded e_def q_def])
  also have "\<dots> = of_int i" using pe by (simp add: q_def sgn_mult_abs)
  finally show ?thesis .
qed

interpretation f64: float_rounding "fl 53" 53
proof unfold_locales
  show "\<bar>fl 53 q - q\<bar> \<le> \<bar>q\<bar> / 2 ^ 53" for q by (rule fl_rel_error) simp
  show "fl 53 (of_int i) = of_int i" if "\<bar>i\<bar> \<le> 2 ^ 53" for i
    using that by (intro fl_exact_int) simp_all
qed

interpretation f32: float_rounding "fl 24" 24
proof unfold_locales
  show "\<bar>fl 24 q - q\<bar> \<le> \<bar>q\<bar> / 2 ^ 24" for q by (rule fl_rel_error) simp
  show "fl 24 (of_int i) = of_int i" if "\<bar>i\<bar> \<le> 2 ^ 24" for i
    using that by (intro fl_exact_int) simp_all
qed

section \<open>The conversions the node daemon writes out\<close>

text \<open>
  \<open>int(math.Ceil(float64(a)/float64(b)))\<close>, \<open>int(math.Ceil(float64(a)/float64(b)) - 1)\<close> and
  \<open>int(math.Floor(float64(a)/2))\<close>.
\<close>

definition f64_ceil_div :: "int \<Rightarrow> int \<Rightarrow> int" where
  "f64_ceil_div a b = int_of_f64 (math_Ceil (f64_div (f64_of_int a) (f64_of_int b)))"

definition f64_ceil_div_m1 :: "int \<Rightarrow> int \<Rightarrow> int" where
  "f64_ceil_div_m1 a b = int_of_f64 (f64_sub1 (math_Ceil (f64_div (f64_of_int a) (f64_of_int b))))"

definition f64_floor_half :: "int \<Rightarrow> int" where
  "f64_floor_half a = int_of_f64 (math_Floor (f64_div (f64_of_int a) (Fin 2)))"

lemma int_of_f64_Fin_int: "int64 i \<Longrightarrow> int_of_f64 (Fin (of_int i)) = i"
  by (simp add: int_of_f64_def)

lemma abs_ceil_div_le:
  assumes "0 < (b::int)"
  shows "\<bar>- ((- a) div b)\<bar> \<le> \<bar>a\<bar>"
proof -
  have "b * ((- a) div b) \<le> - a" "- a < b * ((- a) div b) + b"
    using assms mult_div_mod_eq [of b "- a"] pos_mod_sign [OF assms, of "- a"]
      pos_mod_bound [OF assms, of "- a"] by linarith+
  moreover define k where "k = (- a) div b"
  ultimately have k: "b * k \<le> - a" "- a < b * k + b" by simp_all
  have "- \<bar>a\<bar> \<le> k"
  proof (rule ccontr)
    assume "\<not> - \<bar>a\<bar> \<le> k"
    then have "b * (k + 1) \<le> k + 1" using assms mult_right_mono_neg [of 1 b "k + 1"] by simp
    with k \<open>\<not> - \<bar>a\<bar> \<le> k\<close> show False by (simp add: algebra_simps)
  qed
  moreover have "k \<le> \<bar>a\<bar>"
  proof (cases "0 \<le> k")
    case True
    then have "k \<le> b * k" using assms by (simp add: mult_le_cancel_right1)
    with k show ?thesis by linarith
  qed linarith
  ultimately show ?thesis by (simp add: k_def)
qed

lemma f64_div_ints:
  assumes "\<bar>a\<bar> < 2 ^ 53" and "0 < b" and "b \<le> 2 ^ 53"
  shows "f64_div (f64_of_int a) (f64_of_int b) = Fin (fl 53 (of_int a / of_int b))"
  using assms f64.exact_int [of a] f64.exact_int [of b] by (simp add: f64_of_int_def)

lemma f64_ceil_div_exact:
  assumes a: "\<bar>a\<bar> < 2 ^ 53" and b: "0 < b" "b \<le> 2 ^ 53"
  shows "f64_ceil_div a b = - ((- a) div b)"
proof -
  have "int64 (- ((- a) div b))"
    using abs_ceil_div_le [OF b(1), of a] a by (simp add: int64_def abs_le_iff)
  then show ?thesis
    by (simp only: f64_ceil_div_def f64_div_ints [OF a b] math_Ceil.simps
        f64.ceil_rnd_div [OF b(1) a] int_of_f64_Fin_int)
qed

lemma f64_ceil_div_m1_exact:
  assumes a: "\<bar>a\<bar> < 2 ^ 53" and b: "0 < b" "b \<le> 2 ^ 53"
  shows "f64_ceil_div_m1 a b = - ((- a) div b) - 1"
proof -
  let ?c = "- ((- a) div b)"
  have c: "\<bar>?c - 1\<bar> \<le> 2 ^ 53" and "int64 (?c - 1)"
    using abs_ceil_div_le [OF b(1), of a] a by (auto simp: int64_def)
  moreover have "fl 53 (of_int ?c - 1) = of_int (?c - 1)"
    using f64.exact_int [OF c] by simp
  ultimately show ?thesis
    by (simp only: f64_ceil_div_m1_def f64_div_ints [OF a b] math_Ceil.simps f64_sub1.simps
        f64.ceil_rnd_div [OF b(1) a] int_of_f64_Fin_int)
qed

lemma f64_floor_half_exact:
  assumes a: "\<bar>a\<bar> < 2 ^ 53"
  shows "f64_floor_half a = a div 2"
proof -
  have "f64_div (f64_of_int a) (Fin 2) = Fin (fl 53 (of_int a / of_int 2))"
    using a f64.exact_int [of a] by (simp add: f64_of_int_def)
  moreover have "\<lfloor>fl 53 (of_int a / of_int 2)\<rfloor> = a div 2"
    using a by (intro f64.floor_rnd_div) simp_all
  moreover have "int64 (a div 2)" using a by (auto simp: int64_def)
  ultimately show ?thesis
    by (simp only: f64_floor_half_def math_Floor.simps int_of_f64_Fin_int)
qed

text \<open>Code equations that evaluate the quotients without rounding where they are exact.\<close>

lemma f64_ceil_div_code [code]:
  "f64_ceil_div a b = (if \<bar>a\<bar> < 9007199254740992 \<and> 0 < b \<and> b \<le> 9007199254740992 then - ((- a) div b)
     else int_of_f64 (math_Ceil (f64_div (f64_of_int a) (f64_of_int b))))"
  using f64_ceil_div_exact [of a b] by (simp add: f64_ceil_div_def)

lemma f64_ceil_div_m1_code [code]:
  "f64_ceil_div_m1 a b = (if \<bar>a\<bar> < 9007199254740992 \<and> 0 < b \<and> b \<le> 9007199254740992 then - ((- a) div b) - 1
     else int_of_f64 (f64_sub1 (math_Ceil (f64_div (f64_of_int a) (f64_of_int b)))))"
  using f64_ceil_div_m1_exact [of a b] by (simp add: f64_ceil_div_m1_def)

lemma f64_floor_half_code [code]:
  "f64_floor_half a = (if \<bar>a\<bar> < 9007199254740992 then a div 2
     else int_of_f64 (math_Floor (f64_div (f64_of_int a) (Fin 2))))"
  using f64_floor_half_exact [of a] by (simp add: f64_floor_half_def)

end
