(* ===== verification/Rta.thy ===== *)
theory Rta
  imports Go_Float
begin

text \<open>
  The mathematics behind the node daemon's schedulability test: the two search loops of
  \<open>nodeImplementation.go\<close> as loops over an arbitrary body, the interfaces under which they
  compute what they are meant to compute, and the response-time recurrence of a task served by a
  server of fixed capacity, over unbounded integers, with its monotonicity in the current window
  and in the server's capacity.
\<close>

section \<open>Integer ceiling division\<close>

definition cdiv :: "int \<Rightarrow> int \<Rightarrow> int" where
  "cdiv a b = - ((- a) div b)"

lemma cdiv_le_iff: "0 < b \<Longrightarrow> cdiv a b \<le> k \<longleftrightarrow> a \<le> k * b"
proof -
  assume b: "0 < b"
  have "c \<le> x div b \<longleftrightarrow> c * b \<le> x" for c x :: int
  proof
    assume "c \<le> x div b"
    then have "c * b \<le> x div b * b" using b by simp
    also have "\<dots> \<le> x" using b pos_mod_sign [OF b, of x] div_mult_mod_eq [of x b] by linarith
    finally show "c * b \<le> x" .
  next
    assume "c * b \<le> x"
    then have "(c * b) div b \<le> x div b" using b by (rule zdiv_mono1)
    then show "c \<le> x div b" using b by simp
  qed
  from this [of "- k" "- a"] show ?thesis by (simp add: cdiv_def minus_le_iff)
qed

lemma cdiv_ge: "0 < b \<Longrightarrow> a \<le> cdiv a b * b"
  using cdiv_le_iff [of b a "cdiv a b"] by simp

lemma cdiv_less: "0 < b \<Longrightarrow> (cdiv a b - 1) * b < a"
  using cdiv_le_iff [of b a "cdiv a b - 1"] by simp

lemma cdiv_mono: "0 < b \<Longrightarrow> a \<le> a' \<Longrightarrow> cdiv a b \<le> cdiv a' b"
  using cdiv_le_iff [of b a "cdiv a' b"] cdiv_ge [of b a'] by linarith

lemma cdiv_pos: "0 < b \<Longrightarrow> 0 < a \<Longrightarrow> 1 \<le> cdiv a b"
  using cdiv_le_iff [of b a 0] by simp

lemma cdiv_antimono:
  assumes "0 < b" "b \<le> b'" "0 < a"
  shows "cdiv a b' \<le> cdiv a b"
proof -
  have "a \<le> cdiv a b * b" using cdiv_ge assms by simp
  also have "\<dots> \<le> cdiv a b * b'" using cdiv_pos [of b a] assms by (intro mult_left_mono) auto
  finally show ?thesis using assms by (simp add: cdiv_le_iff)
qed

section \<open>The fixed-point loop\<close>

text \<open>
  The loop of the task-level test: \<open>for wnew != wold\<close>, with the body's new window computed
  by \<open>f\<close> and the early \<open>return false\<close> when it passes \<open>bound\<close>.
\<close>

partial_function (option) fixpoint_loop :: "(int \<Rightarrow> int) \<Rightarrow> int \<Rightarrow> int \<Rightarrow> int \<Rightarrow> bool option" where
  "fixpoint_loop f bound wold wnew =
     (if wnew = wold then Some True
      else (let w' = f wnew in if bound < w' then Some False else fixpoint_loop f bound wnew w'))"

declare fixpoint_loop.simps [code]

text \<open>
  What the loop needs of its body, for every instance \<open>i\<close> of the test: the starting window is
  positive, the body does not shrink it, and the body is monotone on the windows the loop visits.
\<close>

locale response_time =
  fixes valid :: "'i \<Rightarrow> bool" and f :: "'i \<Rightarrow> int \<Rightarrow> int" and w0 :: "'i \<Rightarrow> int" and bound :: "'i \<Rightarrow> int"
  assumes start_pos: "valid i \<Longrightarrow> 0 < w0 i"
    and start_le: "valid i \<Longrightarrow> w0 i \<le> f i (w0 i)"
    and mono: "valid i \<Longrightarrow> w0 i \<le> x \<Longrightarrow> x \<le> y \<Longrightarrow> y \<le> bound i \<Longrightarrow> f i x \<le> f i y"
begin

lemma loop_from:
  assumes "valid i" "w0 i \<le> w" "w \<le> f i w" "w \<noteq> wold"
  shows "fixpoint_loop (f i) (bound i) wold w = Some (\<exists>v\<ge>w. v \<le> bound i \<and> f i v \<le> v)"
  using assms
proof (induction "nat (bound i - w)" arbitrary: w wold rule: less_induct)
  case less
  let ?w' = "f i w"
  have lo: "v \<ge> ?w'" if "v \<ge> w" "v \<le> bound i" "f i v \<le> v" for v
    using mono [of i w v] that less.prems by linarith
  show ?case
  proof (cases "bound i < ?w'")
    case True
    with lo have "\<not> (\<exists>v\<ge>w. v \<le> bound i \<and> f i v \<le> v)" by fastforce
    with True less.prems show ?thesis by (subst fixpoint_loop.simps) simp
  next
    case nb: False
    show ?thesis
    proof (cases "?w' = w")
      case True
      with nb have "\<exists>v\<ge>w. v \<le> bound i \<and> f i v \<le> v" by (intro exI [of _ w]) simp
      with True nb less.prems show ?thesis
        by (subst fixpoint_loop.simps, subst fixpoint_loop.simps) simp
    next
      case False
      with less.prems have gt: "w < ?w'" by simp
      with nb less.prems have "?w' \<le> f i ?w'" by (intro mono) auto
      with less.hyps [of ?w' w] less.prems gt nb
      have "fixpoint_loop (f i) (bound i) w ?w' = Some (\<exists>v\<ge>?w'. v \<le> bound i \<and> f i v \<le> v)"
        by simp
      also have "(\<exists>v\<ge>?w'. v \<le> bound i \<and> f i v \<le> v) = (\<exists>v\<ge>w. v \<le> bound i \<and> f i v \<le> v)"
        using lo gt by (meson less_imp_le order_trans)
      finally show ?thesis using nb less.prems by (subst fixpoint_loop.simps) simp
    qed
  qed
qed

lemma loop_correct:
  "valid i \<Longrightarrow> fixpoint_loop (f i) (bound i) 0 (w0 i) =
     Some (\<exists>v\<ge>w0 i. v \<le> bound i \<and> f i v \<le> v)"
  using start_pos [of i] start_le [of i] by (intro loop_from) auto

end

section \<open>The bisection loop\<close>

text \<open>
  The loop of \<open>binSearch\<close>: \<open>for minb < maxb-1\<close>, the middle computed in floating point,
  the test \<open>chk\<close> run with the middle as the container's bandwidth.
\<close>

partial_function (option) bisect_loop :: "(int \<Rightarrow> bool option) \<Rightarrow> int \<Rightarrow> int \<Rightarrow> int option" where
  "bisect_loop chk minb maxb =
     (if minb < wrap64 (maxb - 1)
      then (let medb = f64_floor_half (wrap64 (minb + maxb))
            in Option.bind (chk medb)
                 (\<lambda>ok. if ok then bisect_loop chk minb medb else bisect_loop chk medb maxb))
      else Some maxb)"

declare bisect_loop.simps [code]

lemma bisect_loop_step:
  assumes "0 \<le> minb" "minb \<le> maxb" "maxb \<le> 1000"
  shows "bisect_loop chk minb maxb =
     (if minb < maxb - 1
      then Option.bind (chk ((minb + maxb) div 2))
             (\<lambda>ok. if ok then bisect_loop chk minb ((minb + maxb) div 2)
                   else bisect_loop chk ((minb + maxb) div 2) maxb)
      else Some maxb)"
  using assms
  by (subst bisect_loop.simps) (simp add: wrap64_range f64_floor_half_exact Let_def)

text \<open>
  What the bisection needs of its test: it returns for every bandwidth up to \<open>top\<close>, and more
  bandwidth never hurts.
\<close>

locale band_test =
  fixes valid :: "'i \<Rightarrow> bool" and chk :: "'i \<Rightarrow> int \<Rightarrow> bool option" and top :: "'i \<Rightarrow> int"
  assumes top_bound: "valid i \<Longrightarrow> top i \<le> 1000"
    and returns: "valid i \<Longrightarrow> 1 \<le> b \<Longrightarrow> b \<le> top i \<Longrightarrow> chk i b \<noteq> None"
    and more_is_fine: "valid i \<Longrightarrow> 1 \<le> b \<Longrightarrow> b \<le> b' \<Longrightarrow> b' \<le> top i \<Longrightarrow>
       chk i b = Some True \<Longrightarrow> chk i b' = Some True"
begin

lemma bisect_from:
  assumes "valid i" "0 \<le> lo" "lo < hi" "hi \<le> h" "h \<le> top i"
    and "lo = 0 \<or> chk i lo = Some False" and "hi = h \<or> chk i hi = Some True"
  shows "\<exists>m. bisect_loop (chk i) lo hi = Some m \<and> lo < m \<and> m \<le> hi \<and>
     (m = 1 \<or> chk i (m - 1) = Some False) \<and> (m = h \<or> chk i m = Some True)"
  using assms
proof (induction "nat (hi - lo)" arbitrary: lo hi rule: less_induct)
  case less
  have b: "0 \<le> lo" "lo \<le> hi" "hi \<le> 1000" using less.prems top_bound [of i] by auto
  show ?case
  proof (cases "lo < hi - 1")
    case False
    with less.prems have "hi = lo + 1" by simp
    moreover have "bisect_loop (chk i) lo hi = Some hi" using False by (simp add: bisect_loop_step [OF b])
    ultimately show ?thesis using less.prems by (intro exI [of _ hi]) auto
  next
    case True
    define mid where "mid = (lo + hi) div 2"
    have mid: "lo < mid" "mid < hi" using True by (auto simp: mid_def)
    obtain r where r: "chk i mid = Some r"
      using returns [of i mid] less.prems mid by auto
    show ?thesis
    proof (cases r)
      case True
      with less.hyps [of mid lo] less.prems mid r obtain m where
        "bisect_loop (chk i) lo mid = Some m \<and> lo < m \<and> m \<le> mid \<and>
         (m = 1 \<or> chk i (m - 1) = Some False) \<and> (m = h \<or> chk i m = Some True)" by auto
      with mid r True \<open>lo < hi - 1\<close> show ?thesis
        by (intro exI [of _ m]) (simp add: bisect_loop_step [OF b] flip: mid_def)
    next
      case False
      with less.hyps [of hi mid] less.prems mid r obtain m where
        "bisect_loop (chk i) mid hi = Some m \<and> mid < m \<and> m \<le> hi \<and>
         (m = 1 \<or> chk i (m - 1) = Some False) \<and> (m = h \<or> chk i m = Some True)" by auto
      with mid r False \<open>lo < hi - 1\<close> show ?thesis
        by (intro exI [of _ m]) (simp add: bisect_loop_step [OF b] flip: mid_def)
    qed
  qed
qed

lemma bisect_least:
  assumes v: "valid i" and h: "1 \<le> h" "h \<le> top i"
  shows "\<exists>m. bisect_loop (chk i) 0 h = Some m \<and> 1 \<le> m \<and> m \<le> h \<and>
     (\<forall>b. 1 \<le> b \<longrightarrow> b < m \<longrightarrow> chk i b = Some False) \<and> (m = h \<or> chk i m = Some True)"
proof -
  from bisect_from [OF v, of 0 h h] h obtain m where
    m: "bisect_loop (chk i) 0 h = Some m" "0 < m" "m \<le> h"
       "m = 1 \<or> chk i (m - 1) = Some False" "m = h \<or> chk i m = Some True" by auto
  have "chk i b = Some False" if b: "1 \<le> b" "b < m" for b
  proof -
    have "b \<le> top i" using b m h by linarith
    then obtain r where "chk i b = Some r" using returns [OF v, of b] b by auto
    moreover have "chk i b \<noteq> Some True"
      using more_is_fine [OF v, of b "m - 1"] b m h by auto
    ultimately show ?thesis by auto
  qed
  with m show ?thesis by auto
qed

end

section \<open>The response-time recurrence\<close>

text \<open>
  A task of execution time \<open>c\<close> runs in a server that supplies \<open>s\<close> units every \<open>p\<close>. The tasks
  of higher priority in the same server are \<open>hs\<close> (execution time, period), the higher-priority
  servers on the core take \<open>ix\<close>. \<open>resp\<close> is the recurrence of the test and \<open>resp0\<close> its start.
\<close>

definition hload :: "(int \<times> int) list \<Rightarrow> int \<Rightarrow> int" where
  "hload hs w = (\<Sum>(ch, ph)\<leftarrow>hs. cdiv (w + (ph - ch)) ph * ch)"

definition resp :: "int \<Rightarrow> int \<Rightarrow> int \<Rightarrow> int \<Rightarrow> (int \<times> int) list \<Rightarrow> int \<Rightarrow> int" where
  "resp p s ix c hs w = (let l = c + hload hs w in l + (cdiv l s - 1) * (p - s) + ix)"

definition resp0 :: "int \<Rightarrow> int \<Rightarrow> int \<Rightarrow> int" where
  "resp0 p s c = c + (cdiv c s - 1) * (p - s)"

definition hp_ok :: "int \<Rightarrow> (int \<times> int) list \<Rightarrow> bool" where
  "hp_ok B hs \<longleftrightarrow> (\<forall>(ch, ph)\<in>set hs. 1 \<le> ch \<and> ch \<le> ph \<and> ph \<le> B)"

lemma hp_ok_simps [simp]:
  "hp_ok B []" "hp_ok B ((ch, ph) # hs) \<longleftrightarrow> 1 \<le> ch \<and> ch \<le> ph \<and> ph \<le> B \<and> hp_ok B hs"
  by (auto simp: hp_ok_def)

lemma hload_simps [simp]:
  "hload [] w = 0" "hload ((ch, ph) # hs) w = cdiv (w + (ph - ch)) ph * ch + hload hs w"
  by (simp_all add: hload_def)

lemma hload_term_bounds:
  assumes "1 \<le> ch" "ch \<le> ph" "ph \<le> B" "0 < w"
  shows "1 \<le> cdiv (w + (ph - ch)) ph" "cdiv (w + (ph - ch)) ph * ch \<le> w + 2 * B"
proof -
  let ?x = "w + (ph - ch)"
  show pos: "1 \<le> cdiv ?x ph" using assms by (intro cdiv_pos) auto
  have "cdiv ?x ph * ch \<le> cdiv ?x ph * ph" using pos assms by (intro mult_left_mono) auto
  also have "\<dots> \<le> ?x + ph" using cdiv_less [of ph ?x] assms by (simp add: algebra_simps)
  finally show "cdiv ?x ph * ch \<le> w + 2 * B" using assms by linarith
qed

lemma hload_nonneg: "hp_ok B hs \<Longrightarrow> 0 < w \<Longrightarrow> 0 \<le> hload hs w"
proof (induction hs)
  case (Cons h hs)
  then show ?case using hload_term_bounds(1) [of "fst h" "snd h" B w] by (cases h) auto
qed simp

lemma hload_le: "hp_ok B hs \<Longrightarrow> 0 < w \<Longrightarrow> hload hs w \<le> int (length hs) * (w + 2 * B)"
proof (induction hs)
  case (Cons h hs)
  then show ?case using hload_term_bounds(2) [of "fst h" "snd h" B w]
    by (cases h) (auto simp: algebra_simps)
qed simp

lemma hload_mono: "hp_ok B hs \<Longrightarrow> w \<le> w' \<Longrightarrow> hload hs w \<le> hload hs w'"
proof (induction hs)
  case (Cons h hs)
  obtain ch ph where h: "h = (ch, ph)" by (cases h)
  with Cons.prems have "cdiv (w + (ph - ch)) ph * ch \<le> cdiv (w' + (ph - ch)) ph * ch"
    by (intro mult_right_mono cdiv_mono) auto
  moreover have "hload hs w \<le> hload hs w'" using Cons h by simp
  ultimately show ?case unfolding h hload_simps by (rule add_mono)
qed simp

lemma resp0_pos: "0 < s \<Longrightarrow> s \<le> p \<Longrightarrow> 1 \<le> c \<Longrightarrow> 0 < resp0 p s c"
  using cdiv_pos [of s c] by (simp add: resp0_def add_pos_nonneg)

lemma gap_mono:
  assumes "0 < s" "s \<le> p" "l \<le> l'"
  shows "(cdiv l s - 1) * (p - s) \<le> (cdiv l' s - 1) * (p - s)"
  using assms cdiv_mono [of s l l'] by (intro mult_right_mono) auto

lemma resp_mono:
  assumes "0 < s" "s \<le> p" "hp_ok B hs" "w \<le> w'"
  shows "resp p s ix c hs w \<le> resp p s ix c hs w'"
proof -
  have "hload hs w \<le> hload hs w'" using assms hload_mono by blast
  with gap_mono [of s p "c + hload hs w" "c + hload hs w'"] assms show ?thesis
    by (simp add: resp_def Let_def)
qed

lemma resp0_le_resp:
  assumes "0 < s" "s \<le> p" "hp_ok B hs" "0 \<le> ix" "0 < w"
  shows "resp0 p s c \<le> resp p s ix c hs w"
proof -
  have "0 \<le> hload hs w" using assms hload_nonneg by blast
  with gap_mono [of s p c "c + hload hs w"] assms show ?thesis
    by (simp add: resp_def resp0_def Let_def)
qed

text \<open>A larger capacity makes every window shorter.\<close>

lemma gap_antimono:
  assumes "0 < s" "s \<le> s'" "s' \<le> p" "0 < l"
  shows "(cdiv l s' - 1) * (p - s') \<le> (cdiv l s - 1) * (p - s)"
  using assms cdiv_antimono [of s s' l] cdiv_pos [of s' l] by (intro mult_mono) auto

lemma resp_antimono:
  assumes "0 < s" "s \<le> s'" "s' \<le> p" "hp_ok B hs" "1 \<le> c" "0 < w"
  shows "resp p s' ix c hs w \<le> resp p s ix c hs w"
proof -
  have "0 \<le> hload hs w" using assms hload_nonneg by blast
  with gap_antimono [of s s' p "c + hload hs w"] assms show ?thesis
    by (simp add: resp_def Let_def)
qed

lemma resp0_antimono:
  "0 < s \<Longrightarrow> s \<le> s' \<Longrightarrow> s' \<le> p \<Longrightarrow> 1 \<le> c \<Longrightarrow> resp0 p s' c \<le> resp0 p s c"
  using gap_antimono [of s s' p c] by (simp add: resp0_def)

end
