(* ===== verification/Rubicante_Sched.thy ===== *)
theory Rubicante_Sched
  imports Rta
begin

text \<open>
  The admission test of the node daemon, \<open>src/rubicante/nodeImplementation.go\<close>. Integers are
  Go's 64-bit \<open>int\<close> with wrap-around written out, the quotients that the code rounds up are
  computed in \<open>float64\<close>, and the loops that need not end are partial functions. Theory
  \<open>Rubicante_Exact\<close> relates the arithmetic to the exact recurrence of theory \<open>Rta\<close>, theory
  \<open>Rubicante_Admission\<close> states what the answers of the test mean.
\<close>

section \<open>Data\<close>

definition SERVERPERIOD :: int where "SERVERPERIOD = 2500"
definition THRESHOLDSCHED :: int where "THRESHOLDSCHED = 80"

record task =
  Period :: int
  Wcet :: int
  Prio :: int

record container =
  tasks :: "task list"
  band :: int
  name :: string
  period :: int
  prio :: int
  core :: int

record schedRequest =
  Tasks :: "task list"
  Name :: string
  Criticality :: string

record schedResult =
  Schedulable :: bool
  Bandwidth :: int
  Core :: int
  Error :: string

text \<open>The daemon's global state; \<open>m\<close> is the mutex, \<open>True\<close> while it is held.\<close>

record rstate =
  containers :: "container list"
  m :: bool
  changed :: bool

section \<open>Task and container tests\<close>

text \<open>The load of the higher-priority tasks of the same container in a window \<open>wold\<close>.\<close>

fun load_higher :: "task \<Rightarrow> int \<Rightarrow> int \<Rightarrow> task list \<Rightarrow> int" where
  "load_higher t wold acc [] = acc"
| "load_higher t wold acc (u # us) =
     (if Prio u > Prio t
      then (let chigher = Wcet u; phigher = Period u; jhigher = wrap64 (Period u - Wcet u)
            in load_higher t wold
                 (wrap64 (acc + wrap64 (f64_ceil_div (wrap64 (wold + jhigher)) phigher * chigher))) us)
      else load_higher t wold acc us)"

text \<open>The capacity of the servers of higher priority.\<close>

fun interference :: "int \<Rightarrow> int \<Rightarrow> container list \<Rightarrow> int" where
  "interference prioser acc [] = acc"
| "interference prioser acc (server # ss) =
     (if prio server > prioser
      then (let px = period server; cx = go_div (wrap64 (band server * px)) 100
            in interference prioser (wrap64 (acc + cx)) ss)
      else interference prioser acc ss)"

definition gaps :: "int \<Rightarrow> int \<Rightarrow> int \<Rightarrow> int" where
  "gaps pser cser load = wrap64 (f64_ceil_div_m1 load cser * wrap64 (pser - cser))"

text \<open>One pass through the loop body: the new window from the old one.\<close>

definition window :: "container list \<Rightarrow> task list \<Rightarrow> int \<Rightarrow> int \<Rightarrow> int \<Rightarrow> task \<Rightarrow> int \<Rightarrow> int" where
  "window cs ts pser cser prioser t wold =
     (let load = wrap64 (Wcet t + load_higher t wold 0 ts)
      in wrap64 (wrap64 (load + gaps pser cser load) + interference prioser 0 cs))"

definition Task_checkSchedulability ::
  "container list \<Rightarrow> task list \<Rightarrow> int \<Rightarrow> int \<Rightarrow> int \<Rightarrow> task \<Rightarrow> bool option" where
  "Task_checkSchedulability cs ts pser cser prioser t =
     (let w0 = wrap64 (Wcet t + gaps pser cser (Wcet t));
          offset = wrap64 (pser - cser)
      in fixpoint_loop (window cs ts pser cser prioser t) (wrap64 (Period t - offset)) 0 w0)"

fun all_schedulable :: "(task \<Rightarrow> bool option) \<Rightarrow> task list \<Rightarrow> bool option" where
  "all_schedulable test [] = Some True"
| "all_schedulable test (t # ts) =
     Option.bind (test t) (\<lambda>ok. if ok then all_schedulable test ts else Some False)"

definition Container_checkSchedulability :: "container list \<Rightarrow> container \<Rightarrow> bool option" where
  "Container_checkSchedulability cs c =
     (let pser = period c; cser = go_div (wrap64 (band c * pser)) 100
      in if prio c \<noteq> -1
         then all_schedulable (Task_checkSchedulability cs (tasks c) pser cser (prio c)) (tasks c)
         else Some False)"

section \<open>The least bandwidth of a container\<close>

fun allotted :: "int \<Rightarrow> int \<Rightarrow> container list \<Rightarrow> int" where
  "allotted p acc [] = acc"
| "allotted p acc (server # ss) =
     allotted p (if prio server > p then wrap64 (acc + band server) else acc) ss"

text \<open>
  The receiver is returned with the bandwidth the search leaves in it. It may itself occur in
  \<open>cs\<close>; only servers of strictly higher priority are read there, so the bandwidths the search
  writes into the receiver are never read back through \<open>cs\<close> (\<open>binSearch_no_alias\<close> below).
\<close>

definition binSearch :: "container list \<Rightarrow> container \<Rightarrow> (bool \<times> container) option" where
  "binSearch cs c =
     (let maxb0 = wrap64 (99 - allotted (prio c) 0 cs)
      in Option.bind (bisect_loop (\<lambda>b. Container_checkSchedulability cs (c\<lparr>band := b\<rparr>)) 0 maxb0)
           (\<lambda>b. let maxb = wrap64 (b + 1); c' = c\<lparr>band := maxb\<rparr>
                in map_option (\<lambda>ok. (ok \<and> maxb < THRESHOLDSCHED, c'))
                     (Container_checkSchedulability cs c')))"

section \<open>Priorities and bandwidth accounting\<close>

fun minPeriod_from :: "int \<Rightarrow> task list \<Rightarrow> int" where
  "minPeriod_from mn [] = mn"
| "minPeriod_from mn (t # ts) = minPeriod_from (if Period t < mn then Period t else mn) ts"

definition getMinPeriod :: "task list \<Rightarrow> int go" where
  "getMinPeriod ts = (case ts of [] \<Rightarrow> Panic IndexOutOfRange | t # _ \<Rightarrow> Ret (minPeriod_from (Period t) ts))"

definition minp :: "container \<Rightarrow> int" where
  "minp c = minPeriod_from (Period (hd (tasks c))) (tasks c)"

text \<open>
  The request's priority, and the containers in the order the sort leaves them in. Every container's
  shortest period is computed, by the comparisons of the sort or by the loop after it, so one
  without tasks is a panic.
\<close>

definition setPrio :: "task list \<Rightarrow> container list \<Rightarrow> (int \<times> container list) go" where
  "setPrio ts cs =
     go_bind (getMinPeriod ts) (\<lambda>mn.
       if \<exists>c\<in>set cs. tasks c = [] then Panic IndexOutOfRange
       else (let cs' = sliceStable minp cs;
                 i = length (takeWhile (\<lambda>c. \<not> mn < minp c) cs')
             in Ret (if i = 0 then 128
                     else if i = length cs' then go_div (prio (cs' ! (i - 1))) 2
                     else go_div (wrap64 (prio (cs' ! i) + prio (cs' ! (i - 1)))) 2,
                     cs')))"

fun bandwidths_from :: "container list \<Rightarrow> int list \<Rightarrow> int list go" where
  "bandwidths_from [] used = Ret used"
| "bandwidths_from (c # cs) used =
     (if 0 \<le> core c \<and> core c < int (length used)
      then bandwidths_from cs (used[nat (core c) := wrap64 (used ! nat (core c) + band c)])
      else Panic IndexOutOfRange)"

definition getBandwidths :: "nat \<Rightarrow> container list \<Rightarrow> int list go" where
  "getBandwidths nCPUs cs = bandwidths_from cs (replicate nCPUs 0)"

section \<open>The admission test\<close>

text \<open>
  The slice \<open>cs\<close> of the code holds pointers into \<open>state.containers\<close> and, last, the pointer to
  the new container. The heap is a list: the state's containers followed by the new one; a pointer
  is an index into it.
\<close>

type_synonym heap = "container list"

definition set_band :: "nat \<Rightarrow> int \<Rightarrow> heap \<Rightarrow> heap" where
  "set_band p b h = h[p := (h ! p)\<lparr>band := b\<rparr>]"

text \<open>
  The loop over \<open>cs\<close> after the new container \<open>cp\<close> has found a bandwidth: it records each
  bandwidth for the roll-back, searches again for every container of lower priority and stops at
  the first that has no bandwidth. The result is the flag, the heap, the sum of the bandwidths and
  the bandwidths recorded so far.
\<close>

fun retune :: "nat \<Rightarrow> nat list \<Rightarrow> nat list \<Rightarrow> heap \<Rightarrow> int \<Rightarrow> int list
    \<Rightarrow> (bool \<times> heap \<times> int \<times> int list) option" where
  "retune cp cs [] h newbw rb = Some (True, h, newbw, rb)"
| "retune cp cs (p # ps) h newbw rb =
     (let rb' = rb @ [band (h ! p)]
      in if prio (h ! p) < prio (h ! cp)
         then Option.bind (binSearch (map ((!) h) cs) (h ! p)) (\<lambda>(ok, c').
                let h' = h[p := c']
                in if \<not> ok then Some (False, h', newbw, rb')
                   else retune cp cs ps h' (wrap64 (newbw + band c')) rb')
         else retune cp cs ps h (wrap64 (newbw + band (h ! p))) rb')"

text \<open>
  \<open>for i := range cs { cs[i].band = rollbackBandwidths[i] }\<close>: the slice of recorded bandwidths
  has the length of \<open>cs\<close> and is zero where nothing was recorded.
\<close>

fun rollback :: "nat list \<Rightarrow> int list \<Rightarrow> heap \<Rightarrow> heap" where
  "rollback [] rb h = h"
| "rollback (p # ps) [] h = rollback ps [] (set_band p 0 h)"
| "rollback (p # ps) (b # rb) h = rollback ps rb (set_band p b h)"

definition on_core :: "int \<Rightarrow> heap \<Rightarrow> nat list" where
  "on_core k h = filter (\<lambda>p. core (h ! p) = k) [0..<length h - 1]"

text \<open>The loop over the cores, from core \<open>k\<close>. The new container is the last of the heap.\<close>

function try_cores :: "nat \<Rightarrow> bool \<Rightarrow> nat \<Rightarrow> heap \<Rightarrow> int list \<Rightarrow> bool
    \<Rightarrow> (schedResult \<times> int list \<times> container list \<times> bool) option" where
  "try_cores nCPUs persistent k h used chg =
     (if k < nCPUs
      then (let n = length h - 1; cs = on_core (int k) h
            in Option.bind (binSearch (map ((!) h) cs) (h ! n)) (\<lambda>(sched, c').
              let h1 = h[n := c']
              in if wrap64 (used ! k + band c') \<le> THRESHOLDSCHED \<and> sched
                 then (let cs' = sliceStable (\<lambda>p. - prio (h1 ! p)) (cs @ [n])
                       in Option.bind (retune n cs' cs' h1 0 []) (\<lambda>(sched', h2, newbw, rb).
                         if sched'
                         then (let h3 = h2[n := (h2 ! n)\<lparr>core := int k\<rparr>];
                                   h4 = (if persistent then h3 else rollback cs' rb h3)
                               in Some (\<lparr>Schedulable = True, Bandwidth = band (h4 ! n),
                                         Core = int k, Error = ''''\<rparr>,
                                       used[k := newbw],
                                       if persistent then h4 else butlast h4,
                                       chg \<or> persistent))
                         else try_cores nCPUs persistent (Suc k) (rollback cs' rb h2) used chg))
                 else try_cores nCPUs persistent (Suc k) h1 used chg))
      else Some (\<lparr>Schedulable = False, Bandwidth = 0, Core = 0, Error = ''Not enough CPU bandwidth''\<rparr>,
                 used, butlast h, chg))"
  by pat_completeness auto
termination
  by (relation "measure (\<lambda>(nCPUs, _, k, _). nCPUs - k)") auto

declare try_cores.simps [simp del]

definition schedTest :: "nat \<Rightarrow> schedRequest \<Rightarrow> bool \<Rightarrow> rstate \<Rightarrow> (schedResult \<times> int list \<times> rstate) go" where
  "schedTest nCPUs args persistent s =
     go_bind (setPrio (Tasks args) (containers s)) (\<lambda>(prioComputed, cs).
       let c = \<lparr>tasks = Tasks args, band = 100, name = Name args, period = SERVERPERIOD,
                prio = prioComputed, core = 0\<rparr>
       in go_bind (getBandwidths nCPUs cs) (\<lambda>used.
            go_bind (go_of_option (try_cores nCPUs persistent 0 (cs @ [c]) used (changed s)))
              (\<lambda>(res, used', cs', chg). Ret (res, used', s\<lparr>containers := cs', changed := chg\<rparr>))))"

text \<open>\<open>convertWcet\<close> ranges over copies of the tasks: its assignments are lost. It has no caller.\<close>

definition convertWcet :: "int \<Rightarrow> schedRequest \<Rightarrow> schedRequest" where
  "convertWcet WCETmultiplier args = args"

definition allocateResources :: "schedResult \<Rightarrow> int" where
  "allocateResources sr = 1"

end
