(* ===== verification/Rubicante_Exact.thy ===== *)
theory Rubicante_Exact
  imports Rubicante_Sched
begin

text \<open>
  For requests in range the machine arithmetic of the admission test is exact: the task-level test
  decides the existence of a feasible window, the container-level test is monotone in the
  bandwidth, and the bisection returns the least feasible bandwidth plus one.
\<close>

section \<open>Requests in range\<close>

text \<open>
  Bounds under which no operation of the test overflows and every rounded quotient is exact:
  periods up to \<open>2 ^ 32\<close> microseconds (over an hour), at most a thousand tasks in a container
  and a thousand containers on a core, the server period fixed by the kernel.
\<close>

definition task_ok :: "task \<Rightarrow> bool" where
  "task_ok t \<longleftrightarrow> 1 \<le> Wcet t \<and> Wcet t \<le> Period t \<and> Period t \<le> 2 ^ 32"

definition tasks_ok :: "task list \<Rightarrow> bool" where
  "tasks_ok ts \<longleftrightarrow> length ts \<le> 1000 \<and> (\<forall>t\<in>set ts. task_ok t)"

definition server_ok :: "container \<Rightarrow> bool" where
  "server_ok c \<longleftrightarrow> period c = SERVERPERIOD \<and> 0 \<le> band c \<and> band c \<le> 100"

definition servers_ok :: "container list \<Rightarrow> bool" where
  "servers_ok cs \<longleftrightarrow> length cs \<le> 1000 \<and> (\<forall>c\<in>set cs. server_ok c)"

text \<open>The exact counterparts: higher-priority tasks, interference, and feasibility of a task and of a container at bandwidth \<open>b\<close>.\<close>

definition hps :: "task \<Rightarrow> task list \<Rightarrow> (int \<times> int) list" where
  "hps t ts = map (\<lambda>u. (Wcet u, Period u)) (filter (\<lambda>u. Prio t < Prio u) ts)"

definition interf :: "int \<Rightarrow> container list \<Rightarrow> int" where
  "interf p cs = (\<Sum>c\<leftarrow>filter (\<lambda>c. p < prio c) cs. 25 * band c)"

definition task_feasible :: "container list \<Rightarrow> task list \<Rightarrow> int \<Rightarrow> int \<Rightarrow> task \<Rightarrow> bool" where
  "task_feasible cs ts b p t \<longleftrightarrow>
     (\<exists>v\<ge>resp0 2500 (25 * b) (Wcet t). v \<le> Period t - (2500 - 25 * b) \<and>
        resp 2500 (25 * b) (interf p cs) (Wcet t) (hps t ts) v \<le> v)"

definition feasible :: "container list \<Rightarrow> container \<Rightarrow> int \<Rightarrow> bool" where
  "feasible cs c b \<longleftrightarrow> prio c \<noteq> -1 \<and> (\<forall>t\<in>set (tasks c). task_feasible cs (tasks c) b (prio c) t)"

definition higher_band :: "int \<Rightarrow> container list \<Rightarrow> int" where
  "higher_band p cs = (\<Sum>c\<leftarrow>filter (\<lambda>c. p < prio c) cs. band c)"

section \<open>The machine arithmetic is exact\<close>

lemma hps_ok: "tasks_ok ts \<Longrightarrow> hp_ok (2 ^ 32) (hps t ts)"
  by (auto simp: tasks_ok_def hp_ok_def hps_def task_ok_def)

lemma hps_length: "tasks_ok ts \<Longrightarrow> length (hps t ts) \<le> 1000"
  by (auto simp: tasks_ok_def hps_def intro: le_trans [OF length_filter_le])

lemma load_higher_exact:
  assumes "\<forall>u\<in>set us. task_ok u" "0 < w" "w \<le> 2 ^ 40" "0 \<le> acc" "acc + hload (hps t us) w < 2 ^ 53"
  shows "load_higher t w acc us = acc + hload (hps t us) w"
  using assms
proof (induction us arbitrary: acc)
  case (Cons u us)
  have hp: "hp_ok (2 ^ 32) (hps t us)"
    using Cons.prems(1) by (auto simp: hp_ok_def hps_def task_ok_def)
  show ?case
  proof (cases "Prio t < Prio u")
    case True
    let ?x = "w + (Period u - Wcet u)"
    have u: "1 \<le> Wcet u" "Wcet u \<le> Period u" "Period u \<le> 2 ^ 32"
      using Cons.prems(1) by (simp_all add: task_ok_def)
    have w1: "wrap64 (Period u - Wcet u) = Period u - Wcet u" "wrap64 ?x = ?x"
      using u Cons.prems by (auto intro!: wrap64_range)
    have q: "f64_ceil_div ?x (Period u) = cdiv ?x (Period u)"
      unfolding cdiv_def using u Cons.prems by (intro f64_ceil_div_exact) auto
    let ?k = "cdiv ?x (Period u) * Wcet u"
    have k: "1 \<le> cdiv ?x (Period u)" "?k \<le> w + 2 * 2 ^ 32"
      using hload_term_bounds [OF u] Cons.prems by blast+
    then have k0: "0 \<le> ?k" using u by (simp add: mult_nonneg_nonneg)
    have h0: "0 \<le> hload (hps t us) w" using hload_nonneg [OF hp] Cons.prems by blast
    have eq: "hload (hps t (u # us)) w = ?k + hload (hps t us) w"
      using True by (simp add: hps_def)
    have w2: "wrap64 ?k = ?k" "wrap64 (acc + ?k) = acc + ?k"
      using k k0 h0 eq Cons.prems by (auto intro!: wrap64_range)
    have "load_higher t w acc (u # us) = load_higher t w (acc + ?k) us"
      using True by (simp add: Let_def w1 q w2)
    also have "\<dots> = acc + ?k + hload (hps t us) w"
      using Cons.prems k0 eq by (intro Cons.IH) auto
    finally show ?thesis by (simp add: eq)
  next
    case False
    then show ?thesis using Cons by (simp add: hps_def)
  qed
qed (simp add: hps_def)

lemma sum_list_bound:
  "(\<And>x. x \<in> set xs \<Longrightarrow> 0 \<le> f x \<and> f x \<le> (k::int)) \<Longrightarrow>
     0 \<le> sum_list (map f xs) \<and> sum_list (map f xs) \<le> int (length xs) * k"
  by (induction xs) (auto simp: algebra_simps intro: add_mono)

lemma interf_bounds:
  assumes "servers_ok cs"
  shows "0 \<le> interf p cs" "interf p cs \<le> 2500000"
proof -
  let ?hs = "filter (\<lambda>c. p < prio c) cs"
  have "0 \<le> interf p cs \<and> interf p cs \<le> int (length ?hs) * 2500"
    unfolding interf_def using assms
    by (intro sum_list_bound) (auto simp: servers_ok_def server_ok_def)
  moreover have "length ?hs \<le> 1000"
    using assms by (auto simp: servers_ok_def intro: le_trans [OF length_filter_le])
  ultimately show "0 \<le> interf p cs" "interf p cs \<le> 2500000" by auto
qed

lemma capacity_exact:
  "server_ok c \<Longrightarrow> go_div (wrap64 (band c * period c)) 100 = 25 * band c"
proof -
  assume "server_ok c"
  then have b: "0 \<le> band c" "band c \<le> 100" "period c = 2500"
    by (auto simp: server_ok_def SERVERPERIOD_def)
  moreover have "wrap64 (band c * 2500) = band c * 2500"
    using b by (intro wrap64_range) auto
  moreover have "go_div (band c * 2500) 100 = band c * 2500 div 100"
    using b by (intro go_div_nonneg) auto
  ultimately show ?thesis by simp
qed

lemma interference_exact:
  assumes "\<forall>c\<in>set cs. server_ok c" "0 \<le> acc" "acc + interf p cs < 2 ^ 53"
  shows "interference p acc cs = acc + interf p cs"
  using assms
proof (induction cs arbitrary: acc)
  case (Cons c cs)
  have nn: "0 \<le> interf p cs" "0 \<le> band c"
    using Cons.prems(1) sum_list_bound [of "filter (\<lambda>c. p < prio c) cs" "\<lambda>c. 25 * band c" 2500]
    by (auto simp: interf_def server_ok_def)
  show ?case
  proof (cases "p < prio c")
    case True
    then have eq: "interf p (c # cs) = 25 * band c + interf p cs" by (simp add: interf_def)
    have "wrap64 (acc + 25 * band c) = acc + 25 * band c"
      using nn eq Cons.prems by (intro wrap64_range) auto
    with True have "interference p acc (c # cs) = interference p (acc + 25 * band c) cs"
      using Cons.prems by (simp add: Let_def capacity_exact)
    also have "\<dots> = acc + 25 * band c + interf p cs"
      using nn eq Cons.prems by (intro Cons.IH) auto
    finally show ?thesis by (simp add: eq)
  next
    case False
    then show ?thesis using Cons by (simp add: interf_def)
  qed
qed (simp add: interf_def)

lemma gap_bound:
  assumes "25 \<le> s" "s \<le> 2500" "0 < l"
  shows "0 \<le> (cdiv l s - 1) * (2500 - s)" "(cdiv l s - 1) * (2500 - s) \<le> 99 * l"
proof -
  define k where "k = cdiv l s - 1"
  have k: "0 \<le> k" using cdiv_pos [of s l] assms by (simp add: k_def)
  have "25 * k \<le> s * k" using k assms by (intro mult_right_mono) auto
  also have "s * k < l" using cdiv_less [of s l] assms by (simp add: k_def mult.commute)
  finally have "25 * k < l" .
  moreover have "k * (2500 - s) \<le> k * 2475" using k assms by (intro mult_left_mono) auto
  ultimately show "0 \<le> (cdiv l s - 1) * (2500 - s)" "(cdiv l s - 1) * (2500 - s) \<le> 99 * l"
    using k assms by (simp_all flip: k_def)
qed

lemma gaps_exact:
  assumes "25 \<le> s" "s \<le> 2500" "0 < l" "l < 2 ^ 52"
  shows "gaps 2500 s l = (cdiv l s - 1) * (2500 - s)"
proof -
  have "f64_ceil_div_m1 l s = cdiv l s - 1"
    unfolding cdiv_def using assms by (intro f64_ceil_div_m1_exact) auto
  moreover have "wrap64 (2500 - s) = 2500 - s"
    using assms by (intro wrap64_range) auto
  moreover have "wrap64 ((cdiv l s - 1) * (2500 - s)) = (cdiv l s - 1) * (2500 - s)"
    using gap_bound [of s l] assms by (intro wrap64_range) auto
  ultimately show ?thesis by (simp add: gaps_def)
qed

lemma load_bounds:
  assumes "task_ok t" "tasks_ok ts" "0 < w" "w \<le> 2 ^ 39"
  shows "0 < Wcet t + hload (hps t ts) w" "Wcet t + hload (hps t ts) w < 2 ^ 51"
    "hload (hps t ts) w < 2 ^ 53" "0 \<le> hload (hps t ts) w"
proof -
  have "int (length (hps t ts)) * (w + 2 * 2 ^ 32) \<le> 1000 * (2 ^ 39 + 2 * 2 ^ 32)"
    using hps_length [OF assms(2), of t] assms by (intro mult_mono) auto
  with hload_le [OF hps_ok [OF assms(2)], of w t] hload_nonneg [OF hps_ok [OF assms(2)], of w t] assms
  show "0 < Wcet t + hload (hps t ts) w" "Wcet t + hload (hps t ts) w < 2 ^ 51"
    "hload (hps t ts) w < 2 ^ 53" "0 \<le> hload (hps t ts) w"
    by (auto simp: task_ok_def)
qed

text \<open>An instance of the task-level test: servers, tasks, bandwidth, priority and task.\<close>

type_synonym inst = "container list \<times> task list \<times> int \<times> int \<times> task"

definition inst_ok :: "inst \<Rightarrow> bool" where
  "inst_ok = (\<lambda>(cs, ts, b, p, t). servers_ok cs \<and> tasks_ok ts \<and> task_ok t \<and> 1 \<le> b \<and> b \<le> 100)"

lemma window_exact:
  assumes ok: "inst_ok (cs, ts, b, p, t)" and w: "0 < w" "w \<le> 2 ^ 39"
  shows "window cs ts 2500 (25 * b) p t w = resp 2500 (25 * b) (interf p cs) (Wcet t) (hps t ts) w"
proof -
  let ?h = "hload (hps t ts) w" and ?s = "25 * b"
  let ?l = "Wcet t + ?h"
  have t: "task_ok t" "tasks_ok ts" "servers_ok cs" and b: "25 \<le> ?s" "?s \<le> 2500"
    using ok by (auto simp: inst_ok_def)
  note lb = load_bounds [OF t(1,2) w]
  have lh: "load_higher t w 0 ts = ?h"
    using load_higher_exact [of ts w 0 t] t lb w by (simp add: tasks_ok_def)
  have g: "gaps 2500 ?s ?l = (cdiv ?l ?s - 1) * (2500 - ?s)"
    using gaps_exact [OF b, of ?l] lb by simp
  note gb = gap_bound [OF b lb(1)] and ib = interf_bounds [OF t(3), of p]
  have i: "interference p 0 cs = interf p cs"
    using interference_exact [of cs 0 p] ib t by (simp add: servers_ok_def)
  have "wrap64 ?l = ?l" "wrap64 (?l + (cdiv ?l ?s - 1) * (2500 - ?s)) = ?l + (cdiv ?l ?s - 1) * (2500 - ?s)"
    "wrap64 (?l + (cdiv ?l ?s - 1) * (2500 - ?s) + interf p cs) = ?l + (cdiv ?l ?s - 1) * (2500 - ?s) + interf p cs"
    using lb gb ib by (auto intro!: wrap64_range)
  then show ?thesis by (simp add: window_def resp_def Let_def lh g i)
qed

lemma start_exact:
  assumes ok: "inst_ok (cs, ts, b, p, t)"
  shows "wrap64 (Wcet t + gaps 2500 (25 * b) (Wcet t)) = resp0 2500 (25 * b) (Wcet t)"
    and "0 < resp0 2500 (25 * b) (Wcet t)" and "resp0 2500 (25 * b) (Wcet t) \<le> 2 ^ 39"
proof -
  have t: "1 \<le> Wcet t" "Wcet t \<le> 2 ^ 32" and b: "25 \<le> 25 * b" "25 * b \<le> 2500"
    using ok by (auto simp: inst_ok_def task_ok_def)
  then have g: "gaps 2500 (25 * b) (Wcet t) = (cdiv (Wcet t) (25 * b) - 1) * (2500 - 25 * b)"
    by (intro gaps_exact) auto
  have gb: "0 \<le> (cdiv (Wcet t) (25 * b) - 1) * (2500 - 25 * b)"
    "(cdiv (Wcet t) (25 * b) - 1) * (2500 - 25 * b) \<le> 99 * Wcet t"
    using gap_bound [OF b, of "Wcet t"] t by auto
  show "wrap64 (Wcet t + gaps 2500 (25 * b) (Wcet t)) = resp0 2500 (25 * b) (Wcet t)"
    unfolding g resp0_def using gb t by (intro wrap64_range) auto
  show "0 < resp0 2500 (25 * b) (Wcet t)" "resp0 2500 (25 * b) (Wcet t) \<le> 2 ^ 39"
    using gb t by (auto simp: resp0_def)
qed

lemma bound_exact:
  "inst_ok (cs, ts, b, p, t) \<Longrightarrow>
     wrap64 (Period t - wrap64 (2500 - 25 * b)) = Period t - (2500 - 25 * b)"
  by (auto simp: inst_ok_def task_ok_def wrap64_range)

section \<open>The task-level test meets the interface of the loop\<close>

definition inst_window :: "inst \<Rightarrow> int \<Rightarrow> int" where
  "inst_window = (\<lambda>(cs, ts, b, p, t). window cs ts 2500 (25 * b) p t)"

definition inst_start :: "inst \<Rightarrow> int" where
  "inst_start = (\<lambda>(cs, ts, b, p, t). wrap64 (Wcet t + gaps 2500 (25 * b) (Wcet t)))"

definition inst_bound :: "inst \<Rightarrow> int" where
  "inst_bound = (\<lambda>(cs, ts, b, p, t). wrap64 (Period t - wrap64 (2500 - 25 * b)))"

interpretation rt: response_time inst_ok inst_window inst_start inst_bound
proof unfold_locales
  fix i :: inst assume ok: "inst_ok i"
  obtain cs ts b p t where i: "i = (cs, ts, b, p, t)" by (cases i)
  note ok' = ok [unfolded i] and st = start_exact [OF ok [unfolded i]]
  have b: "0 < 25 * b" "25 * b \<le> 2500" and hp: "hp_ok (2 ^ 32) (hps t ts)"
    and sv: "servers_ok cs" and pt: "Period t \<le> 2 ^ 32"
    using ok' hps_ok by (auto simp: inst_ok_def task_ok_def)
  show "0 < inst_start i" by (simp add: i inst_start_def st)
  show "inst_start i \<le> inst_window i (inst_start i)"
    using resp0_le_resp [OF b hp interf_bounds(1) [OF sv] st(2)]
    by (simp add: i inst_start_def inst_window_def st(1) window_exact [OF ok' st(2) st(3)])
  fix x y assume xy: "inst_start i \<le> x" "x \<le> y" "y \<le> inst_bound i"
  then have "0 < x" "y \<le> 2 ^ 39"
    using st(2) pt b by (auto simp: i inst_start_def inst_bound_def st(1) bound_exact [OF ok'])
  then show "inst_window i x \<le> inst_window i y"
    using xy resp_mono [OF b hp] by (simp add: i inst_window_def window_exact [OF ok'])
qed

lemma Task_check_exact:
  assumes ok: "inst_ok (cs, ts, b, p, t)"
  shows "Task_checkSchedulability cs ts 2500 (25 * b) p t = Some (task_feasible cs ts b p t)"
proof -
  note st = start_exact [OF ok] and bd = bound_exact [OF ok]
  have pt: "Period t \<le> 2 ^ 32" and b: "b \<le> 100" using ok by (auto simp: inst_ok_def task_ok_def)
  have "Task_checkSchedulability cs ts 2500 (25 * b) p t =
      fixpoint_loop (inst_window (cs, ts, b, p, t)) (inst_bound (cs, ts, b, p, t)) 0
        (inst_start (cs, ts, b, p, t))"
    by (simp add: Task_checkSchedulability_def inst_window_def inst_start_def inst_bound_def Let_def)
  also have "\<dots> = Some (\<exists>v\<ge>inst_start (cs, ts, b, p, t). v \<le> inst_bound (cs, ts, b, p, t) \<and>
      inst_window (cs, ts, b, p, t) v \<le> v)"
    by (rule rt.loop_correct [OF ok])
  also have "(\<exists>v\<ge>inst_start (cs, ts, b, p, t). v \<le> inst_bound (cs, ts, b, p, t) \<and>
      inst_window (cs, ts, b, p, t) v \<le> v) = task_feasible cs ts b p t"
  proof -
    have "inst_window (cs, ts, b, p, t) v = resp 2500 (25 * b) (interf p cs) (Wcet t) (hps t ts) v"
      if "resp0 2500 (25 * b) (Wcet t) \<le> v" "v \<le> Period t - (2500 - 25 * b)" for v
      using that st(2) pt b by (simp add: inst_window_def window_exact [OF ok])
    then show ?thesis
      by (auto simp: task_feasible_def inst_start_def inst_bound_def st bd)
  qed
  finally show ?thesis .
qed

section \<open>The container-level test is monotone in the bandwidth\<close>

definition cont_ok :: "container list \<Rightarrow> container \<Rightarrow> bool" where
  "cont_ok cs c \<longleftrightarrow> servers_ok cs \<and> tasks_ok (tasks c) \<and> period c = SERVERPERIOD"

lemma all_schedulable_eq:
  "(\<And>t. t \<in> set ts \<Longrightarrow> test t = Some (P t)) \<Longrightarrow> all_schedulable test ts = Some (\<forall>t\<in>set ts. P t)"
  by (induction ts) auto

lemma Container_check_exact:
  assumes ok: "cont_ok cs c" and b: "1 \<le> b" "b \<le> 100"
  shows "Container_checkSchedulability cs (c\<lparr>band := b\<rparr>) = Some (feasible cs c b)"
proof -
  have p: "period c = 2500" using ok by (simp add: cont_ok_def SERVERPERIOD_def)
  have cap: "go_div (wrap64 (b * 2500)) 100 = 25 * b"
    using capacity_exact [of "c\<lparr>band := b\<rparr>"] p b by (simp add: server_ok_def SERVERPERIOD_def)
  have "all_schedulable (Task_checkSchedulability cs (tasks c) 2500 (25 * b) (prio c)) (tasks c) =
      Some (\<forall>t\<in>set (tasks c). task_feasible cs (tasks c) b (prio c) t)"
    using ok b by (intro all_schedulable_eq Task_check_exact)
      (auto simp: inst_ok_def cont_ok_def tasks_ok_def)
  then show ?thesis by (simp add: Container_checkSchedulability_def feasible_def p cap)
qed

lemma task_feasible_mono:
  assumes ok: "inst_ok (cs, ts, b, p, t)" and b: "b \<le> b'" "b' \<le> 100"
    and f: "task_feasible cs ts b p t"
  shows "task_feasible cs ts b' p t"
proof -
  obtain v where v: "resp0 2500 (25 * b) (Wcet t) \<le> v" "v \<le> Period t - (2500 - 25 * b)"
    "resp 2500 (25 * b) (interf p cs) (Wcet t) (hps t ts) v \<le> v"
    using f by (auto simp: task_feasible_def)
  have s: "0 < 25 * b" "25 * b \<le> 25 * b'" "25 * b' \<le> 2500" and c: "1 \<le> Wcet t"
    and hp: "hp_ok (2 ^ 32) (hps t ts)"
    using ok b hps_ok by (auto simp: inst_ok_def task_ok_def)
  have "0 < v" using start_exact(2) [OF ok] v by linarith
  with resp_antimono [OF s hp c] resp0_antimono [OF s c] v b show ?thesis
    unfolding task_feasible_def by (intro exI [of _ v]) (auto intro: order_trans)
qed

lemma feasible_mono:
  assumes "cont_ok cs c" "1 \<le> b" "b \<le> b'" "b' \<le> 100" "feasible cs c b"
  shows "feasible cs c b'"
  using assms task_feasible_mono [of cs "tasks c" b "prio c" _ b']
  by (auto simp: feasible_def inst_ok_def cont_ok_def tasks_ok_def)

interpretation bt: band_test "\<lambda>(cs, c). cont_ok cs c"
  "\<lambda>(cs, c) b. Container_checkSchedulability cs (c\<lparr>band := b\<rparr>)" "\<lambda>_. 100"
  by unfold_locales (auto simp: Container_check_exact dest: feasible_mono)

section \<open>The bandwidth search\<close>

lemma higher_band_bounds:
  assumes "servers_ok cs"
  shows "0 \<le> higher_band p cs"
  using assms unfolding higher_band_def servers_ok_def server_ok_def
  by (intro sum_list_nonneg) auto

lemma higher_band_Cons [simp]:
  "higher_band p [] = 0"
  "higher_band p (c # cs) = (if p < prio c then band c else 0) + higher_band p cs"
  by (simp_all add: higher_band_def)

lemma allotted_exact:
  assumes "\<forall>c\<in>set cs. server_ok c" "0 \<le> acc" "acc + higher_band p cs < 2 ^ 53"
  shows "allotted p acc cs = acc + higher_band p cs"
  using assms
proof (induction cs arbitrary: acc)
  case (Cons c cs)
  have nn: "0 \<le> higher_band p cs" "0 \<le> band c"
    using Cons.prems(1) by (auto simp: higher_band_def server_ok_def intro!: sum_list_nonneg)
  show ?case
  proof (cases "p < prio c")
    case True
    then have "wrap64 (acc + band c) = acc + band c"
      using nn Cons.prems by (intro wrap64_range) auto
    with True nn Cons show ?thesis by simp
  qed (use Cons in simp)
qed simp

text \<open>The bandwidth \<open>binSearch\<close> starts to search below.\<close>

definition room :: "container list \<Rightarrow> container \<Rightarrow> int" where
  "room cs c = 99 - higher_band (prio c) cs"

definition least_band :: "container list \<Rightarrow> container \<Rightarrow> int \<Rightarrow> bool" where
  "least_band cs c b \<longleftrightarrow> 1 \<le> b \<and> b \<le> room cs c \<and> (\<forall>k. 1 \<le> k \<longrightarrow> k < b \<longrightarrow> \<not> feasible cs c k) \<and>
     (b = room cs c \<or> feasible cs c b)"

lemma binSearch_spec:
  assumes ok: "cont_ok cs c" and r: "1 \<le> room cs c"
  shows "\<exists>b. least_band cs c b \<and>
    binSearch cs c = Some (feasible cs c (b + 1) \<and> b + 1 < 80, c\<lparr>band := b + 1\<rparr>)"
proof -
  let ?chk = "\<lambda>b. Container_checkSchedulability cs (c\<lparr>band := b\<rparr>)"
  have sv: "servers_ok cs" using ok by (simp add: cont_ok_def)
  have hb: "0 \<le> higher_band (prio c) cs" "higher_band (prio c) cs \<le> 98"
    using higher_band_bounds [OF sv] r by (auto simp: room_def)
  have al: "wrap64 (99 - allotted (prio c) 0 cs) = room cs c"
    using allotted_exact [of cs 0 "prio c"] sv hb
    by (simp add: servers_ok_def room_def wrap64_range)
  obtain b where b: "bisect_loop ?chk 0 (room cs c) = Some b" "1 \<le> b" "b \<le> room cs c"
    "\<forall>k. 1 \<le> k \<longrightarrow> k < b \<longrightarrow> ?chk k = Some False" "b = room cs c \<or> ?chk b = Some True"
    using bt.bisect_least [of "(cs, c)" "room cs c"] ok r hb by (auto simp: room_def)
  have b99: "b \<le> 99" using b hb by (simp add: room_def)
  then have lb: "least_band cs c b"
    using b ok by (auto simp: least_band_def Container_check_exact)
  have "?chk (b + 1) = Some (feasible cs c (b + 1))"
    using ok b b99 by (intro Container_check_exact) auto
  moreover have "wrap64 (b + 1) = b + 1" using b b99 by (intro wrap64_range) auto
  ultimately have "binSearch cs c = Some (feasible cs c (b + 1) \<and> b + 1 < 80, c\<lparr>band := b + 1\<rparr>)"
    by (simp add: binSearch_def al b(1) Let_def THRESHOLDSCHED_def)
  with lb show ?thesis by blast
qed

section \<open>Only servers of higher priority matter\<close>

definition above :: "int \<Rightarrow> container list \<Rightarrow> container list" where
  "above p cs = filter (\<lambda>c. p < prio c) cs"

lemma above_simps [simp]:
  "above p [] = []" "above p (c # cs) = (if p < prio c then c # above p cs else above p cs)"
  by (simp_all add: above_def)

definition capacity :: "container \<Rightarrow> int" where
  "capacity c = go_div (wrap64 (band c * period c)) 100"

lemma interference_sum:
  "int64 acc \<Longrightarrow> interference p acc cs = wrap64 (acc + sum_list (map capacity (above p cs)))"
  by (induction cs arbitrary: acc) (auto simp: Let_def capacity_def wrap_simps add.assoc)

lemma allotted_sum:
  "int64 acc \<Longrightarrow> allotted p acc cs = wrap64 (acc + sum_list (map band (above p cs)))"
  by (induction cs arbitrary: acc) (auto simp: wrap_simps add.assoc)

lemma sum_list_mset_cong: "mset xs = mset ys \<Longrightarrow> sum_list (map f xs) = (sum_list (map f ys) :: int)"
  by (metis mset_map sum_mset_sum_list)

lemma int64_0 [simp]: "int64 0" by (simp add: int64_def)

lemma Container_check_cong:
  assumes "interference (prio c) 0 cs = interference (prio c) 0 cs'"
  shows "Container_checkSchedulability cs c = Container_checkSchedulability cs' c"
proof -
  have "window cs ts pser cser (prio c) t = window cs' ts pser cser (prio c) t" for ts pser cser t
    using assms by (simp add: window_def fun_eq_iff)
  then have "Task_checkSchedulability cs ts pser cser (prio c) = Task_checkSchedulability cs' ts pser cser (prio c)"
    for ts pser cser by (intro ext) (simp only: Task_checkSchedulability_def)
  then show ?thesis by (simp only: Container_checkSchedulability_def Let_def)
qed

lemma Container_check_above:
  "mset (above (prio c) cs) = mset (above (prio c) cs') \<Longrightarrow>
     Container_checkSchedulability cs c = Container_checkSchedulability cs' c"
  using sum_list_mset_cong [of "above (prio c) cs" "above (prio c) cs'" capacity]
  by (intro Container_check_cong) (simp add: interference_sum)

text \<open>What the test reads of another container.\<close>

definition server_view :: "container \<Rightarrow> int \<times> int \<times> int" where
  "server_view c = (prio c, band c, period c)"

lemma capacity_view:
  "sum_list (map capacity (above p cs)) =
     (\<Sum>(pr, b, pe)\<leftarrow>map server_view cs. if p < pr then go_div (wrap64 (b * pe)) 100 else 0)"
  by (induction cs) (auto simp: capacity_def server_view_def)

lemma interference_view:
  "mset (map server_view cs) = mset (map server_view cs') \<Longrightarrow> interference p 0 cs = interference p 0 cs'"
  using sum_list_mset_cong [of "map server_view cs" "map server_view cs'"
      "\<lambda>(pr, b, pe). if p < pr then go_div (wrap64 (b * pe)) 100 else 0"]
  by (simp only: interference_sum int64_0 capacity_view)

text \<open>
  The search reads the other containers only through those of strictly higher priority, and not
  through their order, so what it writes into the receiver, or into any container of lower
  priority, does not change its course.
\<close>

lemma binSearch_no_alias:
  assumes "mset (above (prio c) cs) = mset (above (prio c) cs')"
  shows "binSearch cs c = binSearch cs' c"
proof -
  have "allotted (prio c) 0 cs = allotted (prio c) 0 cs'"
    by (simp add: allotted_sum sum_list_mset_cong [OF assms, of band])
  moreover have "Container_checkSchedulability cs (c\<lparr>band := b\<rparr>) = Container_checkSchedulability cs' (c\<lparr>band := b\<rparr>)" for b
    using assms by (intro Container_check_above) simp
  ultimately show ?thesis by (simp only: binSearch_def Let_def)
qed

lemma binSearch_frame:
  "binSearch cs c = Some (ok, c') \<Longrightarrow> \<exists>b. c' = c\<lparr>band := b\<rparr>"
  by (auto simp: binSearch_def Let_def bind_eq_Some_conv)

lemma binSearch_accepts:
  "binSearch cs c = Some (True, c') \<Longrightarrow>
     Container_checkSchedulability cs c' = Some True \<and> band c' < THRESHOLDSCHED"
  by (auto simp: binSearch_def Let_def bind_eq_Some_conv)

end
