(* ===== verification/Rubicante_Admission.thy ===== *)
theory Rubicante_Admission
  imports Rubicante_Exact
begin

text \<open>
  What the answers of \<open>schedTest\<close> mean: when it panics, what it leaves unchanged, what an
  accepted request guarantees for the containers on its core, and where the roll-back of a refused
  request loses reserved bandwidth.
\<close>

section \<open>The heap operations\<close>

text \<open>Everything of a container but its bandwidth.\<close>

definition strip :: "container \<Rightarrow> container" where
  "strip c = c\<lparr>band := 0\<rparr>"

lemma strip_band [simp]: "strip (c\<lparr>band := b\<rparr>) = strip c"
  by (simp add: strip_def)

lemma strip_fields:
  "strip c = strip c' \<Longrightarrow> tasks c = tasks c' \<and> name c = name c' \<and> period c = period c' \<and>
     prio c = prio c' \<and> core c = core c'"
  by (auto simp: strip_def dest: arg_cong [where f = tasks] arg_cong [where f = name]
      arg_cong [where f = period] arg_cong [where f = prio] arg_cong [where f = core])

lemma strip_eq_band: "strip c = strip c' \<Longrightarrow> c' = c\<lparr>band := band c'\<rparr>"
  by (cases c; cases c') (simp add: strip_def)

lemma strip_same: "strip c = strip c' \<Longrightarrow> band c = band c' \<Longrightarrow> c = c'"
  by (cases c; cases c') (simp add: strip_def)

lemma binSearch_strip: "binSearch cs c = Some (ok, c') \<Longrightarrow> strip c' = strip c"
  using binSearch_frame by fastforce

lemma map_strip_update:
  "strip c' = strip (h ! p) \<Longrightarrow> map strip (h[p := c']) = map strip h"
  by (cases "p < length h") (simp_all add: map_update list_update_same_conv list_update_beyond)

lemma map_strip_nth: "map strip h = map strip h' \<Longrightarrow> q < length h \<Longrightarrow> strip (h ! q) = strip (h' ! q)"
  by (metis length_map nth_map)

lemma map_strip_length: "map strip h = map strip h' \<Longrightarrow> length h = length h'"
  by (metis length_map)

lemma map_strip_prio:
  "map strip h = map strip h' \<Longrightarrow> q < length h \<Longrightarrow> prio (h ! q) = prio (h' ! q)"
  using map_strip_nth strip_fields by blast

lemma set_band_strip [simp]: "map strip (set_band p b h) = map strip h"
  by (simp add: set_band_def map_strip_update)

lemma set_band_length [simp]: "length (set_band p b h) = length h"
  by (simp add: set_band_def)

lemma set_band_nth:
  "p < length h \<Longrightarrow> set_band p b h ! q = (if q = p then (h ! p)\<lparr>band := b\<rparr> else h ! q)"
  by (simp add: set_band_def)

lemma rollback_strip [simp]: "map strip (rollback ps rb h) = map strip h"
  by (induction ps rb h rule: rollback.induct) simp_all

lemma rollback_length [simp]: "length (rollback ps rb h) = length h"
  by (induction ps rb h rule: rollback.induct) simp_all

lemma rollback_other: "q \<notin> set ps \<Longrightarrow> rollback ps rb h ! q = h ! q"
proof (induction ps rb h rule: rollback.induct)
  case (2 p ps h)
  then show ?case by (cases "p < length h") (auto simp: set_band_nth, simp add: set_band_def)
next
  case (3 p ps b rb h)
  then show ?case by (cases "p < length h") (auto simp: set_band_nth, simp add: set_band_def)
qed simp

text \<open>What the roll-back writes: the recorded bandwidth, and zero past the end of the record.\<close>

lemma rollback_band:
  assumes "distinct ps" "\<forall>p\<in>set ps. p < length h" "i < length ps"
  shows "band (rollback ps rb h ! (ps ! i)) = (if i < length rb then rb ! i else 0)"
  using assms
proof (induction ps rb h arbitrary: i rule: rollback.induct)
  case (2 p ps h)
  then show ?case by (cases i) (auto simp: rollback_other set_band_nth)
next
  case (3 p ps b rb h)
  then show ?case by (cases i) (auto simp: rollback_other set_band_nth)
qed simp

section \<open>Searching again for the containers of lower priority\<close>

text \<open>One pass of the loop: the container keeps its bandwidth, finds a new one, or ends the loop.\<close>

lemma retune_ConsE:
  assumes "retune cp cs (p # ps) h nb rb = Some (ok, h2, nb2, rb2)"
  obtains
    (keep) "\<not> prio (h ! p) < prio (h ! cp)"
      "retune cp cs ps h (wrap64 (nb + band (h ! p))) (rb @ [band (h ! p)]) = Some (ok, h2, nb2, rb2)"
  | (tune) c' where "prio (h ! p) < prio (h ! cp)"
      "binSearch (map ((!) h) cs) (h ! p) = Some (True, c')" "strip c' = strip (h ! p)"
      "retune cp cs ps (h[p := c']) (wrap64 (nb + band c')) (rb @ [band (h ! p)]) = Some (ok, h2, nb2, rb2)"
  | (stop) c' where "prio (h ! p) < prio (h ! cp)"
      "binSearch (map ((!) h) cs) (h ! p) = Some (False, c')" "strip c' = strip (h ! p)"
      "ok = False" "h2 = h[p := c']" "rb2 = rb @ [band (h ! p)]"
proof (cases "prio (h ! p) < prio (h ! cp)")
  case True
  with assms obtain okp c' where b: "binSearch (map ((!) h) cs) (h ! p) = Some (okp, c')"
    and r: "(if \<not> okp then Some (False, h[p := c'], nb, rb @ [band (h ! p)])
      else retune cp cs ps (h[p := c']) (wrap64 (nb + band c')) (rb @ [band (h ! p)])) = Some (ok, h2, nb2, rb2)"
    by (auto simp: Let_def bind_eq_Some_conv)
  show thesis
  proof (cases okp)
    assume okp: okp
    show thesis using tune [OF True] b binSearch_strip [OF b] r okp by simp
  next
    assume okp: "\<not> okp"
    show thesis using stop [OF True] b binSearch_strip [OF b] r okp by simp
  qed
next
  case False
  with assms show thesis by (intro keep) (simp_all add: Let_def)
qed

lemma retune_strip: "retune cp cs ps h nb rb = Some (ok, h2, nb2, rb2) \<Longrightarrow> map strip h2 = map strip h"
proof (induction ps arbitrary: h nb rb)
  case (Cons p ps)
  from Cons.prems show ?case
    by (cases rule: retune_ConsE) (auto dest!: Cons.IH simp: map_strip_update)
qed simp

lemma retune_other:
  "retune cp cs ps h nb rb = Some (ok, h2, nb2, rb2) \<Longrightarrow> q \<notin> set ps \<Longrightarrow> h2 ! q = h ! q"
proof (induction ps arbitrary: h nb rb)
  case (Cons p ps)
  from Cons.prems(1) show ?case
    by (cases rule: retune_ConsE) (use Cons in auto)
qed simp

lemma retune_not_lower:
  "retune cp cs ps h nb rb = Some (ok, h2, nb2, rb2) \<Longrightarrow> cp < length h \<Longrightarrow> q < length h \<Longrightarrow>
     \<not> prio (h ! q) < prio (h ! cp) \<Longrightarrow> h2 ! q = h ! q"
proof (induction ps arbitrary: h nb rb)
  case (Cons p ps)
  from Cons.prems(1) show ?case
  proof (cases rule: retune_ConsE)
    case (tune c')
    have st: "map strip (h[p := c']) = map strip h" using tune(3) by (rule map_strip_update)
    have "q \<noteq> p" using tune(1) Cons.prems by auto
    moreover have "h2 ! q = h[p := c'] ! q"
      using Cons.prems map_strip_prio [OF st] by (intro Cons.IH [OF tune(4)]) auto
    ultimately show ?thesis by simp
  next
    case (stop c')
    moreover have "q \<noteq> p" using stop(1) Cons.prems by auto
    ultimately show ?thesis by simp
  qed (use Cons in auto)
qed simp

text \<open>A completed pass has recorded every bandwidth as it was before.\<close>

lemma retune_record:
  "retune cp cs ps h nb rb = Some (True, h2, nb2, rb2) \<Longrightarrow> distinct ps \<Longrightarrow>
     rb2 = rb @ map (\<lambda>p. band (h ! p)) ps"
proof (induction ps arbitrary: h nb rb)
  case (Cons p ps)
  from Cons.prems(1) show ?case
  proof (cases rule: retune_ConsE)
    case (tune c')
    have "map (\<lambda>q. band (h[p := c'] ! q)) ps = map (\<lambda>q. band (h ! q)) ps"
      using Cons.prems(2) by (intro map_cong refl arg_cong [where f = band] nth_list_update_neq) auto
    with Cons.IH [OF tune(4)] Cons.prems(2) show ?thesis by simp
  next
    case keep
    from Cons.IH [OF keep(2)] Cons.prems(2) show ?thesis by simp
  qed simp
qed simp

text \<open>
  When the loop completes over a list in descending order of priority, every container it searched
  again passes its test against the bandwidths that all containers have at the end.
\<close>

lemma above_retuned:
  assumes st: "map strip h' = map strip h" and same: "\<forall>q. q \<notin> set ps \<longrightarrow> h' ! q = h ! q"
    and le: "\<forall>q\<in>set ps. prio (h ! q) \<le> p" and cs: "\<forall>q\<in>set cs. q < length h"
  shows "above p (map ((!) h') cs) = above p (map ((!) h) cs)"
  using cs
proof (induction cs)
  case (Cons q cs)
  have pr: "prio (h' ! q) = prio (h ! q)"
    using Cons.prems map_strip_prio [OF st] map_strip_length [OF st] by auto
  have "h' ! q = h ! q" if "p < prio (h ! q)" using that le same by (meson not_le)
  with Cons pr show ?case by auto
qed simp

lemma retune_sound:
  assumes "retune cp cs ps h nb rb = Some (True, h2, nb2, rb2)"
    and "\<forall>q\<in>set cs. q < length h" "set ps \<subseteq> set cs" "cp < length h" "distinct ps"
    and "sorted (map (\<lambda>q. - prio (h ! q)) ps)" "p \<in> set ps" "prio (h ! p) < prio (h ! cp)"
  shows "Container_checkSchedulability (map ((!) h2) cs) (h2 ! p) = Some True
    \<and> band (h2 ! p) < THRESHOLDSCHED"
  using assms
proof (induction ps arbitrary: h nb rb)
  case (Cons r ps)
  from Cons.prems(1) show ?case
  proof (cases rule: retune_ConsE)
    case keep
    then have "p \<in> set ps" using Cons.prems by auto
    with Cons.prems show ?thesis by (intro Cons.IH [OF keep(2)]) auto
  next
    case (tune c')
    let ?h = "h[r := c']"
    have st: "map strip ?h = map strip h" using tune(3) by (rule map_strip_update)
    have rl: "r < length h" using Cons.prems by auto
    note pr = map_strip_prio [OF st] and st2 = retune_strip [OF tune(4)]
    have eq: "map (\<lambda>q. - prio (?h ! q)) ps = map (\<lambda>q. - prio (h ! q)) ps"
      using pr Cons.prems by (intro map_cong refl) auto
    have srt: "sorted (map (\<lambda>q. - prio (?h ! q)) ps)" using Cons.prems(6) unfolding eq by simp
    show ?thesis
    proof (cases "p = r")
      case False
      then have "p \<in> set ps" using Cons.prems by simp
      with Cons.prems(2-5,8) pr srt show ?thesis by (intro Cons.IH [OF tune(4)]) auto
    next
      case True
      have hp: "h2 ! p = c'" using retune_other [OF tune(4)] True rl Cons.prems by simp
      have pc: "prio c' = prio (h ! r)" using strip_fields [OF tune(3)] by simp
      have "above (prio c') (map ((!) h2) cs) = above (prio c') (map ((!) h) cs)"
      proof (rule above_retuned [where ps = "r # ps"])
        show "map strip h2 = map strip h" using st2 st by simp
        show "\<forall>q. q \<notin> set (r # ps) \<longrightarrow> h2 ! q = h ! q" using retune_other [OF tune(4)] by auto
        show "\<forall>q\<in>set (r # ps). prio (h ! q) \<le> prio c'" using Cons.prems(6) pc by auto
        show "\<forall>q\<in>set cs. q < length h" using Cons.prems by simp
      qed
      then show ?thesis
        using Container_check_above [of c' "map ((!) h2) cs" "map ((!) h) cs"]
          binSearch_accepts [OF tune(2)] hp by simp
    qed
  qed simp
qed simp

section \<open>The loop over the cores\<close>

text \<open>How core \<open>k\<close> accepts the container at the end of the heap \<open>h\<close>.\<close>

definition accepted_at :: "int list \<Rightarrow> nat \<Rightarrow> heap \<Rightarrow> container \<Rightarrow> nat list \<Rightarrow> heap \<Rightarrow> int \<Rightarrow> int list \<Rightarrow> bool" where
  "accepted_at used k h c' cs' h2 newbw rb \<longleftrightarrow>
     (let n = length h - 1 in
      binSearch (map ((!) h) (on_core (int k) h)) (h ! n) = Some (True, c') \<and>
      wrap64 (used ! k + band c') \<le> THRESHOLDSCHED \<and>
      cs' = sliceStable (\<lambda>p. - prio (h[n := c'] ! p)) (on_core (int k) h @ [n]) \<and>
      retune n cs' cs' (h[n := c']) 0 [] = Some (True, h2, newbw, rb))"

lemma on_core_bounds: "p \<in> set (on_core k h) \<Longrightarrow> p < length h - 1 \<and> core (h ! p) = k"
  by (auto simp: on_core_def)

lemma on_core_distinct [simp]: "distinct (on_core k h)"
  by (simp add: on_core_def)

text \<open>A refusing core changes only bandwidths, and only on that core and in the new container.\<close>

definition heap_on :: "int \<Rightarrow> heap \<Rightarrow> heap \<Rightarrow> bool" where
  "heap_on k h h' \<longleftrightarrow> map strip h' = map strip h \<and>
     (\<forall>q < length h - 1. core (h ! q) \<noteq> k \<longrightarrow> h' ! q = h ! q)"

lemma heap_on_tried:
  assumes "h \<noteq> []" "binSearch cs (h ! (length h - 1)) = Some (ok, c')"
  shows "heap_on k h (h[length h - 1 := c'])"
  using assms map_strip_update [OF binSearch_strip [OF assms(2)]] by (simp add: heap_on_def)

lemma heap_on_rolled_back:
  assumes "h \<noteq> []" "binSearch cs (h ! (length h - 1)) = Some (ok, c')"
    and cs': "set cs' = insert (length h - 1) (set (on_core k h))"
    and "retune (length h - 1) cs' cs' (h[length h - 1 := c']) 0 [] = Some (ok', h2, nb, rb)"
  shows "heap_on k h (rollback cs' rb h2)"
proof -
  have "map strip h2 = map strip h"
    using retune_strip [OF assms(4)] map_strip_update [OF binSearch_strip [OF assms(2)]] by simp
  moreover have "rollback cs' rb h2 ! q = h ! q" if "q < length h - 1" "core (h ! q) \<noteq> k" for q
  proof -
    have "q \<notin> set cs'" using that cs' on_core_bounds [of q k h] by auto
    with that show ?thesis
      using retune_other [OF assms(4)] by (simp add: rollback_other)
  qed
  ultimately show ?thesis by (simp add: heap_on_def)
qed

lemma try_cores_step:
  assumes "try_cores N pers k h used chg = Some out" "k < N" "h \<noteq> []"
  obtains
    (accept) c' cs' h2 newbw rb where "accepted_at used k h c' cs' h2 newbw rb"
      "out = (let n = length h - 1; h3 = h2[n := (h2 ! n)\<lparr>core := int k\<rparr>];
                  h4 = (if pers then h3 else rollback cs' rb h3)
              in (\<lparr>Schedulable = True, Bandwidth = band (h4 ! n), Core = int k, Error = ''''\<rparr>,
                  used[k := newbw], if pers then h4 else butlast h4, chg \<or> pers))"
  | (refuse) h' where "heap_on (int k) h h'" "try_cores N pers (Suc k) h' used chg = Some out"
proof -
  let ?n = "length h - 1"
  let ?cs = "on_core (int k) h"
  note unf = assms(1) [unfolded try_cores.simps [of N pers k h] if_P [OF assms(2)] Let_def]
  obtain ok c' where b: "binSearch (map ((!) h) ?cs) (h ! ?n) = Some (ok, c')"
    using unf by (auto simp: bind_eq_Some_conv)
  let ?h1 = "h[?n := c']"
  let ?cs' = "sliceStable (\<lambda>p. - prio (?h1 ! p)) (?cs @ [?n])"
  have cs': "set ?cs' = insert ?n (set ?cs)" by simp
  show thesis
  proof (cases "wrap64 (used ! k + band c') \<le> THRESHOLDSCHED \<and> ok")
    case False
    with unf b have "try_cores N pers (Suc k) ?h1 used chg = Some out" by auto
    then show thesis using refuse heap_on_tried [OF assms(3) b] by blast
  next
    case True
    with unf b obtain ok' h2 nb rb where r: "retune ?n ?cs' ?cs' ?h1 0 [] = Some (ok', h2, nb, rb)"
      by (auto simp: bind_eq_Some_conv)
    show thesis
    proof (cases ok')
      assume ok': ok'
      with True b r have "accepted_at used k h c' ?cs' h2 nb rb" by (simp add: accepted_at_def Let_def)
      then show thesis using unf True b r ok' by (intro accept) (auto simp: Let_def)
    next
      assume ok': "\<not> ok'"
      with unf True b r have "try_cores N pers (Suc k) (rollback ?cs' rb h2) used chg = Some out" by simp
      then show thesis using refuse heap_on_rolled_back [OF assms(3) b cs' r] by blast
    qed
  qed
qed

lemma try_cores_accept:
  assumes "try_cores N pers k h used chg = Some (res, out)" "Schedulable res" "h \<noteq> []"
  obtains k0 h0 c' ps h2 newbw rb where "k \<le> k0" "k0 < N" "map strip h0 = map strip h"
    "\<forall>q < length h - 1. core (h ! q) = int k0 \<longrightarrow> h0 ! q = h ! q" "k0 = k \<longrightarrow> h0 = h"
    "accepted_at used k0 h0 c' ps h2 newbw rb"
    "(res, out) = (let n = length h0 - 1; h3 = h2[n := (h2 ! n)\<lparr>core := int k0\<rparr>];
                  h4 = (if pers then h3 else rollback ps rb h3)
              in (\<lparr>Schedulable = True, Bandwidth = band (h4 ! n), Core = int k0, Error = ''''\<rparr>,
                  used[k0 := newbw], if pers then h4 else butlast h4, chg \<or> pers))"
  using assms
proof (induction "N - k" arbitrary: k h thesis)
  case 0
  then have "\<not> Schedulable res" by (subst (asm) try_cores.simps) auto
  with 0 show ?case by simp
next
  case (Suc d)
  then have kN: "k < N" by simp
  from Suc.prems(2) kN Suc.prems(4) show ?case
  proof (cases rule: try_cores_step)
    case (accept c' cs' h2 newbw rb)
    show ?thesis by (rule Suc.prems(1) [OF order_refl kN refl _ _ accept]) simp_all
  next
    case (refuse h')
    have st: "map strip h' = map strip h" using refuse(1) by (simp add: heap_on_def)
    note len = map_strip_length [OF st]
    have d: "d = N - Suc k" and ne: "h' \<noteq> []" using Suc.hyps Suc.prems(4) len by auto
    show ?thesis
    proof (rule Suc.hyps(1) [OF d _ refuse(2) Suc.prems(3) ne])
      fix k0 h0 c' ps h2 newbw rb
      assume a: "Suc k \<le> k0" "k0 < N" "map strip h0 = map strip h'"
        "\<forall>q < length h' - 1. core (h' ! q) = int k0 \<longrightarrow> h0 ! q = h' ! q"
        "accepted_at used k0 h0 c' ps h2 newbw rb"
        "(res, out) = (let n = length h0 - 1; h3 = h2[n := (h2 ! n)\<lparr>core := int k0\<rparr>];
                  h4 = (if pers then h3 else rollback ps rb h3)
              in (\<lparr>Schedulable = True, Bandwidth = band (h4 ! n), Core = int k0, Error = ''''\<rparr>,
                  used[k0 := newbw], if pers then h4 else butlast h4, chg \<or> pers))"
      have "\<forall>q < length h - 1. core (h ! q) = int k0 \<longrightarrow> h0 ! q = h ! q"
        using a(1,4) refuse(1) len by (auto simp: heap_on_def)
      with a st show thesis by (intro Suc.prems(1) [OF _ a(2) _ _ _ a(5,6)]) auto
    qed
  qed
qed

lemma try_cores_refused_strip:
  assumes "try_cores N pers k h used chg = Some (res, used', cs, chg')" "\<not> Schedulable res" "h \<noteq> []"
  shows "map strip cs = map strip (butlast h) \<and> used' = used \<and> chg' = chg"
  using assms
proof (induction "N - k" arbitrary: k h)
  case 0
  then show ?case by (subst (asm) try_cores.simps) (auto simp: map_butlast)
next
  case (Suc d)
  then have kN: "k < N" by simp
  from Suc.prems(1) kN Suc.prems(3) show ?case
  proof (cases rule: try_cores_step)
    case (accept c' cs' h2 newbw rb)
    then show ?thesis using Suc.prems(2) by (simp add: Let_def)
  next
    case (refuse h')
    have st: "map strip h' = map strip h" using refuse(1) by (simp add: heap_on_def)
    have ne: "h' \<noteq> []" using Suc.prems(3) map_strip_length [OF st] by auto
    have "map strip (butlast h') = map strip (butlast h)" using st by (simp add: map_butlast)
    moreover have "map strip cs = map strip (butlast h') \<and> used' = used \<and> chg' = chg"
      using Suc.hyps(2) by (intro Suc.hyps(1) [OF _ refuse(2) Suc.prems(2) ne]) simp
    ultimately show ?thesis by simp
  qed
qed

section \<open>What acceptance means on the accepting core\<close>

lemma accepted_at_facts:
  assumes "accepted_at used k h c' ps h2 newbw rb" "h \<noteq> []"
  defines "n \<equiv> length h - 1"
  shows "length h2 = length h" "map strip h2 = map strip (h[n := c'])" "map strip h2 = map strip h"
    "h2 ! n = c'" "mset ps = mset (on_core (int k) h @ [n])" "distinct ps"
    "strip c' = strip (h ! n)"
proof -
  have b: "binSearch (map ((!) h) (on_core (int k) h)) (h ! n) = Some (True, c')"
    and r: "retune n ps ps (h[n := c']) 0 [] = Some (True, h2, newbw, rb)"
    and ps: "ps = sliceStable (\<lambda>p. - prio (h[n := c'] ! p)) (on_core (int k) h @ [n])"
    using assms by (auto simp: accepted_at_def Let_def)
  show st: "strip c' = strip (h ! n)" using binSearch_strip [OF b] .
  show s2: "map strip h2 = map strip (h[n := c'])" using retune_strip [OF r] .
  then show "map strip h2 = map strip h" using map_strip_update [OF st] by simp
  show "length h2 = length h" using map_strip_length [OF s2] by simp
  show "h2 ! n = c'" using retune_not_lower [OF r, of n] assms(2) by (simp add: n_def)
  show "mset ps = mset (on_core (int k) h @ [n])" by (simp add: ps)
  have "distinct (on_core (int k) h @ [n])" using on_core_bounds [of n "int k" h] by (auto simp: n_def)
  then show "distinct ps" using ps by (metis distinct_sort sliceStable_def)
qed

text \<open>The containers of a core, in the order of the state.\<close>

definition core_list :: "int \<Rightarrow> container list \<Rightarrow> container list" where
  "core_list k cs = filter (\<lambda>c. core c = k) cs"

lemma filter_as_nth: "filter P xs = map ((!) xs) (filter (\<lambda>i. P (xs ! i)) [0..<length xs])"
proof -
  have "filter P xs = filter P (map ((!) xs) [0..<length xs])" by (simp only: map_nth)
  then show ?thesis by (simp only: filter_map comp_def)
qed

lemma core_list_butlast:
  assumes "h \<noteq> []"
  shows "core_list k (butlast h) = map ((!) h) (on_core k h)"
proof -
  have "core_list k (butlast h) = map ((!) (butlast h)) (filter (\<lambda>i. core (butlast h ! i) = k) [0..<length h - 1])"
    by (simp add: core_list_def filter_as_nth [of _ "butlast h"])
  also have "filter (\<lambda>i. core (butlast h ! i) = k) [0..<length h - 1] = on_core k h"
    unfolding on_core_def by (intro filter_cong) (auto simp: nth_butlast)
  also have "map ((!) (butlast h)) (on_core k h) = map ((!) h) (on_core k h)"
    by (intro map_cong refl) (use on_core_bounds nth_butlast in fastforce)
  finally show ?thesis .
qed

lemma core_list_accepted:
  assumes acc: "accepted_at used k h c' ps h2 newbw rb" and ne: "h \<noteq> []"
  defines "n \<equiv> length h - 1"
  shows "core_list (int k) (h2[n := c'\<lparr>core := int k\<rparr>]) =
     map ((!) h2) (on_core (int k) h) @ [c'\<lparr>core := int k\<rparr>]"
proof -
  note f = accepted_at_facts [OF acc ne, folded n_def]
  let ?o = "h2[n := c'\<lparr>core := int k\<rparr>]"
  have len: "length ?o = Suc n" and nl: "n < length h2" using f(1) ne by (simp_all add: n_def)
  have "core (?o ! i) = core (h ! i)" if "i < n" for i
    using strip_fields [OF map_strip_nth [OF f(3), of i]] that f(1) by (simp add: n_def)
  then have "filter (\<lambda>i. core (?o ! i) = int k) [0..<n] = on_core (int k) h"
    unfolding on_core_def n_def [symmetric] by (intro filter_cong) auto
  then have "core_list (int k) ?o = map ((!) ?o) (on_core (int k) h @ [n])"
    unfolding core_list_def filter_as_nth [of _ ?o] len using nl by simp
  moreover have "map ((!) ?o) (on_core (int k) h) = map ((!) h2) (on_core (int k) h)"
    using on_core_bounds [of _ "int k" h] by (intro map_cong refl nth_list_update_neq) (auto simp: n_def)
  ultimately show ?thesis using f(1) ne by (simp add: n_def)
qed

text \<open>Interference at priority \<open>p\<close> depends only on the servers above \<open>p\<close>.\<close>

lemma interference_heap_cong:
  assumes "\<And>q. q \<in> set ps \<Longrightarrow> p < prio (h ! q) \<or> p < prio (h' ! q) \<Longrightarrow> h' ! q = h ! q"
  shows "interference p acc (map ((!) h') ps) = interference p acc (map ((!) h) ps)"
  using assms
proof (induction ps arbitrary: acc)
  case (Cons q ps)
  have IH: "interference p a (map ((!) h') ps) = interference p a (map ((!) h) ps)" for a
    using Cons.prems by (intro Cons.IH) auto
  show ?case
  proof (cases "p < prio (h ! q) \<or> p < prio (h' ! q)")
    case True
    then show ?thesis using Cons.prems [of q] IH by simp
  qed (simp add: IH)
qed simp

lemma interference_append:
  "interference p acc (xs @ ys) = interference p (interference p acc xs) ys"
  by (induction xs arbitrary: acc) (auto simp: Let_def)

lemma Container_check_core [simp]:
  "Container_checkSchedulability cs (c\<lparr>core := k\<rparr>) = Container_checkSchedulability cs c"
  by (simp add: Container_checkSchedulability_def Let_def)

lemma accepted_core_schedulable:
  assumes acc: "accepted_at used k h c' ps h2 newbw rb" and ne: "h \<noteq> []"
    and before: "\<forall>c\<in>set (core_list (int k) (butlast h)).
      Container_checkSchedulability (core_list (int k) (butlast h)) c = Some True"
  defines "n \<equiv> length h - 1"
  shows "\<forall>c\<in>set (core_list (int k) (h2[n := c'\<lparr>core := int k\<rparr>])).
    Container_checkSchedulability (core_list (int k) (h2[n := c'\<lparr>core := int k\<rparr>])) c = Some True"
proof
  note f = accepted_at_facts [OF acc ne, folded n_def]
  let ?ps0 = "on_core (int k) h" and ?new = "c'\<lparr>core := int k\<rparr>"
  let ?L = "map ((!) h2) ?ps0 @ [?new]"
  have L: "core_list (int k) (h2[n := ?new]) = ?L"
    using core_list_accepted [OF acc ne] by (simp add: n_def)
  have b: "binSearch (map ((!) h) ?ps0) (h ! n) = Some (True, c')"
    and r: "retune n ps ps (h[n := c']) 0 [] = Some (True, h2, newbw, rb)"
    and ps: "ps = sliceStable (\<lambda>p. - prio (h[n := c'] ! p)) (?ps0 @ [n])"
    using acc by (auto simp: accepted_at_def Let_def n_def)
  have pn: "prio c' = prio (h ! n)" using strip_fields [OF f(7)] by simp
  have nl: "n < length h" using ne by (simp add: n_def)
  have q0: "q \<in> set ?ps0 \<Longrightarrow> q < n \<and> h[n := c'] ! q = h ! q \<and> prio (h2 ! q) = prio (h ! q)" for q
    using on_core_bounds [of q "int k" h] map_strip_prio [OF f(3), of q] f(1) by (auto simp: n_def)
  have same: "h2 ! q = h ! q" if "q \<in> set ?ps0" "prio c' \<le> prio (h ! q)" for q
    using retune_not_lower [OF r, of q] q0 [OF that(1)] that(2) nl by simp
  have high: "interference p 0 ?L = interference p 0 (map ((!) h) ?ps0)" if p: "prio c' \<le> p" for p
    using interference_heap_cong [of ?ps0 p h h2 0] same q0 p
    by (force simp: interference_append Let_def)
  fix c assume "c \<in> set (core_list (int k) (h2[n := ?new]))"
  then consider (new) "c = ?new" | (old) q where "q \<in> set ?ps0" "c = h2 ! q" by (auto simp: L)
  then show "Container_checkSchedulability (core_list (int k) (h2[n := ?new])) c = Some True"
    unfolding L
  proof cases
    case new
    have "Container_checkSchedulability ?L c' = Container_checkSchedulability (map ((!) h) ?ps0) c'"
      by (intro Container_check_cong high) simp
    then show "Container_checkSchedulability ?L c = Some True"
      using new binSearch_accepts [OF b] by simp
  next
    case (old q)
    show "Container_checkSchedulability ?L c = Some True"
    proof (cases "prio (h ! q) < prio c'")
      case False
      then have cq: "c = h ! q" using same old by simp
      then have "Container_checkSchedulability ?L c = Container_checkSchedulability (map ((!) h) ?ps0) c"
        using False by (intro Container_check_cong high) simp
      then show ?thesis using before old(1) cq by (simp add: core_list_butlast [OF ne])
    next
      case True
      have "\<forall>x\<in>set ps. x < length (h[n := c'])" "q \<in> set ps"
        using q0 nl old(1) by (auto simp: ps dest: q0)
      then have chk: "Container_checkSchedulability (map ((!) h2) ps) (h2 ! q) = Some True"
        using retune_sound [OF r, of q] True q0 [OF old(1)] nl f(6)
          sliceStable_sorted [of "\<lambda>p. - prio (h[n := c'] ! p)" "?ps0 @ [n]"] by (simp add: ps)
      have "mset (map server_view ?L) = mset (map server_view (map ((!) h2) ps))"
        using f(4) arg_cong [OF f(5), of "image_mset (\<lambda>q. server_view (h2 ! q))"]
        by (simp add: server_view_def multiset.map_comp comp_def)
      then show ?thesis
        using chk old(2) Container_check_cong [OF interference_view] by metis
    qed
  qed
qed

text \<open>The roll-back of a completed loop restores every bandwidth.\<close>

lemma accepted_rollback:
  assumes acc: "accepted_at used k h c' ps h2 newbw rb" and ne: "h \<noteq> []"
  defines "n \<equiv> length h - 1"
  shows "butlast (rollback ps rb (h2[n := (h2 ! n)\<lparr>core := int k\<rparr>])) = butlast h"
    and "band (rollback ps rb (h2[n := (h2 ! n)\<lparr>core := int k\<rparr>]) ! n) = band c'"
proof -
  note f = accepted_at_facts [OF acc ne, folded n_def]
  let ?h3 = "h2[n := (h2 ! n)\<lparr>core := int k\<rparr>]" and ?h1 = "h[n := c']"
  have nl: "n < length h" using ne by (simp add: n_def)
  have r: "retune n ps ps ?h1 0 [] = Some (True, h2, newbw, rb)"
    using acc by (auto simp: accepted_at_def Let_def n_def)
  have rb: "rb = map (\<lambda>p. band (?h1 ! p)) ps" using retune_record [OF r f(6)] by simp
  have sp: "set ps = insert n (set (on_core (int k) h))" using mset_eq_setD [OF f(5)] by simp
  have inb: "\<forall>p\<in>set ps. p < length ?h3"
    using sp on_core_bounds [of _ "int k" h] f(1) nl by (fastforce simp: n_def)
  have bd: "band (rollback ps rb ?h3 ! q) = band (?h1 ! q)" if q: "q \<in> set ps" for q
  proof -
    obtain i where i: "i < length ps" "ps ! i = q" using q by (auto simp: in_set_conv_nth)
    with rollback_band [OF f(6) inb i(1), of rb] show ?thesis by (simp add: rb)
  qed
  show "band (rollback ps rb ?h3 ! n) = band c'" using bd [of n] sp nl by simp
  have "rollback ps rb ?h3 ! q = h ! q" if q: "q < n" for q
  proof (cases "q \<in> set ps")
    case True
    have ql: "q < length ?h3" using q f(1) nl by simp
    have "strip (rollback ps rb ?h3 ! q) = strip (?h3 ! q)"
      using map_strip_nth [of "rollback ps rb ?h3" ?h3 q] ql by simp
    also have "\<dots> = strip (h ! q)" using map_strip_nth [OF f(3), of q] q ql by simp
    finally have "strip (rollback ps rb ?h3 ! q) = strip (h ! q)" .
    then show ?thesis by (rule strip_same) (use bd [OF True] q in simp)
  next
    case False
    then show ?thesis using retune_other [OF r False] q by (simp add: rollback_other)
  qed
  then show "butlast (rollback ps rb ?h3) = butlast h"
    using f(1) by (intro nth_equalityI) (auto simp: nth_butlast n_def)
qed

section \<open>The whole test\<close>

definition new_container :: "schedRequest \<Rightarrow> int \<Rightarrow> container" where
  "new_container args p = \<lparr>tasks = Tasks args, band = 100, name = Name args,
     period = SERVERPERIOD, prio = p, core = 0\<rparr>"

lemma setPrio_Ret:
  "setPrio ts cs = Ret (p, cs') \<Longrightarrow> cs' = sliceStable minp cs \<and> ts \<noteq> [] \<and> (\<forall>c\<in>set cs. tasks c \<noteq> [])"
  by (auto simp: setPrio_def getMinPeriod_def go_simps Let_def split: if_splits list.splits)

lemma schedTest_RetE:
  assumes "schedTest N args pers s = Ret (res, used', s')"
  obtains p cs used where "setPrio (Tasks args) (containers s) = Ret (p, cs)"
    "cs = sliceStable minp (containers s)" "getBandwidths N cs = Ret used"
    "try_cores N pers 0 (cs @ [new_container args p]) used (changed s) =
       Some (res, used', containers s', changed s')" "m s' = m s"
  using assms setPrio_Ret
  by (fastforce simp: schedTest_def new_container_def go_simps Let_def split: prod.splits)

lemma bandwidths_from_total:
  "(\<exists>u. bandwidths_from cs used = Ret u \<and> (\<forall>c\<in>set cs. 0 \<le> core c \<and> core c < int (length used))) \<or>
   (bandwidths_from cs used = Panic IndexOutOfRange \<and> (\<exists>c\<in>set cs. \<not> (0 \<le> core c \<and> core c < int (length used))))"
proof (induction cs arbitrary: used)
  case (Cons c cs)
  show ?case
    using Cons.IH [of "used[nat (core c) := wrap64 (used ! nat (core c) + band c)]"] by auto
qed simp

lemma getBandwidths_Panic:
  "getBandwidths N cs = Panic p \<longleftrightarrow> p = IndexOutOfRange \<and> (\<exists>c\<in>set cs. \<not> (0 \<le> core c \<and> core c < int N))"
  using bandwidths_from_total [of cs "replicate N 0"] by (auto simp: getBandwidths_def)

lemma getBandwidths_not_Diverge: "getBandwidths N cs \<noteq> Diverge"
  using bandwidths_from_total [of cs "replicate N 0"] by (auto simp: getBandwidths_def)

lemma setPrio_Panic:
  "setPrio ts cs = Panic p \<longleftrightarrow> p = IndexOutOfRange \<and> (ts = [] \<or> (\<exists>c\<in>set cs. tasks c = []))"
  by (auto simp: setPrio_def getMinPeriod_def go_simps Let_def split: if_splits list.splits)

lemma setPrio_returns:
  "ts \<noteq> [] \<Longrightarrow> \<forall>c\<in>set cs. tasks c \<noteq> [] \<Longrightarrow> \<exists>p. setPrio ts cs = Ret (p, sliceStable minp cs)"
  by (cases ts) (auto simp: setPrio_def getMinPeriod_def Let_def)

lemma schedTest_accept:
  assumes "schedTest N args pers s = Ret (res, used', s')" "Schedulable res"
  obtains p used k h c' ps h2 newbw rb where
    "setPrio (Tasks args) (containers s) = Ret (p, sliceStable minp (containers s))"
    "getBandwidths N (sliceStable minp (containers s)) = Ret used"
    "k < N" "Core res = int k" "accepted_at used k h c' ps h2 newbw rb" "h \<noteq> []"
    "map strip h = map strip (sliceStable minp (containers s) @ [new_container args p])"
    "core_list (int k) (butlast h) = core_list (int k) (sliceStable minp (containers s))"
    "k = 0 \<longrightarrow> butlast h = sliceStable minp (containers s)"
    "Bandwidth res = band c'" "used' = used[k := newbw]" "changed s' = (changed s \<or> pers)"
    "containers s' = (if pers then h2[length h - 1 := c'\<lparr>core := int k\<rparr>] else butlast h)"
proof -
  obtain p cs used where a: "setPrio (Tasks args) (containers s) = Ret (p, cs)"
    "cs = sliceStable minp (containers s)" "getBandwidths N cs = Ret used"
    "try_cores N pers 0 (cs @ [new_container args p]) used (changed s) =
       Some (res, used', containers s', changed s')"
    using assms(1) by (rule schedTest_RetE)
  let ?h = "cs @ [new_container args p]"
  have ne0: "?h \<noteq> []" by simp
  obtain k h c' ps h2 newbw rb where "0 \<le> k" and b: "k < N" "map strip h = map strip ?h"
    "\<forall>q < length ?h - 1. core (?h ! q) = int k \<longrightarrow> h ! q = ?h ! q" "k = 0 \<longrightarrow> h = ?h"
    "accepted_at used k h c' ps h2 newbw rb"
    "(res, used', containers s', changed s') = (let n = length h - 1; h3 = h2[n := (h2 ! n)\<lparr>core := int k\<rparr>];
                  h4 = (if pers then h3 else rollback ps rb h3)
              in (\<lparr>Schedulable = True, Bandwidth = band (h4 ! n), Core = int k, Error = ''''\<rparr>,
                  used[k := newbw], if pers then h4 else butlast h4, changed s \<or> pers))"
    by (rule try_cores_accept [OF a(4) assms(2) ne0])
  have len: "length h = Suc (length cs)" using map_strip_length [OF b(2)] by simp
  then have ne: "h \<noteq> []" by auto
  note f = accepted_at_facts [OF b(5) ne] and rbk = accepted_rollback [OF b(5) ne]
  have "core (h ! q) = core (?h ! q)" if "q < length cs" for q
    using strip_fields [OF map_strip_nth [OF b(2), of q]] that len by simp
  then have "on_core (int k) h = on_core (int k) ?h"
    unfolding on_core_def by (intro filter_cong) (auto simp: len)
  moreover have "map ((!) h) (on_core (int k) ?h) = map ((!) ?h) (on_core (int k) ?h)"
    using b(3) on_core_bounds [of _ "int k" ?h] by (intro map_cong refl) blast
  ultimately have cl: "core_list (int k) (butlast h) = core_list (int k) cs"
    using core_list_butlast [OF ne] core_list_butlast [of ?h] by simp
  show thesis
    by (rule that [OF _ _ b(1) _ b(5) ne _ _ _ _ _ _ , of p])
      (use a b(2,4,6) cl f rbk ne in \<open>auto simp: Let_def split: if_splits\<close>)
qed

lemma strip_core [simp]: "strip (c\<lparr>core := k\<rparr>) = (strip c)\<lparr>core := k\<rparr>"
  by (simp add: strip_def)

lemma schedTest_accept_strip:
  assumes "schedTest N args pers s = Ret (res, used, s')" "Schedulable res"
  shows "\<exists>p. setPrio (Tasks args) (containers s) = Ret (p, sliceStable minp (containers s)) \<and>
    map strip (containers s') = map strip (sliceStable minp (containers s) @
      (if pers then [(new_container args p)\<lparr>core := Core res\<rparr>] else [])) \<and> changed s' = (changed s \<or> pers)"
  using assms
proof (rule schedTest_accept)
  fix p used0 k h c' ps h2 newbw rb
  let ?L = "sliceStable minp (containers s)"
  assume p: "setPrio (Tasks args) (containers s) = Ret (p, ?L)" and k: "Core res = int k"
    and acc: "accepted_at used0 k h c' ps h2 newbw rb" and ne: "h \<noteq> []"
    and st: "map strip h = map strip (?L @ [new_container args p])" and ch: "changed s' = (changed s \<or> pers)"
    and cs: "containers s' = (if pers then h2[length h - 1 := c'\<lparr>core := int k\<rparr>] else butlast h)"
  note f = accepted_at_facts [OF acc ne]
  have len: "length h = Suc (length ?L)" using map_strip_length [OF st] by simp
  have "strip c' = strip (new_container args p)"
    using f(7) map_strip_nth [OF st, of "length ?L"] by (simp add: len nth_append)
  moreover have "map strip (h2[length ?L := c'\<lparr>core := int k\<rparr>]) = (map strip h2)[length ?L := strip (c'\<lparr>core := int k\<rparr>)]"
    by (simp add: map_update)
  ultimately have "map strip (h2[length ?L := c'\<lparr>core := int k\<rparr>]) = map strip (?L @ [(new_container args p)\<lparr>core := int k\<rparr>])"
    using f(3) st by (simp add: list_update_append)
  moreover have "map strip (butlast h) = map strip ?L" using st by (simp add: map_butlast)
  ultimately show ?thesis using p k ch cs len by auto
qed

lemma schedTest_strip:
  assumes "schedTest N args pers s = Ret (res, used, s')"
  shows "\<exists>p. setPrio (Tasks args) (containers s) = Ret (p, sliceStable minp (containers s)) \<and>
    map strip (containers s') = map strip (sliceStable minp (containers s) @
      (if Schedulable res \<and> pers then [(new_container args p)\<lparr>core := Core res\<rparr>] else [])) \<and>
    m s' = m s \<and> changed s' = (changed s \<or> Schedulable res \<and> pers)"
proof (cases "Schedulable res")
  case False
  obtain p cs used0 where a: "setPrio (Tasks args) (containers s) = Ret (p, cs)"
    "cs = sliceStable minp (containers s)"
    "try_cores N pers 0 (cs @ [new_container args p]) used0 (changed s) =
       Some (res, used, containers s', changed s')" "m s' = m s"
    using assms by (rule schedTest_RetE)
  with try_cores_refused_strip [OF a(3) False] False show ?thesis by simp
next
  case True
  obtain p cs used0 where "m s' = m s" using assms by (rule schedTest_RetE)
  with True schedTest_accept_strip [OF assms True] show ?thesis by simp
qed

lemma try_cores_refused_res:
  assumes "try_cores N pers k h used chg = Some (res, out)" "\<not> Schedulable res" "h \<noteq> []"
  shows "res = \<lparr>Schedulable = False, Bandwidth = 0, Core = 0, Error = ''Not enough CPU bandwidth''\<rparr>"
  using assms
proof (induction "N - k" arbitrary: k h)
  case 0
  then show ?case by (subst (asm) try_cores.simps) auto
next
  case (Suc d)
  then have kN: "k < N" by simp
  from Suc.prems(1) kN Suc.prems(3) show ?case
  proof (cases rule: try_cores_step)
    case (accept c' cs' h2 newbw rb)
    then show ?thesis using Suc.prems(2) by (simp add: Let_def)
  next
    case (refuse h')
    have st: "map strip h' = map strip h" using refuse(1) by (simp add: heap_on_def)
    have "h' \<noteq> []" using Suc.prems(3) map_strip_length [OF st] by auto
    then show ?thesis using Suc.hyps(2) by (intro Suc.hyps(1) [OF _ refuse(2) Suc.prems(2)]) simp
  qed
qed

end
