(* ===== verification/Rubicante_Termination.thy ===== *)
theory Rubicante_Termination
  imports Rubicante_Admission
begin

text \<open>
  The admission test returns for every request in range on a node whose containers have distinct
  priorities and whose cores are not overbooked, and no core is overbooked afterwards. The loops
  of the test are partial functions, so this is a statement of its own.
\<close>

section \<open>The test at bandwidth zero\<close>

text \<open>
  When the servers above a container take the whole core, the search ends at bandwidth zero: the
  quotients by the capacity are then infinite and their conversion to \<open>int\<close> multiplied by the
  server period wraps to zero, so that the test degenerates to the plain load.
\<close>

definition inst0_ok :: "inst \<Rightarrow> bool" where
  "inst0_ok = (\<lambda>(cs, ts, b, p, t). servers_ok cs \<and> tasks_ok ts \<and> task_ok t \<and> b = 0)"

lemma gaps_0: "0 < l \<Longrightarrow> l < 2 ^ 52 \<Longrightarrow> gaps 2500 0 l = 0"
proof -
  assume l: "0 < l" "l < 2 ^ 52"
  then have "fl 53 (of_int l) = of_int l" by (intro f64.exact_int) simp
  moreover have "fl 53 0 = 0" by (simp add: fl_def)
  ultimately have "f64_ceil_div_m1 l 0 = - (2 ^ 63)"
    using l by (simp add: f64_ceil_div_m1_def f64_of_int_def int_of_f64_def)
  then show ?thesis by (simp add: gaps_def wrap64_def)
qed

lemma window_0:
  assumes ok: "inst0_ok (cs, ts, b, p, t)" and w: "0 < w" "w \<le> 2 ^ 39"
  shows "window cs ts 2500 (25 * b) p t w = Wcet t + hload (hps t ts) w + interf p cs"
proof -
  have t: "task_ok t" "tasks_ok ts" "servers_ok cs" and b: "b = 0"
    using ok by (auto simp: inst0_ok_def)
  note lb = load_bounds [OF t(1,2) w] and ib = interf_bounds [OF t(3), of p]
  have "load_higher t w 0 ts = hload (hps t ts) w"
    using load_higher_exact [of ts w 0 t] t lb w by (simp add: tasks_ok_def)
  moreover have "interference p 0 cs = interf p cs"
    using interference_exact [of cs 0 p] ib t by (simp add: servers_ok_def)
  ultimately show ?thesis
    using lb ib by (simp add: window_def Let_def b gaps_0 wrap64_range)
qed

lemma start_0: "inst0_ok (cs, ts, b, p, t) \<Longrightarrow> wrap64 (Wcet t + gaps 2500 (25 * b) (Wcet t)) = Wcet t"
  by (auto simp: inst0_ok_def task_ok_def gaps_0 wrap64_range)

interpretation rt0: response_time inst0_ok inst_window inst_start inst_bound
proof unfold_locales
  fix i :: inst assume ok: "inst0_ok i"
  obtain cs ts b p t where i: "i = (cs, ts, b, p, t)" by (cases i)
  note ok' = ok [unfolded i] and st = start_0 [OF ok [unfolded i]]
  have c: "1 \<le> Wcet t" "Wcet t \<le> Period t" "Period t \<le> 2 ^ 32" and b: "b = 0"
    and hp: "hp_ok (2 ^ 32) (hps t ts)" and sv: "servers_ok cs"
    using ok' hps_ok by (auto simp: inst0_ok_def task_ok_def)
  show "0 < inst_start i" using c st by (simp add: i inst_start_def)
  show "inst_start i \<le> inst_window i (inst_start i)"
    using window_0 [OF ok', of "Wcet t"] hload_nonneg [OF hp, of "Wcet t"] interf_bounds [OF sv, of p] c
    by (simp add: i inst_start_def inst_window_def st)
  fix x y assume xy: "inst_start i \<le> x" "x \<le> y" "y \<le> inst_bound i"
  have "wrap64 (Period t - wrap64 (2500 - 25 * b)) = Period t - 2500"
    using c b by (simp add: wrap64_range)
  then have "0 < x" "y \<le> 2 ^ 39" using xy c st by (auto simp: i inst_start_def inst_bound_def)
  then show "inst_window i x \<le> inst_window i y"
    using xy hload_mono [OF hp, of x y] by (simp add: i inst_window_def window_0 [OF ok'])
qed

lemma all_schedulable_returns:
  "(\<And>t. t \<in> set ts \<Longrightarrow> test t \<noteq> None) \<Longrightarrow> all_schedulable test ts \<noteq> None"
proof (induction ts)
  case (Cons t ts)
  then obtain y where "test t = Some y" by fastforce
  with Cons show ?case by (cases y) simp_all
qed simp

lemma Container_check_0:
  assumes ok: "cont_ok cs c"
  shows "Container_checkSchedulability cs (c\<lparr>band := 0\<rparr>) \<noteq> None"
proof -
  have "Task_checkSchedulability cs (tasks c) 2500 0 (prio c) t \<noteq> None" if "t \<in> set (tasks c)" for t
    using rt0.loop_correct [of "(cs, tasks c, 0, prio c, t)"] ok that
    by (simp add: inst0_ok_def cont_ok_def tasks_ok_def Task_checkSchedulability_def
        inst_window_def inst_start_def inst_bound_def Let_def)
  then have "all_schedulable (Task_checkSchedulability cs (tasks c) 2500 0 (prio c)) (tasks c) \<noteq> None"
    by (rule all_schedulable_returns)
  then show ?thesis
    using ok by (auto simp: Container_checkSchedulability_def cont_ok_def SERVERPERIOD_def wrap64_def go_div_def Let_def)
qed

section \<open>The search returns\<close>

lemma binSearch_returns:
  assumes ok: "cont_ok cs c" and hb: "higher_band (prio c) cs \<le> 100"
  shows "\<exists>r b. binSearch cs c = Some (r, c\<lparr>band := b\<rparr>) \<and> 0 \<le> b \<and> b \<le> 100 - higher_band (prio c) cs"
proof (cases "1 \<le> room cs c")
  case True
  then obtain b where "least_band cs c b"
    "binSearch cs c = Some (feasible cs c (b + 1) \<and> b + 1 < 80, c\<lparr>band := b + 1\<rparr>)"
    using binSearch_spec [OF ok] by blast
  then show ?thesis by (auto simp: least_band_def room_def)
next
  case False
  have sv: "servers_ok cs" using ok by (simp add: cont_ok_def)
  have al: "wrap64 (99 - allotted (prio c) 0 cs) = room cs c"
    using allotted_exact [of cs 0 "prio c"] sv hb higher_band_bounds [OF sv, of "prio c"]
    by (simp add: servers_ok_def room_def wrap64_range)
  have r: "room cs c = 0 \<or> room cs c = -1" using False hb by (auto simp: room_def)
  then have "bisect_loop chk 0 (room cs c) = Some (room cs c)" for chk
    by (subst bisect_loop.simps) (auto simp: wrap64_range)
  moreover have "Container_checkSchedulability cs (c\<lparr>band := room cs c + 1\<rparr>) \<noteq> None"
    using r Container_check_0 [OF ok] Container_check_exact [OF ok, of 1] by auto
  moreover have "wrap64 (room cs c + 1) = room cs c + 1" using r by (auto simp: wrap64_range)
  ultimately obtain y where "binSearch cs c = Some (y, c\<lparr>band := room cs c + 1\<rparr>)"
    by (auto simp: binSearch_def al Let_def)
  then show ?thesis using r by (intro exI [of _ y] exI [of _ "room cs c + 1"]) (auto simp: room_def)
qed

section \<open>The loops return and keep the cores within their bandwidth\<close>

definition band_sum :: "heap \<Rightarrow> nat list \<Rightarrow> int" where
  "band_sum h ps = (\<Sum>p\<leftarrow>ps. band (h ! p))"

definition heap_ok :: "heap \<Rightarrow> nat list \<Rightarrow> bool" where
  "heap_ok h ps \<longleftrightarrow> length ps \<le> 1000 \<and>
     (\<forall>p\<in>set ps. p < length h \<and> server_ok (h ! p) \<and> tasks_ok (tasks (h ! p)))"

definition by_prio :: "heap \<Rightarrow> nat list \<Rightarrow> bool" where
  "by_prio h ps \<longleftrightarrow> sorted_wrt (\<lambda>p q. prio (h ! q) < prio (h ! p)) ps"

definition not_below :: "heap \<Rightarrow> nat \<Rightarrow> nat list \<Rightarrow> nat list" where
  "not_below h cp ps = filter (\<lambda>p. \<not> prio (h ! p) < prio (h ! cp)) ps"

lemma band_sum_nonneg: "\<forall>p\<in>set ps. 0 \<le> band (h ! p) \<Longrightarrow> 0 \<le> band_sum h ps"
  unfolding band_sum_def by (intro sum_list_nonneg) auto

lemma band_sum_filter:
  "\<forall>p\<in>set ps. 0 \<le> band (h ! p) \<Longrightarrow> band_sum h (filter P ps) \<le> band_sum h ps"
  by (induction ps) (auto simp: band_sum_def)

lemma above_prefix:
  assumes "by_prio h (pre @ p # ps)"
  shows "above (prio (h ! p)) (map ((!) h) (pre @ p # ps)) = map ((!) h) pre"
proof -
  have "above (prio (h ! p)) (map ((!) h) pre) = map ((!) h) pre"
    using assms unfolding above_def by (intro filter_True) (auto simp: by_prio_def sorted_wrt_append)
  moreover have "above (prio (h ! p)) (map ((!) h) (p # ps)) = []"
    using assms unfolding above_def by (intro filter_False) (auto simp: by_prio_def sorted_wrt_append)
  ultimately show ?thesis by (simp add: above_def)
qed

lemma higher_band_prefix:
  assumes "by_prio h (pre @ p # ps)"
  shows "higher_band (prio (h ! p)) (map ((!) h) (pre @ p # ps)) = band_sum h pre"
proof -
  have "higher_band (prio (h ! p)) (map ((!) h) (pre @ p # ps)) =
      sum_list (map band (above (prio (h ! p)) (map ((!) h) (pre @ p # ps))))"
    by (simp only: higher_band_def above_def)
  then show ?thesis by (simp only: above_prefix [OF assms] band_sum_def map_map comp_def)
qed

lemma heap_ok_cont_ok:
  "heap_ok h cs \<Longrightarrow> p \<in> set cs \<Longrightarrow> cont_ok (map ((!) h) cs) (h ! p)"
  by (auto simp: heap_ok_def cont_ok_def servers_ok_def server_ok_def)

lemma heap_ok_update:
  assumes "heap_ok h ps" "p < length h" "c' = (h ! p)\<lparr>band := b\<rparr>" "0 \<le> b" "b \<le> 100" "server_ok (h ! p)"
  shows "heap_ok (h[p := c']) ps" "map (\<lambda>q. prio (h[p := c'] ! q)) qs = map (\<lambda>q. prio (h ! q)) qs"
  using assms by (auto simp: heap_ok_def server_ok_def nth_list_update)

lemma by_prio_cong: "(\<And>q. prio (h' ! q) = prio (h ! q)) \<Longrightarrow> by_prio h' ps = by_prio h ps"
  by (simp add: by_prio_def)

lemma retune_returns:
  assumes "cs = pre @ ps" "by_prio h cs" "distinct cs" "heap_ok h cs" "band_sum h pre \<le> 100" "nb = band_sum h pre"
    and "band_sum h (not_below h cp cs) \<le> 100"
  shows "\<exists>ok h2 nb2 rb2. retune cp cs ps h nb rb = Some (ok, h2, nb2, rb2) \<and>
    (ok \<longrightarrow> nb2 = band_sum h2 cs \<and> nb2 \<le> 100 \<and> heap_ok h2 cs)"
  using assms
proof (induction ps arbitrary: pre h nb rb)
  case (Cons p ps)
  have p: "p < length h" "server_ok (h ! p)" "p \<in> set cs"
    using Cons.prems(1,4) by (auto simp: heap_ok_def)
  have nn: "0 \<le> band_sum h qs" if "set qs \<subseteq> set cs" for qs
    using that Cons.prems(4) by (intro band_sum_nonneg) (auto simp: heap_ok_def server_ok_def)
  have pre0: "0 \<le> band_sum h pre" using nn [of pre] Cons.prems(1) by auto
  show ?case
  proof (cases "prio (h ! p) < prio (h ! cp)")
    case False
    have "not_below h cp pre = pre"
      using False Cons.prems(1,2) unfolding not_below_def
      by (intro filter_True) (fastforce simp: by_prio_def sorted_wrt_append)
    then have "not_below h cp cs = pre @ p # not_below h cp ps"
      using False Cons.prems(1) by (simp add: not_below_def)
    moreover have "0 \<le> band_sum h (not_below h cp ps)"
      using Cons.prems(1) by (intro nn) (auto simp: not_below_def)
    ultimately have le: "band_sum h (pre @ [p]) \<le> 100"
      using Cons.prems(7) by (simp add: band_sum_def)
    have "wrap64 (nb + band (h ! p)) = band_sum h (pre @ [p])"
      using le pre0 p(2) Cons.prems(6) by (simp add: band_sum_def server_ok_def wrap64_range)
    then show ?thesis
      using Cons.IH [of "pre @ [p]" h _ "rb @ [band (h ! p)]"] Cons.prems le False by (simp add: Let_def)
  next
    case True
    have hb: "higher_band (prio (h ! p)) (map ((!) h) cs) = band_sum h pre"
      using higher_band_prefix [of h pre p ps] Cons.prems(1,2) by simp
    then obtain r b where b: "binSearch (map ((!) h) cs) (h ! p) = Some (r, (h ! p)\<lparr>band := b\<rparr>)"
      "0 \<le> b" "b \<le> 100 - band_sum h pre"
      using binSearch_returns [OF heap_ok_cont_ok [OF Cons.prems(4) p(3)]] Cons.prems(5) by auto
    let ?h = "h[p := (h ! p)\<lparr>band := b\<rparr>]"
    have pr: "prio (?h ! q) = prio (h ! q)" for q using p(1) by (simp add: nth_list_update)
    have ok: "heap_ok ?h cs" using heap_ok_update(1) [OF Cons.prems(4) p(1) refl b(2) _ p(2)] b pre0 by simp
    have "band (?h ! q) = band (h ! q)" if "q \<in> set pre" for q
      using that Cons.prems(1,3) by (intro arg_cong [where f = band] nth_list_update_neq) auto
    then have bs: "band_sum ?h (pre @ [p]) = band_sum h pre + b" using p(1) by (simp add: band_sum_def cong: map_cong)
    have "not_below ?h cp cs = not_below h cp cs" by (simp add: not_below_def pr)
    moreover have "band_sum ?h (not_below h cp cs) = band_sum h (not_below h cp cs)"
      unfolding band_sum_def not_below_def using True by (intro arg_cong [where f = sum_list] map_cong refl)
        (auto intro!: arg_cong [where f = band] nth_list_update_neq)
    moreover have "wrap64 (nb + b) = band_sum h pre + b" using b pre0 Cons.prems(6) by (simp add: wrap64_range)
    ultimately show ?thesis
      using Cons.IH [of "pre @ [p]" ?h _ "rb @ [band (h ! p)]"] Cons.prems ok bs b True by_prio_cong [of ?h h cs, OF pr]
      by (cases r) (simp_all add: Let_def, auto)
  qed
qed auto

text \<open>A heap the loop over the cores can be in: values in range, distinct priorities, no core overbooked.\<close>

definition core_total :: "int \<Rightarrow> container list \<Rightarrow> int" where
  "core_total k cs = (\<Sum>c\<leftarrow>core_list k cs. band c)"

definition try_ok :: "heap \<Rightarrow> bool" where
  "try_ok h \<longleftrightarrow> h \<noteq> [] \<and> length h \<le> 1000 \<and> (\<forall>c\<in>set h. server_ok c \<and> tasks_ok (tasks c)) \<and>
     distinct (map prio h) \<and> (\<forall>k. core_total k (butlast h) \<le> 100)"

lemma try_ok_on_core:
  assumes "try_ok h" "n = length h - 1"
  shows "heap_ok h (on_core k h @ [n])" "heap_ok h (on_core k h)" "n < length h \<and> int (length (on_core k h)) < 1000"
    "band_sum h (on_core k h) \<le> 100" "distinct (on_core k h @ [n])"
proof -
  have "length (on_core k h) \<le> length h - 1"
    unfolding on_core_def by (rule le_trans [OF length_filter_le]) simp
  moreover have ne: "h \<noteq> []" "length h \<le> 1000" using assms by (simp_all add: try_ok_def)
  ultimately have len: "length (on_core k h) + 1 \<le> 1000" by (cases h) auto
  have nth: "server_ok (h ! q) \<and> tasks_ok (tasks (h ! q))" if "q < length h" for q
    using assms that by (simp add: try_ok_def)
  have n: "n < length h" using assms by (cases h) (auto simp: try_ok_def)
  with len show "n < length h \<and> int (length (on_core k h)) < 1000" by simp
  show "heap_ok h (on_core k h @ [n])" "heap_ok h (on_core k h)"
    using len nth n on_core_bounds [of _ k h] by (force simp: heap_ok_def)+
  show "band_sum h (on_core k h) \<le> 100"
  proof -
    have "core_total k (butlast h) \<le> 100" using assms by (simp add: try_ok_def)
    then show ?thesis by (simp add: core_total_def core_list_butlast [OF ne(1)] band_sum_def comp_def)
  qed
  show "distinct (on_core k h @ [n])" using on_core_bounds [of n k h] assms by auto
qed

lemma by_prio_sliceStable:
  assumes "distinct (map prio h)" "distinct ps" "\<forall>p\<in>set ps. p < length h"
  shows "by_prio h (sliceStable (\<lambda>p. - prio (h ! p)) ps)"
proof -
  let ?f = "\<lambda>p. - prio (h ! p)" and ?ps = "sliceStable (\<lambda>p. - prio (h ! p)) ps"
  have "inj_on ?f (set ?ps)"
    using assms nth_eq_iff_index_eq [OF assms(1)] by (auto intro!: inj_onI)
  moreover have "distinct ?ps" using assms(2) by (simp add: sliceStable_def)
  ultimately have "sorted_wrt (<) (map ?f ?ps)"
    using sliceStable_sorted [where f = ?f and xs = ps] by (simp add: strict_sorted_iff distinct_map)
  then show ?thesis by (simp add: by_prio_def sorted_wrt_map)
qed

lemma band_sum_not_below_sorted:
  "band_sum h (not_below h n (sliceStable f ps)) = band_sum h (not_below h n ps)"
proof -
  have "not_below h n (sliceStable f ps) = sliceStable f (not_below h n ps)"
    by (simp add: not_below_def sliceStable_def filter_sort)
  then show ?thesis by (simp add: band_sum_def)
qed

lemma search_on_core:
  fixes k :: int
  assumes ok: "try_ok h" and n: "n = length h - 1"
  defines "hb \<equiv> higher_band (prio (h ! n)) (map ((!) h) (on_core k h))"
  shows "hb = band_sum h (filter (\<lambda>p. prio (h ! n) < prio (h ! p)) (on_core k h))" "0 \<le> hb"
    "\<exists>r b. binSearch (map ((!) h) (on_core k h)) (h ! n) = Some (r, (h ! n)\<lparr>band := b\<rparr>) \<and> 0 \<le> b \<and> b \<le> 100 - hb"
proof -
  note c = try_ok_on_core [OF ok n, where k = k]
  have ck: "cont_ok (map ((!) h) (on_core k h)) (h ! n)"
    using c(1,2) by (auto simp: heap_ok_def cont_ok_def servers_ok_def server_ok_def)
  then show "0 \<le> hb" unfolding hb_def by (intro higher_band_bounds) (simp add: cont_ok_def)
  show hb: "hb = band_sum h (filter (\<lambda>p. prio (h ! n) < prio (h ! p)) (on_core k h))"
    by (simp add: hb_def higher_band_def band_sum_def filter_map comp_def)
  also have "\<dots> \<le> band_sum h (on_core k h)"
    using c(2) by (intro band_sum_filter) (auto simp: heap_ok_def server_ok_def)
  finally show "\<exists>r b. binSearch (map ((!) h) (on_core k h)) (h ! n) = Some (r, (h ! n)\<lparr>band := b\<rparr>) \<and> 0 \<le> b \<and> b \<le> 100 - hb"
    using binSearch_returns [OF ck] c(4) unfolding hb_def by simp
qed

lemma retune_on_core:
  assumes ok: "try_ok h" and n: "n = length h - 1"
    and b: "binSearch (map ((!) h) (on_core k h)) (h ! n) = Some (r, c')"
    and ps: "ps = sliceStable (\<lambda>p. - prio (h[n := c'] ! p)) (on_core k h @ [n])"
  shows "0 \<le> band c' \<and> band c' \<le> 100"
    and "\<exists>ok h2 nb2 rb2. retune n ps ps (h[n := c']) 0 [] = Some (ok, h2, nb2, rb2) \<and>
      (ok \<longrightarrow> nb2 = band_sum h2 ps \<and> nb2 \<le> 100 \<and> heap_ok h2 ps)"
proof -
  note c = try_ok_on_core [OF ok n, where k = k] and hb = search_on_core [OF ok n, where k = k]
  let ?cs = "map ((!) h) (on_core k h)" and ?h1 = "h[n := c']"
  obtain b' where b': "c' = (h ! n)\<lparr>band := b'\<rparr>" "0 \<le> b'" "b' \<le> 100 - higher_band (prio (h ! n)) ?cs"
    using hb(3) b by force
  have cb: "b' \<le> 100" using b' hb(2) by simp
  then show "0 \<le> band c' \<and> band c' \<le> 100" using b' by simp
  have pr: "prio (?h1 ! q) = prio (h ! q)" for q using c(3) b'(1) by (simp add: nth_list_update)
  have mp: "map prio ?h1 = map prio h" using c(3) b'(1) by (simp add: map_update list_update_same_conv)
  have dh: "distinct (map prio h)" using ok by (simp add: try_ok_def)
  then have "distinct (map prio ?h1)" by (simp only: mp)
  then have bp: "by_prio ?h1 ps"
    unfolding ps using c(1,5) by (intro by_prio_sliceStable) (auto simp: heap_ok_def)
  have hk: "heap_ok ?h1 ps"
    using heap_ok_update(1) [OF c(1) conjunct1 [OF c(3)] b'(1,2) cb] c(1) by (simp add: heap_ok_def ps)
  have ne: "q < length h \<and> q \<noteq> n \<and> prio (h ! q) \<noteq> prio (h ! n)" if "q \<in> set (on_core k h)" for q
    using that on_core_bounds [of q k h] nth_eq_iff_index_eq [OF dh, of q n] n c(3) by auto
  then have "not_below ?h1 n (on_core k h @ [n]) = filter (\<lambda>p. prio (h ! n) < prio (h ! p)) (on_core k h) @ [n]"
    unfolding not_below_def pr by (auto intro!: filter_cong dest: ne)
  moreover have "map (\<lambda>q. band (?h1 ! q)) (filter P (on_core k h)) = map (\<lambda>q. band (h ! q)) (filter P (on_core k h))" for P
    using ne by (intro map_cong refl arg_cong [where f = band] nth_list_update_neq) auto
  ultimately have "band_sum ?h1 (not_below ?h1 n (on_core k h @ [n])) = higher_band (prio (h ! n)) ?cs + b'"
    using c(3) by (simp only: band_sum_def map_append) (simp add: hb(1) band_sum_def b'(1))
  then have "band_sum ?h1 (not_below ?h1 n ps) \<le> 100" using b'(3) by (simp add: ps band_sum_not_below_sorted)
  moreover have "distinct ps" using c(5) by (simp add: ps sliceStable_def)
  ultimately show "\<exists>ok h2 nb2 rb2. retune n ps ps (h[n := c']) 0 [] = Some (ok, h2, nb2, rb2) \<and>
      (ok \<longrightarrow> nb2 = band_sum h2 ps \<and> nb2 \<le> 100 \<and> heap_ok h2 ps)"
    using retune_returns [of ps "[]" ps ?h1 0 n "[]"] bp hk by (simp add: band_sum_def)
qed

section \<open>A refusing core keeps the heap in order\<close>

lemma retune_record_prefix:
  "retune cp cs ps h nb rb = Some (ok, h2, nb2, rb2) \<Longrightarrow> distinct ps \<Longrightarrow>
     \<exists>j. rb2 = rb @ map (\<lambda>p. band (h ! p)) (take j ps)"
proof (induction ps arbitrary: h nb rb)
  case (Cons p ps)
  from Cons.prems(1) show ?case
  proof (cases rule: retune_ConsE)
    case (tune c')
    obtain j where "rb2 = (rb @ [band (h ! p)]) @ map (\<lambda>q. band (h[p := c'] ! q)) (take j ps)"
      using Cons.IH [OF tune(4)] Cons.prems(2) by auto
    moreover have "map (\<lambda>q. band (h[p := c'] ! q)) (take j ps) = map (\<lambda>q. band (h ! q)) (take j ps)"
      using Cons.prems(2)
      by (intro map_cong refl arg_cong [where f = band] nth_list_update_neq) (auto dest: in_set_takeD)
    ultimately show ?thesis by (intro exI [of _ "Suc j"]) simp
  next
    case keep
    then obtain j where "rb2 = (rb @ [band (h ! p)]) @ map (\<lambda>q. band (h ! q)) (take j ps)"
      using Cons.IH [OF keep(2)] Cons.prems(2) by auto
    then show ?thesis by (intro exI [of _ "Suc j"]) simp
  next
    case (stop c')
    then show ?thesis by (intro exI [of _ 1]) simp
  qed
qed simp

lemma rolled_back_band:
  assumes "retune cp ps ps h 0 [] = Some (ok, h2, nb2, rb)" "distinct ps" "\<forall>p\<in>set ps. p < length h" "q \<in> set ps"
  shows "band (rollback ps rb h2 ! q) = band (h ! q) \<or> band (rollback ps rb h2 ! q) = 0"
proof -
  obtain j where rb: "rb = map (\<lambda>p. band (h ! p)) (take j ps)" using retune_record_prefix [OF assms(1,2)] by auto
  obtain i where i: "i < length ps" "ps ! i = q" using assms(4) by (auto simp: in_set_conv_nth)
  have len: "length h2 = length h" using map_strip_length [OF retune_strip [OF assms(1)]] .
  have "band (rollback ps rb h2 ! q) = (if i < length rb then rb ! i else 0)"
    using rollback_band [OF assms(2) _ i(1), of h2 rb] assms(3) len i(2) by simp
  then show ?thesis using i by (auto simp: rb)
qed

lemma on_core_strip: "map strip h' = map strip h \<Longrightarrow> on_core k h' = on_core k h"
proof -
  assume st: "map strip h' = map strip h"
  have "core (h' ! q) = core (h ! q)" if "q < length h" for q
    using strip_fields [OF map_strip_nth [OF st, of q]] that map_strip_length [OF st] by simp
  then show ?thesis unfolding on_core_def map_strip_length [OF st] by (intro filter_cong) auto
qed

lemma try_ok_shrink:
  assumes ok: "try_ok h" and st: "map strip h' = map strip h"
    and old: "\<And>q. q < length h - 1 \<Longrightarrow> 0 \<le> band (h' ! q) \<and> band (h' ! q) \<le> band (h ! q)"
    and new: "0 \<le> band (h' ! (length h - 1))" "band (h' ! (length h - 1)) \<le> 100"
  shows "try_ok h'"
proof -
  have len: "length h' = length h" and ne: "h' \<noteq> []" "h \<noteq> []"
    using map_strip_length [OF st] ok by (auto simp: try_ok_def)
  have f: "tasks (h' ! q) = tasks (h ! q)" "period (h' ! q) = period (h ! q)" "prio (h' ! q) = prio (h ! q)"
    if "q < length h" for q using strip_fields [OF map_strip_nth [OF st, of q]] that len by auto
  have sv: "server_ok (h ! q)" "tasks_ok (tasks (h ! q))" if "q < length h" for q
    using ok that by (auto simp: try_ok_def)
  have "server_ok (h' ! q) \<and> tasks_ok (tasks (h' ! q))" if q: "q < length h" for q
    using sv [OF q] f [OF q] new old [of q] q by (cases "q = length h - 1") (fastforce simp: server_ok_def)+
  then have "\<forall>c\<in>set h'. server_ok c \<and> tasks_ok (tasks c)" by (simp add: all_set_conv_all_nth len)
  moreover have "map prio h' = map prio h" using f len by (intro nth_equalityI) auto
  moreover have "core_total k (butlast h') \<le> core_total k (butlast h)" for k
    using old on_core_bounds [of _ k h]
    by (auto simp: core_total_def core_list_butlast ne on_core_strip [OF st] comp_def intro!: sum_list_mono)
  ultimately show ?thesis
    using ok len ne unfolding try_ok_def by (metis order_trans)
qed

text \<open>One core: it accepts with a total of at most 100, or the next core is tried on a heap in order.\<close>

lemma try_cores_next:
  assumes ok: "try_ok h" and k: "k < N"
  obtains (accept) c' ps h2 nb rb where "accepted_at used k h c' ps h2 nb rb" "nb = band_sum h2 ps"
      "nb \<le> 100" "heap_ok h2 ps"
  | (refuse) h' where "try_ok h'" "map strip h' = map strip h"
      "try_cores N pers k h used chg = try_cores N pers (Suc k) h' used chg"
proof -
  let ?n = "length h - 1"
  let ?cs = "on_core (int k) h"
  note c = try_ok_on_core [OF ok refl, where k = "int k"]
  obtain r c' where b: "binSearch (map ((!) h) ?cs) (h ! ?n) = Some (r, c')"
    using search_on_core(3) [OF ok refl] by blast
  let ?ps = "sliceStable (\<lambda>p. - prio (h[?n := c'] ! p)) (?cs @ [?n])"
  note rt = retune_on_core [OF ok refl b refl]
  obtain ok' h2 nb rb where r: "retune ?n ?ps ?ps (h[?n := c']) 0 [] = Some (ok', h2, nb, rb)"
    and tot: "ok' \<longrightarrow> nb = band_sum h2 ?ps \<and> nb \<le> 100 \<and> heap_ok h2 ?ps" using rt(2) by blast
  have st: "map strip (h[?n := c']) = map strip h" using binSearch_strip [OF b] by (rule map_strip_update)
  have nn: "0 \<le> band (h ! q)" if "q < length h" for q using ok that by (simp add: try_ok_def server_ok_def)
  have h1: "try_ok (h[?n := c'])"
    using st rt(1) c(3) nn by (intro try_ok_shrink [OF ok st]) auto
  have pl: "distinct ?ps" "\<forall>p\<in>set ?ps. p < length (h[?n := c'])"
    using c(1,5) by (auto simp: sliceStable_def heap_ok_def)
  have rb: "band (rollback ?ps rb h2 ! q) \<in> {0, band (h[?n := c'] ! q)}" for q
    using rolled_back_band [OF r pl, of q] retune_other [OF r, of q] by (cases "q \<in> set ?ps") (auto simp: rollback_other)
  have st2: "map strip (rollback ?ps rb h2) = map strip h" using retune_strip [OF r] st by simp
  have h2: "try_ok (rollback ?ps rb h2)"
  proof (rule try_ok_shrink [OF ok st2])
    show "0 \<le> band (rollback ?ps rb h2 ! q) \<and> band (rollback ?ps rb h2 ! q) \<le> band (h ! q)"
      if "q < length h - 1" for q using rb [of q] nn [of q] that by auto
    show "0 \<le> band (rollback ?ps rb h2 ! ?n)" "band (rollback ?ps rb h2 ! ?n) \<le> 100"
      using rb [of ?n] rt(1) c(3) by auto
  qed
  consider (acc) "wrap64 (used ! k + band c') \<le> THRESHOLDSCHED" "r" "ok'"
    | (tried) "\<not> (wrap64 (used ! k + band c') \<le> THRESHOLDSCHED \<and> r)"
    | (rolled) "wrap64 (used ! k + band c') \<le> THRESHOLDSCHED" "r" "\<not> ok'" by blast
  then show thesis
  proof cases
    case acc
    with b r have "accepted_at used k h c' ?ps h2 nb rb" by (simp add: accepted_at_def Let_def)
    then show thesis using accept tot acc by blast
  next
    case tried
    then have "try_cores N pers k h used chg = try_cores N pers (Suc k) (h[?n := c']) used chg"
      using b k by (subst try_cores.simps) (auto simp: Let_def)
    then show thesis using refuse h1 st by blast
  next
    case rolled
    then have "try_cores N pers k h used chg = try_cores N pers (Suc k) (rollback ?ps rb h2) used chg"
      using b r k by (subst try_cores.simps) (simp add: Let_def)
    then show thesis using refuse h2 st2 by blast
  qed
qed

section \<open>The whole loop over the cores\<close>

definition bands_ok :: "container list \<Rightarrow> bool" where
  "bands_ok cs \<longleftrightarrow> (\<forall>c\<in>set cs. server_ok c) \<and> (\<forall>k. core_total k cs \<le> 100)"

lemma try_ok_bands: "try_ok h \<Longrightarrow> bands_ok (butlast h)"
  by (auto simp: try_ok_def bands_ok_def dest: in_set_butlastD)

lemma try_cores_accepted:
  assumes "accepted_at used k h c' ps h2 nb rb" "k < N"
  shows "try_cores N pers k h used chg =
    Some (let n = length h - 1; h3 = h2[n := (h2 ! n)\<lparr>core := int k\<rparr>];
              h4 = (if pers then h3 else rollback ps rb h3)
          in (\<lparr>Schedulable = True, Bandwidth = band (h4 ! n), Core = int k, Error = ''''\<rparr>,
              used[k := nb], if pers then h4 else butlast h4, chg \<or> pers))"
  using assms by (subst try_cores.simps) (auto simp: accepted_at_def Let_def)

lemma core_list_other:
  assumes acc: "accepted_at used k h c' ps h2 nb rb" and ne: "h \<noteq> []" and j: "j \<noteq> int k"
  defines "n \<equiv> length h - 1"
  shows "core_list j (h2[n := c'\<lparr>core := int k\<rparr>]) = core_list j (butlast h)"
proof -
  note f = accepted_at_facts [OF acc ne, folded n_def]
  let ?o = "h2[n := c'\<lparr>core := int k\<rparr>]"
  have r: "retune n ps ps (h[n := c']) 0 [] = Some (True, h2, nb, rb)"
    using acc by (auto simp: accepted_at_def Let_def n_def)
  have len: "length ?o = Suc n" "n < length h2" using f(1) ne by (simp_all add: n_def)
  have cr: "core (?o ! i) = core (h ! i)" if "i < n" for i
    using strip_fields [OF map_strip_nth [OF f(3), of i]] that f(1) by (simp add: n_def)
  have sp: "set ps = insert n (set (on_core (int k) h))" using mset_eq_setD [OF f(5)] by simp
  have same: "?o ! i = h ! i" if i: "i < n" "core (h ! i) = j" for i
  proof -
    have "i \<notin> set ps" using i j sp on_core_bounds [of i "int k" h] by auto
    then show ?thesis using retune_other [OF r, of i] i by simp
  qed
  have "filter (\<lambda>i. core (?o ! i) = j) [0..<Suc n] = filter (\<lambda>i. core (?o ! i) = j) [0..<n]"
    using len j by simp
  also have "\<dots> = on_core j h" unfolding on_core_def n_def [symmetric] using cr by (intro filter_cong) auto
  finally have "core_list j ?o = map ((!) ?o) (on_core j h)"
    unfolding core_list_def filter_as_nth [of _ ?o] len by simp
  also have "\<dots> = map ((!) h) (on_core j h)"
    using same on_core_bounds [of _ j h] by (intro map_cong refl) (simp only: n_def)
  finally show ?thesis by (simp add: core_list_butlast [OF ne])
qed

lemma accepted_bands_ok:
  assumes acc: "accepted_at used k h c' ps h2 nb rb" and ok: "try_ok h"
    and nb: "nb = band_sum h2 ps" "nb \<le> 100" "heap_ok h2 ps"
  shows "bands_ok (h2[length h - 1 := c'\<lparr>core := int k\<rparr>])"
    and "core_total (int k) (h2[length h - 1 := c'\<lparr>core := int k\<rparr>]) = nb"
proof -
  define n where "n = length h - 1"
  have ne: "h \<noteq> []" using ok by (simp add: try_ok_def)
  note f = accepted_at_facts [OF acc ne, folded n_def]
  let ?o = "h2[n := c'\<lparr>core := int k\<rparr>]"
  have n: "n < length h2" using f(1) ne by (simp add: n_def)
  have r: "retune n ps ps (h[n := c']) 0 [] = Some (True, h2, nb, rb)"
    using acc by (auto simp: accepted_at_def Let_def n_def)
  have "core_total (int k) ?o = band_sum h2 (on_core (int k) h @ [n])"
    using core_list_accepted [OF acc ne] f(4) by (simp add: core_total_def band_sum_def n_def comp_def)
  also have "\<dots> = band_sum h2 ps"
    unfolding band_sum_def using f(5) by (intro sum_list_mset_cong) simp
  finally show tot: "core_total (int k) (h2[length h - 1 := c'\<lparr>core := int k\<rparr>]) = nb"
    using nb(1) by (simp add: n_def)
  have "n \<in> set ps" using mset_eq_setD [OF f(5)] by simp
  then have c': "server_ok c'" using nb(3) f(4) by (auto simp: heap_ok_def)
  have "server_ok (h2 ! q)" if q: "q < n" for q
  proof (cases "q \<in> set ps")
    case False
    then have "h2 ! q = h ! q" using retune_other [OF r] q by simp
    then show ?thesis using ok q f(1) n by (simp add: try_ok_def)
  qed (use nb(3) in \<open>auto simp: heap_ok_def\<close>)
  then have "server_ok (?o ! q)" if "q < length ?o" for q
    using that c' n f(1) by (cases "q = n") (auto simp: server_ok_def n_def)
  then have "\<forall>c\<in>set ?o. server_ok c" by (simp add: all_set_conv_all_nth)
  moreover have "core_total j ?o \<le> 100" for j
    using tot nb(2) ok core_list_other [OF acc ne, of j]
    by (cases "j = int k") (auto simp: core_total_def n_def try_ok_def)
  ultimately show "bands_ok (h2[length h - 1 := c'\<lparr>core := int k\<rparr>])" by (simp add: bands_ok_def n_def)
qed

lemma try_cores_returns:
  "try_ok h \<Longrightarrow> \<exists>res used' cs chg'. try_cores N pers k h used chg = Some (res, used', cs, chg') \<and> bands_ok cs"
proof (induction "N - k" arbitrary: k h)
  case 0
  then show ?case by (subst try_cores.simps) (simp add: try_ok_bands)
next
  case (Suc d)
  then have k: "k < N" and ne: "h \<noteq> []" by (simp_all add: try_ok_def)
  from Suc.prems k show ?case
  proof (cases rule: try_cores_next [where used = used and pers = pers and chg = chg])
    case (accept c' ps h2 nb rb)
    note f = accepted_at_facts [OF accept(1) ne] and rb = accepted_rollback [OF accept(1) ne]
    show ?thesis
      using accepted_bands_ok(1) [OF accept(1) Suc.prems accept(2-4)] try_ok_bands [OF Suc.prems] f(4) rb(1)
      by (simp add: try_cores_accepted [OF accept(1) k] Let_def)
  next
    case (refuse h')
    then show ?thesis using Suc.hyps by (simp add: refuse(3))
  qed
qed

section \<open>The node\<close>

text \<open>A node in order: values in range, no empty container, distinct priorities, no core overbooked.\<close>

definition node_ok :: "nat \<Rightarrow> container list \<Rightarrow> bool" where
  "node_ok N cs \<longleftrightarrow> (\<forall>c\<in>set cs. server_ok c \<and> tasks c \<noteq> [] \<and> tasks_ok (tasks c) \<and> 0 \<le> core c \<and> core c < int N) \<and>
     distinct (map prio cs) \<and> (\<forall>k. core_total k cs \<le> 100)"

lemma core_total_sliceStable [simp]: "core_total k (sliceStable f cs) = core_total k cs"
proof -
  have "core_list k (sliceStable f cs) = sliceStable f (core_list k cs)"
    by (simp add: core_list_def sliceStable_def filter_sort)
  then show ?thesis by (simp add: core_total_def)
qed

lemma distinct_prio_sliceStable: "distinct (map prio (sliceStable f cs)) = distinct (map prio cs)"
  using mset_eq_imp_distinct_iff [of "map prio (sliceStable f cs)" "map prio cs"] by simp

lemma node_ok_try_ok:
  assumes "node_ok N cs" "length cs < 1000" "tasks_ok (Tasks args)" "p \<notin> prio ` set cs"
  shows "try_ok (sliceStable minp cs @ [new_container args p])"
  using assms by (auto simp: node_ok_def try_ok_def new_container_def server_ok_def distinct_prio_sliceStable)

text \<open>What \<open>node_ok\<close> asks of everything but the bandwidths.\<close>

definition shape_ok :: "nat \<Rightarrow> container list \<Rightarrow> bool" where
  "shape_ok N cs \<longleftrightarrow> (\<forall>c\<in>set cs. tasks c \<noteq> [] \<and> tasks_ok (tasks c) \<and> 0 \<le> core c \<and> core c < int N) \<and> distinct (map prio cs)"

lemma node_ok_split: "node_ok N cs \<longleftrightarrow> shape_ok N cs \<and> bands_ok cs"
  by (auto simp: node_ok_def shape_ok_def bands_ok_def)

lemma shape_ok_strip: "shape_ok N cs \<longleftrightarrow> shape_ok N (map strip cs)"
  by (simp add: shape_ok_def strip_def comp_def)

lemma shape_ok_frame: "map strip cs' = map strip cs \<Longrightarrow> shape_ok N cs' = shape_ok N cs"
  by (metis shape_ok_strip)

lemma schedTest_node_ok:
  assumes node: "node_ok N (containers s)" "length (containers s) < 1000"
    and req: "Tasks args \<noteq> []" "tasks_ok (Tasks args)"
    and p: "setPrio (Tasks args) (containers s) = Ret (p, cs)" "p \<notin> prio ` set (containers s)"
  shows "\<exists>res used s'. schedTest N args pers s = Ret (res, used, s') \<and> bands_ok (containers s')"
proof -
  have cs: "cs = sliceStable minp (containers s)" using setPrio_Ret [OF p(1)] by simp
  have tr: "try_ok (cs @ [new_container args p])" unfolding cs using node req p by (intro node_ok_try_ok)
  obtain used where u: "getBandwidths N cs = Ret used"
    using getBandwidths_Panic [of N cs] getBandwidths_not_Diverge [of N cs] node cs
    by (cases "getBandwidths N cs") (auto simp: node_ok_def)
  obtain res used' cs' chg where
    "try_cores N pers 0 (cs @ [new_container args p]) used (changed s) = Some (res, used', cs', chg)" "bands_ok cs'"
    using try_cores_returns [OF tr] by blast
  with p(1) u show ?thesis by (auto simp: schedTest_def new_container_def Let_def)
qed

end
