(* ===== verification/Rubicante_Priority.thy ===== *)
theory Rubicante_Priority
  imports Rubicante_Admission
begin

text \<open>
  The priorities \<open>setPrio\<close> hands out follow the rate-monotonic order: in the order in which the
  test keeps the containers, by their shortest period and in arrival order among equals, the
  priorities never increase.
\<close>

definition rm_order :: "container list \<Rightarrow> bool" where
  "rm_order cs \<longleftrightarrow> sorted_wrt (\<lambda>c d. prio d \<le> prio c) (sliceStable minp cs) \<and>
     (\<forall>c\<in>set cs. 0 \<le> prio c \<and> prio c \<le> 128)"

section \<open>The order is kept\<close>

lemma rm_order_strip: "rm_order cs \<longleftrightarrow> rm_order (map strip cs)"
proof -
  have "minp (strip c) = minp c" "prio (strip c) = prio c" for c by (simp_all add: minp_def strip_def)
  then show ?thesis by (simp add: rm_order_def sliceStable_map sorted_wrt_map)
qed

lemma minPeriod_from_bound: "minPeriod_from mn ts \<le> mn"
proof (induction ts arbitrary: mn)
  case (Cons u ts)
  have "minPeriod_from (Period u) ts \<le> Period u" "minPeriod_from mn ts \<le> mn" using Cons by blast+
  then show ?case by auto
qed simp

lemma minPeriod_from_le: "t \<in> set ts \<Longrightarrow> minPeriod_from mn ts \<le> Period t"
proof (induction ts arbitrary: mn)
  case (Cons u ts)
  then show ?case using minPeriod_from_bound [of "Period u" ts] minPeriod_from_bound [of mn ts]
    by (auto simp: not_less)
qed simp

lemma go_div_2: "0 \<le> x \<Longrightarrow> go_div x 2 = x div 2"
  by (simp add: go_div_nonneg)

lemma setPrio_between:
  assumes sp: "setPrio ts cs = Ret (p, L)" and rm: "rm_order cs" and x: "tasks x = ts" "prio x = p"
  shows "rm_order (L @ [x])"
proof -
  let ?P = "\<lambda>c. \<not> minp x < minp c"
  define i where "i = length (takeWhile ?P L)"
  have ts: "ts \<noteq> []" and L: "L = sliceStable minp cs" using setPrio_Ret [OF sp] by auto
  have mn: "getMinPeriod ts = Ret (minp x)" using ts x by (cases ts) (simp_all add: getMinPeriod_def minp_def)
  have p: "p = (if i = 0 then 128 else if i = length L then go_div (prio (L ! (i - 1))) 2
      else go_div (wrap64 (prio (L ! i) + prio (L ! (i - 1)))) 2)"
    using sp mn by (auto simp: setPrio_def i_def L Let_def split: if_splits)
  have so: "sorted_wrt (\<lambda>c d. prio d \<le> prio c) L" and rg: "\<forall>c\<in>set L. 0 \<le> prio c \<and> prio c \<le> 128"
    using rm by (auto simp: rm_order_def L)
  have le: "i \<le> length L" by (simp add: i_def length_takeWhile_le)
  have tw: "takeWhile ?P L = take i L" "dropWhile ?P L = drop i L"
    unfolding i_def by (rule takeWhile_eq_take dropWhile_eq_drop)+
  have desc: "prio (L ! b) \<le> prio (L ! a)" if "a \<le> b" "b < length L" for a b
    using so that by (cases "a = b") (auto simp: sorted_wrt_iff_nth_less)
  have hi: "p \<le> prio (L ! a)" if a: "a < i" for a
  proof -
    have "prio (L ! (i - 1)) \<le> prio (L ! a)" using a le by (intro desc) auto
    moreover have "0 \<le> prio (L ! (i - 1))" "prio (L ! (i - 1)) \<le> 128" using rg a le by auto
    moreover have "0 \<le> prio (L ! i)" "prio (L ! i) \<le> prio (L ! (i - 1))" if "i \<noteq> length L"
      using that rg le desc [of "i - 1" i] by auto
    ultimately show ?thesis using a p by (auto simp: go_div_2 wrap64_range)
  qed
  have lo: "prio (L ! a) \<le> p" if a: "i \<le> a" "a < length L" for a
  proof -
    have "prio (L ! a) \<le> prio (L ! i)" using a by (intro desc) auto
    moreover have "prio (L ! i) \<le> 128" "0 \<le> prio (L ! i)" using rg a by auto
    moreover have "prio (L ! i) \<le> prio (L ! (i - 1))" "prio (L ! (i - 1)) \<le> 128" if "i \<noteq> 0"
      using that rg a desc [of "i - 1" i] by auto
    ultimately show ?thesis using a p by (auto simp: go_div_2 wrap64_range)
  qed
  have "0 \<le> p \<and> p \<le> 128"
  proof (cases "i = 0")
    case False
    have "prio (L ! (i - 1)) \<le> 128" "0 \<le> prio (L ! (i - 1))" using rg False le by auto
    moreover have "0 \<le> prio (L ! i)" "prio (L ! i) \<le> 128" if "i \<noteq> length L" using that rg le by auto
    ultimately show ?thesis using hi [of "i - 1"] False p by (auto simp: go_div_2 wrap64_range)
  qed (simp add: p)
  moreover have "sorted_wrt (\<lambda>c d. prio d \<le> prio c) (take i L @ x # drop i L)"
  proof -
    have "p \<le> prio c" if "c \<in> set (take i L)" for c
      using that hi by (auto simp: in_set_conv_nth)
    moreover have "prio d \<le> p" if "d \<in> set (drop i L)" for d
      using that lo by (auto simp: in_set_conv_nth)
    ultimately show ?thesis
      using sorted_wrt_take [OF so, of i] sorted_wrt_drop [OF so, of i] x by (fastforce simp: sorted_wrt_append)
  qed
  moreover have "sliceStable minp (L @ [x]) = take i L @ x # drop i L"
    using sliceStable_snoc [of minp L x] tw by (simp add: L sliceStable_sorted)
  ultimately show ?thesis using rg x by (simp add: rm_order_def)
qed

end
