(* ===== verification/Rubicante_Props.thy ===== *)
theory Rubicante_Props
  imports Rubicante_Termination Rubicante_Priority
begin

text \<open>
  The properties of the node daemon's admission test, each with a witness on a concrete node. The
  proofs rest on the lemmas of the theories before.
\<close>

section \<open>Example requests and nodes\<close>

definition ex_task :: "int \<Rightarrow> int \<Rightarrow> task" where
  "ex_task P C = \<lparr>Period = P, Wcet = C, Prio = 1\<rparr>"

definition ex_cont :: "string \<Rightarrow> int \<Rightarrow> int \<Rightarrow> int \<Rightarrow> int \<Rightarrow> container" where
  "ex_cont nm P C b p = \<lparr>tasks = [ex_task P C], band = b, name = nm, period = 2500, prio = p, core = 0\<rparr>"

definition ex_req :: "string \<Rightarrow> int \<Rightarrow> int \<Rightarrow> schedRequest" where
  "ex_req nm P C = \<lparr>Tasks = [ex_task P C], Name = nm, Criticality = ''HI''\<rparr>"

definition ex_state :: "container list \<Rightarrow> rstate" where
  "ex_state cs = \<lparr>containers = cs, m = True, changed = False\<rparr>"

lemmas ex_defs = ex_task_def ex_cont_def ex_req_def ex_state_def

section \<open>The task-level test and the bandwidth search\<close>

text \<open>
  C4: for values in range the task-level response-time test returns, and it returns true exactly
  when the response-time recurrence of the task has a window, at or above its starting value, that
  ends within the period less the server's offset. No rounding error or overflow of the code's
  floating-point and 64-bit arithmetic changes the answer.
\<close>

theorem task_test_decides:
  assumes "servers_ok cs" "tasks_ok ts" "task_ok t" "1 \<le> b" "b \<le> 100"
  shows "Task_checkSchedulability cs ts SERVERPERIOD (25 * b) p t = Some (task_feasible cs ts b p t)"
  using Task_check_exact [of cs ts b p t] assms by (simp add: inst_ok_def SERVERPERIOD_def)

theorem task_test_decides_witness:
  "Task_checkSchedulability [ex_cont ''z'' 2500 25 2 128] [ex_task 10000 500] SERVERPERIOD (25 * 6) 64 (ex_task 10000 500) =
     Some (task_feasible [ex_cont ''z'' 2500 25 2 128] [ex_task 10000 500] 6 64 (ex_task 10000 500))"
  by (rule task_test_decides)
    (simp_all add: servers_ok_def server_ok_def tasks_ok_def task_ok_def ex_defs SERVERPERIOD_def)

text \<open>
  C3: when the servers of higher priority leave at least two percent of the core, the bisection
  terminates and leaves in the container the least feasible bandwidth plus one (one more than the
  whole room if none is feasible); it answers true exactly when that bandwidth is feasible and
  below the threshold of 80. The single probe at each halving decides for the whole half because
  feasibility is monotone in the bandwidth.
\<close>

theorem binSearch_least:
  assumes "servers_ok cs" "tasks_ok (tasks c)" "period c = SERVERPERIOD"
    and "1 \<le> 99 - higher_band (prio c) cs"
  shows "\<exists>b. 1 \<le> b \<and> b \<le> 99 - higher_band (prio c) cs \<and>
    (\<forall>k. 1 \<le> k \<longrightarrow> k < b \<longrightarrow> \<not> feasible cs c k) \<and>
    (b = 99 - higher_band (prio c) cs \<or> (\<forall>k. b \<le> k \<longrightarrow> k \<le> 100 \<longrightarrow> feasible cs c k)) \<and>
    binSearch cs c = Some (feasible cs c (b + 1) \<and> b + 1 < THRESHOLDSCHED, c\<lparr>band := b + 1\<rparr>)"
proof -
  have ok: "cont_ok cs c" using assms by (simp add: cont_ok_def)
  obtain b where lb: "least_band cs c b"
    and r: "binSearch cs c = Some (feasible cs c (b + 1) \<and> b + 1 < 80, c\<lparr>band := b + 1\<rparr>)"
    using binSearch_spec [OF ok] assms(4) by (auto simp: room_def)
  have "feasible cs c k" if "feasible cs c b" "b \<le> k" "k \<le> 100" for k
    using feasible_mono [OF ok _ that(2,3,1)] lb by (simp add: least_band_def)
  then show ?thesis using lb r unfolding least_band_def room_def THRESHOLDSCHED_def by blast
qed

theorem binSearch_least_witness:
  "\<exists>b. 1 \<le> b \<and> b \<le> 97 \<and>
    (b = 97 \<or> feasible [ex_cont ''z'' 2500 25 2 128] (ex_cont ''a'' 10000 500 100 64) b) \<and>
    binSearch [ex_cont ''z'' 2500 25 2 128] (ex_cont ''a'' 10000 500 100 64) =
      Some (feasible [ex_cont ''z'' 2500 25 2 128] (ex_cont ''a'' 10000 500 100 64) (b + 1) \<and> b + 1 < THRESHOLDSCHED,
            ex_cont ''a'' 10000 500 (b + 1) 64)"
proof -
  let ?z = "ex_cont ''z'' 2500 25 2 128" and ?a = "ex_cont ''a'' 10000 500 100 64"
  have "1 \<le> 99 - higher_band (prio ?a) [?z]" "servers_ok [?z]" "tasks_ok (tasks ?a)" "period ?a = SERVERPERIOD"
    by (simp_all add: servers_ok_def server_ok_def tasks_ok_def task_ok_def ex_defs SERVERPERIOD_def)
  then obtain b where "1 \<le> b" "b \<le> 99 - higher_band (prio ?a) [?z]"
    "b = 99 - higher_band (prio ?a) [?z] \<or> (\<forall>k. b \<le> k \<longrightarrow> k \<le> 100 \<longrightarrow> feasible [?z] ?a k)"
    "binSearch [?z] ?a = Some (feasible [?z] ?a (b + 1) \<and> b + 1 < THRESHOLDSCHED, ?a\<lparr>band := b + 1\<rparr>)"
    using binSearch_least [of "[?z]" ?a] by blast
  moreover have "99 - higher_band (prio ?a) [?z] = 97" "?a\<lparr>band := x\<rparr> = ex_cont ''a'' 10000 500 x 64" for x
    by (simp_all add: ex_cont_def)
  ultimately show ?thesis by (intro exI [of _ b]) auto
qed

section \<open>Errors and frame\<close>

text \<open>
  C6: the admission test panics exactly when an index is out of range: the request or a stored
  container has no task, or a stored container names a core the node does not have. The handlers
  call it with the mutex held and do not recover.
\<close>

theorem schedTest_panics:
  "schedTest N args pers s = Panic e \<longleftrightarrow>
     e = IndexOutOfRange \<and> (Tasks args = [] \<or> (\<exists>c\<in>set (containers s). tasks c = []) \<or>
       (\<exists>c\<in>set (containers s). \<not> (0 \<le> core c \<and> core c < int N)))"
proof (cases "Tasks args = [] \<or> (\<exists>c\<in>set (containers s). tasks c = [])")
  case True
  then have "setPrio (Tasks args) (containers s) = Panic IndexOutOfRange" by (simp add: setPrio_Panic)
  with True show ?thesis by (auto simp: schedTest_def)
next
  case False
  then obtain p where "setPrio (Tasks args) (containers s) = Ret (p, sliceStable minp (containers s))"
    using setPrio_returns by blast
  with False show ?thesis
    by (auto simp: schedTest_def Let_def go_simps getBandwidths_Panic split: prod.splits)
qed

text \<open>
  Whatever the answer, the test changes nothing of the stored containers but their bandwidths
  (and sorts them by their shortest period); a container is added only by an accepted persistent
  request, and it is the requested one, on the core of the answer. A refused request leaves the
  flag that triggers the dump alone.
\<close>

theorem schedTest_frame:
  assumes "schedTest N args pers s = Ret (res, used, s')"
  shows "\<exists>p. setPrio (Tasks args) (containers s) = Ret (p, sliceStable minp (containers s)) \<and>
    map strip (containers s') = map strip (sliceStable minp (containers s) @
      (if Schedulable res \<and> pers then [(new_container args p)\<lparr>core := Core res\<rparr>] else [])) \<and>
    m s' = m s \<and> changed s' = (changed s \<or> Schedulable res \<and> pers)"
  using assms by (rule schedTest_strip)

lemma ex_accepts:
  "schedTest 1 (ex_req ''b'' 5000 500) True (ex_state [ex_cont ''a'' 10000 500 6 64]) =
     Ret (\<lparr>Schedulable = True, Bandwidth = 11, Core = 0, Error = ''''\<rparr>, [19],
       \<lparr>containers = [ex_cont ''a'' 10000 500 8 64, ex_cont ''b'' 5000 500 11 128], m = True, changed = True\<rparr>)"
  by code_simp

lemma ex_tests:
  "schedTest 1 (ex_req ''b'' 5000 500) False (ex_state [ex_cont ''a'' 10000 500 6 64]) =
     Ret (\<lparr>Schedulable = True, Bandwidth = 11, Core = 0, Error = ''''\<rparr>, [19],
       \<lparr>containers = [ex_cont ''a'' 10000 500 6 64], m = True, changed = False\<rparr>)"
  by code_simp

lemma ex_setPrio:
  "setPrio [ex_task 5000 500] [ex_cont ''a'' 10000 500 6 64] = Ret (128, [ex_cont ''a'' 10000 500 6 64])"
  by code_simp

theorem schedTest_frame_witness:
  "\<exists>p. setPrio [ex_task 5000 500] [ex_cont ''a'' 10000 500 6 64] = Ret (p, sliceStable minp [ex_cont ''a'' 10000 500 6 64]) \<and>
    map strip [ex_cont ''a'' 10000 500 8 64, ex_cont ''b'' 5000 500 11 128] =
      map strip (sliceStable minp [ex_cont ''a'' 10000 500 6 64] @ [(new_container (ex_req ''b'' 5000 500) p)\<lparr>core := 0\<rparr>])"
  using schedTest_frame [OF ex_accepts] by (auto simp: ex_state_def ex_req_def)

section \<open>What an accepted request guarantees\<close>

text \<open>
  C1: an accepted request has a core of the node and a bandwidth below the threshold, and if every
  container of that core passed its own test before, then after a persistent acceptance every
  container of the core, the new one and those whose bandwidth the test changed included, passes
  it against the bandwidths that are now stored.
\<close>

theorem accepted_keeps_core_schedulable:
  assumes "schedTest N args True s = Ret (res, used, s')" "Schedulable res"
    and "\<forall>c\<in>set (core_list (Core res) (sliceStable minp (containers s))).
      Container_checkSchedulability (core_list (Core res) (sliceStable minp (containers s))) c = Some True"
  shows "0 \<le> Core res \<and> Core res < int N \<and> Bandwidth res < THRESHOLDSCHED \<and>
    (\<forall>c\<in>set (core_list (Core res) (containers s')).
      Container_checkSchedulability (core_list (Core res) (containers s')) c = Some True)"
  using assms(1,2)
proof (rule schedTest_accept)
  fix p used0 k h c' ps h2 newbw rb
  assume a: "k < N" "Core res = int k" "accepted_at used0 k h c' ps h2 newbw rb" "h \<noteq> []"
    "core_list (int k) (butlast h) = core_list (int k) (sliceStable minp (containers s))"
    "Bandwidth res = band c'"
    "containers s' = (if True then h2[length h - 1 := c'\<lparr>core := int k\<rparr>] else butlast h)"
  have "band c' < THRESHOLDSCHED"
    using a(3) binSearch_accepts by (auto simp: accepted_at_def Let_def)
  with a accepted_core_schedulable [OF a(3,4)] assms(3) show ?thesis by simp
qed

theorem accepted_keeps_core_schedulable_witness:
  "list_all (\<lambda>c. Container_checkSchedulability
      (core_list 0 [ex_cont ''a'' 10000 500 8 64, ex_cont ''b'' 5000 500 11 128]) c = Some True)
    (core_list 0 [ex_cont ''a'' 10000 500 8 64, ex_cont ''b'' 5000 500 11 128])"
proof -
  have "\<forall>c\<in>set (core_list 0 (sliceStable minp [ex_cont ''a'' 10000 500 6 64])).
    Container_checkSchedulability (core_list 0 (sliceStable minp [ex_cont ''a'' 10000 500 6 64])) c = Some True"
    by code_simp
  then show ?thesis using accepted_keeps_core_schedulable [OF ex_accepts] by (simp add: ex_state_def list_all_iff)
qed

text \<open>
  A test that is not persistent, and that the first core already accepts, leaves every stored
  bandwidth as it was: the roll-back undoes all changes of a completed pass.
\<close>

theorem accepted_test_restores_state:
  assumes "schedTest N args False s = Ret (res, used, s')" "Schedulable res" "Core res = 0"
  shows "s' = s\<lparr>containers := sliceStable minp (containers s)\<rparr>"
proof -
  have "containers s' = sliceStable minp (containers s) \<and> changed s' = changed s"
    using assms(1,2) by (rule schedTest_accept) (use assms(3) in auto)
  moreover obtain p cs used0 where "m s' = m s" using assms(1) by (rule schedTest_RetE)
  ultimately show ?thesis by (cases s; cases s') simp
qed

theorem accepted_test_restores_state_witness:
  "\<lparr>containers = [ex_cont ''a'' 10000 500 6 64], m = True, changed = False\<rparr> =
     (ex_state [ex_cont ''a'' 10000 500 6 64])\<lparr>containers := sliceStable minp [ex_cont ''a'' 10000 500 6 64]\<rparr>"
  using accepted_test_restores_state [OF ex_tests] by (simp add: ex_state_def)

section \<open>Invariants of the node\<close>

text \<open>
  C2: on a node in order (values in range, distinct priorities, no core above 100 percent) the
  test of a request in range whose computed priority is new always returns, and the node is in
  order afterwards: every bandwidth is between 0 and 100 and no core hands out more than 100
  percent, although the code checks the threshold only before it raises the other containers'
  bandwidths.
\<close>

theorem schedTest_keeps_node_ok:
  assumes "node_ok N (containers s)" "length (containers s) < 1000"
    and "Tasks args \<noteq> []" "tasks_ok (Tasks args)"
    and "setPrio (Tasks args) (containers s) = Ret (p, cs)" "p \<notin> prio ` set (containers s)"
  shows "\<exists>res used s'. schedTest N args pers s = Ret (res, used, s') \<and> node_ok N (containers s')"
proof -
  obtain res used s' where t: "schedTest N args pers s = Ret (res, used, s')" "bands_ok (containers s')"
    using schedTest_node_ok [OF assms] by blast
  let ?L = "sliceStable minp (containers s)"
  let ?x = "if Schedulable res \<and> pers then [(new_container args p)\<lparr>core := Core res\<rparr>] else []"
  have st: "map strip (containers s') = map strip (?L @ ?x)"
    using schedTest_strip [OF t(1)] assms(5) by auto
  have "0 \<le> Core res \<and> Core res < int N" if "Schedulable res"
    using t(1) that by (rule schedTest_accept) auto
  then have "shape_ok N (?L @ ?x)"
    using assms by (auto simp: node_ok_def shape_ok_def distinct_prio_sliceStable new_container_def)
  then show ?thesis using t shape_ok_frame [OF st] by (auto simp: node_ok_split)
qed

lemma ex_node_ok: "node_ok 1 [ex_cont ''a'' 10000 500 6 64]"
  by (simp add: node_ok_def server_ok_def tasks_ok_def task_ok_def core_total_def core_list_def ex_defs SERVERPERIOD_def)

theorem schedTest_keeps_node_ok_witness:
  "\<exists>res used s'. schedTest 1 (ex_req ''b'' 5000 500) True (ex_state [ex_cont ''a'' 10000 500 6 64]) = Ret (res, used, s') \<and>
     node_ok 1 (containers s')"
  by (rule schedTest_keeps_node_ok [where p = 128 and cs = "[ex_cont ''a'' 10000 500 6 64]"])
    (use ex_node_ok ex_setPrio in \<open>simp_all add: ex_state_def ex_req_def ex_cont_def ex_task_def tasks_ok_def task_ok_def\<close>)

text \<open>
  C5: the test keeps the rate-monotonic order of the priorities: if along the containers sorted by
  shortest period the priorities do not increase and lie between 0 and 128, the same holds after
  any request, with the accepted container in its place.
\<close>

theorem schedTest_rate_monotonic:
  assumes "schedTest N args pers s = Ret (res, used, s')" "rm_order (containers s)"
  shows "rm_order (containers s')"
proof -
  let ?L = "sliceStable minp (containers s)"
  obtain p where p: "setPrio (Tasks args) (containers s) = Ret (p, ?L)"
    and st: "map strip (containers s') = map strip (?L @
      (if Schedulable res \<and> pers then [(new_container args p)\<lparr>core := Core res\<rparr>] else []))"
    using schedTest_strip [OF assms(1)] by blast
  have "rm_order ?L" using assms(2) by (simp add: rm_order_def sliceStable_id sliceStable_sorted)
  moreover have "rm_order (?L @ [(new_container args p)\<lparr>core := Core res\<rparr>])"
    by (rule setPrio_between [OF p assms(2)]) (simp_all add: new_container_def)
  ultimately show ?thesis by (subst rm_order_strip) (simp only: st flip: rm_order_strip, simp)
qed

theorem schedTest_rate_monotonic_witness:
  "rm_order [ex_cont ''a'' 10000 500 8 64, ex_cont ''b'' 5000 500 11 128]"
  using schedTest_rate_monotonic [OF ex_accepts]
  by (simp add: rm_order_def ex_state_def sliceStable_def ex_cont_def)

section \<open>Where the code departs from its intention\<close>

text \<open>
  A refused test does change the node. The scheduling plugin calls the test for every candidate
  node and relies on it to leave the node alone; here the loop stops at container \<open>a\<close>, whose
  search fails, before the bandwidth of \<open>b\<close> is recorded, and the roll-back then writes zero into
  \<open>b\<close>, a running container of a node in order that passed its own test.
\<close>

theorem refused_test_loses_bandwidth:
  "let z = ex_cont ''z'' 2500 25 2 128; a = ex_cont ''a'' 2500 100 7 64; b = ex_cont ''b'' 100000 3000 5 32 in
   node_ok 1 [z, a, b] \<and> Container_checkSchedulability [z, a, b] b = Some True \<and>
   schedTest 1 (ex_req ''c'' 2400 1400) False (ex_state [z, a, b]) =
     Ret (\<lparr>Schedulable = False, Bandwidth = 0, Core = 0, Error = ''Not enough CPU bandwidth''\<rparr>, [14],
          ex_state [z, a, b\<lparr>band := 0\<rparr>])"
proof -
  let ?z = "ex_cont ''z'' 2500 25 2 128" and ?a = "ex_cont ''a'' 2500 100 7 64" and ?b = "ex_cont ''b'' 100000 3000 5 32"
  have "node_ok 1 [?z, ?a, ?b]"
    by (simp add: node_ok_def server_ok_def tasks_ok_def task_ok_def core_total_def core_list_def ex_defs SERVERPERIOD_def)
  moreover have "Container_checkSchedulability [?z, ?a, ?b] ?b = Some True" by code_simp
  moreover have "schedTest 1 (ex_req ''c'' 2400 1400) False (ex_state [?z, ?a, ?b]) =
     Ret (\<lparr>Schedulable = False, Bandwidth = 0, Core = 0, Error = ''Not enough CPU bandwidth''\<rparr>, [14],
          ex_state [?z, ?a, ?b\<lparr>band := 0\<rparr>])" by code_simp
  ultimately show ?thesis by simp
qed

text \<open>
  a request with a shorter period than all stored containers always gets priority 128, so two
  such requests in a row leave two containers of equal priority; neither counts the other's
  capacity as interference or its bandwidth as allotted.
\<close>

theorem shortest_period_gets_128:
  assumes "ts \<noteq> []" "\<forall>c\<in>set cs. tasks c \<noteq> []" "t \<in> set ts" "\<forall>c\<in>set cs. Period t < minp c"
  shows "setPrio ts cs = Ret (128, sliceStable minp cs)"
proof -
  obtain u ts' where ts: "ts = u # ts'" using assms(1) by (cases ts) auto
  have "minPeriod_from (Period u) ts < minp c" if "c \<in> set cs" for c
    using minPeriod_from_le [OF assms(3), of "Period u"] assms(4) that by force
  then have "takeWhile (\<lambda>c. \<not> minPeriod_from (Period u) ts < minp c) (sliceStable minp cs) = []"
    by (cases "sliceStable minp cs") (auto simp flip: sliceStable_set [of minp cs])
  then show ?thesis using assms(2) by (auto simp: setPrio_def getMinPeriod_def ts Let_def)
qed

theorem shortest_period_gets_128_witness:
  "setPrio [ex_task 2000 100] [ex_cont ''b'' 5000 500 11 128] = Ret (128, sliceStable minp [ex_cont ''b'' 5000 500 11 128])"
  by (rule shortest_period_gets_128 [where t = "ex_task 2000 100"]) (simp_all add: ex_defs minp_def)

end
