(* ===== verification/Go_Strings.thy ===== *)
theory Go_Strings
  imports K4_Prelude
begin

text \<open>
  The parts of \<open>strconv\<close> and \<open>strings\<close> the program uses, on strings as lists of bytes:
  decimal printing and parsing of 64-bit integers with the errors of \<open>Atoi\<close>, and the removal
  of white space around a string.
\<close>

section \<open>Decimal numbers\<close>

definition digit_char :: "nat \<Rightarrow> char" where
  "digit_char d = char_of (48 + d)"

definition is_digit :: "char \<Rightarrow> bool" where
  "is_digit c \<longleftrightarrow> 48 \<le> (of_char c :: nat) \<and> (of_char c :: nat) \<le> 57"

definition digit_val :: "char \<Rightarrow> nat" where
  "digit_val c = of_char c - 48"

fun digits :: "nat \<Rightarrow> string" where
  "digits n = (if n < 10 then [digit_char n] else digits (n div 10) @ [digit_char (n mod 10)])"

declare digits.simps [simp del]

text \<open>\<open>strconv.Itoa\<close>, also the verbs \<open>%d\<close> and the JSON encoding of an integer.\<close>

definition itoa :: "int \<Rightarrow> string" where
  "itoa i = (if i < 0 then CHR ''-'' # digits (nat (- i)) else digits (nat i))"

datatype num_error = ErrSyntax | ErrRange

text \<open>
  The digit loop of \<open>strconv.ParseUint\<close>: the first bad byte is a syntax error, the first digit
  that takes the value past 64 bits a range error.
\<close>

fun parse_uint :: "nat \<Rightarrow> string \<Rightarrow> num_error + nat" where
  "parse_uint acc [] = Inr acc"
| "parse_uint acc (c # cs) =
     (if is_digit c
      then (let n = acc * 10 + digit_val c in if 2 ^ 64 \<le> n then Inl ErrRange else parse_uint n cs)
      else Inl ErrSyntax)"

text \<open>\<open>strconv.Atoi\<close>: the value, clamped on a range error and zero on a syntax error, and the error.\<close>

definition atoi :: "string \<Rightarrow> int \<times> num_error option" where
  "atoi s = (let neg = (s \<noteq> [] \<and> hd s = CHR ''-'');
                 ds = (if s \<noteq> [] \<and> (hd s = CHR ''-'' \<or> hd s = CHR ''+'') then tl s else s)
             in if ds = [] then (0, Some ErrSyntax)
                else case parse_uint 0 ds of
                    Inl ErrSyntax \<Rightarrow> (0, Some ErrSyntax)
                  | Inl ErrRange \<Rightarrow> (if neg then - (2 ^ 63) else 2 ^ 63 - 1, Some ErrRange)
                  | Inr n \<Rightarrow> if \<not> neg \<and> 2 ^ 63 \<le> n then (2 ^ 63 - 1, Some ErrRange)
                            else if neg \<and> 2 ^ 63 < n then (- (2 ^ 63), Some ErrRange)
                            else (if neg then - int n else int n, None))"

section \<open>Printing and parsing are inverse\<close>

lemma digit_char_props:
  assumes "d < 10"
  shows "is_digit (digit_char d)" "digit_val (digit_char d) = d"
  using assms by (simp_all add: digit_char_def is_digit_def digit_val_def)

lemma digit_chars:
  "digit_char 0 = CHR ''0''" "digit_char (Suc 0) = CHR ''1''" "digit_char 2 = CHR ''2''" "digit_char 3 = CHR ''3''"
  "digit_char 4 = CHR ''4''" "digit_char 5 = CHR ''5''" "digit_char 6 = CHR ''6''" "digit_char 7 = CHR ''7''"
  "digit_char 8 = CHR ''8''" "digit_char 9 = CHR ''9''"
  by code_simp+

text \<open>Evaluates \<open>itoa\<close> on numerals.\<close>

lemmas itoa_eval = itoa_def digits.simps digit_chars

lemma digits_ne [simp]: "digits n \<noteq> []"
  by (subst digits.simps) simp

lemma digits_is_digit: "c \<in> set (digits n) \<Longrightarrow> is_digit c"
proof (induction n rule: digits.induct)
  case (1 n)
  then show ?case by (subst (asm) digits.simps) (auto simp: digit_char_props split: if_splits)
qed

lemma parse_uint_append:
  "parse_uint acc (xs @ ys) = (case parse_uint acc xs of Inl e \<Rightarrow> Inl e | Inr n \<Rightarrow> parse_uint n ys)"
  by (induction acc xs rule: parse_uint.induct) (auto simp: Let_def)

lemma parse_uint_digits: "n < 2 ^ 64 \<Longrightarrow> parse_uint 0 (digits n) = Inr n"
proof (induction n rule: digits.induct)
  case (1 n)
  show ?case
  proof (cases "n < 10")
    case True
    then show ?thesis by (subst digits.simps) (simp add: digit_char_props)
  next
    case False
    then have "parse_uint 0 (digits (n div 10)) = Inr (n div 10)" using 1 by simp
    with False 1 show ?thesis
      by (subst digits.simps) (simp add: parse_uint_append digit_char_props)
  qed
qed

lemma is_digit_not_sign: "is_digit c \<Longrightarrow> c \<noteq> CHR ''-'' \<and> c \<noteq> CHR ''+''"
  by (auto simp: is_digit_def)

lemma hd_digits: "is_digit (hd (digits n))"
  using digits_is_digit [of "hd (digits n)" n] by simp

lemma itoa_ne [simp]: "itoa i \<noteq> []"
  by (simp add: itoa_def)

text \<open>Every 64-bit integer is read back from its decimal text.\<close>

lemma atoi_itoa:
  assumes "int64 i"
  shows "atoi (itoa i) = (i, None)"
proof (cases "i < 0")
  case True
  then have "parse_uint 0 (digits (nat (- i))) = Inr (nat (- i))"
    using assms by (intro parse_uint_digits) (auto simp: int64_def nat_less_iff)
  with True assms show ?thesis by (simp add: atoi_def itoa_def int64_def nat_le_iff not_less Let_def)
next
  case False
  then have "parse_uint 0 (digits (nat i)) = Inr (nat i)"
    using assms by (intro parse_uint_digits) (auto simp: int64_def nat_less_iff)
  moreover have "hd (digits (nat i)) \<noteq> CHR ''-''" "hd (digits (nat i)) \<noteq> CHR ''+''"
    using is_digit_not_sign hd_digits by blast+
  ultimately show ?thesis using False assms
    by (simp add: atoi_def itoa_def int64_def le_nat_iff not_le Let_def)
qed

lemma int64_atoi: "int64 (fst (atoi s))"
proof -
  have "parse_uint acc xs = Inr n \<Longrightarrow> acc < 2 ^ 64 \<Longrightarrow> n < 2 ^ 64" for acc xs n
    by (induction acc xs rule: parse_uint.induct) (auto simp: Let_def split: if_splits)
  then show ?thesis
    by (auto simp: atoi_def Let_def int64_def split: sum.splits num_error.splits)
qed

section \<open>White space\<close>

text \<open>\<open>strings.TrimSpace\<close> on ASCII text.\<close>

definition is_space :: "char \<Rightarrow> bool" where
  "is_space c \<longleftrightarrow> c \<in> {CHR '' '', CHR 0x09, CHR 0x0A, CHR 0x0B, CHR 0x0C, CHR 0x0D}"

definition trimSpace :: "string \<Rightarrow> string" where
  "trimSpace s = rev (dropWhile is_space (rev (dropWhile is_space s)))"

lemma trimSpace_id:
  assumes "s = [] \<or> \<not> is_space (hd s) \<and> \<not> is_space (last s)"
  shows "trimSpace s = s"
proof (cases "s = []")
  case False
  then have ns: "\<not> is_space (hd s)" "\<not> is_space (hd (rev s))" using assms by (simp_all add: hd_rev)
  have "dropWhile is_space s = s" using ns(1) by (cases s) auto
  moreover have "dropWhile is_space (rev s) = rev s" using ns(2) by (cases "rev s") auto
  ultimately show ?thesis by (simp add: trimSpace_def)
qed (simp add: trimSpace_def)

end
