(* ===== verification/Go_Json.thy ===== *)
theory Go_Json
  imports Go_Strings
begin

text \<open>
  The part of \<open>encoding/json\<close> the plugins and the node daemons exchange their messages with:
  the scanner for JSON texts, the decoding of a value into integers, strings, booleans, slices and
  structs, and the encoding of such values. Strings are lists of bytes, as in Go; the encoder and
  the scanner replace bytes that are not valid UTF-8 by the replacement character. The limit of ten
  thousand nested values is left out.
\<close>

section \<open>Values and their texts\<close>

datatype json = JNull | JBool bool | JNum string | JStr string | JArr "json list"
  | JObj "(string \<times> json) list"

definition is_ws :: "char \<Rightarrow> bool" where
  "is_ws c \<longleftrightarrow> c = CHR '' '' \<or> c = CHR 0x09 \<or> c = CHR 0x0A \<or> c = CHR 0x0D"

definition skip_ws :: "string \<Rightarrow> string" where
  "skip_ws s = dropWhile is_ws s"

definition hex_val :: "char \<Rightarrow> nat option" where
  "hex_val c = (let n = of_char c in
     if 48 \<le> n \<and> n \<le> 57 then Some (n - 48)
     else if 97 \<le> n \<and> n \<le> 102 then Some (n - 87)
     else if 65 \<le> n \<and> n \<le> 70 then Some (n - 55) else None)"

definition hex4 :: "char \<Rightarrow> char \<Rightarrow> char \<Rightarrow> char \<Rightarrow> nat option" where
  "hex4 a b c d = (case (hex_val a, hex_val b, hex_val c, hex_val d) of
     (Some w, Some x, Some y, Some z) \<Rightarrow> Some (((w * 16 + x) * 16 + y) * 16 + z) | _ \<Rightarrow> None)"

definition utf8 :: "nat \<Rightarrow> string" where
  "utf8 n = (if n < 128 then [char_of n]
     else if n < 2048 then [char_of (192 + n div 64), char_of (128 + n mod 64)]
     else if n < 65536 then [char_of (224 + n div 4096), char_of (128 + n div 64 mod 64), char_of (128 + n mod 64)]
     else [char_of (240 + n div 262144), char_of (128 + n div 4096 mod 64),
           char_of (128 + n div 64 mod 64), char_of (128 + n mod 64)])"

definition is_high :: "nat \<Rightarrow> bool" where "is_high n \<longleftrightarrow> 55296 \<le> n \<and> n < 56320"
definition is_low :: "nat \<Rightarrow> bool" where "is_low n \<longleftrightarrow> 56320 \<le> n \<and> n < 57344"

text \<open>
  The length of the UTF-8 sequence at the head of a string, 0 if there is none: the table of
  \<open>utf8.DecodeRuneInString\<close>, without overlong forms, surrogates and values above \<open>0x10FFFF\<close>.
\<close>

definition in_range :: "nat \<Rightarrow> nat \<Rightarrow> char \<Rightarrow> bool" where
  "in_range lo hi c \<longleftrightarrow> lo \<le> (of_char c :: nat) \<and> (of_char c :: nat) \<le> hi"

definition tail_byte :: "char \<Rightarrow> bool" where
  "tail_byte = in_range 128 191"

definition second_ok :: "nat \<Rightarrow> char \<Rightarrow> bool" where
  "second_ok b = (if b = 224 then in_range 160 191 else if b = 237 then in_range 128 159
     else if b = 240 then in_range 144 191 else if b = 244 then in_range 128 143 else tail_byte)"

definition rune_tail :: "char \<Rightarrow> string \<Rightarrow> nat option" where
  "rune_tail c s = (let b = (of_char c :: nat) in
     if b < 128 then Some 0
     else case s of [] \<Rightarrow> None | c1 # s1 \<Rightarrow>
       if 194 \<le> b \<and> b \<le> 223 then (if tail_byte c1 then Some 1 else None)
       else case s1 of [] \<Rightarrow> None | c2 # s2 \<Rightarrow>
         if 224 \<le> b \<and> b \<le> 239 then (if second_ok b c1 \<and> tail_byte c2 then Some 2 else None)
         else case s2 of [] \<Rightarrow> None | c3 # s3 \<Rightarrow>
           if 240 \<le> b \<and> b \<le> 244 then (if second_ok b c1 \<and> tail_byte c2 \<and> tail_byte c3 then Some 3 else None)
           else None)"

text \<open>A string as it comes out of an encoding and decoding: every byte that starts no valid sequence is replaced.\<close>

fun coerceUTF8 :: "string \<Rightarrow> string" where
  "coerceUTF8 [] = []"
| "coerceUTF8 (c # s) = (case rune_tail c s of
      None \<Rightarrow> utf8 65533 @ coerceUTF8 s
    | Some k \<Rightarrow> c # take k s @ coerceUTF8 (drop k s))"

fun valid_utf8 :: "string \<Rightarrow> bool" where
  "valid_utf8 [] \<longleftrightarrow> True"
| "valid_utf8 (c # s) \<longleftrightarrow> (case rune_tail c s of None \<Rightarrow> False | Some k \<Rightarrow> valid_utf8 (drop k s))"

lemma rune_tail_ascii [simp]: "(of_char c :: nat) < 128 \<Longrightarrow> rune_tail c s = Some 0"
  by (simp add: rune_tail_def)

text \<open>A sequence is recognised by its own bytes, whatever follows it.\<close>

lemma rune_tail_take:
  assumes "rune_tail c s = Some k"
  shows "k \<le> length s \<and> rune_tail c (take k s @ r) = Some k"
  using assms by (auto simp: rune_tail_def Let_def split: if_splits list.splits)

lemma rune_tail_ge:
  assumes "rune_tail c s = Some k" "\<not> (of_char c :: nat) < 128"
  shows "c \<noteq> CHR 0x22 \<and> c \<noteq> CHR 0x5C \<and> \<not> (of_char c :: nat) < 32"
  using assms(2) by auto

lemma coerceUTF8_valid: "valid_utf8 s \<Longrightarrow> coerceUTF8 s = s"
  by (induction s rule: valid_utf8.induct) (auto split: option.splits)

definition ascii :: "string \<Rightarrow> bool" where
  "ascii s \<longleftrightarrow> list_all (\<lambda>c. (of_char c :: nat) < 128) s"

lemma valid_utf8_ascii: "ascii s \<Longrightarrow> valid_utf8 s"
  by (induction s) (simp_all add: ascii_def)

lemma coerceUTF8_ascii [simp]: "ascii s \<Longrightarrow> coerceUTF8 s = s"
  by (simp add: coerceUTF8_valid valid_utf8_ascii)

lemma ascii_simps [simp]: "ascii []" "ascii (c # s) \<longleftrightarrow> (of_char c :: nat) < 128 \<and> ascii s"
  by (simp_all add: ascii_def)

text \<open>The one-byte escapes.\<close>

definition esc_char :: "char \<Rightarrow> char option" where
  "esc_char c = (if c = CHR 0x22 \<or> c = CHR 0x5C \<or> c = CHR ''/'' then Some c
     else if c = CHR ''b'' then Some (CHR 0x08) else if c = CHR ''f'' then Some (CHR 0x0C)
     else if c = CHR ''n'' then Some (CHR 0x0A) else if c = CHR ''r'' then Some (CHR 0x0D)
     else if c = CHR ''t'' then Some (CHR 0x09) else None)"

text \<open>
  The body of a string literal after its opening quote: the decoded bytes and the text after the
  closing quote. A surrogate without its partner and a byte that starts no valid sequence decode to
  the replacement character.
\<close>

fun str_body :: "string \<Rightarrow> (string \<times> string) option" where
  "str_body [] = None"
| "str_body (c # s) =
     (if c = CHR 0x22 then Some ([], s)
      else if (of_char c :: nat) < 32 then None
      else if c \<noteq> CHR 0x5C
      then (case rune_tail c s of
              None \<Rightarrow> map_option (\<lambda>(t, r). (utf8 65533 @ t, r)) (str_body s)
            | Some k \<Rightarrow> map_option (\<lambda>(t, r). (c # take k s @ t, r)) (str_body (drop k s)))
      else case s of
          [] \<Rightarrow> None
        | e # s1 \<Rightarrow>
            (case esc_char e of
               Some d \<Rightarrow> map_option (\<lambda>(t, r). (d # t, r)) (str_body s1)
             | None \<Rightarrow>
                (if e = CHR ''u'' then
                   (case s1 of
                      a1 # a2 # a3 # a4 # s2 \<Rightarrow>
                        (case hex4 a1 a2 a3 a4 of
                           None \<Rightarrow> None
                         | Some n \<Rightarrow>
                             (if is_high n then
                                (case s2 of
                                   b # u # b1 # b2 # b3 # b4 # s3 \<Rightarrow>
                                     (case hex4 b1 b2 b3 b4 of
                                        Some l \<Rightarrow>
                                          (if b = CHR 0x5C \<and> u = CHR ''u'' \<and> is_low l
                                           then map_option (\<lambda>(t, r). (utf8 ((n - 55296) * 1024 + (l - 56320) + 65536) @ t, r)) (str_body s3)
                                           else map_option (\<lambda>(t, r). (utf8 65533 @ t, r)) (str_body s2))
                                      | None \<Rightarrow> map_option (\<lambda>(t, r). (utf8 65533 @ t, r)) (str_body s2))
                                 | _ \<Rightarrow> map_option (\<lambda>(t, r). (utf8 65533 @ t, r)) (str_body s2))
                              else map_option (\<lambda>(t, r). ((if is_low n then utf8 65533 else utf8 n) @ t, r)) (str_body s2)))
                    | _ \<Rightarrow> None)
                 else None)))"

text \<open>Number literals: an optional sign, an integer part without leading zeros, fraction and exponent.\<close>

definition span_digits :: "string \<Rightarrow> string \<times> string" where
  "span_digits s = (takeWhile is_digit s, dropWhile is_digit s)"

definition num_int :: "string \<Rightarrow> (string \<times> string) option" where
  "num_int s = (case s of
      [] \<Rightarrow> None
    | c # r \<Rightarrow> if c = CHR ''0'' then Some ([c], r) else if is_digit c then Some (span_digits s) else None)"

definition num_frac :: "string \<Rightarrow> (string \<times> string) option" where
  "num_frac s = (case s of
      c # r \<Rightarrow> if c = CHR ''.'' then (let (d, r') = span_digits r in if d = [] then None else Some (c # d, r')) else Some ([], s)
    | [] \<Rightarrow> Some ([], []))"

definition num_exp :: "string \<Rightarrow> (string \<times> string) option" where
  "num_exp s = (case s of
      c # r \<Rightarrow> if c = CHR ''e'' \<or> c = CHR ''E''
               then (let sg = (case r of x # _ \<Rightarrow> if x = CHR ''+'' \<or> x = CHR ''-'' then [x] else [] | [] \<Rightarrow> []);
                         (d, r') = span_digits (drop (length sg) r)
                     in if d = [] then None else Some (c # sg @ d, r'))
               else Some ([], s)
    | [] \<Rightarrow> Some ([], []))"

definition num_lit :: "string \<Rightarrow> (string \<times> string) option" where
  "num_lit s = (let sg = (case s of c # _ \<Rightarrow> if c = CHR ''-'' then [c] else [] | [] \<Rightarrow> [])
     in Option.bind (num_int (drop (length sg) s)) (\<lambda>(i, r1).
        Option.bind (num_frac r1) (\<lambda>(f, r2).
        Option.bind (num_exp r2) (\<lambda>(e, r3). Some (sg @ i @ f @ e, r3)))))"

section \<open>The scanner\<close>

text \<open>
  Values, the elements of an array after its bracket and the members of an object after its brace.
  Each returns the value and the text after it. The comparisons of lengths always hold; they make
  the recursion visibly end.
\<close>

function (sequential) pval :: "string \<Rightarrow> (json \<times> string) option"
  and pelems :: "string \<Rightarrow> (json list \<times> string) option"
  and pmems :: "string \<Rightarrow> ((string \<times> json) list \<times> string) option" where
  "pval s = (case skip_ws s of
      [] \<Rightarrow> None
    | c # r \<Rightarrow>
        if \<not> length r < length s then None
        else if c = CHR 0x22 then map_option (\<lambda>(t, r'). (JStr t, r')) (str_body r)
        else if c = CHR ''{''
        then (if skip_ws r \<noteq> [] \<and> hd (skip_ws r) = CHR ''}'' then Some (JObj [], tl (skip_ws r))
              else map_option (\<lambda>(ms, r'). (JObj ms, r')) (pmems r))
        else if c = CHR ''[''
        then (if skip_ws r \<noteq> [] \<and> hd (skip_ws r) = CHR '']'' then Some (JArr [], tl (skip_ws r))
              else map_option (\<lambda>(es, r'). (JArr es, r')) (pelems r))
        else if c = CHR ''t'' then (if take 3 r = ''rue'' then Some (JBool True, drop 3 r) else None)
        else if c = CHR ''f'' then (if take 4 r = ''alse'' then Some (JBool False, drop 4 r) else None)
        else if c = CHR ''n'' then (if take 3 r = ''ull'' then Some (JNull, drop 3 r) else None)
        else map_option (\<lambda>(t, r'). (JNum t, r')) (num_lit (c # r)))"
| "pelems s = Option.bind (pval s) (\<lambda>(v, r).
     if \<not> length r < length s then None
     else case skip_ws r of
         [] \<Rightarrow> None
       | c # r' \<Rightarrow> if c = CHR '','' \<and> length r' < length s then map_option (\<lambda>(vs, r2). (v # vs, r2)) (pelems r')
                   else if c = CHR '']'' then Some ([v], r') else None)"
| "pmems s = (case skip_ws s of
      [] \<Rightarrow> None
    | q # r0 \<Rightarrow>
       if q \<noteq> CHR 0x22 then None
       else Option.bind (str_body r0) (\<lambda>(k, r1).
        case skip_ws r1 of
          [] \<Rightarrow> None
        | c # r2 \<Rightarrow>
           if c \<noteq> CHR '':'' \<or> \<not> length r2 < length s then None
           else Option.bind (pval r2) (\<lambda>(v, r3).
            case skip_ws r3 of
              [] \<Rightarrow> None
            | d # r4 \<Rightarrow>
               if d = CHR '','' \<and> length r4 < length s then map_option (\<lambda>(ms, r5). ((k, v) # ms, r5)) (pmems r4)
               else if d = CHR ''}'' then Some ([(k, v)], r4) else None)))"
  by pat_completeness auto
termination
  by (relation "measures [case_sum length (case_sum length length), case_sum (\<lambda>_. 0) (case_sum (\<lambda>_. 1) (\<lambda>_. 1))]") auto

declare pval.simps [simp del] pelems.simps [simp del] pmems.simps [simp del]

text \<open>A whole text: one value with nothing but white space around it.\<close>

definition json_text :: "string \<Rightarrow> json option" where
  "json_text s = (case pval s of
     Some (v, r) \<Rightarrow> if skip_ws r = [] then Some v else None | None \<Rightarrow> None)"

section \<open>The encoder\<close>

definition hex_digit :: "nat \<Rightarrow> char" where
  "hex_digit d = (if d < 10 then char_of (48 + d) else char_of (87 + d))"

definition quote_char :: "char \<Rightarrow> string" where
  "quote_char c =
     (if c = CHR 0x22 \<or> c = CHR 0x5C then [CHR 0x5C, c]
      else if c = CHR 0x0A then [CHR 0x5C, CHR ''n'']
      else if c = CHR 0x0D then [CHR 0x5C, CHR ''r'']
      else if c = CHR 0x09 then [CHR 0x5C, CHR ''t'']
      else if (of_char c :: nat) < 32 \<or> c = CHR ''<'' \<or> c = CHR ''>'' \<or> c = CHR ''&''
      then [CHR 0x5C, CHR ''u'', CHR ''0'', CHR ''0'', hex_digit (of_char c div 16), hex_digit (of_char c mod 16)]
      else [c])"

text \<open>Beyond ASCII only the two line separators and the replacement character of invalid bytes are escaped.\<close>

fun quote_body :: "string \<Rightarrow> string" where
  "quote_body [] = []"
| "quote_body (c # s) =
     (if (of_char c :: nat) < 128 then quote_char c @ quote_body s
      else case rune_tail c s of
          None \<Rightarrow> CHR 0x5C # ''ufffd'' @ quote_body s
        | Some k \<Rightarrow>
            (if c # take k s = utf8 8232 then CHR 0x5C # ''u2028''
             else if c # take k s = utf8 8233 then CHR 0x5C # ''u2029''
             else c # take k s) @ quote_body (drop k s))"

definition quote :: "string \<Rightarrow> string" where
  "quote s = CHR 0x22 # quote_body s @ [CHR 0x22]"

fun commas :: "string list \<Rightarrow> string" where
  "commas [] = []"
| "commas [x] = x"
| "commas (x # y # xs) = x @ CHR '','' # commas (y # xs)"

fun jprint :: "json \<Rightarrow> string" where
  "jprint JNull = ''null''"
| "jprint (JBool b) = (if b then ''true'' else ''false'')"
| "jprint (JNum t) = t"
| "jprint (JStr t) = quote t"
| "jprint (JArr vs) = CHR ''['' # commas (map jprint vs) @ [CHR '']'']"
| "jprint (JObj ms) = CHR ''{'' # commas (map (\<lambda>(k, v). quote k @ CHR '':'' # jprint v) ms) @ [CHR ''}'']"

section \<open>What is printed is read back\<close>

lemma hex_val_digit: "d < 16 \<Longrightarrow> hex_val (hex_digit d) = Some d"
  by (simp add: hex_val_def hex_digit_def Let_def)

lemma hex4_byte:
  "n < 256 \<Longrightarrow> hex4 (CHR ''0'') (CHR ''0'') (hex_digit (n div 16)) (hex_digit (n mod 16)) = Some n"
  by (simp add: hex4_def hex_val_digit) (simp add: hex_val_def Let_def)

lemma str_body_u:
  assumes "hex4 a b x y = Some n" "\<not> is_high n" "\<not> is_low n"
  shows "str_body (CHR 0x5C # CHR ''u'' # a # b # x # y # s) = map_option (\<lambda>(t, r). (utf8 n @ t, r)) (str_body s)"
proof -
  have "esc_char (CHR ''u'') = None" by (simp add: esc_char_def)
  with assms show ?thesis by (subst str_body.simps) simp
qed

lemma str_body_esc:
  "esc_char e = Some d \<Longrightarrow> str_body (CHR 0x5C # e # s) = map_option (\<lambda>(t, r). (d # t, r)) (str_body s)"
  by (subst str_body.simps) simp

lemma esc_chars:
  "esc_char (CHR 0x22) = Some (CHR 0x22)" "esc_char (CHR 0x5C) = Some (CHR 0x5C)"
  "esc_char (CHR ''n'') = Some (CHR 0x0A)" "esc_char (CHR ''r'') = Some (CHR 0x0D)"
  "esc_char (CHR ''t'') = Some (CHR 0x09)"
  by (simp_all add: esc_char_def)

lemmas str_body_escs = esc_chars [THEN str_body_esc]

lemma str_body_raw:
  "c \<noteq> CHR 0x22 \<Longrightarrow> c \<noteq> CHR 0x5C \<Longrightarrow> \<not> (of_char c :: nat) < 32 \<Longrightarrow> (of_char c :: nat) < 128 \<Longrightarrow>
     str_body (c # s) = map_option (\<lambda>(t, r). (c # t, r)) (str_body s)"
  by (subst str_body.simps) simp

lemma str_body_rune:
  assumes "rune_tail c s = Some k" "\<not> (of_char c :: nat) < 128"
  shows "str_body (c # take k s @ r) = map_option (\<lambda>(t, r). (c # take k s @ t, r)) (str_body r)"
  using rune_tail_take [OF assms(1), of r] rune_tail_ge [OF assms] by (subst str_body.simps) simp

lemma str_body_end: "str_body (CHR 0x22 # s) = Some ([], s)"
  by (subst str_body.simps) simp

declare str_body.simps(2) [simp del]

lemma str_body_quote_char:
  assumes ascii: "(of_char c :: nat) < 128"
  shows "str_body (quote_char c @ s) = map_option (\<lambda>(t, r). (c # t, r)) (str_body s)"
proof -
  let ?n = "of_char c :: nat"
  let ?U = "?n < 32 \<or> c = CHR ''<'' \<or> c = CHR ''>'' \<or> c = CHR ''&''"
  consider (two) "c \<in> {CHR 0x22, CHR 0x5C, CHR 0x0A, CHR 0x0D, CHR 0x09}"
    | (hex) "c \<notin> {CHR 0x22, CHR 0x5C, CHR 0x0A, CHR 0x0D, CHR 0x09}" "?U"
    | (raw) "c \<notin> {CHR 0x22, CHR 0x5C, CHR 0x0A, CHR 0x0D, CHR 0x09}" "\<not> ?U" by blast
  then show ?thesis
  proof cases
    case two
    then show ?thesis by (simp only: insert_iff empty_iff simp_thms, elim disjE)
      (simp_all add: quote_char_def str_body_escs)
  next
    case hex
    have n: "\<not> is_high ?n" "\<not> is_low ?n" "utf8 ?n = [c]"
      using ascii by (simp_all add: is_high_def is_low_def utf8_def)
    have "hex4 (CHR ''0'') (CHR ''0'') (hex_digit (?n div 16)) (hex_digit (?n mod 16)) = Some ?n"
      using ascii by (intro hex4_byte) simp
    then show ?thesis using str_body_u [OF _ n(1,2)] n(3) hex by (simp add: quote_char_def)
  qed (simp add: quote_char_def str_body_raw ascii)
qed

lemma str_body_escaped:
  "str_body (CHR 0x5C # CHR ''u'' # CHR ''f'' # CHR ''f'' # CHR ''f'' # CHR ''d'' # s) = map_option (\<lambda>(t, r). (utf8 65533 @ t, r)) (str_body s)"
  "str_body (CHR 0x5C # CHR ''u'' # CHR ''2'' # CHR ''0'' # CHR ''2'' # CHR ''8'' # s) = map_option (\<lambda>(t, r). (utf8 8232 @ t, r)) (str_body s)"
  "str_body (CHR 0x5C # CHR ''u'' # CHR ''2'' # CHR ''0'' # CHR ''2'' # CHR ''9'' # s) = map_option (\<lambda>(t, r). (utf8 8233 @ t, r)) (str_body s)"
  by (rule str_body_u; simp add: hex4_def hex_val_def Let_def is_high_def is_low_def)+

lemma str_body_quote: "str_body (quote_body t @ CHR 0x22 # s) = Some (coerceUTF8 t, s)"
proof (induction t rule: quote_body.induct)
  case (2 c t)
  show ?case
  proof (cases "(of_char c :: nat) < 128")
    case True
    then show ?thesis using 2(1) by (simp add: str_body_quote_char)
  next
    case c: False
    show ?thesis
    proof (cases "rune_tail c t")
      case None
      then show ?thesis using c 2(2) by (simp add: str_body_escaped)
    next
      case (Some k)
      let ?q = "quote_body (drop k t) @ CHR 0x22 # s"
      have IH: "str_body ?q = Some (coerceUTF8 (drop k t), s)" using 2(3) [OF c Some] .
      consider "c # take k t = utf8 8232" | "c # take k t = utf8 8233" "c # take k t \<noteq> utf8 8232"
        | "c # take k t \<noteq> utf8 8232" "c # take k t \<noteq> utf8 8233" by blast
      then show ?thesis
      proof cases
        case 1
        have "quote_body (c # t) = CHR 0x5C # ''u2028'' @ quote_body (drop k t)" using c Some 1 by simp
        moreover have "coerceUTF8 (c # t) = utf8 8232 @ coerceUTF8 (drop k t)" using Some by (simp flip: 1)
        ultimately show ?thesis using IH by (simp add: str_body_escaped)
      next
        case 2
        have "quote_body (c # t) = CHR 0x5C # ''u2029'' @ quote_body (drop k t)" using c Some 2 by simp
        moreover have "coerceUTF8 (c # t) = utf8 8233 @ coerceUTF8 (drop k t)" using Some by (simp flip: 2(1))
        ultimately show ?thesis using IH by (simp add: str_body_escaped)
      next
        case 3
        then show ?thesis using c Some IH str_body_rune [OF Some c, of ?q] by simp
      qed
    qed
  qed
qed (simp add: str_body_end)

lemma hd_digits_pos: "0 < n \<Longrightarrow> hd (digits n) \<noteq> CHR ''0''"
proof (induction n rule: digits.induct)
  case (1 n)
  show ?case
  proof (cases "n < 10")
    case True
    have "of_char (digit_char n) = 48 + n" using True by (simp add: digit_char_def)
    then have "digit_char n \<noteq> CHR ''0''" using 1(2) by auto
    then show ?thesis using True by (subst digits.simps) simp
  next
    case False
    then show ?thesis using 1 by (subst digits.simps) simp
  qed
qed

definition num_end :: "string \<Rightarrow> bool" where
  "num_end r \<longleftrightarrow> r = [] \<or> \<not> is_digit (hd r) \<and> hd r \<notin> {CHR ''.'', CHR ''e'', CHR ''E''}"

lemma num_end_tail: "num_end r \<Longrightarrow> num_frac r = Some ([], r) \<and> num_exp r = Some ([], r)"
  by (cases r) (auto simp: num_end_def num_frac_def num_exp_def)

lemma num_int_digits:
  assumes "num_end r"
  shows "num_int (digits n @ r) = Some (digits n, r)"
proof -
  have d: "\<forall>c\<in>set (digits n). is_digit c" using digits_is_digit by blast
  have r: "takeWhile is_digit r = []" "dropWhile is_digit r = r"
    using assms by (cases r; auto simp: num_end_def)+
  have sp: "span_digits (digits n @ r) = (digits n, r)"
    using d r by (simp add: span_digits_def takeWhile_append dropWhile_append)
  obtain c cs where cs: "digits n = c # cs" by (cases "digits n") (auto dest: digits_ne [THEN notE])
  show ?thesis
  proof (cases "n = 0")
    case True
    moreover have "digit_char 0 = CHR ''0''" by code_simp
    moreover have "digits 0 = [digit_char 0]" by (subst digits.simps) simp
    ultimately show ?thesis by (simp add: num_int_def)
  next
    case False
    then have "c \<noteq> CHR ''0''" using hd_digits_pos [of n] cs by simp
    then show ?thesis using d cs sp by (simp add: num_int_def)
  qed
qed

lemma num_lit_itoa:
  assumes "num_end r"
  shows "num_lit (itoa i @ r) = Some (itoa i, r)"
proof (cases "i < 0")
  case True
  then show ?thesis using num_int_digits [OF assms] num_end_tail [OF assms]
    by (simp add: num_lit_def itoa_def)
next
  case False
  obtain c cs where cs: "digits (nat i) = c # cs" by (cases "digits (nat i)") (auto dest: digits_ne [THEN notE])
  then have "c \<noteq> CHR ''-''" using hd_digits [of "nat i"] is_digit_not_sign by auto
  then show ?thesis using False num_int_digits [OF assms, of "nat i"] num_end_tail [OF assms] cs
    by (simp add: num_lit_def itoa_def)
qed

lemma itoa_hd: "is_digit (hd (itoa i)) \<or> hd (itoa i) = CHR ''-''"
  by (simp add: itoa_def hd_digits)

text \<open>The values the program prints: numbers are integers.\<close>

fun printed :: "json \<Rightarrow> bool" where
  "printed (JNum t) \<longleftrightarrow> (\<exists>i. t = itoa i)"
| "printed (JArr vs) \<longleftrightarrow> (\<forall>v\<in>set vs. printed v)"
| "printed (JObj ms) \<longleftrightarrow> (\<forall>(k, v)\<in>set ms. printed v)"
| "printed _ \<longleftrightarrow> True"

lemma skip_ws_id: "s = [] \<or> \<not> is_ws (hd s) \<Longrightarrow> skip_ws s = s"
  by (cases s) (auto simp: skip_ws_def)

lemma skip_ws_Cons [simp]:
  "skip_ws (CHR 0x22 # s) = CHR 0x22 # s" "skip_ws (CHR ''{'' # s) = CHR ''{'' # s"
  "skip_ws (CHR ''}'' # s) = CHR ''}'' # s" "skip_ws (CHR ''['' # s) = CHR ''['' # s"
  "skip_ws (CHR '']'' # s) = CHR '']'' # s" "skip_ws (CHR '','' # s) = CHR '','' # s"
  "skip_ws (CHR '':'' # s) = CHR '':'' # s" "skip_ws [] = []"
  by (simp_all add: skip_ws_def is_ws_def)

text \<open>Where a printed value starts.\<close>

definition start_char :: "char \<Rightarrow> bool" where
  "start_char c \<longleftrightarrow> is_digit c \<or> c \<in> {CHR ''-'', CHR 0x22, CHR ''['', CHR ''{'', CHR ''t'', CHR ''f'', CHR ''n''}"

lemma start_char_not: "start_char c \<Longrightarrow> \<not> is_ws c \<and> c \<noteq> CHR '']'' \<and> c \<noteq> CHR ''}''"
  by (auto simp: start_char_def is_ws_def is_digit_def)

lemma jprint_start: "printed v \<Longrightarrow> \<exists>c cs. jprint v = c # cs \<and> start_char c"
proof (cases v)
  case (JNum t)
  assume "printed v"
  then obtain i where "t = itoa i" using JNum by auto
  then show ?thesis using JNum itoa_hd [of i] by (cases "itoa i") (auto simp: start_char_def dest: itoa_ne [THEN notE])
qed (auto simp: start_char_def quote_def)

lemma num_end_sep:
  "num_end []" "num_end (CHR '','' # r)" "num_end (CHR '']'' # r)" "num_end (CHR ''}'' # r)"
  by (simp_all add: num_end_def is_digit_def)

text \<open>What is read back: the strings and the keys with their invalid bytes replaced.\<close>

fun jwire :: "json \<Rightarrow> json" where
  "jwire (JStr t) = JStr (coerceUTF8 t)"
| "jwire (JArr vs) = JArr (map jwire vs)"
| "jwire (JObj ms) = JObj (map (\<lambda>(k, v). (coerceUTF8 k, jwire v)) ms)"
| "jwire v = v"

abbreviation wire_members :: "(string \<times> json) list \<Rightarrow> (string \<times> json) list" where
  "wire_members ms \<equiv> map (\<lambda>(k, v). (coerceUTF8 k, jwire v)) ms"

definition reads_back :: "json \<Rightarrow> bool" where
  "reads_back v \<longleftrightarrow> (\<forall>r. num_end r \<longrightarrow> pval (jprint v @ r) = Some (jwire v, r))"

lemma commas_Cons: "xs \<noteq> [] \<Longrightarrow> commas (x # xs) = x @ CHR '','' # commas xs"
  by (cases xs) auto

lemma pelems_print:
  assumes "vs \<noteq> []" "\<forall>v\<in>set vs. printed v \<and> reads_back v"
  shows "pelems (commas (map jprint vs) @ CHR '']'' # r) = Some (map jwire vs, r)"
  using assms
proof (induction vs)
  case (Cons v vs)
  obtain c cs where "jprint v = c # cs" using Cons.prems jprint_start by force
  then have ne: "0 < length (jprint v)" by simp
  show ?case
  proof (cases "vs = []")
    case True
    have "pval (jprint v @ CHR '']'' # r) = Some (jwire v, CHR '']'' # r)"
      using Cons.prems by (simp add: reads_back_def num_end_sep)
    then show ?thesis using True ne by (subst pelems.simps) simp
  next
    case False
    let ?t = "CHR '','' # commas (map jprint vs) @ CHR '']'' # r"
    have "pval (jprint v @ ?t) = Some (jwire v, ?t)"
      using Cons.prems by (simp add: reads_back_def num_end_sep)
    then show ?thesis using Cons False ne by (subst pelems.simps) (simp add: commas_Cons)
  qed
qed simp

lemma pmems_print:
  assumes "ms \<noteq> []" "\<forall>(k, v)\<in>set ms. reads_back v"
  shows "pmems (commas (map (\<lambda>(k, v). quote k @ CHR '':'' # jprint v) ms) @ CHR ''}'' # r) = Some (wire_members ms, r)"
  using assms
proof (induction ms)
  case (Cons m ms)
  obtain k v where m: "m = (k, v)" by (cases m)
  have q: "str_body (quote_body k @ CHR 0x22 # x) = Some (coerceUTF8 k, x)" for x by (rule str_body_quote)
  show ?case
  proof (cases "ms = []")
    case True
    have "pval (jprint v @ CHR ''}'' # r) = Some (jwire v, CHR ''}'' # r)"
      using Cons.prems m by (simp add: reads_back_def num_end_sep)
    then show ?thesis using True m by (subst pmems.simps) (simp add: quote_def q)
  next
    case False
    let ?t = "CHR '','' # commas (map (\<lambda>(k, v). quote k @ CHR '':'' # jprint v) ms) @ CHR ''}'' # r"
    have "pval (jprint v @ ?t) = Some (jwire v, ?t)"
      using Cons.prems m by (simp add: reads_back_def num_end_sep)
    then show ?thesis using Cons False m by (subst pmems.simps) (simp add: commas_Cons quote_def q)
  qed
qed simp

text \<open>Members followed by more text: the rest is read as further members.\<close>

lemma pmems_print_more:
  assumes "ms \<noteq> []" "\<forall>(k, v)\<in>set ms. reads_back v" "pmems rest = Some (ms2, r)"
  shows "pmems (commas (map (\<lambda>(k, v). quote k @ CHR '':'' # jprint v) ms) @ CHR '','' # rest) = Some (wire_members ms @ ms2, r)"
  using assms(1,2)
proof (induction ms)
  case (Cons m ms)
  obtain k v where m: "m = (k, v)" by (cases m)
  have q: "str_body (quote_body k @ CHR 0x22 # x) = Some (coerceUTF8 k, x)" for x by (rule str_body_quote)
  have pv: "pval (jprint v @ CHR '','' # t) = Some (jwire v, CHR '','' # t)" for t
    using Cons.prems m by (simp add: reads_back_def num_end_sep)
  show ?case
  proof (cases "ms = []")
    case True
    then show ?thesis using m pv [of rest] assms(3) by (subst pmems.simps) (simp add: quote_def q)
  next
    case False
    then show ?thesis using Cons m pv by (subst pmems.simps) (simp add: commas_Cons quote_def q)
  qed
qed simp

lemma hd_commas: "vs \<noteq> [] \<Longrightarrow> hd vs \<noteq> [] \<Longrightarrow> commas vs @ r \<noteq> [] \<and> hd (commas vs @ r) = hd (hd vs)"
  by (cases vs rule: commas.cases) auto

lemma printed_reads_back: "printed v \<Longrightarrow> reads_back v"
proof (induction v)
  case (JNum t)
  then obtain i where t: "t = itoa i" by auto
  obtain c cs where cs: "itoa i = c # cs" by (cases "itoa i") (auto dest: itoa_ne [THEN notE])
  have c: "is_digit c \<or> c = CHR ''-''" using itoa_hd [of i] cs by simp
  have "pval (c # cs @ r) = Some (JNum t, r)" if "num_end r" for r
  proof -
    have ws: "skip_ws (c # cs @ r) = c # cs @ r" using c by (intro skip_ws_id) (auto simp: is_digit_def is_ws_def)
    have ne: "c \<noteq> CHR 0x22" "c \<noteq> CHR ''{''" "c \<noteq> CHR ''[''" "c \<noteq> CHR ''t''" "c \<noteq> CHR ''f''" "c \<noteq> CHR ''n''"
      using c by (auto simp: is_digit_def)
    show ?thesis using num_lit_itoa [OF that, of i] cs t ws ne by (subst pval.simps) simp
  qed
  then show ?case using t cs by (simp add: reads_back_def)
next
  case (JStr t)
  show ?case unfolding reads_back_def
    by (intro allI impI, subst pval.simps) (simp add: quote_def str_body_quote)
next
  case (JArr vs)
  have IH: "\<forall>v\<in>set vs. printed v \<and> reads_back v" using JArr by auto
  have "pval (CHR ''['' # commas (map jprint vs) @ CHR '']'' # r) = Some (jwire (JArr vs), r)" for r
  proof (cases "vs = []")
    case True
    then show ?thesis by (subst pval.simps) simp
  next
    case False
    then obtain c cs where c: "jprint (hd vs) = c # cs" "start_char c" using IH jprint_start by force
    let ?t = "commas (map jprint vs) @ CHR '']'' # r"
    have t: "?t \<noteq> []" "hd ?t = c" using hd_commas [of "map jprint vs" "CHR '']'' # r"] c False by (auto simp: hd_map)
    then have "skip_ws ?t = ?t" using start_char_not [OF c(2)] by (intro skip_ws_id) simp
    then show ?thesis using pelems_print [OF False IH, of r] t start_char_not [OF c(2)] by (subst pval.simps) simp
  qed
  then show ?case by (simp add: reads_back_def)
next
  case (JObj ms)
  have IH: "\<forall>(k, v)\<in>set ms. reads_back v" using JObj by fastforce
  have "pval (CHR ''{'' # commas (map (\<lambda>(k, v). quote k @ CHR '':'' # jprint v) ms) @ CHR ''}'' # r) = Some (jwire (JObj ms), r)" for r
  proof (cases "ms = []")
    case True
    then show ?thesis by (subst pval.simps) simp
  next
    case False
    let ?l = "map (\<lambda>(k, v). quote k @ CHR '':'' # jprint v) ms"
    let ?t = "commas ?l @ CHR ''}'' # r"
    have "hd (hd ?l) = CHR 0x22" "hd ?l \<noteq> []" using False by (cases ms; auto simp: quote_def)+
    then have t: "?t \<noteq> []" "hd ?t = CHR 0x22" using hd_commas [of ?l "CHR ''}'' # r"] False by auto
    then have "skip_ws ?t = ?t" by (intro skip_ws_id) (simp add: is_ws_def)
    then show ?thesis using pmems_print [OF False IH, of r] t by (subst pval.simps) simp
  qed
  then show ?case by (simp add: reads_back_def)
qed (auto simp: reads_back_def pval.simps skip_ws_def is_ws_def)

text \<open>Decoding the text of an encoded value gives the value, its strings made valid.\<close>

lemma json_text_jprint: "printed v \<Longrightarrow> json_text (jprint v) = Some (jwire v)"
proof -
  assume "printed v"
  then have "pval (jprint v @ []) = Some (jwire v, [])"
    using printed_reads_back num_end_sep(1) unfolding reads_back_def by blast
  then show ?thesis by (simp add: json_text_def)
qed

section \<open>Decoding into Go values\<close>

text \<open>
  A decoder takes a value and what the destination holds; it returns what the destination holds
  afterwards and whether a value did not fit its type. Such an error is remembered while decoding
  goes on. \<open>null\<close> leaves integers, strings and booleans alone.
\<close>

datatype json_error = SyntaxError | UnmarshalTypeError

definition dec_int :: "json \<Rightarrow> int \<Rightarrow> int \<times> bool" where
  "dec_int v old = (case v of
      JNull \<Rightarrow> (old, False)
    | JNum t \<Rightarrow> (case atoi t of (i, None) \<Rightarrow> (i, False) | _ \<Rightarrow> (old, True))
    | _ \<Rightarrow> (old, True))"

definition dec_str :: "json \<Rightarrow> string \<Rightarrow> string \<times> bool" where
  "dec_str v old = (case v of JNull \<Rightarrow> (old, False) | JStr t \<Rightarrow> (t, False) | _ \<Rightarrow> (old, True))"

definition dec_bool :: "json \<Rightarrow> bool \<Rightarrow> bool \<times> bool" where
  "dec_bool v old = (case v of JNull \<Rightarrow> (old, False) | JBool b \<Rightarrow> (b, False) | _ \<Rightarrow> (old, True))"

text \<open>A slice: the elements it already has are decoded into, the others start from the zero value.\<close>

fun dec_elems :: "(json \<Rightarrow> 'a \<Rightarrow> 'a \<times> bool) \<Rightarrow> 'a \<Rightarrow> json list \<Rightarrow> 'a list \<Rightarrow> 'a list \<times> bool" where
  "dec_elems d zero [] old = ([], False)"
| "dec_elems d zero (v # vs) old =
     (let (x, e) = d v (case old of [] \<Rightarrow> zero | y # _ \<Rightarrow> y); (xs, e') = dec_elems d zero vs (tl old)
      in (x # xs, e \<or> e'))"

definition dec_slice :: "(json \<Rightarrow> 'a \<Rightarrow> 'a \<times> bool) \<Rightarrow> 'a \<Rightarrow> json \<Rightarrow> 'a list \<Rightarrow> 'a list \<times> bool" where
  "dec_slice d zero v old = (case v of
      JNull \<Rightarrow> ([], False) | JArr vs \<Rightarrow> dec_elems d zero vs old | _ \<Rightarrow> (old, True))"

text \<open>
  A struct: for each member the field of that name, or else the first whose name differs only in
  case; members without a field are skipped.
\<close>

definition lower :: "char \<Rightarrow> char" where
  "lower c = (if 65 \<le> (of_char c :: nat) \<and> (of_char c :: nat) \<le> 90 then char_of ((of_char c :: nat) + 32) else c)"

definition field_of :: "string list \<Rightarrow> string \<Rightarrow> string option" where
  "field_of fs k = (if k \<in> set fs then Some k else find (\<lambda>f. map lower f = map lower k) fs)"

fun dec_members :: "(string \<Rightarrow> json \<Rightarrow> 's \<Rightarrow> 's \<times> bool) \<Rightarrow> string list \<Rightarrow> (string \<times> json) list \<Rightarrow> 's \<Rightarrow> 's \<times> bool" where
  "dec_members upd fs [] s = (s, False)"
| "dec_members upd fs ((k, v) # ms) s =
     (let (s1, e) = (case field_of fs k of None \<Rightarrow> (s, False) | Some f \<Rightarrow> upd f v s);
          (s2, e') = dec_members upd fs ms s1
      in (s2, e \<or> e'))"

definition dec_struct :: "(string \<Rightarrow> json \<Rightarrow> 's \<Rightarrow> 's \<times> bool) \<Rightarrow> string list \<Rightarrow> json \<Rightarrow> 's \<Rightarrow> 's \<times> bool" where
  "dec_struct upd fs v s = (case v of
      JNull \<Rightarrow> (s, False) | JObj ms \<Rightarrow> dec_members upd fs ms s | _ \<Rightarrow> (s, True))"

text \<open>A pointer to a struct is set to nil by \<open>null\<close> and allocated when it is nil.\<close>

definition dec_ptr :: "(json \<Rightarrow> 's \<Rightarrow> 's \<times> bool) \<Rightarrow> 's \<Rightarrow> json \<Rightarrow> 's option \<Rightarrow> 's option \<times> bool" where
  "dec_ptr d zero v p = (case v of
      JNull \<Rightarrow> (None, False)
    | _ \<Rightarrow> (let (x, e) = d v (case p of None \<Rightarrow> zero | Some y \<Rightarrow> y) in (Some x, e)))"

text \<open>A map from strings to integers: a value of another type stores zero under its key.\<close>

fun dec_entries :: "(string \<times> json) list \<Rightarrow> (string \<rightharpoonup> int) \<Rightarrow> (string \<rightharpoonup> int) \<times> bool" where
  "dec_entries [] mp = (mp, False)"
| "dec_entries ((k, v) # ms) mp =
     (let (i, e) = dec_int v 0; (mp', e') = dec_entries ms (mp(k \<mapsto> i)) in (mp', e \<or> e'))"

definition dec_map :: "json \<Rightarrow> (string \<rightharpoonup> int) \<Rightarrow> (string \<rightharpoonup> int) \<times> bool" where
  "dec_map v mp = (case v of
      JNull \<Rightarrow> (Map.empty, False) | JObj ms \<Rightarrow> dec_entries ms mp | _ \<Rightarrow> (mp, True))"

definition unmarshal :: "(json \<Rightarrow> 's \<Rightarrow> 's \<times> bool) \<Rightarrow> string \<Rightarrow> 's \<Rightarrow> 's \<times> json_error option" where
  "unmarshal d s old = (case json_text s of
      None \<Rightarrow> (old, Some SyntaxError)
    | Some v \<Rightarrow> (let (x, e) = d v old in (x, if e then Some UnmarshalTypeError else None)))"

section \<open>Encoding Go values\<close>

definition enc_int :: "int \<Rightarrow> json" where "enc_int i = JNum (itoa i)"

text \<open>
  The interface of a type whose values survive the trip through their JSON text; \<open>wire\<close> is what
  becomes of a value whose strings are not valid UTF-8.
\<close>

locale json_codec =
  fixes enc :: "'s \<Rightarrow> json" and dec :: "json \<Rightarrow> 's \<Rightarrow> 's \<times> bool" and ok :: "'s \<Rightarrow> bool" and wire :: "'s \<Rightarrow> 's" and zero :: 's
  assumes enc_printed: "ok x \<Longrightarrow> printed (enc x)"
    and dec_enc: "ok x \<Longrightarrow> dec (jwire (enc x)) zero = (wire x, False)"
begin

lemma round_trip: "ok x \<Longrightarrow> unmarshal dec (jprint (enc x)) zero = (wire x, None)"
  by (simp add: unmarshal_def json_text_jprint enc_printed dec_enc)

lemma dec_elems_enc: "\<forall>x\<in>set xs. ok x \<Longrightarrow> dec_elems dec zero (map jwire (map enc xs)) [] = (map wire xs, False)"
  by (induction xs) (simp_all add: dec_enc)

lemma dec_slice_enc: "\<forall>x\<in>set xs. ok x \<Longrightarrow> dec_slice dec zero (jwire (JArr (map enc xs))) [] = (map wire xs, False)"
  using dec_elems_enc by (simp add: dec_slice_def)

lemma enc_slice_printed: "\<forall>x\<in>set xs. ok x \<Longrightarrow> printed (JArr (map enc xs))"
  by (simp add: enc_printed)

end

lemma jwire_enc_int [simp]: "jwire (enc_int i) = enc_int i"
  by (simp add: enc_int_def)

lemma dec_int_enc [simp]: "int64 i \<Longrightarrow> dec_int (enc_int i) old = (i, False)"
  by (simp add: dec_int_def enc_int_def atoi_itoa)

lemma dec_str_enc [simp]: "dec_str (JStr t) old = (t, False)"
  by (simp add: dec_str_def)

lemma dec_bool_enc [simp]: "dec_bool (JBool b) old = (b, False)"
  by (simp add: dec_bool_def)

lemma enc_int_printed [simp]: "printed (enc_int i)"
  by (auto simp: enc_int_def)

lemma field_of_mem [simp]: "k \<in> set fs \<Longrightarrow> field_of fs k = Some k"
  by (simp add: field_of_def)

interpretation int_codec: json_codec enc_int dec_int int64 id 0
  by unfold_locales simp_all

end
