(* ===== verification/Rubicante_Http.thy ===== *)
theory Rubicante_Http
  imports Rubicante_Termination Rubicante_Priority Go_Json
begin

text \<open>
  The REST interface of the node daemon (\<open>src/rubicante/routers.go\<close>): the JSON forms of its
  messages, the two handlers around the admission test with the mutex they take, and the update of
  the node's schedulability flag.
\<close>

section \<open>Messages\<close>

record schedResponse =
  SchedRes :: "schedResult option"
  Status :: "int list"

record bindResponse =
  Result :: "schedResult option"
  TGID :: int

definition zero_task :: task where "zero_task = \<lparr>Period = 0, Wcet = 0, Prio = 0\<rparr>"
definition zero_request :: schedRequest where "zero_request = \<lparr>Tasks = [], Name = [], Criticality = []\<rparr>"
definition zero_result :: schedResult where "zero_result = \<lparr>Schedulable = False, Bandwidth = 0, Core = 0, Error = []\<rparr>"

definition enc_task :: "task \<Rightarrow> json" where
  "enc_task t = JObj [(''Period'', enc_int (Period t)), (''Wcet'', enc_int (Wcet t)), (''Prio'', enc_int (Prio t))]"

definition enc_request :: "schedRequest \<Rightarrow> json" where
  "enc_request r = JObj [(''Tasks'', JArr (map enc_task (Tasks r))), (''Name'', JStr (Name r)),
     (''Criticality'', JStr (Criticality r))]"

definition enc_result :: "schedResult \<Rightarrow> json" where
  "enc_result r = JObj [(''Schedulable'', JBool (Schedulable r)), (''Bandwidth'', enc_int (Bandwidth r)),
     (''Core'', enc_int (Core r)), (''Error'', JStr (Error r))]"

definition enc_ptr :: "schedResult option \<Rightarrow> json" where
  "enc_ptr p = (case p of None \<Rightarrow> JNull | Some r \<Rightarrow> enc_result r)"

definition enc_schedResponse :: "schedResponse \<Rightarrow> json" where
  "enc_schedResponse r = JObj [(''SchedRes'', enc_ptr (SchedRes r)), (''Status'', JArr (map enc_int (Status r)))]"

definition enc_bindResponse :: "bindResponse \<Rightarrow> json" where
  "enc_bindResponse r = JObj [(''Result'', enc_ptr (Result r)), (''TGID'', enc_int (TGID r))]"

definition task_field :: "string \<Rightarrow> json \<Rightarrow> task \<Rightarrow> task \<times> bool" where
  "task_field f v t =
     (if f = ''Period'' then (let (i, e) = dec_int v (Period t) in (t\<lparr>Period := i\<rparr>, e))
      else if f = ''Wcet'' then (let (i, e) = dec_int v (Wcet t) in (t\<lparr>Wcet := i\<rparr>, e))
      else (let (i, e) = dec_int v (Prio t) in (t\<lparr>Prio := i\<rparr>, e)))"

definition dec_task :: "json \<Rightarrow> task \<Rightarrow> task \<times> bool" where
  "dec_task = dec_struct task_field [''Period'', ''Wcet'', ''Prio'']"

definition request_field :: "string \<Rightarrow> json \<Rightarrow> schedRequest \<Rightarrow> schedRequest \<times> bool" where
  "request_field f v r =
     (if f = ''Tasks'' then (let (ts, e) = dec_slice dec_task zero_task v (Tasks r) in (r\<lparr>Tasks := ts\<rparr>, e))
      else if f = ''Name'' then (let (t, e) = dec_str v (Name r) in (r\<lparr>Name := t\<rparr>, e))
      else (let (t, e) = dec_str v (Criticality r) in (r\<lparr>Criticality := t\<rparr>, e)))"

definition dec_request :: "json \<Rightarrow> schedRequest \<Rightarrow> schedRequest \<times> bool" where
  "dec_request = dec_struct request_field [''Tasks'', ''Name'', ''Criticality'']"

definition result_field :: "string \<Rightarrow> json \<Rightarrow> schedResult \<Rightarrow> schedResult \<times> bool" where
  "result_field f v r =
     (if f = ''Schedulable'' then (let (b, e) = dec_bool v (Schedulable r) in (r\<lparr>Schedulable := b\<rparr>, e))
      else if f = ''Bandwidth'' then (let (i, e) = dec_int v (Bandwidth r) in (r\<lparr>Bandwidth := i\<rparr>, e))
      else if f = ''Core'' then (let (i, e) = dec_int v (Core r) in (r\<lparr>Core := i\<rparr>, e))
      else (let (t, e) = dec_str v (Error r) in (r\<lparr>Error := t\<rparr>, e)))"

definition dec_result :: "json \<Rightarrow> schedResult \<Rightarrow> schedResult \<times> bool" where
  "dec_result = dec_struct result_field [''Schedulable'', ''Bandwidth'', ''Core'', ''Error'']"

definition schedResponse_field :: "string \<Rightarrow> json \<Rightarrow> schedResponse \<Rightarrow> schedResponse \<times> bool" where
  "schedResponse_field f v r =
     (if f = ''SchedRes'' then (let (p, e) = dec_ptr dec_result zero_result v (SchedRes r) in (r\<lparr>SchedRes := p\<rparr>, e))
      else (let (st, e) = dec_slice dec_int 0 v (Status r) in (r\<lparr>Status := st\<rparr>, e)))"

definition dec_schedResponse :: "json \<Rightarrow> schedResponse \<Rightarrow> schedResponse \<times> bool" where
  "dec_schedResponse = dec_struct schedResponse_field [''SchedRes'', ''Status'']"

definition bindResponse_field :: "string \<Rightarrow> json \<Rightarrow> bindResponse \<Rightarrow> bindResponse \<times> bool" where
  "bindResponse_field f v r =
     (if f = ''Result'' then (let (p, e) = dec_ptr dec_result zero_result v (Result r) in (r\<lparr>Result := p\<rparr>, e))
      else (let (i, e) = dec_int v (TGID r) in (r\<lparr>TGID := i\<rparr>, e)))"

definition dec_bindResponse :: "json \<Rightarrow> bindResponse \<Rightarrow> bindResponse \<times> bool" where
  "dec_bindResponse = dec_struct bindResponse_field [''Result'', ''TGID'']"

section \<open>The messages survive their encoding\<close>

definition task64 :: "task \<Rightarrow> bool" where
  "task64 t \<longleftrightarrow> int64 (Period t) \<and> int64 (Wcet t) \<and> int64 (Prio t)"

definition request64 :: "schedRequest \<Rightarrow> bool" where
  "request64 r \<longleftrightarrow> (\<forall>t\<in>set (Tasks r). task64 t)"

definition result64 :: "schedResult \<Rightarrow> bool" where
  "result64 r \<longleftrightarrow> int64 (Bandwidth r) \<and> int64 (Core r)"

definition response64 :: "schedResponse \<Rightarrow> bool" where
  "response64 r \<longleftrightarrow> pred_option result64 (SchedRes r) \<and> (\<forall>i\<in>set (Status r). int64 i)"

definition bind64 :: "bindResponse \<Rightarrow> bool" where
  "bind64 r \<longleftrightarrow> pred_option result64 (Result r) \<and> int64 (TGID r)"

text \<open>What arrives of a message: the bytes of its strings that are not valid UTF-8 are replaced.\<close>

definition wire_request :: "schedRequest \<Rightarrow> schedRequest" where
  "wire_request r = r\<lparr>Name := coerceUTF8 (Name r), Criticality := coerceUTF8 (Criticality r)\<rparr>"

definition wire_result :: "schedResult \<Rightarrow> schedResult" where
  "wire_result r = r\<lparr>Error := coerceUTF8 (Error r)\<rparr>"

definition wire_schedResponse :: "schedResponse \<Rightarrow> schedResponse" where
  "wire_schedResponse r = r\<lparr>SchedRes := map_option wire_result (SchedRes r)\<rparr>"

definition wire_bindResponse :: "bindResponse \<Rightarrow> bindResponse" where
  "wire_bindResponse r = r\<lparr>Result := map_option wire_result (Result r)\<rparr>"

lemma wire_request_valid: "valid_utf8 (Name r) \<Longrightarrow> valid_utf8 (Criticality r) \<Longrightarrow> wire_request r = r"
  by (simp add: wire_request_def coerceUTF8_valid)

lemma wire_result_simps [simp]:
  "Schedulable (wire_result r) = Schedulable r" "Bandwidth (wire_result r) = Bandwidth r" "Core (wire_result r) = Core r"
  by (simp_all add: wire_result_def)

interpretation task_codec: json_codec enc_task dec_task task64 id zero_task
  by unfold_locales (auto simp: enc_task_def dec_task_def dec_struct_def task_field_def task64_def zero_task_def)

interpretation request_codec: json_codec enc_request dec_request request64 wire_request zero_request
proof unfold_locales
  fix r assume r: "request64 r"
  then show "printed (enc_request r)" using task_codec.enc_slice_printed by (simp add: enc_request_def request64_def)
  show "dec_request (jwire (enc_request r)) zero_request = (wire_request r, False)"
    using r task_codec.dec_slice_enc [of "Tasks r"]
    by (simp add: enc_request_def dec_request_def dec_struct_def request_field_def request64_def zero_request_def
        wire_request_def)
qed

interpretation result_codec: json_codec enc_result dec_result result64 wire_result zero_result
  by unfold_locales (auto simp: enc_result_def dec_result_def dec_struct_def result_field_def result64_def zero_result_def
      wire_result_def)

lemma enc_ptr_codec:
  assumes "pred_option result64 p"
  shows "printed (enc_ptr p)" "dec_ptr dec_result zero_result (jwire (enc_ptr p)) None = (map_option wire_result p, False)"
proof -
  show "printed (enc_ptr p)" using assms result_codec.enc_printed by (cases p) (simp_all add: enc_ptr_def)
  show "dec_ptr dec_result zero_result (jwire (enc_ptr p)) None = (map_option wire_result p, False)"
    using assms result_codec.dec_enc by (cases p) (simp_all add: enc_ptr_def dec_ptr_def enc_result_def)
qed

interpretation schedResponse_codec: json_codec enc_schedResponse dec_schedResponse response64 wire_schedResponse "\<lparr>SchedRes = None, Status = []\<rparr>"
proof unfold_locales
  fix r assume r: "response64 r"
  then show "printed (enc_schedResponse r)" by (simp add: enc_schedResponse_def response64_def enc_ptr_codec)
  show "dec_schedResponse (jwire (enc_schedResponse r)) \<lparr>SchedRes = None, Status = []\<rparr> = (wire_schedResponse r, False)"
    using r int_codec.dec_slice_enc [of "Status r"]
    by (simp add: enc_schedResponse_def dec_schedResponse_def dec_struct_def schedResponse_field_def response64_def enc_ptr_codec
        wire_schedResponse_def)
qed

interpretation bindResponse_codec: json_codec enc_bindResponse dec_bindResponse bind64 wire_bindResponse "\<lparr>Result = None, TGID = 0\<rparr>"
  by unfold_locales
    (auto simp: enc_bindResponse_def dec_bindResponse_def dec_struct_def bindResponse_field_def bind64_def enc_ptr_codec
      wire_bindResponse_def)

section \<open>The handlers\<close>

text \<open>
  Between two requests the daemon is up with its mutex free, or, after a panic inside the test or a
  test that never returns, the mutex is held for ever: the server recovers a panic of a handler,
  but no deferred call releases the mutex. The client then sees its connection closed
  (\<open>Dropped\<close>) or waits for ever (\<open>Hung\<close>).
\<close>

datatype daemon = Up rstate | Locked
datatype reply = Replied string | Dropped | Hung

definition sortTasks :: "schedRequest \<Rightarrow> schedRequest" where
  "sortTasks r = r\<lparr>Tasks := sliceStable Prio (Tasks r)\<rparr>"

text \<open>The test under the mutex.\<close>

definition lockedTest :: "nat \<Rightarrow> schedRequest \<Rightarrow> bool \<Rightarrow> (schedResult \<Rightarrow> int list \<Rightarrow> string) \<Rightarrow> daemon \<Rightarrow> reply \<times> daemon" where
  "lockedTest nCPUs r persistent answer d = (case d of
      Locked \<Rightarrow> (Hung, Locked)
    | Up s \<Rightarrow> (if m s then (Hung, Up s)
       else case schedTest nCPUs r persistent (s\<lparr>m := True\<rparr>) of
           Ret (res, used, s') \<Rightarrow> (Replied (answer res used), Up (s'\<lparr>m := False\<rparr>))
         | Panic _ \<Rightarrow> (Dropped, Locked)
         | Diverge \<Rightarrow> (Hung, Locked)))"

definition SchedulabilityTest :: "(json_error \<Rightarrow> string) \<Rightarrow> nat \<Rightarrow> string \<Rightarrow> daemon \<Rightarrow> reply \<times> daemon" where
  "SchedulabilityTest errText nCPUs body d = (case unmarshal dec_request body zero_request of
      (_, Some e) \<Rightarrow>
        (Replied (jprint (enc_schedResponse \<lparr>SchedRes = Some (zero_result\<lparr>Error := errText e\<rparr>), Status = replicate nCPUs 0\<rparr>)), d)
    | (r, None) \<Rightarrow> lockedTest nCPUs (sortTasks r) False
        (\<lambda>res used. jprint (enc_schedResponse \<lparr>SchedRes = Some res, Status = used\<rparr>)) d)"

definition PodBind :: "(json_error \<Rightarrow> string) \<Rightarrow> nat \<Rightarrow> string \<Rightarrow> daemon \<Rightarrow> reply \<times> daemon" where
  "PodBind errText nCPUs body d = (case unmarshal dec_request body zero_request of
      (_, Some e) \<Rightarrow>
        (Replied (jprint (enc_bindResponse \<lparr>Result = Some (zero_result\<lparr>Error := errText e\<rparr>), TGID = 0\<rparr>)), d)
    | (r, None) \<Rightarrow> lockedTest nCPUs (sortTasks r) True
        (\<lambda>res used. jprint (enc_bindResponse \<lparr>Result = Some res,
            TGID = (if Schedulable res then allocateResources res else 0)\<rparr>)) d)"

text \<open>
  \<open>updateSchedulability\<close> on the flag of the daemon, the flag of its copy of the node and the
  number of updates sent to the API server. A nil pointer is the case without bandwidths.
\<close>

record nodeFlags =
  SCHEDULABLE :: bool
  nodeUnschedulable :: bool
  nodeUpdates :: nat

definition updateSchedulability :: "int list option \<Rightarrow> nodeFlags \<Rightarrow> nodeFlags" where
  "updateSchedulability used f =
     (let schedulable = (case used of None \<Rightarrow> False | Some bs \<Rightarrow> \<exists>b\<in>set bs. b < THRESHOLDSCHED)
      in if \<not> schedulable \<and> SCHEDULABLE f
         then f\<lparr>nodeUnschedulable := True, SCHEDULABLE := False, nodeUpdates := Suc (nodeUpdates f)\<rparr>
         else if schedulable \<and> \<not> SCHEDULABLE f
         then f\<lparr>nodeUnschedulable := False, SCHEDULABLE := True, nodeUpdates := Suc (nodeUpdates f)\<rparr>
         else f)"

section \<open>The handlers answer the test's result\<close>

lemma lockedTest_Ret:
  "\<not> m s \<Longrightarrow> schedTest N r pers (s\<lparr>m := True\<rparr>) = Ret (res, used, s') \<Longrightarrow>
     lockedTest N r pers ans (Up s) = (Replied (ans res used), Up (s'\<lparr>m := False\<rparr>))"
  by (simp add: lockedTest_def)

lemma bandwidths_int64:
  assumes "bandwidths_from cs used = Ret u" "\<forall>x\<in>set used. int64 x"
  shows "\<forall>x\<in>set u. int64 x"
  using assms
proof (induction cs arbitrary: used)
  case (Cons c cs)
  let ?u = "used[nat (core c) := wrap64 (used ! nat (core c) + band c)]"
  have "\<forall>x\<in>set ?u. int64 x" using Cons.prems(2) set_update_subset_insert by fastforce
  then show ?case using Cons by (auto split: if_splits)
qed simp

lemma retune_int64:
  "retune cp cs ps h nb rb = Some (ok, h2, nb2, rb2) \<Longrightarrow> int64 nb \<Longrightarrow> int64 nb2"
proof (induction ps arbitrary: h nb rb)
  case (Cons p ps)
  from Cons.prems(1) have "nb2 = nb \<or> (\<exists>h' x rb'. retune cp cs ps h' (wrap64 x) rb' = Some (ok, h2, nb2, rb2))"
    by (auto simp: Let_def bind_eq_Some_conv split: if_splits)
  then show ?case using Cons by auto
qed simp

lemma binSearch_int64: "binSearch cs c = Some (ok, c') \<Longrightarrow> int64 (band c')"
  by (auto simp: binSearch_def Let_def bind_eq_Some_conv)

lemma schedTest_int64:
  assumes "schedTest N args pers s = Ret (res, used, s')" "N < 2 ^ 63"
  shows "result64 res \<and> (\<forall>x\<in>set used. int64 x)"
proof (cases "Schedulable res")
  case True
  show ?thesis
    using assms(1) True
  proof (rule schedTest_accept)
    fix p used0 k h c' ps h2 newbw rb
    assume a: "getBandwidths N (sliceStable minp (containers s)) = Ret used0" "k < N" "Core res = int k"
      "accepted_at used0 k h c' ps h2 newbw rb" "Bandwidth res = band c'" "used = used0[k := newbw]"
    have "int64 (band c')" "int64 newbw"
      using a(4) binSearch_int64 retune_int64 by (auto simp: accepted_at_def Let_def)
    moreover have "\<forall>x\<in>set used0. int64 x"
      using bandwidths_int64 [OF a(1) [unfolded getBandwidths_def]] by simp
    moreover have "int64 (int k)" using a(2) assms(2) by (simp add: int64_def)
    ultimately show ?thesis using a set_update_subset_insert [of used0 k newbw] by (auto simp: result64_def)
  qed
next
  case False
  obtain p cs used0 where b: "getBandwidths N cs = Ret used0"
    "try_cores N pers 0 (cs @ [new_container args p]) used0 (changed s) = Some (res, used, containers s', changed s')"
    using assms(1) by (rule schedTest_RetE)
  have "used = used0" "Bandwidth res = 0" "Core res = 0"
    using try_cores_refused_strip [OF b(2) False] try_cores_refused_res [OF b(2) False] by simp_all
  then show ?thesis using bandwidths_int64 [OF b(1) [unfolded getBandwidths_def]] by (simp add: result64_def)
qed

end
