(* ===== verification/Rubicante_Store.thy ===== *)
theory Rubicante_Store
  imports Rubicante_Http
begin

text \<open>
  The node daemon's storage (\<open>src/rubicante/data_storage.go\<close>): the state is dumped to two CSV
  files and read back at the start; a pod's container is removed when the pod is deleted. The
  reader of \<open>encoding/csv\<close> with its default settings is part of the model.
\<close>

section \<open>The CSV reader\<close>

datatype csv_error = ErrBareQuote | ErrQuote | ErrFieldCount
datatype terminator = Comma | Eol | Eof

text \<open>Line ends: a carriage return before a line feed, or at the end of the file, is dropped.\<close>

fun csv_norm :: "string \<Rightarrow> string" where
  "csv_norm [] = []"
| "csv_norm [c] = (if c = CHR 0x0D then [] else [c])"
| "csv_norm (c # d # s) = (if c = CHR 0x0D \<and> d = CHR 0x0A then d # csv_norm s else c # csv_norm (d # s))"

text \<open>The rest of a quoted field after its opening quote.\<close>

fun quoted :: "string \<Rightarrow> csv_error + (string \<times> terminator \<times> string)" where
  "quoted [] = Inl ErrQuote"
| "quoted (c # s) =
     (if c \<noteq> CHR 0x22 then (case quoted s of Inl e \<Rightarrow> Inl e | Inr (f, t, r) \<Rightarrow> Inr (c # f, t, r))
      else case s of
          [] \<Rightarrow> Inr ([], Eof, [])
        | d # s' \<Rightarrow>
            if d = CHR 0x22 then (case quoted s' of Inl e \<Rightarrow> Inl e | Inr (f, t, r) \<Rightarrow> Inr (d # f, t, r))
            else if d = CHR '','' then Inr ([], Comma, s')
            else if d = CHR 0x0A then Inr ([], Eol, s')
            else Inl ErrQuote)"

definition field_end :: "char \<Rightarrow> bool" where
  "field_end c \<longleftrightarrow> c = CHR '','' \<or> c = CHR 0x0A"

definition csv_field :: "string \<Rightarrow> csv_error + (string \<times> terminator \<times> string)" where
  "csv_field s =
     (if s \<noteq> [] \<and> hd s = CHR 0x22 then quoted (tl s)
      else (let f = takeWhile (\<lambda>c. \<not> field_end c) s; r = dropWhile (\<lambda>c. \<not> field_end c) s
            in if CHR 0x22 \<in> set f then Inl ErrBareQuote
               else if r = [] then Inr (f, Eof, [])
               else Inr (f, if hd r = CHR '','' then Comma else Eol, tl r)))"

text \<open>The fields of one record. The comparison of lengths always holds.\<close>

function csv_record :: "string \<Rightarrow> csv_error + (string list \<times> string)" where
  "csv_record s = (case csv_field s of
      Inl e \<Rightarrow> Inl e
    | Inr (f, t, r) \<Rightarrow>
        if t = Comma \<and> length r < length s
        then (case csv_record r of Inl e \<Rightarrow> Inl e | Inr (fs, r') \<Rightarrow> Inr (f # fs, r'))
        else Inr ([f], r))"
  by pat_completeness auto
termination by (relation "measure length") auto

declare csv_record.simps [simp del]

text \<open>All records: empty lines are skipped, and every record has as many fields as the first.\<close>

function csv_records :: "nat option \<Rightarrow> string \<Rightarrow> csv_error + string list list" where
  "csv_records n s = (case s of
      [] \<Rightarrow> Inr []
    | c # s' \<Rightarrow>
        if c = CHR 0x0A then csv_records n s'
        else (case csv_record s of
                Inl e \<Rightarrow> Inl e
              | Inr (fs, r) \<Rightarrow>
                  if n \<noteq> None \<and> n \<noteq> Some (length fs) then Inl ErrFieldCount
                  else if length r < length s
                  then (case csv_records (Some (length fs)) r of Inl e \<Rightarrow> Inl e | Inr rs \<Rightarrow> Inr (fs # rs))
                  else Inr [fs]))"
  by pat_completeness auto
termination by (relation "measure (\<lambda>(_, s). length s)") auto

declare csv_records.simps [simp del]

definition csv_readAll :: "string \<Rightarrow> csv_error + string list list" where
  "csv_readAll s = csv_records None (csv_norm s)"

section \<open>Reading the state\<close>

definition nth_field :: "string list \<Rightarrow> nat \<Rightarrow> string go" where
  "nth_field line i = (if i < length line then Ret (line ! i) else Panic IndexOutOfRange)"

definition int_field :: "string list \<Rightarrow> nat \<Rightarrow> int go" where
  "int_field line i = go_bind (nth_field line i) (\<lambda>f. Ret (fst (atoi f)))"

text \<open>
  \<open>read_task_data\<close>: a task is appended for every row; it keeps its zero value when the row
  belongs to another container.
\<close>

fun task_rows :: "string \<Rightarrow> string list list \<Rightarrow> task list go" where
  "task_rows nm [] = Ret []"
| "task_rows nm (line # ls) =
     go_bind (nth_field line 0) (\<lambda>f.
     go_bind (if f = nm
              then go_bind (int_field line 1) (\<lambda>w. go_bind (int_field line 2) (\<lambda>p. go_bind (int_field line 3)
                     (\<lambda>pr. Ret \<lparr>Period = p, Wcet = w, Prio = pr\<rparr>)))
              else Ret zero_task) (\<lambda>t.
     go_bind (task_rows nm ls) (\<lambda>ts. Ret (t # ts))))"

text \<open>An error of the CSV reader ends the daemon (\<open>log.Fatal\<close>): the left summand.\<close>

definition read_task_data :: "string \<Rightarrow> string \<Rightarrow> (csv_error + task list) go" where
  "read_task_data tasksCsv nm = (case csv_readAll tasksCsv of
      Inl e \<Rightarrow> Ret (Inl e)
    | Inr data \<Rightarrow> go_bind (task_rows nm data) (\<lambda>ts. Ret (Inr ts)))"

fun container_rows :: "string \<Rightarrow> string list list \<Rightarrow> (csv_error + container list) go" where
  "container_rows tasksCsv [] = Ret (Inr [])"
| "container_rows tasksCsv (line # ls) =
     go_bind (nth_field line 0) (\<lambda>nm.
     go_bind (int_field line 1) (\<lambda>b.
     go_bind (int_field line 2) (\<lambda>p.
     go_bind (int_field line 3) (\<lambda>k.
     go_bind (read_task_data tasksCsv nm) (\<lambda>r. case r of
         Inl e \<Rightarrow> Ret (Inl e)
       | Inr ts \<Rightarrow>
           go_bind (container_rows tasksCsv ls) (\<lambda>r'. case r' of
               Inl e \<Rightarrow> Ret (Inl e)
             | Inr cs \<Rightarrow> Ret (Inr (\<lparr>tasks = ts, band = b, name = nm, period = SERVERPERIOD, prio = p, core = k\<rparr> # cs))))))))"

definition read_containers_data :: "string \<Rightarrow> string \<Rightarrow> (csv_error + container list) go" where
  "read_containers_data containersCsv tasksCsv = (case csv_readAll containersCsv of
      Inl e \<Rightarrow> Ret (Inl e) | Inr data \<Rightarrow> container_rows tasksCsv data)"

section \<open>Writing the state\<close>

definition csv_row :: "string \<Rightarrow> int \<Rightarrow> int \<Rightarrow> int \<Rightarrow> string" where
  "csv_row nm a b c = nm @ CHR '','' # itoa a @ CHR '','' # itoa b @ CHR '','' # itoa c @ [CHR 0x0A]"

definition containers_text :: "container list \<Rightarrow> string" where
  "containers_text cs = concat (map (\<lambda>c. csv_row (name c) (band c) (prio c) (core c)) cs)"

definition tasks_text :: "container list \<Rightarrow> string" where
  "tasks_text cs = concat (map (\<lambda>c. concat (map (\<lambda>t. csv_row (name c) (Wcet t) (Period t) (Prio t)) (tasks c))) cs)"

text \<open>Writing from the start of a file that is opened without truncation.\<close>

definition overwrite :: "string \<Rightarrow> string \<Rightarrow> string" where
  "overwrite new old = new @ drop (length new) old"

record files =
  containersCsv :: string
  tasksCsv :: string

definition dumpState :: "rstate \<Rightarrow> files \<Rightarrow> rstate \<times> files" where
  "dumpState s f = (if changed s
     then (s\<lparr>changed := False\<rparr>,
           \<lparr>containersCsv = overwrite (containers_text (containers s)) (containersCsv f),
            tasksCsv = overwrite (tasks_text (containers s)) (tasksCsv f)\<rparr>)
     else (s, f))"

section \<open>Deleting a pod\<close>

definition remove_at :: "nat \<Rightarrow> container list \<Rightarrow> container list" where
  "remove_at i cs = butlast (cs[i := last cs])"

text \<open>
  The loop ranges over the indices the slice has when it starts, while the slice shrinks: \<open>n\<close> is
  the number of passes left.
\<close>

fun delete_from :: "nat \<Rightarrow> nat \<Rightarrow> string \<Rightarrow> container list \<Rightarrow> int list \<Rightarrow> (int list \<times> container list) go" where
  "delete_from 0 i nm cs used = Ret (used, cs)"
| "delete_from (Suc n) i nm cs used =
     (if \<not> i < length cs then Panic IndexOutOfRange
      else if name (cs ! i) \<noteq> nm
      then (if 0 \<le> core (cs ! i) \<and> core (cs ! i) < int (length used)
            then delete_from n (Suc i) nm cs
                   (used[nat (core (cs ! i)) := wrap64 (used ! nat (core (cs ! i)) + band (cs ! i))])
            else Panic IndexOutOfRange)
      else delete_from n (Suc i) nm (remove_at i cs) used)"

definition deletePod :: "nat \<Rightarrow> string \<Rightarrow> rstate \<Rightarrow> (int list \<times> rstate) go" where
  "deletePod nCPUs nm s =
     go_bind (delete_from (length (containers s)) 0 nm (containers s) (replicate nCPUs 0))
       (\<lambda>(used, cs). Ret (used, s\<lparr>containers := cs\<rparr>))"

text \<open>The watcher's handler for a deleted pod.\<close>

definition podDelete :: "nat \<Rightarrow> string \<Rightarrow> rstate \<times> nodeFlags \<Rightarrow> (rstate \<times> nodeFlags) go" where
  "podDelete nCPUs nm = (\<lambda>(s, f). go_bind (deletePod nCPUs nm s) (\<lambda>(used, s'). Ret (s', updateSchedulability (Some used) f)))"

end
