(* ===== verification/Rubicante_Store_Props.thy ===== *)
theory Rubicante_Store_Props
  imports Rubicante_Store
begin

text \<open>
  What a restart of the daemon recovers from the dumped files, and what the deletion of a pod does
  to the state.
\<close>

section \<open>Reading back the rows\<close>

text \<open>A field that is written as it is: no quote, comma or line end.\<close>

definition csv_plain :: "string \<Rightarrow> bool" where
  "csv_plain s \<longleftrightarrow> (\<forall>c\<in>set s. c \<noteq> CHR 0x22 \<and> c \<noteq> CHR '','' \<and> c \<noteq> CHR 0x0A \<and> c \<noteq> CHR 0x0D)"

lemma csv_plain_itoa: "csv_plain (itoa i)"
proof -
  have "c \<noteq> CHR 0x22 \<and> c \<noteq> CHR '','' \<and> c \<noteq> CHR 0x0A \<and> c \<noteq> CHR 0x0D" if "is_digit c \<or> c = CHR ''-''" for c
    using that by (auto simp: is_digit_def)
  then show ?thesis using digits_is_digit by (auto simp: csv_plain_def itoa_def)
qed

lemma csv_field_plain:
  assumes "csv_plain f" "c = CHR '','' \<or> c = CHR 0x0A"
  shows "csv_field (f @ c # r) = Inr (f, if c = CHR '','' then Comma else Eol, r)"
proof -
  have a: "\<forall>x\<in>set f. \<not> field_end x" "CHR 0x22 \<notin> set f" using assms(1) by (auto simp: csv_plain_def field_end_def)
  have "takeWhile (\<lambda>x. \<not> field_end x) (f @ c # r) = f" "dropWhile (\<lambda>x. \<not> field_end x) (f @ c # r) = c # r"
    using a assms(2) by (auto simp: takeWhile_append dropWhile_append field_end_def)
  moreover have "hd (f @ c # r) \<noteq> CHR 0x22" using a assms(2) by (cases f) auto
  ultimately show ?thesis using a by (simp add: csv_field_def Let_def)
qed

lemma csv_record_row:
  assumes "csv_plain nm"
  shows "csv_record (csv_row nm a b c @ r) = Inr ([nm, itoa a, itoa b, itoa c], r)"
proof -
  have 4: "csv_record (itoa c @ CHR 0x0A # r) = Inr ([itoa c], r)"
    by (subst csv_record.simps) (simp add: csv_field_plain csv_plain_itoa)
  have 3: "csv_record (itoa b @ CHR '','' # itoa c @ CHR 0x0A # r) = Inr ([itoa b, itoa c], r)"
    by (subst csv_record.simps) (simp add: csv_field_plain csv_plain_itoa 4)
  have 2: "csv_record (itoa a @ CHR '','' # itoa b @ CHR '','' # itoa c @ CHR 0x0A # r) = Inr ([itoa a, itoa b, itoa c], r)"
    by (subst csv_record.simps) (simp add: csv_field_plain csv_plain_itoa 3)
  show ?thesis using assms by (subst csv_record.simps) (simp add: csv_row_def csv_field_plain 2)
qed

lemma csv_records_rows:
  assumes "\<forall>(nm, a, b, c)\<in>set rows. csv_plain nm" "n = None \<or> n = Some 4"
  shows "csv_records n (concat (map (\<lambda>(nm, a, b, c). csv_row nm a b c) rows)) =
    Inr (map (\<lambda>(nm, a, b, c). [nm, itoa a, itoa b, itoa c]) rows)"
  using assms
proof (induction rows arbitrary: n)
  case Nil
  then show ?case by (subst csv_records.simps) simp
next
  case (Cons row rows)
  obtain nm a b c where row: "row = (nm, a, b, c)" by (cases row)
  let ?s = "concat (map (\<lambda>(nm, a, b, c). csv_row nm a b c) rows)"
  have pl: "csv_plain nm" using Cons.prems row by simp
  obtain x xs where xs: "csv_row nm a b c = x # xs" by (cases "csv_row nm a b c") (auto simp: csv_row_def)
  have x: "x \<noteq> CHR 0x0A" using xs pl by (cases nm) (auto simp: csv_row_def csv_plain_def)
  have rec: "csv_record (x # xs @ ?s) = Inr ([nm, itoa a, itoa b, itoa c], ?s)"
    using csv_record_row [OF pl, of a b c ?s] xs by simp
  have "csv_records n (x # xs @ ?s) = Inr ([nm, itoa a, itoa b, itoa c] # map (\<lambda>(nm, a, b, c). [nm, itoa a, itoa b, itoa c]) rows)"
    using Cons x rec by (subst csv_records.simps) (auto simp: Cons.IH)
  then show ?case using xs row by simp
qed

lemma csv_norm_id: "CHR 0x0D \<notin> set s \<Longrightarrow> csv_norm s = s"
  by (induction s rule: csv_norm.induct) auto

lemma csv_plain_no_cr: "csv_plain s \<Longrightarrow> CHR 0x0D \<notin> set s"
  by (auto simp: csv_plain_def)

lemma csv_row_no_cr: "csv_plain nm \<Longrightarrow> CHR 0x0D \<notin> set (csv_row nm a b c)"
  by (simp add: csv_row_def csv_plain_no_cr csv_plain_itoa)

lemma csv_readAll_rows:
  assumes "\<forall>(nm, a, b, c)\<in>set rows. csv_plain nm"
  shows "csv_readAll (concat (map (\<lambda>(nm, a, b, c). csv_row nm a b c) rows)) =
    Inr (map (\<lambda>(nm, a, b, c). [nm, itoa a, itoa b, itoa c]) rows)"
proof -
  have "CHR 0x0D \<notin> set (concat (map (\<lambda>(nm, a, b, c). csv_row nm a b c) rows))"
    using assms csv_row_no_cr by fastforce
  then show ?thesis using csv_records_rows [OF assms] by (simp add: csv_readAll_def csv_norm_id)
qed

section \<open>A restart\<close>

definition stored_ok :: "container \<Rightarrow> bool" where
  "stored_ok c \<longleftrightarrow> csv_plain (name c) \<and> int64 (band c) \<and> int64 (prio c) \<and> int64 (core c) \<and>
     (\<forall>t\<in>set (tasks c). task64 t)"

text \<open>The task rows of all containers, with their owners.\<close>

definition owned_tasks :: "container list \<Rightarrow> (string \<times> task) list" where
  "owned_tasks cs = concat (map (\<lambda>c. map (\<lambda>t. (name c, t)) (tasks c)) cs)"

lemma tasks_text_rows:
  "tasks_text cs = concat (map (\<lambda>(nm, a, b, c). csv_row nm a b c) (map (\<lambda>(nm, t). (nm, Wcet t, Period t, Prio t)) (owned_tasks cs)))"
  by (induction cs) (simp_all add: tasks_text_def owned_tasks_def comp_def)

lemma task_rows_owned:
  assumes "\<forall>(nm, t)\<in>set ots. task64 t"
  shows "task_rows nm (map (\<lambda>(n, t). [n, itoa (Wcet t), itoa (Period t), itoa (Prio t)]) ots) =
    Ret (map (\<lambda>(n, t). if n = nm then t else zero_task) ots)"
  using assms by (induction ots) (auto simp: nth_field_def int_field_def atoi_itoa task64_def)

lemma read_task_data_dumped:
  assumes "\<forall>c\<in>set cs. stored_ok c"
  shows "read_task_data (tasks_text cs) nm = Ret (Inr (map (\<lambda>(n, t). if n = nm then t else zero_task) (owned_tasks cs)))"
proof -
  let ?rows = "map (\<lambda>(nm, t). (nm, Wcet t, Period t, Prio t)) (owned_tasks cs)"
  have ow: "\<forall>(n, t)\<in>set (owned_tasks cs). csv_plain n \<and> task64 t"
    using assms by (auto simp: owned_tasks_def stored_ok_def)
  then have "\<forall>(nm, a, b, c)\<in>set ?rows. csv_plain nm" by auto
  from csv_readAll_rows [OF this]
  have "csv_readAll (tasks_text cs) = Inr (map (\<lambda>(n, t). [n, itoa (Wcet t), itoa (Period t), itoa (Prio t)]) (owned_tasks cs))"
    unfolding tasks_text_rows by (simp add: comp_def case_prod_unfold)
  moreover have "\<forall>(n, t)\<in>set (owned_tasks cs). task64 t" using ow by auto
  ultimately show ?thesis using task_rows_owned by (simp add: read_task_data_def)
qed

lemma container_rows_dumped:
  assumes "\<forall>c\<in>set cs. stored_ok c" "\<And>nm. read_task_data txt nm = Ret (Inr (ts nm))"
  shows "container_rows txt (map (\<lambda>c. [name c, itoa (band c), itoa (prio c), itoa (core c)]) cs) =
    Ret (Inr (map (\<lambda>c. c\<lparr>tasks := ts (name c), period := SERVERPERIOD\<rparr>) cs))"
  using assms(1)
proof (induction cs)
  case (Cons c cs)
  then have "int64 (band c)" "int64 (prio c)" "int64 (core c)" by (simp_all add: stored_ok_def)
  with Cons assms(2) show ?case by (cases c) (simp add: nth_field_def int_field_def atoi_itoa)
qed simp

lemma read_containers_dumped:
  assumes "\<forall>c\<in>set cs. stored_ok c"
  shows "read_containers_data (containers_text cs) (tasks_text cs) =
    Ret (Inr (map (\<lambda>c. c\<lparr>tasks := map (\<lambda>(n, t). if n = name c then t else zero_task) (owned_tasks cs), period := SERVERPERIOD\<rparr>) cs))"
proof -
  let ?rows = "map (\<lambda>c. (name c, band c, prio c, core c)) cs"
  have "\<forall>(nm, a, b, c)\<in>set ?rows. csv_plain nm" using assms by (auto simp: stored_ok_def)
  from csv_readAll_rows [OF this]
  have "csv_readAll (containers_text cs) = Inr (map (\<lambda>c. [name c, itoa (band c), itoa (prio c), itoa (core c)]) cs)"
    by (simp add: containers_text_def comp_def)
  then show ?thesis
    using container_rows_dumped [OF assms read_task_data_dumped [OF assms]] by (simp add: read_containers_data_def)
qed

text \<open>
  C12: a dump into files that are not longer than the new contents is read back at the next start
  with the name, bandwidth, priority and core of every container, in order; but every container
  gets one task for each stored task of the whole node: its own tasks, and a task of zeros in the
  place of each task of another container.
\<close>

theorem dump_read_back:
  assumes "changed s" "\<forall>c\<in>set (containers s). stored_ok c"
    and "length (containersCsv f) \<le> length (containers_text (containers s))"
    and "length (tasksCsv f) \<le> length (tasks_text (containers s))"
  shows "let f' = snd (dumpState s f) in
    read_containers_data (containersCsv f') (tasksCsv f') =
      Ret (Inr (map (\<lambda>c. c\<lparr>tasks := map (\<lambda>(n, t). if n = name c then t else zero_task) (owned_tasks (containers s)),
                           period := SERVERPERIOD\<rparr>) (containers s)))"
  using assms read_containers_dumped [OF assms(2)] by (simp add: dumpState_def overwrite_def)

theorem dump_read_back_witness:
  "let s = \<lparr>containers = [\<lparr>tasks = [\<lparr>Period = 5000, Wcet = 500, Prio = 1\<rparr>], band = 11, name = ''a'', period = 2500, prio = 128, core = 0\<rparr>,
            \<lparr>tasks = [\<lparr>Period = 9000, Wcet = 300, Prio = 2\<rparr>], band = 6, name = ''b'', period = 2500, prio = 64, core = 0\<rparr>],
            m = False, changed = True\<rparr>;
       f' = snd (dumpState s \<lparr>containersCsv = [], tasksCsv = []\<rparr>)
   in read_containers_data (containersCsv f') (tasksCsv f') =
     Ret (Inr [\<lparr>tasks = [\<lparr>Period = 5000, Wcet = 500, Prio = 1\<rparr>, zero_task], band = 11, name = ''a'', period = SERVERPERIOD, prio = 128, core = 0\<rparr>,
               \<lparr>tasks = [zero_task, \<lparr>Period = 9000, Wcet = 300, Prio = 2\<rparr>], band = 6, name = ''b'', period = SERVERPERIOD, prio = 64, core = 0\<rparr>])"
  using dump_read_back [of "\<lparr>containers = [\<lparr>tasks = [\<lparr>Period = 5000, Wcet = 500, Prio = 1\<rparr>], band = 11, name = ''a'', period = 2500, prio = 128, core = 0\<rparr>,
            \<lparr>tasks = [\<lparr>Period = 9000, Wcet = 300, Prio = 2\<rparr>], band = 6, name = ''b'', period = 2500, prio = 64, core = 0\<rparr>],
            m = False, changed = True\<rparr>" "\<lparr>containersCsv = [], tasksCsv = []\<rparr>"]
  by (simp add: stored_ok_def csv_plain_def int64_def task64_def owned_tasks_def)

section \<open>Deleting a pod\<close>

lemma delete_from_overrun:
  "length cs < i + n \<Longrightarrow> 0 < n \<Longrightarrow> delete_from n i nm cs used = Panic IndexOutOfRange"
proof (induction n arbitrary: i cs used)
  case (Suc n)
  show ?case
  proof (cases "i < length cs")
    case True
    then have "0 < n" using Suc.prems(1) by linarith
    then show ?thesis using Suc True by (simp add: remove_at_def)
  qed simp
qed simp

lemma delete_from_hit:
  assumes "j < i + n" "i \<le> j" "Suc j < length cs" "i + n = length cs" "name (cs ! j) = nm"
  shows "delete_from n i nm cs used = Panic IndexOutOfRange"
  using assms
proof (induction n arbitrary: i used)
  case (Suc n)
  show ?case
  proof (cases "name (cs ! i) = nm")
    case True
    have "delete_from n (Suc i) nm (remove_at i cs) used = Panic IndexOutOfRange"
      using Suc.prems by (intro delete_from_overrun) (auto simp: remove_at_def)
    then show ?thesis using True Suc.prems by simp
  next
    case False
    then have "i \<noteq> j" using Suc.prems by auto
    then show ?thesis using Suc False by simp
  qed
qed simp

lemma delete_from_miss:
  assumes "i + n = length cs" "\<forall>c\<in>set (drop i cs). name c \<noteq> nm"
  shows "delete_from n i nm cs used = go_bind (bandwidths_from (drop i cs) used) (\<lambda>u. Ret (u, cs))"
  using assms
proof (induction n arbitrary: i used)
  case (Suc n)
  then have d: "drop i cs = cs ! i # drop (Suc i) cs" by (simp add: Cons_nth_drop_Suc)
  show ?case using Suc by (simp add: d)
qed simp

lemma delete_from_last:
  assumes "i + n = length cs" "0 < n" "\<forall>c\<in>set (drop i (butlast cs)). name c \<noteq> nm" "name (last cs) = nm"
  shows "delete_from n i nm cs used = go_bind (bandwidths_from (drop i (butlast cs)) used) (\<lambda>u. Ret (u, butlast cs))"
  using assms
proof (induction n arbitrary: i used)
  case (Suc n)
  have ne: "cs \<noteq> []" using Suc.prems by auto
  show ?case
  proof (cases "n = 0")
    case True
    then have i: "i = length cs - 1" using Suc.prems by simp
    have "cs ! i = last cs" using i ne by (simp add: last_conv_nth)
    moreover have "remove_at i cs = butlast cs" using i ne by (simp add: remove_at_def butlast_list_update)
    ultimately show ?thesis using True i Suc.prems ne by simp
  next
    case False
    then have il: "i < length (butlast cs)" using Suc.prems by simp
    have d: "drop i (butlast cs) = cs ! i # drop (Suc i) (butlast cs)"
      using il by (metis Cons_nth_drop_Suc nth_butlast)
    show ?thesis using Suc False il by (simp add: d)
  qed
qed simp

text \<open>
  The deletion of a pod panics, with the mutex held, whenever a container of that name is
  stored anywhere but at the end: the loop counts the containers before it removes one. Otherwise,
  with every core in range, it removes the container, if it is there, and returns the bandwidths
  that the others use.
\<close>

theorem deletePod_only_last:
  "((\<exists>c\<in>set (butlast (containers s)). name c = nm) \<longrightarrow> deletePod N nm s = Panic IndexOutOfRange) \<and>
   (\<not> (\<exists>c\<in>set (butlast (containers s)). name c = nm) \<longrightarrow>
      deletePod N nm s = go_bind (getBandwidths N (filter (\<lambda>c. name c \<noteq> nm) (containers s)))
        (\<lambda>used. Ret (used, s\<lparr>containers := filter (\<lambda>c. name c \<noteq> nm) (containers s)\<rparr>)))"
proof -
  let ?cs = "containers s"
  have hit: "deletePod N nm s = Panic IndexOutOfRange" if ex: "\<exists>c\<in>set (butlast ?cs). name c = nm"
  proof -
    obtain j where "j < length (butlast ?cs)" "name (butlast ?cs ! j) = nm" using ex by (auto simp: in_set_conv_nth)
    then have "Suc j < length ?cs" "name (?cs ! j) = nm" by (auto simp: nth_butlast)
    then have "delete_from (length ?cs) 0 nm ?cs (replicate N 0) = Panic IndexOutOfRange"
      by (intro delete_from_hit [of j]) auto
    then show ?thesis by (simp add: deletePod_def)
  qed
  have miss: "deletePod N nm s = go_bind (getBandwidths N (filter (\<lambda>c. name c \<noteq> nm) ?cs))
      (\<lambda>used. Ret (used, s\<lparr>containers := filter (\<lambda>c. name c \<noteq> nm) ?cs\<rparr>))" if no: "\<forall>c\<in>set (butlast ?cs). name c \<noteq> nm"
  proof (cases "?cs \<noteq> [] \<and> name (last ?cs) = nm")
    case True
    then have "?cs = butlast ?cs @ [last ?cs]" by simp
    then have "filter (\<lambda>c. name c \<noteq> nm) ?cs = filter (\<lambda>c. name c \<noteq> nm) (butlast ?cs) @ []"
      using True by (metis (mono_tags) filter.simps filter_append)
    then have f: "filter (\<lambda>c. name c \<noteq> nm) ?cs = butlast ?cs" using no by (simp add: filter_True)
    show ?thesis using delete_from_last [of 0 "length ?cs" ?cs nm "replicate N 0"] True no
      by (cases "bandwidths_from (butlast ?cs) (replicate N 0)") (simp_all add: deletePod_def getBandwidths_def f)
  next
    case False
    then have all: "\<forall>c\<in>set ?cs. name c \<noteq> nm" using no by (cases ?cs rule: rev_cases) auto
    show ?thesis using delete_from_miss [of 0 "length ?cs" ?cs nm "replicate N 0"] all
      by (cases "bandwidths_from ?cs (replicate N 0)") (simp_all add: deletePod_def getBandwidths_def filter_True)
  qed
  show ?thesis using hit miss by blast
qed

theorem deletePod_only_last_witness:
  "deletePod 1 ''a'' \<lparr>containers = [\<lparr>tasks = [], band = 11, name = ''a'', period = 2500, prio = 128, core = 0\<rparr>,
       \<lparr>tasks = [], band = 6, name = ''b'', period = 2500, prio = 64, core = 0\<rparr>], m = True, changed = False\<rparr> = Panic IndexOutOfRange"
  using deletePod_only_last [of "\<lparr>containers = [\<lparr>tasks = [], band = 11, name = ''a'', period = 2500, prio = 128, core = 0\<rparr>,
       \<lparr>tasks = [], band = 6, name = ''b'', period = 2500, prio = 64, core = 0\<rparr>], m = True, changed = False\<rparr>" "''a''" 1]
  by simp

end
