(* ===== verification/Rubicante_Http_Props.thy ===== *)
theory Rubicante_Http_Props
  imports Rubicante_Http
begin

text \<open>Properties of the daemon's REST handlers.\<close>

lemma sortTasks_facts [simp]:
  "Tasks (sortTasks r) = [] \<longleftrightarrow> Tasks r = []" "tasks_ok (Tasks (sortTasks r)) \<longleftrightarrow> tasks_ok (Tasks r)"
proof -
  show "Tasks (sortTasks r) = [] \<longleftrightarrow> Tasks r = []"
    using sliceStable_length [of Prio "Tasks r"] by (simp add: sortTasks_def flip: length_0_conv del: sliceStable_length)
  show "tasks_ok (Tasks (sortTasks r)) \<longleftrightarrow> tasks_ok (Tasks r)" by (simp add: sortTasks_def tasks_ok_def)
qed

lemma wire_request_tasks [simp]: "Tasks (wire_request r) = Tasks r"
  by (simp add: wire_request_def)

lemma sortTasks_wire [simp]: "Tasks (sortTasks (wire_request r)) = Tasks (sortTasks r)"
  by (simp add: sortTasks_def)

text \<open>
  C13: Let the node be in order with fewer than 1000 containers and its mutex free, and let a request
  have at least one and at most 1000 tasks in range whose computed priority no container of the node
  has. Then the request is answered, by either handler: the reply is the JSON text of the test's
  result, which both handlers compute on the same tasks sorted by priority, the mutex is released,
  and no core is overbooked. The condition on the priority is not checked by the code and does not
  always hold, since every request with the shortest period so far gets the same priority.
\<close>

theorem handlers_reply:
  assumes "node_ok N (containers s)" "length (containers s) < 1000" "\<not> m s"
    and "request64 r" "Tasks r \<noteq> []" "tasks_ok (Tasks r)"
    and "setPrio (Tasks (sortTasks r)) (containers s) = Ret (p, cs)" "p \<notin> prio ` set (containers s)"
  shows "(\<exists>res used s'. schedTest N (sortTasks (wire_request r)) False (s\<lparr>m := True\<rparr>) = Ret (res, used, s') \<and>
      SchedulabilityTest errText N (jprint (enc_request r)) (Up s) =
        (Replied (jprint (enc_schedResponse \<lparr>SchedRes = Some res, Status = used\<rparr>)), Up (s'\<lparr>m := False\<rparr>)) \<and> bands_ok (containers s')) \<and>
    (\<exists>res used s'. schedTest N (sortTasks (wire_request r)) True (s\<lparr>m := True\<rparr>) = Ret (res, used, s') \<and>
      PodBind errText N (jprint (enc_request r)) (Up s) =
        (Replied (jprint (enc_bindResponse \<lparr>Result = Some res, TGID = (if Schedulable res then allocateResources res else 0)\<rparr>)),
         Up (s'\<lparr>m := False\<rparr>)) \<and> bands_ok (containers s'))"
proof -
  note trip = request_codec.round_trip [OF assms(4)]
  let ?r = "wire_request r"
  have ret: "\<exists>res used s'. schedTest N (sortTasks ?r) pers (s\<lparr>m := True\<rparr>) = Ret (res, used, s') \<and> bands_ok (containers s')" for pers
    using assms by (intro schedTest_node_ok [where p = p and cs = cs]) simp_all
  obtain res used s' where 1: "schedTest N (sortTasks ?r) False (s\<lparr>m := True\<rparr>) = Ret (res, used, s')" "bands_ok (containers s')"
    using ret by blast
  obtain res2 used2 s2 where 2: "schedTest N (sortTasks ?r) True (s\<lparr>m := True\<rparr>) = Ret (res2, used2, s2)" "bands_ok (containers s2)"
    using ret by blast
  have "SchedulabilityTest errText N (jprint (enc_request r)) (Up s) =
      (Replied (jprint (enc_schedResponse \<lparr>SchedRes = Some res, Status = used\<rparr>)), Up (s'\<lparr>m := False\<rparr>))"
    using lockedTest_Ret [OF assms(3) 1(1)] trip by (simp add: SchedulabilityTest_def)
  moreover have "PodBind errText N (jprint (enc_request r)) (Up s) =
      (Replied (jprint (enc_bindResponse \<lparr>Result = Some res2, TGID = (if Schedulable res2 then allocateResources res2 else 0)\<rparr>)), Up (s2\<lparr>m := False\<rparr>))"
    using lockedTest_Ret [OF assms(3) 2(1)] trip by (simp add: PodBind_def)
  ultimately show ?thesis using 1 2 by blast
qed

theorem handlers_reply_witness:
  "\<exists>res used s'. SchedulabilityTest (\<lambda>_. '''') 1
      (jprint (enc_request \<lparr>Tasks = [\<lparr>Period = 5000, Wcet = 500, Prio = 1\<rparr>], Name = ''b'', Criticality = ''HI''\<rparr>))
      (Up \<lparr>containers = [], m = False, changed = False\<rparr>) =
    (Replied (jprint (enc_schedResponse \<lparr>SchedRes = Some res, Status = used\<rparr>)), Up (s'\<lparr>m := False\<rparr>)) \<and> bands_ok (containers s')"
  using handlers_reply [of 1 "\<lparr>containers = [], m = False, changed = False\<rparr>"
      "\<lparr>Tasks = [\<lparr>Period = 5000, Wcet = 500, Prio = 1\<rparr>], Name = ''b'', Criticality = ''HI''\<rparr>" 128 "[]" "\<lambda>_. ''''"]
  by (auto simp add: node_ok_def core_total_def core_list_def request64_def task64_def int64_def tasks_ok_def task_ok_def
      sortTasks_def setPrio_def getMinPeriod_def sliceStable_def simp del: jprint.simps)

text \<open>
  One request without tasks disables the daemon: the handler panics inside the test while it
  holds the mutex, its client's connection is closed, and from then on no well-formed request is
  ever answered.
\<close>

theorem empty_request_locks_daemon:
  assumes "\<not> m s" "Tasks r = []" "request64 r2"
  shows "SchedulabilityTest errText N (jprint (enc_request r)) (Up s) = (Dropped, Locked) \<and>
    SchedulabilityTest errText N (jprint (enc_request r2)) Locked = (Hung, Locked) \<and>
    PodBind errText N (jprint (enc_request r2)) Locked = (Hung, Locked)"
proof -
  have "request64 r" using assms(2) by (simp add: request64_def)
  note trip = request_codec.round_trip [OF this] request_codec.round_trip [OF assms(3)]
  have "setPrio (Tasks (sortTasks (wire_request r))) (containers s) = Panic IndexOutOfRange"
    using assms(2) by (simp add: setPrio_Panic)
  then have "schedTest N (sortTasks (wire_request r)) False (s\<lparr>m := True\<rparr>) = Panic IndexOutOfRange" by (simp add: schedTest_def)
  with trip assms(1) show ?thesis by (simp add: SchedulabilityTest_def PodBind_def lockedTest_def)
qed

theorem empty_request_locks_daemon_witness:
  "SchedulabilityTest (\<lambda>_. '''') 4 (jprint (enc_request \<lparr>Tasks = [], Name = ''p'', Criticality = ''HI''\<rparr>))
      (Up \<lparr>containers = [], m = False, changed = False\<rparr>) = (Dropped, Locked)"
  using empty_request_locks_daemon [of "\<lparr>containers = [], m = False, changed = False\<rparr>"
      "\<lparr>Tasks = [], Name = ''p'', Criticality = ''HI''\<rparr>" "\<lparr>Tasks = [], Name = ''p'', Criticality = ''HI''\<rparr>" "\<lambda>_. ''''" 4]
  by (simp add: request64_def del: jprint.simps)

end
