(* ===== verification/K8s_Framework.thy ===== *)
theory K8s_Framework
  imports Go_Strings
begin

text \<open>
  The vocabulary the plugins share with the scheduling framework
  (\<open>pkg/scheduler/framework/interface.go\<close>): status codes, statuses and their merging, node
  scores, and what the plugins read and write of a pod.
\<close>

section \<open>Pods\<close>

text \<open>
  Maps of the API are nil (\<open>None\<close>) or hold entries. Reading a nil map finds nothing, writing to
  it panics. \<open>podEnv\<close> holds the environment variables of each container of the pod.
\<close>

type_synonym gomap = "(string \<rightharpoonup> string) option"

definition gomap_get :: "gomap \<Rightarrow> string \<Rightarrow> string option" where
  "gomap_get m k = (case m of None \<Rightarrow> None | Some f \<Rightarrow> f k)"

definition gomap_put :: "string \<Rightarrow> string \<Rightarrow> gomap \<Rightarrow> gomap go" where
  "gomap_put k v m = (case m of None \<Rightarrow> Panic NilMapWrite | Some f \<Rightarrow> Ret (Some (f(k \<mapsto> v))))"

record pod =
  podName :: string
  labels :: gomap
  annotations :: gomap
  podEnv :: "(string \<times> string) list list"

text \<open>
  A POST over HTTP, for the plugins that call a daemon: from the address, the body and the state
  of the world, the text of an error or the body of the response, and the world afterwards.
\<close>

type_synonym 'w http = "string \<Rightarrow> string \<Rightarrow> 'w \<Rightarrow> (string + string) \<times> 'w"

section \<open>Statuses\<close>

datatype code = Success | ErrorCode | Unschedulable | UnschedulableAndUnresolvable | Wait | Skip

definition statusPrecedence :: "code \<Rightarrow> int" where
  "statusPrecedence c = (case c of ErrorCode \<Rightarrow> 3 | UnschedulableAndUnresolvable \<Rightarrow> 2
     | Unschedulable \<Rightarrow> 1 | Success \<Rightarrow> -1 | _ \<Rightarrow> 0)"

definition MaxNodeScore :: int where "MaxNodeScore = 100"
definition MinNodeScore :: int where "MinNodeScore = 0"

record status =
  scode :: code
  reasons :: "string list"
  err :: "string option"
  failedPlugin :: string

text \<open>A pointer to a status; nil counts as success.\<close>

type_synonym statusp = "status option"

definition Code :: "statusp \<Rightarrow> code" where
  "Code s = (case s of None \<Rightarrow> Success | Some st \<Rightarrow> scode st)"

fun join :: "string \<Rightarrow> string list \<Rightarrow> string" where
  "join sep [] = []"
| "join sep [x] = x"
| "join sep (x # y # xs) = x @ sep @ join sep (y # xs)"

definition Message :: "statusp \<Rightarrow> string" where
  "Message s = (case s of None \<Rightarrow> [] | Some st \<Rightarrow> join '', '' (reasons st))"

definition IsSuccess :: "statusp \<Rightarrow> bool" where
  "IsSuccess s \<longleftrightarrow> Code s = Success"

definition IsUnschedulable :: "statusp \<Rightarrow> bool" where
  "IsUnschedulable s \<longleftrightarrow> Code s = Unschedulable \<or> Code s = UnschedulableAndUnresolvable"

definition AsError :: "statusp \<Rightarrow> string option" where
  "AsError s = (if IsSuccess s then None
     else case s of None \<Rightarrow> None | Some st \<Rightarrow> (case err st of Some e \<Rightarrow> Some e | None \<Rightarrow> Some (Message s)))"

definition NewStatus :: "code \<Rightarrow> string list \<Rightarrow> statusp" where
  "NewStatus c rs = Some \<lparr>scode = c, reasons = rs,
     err = (if c = ErrorCode then Some (join '', '' rs) else None), failedPlugin = []\<rparr>"

definition AsStatus :: "string \<Rightarrow> statusp" where
  "AsStatus e = Some \<lparr>scode = ErrorCode, reasons = [e], err = Some e, failedPlugin = []\<rparr>"

definition WithFailedPlugin :: "string \<Rightarrow> statusp \<Rightarrow> statusp go" where
  "WithFailedPlugin pl s = (case s of None \<Rightarrow> Panic NilDereference | Some st \<Rightarrow> Ret (Some (st\<lparr>failedPlugin := pl\<rparr>)))"

text \<open>
  \<open>PluginToStatus.Merge\<close>. A Go map is visited in no particular order: the model takes the
  statuses in the order of the visit. A nil entry panics where its reasons are read.
\<close>

fun merge_from :: "status \<Rightarrow> statusp list \<Rightarrow> status go" where
  "merge_from final [] = Ret final"
| "merge_from final (s # ss) =
     (let f1 = (if Code s = ErrorCode then final\<lparr>err := AsError s\<rparr> else final)
      in case s of
          None \<Rightarrow> Panic NilDereference
        | Some st \<Rightarrow>
            (let f2 = (if statusPrecedence (Code s) > statusPrecedence (scode f1)
                       then f1\<lparr>scode := Code s, failedPlugin := failedPlugin st\<rparr> else f1)
             in merge_from (f2\<lparr>reasons := reasons f2 @ reasons st\<rparr>) ss))"

definition Merge :: "statusp list \<Rightarrow> statusp go" where
  "Merge p = (if p = [] then Ret None
     else case merge_from \<lparr>scode = Success, reasons = [], err = None, failedPlugin = []\<rparr> p of
         Ret st \<Rightarrow> Ret (Some st) | Panic e \<Rightarrow> Panic e | Diverge \<Rightarrow> Diverge)"

section \<open>Merging keeps the status of highest precedence\<close>

lemma merge_from_props:
  assumes "\<forall>s\<in>set ss. s \<noteq> None"
  shows "\<exists>st. merge_from f ss = Ret st \<and>
    statusPrecedence (scode st) = Max (insert (statusPrecedence (scode f)) ((\<lambda>s. statusPrecedence (Code s)) ` set ss)) \<and>
    reasons st = reasons f @ concat (map (\<lambda>s. reasons (the s)) ss) \<and>
    (err st \<noteq> None \<longleftrightarrow> err f \<noteq> None \<or> (\<exists>s\<in>set ss. Code s = ErrorCode))"
  using assms
proof (induction ss arbitrary: f)
  case (Cons s ss)
  then obtain x where s: "s = Some x" by auto
  define f1 where "f1 = (if Code s = ErrorCode then f\<lparr>err := AsError s\<rparr> else f)"
  define f2 where "f2 = (if statusPrecedence (Code s) > statusPrecedence (scode f1)
    then f1\<lparr>scode := Code s, failedPlugin := failedPlugin x\<rparr> else f1)"
  have e: "err f2 \<noteq> None \<longleftrightarrow> err f \<noteq> None \<or> Code s = ErrorCode"
    by (auto simp: f2_def f1_def AsError_def IsSuccess_def s split: option.splits)
  have p: "statusPrecedence (scode f2) = max (statusPrecedence (scode f)) (statusPrecedence (Code s))"
    by (auto simp: f2_def f1_def max_def)
  have r: "reasons f2 = reasons f" by (simp add: f2_def f1_def)
  have step: "merge_from f (s # ss) = merge_from (f2\<lparr>reasons := reasons f2 @ reasons x\<rparr>) ss"
    by (simp add: s f2_def f1_def Let_def)
  obtain st where "merge_from (f2\<lparr>reasons := reasons f2 @ reasons x\<rparr>) ss = Ret st"
    "statusPrecedence (scode st) = Max (insert (statusPrecedence (scode f2)) ((\<lambda>s. statusPrecedence (Code s)) ` set ss))"
    "reasons st = reasons f2 @ reasons x @ concat (map (\<lambda>s. reasons (the s)) ss)"
    "err st \<noteq> None \<longleftrightarrow> err f2 \<noteq> None \<or> (\<exists>s\<in>set ss. Code s = ErrorCode)"
    using Cons.IH [of "f2\<lparr>reasons := reasons f2 @ reasons x\<rparr>"] Cons.prems by auto
  moreover have "Max (insert (max a b) A) = Max (insert a (insert b A))" if "finite A" for a b :: int and A
    using that by (cases "A = {}") (simp_all add: max.assoc)
  ultimately show ?case using step e p r by (auto simp: s)
qed auto

text \<open>
  Merging the statuses of several plugins gives, in whatever order the map is visited, a code
  of the highest precedence among them (error, then unresolvable, then unschedulable), all their
  reasons, and an error exactly when one of them has the error code.
\<close>

theorem Merge_precedence:
  assumes "p \<noteq> []" "\<forall>s\<in>set p. s \<noteq> None"
  shows "\<exists>st. Merge p = Ret (Some st) \<and>
    statusPrecedence (scode st) = Max ((\<lambda>s. statusPrecedence (Code s)) ` set p) \<and>
    reasons st = concat (map (\<lambda>s. reasons (the s)) p) \<and>
    (err st \<noteq> None \<longleftrightarrow> (\<exists>s\<in>set p. Code s = ErrorCode))"
proof -
  let ?z = "\<lparr>scode = Success, reasons = [], err = None, failedPlugin = []\<rparr>"
  let ?S = "(\<lambda>s. statusPrecedence (Code s)) ` set p"
  obtain st where st: "merge_from ?z p = Ret st"
    "statusPrecedence (scode st) = Max (insert (statusPrecedence Success) ?S)"
    "reasons st = concat (map (\<lambda>s. reasons (the s)) p)" "err st \<noteq> None \<longleftrightarrow> (\<exists>s\<in>set p. Code s = ErrorCode)"
    using merge_from_props [OF assms(2), of ?z] by auto
  obtain s where s: "s \<in> set p" using assms(1) by (cases p) auto
  have "statusPrecedence Success \<le> statusPrecedence (Code s)" by (auto simp: statusPrecedence_def split: code.splits)
  also have "\<dots> \<le> Max ?S" using s by (intro Max_ge) auto
  finally have "Max (insert (statusPrecedence Success) ?S) = Max ?S" using s by (subst Max_insert) auto
  with st assms show ?thesis by (simp add: Merge_def)
qed

theorem Merge_precedence_witness:
  "\<exists>st. Merge [NewStatus Unschedulable [''a''], NewStatus ErrorCode [''b'', ''c''], NewStatus Wait []] = Ret (Some st) \<and>
     statusPrecedence (scode st) = 3 \<and> reasons st = [''a'', ''b'', ''c''] \<and> err st \<noteq> None"
  using Merge_precedence [of "[NewStatus Unschedulable [''a''], NewStatus ErrorCode [''b'', ''c''], NewStatus Wait []]"]
  by (simp add: NewStatus_def Code_def statusPrecedence_def)

end
