(* ===== verification/Tdma.thy ===== *)
theory Tdma
  imports K8s_Framework Go_Json
begin

text \<open>
  The TDMA scheduling plugin (\<open>plugins/tdmascheduling/TDMA.go\<close>): it keeps the slices of the
  network's major cycle and reserves one for every pod that asks for it, telling the master node
  over HTTP. The network is a parameter: \<open>post url body w\<close> returns the text of an error or the
  body of the response, and the state of the rest of the world after the exchange.
\<close>

section \<open>Data\<close>

record slice =
  Begin :: int
  End :: int
  PodName :: string
  NodeName :: string

record req =
  Length :: int
  Cycle :: int

record tdma =
  slices :: "slice list"
  majorcycle :: int
  master :: string
  port :: int

text \<open>The arguments of the plugin; \<open>OtherArgs\<close> stands for arguments of another type.\<close>

record tdmaArgs =
  Master :: string
  aCycle :: int
  Port :: int

datatype plgArgs = NilArgs | TDMAschedulingArgs tdmaArgs | OtherArgs

definition New :: "plgArgs \<Rightarrow> tdma option" where
  "New plgargs =
     (let mk = (\<lambda>ma cy po. Some \<lparr>slices = [\<lparr>Begin = 0, End = 100, PodName = [], NodeName = []\<rparr>],
                  majorcycle = cy, master = ma, port = po\<rparr>)
      in case plgargs of
          NilArgs \<Rightarrow> mk ''192.168.1.1'' 5000 8889
        | OtherArgs \<Rightarrow> None
        | TDMAschedulingArgs a \<Rightarrow>
            mk (if Master a \<noteq> [] then Master a else ''192.168.1.1'') (if aCycle a \<noteq> 0 then aCycle a else 5000)
               (if Port a \<noteq> 0 then Port a else 8889))"

section \<open>The request in the pod's annotation\<close>

definition req_field :: "string \<Rightarrow> json \<Rightarrow> req \<Rightarrow> req \<times> bool" where
  "req_field f v r = (if f = ''Length'' then (let (i, e) = dec_int v (Length r) in (r\<lparr>Length := i\<rparr>, e))
     else (let (i, e) = dec_int v (Cycle r) in (r\<lparr>Cycle := i\<rparr>, e)))"

definition dec_req :: "json \<Rightarrow> req \<Rightarrow> req \<times> bool" where
  "dec_req = dec_struct req_field [''Length'', ''Cycle'']"

text \<open>
  The first part of \<open>PreFilter\<close> and \<open>Reserve\<close>: nothing to do, a status for a missing or bad
  annotation, or the length that is asked for. \<open>errText\<close> is the text of a JSON error.
\<close>

datatype ask = NoTDMA | Bad statusp | Ask int

definition tdma_ask :: "(json_error \<Rightarrow> string) \<Rightarrow> pod \<Rightarrow> ask" where
  "tdma_ask errText pod =
     (case gomap_get (labels pod) ''Network'' of
        None \<Rightarrow> NoTDMA
      | Some net \<Rightarrow>
          if net = ''TDMA''
          then (case gomap_get (annotations pod) ''TDMA'' of
                  None \<Rightarrow> Bad (NewStatus UnschedulableAndUnresolvable [''Network constraint, but requirements unspecified''])
                | Some reqj \<Rightarrow>
                    (case unmarshal dec_req reqj \<lparr>Length = 0, Cycle = 0\<rparr> of
                       (r, Some e) \<Rightarrow> Bad (NewStatus UnschedulableAndUnresolvable [''Bad TDMA specification, '' @ errText e])
                     | (r, None) \<Rightarrow> Ask (Length r)))
          else NoTDMA)"

section \<open>PreFilter\<close>

definition gap_fits :: "int \<Rightarrow> slice \<Rightarrow> slice \<Rightarrow> bool" where
  "gap_fits L a b \<longleftrightarrow> wrap64 (Begin b - End a) > wrap64 (L + 20)"

definition end_fits :: "int \<Rightarrow> int \<Rightarrow> slice \<Rightarrow> bool" where
  "end_fits L cyc a \<longleftrightarrow> End a < wrap64 (wrap64 (cyc - L) - 20)"

fun some_gap :: "int \<Rightarrow> slice list \<Rightarrow> bool" where
  "some_gap L (a # b # ss) \<longleftrightarrow> gap_fits L a b \<or> some_gap L (b # ss)"
| "some_gap L _ \<longleftrightarrow> False"

definition cannot :: statusp where
  "cannot = NewStatus UnschedulableAndUnresolvable [''TDMA request cannot be satisfied'']"

definition PreFilter :: "(json_error \<Rightarrow> string) \<Rightarrow> tdma \<Rightarrow> pod \<Rightarrow> statusp go" where
  "PreFilter errText pl pod = (case tdma_ask errText pod of
      NoTDMA \<Rightarrow> Ret None
    | Bad st \<Rightarrow> Ret st
    | Ask L \<Rightarrow> if some_gap L (slices pl) then Ret None
               else if slices pl = [] then Panic IndexOutOfRange
               else if end_fits L (majorcycle pl) (last (slices pl)) then Ret None
               else Ret cannot)"

section \<open>The exchange with the master\<close>

definition enc_slice :: "slice \<Rightarrow> json" where
  "enc_slice s = JObj [(''Begin'', enc_int (Begin s)), (''End'', enc_int (End s)),
     (''PodName'', JStr (PodName s)), (''NodeName'', JStr (NodeName s))]"

text \<open>\<open>reserveSlot\<close> and \<open>unreserveSlot\<close>: they differ in the path only.\<close>

definition slotCall :: "'w http \<Rightarrow> string \<Rightarrow> tdma \<Rightarrow> slice \<Rightarrow> 'w \<Rightarrow> statusp \<times> 'w" where
  "slotCall post path pl s w =
     (case post (trimSpace (''http://'' @ master pl @ '':'' @ itoa (port pl) @ path)) (jprint (enc_slice s)) w of
        (Inl e, w') \<Rightarrow> (NewStatus UnschedulableAndUnresolvable [e], w')
      | (Inr body, w') \<Rightarrow> (if body = ''OK'' then None else NewStatus UnschedulableAndUnresolvable [body], w'))"

definition reserveSlot :: "'w http \<Rightarrow> tdma \<Rightarrow> slice \<Rightarrow> 'w \<Rightarrow> statusp \<times> 'w" where
  "reserveSlot post = slotCall post ''/TDMAsched''"

definition unreserveSlot :: "'w http \<Rightarrow> tdma \<Rightarrow> slice \<Rightarrow> 'w \<Rightarrow> statusp \<times> 'w" where
  "unreserveSlot post = slotCall post ''/TDMAremove''"

section \<open>Reserve\<close>

definition new_slice :: "slice \<Rightarrow> int \<Rightarrow> string \<Rightarrow> string \<Rightarrow> slice" where
  "new_slice a L pn nn = \<lparr>Begin = wrap64 (End a + 10), End = wrap64 (wrap64 (End a + 10) + L), PodName = pn, NodeName = nn\<rparr>"

text \<open>
  The loop over the gaps. It goes on after an allocation, and the bound grows with the slices, so
  it need not end. The result is the status of a refusal by the master, the slices, the world and
  the flag \<open>scheduled\<close>.
\<close>

partial_function (option) reserve_loop ::
  "(slice \<Rightarrow> 'w \<Rightarrow> statusp \<times> 'w) \<Rightarrow> int \<Rightarrow> string \<Rightarrow> string \<Rightarrow> nat \<Rightarrow> slice list \<Rightarrow> 'w \<Rightarrow> bool
     \<Rightarrow> (statusp \<times> slice list \<times> 'w \<times> bool) option" where
  "reserve_loop call L pn nn i sl w scheduled =
     (if i + 1 < length sl
      then (if gap_fits L (sl ! i) (sl ! (i + 1))
            then (case call (new_slice (sl ! i) L pn nn) w of
                    (Some e, w') \<Rightarrow> Some (Some e, sl, w', scheduled)
                  | (None, w') \<Rightarrow> reserve_loop call L pn nn (i + 1)
                                    (sliceStable Begin (sl @ [new_slice (sl ! i) L pn nn])) w' True)
            else reserve_loop call L pn nn (i + 1) sl w scheduled)
      else Some (None, sl, w, scheduled))"

declare reserve_loop.simps [code]

definition Reserve :: "(json_error \<Rightarrow> string) \<Rightarrow> 'w http \<Rightarrow> pod \<Rightarrow> string \<Rightarrow> tdma \<Rightarrow> 'w \<Rightarrow> (statusp \<times> tdma \<times> 'w) go" where
  "Reserve errText post pod nodeName pl w = (case tdma_ask errText pod of
      NoTDMA \<Rightarrow> Ret (None, pl, w)
    | Bad st \<Rightarrow> Ret (st, pl, w)
    | Ask L \<Rightarrow>
        go_bind (go_of_option (reserve_loop (reserveSlot post pl) L (podName pod) nodeName 0 (slices pl) w False))
          (\<lambda>(st, sl, w', scheduled).
             if st \<noteq> None then Ret (st, pl\<lparr>slices := sl\<rparr>, w')
             else if scheduled then Ret (None, pl\<lparr>slices := sl\<rparr>, w')
             else if sl = [] then Panic IndexOutOfRange
             else if end_fits L (majorcycle pl) (last sl)
             then (let snew = new_slice (last sl) L (podName pod) nodeName
                   in case reserveSlot post pl snew w' of
                       (Some e, w2) \<Rightarrow> Ret (Some e, pl\<lparr>slices := sl\<rparr>, w2)
                     | (None, w2) \<Rightarrow> Ret (None, pl\<lparr>slices := sl @ [snew]\<rparr>, w2))
             else Ret (cannot, pl\<lparr>slices := sl\<rparr>, w')))"

section \<open>Unreserve and the deletion of a pod\<close>

text \<open>
  The removal shifts the slices down before the master is told, so the slice sent is the one that
  follows the removed one; the bound excludes the last slice.
\<close>

function unreserve_loop :: "(slice \<Rightarrow> 'w \<Rightarrow> statusp \<times> 'w) \<Rightarrow> string \<Rightarrow> nat \<Rightarrow> slice list \<Rightarrow> 'w \<Rightarrow> slice list \<times> 'w" where
  "unreserve_loop call pn i sl w =
     (if i + 1 < length sl
      then (if PodName (sl ! i) = pn
            then (let sl' = slice_remove i sl
                  in case call (sl' ! i) w of
                      (Some e, w') \<Rightarrow> (sl', w')
                    | (None, w') \<Rightarrow> unreserve_loop call pn (i + 1) sl' w')
            else unreserve_loop call pn (i + 1) sl w)
      else (sl, w))"
  by pat_completeness auto
termination
  by (relation "measure (\<lambda>(_, _, i, sl, _). length sl - i)") (auto simp: slice_remove_def)

declare unreserve_loop.simps [simp del]

definition Unreserve :: "'w http \<Rightarrow> pod \<Rightarrow> string \<Rightarrow> tdma \<Rightarrow> 'w \<Rightarrow> tdma \<times> 'w" where
  "Unreserve post pod nodeName pl w =
     (if gomap_get (labels pod) ''Network'' = Some ''TDMA''
      then (let (sl, w') = unreserve_loop (unreserveSlot post pl) (podName pod) 0 (slices pl) w
            in (pl\<lparr>slices := sl\<rparr>, w'))
      else (pl, w))"

text \<open>\<open>podDelete\<close> of the watcher: after a removal the index still advances.\<close>

function delete_loop :: "(slice \<Rightarrow> 'w \<Rightarrow> statusp \<times> 'w) \<Rightarrow> string \<Rightarrow> nat \<Rightarrow> slice list \<Rightarrow> 'w \<Rightarrow> slice list \<times> 'w" where
  "delete_loop call pn i sl w =
     (if i < length sl
      then (if PodName (sl ! i) = pn
            then (let (st, w') = call (sl ! i) w
                  in delete_loop call pn (i + 1) (if i = length sl - 1 then take i sl else slice_remove i sl) w')
            else delete_loop call pn (i + 1) sl w)
      else (sl, w))"
  by pat_completeness auto
termination
  by (relation "measure (\<lambda>(_, _, i, sl, _). length sl - i)") (auto simp: slice_remove_def)

declare delete_loop.simps [simp del]

definition podDelete :: "'w http \<Rightarrow> pod \<Rightarrow> tdma \<Rightarrow> 'w \<Rightarrow> tdma \<times> 'w" where
  "podDelete post pod pl w =
     (if gomap_get (labels pod) ''Network'' = Some ''TDMA''
      then (let (sl, w') = delete_loop (unreserveSlot post pl) (podName pod) 0 (slices pl) w
            in (pl\<lparr>slices := sl\<rparr>, w'))
      else (pl, w))"

end
