(* ===== verification/Scarmiglione.thy ===== *)
theory Scarmiglione
  imports Tdma
begin

text \<open>
  The daemon on the TDMA master node (\<open>src/scarmiglione/routers.go\<close>): its two handlers decode
  the slice and answer; the call of the TDMA configuration is still a comment in the code. The
  messages of the plugin are read back by the daemon as they were sent.
\<close>

definition zero_slice :: slice where
  "zero_slice = \<lparr>Begin = 0, End = 0, PodName = [], NodeName = []\<rparr>"

definition slot_field :: "string \<Rightarrow> json \<Rightarrow> slice \<Rightarrow> slice \<times> bool" where
  "slot_field f v s =
     (if f = ''Begin'' then (let (i, e) = dec_int v (Begin s) in (s\<lparr>Begin := i\<rparr>, e))
      else if f = ''End'' then (let (i, e) = dec_int v (End s) in (s\<lparr>End := i\<rparr>, e))
      else if f = ''PodName'' then (let (t, e) = dec_str v (PodName s) in (s\<lparr>PodName := t\<rparr>, e))
      else (let (t, e) = dec_str v (NodeName s) in (s\<lparr>NodeName := t\<rparr>, e)))"

definition dec_slot :: "json \<Rightarrow> slice \<Rightarrow> slice \<times> bool" where
  "dec_slot = dec_struct slot_field [''Begin'', ''End'', ''PodName'', ''NodeName'']"

definition TDMAsched :: "string \<Rightarrow> string" where
  "TDMAsched body = (case unmarshal dec_slot body zero_slice of (_, None) \<Rightarrow> ''OK'' | (_, Some _) \<Rightarrow> ''Bad parsing'')"

definition TDMAremove :: "string \<Rightarrow> string" where
  "TDMAremove body = (case unmarshal dec_slot body zero_slice of (_, None) \<Rightarrow> ''OK'' | (_, Some _) \<Rightarrow> ''Bad parsing'')"

text \<open>What the daemon reads of a slice: \<open>encoding/json\<close> replaces the bytes of a name that are not valid UTF-8.\<close>

definition wire_slice :: "slice \<Rightarrow> slice" where
  "wire_slice s = s\<lparr>PodName := coerceUTF8 (PodName s), NodeName := coerceUTF8 (NodeName s)\<rparr>"

definition slot64 :: "slice \<Rightarrow> bool" where
  "slot64 s \<longleftrightarrow> int64 (Begin s) \<and> int64 (End s)"

interpretation slot_codec: json_codec enc_slice dec_slot slot64 wire_slice zero_slice
  by unfold_locales
    (auto simp: enc_slice_def dec_slot_def dec_struct_def slot_field_def slot64_def zero_slice_def
      wire_slice_def)

lemma TDMAsched_OK: "slot64 s \<Longrightarrow> TDMAsched (jprint (enc_slice s)) = ''OK''"
  and TDMAremove_OK: "slot64 s \<Longrightarrow> TDMAremove (jprint (enc_slice s)) = ''OK''"
  by (simp_all add: TDMAsched_def TDMAremove_def slot_codec.round_trip)

lemma new_slice_slot64: "slot64 (new_slice a L pn nn)"
  by (simp add: slot64_def new_slice_def)

text \<open>
  C9: The master accepts what the plugin sends. Let the network deliver a POST on one of the two
  paths to the daemon's handler for it, and let the ends of a slice be 64-bit integers. Then
  reserving and releasing the slice is answered with success, whatever bytes its pod and node names
  hold. The daemon decodes the JSON text the plugin prints into the slice with the bytes of the two
  names that are not valid UTF-8 replaced, hence into the same slice when the names are valid UTF-8.
\<close>

theorem slot_message_round_trip:
  assumes "slot64 s"
    and "\<And>body w. post (trimSpace (''http://'' @ master pl @ '':'' @ itoa (port pl) @ ''/TDMAsched'')) body w = (Inr (TDMAsched body), w)"
    and "\<And>body w. post (trimSpace (''http://'' @ master pl @ '':'' @ itoa (port pl) @ ''/TDMAremove'')) body w = (Inr (TDMAremove body), w)"
  shows "unmarshal dec_slot (jprint (enc_slice s)) zero_slice =
      (s\<lparr>PodName := coerceUTF8 (PodName s), NodeName := coerceUTF8 (NodeName s)\<rparr>, None) \<and>
    (valid_utf8 (PodName s) \<and> valid_utf8 (NodeName s) \<longrightarrow> unmarshal dec_slot (jprint (enc_slice s)) zero_slice = (s, None)) \<and>
    reserveSlot post pl s w = (None, w) \<and> unreserveSlot post pl s w = (None, w)"
  using assms slot_codec.round_trip [OF assms(1)]
  by (simp add: reserveSlot_def unreserveSlot_def slotCall_def TDMAsched_OK TDMAremove_OK wire_slice_def coerceUTF8_valid)

text \<open>A network with the daemon of the default configuration behind it.\<close>

definition ex_post :: "string \<Rightarrow> string \<Rightarrow> unit \<Rightarrow> (string + string) \<times> unit" where
  "ex_post url body w =
     (if url = ''http://192.168.1.1:8889/TDMAsched'' then (Inr (TDMAsched body), w)
      else if url = ''http://192.168.1.1:8889/TDMAremove'' then (Inr (TDMAremove body), w)
      else (Inl ''no route to host'', w))"

definition ex_pl :: "slice list \<Rightarrow> tdma" where
  "ex_pl sl = \<lparr>slices = sl, majorcycle = 5000, master = ''192.168.1.1'', port = 8889\<rparr>"

definition ex_slot :: "int \<Rightarrow> int \<Rightarrow> string \<Rightarrow> slice" where
  "ex_slot b e pn = \<lparr>Begin = b, End = e, PodName = pn, NodeName = ''node0''\<rparr>"

lemma ex_itoa: "itoa 8889 = ''8889''"
  by (simp add: itoa_eval)

lemma ex_urls:
  "trimSpace (''http://'' @ master (ex_pl sl) @ '':'' @ itoa (port (ex_pl sl)) @ ''/TDMAsched'') = ''http://192.168.1.1:8889/TDMAsched''"
  "trimSpace (''http://'' @ master (ex_pl sl) @ '':'' @ itoa (port (ex_pl sl)) @ ''/TDMAremove'') = ''http://192.168.1.1:8889/TDMAremove''"
  by (simp_all add: ex_pl_def ex_itoa trimSpace_def is_space_def)

theorem slot_message_round_trip_witness:
  "unmarshal dec_slot (jprint (enc_slice (ex_slot 110 210 ''pod''))) zero_slice = (ex_slot 110 210 ''pod'', None) \<and>
    reserveSlot ex_post (ex_pl []) (ex_slot 110 210 ''pod'') () = (None, ()) \<and>
    unreserveSlot ex_post (ex_pl []) (ex_slot 110 210 ''pod'') () = (None, ())"
proof -
  have net: "ex_post (trimSpace (''http://'' @ master (ex_pl []) @ '':'' @ itoa (port (ex_pl [])) @ ''/TDMAsched'')) body w = (Inr (TDMAsched body), w)"
    "ex_post (trimSpace (''http://'' @ master (ex_pl []) @ '':'' @ itoa (port (ex_pl [])) @ ''/TDMAremove'')) body w = (Inr (TDMAremove body), w)" for body w
    unfolding ex_urls by (simp_all add: ex_post_def)
  have "slot64 (ex_slot 110 210 ''pod'')" by (simp add: slot64_def ex_slot_def int64_def)
  from slot_message_round_trip [OF this, of ex_post "ex_pl []" "()", OF net] show ?thesis
    by (simp add: ex_slot_def valid_utf8_ascii del: jprint.simps)
qed

end
