(* ===== verification/Tdma_Props.thy ===== *)
theory Tdma_Props
  imports Scarmiglione
begin

text \<open>
  The slices of the TDMA plugin do not overlap as long as no request has a negative length, which the
  code does not check: any calls keep ten microseconds between two slices and the last slice inside
  the major cycle. The reservation ends and succeeds only when \<open>PreFilter\<close> admits the pod, and
  exactly then if the master agrees.
\<close>

section \<open>The invariant\<close>

definition slot_ok :: "int \<Rightarrow> slice \<Rightarrow> bool" where
  "slot_ok cyc s \<longleftrightarrow> 0 \<le> Begin s \<and> Begin s \<le> End s \<and> End s < 2 ^ 61 \<and> (End s \<le> 100 \<or> End s + 10 < cyc)"

definition spaced :: "slice list \<Rightarrow> bool" where
  "spaced sl \<longleftrightarrow> sorted_wrt (\<lambda>a b. End a + 10 \<le> Begin b) sl"

definition slices_ok :: "int \<Rightarrow> slice list \<Rightarrow> bool" where
  "slices_ok cyc sl \<longleftrightarrow> sl \<noteq> [] \<and> (\<forall>s\<in>set sl. slot_ok cyc s) \<and> spaced sl"

lemma spaced_nth: "spaced sl \<Longrightarrow> i < j \<Longrightarrow> j < length sl \<Longrightarrow> End (sl ! i) + 10 \<le> Begin (sl ! j)"
  by (auto simp: spaced_def sorted_wrt_iff_nth_less)

lemma slot_nth: "slices_ok cyc sl \<Longrightarrow> i < length sl \<Longrightarrow> slot_ok cyc (sl ! i)"
  by (simp add: slices_ok_def)

lemma gap_fits_exact:
  assumes "slot_ok cyc a" "slot_ok cyc b" "0 \<le> L" "L < 2 ^ 62"
  shows "gap_fits L a b \<longleftrightarrow> L + 20 < Begin b - End a"
  using assms by (auto simp: gap_fits_def slot_ok_def wrap64_range)

lemma new_slice_exact:
  assumes "slot_ok cyc a" "0 \<le> L" "L < 2 ^ 62"
  shows "Begin (new_slice a L pn nn) = End a + 10" "End (new_slice a L pn nn) = End a + 10 + L"
    "PodName (new_slice a L pn nn) = pn"
  using assms by (auto simp: new_slice_def slot_ok_def wrap64_range)

text \<open>A slice that fits a gap is sorted into it.\<close>

lemma insert_gap:
  assumes sp: "slices_ok cyc sl" and i: "i + 1 < length sl"
    and x: "End (sl ! i) + 10 \<le> Begin x" "Begin x \<le> End x" "End x + 10 \<le> Begin (sl ! (i + 1))"
  shows "sliceStable Begin (sl @ [x]) = take (i + 1) sl @ x # drop (i + 1) sl"
proof -
  have s: "spaced sl" using sp by (simp add: slices_ok_def)
  have ord: "Begin (sl ! a) < Begin (sl ! b)" if "a < b" "b < length sl" for a b
    using spaced_nth [OF s that] slot_nth [OF sp, of a] that by (simp add: slot_ok_def)
  have srt: "sorted (map Begin sl)" using ord by (auto simp: sorted_iff_nth_mono_less dest: less_imp_le)
  have tw: "takeWhile (\<lambda>y. \<not> Begin x < Begin y) sl = take (i + 1) sl"
  proof (rule takeWhile_eq_take_P_nth)
    fix j assume "j < i + 1" "j < length sl"
    then have "Begin (sl ! j) \<le> Begin (sl ! i)" using ord [of j i] i by (cases "j = i") auto
    then show "\<not> Begin x < Begin (sl ! j)" using x slot_nth [OF sp, of i] i by (simp add: slot_ok_def)
  qed (use x slot_nth [OF sp, of "i + 1"] in \<open>simp add: slot_ok_def\<close>)
  have "dropWhile (\<lambda>y. \<not> Begin x < Begin y) sl = drop (i + 1) sl"
    using i by (simp add: dropWhile_eq_drop tw)
  then show ?thesis using sliceStable_snoc [OF srt, of x] tw by simp
qed

lemma slices_ok_insert:
  assumes sp: "slices_ok cyc sl" and i: "i + 1 < length sl"
    and x: "End (sl ! i) + 10 \<le> Begin x" "Begin x \<le> End x" "End x + 10 \<le> Begin (sl ! (i + 1))"
  shows "slices_ok cyc (take (i + 1) sl @ x # drop (i + 1) sl)"
proof -
  have s: "spaced sl" using sp by (simp add: slices_ok_def)
  note a = slot_nth [OF sp, of i] and b = slot_nth [OF sp, of "i + 1"]
  have "slot_ok cyc x" using a b x i by (auto simp: slot_ok_def)
  moreover have "End y + 10 \<le> Begin x" if y: "y \<in> set (take (i + 1) sl)" for y
  proof -
    obtain j where "j < length (take (i + 1) sl)" "take (i + 1) sl ! j = y"
      using y unfolding in_set_conv_nth by blast
    then have j: "j < i + 1" "y = sl ! j" by simp_all
    then have "End (sl ! j) \<le> End (sl ! i)"
      using spaced_nth [OF s, of j i] slot_nth [OF sp, of i] i by (cases "j = i") (auto simp: slot_ok_def)
    then show ?thesis using j x by simp
  qed
  moreover have "End x + 10 \<le> Begin y" if y: "y \<in> set (drop (i + 1) sl)" for y
  proof -
    obtain k where k: "k < length (drop (i + 1) sl)" "drop (i + 1) sl ! k = y"
      using y unfolding in_set_conv_nth by blast
    define j where "j = i + 1 + k"
    have j: "i + 1 \<le> j" "j < length sl" "y = sl ! j" using k i by (auto simp: j_def)
    then have "Begin (sl ! (i + 1)) \<le> Begin (sl ! j)"
      using spaced_nth [OF s, of "i + 1" j] slot_nth [OF sp, of "i + 1"] by (cases "j = i + 1") (auto simp: slot_ok_def)
    then show ?thesis using j x by simp
  qed
  moreover have "End y + 10 \<le> Begin z" if "y \<in> set (take (i + 1) sl)" "z \<in> set (drop (i + 1) sl)" for y z
    using s that unfolding spaced_def by (metis append_take_drop_id sorted_wrt_append)
  ultimately show ?thesis
    using sp s by (auto simp: slices_ok_def spaced_def sorted_wrt_append sorted_wrt_take sorted_wrt_drop
        dest: in_set_takeD in_set_dropD)
qed

section \<open>The reservation loop\<close>

lemma some_gap_drop:
  "i + 1 < length sl \<Longrightarrow> some_gap L (drop i sl) \<longleftrightarrow> gap_fits L (sl ! i) (sl ! (i + 1)) \<or> some_gap L (drop (i + 1) sl)"
proof -
  assume i: "i + 1 < length sl"
  then have "drop i sl = sl ! i # sl ! (i + 1) # drop (i + 2) sl" "drop (i + 1) sl = sl ! (i + 1) # drop (i + 2) sl"
    using Cons_nth_drop_Suc [of i sl] Cons_nth_drop_Suc [of "i + 1" sl] by (simp_all add: numeral_2_eq_2)
  then show ?thesis by simp
qed

lemma some_gap_last: "\<not> i + 1 < length sl \<Longrightarrow> \<not> some_gap L (drop i sl)"
proof -
  assume "\<not> i + 1 < length sl"
  then have "length (drop i sl) \<le> 1" by simp
  then obtain a where "drop i sl = [] \<or> drop i sl = [a]" by (cases "drop i sl") auto
  then show ?thesis by auto
qed

text \<open>
  From a state in order the loop ends: each pass brings the current slice closer to the last one.
  Slices of other pods are kept, and unless the master refuses, \<open>scheduled\<close> says whether some gap
  fits; when it is set, the pod has a slice of the length it asked for.
\<close>

definition has_slice :: "int \<Rightarrow> string \<Rightarrow> string \<Rightarrow> slice list \<Rightarrow> bool" where
  "has_slice L pn nn sl \<longleftrightarrow> (\<exists>s\<in>set sl. PodName s = pn \<and> NodeName s = nn \<and> End s = Begin s + L)"

lemma reserve_loop_ok:
  assumes "slices_ok cyc sl" "i < length sl" "0 \<le> L" "L < 2 ^ 62"
  shows "\<exists>st sl' w' sc'. reserve_loop call L pn nn i sl w sc = Some (st, sl', w', sc') \<and>
    slices_ok cyc sl' \<and> last sl' = last sl \<and>
    filter (\<lambda>s. PodName s \<noteq> pn) sl' = filter (\<lambda>s. PodName s \<noteq> pn) sl \<and>
    (st = None \<longrightarrow> (sc' \<longleftrightarrow> sc \<or> some_gap L (drop i sl))) \<and>
    ((\<forall>s v. fst (call s v) = None) \<longrightarrow> st = None) \<and>
    set sl \<subseteq> set sl' \<and> (sc' \<longrightarrow> sc \<or> has_slice L pn nn sl')"
  using assms
proof (induction "nat (Begin (last sl) - End (sl ! i) + 2 ^ 62)" arbitrary: i sl w sc rule: less_induct)
  case less
  note ok = less.prems(1) and L = less.prems(3,4)
  show ?case
  proof (cases "i + 1 < length sl")
    case False
    then show ?thesis using ok some_gap_last [OF False] by (subst reserve_loop.simps) simp
  next
    case i: True
    have sl: "slot_ok cyc (sl ! i)" "slot_ok cyc (sl ! (i + 1))" "spaced sl"
      using ok i slot_nth [OF ok] by (auto simp: slices_ok_def)
    have ne: "sl \<noteq> []" using i by auto
    have lst: "slot_ok cyc (last sl)" using ok ne by (simp add: slices_ok_def)
    have nxt: "End (sl ! i) < End (sl ! (i + 1))" using spaced_nth [OF sl(3), of i "i + 1"] i sl by (simp add: slot_ok_def)
    show ?thesis
    proof (cases "gap_fits L (sl ! i) (sl ! (i + 1))")
      case False
      have "nat (Begin (last sl) - End (sl ! (i + 1)) + 2 ^ 62) < nat (Begin (last sl) - End (sl ! i) + 2 ^ 62)"
        using nxt lst sl by (simp add: slot_ok_def)
      from less.hyps [OF this ok i L, of w sc] show ?thesis
        using False i some_gap_drop [OF i] by (subst reserve_loop.simps) simp
    next
      case fit: True
      define x where "x = new_slice (sl ! i) L pn nn"
      have x: "Begin x = End (sl ! i) + 10" "End x = End (sl ! i) + 10 + L" "PodName x = pn"
        using new_slice_exact [OF sl(1) L] by (simp_all add: x_def)
      have g: "L + 20 < Begin (sl ! (i + 1)) - End (sl ! i)" using gap_fits_exact [OF sl(1,2) L] fit by simp
      obtain st w' where c: "call x w = (st, w')" by (cases "call x w")
      show ?thesis
      proof (cases st)
        case (Some e)
        then show ?thesis using fit i ok c by (subst reserve_loop.simps) (simp flip: x_def, metis fst_conv option.discI)
      next
        case None
        let ?sl = "take (i + 1) sl @ x # drop (i + 1) sl"
        have ins: "sliceStable Begin (sl @ [x]) = ?sl" and ok': "slices_ok cyc ?sl"
          using insert_gap [OF ok i, of x] slices_ok_insert [OF ok i, of x] x g L by simp_all
        have nth: "?sl ! (i + 1) = x" "i + 1 < length ?sl" "last ?sl = last sl"
          using i by (auto simp: nth_append min_def)
        have "nat (Begin (last ?sl) - End (?sl ! (i + 1)) + 2 ^ 62) < nat (Begin (last sl) - End (sl ! i) + 2 ^ 62)"
          using x L lst sl g unfolding nth by (simp add: slot_ok_def)
        from less.hyps [OF this ok' nth(2) L, of w' True] obtain st2 sl2 w2 sc2 where
          r: "reserve_loop call L pn nn (i + 1) ?sl w' True = Some (st2, sl2, w2, sc2)" "slices_ok cyc sl2"
          "last sl2 = last ?sl" "filter (\<lambda>s. PodName s \<noteq> pn) sl2 = filter (\<lambda>s. PodName s \<noteq> pn) ?sl"
          "st2 = None \<longrightarrow> sc2" "(\<forall>s v. fst (call s v) = None) \<longrightarrow> st2 = None" "set ?sl \<subseteq> set sl2" by blast
        have "NodeName x = nn" by (simp add: x_def new_slice_def)
        then have hs: "has_slice L pn nn sl2" using r(7) x unfolding has_slice_def by force
        have sub: "set sl \<subseteq> set sl2"
        proof -
          have "set sl = set (take (i + 1) sl @ drop (i + 1) sl)" by (simp only: append_take_drop_id)
          then show ?thesis using r(7) by (simp only: set_append list.set) blast
        qed
        have "filter (\<lambda>s. PodName s \<noteq> pn) ?sl = filter (\<lambda>s. PodName s \<noteq> pn) (take (i + 1) sl @ drop (i + 1) sl)"
          using x(3) by (simp del: append_take_drop_id)
        moreover have "reserve_loop call L pn nn i sl w sc = Some (st2, sl2, w2, sc2)"
          using fit i c None r(1) ins by (subst reserve_loop.simps) (simp flip: x_def)
        ultimately show ?thesis using r(2-6) nth(3) fit some_gap_drop [OF i] hs sub by auto
      qed
    qed
  qed
qed

section \<open>The other operations\<close>

lemma end_fits_exact:
  assumes "- (2 ^ 61) < cyc" "cyc < 2 ^ 61" "0 \<le> L" "L < 2 ^ 62"
  shows "end_fits L cyc a \<longleftrightarrow> End a < cyc - L - 20"
  using assms by (simp add: end_fits_def wrap64_range)

lemma slices_ok_snoc:
  assumes ok: "slices_ok cyc sl" and x: "slot_ok cyc x" "End (last sl) + 10 \<le> Begin x"
  shows "slices_ok cyc (sl @ [x])"
proof -
  have "End y + 10 \<le> Begin x" if y: "y \<in> set sl" for y
  proof -
    obtain j where j: "j < length sl" "y = sl ! j" using y by (metis in_set_conv_nth)
    have ne: "sl \<noteq> []" "spaced sl" using ok by (simp_all add: slices_ok_def)
    have "End (sl ! j) \<le> End (last sl)"
    proof (cases "j = length sl - 1")
      case False
      then have "End (sl ! j) + 10 \<le> Begin (last sl)" using spaced_nth [OF ne(2), of j "length sl - 1"] j ne(1)
        by (simp add: last_conv_nth)
      then show ?thesis using slot_nth [OF ok, of "length sl - 1"] ne(1) by (simp add: last_conv_nth slot_ok_def)
    qed (use ne(1) in \<open>simp add: last_conv_nth\<close>)
    then show ?thesis using x j by simp
  qed
  then show ?thesis using ok x by (auto simp: slices_ok_def spaced_def sorted_wrt_append)
qed

lemma sorted_wrt_slice_remove: "sorted_wrt P xs \<Longrightarrow> sorted_wrt P (slice_remove i xs)"
proof -
  assume s: "sorted_wrt P xs"
  then have "sorted_wrt P (take i xs @ drop i xs)" by simp
  then have "\<forall>x\<in>set (take i xs). \<forall>y\<in>set (drop i xs). P x y" by (simp only: sorted_wrt_append) blast
  moreover have "set (drop (Suc i) xs) \<subseteq> set (drop i xs)" by (rule set_drop_subset_set_drop) simp
  ultimately show ?thesis
    using s by (auto simp: slice_remove_def sorted_wrt_append sorted_wrt_take sorted_wrt_drop)
qed

lemma spaced_remove: "spaced sl \<Longrightarrow> spaced (slice_remove i sl)"
  unfolding spaced_def by (rule sorted_wrt_slice_remove)

lemma filter_remove:
  assumes "i < length sl" "\<not> P (sl ! i)"
  shows "filter P (slice_remove i sl) = filter P sl"
proof -
  have "filter P sl = filter P (take i sl @ sl ! i # drop (Suc i) sl)" using assms(1) by (simp flip: id_take_nth_drop)
  then show ?thesis using assms(2) by (simp add: slice_remove_def)
qed

lemma last_remove: "i + 1 < length sl \<Longrightarrow> last (slice_remove i sl) = last sl"
  by (simp add: slice_remove_def last_append)

lemma slices_ok_remove:
  "slices_ok cyc sl \<Longrightarrow> slice_remove i sl \<noteq> [] \<Longrightarrow> slices_ok cyc (slice_remove i sl)"
  using spaced_remove slice_remove_subset [of i sl] by (auto simp: slices_ok_def)

lemma slice_remove_ne: "i + 1 < length sl \<Longrightarrow> slice_remove i sl \<noteq> []"
  by (auto simp: slice_remove_def)

lemma unreserve_loop_ok:
  assumes "unreserve_loop call pn i sl w = (sl', w')"
  shows "filter (\<lambda>s. PodName s \<noteq> pn) sl' = filter (\<lambda>s. PodName s \<noteq> pn) sl \<and>
    (sl \<noteq> [] \<longrightarrow> sl' \<noteq> [] \<and> last sl' = last sl) \<and> (slices_ok cyc sl \<longrightarrow> slices_ok cyc sl')"
  using assms
proof (induction call pn i sl w rule: unreserve_loop.induct)
  case (1 call pn i sl w)
  note IH = 1(1,2) and eq = 1(3) [unfolded unreserve_loop.simps [of call pn i sl w]]
  consider (stop) "\<not> i + 1 < length sl" | (skip) "i + 1 < length sl" "PodName (sl ! i) \<noteq> pn"
    | (rem) "i + 1 < length sl" "PodName (sl ! i) = pn" by blast
  then show ?case
  proof cases
    case stop
    then show ?thesis using eq by simp
  next
    case skip
    then show ?thesis using eq IH(2) by simp
  next
    case rem
    let ?sl = "slice_remove i sl"
    obtain st w2 where c: "call (?sl ! i) w = (st, w2)" by (cases "call (?sl ! i) w")
    have f: "filter (\<lambda>s. PodName s \<noteq> pn) ?sl = filter (\<lambda>s. PodName s \<noteq> pn) sl"
      using rem by (intro filter_remove) auto
    note base = f slice_remove_ne [OF rem(1)] last_remove [OF rem(1)] slices_ok_remove [of cyc sl i]
    show ?thesis
    proof (cases st)
      case None
      then have "unreserve_loop call pn (i + 1) ?sl w2 = (sl', w')" using eq rem c by (simp add: Let_def)
      then show ?thesis using IH(1) [OF rem refl] c None base by simp
    next
      case (Some e)
      then show ?thesis using eq rem c base by (auto simp: Let_def)
    qed
  qed
qed

lemma slice_remove_at_end: "length sl - Suc 0 < length sl \<Longrightarrow> slice_remove (length sl - Suc 0) sl = take (length sl - Suc 0) sl"
  by (simp add: slice_remove_def)

lemma delete_loop_unfold:
  "delete_loop call pn i sl w =
     (if i < length sl
      then if PodName (sl ! i) = pn then delete_loop call pn (i + 1) (slice_remove i sl) (snd (call (sl ! i) w))
           else delete_loop call pn (i + 1) sl w
      else (sl, w))"
  by (subst delete_loop.simps) (simp add: slice_remove_at_end split: prod.splits)

lemma delete_loop_ok:
  assumes "delete_loop call pn i sl w = (sl', w')"
  shows "filter (\<lambda>s. PodName s \<noteq> pn) sl' = filter (\<lambda>s. PodName s \<noteq> pn) sl \<and> set sl' \<subseteq> set sl \<and> (spaced sl \<longrightarrow> spaced sl')"
  using assms
proof (induction "length sl - i" arbitrary: i sl w rule: less_induct)
  case less
  note eq = less.prems [unfolded delete_loop_unfold [of call pn i sl w]]
  show ?case
  proof (cases "i < length sl")
    case i: True
    show ?thesis
    proof (cases "PodName (sl ! i) = pn")
      case False
      then show ?thesis using eq i less.hyps [of sl "i + 1"] by simp
    next
      case True
      let ?sl = "slice_remove i sl"
      have "delete_loop call pn (i + 1) ?sl (snd (call (sl ! i) w)) = (sl', w')" using eq i True by simp
      moreover have "length ?sl - (i + 1) < length sl - i" using i slice_remove_length [OF i] by simp
      ultimately have "filter (\<lambda>s. PodName s \<noteq> pn) sl' = filter (\<lambda>s. PodName s \<noteq> pn) ?sl \<and> set sl' \<subseteq> set ?sl \<and> (spaced ?sl \<longrightarrow> spaced sl')"
        by (intro less.hyps)
      then show ?thesis using filter_remove [OF i, of "\<lambda>s. PodName s \<noteq> pn"] True slice_remove_subset [of i sl] spaced_remove by auto
    qed
  qed (use eq in simp)
qed

text \<open>When no two adjacent slices belong to the pod, all of its slices go.\<close>

lemma delete_loop_all:
  assumes "delete_loop call pn i sl w = (sl', w')"
    and "successively (\<lambda>a b. \<not> (PodName a = pn \<and> PodName b = pn)) (drop i sl)"
  shows "sl' = take i sl @ filter (\<lambda>s. PodName s \<noteq> pn) (drop i sl)"
  using assms
proof (induction "length sl - i" arbitrary: i sl w rule: less_induct)
  case less
  note eq = less.prems(1) [unfolded delete_loop_unfold [of call pn i sl w]]
  show ?case
  proof (cases "i < length sl")
    case i: True
    have d: "drop i sl = sl ! i # drop (i + 1) sl" using i by (simp add: Cons_nth_drop_Suc)
    have suc: "successively (\<lambda>a b. \<not> (PodName a = pn \<and> PodName b = pn)) (drop (i + 1) sl)"
      using less.prems(2) unfolding d by (cases "drop (i + 1) sl") simp_all
    show ?thesis
    proof (cases "PodName (sl ! i) = pn")
      case False
      have "sl' = take (i + 1) sl @ filter (\<lambda>s. PodName s \<noteq> pn) (drop (i + 1) sl)"
        using eq i False suc by (intro less.hyps) auto
      then show ?thesis using i False d by (simp add: take_Suc_conv_app_nth)
    next
      case True
      let ?sl = "slice_remove i sl"
      have del: "delete_loop call pn (i + 1) ?sl (snd (call (sl ! i) w)) = (sl', w')" using eq i True by simp
      have td: "take i ?sl = take i sl" "drop i ?sl = drop (i + 1) sl" using i by (simp_all add: slice_remove_def)
      have lt: "length ?sl - (i + 1) < length sl - i" using i slice_remove_length [OF i] by simp
      show ?thesis
      proof (cases "drop (i + 1) sl")
        case Nil
        then have "\<not> i < length ?sl" using td(2) by simp
        then have "sl' = ?sl" using del by (subst (asm) delete_loop_unfold) simp
        then show ?thesis using Nil True d td by (simp add: slice_remove_def)
      next
        case (Cons y ys)
        have ny: "PodName y \<noteq> pn" using less.prems(2) True unfolding d Cons by simp
        have il: "i < length ?sl" using td(2) Cons by (metis drop_all leI list.discI)
        have tk: "take (i + 1) ?sl = take i sl @ [y]" "drop (i + 1) ?sl = ys"
          using td Cons il by (metis Suc_eq_plus1 nth_via_drop take_Suc_conv_app_nth, metis Cons_nth_drop_Suc Suc_eq_plus1 list.inject)
        have "successively (\<lambda>a b. \<not> (PodName a = pn \<and> PodName b = pn)) (drop (i + 1) ?sl)"
          using suc unfolding tk Cons by (cases ys) simp_all
        then have "sl' = take (i + 1) ?sl @ filter (\<lambda>s. PodName s \<noteq> pn) (drop (i + 1) ?sl)"
          using del lt by (intro less.hyps)
        then show ?thesis using tk True d Cons ny by simp
      qed
    qed
  qed (use eq in simp)
qed

section \<open>Whole operations\<close>

definition tdma_inv :: "tdma \<Rightarrow> bool" where
  "tdma_inv pl \<longleftrightarrow> slices_ok (majorcycle pl) (slices pl) \<and> (\<exists>s\<in>set (slices pl). PodName s = []) \<and>
     - (2 ^ 61) < majorcycle pl \<and> majorcycle pl < 2 ^ 61"

text \<open>A request the plugin can handle: if there is one, its length is not negative and below \<open>2 ^ 62\<close>.\<close>

definition ask_ok :: "(json_error \<Rightarrow> string) \<Rightarrow> pod \<Rightarrow> bool" where
  "ask_ok errText pod \<longleftrightarrow> podName pod \<noteq> [] \<and> (\<forall>L. tdma_ask errText pod = Ask L \<longrightarrow> 0 \<le> L \<and> L < 2 ^ 62)"

lemma other_pods:
  assumes "filter (\<lambda>s. PodName s \<noteq> pn) sl' = filter (\<lambda>s. PodName s \<noteq> pn) sl" "pn \<noteq> []" "\<exists>s\<in>set sl. PodName s = []"
  shows "\<exists>s\<in>set sl'. PodName s = []"
proof -
  obtain s where "s \<in> set (filter (\<lambda>s. PodName s \<noteq> pn) sl)" "PodName s = []" using assms(2,3) by auto
  then show ?thesis unfolding assms(1) [symmetric] by auto
qed

lemma Reserve_ok:
  assumes inv: "tdma_inv pl" and ask: "ask_ok errText pod"
  shows "\<exists>st pl' w'. Reserve errText post pod nn pl w = Ret (st, pl', w') \<and> tdma_inv pl' \<and>
    filter (\<lambda>s. PodName s \<noteq> podName pod) (slices pl') = filter (\<lambda>s. PodName s \<noteq> podName pod) (slices pl) \<and>
    (st = None \<longrightarrow> PreFilter errText pl pod = Ret None) \<and>
    (\<forall>L. st = None \<longrightarrow> tdma_ask errText pod = Ask L \<longrightarrow> has_slice L (podName pod) nn (slices pl')) \<and>
    ((\<forall>s v. fst (reserveSlot post pl s v) = None) \<longrightarrow> PreFilter errText pl pod = Ret st)"
proof (cases "tdma_ask errText pod")
  case (Ask L)
  let ?sl = "slices pl" and ?cyc = "majorcycle pl" and ?pn = "podName pod" and ?call = "reserveSlot post pl"
  let ?F = "filter (\<lambda>s. PodName s \<noteq> podName pod)"
  have L: "0 \<le> L" "L < 2 ^ 62" and pn: "?pn \<noteq> []" using ask Ask by (auto simp: ask_ok_def)
  have ok: "slices_ok ?cyc ?sl" "?sl \<noteq> []" "- (2 ^ 61) < ?cyc" "?cyc < 2 ^ 61"
    and z: "\<exists>s\<in>set ?sl. PodName s = []" using inv by (auto simp: tdma_inv_def slices_ok_def)
  obtain st sl' w' sc' where r: "reserve_loop ?call L ?pn nn 0 ?sl w False = Some (st, sl', w', sc')"
    "slices_ok ?cyc sl'" "last sl' = last ?sl" "?F sl' = ?F ?sl" "st = None \<longrightarrow> (sc' \<longleftrightarrow> some_gap L ?sl)"
    "(\<forall>s v. fst (?call s v) = None) \<longrightarrow> st = None" "sc' \<longrightarrow> has_slice L ?pn nn sl'"
  proof -
    have "0 < length ?sl" using ok(2) by simp
    from reserve_loop_ok [OF ok(1) this L, of ?call ?pn nn w False] that show thesis
      unfolding drop_0 by blast
  qed
  have inv': "tdma_inv (pl\<lparr>slices := sl'\<rparr>)"
    using r(2) other_pods [OF r(4) pn z] ok by (simp add: tdma_inv_def)
  have ne': "sl' \<noteq> []" using r(2) by (simp add: slices_ok_def)
  show ?thesis
  proof (cases "st = None \<and> \<not> sc' \<and> end_fits L ?cyc (last ?sl)")
    case False
    then show ?thesis
      using Ask r inv' ne' ok(2) by (auto simp: Reserve_def PreFilter_def cannot_def NewStatus_def)
  next
    case True
    define x where "x = new_slice (last ?sl) L ?pn nn"
    have la: "slot_ok ?cyc (last ?sl)" using ok by (simp add: slices_ok_def)
    note xs = new_slice_exact [OF la L, of ?pn nn, folded x_def]
    have "End (last ?sl) < ?cyc - L - 20" using True end_fits_exact [OF ok(3,4) L] by simp
    then have "slot_ok ?cyc x" using la L ok xs by (auto simp: slot_ok_def)
    then have ok2: "slices_ok ?cyc (sl' @ [x])" using r(2,3) xs by (intro slices_ok_snoc) simp_all
    then have inv2: "tdma_inv (pl\<lparr>slices := sl' @ [x]\<rparr>)"
      using inv' by (auto simp: tdma_inv_def)
    obtain st2 w2 where c: "?call x w' = (st2, w2)" by (cases "?call x w'")
    have g: "\<not> some_gap L ?sl" using True r(5) by simp
    have hs: "has_slice L ?pn nn (sl' @ [x])" using xs by (simp add: has_slice_def x_def new_slice_def)
    show ?thesis
    proof (cases st2)
      case None
      then show ?thesis using Ask r True c inv2 xs(3) ne' ok(2) g hs
        by (simp add: Reserve_def PreFilter_def Let_def flip: x_def)
    next
      case (Some e)
      then have "\<not> (\<forall>s v. fst (?call s v) = None)" using c by (metis fst_conv option.discI)
      then show ?thesis using Ask r True c inv' Some ne' ok(2)
        by (simp add: Reserve_def Let_def flip: x_def) auto
    qed
  qed
qed (use inv in \<open>simp_all add: Reserve_def PreFilter_def\<close>)

lemma Unreserve_ok:
  assumes "Unreserve post pod nn pl w = (pl', w')" "tdma_inv pl" "podName pod \<noteq> []"
  shows "tdma_inv pl'"
  using assms unreserve_loop_ok [of "unreserveSlot post pl" "podName pod" 0 "slices pl" w _ _ "majorcycle pl"]
    other_pods [of "podName pod" _ "slices pl"]
  by (fastforce simp: Unreserve_def tdma_inv_def split: if_splits prod.splits)

lemma podDelete_ok:
  assumes "podDelete post pod pl w = (pl', w')" "tdma_inv pl" "podName pod \<noteq> []"
  shows "tdma_inv pl'"
proof (cases "gomap_get (labels pod) ''Network'' = Some ''TDMA''")
  case True
  obtain sl w2 where d: "delete_loop (unreserveSlot post pl) (podName pod) 0 (slices pl) w = (sl, w2)" by fastforce
  note f = delete_loop_ok [OF d]
  have z: "\<exists>s\<in>set sl. PodName s = []" using f assms(2,3) by (intro other_pods [of "podName pod" sl "slices pl"]) (auto simp: tdma_inv_def)
  then have "sl \<noteq> []" by auto
  then have "slices_ok (majorcycle pl) sl" using f assms(2) by (auto simp: tdma_inv_def slices_ok_def)
  then show ?thesis using assms(1,2) True d z by (auto simp: podDelete_def tdma_inv_def)
qed (use assms in \<open>auto simp: podDelete_def\<close>)

section \<open>Reachable states\<close>

text \<open>
  The calls that change the plugin's state, in the order they are made, with any pods and without
  conditions on them; \<open>OtherCall\<close> is anything that happens outside the plugin. A run is a sequence of
  calls each of which returns.
\<close>

datatype tdma_call = ReserveCall pod string | UnreserveCall pod string | DeleteCall pod | OtherCall

inductive tdma_step :: "(json_error \<Rightarrow> string) \<Rightarrow> 'w http \<Rightarrow> tdma_call \<Rightarrow> tdma \<times> 'w \<Rightarrow> tdma \<times> 'w \<Rightarrow> bool"
  for errText post where
  reserve: "Reserve errText post pod nn pl w = Ret (st, pl', w') \<Longrightarrow>
      tdma_step errText post (ReserveCall pod nn) (pl, w) (pl', w')"
| unreserve: "Unreserve post pod nn pl w = (pl', w') \<Longrightarrow>
      tdma_step errText post (UnreserveCall pod nn) (pl, w) (pl', w')"
| delete: "podDelete post pod pl w = (pl', w') \<Longrightarrow>
      tdma_step errText post (DeleteCall pod) (pl, w) (pl', w')"
| other: "tdma_step errText post OtherCall (pl, w) (pl, w')"

inductive tdma_run :: "(json_error \<Rightarrow> string) \<Rightarrow> 'w http \<Rightarrow> tdma_call list \<Rightarrow> tdma \<times> 'w \<Rightarrow> tdma \<times> 'w \<Rightarrow> bool"
  for errText post where
  run_nil: "tdma_run errText post [] s s"
| run_cons: "tdma_step errText post c s s1 \<Longrightarrow> tdma_run errText post cs s1 s2 \<Longrightarrow> tdma_run errText post (c # cs) s s2"

text \<open>
  The calls for which the invariant holds: the pod has a name, and a reservation asks for a length
  that is not negative and below \<open>2 ^ 62\<close>. The code makes no such check.
\<close>

fun call_ok :: "(json_error \<Rightarrow> string) \<Rightarrow> tdma_call \<Rightarrow> bool" where
  "call_ok errText (ReserveCall pod nn) \<longleftrightarrow> ask_ok errText pod"
| "call_ok errText (UnreserveCall pod nn) \<longleftrightarrow> podName pod \<noteq> []"
| "call_ok errText (DeleteCall pod) \<longleftrightarrow> podName pod \<noteq> []"
| "call_ok errText OtherCall \<longleftrightarrow> True"

lemma tdma_step_inv:
  assumes "tdma_step errText post c s s'" "call_ok errText c" "tdma_inv (fst s)"
  shows "tdma_inv (fst s')"
  using assms
proof (cases rule: tdma_step.cases)
  case (reserve pod nn pl w st pl' w')
  then show ?thesis using Reserve_ok [of pl errText pod post nn w] assms(2,3) by auto
next
  case (unreserve pod nn pl w pl' w')
  then show ?thesis using Unreserve_ok assms(2,3) by auto
next
  case (delete pod pl w pl' w')
  then show ?thesis using podDelete_ok assms(2,3) by auto
qed auto

lemma tdma_run_inv:
  assumes "tdma_run errText post cs s s'" "\<forall>c\<in>set cs. call_ok errText c" "tdma_inv (fst s)"
  shows "tdma_inv (fst s')"
  using assms by (induction rule: tdma_run.induct) (auto intro: tdma_step_inv)

lemma New_inv: "New args = Some pl \<Longrightarrow> - (2 ^ 61) < majorcycle pl \<Longrightarrow> majorcycle pl < 2 ^ 61 \<Longrightarrow> tdma_inv pl"
  by (auto simp: New_def tdma_inv_def slices_ok_def slot_ok_def spaced_def Let_def split: plgArgs.splits)

section \<open>Example pods\<close>

definition ex_pod :: "string \<Rightarrow> int \<Rightarrow> pod" where
  "ex_pod nm L = \<lparr>podName = nm, labels = Some [''Network'' \<mapsto> ''TDMA''],
     annotations = Some [''TDMA'' \<mapsto> jprint (JObj [(''Length'', enc_int L), (''Cycle'', enc_int 5000)])], podEnv = []\<rparr>"

lemma ex_ask: "int64 L \<Longrightarrow> tdma_ask errText (ex_pod nm L) = Ask L"
  by (simp add: tdma_ask_def ex_pod_def gomap_get_def unmarshal_def json_text_jprint dec_req_def dec_struct_def
      req_field_def int64_def del: jprint.simps)

lemma ex_ask_ok: "0 \<le> L \<Longrightarrow> L < 2 ^ 62 \<Longrightarrow> nm \<noteq> [] \<Longrightarrow> ask_ok errText (ex_pod nm L)"
  by (simp add: ask_ok_def ex_ask int64_def) (simp add: ex_pod_def)

definition ex_start :: tdma where
  "ex_start = ex_pl [\<lparr>Begin = 0, End = 100, PodName = [], NodeName = []\<rparr>]"

lemma ex_start_inv: "tdma_inv ex_start" "New NilArgs = Some ex_start"
  by (simp_all add: tdma_inv_def ex_start_def ex_pl_def slices_ok_def slot_ok_def spaced_def New_def Let_def)

lemma ex_reserve:
  "Reserve errText ex_post (ex_pod ''p'' 200) ''node0'' ex_start () =
     Ret (None, ex_pl [\<lparr>Begin = 0, End = 100, PodName = [], NodeName = []\<rparr>, ex_slot 110 310 ''p''], ())"
proof -
  let ?a = "\<lparr>Begin = 0, End = 100, PodName = [], NodeName = []\<rparr>"
  have n: "new_slice ?a 200 ''p'' ''node0'' = ex_slot 110 310 ''p''"
    by (simp add: new_slice_def ex_slot_def wrap64_range)
  have "reserveSlot ex_post ex_start (ex_slot 110 310 ''p'') () = (None, ())"
    unfolding ex_start_def reserveSlot_def slotCall_def ex_urls
    by (simp add: ex_post_def TDMAsched_OK slot64_def ex_slot_def int64_def)
  moreover have "reserve_loop call 200 ''p'' ''node0'' 0 [?a] () False = Some (None, [?a], (), False)" for call
    by (subst reserve_loop.simps) simp
  moreover have "end_fits 200 5000 ?a" by (simp add: end_fits_def wrap64_range)
  moreover have "podName (ex_pod ''p'' 200) = ''p''" by (simp add: ex_pod_def)
  ultimately show ?thesis using n by (simp add: Reserve_def ex_ask int64_def ex_start_def ex_pl_def)
qed

section \<open>Properties\<close>

text \<open>
  C7: Let the plugin be created with a major cycle below \<open>2 ^ 61\<close> in absolute value, and let reservations,
  releases and pod deletions come in any order, for pods that have a name and with requests whose
  length is not negative and below \<open>2 ^ 62\<close>; the master may refuse or fail at any time. Then any two
  slices are disjoint with at least ten microseconds between them, in the order of the list, and
  every slice but the initial one ends more than ten microseconds before the end of the cycle. The
  code does not check the length, and the condition on it cannot be dropped: see
  \<open>negative_length_overlaps\<close> and \<open>Reserve_negative_length_diverges\<close> below.
\<close>

theorem tdma_slices_disjoint:
  assumes "New args = Some pl0" "- (2 ^ 61) < majorcycle pl0" "majorcycle pl0 < 2 ^ 61"
    and "tdma_run errText post cs (pl0, w0) (pl, w)"
    and "\<forall>c\<in>set cs. call_ok errText c"
  shows "slices pl \<noteq> [] \<and>
    (\<forall>i j. i < j \<longrightarrow> j < length (slices pl) \<longrightarrow> End (slices pl ! i) + 10 \<le> Begin (slices pl ! j)) \<and>
    (\<forall>s\<in>set (slices pl). Begin s \<le> End s \<and> (End s \<le> 100 \<or> End s + 10 < majorcycle pl))"
proof -
  have "tdma_inv pl" using tdma_run_inv [OF assms(4,5)] New_inv [OF assms(1-3)] by simp
  then have ok: "slices_ok (majorcycle pl) (slices pl)" by (simp add: tdma_inv_def)
  then have "spaced (slices pl)" by (simp add: slices_ok_def)
  then show ?thesis using ok spaced_nth by (auto simp: slices_ok_def slot_ok_def)
qed

theorem tdma_slices_disjoint_witness:
  "End (slices (ex_pl [\<lparr>Begin = 0, End = 100, PodName = [], NodeName = []\<rparr>, ex_slot 110 310 ''p'']) ! 0) + 10 \<le>
     Begin (slices (ex_pl [\<lparr>Begin = 0, End = 100, PodName = [], NodeName = []\<rparr>, ex_slot 110 310 ''p'']) ! 1)"
proof -
  let ?pl = "ex_pl [\<lparr>Begin = 0, End = 100, PodName = [], NodeName = []\<rparr>, ex_slot 110 310 ''p'']"
  have "tdma_step (\<lambda>_. '''') ex_post (ReserveCall (ex_pod ''p'' 200) ''node0'') (ex_start, ()) (?pl, ())"
    using ex_reserve by (intro reserve)
  then have "tdma_run (\<lambda>_. '''') ex_post [ReserveCall (ex_pod ''p'' 200) ''node0''] (ex_start, ()) (?pl, ())"
    by (rule tdma_run.run_cons [OF _ tdma_run.run_nil])
  from tdma_slices_disjoint [OF ex_start_inv(2) _ _ this]
  have "\<forall>i j. i < j \<longrightarrow> j < length (slices ?pl) \<longrightarrow> End (slices ?pl ! i) + 10 \<le> Begin (slices ?pl ! j)"
    using ex_ask_ok [of 200 "''p''" "\<lambda>_. ''''"] by (simp add: ex_start_def ex_pl_def)
  from this [rule_format, of 0 1] show ?thesis by (simp add: ex_pl_def)
qed

text \<open>
  C8: Let the slices be in order, and let the pod have a name and ask for a length that is not negative
  and below \<open>2 ^ 62\<close>. Then a reservation ends, whatever the master answers, although the loop's bound
  grows while it runs; it keeps the slices in order and those of the other pods as they are, also
  when the master refuses; it succeeds only if \<open>PreFilter\<close> admits the pod on the same state, and then
  the pod has a slice of the length it asked for on the node. When the master agrees to
  every slice, its status is exactly that of \<open>PreFilter\<close>: the two phases of a scheduling cycle decide
  alike.
\<close>

theorem Reserve_agrees_with_PreFilter:
  assumes "tdma_inv pl" "ask_ok errText pod"
  shows "\<exists>st pl' w'. Reserve errText post pod nn pl w = Ret (st, pl', w') \<and> tdma_inv pl' \<and>
    filter (\<lambda>s. PodName s \<noteq> podName pod) (slices pl') = filter (\<lambda>s. PodName s \<noteq> podName pod) (slices pl) \<and>
    (st = None \<longrightarrow> PreFilter errText pl pod = Ret None) \<and>
    (\<forall>L. st = None \<longrightarrow> tdma_ask errText pod = Ask L \<longrightarrow>
       (\<exists>s\<in>set (slices pl'). PodName s = podName pod \<and> NodeName s = nn \<and> End s = Begin s + L)) \<and>
    ((\<forall>s v. fst (reserveSlot post pl s v) = None) \<longrightarrow> PreFilter errText pl pod = Ret st)"
  using Reserve_ok [OF assms, of post nn w] by (simp only: has_slice_def)

definition yes_post :: "string \<Rightarrow> string \<Rightarrow> unit \<Rightarrow> (string + string) \<times> unit" where
  "yes_post url body w = (Inr ''OK'', w)"

theorem Reserve_agrees_with_PreFilter_witness:
  "\<exists>st pl' w'. Reserve (\<lambda>_. '''') yes_post (ex_pod ''p'' 200) ''node0'' ex_start () = Ret (st, pl', w') \<and>
    PreFilter (\<lambda>_. '''') ex_start (ex_pod ''p'' 200) = Ret st \<and>
    filter (\<lambda>s. PodName s \<noteq> podName (ex_pod ''p'' 200)) (slices pl') =
      filter (\<lambda>s. PodName s \<noteq> podName (ex_pod ''p'' 200)) (slices ex_start)"
  using Reserve_agrees_with_PreFilter [of ex_start "\<lambda>_. ''''" "ex_pod ''p'' 200" yes_post "''node0''" "()"]
  by (auto simp: ex_start_inv ex_ask_ok reserveSlot_def slotCall_def yes_post_def)

text \<open>
  \<open>podDelete\<close> removes exactly the slices of the deleted pod and keeps the others in order,
  provided no two of them are adjacent.
\<close>

theorem podDelete_removes_pod:
  assumes "gomap_get (labels pod) ''Network'' = Some ''TDMA''"
    and "successively (\<lambda>a b. \<not> (PodName a = podName pod \<and> PodName b = podName pod)) (slices pl)"
  shows "slices (fst (podDelete post pod pl w)) = filter (\<lambda>s. PodName s \<noteq> podName pod) (slices pl)"
  using assms delete_loop_all [of "unreserveSlot post pl" "podName pod" 0 "slices pl" w]
  by (auto simp: podDelete_def split: prod.splits)

theorem podDelete_removes_pod_witness:
  "slices (fst (podDelete yes_post (ex_pod ''p'' 100) (ex_pl [ex_slot 0 100 '''', ex_slot 110 210 ''p'', ex_slot 220 320 ''q'']) ())) =
     filter (\<lambda>s. PodName s \<noteq> podName (ex_pod ''p'' 100)) (slices (ex_pl [ex_slot 0 100 '''', ex_slot 110 210 ''p'', ex_slot 220 320 ''q'']))"
  by (rule podDelete_removes_pod) (simp_all add: ex_pod_def ex_pl_def ex_slot_def gomap_get_def)

text \<open>
  \<open>Unreserve\<close> never removes the last slice, which is where \<open>Reserve\<close> puts the slice of a pod
  when no gap fits: such a pod keeps its slice when its scheduling fails later.
\<close>

theorem Unreserve_keeps_last:
  assumes "slices pl \<noteq> []"
  shows "slices (fst (Unreserve post pod nn pl w)) \<noteq> [] \<and> last (slices (fst (Unreserve post pod nn pl w))) = last (slices pl)"
  using assms unreserve_loop_ok [of "unreserveSlot post pl" "podName pod" 0 "slices pl" w]
  by (auto simp: Unreserve_def split: prod.splits)

theorem Unreserve_keeps_last_witness:
  "slices (fst (Unreserve yes_post (ex_pod ''p'' 200) ''node0'' (ex_pl [ex_slot 0 100 '''', ex_slot 110 310 ''p'']) ())) \<noteq> [] \<and>
   last (slices (fst (Unreserve yes_post (ex_pod ''p'' 200) ''node0'' (ex_pl [ex_slot 0 100 '''', ex_slot 110 310 ''p'']) ()))) =
     last (slices (ex_pl [ex_slot 0 100 '''', ex_slot 110 310 ''p'']))"
  by (rule Unreserve_keeps_last) (simp add: ex_pl_def)

text \<open>
  The reservation loop does not stop at the first gap that fits: one pod that asks for 100
  microseconds is given two slices of a gap of 300.
\<close>

theorem Reserve_takes_every_gap:
  "Reserve errText yes_post (ex_pod ''p'' 100) ''node0'' (ex_pl [ex_slot 0 100 '''', ex_slot 400 500 ''q'']) () =
     Ret (None, ex_pl [ex_slot 0 100 '''', ex_slot 110 210 ''p'', ex_slot 220 320 ''p'', ex_slot 400 500 ''q''], ())"
proof -
  have call: "reserveSlot yes_post pl s () = (None, ())" for pl s
    by (simp add: reserveSlot_def slotCall_def yes_post_def)
  have "reserve_loop (reserveSlot yes_post pl) 100 ''p'' ''node0'' 0 [ex_slot 0 100 '''', ex_slot 400 500 ''q''] () False =
    Some (None, [ex_slot 0 100 '''', ex_slot 110 210 ''p'', ex_slot 220 320 ''p'', ex_slot 400 500 ''q''], (), True)" for pl
    by (simp add: reserve_loop.simps gap_fits_def new_slice_def ex_slot_def wrap64_range sliceStable_def call)
  moreover have "podName (ex_pod ''p'' 100) = ''p''" by (simp add: ex_pod_def)
  ultimately show ?thesis by (simp add: Reserve_def ex_ask int64_def ex_pl_def)
qed

text \<open>
  A negative length passes the test of a gap for ever: every new slice is sorted in front of the
  one the index stands on.
\<close>

definition neg_slices :: "nat \<Rightarrow> slice list" where
  "neg_slices k = ex_slot 0 100 '''' # replicate k (ex_slot 100 80 ''p'') @ [ex_slot 110 90 ''p'', ex_slot 200 300 ''q'']"

lemma neg_step:
  "sliceStable Begin (neg_slices k @ [ex_slot 100 80 ''p'']) = neg_slices (Suc k)"
proof -
  have "sorted (map Begin (neg_slices k))" by (simp add: neg_slices_def ex_slot_def sorted_append)
  moreover have "takeWhile (\<lambda>y. \<not> 100 < Begin y) (neg_slices k) = ex_slot 0 100 '''' # replicate k (ex_slot 100 80 ''p'')"
    by (simp add: neg_slices_def ex_slot_def takeWhile_append)
  moreover have "dropWhile (\<lambda>y. \<not> 100 < Begin y) (neg_slices k) = [ex_slot 110 90 ''p'', ex_slot 200 300 ''q'']"
    by (simp add: neg_slices_def ex_slot_def dropWhile_append)
  moreover have "Begin (ex_slot 100 80 ''p'') = 100" by (simp add: ex_slot_def)
  moreover have "replicate k x @ x # xs = x # replicate k x @ xs" for x :: slice and xs by (induction k) simp_all
  ultimately show ?thesis
    by (simp add: sliceStable_snoc) (simp add: neg_slices_def)
qed

definition neg_state :: "(slice \<Rightarrow> 'w \<Rightarrow> statusp \<times> 'w) \<Rightarrow> int \<Rightarrow> string \<Rightarrow> string \<Rightarrow> nat \<Rightarrow> slice list \<Rightarrow> bool" where
  "neg_state call L pn nn i sl \<longleftrightarrow> L = -20 \<and> pn = ''p'' \<and> nn = ''node0'' \<and> (\<forall>s v. fst (call s v) = None) \<and>
     (\<exists>k. i = Suc k \<and> sl = neg_slices k)"

lemma neg_loop:
  assumes "reserve_loop call L pn nn i sl w sc = Some r"
  shows "\<not> neg_state call L pn nn i sl"
  using assms
proof (rule reserve_loop.raw_induct [where P = "\<lambda>call L pn nn i sl w sc r. \<not> neg_state call L pn nn i sl", rotated])
  fix f call L pn nn i sl w sc r
  assume IH: "\<And>call L pn nn i sl w sc r. f call L pn nn i sl w sc = Some r \<Longrightarrow> \<not> neg_state call L pn nn i sl"
    and eq: "(if i + 1 < length sl
      then if gap_fits L (sl ! i) (sl ! (i + 1))
           then case call (new_slice (sl ! i) L pn nn) w of
                (None, w') \<Rightarrow> f call L pn nn (i + 1) (sliceStable Begin (sl @ [new_slice (sl ! i) L pn nn])) w' True
                | (Some e, w') \<Rightarrow> Some (Some e, sl, w', sc)
           else f call L pn nn (i + 1) sl w sc
      else Some (None, sl, w, sc)) = Some r"
  show "\<not> neg_state call L pn nn i sl"
  proof
    assume ns: "neg_state call L pn nn i sl"
    then obtain k where k: "i = Suc k" "sl = neg_slices k" by (auto simp: neg_state_def)
    have a: "L = -20" "pn = ''p''" "nn = ''node0''" "\<forall>s v. fst (call s v) = None" using ns by (auto simp: neg_state_def)
    have n: "neg_slices k ! Suc k = ex_slot 110 90 ''p''" "neg_slices k ! (Suc k + 1) = ex_slot 200 300 ''q''" "Suc k + 1 < length (neg_slices k)"
      by (simp_all add: neg_slices_def nth_append)
    have g: "gap_fits (-20) (ex_slot 110 90 ''p'') (ex_slot 200 300 ''q'')"
      and x: "new_slice (ex_slot 110 90 ''p'') (-20) ''p'' ''node0'' = ex_slot 100 80 ''p''"
      by (simp_all add: gap_fits_def new_slice_def ex_slot_def wrap64_range)
    obtain w' where c: "call (ex_slot 100 80 ''p'') w = (None, w')" using a(4) by (metis prod.collapse)
    have "f call L pn nn (Suc (Suc k)) (neg_slices (Suc k)) w' True = Some r"
      using eq k a n g x c neg_step [of k] by simp
    moreover have "neg_state call L pn nn (Suc (Suc k)) (neg_slices (Suc k))" using a by (auto simp: neg_state_def)
    ultimately show False using IH by blast
  qed
qed

text \<open>
  A request with a negative length makes the reservation run for ever: no value of the loop is
  ever returned although the master agrees to every slice.
\<close>

theorem Reserve_negative_length_diverges:
  "Reserve errText yes_post (ex_pod ''p'' (-20)) ''node0'' (ex_pl [ex_slot 0 100 '''', ex_slot 200 300 ''q'']) () = Diverge"
proof -
  let ?sl = "[ex_slot 0 100 '''', ex_slot 200 300 ''q'']"
  let ?call = "reserveSlot yes_post (ex_pl ?sl)"
  have call: "?call s v = (None, v)" for s v by (simp add: reserveSlot_def slotCall_def yes_post_def)
  have "sliceStable Begin (?sl @ [ex_slot 110 90 ''p'']) = neg_slices 0"
    by (simp add: sliceStable_def neg_slices_def ex_slot_def)
  moreover have "gap_fits (-20) (ex_slot 0 100 '''') (ex_slot 200 300 ''q'')"
    "new_slice (ex_slot 0 100 '''') (-20) ''p'' ''node0'' = ex_slot 110 90 ''p''"
    by (simp_all add: gap_fits_def new_slice_def ex_slot_def wrap64_range)
  ultimately have "reserve_loop ?call (-20) ''p'' ''node0'' 0 ?sl () False =
      reserve_loop ?call (-20) ''p'' ''node0'' (Suc 0) (neg_slices 0) () True"
    by (subst reserve_loop.simps) (simp add: call)
  also have "\<dots> = None"
  proof (rule ccontr)
    assume "\<not> ?thesis"
    then show False using neg_loop [of ?call "-20" "''p''" "''node0''" "Suc 0" "neg_slices 0" "()" True] call
      by (auto simp: neg_state_def)
  qed
  finally have "reserve_loop ?call (-20) ''p'' ''node0'' 0 ?sl () False = None" .
  moreover have "podName (ex_pod ''p'' (-20)) = ''p''" "slices (ex_pl ?sl) = ?sl" by (simp_all add: ex_pod_def ex_pl_def)
  ultimately show ?thesis by (simp add: Reserve_def ex_ask int64_def)
qed

text \<open>
  A negative length ruins the spacing also when the reservation returns: on a new plugin a request
  for \<open>-100\<close> is given the slice from 110 to 10, and the next pod, which asks for 50, one that lies inside
  the initial slice. \<open>PreFilter\<close> admits both.
\<close>

theorem negative_length_overlaps:
  "tdma_run errText yes_post [ReserveCall (ex_pod ''p'' (-100)) ''node0'', ReserveCall (ex_pod ''q'' 50) ''node0'']
     (ex_start, ()) (ex_pl [\<lparr>Begin = 0, End = 100, PodName = [], NodeName = []\<rparr>, ex_slot 110 10 ''p'', ex_slot 20 70 ''q''], ()) \<and>
   PreFilter errText ex_start (ex_pod ''p'' (-100)) = Ret None"
proof -
  let ?a = "\<lparr>Begin = 0, End = 100, PodName = [], NodeName = []\<rparr>" and ?b = "ex_slot 110 10 ''p''"
  have call: "reserveSlot yes_post pl s () = (None, ())" for pl s
    by (simp add: reserveSlot_def slotCall_def yes_post_def)
  have "Reserve errText yes_post (ex_pod ''p'' (-100)) ''node0'' ex_start () = Ret (None, ex_pl [?a, ?b], ())"
    by (simp add: Reserve_def ex_ask int64_def ex_start_def ex_pl_def reserve_loop.simps call end_fits_def new_slice_def
        wrap64_range ex_slot_def) (simp add: ex_pod_def)
  moreover have "Reserve errText yes_post (ex_pod ''q'' 50) ''node0'' (ex_pl [?a, ?b]) () =
      Ret (None, ex_pl [?a, ?b, ex_slot 20 70 ''q''], ())"
    by (simp add: Reserve_def ex_ask int64_def ex_pl_def reserve_loop.simps gap_fits_def call end_fits_def new_slice_def
        wrap64_range ex_slot_def) (simp add: ex_pod_def)
  moreover have "PreFilter errText ex_start (ex_pod ''p'' (-100)) = Ret None"
    by (simp add: PreFilter_def ex_ask int64_def ex_start_def ex_pl_def end_fits_def wrap64_range)
  ultimately show ?thesis by (auto intro!: tdma_run.intros tdma_step.intros)
qed

end
