(* ===== verification/Score_Norm.thy ===== *)
theory Score_Norm
  imports K8s_Framework
begin

text \<open>
  Node scores and their normalisation. Two plugins carry a copy of the same normalisation routine;
  what it computes is proved once, and what the scheduler gets from it is proved for any routine
  that computes it, as a locale both plugins interpret.
\<close>

record nodeScore =
  nsName :: string
  nsScore :: int

section \<open>Extreme scores\<close>

lemma foldl_min: "foldl (\<lambda>f c. if c < f then c else f) a xs = Min (insert a (set xs))" for a :: int
proof (induction xs arbitrary: a)
  case (Cons x xs)
  have "foldl (\<lambda>f c. if c < f then c else f) a (x # xs) = Min (insert (min x a) (set xs))"
    using Cons by (simp add: min_def)
  also have "\<dots> = Min (insert a (set (x # xs)))"
    by (cases "set xs = {}") (simp_all add: min.assoc min.left_commute insert_commute)
  finally show ?case .
qed simp

lemma foldl_max: "foldl (\<lambda>h s. if f s > h then f s else h) a xs = Max (insert a (f ` set xs))" for a :: int
proof (induction xs arbitrary: a)
  case (Cons x xs)
  have "foldl (\<lambda>h s. if f s > h then f s else h) a (x # xs) = Max (insert (max (f x) a) (f ` set xs))"
    using Cons by (simp add: max_def)
  also have "\<dots> = Max (insert a (f ` set (x # xs)))"
    by (cases "f ` set xs = {}") (simp_all add: max.assoc max.left_commute insert_commute)
  finally show ?case .
qed simp

lemma foldl_minf: "foldl (\<lambda>l s. if f s < l then f s else l) a xs = Min (insert a (f ` set xs))" for a :: int
proof -
  have "foldl (\<lambda>l s. if f s < l then f s else l) a xs = foldl (\<lambda>l c. if c < l then c else l) a (map f xs)"
    by (simp add: foldl_map)
  then show ?thesis by (simp add: foldl_min)
qed

section \<open>The routine\<close>

text \<open>What the routine computes, wrap-around removed, for scores of less than 56 bits.\<close>

lemma normalize_body:
  assumes ne: "scores \<noteq> []" and rg: "\<forall>s\<in>set scores. \<bar>nsScore s\<bar> \<le> 2 ^ 55"
  defines "hi \<equiv> Max (nsScore ` set scores)" and "lo \<equiv> Min (nsScore ` set scores)"
  shows "(let highest = foldl (\<lambda>h s. if nsScore s > h then nsScore s else h) (- (2 ^ 63 - 1)) scores;
          lowest = foldl (\<lambda>l s. if nsScore s < l then nsScore s else l) (2 ^ 63 - 1) scores;
          oldRange = wrap64 (highest - lowest);
          newRange = MaxNodeScore - MinNodeScore
      in map (\<lambda>s. s\<lparr>nsScore := (if oldRange = 0 then MinNodeScore
            else wrap64 (go_div (wrap64 (wrap64 (nsScore s - lowest) * newRange)) oldRange + MinNodeScore))\<rparr>) scores) =
    map (\<lambda>s. s\<lparr>nsScore := if hi = lo then 0 else (nsScore s - lo) * 100 div (hi - lo)\<rparr>) scores"
proof -
  let ?S = "nsScore ` set scores"
  have S: "finite ?S" "?S \<noteq> {}" using ne by auto
  have "hi \<in> ?S" "lo \<in> ?S" unfolding hi_def lo_def using S by (auto intro: Max_in Min_in)
  then have b: "- (2 ^ 55) \<le> hi" "hi \<le> 2 ^ 55" "- (2 ^ 55) \<le> lo" "lo \<le> 2 ^ 55" using rg by auto
  have le: "lo \<le> nsScore s" "nsScore s \<le> hi" if "s \<in> set scores" for s
    unfolding hi_def lo_def using S that by auto
  have h: "Max (insert (- (2 ^ 63 - 1)) ?S) = hi"
    using Max_insert [OF S, of "- (2 ^ 63 - 1)"] b by (simp flip: hi_def)
  have l: "Min (insert (2 ^ 63 - 1) ?S) = lo"
    using Min_insert [OF S, of "2 ^ 63 - 1"] b by (simp flip: lo_def)
  have w: "wrap64 (hi - lo) = hi - lo" using b by (simp add: wrap64_range)
  have e: "wrap64 (go_div (wrap64 (wrap64 (nsScore s - lo) * 100)) (hi - lo)) = (nsScore s - lo) * 100 div (hi - lo)"
    if s: "s \<in> set scores" and ne: "hi \<noteq> lo" for s
  proof -
    have d: "0 \<le> nsScore s - lo" "nsScore s - lo \<le> 2 ^ 56" "0 < hi - lo" using le [OF s] ne b by auto
    then have "0 \<le> (nsScore s - lo) * 100 div (hi - lo)" "(nsScore s - lo) * 100 div (hi - lo) \<le> (nsScore s - lo) * 100"
      using zdiv_mono2 [of "(nsScore s - lo) * 100" 1 "hi - lo"] by (auto simp: pos_imp_zdiv_nonneg_iff)
    with d show ?thesis by (simp add: wrap64_range go_div_nonneg)
  qed
  show ?thesis
    unfolding foldl_max foldl_minf h l w Let_def MaxNodeScore_def MinNodeScore_def
    using e by (auto intro!: map_cong)
qed

section \<open>What the scheduler gets\<close>

locale score_normalizer =
  fixes normalize :: "nodeScore list \<Rightarrow> nodeScore list"
  assumes normalize_exact: "scores \<noteq> [] \<Longrightarrow> \<forall>s\<in>set scores. \<bar>nsScore s\<bar> \<le> 2 ^ 55 \<Longrightarrow>
    normalize scores = map (\<lambda>s. s\<lparr>nsScore := if Max (nsScore ` set scores) = Min (nsScore ` set scores) then 0
      else (nsScore s - Min (nsScore ` set scores)) * 100 div (Max (nsScore ` set scores) - Min (nsScore ` set scores))\<rparr>) scores"
begin

lemma range_and_order:
  assumes "scores \<noteq> []" "\<forall>s\<in>set scores. \<bar>nsScore s\<bar> \<le> 2 ^ 55"
  shows "map nsName (normalize scores) = map nsName scores \<and>
    (\<forall>s\<in>set (normalize scores). 0 \<le> nsScore s \<and> nsScore s \<le> 100) \<and>
    (\<forall>i j. i < length scores \<longrightarrow> j < length scores \<longrightarrow> nsScore (scores ! i) \<le> nsScore (scores ! j) \<longrightarrow>
       nsScore (normalize scores ! i) \<le> nsScore (normalize scores ! j)) \<and>
    ((\<exists>s\<in>set scores. \<exists>t\<in>set scores. nsScore s \<noteq> nsScore t) \<longrightarrow>
       (\<exists>s\<in>set (normalize scores). nsScore s = 100) \<and> (\<exists>s\<in>set (normalize scores). nsScore s = 0))"
proof -
  define hi where "hi = Max (nsScore ` set scores)"
  define lo where "lo = Min (nsScore ` set scores)"
  let ?g = "\<lambda>x. if hi = lo then 0 else (x - lo) * 100 div (hi - lo)"
  note ex = normalize_exact [OF assms, folded hi_def lo_def]
  have S: "finite (nsScore ` set scores)" "nsScore ` set scores \<noteq> {}" using assms(1) by auto
  have le: "lo \<le> nsScore s" "nsScore s \<le> hi" if "s \<in> set scores" for s
    unfolding hi_def lo_def using S that by auto
  have mono: "?g x \<le> ?g y" if "x \<le> y" "lo \<le> hi" for x y
    using that by (auto intro!: zdiv_mono1 mult_right_mono)
  have ll: "lo \<le> hi" using le assms(1) by (cases scores) fastforce+
  have rg: "0 \<le> ?g x \<and> ?g x \<le> 100" if "lo \<le> x" "x \<le> hi" for x
  proof -
    have "?g lo = 0" by simp
    moreover have "?g hi \<le> 100" using nonzero_mult_div_cancel_left [of "hi - lo" 100] by (simp del: left_diff_distrib_numeral)
    ultimately show ?thesis using mono [OF that(1) ll] mono [OF that(2) ll] by linarith
  qed
  have "hi \<in> nsScore ` set scores" "lo \<in> nsScore ` set scores"
    unfolding hi_def lo_def using S by (auto intro: Max_in Min_in)
  then obtain a b where ab: "a \<in> set scores" "nsScore a = hi" "b \<in> set scores" "nsScore b = lo" by auto
  have ends: "(\<exists>s\<in>set (normalize scores). nsScore s = 100) \<and> (\<exists>s\<in>set (normalize scores). nsScore s = 0)"
    if hl: "hi \<noteq> lo"
  proof -
    have "(hi - lo) * 100 div (hi - lo) = 100" using hl by (intro nonzero_mult_div_cancel_left) simp
    then have "?g (nsScore a) = 100" "?g (nsScore b) = 0" using ab hl by simp_all
    then show ?thesis unfolding ex using ab by force
  qed
  have "hi \<noteq> lo" if "s \<in> set scores" "t \<in> set scores" "nsScore s \<noteq> nsScore t" for s t
    using le that by (metis order_antisym order_trans)
  then show ?thesis using ends rg le mono [OF _ ll] unfolding ex by (auto simp: comp_def)
qed

end

end
