(* ===== verification/Rt_Plugin.thy ===== *)
theory Rt_Plugin
  imports Rubicante_Http Score_Norm
begin

text \<open>
  The real-time plugin of the scheduler (\<open>plugins/rtschedulability/rtschedulability.go\<close>): it
  reads the pod's task set from an annotation, asks the daemon of every candidate node whether it
  can host the tasks, asks again with the intention to bind, and scores nodes by the bandwidth
  left on their emptiest core. The daemon is reached through the parameter \<open>post\<close>.
\<close>

section \<open>Data\<close>

text \<open>A nil map of execution times reads like an empty one and is replaced before it is written.\<close>

record fatTask =
  fPeriod :: int
  Wcethi :: "string \<rightharpoonup> int"
  Wcetlo :: int
  fPrio :: int

record fatSchedRequest =
  fTasks :: "fatTask list"
  fName :: string

record rtschedulability =
  urltable :: "string \<rightharpoonup> string"
  iptable :: "string \<rightharpoonup> string"
  status_of :: "string \<rightharpoonup> int list"

record node =
  nodeName :: string
  addresses :: "string list"

text \<open>What a scheduling cycle stores for the plugins, here under the key of this plugin only.\<close>

type_synonym cycleState = "string \<rightharpoonup> fatSchedRequest"

definition preFilterKey :: string where "preFilterKey = ''FatRTInterface''"

definition New :: "rtschedulability" where
  "New = \<lparr>urltable = Map.empty, iptable = Map.empty, status_of = Map.empty\<rparr>"

section \<open>The request of the pod\<close>

definition fatTask_field :: "string \<Rightarrow> json \<Rightarrow> fatTask \<Rightarrow> fatTask \<times> bool" where
  "fatTask_field f v t =
     (if f = ''Period'' then (let (i, e) = dec_int v (fPeriod t) in (t\<lparr>fPeriod := i\<rparr>, e))
      else if f = ''Wcethi'' then (let (mp, e) = dec_map v (Wcethi t) in (t\<lparr>Wcethi := mp\<rparr>, e))
      else if f = ''Wcetlo'' then (let (i, e) = dec_int v (Wcetlo t) in (t\<lparr>Wcetlo := i\<rparr>, e))
      else (let (i, e) = dec_int v (fPrio t) in (t\<lparr>fPrio := i\<rparr>, e)))"

definition zero_fatTask :: fatTask where
  "zero_fatTask = \<lparr>fPeriod = 0, Wcethi = Map.empty, Wcetlo = 0, fPrio = 0\<rparr>"

definition dec_fatTask :: "json \<Rightarrow> fatTask \<Rightarrow> fatTask \<times> bool" where
  "dec_fatTask = dec_struct fatTask_field [''Period'', ''Wcethi'', ''Wcetlo'', ''Prio'']"

definition fat_field :: "string \<Rightarrow> json \<Rightarrow> fatSchedRequest \<Rightarrow> fatSchedRequest \<times> bool" where
  "fat_field f v r =
     (if f = ''Tasks'' then (let (ts, e) = dec_slice dec_fatTask zero_fatTask v (fTasks r) in (r\<lparr>fTasks := ts\<rparr>, e))
      else (let (t, e) = dec_str v (fName r) in (r\<lparr>fName := t\<rparr>, e)))"

definition dec_fat :: "json \<Rightarrow> fatSchedRequest \<Rightarrow> fatSchedRequest \<times> bool" where
  "dec_fat = dec_struct fat_field [''Tasks'', ''Name'']"

text \<open>The annotation without its last byte, which should be the closing brace, and the pod's name.\<close>

definition spliceName :: "string \<Rightarrow> string \<Rightarrow> string" where
  "spliceName ann pn = butlast ann @ CHR '','' # CHR '' '' # CHR 0x22 # ''Name'' @ CHR 0x22 # CHR '':'' # CHR '' '' # CHR 0x22 # pn @ [CHR 0x22, CHR ''}'']"

definition PreFilter :: "(json_error \<Rightarrow> string) \<Rightarrow> pod \<Rightarrow> cycleState \<Rightarrow> (statusp \<times> cycleState) go" where
  "PreFilter errText pod cs = (case gomap_get (annotations pod) ''schedRequest'' of
      None \<Rightarrow> Ret (None, cs)
    | Some ann \<Rightarrow>
        if ann = [] then Panic SliceOutOfRange
        else (case unmarshal dec_fat (spliceName ann (podName pod)) \<lparr>fTasks = [], fName = []\<rparr> of
                (_, Some e) \<Rightarrow> Ret (NewStatus UnschedulableAndUnresolvable [errText e], cs)
              | (r, None) \<Rightarrow> Ret (None, cs(preFilterKey \<mapsto> r))))"

definition FatTasktoTask :: "string \<Rightarrow> string \<Rightarrow> fatTask \<Rightarrow> task" where
  "FatTasktoTask criticality nodename ft =
     \<lparr>Period = fPeriod ft,
      Wcet = (if criticality = ''HI'' then (case Wcethi ft nodename of None \<Rightarrow> 0 | Some w \<Rightarrow> w)
              else if criticality = ''LO'' then Wcetlo ft else 0),
      Prio = fPrio ft\<rparr>"

fun thin_tasks :: "string \<Rightarrow> string \<Rightarrow> fatTask list \<Rightarrow> task list option" where
  "thin_tasks cr nn [] = Some []"
| "thin_tasks cr nn (ft # fts) =
     (let t = FatTasktoTask cr nn ft
      in if Wcet t = 0 then None else map_option (\<lambda>ts. t # ts) (thin_tasks cr nn fts))"

definition FatSchedReqtoSchedReq :: "string \<Rightarrow> string \<Rightarrow> fatSchedRequest \<Rightarrow> schedRequest option" where
  "FatSchedReqtoSchedReq criticality nodename fsr =
     map_option (\<lambda>ts. \<lparr>Tasks = ts, Name = fName fsr, Criticality = criticality\<rparr>)
       (thin_tasks criticality nodename (fTasks fsr))"

section \<open>Filter and PreBind\<close>

definition unresolvable :: "string \<Rightarrow> statusp" where
  "unresolvable msg = NewStatus UnschedulableAndUnresolvable [msg]"

text \<open>
  \<open>Filter\<close> remembers the node's address on first use. A response without a result is a nil
  pointer that is dereferenced.
\<close>

definition Filter :: "(json_error \<Rightarrow> string) \<Rightarrow> 'w http \<Rightarrow> cycleState \<Rightarrow> pod \<Rightarrow> node option \<Rightarrow> rtschedulability \<Rightarrow> 'w
    \<Rightarrow> (statusp \<times> rtschedulability \<times> 'w) go" where
  "Filter errText post cs pod ni pl w = (case cs preFilterKey of
      None \<Rightarrow> Ret (None, pl, w)
    | Some fsr \<Rightarrow> (case ni of
        None \<Rightarrow> Ret (NewStatus ErrorCode [''node not found''], pl, w)
      | Some nd \<Rightarrow>
          if urltable pl (nodeName nd) = None \<and> addresses nd = [] then Panic IndexOutOfRange
          else
            (let pl1 = (case urltable pl (nodeName nd) of
                   Some _ \<Rightarrow> pl
                 | None \<Rightarrow> pl\<lparr>iptable := (iptable pl)(nodeName nd \<mapsto> hd (addresses nd)),
                     urltable := (urltable pl)(nodeName nd \<mapsto> ''http://'' @ hd (addresses nd) @ '':8888/shedulabilityTest'')\<rparr>);
                 url = the (urltable pl1 (nodeName nd))
             in case gomap_get (labels pod) ''Criticality'' of
                 None \<Rightarrow> Ret (NewStatus ErrorCode [''RT requests but no criticality found!''], pl1, w)
               | Some cr \<Rightarrow> (case FatSchedReqtoSchedReq cr (nodeName nd) fsr of
                   None \<Rightarrow> Ret (unresolvable ''No WCET found for the node!'', pl1, w)
                 | Some r \<Rightarrow> (case post (trimSpace url) (jprint (enc_request r)) w of
                     (Inl e, w1) \<Rightarrow> Ret (unresolvable e, pl1, w1)
                   | (Inr body, w1) \<Rightarrow> (case unmarshal dec_schedResponse body \<lparr>SchedRes = None, Status = []\<rparr> of
                       (_, Some e) \<Rightarrow> Ret (unresolvable (errText e), pl1, w1)
                     | (res, None) \<Rightarrow> (case SchedRes res of
                         None \<Rightarrow> Panic NilDereference
                       | Some sr \<Rightarrow>
                           if Schedulable sr
                           then Ret (None, pl1\<lparr>status_of := (status_of pl1)(nodeName nd \<mapsto> Status res)\<rparr>, w1)
                           else Ret (unresolvable ''Not schedulable'', pl1, w1))))))))"

text \<open>The environment variable goes to the first container only: the loop returns in its first pass.\<close>

definition addEnv :: "int \<Rightarrow> pod \<Rightarrow> pod" where
  "addEnv tgid pod = (case podEnv pod of
      [] \<Rightarrow> pod | e # es \<Rightarrow> pod\<lparr>podEnv := (e @ [(''TGID'', itoa tgid)]) # es\<rparr>)"

definition PreBind :: "(json_error \<Rightarrow> string) \<Rightarrow> 'w http \<Rightarrow> cycleState \<Rightarrow> pod \<Rightarrow> string \<Rightarrow> rtschedulability \<Rightarrow> 'w
    \<Rightarrow> (statusp \<times> pod \<times> 'w) go" where
  "PreBind errText post cs pod nn pl w = (case cs preFilterKey of
      None \<Rightarrow> Ret (None, pod, w)
    | Some fsr \<Rightarrow>
       (let address = (case iptable pl nn of None \<Rightarrow> [] | Some a \<Rightarrow> a);
            url = ''http://'' @ address @ '':8888/podBind'';
            cr = (case gomap_get (labels pod) ''Criticality'' of None \<Rightarrow> [] | Some c \<Rightarrow> c)
        in case FatSchedReqtoSchedReq cr nn fsr of
            None \<Rightarrow> Ret (unresolvable ''No WCET found for the node!'', pod, w)
          | Some r \<Rightarrow> (case post (trimSpace url) (jprint (enc_request r)) w of
              (Inl e, w1) \<Rightarrow> Ret (unresolvable e, pod, w1)
            | (Inr body, w1) \<Rightarrow> (case unmarshal dec_bindResponse body \<lparr>Result = None, TGID = 0\<rparr> of
                (_, Some e) \<Rightarrow> Ret (unresolvable (errText e), pod, w1)
              | (res, None) \<Rightarrow> (case Result res of
                  None \<Rightarrow> Panic NilDereference
                | Some sr \<Rightarrow>
                    if Schedulable sr
                    then go_bind (gomap_put ''TGID'' (itoa (TGID res)) (annotations pod)) (\<lambda>m1.
                         go_bind (gomap_put ''RTbandwidth'' (itoa (Bandwidth sr)) m1) (\<lambda>m2.
                           Ret (None, addEnv (TGID res) (pod\<lparr>annotations := m2\<rparr>), w1)))
                    else Ret (unresolvable ''Not schedulable'', pod, w1))))))"

section \<open>Scores\<close>

definition computeScore :: "int list \<Rightarrow> int" where
  "computeScore st = wrap64 (100 - foldl (\<lambda>f c. if c < f then c else f) 100 st)"

definition Score :: "rtschedulability \<Rightarrow> string \<Rightarrow> int" where
  "Score pl nn = computeScore (case status_of pl nn of None \<Rightarrow> [] | Some st \<Rightarrow> st)"

definition NormalizeScore :: "nodeScore list \<Rightarrow> nodeScore list" where
  "NormalizeScore scores =
     (let highest = foldl (\<lambda>h s. if nsScore s > h then nsScore s else h) (- (2 ^ 63 - 1)) scores;
          lowest = foldl (\<lambda>l s. if nsScore s < l then nsScore s else l) (2 ^ 63 - 1) scores;
          oldRange = wrap64 (highest - lowest);
          newRange = MaxNodeScore - MinNodeScore
      in map (\<lambda>s. s\<lparr>nsScore := (if oldRange = 0 then MinNodeScore
            else wrap64 (go_div (wrap64 (wrap64 (nsScore s - lowest) * newRange)) oldRange + MinNodeScore))\<rparr>) scores)"

end
