(* ===== verification/Rt_Props.thy ===== *)
theory Rt_Props
  imports Rt_Plugin
begin

text \<open>
  Properties of the real-time plugin, alone and together with the daemon of the node it calls.
\<close>

section \<open>The request\<close>

lemma thin_tasks_Some:
  "thin_tasks cr nn fts = Some ts \<longleftrightarrow> ts = map (FatTasktoTask cr nn) fts \<and> (\<forall>t\<in>set ts. Wcet t \<noteq> 0)"
  by (induction fts arbitrary: ts) (auto simp: Let_def)

lemma thin_tasks_None: "thin_tasks cr nn fts = None \<longleftrightarrow> (\<exists>ft\<in>set fts. Wcet (FatTasktoTask cr nn ft) = 0)"
  by (induction fts) (auto simp: Let_def)

text \<open>The bytes a pod's name can have here: ASCII without quotes, backslashes and control characters.\<close>

definition plain :: "string \<Rightarrow> bool" where
  "plain s \<longleftrightarrow> (\<forall>c\<in>set s. c \<noteq> CHR 0x22 \<and> c \<noteq> CHR 0x5C \<and> \<not> (of_char c :: nat) < 32 \<and> (of_char c :: nat) < 128)"

lemma str_body_plain: "plain s \<Longrightarrow> str_body (s @ CHR 0x22 # r) = Some (s, r)"
proof (induction s)
  case (Cons c s)
  then have "plain s" "c \<noteq> CHR 0x22" "c \<noteq> CHR 0x5C" "\<not> (of_char c :: nat) < 32" "(of_char c :: nat) < 128" by (simp_all add: plain_def)
  with Cons.IH show ?case by (simp add: str_body_raw)
qed (simp add: str_body_end)

lemma skip_ws_space: "skip_ws (CHR '' '' # CHR 0x22 # s) = CHR 0x22 # s"
  by (simp add: skip_ws_def is_ws_def)

lemma pmems_Name:
  assumes "plain pn"
  shows "pmems (CHR '' '' # CHR 0x22 # ''Name'' @ CHR 0x22 # CHR '':'' # CHR '' '' # CHR 0x22 # pn @ [CHR 0x22, CHR ''}'']) =
    Some ([(''Name'', JStr pn)], [])"
proof -
  have "plain ''Name''" by (simp add: plain_def)
  then have n: "str_body (''Name'' @ CHR 0x22 # x) = Some (''Name'', x)" for x by (rule str_body_plain)
  have "pval (CHR '' '' # CHR 0x22 # pn @ [CHR 0x22, CHR ''}'']) = Some (JStr pn, [CHR ''}''])"
    using str_body_plain [OF assms, of "[CHR ''}'']"] by (subst pval.simps) (simp add: skip_ws_space)
  with n [of "CHR '':'' # CHR '' '' # CHR 0x22 # pn @ [CHR 0x22, CHR ''}'']"] show ?thesis
    by (subst pmems.simps) (simp add: skip_ws_space)
qed

lemma json_text_splice:
  assumes "ms \<noteq> []" "printed (JObj ms)" "plain pn"
  shows "json_text (spliceName (jprint (JObj ms)) pn) = Some (JObj (wire_members ms @ [(''Name'', JStr pn)]))"
proof -
  let ?l = "map (\<lambda>(k, v). quote k @ CHR '':'' # jprint v) ms"
  let ?rest = "CHR '' '' # CHR 0x22 # ''Name'' @ CHR 0x22 # CHR '':'' # CHR '' '' # CHR 0x22 # pn @ [CHR 0x22, CHR ''}'']"
  let ?t = "commas ?l @ CHR '','' # ?rest"
  have s: "spliceName (jprint (JObj ms)) pn = CHR ''{'' # ?t" by (simp add: spliceName_def butlast_append)
  have rb: "\<forall>(k, v)\<in>set ms. reads_back v" using assms(2) printed_reads_back by auto
  have pm: "pmems ?t = Some (wire_members ms @ [(''Name'', JStr pn)], [])"
    by (rule pmems_print_more [OF assms(1) rb pmems_Name [OF assms(3)]])
  have "hd (hd ?l) = CHR 0x22" "hd ?l \<noteq> []" using assms(1) by (cases ms; auto simp: quote_def)+
  then have t: "?t \<noteq> []" "hd ?t = CHR 0x22" using hd_commas [of ?l] assms(1) by auto
  then have "skip_ws ?t = ?t" by (intro skip_ws_id) (simp add: is_ws_def)
  then have "pval (CHR ''{'' # ?t) = Some (JObj (wire_members ms @ [(''Name'', JStr pn)]), [])"
    using pm t by (subst pval.simps) (simp del: append_Cons append_assoc)
  then show ?thesis unfolding s json_text_def by simp
qed

lemma dec_members_append:
  "dec_members upd fs (ms @ ms') s =
     (let (s1, e1) = dec_members upd fs ms s; (s2, e2) = dec_members upd fs ms' s1 in (s2, e1 \<or> e2))"
  by (induction ms arbitrary: s) (auto simp: Let_def split: prod.splits)

text \<open>
  Splicing the pod's name into the text of the annotation works: for an annotation that is the
  text of a nonempty JSON object, \<open>PreFilter\<close> stores the object's task list, and the name of the
  pod whatever name the object itself gives, or answers with the error of the object's own
  decoding.
\<close>

theorem PreFilter_stores_request:
  assumes "gomap_get (annotations pod) ''schedRequest'' = Some (jprint (JObj ms))"
    and "ms \<noteq> []" "printed (JObj ms)" "plain (podName pod)"
    and "dec_fat (jwire (JObj ms)) \<lparr>fTasks = [], fName = []\<rparr> = (r, e)"
  shows "PreFilter errText pod cs =
    Ret (if e then (NewStatus UnschedulableAndUnresolvable [errText UnmarshalTypeError], cs)
         else (None, cs(preFilterKey \<mapsto> r\<lparr>fName := podName pod\<rparr>)))"
proof -
  have "dec_fat (JObj (wire_members ms @ [(''Name'', JStr (podName pod))])) \<lparr>fTasks = [], fName = []\<rparr> = (r\<lparr>fName := podName pod\<rparr>, e)"
    using assms(5) by (simp add: dec_fat_def dec_struct_def dec_members_append fat_field_def)
  then show ?thesis using assms(1) json_text_splice [OF assms(2-4)]
    by (simp add: PreFilter_def unmarshal_def del: jprint.simps) (simp add: jprint.simps)
qed

definition ex_ann :: "(string \<times> json) list" where
  "ex_ann = [(''Tasks'', JArr [JObj [(''Period'', enc_int 5000), (''Wcethi'', JObj [(''node0'', enc_int 500)]),
     (''Wcetlo'', enc_int 300), (''Prio'', enc_int 1)]])]"

definition ex_fat :: fatTask where
  "ex_fat = \<lparr>fPeriod = 5000, Wcethi = [''node0'' \<mapsto> 500], Wcetlo = 300, fPrio = 1\<rparr>"

definition ex_rtpod :: pod where
  "ex_rtpod = \<lparr>podName = ''b'', labels = Some [''Criticality'' \<mapsto> ''HI''],
     annotations = Some [''schedRequest'' \<mapsto> jprint (JObj ex_ann)], podEnv = [[], []]\<rparr>"

lemma ex_ann_decoded: "dec_fat (jwire (JObj ex_ann)) \<lparr>fTasks = [], fName = []\<rparr> = (\<lparr>fTasks = [ex_fat], fName = []\<rparr>, False)"
  by (simp add: ex_ann_def ex_fat_def dec_fat_def dec_struct_def fat_field_def dec_slice_def dec_fatTask_def
      fatTask_field_def zero_fatTask_def dec_map_def int64_def)

theorem PreFilter_stores_request_witness:
  "PreFilter (\<lambda>_. '''') ex_rtpod Map.empty = Ret (None, [preFilterKey \<mapsto> \<lparr>fTasks = [ex_fat], fName = ''b''\<rparr>])"
proof -
  have "PreFilter (\<lambda>_. '''') ex_rtpod Map.empty = Ret (if False then (NewStatus UnschedulableAndUnresolvable [''''], Map.empty)
      else (None, [preFilterKey \<mapsto> \<lparr>fTasks = [ex_fat], fName = []\<rparr>\<lparr>fName := podName ex_rtpod\<rparr>]))"
    by (rule PreFilter_stores_request [where ms = ex_ann, OF _ _ _ _ ex_ann_decoded])
      (simp_all add: ex_rtpod_def gomap_get_def plain_def ex_ann_def del: jprint.simps)
  then show ?thesis by (simp add: ex_rtpod_def)
qed

section \<open>Together with the daemon\<close>

text \<open>
  Where \<open>Filter\<close> finds the daemon of a node: the URL it remembers, or else one made from the first of
  the node's addresses, which it then remembers.
\<close>

definition node_url :: "rtschedulability \<Rightarrow> node \<Rightarrow> string option" where
  "node_url pl nd = (case urltable pl (nodeName nd) of
      Some url \<Rightarrow> Some url
    | None \<Rightarrow> (case addresses nd of [] \<Rightarrow> None | addr # _ \<Rightarrow> Some (''http://'' @ addr @ '':8888/shedulabilityTest'')))"

definition learned :: "rtschedulability \<Rightarrow> node \<Rightarrow> rtschedulability" where
  "learned pl nd = (if urltable pl (nodeName nd) \<noteq> None then pl
     else pl\<lparr>iptable := (iptable pl)(nodeName nd \<mapsto> hd (addresses nd)),
        urltable := (urltable pl)(nodeName nd \<mapsto> ''http://'' @ hd (addresses nd) @ '':8888/shedulabilityTest'')\<rparr>)"

text \<open>
  C10: For a pod with a stored request and a criticality the plugin's \<open>Filter\<close> decides as the node's
  admission test. Assume that every task of the request has an execution time for the node, that the
  numbers are 64-bit integers, that the network delivers the message on the node's URL to the handler
  of the node, whose state it finds unlocked, and that the test returns there. Then the
  node passes exactly if the test accepts the pod's tasks with the execution times for that node,
  sorted by priority, the request's strings as JSON carries them. The bandwidths of the answer are kept for the score
  if the node passes, and nothing else of the plugin's state changes but the address and the URL of
  a node it has not met before. The URL is the remembered one, or else that of the first of the
  node's addresses; with neither the code panics.
\<close>

theorem Filter_decides_admission:
  assumes "cs preFilterKey = Some fsr" "gomap_get (labels pod) ''Criticality'' = Some cr"
    and "FatSchedReqtoSchedReq cr (nodeName nd) fsr = Some r" "request64 r"
    and "\<And>url body d t d'. node_url pl nd = Some url \<Longrightarrow> SchedulabilityTest errText N body d = (Replied t, d') \<Longrightarrow>
      post (trimSpace url) body d = (Inr t, d')"
    and "\<not> m s" "schedTest N (sortTasks (wire_request r)) False (s\<lparr>m := True\<rparr>) = Ret (res, used, s')" "N < 2 ^ 63"
  shows "Filter errText post cs pod (Some nd) pl (Up s) =
      (if node_url pl nd = None then Panic IndexOutOfRange
       else if Schedulable res
       then Ret (None, (learned pl nd)\<lparr>status_of := (status_of pl)(nodeName nd \<mapsto> used)\<rparr>, Up (s'\<lparr>m := False\<rparr>))
       else Ret (unresolvable ''Not schedulable'', learned pl nd, Up (s'\<lparr>m := False\<rparr>)))"
proof (cases "node_url pl nd")
  case None
  then show ?thesis using assms(1) by (simp add: Filter_def node_url_def split: option.splits list.splits)
next
  case (Some url)
  let ?resp = "\<lparr>SchedRes = Some res, Status = used\<rparr>"
  have "response64 ?resp" using schedTest_int64 [OF assms(7,8)] by (simp add: response64_def)
  note trip = schedResponse_codec.round_trip [OF this]
  have "SchedulabilityTest errText N (jprint (enc_request r)) (Up s) =
      (Replied (jprint (enc_schedResponse ?resp)), Up (s'\<lparr>m := False\<rparr>))"
    using request_codec.round_trip [OF assms(4)] lockedTest_Ret [OF assms(6,7)] by (simp add: SchedulabilityTest_def)
  note reply = assms(5) [OF Some this]
  show ?thesis
  proof (cases "urltable pl (nodeName nd)")
    case None
    then obtain addr ads where "addresses nd = addr # ads" "url = ''http://'' @ addr @ '':8888/shedulabilityTest''"
      using Some by (auto simp: node_url_def split: list.splits)
    then show ?thesis
      using None Some assms(1-3) reply trip by (simp add: Filter_def Let_def learned_def wire_schedResponse_def)
  next
    case (Some u)
    then have "u = url" using \<open>node_url pl nd = Some url\<close> by (simp add: node_url_def)
    then show ?thesis
      using Some \<open>node_url pl nd = Some url\<close> assms(1-3) reply trip by (simp add: Filter_def Let_def learned_def wire_schedResponse_def)
  qed
qed

definition ex_up :: "container list \<Rightarrow> rstate" where
  "ex_up cs = \<lparr>containers = cs, m = False, changed = False\<rparr>"

definition ex_c :: "string \<Rightarrow> int \<Rightarrow> int \<Rightarrow> int \<Rightarrow> int \<Rightarrow> container" where
  "ex_c nm P C b p = \<lparr>tasks = [\<lparr>Period = P, Wcet = C, Prio = 1\<rparr>], band = b, name = nm, period = 2500, prio = p, core = 0\<rparr>"

definition ex_r :: schedRequest where
  "ex_r = \<lparr>Tasks = [\<lparr>Period = 5000, Wcet = 500, Prio = 1\<rparr>], Name = ''b'', Criticality = ''HI''\<rparr>"

text \<open>A network that reaches the daemon of a node of one core at the address \<open>n0\<close>.\<close>

definition ex_net :: "daemon http" where
  "ex_net url body d =
     (if url = ''http://n0:8888/shedulabilityTest''
      then (case SchedulabilityTest (\<lambda>_. '''') 1 body d of (Replied t, d') \<Rightarrow> (Inr t, d') | (_, d') \<Rightarrow> (Inl ''EOF'', d'))
      else if url = ''http://n0:8888/podBind''
      then (case PodBind (\<lambda>_. '''') 1 body d of (Replied t, d') \<Rightarrow> (Inr t, d') | (_, d') \<Rightarrow> (Inl ''EOF'', d'))
      else (Inl ''no route'', d))"

lemma ex_net_urls:
  "trimSpace (''http://'' @ ''n0'' @ '':8888/shedulabilityTest'') = ''http://n0:8888/shedulabilityTest''"
  "trimSpace (''http://'' @ ''n0'' @ '':8888/podBind'') = ''http://n0:8888/podBind''"
  by (simp_all add: trimSpace_def is_space_def)

lemma ex_rt_tests:
  "schedTest 1 (sortTasks ex_r) False ((ex_up [ex_c ''a'' 10000 500 6 64])\<lparr>m := True\<rparr>) =
     Ret (\<lparr>Schedulable = True, Bandwidth = 11, Core = 0, Error = ''''\<rparr>, [19], \<lparr>containers = [ex_c ''a'' 10000 500 6 64], m = True, changed = False\<rparr>)"
  by code_simp


lemma ex_thin: "FatSchedReqtoSchedReq ''HI'' ''node0'' \<lparr>fTasks = [ex_fat], fName = ''b''\<rparr> = Some ex_r"
  by (simp add: FatSchedReqtoSchedReq_def FatTasktoTask_def ex_fat_def ex_r_def Let_def)

lemma ex_wire: "wire_request ex_r = ex_r"
  by (simp add: wire_request_def ex_r_def)

theorem Filter_decides_admission_witness:
  "Filter (\<lambda>_. '''') ex_net [preFilterKey \<mapsto> \<lparr>fTasks = [ex_fat], fName = ''b''\<rparr>] ex_rtpod
      (Some \<lparr>nodeName = ''node0'', addresses = [''n0'', ''n1'']\<rparr>) New (Up (ex_up [ex_c ''a'' 10000 500 6 64])) =
    Ret (None, \<lparr>urltable = [''node0'' \<mapsto> ''http://n0:8888/shedulabilityTest''], iptable = [''node0'' \<mapsto> ''n0''],
      status_of = [''node0'' \<mapsto> [19]]\<rparr>, Up (ex_up [ex_c ''a'' 10000 500 6 64]))"
proof -
  let ?nd = "\<lparr>nodeName = ''node0'', addresses = [''n0'', ''n1'']\<rparr>"
  have net: "ex_net (trimSpace url) body d = (Inr t, d')"
    if "node_url New ?nd = Some url" "SchedulabilityTest (\<lambda>_. '''') 1 body d = (Replied t, d')" for url body d t d'
  proof -
    have "url = ''http://'' @ ''n0'' @ '':8888/shedulabilityTest''" using that(1) by (simp add: node_url_def New_def)
    then show ?thesis using that(2) unfolding ex_net_def by (simp only: ex_net_urls) simp
  qed
  show ?thesis
    using Filter_decides_admission [where errText = "\<lambda>_. ''''" and N = 1 and post = ex_net
        and cs = "[preFilterKey \<mapsto> \<lparr>fTasks = [ex_fat], fName = ''b''\<rparr>]" and pod = ex_rtpod and cr = "''HI''" and r = ex_r
        and nd = ?nd and pl = New, unfolded ex_wire, OF _ _ _ _ net _ ex_rt_tests] ex_thin
    by (simp add: ex_rtpod_def gomap_get_def New_def node_url_def learned_def request64_def ex_r_def task64_def int64_def ex_up_def)
qed



section \<open>Scores\<close>

text \<open>
  The score of a node is the bandwidth left on its least used core: with bandwidths between 0
  and 100 it is 100 less the smallest of them, between 0 and 100, and 0 for a node that has not
  answered.
\<close>

theorem score_is_free_bandwidth:
  assumes "status_of pl nn = Some st" "st \<noteq> []" "\<forall>b\<in>set st. 0 \<le> b \<and> b \<le> 100"
  shows "Score pl nn = 100 - Min (set st) \<and> 0 \<le> Score pl nn \<and> Score pl nn \<le> 100"
proof -
  have m: "Min (set st) \<in> set st" using assms(2) by (intro Min_in) auto
  have b: "0 \<le> Min (set st)" "Min (set st) \<le> 100" using m assms(3) by blast+
  have "Min (insert 100 (set st)) = min 100 (Min (set st))" using assms(2) by (intro Min_insert) auto
  then have "Min (insert 100 (set st)) = Min (set st)" using b by simp
  then show ?thesis using assms(1) b by (simp add: Score_def computeScore_def foldl_min wrap64_range)
qed

theorem score_is_free_bandwidth_witness:
  "Score (New\<lparr>status_of := [''node0'' \<mapsto> [19, 40]]\<rparr>) ''node0'' = 81"
  using score_is_free_bandwidth [of "New\<lparr>status_of := [''node0'' \<mapsto> [19, 40]]\<rparr>" "''node0''" "[19, 40]"] by simp

interpretation rt_norm: score_normalizer NormalizeScore
  by unfold_locales (unfold NormalizeScore_def, rule normalize_body)

text \<open>
  Normalising keeps the nodes and their order, brings every score into the range from 0 to 100
  and, unless all scores are equal, gives 100 to the highest and 0 to the lowest.
\<close>

theorem NormalizeScore_correct:
  assumes "scores \<noteq> []" "\<forall>s\<in>set scores. \<bar>nsScore s\<bar> \<le> 2 ^ 55"
  shows "map nsName (NormalizeScore scores) = map nsName scores \<and>
    (\<forall>s\<in>set (NormalizeScore scores). 0 \<le> nsScore s \<and> nsScore s \<le> 100) \<and>
    (\<forall>i j. i < length scores \<longrightarrow> j < length scores \<longrightarrow> nsScore (scores ! i) \<le> nsScore (scores ! j) \<longrightarrow>
       nsScore (NormalizeScore scores ! i) \<le> nsScore (NormalizeScore scores ! j)) \<and>
    ((\<exists>s\<in>set scores. \<exists>t\<in>set scores. nsScore s \<noteq> nsScore t) \<longrightarrow>
       (\<exists>s\<in>set (NormalizeScore scores). nsScore s = 100) \<and> (\<exists>s\<in>set (NormalizeScore scores). nsScore s = 0))"
  using rt_norm.range_and_order [OF assms] .

theorem NormalizeScore_correct_witness:
  "map nsName (NormalizeScore [\<lparr>nsName = ''a'', nsScore = 20\<rparr>, \<lparr>nsName = ''b'', nsScore = 60\<rparr>]) = [''a'', ''b''] \<and>
   (\<exists>s\<in>set (NormalizeScore [\<lparr>nsName = ''a'', nsScore = 20\<rparr>, \<lparr>nsName = ''b'', nsScore = 60\<rparr>]). nsScore s = 100)"
proof -
  let ?l = "[\<lparr>nsName = ''a'', nsScore = 20\<rparr>, \<lparr>nsName = ''b'', nsScore = 60\<rparr>]"
  have "\<exists>s\<in>set ?l. \<exists>t\<in>set ?l. nsScore s \<noteq> nsScore t" "\<forall>s\<in>set ?l. \<bar>nsScore s\<bar> \<le> 2 ^ 55"
    "map nsName ?l = [''a'', ''b'']" "?l \<noteq> []" by auto
  with NormalizeScore_correct [of ?l] show ?thesis by metis
qed

end
