(* ===== verification/Assurance.thy ===== *)
theory Assurance
  imports Score_Norm "HOL-Library.AList"
begin

text \<open>
  The two ends of a node's assurance level: the daemon \<open>malacoda\<close> (\<open>malacoda/main.go\<close>) that
  computes the level of its node and publishes it as an annotation and a criticality label, and the
  plugin \<open>NodeAssuranceScorer\<close> of the scheduler that scores nodes by an annotation.
\<close>

section \<open>Nodes\<close>

text \<open>A map of the API object: nil or its entries.\<close>

type_synonym strmap = "(string \<times> string) list option"

definition map_get :: "strmap \<Rightarrow> string \<Rightarrow> string \<times> bool" where
  "map_get m k = (case m of None \<Rightarrow> ([], False) | Some kvs \<Rightarrow> (case map_of kvs k of None \<Rightarrow> ([], False) | Some v \<Rightarrow> (v, True)))"

definition map_put :: "string \<Rightarrow> string \<Rightarrow> strmap \<Rightarrow> strmap go" where
  "map_put k v m = (case m of None \<Rightarrow> Panic NilMapWrite | Some kvs \<Rightarrow> Ret (Some (AList.update k v kvs)))"

record node =
  nodeName :: string
  resourceVersion :: string
  nodeLabels :: strmap
  nodeAnnotations :: strmap

section \<open>The scorer\<close>

definition Least :: string where "Least = ''Least''"
definition Most :: string where "Most = ''Most''"

record assuranceScorer =
  scorerName :: string
  mode :: string

text \<open>
  The arguments are absent, of the plugin's own type (with a mode, possibly empty), or of another
  type, given by its name.
\<close>

datatype scorer_args = NoArgs | ScorerArgs string | OtherArgs string

definition NewAssuranceScorer :: "scorer_args \<Rightarrow> string + assuranceScorer" where
  "NewAssuranceScorer a =
     (let mk = (\<lambda>md. Inr \<lparr>scorerName = ''NodeAssuranceScorer'', mode = md\<rparr>)
      in case a of
          NoArgs \<Rightarrow> mk Least
        | OtherArgs ty \<Rightarrow> Inl (''want args to be of type NodeAssuranceScorerArgs, got '' @ ty)
        | ScorerArgs md \<Rightarrow> (if md \<noteq> []
            then (if md \<noteq> Least \<and> md \<noteq> Most then Inl (''invalid mode, got '' @ md) else mk md)
            else mk Least))"

definition getAssurance :: "node \<Rightarrow> int \<times> bool" where
  "getAssurance n = (if nodeAnnotations n = None \<or> nodeAnnotations n = Some [] then (0, False)
     else let (values, exists) = map_get (nodeAnnotations n) ''assurance'';
              (v, er) = atoi values
          in if er \<noteq> None then (0, False)
             else if exists then (if v \<ge> 0 then (v, True) else (0, True))
             else (0, False))"

definition score_mode :: "int \<Rightarrow> string \<Rightarrow> int" where
  "score_mode assurance md = (if md = Least then wrap64 (-1 * assurance) else if md = Most then assurance else 0)"

text \<open>The node of a snapshot entry may be nil.\<close>

definition score :: "assuranceScorer \<Rightarrow> node option \<Rightarrow> int \<times> statusp" where
  "score r nd = (case nd of None \<Rightarrow> (0, NewStatus ErrorCode [''node not found''])
     | Some n \<Rightarrow> (score_mode (fst (getAssurance n)) (mode r), None))"

text \<open>\<open>get\<close> is the snapshot's lister: the entry of a node or the text of an error. Node
  names hold no character that \<open>%q\<close> escapes.\<close>

definition Score :: "(string \<Rightarrow> string + node option) \<Rightarrow> assuranceScorer \<Rightarrow> string \<Rightarrow> int \<times> statusp" where
  "Score get r nn = (case get nn of
       Inl e \<Rightarrow> (0, NewStatus ErrorCode [''getting node '' @ CHR 0x22 # nn @ CHR 0x22 # '' from Snapshot: '' @ e])
     | Inr nd \<Rightarrow> score r nd)"

definition NormalizeScore :: "nodeScore list \<Rightarrow> nodeScore list" where
  "NormalizeScore scores =
     (let highest = foldl (\<lambda>h s. if nsScore s > h then nsScore s else h) (- (2 ^ 63 - 1)) scores;
          lowest = foldl (\<lambda>l s. if nsScore s < l then nsScore s else l) (2 ^ 63 - 1) scores;
          oldRange = wrap64 (highest - lowest);
          newRange = MaxNodeScore - MinNodeScore
      in map (\<lambda>s. s\<lparr>nsScore := (if oldRange = 0 then MinNodeScore
            else wrap64 (go_div (wrap64 (wrap64 (nsScore s - lowest) * newRange)) oldRange + MinNodeScore))\<rparr>) scores)"

section \<open>The daemon\<close>

definition annotString :: string where "annotString = ''ASSURANCE''"
definition labelString :: string where "labelString = ''Criticality''"

definition assuranceLev :: "int \<Rightarrow> string" where
  "assuranceLev a = (if a < 3 then ''NO'' else if a < 7 then ''LOW'' else ''HI'')"

text \<open>
  One pass of the daemon's endless loop, from the random draw \<open>gamma_new\<close>. \<open>update\<close> is the API
  server's update call: the text of an error or none, and the server's state. The object the server
  returns is dropped, so that the daemon's copy keeps the resource version it was read with. The
  hardware and software terms \<open>alpha\<close> and \<open>beta\<close> are zero. A failed update reads the error of an
  earlier call, which is nil here.
\<close>

definition daemon_pass :: "(node \<Rightarrow> 'w \<Rightarrow> string option \<times> 'w) \<Rightarrow> int \<Rightarrow> node \<Rightarrow> 'w \<Rightarrow> (node \<times> 'w) go" where
  "daemon_pass update gamma_new nd w =
     (let alpha = 0; beta = 0;
          (values, _) = map_get (nodeAnnotations nd) annotString;
          gamma = fst (atoi values)
      in if gamma \<noteq> gamma_new
         then let assurance = wrap64 (wrap64 (alpha + beta) + gamma_new) in
           go_bind (map_put annotString (itoa assurance) (nodeAnnotations nd)) (\<lambda>an.
             let nd1 = nd\<lparr>nodeAnnotations := an\<rparr>;
                 (critvalue, ex) = map_get (nodeLabels nd1) labelString;
                 lev = assuranceLev assurance
             in go_bind (if ex \<and> critvalue = lev then Ret (nodeLabels nd1)
                         else map_put labelString lev (nodeLabels nd1)) (\<lambda>lb.
                  let nd2 = nd1\<lparr>nodeLabels := lb\<rparr>;
                      (er, w1) = update nd2 w
                  in if er \<noteq> None then Panic NilDereference else Ret (nd2, w1)))
         else Ret (nd, w))"

text \<open>Several passes, one per draw.\<close>

fun daemon_run :: "(node \<Rightarrow> 'w \<Rightarrow> string option \<times> 'w) \<Rightarrow> int list \<Rightarrow> node \<Rightarrow> 'w \<Rightarrow> (node \<times> 'w) go" where
  "daemon_run update [] nd w = Ret (nd, w)"
| "daemon_run update (g # gs) nd w = go_bind (daemon_pass update g nd w) (\<lambda>(nd1, w1). daemon_run update gs nd1 w1)"

end
