(* ===== verification/Assurance_Props.thy ===== *)
theory Assurance_Props
  imports Assurance
begin

text \<open>
  Properties of the assurance level: what the daemon publishes, where it crashes, how the scorer
  ranks nodes, and that the scorer does not see what the daemon publishes.
\<close>

section \<open>Maps\<close>

lemma map_get_put:
  "map_put k v m = Ret m' \<Longrightarrow> map_get m' j = (if j = k then (v, True) else map_get m j)"
  by (auto simp: map_put_def map_get_def update_conv' split: option.splits if_splits)

lemma map_put_Ret: "m \<noteq> None \<Longrightarrow> \<exists>m'. map_put k v m = Ret m' \<and> m' \<noteq> None"
  by (auto simp: map_put_def)

section \<open>The daemon\<close>

text \<open>The level the node's annotation holds; an absent or malformed one counts as zero.\<close>

definition published :: "node \<Rightarrow> int" where
  "published nd = fst (atoi (fst (map_get (nodeAnnotations nd) annotString)))"

text \<open>A node that shows level \<open>g\<close> in both places.\<close>

definition shows_level :: "int \<Rightarrow> node \<Rightarrow> bool" where
  "shows_level g nd \<longleftrightarrow> map_get (nodeAnnotations nd) annotString = (itoa g, True) \<and>
     map_get (nodeLabels nd) labelString = (assuranceLev g, True)"

lemma shows_published: "shows_level g nd \<Longrightarrow> int64 g \<Longrightarrow> published nd = g"
  by (simp add: shows_level_def published_def atoi_itoa)

lemma daemon_pass_same: "g = published nd \<Longrightarrow> daemon_pass update g nd w = Ret (nd, w)"
  by (simp add: daemon_pass_def published_def split: prod.splits)

text \<open>The node with level \<open>g\<close> in its annotation and its label, and nothing else changed.\<close>

definition relabelled :: "int \<Rightarrow> node \<Rightarrow> node" where
  "relabelled g nd = nd\<lparr>nodeAnnotations := map_option (AList.update annotString (itoa g)) (nodeAnnotations nd),
     nodeLabels := (if map_get (nodeLabels nd) labelString = (assuranceLev g, True) then nodeLabels nd
       else map_option (AList.update labelString (assuranceLev g)) (nodeLabels nd))\<rparr>"

lemma relabelled_shows:
  assumes "nodeAnnotations nd \<noteq> None" "nodeLabels nd \<noteq> None"
  shows "shows_level g (relabelled g nd)" "nodeAnnotations (relabelled g nd) \<noteq> None" "nodeLabels (relabelled g nd) \<noteq> None"
    "nodeName (relabelled g nd) = nodeName nd" "resourceVersion (relabelled g nd) = resourceVersion nd"
  using assms by (auto simp: relabelled_def shows_level_def map_get_def update_conv')

lemma daemon_pass_other:
  assumes "g \<noteq> published nd" "int64 g" "nodeAnnotations nd \<noteq> None" "nodeLabels nd \<noteq> None"
  shows "daemon_pass update g nd w =
    (case update (relabelled g nd) w of (Some e, _) \<Rightarrow> Panic NilDereference | (None, w1) \<Rightarrow> Ret (relabelled g nd, w1))"
proof -
  obtain v ex where v: "map_get (nodeLabels nd) labelString = (v, ex)" by fastforce
  obtain er w1 where u: "update (relabelled g nd) w = (er, w1)" by fastforce
  show ?thesis
    using assms v u
    by (cases "ex \<and> v = assuranceLev g")
      (auto simp: daemon_pass_def published_def relabelled_def map_put_def Let_def wrap64_id wrap64_wrap64_add split: prod.splits option.splits)
qed

section \<open>The API server\<close>

text \<open>
  What the API server documents of an update: one that carries a resource version other than that of
  the stored object is refused, an accepted one stores the labels and annotations it was given, and
  the version changes with the object. \<open>stored\<close> is the object the server holds under a name.
\<close>

definition optimistic :: "('w \<Rightarrow> string \<Rightarrow> node) \<Rightarrow> (node \<Rightarrow> 'w \<Rightarrow> string option \<times> 'w) \<Rightarrow> bool" where
  "optimistic stored update \<longleftrightarrow>
     (\<forall>n w. resourceVersion n \<noteq> [] \<and> resourceVersion n \<noteq> resourceVersion (stored w (nodeName n)) \<longrightarrow> fst (update n w) \<noteq> None) \<and>
     (\<forall>n w w1. update n w = (None, w1) \<longrightarrow>
        nodeLabels (stored w1 (nodeName n)) = nodeLabels n \<and> nodeAnnotations (stored w1 (nodeName n)) = nodeAnnotations n \<and>
        (n \<noteq> stored w (nodeName n) \<longrightarrow> resourceVersion (stored w1 (nodeName n)) \<noteq> resourceVersion n))"

lemma daemon_run_same: "\<forall>h\<in>set gs. h = published nd \<Longrightarrow> daemon_run update gs nd w = Ret (nd, w)"
  by (induction gs) (simp_all add: daemon_pass_same)

text \<open>A daemon whose copy of the node is stale crashes at the first draw that differs.\<close>

lemma stale_daemon:
  assumes "optimistic stored update" "nodeAnnotations nd \<noteq> None" "nodeLabels nd \<noteq> None" "resourceVersion nd \<noteq> []"
    and "resourceVersion (stored w (nodeName nd)) \<noteq> resourceVersion nd" "\<forall>g\<in>set gs. int64 g" "\<exists>h\<in>set gs. h \<noteq> published nd"
  shows "daemon_run update gs nd w = Panic NilDereference"
  using assms(6,7)
proof (induction gs)
  case (Cons g gs)
  show ?case
  proof (cases "g = published nd")
    case True
    then show ?thesis using Cons by (simp add: daemon_pass_same)
  next
    case False
    note rl = relabelled_shows [OF assms(2,3), of g]
    have "fst (update (relabelled g nd) w) \<noteq> None"
      using assms(1,4,5) rl(4,5) unfolding optimistic_def by metis
    then show ?thesis using daemon_pass_other [OF False _ assms(2,3), of update w] Cons.prems(1)
      by (auto split: prod.splits option.splits)
  qed
qed simp

lemma daemon_after_update:
  assumes opt: "optimistic stored update" and nd: "nodeAnnotations nd \<noteq> None" "nodeLabels nd \<noteq> None" "resourceVersion nd \<noteq> []"
    and cur: "resourceVersion (stored w (nodeName nd)) = resourceVersion nd \<longrightarrow> stored w (nodeName nd) = nd"
    and g: "g \<noteq> published nd" "int64 g" and hs: "\<forall>h\<in>set hs. int64 h" and ok: "update (relabelled g nd) w = (None, w1)"
  shows "daemon_run update hs (relabelled g nd) w1 =
    (if \<forall>h\<in>set hs. h = g then Ret (relabelled g nd, w1) else Panic NilDereference)"
proof -
  note rl = relabelled_shows [OF nd(1,2), of g]
  have pub: "published (relabelled g nd) = g" by (rule shows_published [OF rl(1) g(2)])
  have "resourceVersion (stored w (nodeName nd)) = resourceVersion nd"
  proof (rule ccontr)
    assume "\<not> ?thesis"
    then have "fst (update (relabelled g nd) w) \<noteq> None" using opt nd(3) rl(4,5) unfolding optimistic_def by metis
    then show False using ok by simp
  qed
  then have "relabelled g nd \<noteq> stored w (nodeName nd)" using cur pub g(1) by auto
  then have st: "resourceVersion (stored w1 (nodeName (relabelled g nd))) \<noteq> resourceVersion (relabelled g nd)"
    using opt ok rl(4) unfolding optimistic_def by metis
  have rv: "resourceVersion (relabelled g nd) \<noteq> []" using rl(5) nd(3) by simp
  show ?thesis
  proof (cases "\<forall>h\<in>set hs. h = g")
    case True
    then have "\<forall>h\<in>set hs. h = published (relabelled g nd)" unfolding pub .
    then have "daemon_run update hs (relabelled g nd) w1 = Ret (relabelled g nd, w1)" by (rule daemon_run_same)
    then show ?thesis using True by simp
  next
    case False
    then show ?thesis using stale_daemon [OF opt rl(2,3) rv st hs] pub by auto
  qed
qed

text \<open>
  C14: The daemon publishes one level and crashes at the next. Let the API server refuse updates with a
  stale resource version and change the version with the object, as it documents, let the node have
  labels, annotations and a version, and let the daemon's copy be what the server holds if it has
  the server's version. Then nothing is sent while the draws equal the level the node started
  with. The first other draw is sent; if the server refuses it, for whatever reason, the daemon
  crashes; if it accepts, the stored node shows the draw in its annotation and the matching criticality in its label,
  and the daemon goes on only while the draws stay the same: since it drops the object the server
  returned, its next update is stale and refused, and the report of the error dereferences nil.
\<close>

theorem daemon_publishes_once:
  assumes "optimistic stored update"
    and "nodeAnnotations nd \<noteq> None" "nodeLabels nd \<noteq> None" "resourceVersion nd \<noteq> []"
    and "resourceVersion (stored w (nodeName nd)) = resourceVersion nd \<longrightarrow> stored w (nodeName nd) = nd"
    and "\<forall>g\<in>set gs. 0 \<le> g \<and> g < 10"
  shows "(daemon_run update gs nd w =
      (case dropWhile (\<lambda>g. g = published nd) gs of
         [] \<Rightarrow> Ret (nd, w)
       | g # hs \<Rightarrow> (case update (relabelled g nd) w of
            (Some e, _) \<Rightarrow> Panic NilDereference
          | (None, w1) \<Rightarrow> if \<forall>h\<in>set hs. h = g then Ret (relabelled g nd, w1) else Panic NilDereference))) \<and>
    (\<forall>g w1. update (relabelled g nd) w = (None, w1) \<longrightarrow>
       map_get (nodeAnnotations (stored w1 (nodeName nd))) annotString = (itoa g, True) \<and>
       map_get (nodeLabels (stored w1 (nodeName nd))) labelString = (assuranceLev g, True))"
proof (intro conjI allI impI)
  have i: "\<forall>g\<in>set gs. int64 g" using assms(6) by (auto simp: int64_def)
  show "daemon_run update gs nd w = (case dropWhile (\<lambda>g. g = published nd) gs of
         [] \<Rightarrow> Ret (nd, w)
       | g # hs \<Rightarrow> (case update (relabelled g nd) w of
            (Some e, _) \<Rightarrow> Panic NilDereference
          | (None, w1) \<Rightarrow> if \<forall>h\<in>set hs. h = g then Ret (relabelled g nd, w1) else Panic NilDereference))"
    using i
  proof (induction gs)
    case (Cons g gs)
    then show ?case
      using daemon_pass_other [of g nd update w] daemon_after_update [OF assms(1-5), of g gs] assms(2,3)
      by (cases "g = published nd") (auto simp: daemon_pass_same split: prod.splits option.splits)
  qed simp
next
  fix g w1 assume u: "update (relabelled g nd) w = (None, w1)"
  note rl = relabelled_shows [OF assms(2,3), of g]
  have "nodeLabels (stored w1 (nodeName nd)) = nodeLabels (relabelled g nd)"
    "nodeAnnotations (stored w1 (nodeName nd)) = nodeAnnotations (relabelled g nd)"
    using assms(1) u rl(4) unfolding optimistic_def by metis+
  then show "map_get (nodeAnnotations (stored w1 (nodeName nd))) annotString = (itoa g, True)"
    "map_get (nodeLabels (stored w1 (nodeName nd))) labelString = (assuranceLev g, True)"
    using rl(1) by (simp_all add: shows_level_def)
qed

text \<open>A server with one node that keeps the law.\<close>

definition ex_update :: "node \<Rightarrow> node \<Rightarrow> string option \<times> node" where
  "ex_update n w = (if resourceVersion n \<noteq> resourceVersion w then (Some ''conflict'', w)
     else (None, if n = w then w else n\<lparr>resourceVersion := CHR ''1'' # resourceVersion n\<rparr>))"

lemma ex_optimistic: "optimistic (\<lambda>w _. w) ex_update"
  by (auto simp: optimistic_def ex_update_def split: if_splits)

definition ex_assured :: node where
  "ex_assured = \<lparr>nodeName = ''n'', resourceVersion = ''7'', nodeLabels = Some [], nodeAnnotations = Some []\<rparr>"

theorem daemon_publishes_once_witness:
  "daemon_run ex_update [0, 0, 8, 8] ex_assured ex_assured =
     Ret (relabelled 8 ex_assured, (relabelled 8 ex_assured)\<lparr>resourceVersion := ''17''\<rparr>) \<and>
   daemon_run ex_update [0, 0, 8, 8, 5] ex_assured ex_assured = Panic NilDereference"
proof -
  have h: "nodeAnnotations ex_assured \<noteq> None" "nodeLabels ex_assured \<noteq> None" "resourceVersion ex_assured \<noteq> []"
    by (simp_all add: ex_assured_def)
  have p: "published ex_assured = 0" by (simp add: published_def ex_assured_def map_get_def atoi_def)
  have "relabelled 8 ex_assured \<noteq> ex_assured" by (simp add: relabelled_def ex_assured_def)
  then have u: "ex_update (relabelled 8 ex_assured) ex_assured = (None, (relabelled 8 ex_assured)\<lparr>resourceVersion := ''17''\<rparr>)"
    by (simp add: ex_update_def) (simp add: relabelled_def ex_assured_def)
  show ?thesis
    using daemon_publishes_once [OF ex_optimistic h, of ex_assured "[0, 0, 8, 8]"]
      daemon_publishes_once [OF ex_optimistic h, of ex_assured "[0, 0, 8, 8, 5]"] p u by simp
qed

text \<open>
  What stops the daemon. On a draw that differs from the published level it crashes when the
  node has no annotations, when it has no labels, and on any error of the update, whose report
  dereferences the nil error of an earlier call.
\<close>

theorem daemon_crashes:
  assumes "int64 g" "g \<noteq> published nd"
  shows "(nodeAnnotations nd = None \<longrightarrow> daemon_pass update g nd w = Panic NilMapWrite) \<and>
    (nodeAnnotations nd \<noteq> None \<and> nodeLabels nd = None \<longrightarrow> daemon_pass update g nd w = Panic NilMapWrite) \<and>
    (nodeAnnotations nd \<noteq> None \<and> nodeLabels nd \<noteq> None \<and> (\<forall>n. fst (update n w) \<noteq> None) \<longrightarrow>
       daemon_pass update g nd w = Panic NilDereference)"
proof -
  obtain v x where v: "map_get (nodeAnnotations nd) annotString = (v, x)" "fst (atoi v) \<noteq> g"
    using assms(2) by (cases "map_get (nodeAnnotations nd) annotString") (auto simp: published_def)
  obtain c e where c: "map_get (nodeLabels nd) labelString = (c, e)" by fastforce
  have n: "map_get None k = ([], False)" for k by (simp add: map_get_def)
  have p: "map_put k a None = Panic NilMapWrite" for k a by (simp add: map_put_def)
  have 1: "daemon_pass update g nd w = Panic NilMapWrite" if "nodeAnnotations nd = None"
    using v that by (simp add: daemon_pass_def Let_def p n)
  have 2: "daemon_pass update g nd w = Panic NilMapWrite" if h: "nodeAnnotations nd \<noteq> None" "nodeLabels nd = None"
  proof -
    obtain an where "map_put annotString (itoa (wrap64 (wrap64 0 + g))) (nodeAnnotations nd) = Ret an"
      using map_put_Ret [OF h(1)] by blast
    then show ?thesis using v h by (simp add: daemon_pass_def Let_def p n)
  qed
  have 3: "daemon_pass update g nd w = Panic NilDereference"
    if h: "nodeAnnotations nd \<noteq> None" "nodeLabels nd \<noteq> None" "\<forall>n. fst (update n w) \<noteq> None"
  proof -
    obtain an where an: "map_put annotString (itoa (wrap64 (wrap64 0 + g))) (nodeAnnotations nd) = Ret an"
      using map_put_Ret [OF h(1)] by blast
    obtain lb where lb: "map_put labelString (assuranceLev (wrap64 (wrap64 0 + g))) (nodeLabels nd) = Ret lb"
      using map_put_Ret [OF h(2)] by blast
    have "(case update n w of (er, w1) \<Rightarrow> if er \<noteq> None then Panic NilDereference else Ret (n, w1)) = Panic NilDereference" for n
      using h(3) [rule_format, of n] by (cases "update n w") auto
    then show ?thesis using v c an lb by (simp add: daemon_pass_def Let_def split: if_splits)
  qed
  show ?thesis using 1 2 3 by blast
qed

theorem daemon_crashes_witness:
  "daemon_pass (\<lambda>n w. (Some ''conflict'', w)) 4 ex_assured () = Panic NilDereference"
  using daemon_crashes [of 4 "ex_assured" "\<lambda>n w. (Some ''conflict'', w)" "()"]
  by (simp add: published_def map_get_def atoi_def int64_def ex_assured_def)

section \<open>The scorer\<close>

lemma getAssurance_eq:
  "getAssurance n = (let (v, ex) = map_get (nodeAnnotations n) ''assurance''; (a, er) = atoi v
     in if ex \<and> er = None then (max 0 a, True) else (0, False))"
proof -
  have "nodeAnnotations n = None \<or> nodeAnnotations n = Some [] \<Longrightarrow> map_get (nodeAnnotations n) ''assurance'' = ([], False)"
    by (auto simp: map_get_def)
  then show ?thesis by (auto simp: getAssurance_def Let_def split: prod.splits)
qed

lemma map_put_other: "map_put k v m = Ret m' \<Longrightarrow> j \<noteq> k \<Longrightarrow> map_get m' j = map_get m j"
  using map_get_put by simp

lemma daemon_pass_other_key:
  assumes "daemon_pass update g nd w = Ret (nd', w')" "k \<noteq> annotString"
  shows "map_get (nodeAnnotations nd') k = map_get (nodeAnnotations nd) k"
proof -
  obtain v x where v: "map_get (nodeAnnotations nd) annotString = (v, x)" by fastforce
  show ?thesis
  proof (cases "fst (atoi v) = g")
    case True
    then show ?thesis using assms(1) v by (simp add: daemon_pass_def Let_def)
  next
    case False
    obtain c e where c: "map_get (nodeLabels nd) labelString = (c, e)" by fastforce
    obtain an where an: "map_put annotString (itoa (wrap64 (wrap64 0 + g))) (nodeAnnotations nd) = Ret an"
      using assms(1) v False by (auto simp: daemon_pass_def Let_def go_bind_Ret_iff)
    then have "nodeAnnotations nd' = an"
      using assms(1) v False c by (auto simp: daemon_pass_def Let_def go_bind_Ret_iff case_prod_beta split: if_splits)
    then show ?thesis using map_put_other [OF an(1) assms(2)] by simp
  qed
qed

lemma daemon_run_other_key:
  "daemon_run update gs nd w = Ret (nd', w') \<Longrightarrow> k \<noteq> annotString \<Longrightarrow>
   map_get (nodeAnnotations nd') k = map_get (nodeAnnotations nd) k"
  by (induction gs arbitrary: nd w) (fastforce simp: go_simps dest: daemon_pass_other_key)+

text \<open>
  The scorer does not see the daemon. Whatever the daemon publishes on a node, the score of the
  node stays the one it had, because the daemon writes the annotation \<open>ASSURANCE\<close> and the scorer
  reads \<open>assurance\<close>.
\<close>

theorem scorer_ignores_daemon:
  assumes "daemon_run update gs nd w = Ret (nd', w')"
  shows "score r (Some nd') = score r (Some nd)"
  using daemon_run_other_key [OF assms, of "''assurance''"]
  by (simp add: score_def getAssurance_eq annotString_def)

theorem scorer_ignores_daemon_witness:
  "\<exists>nd' w'. daemon_run (\<lambda>n w. (None, n)) [9] ex_assured
      ex_assured = Ret (nd', w') \<and>
    score \<lparr>scorerName = ''s'', mode = Most\<rparr> (Some nd') = (0, None)"
proof -
  let ?n = "ex_assured"
  have "\<exists>nd' w'. daemon_run (\<lambda>n w. (None, n)) [9] ?n ?n = Ret (nd', w')"
    by (simp add: daemon_pass_def Let_def map_get_def map_put_def atoi_def ex_assured_def)
  moreover have "score \<lparr>scorerName = ''s'', mode = Most\<rparr> (Some ?n) = (0, None)"
    by (simp add: score_def getAssurance_def score_mode_def Most_def Least_def ex_assured_def)
  ultimately show ?thesis using scorer_ignores_daemon [of "\<lambda>n w. (None, n)" "[9]" ?n ?n] by metis
qed

interpretation assurance_norm: score_normalizer NormalizeScore
  by unfold_locales (unfold NormalizeScore_def, rule normalize_body)

text \<open>The scores of a list of nodes, as the framework collects them before normalising.\<close>

definition scores_of :: "(string \<Rightarrow> string + node option) \<Rightarrow> assuranceScorer \<Rightarrow> node list \<Rightarrow> nodeScore list" where
  "scores_of get r ns = map (\<lambda>n. \<lparr>nsName = nodeName n, nsScore = fst (Score get r (nodeName n))\<rparr>) ns"

lemma getAssurance_nonneg: "0 \<le> fst (getAssurance n)"
  by (simp add: getAssurance_eq Let_def split: prod.splits)

text \<open>
  C15: The plugin built from accepted arguments ranks nodes by assurance. Let the snapshot hold every node
  of a nonempty list, with assurances of at most \<open>2 ^ 55\<close>, and let \<open>lo\<close> and \<open>hi\<close> be the least and the
  greatest of them. Then the mode is \<open>Most\<close> or \<open>Least\<close>, the default, and the normalised score of a
  node of assurance \<open>a\<close> is the distance of \<open>a\<close> from the worse end as a percentage of \<open>hi - lo\<close>, rounded
  down: from \<open>lo\<close> in mode \<open>Most\<close>, from \<open>hi\<close> in mode \<open>Least\<close>. So the best node gets 100 and the worst 0, and if
  all are equal every node gets 0.
\<close>

theorem scorer_ranks_nodes:
  assumes "NewAssuranceScorer args = Inr r" "ns \<noteq> []"
    and "\<forall>n\<in>set ns. get (nodeName n) = Inr (Some n) \<and> fst (getAssurance n) \<le> 2 ^ 55"
    and "lo = Min ((\<lambda>n. fst (getAssurance n)) ` set ns)" "hi = Max ((\<lambda>n. fst (getAssurance n)) ` set ns)"
  shows "(mode r = Most \<or> mode r = Least) \<and>
    NormalizeScore (scores_of get r ns) =
      map (\<lambda>n. \<lparr>nsName = nodeName n,
        nsScore = (if hi = lo then 0
          else if mode r = Most then (fst (getAssurance n) - lo) * 100 div (hi - lo)
          else (hi - fst (getAssurance n)) * 100 div (hi - lo))\<rparr>) ns"
proof -
  let ?a = "\<lambda>n. fst (getAssurance n)"
  have md: "mode r = Least \<or> mode r = Most"
    using assms(1) by (auto simp: NewAssuranceScorer_def Let_def split: scorer_args.splits if_splits)
  have LM: "Least \<noteq> Most" by (simp add: Least_def Most_def)
  have sc: "fst (Score get r (nodeName n)) = (if mode r = Most then ?a n else - ?a n)" if "n \<in> set ns" for n
    using assms(3) md LM getAssurance_nonneg [of n] that by (auto simp: Score_def score_def score_mode_def wrap64_range)
  have neg: "- ?a n \<le> 36028797018963968" for n using getAssurance_nonneg [of n] by simp
  have b: "\<forall>s\<in>set (scores_of get r ns). \<bar>nsScore s\<bar> \<le> 2 ^ 55"
    using sc assms(3) neg getAssurance_nonneg by (auto simp: scores_of_def abs_le_iff)
  have ne: "scores_of get r ns \<noteq> []" using assms(2) by (simp add: scores_of_def)
  have img: "nsScore ` set (scores_of get r ns) = (if mode r = Most then ?a ` set ns else uminus ` ?a ` set ns)"
    using sc by (force simp: scores_of_def image_image)
  have fin: "finite (?a ` set ns)" "?a ` set ns \<noteq> {}" using assms(2) by auto
  have mm: "Max (uminus ` ?a ` set ns) = - lo" "Min (uminus ` ?a ` set ns) = - hi"
    unfolding assms(4,5) using fin by (simp_all add: minus_Min_eq_Max minus_Max_eq_Min)
  have "NormalizeScore (scores_of get r ns) = map (\<lambda>s. s\<lparr>nsScore := if hi = lo then 0
      else if mode r = Most then (nsScore s - lo) * 100 div (hi - lo) else (nsScore s + hi) * 100 div (hi - lo)\<rparr>) (scores_of get r ns)"
    unfolding assurance_norm.normalize_exact [OF ne b] img
    using mm by (auto simp flip: assms(4,5))
  then show ?thesis using md sc by (auto simp: scores_of_def)
qed

theorem scorer_ranks_nodes_witness:
  "\<exists>r. NewAssuranceScorer (ScorerArgs ''Most'') = Inr r \<and>
    NormalizeScore (scores_of (\<lambda>nn. Inr (Some \<lparr>nodeName = nn, resourceVersion = [], nodeLabels = None, nodeAnnotations = Some [(''assurance'', nn)]\<rparr>)) r
      (map (\<lambda>nn. \<lparr>nodeName = nn, resourceVersion = [], nodeLabels = None, nodeAnnotations = Some [(''assurance'', nn)]\<rparr>) [''3'', ''8'', ''5''])) =
    [\<lparr>nsName = ''3'', nsScore = 0\<rparr>, \<lparr>nsName = ''8'', nsScore = 100\<rparr>, \<lparr>nsName = ''5'', nsScore = 40\<rparr>]"
proof -
  let ?n = "\<lambda>nn. \<lparr>nodeName = nn, resourceVersion = [], nodeLabels = None, nodeAnnotations = Some [(''assurance'', nn)]\<rparr>"
  let ?r = "\<lparr>scorerName = ''NodeAssuranceScorer'', mode = ''Most''\<rparr>"
  have "atoi ''3'' = (3, None)" "atoi ''8'' = (8, None)" "atoi ''5'' = (5, None)"
    using atoi_itoa [of 3] atoi_itoa [of 8] atoi_itoa [of 5] by (simp_all add: itoa_eval int64_def)
  then have a: "getAssurance (?n ''3'') = (3, True)" "getAssurance (?n ''8'') = (8, True)" "getAssurance (?n ''5'') = (5, True)"
    by (simp_all add: getAssurance_def map_get_def)
  have r: "NewAssuranceScorer (ScorerArgs ''Most'') = Inr ?r" by code_simp
  define get where "get = (\<lambda>nn. Inr (Some (?n nn)) :: string + node option)"
  let ?ns = "map ?n [''3'', ''8'', ''5'']"
  have "\<forall>n\<in>set ?ns. get (nodeName n) = Inr (Some n) \<and> fst (getAssurance n) \<le> 2 ^ 55"
    using a by (simp add: get_def)
  from scorer_ranks_nodes [OF r _ this refl refl, THEN conjunct2] a
  have "NormalizeScore (scores_of get ?r ?ns) =
    [\<lparr>nsName = ''3'', nsScore = 0\<rparr>, \<lparr>nsName = ''8'', nsScore = 100\<rparr>, \<lparr>nsName = ''5'', nsScore = 40\<rparr>]"
    by (simp add: Most_def)
  then show ?thesis unfolding get_def by (intro exI [of _ ?r] conjI r)
qed

end
