(* ===== verification/Malacoda.thy ===== *)
theory Malacoda
  imports Go_Float Go_Strings "HOL-Library.Word"
begin

text \<open>
  The resource monitor of the daemon \<open>malacoda\<close> (\<open>frommpstat.go\<close>, \<open>monitor.go\<close>): the samplers
  that parse \<open>/proc\<close>, the interval arithmetic on 64-bit counters taken over from \<open>mpstat\<close>, the
  percentages in floating point and the two threshold checks. Files of \<open>/proc\<close> are arguments:
  their text, or their lines.
\<close>

section \<open>Floating-point operations of the monitor\<close>

text \<open>
  Addition, subtraction, multiplication by a positive constant, comparison, and conversions, in the
  precision \<open>p\<close> of the operands. The values stay far from the limits of the formats.
\<close>

fun f_add :: "nat \<Rightarrow> flt \<Rightarrow> flt \<Rightarrow> flt" where
  "f_add p (Fin a) (Fin b) = Fin (fl p (a + b))"
| "f_add p NaN y = NaN"
| "f_add p x NaN = NaN"
| "f_add p PosInf NegInf = NaN"
| "f_add p NegInf PosInf = NaN"
| "f_add p PosInf y = PosInf"
| "f_add p x PosInf = PosInf"
| "f_add p NegInf y = NegInf"
| "f_add p x NegInf = NegInf"

fun f_neg :: "flt \<Rightarrow> flt" where
  "f_neg (Fin a) = Fin (- a)"
| "f_neg PosInf = NegInf"
| "f_neg NegInf = PosInf"
| "f_neg NaN = NaN"

definition f_sub :: "nat \<Rightarrow> flt \<Rightarrow> flt \<Rightarrow> flt" where
  "f_sub p x y = f_add p x (f_neg y)"

fun f_scale :: "nat \<Rightarrow> rat \<Rightarrow> flt \<Rightarrow> flt" where
  "f_scale p c (Fin a) = Fin (fl p (a * c))"
| "f_scale p c x = x"

fun f_gt :: "flt \<Rightarrow> rat \<Rightarrow> bool" where
  "f_gt (Fin a) c \<longleftrightarrow> a > c"
| "f_gt PosInf c \<longleftrightarrow> True"
| "f_gt NegInf c \<longleftrightarrow> False"
| "f_gt NaN c \<longleftrightarrow> False"

fun f32_of_f64 :: "flt \<Rightarrow> flt" where
  "f32_of_f64 (Fin a) = Fin (fl 24 a)"
| "f32_of_f64 x = x"

definition f64_of_u64 :: "64 word \<Rightarrow> flt" where
  "f64_of_u64 w = f64_of_int (uint w)"

section \<open>Counters\<close>

record stats_cpu =
  cpu_user :: "64 word"
  cpu_nice :: "64 word"
  cpu_sys :: "64 word"
  cpu_idle :: "64 word"
  cpu_iowait :: "64 word"
  cpu_steal :: "64 word"
  cpu_hardirq :: "64 word"
  cpu_softirq :: "64 word"
  cpu_guest :: "64 word"
  cpu_guest_nice :: "64 word"

record stats_sirq =
  net_tx :: "64 word"
  net_rx :: "64 word"
  sched :: "64 word"

text \<open>Counters above this bound are taken to have overflowed, not to have restarted.\<close>

definition overflown :: "64 word" where
  "overflown = 0xffffffffffffffff - 0x7ffff"

definition cpu_total :: "stats_cpu \<Rightarrow> 64 word" where
  "cpu_total s = cpu_user s + cpu_nice s + cpu_sys s + cpu_iowait s + cpu_idle s + cpu_steal s +
     cpu_hardirq s + cpu_softirq s"

definition guest_shift :: "stats_cpu \<Rightarrow> stats_cpu \<Rightarrow> 64 word" where
  "guest_shift scc scp =
     (let s1 = (if cpu_user scc - cpu_guest scc < cpu_user scp - cpu_guest scp
                then (cpu_user scp - cpu_guest scp) - (cpu_user scc - cpu_guest scc) else 0)
      in if cpu_nice scc - cpu_guest_nice scc < cpu_nice scp - cpu_guest_nice scp
         then s1 + ((cpu_nice scp - cpu_guest_nice scp) - (cpu_nice scc - cpu_guest_nice scc)) else s1)"

text \<open>The corrections the function writes into the previous sample, its second pointer.\<close>

definition fix_iowait :: "stats_cpu \<Rightarrow> stats_cpu \<Rightarrow> stats_cpu" where
  "fix_iowait scc scp = (if cpu_iowait scc < cpu_iowait scp \<and> cpu_iowait scp < overflown
     then (if cpu_idle scc > cpu_idle scp \<or> cpu_idle scp \<ge> overflown
           then scp\<lparr>cpu_iowait := cpu_iowait scc\<rparr> else scp\<lparr>cpu_iowait := 0\<rparr>)
     else scp)"

definition fix_idle :: "stats_cpu \<Rightarrow> stats_cpu \<Rightarrow> stats_cpu" where
  "fix_idle scc scp = (if cpu_idle scc < cpu_idle scp \<and> cpu_idle scp < overflown
     then scp\<lparr>cpu_idle := 0\<rparr> else scp)"

definition get_per_cpu_interval :: "stats_cpu \<Rightarrow> stats_cpu \<Rightarrow> 64 word \<times> stats_cpu" where
  "get_per_cpu_interval scc scp =
     (let ishift = guest_shift scc scp;
          scp' = fix_idle scc (fix_iowait scc scp)
      in (cpu_total scc - cpu_total scp' + ishift, scp'))"

definition ll_sp_value :: "64 word \<Rightarrow> 64 word \<Rightarrow> 64 word \<Rightarrow> flt" where
  "ll_sp_value value1 value2 itv = (if value2 < value1 then Fin 0
     else f_scale 53 100 (f64_div (f64_of_u64 (value2 - value1)) (f64_of_u64 itv)))"

definition get_interval :: "64 word \<Rightarrow> 64 word \<Rightarrow> 64 word" where
  "get_interval prev_uptime curr_uptime = (let itv = curr_uptime - prev_uptime in if itv = 0 then 1 else itv)"

section \<open>Samplers\<close>

text \<open>
  \<open>fmt.Sscanf\<close> with \<open>%d\<close> into a \<open>uint64\<close>: leading blanks are skipped, at least one digit is
  needed, a value out of range is an error. The verbs are separated by one blank, which asks for at
  least one blank of input. The first error ends the scan and leaves the other variables alone.
\<close>

definition scan_uint :: "string \<Rightarrow> (64 word \<times> string) option" where
  "scan_uint s =
     (let t = dropWhile (\<lambda>c. c = CHR '' '' \<or> c = CHR 0x09) s;
          ds = takeWhile is_digit t
      in if ds = [] then None
         else case parse_uint 0 ds of Inl e \<Rightarrow> None | Inr n \<Rightarrow> Some (of_nat n, dropWhile is_digit t))"

fun scan_uints :: "nat \<Rightarrow> string \<Rightarrow> 64 word list" where
  "scan_uints 0 s = []"
| "scan_uints (Suc n) s = (case scan_uint s of None \<Rightarrow> []
     | Some (v, r) \<Rightarrow> v # (if r = [] \<or> (hd r \<noteq> CHR '' '' \<and> hd r \<noteq> CHR 0x09) then [] else scan_uints n r))"

definition set_field :: "nat \<Rightarrow> 64 word list \<Rightarrow> 64 word \<Rightarrow> 64 word" where
  "set_field i vs old = (if i < length vs then vs ! i else old)"

text \<open>The first line of \<open>/proc/stat\<close>, cut after five characters.\<close>

definition sampleDataStat :: "string \<Rightarrow> stats_cpu \<Rightarrow> stats_cpu go" where
  "sampleDataStat line c = (if length line < 5 then Panic SliceOutOfRange
     else let vs = scan_uints 10 (drop 5 line) in
       Ret \<lparr>cpu_user = set_field 0 vs (cpu_user c), cpu_nice = set_field 1 vs (cpu_nice c),
            cpu_sys = set_field 2 vs (cpu_sys c), cpu_idle = set_field 3 vs (cpu_idle c),
            cpu_iowait = set_field 4 vs (cpu_iowait c), cpu_steal = set_field 5 vs (cpu_steal c),
            cpu_hardirq = set_field 6 vs (cpu_hardirq c), cpu_softirq = set_field 7 vs (cpu_softirq c),
            cpu_guest = set_field 8 vs (cpu_guest c), cpu_guest_nice = set_field 9 vs (cpu_guest_nice c)\<rparr>)"

definition read_uptime :: "string \<Rightarrow> 64 word" where
  "read_uptime line = (case scan_uint line of None \<Rightarrow> 0
     | Some (up_sec, r) \<Rightarrow>
         (case r of c # r' \<Rightarrow> (if c = CHR ''.'' then (case scan_uint r' of None \<Rightarrow> up_sec * 100 | Some (up_cent, _) \<Rightarrow> up_sec * 100 + up_cent)
                               else up_sec * 100)
          | [] \<Rightarrow> up_sec * 100))"

text \<open>\<open>strings.Split\<close> at blanks, \<open>strings.Contains\<close>.\<close>

fun split_blank :: "string \<Rightarrow> string list" where
  "split_blank [] = [[]]"
| "split_blank (c # cs) = (if c = CHR '' '' then [] # split_blank cs
     else case split_blank cs of [] \<Rightarrow> [[c]] | w # ws \<Rightarrow> (c # w) # ws)"

fun contains :: "string \<Rightarrow> string \<Rightarrow> bool" where
  "contains [] t \<longleftrightarrow> t = []"
| "contains (c # s) t \<longleftrightarrow> take (length t) (c # s) = t \<or> contains s t"

definition sum_counts :: "int \<Rightarrow> string \<Rightarrow> int" where
  "sum_counts acc line = foldl (\<lambda>a e. if e \<noteq> '' '' then (let v = fst (atoi e) in if v > 0 then wrap64 (a + v) else a) else a)
     acc (split_blank line)"

text \<open>The lines of \<open>/proc/softirqs\<close>; the line after the transmit line is the receive line.\<close>

fun softirq_lines :: "string list \<Rightarrow> int \<Rightarrow> int \<Rightarrow> int \<Rightarrow> stats_sirq \<Rightarrow> stats_sirq" where
  "softirq_lines [] tx rx sc sirq = sirq"
| "softirq_lines (l # ls) tx rx sc sirq =
     (if contains l ''NET_TX''
      then let tx' = sum_counts tx l;
               rx' = sum_counts rx (case ls of [] \<Rightarrow> [] | l' # _ \<Rightarrow> l')
           in softirq_lines (tl ls) tx' rx' sc (sirq\<lparr>net_rx := of_int rx', net_tx := of_int tx'\<rparr>)
      else if contains l ''SCHED''
      then let sc' = sum_counts sc l in softirq_lines ls tx rx sc' (sirq\<lparr>sched := of_int sc'\<rparr>)
      else softirq_lines ls tx rx sc sirq)"

definition sampleSoftIrq :: "string list \<Rightarrow> stats_sirq \<Rightarrow> stats_sirq" where
  "sampleSoftIrq lines sirq = softirq_lines lines 0 0 0 sirq"

end
