(* ===== verification/Malacoda_Monitor.thy ===== *)
theory Malacoda_Monitor
  imports Malacoda
begin

text \<open>
  The monitor's state, its percentages and its two threshold checks (\<open>monitor.go\<close>). The history
  of the trend check is an array of pointers to samples: the model has an explicit store of samples
  by address, because what the check computes depends on which entries are the same pointer.
\<close>

section \<open>Samples\<close>

record stateData =
  loadAvg :: flt
  systime :: flt
  iowait :: flt
  net :: flt
  schd :: flt

definition zero_state :: stateData where
  "zero_state = \<lparr>loadAvg = Fin 0, systime = Fin 0, iowait = Fin 0, net = Fin 0, schd = Fin 0\<rparr>"

definition diffCpuState :: "stats_cpu \<Rightarrow> stats_cpu \<Rightarrow> stats_cpu" where
  "diffCpuState c p = \<lparr>cpu_user = cpu_user c - cpu_user p, cpu_nice = cpu_nice c - cpu_nice p,
     cpu_sys = cpu_sys c - cpu_sys p, cpu_idle = 0, cpu_iowait = cpu_iowait c - cpu_iowait p,
     cpu_steal = 0, cpu_hardirq = cpu_hardirq c - cpu_hardirq p, cpu_softirq = 0, cpu_guest = 0, cpu_guest_nice = 0\<rparr>"

definition computestepCpu :: "stats_cpu \<Rightarrow> stats_cpu \<Rightarrow> 64 word \<Rightarrow> stateData \<Rightarrow> stateData" where
  "computestepCpu scc scp delta st =
     st\<lparr>iowait := f32_of_f64 (ll_sp_value (cpu_iowait scp) (cpu_iowait scc) delta),
        systime := f32_of_f64 (ll_sp_value (cpu_sys scp) (cpu_sys scc) delta)\<rparr>"

definition computestepSirq :: "stats_sirq \<Rightarrow> stats_sirq \<Rightarrow> 64 word \<Rightarrow> stateData \<Rightarrow> stateData" where
  "computestepSirq scc scp delta st =
     (let tx = f32_of_f64 (ll_sp_value (net_tx scp) (net_tx scc) delta);
          rx = f32_of_f64 (ll_sp_value (net_rx scp) (net_rx scc) delta)
      in st\<lparr>net := f_add 24 tx rx, schd := f32_of_f64 (ll_sp_value (sched scp) (sched scc) delta)\<rparr>)"

section \<open>The value check\<close>

text \<open>The global \<open>alarm\<close> is passed in and out; the counter is returned as a \<open>uint8\<close>.\<close>

definition above :: "bool \<Rightarrow> nat \<times> bool \<Rightarrow> nat \<times> bool" where
  "above b = (\<lambda>(counter, alarm). if b then (counter + 1, True) else (counter, alarm))"

definition valueThresholdCheck :: "stateData \<Rightarrow> bool \<Rightarrow> 8 word \<times> bool" where
  "valueThresholdCheck st alarm =
     (let (counter, alarm') =
        above (f_gt (schd st) 15) (above (f_gt (net st) 15) (above (f_gt (iowait st) 15)
          (above (f_gt (systime st) 15) (above (f_gt (loadAvg st) 6) (0, alarm)))))
      in (of_nat counter, alarm'))"

section \<open>The trend check\<close>

type_synonym store = "nat \<rightharpoonup> stateData"

record trend =
  history :: "nat option list"
  head :: nat

definition HISTORY_SIZE :: nat where "HISTORY_SIZE = 5"

definition trend0 :: trend where
  "trend0 = \<lparr>history = replicate HISTORY_SIZE None, head = 0\<rparr>"

text \<open>Reading through an entry of the history panics when it is nil.\<close>

definition deref :: "store \<Rightarrow> nat option \<Rightarrow> stateData go" where
  "deref s p = (case p of None \<Rightarrow> Panic NilDereference
     | Some a \<Rightarrow> (case s a of None \<Rightarrow> Panic NilDereference | Some d \<Rightarrow> Ret d))"

definition pointwise :: "(flt \<Rightarrow> flt \<Rightarrow> flt) \<Rightarrow> stateData \<Rightarrow> stateData \<Rightarrow> stateData" where
  "pointwise f a b = \<lparr>loadAvg = f (loadAvg a) (loadAvg b), systime = f (systime a) (systime b),
     iowait = f (iowait a) (iowait b), net = f (net a) (net b), schd = f (schd a) (schd b)\<rparr>"

definition div_history :: "stateData \<Rightarrow> stateData" where
  "div_history a = pointwise (\<lambda>x _. f_scale 24 (1 / 5) x) a a"

definition computeDerivative :: "stateData \<Rightarrow> stateData \<Rightarrow> stateData" where
  "computeDerivative st prev = pointwise (f_sub 24) st prev"

fun sum_history :: "store \<Rightarrow> nat option list \<Rightarrow> stateData \<Rightarrow> stateData go" where
  "sum_history s [] acc = Ret acc"
| "sum_history s (p # ps) acc = go_bind (deref s p) (\<lambda>d. sum_history s ps (pointwise (f_add 24) acc d))"

definition computeAverage :: "store \<Rightarrow> nat option list \<Rightarrow> stateData go" where
  "computeAverage s h = (if length h < HISTORY_SIZE then Panic IndexOutOfRange
     else go_bind (sum_history s (take HISTORY_SIZE h) zero_state) (\<lambda>d. Ret (div_history d)))"

definition computeDifference :: "store \<Rightarrow> nat option list \<Rightarrow> nat \<Rightarrow> stateData go" where
  "computeDifference s h hd0 =
     (let first = (hd0 + 1) mod HISTORY_SIZE in
      if length h \<le> hd0 \<or> length h \<le> first then Panic IndexOutOfRange
      else go_bind (deref s (h ! hd0)) (\<lambda>a. go_bind (deref s (h ! first)) (\<lambda>b.
        Ret (div_history (pointwise (f_sub 24) a b)))))"

text \<open>
  One signal of the check: a positive average lengthens the run of positive steps, and a long run
  or a steep average counts.
\<close>

definition trend_signal :: "flt \<Rightarrow> rat \<Rightarrow> flt \<Rightarrow> nat \<times> bool \<Rightarrow> flt \<times> nat \<times> bool" where
  "trend_signal avg threshold run ca = (if f_gt avg 0
     then let run' = f_add 24 run (Fin 1) in (run', above (f_gt run' 20 \<or> f_gt avg threshold) ca)
     else (Fin 0, ca))"

definition THRESHOLD_LOADAVG_DER :: rat where "THRESHOLD_LOADAVG_DER = fl 24 (24 / 100)"

definition trendThresholdCheck ::
  "store \<Rightarrow> nat \<Rightarrow> stateData \<Rightarrow> bool \<Rightarrow> trend \<Rightarrow> (8 word \<times> bool \<times> stateData \<times> trend) go" where
  "trendThresholdCheck s st positiveFor alarm t =
     (if length (history t) \<le> head t then Panic IndexOutOfRange
      else let h = (history t)[head t := Some st];
               hd0 = (head t + 1) mod HISTORY_SIZE
           in go_bind (computeDifference s h hd0) (\<lambda>average.
                let (r1, ca1) = trend_signal (loadAvg average) THRESHOLD_LOADAVG_DER (loadAvg positiveFor) (0, alarm);
                    (r2, ca2) = trend_signal (systime average) 6 (systime positiveFor) ca1;
                    (r3, ca3) = trend_signal (iowait average) 6 (iowait positiveFor) ca2;
                    (r4, ca4) = trend_signal (net average) 1000 (net positiveFor) ca3;
                    (r5, (counter, alarm')) = trend_signal (schd average) 170 (schd positiveFor) ca4
                in Ret (of_nat counter, alarm', \<lparr>loadAvg = r1, systime = r2, iowait = r3, net = r4, schd = r5\<rparr>,
                        \<lparr>history = h, head = hd0\<rparr>)))"

section \<open>A pass of the first phase\<close>

text \<open>
  What a pass reads: the first line of \<open>/proc/uptime\<close>, of \<open>/proc/stat\<close>, the load average and the
  lines of \<open>/proc/softirqs\<close>. The current sample lives at address 0 for the whole life of the
  monitor.
\<close>

record reading =
  uptimeLine :: string
  statLine :: string
  loadReading :: flt
  softirqs :: "string list"

record monitor =
  cstate :: stateData
  pstate :: stateData
  positiveFor :: stateData
  scc :: stats_cpu
  cur_uptime :: "64 word"
  cur_sirq :: stats_sirq
  trend_of :: trend

definition phaseOne_pass :: "reading \<Rightarrow> monitor \<Rightarrow> (monitor \<times> 8 word \<times> bool) go" where
  "phaseOne_pass r mo =
     (let prev_uptime = cur_uptime mo;
          up = read_uptime (uptimeLine r);
          prev_sirq = cur_sirq mo
      in go_bind (sampleDataStat (statLine r) (scc mo)) (\<lambda>c.
           let sirq = sampleSoftIrq (softirqs r) (cur_sirq mo);
               (deltot, scp) = get_per_cpu_interval c (scc mo);
               st = computestepCpu c scp deltot ((cstate mo)\<lparr>loadAvg := loadReading r\<rparr>);
               st' = computestepSirq sirq prev_sirq (get_interval prev_uptime up) st;
               (counter, alarm) = valueThresholdCheck st' False
           in go_bind (trendThresholdCheck [0 \<mapsto> st'] 0 (positiveFor mo) alarm (trend_of mo))
                (\<lambda>(counter2, alarm', pf, t).
                  Ret (\<lparr>cstate = st', pstate = cstate mo, positiveFor = pf, scc = c, cur_uptime = up,
                        cur_sirq = sirq, trend_of = t\<rparr>, counter + counter2, alarm'))))"

end
