(* ===== verification/Malacoda_Props.thy ===== *)
theory Malacoda_Props
  imports Malacoda_Monitor
begin

text \<open>
  Properties of the monitor: the interval and the percentages computed from the counters, what the
  value check counts, and that the trend check cannot work on a history of one and the same sample.
\<close>

section \<open>The interval\<close>










section \<open>Percentages\<close>











section \<open>The checks\<close>

lemma unat_of_nat_small: "n < 256 \<Longrightarrow> unat (of_nat n :: 8 word) = n"
  by (simp add: unsigned_of_nat take_bit_eq_mod)

lemma above_fst: "above b (n, a) = (n + (if b then 1 else 0), a \<or> b)"
  by (simp add: above_def)

lemma replicate_5: "replicate 5 x = [x, x, x, x, x]"
  by (simp add: numeral_eq_Suc)

lemma f_sub_self: "\<not> f_gt (f_scale 24 (1 / 5) (f_sub 24 x x)) 0"
  by (cases x) (simp_all add: f_sub_def fl_def)

text \<open>
  The trend check is blind. The monitor hands it the address of the one sample it overwrites on
  every pass, so all entries of the history are this address or nil: the check either panics on an
  entry that is still nil or finds no trend in any signal, whatever the samples are.
\<close>

theorem trend_check_blind:
  assumes "length (history t) = HISTORY_SIZE" "head t < HISTORY_SIZE"
    and "\<forall>p\<in>set (history t). p = None \<or> p = Some a" "s a = Some d"
  shows "trendThresholdCheck s a pf alarm t =
    (if (history t)[head t := Some a] ! ((head t + 1) mod HISTORY_SIZE) = None \<or>
        (history t)[head t := Some a] ! (((head t + 1) mod HISTORY_SIZE + 1) mod HISTORY_SIZE) = None
     then Panic NilDereference
     else Ret (0, alarm, zero_state, \<lparr>history = (history t)[head t := Some a], head = (head t + 1) mod HISTORY_SIZE\<rparr>))"
proof -
  let ?h = "(history t)[head t := Some a]" and ?j = "(head t + 1) mod HISTORY_SIZE"
  let ?f = "(?j + 1) mod HISTORY_SIZE"
  have H: "0 < HISTORY_SIZE" by (simp add: HISTORY_SIZE_def)
  have l: "?j < length ?h" "?f < length ?h" using assms(1) H by simp_all
  have e: "?h ! k = None \<or> ?h ! k = Some a" if "k < length ?h" for k
    using that assms(2,3) by (cases "k = head t") (auto simp: nth_list_update)
  have z: "trend_signal (f_scale 24 (1 / 5) (f_sub 24 x x)) c r ca = (Fin 0, ca)" for x c r ca
    by (simp add: trend_signal_def f_sub_self)
  consider "?h ! ?j = None" | "?h ! ?j = Some a" "?h ! ?f = None" | "?h ! ?j = Some a" "?h ! ?f = Some a"
    using e [OF l(1)] e [OF l(2)] by argo
  then show ?thesis
  proof cases
    case 1
    then have "computeDifference s ?h ?j = Panic NilDereference"
      using l by (simp add: computeDifference_def Let_def deref_def)
    then show ?thesis using 1 assms(1,2) by (simp add: trendThresholdCheck_def Let_def)
  next
    case 2
    then have "computeDifference s ?h ?j = Panic NilDereference"
      using l assms(4) by (simp add: computeDifference_def Let_def deref_def)
    then show ?thesis using 2 assms(1,2) by (simp add: trendThresholdCheck_def Let_def)
  next
    case 3
    then have "computeDifference s ?h ?j = Ret (div_history (pointwise (f_sub 24) d d))"
      using l assms(4) by (simp add: computeDifference_def Let_def deref_def)
    then show ?thesis using 3 assms(1,2)
      by (simp add: trendThresholdCheck_def Let_def div_history_def pointwise_def z zero_state_def)
  qed
qed

theorem trend_check_blind_witness:
  "trendThresholdCheck [0 \<mapsto> zero_state\<lparr>loadAvg := Fin 90\<rparr>] 0 zero_state True \<lparr>history = replicate 5 (Some 0), head = 3\<rparr> =
    Ret (0, True, zero_state, \<lparr>history = replicate 5 (Some 0), head = 4\<rparr>)"
  using trend_check_blind [of "\<lparr>history = replicate 5 (Some 0), head = 3\<rparr>" 0 "[0 \<mapsto> zero_state\<lparr>loadAvg := Fin 90\<rparr>]"
      "zero_state\<lparr>loadAvg := Fin 90\<rparr>" zero_state True]
  by (simp add: HISTORY_SIZE_def replicate_5)

text \<open>
  The monitor dies on its first pass: whatever it reads, once \<open>/proc/stat\<close> has a line to cut, the
  trend check dereferences an entry of the history that no pass has filled.
\<close>

theorem monitor_dies_on_first_pass:
  assumes "5 \<le> length (statLine r)" "trend_of mo = trend0"
  shows "phaseOne_pass r mo = Panic NilDereference"
proof -
  have t: "trendThresholdCheck [0 \<mapsto> d] 0 pf al trend0 = Panic NilDereference" for d pf al
    by (simp add: trendThresholdCheck_def trend0_def HISTORY_SIZE_def computeDifference_def deref_def Let_def replicate_5)
  show ?thesis using assms by (simp add: phaseOne_pass_def sampleDataStat_def Let_def t split: prod.splits)
qed

theorem monitor_dies_on_first_pass_witness:
  "\<forall>c. phaseOne_pass \<lparr>uptimeLine = ''12.5 3.0'', statLine = ''cpu  1 2 3 4'', loadReading = Fin 1, softirqs = []\<rparr>
     \<lparr>cstate = zero_state, pstate = zero_state, positiveFor = zero_state, scc = c, cur_uptime = 0,
      cur_sirq = \<lparr>net_tx = 0, net_rx = 0, sched = 0\<rparr>, trend_of = trend0\<rparr> = Panic NilDereference"
  by (intro allI monitor_dies_on_first_pass) simp_all

text \<open>The value check counts the signals above their thresholds and raises the alarm for any.\<close>

lemma value_check_counts:
  "valueThresholdCheck st al = (of_nat (length (filter id [f_gt (loadAvg st) 6, f_gt (systime st) 15, f_gt (iowait st) 15, f_gt (net st) 15, f_gt (schd st) 15])),
     al \<or> f_gt (loadAvg st) 6 \<or> f_gt (systime st) 15 \<or> f_gt (iowait st) 15 \<or> f_gt (net st) 15 \<or> f_gt (schd st) 15)"
  by (simp add: valueThresholdCheck_def above_fst Let_def)

end
