(* ===== verification/Label_Selector.thy ===== *)
theory Label_Selector
  imports Go_Strings "HOL-Library.List_Lexorder" "HOL-Library.Char_ord"
begin

text \<open>
  Label selectors (\<open>apimachinery/pkg/labels/selector.go\<close>, \<open>apis/meta/v1/helpers.go\<close>,
  \<open>util/validation/validation.go\<close>): the requirements a selector consists of, the checks their
  constructor makes, matching against a set of labels, and the conversion from the selector of the API.
  Validators are predicates; the texts of their errors are left out.
\<close>

section \<open>Names\<close>

definition is_lower :: "char \<Rightarrow> bool" where
  "is_lower c \<longleftrightarrow> 97 \<le> (of_char c :: nat) \<and> (of_char c :: nat) \<le> 122"

definition is_upper :: "char \<Rightarrow> bool" where
  "is_upper c \<longleftrightarrow> 65 \<le> (of_char c :: nat) \<and> (of_char c :: nat) \<le> 90"

definition qnameChar :: "char \<Rightarrow> bool" where
  "qnameChar c \<longleftrightarrow> is_lower c \<or> is_upper c \<or> is_digit c"

definition qnameExtChar :: "char \<Rightarrow> bool" where
  "qnameExtChar c \<longleftrightarrow> qnameChar c \<or> c \<in> {CHR ''-'', CHR ''_'', CHR ''.''}"

text \<open>\<open>strings.Split\<close> for a separator of one character.\<close>

fun split_at :: "char \<Rightarrow> string \<Rightarrow> string list" where
  "split_at sep [] = [[]]"
| "split_at sep (c # cs) =
     (if c = sep then [] # split_at sep cs
      else case split_at sep cs of [] \<Rightarrow> [[c]] | p # ps \<Rightarrow> (c # p) # ps)"

text \<open>The regular expressions of qualified names and of lower case labels of a domain.\<close>

definition qualifiedNameRegexp :: "string \<Rightarrow> bool" where
  "qualifiedNameRegexp s \<longleftrightarrow> s \<noteq> [] \<and> qnameChar (hd s) \<and> qnameChar (last s) \<and> list_all qnameExtChar s"

definition dns1123LabelRegexp :: "string \<Rightarrow> bool" where
  "dns1123LabelRegexp s \<longleftrightarrow> s \<noteq> [] \<and> (is_lower (hd s) \<or> is_digit (hd s)) \<and> (is_lower (last s) \<or> is_digit (last s))
     \<and> list_all (\<lambda>c. is_lower c \<or> is_digit c \<or> c = CHR ''-'') s"

definition IsDNS1123Subdomain :: "string \<Rightarrow> bool" where
  "IsDNS1123Subdomain s \<longleftrightarrow> length s \<le> 253 \<and> list_all dns1123LabelRegexp (split_at (CHR ''.'') s)"

definition IsQualifiedName :: "string \<Rightarrow> bool" where
  "IsQualifiedName value = (case split_at (CHR ''/'') value of
       [name] \<Rightarrow> length name \<le> 63 \<and> qualifiedNameRegexp name
     | [prefix, name] \<Rightarrow> IsDNS1123Subdomain prefix \<and> length name \<le> 63 \<and> qualifiedNameRegexp name
     | _ \<Rightarrow> False)"

definition IsValidLabelValue :: "string \<Rightarrow> bool" where
  "IsValidLabelValue s \<longleftrightarrow> length s \<le> 63 \<and> (s = [] \<or> qualifiedNameRegexp s)"

section \<open>Requirements and selectors\<close>

text \<open>The operators are strings in the code; \<open>OtherOperator\<close> is any string that is none of them.\<close>

datatype operator = DoesNotExist | Equals | DoubleEquals | In | NotEquals | NotIn | Exists | GreaterThan | LessThan
  | OtherOperator string

record requirement =
  rKey :: string
  rOperator :: operator
  strValues :: "string list"

datatype req_error = BadKey | NoValues | NotOneValue | SomeValues | NotAnInteger string | BadOperator | BadValue string

definition value_count_errors :: "operator \<Rightarrow> string list \<Rightarrow> req_error list" where
  "value_count_errors op vals = (case op of
       In \<Rightarrow> (if vals = [] then [NoValues] else [])
     | NotIn \<Rightarrow> (if vals = [] then [NoValues] else [])
     | Equals \<Rightarrow> (if length vals \<noteq> 1 then [NotOneValue] else [])
     | DoubleEquals \<Rightarrow> (if length vals \<noteq> 1 then [NotOneValue] else [])
     | NotEquals \<Rightarrow> (if length vals \<noteq> 1 then [NotOneValue] else [])
     | Exists \<Rightarrow> (if vals \<noteq> [] then [SomeValues] else [])
     | DoesNotExist \<Rightarrow> (if vals \<noteq> [] then [SomeValues] else [])
     | GreaterThan \<Rightarrow> (if length vals \<noteq> 1 then [NotOneValue] else []) @
         map NotAnInteger (filter (\<lambda>v. snd (atoi v) \<noteq> None) vals)
     | LessThan \<Rightarrow> (if length vals \<noteq> 1 then [NotOneValue] else []) @
         map NotAnInteger (filter (\<lambda>v. snd (atoi v) \<noteq> None) vals)
     | OtherOperator s \<Rightarrow> [BadOperator])"

text \<open>The constructor returns the requirement together with the errors it found.\<close>

definition NewRequirement :: "string \<Rightarrow> operator \<Rightarrow> string list \<Rightarrow> requirement \<times> req_error list" where
  "NewRequirement key op vals =
     (\<lparr>rKey = key, rOperator = op, strValues = vals\<rparr>,
      (if IsQualifiedName key then [] else [BadKey]) @ value_count_errors op vals @
      map BadValue (filter (\<lambda>v. \<not> IsValidLabelValue v) vals))"

text \<open>A set of labels is a map, given by its entries.\<close>

type_synonym labels = "(string \<times> string) list"

definition labels_Has :: "labels \<Rightarrow> string \<Rightarrow> bool" where
  "labels_Has ls k \<longleftrightarrow> map_of ls k \<noteq> None"

definition labels_Get :: "labels \<Rightarrow> string \<Rightarrow> string" where
  "labels_Get ls k = (case map_of ls k of None \<Rightarrow> [] | Some v \<Rightarrow> v)"

definition hasValue :: "requirement \<Rightarrow> string \<Rightarrow> bool" where
  "hasValue r v \<longleftrightarrow> v \<in> set (strValues r)"

text \<open>Comparison of integers; more or fewer than one value, or one that is not an integer, never matches.\<close>

definition compare_values :: "requirement \<Rightarrow> labels \<Rightarrow> bool" where
  "compare_values r ls \<longleftrightarrow> labels_Has ls (rKey r) \<and>
     (case atoi (labels_Get ls (rKey r)) of (lsValue, e) \<Rightarrow> e = None \<and>
       (case strValues r of
          [v] \<Rightarrow> (case atoi v of (rValue, e') \<Rightarrow> e' = None \<and>
                  (rOperator r = GreaterThan \<and> lsValue > rValue \<or> rOperator r = LessThan \<and> lsValue < rValue))
        | _ \<Rightarrow> False))"

definition requirement_Matches :: "requirement \<Rightarrow> labels \<Rightarrow> bool" where
  "requirement_Matches r ls = (case rOperator r of
       In \<Rightarrow> labels_Has ls (rKey r) \<and> hasValue r (labels_Get ls (rKey r))
     | Equals \<Rightarrow> labels_Has ls (rKey r) \<and> hasValue r (labels_Get ls (rKey r))
     | DoubleEquals \<Rightarrow> labels_Has ls (rKey r) \<and> hasValue r (labels_Get ls (rKey r))
     | NotIn \<Rightarrow> \<not> labels_Has ls (rKey r) \<or> \<not> hasValue r (labels_Get ls (rKey r))
     | NotEquals \<Rightarrow> \<not> labels_Has ls (rKey r) \<or> \<not> hasValue r (labels_Get ls (rKey r))
     | Exists \<Rightarrow> labels_Has ls (rKey r)
     | DoesNotExist \<Rightarrow> \<not> labels_Has ls (rKey r)
     | GreaterThan \<Rightarrow> compare_values r ls
     | LessThan \<Rightarrow> compare_values r ls
     | OtherOperator s \<Rightarrow> False)"

text \<open>
  A selector matches nothing, or everything that meets all its requirements. Adding requirements
  sorts them by their keys.
\<close>

datatype selector = NothingSelector | InternalSelector "requirement list"

fun selector_Empty :: "selector \<Rightarrow> bool" where
  "selector_Empty NothingSelector = False"
| "selector_Empty (InternalSelector rs) \<longleftrightarrow> rs = []"

fun selector_Matches :: "selector \<Rightarrow> labels \<Rightarrow> bool" where
  "selector_Matches NothingSelector ls = False"
| "selector_Matches (InternalSelector rs) ls = list_all (\<lambda>r. requirement_Matches r ls) rs"

fun selector_Add :: "selector \<Rightarrow> requirement list \<Rightarrow> selector" where
  "selector_Add NothingSelector rs = NothingSelector"
| "selector_Add (InternalSelector ss) rs = InternalSelector (sort_key rKey (ss @ rs))"

section \<open>The selector of the API\<close>

record selectorRequirement =
  seKey :: string
  seOperator :: string
  seValues :: "string list"

record labelSelector =
  MatchLabels :: labels
  MatchExpressions :: "selectorRequirement list"

datatype selector_error = InvalidRequirement "req_error list" | InvalidOperator string

definition selectorOp :: "string \<Rightarrow> operator option" where
  "selectorOp op = (if op = ''In'' then Some In
     else if op = ''NotIn'' then Some NotIn
     else if op = ''Exists'' then Some Exists
     else if op = ''DoesNotExist'' then Some DoesNotExist
     else None)"

fun label_requirements :: "labels \<Rightarrow> selector_error + requirement list" where
  "label_requirements [] = Inr []"
| "label_requirements ((k, v) # ls) = (case NewRequirement k Equals [v] of (r, errs) \<Rightarrow>
     if errs \<noteq> [] then Inl (InvalidRequirement errs)
     else case label_requirements ls of Inl e \<Rightarrow> Inl e | Inr rs \<Rightarrow> Inr (r # rs))"

fun expr_requirements :: "selectorRequirement list \<Rightarrow> selector_error + requirement list" where
  "expr_requirements [] = Inr []"
| "expr_requirements (x # xs) = (case selectorOp (seOperator x) of
       None \<Rightarrow> Inl (InvalidOperator (seOperator x))
     | Some op \<Rightarrow> (case NewRequirement (seKey x) op (seValues x) of (r, errs) \<Rightarrow>
         if errs \<noteq> [] then Inl (InvalidRequirement errs)
         else case expr_requirements xs of Inl e \<Rightarrow> Inl e | Inr rs \<Rightarrow> Inr (r # rs)))"

definition LabelSelectorAsSelector :: "labelSelector option \<Rightarrow> selector_error + selector" where
  "LabelSelectorAsSelector ps = (case ps of
       None \<Rightarrow> Inr NothingSelector
     | Some p \<Rightarrow>
         (if MatchLabels p = [] \<and> MatchExpressions p = [] then Inr (InternalSelector [])
          else case label_requirements (MatchLabels p) of Inl e \<Rightarrow> Inl e
            | Inr rs \<Rightarrow> (case expr_requirements (MatchExpressions p) of Inl e \<Rightarrow> Inl e
                | Inr rs' \<Rightarrow> Inr (selector_Add (InternalSelector []) (rs @ rs')))))"

section \<open>What a selector matches\<close>

text \<open>The meaning of one expression, read off the documentation of the API type.\<close>

definition expr_holds :: "selectorRequirement \<Rightarrow> labels \<Rightarrow> bool" where
  "expr_holds x ls \<longleftrightarrow>
     (seOperator x = ''In'' \<and> (\<exists>v\<in>set (seValues x). map_of ls (seKey x) = Some v)) \<or>
     (seOperator x = ''NotIn'' \<and> \<not> (\<exists>v\<in>set (seValues x). map_of ls (seKey x) = Some v)) \<or>
     (seOperator x = ''Exists'' \<and> map_of ls (seKey x) \<noteq> None) \<or>
     (seOperator x = ''DoesNotExist'' \<and> map_of ls (seKey x) = None)"

lemma label_requirements_match:
  "label_requirements ls = Inr rs \<Longrightarrow>
     list_all (\<lambda>r. requirement_Matches r l) rs \<longleftrightarrow> (\<forall>(k, v)\<in>set ls. map_of l k = Some v)"
  by (induction ls arbitrary: rs)
    (auto simp: NewRequirement_def requirement_Matches_def labels_Has_def labels_Get_def hasValue_def
       split: if_splits sum.splits option.splits)

lemma expr_match:
  assumes "selectorOp (seOperator x) = Some op"
  shows "requirement_Matches (fst (NewRequirement (seKey x) op (seValues x))) l \<longleftrightarrow> expr_holds x l"
  using assms
  by (cases "map_of l (seKey x)")
    (auto simp: selectorOp_def NewRequirement_def requirement_Matches_def labels_Has_def labels_Get_def hasValue_def
       expr_holds_def split: if_splits)

lemma expr_requirements_match:
  "expr_requirements xs = Inr rs \<Longrightarrow>
     list_all (\<lambda>r. requirement_Matches r l) rs \<longleftrightarrow> (\<forall>x\<in>set xs. expr_holds x l)"
proof (induction xs arbitrary: rs)
  case (Cons x xs)
  obtain op where op: "selectorOp (seOperator x) = Some op"
    using Cons.prems by (auto split: option.splits)
  obtain r errs where r: "NewRequirement (seKey x) op (seValues x) = (r, errs)" by (rule prod.exhaust)
  obtain rs' where "expr_requirements xs = Inr rs'" "rs = r # rs'"
    using Cons.prems op r by (auto split: if_splits sum.splits)
  then show ?case using Cons.IH expr_match [OF op, of l] r by auto
qed simp

lemma selector_Matches_Add:
  "selector_Matches (selector_Add (InternalSelector ss) rs) l \<longleftrightarrow>
     list_all (\<lambda>r. requirement_Matches r l) (ss @ rs)"
  by (simp add: list_all_iff)

lemma selector_meaning:
  assumes "LabelSelectorAsSelector (Some p) = Inr sel"
  shows "selector_Matches sel l \<longleftrightarrow>
     (\<forall>(k, v)\<in>set (MatchLabels p). map_of l k = Some v) \<and> (\<forall>x\<in>set (MatchExpressions p). expr_holds x l)"
proof (cases "MatchLabels p = [] \<and> MatchExpressions p = []")
  case True
  then show ?thesis using assms by (auto simp: LabelSelectorAsSelector_def)
next
  case False
  obtain rs rs' where h: "label_requirements (MatchLabels p) = Inr rs" "expr_requirements (MatchExpressions p) = Inr rs'"
      "sel = selector_Add (InternalSelector []) (rs @ rs')"
    using assms False by (auto simp: LabelSelectorAsSelector_def split: sum.splits if_splits)
  show ?thesis unfolding h(3) selector_Matches_Add
    using label_requirements_match [OF h(1), of l] expr_requirements_match [OF h(2), of l] by simp
qed

end
