(* ===== verification/Node_Info.thy ===== *)
theory Node_Info
  imports K8s_Framework Label_Selector "HOL-Library.AList"
begin

text \<open>
  What the scheduler knows of a node (\<open>pkg/scheduler/framework/types.go\<close>, \<open>util/non_zero.go\<close>):
  resources requested by its pods, host ports in use, claims in use, and the operations that keep
  these totals while pods come and go.
\<close>

section \<open>Pods and resources\<close>

text \<open>
  A quantity is known through the two accessors the code calls. A resource list is a map, given by
  its entries in the order of the visit. Of the affinity of a pod the terms about other pods are kept; of a
  volume, the claim it uses.
\<close>

record quantity =
  MilliValue :: int
  Value :: int

type_synonym resourceList = "(string \<times> quantity) list"

record containerPort =
  HostIP :: string
  Protocol :: string
  HostPort :: int

record kcontainer =
  Requests :: resourceList
  Ports :: "containerPort list"
  Image :: string

record podAffinityTerm =
  ptLabelSelector :: "labelSelector option"
  ptNamespaces :: "string list"
  ptTopologyKey :: string
  ptNamespaceSelector :: "labelSelector option"

record podAffinity =
  RequiredTerms :: "podAffinityTerm list"
  PreferredTerms :: "(int \<times> podAffinityTerm) list"

record affinity =
  PodAffinity :: "podAffinity option"
  PodAntiAffinity :: "podAffinity option"

text \<open>Taints of nodes and what pods tolerate; of the conditions of a node the type and the status.\<close>

record taint =
  taintKey :: string
  taintValue :: string
  taintEffect :: string
  taintTimeAdded :: "int option"

record toleration =
  tolKey :: string
  tolOperator :: string
  tolValue :: string
  tolEffect :: string

record kpod =
  kName :: string
  kNamespace :: string
  UID :: string
  ResourceVersion :: string
  specNodeName :: string
  Containers :: "kcontainer list"
  InitContainers :: "kcontainer list"
  Overhead :: "resourceList option"
  Affinity :: "affinity option"
  claims :: "string option list"
  Priority :: "int option"
  NominatedNodeName :: string
  SchedulerName :: string
  deleting :: bool
  Annotations :: "(string \<times> string) list"
  Tolerations :: "toleration list"
  podLabels :: "(string \<times> string) list"
  StartTime :: "int option"
  PreemptionPolicy :: "string option"

record knode =
  knodeName :: string
  nodeLabels :: "(string \<times> string) list"
  nodeAllocatable :: resourceList
  nodeImages :: "(string list \<times> int) list"
  specUnschedulable :: bool
  Taints :: "taint list"
  nodeConditions :: "(string \<times> string) list"

text \<open>
  Switches the code reads: which names are scalar resources, and the feature gates
  \<open>LocalStorageCapacityIsolation\<close> and \<open>PodOverhead\<close>.
\<close>

record gates =
  IsScalarResourceName :: "string \<Rightarrow> bool"
  LocalStorage :: bool
  PodOverhead :: bool

text \<open>A nil map of scalar resources reads like an empty one and is allocated before the first write.\<close>

record resource =
  MilliCPU :: int
  Memory :: int
  EphemeralStorage :: int
  AllowedPodNumber :: int
  ScalarResources :: "(string \<times> int) list"

definition zero_resource :: resource where
  "zero_resource = \<lparr>MilliCPU = 0, Memory = 0, EphemeralStorage = 0, AllowedPodNumber = 0, ScalarResources = []\<rparr>"

definition scalar :: "resource \<Rightarrow> string \<Rightarrow> int" where
  "scalar r nm = (case map_of (ScalarResources r) nm of None \<Rightarrow> 0 | Some v \<Rightarrow> v)"

definition SetScalar :: "resource \<Rightarrow> string \<Rightarrow> int \<Rightarrow> resource" where
  "SetScalar r nm q = r\<lparr>ScalarResources := AList.update nm q (ScalarResources r)\<rparr>"

definition AddScalar :: "resource \<Rightarrow> string \<Rightarrow> int \<Rightarrow> resource" where
  "AddScalar r nm q = SetScalar r nm (wrap64 (scalar r nm + q))"

definition add_entry :: "gates \<Rightarrow> resource \<Rightarrow> string \<times> quantity \<Rightarrow> resource" where
  "add_entry g r = (\<lambda>(rName, rQuant).
     if rName = ''cpu'' then r\<lparr>MilliCPU := wrap64 (MilliCPU r + MilliValue rQuant)\<rparr>
     else if rName = ''memory'' then r\<lparr>Memory := wrap64 (Memory r + Value rQuant)\<rparr>
     else if rName = ''pods'' then r\<lparr>AllowedPodNumber := wrap64 (AllowedPodNumber r + Value rQuant)\<rparr>
     else if rName = ''ephemeral-storage'' then
       (if LocalStorage g then r\<lparr>EphemeralStorage := wrap64 (EphemeralStorage r + Value rQuant)\<rparr> else r)
     else if IsScalarResourceName g rName then AddScalar r rName (Value rQuant) else r)"

definition Add :: "gates \<Rightarrow> resource \<Rightarrow> resourceList \<Rightarrow> resource" where
  "Add g r rl = foldl (add_entry g) r rl"

definition NewResource :: "gates \<Rightarrow> resourceList \<Rightarrow> resource" where
  "NewResource g rl = Add g zero_resource rl"

definition max_entry :: "gates \<Rightarrow> resource \<Rightarrow> string \<times> quantity \<Rightarrow> resource" where
  "max_entry g r = (\<lambda>(rName, rQuant).
     if rName = ''memory'' then r\<lparr>Memory := max (Memory r) (Value rQuant)\<rparr>
     else if rName = ''cpu'' then r\<lparr>MilliCPU := max (MilliCPU r) (MilliValue rQuant)\<rparr>
     else if rName = ''ephemeral-storage'' then
       (if LocalStorage g then r\<lparr>EphemeralStorage := max (EphemeralStorage r) (Value rQuant)\<rparr> else r)
     else if IsScalarResourceName g rName then SetScalar r rName (max (scalar r rName) (Value rQuant)) else r)"

definition SetMaxResource :: "gates \<Rightarrow> resource \<Rightarrow> resourceList \<Rightarrow> resource" where
  "SetMaxResource g r rl = foldl (max_entry g) r rl"

definition GetNonzeroRequests :: "resourceList \<Rightarrow> int \<times> int" where
  "GetNonzeroRequests rl =
     (case map_of rl ''cpu'' of None \<Rightarrow> 100 | Some q \<Rightarrow> MilliValue q,
      case map_of rl ''memory'' of None \<Rightarrow> 200 * 1024 * 1024 | Some q \<Rightarrow> Value q)"

definition add_container :: "gates \<Rightarrow> resource \<times> int \<times> int \<Rightarrow> kcontainer \<Rightarrow> resource \<times> int \<times> int" where
  "add_container g = (\<lambda>(res, non0CPU, non0Mem) c.
     let (cpu, mem) = GetNonzeroRequests (Requests c)
     in (Add g res (Requests c), wrap64 (non0CPU + cpu), wrap64 (non0Mem + mem)))"

definition max_container :: "gates \<Rightarrow> resource \<times> int \<times> int \<Rightarrow> kcontainer \<Rightarrow> resource \<times> int \<times> int" where
  "max_container g = (\<lambda>(res, non0CPU, non0Mem) ic.
     let (cpu, mem) = GetNonzeroRequests (Requests ic)
     in (SetMaxResource g res (Requests ic), max non0CPU cpu, max non0Mem mem))"

definition calculateResource :: "gates \<Rightarrow> kpod \<Rightarrow> resource \<times> int \<times> int" where
  "calculateResource g pod =
     (let (res, non0CPU, non0Mem) = foldl (max_container g)
            (foldl (add_container g) (zero_resource, 0, 0) (Containers pod)) (InitContainers pod)
      in case Overhead pod of None \<Rightarrow> (res, non0CPU, non0Mem)
         | Some ov \<Rightarrow> (if PodOverhead g
             then (Add g res ov,
                   case map_of ov ''cpu'' of None \<Rightarrow> non0CPU | Some q \<Rightarrow> wrap64 (non0CPU + MilliValue q),
                   case map_of ov ''memory'' of None \<Rightarrow> non0Mem | Some q \<Rightarrow> wrap64 (non0Mem + Value q))
             else (res, non0CPU, non0Mem)))"

section \<open>Host ports\<close>

type_synonym hostPortInfo = "(string \<times> (string \<times> int) list) list"

definition DefaultBindAllHostIP :: string where "DefaultBindAllHostIP = ''0.0.0.0''"

definition sanitize :: "string \<Rightarrow> string \<Rightarrow> string \<times> string" where
  "sanitize ip protocol = (if ip = [] then DefaultBindAllHostIP else ip, if protocol = [] then ''TCP'' else protocol)"

definition NewProtocolPort :: "string \<Rightarrow> int \<Rightarrow> string \<times> int" where
  "NewProtocolPort protocol port = (if protocol = [] then ''TCP'' else protocol, port)"

definition ports_add :: "hostPortInfo \<Rightarrow> string \<Rightarrow> string \<Rightarrow> int \<Rightarrow> hostPortInfo" where
  "ports_add h ip protocol port = (if port \<le> 0 then h
     else let (ip', protocol') = sanitize ip protocol;
              pp = NewProtocolPort protocol' port
          in case map_of h ip' of None \<Rightarrow> AList.update ip' [pp] h
             | Some ms \<Rightarrow> AList.update ip' (List.insert pp ms) h)"

definition ports_remove :: "hostPortInfo \<Rightarrow> string \<Rightarrow> string \<Rightarrow> int \<Rightarrow> hostPortInfo" where
  "ports_remove h ip protocol port = (if port \<le> 0 then h
     else let (ip', protocol') = sanitize ip protocol;
              pp = NewProtocolPort protocol' port
          in case map_of h ip' of None \<Rightarrow> h
             | Some ms \<Rightarrow> (let ms' = removeAll pp ms
                           in if ms' = [] then AList.delete ip' h else AList.update ip' ms' h))"

definition ports_len :: "hostPortInfo \<Rightarrow> nat" where
  "ports_len h = foldl (\<lambda>n (_, ms). n + length ms) 0 h"

definition CheckConflict :: "hostPortInfo \<Rightarrow> string \<Rightarrow> string \<Rightarrow> int \<Rightarrow> bool" where
  "CheckConflict h ip protocol port = (if port \<le> 0 then False
     else let (ip', protocol') = sanitize ip protocol;
              pp = NewProtocolPort protocol' port
          in if ip' = DefaultBindAllHostIP then list_ex (\<lambda>(_, ms). pp \<in> set ms) h
             else list_ex (\<lambda>key. case map_of h key of None \<Rightarrow> False | Some ms \<Rightarrow> pp \<in> set ms) [DefaultBindAllHostIP, ip'])"

section \<open>Node information\<close>

text \<open>
  The entry of a pod is the pod itself; the terms the code computes from its affinity are functions of it. An image is summarised by its size and the number of nodes that have it. Generations come
  from one global counter, threaded through the operations.
\<close>

record nodeInfo =
  node :: "knode option"
  Pods :: "kpod list"
  PodsWithAffinity :: "kpod list"
  PodsWithRequiredAntiAffinity :: "kpod list"
  UsedPorts :: hostPortInfo
  Requested :: resource
  NonZeroRequested :: resource
  Allocatable :: resource
  ImageStates :: "(string \<times> int \<times> nat) list"
  PVCRefCounts :: "(string \<times> int) list"
  Generation :: int

definition nextGeneration :: "int \<Rightarrow> int" where
  "nextGeneration generation = wrap64 (generation + 1)"

definition podWithAffinity :: "kpod \<Rightarrow> bool" where
  "podWithAffinity p = (case Affinity p of None \<Rightarrow> False | Some a \<Rightarrow> PodAffinity a \<noteq> None \<or> PodAntiAffinity a \<noteq> None)"

definition podWithRequiredAntiAffinity :: "kpod \<Rightarrow> bool" where
  "podWithRequiredAntiAffinity p = (case Affinity p of None \<Rightarrow> False
     | Some a \<Rightarrow> (case PodAntiAffinity a of None \<Rightarrow> False | Some t \<Rightarrow> RequiredTerms t \<noteq> []))"

definition GetPodKey :: "kpod \<Rightarrow> string + string" where
  "GetPodKey p = (if UID p = [] then Inl ''cannot get cache key for pod with empty UID'' else Inr (UID p))"

definition add_resource :: "resource \<Rightarrow> resource \<Rightarrow> resource" where
  "add_resource r res = foldl (\<lambda>r (nm, q). SetScalar r nm (wrap64 (scalar r nm + q)))
     (r\<lparr>MilliCPU := wrap64 (MilliCPU r + MilliCPU res), Memory := wrap64 (Memory r + Memory res),
        EphemeralStorage := wrap64 (EphemeralStorage r + EphemeralStorage res)\<rparr>) (ScalarResources res)"

definition sub_resource :: "resource \<Rightarrow> resource \<Rightarrow> resource" where
  "sub_resource r res = foldl (\<lambda>r (nm, q). SetScalar r nm (wrap64 (scalar r nm - q)))
     (r\<lparr>MilliCPU := wrap64 (MilliCPU r - MilliCPU res), Memory := wrap64 (Memory r - Memory res),
        EphemeralStorage := wrap64 (EphemeralStorage r - EphemeralStorage res)\<rparr>) (ScalarResources res)"

definition updateUsedPorts :: "kpod \<Rightarrow> bool \<Rightarrow> hostPortInfo \<Rightarrow> hostPortInfo" where
  "updateUsedPorts pod add h = foldl (\<lambda>h c. foldl (\<lambda>h p. if add then ports_add h (HostIP p) (Protocol p) (HostPort p)
     else ports_remove h (HostIP p) (Protocol p) (HostPort p)) h (Ports c)) h (Containers pod)"

definition updatePVCRefCounts :: "kpod \<Rightarrow> bool \<Rightarrow> (string \<times> int) list \<Rightarrow> (string \<times> int) list" where
  "updatePVCRefCounts pod add m = foldl (\<lambda>m v. case v of None \<Rightarrow> m
     | Some claim \<Rightarrow>
         (let key = kNamespace pod @ ''/'' @ claim;
              n = (case map_of m key of None \<Rightarrow> 0 | Some n \<Rightarrow> n)
          in if add then AList.update key (wrap64 (n + 1)) m
             else if wrap64 (n - 1) \<le> 0 then AList.delete key m
             else AList.update key (wrap64 (n - 1)) m)) m (claims pod)"

definition AddPodInfo :: "gates \<Rightarrow> kpod \<Rightarrow> nodeInfo \<Rightarrow> int \<Rightarrow> nodeInfo \<times> int" where
  "AddPodInfo g pod n gen =
     (let (res, non0CPU, non0Mem) = calculateResource g pod;
          gen' = nextGeneration gen
      in (n\<lparr>Requested := add_resource (Requested n) res,
            NonZeroRequested := (NonZeroRequested n)\<lparr>MilliCPU := wrap64 (MilliCPU (NonZeroRequested n) + non0CPU),
                                                      Memory := wrap64 (Memory (NonZeroRequested n) + non0Mem)\<rparr>,
            Pods := Pods n @ [pod],
            PodsWithAffinity := (if podWithAffinity pod then PodsWithAffinity n @ [pod] else PodsWithAffinity n),
            PodsWithRequiredAntiAffinity := (if podWithRequiredAntiAffinity pod
              then PodsWithRequiredAntiAffinity n @ [pod] else PodsWithRequiredAntiAffinity n),
            UsedPorts := updateUsedPorts pod True (UsedPorts n),
            PVCRefCounts := updatePVCRefCounts pod True (PVCRefCounts n),
            Generation := gen'\<rparr>, gen'))"

text \<open>The first pod with the key is overwritten by the last one, and the slice gets shorter by one.\<close>

fun find_key :: "string \<Rightarrow> kpod list \<Rightarrow> nat option" where
  "find_key k [] = None"
| "find_key k (p # ps) = (if GetPodKey p = Inr k then Some 0 else map_option Suc (find_key k ps))"

definition swap_remove :: "nat \<Rightarrow> 'a list \<Rightarrow> 'a list" where
  "swap_remove i xs = butlast (xs[i := last xs])"

definition removeFromSlice :: "kpod list \<Rightarrow> string \<Rightarrow> kpod list" where
  "removeFromSlice s k = (case find_key k s of None \<Rightarrow> s | Some i \<Rightarrow> swap_remove i s)"

text \<open>
  Removing reports an error for a pod without a key and for a pod that is not there; the text of the
  latter names the node and panics when the node is gone.
\<close>

definition RemovePod :: "gates \<Rightarrow> kpod \<Rightarrow> nodeInfo \<Rightarrow> int \<Rightarrow> (string option \<times> nodeInfo \<times> int) go" where
  "RemovePod g pod n gen = (case GetPodKey pod of
       Inl e \<Rightarrow> Ret (Some e, n, gen)
     | Inr k \<Rightarrow>
         (let n1 = n\<lparr>PodsWithAffinity := (if podWithAffinity pod then removeFromSlice (PodsWithAffinity n) k else PodsWithAffinity n),
                     PodsWithRequiredAntiAffinity := (if podWithRequiredAntiAffinity pod
                       then removeFromSlice (PodsWithRequiredAntiAffinity n) k else PodsWithRequiredAntiAffinity n)\<rparr>
          in case find_key k (Pods n1) of
              None \<Rightarrow> (case node n1 of None \<Rightarrow> Panic NilDereference
                | Some nd \<Rightarrow> Ret (Some (''no corresponding pod '' @ kName pod @ '' in pods of node '' @ knodeName nd), n1, gen))
            | Some i \<Rightarrow>
                (let (res, non0CPU, non0Mem) = calculateResource g pod;
                     gen' = nextGeneration gen
                 in Ret (None,
                      n1\<lparr>Pods := swap_remove i (Pods n1),
                         Requested := sub_resource (Requested n1) res,
                         NonZeroRequested := (NonZeroRequested n1)\<lparr>MilliCPU := wrap64 (MilliCPU (NonZeroRequested n1) - non0CPU),
                                                                   Memory := wrap64 (Memory (NonZeroRequested n1) - non0Mem)\<rparr>,
                         UsedPorts := updateUsedPorts pod False (UsedPorts n1),
                         PVCRefCounts := updatePVCRefCounts pod False (PVCRefCounts n1),
                         Generation := gen'\<rparr>, gen'))))"

definition NewNodeInfo :: "gates \<Rightarrow> kpod list \<Rightarrow> int \<Rightarrow> nodeInfo \<times> int" where
  "NewNodeInfo g pods gen =
     (let gen' = nextGeneration gen;
          ni = \<lparr>node = None, Pods = [], PodsWithAffinity = [], PodsWithRequiredAntiAffinity = [], UsedPorts = [],
                Requested = zero_resource, NonZeroRequested = zero_resource, Allocatable = zero_resource,
                ImageStates = [], PVCRefCounts = [], Generation = gen'\<rparr>
      in foldl (\<lambda>(ni, gen) pod. AddPodInfo g pod ni gen) (ni, gen') pods)"

definition SetNode :: "gates \<Rightarrow> knode \<Rightarrow> nodeInfo \<Rightarrow> int \<Rightarrow> nodeInfo \<times> int" where
  "SetNode g nd n gen = (let gen' = nextGeneration gen
     in (n\<lparr>node := Some nd, Allocatable := NewResource g (nodeAllocatable nd), Generation := gen'\<rparr>, gen'))"

definition RemoveNode :: "nodeInfo \<Rightarrow> int \<Rightarrow> nodeInfo \<times> int" where
  "RemoveNode n gen = (let gen' = nextGeneration gen in (n\<lparr>node := None, Generation := gen'\<rparr>, gen'))"

definition FilterOutPods :: "nodeInfo \<Rightarrow> kpod list \<Rightarrow> kpod list" where
  "FilterOutPods n pods = (case node n of None \<Rightarrow> pods
     | Some nd \<Rightarrow> filter (\<lambda>p. specNodeName p \<noteq> knodeName nd \<or>
         (case GetPodKey p of Inl _ \<Rightarrow> False
          | Inr k \<Rightarrow> list_ex (\<lambda>np. (case GetPodKey np of Inl _ \<Rightarrow> [] | Inr k2 \<Rightarrow> k2) = k) (Pods n))) pods)"

end
