(* ===== verification/Node_Info_Props.thy ===== *)
theory Node_Info_Props
  imports Node_Info
begin

text \<open>
  The totals of a node agree with its pods after every sequence of additions and removals, a pod
  being removed with the object it was added with; a port
  that has been added conflicts with what the address rules say it conflicts with.
\<close>

section \<open>Slices\<close>

lemma find_key_Some: "find_key k ps = Some i \<Longrightarrow> i < length ps \<and> GetPodKey (ps ! i) = Inr k"
  by (induction ps arbitrary: i) (auto split: if_splits)

lemma find_key_None: "find_key k ps = None \<longleftrightarrow> (\<forall>p\<in>set ps. GetPodKey p \<noteq> Inr k)"
  by (induction ps) auto

lemma swap_remove_mset:
  assumes "i < length xs"
  shows "mset (swap_remove i xs) = mset xs - {#xs ! i#}"
proof (cases xs rule: rev_cases)
  case (snoc ys y)
  show ?thesis
  proof (cases "i = length ys")
    case False
    then have i: "i < length ys" using assms snoc by simp
    then have "ys ! i \<in># mset ys" by simp
    then show ?thesis using snoc i by (simp add: swap_remove_def list_update_append nth_append mset_update butlast_append)
  qed (simp add: swap_remove_def snoc)
qed (use assms in simp)

lemma sum_list_minus:
  "mset ys = mset xs - {#x#} \<Longrightarrow> x \<in> set xs \<Longrightarrow> sum_list (map f ys) = sum_list (map f xs) - (f x :: int)"
proof -
  assume a: "mset ys = mset xs - {#x#}" "x \<in> set xs"
  then have "mset (x # ys) = mset xs" by simp
  then have "sum_list (map f (x # ys)) = sum_list (map f xs)" by (metis mset_map sum_mset_sum_list)
  then show ?thesis by simp
qed

section \<open>Resources\<close>

definition keyed :: "resource \<Rightarrow> bool" where
  "keyed r \<longleftrightarrow> distinct (map fst (ScalarResources r))"

lemma keyed_SetScalar [simp]: "keyed r \<Longrightarrow> keyed (SetScalar r nm q)"
  by (simp add: keyed_def SetScalar_def distinct_update)

lemma keyed_update [simp]:
  "keyed (r\<lparr>MilliCPU := a\<rparr>) = keyed r" "keyed (r\<lparr>Memory := b\<rparr>) = keyed r"
  "keyed (r\<lparr>EphemeralStorage := c\<rparr>) = keyed r" "keyed (r\<lparr>AllowedPodNumber := d\<rparr>) = keyed r"
  by (simp_all add: keyed_def)

lemma keyed_add_entry: "keyed r \<Longrightarrow> keyed (add_entry g r e)"
  by (simp add: add_entry_def AddScalar_def split: prod.splits)

lemma keyed_max_entry: "keyed r \<Longrightarrow> keyed (max_entry g r e)"
  by (simp add: max_entry_def split: prod.splits)

lemma keyed_Add: "keyed r \<Longrightarrow> keyed (Add g r rl)"
  unfolding Add_def by (induction rl arbitrary: r) (simp_all add: keyed_add_entry)

lemma keyed_SetMax: "keyed r \<Longrightarrow> keyed (SetMaxResource g r rl)"
  unfolding SetMaxResource_def by (induction rl arbitrary: r) (simp_all add: keyed_max_entry)

lemma keyed_containers: "keyed (fst t) \<Longrightarrow> keyed (fst (foldl (add_container g) t cs))"
  by (induction cs arbitrary: t) (auto simp: add_container_def keyed_Add Let_def split: prod.splits)

lemma keyed_inits: "keyed (fst t) \<Longrightarrow> keyed (fst (foldl (max_container g) t cs))"
  by (induction cs arbitrary: t) (auto simp: max_container_def keyed_SetMax Let_def split: prod.splits)

lemma keyed_calculate: "keyed (fst (calculateResource g p))"
proof -
  have "keyed (fst (foldl (max_container g) (foldl (add_container g) (zero_resource, 0, 0) (Containers p)) (InitContainers p)))"
    by (intro keyed_inits keyed_containers) (simp add: keyed_def zero_resource_def)
  then show ?thesis
    by (auto simp: calculateResource_def Let_def keyed_Add split: prod.splits option.splits)
qed

lemma scalar_SetScalar: "scalar (SetScalar r nm q) k = (if k = nm then q else scalar r k)"
  by (simp add: scalar_def SetScalar_def update_conv')

lemma scalar_record [simp]:
  "scalar (r\<lparr>MilliCPU := a\<rparr>) = scalar r" "scalar (r\<lparr>Memory := b\<rparr>) = scalar r"
  "scalar (r\<lparr>EphemeralStorage := c\<rparr>) = scalar r"
  by (simp_all add: scalar_def fun_eq_iff)

lemma fold_scalars:
  assumes "distinct (map fst es)" "\<And>k. int64 (scalar r k)"
  shows "scalar (foldl (\<lambda>r (nm, q). SetScalar r nm (wrap64 (scalar r nm + f q))) r es) k =
      wrap64 (scalar r k + (case map_of es k of None \<Rightarrow> 0 | Some q \<Rightarrow> f q))"
  using assms
proof (induction es arbitrary: r)
  case Nil
  then show ?case by (simp add: wrap64_id)
next
  case (Cons e es)
  obtain nm q where e: "e = (nm, q)" by force
  have "map_of es nm = None" using Cons.prems(1) by (simp add: e map_of_eq_None_iff)
  then show ?case using Cons.IH [of "SetScalar r nm (wrap64 (scalar r nm + f q))"] Cons.prems
    by (simp add: e scalar_SetScalar wrap64_id)
qed

lemma fold_scalars_fields:
  "MilliCPU (foldl (\<lambda>r (nm, q). SetScalar r nm (h r nm q)) r es) = MilliCPU r"
  "Memory (foldl (\<lambda>r (nm, q). SetScalar r nm (h r nm q)) r es) = Memory r"
  "EphemeralStorage (foldl (\<lambda>r (nm, q). SetScalar r nm (h r nm q)) r es) = EphemeralStorage r"
  by (induction es arbitrary: r) (auto simp: SetScalar_def split: prod.splits)

lemma scalar_add_resource:
  assumes "keyed res" "\<And>k. int64 (scalar r k)"
  shows "scalar (add_resource r res) k = wrap64 (scalar r k + scalar res k)"
  using fold_scalars [of "ScalarResources res" "r\<lparr>MilliCPU := a, Memory := b, EphemeralStorage := c\<rparr>" "\<lambda>q. q" k for a b c] assms
  by (simp add: add_resource_def keyed_def scalar_def [of res])

lemma scalar_sub_resource:
  assumes "keyed res" "\<And>k. int64 (scalar r k)"
  shows "scalar (sub_resource r res) k = wrap64 (scalar r k - scalar res k)"
proof -
  have "scalar (sub_resource r res) k = wrap64 (scalar r k + (case map_of (ScalarResources res) k of None \<Rightarrow> 0 | Some q \<Rightarrow> - q))"
    using fold_scalars [of "ScalarResources res" "r\<lparr>MilliCPU := a, Memory := b, EphemeralStorage := c\<rparr>" "\<lambda>q. - q" k for a b c] assms
    by (simp add: sub_resource_def keyed_def)
  then show ?thesis by (simp add: scalar_def [of res] split: option.splits)
qed

section \<open>The totals\<close>

text \<open>A component of a resource: cpu, memory, storage, or a scalar.\<close>

definition parts :: "(resource \<Rightarrow> int) set" where
  "parts = insert MilliCPU (insert Memory (insert EphemeralStorage (range (\<lambda>k r. scalar r k))))"

definition accounts :: "gates \<Rightarrow> nodeInfo \<Rightarrow> bool" where
  "accounts g n \<longleftrightarrow>
     (\<forall>f\<in>parts. f (Requested n) = wrap64 (sum_list (map (\<lambda>p. f (fst (calculateResource g p))) (Pods n)))) \<and>
     MilliCPU (NonZeroRequested n) = wrap64 (sum_list (map (\<lambda>p. fst (snd (calculateResource g p))) (Pods n))) \<and>
     Memory (NonZeroRequested n) = wrap64 (sum_list (map (\<lambda>p. snd (snd (calculateResource g p))) (Pods n))) \<and>
     mset (PodsWithAffinity n) = mset (filter podWithAffinity (Pods n)) \<and>
     mset (PodsWithRequiredAntiAffinity n) = mset (filter podWithRequiredAntiAffinity (Pods n))"

lemma wrap64_wrap64_diff [wrap_simps]: "wrap64 (wrap64 x - y) = wrap64 (x - y)"
  using wrap64_wrap64_add [of x "- y"] by simp

lemma accounts_int64: "accounts g n \<Longrightarrow> int64 (scalar (Requested n) k)"
  by (auto simp: accounts_def parts_def)

lemma parts_add:
  assumes "keyed res" "\<And>k. int64 (scalar r k)" "f \<in> parts"
  shows "f (add_resource r res) = wrap64 (f r + f res)"
  using assms scalar_add_resource [OF assms(1,2)] by (auto simp: parts_def) (simp_all add: add_resource_def fold_scalars_fields)

lemma parts_sub:
  assumes "keyed res" "\<And>k. int64 (scalar r k)" "f \<in> parts"
  shows "f (sub_resource r res) = wrap64 (f r - f res)"
  using assms scalar_sub_resource [OF assms(1,2)] by (auto simp: parts_def) (simp_all add: sub_resource_def fold_scalars_fields)

lemma accounts_Add:
  assumes "accounts g n" "AddPodInfo g p n gen = (n', gen')"
  shows "accounts g n' \<and> mset (Pods n') = add_mset p (mset (Pods n)) \<and> node n' = node n"
proof -
  obtain res c m where r: "calculateResource g p = (res, c, m)" by (metis prod_cases3)
  have k: "keyed res" using keyed_calculate [of g p] r by simp
  have f: "\<forall>f\<in>parts. f (add_resource (Requested n) res) =
      wrap64 (sum_list (map (\<lambda>p. f (fst (calculateResource g p))) (Pods n @ [p])))"
  proof
    fix f assume f: "f \<in> parts"
    then have "f (Requested n) = wrap64 (sum_list (map (\<lambda>p. f (fst (calculateResource g p))) (Pods n)))"
      using assms(1) by (simp add: accounts_def)
    then show "f (add_resource (Requested n) res) = wrap64 (sum_list (map (\<lambda>p. f (fst (calculateResource g p))) (Pods n @ [p])))"
      using parts_add [OF k accounts_int64 [OF assms(1)] f] r by (simp add: wrap_simps)
  qed
  show ?thesis using assms f r by (auto simp: AddPodInfo_def accounts_def wrap_simps Let_def)
qed

lemma removeFromSlice_mset:
  assumes "\<forall>q\<in>set s. UID q = UID p \<longrightarrow> q = p" "GetPodKey p = Inr k" "p \<in> set s"
  shows "mset (removeFromSlice s k) = mset s - {#p#}"
proof -
  have "find_key k s \<noteq> None" using assms(2,3) by (auto simp: find_key_None)
  then obtain i where i: "find_key k s = Some i" by blast
  have "s ! i = p" using find_key_Some [OF i] assms(1,2) by (auto simp: GetPodKey_def split: if_splits)
  then show ?thesis using i find_key_Some [OF i] by (simp add: removeFromSlice_def swap_remove_mset)
qed

lemma accounts_Remove:
  assumes "accounts g n" "UID p \<noteq> []" "p \<in> set (Pods n)" "\<forall>q\<in>set (Pods n). UID q = UID p \<longrightarrow> q = p"
  shows "\<exists>n' gen'. RemovePod g p n gen = Ret (None, n', gen') \<and> accounts g n' \<and>
    mset (Pods n') = mset (Pods n) - {#p#} \<and> node n' = node n"
proof -
  have k: "GetPodKey p = Inr (UID p)" using assms(2) by (simp add: GetPodKey_def)
  obtain res c m where r: "calculateResource g p = (res, c, m)" by (metis prod_cases3)
  have kr: "keyed res" using keyed_calculate [of g p] r by simp
  have "find_key (UID p) (Pods n) \<noteq> None" using assms(3) k by (auto simp: find_key_None)
  then obtain i where i: "find_key (UID p) (Pods n) = Some i" by blast
  have pi: "Pods n ! i = p" "i < length (Pods n)"
    using find_key_Some [OF i] assms(4) by (auto simp: GetPodKey_def split: if_splits)
  let ?ps = "swap_remove i (Pods n)"
  have ms: "mset ?ps = mset (Pods n) - {#p#}" using swap_remove_mset [OF pi(2)] pi(1) by simp
  note sm = sum_list_minus [OF ms assms(3)]
  have f: "\<forall>f\<in>parts. f (sub_resource (Requested n) res) = wrap64 (sum_list (map (\<lambda>p. f (fst (calculateResource g p))) ?ps))"
  proof
    fix f assume f: "f \<in> parts"
    then have "f (Requested n) = wrap64 (sum_list (map (\<lambda>p. f (fst (calculateResource g p))) (Pods n)))"
      using assms(1) by (simp add: accounts_def)
    then show "f (sub_resource (Requested n) res) = wrap64 (sum_list (map (\<lambda>p. f (fst (calculateResource g p))) ?ps))"
      using parts_sub [OF kr accounts_int64 [OF assms(1)] f] r sm by (simp add: wrap_simps)
  qed
  have sl: "mset (removeFromSlice s (UID p)) = mset s - {#p#}"
    if h: "mset s = mset (filter P (Pods n))" "P p" for s P
  proof -
    have "set s = set (filter P (Pods n))" using h(1) by (metis set_mset_mset)
    then show ?thesis using assms(3,4) h(2) k by (intro removeFromSlice_mset) auto
  qed
  have a: "mset (PodsWithAffinity n) = mset (filter podWithAffinity (Pods n))"
    "mset (PodsWithRequiredAntiAffinity n) = mset (filter podWithRequiredAntiAffinity (Pods n))"
    using assms(1) by (simp_all add: accounts_def)
  show ?thesis
    using assms(1) f sm sl [OF a(1)] sl [OF a(2)] ms i k r a
    by (auto simp: RemovePod_def accounts_def wrap_simps Let_def filter_diff_mset)
qed

lemma accounts_Remove_absent:
  assumes "accounts g n" "UID p \<noteq> []" "\<forall>q\<in>set (Pods n). UID q \<noteq> UID p" "node n = Some nd"
  shows "\<exists>e n' gen'. RemovePod g p n gen = Ret (Some e, n', gen') \<and> accounts g n' \<and> Pods n' = Pods n \<and> node n' = node n"
proof -
  have k: "GetPodKey p = Inr (UID p)" using assms(2) by (simp add: GetPodKey_def)
  have none: "find_key (UID p) s = None" if "\<forall>q\<in>set s. UID q \<noteq> UID p" for s
    using that by (auto simp: find_key_None GetPodKey_def)
  have "set (PodsWithAffinity n) \<subseteq> set (Pods n)" "set (PodsWithRequiredAntiAffinity n) \<subseteq> set (Pods n)"
    using assms(1) by (auto simp: accounts_def dest!: arg_cong [of _ _ set_mset])
  then have "find_key (UID p) (PodsWithAffinity n) = None" "find_key (UID p) (PodsWithRequiredAntiAffinity n) = None"
    "find_key (UID p) (Pods n) = None" using assms(3) by (auto intro!: none)
  then show ?thesis using assms k by (auto simp: RemovePod_def removeFromSlice_def accounts_def)
qed

section \<open>Sequences of operations\<close>

datatype ni_op = AddOp kpod | RemoveOp kpod

fun run_ops :: "gates \<Rightarrow> ni_op list \<Rightarrow> nodeInfo \<Rightarrow> int \<Rightarrow> (nodeInfo \<times> int) go" where
  "run_ops g [] n gen = Ret (n, gen)"
| "run_ops g (AddOp p # ops) n gen = (case AddPodInfo g p n gen of (n', gen') \<Rightarrow> run_ops g ops n' gen')"
| "run_ops g (RemoveOp p # ops) n gen = go_bind (RemovePod g p n gen) (\<lambda>(_, n', gen'). run_ops g ops n' gen')"

fun pods_after :: "ni_op list \<Rightarrow> kpod multiset \<Rightarrow> kpod multiset" where
  "pods_after [] M = M"
| "pods_after (AddOp p # ops) M = pods_after ops (add_mset p M)"
| "pods_after (RemoveOp p # ops) M = pods_after ops (M - {#p#})"

text \<open>
  What the callers of the node keep to: a pod is removed by its identifier, which is not empty, with
  the object that was added under it. A pod is changed by removing the old and adding the new object.
\<close>

fun ops_ok :: "ni_op list \<Rightarrow> kpod multiset \<Rightarrow> bool" where
  "ops_ok [] M \<longleftrightarrow> True"
| "ops_ok (AddOp p # ops) M \<longleftrightarrow> ops_ok ops (add_mset p M)"
| "ops_ok (RemoveOp p # ops) M \<longleftrightarrow> UID p \<noteq> [] \<and> (\<forall>q\<in>#M. UID q = UID p \<longrightarrow> q = p) \<and> ops_ok ops (M - {#p#})"

lemma run_ops_accounts:
  assumes "ops_ok ops (mset (Pods n))" "accounts g n" "node n = Some nd"
  shows "\<exists>n' gen'. run_ops g ops n gen = Ret (n', gen') \<and> accounts g n' \<and> mset (Pods n') = pods_after ops (mset (Pods n))"
  using assms
proof (induction g ops n gen rule: run_ops.induct)
  case (2 g p ops n gen)
  obtain n1 gen1 where 1: "AddPodInfo g p n gen = (n1, gen1)" by force
  have a: "accounts g n1" "mset (Pods n1) = add_mset p (mset (Pods n))" "node n1 = node n"
    using accounts_Add [OF 2(3) 1] by auto
  then show ?case using 2(1) [OF 1 [symmetric]] 2(2,4) a 1 by simp
next
  case (3 g p ops n gen)
  have sp: "UID p \<noteq> []" "\<forall>q\<in>set (Pods n). UID q = UID p \<longrightarrow> q = p" using 3(2) by auto
  show ?case
  proof (cases "p \<in> set (Pods n)")
    case True
    obtain n1 gen1 where 1: "RemovePod g p n gen = Ret (None, n1, gen1)" "accounts g n1"
      "mset (Pods n1) = mset (Pods n) - {#p#}" "node n1 = node n"
      using accounts_Remove [OF 3(3) sp(1) True sp(2)] by blast
    then show ?thesis using 3(1) [OF 1(1) refl refl] 3(2,4) by simp
  next
    case False
    then have "\<forall>q\<in>set (Pods n). UID q \<noteq> UID p" using sp by blast
    then obtain e n1 gen1 where 1: "RemovePod g p n gen = Ret (Some e, n1, gen1)" "accounts g n1" "Pods n1 = Pods n" "node n1 = node n"
      using accounts_Remove_absent [OF 3(3) sp(1) _ 3(4)] by blast
    have "mset (Pods n) - {#p#} = mset (Pods n)" using False by simp
    then show ?thesis using 3(1) [OF 1(1) refl refl] 1 3(2,4) by simp
  qed
qed auto

text \<open>
  C17: The totals of a node are those of its pods. Take an empty node and any sequence of additions and
  removals of pods, also repeated, of pods that are not there and of pods changed in between, in
  which a pod is removed with the object it was added with, under an identifier that is not empty.
  Then no operation fails to return, the pods are those added and not removed, each requested resource is the
  sum over them, wrapped to 64 bits, and so are the two requests with defaults that scoring uses, and
  the two lists of pods with affinity and with required anti-affinity are exactly those pods. The
  condition on removals is the callers': the code subtracts what the object it is given requests.
\<close>

theorem node_totals:
  assumes "ops_ok ops {#}" "SetNode g nd (fst (NewNodeInfo g [] gen0)) gen1 = (n0, gen2)"
  shows "\<exists>n gen. run_ops g ops n0 gen2 = Ret (n, gen) \<and> mset (Pods n) = pods_after ops {#} \<and>
    MilliCPU (Requested n) = wrap64 (sum_list (map (\<lambda>p. MilliCPU (fst (calculateResource g p))) (Pods n))) \<and>
    Memory (Requested n) = wrap64 (sum_list (map (\<lambda>p. Memory (fst (calculateResource g p))) (Pods n))) \<and>
    EphemeralStorage (Requested n) = wrap64 (sum_list (map (\<lambda>p. EphemeralStorage (fst (calculateResource g p))) (Pods n))) \<and>
    (\<forall>k. scalar (Requested n) k = wrap64 (sum_list (map (\<lambda>p. scalar (fst (calculateResource g p)) k) (Pods n)))) \<and>
    MilliCPU (NonZeroRequested n) = wrap64 (sum_list (map (\<lambda>p. fst (snd (calculateResource g p))) (Pods n))) \<and>
    Memory (NonZeroRequested n) = wrap64 (sum_list (map (\<lambda>p. snd (snd (calculateResource g p))) (Pods n))) \<and>
    mset (PodsWithAffinity n) = mset (filter podWithAffinity (Pods n)) \<and>
    mset (PodsWithRequiredAntiAffinity n) = mset (filter podWithRequiredAntiAffinity (Pods n))"
proof -
  have n0: "Pods n0 = []" "node n0 = Some nd" "accounts g n0"
    using assms(2) by (auto simp: SetNode_def NewNodeInfo_def Let_def accounts_def parts_def zero_resource_def scalar_def wrap64_def)
  obtain n gen where r: "run_ops g ops n0 gen2 = Ret (n, gen)" "accounts g n" "mset (Pods n) = pods_after ops {#}"
    using run_ops_accounts [of ops n0 g nd gen2] n0 assms(1) by auto
  have p: "\<forall>f\<in>parts. f (Requested n) = wrap64 (sum_list (map (\<lambda>p. f (fst (calculateResource g p))) (Pods n)))"
    using r(2) by (simp add: accounts_def)
  have "\<forall>k. scalar (Requested n) k = wrap64 (sum_list (map (\<lambda>p. scalar (fst (calculateResource g p)) k) (Pods n)))"
    using p by (simp add: parts_def)
  then show ?thesis using r p by (auto simp: accounts_def parts_def)
qed

theorem node_totals_witness:
  "\<exists>n gen. run_ops \<lparr>IsScalarResourceName = (\<lambda>s. s = ''gpu''), LocalStorage = True, PodOverhead = True\<rparr>
      [AddOp \<lparr>kName = ''a'', kNamespace = ''d'', UID = ''1'', ResourceVersion = [], specNodeName = ''n'',
        Containers = [\<lparr>Requests = [(''cpu'', \<lparr>MilliValue = 300, Value = 1\<rparr>)], Ports = [], Image = []\<rparr>],
        InitContainers = [], Overhead = None, Affinity = None, claims = [], Priority = None,
        NominatedNodeName = [], SchedulerName = [], deleting = False, Annotations = [], Tolerations = [], podLabels = [], StartTime = None, PreemptionPolicy = None\<rparr>]
      (fst (SetNode \<lparr>IsScalarResourceName = (\<lambda>s. s = ''gpu''), LocalStorage = True, PodOverhead = True\<rparr> \<lparr>knodeName = ''n'', nodeLabels = [], nodeAllocatable = [], nodeImages = [], specUnschedulable = False, Taints = [], nodeConditions = []\<rparr>
        (fst (NewNodeInfo \<lparr>IsScalarResourceName = (\<lambda>s. s = ''gpu''), LocalStorage = True, PodOverhead = True\<rparr> [] 0)) 1)) 2 = Ret (n, gen) \<and>
    length (Pods n) = 1"
proof -
  let ?g = "\<lparr>IsScalarResourceName = (\<lambda>s. s = ''gpu''), LocalStorage = True, PodOverhead = True\<rparr>"
  let ?p = "\<lparr>kName = ''a'', kNamespace = ''d'', UID = ''1'', ResourceVersion = [], specNodeName = ''n'',
        Containers = [\<lparr>Requests = [(''cpu'', \<lparr>MilliValue = 300, Value = 1\<rparr>)], Ports = [], Image = []\<rparr>],
        InitContainers = [], Overhead = None, Affinity = None, claims = [], Priority = None,
        NominatedNodeName = [], SchedulerName = [], deleting = False, Annotations = [], Tolerations = [], podLabels = [], StartTime = None, PreemptionPolicy = None\<rparr>"
  let ?nd = "\<lparr>knodeName = ''n'', nodeLabels = [], nodeAllocatable = [], nodeImages = [], specUnschedulable = False, Taints = [], nodeConditions = []\<rparr>"
  obtain n0 gen2 where n0: "SetNode ?g ?nd (fst (NewNodeInfo ?g [] 0)) 1 = (n0, gen2)" "gen2 = 2"
    by (simp add: SetNode_def nextGeneration_def Let_def wrap64_def)
  obtain n gen where "run_ops ?g [AddOp ?p] n0 gen2 = Ret (n, gen)" "mset (Pods n) = {#?p#}"
    using node_totals [of "[AddOp ?p]" ?g ?nd 0 1 n0 gen2] n0 by auto
  then show ?thesis using n0 by (metis fst_conv size_mset size_single)
qed

section \<open>Host ports\<close>

text \<open>The abstract view: the set of address and port pairs in use.\<close>

definition used :: "hostPortInfo \<Rightarrow> (string \<times> string \<times> int) set" where
  "used h = {(ip, pp). \<exists>ms. map_of h ip = Some ms \<and> pp \<in> set ms}"

definition bound :: "string \<Rightarrow> string \<Rightarrow> int \<Rightarrow> string \<times> string \<times> int" where
  "bound ip protocol port = (if ip = [] then DefaultBindAllHostIP else ip, if protocol = [] then ''TCP'' else protocol, port)"

definition ports_ok :: "hostPortInfo \<Rightarrow> bool" where
  "ports_ok h \<longleftrightarrow> distinct (map fst h)"

lemma bound_sanitize:
  "bound ip protocol port = (i, pp) \<Longrightarrow> sanitize ip protocol = (i, fst pp) \<and> NewProtocolPort (fst pp) port = pp"
  by (auto simp: sanitize_def NewProtocolPort_def bound_def split: if_splits)

lemma ports_add_used:
  assumes "0 < port"
  shows "used (ports_add h ip protocol port) = insert (bound ip protocol port) (used h)"
  using assms by (auto simp: ports_add_def Let_def used_def bound_def sanitize_def NewProtocolPort_def update_conv'
      split: option.splits if_splits)

lemma ports_remove_used:
  assumes "0 < port"
  shows "used (ports_remove h ip protocol port) = used h - {bound ip protocol port}"
proof -
  obtain ip' pp where b: "bound ip protocol port = (ip', pp)" by (metis prod.exhaust)
  have e: "ports_remove h ip protocol port = (case map_of h ip' of None \<Rightarrow> h
      | Some ms \<Rightarrow> (if removeAll pp ms = [] then AList.delete ip' h else AList.update ip' (removeAll pp ms) h))"
    using assms bound_sanitize [OF b] by (simp add: ports_remove_def Let_def split: option.splits)
  show ?thesis
  proof (cases "map_of h ip'")
    case None
    then show ?thesis by (auto simp: e b used_def)
  next
    case (Some ms)
    show ?thesis
    proof (cases "removeAll pp ms = []")
      case True
      then have "set ms \<subseteq> {pp}" by (metis Diff_eq_empty_iff set_empty set_removeAll)
      then show ?thesis using Some True by (auto simp: e b used_def delete_conv' split: if_splits)
    qed (use Some in \<open>auto simp: e b used_def update_conv' split: if_splits\<close>)
  qed
qed

lemma CheckConflict_used:
  assumes "ports_ok h" "0 < port"
  shows "CheckConflict h ip protocol port \<longleftrightarrow>
    (\<exists>ip'. (ip', snd (bound ip protocol port)) \<in> used h \<and>
      (ip' = fst (bound ip protocol port) \<or> ip' = DefaultBindAllHostIP \<or> fst (bound ip protocol port) = DefaultBindAllHostIP))"
proof -
  obtain i pp where b: "bound ip protocol port = (i, pp)" by (metis prod.exhaust)
  have e: "CheckConflict h ip protocol port \<longleftrightarrow> (if i = DefaultBindAllHostIP then list_ex (\<lambda>(_, ms). pp \<in> set ms) h
     else list_ex (\<lambda>key. case map_of h key of None \<Rightarrow> False | Some ms \<Rightarrow> pp \<in> set ms) [DefaultBindAllHostIP, i])"
    using assms(2) bound_sanitize [OF b] by (simp add: CheckConflict_def Let_def cong: option.case_cong)
  have "list_ex (\<lambda>(_, ms). pp \<in> set ms) h \<longleftrightarrow> (\<exists>ip'. (ip', pp) \<in> used h)"
    using assms(1) by (auto simp: used_def ports_ok_def list_ex_iff)
  then show ?thesis by (auto simp: e b used_def split: option.splits)
qed

text \<open>
  C18: the host ports of a node implement a set of bindings. Adding and removing a port adds and removes
  one binding and keeps the representation, and a port conflicts exactly when some binding in use has
  the same protocol and number and an address that is equal, or one of the two is the address of
  all interfaces.
\<close>

theorem host_ports_refine_set:
  assumes "ports_ok h" "0 < port"
  shows "used (ports_add h ip protocol port) = insert (bound ip protocol port) (used h) \<and> ports_ok (ports_add h ip protocol port) \<and>
    used (ports_remove h ip protocol port) = used h - {bound ip protocol port} \<and> ports_ok (ports_remove h ip protocol port) \<and>
    (CheckConflict h ip protocol port \<longleftrightarrow> (\<exists>ip'. (ip', snd (bound ip protocol port)) \<in> used h \<and>
      (ip' = fst (bound ip protocol port) \<or> ip' = DefaultBindAllHostIP \<or> fst (bound ip protocol port) = DefaultBindAllHostIP)))"
proof -
  have "ports_ok (ports_add h ip protocol port)" "ports_ok (ports_remove h ip protocol port)"
    using assms by (auto simp: ports_ok_def ports_add_def ports_remove_def Let_def distinct_update distinct_delete
        split: prod.splits option.splits)
  then show ?thesis using ports_add_used [OF assms(2)] ports_remove_used [OF assms(2)] CheckConflict_used [OF assms] by blast
qed

theorem host_ports_refine_set_witness:
  "used (ports_add [(''10.0.0.1'', [(''TCP'', 80)])] [] ''UDP'' 53) = {(''10.0.0.1'', ''TCP'', 80), (''0.0.0.0'', ''UDP'', 53)}"
proof -
  have "used [(''10.0.0.1'', [(''TCP'', 80)])] = {(''10.0.0.1'', ''TCP'', 80)}" by (auto simp: used_def split: if_splits)
  then show ?thesis using host_ports_refine_set [of "[(''10.0.0.1'', [(''TCP'', 80)])]" 53 "[]" "''UDP''"]
    by (auto simp: ports_ok_def bound_def DefaultBindAllHostIP_def)
qed

end
