(* ===== verification/Fw_Runtime.thy ===== *)
theory Fw_Runtime
  imports Node_Info Score_Norm
begin

text \<open>
  The runtime of the scheduling framework (\<open>pkg/scheduler/framework/runtime/framework.go\<close>,
  \<open>waiting_pods_map.go\<close>): the loops that run the plugins of each extension point, turn their
  statuses into the status of the point, and keep pods that wait for a permit. A plugin is its name and
  its function; it reads and changes the cycle state \<open>'s\<close> and the rest of the world \<open>'w\<close>. Work
  the code hands to several goroutines is done here in the order of the indices. Durations and metrics
  are left out.
\<close>

section \<open>Plugins\<close>

text \<open>
  A plugin is a parameter, and a function: it stands for a plugin that returns. A Go plugin that panics or
  loops forever has no counterpart here; the theorems about the framework do not speak of it.
\<close>

type_synonym ('s, 'w) effect = "'s \<times> 'w \<Rightarrow> statusp \<times> 's \<times> 'w"

record ('s, 'w) preFilterExtensions =
  pfAddPod :: "kpod \<Rightarrow> kpod \<Rightarrow> nodeInfo \<Rightarrow> ('s, 'w) effect"
  pfRemovePod :: "kpod \<Rightarrow> kpod \<Rightarrow> nodeInfo \<Rightarrow> ('s, 'w) effect"

record ('s, 'w) preFilterPlugin =
  pfName :: string
  pfRun :: "kpod \<Rightarrow> ('s, 'w) effect"
  pfExtensions :: "('s, 'w) preFilterExtensions option"

type_synonym ('s, 'w) filterPlugin = "string \<times> (kpod \<Rightarrow> nodeInfo \<Rightarrow> ('s, 'w) effect)"

type_synonym nodeToStatus = "(string \<times> statusp) list"

type_synonym ('s, 'w) postFilterPlugin =
  "string \<times> (kpod \<Rightarrow> nodeToStatus \<Rightarrow> 's \<times> 'w \<Rightarrow> (string option \<times> statusp) \<times> 's \<times> 'w)"

type_synonym ('s, 'w) preScorePlugin = "string \<times> (kpod \<Rightarrow> string list \<Rightarrow> ('s, 'w) effect)"

record ('s, 'w) scorePlugin =
  spName :: string
  spScore :: "kpod \<Rightarrow> string \<Rightarrow> 's \<times> 'w \<Rightarrow> (int \<times> statusp) \<times> 's \<times> 'w"
  spExtensions :: "(kpod \<Rightarrow> nodeScore list \<Rightarrow> 's \<times> 'w \<Rightarrow> (nodeScore list \<times> statusp) \<times> 's \<times> 'w) option"

record ('s, 'w) reservePlugin =
  rpName :: string
  rpReserve :: "kpod \<Rightarrow> string \<Rightarrow> ('s, 'w) effect"
  rpUnreserve :: "kpod \<Rightarrow> string \<Rightarrow> 's \<times> 'w \<Rightarrow> 's \<times> 'w"

type_synonym ('s, 'w) permitPlugin =
  "string \<times> (kpod \<Rightarrow> string \<Rightarrow> 's \<times> 'w \<Rightarrow> (statusp \<times> int) \<times> 's \<times> 'w)"

type_synonym ('s, 'w) bindPlugin = "string \<times> (kpod \<Rightarrow> string \<Rightarrow> ('s, 'w) effect)"

type_synonym ('s, 'w) postBindPlugin = "string \<times> (kpod \<Rightarrow> string \<Rightarrow> 's \<times> 'w \<Rightarrow> 's \<times> 'w)"

section \<open>Filtering\<close>

definition quoted_name :: "string \<Rightarrow> string" where
  "quoted_name n = CHR 0x22 # n @ [CHR 0x22]"

text \<open>The error of a failed status; a status that has not failed has none.\<close>

definition error_text :: "statusp \<Rightarrow> string" where
  "error_text s = (case AsError s of None \<Rightarrow> ''%!w(<nil>)'' | Some e \<Rightarrow> e)"

definition SetFailedPlugin :: "string \<Rightarrow> statusp \<Rightarrow> statusp" where
  "SetFailedPlugin n s = map_option (\<lambda>st. st\<lparr>failedPlugin := n\<rparr>) s"

lemma Code_SetFailedPlugin [simp]: "Code (SetFailedPlugin n st) = Code st"
  by (cases st) (auto simp: SetFailedPlugin_def Code_def)

fun RunPreFilterPlugins :: "('s, 'w) preFilterPlugin list \<Rightarrow> kpod \<Rightarrow> ('s, 'w) effect" where
  "RunPreFilterPlugins [] pod sw = (None, sw)"
| "RunPreFilterPlugins (pl # pls) pod sw =
     (case pfRun pl pod sw of (status, sw1) \<Rightarrow>
       if \<not> IsSuccess status
       then (if IsUnschedulable status then (SetFailedPlugin (pfName pl) status, sw1)
             else (SetFailedPlugin (pfName pl) (AsStatus (''running PreFilter plugin '' @ quoted_name (pfName pl) @ '': '' @ error_text status)), sw1))
       else RunPreFilterPlugins pls pod sw1)"

fun RunPreFilterExtensionAddPod :: "('s, 'w) preFilterPlugin list \<Rightarrow> kpod \<Rightarrow> kpod \<Rightarrow> nodeInfo \<Rightarrow> ('s, 'w) effect" where
  "RunPreFilterExtensionAddPod [] pod toAdd ni sw = (None, sw)"
| "RunPreFilterExtensionAddPod (pl # pls) pod toAdd ni sw =
     (case pfExtensions pl of
        None \<Rightarrow> RunPreFilterExtensionAddPod pls pod toAdd ni sw
      | Some e \<Rightarrow> (case pfAddPod e pod toAdd ni sw of (status, sw1) \<Rightarrow>
          if \<not> IsSuccess status
          then (AsStatus (''running AddPod on PreFilter plugin '' @ quoted_name (pfName pl) @ '': '' @ error_text status), sw1)
          else RunPreFilterExtensionAddPod pls pod toAdd ni sw1))"

fun RunPreFilterExtensionRemovePod :: "('s, 'w) preFilterPlugin list \<Rightarrow> kpod \<Rightarrow> kpod \<Rightarrow> nodeInfo \<Rightarrow> ('s, 'w) effect" where
  "RunPreFilterExtensionRemovePod [] pod toRemove ni sw = (None, sw)"
| "RunPreFilterExtensionRemovePod (pl # pls) pod toRemove ni sw =
     (case pfExtensions pl of
        None \<Rightarrow> RunPreFilterExtensionRemovePod pls pod toRemove ni sw
      | Some e \<Rightarrow> (case pfRemovePod e pod toRemove ni sw of (status, sw1) \<Rightarrow>
          if \<not> IsSuccess status
          then (AsStatus (''running RemovePod on PreFilter plugin '' @ quoted_name (pfName pl) @ '': '' @ error_text status), sw1)
          else RunPreFilterExtensionRemovePod pls pod toRemove ni sw1))"

fun filter_loop :: "bool \<Rightarrow> ('s, 'w) filterPlugin list \<Rightarrow> kpod \<Rightarrow> nodeInfo \<Rightarrow> nodeToStatus \<Rightarrow> 's \<times> 'w \<Rightarrow> nodeToStatus \<times> 's \<times> 'w" where
  "filter_loop runAll [] pod ni statuses sw = (statuses, sw)"
| "filter_loop runAll ((n, f) # pls) pod ni statuses sw =
     (case f pod ni sw of (status, sw1) \<Rightarrow>
       if \<not> IsSuccess status
       then (if \<not> IsUnschedulable status
             then ([(n, SetFailedPlugin n (AsStatus (''running '' @ quoted_name n @ '' filter plugin: '' @ error_text status)))], sw1)
             else let statuses' = AList.update n (SetFailedPlugin n status) statuses
                  in if \<not> runAll then (statuses', sw1) else filter_loop runAll pls pod ni statuses' sw1)
       else filter_loop runAll pls pod ni statuses sw1)"

definition RunFilterPlugins :: "bool \<Rightarrow> ('s, 'w) filterPlugin list \<Rightarrow> kpod \<Rightarrow> nodeInfo \<Rightarrow> 's \<times> 'w \<Rightarrow> nodeToStatus \<times> 's \<times> 'w" where
  "RunFilterPlugins runAll pls pod ni sw = filter_loop runAll pls pod ni [] sw"

fun post_filter_loop :: "('s, 'w) postFilterPlugin list \<Rightarrow> kpod \<Rightarrow> nodeToStatus \<Rightarrow> nodeToStatus \<Rightarrow> 's \<times> 'w \<Rightarrow>
    ((string option \<times> statusp) \<times> 's \<times> 'w) go" where
  "post_filter_loop [] pod m statuses sw = go_bind (Merge (map snd statuses)) (\<lambda>st. Ret ((None, st), sw))"
| "post_filter_loop ((n, f) # pls) pod m statuses sw =
     (case f pod m sw of ((r, s), sw1) \<Rightarrow>
       if IsSuccess s then Ret ((r, s), sw1)
       else if \<not> IsUnschedulable s then Ret ((None, AsStatus (error_text s)), sw1)
       else post_filter_loop pls pod m (AList.update n s statuses) sw1)"

definition RunPostFilterPlugins :: "('s, 'w) postFilterPlugin list \<Rightarrow> kpod \<Rightarrow> nodeToStatus \<Rightarrow> 's \<times> 'w \<Rightarrow>
    ((string option \<times> statusp) \<times> 's \<times> 'w) go" where
  "RunPostFilterPlugins pls pod m sw = post_filter_loop pls pod m [] sw"

definition PodPriority :: "kpod \<Rightarrow> int" where
  "PodPriority p = (case Priority p of None \<Rightarrow> 0 | Some x \<Rightarrow> x)"

text \<open>
  The nominated pods are added to copies of the node information and of the cycle state; the caller
  of \<open>add_nominated\<close> keeps the originals. \<open>gen\<close> is the global generation counter.
\<close>

fun add_nominated :: "gates \<Rightarrow> ('s, 'w) preFilterPlugin list \<Rightarrow> kpod list \<Rightarrow> kpod \<Rightarrow> bool \<Rightarrow> nodeInfo \<Rightarrow> int \<Rightarrow> 's \<times> 'w \<Rightarrow>
    (string + bool \<times> nodeInfo) \<times> int \<times> 's \<times> 'w" where
  "add_nominated g pls [] pod added ni gen sw = (Inr (added, ni), gen, sw)"
| "add_nominated g pls (pi # pis) pod added ni gen sw =
     (if PodPriority pi \<ge> PodPriority pod \<and> UID pi \<noteq> UID pod
      then let (ni1, gen1) = AddPodInfo g pi ni gen;
               (status, sw1) = RunPreFilterExtensionAddPod pls pod pi ni1 sw
           in if \<not> IsSuccess status then (Inl (error_text status), gen1, sw1)
              else add_nominated g pls pis pod True ni1 gen1 sw1
      else add_nominated g pls pis pod added ni gen sw)"

definition addNominatedPods :: "gates \<Rightarrow> ('s, 'w) preFilterPlugin list \<Rightarrow> (string \<Rightarrow> kpod list) \<Rightarrow> kpod \<Rightarrow> nodeInfo \<Rightarrow> int \<Rightarrow> 's \<times> 'w \<Rightarrow>
    (string + bool \<times> nodeInfo) \<times> int \<times> 's \<times> 'w" where
  "addNominatedPods g pls nominated pod ni gen sw = (case node ni of None \<Rightarrow> (Inr (False, ni), gen, sw)
     | Some nd \<Rightarrow> (if nominated (knodeName nd) = [] then (Inr (False, ni), gen, sw)
                   else add_nominated g pls (nominated (knodeName nd)) pod False ni gen sw))"

text \<open>
  The filters run once with the nominated pods added and, if that passed and pods were added, once
  more without them. When there are nominated pods the first run works on a copy of the cycle state.
\<close>

definition clones :: "(string \<Rightarrow> kpod list) \<Rightarrow> nodeInfo \<Rightarrow> bool" where
  "clones nominated ni = (case node ni of None \<Rightarrow> False | Some nd \<Rightarrow> nominated (knodeName nd) \<noteq> [])"

definition RunFilterPluginsWithNominatedPods ::
  "gates \<Rightarrow> bool \<Rightarrow> ('s, 'w) preFilterPlugin list \<Rightarrow> ('s, 'w) filterPlugin list \<Rightarrow> (string \<Rightarrow> kpod list) \<Rightarrow>
   kpod \<Rightarrow> nodeInfo \<Rightarrow> int \<Rightarrow> 's \<times> 'w \<Rightarrow> (statusp \<times> int \<times> 's \<times> 'w) go" where
  "RunFilterPluginsWithNominatedPods g runAll pfs fs nominated pod info gen sw =
     (case addNominatedPods g pfs nominated pod info gen sw of
        (Inl e, gen1, s1, w1) \<Rightarrow> Ret (AsStatus e, gen1, fst sw, w1)
      | (Inr (podsAdded, ni), gen1, sw1) \<Rightarrow>
          (case RunFilterPlugins runAll fs pod ni sw1 of (statusMap, s2, w2) \<Rightarrow>
             let s3 = (if clones nominated info then fst sw else s2) in
             go_bind (Merge (map snd statusMap)) (\<lambda>status.
               if \<not> IsSuccess status \<and> \<not> IsUnschedulable status then Ret (status, gen1, s3, w2)
               else if \<not> podsAdded \<or> \<not> IsSuccess status then Ret (status, gen1, s3, w2)
               else (case RunFilterPlugins runAll fs pod info (s3, w2) of (statusMap2, sw4) \<Rightarrow>
                 go_bind (Merge (map snd statusMap2)) (\<lambda>status2. Ret (status2, gen1, sw4))))))"

section \<open>Scoring\<close>

fun RunPreScorePlugins :: "('s, 'w) preScorePlugin list \<Rightarrow> kpod \<Rightarrow> string list \<Rightarrow> ('s, 'w) effect" where
  "RunPreScorePlugins [] pod nodes sw = (None, sw)"
| "RunPreScorePlugins ((n, f) # pls) pod nodes sw =
     (case f pod nodes sw of (status, sw1) \<Rightarrow>
       if \<not> IsSuccess status then (AsStatus (''running PreScore plugin '' @ quoted_name n @ '': '' @ error_text status), sw1)
       else RunPreScorePlugins pls pod nodes sw1)"

text \<open>The scores every plugin gives to one node, then the nodes one after the other.\<close>

definition plugin_failed :: "string \<Rightarrow> statusp \<Rightarrow> string" where
  "plugin_failed n status = ''plugin '' @ quoted_name n @ '' failed with: '' @ error_text status"

fun score_node :: "('s, 'w) scorePlugin list \<Rightarrow> kpod \<Rightarrow> string \<Rightarrow> 's \<times> 'w \<Rightarrow> (string + int list) \<times> 's \<times> 'w" where
  "score_node [] pod nn sw = (Inr [], sw)"
| "score_node (pl # pls) pod nn sw =
     (case spScore pl pod nn sw of ((s, status), sw1) \<Rightarrow>
       if \<not> IsSuccess status then (Inl (plugin_failed (spName pl) status), sw1)
       else (case score_node pls pod nn sw1 of
           (Inl e, sw2) \<Rightarrow> (Inl e, sw2)
         | (Inr ss, sw2) \<Rightarrow> (Inr (s # ss), sw2)))"

fun score_nodes :: "('s, 'w) scorePlugin list \<Rightarrow> kpod \<Rightarrow> string list \<Rightarrow> 's \<times> 'w \<Rightarrow> (string + int list list) \<times> 's \<times> 'w" where
  "score_nodes pls pod [] sw = (Inr [], sw)"
| "score_nodes pls pod (nn # nns) sw =
     (case score_node pls pod nn sw of
         (Inl e, sw1) \<Rightarrow> (Inl e, sw1)
       | (Inr row, sw1) \<Rightarrow> (case score_nodes pls pod nns sw1 of
           (Inl e, sw2) \<Rightarrow> (Inl e, sw2)
         | (Inr rows, sw2) \<Rightarrow> (Inr (row # rows), sw2)))"

definition column :: "string list \<Rightarrow> int list list \<Rightarrow> nat \<Rightarrow> nodeScore list" where
  "column nodes rows j = map2 (\<lambda>nn row. \<lparr>nsName = nn, nsScore = row ! j\<rparr>) nodes rows"

fun normalize_all :: "kpod \<Rightarrow> (('s, 'w) scorePlugin \<times> nodeScore list) list \<Rightarrow> 's \<times> 'w \<Rightarrow>
    (string + (('s, 'w) scorePlugin \<times> nodeScore list) list) \<times> 's \<times> 'w" where
  "normalize_all pod [] sw = (Inr [], sw)"
| "normalize_all pod ((pl, scores) # cols) sw =
     (case (case spExtensions pl of None \<Rightarrow> ((scores, None), sw) | Some f \<Rightarrow> f pod scores sw) of
        ((scores', status), sw1) \<Rightarrow>
          if \<not> IsSuccess status then (Inl (plugin_failed (spName pl) status), sw1)
          else (case normalize_all pod cols sw1 of
              (Inl e, sw2) \<Rightarrow> (Inl e, sw2)
            | (Inr cols', sw2) \<Rightarrow> (Inr ((pl, scores') # cols'), sw2)))"

definition invalid_score :: "string \<Rightarrow> int \<Rightarrow> string" where
  "invalid_score n x = ''plugin '' @ quoted_name n @ '' returns an invalid score '' @ itoa x @
     '', it should in the range of ['' @ itoa MinNodeScore @ '', '' @ itoa MaxNodeScore @ ''] after normalizing''"

definition apply_weight :: "int \<Rightarrow> string \<times> nodeScore list \<Rightarrow> string + string \<times> nodeScore list" where
  "apply_weight weight = (\<lambda>(n, scores).
     case find (\<lambda>s. nsScore s > MaxNodeScore \<or> nsScore s < MinNodeScore) scores of
       Some s \<Rightarrow> Inl (invalid_score n (nsScore s))
     | None \<Rightarrow> Inr (n, map (\<lambda>s. s\<lparr>nsScore := wrap64 (nsScore s * weight)\<rparr>) scores))"

fun weigh_all :: "(string \<Rightarrow> int) \<Rightarrow> (string \<times> nodeScore list) list \<Rightarrow> string + (string \<times> nodeScore list) list" where
  "weigh_all wt [] = Inr []"
| "weigh_all wt (c # cs) = (case apply_weight (wt (fst c)) c of Inl e \<Rightarrow> Inl e
     | Inr c' \<Rightarrow> (case weigh_all wt cs of Inl e \<Rightarrow> Inl e | Inr cs' \<Rightarrow> Inr (c' # cs')))"

definition RunScorePlugins :: "('s, 'w) scorePlugin list \<Rightarrow> (string \<Rightarrow> int) \<Rightarrow> kpod \<Rightarrow> string list \<Rightarrow> 's \<times> 'w \<Rightarrow>
    ((string \<times> nodeScore list) list \<times> statusp) \<times> 's \<times> 'w" where
  "RunScorePlugins pls wt pod nodes sw =
     (case score_nodes pls pod nodes sw of
         (Inl e, sw1) \<Rightarrow> (([], AsStatus (''running Score plugins: '' @ e)), sw1)
       | (Inr rows, sw1) \<Rightarrow>
           (case normalize_all pod (map2 (\<lambda>pl j. (pl, column nodes rows j)) pls [0..<length pls]) sw1 of
               (Inl e, sw2) \<Rightarrow> (([], AsStatus (''running Normalize on Score plugins: '' @ e)), sw2)
             | (Inr cols, sw2) \<Rightarrow>
                 (case weigh_all wt (map (\<lambda>(pl, sc). (spName pl, sc)) cols) of
                     Inl e \<Rightarrow> (([], AsStatus (''applying score defaultWeights on Score plugins: '' @ e)), sw2)
                   | Inr m \<Rightarrow> ((m, None), sw2))))"

section \<open>Reserving and binding\<close>

fun RunReservePluginsReserve :: "('s, 'w) reservePlugin list \<Rightarrow> kpod \<Rightarrow> string \<Rightarrow> ('s, 'w) effect" where
  "RunReservePluginsReserve [] pod nn sw = (None, sw)"
| "RunReservePluginsReserve (pl # pls) pod nn sw =
     (case rpReserve pl pod nn sw of (status, sw1) \<Rightarrow>
       if \<not> IsSuccess status then (AsStatus (''running Reserve plugin '' @ quoted_name (rpName pl) @ '': '' @ error_text status), sw1)
       else RunReservePluginsReserve pls pod nn sw1)"

definition RunReservePluginsUnreserve :: "('s, 'w) reservePlugin list \<Rightarrow> kpod \<Rightarrow> string \<Rightarrow> 's \<times> 'w \<Rightarrow> 's \<times> 'w" where
  "RunReservePluginsUnreserve pls pod nn sw = foldl (\<lambda>sw pl. rpUnreserve pl pod nn sw) sw (rev pls)"

fun RunPreBindPlugins :: "('s, 'w) bindPlugin list \<Rightarrow> kpod \<Rightarrow> string \<Rightarrow> ('s, 'w) effect" where
  "RunPreBindPlugins [] pod nn sw = (None, sw)"
| "RunPreBindPlugins ((n, f) # pls) pod nn sw =
     (case f pod nn sw of (status, sw1) \<Rightarrow>
       if \<not> IsSuccess status then (AsStatus (''running PreBind plugin '' @ quoted_name n @ '': '' @ error_text status), sw1)
       else RunPreBindPlugins pls pod nn sw1)"

fun bind_loop :: "('s, 'w) bindPlugin list \<Rightarrow> kpod \<Rightarrow> string \<Rightarrow> statusp \<Rightarrow> ('s, 'w) effect" where
  "bind_loop [] pod nn status sw = (status, sw)"
| "bind_loop ((n, f) # pls) pod nn status sw =
     (case f pod nn sw of (status1, sw1) \<Rightarrow>
       if status1 \<noteq> None \<and> Code status1 = Skip then bind_loop pls pod nn status1 sw1
       else if \<not> IsSuccess status1 then (AsStatus (''running Bind plugin '' @ quoted_name n @ '': '' @ error_text status1), sw1)
       else (status1, sw1))"

definition RunBindPlugins :: "('s, 'w) bindPlugin list \<Rightarrow> kpod \<Rightarrow> string \<Rightarrow> ('s, 'w) effect" where
  "RunBindPlugins pls pod nn sw = (if pls = [] then (NewStatus Skip [''''], sw) else bind_loop pls pod nn None sw)"

definition RunPostBindPlugins :: "('s, 'w) postBindPlugin list \<Rightarrow> kpod \<Rightarrow> string \<Rightarrow> 's \<times> 'w \<Rightarrow> 's \<times> 'w" where
  "RunPostBindPlugins pls pod nn sw = foldl (\<lambda>sw (n, f). f pod nn sw) sw pls"

section \<open>Waiting for a permit\<close>

text \<open>
  A waiting pod has the plugins that have not allowed it yet and a channel with room for one status.
  Sending to a full channel does nothing.
\<close>

record waitingPod =
  wpPod :: kpod
  pendingPlugins :: "(string \<times> int) list"
  wpSignal :: "statusp option"

definition newWaitingPod :: "kpod \<Rightarrow> (string \<times> int) list \<Rightarrow> waitingPod" where
  "newWaitingPod pod waits = \<lparr>wpPod = pod, pendingPlugins = waits, wpSignal = None\<rparr>"

definition send :: "statusp \<Rightarrow> waitingPod \<Rightarrow> waitingPod" where
  "send s wp = (if wpSignal wp = None then wp\<lparr>wpSignal := Some s\<rparr> else wp)"

definition Allow :: "string \<Rightarrow> waitingPod \<Rightarrow> waitingPod" where
  "Allow pn wp = (let wp1 = wp\<lparr>pendingPlugins := AList.delete pn (pendingPlugins wp)\<rparr>
     in if pendingPlugins wp1 \<noteq> [] then wp1 else send (NewStatus Success ['''']) wp1)"

definition Reject :: "string \<Rightarrow> string \<Rightarrow> waitingPod \<Rightarrow> waitingPod" where
  "Reject pn msg wp = send (SetFailedPlugin pn (NewStatus Unschedulable [msg])) wp"

definition maxTimeout :: int where "maxTimeout = 15 * 60 * 10 ^ 9"

fun permit_loop :: "('s, 'w) permitPlugin list \<Rightarrow> kpod \<Rightarrow> string \<Rightarrow> (string \<times> int) list \<Rightarrow> bool \<Rightarrow> 's \<times> 'w \<Rightarrow>
    (statusp + (string \<times> int) list \<times> bool) \<times> 's \<times> 'w" where
  "permit_loop [] pod nn waits waiting sw = (Inr (waits, waiting), sw)"
| "permit_loop ((n, f) # pls) pod nn waits waiting sw =
     (case f pod nn sw of ((status, timeout), sw1) \<Rightarrow>
       if \<not> IsSuccess status
       then (if IsUnschedulable status then (Inl (SetFailedPlugin n status), sw1)
             else if Code status = Wait
             then permit_loop pls pod nn (AList.update n (min timeout maxTimeout) waits) True sw1
             else (Inl (SetFailedPlugin n (AsStatus (''running Permit plugin '' @ quoted_name n @ '': '' @ error_text status))), sw1))
       else permit_loop pls pod nn waits waiting sw1)"

text \<open>The waiting pods are a map from the identity of the pod.\<close>

definition RunPermitPlugins :: "('s, 'w) permitPlugin list \<Rightarrow> kpod \<Rightarrow> string \<Rightarrow> (string \<rightharpoonup> waitingPod) \<Rightarrow> 's \<times> 'w \<Rightarrow>
    (statusp \<times> (string \<rightharpoonup> waitingPod)) \<times> 's \<times> 'w" where
  "RunPermitPlugins pls pod nn waitingPods sw =
     (case permit_loop pls pod nn [] False sw of
         (Inl status, sw1) \<Rightarrow> ((status, waitingPods), sw1)
       | (Inr (waits, waiting), sw1) \<Rightarrow>
           (if waiting
            then ((NewStatus Wait [''one or more plugins asked to wait and no plugin rejected pod '' @ quoted_name (kName pod)],
                   waitingPods(UID pod \<mapsto> newWaitingPod pod waits)), sw1)
            else ((None, waitingPods), sw1)))"

text \<open>Receiving from the channel blocks until a status is there; \<open>Diverge\<close> is a receive that never ends.\<close>

definition WaitOnPermit :: "kpod \<Rightarrow> (string \<rightharpoonup> waitingPod) \<Rightarrow> (statusp \<times> (string \<rightharpoonup> waitingPod)) go" where
  "WaitOnPermit pod waitingPods = (case waitingPods (UID pod) of None \<Rightarrow> Ret (None, waitingPods)
     | Some wp \<Rightarrow> (case wpSignal wp of None \<Rightarrow> Diverge
         | Some s \<Rightarrow> Ret (if \<not> IsSuccess s
             then (if IsUnschedulable s then s
                   else SetFailedPlugin (case s of None \<Rightarrow> [] | Some st \<Rightarrow> failedPlugin st)
                          (AsStatus (''waiting on permit for pod: '' @ error_text s)))
             else None, waitingPods(UID pod := None))))"

end
