(* ===== verification/Generic_Sched.thy ===== *)
theory Generic_Sched
  imports Fw_Runtime
begin

text \<open>
  The scheduling algorithm (\<open>pkg/scheduler/generic_scheduler.go\<close>): find the nodes that pass the
  filters, prioritise them by the weighted scores, select one of the highest score. The list of nodes
  is the scheduler's snapshot. Nodes are checked in the order of the indices.
\<close>

section \<open>The framework and the extenders\<close>

record ('s, 'w) fwk =
  preFilterPlugins :: "('s, 'w) preFilterPlugin list"
  filterPlugins :: "('s, 'w) filterPlugin list"
  postFilterPlugins :: "('s, 'w) postFilterPlugin list"
  preScorePlugins :: "('s, 'w) preScorePlugin list"
  scorePlugins :: "('s, 'w) scorePlugin list"
  scorePluginWeight :: "string \<Rightarrow> int"
  reservePlugins :: "('s, 'w) reservePlugin list"
  permitPlugins :: "('s, 'w) permitPlugin list"
  preBindPlugins :: "('s, 'w) bindPlugin list"
  bindPlugins :: "('s, 'w) bindPlugin list"
  postBindPlugins :: "('s, 'w) postBindPlugin list"
  runAllFilters :: bool
  fwGates :: gates
  NominatedPodsForNode :: "string \<Rightarrow> kpod list"

text \<open>
  An extender is a service called over HTTP: which pods it wants, whether its errors can be ignored,
  its filter (nodes kept, failed, failed for good) and its priorities with their weight.
\<close>

record extender =
  IsInterested :: "kpod \<Rightarrow> bool"
  IsIgnorable :: bool
  extFilter :: "kpod \<Rightarrow> knode option list \<Rightarrow> string + knode option list \<times> (string \<times> string) list \<times> (string \<times> string) list"
  extPrioritize :: "kpod \<Rightarrow> knode option list \<Rightarrow> string + (string \<times> int) list \<times> int"
  extBind :: "(kpod \<Rightarrow> string \<Rightarrow> string option) option"

record diagnosis =
  NodeToStatusMap :: nodeToStatus
  UnschedulablePlugins :: "string list"

definition failed_plugin :: "statusp \<Rightarrow> string" where
  "failed_plugin s = (case s of None \<Rightarrow> [] | Some st \<Rightarrow> failedPlugin st)"

record scheduleResult =
  SuggestedHost :: string
  EvaluatedNodes :: nat
  FeasibleNodes :: nat

datatype sched_error = ErrNoNodesAvailable | FitError nat diagnosis | OtherError string

section \<open>How many nodes to find\<close>

definition wrap32 :: "int \<Rightarrow> int" where
  "wrap32 x = (x + 2 ^ 31) mod 2 ^ 32 - 2 ^ 31"

definition numFeasibleNodesToFind :: "int \<Rightarrow> int \<Rightarrow> int" where
  "numFeasibleNodesToFind percentageOfNodesToScore numAllNodes =
     (if numAllNodes < 100 \<or> percentageOfNodesToScore \<ge> 100 then numAllNodes
      else let adaptivePercentage =
                 (if percentageOfNodesToScore \<le> 0
                  then (let p = wrap32 (50 - go_div numAllNodes 125) in if p < 5 then 5 else p)
                  else percentageOfNodesToScore);
               numNodes = go_div (wrap32 (numAllNodes * adaptivePercentage)) 100
           in if numNodes < 100 then 100 else numNodes)"

section \<open>Filtering\<close>

definition node_name :: "knode option \<Rightarrow> string go" where
  "node_name nd = (case nd of None \<Rightarrow> Panic NilDereference | Some n \<Rightarrow> Ret (knodeName n))"

definition note_failure :: "string \<Rightarrow> statusp \<Rightarrow> diagnosis \<Rightarrow> diagnosis" where
  "note_failure nn s d = d\<lparr>NodeToStatusMap := AList.update nn s (NodeToStatusMap d),
     UnschedulablePlugins := List.insert (failed_plugin s) (UnschedulablePlugins d)\<rparr>"

text \<open>
  The checks of the nodes, from the start index around. An error ends the search, as does one node more
  than needed. The result has the feasible nodes, or the error.
\<close>

fun check_nodes :: "('s, 'w) fwk \<Rightarrow> kpod \<Rightarrow> nat \<Rightarrow> nodeInfo list \<Rightarrow> knode option list \<Rightarrow> diagnosis \<Rightarrow> int \<Rightarrow> 's \<times> 'w \<Rightarrow>
    ((string option \<times> knode option list \<times> diagnosis) \<times> int \<times> 's \<times> 'w) go" where
  "check_nodes f pod limit [] feasible d gen sw = Ret ((None, feasible, d), gen, sw)"
| "check_nodes f pod limit (ni # nis) feasible d gen sw =
     go_bind (RunFilterPluginsWithNominatedPods (fwGates f) (runAllFilters f) (preFilterPlugins f) (filterPlugins f)
         (NominatedPodsForNode f) pod ni gen sw) (\<lambda>(status, gen1, sw1).
       if Code status = ErrorCode then Ret ((Some (error_text status), feasible, d), gen1, sw1)
       else if IsSuccess status
       then (if length feasible + 1 > limit then Ret ((None, feasible, d), gen1, sw1)
             else check_nodes f pod limit nis (feasible @ [node ni]) d gen1 sw1)
       else go_bind (node_name (node ni)) (\<lambda>nn.
              check_nodes f pod limit nis feasible (note_failure nn status d) gen1 sw1))"

text \<open>
  \<open>nextStartNodeIndex\<close> is threaded as \<open>start\<close>. Without filters the first nodes from the start
  index on are taken; an empty list of nodes divides by zero.
\<close>

definition findNodesThatPassFilters :: "('s, 'w) fwk \<Rightarrow> int \<Rightarrow> kpod \<Rightarrow> diagnosis \<Rightarrow> nodeInfo list \<Rightarrow> nat \<Rightarrow> int \<Rightarrow> 's \<times> 'w \<Rightarrow>
    ((string + knode option list) \<times> diagnosis \<times> nat \<times> int \<times> 's \<times> 'w) go" where
  "findNodesThatPassFilters f percentage pod d nodes start gen sw =
     (let limit = nat (numFeasibleNodesToFind percentage (wrap32 (int (length nodes)))) in
      if filterPlugins f = []
      then (if nodes = [] then Panic IntegerDivideByZero
            else Ret (Inr (map (\<lambda>i. node (nodes ! ((start + i) mod length nodes))) [0..<limit]), d,
                      (start + limit) mod length nodes, gen, sw))
      else if nodes = [] then Panic IntegerDivideByZero
      else go_bind (check_nodes f pod limit (rotate start nodes) [] d gen sw) (\<lambda>((er, feasible, d1), gen1, sw1).
             let processed = length feasible + length (NodeToStatusMap d1);
                 start1 = (start + processed) mod length nodes
             in Ret (case er of Some e \<Rightarrow> Inl e | None \<Rightarrow> Inr feasible, d1, start1, gen1, sw1)))"

definition add_unresolvable :: "nodeToStatus \<Rightarrow> string \<times> string \<Rightarrow> nodeToStatus" where
  "add_unresolvable m = (\<lambda>(nn, msg).
     let rs = (case map_of m nn of None \<Rightarrow> [] | Some None \<Rightarrow> [] | Some (Some st) \<Rightarrow> reasons st)
     in AList.update nn (NewStatus UnschedulableAndUnresolvable (rs @ [msg])) m)"

definition add_failed :: "(string \<times> string) list \<Rightarrow> nodeToStatus \<Rightarrow> string \<times> string \<Rightarrow> nodeToStatus" where
  "add_failed unres m = (\<lambda>(nn, msg).
     if map_of unres nn \<noteq> None then m
     else case map_of m nn of
         None \<Rightarrow> AList.update nn (NewStatus Unschedulable [msg]) m
       | Some s \<Rightarrow> AList.update nn (map_option (\<lambda>st. st\<lparr>reasons := reasons st @ [msg]\<rparr>) s) m)"

fun findNodesThatPassExtenders :: "extender list \<Rightarrow> kpod \<Rightarrow> knode option list \<Rightarrow> nodeToStatus \<Rightarrow> (string + knode option list) \<times> nodeToStatus" where
  "findNodesThatPassExtenders [] pod feasible m = (Inr feasible, m)"
| "findNodesThatPassExtenders (e # es) pod feasible m =
     (if feasible = [] then (Inr feasible, m)
      else if \<not> IsInterested e pod then findNodesThatPassExtenders es pod feasible m
      else case extFilter e pod feasible of
          Inl er \<Rightarrow> (if IsIgnorable e then findNodesThatPassExtenders es pod feasible m else (Inl er, m))
        | Inr (kept, failed, unres) \<Rightarrow>
            findNodesThatPassExtenders es pod kept (foldl (add_failed unres) (foldl add_unresolvable m unres) failed))"

text \<open>The nominated node is tried alone; its evaluation shares the diagnosis and the start index.\<close>

definition evaluateNominatedNode :: "('s, 'w) fwk \<Rightarrow> int \<Rightarrow> extender list \<Rightarrow> kpod \<Rightarrow> nodeInfo list \<Rightarrow> diagnosis \<Rightarrow> nat \<Rightarrow> int \<Rightarrow> 's \<times> 'w \<Rightarrow>
    ((string + knode option list) \<times> diagnosis \<times> nat \<times> int \<times> 's \<times> 'w) go" where
  "evaluateNominatedNode f percentage exts pod snapshot d start gen sw =
     (case find (\<lambda>ni. map_option knodeName (node ni) = Some (NominatedNodeName pod)) snapshot of
        None \<Rightarrow> Ret (Inl (''nodeinfo not found for node name '' @ quoted_name (NominatedNodeName pod)), d, start, gen, sw)
      | Some ni \<Rightarrow>
          go_bind (findNodesThatPassFilters f percentage pod d [ni] start gen sw) (\<lambda>(r, d1, start1, gen1, sw1).
            case r of Inl e \<Rightarrow> Ret (Inl e, d1, start1, gen1, sw1)
            | Inr feasible \<Rightarrow> (case findNodesThatPassExtenders exts pod feasible (NodeToStatusMap d1) of
                (r2, m) \<Rightarrow> Ret (r2, d1\<lparr>NodeToStatusMap := m\<rparr>, start1, gen1, sw1))))"

text \<open>The same status for all nodes.\<close>

fun all_failed :: "nodeInfo list \<Rightarrow> statusp \<Rightarrow> nodeToStatus \<Rightarrow> nodeToStatus go" where
  "all_failed [] s m = Ret m"
| "all_failed (ni # nis) s m = go_bind (node_name (node ni)) (\<lambda>nn. all_failed nis s (AList.update nn s m))"

definition pass_filters_and_extenders :: "('s, 'w) fwk \<Rightarrow> int \<Rightarrow> extender list \<Rightarrow> kpod \<Rightarrow> nodeInfo list \<Rightarrow> diagnosis \<Rightarrow> nat \<Rightarrow> int \<Rightarrow> 's \<times> 'w \<Rightarrow>
    ((string + knode option list) \<times> diagnosis \<times> nat \<times> int \<times> 's \<times> 'w) go" where
  "pass_filters_and_extenders f percentage exts pod snapshot d start gen sw =
     go_bind (findNodesThatPassFilters f percentage pod d snapshot start gen sw) (\<lambda>(r, d1, start1, gen1, sw1).
       case r of Inl e \<Rightarrow> Ret (Inl e, d1, start1, gen1, sw1)
       | Inr feasible \<Rightarrow> (case findNodesThatPassExtenders exts pod feasible (NodeToStatusMap d1) of
           (r2, m) \<Rightarrow> Ret (r2, d1\<lparr>NodeToStatusMap := m\<rparr>, start1, gen1, sw1)))"

text \<open>\<open>prefer\<close> is the feature gate \<open>PreferNominatedNode\<close>.\<close>

definition findNodesThatFitPod :: "bool \<Rightarrow> ('s, 'w) fwk \<Rightarrow> int \<Rightarrow> extender list \<Rightarrow> kpod \<Rightarrow> nodeInfo list \<Rightarrow> nat \<Rightarrow> int \<Rightarrow> 's \<times> 'w \<Rightarrow>
    ((string + knode option list) \<times> diagnosis \<times> nat \<times> int \<times> 's \<times> 'w) go" where
  "findNodesThatFitPod prefer f percentage exts pod snapshot start gen sw =
     (let d = \<lparr>NodeToStatusMap = [], UnschedulablePlugins = []\<rparr> in
      case RunPreFilterPlugins (preFilterPlugins f) pod sw of (s, sw1) \<Rightarrow>
        if \<not> IsSuccess s
        then (if \<not> IsUnschedulable s then Ret (Inl (error_text s), d, start, gen, sw1)
              else go_bind (all_failed snapshot s []) (\<lambda>m.
                Ret (Inr [], \<lparr>NodeToStatusMap = m, UnschedulablePlugins = [failed_plugin s]\<rparr>, start, gen, sw1)))
        else if NominatedNodeName pod \<noteq> [] \<and> prefer
        then go_bind (evaluateNominatedNode f percentage exts pod snapshot d start gen sw1) (\<lambda>(r, d1, start1, gen1, sw2).
               case r of Inr (n # ns) \<Rightarrow> Ret (Inr (n # ns), d1, start1, gen1, sw2)
               | _ \<Rightarrow> pass_filters_and_extenders f percentage exts pod snapshot d1 start1 gen1 sw2)
        else pass_filters_and_extenders f percentage exts pod snapshot d start gen sw1)"

section \<open>Prioritising and selecting\<close>

fun node_names :: "knode option list \<Rightarrow> string list go" where
  "node_names [] = Ret []"
| "node_names (n # ns) = go_bind (node_name n) (\<lambda>x. go_bind (node_names ns) (\<lambda>xs. Ret (x # xs)))"

definition sum_scores :: "(string \<times> nodeScore list) list \<Rightarrow> nat \<Rightarrow> int" where
  "sum_scores m i = foldl (\<lambda>a (_, l). wrap64 (a + nsScore (l ! i))) 0 m"

definition add_priorities :: "int \<Rightarrow> (string \<times> int) list \<Rightarrow> (string \<times> int) list \<Rightarrow> (string \<times> int) list" where
  "add_priorities weight l m = foldl (\<lambda>m (host, sc).
     AList.update host (wrap64 ((case map_of m host of None \<Rightarrow> 0 | Some v \<Rightarrow> v) + wrap64 (sc * weight))) m) m l"

definition combinedScores :: "extender list \<Rightarrow> kpod \<Rightarrow> knode option list \<Rightarrow> (string \<times> int) list" where
  "combinedScores exts pod nodes = foldl (\<lambda>m e. if \<not> IsInterested e pod then m
     else case extPrioritize e pod nodes of Inl _ \<Rightarrow> m | Inr (l, weight) \<Rightarrow> add_priorities weight l m) [] exts"

definition MaxExtenderPriority :: int where "MaxExtenderPriority = 10"

definition prioritizeNodes :: "extender list \<Rightarrow> ('s, 'w) fwk \<Rightarrow> kpod \<Rightarrow> knode option list \<Rightarrow> 's \<times> 'w \<Rightarrow>
    ((string + nodeScore list) \<times> 's \<times> 'w) go" where
  "prioritizeNodes exts f pod nodes sw = go_bind (node_names nodes) (\<lambda>names.
     if exts = [] \<and> scorePlugins f = []
     then Ret (Inr (map (\<lambda>n. \<lparr>nsName = n, nsScore = 1\<rparr>) names), sw)
     else case RunPreScorePlugins (preScorePlugins f) pod names sw of (ps, sw1) \<Rightarrow>
       if \<not> IsSuccess ps then Ret (Inl (error_text ps), sw1)
       else case RunScorePlugins (scorePlugins f) (scorePluginWeight f) pod names sw1 of ((scoresMap, st), sw2) \<Rightarrow>
         if \<not> IsSuccess st then Ret (Inl (error_text st), sw2)
         else let result = map2 (\<lambda>n i. \<lparr>nsName = n, nsScore = sum_scores scoresMap i\<rparr>) names [0..<length names];
                  comb = combinedScores exts pod nodes
              in Ret (Inr (if exts \<noteq> []
                   then map (\<lambda>r. r\<lparr>nsScore := wrap64 (nsScore r +
                          wrap64 ((case map_of comb (nsName r) of None \<Rightarrow> 0 | Some v \<Rightarrow> v) * go_div MaxNodeScore MaxExtenderPriority))\<rparr>) result
                   else result), sw2))"

text \<open>\<open>draw k n\<close> is the \<open>k\<close>-th call of \<open>rand.Intn(n)\<close>.\<close>

fun select_from :: "(nat \<Rightarrow> nat \<Rightarrow> nat) \<Rightarrow> nat \<Rightarrow> nodeScore list \<Rightarrow> int \<Rightarrow> string \<Rightarrow> nat \<Rightarrow> string" where
  "select_from draw k [] maxScore selected cnt = selected"
| "select_from draw k (ns # nss) maxScore selected cnt =
     (if nsScore ns > maxScore then select_from draw k nss (nsScore ns) (nsName ns) 1
      else if nsScore ns = maxScore
      then select_from draw (k + 1) nss maxScore (if draw k (cnt + 1) = 0 then nsName ns else selected) (cnt + 1)
      else select_from draw k nss maxScore selected cnt)"

definition selectHost :: "(nat \<Rightarrow> nat \<Rightarrow> nat) \<Rightarrow> nodeScore list \<Rightarrow> string + string" where
  "selectHost draw nss = (case nss of [] \<Rightarrow> Inl ''empty priorityList''
     | ns # rest \<Rightarrow> Inr (select_from draw 0 rest (nsScore ns) (nsName ns) 1))"

text \<open>The snapshot is taken from the cache first, which may fail.\<close>

definition Schedule :: "bool \<Rightarrow> (nat \<Rightarrow> nat \<Rightarrow> nat) \<Rightarrow> ('s, 'w) fwk \<Rightarrow> int \<Rightarrow> extender list \<Rightarrow> kpod \<Rightarrow> string + nodeInfo list \<Rightarrow> nat \<Rightarrow> int \<Rightarrow> 's \<times> 'w \<Rightarrow>
    ((sched_error + scheduleResult) \<times> nat \<times> int \<times> 's \<times> 'w) go" where
  "Schedule prefer draw f percentage exts pod snap start gen sw = (case snap of
       Inl e \<Rightarrow> Ret (Inl (OtherError e), start, gen, sw)
     | Inr snapshot \<Rightarrow>
         if snapshot = [] then Ret (Inl ErrNoNodesAvailable, start, gen, sw)
         else go_bind (findNodesThatFitPod prefer f percentage exts pod snapshot start gen sw) (\<lambda>(r, d, start1, gen1, sw1).
           case r of Inl e \<Rightarrow> Ret (Inl (OtherError e), start1, gen1, sw1)
           | Inr [] \<Rightarrow> Ret (Inl (FitError (length snapshot) d), start1, gen1, sw1)
           | Inr [n] \<Rightarrow> go_bind (node_name n) (\<lambda>nn.
               Ret (Inr \<lparr>SuggestedHost = nn, EvaluatedNodes = 1 + length (NodeToStatusMap d), FeasibleNodes = 1\<rparr>, start1, gen1, sw1))
           | Inr feasible \<Rightarrow> go_bind (prioritizeNodes exts f pod feasible sw1) (\<lambda>(pr, sw2).
               case pr of Inl e \<Rightarrow> Ret (Inl (OtherError e), start1, gen1, sw2)
               | Inr priorityList \<Rightarrow> (case selectHost draw priorityList of
                   Inl e \<Rightarrow> Ret (Inl (OtherError e), start1, gen1, sw2)
                 | Inr host \<Rightarrow> Ret (Inr \<lparr>SuggestedHost = host, EvaluatedNodes = length feasible + length (NodeToStatusMap d),
                                         FeasibleNodes = length feasible\<rparr>, start1, gen1, sw2)))))"

end
