(* ===== verification/Generic_Props.thy ===== *)
theory Generic_Props
  imports Generic_Sched
begin

text \<open>
  Properties of the scheduling algorithm: how many nodes are looked for, which node is selected, and
  that the suggested host is a node of the snapshot that passed every filter.
\<close>

section \<open>Selecting\<close>

lemma select_from_best:
  "\<exists>ns\<in>set ((\<lparr>nsName = selected, nsScore = maxScore\<rparr>) # nss). select_from draw k nss maxScore selected cnt = nsName ns \<and>
     (\<forall>s\<in>set nss. nsScore s \<le> nsScore ns) \<and> maxScore \<le> nsScore ns"
proof (induction draw k nss maxScore selected cnt rule: select_from.induct)
  case (2 draw k ns nss maxScore selected cnt)
  consider "nsScore ns > maxScore" | "nsScore ns = maxScore" "draw k (cnt + 1) = 0" | "nsScore ns = maxScore" "draw k (cnt + 1) \<noteq> 0" | "nsScore ns < maxScore"
    by linarith
  then show ?case
  proof cases
    case 1
    then obtain x where "x \<in> set ((\<lparr>nsName = nsName ns, nsScore = nsScore ns\<rparr>) # nss)"
      "select_from draw k nss (nsScore ns) (nsName ns) 1 = nsName x" "\<forall>s\<in>set nss. nsScore s \<le> nsScore x" "nsScore ns \<le> nsScore x"
      using 2(1) by blast
    then show ?thesis using 1 by (intro bexI [of _ x]) auto
  next
    case 2
    then show ?thesis using "2.IH"(2) by (fastforce intro: bexI)
  next
    case 3
    then show ?thesis using "2.IH"(2) by fastforce
  next
    case 4
    then show ?thesis using "2.IH"(3) by fastforce
  qed
qed simp

definition legal :: "(nat \<Rightarrow> nat \<Rightarrow> nat) \<Rightarrow> bool" where
  "legal draw \<longleftrightarrow> (\<forall>k n. 0 < n \<longrightarrow> draw k n < n)"

lemma select_from_keeps:
  assumes "\<forall>s\<in>set nss. nsScore s \<le> m" "\<forall>j\<ge>k. \<forall>n\<ge>2. draw j n \<noteq> 0" "1 \<le> cnt"
  shows "select_from draw k nss m sel cnt = sel"
  using assms
proof (induction draw k nss m sel cnt rule: select_from.induct)
  case (2 draw k ns nss m sel cnt)
  then have "0 < draw k (Suc cnt)" by simp
  then have "\<not> draw k (Suc cnt) = 0" by simp
  then have "select_from draw k (ns # nss) m sel cnt = select_from draw (k + 1) nss m sel (cnt + 1)" if "nsScore ns = m"
    using that by simp
  moreover have "select_from draw (k + 1) nss m sel (cnt + 1) = sel" if "nsScore ns = m"
    using 2 that by (cases "draw k (cnt + 1) = 0") simp_all
  ultimately show ?case using 2(3) 2(4) 2(5) 2(6) by (metis (no_types, lifting) "2.IH"(3) list.set_intros(1,2) not_less order_less_le select_from.simps(2))
qed simp

lemma select_from_any:
  assumes "\<forall>x\<in>set (xs @ s # ys). nsScore x \<le> nsScore s" "m \<le> nsScore s" "1 \<le> cnt"
  shows "\<exists>draw. legal draw \<and> (\<forall>sel. select_from draw k (xs @ s # ys) m sel cnt = nsName s)"
  using assms
proof (induction xs arbitrary: k m cnt)
  case Nil
  show ?case
  proof (cases "nsScore s > m")
    case True
    let ?d = "\<lambda>k n. if n = 1 then 0 else 1 :: nat"
    have "legal ?d" by (simp add: legal_def)
    moreover have "select_from ?d k (s # ys) m sel cnt = nsName s" for sel
      using True Nil select_from_keeps [of ys "nsScore s" k ?d 1 "nsName s"] by simp
    ultimately show ?thesis by (metis append_Nil)
  next
    case False
    then have e: "nsScore s = m" using Nil by simp
    let ?d = "\<lambda>j n. if j = k \<or> n = 1 then 0 else 1 :: nat"
    have "legal ?d" by (simp add: legal_def)
    moreover have "select_from ?d k (s # ys) m sel cnt = nsName s" for sel
      using e Nil select_from_keeps [of ys m "k + 1" ?d "cnt + 1" "nsName s"] by simp
    ultimately show ?thesis by (metis append_Nil)
  qed
next
  case (Cons x xs)
  have b: "\<forall>x\<in>set (xs @ s # ys). nsScore x \<le> nsScore s" "nsScore x \<le> nsScore s" using Cons.prems by auto
  consider "nsScore x > m" | "nsScore x = m" | "nsScore x < m" by linarith
  then show ?case
  proof cases
    case 1
    then obtain draw where "legal draw" "\<forall>sel. select_from draw k (xs @ s # ys) (nsScore x) sel 1 = nsName s"
      using Cons.IH [OF b(1,2), of 1 k] by auto
    then show ?thesis using 1 by (intro exI [of _ draw]) simp
  next
    case 2
    then obtain draw where "legal draw" "\<forall>sel. select_from draw (k + 1) (xs @ s # ys) m sel (cnt + 1) = nsName s"
      using Cons.IH [OF b(1) Cons.prems(2), of "cnt + 1" "k + 1"] by auto
    then show ?thesis using 2 by (intro exI [of _ draw]) simp
  next
    case 3
    then obtain draw where "legal draw" "\<forall>sel. select_from draw k (xs @ s # ys) m sel cnt = nsName s"
      using Cons.IH [OF b(1) Cons.prems(2,3), of k] by auto
    then show ?thesis using 3 by (intro exI [of _ draw]) simp
  qed
qed

text \<open>
  From a list that is not empty the scheduler selects a node of the highest score, whatever the
  random draws, and every node of the highest score is selected for some draws.
\<close>

theorem selectHost_best:
  assumes "nss \<noteq> []"
  shows "(\<exists>s\<in>set nss. selectHost draw nss = Inr (nsName s) \<and> nsScore s = Max (nsScore ` set nss)) \<and>
    (\<forall>s\<in>set nss. nsScore s = Max (nsScore ` set nss) \<longrightarrow> (\<exists>draw'. legal draw' \<and> selectHost draw' nss = Inr (nsName s)))"
proof -
  obtain n rest where nss: "nss = n # rest" using assms by (cases nss) auto
  obtain x where "x \<in> set (\<lparr>nsName = nsName n, nsScore = nsScore n\<rparr> # rest)" and x: "select_from draw 0 rest (nsScore n) (nsName n) 1 = nsName x"
      "\<forall>s\<in>set rest. nsScore s \<le> nsScore x" "nsScore n \<le> nsScore x"
    using select_from_best [of "nsName n" "nsScore n" rest draw 0 1] by blast
  then have m: "x \<in> set nss" using nss by auto
  have "nsScore x = Max (nsScore ` set nss)" using m x nss by (intro Max_eqI [symmetric]) auto
  then have 1: "\<exists>s\<in>set nss. selectHost draw nss = Inr (nsName s) \<and> nsScore s = Max (nsScore ` set nss)"
    using m x by (auto simp: selectHost_def nss)
  have 2: "\<exists>draw'. legal draw' \<and> selectHost draw' nss = Inr (nsName s)"
    if s: "s \<in> set nss" "nsScore s = Max (nsScore ` set nss)" for s
  proof -
    have le: "\<forall>y\<in>set nss. nsScore y \<le> nsScore s" using s by simp
    show ?thesis
    proof (cases "s \<in> set rest")
      case True
      then obtain xs ys where xy: "rest = xs @ s # ys" by (meson split_list)
      have "\<forall>x\<in>set (xs @ s # ys). nsScore x \<le> nsScore s" "nsScore n \<le> nsScore s" using le nss xy by auto
      from select_from_any [OF this, of 1 0] show ?thesis unfolding nss xy selectHost_def by auto
    next
      case False
      let ?d = "\<lambda>k n. if n = 1 then 0 else 1 :: nat"
      have "legal ?d" by (simp add: legal_def)
      moreover have "select_from ?d 0 rest (nsScore n) (nsName n) 1 = nsName n"
        using le nss False s(1) by (intro select_from_keeps) auto
      ultimately show ?thesis using False s(1) nss by (intro exI [of _ ?d]) (auto simp: selectHost_def)
    qed
  qed
  show ?thesis using 1 2 by blast
qed

theorem selectHost_best_witness:
  "\<exists>draw'. legal draw' \<and> selectHost draw' [\<lparr>nsName = ''a'', nsScore = 7\<rparr>, \<lparr>nsName = ''b'', nsScore = 3\<rparr>, \<lparr>nsName = ''c'', nsScore = 7\<rparr>] = Inr ''c''"
  using selectHost_best [of "[\<lparr>nsName = ''a'', nsScore = 7\<rparr>, \<lparr>nsName = ''b'', nsScore = 3\<rparr>, \<lparr>nsName = ''c'', nsScore = 7\<rparr>]"]
  by simp

section \<open>How many nodes to find\<close>

lemma numFeasible_range:
  assumes "0 \<le> n" "n < 2 ^ 31 div 100"
  shows "min n 100 \<le> numFeasibleNodesToFind p n \<and> numFeasibleNodesToFind p n \<le> n"
proof (cases "n < 100 \<or> p \<ge> 100")
  case False
  have w: "wrap32 x = x" if "- (2 ^ 31) \<le> x" "x < 2 ^ 31" for x using that by (simp add: wrap32_def)
  have b: "n < 21474836" using assms by simp
  define a where "a = (if p \<le> 0 then (let q = wrap32 (50 - go_div n 125) in if q < 5 then 5 else q) else p)"
  have dv: "go_div n 125 = n div 125" using assms by (intro go_div_nonneg) auto
  have "wrap32 (50 - n div 125) = 50 - n div 125" using b assms zdiv_mono1 [of n 21474836 125] by (intro w) (auto simp: pos_imp_zdiv_nonneg_iff intro: order_trans [of _ 0])
  then have a: "0 < a" "a \<le> 100" using False dv assms by (auto simp: a_def Let_def pos_imp_zdiv_nonneg_iff)
  have "n * a \<le> n * 100" using a assms by (intro mult_left_mono) auto
  then have na: "0 \<le> n * a" "n * a \<le> n * 100" using a assms by auto
  then have "wrap32 (n * a) = n * a" using b by (intro w) auto
  moreover have "go_div (n * a) 100 = n * a div 100" using na by (intro go_div_nonneg) auto
  moreover have "n * a div 100 \<le> n" using na by simp
  ultimately show ?thesis using False by (auto simp: numFeasibleNodesToFind_def Let_def simp flip: a_def)
qed (auto simp: numFeasibleNodesToFind_def)

section \<open>Filtering\<close>

text \<open>Filter plugins that look at the pod and the node only: their verdicts \<open>V\<close> by name.\<close>

definition verdict_plugins :: "(string \<Rightarrow> kpod \<Rightarrow> nodeInfo \<Rightarrow> statusp) \<Rightarrow> string list \<Rightarrow> ('s, 'w) filterPlugin list" where
  "verdict_plugins V names = map (\<lambda>n. (n, \<lambda>pod ni sw. (V n pod ni, sw))) names"

definition fits :: "(string \<Rightarrow> kpod \<Rightarrow> nodeInfo \<Rightarrow> statusp) \<Rightarrow> string list \<Rightarrow> kpod \<Rightarrow> nodeInfo \<Rightarrow> bool" where
  "fits V names pod ni \<longleftrightarrow> list_all (\<lambda>n. IsSuccess (V n pod ni)) names"

definition refusals :: "nodeToStatus \<Rightarrow> bool" where
  "refusals m \<longleftrightarrow> list_all (\<lambda>x. statusPrecedence (Code (snd x)) > 0) m"

lemma refusals_update: "refusals m \<Longrightarrow> statusPrecedence (Code s) > 0 \<Longrightarrow> refusals (AList.update n s m)"
  unfolding refusals_def by (induction m) simp_all

lemma AList_update_ne [simp]: "AList.update k v m \<noteq> []"
  by (cases m) auto

lemma unschedulable_refusal: "IsUnschedulable s \<Longrightarrow> statusPrecedence (Code s) > 0"
  by (auto simp: IsUnschedulable_def statusPrecedence_def)

lemma error_refusal: "statusPrecedence (Code (AsStatus e)) > 0"
  by (simp add: AsStatus_def Code_def statusPrecedence_def)

lemma filter_loop_verdicts:
  assumes "refusals acc"
  shows "\<exists>m. filter_loop runAll (verdict_plugins V names) pod ni acc sw = (m, sw) \<and> refusals m \<and>
    (m = [] \<longleftrightarrow> acc = [] \<and> fits V names pod ni)"
  using assms
proof (induction names arbitrary: acc)
  case (Cons n names)
  show ?case
  proof (cases "IsSuccess (V n pod ni)")
    case True
    then show ?thesis using Cons by (simp add: verdict_plugins_def fits_def)
  next
    case False
    define m where "m = AList.update n (SetFailedPlugin n (V n pod ni)) acc"
    define er where "er = SetFailedPlugin n (AsStatus (''running '' @ quoted_name n @ '' filter plugin: '' @ error_text (V n pod ni)))"
    have step: "filter_loop runAll (verdict_plugins V (n # names)) pod ni acc sw =
      (if \<not> IsUnschedulable (V n pod ni) then ([(n, er)], sw)
       else if \<not> runAll then (m, sw) else filter_loop runAll (verdict_plugins V names) pod ni m sw)"
      using False by (simp add: verdict_plugins_def m_def er_def Let_def)
    have e: "refusals [(n, er)]" by (simp add: refusals_def er_def error_refusal del: append.simps)
    have u: "refusals m" if "IsUnschedulable (V n pod ni)"
      unfolding m_def using unschedulable_refusal [OF that] by (intro refusals_update [OF Cons.prems]) simp
    have "m \<noteq> []" "\<not> fits V (n # names) pod ni" using False by (simp_all add: m_def fits_def)
    then show ?thesis unfolding step using Cons.IH [OF u] u e by auto
  qed
qed (simp add: verdict_plugins_def fits_def)

lemma Merge_refusals:
  assumes "refusals m"
  shows "\<exists>s. Merge (map snd m) = Ret s \<and> (IsSuccess s \<longleftrightarrow> m = [])"
proof (cases "m = []")
  case True then show ?thesis by (simp add: Merge_def IsSuccess_def Code_def)
next
  case False
  have "\<not> statusPrecedence (Code None) > 0" by (simp add: Code_def statusPrecedence_def)
  then have nn: "\<forall>s\<in>set (map snd m). s \<noteq> None" using assms unfolding refusals_def list_all_iff set_map by (metis imageE)
  let ?z = "\<lparr>scode = Success, reasons = [], err = None, failedPlugin = []\<rparr>"
  obtain st where st: "merge_from ?z (map snd m) = Ret st"
    "statusPrecedence (scode st) = Max (insert (statusPrecedence Success) ((\<lambda>s. statusPrecedence (Code s)) ` set (map snd m)))"
    using merge_from_props [OF nn, of ?z] by auto
  obtain x where x: "x \<in> set m" using False by (cases m) auto
  have "0 < statusPrecedence (Code (snd x))" using assms x by (simp add: refusals_def list_all_iff)
  also have "\<dots> \<le> statusPrecedence (scode st)" unfolding st(2) using x by (intro Max_ge) auto
  finally have "scode st \<noteq> Success" by (auto simp: statusPrecedence_def)
  then show ?thesis using st(1) False by (simp add: Merge_def IsSuccess_def Code_def)
qed

lemma run_filters_verdicts:
  assumes "\<And>nn. nominated nn = []"
  shows "\<exists>s. RunFilterPluginsWithNominatedPods g runAll pfs (verdict_plugins V names) nominated pod ni gen sw = Ret (s, gen, sw) \<and>
    (IsSuccess s \<longleftrightarrow> fits V names pod ni)"
proof -
  obtain m where m: "RunFilterPlugins runAll (verdict_plugins V names) pod ni sw = (m, sw)" "refusals m"
    "m = [] \<longleftrightarrow> fits V names pod ni"
    using filter_loop_verdicts [of "[]" runAll V names pod ni sw] by (auto simp: RunFilterPlugins_def refusals_def)
  obtain s where s: "Merge (map snd m) = Ret s" "IsSuccess s \<longleftrightarrow> m = []" using Merge_refusals [OF m(2)] by blast
  have "addNominatedPods g pfs nominated pod ni gen sw = (Inr (False, ni), gen, sw)" "\<not> clones nominated ni"
    using assms by (simp_all add: addNominatedPods_def clones_def split: option.splits)
  then show ?thesis using m s by (cases sw) (simp add: RunFilterPluginsWithNominatedPods_def)
qed

lemma check_nodes_verdicts:
  assumes "filterPlugins f = verdict_plugins V names" "\<And>nn. NominatedPodsForNode f nn = []" "\<forall>ni\<in>set nis. node ni \<noteq> None"
  shows "\<exists>er kept d'. check_nodes f pod limit nis feasible d gen sw = Ret ((er, feasible @ map node kept, d'), gen, sw) \<and>
    (\<forall>ni\<in>set kept. ni \<in> set nis \<and> fits V names pod ni) \<and>
    (er = None \<and> length feasible < limit \<and> kept = [] \<longrightarrow> (\<forall>ni\<in>set nis. \<not> fits V names pod ni))"
  using assms(3)
proof (induction nis arbitrary: feasible d)
  case (Cons ni nis)
  obtain s where s: "RunFilterPluginsWithNominatedPods (fwGates f) (runAllFilters f) (preFilterPlugins f) (filterPlugins f)
      (NominatedPodsForNode f) pod ni gen sw = Ret (s, gen, sw)" "IsSuccess s \<longleftrightarrow> fits V names pod ni"
    unfolding assms(1) using run_filters_verdicts [where nominated = "NominatedPodsForNode f" and g = "fwGates f" and
        runAll = "runAllFilters f" and pfs = "preFilterPlugins f" and V = V and names = names and pod = pod and ni = ni and gen = gen and sw = sw, OF assms(2)]
    by blast
  obtain nd where nd: "node ni = Some nd" using Cons.prems by auto
  consider (err) "Code s = ErrorCode" | (full) "IsSuccess s" "\<not> length feasible < limit"
    | (ok) "IsSuccess s" "length feasible < limit" | (no) "\<not> IsSuccess s" "Code s \<noteq> ErrorCode" by blast
  then show ?case
  proof cases
    case err
    have "check_nodes f pod limit (ni # nis) feasible d gen sw = Ret ((Some (error_text s), feasible, d), gen, sw)"
      using s err by simp
    then show ?thesis by (intro exI [of _ "Some (error_text s)"] exI [of _ "[]"]) auto
  next
    case full
    have "check_nodes f pod limit (ni # nis) feasible d gen sw = Ret ((None, feasible, d), gen, sw)"
      using s full by (auto simp: IsSuccess_def)
    then show ?thesis using full by (intro exI [of _ None] exI [of _ "[]"]) auto
  next
    case ok
    obtain er kept d' where k: "check_nodes f pod limit nis (feasible @ [node ni]) d gen sw = Ret ((er, (feasible @ [node ni]) @ map node kept, d'), gen, sw)"
      "\<forall>ni\<in>set kept. ni \<in> set nis \<and> fits V names pod ni"
      using Cons.IH [of "feasible @ [node ni]" d] Cons.prems by auto
    have "check_nodes f pod limit (ni # nis) feasible d gen sw = Ret ((er, feasible @ map node (ni # kept), d'), gen, sw)"
      using s ok k by (auto simp: IsSuccess_def)
    then show ?thesis using k(2) s(2) ok by (intro exI [of _ er] exI [of _ "ni # kept"]) auto
  next
    case no
    obtain er kept d' where k: "check_nodes f pod limit nis feasible (note_failure (knodeName nd) s d) gen sw = Ret ((er, feasible @ map node kept, d'), gen, sw)"
      "\<forall>ni\<in>set kept. ni \<in> set nis \<and> fits V names pod ni"
      "er = None \<and> length feasible < limit \<and> kept = [] \<longrightarrow> (\<forall>ni\<in>set nis. \<not> fits V names pod ni)"
      using Cons.IH [of feasible "note_failure (knodeName nd) s d"] Cons.prems by auto
    have "check_nodes f pod limit (ni # nis) feasible d gen sw = Ret ((er, feasible @ map node kept, d'), gen, sw)"
      using s no k by (simp add: node_name_def nd)
    then show ?thesis using k(2,3) s(2) no by (intro exI [of _ er] exI [of _ kept]) auto
  qed
qed simp

section \<open>Scheduling\<close>

definition found_fitting :: "(string \<Rightarrow> kpod \<Rightarrow> nodeInfo \<Rightarrow> statusp) \<Rightarrow> string list \<Rightarrow> kpod \<Rightarrow> nodeInfo list \<Rightarrow> bool \<Rightarrow> string + knode option list \<Rightarrow> bool" where
  "found_fitting V names pod nodes complete r \<longleftrightarrow> (case r of Inl _ \<Rightarrow> True
     | Inr feasible \<Rightarrow> (\<exists>kept. feasible = map node kept \<and> (\<forall>ni\<in>set kept. ni \<in> set nodes \<and> fits V names pod ni)) \<and>
         (feasible = [] \<and> complete \<longrightarrow> (\<forall>ni\<in>set nodes. \<not> fits V names pod ni)))"

lemma found_fitting_mono:
  "found_fitting V names pod nodes c r \<Longrightarrow> set nodes \<subseteq> set nodes' \<Longrightarrow> found_fitting V names pod nodes' False r"
  unfolding found_fitting_def by (cases r) (simp, fastforce)

lemma found_fitting_weaken: "found_fitting V names pod nodes True r \<Longrightarrow> found_fitting V names pod nodes c r"
  by (cases r) (simp_all add: found_fitting_def)

lemma find_pass_fitting:
  assumes "filterPlugins f = verdict_plugins V names" "names \<noteq> []" "\<And>nn. NominatedPodsForNode f nn = []"
    and "\<forall>ni\<in>set nodes. node ni \<noteq> None" "nodes \<noteq> []" "length nodes < 21474836"
  shows "\<exists>r d1 start1. findNodesThatPassFilters f percentage pod d nodes start gen sw = Ret (r, d1, start1, gen, sw) \<and>
    found_fitting V names pod nodes True r"
proof -
  define limit where "limit = nat (numFeasibleNodesToFind percentage (wrap32 (int (length nodes))))"
  have "wrap32 (int (length nodes)) = int (length nodes)" using assms(6) by (simp add: wrap32_def)
  then have l: "0 < limit" using numFeasible_range [of "int (length nodes)" percentage] assms(5,6)
    by (auto simp: limit_def) (metis of_nat_0_less_iff length_greater_0_conv min_less_iff_conj order_less_le_trans zero_less_numeral)
  have ne: "filterPlugins f \<noteq> []" using assms(1,2) by (simp add: verdict_plugins_def)
  obtain er kept d' where k: "check_nodes f pod limit (rotate start nodes) [] d gen sw = Ret ((er, [] @ map node kept, d'), gen, sw)"
    "\<forall>ni\<in>set kept. ni \<in> set (rotate start nodes) \<and> fits V names pod ni"
    "er = None \<and> length ([] :: knode option list) < limit \<and> kept = [] \<longrightarrow> (\<forall>ni\<in>set (rotate start nodes). \<not> fits V names pod ni)"
    using check_nodes_verdicts [OF assms(1,3), of "rotate start nodes" pod limit "[]" d gen sw] assms(4) by auto
  show ?thesis using k l ne assms(5)
    by (auto simp: findNodesThatPassFilters_def Let_def found_fitting_def simp flip: limit_def split: option.splits)
qed

lemma pass_fitting:
  assumes "filterPlugins f = verdict_plugins V names" "names \<noteq> []" "\<And>nn. NominatedPodsForNode f nn = []"
    and "\<forall>ni\<in>set nodes. node ni \<noteq> None" "nodes \<noteq> []" "length nodes < 21474836"
  shows "\<exists>r d1 start1. pass_filters_and_extenders f percentage [] pod nodes d start gen sw = Ret (r, d1, start1, gen, sw) \<and>
    found_fitting V names pod nodes True r"
proof -
  obtain r d1 start1 where "findNodesThatPassFilters f percentage pod d nodes start gen sw = Ret (r, d1, start1, gen, sw)"
    "found_fitting V names pod nodes True r" using find_pass_fitting [OF assms] by blast
  then show ?thesis by (cases r) (simp_all add: pass_filters_and_extenders_def)
qed

lemma nominated_fitting:
  assumes "filterPlugins f = verdict_plugins V names" "names \<noteq> []" "\<And>nn. NominatedPodsForNode f nn = []"
    and "\<forall>ni\<in>set nodes. node ni \<noteq> None"
  shows "\<exists>r d1 start1. evaluateNominatedNode f percentage [] pod nodes d start gen sw = Ret (r, d1, start1, gen, sw) \<and>
    found_fitting V names pod nodes False r"
proof (cases "find (\<lambda>ni. map_option knodeName (node ni) = Some (NominatedNodeName pod)) nodes")
  case None
  then show ?thesis by (simp add: evaluateNominatedNode_def found_fitting_def)
next
  case (Some ni)
  then have ni: "ni \<in> set nodes" by (auto simp: find_Some_iff)
  obtain r d1 start1 where r: "findNodesThatPassFilters f percentage pod d [ni] start gen sw = Ret (r, d1, start1, gen, sw)"
    "found_fitting V names pod [ni] True r" using find_pass_fitting [OF assms(1-3), of "[ni]" percentage pod d start gen sw] ni assms(4) by fastforce
  have "found_fitting V names pod nodes False r" using found_fitting_mono [OF r(2)] ni by simp
  then show ?thesis using r(1) Some by (cases r) (simp_all add: evaluateNominatedNode_def)
qed

lemma fit_fitting:
  assumes "filterPlugins f = verdict_plugins V names" "names \<noteq> []" "\<And>nn. NominatedPodsForNode f nn = []"
    and "\<forall>ni\<in>set nodes. node ni \<noteq> None" "nodes \<noteq> []" "length nodes < 21474836"
    and "findNodesThatFitPod prefer f percentage [] pod nodes start gen sw = Ret (r, d, rest)"
  shows "found_fitting V names pod nodes (preFilterPlugins f = []) r"
proof -
  let ?d = "\<lparr>NodeToStatusMap = [], UnschedulablePlugins = []\<rparr>"
  obtain s sw1 where s: "RunPreFilterPlugins (preFilterPlugins f) pod sw = (s, sw1)" by (meson surj_pair)
  show ?thesis
  proof (cases "IsSuccess s")
    case False
    then have "preFilterPlugins f \<noteq> []" using s by (auto simp: IsSuccess_def Code_def)
    then show ?thesis using assms(7) s False by (auto simp: findNodesThatFitPod_def found_fitting_def go_bind_Ret_iff split: if_splits)
  next
    case True
    note P = pass_fitting [OF assms(1-6), of percentage pod]
    note N = nominated_fitting [OF assms(1-4), of percentage pod]
    show ?thesis
    proof (cases "NominatedNodeName pod \<noteq> [] \<and> prefer")
      case False
      obtain r2 d2 start2 where r2: "pass_filters_and_extenders f percentage [] pod nodes ?d start gen sw1 = Ret (r2, d2, start2, gen, sw1)"
        "found_fitting V names pod nodes True r2" using P by blast
      have "r = r2" using assms(7) s True False r2(1) by (simp add: findNodesThatFitPod_def split: if_splits)
      then show ?thesis using found_fitting_weaken [OF r2(2)] by simp
    next
      case nom: True
      obtain r1 d1 start1 where r1: "evaluateNominatedNode f percentage [] pod nodes ?d start gen sw1 = Ret (r1, d1, start1, gen, sw1)"
        "found_fitting V names pod nodes False r1" using N by blast
      show ?thesis
      proof (cases "\<exists>n ns. r1 = Inr (n # ns)")
        case True
        then show ?thesis using assms(7) s \<open>IsSuccess s\<close> nom r1 by (auto simp: findNodesThatFitPod_def found_fitting_def)
      next
        case False
        obtain r2 d2 start2 where r2: "pass_filters_and_extenders f percentage [] pod nodes d1 start1 gen sw1 = Ret (r2, d2, start2, gen, sw1)"
          "found_fitting V names pod nodes True r2" using P by blast
        have "r = r2" using assms(7) s \<open>IsSuccess s\<close> nom r1(1) False r2(1)
          by (simp add: findNodesThatFitPod_def split: sum.splits list.splits)
        then show ?thesis using found_fitting_weaken [OF r2(2)] by simp
      qed
    qed
  qed
qed

definition name_of :: "nodeInfo \<Rightarrow> string" where
  "name_of ni = (case node ni of None \<Rightarrow> [] | Some nd \<Rightarrow> knodeName nd)"

lemma node_names_kept:
  "\<forall>ni\<in>set kept. node ni \<noteq> None \<Longrightarrow> node_names (map node kept) = Ret (map name_of kept)"
  by (induction kept) (auto simp: node_name_def name_of_def)

lemma prioritize_names:
  assumes "prioritizeNodes exts f pod nodes sw = Ret (Inr pl, sw2)" "node_names nodes = Ret names"
  shows "map nsName pl = names"
proof -
  have n: "map nsName (map2 (\<lambda>n i. \<lparr>nsName = n, nsScore = g i\<rparr>) names [0..<length names]) = names" for g
    by (simp add: comp_def case_prod_beta)
  show ?thesis using assms n
    by (auto simp: prioritizeNodes_def Let_def comp_def split: if_splits prod.splits)
qed

text \<open>What \<open>Schedule\<close> does with at least two feasible nodes, and where its choice comes from.\<close>

lemma Schedule_many:
  assumes "snapshot \<noteq> []" "findNodesThatFitPod prefer f percentage [] pod snapshot start gen sw = Ret (Inr (x # y # zs), d, start1, gen1, sw1)"
  shows "Schedule prefer draw f percentage [] pod (Inr snapshot) start gen sw =
    go_bind (prioritizeNodes [] f pod (x # y # zs) sw1) (\<lambda>(pr, sw2).
      case pr of Inl e \<Rightarrow> Ret (Inl (OtherError e), start1, gen1, sw2)
      | Inr priorityList \<Rightarrow> (case selectHost draw priorityList of
          Inl e \<Rightarrow> Ret (Inl (OtherError e), start1, gen1, sw2)
        | Inr host \<Rightarrow> Ret (Inr \<lparr>SuggestedHost = host, EvaluatedNodes = length (x # y # zs) + length (NodeToStatusMap d),
                                FeasibleNodes = length (x # y # zs)\<rparr>, start1, gen1, sw2)))"
  using assms by (simp add: Schedule_def)

lemma selected_is_named:
  assumes "prioritizeNodes [] f pod feasible sw = Ret (Inr pl, sw')" "node_names feasible = Ret nns" "selectHost draw pl = Inr host"
  shows "host \<in> set nns"
proof -
  have p: "map nsName pl = nns" using prioritize_names [OF assms(1,2)] .
  obtain n rest where pl: "pl = n # rest" using assms(3) by (cases pl) (auto simp: selectHost_def)
  then have "host \<in> nsName ` set pl"
    using select_from_best [of "nsName n" "nsScore n" rest draw 0 1] assms(3) by (auto simp: selectHost_def)
  then show ?thesis using p by (metis set_map)
qed

lemma Schedule_fits:
  assumes "filterPlugins f = verdict_plugins V names" "names \<noteq> []" "\<And>nn. NominatedPodsForNode f nn = []"
    and "\<forall>ni\<in>set snapshot. node ni \<noteq> None" "length snapshot < 21474836"
    and "Schedule prefer draw f percentage [] pod (Inr snapshot) start gen sw = Ret (out, rest)"
  shows "(\<forall>res. out = Inr res \<longrightarrow> (\<exists>ni\<in>set snapshot. name_of ni = SuggestedHost res \<and> list_all (\<lambda>n. IsSuccess (V n pod ni)) names)) \<and>
    (\<forall>k d. out = Inl (FitError k d) \<and> preFilterPlugins f = [] \<longrightarrow>
       k = length snapshot \<and> (\<forall>ni\<in>set snapshot. \<not> list_all (\<lambda>n. IsSuccess (V n pod ni)) names))"
proof (cases "snapshot = []")
  case True
  then show ?thesis using assms(6) by (auto simp: Schedule_def)
next
  case False
  obtain r d start1 gen1 sw1 where F: "findNodesThatFitPod prefer f percentage [] pod snapshot start gen sw = Ret (r, d, start1, gen1, sw1)"
    using assms(6) False by (auto simp: Schedule_def go_bind_Ret_iff)
  have ff: "found_fitting V names pod snapshot (preFilterPlugins f = []) r"
    using fit_fitting [OF assms(1-4) False assms(5) F] .
  show ?thesis
  proof (cases r)
    case (Inl e)
    then show ?thesis using assms(6) False F by (auto simp: Schedule_def)
  next
    case (Inr feasible)
    then obtain kept where kept: "feasible = map node kept" "\<forall>ni\<in>set kept. ni \<in> set snapshot \<and> fits V names pod ni"
      using ff by (auto simp: found_fitting_def)
    have nn: "node_names feasible = Ret (map name_of kept)" using kept assms(4) by (auto intro!: node_names_kept)
    consider "feasible = []" | x where "feasible = [x]" | x y zs where "feasible = x # y # zs" by (metis list.exhaust)
    then show ?thesis
    proof cases
      case 1
      then show ?thesis using assms(6) False F Inr ff by (auto simp: Schedule_def found_fitting_def fits_def)
    next
      case (2 x)
      then obtain ni where ni: "kept = [ni]" "x = node ni" using kept by auto
      then have "out = Inr \<lparr>SuggestedHost = name_of ni, EvaluatedNodes = 1 + length (NodeToStatusMap d), FeasibleNodes = 1\<rparr>"
        using assms(6) False F Inr 2 nn by (auto simp: Schedule_def go_bind_Ret_iff)
      then show ?thesis using kept ni by (auto simp: fits_def)
    next
      case (3 x y zs)
      note S = Schedule_many [OF False F [unfolded Inr 3]]
      obtain pr sw2 where pr: "prioritizeNodes [] f pod (x # y # zs) sw1 = Ret (pr, sw2)"
        using assms(6) unfolding S by (auto simp: go_bind_Ret_iff)
      have "\<exists>ni\<in>set snapshot. name_of ni = SuggestedHost res \<and> list_all (\<lambda>n. IsSuccess (V n pod ni)) names" if o: "out = Inr res" for res
      proof -
        obtain pl where pl: "pr = Inr pl" "selectHost draw pl = Inr (SuggestedHost res)"
          using assms(6) o unfolding S by (auto simp: pr split: sum.splits)
        have "SuggestedHost res \<in> set (map name_of kept)" using selected_is_named [OF _ nn [unfolded 3] pl(2)] pr pl(1) by blast
        then show ?thesis using kept by (auto simp: fits_def)
      qed
      moreover have "out \<noteq> Inl (FitError k d)" for k d using assms(6) unfolding S by (auto simp: pr split: sum.splits)
      ultimately show ?thesis by blast
    qed
  qed
qed

text \<open>
  C19: the scheduling algorithm suggests only nodes that fit. With filters that judge by the pod and the
  node, no nominated pods and no extenders, the suggested host is a node of the snapshot that every filter
  accepts, whatever the pre-filters, scores, start index, percentage and random draws are; and when
  there are no pre-filters, the error that no node fits is reported only if some filter refuses every
  node.
\<close>

theorem Schedule_host_fits:
  assumes "filterPlugins f = verdict_plugins V names" "names \<noteq> []" "\<And>nn. NominatedPodsForNode f nn = []"
    and "\<forall>ni\<in>set snapshot. node ni \<noteq> None" "length snapshot < 21474836"
    and "Schedule prefer draw f percentage [] pod (Inr snapshot) start gen sw = Ret (out, rest)"
  shows "(\<forall>res. out = Inr res \<longrightarrow> (\<exists>ni\<in>set snapshot. name_of ni = SuggestedHost res \<and> list_all (\<lambda>n. IsSuccess (V n pod ni)) names)) \<and>
    (\<forall>k d. out = Inl (FitError k d) \<and> preFilterPlugins f = [] \<longrightarrow>
       k = length snapshot \<and> (\<forall>ni\<in>set snapshot. \<not> list_all (\<lambda>n. IsSuccess (V n pod ni)) names))"
  by (rule Schedule_fits [OF assms])

definition ex_fwk :: "(unit, unit) fwk" where
  "ex_fwk = \<lparr>preFilterPlugins = [], filterPlugins = verdict_plugins (\<lambda>n pod ni. if name_of ni = ''good'' then None else NewStatus Unschedulable [n]) [''F''],
     postFilterPlugins = [], preScorePlugins = [], scorePlugins = [], scorePluginWeight = (\<lambda>_. 1), reservePlugins = [],
     permitPlugins = [], preBindPlugins = [], bindPlugins = [], postBindPlugins = [], runAllFilters = False,
     fwGates = \<lparr>IsScalarResourceName = (\<lambda>_. False), LocalStorage = True, PodOverhead = True\<rparr>, NominatedPodsForNode = (\<lambda>_. [])\<rparr>"

definition ex_pod :: "string \<Rightarrow> kpod" where
  "ex_pod u = \<lparr>kName = u, kNamespace = ''d'', UID = u, ResourceVersion = [], specNodeName = [], Containers = [], InitContainers = [], Overhead = None,
     Affinity = None, claims = [], Priority = None, NominatedNodeName = [], SchedulerName = [], deleting = False, Annotations = [], Tolerations = [], podLabels = [], StartTime = None, PreemptionPolicy = None\<rparr>"

definition ex_node :: "string \<Rightarrow> nodeInfo" where
  "ex_node nn = \<lparr>node = Some \<lparr>knodeName = nn, nodeLabels = [], nodeAllocatable = [], nodeImages = [], specUnschedulable = False, Taints = [], nodeConditions = []\<rparr>, Pods = [], PodsWithAffinity = [], PodsWithRequiredAntiAffinity = [],
     UsedPorts = [], Requested = zero_resource, NonZeroRequested = zero_resource, Allocatable = zero_resource, ImageStates = [], PVCRefCounts = [], Generation = 1\<rparr>"

theorem Schedule_host_fits_witness:
  "\<exists>res rest. Schedule False (\<lambda>_ _. 0) ex_fwk 100 [] (ex_pod ''p'') (Inr [ex_node ''bad'', ex_node ''good'']) 0 0 ((), ()) = Ret (Inr res, rest) \<and>
     (\<exists>ni\<in>set [ex_node ''bad'', ex_node ''good'']. name_of ni = SuggestedHost res \<and>
       IsSuccess (if name_of ni = ''good'' then None else NewStatus Unschedulable [''F'']))"
proof -
  have f: "filterPlugins ex_fwk = verdict_plugins (\<lambda>n pod ni. if name_of ni = ''good'' then None else NewStatus Unschedulable [n]) [''F'']"
    by (simp add: ex_fwk_def)
  have n: "NominatedPodsForNode ex_fwk nn = []" for nn by (simp add: ex_fwk_def)
  have "(case Schedule False (\<lambda>_ _. 0) ex_fwk 100 [] (ex_pod ''p'') (Inr [ex_node ''bad'', ex_node ''good'']) 0 0 ((), ()) of
      Ret (Inr res, rest) \<Rightarrow> True | _ \<Rightarrow> False)"
    by code_simp
  then have "\<exists>res rest. Schedule False (\<lambda>_ _. 0) ex_fwk 100 [] (ex_pod ''p'') (Inr [ex_node ''bad'', ex_node ''good'']) 0 0 ((), ()) = Ret (Inr res, rest)"
    by (auto split: go.splits sum.splits)
  then show ?thesis using Schedule_host_fits [OF f _ n, of "[ex_node ''bad'', ex_node ''good'']" False "\<lambda>_ _. 0" 100 "ex_pod ''p''" 0 0 "((), ())"]
    by (fastforce simp: ex_node_def)
qed

end
