(* ===== verification/Sim_Store.thy ===== *)
theory Sim_Store
  imports Fw_Runtime Go_Json "HOL-Library.List_Lexorder" "HOL-Library.Char_ord"
begin

text \<open>
  The result store of the scheduler simulator (\<open>scheduler/plugin/resultstore/store.go\<close>, with
  \<open>util/retry.go\<close> and \<open>annotation.go\<close>): the filter results, scores and final scores of a pod, recorded
  while it is scheduled and written to its annotations when it is updated. Each operation runs under
  the mutex of the store.
\<close>

section \<open>Data\<close>

type_synonym table = "(string \<times> (string \<times> string) list) list"

record result =
  score_of :: table
  finalscore :: table
  filter_of :: table

record store =
  results :: "(string \<times> result) list"
  storeWeight :: "(string \<times> int) list"

definition PassedFilterMessage :: string where "PassedFilterMessage = ''passed''"

definition newKey :: "string \<Rightarrow> string \<Rightarrow> string" where
  "newKey namespace pn = namespace @ ''/'' @ pn"

definition newData :: result where
  "newData = \<lparr>score_of = [], finalscore = [], filter_of = []\<rparr>"

definition NewStore :: "(string \<times> int) list \<Rightarrow> store" where
  "NewStore weights = \<lparr>results = [], storeWeight = weights\<rparr>"

section \<open>Recording\<close>

definition lookup_table :: "table \<Rightarrow> string \<Rightarrow> string \<Rightarrow> string option" where
  "lookup_table t nn pl = (case map_of t nn of None \<Rightarrow> None | Some m \<Rightarrow> map_of m pl)"

definition put_table :: "string \<Rightarrow> string \<Rightarrow> string \<Rightarrow> table \<Rightarrow> table" where
  "put_table nn pl v t = AList.update nn (AList.update pl v (case map_of t nn of None \<Rightarrow> [] | Some m \<Rightarrow> m)) t"

definition result_at :: "store \<Rightarrow> string \<Rightarrow> result" where
  "result_at s k = (case map_of (results s) k of None \<Rightarrow> newData | Some r \<Rightarrow> r)"

definition set_result :: "string \<Rightarrow> result \<Rightarrow> store \<Rightarrow> store" where
  "set_result k r s = s\<lparr>results := AList.update k r (results s)\<rparr>"

definition AddFilterResult :: "string \<Rightarrow> string \<Rightarrow> string \<Rightarrow> string \<Rightarrow> string \<Rightarrow> store \<Rightarrow> store" where
  "AddFilterResult namespace pn nn pl reason s =
     (let k = newKey namespace pn; r = result_at s k
      in set_result k (r\<lparr>filter_of := put_table nn pl reason (filter_of r)\<rparr>) s)"

definition applyWeightOnScore :: "store \<Rightarrow> string \<Rightarrow> int \<Rightarrow> int" where
  "applyWeightOnScore s pl sc = wrap64 (sc * (case map_of (storeWeight s) pl of None \<Rightarrow> 0 | Some w \<Rightarrow> w))"

definition AddNormalizedScoreResult :: "string \<Rightarrow> string \<Rightarrow> string \<Rightarrow> string \<Rightarrow> int \<Rightarrow> store \<Rightarrow> store" where
  "AddNormalizedScoreResult namespace pn nn pl sc s =
     (let k = newKey namespace pn; r = result_at s k
      in set_result k (r\<lparr>finalscore := put_table nn pl (itoa (applyWeightOnScore s pl sc)) (finalscore r)\<rparr>) s)"

definition AddScoreResult :: "string \<Rightarrow> string \<Rightarrow> string \<Rightarrow> string \<Rightarrow> int \<Rightarrow> store \<Rightarrow> store" where
  "AddScoreResult namespace pn nn pl sc s =
     (let k = newKey namespace pn; r = result_at s k
      in AddNormalizedScoreResult namespace pn nn pl sc
           (set_result k (r\<lparr>score_of := put_table nn pl (itoa sc) (score_of r)\<rparr>) s))"

definition DeleteData :: "string \<Rightarrow> store \<Rightarrow> store" where
  "DeleteData k s = s\<lparr>results := AList.delete k (results s)\<rparr>"

section \<open>Writing the annotations\<close>

text \<open>\<open>json.Marshal\<close> prints the entries of a map in the order of the keys.\<close>

definition enc_table :: "table \<Rightarrow> json" where
  "enc_table t = JObj (map (\<lambda>(nn, m). (nn, JObj (map (\<lambda>(pl, v). (pl, JStr v)) (sort_key fst m)))) (sort_key fst t))"

definition FilterResultAnnotationKey :: string where "FilterResultAnnotationKey = ''scheduler-simulator/filter-result''"
definition ScoreResultAnnotationKey :: string where "ScoreResultAnnotationKey = ''scheduler-simulator/score-result''"
definition FinalScoreResultAnnotationKey :: string where "FinalScoreResultAnnotationKey = ''scheduler-simulator/finalscore-result''"

text \<open>
  A pod with its annotations; setting an annotation allocates a nil map first, so that nil and empty
  need not be told apart.
\<close>

record spod =
  spNamespace :: string
  spName_of :: string
  spAnnotations :: "(string \<times> string) list"

definition SetMetaDataAnnotation :: "string \<Rightarrow> string \<Rightarrow> spod \<Rightarrow> spod" where
  "SetMetaDataAnnotation k v p = p\<lparr>spAnnotations := AList.update k v (spAnnotations p)\<rparr>"

definition addFilterResultToPod :: "store \<Rightarrow> spod \<Rightarrow> spod" where
  "addFilterResultToPod s p = SetMetaDataAnnotation FilterResultAnnotationKey
     (jprint (enc_table (filter_of (result_at s (newKey (spNamespace p) (spName_of p)))))) p"

definition addScoreResultToPod :: "store \<Rightarrow> spod \<Rightarrow> spod" where
  "addScoreResultToPod s p = SetMetaDataAnnotation ScoreResultAnnotationKey
     (jprint (enc_table (score_of (result_at s (newKey (spNamespace p) (spName_of p)))))) p"

definition addFinalScoreResultToPod :: "store \<Rightarrow> spod \<Rightarrow> spod" where
  "addFinalScoreResultToPod s p = SetMetaDataAnnotation FinalScoreResultAnnotationKey
     (jprint (enc_table (finalscore (result_at s (newKey (spNamespace p) (spName_of p)))))) p"

text \<open>
  \<open>wait.ExponentialBackoff\<close>: the condition runs until it is done or fails, at most \<open>steps\<close> times. It
  yields an error, or whether it is done.
\<close>

fun ExponentialBackoff :: "nat \<Rightarrow> ('w \<Rightarrow> (string + bool) \<times> 'w) \<Rightarrow> 'w \<Rightarrow> string option \<times> 'w" where
  "ExponentialBackoff 0 cond w = (Some ''timed out waiting for the condition'', w)"
| "ExponentialBackoff (Suc n) cond w = (case cond w of
       (Inl e, w1) \<Rightarrow> (Some e, w1)
     | (Inr True, w1) \<Rightarrow> (None, w1)
     | (Inr False, w1) \<Rightarrow> ExponentialBackoff n cond w1)"

definition RetryWithExponentialBackOff :: "('w \<Rightarrow> (string + bool) \<times> 'w) \<Rightarrow> 'w \<Rightarrow> string option \<times> 'w" where
  "RetryWithExponentialBackOff cond w = ExponentialBackoff 6 cond w"

text \<open>
  The handler of pod updates. \<open>update\<close> is the API server's update call. The handler of an object that
  is not a pod, or whose pod has no results, does nothing; marshalling maps of strings cannot fail.
\<close>

definition addSchedulingResultToPod :: "(spod \<Rightarrow> 'w \<Rightarrow> string option \<times> 'w) \<Rightarrow> spod option \<Rightarrow> store \<Rightarrow> 'w \<Rightarrow> store \<times> 'w" where
  "addSchedulingResultToPod update newObj s w = (case newObj of None \<Rightarrow> (s, w)
     | Some pod \<Rightarrow>
         (let k = newKey (spNamespace pod) (spName_of pod) in
          if map_of (results s) k = None then (s, w)
          else let pod' = addFinalScoreResultToPod s (addScoreResultToPod s (addFilterResultToPod s pod));
                   updateFunc = (\<lambda>w. case update pod' w of (Some e, w1) \<Rightarrow> (Inl (''update pod: '' @ e), w1) | (None, w1) \<Rightarrow> (Inr True, w1))
               in case RetryWithExponentialBackOff updateFunc w of
                    (Some e, w1) \<Rightarrow> (s, w1)
                  | (None, w1) \<Rightarrow> (DeleteData k s, w1)))"

end
