(* ===== verification/Sim_Plugin.thy ===== *)
theory Sim_Plugin
  imports Sim_Store
begin

text \<open>
  The simulator's wrappers of the scheduler's plugins (\<open>scheduler/plugin/plugins.go\<close>): a wrapped
  plugin behaves as the original and records its results in the store, which is part of the world
  here. The functions that build the simulator's configuration from the scheduler's follow.
\<close>

section \<open>Wrapped plugins\<close>

definition pluginName :: "string \<Rightarrow> string" where
  "pluginName n = n @ ''ForSimulator''"

text \<open>The node information handed to a filter has its node.\<close>

definition info_name :: "nodeInfo \<Rightarrow> string" where
  "info_name ni = (case node ni of None \<Rightarrow> [] | Some nd \<Rightarrow> knodeName nd)"

definition sim_Filter :: "('s, 'w) filterPlugin option \<Rightarrow> kpod \<Rightarrow> nodeInfo \<Rightarrow> ('s, 'w \<times> store) effect" where
  "sim_Filter orig pod ni = (\<lambda>(s, w, st). case orig of None \<Rightarrow> (None, s, w, st)
     | Some (n, f) \<Rightarrow> (case f pod ni (s, w) of (status, s1, w1) \<Rightarrow>
         if IsSuccess status
         then (status, s1, w1, AddFilterResult (kNamespace pod) (kName pod) (info_name ni) n PassedFilterMessage st)
         else (status, s1, w1, AddFilterResult (kNamespace pod) (kName pod) (info_name ni) n (Message status) st)))"

definition sim_Score :: "('s, 'w) scorePlugin option \<Rightarrow> kpod \<Rightarrow> string \<Rightarrow> 's \<times> 'w \<times> store \<Rightarrow> (int \<times> statusp) \<times> 's \<times> 'w \<times> store" where
  "sim_Score orig pod nn = (\<lambda>(s, w, st). case orig of None \<Rightarrow> ((0, None), s, w, st)
     | Some pl \<Rightarrow> (case spScore pl pod nn (s, w) of ((sc, status), s1, w1) \<Rightarrow>
         if \<not> IsSuccess status then ((sc, status), s1, w1, st)
         else ((sc, status), s1, w1, AddScoreResult (kNamespace pod) (kName pod) nn (spName pl) sc st)))"

text \<open>\<open>ScoreExtensions\<close> hands out the original's extensions, which do not know the store.\<close>

definition sim_ScoreExtensions :: "('s, 'w) scorePlugin option \<Rightarrow>
    (kpod \<Rightarrow> nodeScore list \<Rightarrow> 's \<times> 'w \<times> store \<Rightarrow> (nodeScore list \<times> statusp) \<times> 's \<times> 'w \<times> store) option" where
  "sim_ScoreExtensions orig = (case orig of None \<Rightarrow> None
     | Some pl \<Rightarrow> map_option (\<lambda>f pod scores (s, w, st). case f pod scores (s, w) of (r, s1, w1) \<Rightarrow> (r, s1, w1, st)) (spExtensions pl))"

text \<open>The wrapper's own normalisation calls through the original's extensions, which may be nil.\<close>

definition sim_NormalizeScore :: "('s, 'w) scorePlugin option \<Rightarrow> kpod \<Rightarrow> nodeScore list \<Rightarrow> 's \<times> 'w \<times> store \<Rightarrow>
    ((nodeScore list \<times> statusp) \<times> 's \<times> 'w \<times> store) go" where
  "sim_NormalizeScore orig pod scores = (\<lambda>(s, w, st). case orig of None \<Rightarrow> Ret ((scores, None), s, w, st)
     | Some pl \<Rightarrow> (case spExtensions pl of None \<Rightarrow> Panic NilDereference
         | Some f \<Rightarrow> (case f pod scores (s, w) of ((scores', status), s1, w1) \<Rightarrow>
             if \<not> IsSuccess status then Ret ((scores', status), s1, w1, st)
             else Ret ((scores', None), s1, w1,
                    foldl (\<lambda>st sc. AddNormalizedScoreResult (kNamespace pod) (kName pod) (nsName sc) (spName pl) (nsScore sc) st) st scores'))))"

record ('s, 'w) simulatorPlugin =
  simName :: string
  originalFilterPlugin :: "('s, 'w) filterPlugin option"
  originalScorePlugin :: "('s, 'w) scorePlugin option"
  simWeight :: int

text \<open>An original plugin: its name and the interfaces it implements.\<close>

record ('s, 'w) anyPlugin =
  anyName :: string
  asFilter :: "('s, 'w) filterPlugin option"
  asScore :: "('s, 'w) scorePlugin option"

definition newSimulatorPlugin :: "('s, 'w) anyPlugin \<Rightarrow> int \<Rightarrow> ('s, 'w) simulatorPlugin" where
  "newSimulatorPlugin p weight = \<lparr>simName = pluginName (anyName p), originalFilterPlugin = asFilter p,
     originalScorePlugin = asScore p, simWeight = weight\<rparr>"

definition sim_filter_plugin :: "('s, 'w) simulatorPlugin \<Rightarrow> ('s, 'w \<times> store) filterPlugin" where
  "sim_filter_plugin p = (simName p, sim_Filter (originalFilterPlugin p))"

definition sim_score_plugin :: "('s, 'w) simulatorPlugin \<Rightarrow> ('s, 'w \<times> store) scorePlugin" where
  "sim_score_plugin p = \<lparr>spName = simName p, spScore = sim_Score (originalScorePlugin p),
     spExtensions = sim_ScoreExtensions (originalScorePlugin p)\<rparr>"

section \<open>Configuration\<close>

record plugin =
  plName :: string
  plWeight :: "int option"

record pluginSet =
  Enabled :: "plugin list"
  Disabled :: "plugin list"

record plugins =
  Score_set :: pluginSet
  Filter_set :: pluginSet

text \<open>Arguments of a plugin: raw bytes, or an object of a type the configuration knows.\<close>

record 'o rawExtension =
  Raw :: string
  Object :: "'o option"

record 'o profile =
  Plugins_of :: plugins
  PluginConfig :: "(string \<times> 'o rawExtension) list"

text \<open>The scheduler configuration the process was given: an error or its profiles.\<close>

type_synonym 'o config = "string + 'o profile list"

definition default_profile :: "'o config \<Rightarrow> string + 'o profile" where
  "default_profile cfg = (case cfg of Inl e \<Rightarrow> Inl (''get default scheduler configuration: '' @ e)
     | Inr [p] \<Rightarrow> Inr p | Inr _ \<Rightarrow> Inl ''get default scheduler configuration: %!w(<nil>)'')"

definition DefaultFilterPlugins :: "'o config \<Rightarrow> string + plugin list" where
  "DefaultFilterPlugins cfg = (case default_profile cfg of Inl e \<Rightarrow> Inl e | Inr p \<Rightarrow> Inr (Enabled (Filter_set (Plugins_of p))))"

definition DefaultScorePlugins :: "'o config \<Rightarrow> string + plugin list" where
  "DefaultScorePlugins cfg = (case default_profile cfg of Inl e \<Rightarrow> Inl e | Inr p \<Rightarrow> Inr (Enabled (Score_set (Plugins_of p))))"

definition defaultFilterScorePlugins :: "'o config \<Rightarrow> string + plugin list" where
  "defaultFilterScorePlugins cfg = (case DefaultFilterPlugins cfg of Inl e \<Rightarrow> Inl (''get default filter plugins: '' @ e)
     | Inr fs \<Rightarrow> (case DefaultScorePlugins cfg of Inl e \<Rightarrow> Inl (''get default score plugins: '' @ e) | Inr ss \<Rightarrow> Inr (ss @ fs)))"

definition wrap_enabled :: "plugin list \<Rightarrow> plugin list \<Rightarrow> plugin list" where
  "wrap_enabled disabled defaults = map (\<lambda>dp. \<lparr>plName = pluginName (plName dp), plWeight = plWeight dp\<rparr>)
     (filter (\<lambda>dp. plName dp \<notin> plName ` set disabled) defaults)"

definition all_disabled :: "plugin list" where
  "all_disabled = [\<lparr>plName = ''*'', plWeight = None\<rparr>]"

definition ConvertForSimulator :: "'o config \<Rightarrow> plugins \<Rightarrow> string + plugins" where
  "ConvertForSimulator cfg pls =
     (let sd = Disabled (Score_set pls); fd = Disabled (Filter_set pls) in
      case (if ''*'' \<in> plName ` set sd then Inr (Enabled (Score_set pls))
            else case DefaultScorePlugins cfg of Inl e \<Rightarrow> Inl (''get default score plugins: '' @ e) | Inr ds \<Rightarrow> Inr (wrap_enabled sd ds)) of
        Inl e \<Rightarrow> Inl e
      | Inr se \<Rightarrow>
          (case (if ''*'' \<in> plName ` set fd then Inr (Enabled (Filter_set pls))
                 else case DefaultFilterPlugins cfg of Inl e \<Rightarrow> Inl (''get default filter plugins: '' @ e) | Inr ds \<Rightarrow> Inr (wrap_enabled fd ds)) of
             Inl e \<Rightarrow> Inl e
           | Inr fe \<Rightarrow> Inr (pls\<lparr>Score_set := \<lparr>Enabled = se, Disabled = all_disabled\<rparr>, Filter_set := \<lparr>Enabled = fe, Disabled = all_disabled\<rparr>\<rparr>)))"

text \<open>
  The arguments of a plugin that has no default are a nil pointer: it is dereferenced as soon as the
  given arguments are merged, or at the latest when the list is built. \<open>unmarshal_into\<close> decodes raw
  bytes over an object.
\<close>

fun override_config :: "(string \<Rightarrow> 'o option \<Rightarrow> string + 'o option) \<Rightarrow> (string \<times> 'o rawExtension) list \<Rightarrow> (string \<times> 'o rawExtension option) list \<Rightarrow>
    (string + (string \<times> 'o rawExtension option) list) go" where
  "override_config unmarshal_into [] m = Ret (Inr m)"
| "override_config unmarshal_into ((n, args) # pc) m =
     (case (case map_of m n of None \<Rightarrow> None | Some r \<Rightarrow> r) of
        None \<Rightarrow> (if Raw args \<noteq> [] \<or> Object args \<noteq> None then Panic NilDereference
                 else override_config unmarshal_into pc (AList.update n None m))
      | Some ret \<Rightarrow>
          (case (if Raw args \<noteq> [] then unmarshal_into (Raw args) (Object ret) else Inr (Object ret)) of
             Inl e \<Rightarrow> Ret (Inl e)
           | Inr obj \<Rightarrow> override_config unmarshal_into pc
               (AList.update n (Some (ret\<lparr>Object := (if Object args \<noteq> None then Object args else obj)\<rparr>)) m)))"

fun deref_all :: "(string \<times> 'a option) list \<Rightarrow> (string \<times> 'a) list go" where
  "deref_all [] = Ret []"
| "deref_all ((n, None) # xs) = Panic NilDereference"
| "deref_all ((n, Some a) # xs) = go_bind (deref_all xs) (\<lambda>ys. Ret ((n, a) # ys))"

fun wrap_configs :: "plugin list \<Rightarrow> (string \<times> 'a) list \<Rightarrow> (string \<times> 'a) list" where
  "wrap_configs [] m = []"
| "wrap_configs (p # ps) m = (case map_of m (plName p) of None \<Rightarrow> wrap_configs ps m
     | Some a \<Rightarrow> (pluginName (plName p), a) # wrap_configs ps (AList.delete (plName p) m))"

definition NewPluginConfig :: "(string \<Rightarrow> 'o option \<Rightarrow> string + 'o option) \<Rightarrow> 'o config \<Rightarrow> (string \<times> 'o rawExtension) list \<Rightarrow>
    (string + (string \<times> 'o rawExtension) list) go" where
  "NewPluginConfig unmarshal_into cfg pc = (case default_profile cfg of Inl e \<Rightarrow> Ret (Inl e)
     | Inr p \<Rightarrow>
         go_bind (override_config unmarshal_into pc (foldl (\<lambda>m (n, a). AList.update n (Some a) m) [] (PluginConfig p))) (\<lambda>r.
           case r of Inl e \<Rightarrow> Ret (Inl e)
           | Inr m \<Rightarrow> go_bind (deref_all m) (\<lambda>ret.
               case defaultFilterScorePlugins cfg of Inl e \<Rightarrow> Ret (Inl (''get default score/filter plugins: '' @ e))
               | Inr ds \<Rightarrow> Ret (Inr (ret @ wrap_configs ds ret)))))"

text \<open>
  The registry of wrapped plugins: a factory per default plugin, the first entry of a name winning.
  \<open>inTree\<close> is the registry of the scheduler; a missing entry is a nil function, called when the
  factory runs.
\<close>

definition sim_factory :: "('c \<Rightarrow> string + ('s, 'w) anyPlugin) option \<Rightarrow> plugin \<Rightarrow> 'c \<Rightarrow> (string + ('s, 'w) simulatorPlugin) go" where
  "sim_factory r pl cfg = (case r of None \<Rightarrow> Panic NilDereference
     | Some mk \<Rightarrow> Ret (case mk cfg of Inl e \<Rightarrow> Inl (''create original plugin: '' @ e)
         | Inr p \<Rightarrow> Inr (newSimulatorPlugin p (case plWeight pl of None \<Rightarrow> 0 | Some w \<Rightarrow> w))))"

fun add_factories :: "(string \<Rightarrow> ('c \<Rightarrow> string + ('s, 'w) anyPlugin) option) \<Rightarrow> plugin list \<Rightarrow>
    (string \<times> ('c \<Rightarrow> (string + ('s, 'w) simulatorPlugin) go)) list \<Rightarrow> (string \<times> ('c \<Rightarrow> (string + ('s, 'w) simulatorPlugin) go)) list" where
  "add_factories inTree [] ret = ret"
| "add_factories inTree (pl # pls) ret =
     (if map_of ret (pluginName (plName pl)) \<noteq> None then add_factories inTree pls ret
      else add_factories inTree pls (AList.update (pluginName (plName pl)) (sim_factory (inTree (plName pl)) pl) ret))"

definition NewRegistry :: "(string \<Rightarrow> ('c \<Rightarrow> string + ('s, 'w) anyPlugin) option) \<Rightarrow> 'o config \<Rightarrow>
    string + store \<times> (string \<times> ('c \<Rightarrow> (string + ('s, 'w) simulatorPlugin) go)) list" where
  "NewRegistry inTree cfg = (case DefaultScorePlugins cfg of Inl e \<Rightarrow> Inl (''get default score plugins: '' @ e)
     | Inr ss \<Rightarrow> (case defaultFilterScorePlugins cfg of Inl e \<Rightarrow> Inl (''get default score/filter plugins: '' @ e)
         | Inr ds \<Rightarrow> Inr (NewStore (foldl (\<lambda>m p. AList.update (plName p) (case plWeight p of None \<Rightarrow> 0 | Some w \<Rightarrow> w) m) [] ss),
                          add_factories inTree ds [])))"

end
