(* ===== verification/Sim_Props.thy ===== *)
theory Sim_Props
  imports Sim_Plugin
begin

text \<open>
  Properties of the simulator: the wrapped plugins filter and score as the originals do, and what the
  store holds afterwards. A run with the wrappers has one more component, the store; \<open>agrees\<close> relates
  it to the run without.
\<close>

section \<open>Wrapped runs and original runs\<close>

definition same_effects :: "('a \<Rightarrow> 'b \<Rightarrow> bool) \<Rightarrow> 'a \<times> 's \<times> 'w \<Rightarrow> 'b \<times> 's \<times> 'w \<times> 't \<Rightarrow> bool" where
  "same_effects P x y = (P (fst x) (fst y) \<and> fst (snd y) = fst (snd x) \<and> fst (snd (snd y)) = snd (snd x))"

fun both :: "('a \<Rightarrow> 'b \<Rightarrow> bool) \<Rightarrow> 'e + 'a \<Rightarrow> 'f + 'b \<Rightarrow> bool" where
  "both P (Inl _) (Inl _) = True"
| "both P (Inr a) (Inr b) = P a b"
| "both P _ _ = False"

lemma both_Inl_iff: "both P (Inl e) r \<longleftrightarrow> (\<exists>e'. r = Inl e')" by (cases r) auto

lemma both_Inr_iff: "both P (Inr a) r \<longleftrightarrow> (\<exists>b. r = Inr b \<and> P a b)" by (cases r) auto

lemma same_effects_iff:
  "same_effects P (r, s, w) y \<longleftrightarrow> (\<exists>r' t. y = (r', s, w, t) \<and> P r r')"
  by (cases y) (auto simp: same_effects_def)

lemma same_effectsI: "x = (r, s, w) \<Longrightarrow> y = (r', s, w, t) \<Longrightarrow> P r r' \<Longrightarrow> same_effects P x y"
  by (simp add: same_effects_def)

lemmas sim_iffs = both_Inl_iff both_Inr_iff same_effects_iff

text \<open>The original and the wrapped form of a plugin that scores, and of one that filters.\<close>

definition orig_score :: "('s, 'w) anyPlugin \<times> int \<Rightarrow> ('s, 'w) scorePlugin" where
  "orig_score pw = the (asScore (fst pw))"

definition orig_filter :: "('s, 'w) anyPlugin \<times> int \<Rightarrow> ('s, 'w) filterPlugin" where
  "orig_filter pw = the (asFilter (fst pw))"

definition scores_as :: "('s, 'w) anyPlugin \<times> int \<Rightarrow> bool" where
  "scores_as pw = (case asScore (fst pw) of None \<Rightarrow> False | Some sp \<Rightarrow> spName sp = anyName (fst pw))"

definition filters_as :: "('s, 'w) anyPlugin \<times> int \<Rightarrow> bool" where
  "filters_as pw = (case asFilter (fst pw) of None \<Rightarrow> False | Some (n, f) \<Rightarrow> n = anyName (fst pw))"

definition wrapped_score :: "('s, 'w) anyPlugin \<times> int \<Rightarrow> ('s, 'w \<times> store) scorePlugin" where
  "wrapped_score = (\<lambda>(p, w). sim_score_plugin (newSimulatorPlugin p w))"

definition wrapped_filter :: "('s, 'w) anyPlugin \<times> int \<Rightarrow> ('s, 'w \<times> store) filterPlugin" where
  "wrapped_filter = (\<lambda>(p, w). sim_filter_plugin (newSimulatorPlugin p w))"

primrec plugin_names :: "(('s, 'w) anyPlugin \<times> int) list \<Rightarrow> string list" where
  "plugin_names [] = []"
| "plugin_names (pw # pws) = anyName (fst pw) # plugin_names pws"

lemma scores_asE:
  assumes "scores_as pw" obtains sp where "asScore (fst pw) = Some sp" "spName sp = anyName (fst pw)" "orig_score pw = sp"
  using assms by (auto simp: scores_as_def orig_score_def split: option.splits)

lemma wrapped_score_sel [simp]:
  "spName (wrapped_score pw) = pluginName (anyName (fst pw))"
  "spScore (wrapped_score pw) = sim_Score (asScore (fst pw))"
  "spExtensions (wrapped_score pw) = sim_ScoreExtensions (asScore (fst pw))"
  by (cases pw; simp add: wrapped_score_def sim_score_plugin_def newSimulatorPlugin_def)+

lemma wrapped_score_sim:
  assumes "scores_as pw"
  shows "same_effects (=) (spScore (orig_score pw) pod nn (s, w)) (spScore (wrapped_score pw) pod nn (s, w, st))"
  using assms by (auto simp: sim_Score_def case_prod_beta same_effects_def elim!: scores_asE)

lemma wrapped_extensions_sim:
  assumes "scores_as pw"
  shows "same_effects (=)
     (case spExtensions (orig_score pw) of None \<Rightarrow> ((sc, None), s, w) | Some f \<Rightarrow> f pod sc (s, w))
     (case spExtensions (wrapped_score pw) of None \<Rightarrow> ((sc, None), s, w, st) | Some f \<Rightarrow> f pod sc (s, w, st))"
  using assms by (auto simp: sim_ScoreExtensions_def case_prod_beta same_effects_def split: option.splits elim!: scores_asE)

lemma AsStatus_fails [simp]: "IsSuccess (AsStatus e) = False"
  by (simp add: AsStatus_def IsSuccess_def Code_def)

section \<open>Scoring\<close>

lemma score_node_sim:
  "list_all scores_as pws \<Longrightarrow>
   same_effects (both (=)) (score_node (map orig_score pws) pod nn (s, w)) (score_node (map wrapped_score pws) pod nn (s, w, st))"
proof (induction pws arbitrary: s w st)
  case (Cons pw pws)
  then have ok: "scores_as pw" and IH: "\<And>s w st. same_effects (both (=))
      (score_node (map orig_score pws) pod nn (s, w)) (score_node (map wrapped_score pws) pod nn (s, w, st))" by simp_all
  obtain sc status s1 w1 where o: "spScore (orig_score pw) pod nn (s, w) = ((sc, status), s1, w1)" by (metis prod.exhaust)
  then obtain st1 where o': "spScore (wrapped_score pw) pod nn (s, w, st) = ((sc, status), s1, w1, st1)"
    using wrapped_score_sim [OF ok, of pod nn s w st] by (auto simp: sim_iffs)
  obtain r s2 w2 where r: "score_node (map orig_score pws) pod nn (s1, w1) = (r, s2, w2)" by (metis prod.exhaust)
  then show ?case using IH [of s1 w1 st1] o o' by (cases r) (auto simp: sim_iffs simp del: wrapped_score_sel(2))
qed (simp add: same_effects_def)

lemma score_nodes_sim:
  "list_all scores_as pws \<Longrightarrow>
   same_effects (both (=)) (score_nodes (map orig_score pws) pod nodes (s, w)) (score_nodes (map wrapped_score pws) pod nodes (s, w, st))"
proof (induction nodes arbitrary: s w st)
  case (Cons nn nodes)
  obtain r s1 w1 where r: "score_node (map orig_score pws) pod nn (s, w) = (r, s1, w1)" by (metis prod.exhaust)
  then obtain r' st1 where r': "score_node (map wrapped_score pws) pod nn (s, w, st) = (r', s1, w1, st1)" "both (=) r r'"
    using score_node_sim [OF Cons.prems, of pod nn s w st] by (auto simp: sim_iffs)
  obtain q s2 w2 where q: "score_nodes (map orig_score pws) pod nodes (s1, w1) = (q, s2, w2)" by (metis prod.exhaust)
  then show ?case using Cons.IH [OF Cons.prems, of s1 w1 st1] r r' by (cases r; cases q) (auto simp: sim_iffs)
qed (simp add: same_effects_def)

lemma normalize_all_sim:
  "list_all (scores_as \<circ> fst) xs \<Longrightarrow>
   same_effects (both (\<lambda>a b. \<exists>ys. map fst ys = map fst xs \<and> a = map (apfst orig_score) ys \<and> b = map (apfst wrapped_score) ys))
     (normalize_all pod (map (apfst orig_score) xs) (s, w)) (normalize_all pod (map (apfst wrapped_score) xs) (s, w, st))"
proof (induction xs arbitrary: s w st)
  case (Cons x xs)
  obtain pw sc where x: "x = (pw, sc)" by (cases x)
  have ok: "scores_as pw" and oks: "list_all (scores_as \<circ> fst) xs" using Cons.prems by (auto simp: x list_all_iff)
  let ?o = "\<lambda>s w. case spExtensions (orig_score pw) of None \<Rightarrow> ((sc, None), s, w) | Some f \<Rightarrow> f pod sc (s, w)"
  obtain sc1 status s1 w1 where o: "?o s w = ((sc1, status), s1, w1)" by (metis prod.exhaust)
  then obtain st1 where o': "(case spExtensions (wrapped_score pw) of None \<Rightarrow> ((sc, None), s, w, st) | Some f \<Rightarrow> f pod sc (s, w, st)) = ((sc1, status), s1, w1, st1)"
    using wrapped_extensions_sim [OF ok, of sc s w pod st] by (auto simp: sim_iffs)
  obtain r s2 w2 where r: "normalize_all pod (map (apfst orig_score) xs) (s1, w1) = (r, s2, w2)" by (metis prod.exhaust)
  show ?case
  proof (cases "IsSuccess status")
    case False
    then show ?thesis using o o' by (simp add: x sim_iffs del: wrapped_score_sel)
  next
    case True
    show ?thesis
    proof (cases r)
      case (Inl e)
      then show ?thesis using Cons.IH [OF oks, of s1 w1 st1] o o' r True by (auto simp: x sim_iffs simp del: wrapped_score_sel)
    next
      case (Inr cols)
      obtain ys st2 where ys: "map fst ys = map fst xs" "cols = map (apfst orig_score) ys"
          "normalize_all pod (map (apfst wrapped_score) xs) (s1, w1, st1) = (Inr (map (apfst wrapped_score) ys), s2, w2, st2)"
        using Cons.IH [OF oks, of s1 w1 st1] unfolding r Inr by (auto simp: sim_iffs)
      have o1: "normalize_all pod (map (apfst orig_score) (x # xs)) (s, w) = (Inr (map (apfst orig_score) ((pw, sc1) # ys)), s2, w2)"
        using o r True Inr ys(2) by (simp add: x)
      have o2: "normalize_all pod (map (apfst wrapped_score) (x # xs)) (s, w, st) = (Inr (map (apfst wrapped_score) ((pw, sc1) # ys)), s2, w2, st2)"
        using o' ys(3) True by (simp add: x del: wrapped_score_sel)
      have "map fst ((pw, sc1) # ys) = map fst (x # xs)" using ys(1) by (simp add: x)
      then show ?thesis by (intro same_effectsI [OF o1 o2]) (unfold both.simps, blast)
    qed
  qed
qed (simp add: same_effects_def)

lemma apply_weight_rename:
  "both (\<lambda>a b. b = apfst g a) (apply_weight wt (n, sc)) (apply_weight wt (g n, sc))"
  by (simp add: apply_weight_def split: option.splits)

lemma weigh_all_rename:
  assumes "\<And>n. wt' (g n) = wt n"
  shows "both (\<lambda>a b. b = map (apfst g) a) (weigh_all wt cs) (weigh_all wt' (map (apfst g) cs))"
proof (induction cs)
  case (Cons c cs)
  obtain n sc where c: "c = (n, sc)" by (cases c)
  obtain r where r: "weigh_all wt cs = r" by blast
  obtain q where q: "apply_weight (wt n) (n, sc) = q" by blast
  show ?case using Cons.IH apply_weight_rename [of g "wt n" n sc] assms
    by (cases r; cases q) (auto simp: c r q sim_iffs)
qed simp

lemma column_pairs:
  "map2 (\<lambda>pl j. (pl, F j)) (map g xs) js = map (apfst g) (map2 (\<lambda>x j. (x, F j)) xs js)"
  by (induction xs arbitrary: js) (auto simp: zip_Cons split: list.splits, case_tac js, auto)

lemma RunScorePlugins_sim:
  assumes "list_all scores_as pws" "\<And>n. wt' (pluginName n) = wt n"
  shows "same_effects (\<lambda>a b. fst b = map (apfst pluginName) (fst a) \<and> IsSuccess (snd b) = IsSuccess (snd a))
     (RunScorePlugins (map orig_score pws) wt pod nodes (s, w)) (RunScorePlugins (map wrapped_score pws) wt' pod nodes (s, w, st))"
proof -
  obtain r s1 w1 where r: "score_nodes (map orig_score pws) pod nodes (s, w) = (r, s1, w1)" by (metis prod.exhaust)
  obtain r' st1 where r': "score_nodes (map wrapped_score pws) pod nodes (s, w, st) = (r', s1, w1, st1)" "both (=) r r'"
    using score_nodes_sim [OF assms(1), of pod nodes s w st] r by (auto simp: sim_iffs)
  show ?thesis
  proof (cases r)
    case (Inl e)
    then show ?thesis using r r' by (auto simp: RunScorePlugins_def sim_iffs)
  next
    case (Inr rows)
    have r'': "r' = Inr rows" using r'(2) Inr by (simp add: sim_iffs)
    let ?xs = "map2 (\<lambda>pw j. (pw, column nodes rows j)) pws [0..<length pws]"
    have ok: "list_all (scores_as \<circ> fst) ?xs" using assms(1) by (auto simp: list_all_iff dest: set_zip_leftD)
    obtain q s2 w2 where q: "normalize_all pod (map (apfst orig_score) ?xs) (s1, w1) = (q, s2, w2)" by (metis prod.exhaust)
    show ?thesis
    proof (cases q)
      case (Inl e)
      then show ?thesis using normalize_all_sim [OF ok, of pod s1 w1 st1] q r r' r'' Inr
        by (auto simp: RunScorePlugins_def column_pairs sim_iffs simp del: map_map)
    next
      case (Inr cols)
      obtain ys st2 where ys: "map fst ys = map fst ?xs" "cols = map (apfst orig_score) ys"
          "normalize_all pod (map (apfst wrapped_score) ?xs) (s1, w1, st1) = (Inr (map (apfst wrapped_score) ys), s2, w2, st2)"
        using normalize_all_sim [OF ok, of pod s1 w1 st1] unfolding q Inr by (auto simp: sim_iffs simp del: map_map)
      let ?cs = "map (\<lambda>(pl, sc). (spName pl, sc)) cols"
      have sub: "set (map fst ys) \<subseteq> set pws" unfolding ys(1) by (auto dest: set_zip_leftD)
      have nm: "map (\<lambda>(pl, sc). (spName pl, sc)) (map (apfst wrapped_score) ys) = map (apfst pluginName) ?cs"
        using sub assms(1) by (auto simp: ys(2) list_all_iff elim!: scores_asE dest!: bspec)
      show ?thesis using weigh_all_rename [of wt' pluginName wt ?cs, OF assms(2)]
        by (cases "weigh_all wt ?cs")
           (auto simp: RunScorePlugins_def column_pairs r r' r'' \<open>r = Inr rows\<close> q Inr ys(3) nm sim_iffs same_effects_def simp del: map_map)
    qed
  qed
qed

section \<open>Filtering\<close>

lemma pluginName_inject [simp]: "pluginName a = pluginName b \<longleftrightarrow> a = b"
  by (simp add: pluginName_def)

definition same_verdict :: "string \<times> statusp \<Rightarrow> string \<times> statusp \<Rightarrow> bool" where
  "same_verdict a b \<longleftrightarrow> fst b = pluginName (fst a) \<and> Code (snd b) = Code (snd a)"

lemma same_verdict_update:
  "list_all2 same_verdict xs ys \<Longrightarrow> Code st' = Code st \<Longrightarrow>
   list_all2 same_verdict (AList.update n st xs) (AList.update (pluginName n) st' ys)"
proof (induction rule: list_all2_induct)
  case (Cons x xs y ys)
  then show ?case by (cases x; cases y) (auto simp: same_verdict_def [of "(_, _)" "(_, _)"])
qed (simp add: same_verdict_def)

lemma filters_asE:
  assumes "filters_as pw" obtains f where "orig_filter pw = (anyName (fst pw), f)" "asFilter (fst pw) = Some (anyName (fst pw), f)"
  using assms by (auto simp: filters_as_def orig_filter_def split: option.splits)

lemma wrapped_filter_eq: "wrapped_filter pw = (pluginName (anyName (fst pw)), sim_Filter (asFilter (fst pw)))"
  by (cases pw) (simp add: wrapped_filter_def sim_filter_plugin_def newSimulatorPlugin_def)

lemma filter_loop_sim:
  "list_all filters_as pws \<Longrightarrow> list_all2 same_verdict m m' \<Longrightarrow>
   same_effects (list_all2 same_verdict) (filter_loop runAll (map orig_filter pws) pod ni m (s, w))
     (filter_loop runAll (map wrapped_filter pws) pod ni m' (s, w, st))"
proof (induction pws arbitrary: m m' s w st)
  case (Cons pw pws)
  obtain f where f: "orig_filter pw = (anyName (fst pw), f)" "asFilter (fst pw) = Some (anyName (fst pw), f)"
    using Cons.prems(1) by (auto elim: filters_asE)
  obtain status s1 w1 where o: "f pod ni (s, w) = (status, s1, w1)" by (metis prod.exhaust)
  obtain st1 where o': "sim_Filter (asFilter (fst pw)) pod ni (s, w, st) = (status, s1, w1, st1)"
    by (cases "IsSuccess status") (auto simp: sim_Filter_def f(2) o)
  have ok: "list_all filters_as pws" using Cons.prems(1) by simp
  note IH = Cons.IH [OF ok]
  consider "IsSuccess status" | "\<not> IsSuccess status" "\<not> IsUnschedulable status" | "\<not> IsSuccess status" "IsUnschedulable status" by blast
  then show ?case
  proof cases
    case 1
    then show ?thesis using IH [OF Cons.prems(2), of s1 w1 st1] by (simp add: f(1) wrapped_filter_eq o o')
  next
    case 2
    then show ?thesis by (simp add: f(1) wrapped_filter_eq o o' same_effects_iff same_verdict_def Code_def AsStatus_def SetFailedPlugin_def)
  next
    case 3
    note up = same_verdict_update [OF Cons.prems(2), of "SetFailedPlugin (pluginName (anyName (fst pw))) status"
        "SetFailedPlugin (anyName (fst pw)) status" "anyName (fst pw)", simplified]
    show ?thesis using 3 up IH [OF up, of s1 w1 st1]
      by (cases runAll) (simp_all add: f(1) wrapped_filter_eq [of pw] o o' Let_def same_effects_iff)
  qed
qed (simp add: same_effects_def)

section \<open>What the store records\<close>

lemma lookup_put [simp]:
  "lookup_table (put_table nn pl v t) nn' pl' = (if nn' = nn \<and> pl' = pl then Some v else lookup_table t nn' pl')"
  by (auto simp: lookup_table_def put_table_def update_conv' split: option.splits)

lemma result_at_set [simp]: "result_at (set_result k r s) k' = (if k' = k then r else result_at s k')"
  by (simp add: result_at_def set_result_def update_conv')

lemma storeWeight_set [simp]: "storeWeight (set_result k r s) = storeWeight s"
  by (simp add: set_result_def)

definition recorded :: "store \<Rightarrow> string \<Rightarrow> string \<Rightarrow> string \<Rightarrow> string option \<times> string option" where
  "recorded st k nn pl = (lookup_table (score_of (result_at st k)) nn pl, lookup_table (finalscore (result_at st k)) nn pl)"

definition entry :: "store \<Rightarrow> string \<Rightarrow> int \<Rightarrow> string option \<times> string option" where
  "entry st pl sc = (Some (itoa sc), Some (itoa (applyWeightOnScore st pl sc)))"

definition pod_key :: "kpod \<Rightarrow> string" where
  "pod_key pod = newKey (kNamespace pod) (kName pod)"

lemma AddScoreResult_recorded:
  "recorded (AddScoreResult (kNamespace pod) (kName pod) nn pl sc st) (pod_key pod) nn' pl' =
     (if nn' = nn \<and> pl' = pl then entry st pl sc else recorded st (pod_key pod) nn' pl')"
  by (auto simp: AddScoreResult_def AddNormalizedScoreResult_def Let_def recorded_def entry_def pod_key_def applyWeightOnScore_def)

lemma AddScoreResult_weight [simp]: "storeWeight (AddScoreResult ns pn nn pl sc st) = storeWeight st"
  by (simp add: AddScoreResult_def AddNormalizedScoreResult_def Let_def)

lemma entry_weight: "storeWeight st' = storeWeight st \<Longrightarrow> entry st' pl sc = entry st pl sc"
  by (simp add: entry_def applyWeightOnScore_def)

text \<open>One node: the plugins' scores, in the order of the plugins.\<close>

lemma score_node_recorded:
  assumes "list_all scores_as pws" "distinct (plugin_names pws)"
    "score_node (map wrapped_score pws) pod nn (s, w, st) = (Inr row, s1, w1, st1)"
  shows "storeWeight st1 = storeWeight st \<and> length row = length pws \<and>
     recorded st1 (pod_key pod) nn' pl = (case map_of (zip (plugin_names pws) row) pl of
       Some sc \<Rightarrow> if nn' = nn then entry st pl sc else recorded st (pod_key pod) nn' pl | None \<Rightarrow> recorded st (pod_key pod) nn' pl)"
  using assms
proof (induction pws arbitrary: s w st row)
  case (Cons pw pws)
  obtain sp where sp: "asScore (fst pw) = Some sp" "spName sp = anyName (fst pw)"
    using Cons.prems(1) by (auto elim: scores_asE)
  obtain sc status s2 w2 where o: "spScore sp pod nn (s, w) = ((sc, status), s2, w2)" by (metis prod.exhaust)
  have succ: "IsSuccess status" using Cons.prems(3) by (auto simp: sim_Score_def sp o split: if_splits)
  let ?st = "AddScoreResult (kNamespace pod) (kName pod) nn (anyName (fst pw)) sc st"
  obtain row' where row: "row = sc # row'" "score_node (map wrapped_score pws) pod nn (s2, w2, ?st) = (Inr row', s1, w1, st1)"
    using Cons.prems(3) succ by (auto simp: sim_Score_def sp o split: prod.splits sum.splits)
  have new: "map_of (zip (plugin_names pws) row') (anyName (fst pw)) = None"
    using Cons.prems(2) by (auto simp: map_of_eq_None_iff dest!: set_zip_leftD)
  have IH: "storeWeight st1 = storeWeight ?st \<and> length row' = length pws \<and>
     recorded st1 (pod_key pod) nn' pl = (case map_of (zip (plugin_names pws) row') pl of
       Some sc \<Rightarrow> if nn' = nn then entry ?st pl sc else recorded ?st (pod_key pod) nn' pl | None \<Rightarrow> recorded ?st (pod_key pod) nn' pl)"
    using Cons.prems by (intro Cons.IH [OF _ _ row(2)]) auto
  show ?case using IH new by (simp add: row(1) AddScoreResult_recorded entry_weight [of ?st st] split: option.split)
qed auto

lemma score_nodes_recorded:
  assumes "list_all scores_as pws" "distinct (plugin_names pws)" "distinct nodes"
    "score_nodes (map wrapped_score pws) pod nodes (s, w, st) = (Inr rows, s1, w1, st1)"
  shows "storeWeight st1 = storeWeight st \<and> length rows = length nodes \<and> list_all (\<lambda>row. length row = length pws) rows \<and>
     recorded st1 (pod_key pod) nn pl = (case map_of (zip nodes rows) nn of None \<Rightarrow> recorded st (pod_key pod) nn pl
       | Some row \<Rightarrow> (case map_of (zip (plugin_names pws) row) pl of None \<Rightarrow> recorded st (pod_key pod) nn pl | Some sc \<Rightarrow> entry st pl sc))"
  using assms
proof (induction nodes arbitrary: s w st rows)
  case (Cons n nodes)
  obtain row s2 w2 st2 where r: "score_node (map wrapped_score pws) pod n (s, w, st) = (Inr row, s2, w2, st2)"
    using Cons.prems(4) by (auto split: prod.splits sum.splits)
  obtain rows' where rows: "rows = row # rows'" "score_nodes (map wrapped_score pws) pod nodes (s2, w2, st2) = (Inr rows', s1, w1, st1)"
    using Cons.prems(4) by (auto simp: r split: prod.splits sum.splits)
  note one = score_node_recorded [OF Cons.prems(1,2) r, of nn pl]
  have new: "map_of (zip nodes rows') n = None" using Cons.prems(3) by (auto simp: map_of_eq_None_iff dest!: set_zip_leftD)
  have IH: "storeWeight st1 = storeWeight st2 \<and> length rows' = length nodes \<and> list_all (\<lambda>row. length row = length pws) rows' \<and>
     recorded st1 (pod_key pod) nn pl = (case map_of (zip nodes rows') nn of None \<Rightarrow> recorded st2 (pod_key pod) nn pl
       | Some row \<Rightarrow> (case map_of (zip (plugin_names pws) row) pl of None \<Rightarrow> recorded st2 (pod_key pod) nn pl | Some sc \<Rightarrow> entry st2 pl sc))"
    using Cons.prems by (intro Cons.IH [OF _ _ _ rows(2)]) auto
  have ent: "entry st2 pl sc = entry st pl sc" for sc using one by (intro entry_weight) blast
  show ?case
  proof (cases "nn = n")
    case True
    then show ?thesis using IH one new by (simp add: rows(1) split: option.split)
  next
    case False
    have "recorded st2 (pod_key pod) nn pl = recorded st (pod_key pod) nn pl" using one False by (simp split: option.splits)
    then show ?thesis using IH one False by (simp add: rows(1) ent cong: option.case_cong)
  qed
qed auto

lemma nth_pairs: "length xs = length ys \<Longrightarrow> i < length xs \<Longrightarrow> distinct xs \<Longrightarrow> map_of (zip xs ys) (xs ! i) = Some (ys ! i)"
  by (simp add: map_of_zip_nth)

lemma length_plugin_names [simp]: "length (plugin_names pws) = length pws" by (induction pws) auto

lemma plugin_names_nth: "j < length pws \<Longrightarrow> plugin_names pws ! j = anyName (fst (pws ! j))"
  by (induction pws arbitrary: j) (auto simp: nth_Cons split: nat.split)

text \<open>Normalising with the original's extensions leaves the store alone.\<close>

lemma normalize_all_store:
  "list_all (scores_as \<circ> fst) xs \<Longrightarrow> normalize_all pod (map (apfst wrapped_score) xs) (s, w, st) = (r, s1, w1, st1) \<Longrightarrow> st1 = st"
proof (induction xs arbitrary: s w r s1 w1 st1)
  case (Cons x xs)
  obtain pw sc where x: "x = (pw, sc)" by (cases x)
  obtain q s2 w2 where q: "(case spExtensions (wrapped_score pw) of None \<Rightarrow> ((sc, None), s, w, st) | Some f \<Rightarrow> f pod sc (s, w, st)) = (q, s2, w2, st)"
  proof (cases "asScore (fst pw)")
    case (Some a)
    then show ?thesis using that by (cases "spExtensions a") (auto simp: sim_ScoreExtensions_def case_prod_beta)
  qed (use that in \<open>auto simp: sim_ScoreExtensions_def\<close>)
  obtain q1 s3 w3 st3 where n: "normalize_all pod (map (apfst wrapped_score) xs) (s2, w2, st) = (q1, s3, w3, st3)" by (metis prod.exhaust)
  have "st3 = st" using Cons.IH [OF _ n] Cons.prems(1) by (auto simp: list_all_iff)
  then show ?case using Cons.prems(2) q n by (auto simp: x case_prod_beta simp del: wrapped_score_sel split: if_splits sum.splits)
qed simp

lemma RunScorePlugins_store:
  assumes "list_all scores_as pws" "RunScorePlugins (map wrapped_score pws) wt pod nodes (s, w, st) = (r, s2, w2, st2)"
    "score_nodes (map wrapped_score pws) pod nodes (s, w, st) = (Inr rows, s1, w1, st1)"
  shows "st2 = st1"
proof -
  let ?xs = "map2 (\<lambda>pw j. (pw, column nodes rows j)) pws [0..<length pws]"
  have ok: "list_all (scores_as \<circ> fst) ?xs" using assms(1) by (auto simp: list_all_iff dest: set_zip_leftD)
  obtain q s3 w3 st3 where q: "normalize_all pod (map (apfst wrapped_score) ?xs) (s1, w1, st1) = (q, s3, w3, st3)" by (metis prod.exhaust)
  then have "st3 = st1" by (rule normalize_all_store [OF ok])
  then show ?thesis using assms(2) q
    by (auto simp: RunScorePlugins_def assms(3) column_pairs simp del: map_map split: sum.splits)
qed

section \<open>Properties\<close>

text \<open>
  C20: Wrapping the plugins does not change the schedule: filters of wrapped plugins give the same
  codes under the wrapped names, scores of wrapped plugins give the same weighted scores and the same
  success or failure, and both leave the cycle state and the rest of the world as the originals do,
  whatever the store holds.
\<close>

theorem simulator_transparent:
  assumes "list_all filters_as fs" "list_all scores_as ss" "\<And>n. wt' (pluginName n) = wt n"
  shows "same_effects (list_all2 same_verdict)
       (RunFilterPlugins runAll (map orig_filter fs) pod ni (s, w))
       (RunFilterPlugins runAll (map wrapped_filter fs) pod ni (s, w, st)) \<and>
     same_effects (\<lambda>(m, status) (m', status'). m' = map (apfst pluginName) m \<and> IsSuccess status' = IsSuccess status)
       (RunScorePlugins (map orig_score ss) wt pod nodes (s, w))
       (RunScorePlugins (map wrapped_score ss) wt' pod nodes (s, w, st))"
  using filter_loop_sim [OF assms(1), of "[]" "[]" runAll pod ni s w st]
    RunScorePlugins_sim [OF assms(2), of wt' wt pod nodes s w st, OF assms(3)]
  by (simp add: RunFilterPlugins_def same_effects_def case_prod_beta)

definition ex_any :: "(unit, unit) anyPlugin" where
  "ex_any = \<lparr>anyName = ''P'', asFilter = Some (''P'', \<lambda>pod ni sw. (NewStatus Unschedulable [''full''], sw)),
     asScore = Some \<lparr>spName = ''P'', spScore = (\<lambda>pod nn sw. ((int (length nn), None), sw)),
       spExtensions = Some (\<lambda>pod scs sw. ((map (\<lambda>x. x\<lparr>nsScore := 100\<rparr>) scs, None), sw))\<rparr>\<rparr>"

definition sim_pod :: kpod where
  "sim_pod = \<lparr>kName = ''p'', kNamespace = ''d'', UID = ''u'', ResourceVersion = [], specNodeName = [], Containers = [], InitContainers = [], Overhead = None,
     Affinity = None, claims = [], Priority = None, NominatedNodeName = [], SchedulerName = [], deleting = False, Annotations = [], Tolerations = [], podLabels = [], StartTime = None, PreemptionPolicy = None\<rparr>"

lemma ex_any_as: "list_all filters_as [(ex_any, 2)]" "list_all scores_as [(ex_any, 2)]"
  by (simp_all add: filters_as_def scores_as_def ex_any_def)

theorem simulator_transparent_witness:
  "same_effects (\<lambda>(m, status) (m', status'). m' = map (apfst pluginName) m \<and> IsSuccess status' = IsSuccess status)
       (RunScorePlugins (map orig_score [(ex_any, 2)]) (\<lambda>_. 2) sim_pod [''n1'', ''node2''] ((), ()))
       (RunScorePlugins (map wrapped_score [(ex_any, 2)]) (\<lambda>_. 2) sim_pod [''n1'', ''node2''] ((), (), NewStore [(''P'', 2)])) \<and>
   fst (fst (RunScorePlugins (map orig_score [(ex_any, 2)]) (\<lambda>_. 2) sim_pod [''n1'', ''node2''] ((), ()))) =
     [(''P'', [\<lparr>nsName = ''n1'', nsScore = 200\<rparr>, \<lparr>nsName = ''node2'', nsScore = 200\<rparr>])]"
proof
  show "same_effects (\<lambda>(m, status) (m', status'). m' = map (apfst pluginName) m \<and> IsSuccess status' = IsSuccess status)
       (RunScorePlugins (map orig_score [(ex_any, 2)]) (\<lambda>_. 2) sim_pod [''n1'', ''node2''] ((), ()))
       (RunScorePlugins (map wrapped_score [(ex_any, 2)]) (\<lambda>_. 2) sim_pod [''n1'', ''node2''] ((), (), NewStore [(''P'', 2)]))"
    using simulator_transparent [OF ex_any_as, of "\<lambda>_. 2" "\<lambda>_. 2" False sim_pod undefined "()" "()" "NewStore [(''P'', 2)]" "[''n1'', ''node2'']"] by blast
qed code_simp

text \<open>
  After a scoring run the store has, for every node and plugin, the raw score the plugin gave and,
  as the final score, that raw score times the configured weight: the normalised score never reaches
  the store, because the framework normalises through the original's extensions.
\<close>

theorem recorded_final_is_raw:
  assumes "list_all scores_as pws" "distinct (plugin_names pws)" "distinct nodes"
    "score_nodes (map orig_score pws) pod nodes (s, w) = (Inr rows, s1, w1)"
    "i < length nodes" "j < length pws"
    "RunScorePlugins (map wrapped_score pws) wt pod nodes (s, w, st) = (r, s2, w2, st2)"
  shows "recorded st2 (pod_key pod) (nodes ! i) (anyName (fst (pws ! j))) =
     (Some (itoa (rows ! i ! j)), Some (itoa (applyWeightOnScore st (anyName (fst (pws ! j))) (rows ! i ! j))))"
proof -
  obtain st1 where s: "score_nodes (map wrapped_score pws) pod nodes (s, w, st) = (Inr rows, s1, w1, st1)"
    using score_nodes_sim [OF assms(1), of pod nodes s w st] by (auto simp: assms(4) sim_iffs)
  have eq: "st2 = st1" by (rule RunScorePlugins_store [OF assms(1,7) s])
  note rec = score_nodes_recorded [OF assms(1-3) s, of "nodes ! i" "anyName (fst (pws ! j))"]
  have row: "map_of (zip nodes rows) (nodes ! i) = Some (rows ! i)" using rec assms(3,5) by (intro nth_pairs) auto
  have len: "length (rows ! i) = length pws" using rec assms(5) by (auto simp: list_all_length)
  have "map_of (zip (plugin_names pws) (rows ! i)) (anyName (fst (pws ! j))) = Some (rows ! i ! j)"
    using nth_pairs [of "plugin_names pws" "rows ! i" j] assms(2,6) len by (simp add: plugin_names_nth)
  then show ?thesis using rec by (simp add: eq row entry_def)
qed

theorem recorded_final_is_raw_witness:
  "\<exists>r s2 w2 st2. RunScorePlugins (map wrapped_score [(ex_any, 2)]) (\<lambda>_. 2) sim_pod [''n1'', ''node2''] ((), (), NewStore [(''P'', 2)]) = (r, s2, w2, st2) \<and>
     recorded st2 (pod_key sim_pod) ''node2'' ''P'' = (Some (itoa 5), Some (itoa 10)) \<and>
     fst r = [(''PForSimulator'', [\<lparr>nsName = ''n1'', nsScore = 200\<rparr>, \<lparr>nsName = ''node2'', nsScore = 200\<rparr>])]"
proof -
  obtain r s2 w2 st2 where r: "RunScorePlugins (map wrapped_score [(ex_any, 2)]) (\<lambda>_. 2) sim_pod [''n1'', ''node2''] ((), (), NewStore [(''P'', 2)]) = (r, s2, w2, st2)"
    by (metis prod.exhaust)
  have s: "score_nodes (map orig_score [(ex_any, 2)]) sim_pod [''n1'', ''node2''] ((), ()) = (Inr [[2], [5]], (), ())" by code_simp
  have f: "fst (fst (RunScorePlugins (map wrapped_score [(ex_any, 2)]) (\<lambda>_. 2) sim_pod [''n1'', ''node2''] ((), (), NewStore [(''P'', 2)]))) =
      [(''PForSimulator'', [\<lparr>nsName = ''n1'', nsScore = 200\<rparr>, \<lparr>nsName = ''node2'', nsScore = 200\<rparr>])]" by code_simp
  have d: "distinct (plugin_names [(ex_any, 2)])" "distinct [''n1'', ''node2'']" by simp_all
  have w: "applyWeightOnScore (NewStore [(''P'', 2)]) ''P'' 5 = 10" by code_simp
  have "anyName ex_any = ''P''" by (simp add: ex_any_def)
  then show ?thesis using recorded_final_is_raw [OF ex_any_as(2) d s _ _ r, of 1 0] r f by (simp add: w)
qed

end
