(* ===== verification/Heap.thy ===== *)
theory Heap
  imports K4_Prelude "HOL-Library.AList"
begin

text \<open>
  The heap of the scheduling queue (\<open>pkg/scheduler/internal/heap/heap.go\<close>) over Go's
  \<open>container/heap\<close>: an array of keys in heap order beside a map from keys to objects and their
  positions in the array. The functions of \<open>data\<close> panic where the code does, on an index out of range
  or a missing entry. Metrics are left out.
\<close>

section \<open>Data\<close>

record 'a heapItem =
  obj :: 'a
  item_index :: nat

record 'a data =
  items :: "(string \<times> 'a heapItem) list"
  queue :: "string list"

section \<open>The interface of container/heap\<close>

text \<open>The guards compare with \<open>>\<close>, so that an index equal to the length reaches the array.\<close>

definition Less :: "('a \<Rightarrow> 'a \<Rightarrow> bool) \<Rightarrow> 'a data \<Rightarrow> nat \<Rightarrow> nat \<Rightarrow> bool go" where
  "Less lessFunc h i j =
     (if i > length (queue h) \<or> j > length (queue h) then Ret False
      else if i \<ge> length (queue h) then Panic IndexOutOfRange
      else case map_of (items h) (queue h ! i) of None \<Rightarrow> Ret False
        | Some itemi \<Rightarrow> (if j \<ge> length (queue h) then Panic IndexOutOfRange
            else case map_of (items h) (queue h ! j) of None \<Rightarrow> Ret False
              | Some itemj \<Rightarrow> Ret (lessFunc (obj itemi) (obj itemj))))"

definition set_index :: "string \<Rightarrow> nat \<Rightarrow> 'a data \<Rightarrow> 'a data go" where
  "set_index k i h = (case map_of (items h) k of None \<Rightarrow> Panic NilDereference
     | Some it \<Rightarrow> Ret (h\<lparr>items := AList.update k (it\<lparr>item_index := i\<rparr>) (items h)\<rparr>))"

definition Swap :: "nat \<Rightarrow> nat \<Rightarrow> 'a data \<Rightarrow> 'a data go" where
  "Swap i j h =
     (if i \<ge> length (queue h) \<or> j \<ge> length (queue h) then Panic IndexOutOfRange
      else let q = (queue h)[i := queue h ! j, j := queue h ! i]
           in go_bind (set_index (q ! i) i (h\<lparr>queue := q\<rparr>)) (set_index (q ! j) j))"

definition Push :: "string \<Rightarrow> 'a \<Rightarrow> 'a data \<Rightarrow> 'a data" where
  "Push k x h = h\<lparr>items := AList.update k \<lparr>obj = x, item_index = length (queue h)\<rparr> (items h), queue := queue h @ [k]\<rparr>"

definition Pop_data :: "'a data \<Rightarrow> ('a option \<times> 'a data) go" where
  "Pop_data h = (if queue h = [] then Panic IndexOutOfRange
     else let k = last (queue h); h1 = h\<lparr>queue := butlast (queue h)\<rparr>
          in case map_of (items h1) k of None \<Rightarrow> Ret (None, h1)
             | Some it \<Rightarrow> Ret (Some (obj it), h1\<lparr>items := AList.delete k (items h1)\<rparr>))"

definition Peek :: "'a data \<Rightarrow> 'a option go" where
  "Peek h = (if queue h \<noteq> [] then (case map_of (items h) (queue h ! 0) of None \<Rightarrow> Panic NilDereference | Some it \<Rightarrow> Ret (Some (obj it)))
     else Ret None)"

section \<open>container/heap\<close>

text \<open>The parent of the root is the root itself, since Go's division truncates \<open>(0-1)/2\<close> to 0.\<close>

function up :: "('a \<Rightarrow> 'a \<Rightarrow> bool) \<Rightarrow> nat \<Rightarrow> 'a data \<Rightarrow> 'a data go" where
  "up lessFunc j h = (let i = (j - 1) div 2 in
     if i = j then Ret h
     else go_bind (Less lessFunc h j i) (\<lambda>b. if \<not> b then Ret h else go_bind (Swap i j h) (up lessFunc i)))"
  by pat_completeness auto
termination by (relation "measure (\<lambda>(_, j, _). j)") auto

function down :: "('a \<Rightarrow> 'a \<Rightarrow> bool) \<Rightarrow> nat \<Rightarrow> nat \<Rightarrow> 'a data \<Rightarrow> (nat \<times> 'a data) go" where
  "down lessFunc i n h = (let j1 = 2 * i + 1 in
     if j1 \<ge> n then Ret (i, h)
     else go_bind (if j1 + 1 < n then go_bind (Less lessFunc h (j1 + 1) j1) (\<lambda>b. Ret (if b then j1 + 1 else j1)) else Ret j1) (\<lambda>j.
       go_bind (Less lessFunc h j i) (\<lambda>b. if \<not> b then Ret (i, h) else go_bind (Swap i j h) (down lessFunc j n))))"
  by pat_completeness auto
termination by (relation "measure (\<lambda>(_, i, n, _). n - i)") (auto simp: go_simps split: if_splits)

definition heap_Fix :: "('a \<Rightarrow> 'a \<Rightarrow> bool) \<Rightarrow> nat \<Rightarrow> 'a data \<Rightarrow> 'a data go" where
  "heap_Fix lessFunc i h = go_bind (down lessFunc i (length (queue h)) h) (\<lambda>(i', h1).
     if \<not> i' > i then up lessFunc i h1 else Ret h1)"

definition heap_Push :: "('a \<Rightarrow> 'a \<Rightarrow> bool) \<Rightarrow> string \<Rightarrow> 'a \<Rightarrow> 'a data \<Rightarrow> 'a data go" where
  "heap_Push lessFunc k x h = (let h1 = Push k x h in up lessFunc (length (queue h1) - 1) h1)"

definition heap_Pop :: "('a \<Rightarrow> 'a \<Rightarrow> bool) \<Rightarrow> 'a data \<Rightarrow> ('a option \<times> 'a data) go" where
  "heap_Pop lessFunc h = (if queue h = [] then Panic IndexOutOfRange
     else let n = length (queue h) - 1
          in go_bind (Swap 0 n h) (\<lambda>h1. go_bind (down lessFunc 0 n h1) (\<lambda>(_, h2). Pop_data h2)))"

definition heap_Remove :: "('a \<Rightarrow> 'a \<Rightarrow> bool) \<Rightarrow> nat \<Rightarrow> 'a data \<Rightarrow> ('a option \<times> 'a data) go" where
  "heap_Remove lessFunc i h = (if queue h = [] then Panic IndexOutOfRange
     else let n = length (queue h) - 1
          in if n \<noteq> i then go_bind (Swap i n h) (\<lambda>h1. go_bind (down lessFunc i n h1) (\<lambda>(i', h2).
               go_bind (if \<not> i' > i then up lessFunc i h2 else Ret h2) Pop_data))
             else Pop_data h)"

section \<open>The operations of the heap\<close>

text \<open>The error of a key function stands for the \<open>KeyError\<close> that wraps it.\<close>

definition NewHeap :: "'a data" where "NewHeap = \<lparr>items = [], queue = []\<rparr>"

definition Add :: "('a \<Rightarrow> string + string) \<Rightarrow> ('a \<Rightarrow> 'a \<Rightarrow> bool) \<Rightarrow> 'a \<Rightarrow> 'a data \<Rightarrow> (string option \<times> 'a data) go" where
  "Add keyFunc lessFunc x h = (case keyFunc x of Inl e \<Rightarrow> Ret (Some e, h)
     | Inr k \<Rightarrow> (case map_of (items h) k of
           Some it \<Rightarrow> go_bind (heap_Fix lessFunc (item_index it) (h\<lparr>items := AList.update k (it\<lparr>obj := x\<rparr>) (items h)\<rparr>)) (\<lambda>h1. Ret (None, h1))
         | None \<Rightarrow> go_bind (heap_Push lessFunc k x h) (\<lambda>h1. Ret (None, h1))))"

definition AddIfNotPresent :: "('a \<Rightarrow> string + string) \<Rightarrow> ('a \<Rightarrow> 'a \<Rightarrow> bool) \<Rightarrow> 'a \<Rightarrow> 'a data \<Rightarrow> (string option \<times> 'a data) go" where
  "AddIfNotPresent keyFunc lessFunc x h = (case keyFunc x of Inl e \<Rightarrow> Ret (Some e, h)
     | Inr k \<Rightarrow> (case map_of (items h) k of
           Some it \<Rightarrow> Ret (None, h)
         | None \<Rightarrow> go_bind (heap_Push lessFunc k x h) (\<lambda>h1. Ret (None, h1))))"

definition Update :: "('a \<Rightarrow> string + string) \<Rightarrow> ('a \<Rightarrow> 'a \<Rightarrow> bool) \<Rightarrow> 'a \<Rightarrow> 'a data \<Rightarrow> (string option \<times> 'a data) go" where
  "Update keyFunc lessFunc x h = Add keyFunc lessFunc x h"

definition Delete :: "('a \<Rightarrow> string + string) \<Rightarrow> ('a \<Rightarrow> 'a \<Rightarrow> bool) \<Rightarrow> 'a \<Rightarrow> 'a data \<Rightarrow> (string option \<times> 'a data) go" where
  "Delete keyFunc lessFunc x h = (case keyFunc x of Inl e \<Rightarrow> Ret (Some e, h)
     | Inr k \<Rightarrow> (case map_of (items h) k of
           Some it \<Rightarrow> go_bind (heap_Remove lessFunc (item_index it) h) (\<lambda>(_, h1). Ret (None, h1))
         | None \<Rightarrow> Ret (Some ''object not found'', h)))"

definition Pop :: "('a \<Rightarrow> 'a \<Rightarrow> bool) \<Rightarrow> 'a data \<Rightarrow> ((string + 'a) \<times> 'a data) go" where
  "Pop lessFunc h = go_bind (heap_Pop lessFunc h) (\<lambda>(r, h1). case r of
       Some x \<Rightarrow> Ret (Inr x, h1) | None \<Rightarrow> Ret (Inl ''object was removed from heap data'', h1))"

definition GetByKey :: "string \<Rightarrow> 'a data \<Rightarrow> 'a option" where
  "GetByKey k h = map_option obj (map_of (items h) k)"

definition Get :: "('a \<Rightarrow> string + string) \<Rightarrow> 'a \<Rightarrow> 'a data \<Rightarrow> string + 'a option" where
  "Get keyFunc x h = (case keyFunc x of Inl e \<Rightarrow> Inl e | Inr k \<Rightarrow> Inr (GetByKey k h))"

definition List :: "'a data \<Rightarrow> 'a list" where
  "List h = map (obj \<circ> snd) (items h)"

definition Len :: "'a data \<Rightarrow> nat" where
  "Len h = length (queue h)"

section \<open>Popping shortens the array\<close>

text \<open>Used to show that loops which pop end.\<close>

lemma set_index_queue: "set_index k i h = Ret h' \<Longrightarrow> queue h' = queue h"
  by (auto simp: set_index_def split: option.splits)

lemma Swap_length: "Swap i j h = Ret h' \<Longrightarrow> length (queue h') = length (queue h)"
  by (auto simp: Swap_def Let_def go_simps split: if_splits dest!: set_index_queue)

lemma down_cases:
  assumes "down lessFunc i n h = Ret (i', h')"
  obtains "h' = h" | j h1 where "i < j" "j < n" "Swap i j h = Ret h1" "down lessFunc j n h1 = Ret (i', h')"
  using assms unfolding down.simps [of lessFunc i n h] Let_def
  by (auto simp: go_simps simp del: down.simps split: if_splits) (erule that(2) [rotated 2], assumption, simp, simp)+

lemma down_length: "down lessFunc i n h = Ret (i', h') \<Longrightarrow> length (queue h') = length (queue h)"
proof (induction "n - i" arbitrary: i h rule: less_induct)
  case less
  from less.prems show ?case
  proof (cases rule: down_cases)
    case (2 j h1)
    then show ?thesis using less.hyps [of j h1] Swap_length [OF 2(3)] by simp
  qed simp
qed

declare up.simps [simp del] down.simps [simp del]

lemma Pop_data_length: "Pop_data h = Ret (r, h') \<Longrightarrow> length (queue h') < length (queue h)"
  by (auto simp: Pop_data_def Let_def split: if_splits option.splits)

lemma Pop_shortens: "Heap.Pop lessFunc h = Ret (r, h') \<Longrightarrow> length (queue h') < length (queue h)"
  by (fastforce simp: Heap.Pop_def heap_Pop_def Let_def go_simps split: if_splits option.splits
      dest: down_length Swap_length Pop_data_length)

end
