(* ===== verification/Sched_Queue.thy ===== *)
theory Sched_Queue
  imports Fw_Runtime Heap "HOL-Library.Word"
begin

unbundle bit_operations_syntax

text \<open>
  The scheduling queue (\<open>pkg/scheduler/internal/queue/scheduling_queue.go\<close>, \<open>events.go\<close>): pods ready
  to be scheduled in a heap, pods that back off in a second heap, unschedulable pods in a map, and the
  pods nominated to nodes. Every operation runs under the lock of the queue and is one function here;
  the time of the clock is an argument, in nanoseconds. Metrics and log messages are left out, and so
  is the signal that wakes a waiting \<open>Pop\<close>: a \<open>Pop\<close> that has to wait is reported as such.
\<close>

section \<open>Cluster events\<close>

record clusterEvent =
  evResource :: string
  evActionType :: "64 word"
  evLabel :: string

definition WildCard :: string where "WildCard = ''*''"

definition ActAll :: "64 word" where "ActAll = 63"

definition IsWildCard :: "clusterEvent \<Rightarrow> bool" where
  "IsWildCard ce \<longleftrightarrow> evResource ce = WildCard \<and> evActionType ce = ActAll"

definition AssignedPodAdd :: clusterEvent where
  "AssignedPodAdd = \<lparr>evResource = ''Pod'', evActionType = 1, evLabel = ''AssignedPodAdd''\<rparr>"

definition AssignedPodUpdate :: clusterEvent where
  "AssignedPodUpdate = \<lparr>evResource = ''Pod'', evActionType = 60, evLabel = ''AssignedPodUpdate''\<rparr>"

definition UnschedulableTimeout :: clusterEvent where
  "UnschedulableTimeout = \<lparr>evResource = WildCard, evActionType = ActAll, evLabel = ''UnschedulableTimeout''\<rparr>"

section \<open>Data\<close>

record queuedPodInfo =
  qPod :: kpod
  Timestamp :: int
  Attempts :: int
  InitialAttemptTimestamp :: int
  UnschedulablePlugins :: "string list"

record nominator =
  nominatedPods :: "(string \<times> kpod list) list"
  nominatedPodToNode :: "(string \<times> string) list"

record priorityQueue =
  PodNominator :: nominator
  activeQ :: "queuedPodInfo data"
  podBackoffQ :: "queuedPodInfo data"
  unschedulableQ :: "(string \<times> queuedPodInfo) list"
  schedulingCycle :: int
  moveRequestCycle :: int
  closed :: bool

text \<open>
  What the queue is built with: the order of the active pods (a plugin), the backoff durations, the
  events registered by plugins, whether a required affinity term of a waiting pod matches another pod,
  and the lister that knows the pods that exist (none if it is nil).
\<close>

record pqConf =
  lessFn :: "queuedPodInfo \<Rightarrow> queuedPodInfo \<Rightarrow> bool"
  podInitialBackoffDuration :: int
  podMaxBackoffDuration :: int
  clusterEventMap :: "(clusterEvent \<times> string list) list"
  termMatches :: "queuedPodInfo \<Rightarrow> kpod \<Rightarrow> bool"
  podLister :: "(string \<Rightarrow> string \<Rightarrow> bool) option"

section \<open>Keys and orders\<close>

definition MetaNamespaceKeyFunc :: "kpod \<Rightarrow> string" where
  "MetaNamespaceKeyFunc p = (if kNamespace p \<noteq> [] then kNamespace p @ ''/'' @ kName p else kName p)"

definition podInfoKeyFunc :: "queuedPodInfo \<Rightarrow> string + string" where
  "podInfoKeyFunc pi = Inr (MetaNamespaceKeyFunc (qPod pi))"

definition GetPodFullName :: "kpod \<Rightarrow> string" where
  "GetPodFullName p = kName p @ ''_'' @ kNamespace p"

text \<open>The default order: higher priority first, then the older pod.\<close>

definition PrioritySort_Less :: "queuedPodInfo \<Rightarrow> queuedPodInfo \<Rightarrow> bool" where
  "PrioritySort_Less p1 p2 \<longleftrightarrow> PodPriority (qPod p1) > PodPriority (qPod p2) \<or>
     (PodPriority (qPod p1) = PodPriority (qPod p2) \<and> Timestamp p1 < Timestamp p2)"

fun backoff_loop :: "nat \<Rightarrow> int \<Rightarrow> int \<Rightarrow> int" where
  "backoff_loop 0 duration mx = duration"
| "backoff_loop (Suc n) duration mx = (let d = wrap64 (duration * 2) in if d > mx then mx else backoff_loop n d mx)"

definition calculateBackoffDuration :: "pqConf \<Rightarrow> queuedPodInfo \<Rightarrow> int" where
  "calculateBackoffDuration c pi = backoff_loop (nat (Attempts pi - 1)) (podInitialBackoffDuration c) (podMaxBackoffDuration c)"

definition getBackoffTime :: "pqConf \<Rightarrow> queuedPodInfo \<Rightarrow> int" where
  "getBackoffTime c pi = Timestamp pi + calculateBackoffDuration c pi"

definition isPodBackingoff :: "pqConf \<Rightarrow> int \<Rightarrow> queuedPodInfo \<Rightarrow> bool" where
  "isPodBackingoff c now pi \<longleftrightarrow> getBackoffTime c pi > now"

definition podsCompareBackoffCompleted :: "pqConf \<Rightarrow> queuedPodInfo \<Rightarrow> queuedPodInfo \<Rightarrow> bool" where
  "podsCompareBackoffCompleted c p1 p2 \<longleftrightarrow> getBackoffTime c p1 < getBackoffTime c p2"

section \<open>Nominated pods\<close>

definition NewPodNominator :: nominator where
  "NewPodNominator = \<lparr>nominatedPods = [], nominatedPodToNode = []\<rparr>"

definition pods_on :: "nominator \<Rightarrow> string \<Rightarrow> kpod list" where
  "pods_on npm nnn = (case map_of (nominatedPods npm) nnn of None \<Rightarrow> [] | Some ps \<Rightarrow> ps)"

fun remove_first :: "('a \<Rightarrow> bool) \<Rightarrow> 'a list \<Rightarrow> 'a list" where
  "remove_first P [] = []"
| "remove_first P (x # xs) = (if P x then xs else x # remove_first P xs)"

definition npm_delete :: "kpod \<Rightarrow> nominator \<Rightarrow> nominator" where
  "npm_delete p npm = (case map_of (nominatedPodToNode npm) (UID p) of None \<Rightarrow> npm
     | Some nnn \<Rightarrow>
         (let ps = pods_on npm nnn; ps' = remove_first (\<lambda>np. UID np = UID p) ps;
              nps = (if \<not> list_ex (\<lambda>np. UID np = UID p) ps then nominatedPods npm
                     else if ps' = [] then AList.delete nnn (nominatedPods npm)
                     else AList.update nnn ps' (nominatedPods npm))
          in npm\<lparr>nominatedPods := nps, nominatedPodToNode := AList.delete (UID p) (nominatedPodToNode npm)\<rparr>))"

definition npm_add :: "pqConf \<Rightarrow> kpod \<Rightarrow> string \<Rightarrow> nominator \<Rightarrow> nominator" where
  "npm_add c p nodeName npm0 =
     (let npm = npm_delete p npm0; nnn = (if nodeName = [] then NominatedNodeName p else nodeName) in
      if nnn = [] then npm
      else if (case podLister c of None \<Rightarrow> False | Some alive \<Rightarrow> \<not> alive (kNamespace p) (kName p)) then npm
      else let npm1 = npm\<lparr>nominatedPodToNode := AList.update (UID p) nnn (nominatedPodToNode npm)\<rparr> in
           if list_ex (\<lambda>np. UID np = UID p) (pods_on npm1 nnn) then npm1
           else npm1\<lparr>nominatedPods := AList.update nnn (pods_on npm1 nnn @ [p]) (nominatedPods npm1)\<rparr>)"

definition AddNominatedPod :: "pqConf \<Rightarrow> kpod \<Rightarrow> string \<Rightarrow> priorityQueue \<Rightarrow> priorityQueue" where
  "AddNominatedPod c p nodeName q = q\<lparr>PodNominator := npm_add c p nodeName (PodNominator q)\<rparr>"

definition DeleteNominatedPodIfExists :: "kpod \<Rightarrow> priorityQueue \<Rightarrow> priorityQueue" where
  "DeleteNominatedPodIfExists p q = q\<lparr>PodNominator := npm_delete p (PodNominator q)\<rparr>"

definition pq_NominatedPodsForNode :: "priorityQueue \<Rightarrow> string \<Rightarrow> kpod list" where
  "pq_NominatedPodsForNode q nn = pods_on (PodNominator q) nn"

text \<open>The old pod may be nil, and is dereferenced.\<close>

definition UpdateNominatedPod :: "pqConf \<Rightarrow> kpod option \<Rightarrow> kpod \<Rightarrow> priorityQueue \<Rightarrow> priorityQueue go" where
  "UpdateNominatedPod c oldPod newPod q = (case oldPod of None \<Rightarrow> Panic NilDereference
     | Some old \<Rightarrow>
         (let npm = PodNominator q;
              nodeName = (if NominatedNodeName old = [] \<and> NominatedNodeName newPod = []
                          then (case map_of (nominatedPodToNode npm) (UID old) of None \<Rightarrow> [] | Some nnn \<Rightarrow> nnn) else [])
          in Ret (q\<lparr>PodNominator := npm_add c newPod nodeName (npm_delete old npm)\<rparr>)))"

section \<open>Unschedulable pods\<close>

definition uq_get :: "kpod \<Rightarrow> priorityQueue \<Rightarrow> queuedPodInfo option" where
  "uq_get p q = map_of (unschedulableQ q) (GetPodFullName p)"

definition uq_addOrUpdate :: "queuedPodInfo \<Rightarrow> priorityQueue \<Rightarrow> priorityQueue" where
  "uq_addOrUpdate pi q = q\<lparr>unschedulableQ := AList.update (GetPodFullName (qPod pi)) pi (unschedulableQ q)\<rparr>"

definition uq_delete :: "kpod \<Rightarrow> priorityQueue \<Rightarrow> priorityQueue" where
  "uq_delete p q = q\<lparr>unschedulableQ := AList.delete (GetPodFullName p) (unschedulableQ q)\<rparr>"

section \<open>The heaps of the queue\<close>

text \<open>The operations of the two heaps, applied to the queue they belong to.\<close>

definition on_activeQ :: "(queuedPodInfo data \<Rightarrow> ('r \<times> queuedPodInfo data) go) \<Rightarrow> priorityQueue \<Rightarrow> ('r \<times> priorityQueue) go" where
  "on_activeQ f q = go_bind (f (activeQ q)) (\<lambda>(r, h). Ret (r, q\<lparr>activeQ := h\<rparr>))"

definition on_backoffQ :: "(queuedPodInfo data \<Rightarrow> ('r \<times> queuedPodInfo data) go) \<Rightarrow> priorityQueue \<Rightarrow> ('r \<times> priorityQueue) go" where
  "on_backoffQ f q = go_bind (f (podBackoffQ q)) (\<lambda>(r, h). Ret (r, q\<lparr>podBackoffQ := h\<rparr>))"

definition activeQ_Add :: "pqConf \<Rightarrow> queuedPodInfo \<Rightarrow> priorityQueue \<Rightarrow> (string option \<times> priorityQueue) go" where
  "activeQ_Add c pi = on_activeQ (Heap.Add podInfoKeyFunc (lessFn c) pi)"

definition activeQ_Delete :: "pqConf \<Rightarrow> queuedPodInfo \<Rightarrow> priorityQueue \<Rightarrow> (string option \<times> priorityQueue) go" where
  "activeQ_Delete c pi = on_activeQ (Heap.Delete podInfoKeyFunc (lessFn c) pi)"

definition activeQ_Get :: "queuedPodInfo \<Rightarrow> priorityQueue \<Rightarrow> queuedPodInfo option" where
  "activeQ_Get pi q = (case Heap.Get podInfoKeyFunc pi (activeQ q) of Inl e \<Rightarrow> None | Inr r \<Rightarrow> r)"

definition backoffQ_Add :: "pqConf \<Rightarrow> queuedPodInfo \<Rightarrow> priorityQueue \<Rightarrow> (string option \<times> priorityQueue) go" where
  "backoffQ_Add c pi = on_backoffQ (Heap.Add podInfoKeyFunc (podsCompareBackoffCompleted c) pi)"

definition backoffQ_Delete :: "pqConf \<Rightarrow> queuedPodInfo \<Rightarrow> priorityQueue \<Rightarrow> (string option \<times> priorityQueue) go" where
  "backoffQ_Delete c pi = on_backoffQ (Heap.Delete podInfoKeyFunc (podsCompareBackoffCompleted c) pi)"

definition backoffQ_Get :: "queuedPodInfo \<Rightarrow> priorityQueue \<Rightarrow> queuedPodInfo option" where
  "backoffQ_Get pi q = (case Heap.Get podInfoKeyFunc pi (podBackoffQ q) of Inl e \<Rightarrow> None | Inr r \<Rightarrow> r)"

section \<open>Operations\<close>

definition NewPriorityQueue :: priorityQueue where
  "NewPriorityQueue = \<lparr>PodNominator = NewPodNominator, activeQ = NewHeap, podBackoffQ = NewHeap, unschedulableQ = [],
     schedulingCycle = 0, moveRequestCycle = -1, closed = False\<rparr>"

definition newQueuedPodInfoForLookup :: "kpod \<Rightarrow> queuedPodInfo" where
  "newQueuedPodInfoForLookup p = \<lparr>qPod = p, Timestamp = 0, Attempts = 0, InitialAttemptTimestamp = 0, UnschedulablePlugins = []\<rparr>"

definition newQueuedPodInfo :: "int \<Rightarrow> kpod \<Rightarrow> queuedPodInfo" where
  "newQueuedPodInfo now p = \<lparr>qPod = p, Timestamp = now, Attempts = 0, InitialAttemptTimestamp = now, UnschedulablePlugins = []\<rparr>"

definition pq_Add :: "pqConf \<Rightarrow> int \<Rightarrow> kpod \<Rightarrow> priorityQueue \<Rightarrow> (string option \<times> priorityQueue) go" where
  "pq_Add c now pod q =
     (let pInfo = newQueuedPodInfo now pod in
      go_bind (activeQ_Add c pInfo q) (\<lambda>(err, q1).
        if err \<noteq> None then Ret (err, q1)
        else let q2 = (if uq_get pod q1 \<noteq> None then uq_delete pod q1 else q1) in
             go_bind (backoffQ_Delete c pInfo q2) (\<lambda>(_, q3). Ret (None, AddNominatedPod c pod [] q3))))"

definition activate :: "pqConf \<Rightarrow> kpod \<Rightarrow> priorityQueue \<Rightarrow> (bool \<times> priorityQueue) go" where
  "activate c pod q =
     (if activeQ_Get (newQueuedPodInfoForLookup pod) q \<noteq> None then Ret (False, q)
      else case (case uq_get pod q of Some pi \<Rightarrow> Some pi | None \<Rightarrow> backoffQ_Get (newQueuedPodInfoForLookup pod) q) of
          None \<Rightarrow> Ret (False, q)
        | Some pInfo \<Rightarrow> go_bind (activeQ_Add c pInfo q) (\<lambda>(err, q1).
            if err \<noteq> None then Ret (False, q1)
            else go_bind (backoffQ_Delete c pInfo (uq_delete pod q1)) (\<lambda>(_, q2). Ret (True, AddNominatedPod c (qPod pInfo) [] q2))))"

fun Activate :: "pqConf \<Rightarrow> kpod list \<Rightarrow> priorityQueue \<Rightarrow> priorityQueue go" where
  "Activate c [] q = Ret q"
| "Activate c (pod # pods) q = go_bind (activate c pod q) (\<lambda>(_, q1). Activate c pods q1)"

definition kobj :: "kpod \<Rightarrow> string" where
  "kobj p = (if kNamespace p \<noteq> [] then kNamespace p @ ''/'' @ kName p else kName p)"

definition AddUnschedulableIfNotPresent :: "pqConf \<Rightarrow> int \<Rightarrow> queuedPodInfo \<Rightarrow> int \<Rightarrow> priorityQueue \<Rightarrow> (string option \<times> priorityQueue) go" where
  "AddUnschedulableIfNotPresent c now pInfo0 podSchedulingCycle q =
     (let pod = qPod pInfo0 in
      if uq_get pod q \<noteq> None then Ret (Some (''Pod '' @ kobj pod @ '' is already present in unschedulable queue''), q)
      else if activeQ_Get pInfo0 q \<noteq> None then Ret (Some (''Pod '' @ kobj pod @ '' is already present in the active queue''), q)
      else if backoffQ_Get pInfo0 q \<noteq> None then Ret (Some (''Pod '' @ kobj pod @ '' is already present in the backoff queue''), q)
      else let pInfo = pInfo0\<lparr>Timestamp := now\<rparr> in
        if moveRequestCycle q \<ge> podSchedulingCycle
        then go_bind (backoffQ_Add c pInfo q) (\<lambda>(err, q1). case err of
               Some e \<Rightarrow> Ret (Some (''error adding pod '' @ kName pod @ '' to the backoff queue: '' @ e), q1)
             | None \<Rightarrow> Ret (None, AddNominatedPod c pod [] q1))
        else Ret (None, AddNominatedPod c pod [] (uq_addOrUpdate pInfo q)))"

function flushBackoffQCompleted :: "pqConf \<Rightarrow> int \<Rightarrow> priorityQueue \<Rightarrow> priorityQueue go" where
  "flushBackoffQCompleted c now q =
     go_bind (Peek (podBackoffQ q)) (\<lambda>r. case r of None \<Rightarrow> Ret q
       | Some rawPodInfo \<Rightarrow>
           (if getBackoffTime c rawPodInfo > now then Ret q
            else go_bind (Heap.Pop (podsCompareBackoffCompleted c) (podBackoffQ q)) (\<lambda>(res, h).
              case res of Inl e \<Rightarrow> Ret (q\<lparr>podBackoffQ := h\<rparr>)
              | Inr _ \<Rightarrow> go_bind (Heap.Add podInfoKeyFunc (lessFn c) rawPodInfo (activeQ q)) (\<lambda>(_, a).
                  flushBackoffQCompleted c now (q\<lparr>podBackoffQ := h, activeQ := a\<rparr>)))))"
  by pat_completeness auto
termination
  by (relation "measure (\<lambda>(_, _, q). length (queue (podBackoffQ q)))") (auto dest: Pop_shortens)

fun intersect :: "string list \<Rightarrow> string list \<Rightarrow> bool" where
  "intersect x y \<longleftrightarrow> list_ex (\<lambda>v. v \<in> set y) x"

definition podMatchesEvent :: "pqConf \<Rightarrow> queuedPodInfo \<Rightarrow> clusterEvent \<Rightarrow> bool" where
  "podMatchesEvent c pInfo ev \<longleftrightarrow> IsWildCard ev \<or>
     list_ex (\<lambda>(evt, nameSet). (IsWildCard evt \<or> (evResource evt = evResource ev \<and> evActionType evt AND evActionType ev \<noteq> 0)) \<and>
        intersect nameSet (UnschedulablePlugins pInfo)) (clusterEventMap c)"

fun move_pods :: "pqConf \<Rightarrow> int \<Rightarrow> clusterEvent \<Rightarrow> queuedPodInfo list \<Rightarrow> priorityQueue \<Rightarrow> priorityQueue go" where
  "move_pods c now ev [] q = Ret q"
| "move_pods c now ev (pInfo # pInfos) q =
     (if UnschedulablePlugins pInfo \<noteq> [] \<and> \<not> podMatchesEvent c pInfo ev then move_pods c now ev pInfos q
      else go_bind (if isPodBackingoff c now pInfo then backoffQ_Add c pInfo q else activeQ_Add c pInfo q) (\<lambda>(err, q1).
             move_pods c now ev pInfos (if err \<noteq> None then q1 else uq_delete (qPod pInfo) q1)))"

definition movePodsToActiveOrBackoffQueue :: "pqConf \<Rightarrow> int \<Rightarrow> queuedPodInfo list \<Rightarrow> clusterEvent \<Rightarrow> priorityQueue \<Rightarrow> priorityQueue go" where
  "movePodsToActiveOrBackoffQueue c now pInfos ev q =
     go_bind (move_pods c now ev pInfos q) (\<lambda>q1. Ret (q1\<lparr>moveRequestCycle := schedulingCycle q1\<rparr>))"

definition unschedulableQTimeInterval :: int where "unschedulableQTimeInterval = 60 * 10 ^ 9"

definition flushUnschedulableQLeftover :: "pqConf \<Rightarrow> int \<Rightarrow> priorityQueue \<Rightarrow> priorityQueue go" where
  "flushUnschedulableQLeftover c now q =
     (let podsToMove = filter (\<lambda>pi. now - Timestamp pi > unschedulableQTimeInterval) (map snd (unschedulableQ q)) in
      if podsToMove \<noteq> [] then movePodsToActiveOrBackoffQueue c now podsToMove UnschedulableTimeout q else Ret q)"

definition MoveAllToActiveOrBackoffQueue :: "pqConf \<Rightarrow> int \<Rightarrow> clusterEvent \<Rightarrow> (kpod \<Rightarrow> bool) option \<Rightarrow> priorityQueue \<Rightarrow> priorityQueue go" where
  "MoveAllToActiveOrBackoffQueue c now ev preCheck q =
     movePodsToActiveOrBackoffQueue c now
       (filter (\<lambda>pi. case preCheck of None \<Rightarrow> True | Some f \<Rightarrow> f (qPod pi)) (map snd (unschedulableQ q))) ev q"

definition getUnschedulablePodsWithMatchingAffinityTerm :: "pqConf \<Rightarrow> kpod \<Rightarrow> priorityQueue \<Rightarrow> queuedPodInfo list" where
  "getUnschedulablePodsWithMatchingAffinityTerm c pod q = filter (\<lambda>pi. termMatches c pi pod) (map snd (unschedulableQ q))"

definition AssignedPodAdded :: "pqConf \<Rightarrow> int \<Rightarrow> kpod \<Rightarrow> priorityQueue \<Rightarrow> priorityQueue go" where
  "AssignedPodAdded c now pod q = movePodsToActiveOrBackoffQueue c now (getUnschedulablePodsWithMatchingAffinityTerm c pod q) AssignedPodAdd q"

definition AssignedPodUpdated :: "pqConf \<Rightarrow> int \<Rightarrow> kpod \<Rightarrow> priorityQueue \<Rightarrow> priorityQueue go" where
  "AssignedPodUpdated c now pod q = movePodsToActiveOrBackoffQueue c now (getUnschedulablePodsWithMatchingAffinityTerm c pod q) AssignedPodUpdate q"

text \<open>\<open>None\<close> is a \<open>Pop\<close> that waits on the condition.\<close>

definition queueClosed :: string where "queueClosed = ''scheduling queue is closed''"

definition pq_Pop :: "pqConf \<Rightarrow> priorityQueue \<Rightarrow> ((string + queuedPodInfo) option \<times> priorityQueue) go" where
  "pq_Pop c q =
     (if Len (activeQ q) = 0 then (if closed q then Ret (Some (Inl queueClosed), q) else Ret (None, q))
      else go_bind (on_activeQ (Heap.Pop (lessFn c)) q) (\<lambda>(r, q1). case r of
             Inl e \<Rightarrow> Ret (Some (Inl e), q1)
           | Inr pInfo \<Rightarrow> Ret (Some (Inr (pInfo\<lparr>Attempts := wrap64 (Attempts pInfo + 1)\<rparr>)), q1\<lparr>schedulingCycle := wrap64 (schedulingCycle q1 + 1)\<rparr>)))"

text \<open>The resource version and the status do not count; of the fields a pod has here only the nominated node belongs to its status.\<close>

definition isPodUpdated :: "kpod \<Rightarrow> kpod \<Rightarrow> bool" where
  "isPodUpdated oldPod newPod \<longleftrightarrow> oldPod\<lparr>ResourceVersion := [], NominatedNodeName := []\<rparr> \<noteq> newPod\<lparr>ResourceVersion := [], NominatedNodeName := []\<rparr>"

definition updatePod :: "queuedPodInfo \<Rightarrow> kpod \<Rightarrow> queuedPodInfo" where
  "updatePod pi newPod = pi\<lparr>qPod := newPod\<rparr>"

text \<open>
  \<open>update_unschedulable\<close> is the branch for a pod in the unschedulable queue. There the information is
  updated in place before its backoff is looked at; the backoff does not depend on the pod.
\<close>

definition update_unschedulable :: "pqConf \<Rightarrow> int \<Rightarrow> kpod option \<Rightarrow> kpod \<Rightarrow> queuedPodInfo \<Rightarrow> priorityQueue \<Rightarrow> (string option \<times> priorityQueue) go" where
  "update_unschedulable c now oldPod newPod usPodInfo q =
     (let pInfo = updatePod usPodInfo newPod in
      go_bind (UpdateNominatedPod c oldPod newPod q) (\<lambda>q1.
        case oldPod of None \<Rightarrow> Panic NilDereference
        | Some old \<Rightarrow>
            (if isPodUpdated old newPod
             then go_bind (if isPodBackingoff c now pInfo then backoffQ_Add c pInfo q1 else activeQ_Add c pInfo q1) (\<lambda>(err, q2).
                    if err \<noteq> None then Ret (err, q2) else Ret (None, uq_delete (qPod pInfo) q2))
             else Ret (None, uq_addOrUpdate pInfo q1))))"

definition pq_Update :: "pqConf \<Rightarrow> int \<Rightarrow> kpod option \<Rightarrow> kpod \<Rightarrow> priorityQueue \<Rightarrow> (string option \<times> priorityQueue) go" where
  "pq_Update c now oldPod newPod q =
     (case (case oldPod of None \<Rightarrow> None | Some old \<Rightarrow> activeQ_Get (newQueuedPodInfoForLookup old) q) of
        Some pi \<Rightarrow> go_bind (UpdateNominatedPod c oldPod newPod q) (activeQ_Add c (updatePod pi newPod))
      | None \<Rightarrow>
     (case (case oldPod of None \<Rightarrow> None | Some old \<Rightarrow> backoffQ_Get (newQueuedPodInfoForLookup old) q) of
        Some pi \<Rightarrow> go_bind (UpdateNominatedPod c oldPod newPod q) (backoffQ_Add c (updatePod pi newPod))
      | None \<Rightarrow>
     (case uq_get newPod q of
        Some usPodInfo \<Rightarrow> update_unschedulable c now oldPod newPod usPodInfo q
      | None \<Rightarrow> go_bind (activeQ_Add c (newQueuedPodInfo now newPod) q) (\<lambda>(err, q1).
          if err \<noteq> None then Ret (err, q1) else Ret (None, AddNominatedPod c newPod [] q1)))))"

definition pq_Delete :: "pqConf \<Rightarrow> kpod \<Rightarrow> priorityQueue \<Rightarrow> priorityQueue go" where
  "pq_Delete c pod q =
     go_bind (activeQ_Delete c (newQueuedPodInfoForLookup pod) (DeleteNominatedPodIfExists pod q)) (\<lambda>(err, q1).
       if err \<noteq> None
       then go_bind (backoffQ_Delete c (newQueuedPodInfoForLookup pod) q1) (\<lambda>(_, q2). Ret (uq_delete pod q2))
       else Ret q1)"

definition PendingPods :: "priorityQueue \<Rightarrow> kpod list" where
  "PendingPods q = map qPod (Heap.List (activeQ q)) @ map qPod (Heap.List (podBackoffQ q)) @ map (qPod \<circ> snd) (unschedulableQ q)"

definition NumUnschedulablePods :: "priorityQueue \<Rightarrow> nat" where
  "NumUnschedulablePods q = length (unschedulableQ q)"

text \<open>Closing closes the stop channel, which must be open.\<close>

definition pq_Close :: "priorityQueue \<Rightarrow> priorityQueue go" where
  "pq_Close q = (if closed q then Panic CloseOfClosedChannel else Ret (q\<lparr>closed := True\<rparr>))"

definition MakeNextPodFunc :: "pqConf \<Rightarrow> priorityQueue \<Rightarrow> (queuedPodInfo option option \<times> priorityQueue) go" where
  "MakeNextPodFunc c q = go_bind (pq_Pop c q) (\<lambda>(r, q1). Ret (map_option (\<lambda>x. case x of Inl e \<Rightarrow> None | Inr pi \<Rightarrow> Some pi) r, q1))"

end
