(* ===== verification/Heap_Props.thy ===== *)
theory Heap_Props
  imports Heap
begin

text \<open>
  Correctness of the heap. The order on the objects is a locale, \<open>weak_order\<close>; inside it the moves of
  \<open>up\<close> and \<open>down\<close> are studied on functions from positions to objects, then carried to the array and
  the map of positions. \<open>heap_inv\<close> is the invariant every operation keeps, \<open>contents\<close> the map from
  keys to objects the heap stands for.
\<close>

section \<open>Orders and positions\<close>

locale weak_order =
  fixes less :: "'a \<Rightarrow> 'a \<Rightarrow> bool"
  assumes asym: "less a b \<Longrightarrow> \<not> less b a"
    and negtrans: "\<not> less b a \<Longrightarrow> \<not> less c b \<Longrightarrow> \<not> less c a"
begin

lemma irrefl: "\<not> less a a" using asym by blast

text \<open>The element at a position is not before the one at its parent.\<close>

definition ordered_at :: "(nat \<Rightarrow> 'a) \<Rightarrow> nat \<Rightarrow> bool" where
  "ordered_at a k \<longleftrightarrow> 0 < k \<longrightarrow> \<not> less (a k) (a ((k - 1) div 2))"

definition ordered :: "(nat \<Rightarrow> 'a) \<Rightarrow> nat \<Rightarrow> bool" where
  "ordered a n \<longleftrightarrow> (\<forall>k<n. ordered_at a k)"

text \<open>The children of a position are not before its parent.\<close>

definition skips :: "(nat \<Rightarrow> 'a) \<Rightarrow> nat \<Rightarrow> nat \<Rightarrow> bool" where
  "skips a n j \<longleftrightarrow> (\<forall>c<n. 0 < j \<and> 0 < c \<and> (c - 1) div 2 = j \<longrightarrow> \<not> less (a c) (a ((j - 1) div 2)))"

text \<open>Ordered but for the element at \<open>j\<close> and its parent; and but for \<open>i\<close>, its parent and its children.\<close>

definition but_up :: "(nat \<Rightarrow> 'a) \<Rightarrow> nat \<Rightarrow> nat \<Rightarrow> bool" where
  "but_up a n j \<longleftrightarrow> (\<forall>k<n. k \<noteq> j \<longrightarrow> ordered_at a k) \<and> skips a n j"

definition but_at :: "(nat \<Rightarrow> 'a) \<Rightarrow> nat \<Rightarrow> nat \<Rightarrow> bool" where
  "but_at a n i \<longleftrightarrow> (\<forall>k<n. k \<noteq> i \<longrightarrow> (k - 1) div 2 \<noteq> i \<longrightarrow> ordered_at a k) \<and> skips a n i"

definition exch :: "nat \<Rightarrow> nat \<Rightarrow> (nat \<Rightarrow> 'a) \<Rightarrow> nat \<Rightarrow> 'a" where
  "exch i j a = a(i := a j, j := a i)"

lemma exch_apply: "exch i j a k = (if k = j then a i else if k = i then a j else a k)"
  by (simp add: exch_def)

lemma but_up_ordered: "but_up a n j \<Longrightarrow> j < n \<Longrightarrow> ordered_at a j \<Longrightarrow> ordered a n"
  by (auto simp: but_up_def ordered_def)

lemma ordered_but_at: "ordered a n \<Longrightarrow> but_at a n i"
proof -
  assume o: "ordered a n"
  have "\<not> less (a c) (a ((i - 1) div 2))" if "c < n" "0 < i" "0 < c" "(c - 1) div 2 = i" for c
  proof -
    have "i < c" using that by (cases c) auto
    then have "ordered_at a c" "ordered_at a i" using o that by (auto simp: ordered_def)
    then show ?thesis using negtrans that by (auto simp: ordered_at_def)
  qed
  then show ?thesis using o by (auto simp: but_at_def skips_def ordered_def)
qed

text \<open>Changing the element at \<open>i\<close> of an ordered array, whatever the new element is.\<close>

lemma but_at_cong: "but_at a n i \<Longrightarrow> (\<And>k. k < n \<Longrightarrow> k \<noteq> i \<Longrightarrow> b k = a k) \<Longrightarrow> but_at b n i"
proof -
  assume b: "but_at a n i" and e: "\<And>k. k < n \<Longrightarrow> k \<noteq> i \<Longrightarrow> b k = a k"
  have "ordered_at b k" if k: "k < n" "k \<noteq> i" "(k - 1) div 2 \<noteq> i" for k
  proof -
    have "(k - 1) div 2 < n" using k(1) by simp
    then show ?thesis using b k by (auto simp: but_at_def ordered_at_def e)
  qed
  moreover have "\<not> less (b c) (b ((i - 1) div 2))" if c: "c < n" "0 < i" "0 < c" "(c - 1) div 2 = i" for c
  proof -
    have "c \<noteq> i" "(i - 1) div 2 \<noteq> i" "(i - 1) div 2 < n" using c by (cases c; cases i; auto)+
    then show ?thesis using b c by (auto simp: but_at_def skips_def e)
  qed
  ultimately show ?thesis by (auto simp: but_at_def skips_def)
qed

lemma up_step:
  assumes "but_up a n j" "0 < j" "j < n" "less (a j) (a ((j - 1) div 2))"
  shows "but_up (exch ((j - 1) div 2) j a) n ((j - 1) div 2)"
proof -
  define i where "i = (j - 1) div 2"
  have ij: "i < j" using assms(2) by (simp add: i_def)
  have up: "\<not> less (a k) (a ((k - 1) div 2))" if "k < n" "k \<noteq> j" "0 < k" for k
    using assms(1) that by (auto simp: but_up_def ordered_at_def)
  have sk: "\<not> less (a c) (a i)" if "c < n" "0 < c" "(c - 1) div 2 = j" for c
    using assms(1,2) that by (auto simp: but_up_def skips_def i_def)
  have lt: "\<not> less (a i) (a j)" using assms(4) asym by (auto simp: i_def)
  have "ordered_at (exch i j a) k" if "k < n" "k \<noteq> i" for k
  proof (cases "k = 0")
    case False
    then have p: "(k - 1) div 2 < k" by simp
    consider "k = j" | "k \<noteq> j" "(k - 1) div 2 = j" | "k \<noteq> j" "(k - 1) div 2 = i" | "k \<noteq> j" "(k - 1) div 2 \<noteq> j" "(k - 1) div 2 \<noteq> i" by blast
    then show ?thesis
    proof cases
      case 1 then show ?thesis using lt ij by (auto simp: ordered_at_def exch_apply i_def)
    next
      case 2 then show ?thesis using sk that False ij by (auto simp: ordered_at_def exch_apply)
    next
      case 3
      then have "\<not> less (a k) (a i)" using up that False by force
      then have "\<not> less (a k) (a j)" using lt negtrans by blast
      then show ?thesis using 3 that ij by (auto simp: ordered_at_def exch_apply)
    next
      case 4 then show ?thesis using up that False by (auto simp: ordered_at_def exch_apply)
    qed
  qed (simp add: ordered_at_def)
  moreover have "skips (exch i j a) n i" unfolding skips_def
  proof (intro allI impI, elim conjE)
    fix c assume c: "c < n" "0 < i" "0 < c" "(c - 1) div 2 = i"
    have pi: "(i - 1) div 2 < i" using c(2) by simp
    have a1: "\<not> less (a i) (a ((i - 1) div 2))" using up [of i] ij assms(3) c(2) by auto
    have "\<not> less (a c) (a ((i - 1) div 2))" if "c \<noteq> j" using up [of c] c that a1 negtrans by force
    moreover have "i < c" using c by (cases c) auto
    ultimately show "\<not> less (exch i j a c) (exch i j a ((i - 1) div 2))" using a1 pi ij by (auto simp: exch_apply)
  qed
  ultimately show ?thesis by (simp add: but_up_def i_def)
qed

text \<open>One step down exchanges a position with the lesser of its children.\<close>

lemma down_step:
  assumes "but_at a n i" "j < n" "0 < j" "(j - 1) div 2 = i" "less (a j) (a i)"
    "\<And>k. k < n \<Longrightarrow> 0 < k \<Longrightarrow> (k - 1) div 2 = i \<Longrightarrow> \<not> less (a k) (a j)"
  shows "but_at (exch i j a) n j \<and> ordered_at (exch i j a) j"
proof
  have ij: "i < j" using assms(3,4) by (cases j) auto
  have up: "\<not> less (a k) (a ((k - 1) div 2))" if "k < n" "k \<noteq> i" "(k - 1) div 2 \<noteq> i" "0 < k" for k
    using assms(1) that by (auto simp: but_at_def ordered_at_def)
  show "ordered_at (exch i j a) j" using assms(4,5) asym ij by (auto simp: ordered_at_def exch_apply)
  have "ordered_at (exch i j a) k" if k: "k < n" "k \<noteq> j" "(k - 1) div 2 \<noteq> j" for k
  proof (cases "k = 0")
    case False
    consider "k = i" | "k \<noteq> i" "(k - 1) div 2 = i" | "k \<noteq> i" "(k - 1) div 2 \<noteq> i" by blast
    then show ?thesis
    proof cases
      case 1
      then have "\<not> less (a j) (a ((i - 1) div 2))" using assms(1-4) False by (auto simp: but_at_def skips_def)
      moreover have "(i - 1) div 2 < i" using 1 False by simp
      ultimately show ?thesis using 1 k ij by (auto simp: ordered_at_def exch_apply)
    next
      case 2 then show ?thesis using assms(6) [of k] k False by (auto simp: ordered_at_def exch_apply)
    next
      case 3 then show ?thesis using up [of k] k False by (auto simp: ordered_at_def exch_apply)
    qed
  qed (simp add: ordered_at_def)
  moreover have "skips (exch i j a) n j" unfolding skips_def
  proof (intro allI impI, elim conjE)
    fix c assume c: "c < n" "0 < j" "0 < c" "(c - 1) div 2 = j"
    have "j < c" using c by (cases c) auto
    then show "\<not> less (exch i j a c) (exch i j a ((j - 1) div 2))" using up [of c] c ij assms(4) by (auto simp: exch_apply)
  qed
  ultimately show "but_at (exch i j a) n j" by (simp add: but_at_def)
qed

lemma down_stop:
  assumes "but_at a n i" "\<And>k. k < n \<Longrightarrow> 0 < k \<Longrightarrow> (k - 1) div 2 = i \<Longrightarrow> \<not> less (a k) (a i)"
  shows "but_up a n i"
  using assms by (auto simp: but_at_def but_up_def ordered_at_def)

lemma root_least:
  assumes "ordered a n" shows "k < n \<Longrightarrow> \<not> less (a k) (a 0)"
proof (induction k rule: less_induct)
  case (less k)
  show ?case
  proof (cases "k = 0")
    case False
    then have "\<not> less (a ((k - 1) div 2)) (a 0)" using less by simp
    moreover have "\<not> less (a k) (a ((k - 1) div 2))" using assms less.prems False by (auto simp: ordered_def ordered_at_def)
    ultimately show ?thesis using negtrans by blast
  qed (simp add: irrefl)
qed

end

lemma children_iff: "0 < (c::nat) \<and> (c - 1) div 2 = i \<longleftrightarrow> c = 2 * i + 1 \<or> c = 2 * i + 2"
  by (cases c) auto

section \<open>The array and the map of positions\<close>

definition contents :: "'a data \<Rightarrow> string \<rightharpoonup> 'a" where
  "contents h k = map_option obj (map_of (items h) k)"

definition obj_at :: "'a data \<Rightarrow> nat \<Rightarrow> 'a" where
  "obj_at h i = the (contents h (queue h ! i))"

definition indexed :: "'a data \<Rightarrow> bool" where
  "indexed h \<longleftrightarrow> distinct (map fst (items h)) \<and> dom (map_of (items h)) = set (queue h) \<and>
     (\<forall>i<length (queue h). map_option item_index (map_of (items h) (queue h ! i)) = Some i)"

lemma indexed_None: "indexed h \<Longrightarrow> map_of (items h) k = None \<longleftrightarrow> k \<notin> set (queue h)"
  unfolding indexed_def by (metis domIff)

lemma indexedI:
  assumes "distinct (map fst (items h))" "\<And>k. map_of (items h) k = None \<longleftrightarrow> k \<notin> set (queue h)"
    "\<And>i. i < length (queue h) \<Longrightarrow> \<exists>it. map_of (items h) (queue h ! i) = Some it \<and> item_index it = i"
  shows "indexed h"
  unfolding indexed_def by (intro conjI assms(1) allI impI) (use assms(2) in \<open>auto simp: dom_def\<close>, use assms(3) in fastforce)

lemma indexed_item:
  assumes "indexed h" "i < length (queue h)"
  obtains it where "map_of (items h) (queue h ! i) = Some it" "item_index it = i" "obj_at h i = obj it"
proof -
  have "map_option item_index (map_of (items h) (queue h ! i)) = Some i" using assms by (auto simp: indexed_def)
  then obtain it where "map_of (items h) (queue h ! i) = Some it" "item_index it = i" by auto
  then show ?thesis using that by (simp add: obj_at_def contents_def)
qed

lemma indexed_distinct: "indexed h \<Longrightarrow> distinct (queue h)"
  unfolding distinct_conv_nth by (metis indexed_item option.inject)

lemma indexed_key:
  assumes "indexed h" "map_of (items h) k = Some it"
  shows "item_index it < length (queue h)" "queue h ! item_index it = k"
proof -
  have "k \<in> set (queue h)" using assms by (auto simp: indexed_def)
  then obtain i where i: "i < length (queue h)" "queue h ! i = k" by (auto simp: in_set_conv_nth)
  then have "item_index it = i" using indexed_item [OF assms(1) i(1)] assms(2) by fastforce
  then show "item_index it < length (queue h)" "queue h ! item_index it = k" using i by auto
qed

lemma dom_contents: "indexed h \<Longrightarrow> dom (contents h) = set (queue h)"
  by (auto simp: indexed_def contents_def dom_def set_eq_iff)

lemma Less_indexed:
  assumes "indexed h" "i < length (queue h)" "j < length (queue h)"
  shows "Less lf h i j = Ret (lf (obj_at h i) (obj_at h j))"
proof -
  obtain x where "map_of (items h) (queue h ! i) = Some x" "obj_at h i = obj x" by (rule indexed_item [OF assms(1,2)])
  moreover obtain y where "map_of (items h) (queue h ! j) = Some y" "obj_at h j = obj y" by (rule indexed_item [OF assms(1,3)])
  ultimately show ?thesis using assms(2,3) by (simp add: Less_def)
qed

lemma Swap_indexed:
  assumes "indexed h" "i < length (queue h)" "j < length (queue h)"
  obtains h' where "Swap i j h = Ret h'" "indexed h'" "queue h' = (queue h)[i := queue h ! j, j := queue h ! i]" "contents h' = contents h"
proof -
  let ?q = "(queue h)[i := queue h ! j, j := queue h ! i]"
  obtain x where x: "map_of (items h) (queue h ! i) = Some x" "item_index x = i" using indexed_item [OF assms(1,2)] by metis
  obtain y where y: "map_of (items h) (queue h ! j) = Some y" "item_index y = j" using indexed_item [OF assms(1,3)] by metis
  have qi: "?q ! i = queue h ! j" and qj: "?q ! j = queue h ! i" using assms(2,3) by (auto simp: nth_list_update)
  let ?m1 = "AList.update (queue h ! j) (y\<lparr>item_index := i\<rparr>) (items h)"
  obtain x' where x': "map_of ?m1 (queue h ! i) = Some x'" "obj x' = obj x" "x'\<lparr>item_index := j\<rparr> = x\<lparr>item_index := j\<rparr>"
    using x y by (cases "queue h ! i = queue h ! j") (auto simp: update_conv')
  let ?m2 = "AList.update (queue h ! i) (x'\<lparr>item_index := j\<rparr>) ?m1"
  let ?h = "h\<lparr>queue := ?q, items := ?m2\<rparr>"
  have S: "Swap i j h = Ret ?h"
    using assms(2,3) y x' by (simp add: Swap_def set_index_def qi qj Let_def)
  have m2: "map_of ?m2 = (map_of (items h))(queue h ! j \<mapsto> y\<lparr>item_index := i\<rparr>, queue h ! i \<mapsto> x\<lparr>item_index := j\<rparr>)"
    by (simp add: update_conv' x'(3))
  have c: "contents ?h = contents h" using x(1) y(1) by (auto simp: contents_def m2 fun_eq_iff)
  have d: "distinct (queue h)" by (rule indexed_distinct [OF assms(1)])
  have "map_option item_index (map_of ?m2 (?q ! k)) = Some k" if k: "k < length (queue h)" for k
  proof -
    obtain z where z: "map_of (items h) (queue h ! k) = Some z" "item_index z = k" using indexed_item [OF assms(1) k] by metis
    have e: "queue h ! k = queue h ! i \<longleftrightarrow> k = i" "queue h ! k = queue h ! j \<longleftrightarrow> k = j" "queue h ! i = queue h ! j \<longleftrightarrow> i = j"
      using d k assms by (auto simp: nth_eq_iff_index_eq)
    consider "k = j" | "k \<noteq> j" "k = i" | "k \<noteq> j" "k \<noteq> i" by blast
    then show ?thesis
    proof cases
      case 1 then show ?thesis using assms(2,3) by (simp add: m2)
    next
      case 2 then show ?thesis using assms(2,3) e by (simp add: m2)
    next
      case 3 then show ?thesis using e z by (simp add: m2)
    qed
  qed
  moreover have "set ?q = set (queue h)" using assms(2,3) by (metis set_swap)
  moreover have "dom (map_of ?m2) = dom (map_of (items h))" using x(1) y(1) unfolding m2 by auto
  ultimately have "indexed ?h" using assms(1) by (simp add: indexed_def distinct_update)
  then show ?thesis using that S c by simp
qed

lemma obj_at_swap:
  assumes "queue h' = (queue h)[i := queue h ! j, j := queue h ! i]" "contents h' = contents h" "i < length (queue h)" "j < length (queue h)"
  shows "obj_at h' k = ((obj_at h)(i := obj_at h j, j := obj_at h i)) k"
  using assms by (auto simp: obj_at_def nth_list_update)

lemma swap_keeps:
  assumes "queue h' = (queue h)[i := queue h ! j, j := queue h ! i]" "i < length (queue h)" "j < length (queue h)"
  shows "length (queue h') = length (queue h)" "mset (queue h') = mset (queue h)" "i < n \<Longrightarrow> j < n \<Longrightarrow> drop n (queue h') = drop n (queue h)"
  using assms by (auto simp: mset_swap drop_update_cancel)

definition heap_inv :: "('a \<Rightarrow> 'a \<Rightarrow> bool) \<Rightarrow> 'a data \<Rightarrow> bool" where
  "heap_inv lessFunc h \<longleftrightarrow> indexed h \<and> (\<forall>k<length (queue h). 0 < k \<longrightarrow> \<not> lessFunc (obj_at h k) (obj_at h ((k - 1) div 2)))"

text \<open>What moving elements about keeps.\<close>

definition rearranged :: "nat \<Rightarrow> 'a data \<Rightarrow> 'a data \<Rightarrow> bool" where
  "rearranged n h h' \<longleftrightarrow> indexed h' \<and> contents h' = contents h \<and> mset (queue h') = mset (queue h) \<and> drop n (queue h') = drop n (queue h)"

lemma rearranged_refl: "indexed h \<Longrightarrow> rearranged n h h" by (simp add: rearranged_def)

lemma rearranged_trans: "rearranged n h1 h2 \<Longrightarrow> rearranged n h2 h3 \<Longrightarrow> rearranged n h1 h3" by (simp add: rearranged_def)

lemma rearranged_length: "rearranged n h h' \<Longrightarrow> length (queue h') = length (queue h)" unfolding rearranged_def by (metis size_mset)

lemma Swap_rearranged:
  assumes "indexed h" "i < length (queue h)" "j < length (queue h)"
  obtains h' where "Swap i j h = Ret h'" "indexed h'" "length (queue h') = length (queue h)" "\<And>n. i < n \<Longrightarrow> j < n \<Longrightarrow> rearranged n h h'"
    "obj_at h' = (obj_at h)(i := obj_at h j, j := obj_at h i)" "queue h' = (queue h)[i := queue h ! j, j := queue h ! i]" "contents h' = contents h"
proof -
  obtain h' where h: "Swap i j h = Ret h'" "indexed h'" "queue h' = (queue h)[i := queue h ! j, j := queue h ! i]" "contents h' = contents h"
    using Swap_indexed [OF assms] .
  have o: "obj_at h' = (obj_at h)(i := obj_at h j, j := obj_at h i)" using obj_at_swap [OF h(3,4) assms(2,3)] by blast
  have r: "rearranged n h h'" if "i < n" "j < n" for n using swap_keeps [OF h(3) assms(2,3)] h(2,4) that by (simp add: rearranged_def)
  show ?thesis by (rule that [OF h(1,2) _ r o h(3,4)]) (simp_all add: h(3))
qed

context weak_order
begin

lemma up_correct:
  "indexed h \<Longrightarrow> j < n \<Longrightarrow> n \<le> length (queue h) \<Longrightarrow> but_up (obj_at h) n j \<Longrightarrow>
   \<exists>h'. up less j h = Ret h' \<and> rearranged n h h' \<and> ordered (obj_at h') n"
proof (induction j arbitrary: h rule: less_induct)
  case (less j)
  let ?i = "(j - 1) div 2"
  show ?case
  proof (cases "?i = j \<or> \<not> less (obj_at h j) (obj_at h ?i)")
    case True
    have "ordered_at (obj_at h) j" using True by (cases "j = 0") (auto simp: ordered_at_def)
    then have "ordered (obj_at h) n" using less.prems by (intro but_up_ordered [of _ _ j]) auto
    moreover have "?i < length (queue h)" using less.prems by simp
    then have "up less j h = Ret h" using True less.prems by (subst up.simps) (auto simp: Let_def Less_indexed)
    ultimately show ?thesis using rearranged_refl less.prems by blast
  next
    case False
    then have j: "0 < j" "?i < j" "less (obj_at h j) (obj_at h ?i)" by (cases j; auto)+
    obtain h1 where h1: "Swap ?i j h = Ret h1" "indexed h1" "length (queue h1) = length (queue h)" "rearranged n h h1"
        "obj_at h1 = exch ?i j (obj_at h)"
    proof (rule Swap_rearranged [OF less.prems(1), of ?i j])
      show "?i < length (queue h)" "j < length (queue h)" using less.prems j by simp_all
    qed (use that less.prems j in \<open>simp add: exch_def\<close>)
    have "but_up (obj_at h1) n ?i" unfolding h1(5) using up_step less.prems j by blast
    then obtain h' where h': "up less ?i h1 = Ret h'" "rearranged n h1 h'" "ordered (obj_at h') n"
      using less.IH [of ?i h1] j h1 less.prems by auto
    have "up less j h = Ret h'" using j less.prems h1(1) h'(1) by (subst up.simps) (simp add: Let_def Less_indexed)
    then show ?thesis using h' rearranged_trans [OF h1(4)] by blast
  qed
qed

end

context weak_order
begin

text \<open>The lesser child that \<open>down\<close> picks.\<close>

lemma lesser_child:
  assumes "indexed h" "n \<le> length (queue h)" "2 * i + 1 < n"
  obtains j where "(if 2 * i + 1 + 1 < n then go_bind (Less less h (2 * i + 1 + 1) (2 * i + 1)) (\<lambda>b. Ret (if b then 2 * i + 1 + 1 else 2 * i + 1)) else Ret (2 * i + 1)) = Ret j"
    "j < n" "0 < j" "(j - 1) div 2 = i" "\<And>k. k < n \<Longrightarrow> 0 < k \<Longrightarrow> (k - 1) div 2 = i \<Longrightarrow> \<not> less (obj_at h k) (obj_at h j)"
proof -
  define j where "j = (if 2 * i + 2 < n \<and> less (obj_at h (2 * i + 2)) (obj_at h (2 * i + 1)) then 2 * i + 2 else 2 * i + 1)"
  have "\<not> less (obj_at h k) (obj_at h j)" if k: "k < n" "0 < k" "(k - 1) div 2 = i" for k
  proof -
    have "k = 2 * i + 1 \<or> k = 2 * i + 2" using k children_iff by blast
    then show ?thesis using k(1) asym irrefl by (auto simp: j_def)
  qed
  moreover have "j < n" "0 < j" "(j - 1) div 2 = i" using assms(3) by (auto simp: j_def)
  ultimately show ?thesis using that [of j] assms by (simp add: Less_indexed j_def)
qed

lemma down_correct:
  "indexed h \<Longrightarrow> n \<le> length (queue h) \<Longrightarrow> but_at (obj_at h) n i \<Longrightarrow>
   \<exists>i' h'. down less i n h = Ret (i', h') \<and> rearranged n h h' \<and> i \<le> i' \<and>
     (if i' = i then h' = h \<and> but_up (obj_at h) n i else ordered (obj_at h') n)"
proof (induction "n - i" arbitrary: i h rule: less_induct)
  case less
  show ?case
  proof (cases "2 * i + 1 < n")
    case False
    have "\<not> (k < n \<and> 0 < k \<and> (k - 1) div 2 = i)" for k using False children_iff [of k i] by linarith
    then have "but_up (obj_at h) n i" by (intro down_stop less.prems) blast
    then show ?thesis using False less.prems rearranged_refl by (subst down.simps) (auto simp: Let_def)
  next
    case True
    obtain j where j: "(if 2 * i + 1 + 1 < n then go_bind (Less less h (2 * i + 1 + 1) (2 * i + 1)) (\<lambda>b. Ret (if b then 2 * i + 1 + 1 else 2 * i + 1)) else Ret (2 * i + 1)) = Ret j"
        "j < n" "0 < j" "(j - 1) div 2 = i" "\<And>k. k < n \<Longrightarrow> 0 < k \<Longrightarrow> (k - 1) div 2 = i \<Longrightarrow> \<not> less (obj_at h k) (obj_at h j)"
      using lesser_child [OF less.prems(1,2) True] by blast
    have ij: "i < j" using j(3,4) by (cases j) auto
    have D: "down less i n h = (if less (obj_at h j) (obj_at h i) then go_bind (Swap i j h) (down less j n) else Ret (i, h))"
      using True j(1,2) ij less.prems by (subst down.simps) (simp only: Let_def, simp add: Less_indexed)
    show ?thesis
    proof (cases "less (obj_at h j) (obj_at h i)")
      case False
      have "but_up (obj_at h) n i" using j(5) False negtrans by (intro down_stop less.prems) blast
      then show ?thesis using False D less.prems rearranged_refl by simp
    next
      case l: True
      obtain h1 where h1: "Swap i j h = Ret h1" "indexed h1" "length (queue h1) = length (queue h)" "rearranged n h h1"
          "obj_at h1 = exch i j (obj_at h)"
      proof (rule Swap_rearranged [OF less.prems(1), of i j])
        show "i < length (queue h)" "j < length (queue h)" using less.prems j ij by simp_all
      qed (use that j ij in \<open>simp add: exch_def\<close>)
      note s = down_step [OF less.prems(3) j(2-4) l j(5), folded h1(5)]
      have "n - j < n - i" using ij j(2) by simp
      then obtain i' h' where h': "down less j n h1 = Ret (i', h')" "rearranged n h1 h'" "j \<le> i'"
          "if i' = j then h' = h1 \<and> but_up (obj_at h1) n j else ordered (obj_at h') n"
        using less.hyps [of j h1] h1 less.prems(2) s by auto
      have "ordered (obj_at h') n" using h'(4) but_up_ordered [of "obj_at h1" n j] j(2) s by (auto split: if_splits)
      moreover have "down less i n h = Ret (i', h')" using D l h1(1) h'(1) by simp
      ultimately show ?thesis using rearranged_trans [OF h1(4) h'(2)] ij h'(3) by auto
    qed
  qed
qed

text \<open>Settling one element: down, then up if it did not move.\<close>

lemma settle:
  assumes "indexed h" "n \<le> length (queue h)" "i < n" "but_at (obj_at h) n i"
  obtains h' where "go_bind (down less i n h) (\<lambda>(i', h1). if \<not> i' > i then up less i h1 else Ret h1) = Ret h'"
    "rearranged n h h'" "ordered (obj_at h') n"
proof -
  obtain i' h1 where h1: "down less i n h = Ret (i', h1)" "rearranged n h h1" "i \<le> i'"
     "if i' = i then h1 = h \<and> but_up (obj_at h) n i else ordered (obj_at h1) n"
    using down_correct [OF assms(1,2,4)] by blast
  show ?thesis
  proof (cases "i' = i")
    case True
    then obtain h' where "up less i h = Ret h'" "rearranged n h h'" "ordered (obj_at h') n"
      using up_correct [OF assms(1,3,2)] h1(4) by auto
    then show ?thesis using that h1 True by simp
  next
    case False
    then show ?thesis using that h1 by simp
  qed
qed

end

section \<open>The operations\<close>

lemma Pop_data_indexed:
  assumes "indexed h" "queue h \<noteq> []"
  obtains x h' where "Pop_data h = Ret (Some x, h')" "contents h (last (queue h)) = Some x" "indexed h'" "queue h' = butlast (queue h)"
    "contents h' = (contents h)(last (queue h) := None)" "\<And>i. i < length (queue h) - 1 \<Longrightarrow> obj_at h' i = obj_at h i"
proof -
  let ?k = "last (queue h)" let ?n = "length (queue h) - 1"
  have l: "?k = queue h ! ?n" "?n < length (queue h)" using assms(2) by (simp_all add: last_conv_nth)
  obtain it where it: "map_of (items h) ?k = Some it" using indexed_item [OF assms(1) l(2)] l(1) by metis
  let ?h = "h\<lparr>queue := butlast (queue h), items := AList.delete ?k (items h)\<rparr>"
  have m: "map_of (AList.delete ?k (items h)) = (map_of (items h))(?k := None)" by (simp add: delete_conv')
  have d: "distinct (queue h)" by (rule indexed_distinct [OF assms(1)])
  have nk: "butlast (queue h) ! i \<noteq> ?k" if "i < ?n" for i
    using d that l by (simp add: nth_butlast nth_eq_iff_index_eq)
  have s: "set (butlast (queue h)) = set (queue h) - {?k}"
    using d assms(2) by (metis Diff_insert_absorb append_butlast_last_id distinct_append distinct.simps(2) insert_is_Un list.set(2) set_append empty_set Un_empty_right Un_commute insertI1 disjoint_iff)
  have c: "contents ?h = (contents h)(?k := None)" by (auto simp: contents_def m fun_eq_iff)
  have o: "obj_at ?h i = obj_at h i" if "i < ?n" for i using nk that by (simp add: obj_at_def c nth_butlast)
  have "indexed ?h"
  proof (rule indexedI)
    show "distinct (map fst (items ?h))" using assms(1) by (simp add: indexed_def distinct_delete)
    show "map_of (items ?h) k = None \<longleftrightarrow> k \<notin> set (queue ?h)" for k using indexed_None [OF assms(1)] by (auto simp: m s)
    show "\<exists>it. map_of (items ?h) (queue ?h ! i) = Some it \<and> item_index it = i" if i: "i < length (queue ?h)" for i
    proof -
      have "i < ?n" "i < length (queue h)" using i by auto
      then show ?thesis using nk [of i] indexed_item [OF assms(1), of i] by (simp add: m nth_butlast) metis
    qed
  qed
  then show ?thesis using that [of "obj it" ?h] it assms(2) c o by (simp add: Pop_data_def Let_def contents_def)
qed

context weak_order
begin

lemma heap_inv_iff: "heap_inv less h \<longleftrightarrow> indexed h \<and> ordered (obj_at h) (length (queue h))"
  by (simp add: heap_inv_def ordered_def ordered_at_def)

lemma rearranged_inv:
  "rearranged (length (queue h)) h h' \<Longrightarrow> ordered (obj_at h') (length (queue h)) \<Longrightarrow> heap_inv less h' \<and> contents h' = contents h"
  unfolding heap_inv_iff using rearranged_length by (metis rearranged_def)

lemma new_inv: "heap_inv less NewHeap" "contents NewHeap = Map.empty"
  by (auto simp: heap_inv_def indexed_def NewHeap_def contents_def)

lemma Fix_correct:
  assumes "heap_inv less h" "map_of (items h) k = Some it"
  obtains h' where "heap_Fix less (item_index it) (h\<lparr>items := AList.update k (it\<lparr>obj := x\<rparr>) (items h)\<rparr>) = Ret h'"
    "heap_inv less h'" "contents h' = (contents h)(k \<mapsto> x)"
proof -
  let ?i = "item_index it" let ?h = "h\<lparr>items := AList.update k (it\<lparr>obj := x\<rparr>) (items h)\<rparr>"
  have ix: "indexed h" and o: "ordered (obj_at h) (length (queue h))" using assms(1) by (auto simp: heap_inv_iff)
  have i: "?i < length (queue h)" "queue h ! ?i = k" using indexed_key [OF ix assms(2)] by auto
  have c: "contents ?h = (contents h)(k \<mapsto> x)" by (auto simp: contents_def update_conv' fun_eq_iff)
  have m: "map_of (items ?h) = (map_of (items h))(k \<mapsto> it\<lparr>obj := x\<rparr>)" by (simp add: update_conv')
  have ix': "indexed ?h"
  proof (rule indexedI)
    show "distinct (map fst (items ?h))" using ix by (simp add: indexed_def distinct_update)
    show "map_of (items ?h) k' = None \<longleftrightarrow> k' \<notin> set (queue ?h)" for k' unfolding m using indexed_None [OF ix, of k'] i nth_mem [OF i(1)] by auto
    show "\<exists>it. map_of (items ?h) (queue ?h ! j) = Some it \<and> item_index it = j" if j: "j < length (queue ?h)" for j
    proof -
      obtain z where "map_of (items h) (queue h ! j) = Some z" "item_index z = j" using indexed_item [OF ix, of j] j by auto
      then show ?thesis using assms(2) by (cases "queue h ! j = k") (simp_all add: update_conv')
    qed
  qed
  have "obj_at ?h j = obj_at h j" if "j < length (queue h)" "j \<noteq> ?i" for j
    using that i indexed_distinct [OF ix] by (auto simp: obj_at_def c nth_eq_iff_index_eq)
  then have "but_at (obj_at ?h) (length (queue ?h)) ?i" using but_at_cong [OF ordered_but_at [OF o]] by simp
  then obtain h' where "go_bind (down less ?i (length (queue ?h)) ?h) (\<lambda>(i', h1). if \<not> i' > ?i then up less ?i h1 else Ret h1) = Ret h'"
      "rearranged (length (queue ?h)) ?h h'" "ordered (obj_at h') (length (queue ?h))"
    by (rule settle [OF ix', rotated 2]) (use i in simp_all)
  then show ?thesis using that [of h'] rearranged_inv [of ?h h'] c by (simp add: heap_Fix_def)
qed

lemma Push_correct:
  assumes "heap_inv less h" "map_of (items h) k = None"
  obtains h' where "heap_Push less k x h = Ret h'" "heap_inv less h'" "contents h' = (contents h)(k \<mapsto> x)"
proof -
  let ?h = "Push k x h" let ?n = "length (queue h)"
  have ix: "indexed h" and o: "ordered (obj_at h) ?n" using assms(1) by (auto simp: heap_inv_iff)
  have q: "queue ?h = queue h @ [k]" by (simp add: Push_def)
  have nk: "k \<notin> set (queue h)" using indexed_None [OF ix] assms(2) by blast
  have m: "map_of (items ?h) = (map_of (items h))(k \<mapsto> \<lparr>obj = x, item_index = ?n\<rparr>)" by (simp add: Push_def update_conv')
  have c: "contents ?h = (contents h)(k \<mapsto> x)" by (auto simp: contents_def m fun_eq_iff)
  have ix': "indexed ?h"
  proof (rule indexedI)
    show "distinct (map fst (items ?h))" using ix by (simp add: indexed_def Push_def distinct_update)
    show "map_of (items ?h) k' = None \<longleftrightarrow> k' \<notin> set (queue ?h)" for k' using indexed_None [OF ix, of k'] by (auto simp: m q)
    show "\<exists>it. map_of (items ?h) (queue ?h ! j) = Some it \<and> item_index it = j" if j: "j < length (queue ?h)" for j
    proof (cases "j < ?n")
      case True
      then obtain z where "map_of (items h) (queue h ! j) = Some z" "item_index z = j" using indexed_item [OF ix, of j] by auto
      then show ?thesis using True nk by (auto simp: m q nth_append)
    next
      case False
      then have "j = ?n" using j q by simp
      then show ?thesis by (simp add: m q)
    qed
  qed
  have "obj_at ?h j = obj_at h j" if "j < ?n" for j using that nk by (auto simp: obj_at_def c q nth_append)
  then have "ordered_at (obj_at ?h) j" if "j < ?n" for j
    using o that by (auto simp: ordered_def ordered_at_def)
  moreover have "\<not> (c < Suc ?n \<and> 0 < c \<and> (c - 1) div 2 = ?n)" for c by auto
  ultimately have "but_up (obj_at ?h) (Suc ?n) ?n" by (auto simp: but_up_def skips_def less_Suc_eq)
  then obtain h' where "up less ?n ?h = Ret h'" "rearranged (Suc ?n) ?h h'" "ordered (obj_at h') (Suc ?n)"
    using up_correct [OF ix', of ?n "Suc ?n"] by (auto simp: q)
  then show ?thesis using that [of h'] rearranged_inv [of ?h h'] c by (simp add: heap_Push_def q)
qed

text \<open>Exchanging a position with the last one and settling it among the others.\<close>

lemma remove_last:
  assumes "heap_inv less h" "i < length (queue h)"
  obtains h1 where "Swap i (length (queue h) - 1) h = Ret h1" "indexed h1" "length (queue h1) = length (queue h)"
    "contents h1 = contents h" "last (queue h1) = queue h ! i" "but_at (obj_at h1) (length (queue h) - 1) i"
proof -
  let ?n = "length (queue h) - 1"
  have ix: "indexed h" and o: "ordered (obj_at h) (length (queue h))" using assms(1) by (auto simp: heap_inv_iff)
  have n: "?n < length (queue h)" using assms(2) by simp
  obtain h1 where h1: "Swap i ?n h = Ret h1" "indexed h1" "length (queue h1) = length (queue h)"
      "obj_at h1 = (obj_at h)(i := obj_at h ?n, ?n := obj_at h i)" "queue h1 = (queue h)[i := queue h ! ?n, ?n := queue h ! i]" "contents h1 = contents h"
    using Swap_rearranged [OF ix assms(2) n] by metis
  have "ordered (obj_at h) ?n" using o by (auto simp: ordered_def)
  then have "but_at (obj_at h1) ?n i" by (intro but_at_cong [OF ordered_but_at]) (auto simp: h1(4))
  moreover have "queue h1 \<noteq> []" using h1(3) assms(2) by auto
  then have "last (queue h1) = queue h ! i" using assms(2) h1(3) by (simp add: last_conv_nth) (simp add: h1(5))
  ultimately show ?thesis using that h1 by blast
qed

lemma drop_last:
  assumes "indexed h" "queue h \<noteq> []" "rearranged (length (queue h) - 1) h h2" "ordered (obj_at h2) (length (queue h) - 1)"
  obtains x h' where "Pop_data h2 = Ret (Some x, h')" "contents h (last (queue h)) = Some x" "heap_inv less h'" "contents h' = (contents h)(last (queue h) := None)"
proof -
  let ?n = "length (queue h) - 1"
  have len: "length (queue h2) = length (queue h)" by (rule rearranged_length [OF assms(3)])
  have "drop ?n (queue h2) = drop ?n (queue h)" using assms(3) by (simp add: rearranged_def)
  then have l: "last (queue h2) = last (queue h)" using len assms(2) by (metis diff_less last_drop length_greater_0_conv zero_less_one)
  have ne: "queue h2 \<noteq> []" using len assms(2) by auto
  have r: "indexed h2" "contents h2 = contents h" using assms(3) by (auto simp: rearranged_def)
  obtain x h' where p: "Pop_data h2 = Ret (Some x, h')" "contents h2 (last (queue h2)) = Some x" "indexed h'" "queue h' = butlast (queue h2)"
      "contents h' = (contents h2)(last (queue h2) := None)" "\<And>i. i < length (queue h2) - 1 \<Longrightarrow> obj_at h' i = obj_at h2 i"
    using Pop_data_indexed [OF r(1) ne] by metis
  have "ordered (obj_at h') ?n" using assms(4) p(6) len by (auto simp: ordered_def ordered_at_def)
  then have "heap_inv less h'" using p(3,4) len by (simp add: heap_inv_iff)
  then show ?thesis using that p l r(2) by simp
qed

end

context weak_order
begin

lemma heap_Pop_correct:
  assumes "heap_inv less h" "queue h \<noteq> []"
  obtains x h' where "heap_Pop less h = Ret (Some x, h')" "contents h (queue h ! 0) = Some x" "heap_inv less h'"
    "contents h' = (contents h)(queue h ! 0 := None)"
proof -
  let ?n = "length (queue h) - 1"
  obtain h1 where h1: "Swap 0 ?n h = Ret h1" "indexed h1" "length (queue h1) = length (queue h)"
      "contents h1 = contents h" "last (queue h1) = queue h ! 0" "but_at (obj_at h1) ?n 0"
    using remove_last [OF assms(1), of 0] assms(2) by auto
  obtain i' h2 where h2: "down less 0 ?n h1 = Ret (i', h2)" "rearranged ?n h1 h2"
      "if i' = 0 then h2 = h1 \<and> but_up (obj_at h1) ?n 0 else ordered (obj_at h2) ?n"
    using down_correct [OF h1(2) _ h1(6)] h1(3) by auto
  have "ordered (obj_at h2) ?n"
  proof (cases "i' = 0 \<and> 0 < ?n")
    case True
    then show ?thesis using h2(3) but_up_ordered [of _ _ 0] by (auto simp: ordered_at_def)
  qed (use h2(3) in \<open>auto simp: ordered_def split: if_splits\<close>)
  moreover have ne: "queue h1 \<noteq> []" using h1(3) assms(2) by auto
  ultimately obtain x h' where p: "Pop_data h2 = Ret (Some x, h')" "contents h1 (last (queue h1)) = Some x" "heap_inv less h'"
      "contents h' = (contents h1)(last (queue h1) := None)"
    using drop_last [OF h1(2), of h2] h2(2) h1(3) by auto
  show ?thesis using that p h1 h2(1) assms(2) by (simp add: heap_Pop_def)
qed

lemma heap_Remove_correct:
  assumes "heap_inv less h" "map_of (items h) k = Some it"
  obtains x h' where "heap_Remove less (item_index it) h = Ret (Some x, h')" "heap_inv less h'" "contents h' = (contents h)(k := None)"
proof -
  let ?n = "length (queue h) - 1" let ?i = "item_index it"
  have ix: "indexed h" and o: "ordered (obj_at h) (length (queue h))" using assms(1) by (auto simp: heap_inv_iff)
  have i: "?i < length (queue h)" "queue h ! ?i = k" using indexed_key [OF ix assms(2)] by auto
  then have ne: "queue h \<noteq> []" by auto
  show ?thesis
  proof (cases "?n = ?i")
    case True
    have "ordered (obj_at h) ?n" using o by (auto simp: ordered_def)
    then obtain x h' where p: "Pop_data h = Ret (Some x, h')" "heap_inv less h'" "contents h' = (contents h)(last (queue h) := None)"
      by (rule drop_last [OF ix ne rearranged_refl [OF ix]])
    have "last (queue h) = k" using ne True i(2) by (simp add: last_conv_nth)
    then show ?thesis using that p True ne by (simp add: heap_Remove_def)
  next
    case False
    then have lt: "?i < ?n" using i(1) by simp
    obtain h1 where h1: "Swap ?i ?n h = Ret h1" "indexed h1" "length (queue h1) = length (queue h)"
        "contents h1 = contents h" "last (queue h1) = k" "but_at (obj_at h1) ?n ?i"
      using remove_last [OF assms(1) i(1)] i(2) by auto
    obtain h2 where h2: "go_bind (down less ?i ?n h1) (\<lambda>(i', h1). if \<not> i' > ?i then up less ?i h1 else Ret h1) = Ret h2"
        "rearranged ?n h1 h2" "ordered (obj_at h2) ?n"
      using settle [OF h1(2) _ lt h1(6)] h1(3) by auto
    have ne1: "queue h1 \<noteq> []" using h1(3) ne by auto
    obtain x h' where p: "Pop_data h2 = Ret (Some x, h')" "heap_inv less h'" "contents h' = (contents h1)(last (queue h1) := None)"
      by (rule drop_last [OF h1(2) ne1, unfolded h1(3), OF h2(2,3)])
    obtain i' hd where d: "down less ?i ?n h1 = Ret (i', hd)" "(if \<not> i' > ?i then up less ?i hd else Ret hd) = Ret h2"
      using h2(1) by (auto simp: go_simps)
    have "heap_Remove less ?i h = Ret (Some x, h')" using False ne h1(1) d p(1) by (simp add: heap_Remove_def Let_def split: if_splits)
    then show ?thesis using that p h1(4,5) by simp
  qed
qed

lemma Add_correct:
  assumes "heap_inv less h" "kf x = Inr k"
  obtains h' where "Add kf less x h = Ret (None, h')" "heap_inv less h'" "contents h' = (contents h)(k \<mapsto> x)"
proof (cases "map_of (items h) k")
  case None
  obtain h' where "heap_Push less k x h = Ret h'" "heap_inv less h'" "contents h' = (contents h)(k \<mapsto> x)"
    by (rule Push_correct [OF assms(1) None])
  then show ?thesis using that [of h'] assms(2) None by (simp add: Add_def)
next
  case (Some it)
  obtain h' where "heap_Fix less (item_index it) (h\<lparr>items := AList.update k (it\<lparr>obj := x\<rparr>) (items h)\<rparr>) = Ret h'"
    "heap_inv less h'" "contents h' = (contents h)(k \<mapsto> x)" by (rule Fix_correct [OF assms(1) Some])
  then show ?thesis using that [of h'] assms(2) Some by (simp add: Add_def)
qed

lemma AddIfNotPresent_correct:
  assumes "heap_inv less h" "kf x = Inr k"
  obtains h' where "AddIfNotPresent kf less x h = Ret (None, h')" "heap_inv less h'"
    "contents h' = (if k \<in> dom (contents h) then contents h else (contents h)(k \<mapsto> x))"
proof (cases "map_of (items h) k")
  case None
  obtain h' where "heap_Push less k x h = Ret h'" "heap_inv less h'" "contents h' = (contents h)(k \<mapsto> x)"
    by (rule Push_correct [OF assms(1) None])
  then show ?thesis using that [of h'] assms(2) None by (simp add: AddIfNotPresent_def domIff contents_def [of h k])
next
  case (Some it)
  then show ?thesis using that [of h] assms by (simp add: AddIfNotPresent_def domIff contents_def [of h k])
qed

lemma Delete_correct:
  assumes "heap_inv less h" "kf x = Inr k"
  obtains h' where "Delete kf less x h = Ret (if k \<in> dom (contents h) then None else Some ''object not found'', h')" "heap_inv less h'"
    "contents h' = (contents h)(k := None)"
proof (cases "map_of (items h) k")
  case None
  then have "contents h k = None" by (simp add: contents_def)
  then show ?thesis using that [of h] assms None by (simp add: Delete_def domIff fun_upd_idem)
next
  case (Some it)
  obtain y h' where "heap_Remove less (item_index it) h = Ret (Some y, h')" "heap_inv less h'" "contents h' = (contents h)(k := None)"
    by (rule heap_Remove_correct [OF assms(1) Some])
  then show ?thesis using that [of h'] assms(2) Some by (simp add: Delete_def domIff contents_def [of h k])
qed

lemma Pop_correct:
  assumes "heap_inv less h" "contents h \<noteq> Map.empty"
  obtains x k h' where "Pop less h = Ret (Inr x, h')" "contents h k = Some x" "heap_inv less h'" "contents h' = (contents h)(k := None)"
    "\<forall>y\<in>ran (contents h). \<not> less y x" "Peek h = Ret (Some x)"
proof -
  have ix: "indexed h" and o: "ordered (obj_at h) (length (queue h))" using assms(1) by (auto simp: heap_inv_iff)
  have d: "dom (contents h) = set (queue h)" by (rule dom_contents [OF ix])
  then have ne: "queue h \<noteq> []" using assms(2) by (metis dom_eq_empty_conv empty_set)
  obtain x h' where p: "heap_Pop less h = Ret (Some x, h')" "contents h (queue h ! 0) = Some x" "heap_inv less h'"
      "contents h' = (contents h)(queue h ! 0 := None)"
    using heap_Pop_correct [OF assms(1) ne] .
  have "\<not> less y x" if y: "contents h k' = Some y" for k' y
  proof -
    have "k' \<in> set (queue h)" using y d by blast
    then obtain i where i: "i < length (queue h)" "queue h ! i = k'" by (auto simp: in_set_conv_nth)
    have "obj_at h i = y" "obj_at h 0 = x" using y i(2) p(2) by (auto simp: obj_at_def)
    then show ?thesis using root_least [OF o i(1)] by simp
  qed
  then have "\<forall>y\<in>ran (contents h). \<not> less y x" by (auto simp: ran_def)
  moreover have "Peek h = Ret (Some x)" using p(2) ne by (auto simp: Peek_def contents_def)
  ultimately show ?thesis using that p by (simp add: Pop_def)
qed

lemma Peek_empty: "heap_inv less h \<Longrightarrow> contents h = Map.empty \<Longrightarrow> Peek h = Ret None"
proof -
  assume h: "heap_inv less h" "contents h = Map.empty"
  then have "queue h = []" using dom_contents [of h] by (simp add: heap_inv_def)
  then show ?thesis by (simp add: Peek_def)
qed

lemma Pop_empty: "heap_inv less h \<Longrightarrow> contents h = Map.empty \<Longrightarrow> Pop less h = Panic IndexOutOfRange"
proof -
  assume h: "heap_inv less h" "contents h = Map.empty"
  then have "queue h = []" using dom_contents [of h] by (simp add: heap_inv_def)
  then show ?thesis by (simp add: Pop_def heap_Pop_def)
qed

lemma Len_correct: "heap_inv less h \<Longrightarrow> Len h = card (dom (contents h))"
  using dom_contents [of h] indexed_distinct [of h] by (simp add: heap_inv_def Len_def distinct_card)

lemma List_correct: "heap_inv less h \<Longrightarrow> set (List h) = ran (contents h)"
proof -
  assume "heap_inv less h"
  then have "distinct (map fst (items h))" by (simp add: heap_inv_def indexed_def)
  then have "ran (map_of (items h)) = snd ` set (items h)" by (rule ran_distinct)
  moreover have "contents h = (\<lambda>k. map_option obj (map_of (items h) k))" by (simp add: contents_def fun_eq_iff)
  ultimately show ?thesis by (simp add: List_def ran_map_option image_image)
qed

end

section \<open>Property\<close>

text \<open>
  C22: The heap implements a map from keys to objects with a least element. With an order that is a
  strict weak order and a heap in order, adding and deleting never panic, keep the heap in order and
  change the map at the key of the object only; deleting reports whether the key was there; looking up
  reads the map; popping an object removes a key whose object no other is before, and panics exactly
  when the map is empty.
\<close>

theorem heap_refines_priority_map:
  assumes "weak_order lf" "heap_inv lf h" "kf x = Inr k"
  shows "(\<exists>h'. Add kf lf x h = Ret (None, h') \<and> heap_inv lf h' \<and> contents h' = (contents h)(k \<mapsto> x)) \<and>
    (\<exists>h'. Delete kf lf x h = Ret (if k \<in> dom (contents h) then None else Some ''object not found'', h') \<and>
       heap_inv lf h' \<and> contents h' = (contents h)(k := None)) \<and>
    Get kf x h = Inr (contents h k) \<and>
    (if contents h = Map.empty then Pop lf h = Panic IndexOutOfRange
     else \<exists>y k' h'. Pop lf h = Ret (Inr y, h') \<and> contents h k' = Some y \<and> heap_inv lf h' \<and>
            contents h' = (contents h)(k' := None) \<and> (\<forall>z\<in>ran (contents h). \<not> lf z y))"
proof (intro conjI)
  show "\<exists>h'. Add kf lf x h = Ret (None, h') \<and> heap_inv lf h' \<and> contents h' = (contents h)(k \<mapsto> x)"
    by (rule weak_order.Add_correct [where kf = kf, OF assms]) blast
  show "\<exists>h'. Delete kf lf x h = Ret (if k \<in> dom (contents h) then None else Some ''object not found'', h') \<and>
       heap_inv lf h' \<and> contents h' = (contents h)(k := None)"
    by (rule weak_order.Delete_correct [where kf = kf, OF assms]) blast
  show "Get kf x h = Inr (contents h k)" using assms(3) by (simp add: Get_def GetByKey_def contents_def)
  show "if contents h = Map.empty then Pop lf h = Panic IndexOutOfRange
     else \<exists>y k' h'. Pop lf h = Ret (Inr y, h') \<and> contents h k' = Some y \<and> heap_inv lf h' \<and>
            contents h' = (contents h)(k' := None) \<and> (\<forall>z\<in>ran (contents h). \<not> lf z y)"
  proof (cases "contents h = Map.empty")
    case True
    then show ?thesis using weak_order.Pop_empty [OF assms(1,2)] by simp
  next
    case False
    show ?thesis by (rule weak_order.Pop_correct [OF assms(1,2) False]) (use False in auto)
  qed
qed

definition ex_heap :: "int data" where
  "ex_heap = \<lparr>items = [(''a'', \<lparr>obj = 4, item_index = 1\<rparr>), (''b'', \<lparr>obj = 2, item_index = 0\<rparr>), (''c'', \<lparr>obj = 7, item_index = 2\<rparr>)],
     queue = [''b'', ''a'', ''c'']\<rparr>"

lemma ex_heap_inv: "heap_inv (<) ex_heap"
proof -
  have "indexed ex_heap"
    by (rule indexedI) (auto simp: ex_heap_def less_Suc_eq numeral_eq_Suc)
  then show ?thesis by (simp add: heap_inv_def) (auto simp: ex_heap_def obj_at_def contents_def less_Suc_eq numeral_eq_Suc)
qed

theorem heap_refines_priority_map_witness:
  "\<exists>y k' h'. Pop (<) ex_heap = Ret (Inr y, h') \<and> contents ex_heap k' = Some y \<and> heap_inv (<) h' \<and>
     contents h' = (contents ex_heap)(k' := None) \<and> y = 2"
proof -
  have o: "weak_order ((<) :: int \<Rightarrow> int \<Rightarrow> bool)" by unfold_locales auto
  have c: "contents ex_heap ''b'' = Some 2" by (simp add: contents_def ex_heap_def)
  then have "contents ex_heap \<noteq> Map.empty" by auto
  moreover have "(case Pop (<) ex_heap of Ret (Inr y, _) \<Rightarrow> y = 2 | _ \<Rightarrow> False)" by code_simp
  ultimately show ?thesis using heap_refines_priority_map [OF o ex_heap_inv, of "\<lambda>_. Inr ''z''" 0 "''z''"] by (auto split: go.splits)
qed

end
