(* ===== verification/Queue_Props.thy ===== *)
theory Queue_Props
  imports Sched_Queue Heap_Props
begin

text \<open>
  The scheduling queue keeps every pod in at most one of its three queues, but for updates without an
  old pod of pods that are not active. The queue is read as three
  maps, \<open>qabs\<close>; each operation acts on them as one of a few moves that keep the maps apart. The laws
  of the heap come from \<open>weak_order\<close>, for the order of the active pods and for that of the pods that
  back off, through the locale \<open>pq_orders\<close>.
\<close>

section \<open>Keys\<close>

text \<open>Names of pods and namespaces have no slash, names of pods no underscore.\<close>

definition pod_ok :: "kpod \<Rightarrow> bool" where
  "pod_ok p \<longleftrightarrow> CHR ''/'' \<notin> set (kName p) \<and> CHR ''/'' \<notin> set (kNamespace p) \<and> CHR ''_'' \<notin> set (kName p)"

definition same_pod :: "kpod \<Rightarrow> kpod \<Rightarrow> bool" where
  "same_pod p p' \<longleftrightarrow> kNamespace p = kNamespace p' \<and> kName p = kName p'"

lemma split_at: "a @ x # b = a' @ x # b' \<Longrightarrow> x \<notin> set a \<Longrightarrow> x \<notin> set a' \<Longrightarrow> a = a' \<and> b = b'"
  by (induction a arbitrary: a') (auto simp: Cons_eq_append_conv)

lemma key_iff: "pod_ok p \<Longrightarrow> pod_ok p' \<Longrightarrow> MetaNamespaceKeyFunc p = MetaNamespaceKeyFunc p' \<longleftrightarrow> same_pod p p'"
  by (auto simp: MetaNamespaceKeyFunc_def pod_ok_def same_pod_def dest: split_at split: if_splits)
     (metis append_Cons append_Nil in_set_conv_decomp)+

lemma fullname_iff: "pod_ok p \<Longrightarrow> pod_ok p' \<Longrightarrow> GetPodFullName p = GetPodFullName p' \<longleftrightarrow> same_pod p p'"
  by (auto simp: GetPodFullName_def pod_ok_def same_pod_def dest: split_at)

section \<open>Three maps kept apart\<close>

type_synonym qmaps = "(string \<rightharpoonup> queuedPodInfo) \<times> (string \<rightharpoonup> queuedPodInfo) \<times> (string \<rightharpoonup> queuedPodInfo)"

definition qabs :: "priorityQueue \<Rightarrow> qmaps" where
  "qabs q = (contents (activeQ q), contents (podBackoffQ q), map_of (unschedulableQ q))"

definition keyed_by :: "(kpod \<Rightarrow> string) \<Rightarrow> (string \<rightharpoonup> queuedPodInfo) \<Rightarrow> bool" where
  "keyed_by f m \<longleftrightarrow> (\<forall>k pi. m k = Some pi \<longrightarrow> k = f (qPod pi) \<and> pod_ok (qPod pi))"

definition holds_pod :: "(kpod \<Rightarrow> string) \<Rightarrow> (string \<rightharpoonup> queuedPodInfo) \<Rightarrow> kpod \<Rightarrow> bool" where
  "holds_pod f m p \<longleftrightarrow> m (f p) \<noteq> None"

fun apart :: "qmaps \<Rightarrow> bool" where
  "apart (A, B, U) \<longleftrightarrow> keyed_by MetaNamespaceKeyFunc A \<and> keyed_by MetaNamespaceKeyFunc B \<and> keyed_by GetPodFullName U \<and>
     (\<forall>p. pod_ok p \<longrightarrow> \<not> (holds_pod MetaNamespaceKeyFunc A p \<and> holds_pod MetaNamespaceKeyFunc B p) \<and>
       \<not> (holds_pod MetaNamespaceKeyFunc A p \<and> holds_pod GetPodFullName U p) \<and>
       \<not> (holds_pod MetaNamespaceKeyFunc B p \<and> holds_pod GetPodFullName U p))"

text \<open>A pod is in one of the queues.\<close>

fun queued :: "qmaps \<Rightarrow> kpod \<Rightarrow> bool" where
  "queued (A, B, U) p \<longleftrightarrow> holds_pod MetaNamespaceKeyFunc A p \<or> holds_pod MetaNamespaceKeyFunc B p \<or> holds_pod GetPodFullName U p"

lemma keyed_upd: "keyed_by f m \<Longrightarrow> pod_ok (qPod pi) \<Longrightarrow> keyed_by f (m(f (qPod pi) \<mapsto> pi))"
  by (auto simp: keyed_by_def)

lemma keyed_del: "keyed_by f m \<Longrightarrow> keyed_by f (m(k := None))"
  by (auto simp: keyed_by_def)

lemma put_active:
  assumes "apart (A, B, U)" "pod_ok p" "same_pod (qPod pi) p" "pod_ok (qPod pi)"
  shows "apart (A(MetaNamespaceKeyFunc (qPod pi) \<mapsto> pi), B(MetaNamespaceKeyFunc p := None), U(GetPodFullName p := None))"
  using assms key_iff fullname_iff
  by (auto simp: keyed_upd keyed_del holds_pod_def same_pod_def)

lemma put_backoff:
  assumes "apart (A, B, U)" "pod_ok p" "same_pod (qPod pi) p" "pod_ok (qPod pi)"
  shows "apart (A(MetaNamespaceKeyFunc p := None), B(MetaNamespaceKeyFunc (qPod pi) \<mapsto> pi), U(GetPodFullName p := None))"
  using assms key_iff fullname_iff
  by (auto simp: keyed_upd keyed_del holds_pod_def same_pod_def)

lemma put_unschedulable:
  assumes "apart (A, B, U)" "pod_ok p" "same_pod (qPod pi) p" "pod_ok (qPod pi)"
  shows "apart (A(MetaNamespaceKeyFunc p := None), B(MetaNamespaceKeyFunc p := None), U(GetPodFullName (qPod pi) \<mapsto> pi))"
  using assms key_iff fullname_iff
  by (auto simp: keyed_upd keyed_del holds_pod_def same_pod_def)

lemma take_out: "apart (A, B, U) \<Longrightarrow> apart (A(k := None), B(k' := None), U(k'' := None))"
  by (auto simp: keyed_del holds_pod_def)

lemma apart_elsewhere:
  assumes "apart (A, B, U)" "pod_ok p"
  shows "holds_pod MetaNamespaceKeyFunc A p \<Longrightarrow> B(MetaNamespaceKeyFunc p := None) = B \<and> U(GetPodFullName p := None) = U"
    "holds_pod MetaNamespaceKeyFunc B p \<Longrightarrow> A(MetaNamespaceKeyFunc p := None) = A \<and> U(GetPodFullName p := None) = U"
    "holds_pod GetPodFullName U p \<Longrightarrow> A(MetaNamespaceKeyFunc p := None) = A \<and> B(MetaNamespaceKeyFunc p := None) = B"
  using assms by (auto simp: holds_pod_def fun_upd_idem_iff)

section \<open>Orders\<close>

lemma backoff_order: "weak_order (podsCompareBackoffCompleted c)"
  by unfold_locales (auto simp: podsCompareBackoffCompleted_def)

locale pq_orders =
  fixes c :: pqConf
  assumes active_order: "weak_order (lessFn c)"

interpretation prioritySort: weak_order PrioritySort_Less
  by unfold_locales (auto simp: PrioritySort_Less_def)

text \<open>The queue in order: its heaps, and one entry per name among the unschedulable pods.\<close>

definition qok :: "pqConf \<Rightarrow> priorityQueue \<Rightarrow> bool" where
  "qok c q \<longleftrightarrow> heap_inv (lessFn c) (activeQ q) \<and> heap_inv (podsCompareBackoffCompleted c) (podBackoffQ q) \<and> distinct (map fst (unschedulableQ q))"

definition pq_inv :: "pqConf \<Rightarrow> priorityQueue \<Rightarrow> bool" where
  "pq_inv c q \<longleftrightarrow> qok c q \<and> apart (qabs q)"

lemma qok_uq [simp]: "qok c q \<Longrightarrow> qok c (uq_delete p q)" "qok c q \<Longrightarrow> qok c (uq_addOrUpdate pi q)"
  by (simp_all add: qok_def uq_delete_def uq_addOrUpdate_def distinct_delete distinct_update)

lemma qok_others [simp]:
  "qok c (AddNominatedPod c' p nn q) = qok c q" "qok c (DeleteNominatedPodIfExists p q) = qok c q"
  "qok c (q\<lparr>moveRequestCycle := x\<rparr>) = qok c q" "qok c (q\<lparr>schedulingCycle := x\<rparr>) = qok c q" "qok c (q\<lparr>PodNominator := npm\<rparr>) = qok c q"
  by (simp_all add: qok_def AddNominatedPod_def DeleteNominatedPodIfExists_def)

lemma qabs_others [simp]:
  "qabs (AddNominatedPod c' p nn q) = qabs q" "qabs (DeleteNominatedPodIfExists p q) = qabs q"
  "qabs (q\<lparr>moveRequestCycle := x\<rparr>) = qabs q" "qabs (q\<lparr>schedulingCycle := x\<rparr>) = qabs q" "qabs (q\<lparr>PodNominator := npm\<rparr>) = qabs q"
  by (simp_all add: qabs_def AddNominatedPod_def DeleteNominatedPodIfExists_def)

lemma qabs_uq_delete [simp]: "qabs q = (A, B, U) \<Longrightarrow> qabs (uq_delete p q) = (A, B, U(GetPodFullName p := None))"
  by (auto simp: qabs_def uq_delete_def delete_conv')

lemma qabs_uq_add [simp]: "qabs q = (A, B, U) \<Longrightarrow> qabs (uq_addOrUpdate pi q) = (A, B, U(GetPodFullName (qPod pi) \<mapsto> pi))"
  by (auto simp: qabs_def uq_addOrUpdate_def update_conv')

lemma lookups:
  assumes "qabs q = (A, B, U)"
  shows "activeQ_Get pi q = A (MetaNamespaceKeyFunc (qPod pi))" "backoffQ_Get pi q = B (MetaNamespaceKeyFunc (qPod pi))" "uq_get p q = U (GetPodFullName p)"
  using assms by (auto simp: qabs_def activeQ_Get_def backoffQ_Get_def uq_get_def Get_def GetByKey_def podInfoKeyFunc_def contents_def)

context pq_orders
begin

lemma activeQ_Add_ok:
  assumes "qok c q" "qabs q = (A, B, U)"
  obtains q' where "activeQ_Add c pi q = Ret (None, q')" "qok c q'" "qabs q' = (A(MetaNamespaceKeyFunc (qPod pi) \<mapsto> pi), B, U)"
proof -
  have "heap_inv (lessFn c) (activeQ q)" using assms(1) by (simp add: qok_def)
  then obtain h where h: "Heap.Add podInfoKeyFunc (lessFn c) pi (activeQ q) = Ret (None, h)" "heap_inv (lessFn c) h"
      "contents h = (contents (activeQ q))(MetaNamespaceKeyFunc (qPod pi) \<mapsto> pi)"
    by (rule weak_order.Add_correct [OF active_order, where kf = podInfoKeyFunc and x = pi]) (simp add: podInfoKeyFunc_def)
  show ?thesis by (rule that [of "q\<lparr>activeQ := h\<rparr>"]) (use assms h in \<open>auto simp: activeQ_Add_def on_activeQ_def qok_def qabs_def\<close>)
qed

lemma backoffQ_Add_ok:
  assumes "qok c q" "qabs q = (A, B, U)"
  obtains q' where "backoffQ_Add c pi q = Ret (None, q')" "qok c q'" "qabs q' = (A, B(MetaNamespaceKeyFunc (qPod pi) \<mapsto> pi), U)"
proof -
  have "heap_inv (podsCompareBackoffCompleted c) (podBackoffQ q)" using assms(1) by (simp add: qok_def)
  then obtain h where h: "Heap.Add podInfoKeyFunc (podsCompareBackoffCompleted c) pi (podBackoffQ q) = Ret (None, h)"
      "heap_inv (podsCompareBackoffCompleted c) h" "contents h = (contents (podBackoffQ q))(MetaNamespaceKeyFunc (qPod pi) \<mapsto> pi)"
    by (rule weak_order.Add_correct [OF backoff_order, where kf = podInfoKeyFunc and x = pi]) (simp add: podInfoKeyFunc_def)
  show ?thesis by (rule that [of "q\<lparr>podBackoffQ := h\<rparr>"]) (use assms h in \<open>auto simp: backoffQ_Add_def on_backoffQ_def qok_def qabs_def\<close>)
qed

lemma activeQ_Delete_ok:
  assumes "qok c q" "qabs q = (A, B, U)"
  obtains q' where "activeQ_Delete c pi q = Ret (if MetaNamespaceKeyFunc (qPod pi) \<in> dom A then None else Some ''object not found'', q')"
    "qok c q'" "qabs q' = (A(MetaNamespaceKeyFunc (qPod pi) := None), B, U)"
proof -
  have "heap_inv (lessFn c) (activeQ q)" using assms(1) by (simp add: qok_def)
  then obtain h where h: "Heap.Delete podInfoKeyFunc (lessFn c) pi (activeQ q) =
        Ret (if MetaNamespaceKeyFunc (qPod pi) \<in> dom (contents (activeQ q)) then None else Some ''object not found'', h)"
      "heap_inv (lessFn c) h" "contents h = (contents (activeQ q))(MetaNamespaceKeyFunc (qPod pi) := None)"
    by (rule weak_order.Delete_correct [OF active_order, where kf = podInfoKeyFunc and x = pi]) (simp add: podInfoKeyFunc_def)
  show ?thesis by (rule that [of "q\<lparr>activeQ := h\<rparr>"]) (use assms h in \<open>auto simp: activeQ_Delete_def on_activeQ_def qok_def qabs_def\<close>)
qed

lemma backoffQ_Delete_ok:
  assumes "qok c q" "qabs q = (A, B, U)"
  obtains r q' where "backoffQ_Delete c pi q = Ret (r, q')" "qok c q'" "qabs q' = (A, B(MetaNamespaceKeyFunc (qPod pi) := None), U)"
proof -
  have "heap_inv (podsCompareBackoffCompleted c) (podBackoffQ q)" using assms(1) by (simp add: qok_def)
  then obtain h where h: "Heap.Delete podInfoKeyFunc (podsCompareBackoffCompleted c) pi (podBackoffQ q) =
        Ret (if MetaNamespaceKeyFunc (qPod pi) \<in> dom (contents (podBackoffQ q)) then None else Some ''object not found'', h)"
      "heap_inv (podsCompareBackoffCompleted c) h" "contents h = (contents (podBackoffQ q))(MetaNamespaceKeyFunc (qPod pi) := None)"
    by (rule weak_order.Delete_correct [OF backoff_order, where kf = podInfoKeyFunc and x = pi]) (simp add: podInfoKeyFunc_def)
  show ?thesis by (rule that [of _ "q\<lparr>podBackoffQ := h\<rparr>"]) (use assms h in \<open>auto simp: backoffQ_Delete_def on_backoffQ_def qok_def qabs_def\<close>)
qed

lemma pq_Add_inv:
  assumes "pq_inv c q" "pod_ok pod"
  obtains q' where "pq_Add c now pod q = Ret (None, q')" "pq_inv c q'"
proof -
  obtain A B U where a: "qabs q = (A, B, U)" "apart (A, B, U)" "qok c q" using assms(1) by (cases "qabs q") (auto simp: pq_inv_def)
  let ?pi = "newQueuedPodInfo now pod"
  have p: "qPod ?pi = pod" by (simp add: newQueuedPodInfo_def)
  obtain q1 where q1: "activeQ_Add c ?pi q = Ret (None, q1)" "qok c q1" "qabs q1 = (A(MetaNamespaceKeyFunc pod \<mapsto> ?pi), B, U)"
    using activeQ_Add_ok [OF a(3,1), of ?pi] p by metis
  define q2 where "q2 = (if uq_get pod q1 \<noteq> None then uq_delete pod q1 else q1)"
  have q2: "qok c q2" "qabs q2 = (A(MetaNamespaceKeyFunc pod \<mapsto> ?pi), B, U(GetPodFullName pod := None))"
    using q1 lookups(3) [OF q1(3), of pod] by (auto simp: q2_def fun_upd_idem)
  obtain r q3 where q3: "backoffQ_Delete c ?pi q2 = Ret (r, q3)" "qok c q3"
      "qabs q3 = (A(MetaNamespaceKeyFunc pod \<mapsto> ?pi), B(MetaNamespaceKeyFunc pod := None), U(GetPodFullName pod := None))"
    using backoffQ_Delete_ok [OF q2, of ?pi] p by metis
  have "apart (qabs q3)" unfolding q3(3) using put_active [OF a(2) assms(2), of ?pi] assms(2) p by (simp add: same_pod_def)
  then show ?thesis using that [of "AddNominatedPod c pod [] q3"] q1(1) q3(1) [unfolded q2_def] q3(2) by (simp add: pq_Add_def pq_inv_def)
qed

end

context pq_orders
begin

lemma invE:
  assumes "pq_inv c q" obtains A B U where "qabs q = (A, B, U)" "apart (A, B, U)" "qok c q"
  using assms by (cases "qabs q") (auto simp: pq_inv_def)

text \<open>A pod found in one of the maps under its key is that pod.\<close>

lemma found:
  assumes "apart (A, B, U)" "pod_ok p"
  shows "A (MetaNamespaceKeyFunc p) = Some pi \<Longrightarrow> same_pod (qPod pi) p \<and> pod_ok (qPod pi)"
    "B (MetaNamespaceKeyFunc p) = Some pi \<Longrightarrow> same_pod (qPod pi) p \<and> pod_ok (qPod pi)"
    "U (GetPodFullName p) = Some pi \<Longrightarrow> same_pod (qPod pi) p \<and> pod_ok (qPod pi)"
  using assms key_iff [of p "qPod pi"] fullname_iff [of p "qPod pi"] by (auto simp: keyed_by_def same_pod_def)

lemma same_key: "same_pod p p' \<Longrightarrow> MetaNamespaceKeyFunc p = MetaNamespaceKeyFunc p'" "same_pod p p' \<Longrightarrow> GetPodFullName p = GetPodFullName p'"
  by (auto simp: MetaNamespaceKeyFunc_def GetPodFullName_def same_pod_def)

lemma activate_inv:
  assumes "pq_inv c q" "pod_ok pod"
  obtains r q' where "activate c pod q = Ret (r, q')" "pq_inv c q'"
proof -
  obtain A B U where a: "qabs q = (A, B, U)" "apart (A, B, U)" "qok c q" using invE [OF assms(1)] .
  have l: "qPod (newQueuedPodInfoForLookup pod) = pod" by (simp add: newQueuedPodInfoForLookup_def)
  note lk = lookups [OF a(1)]
  define found_pi where "found_pi = (case U (GetPodFullName pod) of Some pi \<Rightarrow> Some pi | None \<Rightarrow> B (MetaNamespaceKeyFunc pod))"
  have f: "(case uq_get pod q of Some pi \<Rightarrow> Some pi | None \<Rightarrow> backoffQ_Get (newQueuedPodInfoForLookup pod) q) = found_pi"
    by (simp add: lk l found_pi_def split: option.split)
  show ?thesis
  proof (cases "A (MetaNamespaceKeyFunc pod) = None \<and> found_pi \<noteq> None")
    case False
    then have "activate c pod q = Ret (False, q)" by (auto simp: activate_def f lk(1) l)
    then show ?thesis using that assms(1) by blast
  next
    case True
    then obtain pi where pi: "found_pi = Some pi" by auto
    have s: "same_pod (qPod pi) pod" "pod_ok (qPod pi)" using found(2,3) [OF a(2) assms(2), of pi] pi by (auto simp: found_pi_def split: option.splits)
    obtain q1 where q1: "activeQ_Add c pi q = Ret (None, q1)" "qok c q1" "qabs q1 = (A(MetaNamespaceKeyFunc (qPod pi) \<mapsto> pi), B, U)"
      using activeQ_Add_ok [OF a(3,1), of pi] .
    obtain r q2 where q2: "backoffQ_Delete c pi (uq_delete pod q1) = Ret (r, q2)" "qok c q2"
        "qabs q2 = (A(MetaNamespaceKeyFunc (qPod pi) \<mapsto> pi), B(MetaNamespaceKeyFunc (qPod pi) := None), U(GetPodFullName pod := None))"
      using backoffQ_Delete_ok [OF qok_uq(1) [OF q1(2)] qabs_uq_delete [OF q1(3)], of pi] .
    have "apart (qabs q2)" unfolding q2(3) using put_active [OF a(2) assms(2) s] same_key(1) [OF s(1)] by simp
    moreover have "activate c pod q = Ret (True, AddNominatedPod c (qPod pi) [] q2)"
      using True pi q1(1) q2(1) by (simp add: activate_def f lk(1) l)
    ultimately show ?thesis using that q2(2) by (simp add: pq_inv_def)
  qed
qed

lemma Activate_inv: "pq_inv c q \<Longrightarrow> list_all pod_ok pods \<Longrightarrow> \<exists>q'. Activate c pods q = Ret q' \<and> pq_inv c q'"
proof (induction pods arbitrary: q)
  case (Cons p pods)
  have p: "pod_ok p" using Cons.prems(2) by simp
  obtain r q1 where "activate c p q = Ret (r, q1)" "pq_inv c q1" by (rule activate_inv [OF Cons.prems(1) p])
  then show ?case using Cons.IH [of q1] Cons.prems(2) by auto
qed simp

lemma AddUnschedulable_inv:
  assumes "pq_inv c q" "pod_ok (qPod pi)"
  obtains r q' where "AddUnschedulableIfNotPresent c now pi cycle q = Ret (r, q')" "pq_inv c q'" "queued (qabs q') (qPod pi)"
proof -
  obtain A B U where a: "qabs q = (A, B, U)" "apart (A, B, U)" "qok c q" using invE [OF assms(1)] .
  let ?p = "qPod pi" let ?pi = "pi\<lparr>Timestamp := now\<rparr>"
  have sp: "qPod ?pi = ?p" "same_pod ?p ?p" by (simp_all add: same_pod_def)
  note lk = lookups [OF a(1)]
  show ?thesis
  proof (cases "U (GetPodFullName ?p) = None \<and> A (MetaNamespaceKeyFunc ?p) = None \<and> B (MetaNamespaceKeyFunc ?p) = None")
    case False
    then consider "uq_get ?p q \<noteq> None" | "uq_get ?p q = None" "activeQ_Get pi q \<noteq> None"
      | "uq_get ?p q = None" "activeQ_Get pi q = None" "backoffQ_Get pi q \<noteq> None" using lk by metis
    then have "\<exists>r. AddUnschedulableIfNotPresent c now pi cycle q = Ret (r, q)"
      by cases (simp_all add: AddUnschedulableIfNotPresent_def)
    moreover have "queued (qabs q) ?p" using False a(1) by (auto simp: holds_pod_def)
    ultimately show ?thesis using that assms(1) by blast
  next
    case True
    then have none: "A(MetaNamespaceKeyFunc ?p := None) = A" "B(MetaNamespaceKeyFunc ?p := None) = B" "U(GetPodFullName ?p := None) = U"
      by (auto simp: fun_upd_idem)
    show ?thesis
    proof (cases "moveRequestCycle q \<ge> cycle")
      case m: True
      obtain q1 where q1: "backoffQ_Add c ?pi q = Ret (None, q1)" "qok c q1" "qabs q1 = (A, B(MetaNamespaceKeyFunc ?p \<mapsto> ?pi), U)"
        using backoffQ_Add_ok [OF a(3,1), of ?pi] sp by metis
      have "apart (qabs q1)" unfolding q1(3) using put_backoff [OF a(2) assms(2), of ?pi] sp assms(2) none by simp
      moreover have "AddUnschedulableIfNotPresent c now pi cycle q = Ret (None, AddNominatedPod c ?p [] q1)"
        using True m lk q1(1) by (simp add: AddUnschedulableIfNotPresent_def)
      ultimately show ?thesis using that q1(2,3) by (simp add: pq_inv_def holds_pod_def)
    next
      case m: False
      have "apart (qabs (uq_addOrUpdate ?pi q))"
        using put_unschedulable [OF a(2) assms(2), of ?pi] sp assms(2) none by (simp add: qabs_uq_add [OF a(1)])
      moreover have "AddUnschedulableIfNotPresent c now pi cycle q = Ret (None, AddNominatedPod c ?p [] (uq_addOrUpdate ?pi q))"
        using True m lk by (simp add: AddUnschedulableIfNotPresent_def)
      ultimately show ?thesis using that a(3) sp by (simp add: pq_inv_def qabs_uq_add [OF a(1)] holds_pod_def)
    qed
  qed
qed

lemma pq_Delete_inv:
  assumes "pq_inv c q" "pod_ok pod"
  obtains q' where "pq_Delete c pod q = Ret q'" "pq_inv c q'" "\<not> holds_pod MetaNamespaceKeyFunc (fst (qabs q')) pod"
    "\<not> holds_pod MetaNamespaceKeyFunc (fst (snd (qabs q'))) pod" "\<not> holds_pod GetPodFullName (snd (snd (qabs q'))) pod"
proof -
  obtain A B U where a: "qabs q = (A, B, U)" "apart (A, B, U)" "qok c q" using invE [OF assms(1)] .
  let ?k = "MetaNamespaceKeyFunc pod" let ?l = "newQueuedPodInfoForLookup pod" let ?q = "DeleteNominatedPodIfExists pod q"
  have l: "qPod ?l = pod" by (simp add: newQueuedPodInfoForLookup_def)
  have q0: "qok c ?q" "qabs ?q = (A, B, U)" using a by simp_all
  obtain q1 where q1: "activeQ_Delete c ?l ?q = Ret (if ?k \<in> dom A then None else Some ''object not found'', q1)"
      "qok c q1" "qabs q1 = (A(?k := None), B, U)"
    using activeQ_Delete_ok [OF q0, of ?l] l by metis
  show ?thesis
  proof (cases "?k \<in> dom A")
    case True
    then have h: "B(?k := None) = B \<and> U(GetPodFullName pod := None) = U" using apart_elsewhere(1) [OF a(2) assms(2)] by (auto simp: holds_pod_def)
    have "apart (qabs q1)" unfolding q1(3) using take_out [OF a(2), of ?k ?k "GetPodFullName pod"] h by simp
    moreover have "B ?k = None" "U (GetPodFullName pod) = None" using h by (metis fun_upd_same)+
    moreover have "pq_Delete c pod q = Ret q1" using q1(1) True by (simp add: pq_Delete_def)
    ultimately show ?thesis using that q1(2,3) by (simp add: pq_inv_def holds_pod_def)
  next
    case False
    obtain r q2 where q2: "backoffQ_Delete c ?l q1 = Ret (r, q2)" "qok c q2" "qabs q2 = (A(?k := None), B(?k := None), U)"
      using backoffQ_Delete_ok [OF q1(2,3), of ?l] l by metis
    have "apart (qabs (uq_delete pod q2))" unfolding qabs_uq_delete [OF q2(3)] by (rule take_out [OF a(2)])
    moreover have "pq_Delete c pod q = Ret (uq_delete pod q2)" using q1(1) q2(1) False by (simp add: pq_Delete_def)
    ultimately show ?thesis using that q2(2) qabs_uq_delete [OF q2(3)] by (simp add: pq_inv_def holds_pod_def)
  qed
qed

end

context pq_orders
begin

declare flushBackoffQCompleted.simps [simp del]

lemma flushBackoff_inv: "pq_inv c q \<Longrightarrow> \<exists>q'. flushBackoffQCompleted c now q = Ret q' \<and> pq_inv c q'"
proof (induction "length (queue (podBackoffQ q))" arbitrary: q rule: less_induct)
  case less
  obtain A B U where a: "qabs q = (A, B, U)" "apart (A, B, U)" "qok c q" using invE [OF less.prems] .
  have hb: "heap_inv (podsCompareBackoffCompleted c) (podBackoffQ q)" and ha: "heap_inv (lessFn c) (activeQ q)" using a(3) by (simp_all add: qok_def)
  have B: "contents (podBackoffQ q) = B" "contents (activeQ q) = A" using a(1) by (simp_all add: qabs_def)
  show ?case
  proof (cases "B = Map.empty")
    case True
    then show ?thesis using weak_order.Peek_empty [OF backoff_order hb] B less.prems by (subst flushBackoffQCompleted.simps) simp
  next
    case False
    obtain x k h where p: "Heap.Pop (podsCompareBackoffCompleted c) (podBackoffQ q) = Ret (Inr x, h)" "B k = Some x"
        "heap_inv (podsCompareBackoffCompleted c) h" "contents h = B(k := None)" "Peek (podBackoffQ q) = Ret (Some x)"
      using weak_order.Pop_correct [OF backoff_order hb, unfolded B(1), OF False] by metis
    show ?thesis
    proof (cases "getBackoffTime c x > now")
      case True
      then show ?thesis using p(5) less.prems by (subst flushBackoffQCompleted.simps) simp
    next
      case l: False
      have x: "k = MetaNamespaceKeyFunc (qPod x)" "pod_ok (qPod x)" using a(2) p(2) by (auto simp: keyed_by_def)
      obtain h2 where h2: "Heap.Add podInfoKeyFunc (lessFn c) x (activeQ q) = Ret (None, h2)" "heap_inv (lessFn c) h2" "contents h2 = A(k \<mapsto> x)"
        by (rule weak_order.Add_correct [OF active_order ha, where kf = podInfoKeyFunc and x = x and k = k]) (simp_all add: podInfoKeyFunc_def x(1) B)
      let ?q = "q\<lparr>podBackoffQ := h, activeQ := h2\<rparr>"
      have "holds_pod MetaNamespaceKeyFunc B (qPod x)" using p(2) x(1) by (simp add: holds_pod_def)
      then have u: "U(GetPodFullName (qPod x) := None) = U" using apart_elsewhere(2) [OF a(2) x(2)] by simp
      have "qabs ?q = (A(k \<mapsto> x), B(k := None), U)" using a(1) h2(3) p(4) by (simp add: qabs_def)
      then have "apart (qabs ?q)" using put_active [OF a(2) x(2) _ x(2)] u x(1) by (simp add: same_pod_def)
      moreover have "qok c ?q" using a(3) h2(2) p(3) by (simp add: qok_def)
      ultimately have inv: "pq_inv c ?q" by (simp add: pq_inv_def)
      have "length (queue (podBackoffQ ?q)) < length (queue (podBackoffQ q))" using Pop_shortens [OF p(1)] by simp
      then obtain q' where "flushBackoffQCompleted c now ?q = Ret q'" "pq_inv c q'" using less.hyps [OF _ inv] by blast
      moreover have "flushBackoffQCompleted c now q = flushBackoffQCompleted c now ?q"
        using p(1,5) h2(1) l by (subst flushBackoffQCompleted.simps) simp
      ultimately show ?thesis by simp
    qed
  qed
qed

text \<open>Moving pods that are in the unschedulable queue, each once.\<close>

definition movable :: "queuedPodInfo list \<Rightarrow> (string \<rightharpoonup> queuedPodInfo) \<Rightarrow> bool" where
  "movable pis U \<longleftrightarrow> (\<forall>pi\<in>set pis. pod_ok (qPod pi) \<and> holds_pod GetPodFullName U (qPod pi)) \<and> distinct (map (GetPodFullName \<circ> qPod) pis)"

lemma move_pods_inv:
  "pq_inv c q \<Longrightarrow> movable pis (map_of (unschedulableQ q)) \<Longrightarrow> \<exists>q'. move_pods c now ev pis q = Ret q' \<and> pq_inv c q'"
proof (induction pis arbitrary: q)
  case (Cons pi pis)
  obtain A B U where a: "qabs q = (A, B, U)" "apart (A, B, U)" "qok c q" using invE [OF Cons.prems(1)] .
  have U: "map_of (unschedulableQ q) = U" using a(1) by (simp add: qabs_def)
  have m: "movable pis U" "pod_ok (qPod pi)" "holds_pod GetPodFullName U (qPod pi)" using Cons.prems(2) by (auto simp: movable_def U)
  show ?case
  proof (cases "UnschedulablePlugins pi \<noteq> [] \<and> \<not> podMatchesEvent c pi ev")
    case True
    then show ?thesis using Cons.IH [OF Cons.prems(1)] m U by simp
  next
    case False
    let ?k = "MetaNamespaceKeyFunc (qPod pi)"
    have none: "A(?k := None) = A" "B(?k := None) = B" using apart_elsewhere(3) [OF a(2) m(2,3)] by auto
    have s: "same_pod (qPod pi) (qPod pi)" by (simp add: same_pod_def)
    have "\<exists>q1. (if isPodBackingoff c now pi then backoffQ_Add c pi q else activeQ_Add c pi q) = Ret (None, q1) \<and> qok c q1 \<and>
        (\<exists>A' B'. qabs q1 = (A', B', U) \<and> apart (A', B', U(GetPodFullName (qPod pi) := None)))"
    proof (cases "isPodBackingoff c now pi")
      case True
      show ?thesis by (rule backoffQ_Add_ok [OF a(3,1), of pi]) (use True put_backoff [OF a(2) m(2) s m(2)] none in auto)
    next
      case False
      show ?thesis by (rule activeQ_Add_ok [OF a(3,1), of pi]) (use False put_active [OF a(2) m(2) s m(2)] none in auto)
    qed
    then obtain q1 A' B' where q1: "(if isPodBackingoff c now pi then backoffQ_Add c pi q else activeQ_Add c pi q) = Ret (None, q1)" "qok c q1"
        "qabs q1 = (A', B', U)" "apart (A', B', U(GetPodFullName (qPod pi) := None))" by blast
    let ?q = "uq_delete (qPod pi) q1"
    have inv: "pq_inv c ?q" using q1 by (simp add: pq_inv_def qabs_uq_delete [OF q1(3)])
    have "map_of (unschedulableQ ?q) = U(GetPodFullName (qPod pi) := None)" using qabs_uq_delete [OF q1(3)] by (simp add: qabs_def)
    moreover have "GetPodFullName (qPod pi') \<noteq> GetPodFullName (qPod pi)" if "pi' \<in> set pis" for pi'
    proof -
      have "distinct (map (GetPodFullName \<circ> qPod) (pi # pis))" using Cons.prems(2) unfolding movable_def by blast
      then show ?thesis using that by (auto simp: image_iff)
    qed
    ultimately have "movable pis (map_of (unschedulableQ ?q))" using m(1) by (simp add: movable_def holds_pod_def)
    then show ?thesis using Cons.IH [OF inv] q1(1) False by auto
  qed
qed simp

lemma movable_filter:
  assumes "pq_inv c q" shows "movable (filter P (map snd (unschedulableQ q))) (map_of (unschedulableQ q))"
proof -
  have d: "distinct (map fst (unschedulableQ q))" and a: "keyed_by GetPodFullName (map_of (unschedulableQ q))"
    using assms by (auto simp: pq_inv_def qok_def qabs_def)
  have e: "k = GetPodFullName (qPod pi) \<and> pod_ok (qPod pi)" if "(k, pi) \<in> set (unschedulableQ q)" for k pi
    using a d that by (auto simp: keyed_by_def)
  then have "map (GetPodFullName \<circ> qPod) (map snd (unschedulableQ q)) = map fst (unschedulableQ q)" by (auto intro!: map_cong)
  then have "distinct (map (GetPodFullName \<circ> qPod) (filter P (map snd (unschedulableQ q))))" using d by (metis distinct_map_filter)
  moreover have "map_of (unschedulableQ q) (GetPodFullName (qPod pi)) \<noteq> None" if "(k, pi) \<in> set (unschedulableQ q)" for k pi
    using e [OF that] that by (metis map_of_eq_None_iff image_eqI fst_conv)
  ultimately show ?thesis using e by (auto simp: movable_def holds_pod_def)
qed

lemma movePods_inv:
  assumes "pq_inv c q"
  shows "\<exists>q'. movePodsToActiveOrBackoffQueue c now (filter P (map snd (unschedulableQ q))) ev q = Ret q' \<and> pq_inv c q'"
  using move_pods_inv [OF assms movable_filter [OF assms, of P], of now ev]
  by (auto simp: movePodsToActiveOrBackoffQueue_def pq_inv_def)

lemmas moves_defs = MoveAllToActiveOrBackoffQueue_def AssignedPodAdded_def AssignedPodUpdated_def
  getUnschedulablePodsWithMatchingAffinityTerm_def

lemma moves_inv:
  assumes "pq_inv c q"
  shows "\<exists>q'. MoveAllToActiveOrBackoffQueue c now ev preCheck q = Ret q' \<and> pq_inv c q'"
    "\<exists>q'. AssignedPodAdded c now p q = Ret q' \<and> pq_inv c q'" "\<exists>q'. AssignedPodUpdated c now p q = Ret q' \<and> pq_inv c q'"
    "\<exists>q'. flushUnschedulableQLeftover c now q = Ret q' \<and> pq_inv c q'"
  using movePods_inv [OF assms] assms by (auto simp: moves_defs flushUnschedulableQLeftover_def Let_def)

end

context pq_orders
begin

lemma pq_Pop_inv:
  assumes "pq_inv c q"
  obtains "contents (activeQ q) = Map.empty" "pq_Pop c q = Ret (if closed q then Some (Inl queueClosed) else None, q)"
  | pi k q' where "contents (activeQ q) k = Some pi" "\<forall>pi'\<in>ran (contents (activeQ q)). \<not> lessFn c pi' pi" "pq_inv c q'"
      "pq_Pop c q = Ret (Some (Inr (pi\<lparr>Attempts := wrap64 (Attempts pi + 1)\<rparr>)), q')"
      "contents (activeQ q') = (contents (activeQ q))(k := None)"
proof -
  obtain A B U where a: "qabs q = (A, B, U)" "apart (A, B, U)" "qok c q" using invE [OF assms] .
  have ha: "heap_inv (lessFn c) (activeQ q)" using a(3) by (simp add: qok_def)
  have A: "contents (activeQ q) = A" using a(1) by (simp add: qabs_def)
  have "Len (activeQ q) = card (dom A)" using weak_order.Len_correct [OF active_order ha] A by simp
  moreover have "finite (dom A)" using dom_contents [of "activeQ q"] ha A by (simp add: heap_inv_def)
  ultimately have len: "Len (activeQ q) = 0 \<longleftrightarrow> A = Map.empty" by simp
  show ?thesis
  proof (cases "A = Map.empty")
    case True
    show ?thesis by (rule that(1)) (use True len A in \<open>simp_all add: pq_Pop_def\<close>)
  next
    case False
    obtain x k h where p: "Heap.Pop (lessFn c) (activeQ q) = Ret (Inr x, h)" "A k = Some x"
        "heap_inv (lessFn c) h" "contents h = A(k := None)" "\<forall>y\<in>ran A. \<not> lessFn c y x"
      using weak_order.Pop_correct [OF active_order ha, unfolded A, OF False] by metis
    let ?q = "q\<lparr>activeQ := h, schedulingCycle := wrap64 (schedulingCycle q + 1)\<rparr>"
    have "qabs ?q = (A(k := None), B, U)" using a(1) p(4) by (simp add: qabs_def)
    moreover have "apart (A(k := None), B, U)" using a(2) by (auto simp: keyed_del holds_pod_def)
    moreover have "qok c ?q" using a(3) p(3) by (simp add: qok_def)
    ultimately have "pq_inv c ?q" by (simp add: pq_inv_def)
    then show ?thesis by (rule that(2) [rotated 2]) (use p False len A in \<open>simp_all add: pq_Pop_def on_activeQ_def\<close>)
  qed
qed

lemma UpdateNominatedPod_ok:
  assumes "qok c q" "qabs q = (A, B, U)"
  obtains q' where "UpdateNominatedPod c (Some old) new q = Ret q'" "qok c q'" "qabs q' = (A, B, U)"
proof -
  have "\<exists>npm. UpdateNominatedPod c (Some old) new q = Ret (q\<lparr>PodNominator := npm\<rparr>)" 
    unfolding UpdateNominatedPod_def Let_def option.case by blast
  then obtain npm where "UpdateNominatedPod c (Some old) new q = Ret (q\<lparr>PodNominator := npm\<rparr>)" by blast
  then show ?thesis using that assms by simp
qed

lemma pq_Update_inv:
  assumes "pq_inv c q" "pod_ok old" "pod_ok new" "same_pod old new"
  shows "\<exists>r q'. pq_Update c now (Some old) new q = Ret (r, q') \<and> pq_inv c q'"
proof -
  obtain A B U where a: "qabs q = (A, B, U)" "apart (A, B, U)" "qok c q" using invE [OF assms(1)] .
  let ?k = "MetaNamespaceKeyFunc new" let ?f = "GetPodFullName new"
  have k: "MetaNamespaceKeyFunc old = ?k" "GetPodFullName old = ?f" using same_key [OF assms(4)] by auto
  have l: "qPod (newQueuedPodInfoForLookup old) = old" "\<And>pi. qPod (updatePod pi new) = new" "qPod (newQueuedPodInfo now new) = new"
    by (simp_all add: newQueuedPodInfoForLookup_def updatePod_def newQueuedPodInfo_def)
  note lk = lookups [OF a(1)]
  have s: "same_pod new new" by (simp add: same_pod_def)
  obtain q0 where q0: "UpdateNominatedPod c (Some old) new q = Ret q0" "qok c q0" "qabs q0 = (A, B, U)"
    using UpdateNominatedPod_ok [OF a(3,1)] .
  have act: "apart (A(?k \<mapsto> pi), B(?k := None), U(?f := None))" if "qPod pi = new" for pi
    using put_active [OF a(2) assms(3), of pi] that s assms(3) by simp
  have bck: "apart (A(?k := None), B(?k \<mapsto> pi), U(?f := None))" if "qPod pi = new" for pi
    using put_backoff [OF a(2) assms(3), of pi] that s assms(3) by simp
  consider (active) pi where "A ?k = Some pi" | (backoff) pi where "A ?k = None" "B ?k = Some pi"
    | (unsch) pi where "A ?k = None" "B ?k = None" "U ?f = Some pi" | (none) "A ?k = None" "B ?k = None" "U ?f = None" by fastforce
  then show ?thesis
  proof cases
    case (active pi)
    have n: "B(?k := None) = B" "U(?f := None) = U" using apart_elsewhere(1) [OF a(2) assms(3)] active by (auto simp: holds_pod_def)
    obtain q1 where q1: "activeQ_Add c (updatePod pi new) q0 = Ret (None, q1)" "qok c q1" "qabs q1 = (A(?k \<mapsto> updatePod pi new), B, U)"
      using activeQ_Add_ok [OF q0(2,3), of "updatePod pi new"] l(2) by metis
    have "pq_Update c now (Some old) new q = Ret (None, q1)" using active q0(1) q1(1) by (simp add: pq_Update_def lk(1) l k)
    then show ?thesis using q1 act [OF l(2), of pi] n by (simp add: pq_inv_def)
  next
    case (backoff pi)
    have n: "A(?k := None) = A" "U(?f := None) = U" using apart_elsewhere(2) [OF a(2) assms(3)] backoff by (auto simp: holds_pod_def)
    obtain q1 where q1: "backoffQ_Add c (updatePod pi new) q0 = Ret (None, q1)" "qok c q1" "qabs q1 = (A, B(?k \<mapsto> updatePod pi new), U)"
      using backoffQ_Add_ok [OF q0(2,3), of "updatePod pi new"] l(2) by metis
    have "pq_Update c now (Some old) new q = Ret (None, q1)" using backoff q0(1) q1(1) by (simp add: pq_Update_def lk(1,2) l k)
    then show ?thesis using q1 bck [OF l(2), of pi] n by (simp add: pq_inv_def)
  next
    case (unsch pi)
    let ?pi = "updatePod pi new"
    have n: "A(?k := None) = A" "B(?k := None) = B" using unsch by (auto simp: fun_upd_idem)
    have U: "pq_Update c now (Some old) new q = update_unschedulable c now (Some old) new pi q" using unsch by (simp add: pq_Update_def lk l k)
    show ?thesis
    proof (cases "isPodUpdated old new")
      case False
      have "apart (qabs (uq_addOrUpdate ?pi q0))"
        using put_unschedulable [OF a(2) assms(3), of ?pi] l(2) s assms(3) n by (simp add: qabs_uq_add [OF q0(3)])
      then show ?thesis using U False q0 by (simp add: update_unschedulable_def pq_inv_def)
    next
      case True
      have "\<exists>q1. (if isPodBackingoff c now ?pi then backoffQ_Add c ?pi q0 else activeQ_Add c ?pi q0) = Ret (None, q1) \<and> qok c q1 \<and>
          (\<exists>A' B'. qabs q1 = (A', B', U) \<and> apart (A', B', U(?f := None)))"
      proof (cases "isPodBackingoff c now ?pi")
        case True
        show ?thesis by (rule backoffQ_Add_ok [OF q0(2,3), of ?pi]) (use True bck [OF l(2), of pi] n l(2) in auto)
      next
        case False
        show ?thesis by (rule activeQ_Add_ok [OF q0(2,3), of ?pi]) (use False act [OF l(2), of pi] n l(2) in auto)
      qed
      then obtain q1 A' B' where q1: "(if isPodBackingoff c now ?pi then backoffQ_Add c ?pi q0 else activeQ_Add c ?pi q0) = Ret (None, q1)" "qok c q1"
          "qabs q1 = (A', B', U)" "apart (A', B', U(?f := None))" by blast
      have "pq_inv c (uq_delete new q1)" using q1 by (simp add: pq_inv_def qabs_uq_delete [OF q1(3)])
      moreover have "update_unschedulable c now (Some old) new pi q = Ret (None, uq_delete new q1)"
        using True q0(1) q1(1) l(2) by (simp only: update_unschedulable_def Let_def go_bind.simps option.case if_True) simp
      ultimately show ?thesis using U by simp
    qed
  next
    case none
    have n: "B(?k := None) = B" "U(?f := None) = U" using none by (auto simp: fun_upd_idem)
    obtain q1 where q1: "activeQ_Add c (newQueuedPodInfo now new) q = Ret (None, q1)" "qok c q1" "qabs q1 = (A(?k \<mapsto> newQueuedPodInfo now new), B, U)"
      using activeQ_Add_ok [OF a(3,1), of "newQueuedPodInfo now new"] l(3) by metis
    have "pq_Update c now (Some old) new q = Ret (None, AddNominatedPod c new [] q1)" using none q1(1) by (simp add: pq_Update_def lk l k)
    then show ?thesis using q1 act [OF l(3)] n by (simp add: pq_inv_def)
  qed
qed

text \<open>
  An update without the old pod puts the pod into the active queue unless it is unschedulable: it is not
  looked for among the pods that back off.
\<close>

lemma pq_Update_nil_inv:
  assumes "pq_inv c q" "pod_ok new" "backoffQ_Get (newQueuedPodInfoForLookup new) q = None" "uq_get new q = None"
  shows "\<exists>q'. pq_Update c now None new q = Ret (None, q') \<and> pq_inv c q'"
proof -
  obtain A B U where a: "qabs q = (A, B, U)" "apart (A, B, U)" "qok c q" using invE [OF assms(1)] .
  let ?k = "MetaNamespaceKeyFunc new" and ?f = "GetPodFullName new" and ?pi = "newQueuedPodInfo now new"
  have l: "qPod (newQueuedPodInfoForLookup new) = new" "qPod ?pi = new"
    by (simp_all add: newQueuedPodInfoForLookup_def newQueuedPodInfo_def)
  have n: "B ?k = None" "U ?f = None" using assms(3,4) lookups [OF a(1)] l by auto
  obtain q1 where q1: "activeQ_Add c ?pi q = Ret (None, q1)" "qok c q1" "qabs q1 = (A(?k \<mapsto> ?pi), B, U)"
    using activeQ_Add_ok [OF a(3,1), of ?pi] l(2) by metis
  have "apart (A(?k \<mapsto> ?pi), B(?k := None), U(?f := None))"
    using put_active [OF a(2) assms(2), of ?pi] assms(2) l(2) by (simp add: same_pod_def)
  moreover have "B(?k := None) = B" "U(?f := None) = U" using n by (auto simp: fun_upd_idem)
  ultimately have "apart (qabs q1)" using q1(3) by simp
  then show ?thesis using q1 assms(4) by (simp add: pq_Update_def pq_inv_def)
qed

end

section \<open>Sequences of operations\<close>

text \<open>Every operation of the queue that changes it; the old pod of an update may be missing.\<close>

datatype pq_op =
    OpAdd int kpod | OpActivate "kpod list" | OpAddUnschedulable int queuedPodInfo int | OpFlushBackoff int | OpFlushLeftover int
  | OpPop | OpUpdate int "kpod option" kpod | OpDelete kpod | OpMoveAll int clusterEvent "(kpod \<Rightarrow> bool) option"
  | OpAssignedAdd int kpod | OpAssignedUpdate int kpod | OpNominate kpod string | OpUpdateNominated "kpod option" kpod | OpUnnominate kpod
  | OpClose

fun pq_exec :: "pqConf \<Rightarrow> pq_op \<Rightarrow> priorityQueue \<Rightarrow> priorityQueue go" where
  "pq_exec c (OpAdd now p) q = go_bind (pq_Add c now p q) (\<lambda>(_, q1). Ret q1)"
| "pq_exec c (OpActivate ps) q = Activate c ps q"
| "pq_exec c (OpAddUnschedulable now pi cycle) q = go_bind (AddUnschedulableIfNotPresent c now pi cycle q) (\<lambda>(_, q1). Ret q1)"
| "pq_exec c (OpFlushBackoff now) q = flushBackoffQCompleted c now q"
| "pq_exec c (OpFlushLeftover now) q = flushUnschedulableQLeftover c now q"
| "pq_exec c OpPop q = go_bind (pq_Pop c q) (\<lambda>(_, q1). Ret q1)"
| "pq_exec c (OpUpdate now old new) q = go_bind (pq_Update c now old new q) (\<lambda>(_, q1). Ret q1)"
| "pq_exec c (OpDelete p) q = pq_Delete c p q"
| "pq_exec c (OpMoveAll now ev preCheck) q = MoveAllToActiveOrBackoffQueue c now ev preCheck q"
| "pq_exec c (OpAssignedAdd now p) q = AssignedPodAdded c now p q"
| "pq_exec c (OpAssignedUpdate now p) q = AssignedPodUpdated c now p q"
| "pq_exec c (OpNominate p nn) q = Ret (AddNominatedPod c p nn q)"
| "pq_exec c (OpUpdateNominated old new) q = UpdateNominatedPod c old new q"
| "pq_exec c (OpUnnominate p) q = Ret (DeleteNominatedPodIfExists p q)"
| "pq_exec c OpClose q = pq_Close q"

fun pq_run :: "pqConf \<Rightarrow> pq_op list \<Rightarrow> priorityQueue \<Rightarrow> priorityQueue go" where
  "pq_run c [] q = Ret q"
| "pq_run c (op # ops) q = go_bind (pq_exec c op q) (pq_run c ops)"

text \<open>
  What an operation asks of its caller in a state of the queue: pods have proper names, an update does
  not rename a pod, one without the old pod is for a pod that neither backs off nor is unschedulable,
  the nominated node of a pod is updated with its old object, and the queue is closed only once.
\<close>

fun op_ok :: "priorityQueue \<Rightarrow> pq_op \<Rightarrow> bool" where
  "op_ok q (OpAdd now p) = pod_ok p"
| "op_ok q (OpActivate ps) = list_all pod_ok ps"
| "op_ok q (OpAddUnschedulable now pi cycle) = pod_ok (qPod pi)"
| "op_ok q (OpUpdate now old new) = (pod_ok new \<and> (case old of Some p \<Rightarrow> pod_ok p \<and> same_pod p new
     | None \<Rightarrow> backoffQ_Get (newQueuedPodInfoForLookup new) q = None \<and> uq_get new q = None))"
| "op_ok q (OpDelete p) = pod_ok p"
| "op_ok q (OpUpdateNominated old new) = (old \<noteq> None)"
| "op_ok q OpClose = (\<not> closed q)"
| "op_ok q _ = True"

text \<open>Every operation of the sequence is used so in the state it meets.\<close>

fun calls_ok :: "pqConf \<Rightarrow> pq_op list \<Rightarrow> priorityQueue \<Rightarrow> bool" where
  "calls_ok c [] q \<longleftrightarrow> True"
| "calls_ok c (op # ops) q \<longleftrightarrow> op_ok q op \<and> (case pq_exec c op q of Ret q1 \<Rightarrow> calls_ok c ops q1 | _ \<Rightarrow> True)"

definition default_pq_conf :: pqConf where
  "default_pq_conf = \<lparr>lessFn = PrioritySort_Less, podInitialBackoffDuration = 10 ^ 9, podMaxBackoffDuration = 10 * 10 ^ 9,
     clusterEventMap = [], termMatches = (\<lambda>_ _. False), podLister = None\<rparr>"

interpretation defaultQ: pq_orders default_pq_conf
  by unfold_locales (auto simp: default_pq_conf_def dest: prioritySort.asym prioritySort.negtrans)

context pq_orders
begin

lemma exec_inv: "pq_inv c q \<Longrightarrow> op_ok q op \<Longrightarrow> \<exists>q'. pq_exec c op q = Ret q' \<and> pq_inv c q'"
proof (cases op)
  case OpClose
  assume "pq_inv c q" "op_ok q op"
  then show ?thesis using OpClose by (simp add: pq_Close_def pq_inv_def qok_def qabs_def)
next
  case (OpUpdateNominated old new)
  assume "pq_inv c q" "op_ok q op"
  then show ?thesis using OpUpdateNominated by (auto simp: UpdateNominatedPod_def pq_inv_def Let_def)
next
  case (OpAdd now p)
  assume "pq_inv c q" "op_ok q op"
  then show ?thesis using pq_Add_inv [of q p now] OpAdd by (metis go_bind.simps(1) op_ok.simps(1) pq_exec.simps(1) split_conv)
next
  case (OpActivate ps)
  assume "pq_inv c q" "op_ok q op"
  then show ?thesis using Activate_inv OpActivate by simp
next
  case (OpAddUnschedulable now pi cycle)
  assume "pq_inv c q" "op_ok q op"
  then show ?thesis using AddUnschedulable_inv [of q pi now cycle] OpAddUnschedulable
    by (metis go_bind.simps(1) op_ok.simps(3) pq_exec.simps(3) split_conv)
next
  case (OpUpdate now old new)
  assume "pq_inv c q" "op_ok q op"
  then show ?thesis
    using pq_Update_inv [of q _ new now] pq_Update_nil_inv [of q new now] OpUpdate by (cases old) fastforce+
next
  case (OpDelete p)
  assume "pq_inv c q" "op_ok q op"
  then show ?thesis using pq_Delete_inv [of q p] OpDelete by (metis op_ok.simps(5) pq_exec.simps(8))
next
  case OpPop
  assume i: "pq_inv c q"
  from i show ?thesis by (cases rule: pq_Pop_inv) (use i OpPop in auto)
next
  case (OpNominate p nn)
  assume "pq_inv c q"
  then show ?thesis using OpNominate by (simp add: pq_inv_def)
next
  case (OpUnnominate p)
  assume "pq_inv c q"
  then show ?thesis using OpUnnominate by (simp add: pq_inv_def)
qed (use flushBackoff_inv moves_inv in auto)

lemma new_queue_inv: "pq_inv c NewPriorityQueue"
  using weak_order.new_inv(1) [OF active_order] weak_order.new_inv(1) [OF backoff_order]
  by (simp add: pq_inv_def qok_def qabs_def NewPriorityQueue_def keyed_by_def holds_pod_def contents_def) (simp add: NewHeap_def)

lemma run_inv: "pq_inv c q \<Longrightarrow> calls_ok c ops q \<Longrightarrow> \<exists>q'. pq_run c ops q = Ret q' \<and> pq_inv c q'"
proof (induction ops arbitrary: q)
  case (Cons op ops)
  obtain q1 where "pq_exec c op q = Ret q1" "pq_inv c q1" using exec_inv [OF Cons.prems(1)] Cons.prems(2) by auto
  then show ?case using Cons by simp
qed simp

end

section \<open>Properties\<close>

text \<open>The queues that hold a pod.\<close>

definition queues_of :: "priorityQueue \<Rightarrow> kpod \<Rightarrow> string list" where
  "queues_of q p = (if GetByKey (MetaNamespaceKeyFunc p) (activeQ q) \<noteq> None then [''active''] else []) @
     (if GetByKey (MetaNamespaceKeyFunc p) (podBackoffQ q) \<noteq> None then [''backoff''] else []) @
     (if uq_get p q \<noteq> None then [''unschedulable''] else [])"

lemma queues_of_apart:
  assumes "pq_inv c q" "pod_ok p" shows "length (queues_of q p) \<le> 1"
proof -
  obtain A B U where a: "qabs q = (A, B, U)" "apart (A, B, U)" using assms(1) by (cases "qabs q") (auto simp: pq_inv_def)
  have "GetByKey k (activeQ q) = A k" "GetByKey k (podBackoffQ q) = B k" for k using a(1) by (auto simp: qabs_def GetByKey_def contents_def)
  moreover have "uq_get p q = U (GetPodFullName p)" by (rule lookups(3) [OF a(1)])
  ultimately show ?thesis using a(2) assms(2) by (auto simp: queues_of_def holds_pod_def)
qed

text \<open>
  C21: Take the default order of pods and any sequence of operations on a new queue that keeps to what
  the queue asks of its callers: the names and namespaces of pods hold no separator of the keys; an
  update does not rename a pod; an update without the old pod is for a pod that neither backs off nor
  is unschedulable; a nomination is updated with the old pod; and the queue is closed only once. Then
  the sequence runs without a panic and leaves every pod in at most one of the active, backoff and
  unschedulable queues; a \<open>Pop\<close> then waits if no pod is active and the queue is open, and otherwise
  removes an active pod of the highest priority, the oldest of these, counting one more attempt.
  The conditions on updates without an old pod are needed: see \<open>update_without_old\<close> below.
\<close>

theorem queue_keeps_pods_apart:
  assumes "lessFn c = PrioritySort_Less" "calls_ok c ops NewPriorityQueue"
  shows "\<exists>q. pq_run c ops NewPriorityQueue = Ret q \<and> (\<forall>p. pod_ok p \<longrightarrow> length (queues_of q p) \<le> 1) \<and>
    (if Heap.List (activeQ q) = [] then pq_Pop c q = Ret (if closed q then Some (Inl queueClosed) else None, q)
     else \<exists>pi q'. pq_Pop c q = Ret (Some (Inr (pi\<lparr>Attempts := wrap64 (Attempts pi + 1)\<rparr>)), q') \<and> pi \<in> set (Heap.List (activeQ q)) \<and>
       (\<forall>pi'\<in>set (Heap.List (activeQ q)). PodPriority (qPod pi') < PodPriority (qPod pi) \<or>
          PodPriority (qPod pi') = PodPriority (qPod pi) \<and> Timestamp pi \<le> Timestamp pi') \<and>
       (\<forall>p. pod_ok p \<longrightarrow> length (queues_of q' p) \<le> 1) \<and> set (Heap.List (activeQ q')) = set (Heap.List (activeQ q)) - {pi})"
proof -
  have o: "pq_orders c" by unfold_locales (auto simp: assms(1) dest: prioritySort.asym prioritySort.negtrans)
  obtain q where q: "pq_run c ops NewPriorityQueue = Ret q" "pq_inv c q"
    using pq_orders.run_inv [OF o pq_orders.new_queue_inv [OF o] assms(2)] by blast
  have ls: "set (Heap.List (activeQ q)) = ran (contents (activeQ q))" if "pq_inv c q" for q
    using that assms(1) by (intro prioritySort.List_correct) (simp add: pq_inv_def qok_def)
  have "\<exists>pi q'. pq_Pop c q = Ret (Some (Inr (pi\<lparr>Attempts := wrap64 (Attempts pi + 1)\<rparr>)), q') \<and> pi \<in> set (Heap.List (activeQ q)) \<and>
       (\<forall>pi'\<in>set (Heap.List (activeQ q)). PodPriority (qPod pi') < PodPriority (qPod pi) \<or>
          PodPriority (qPod pi') = PodPriority (qPod pi) \<and> Timestamp pi \<le> Timestamp pi') \<and>
       (\<forall>p. pod_ok p \<longrightarrow> length (queues_of q' p) \<le> 1) \<and> set (Heap.List (activeQ q')) = set (Heap.List (activeQ q)) - {pi}"
    if ne: "Heap.List (activeQ q) \<noteq> []"
  proof (rule pq_orders.pq_Pop_inv [OF o q(2)])
    assume "contents (activeQ q) = Map.empty"
    then show ?thesis using ne ls [OF q(2)] by simp
  next
    fix pi k q' assume 2: "contents (activeQ q) k = Some pi" "\<forall>pi'\<in>ran (contents (activeQ q)). \<not> lessFn c pi' pi" "pq_inv c q'"
      "pq_Pop c q = Ret (Some (Inr (pi\<lparr>Attempts := wrap64 (Attempts pi + 1)\<rparr>)), q')" "contents (activeQ q') = (contents (activeQ q))(k := None)"
    have "keyed_by MetaNamespaceKeyFunc (contents (activeQ q))" using q(2) by (cases "qabs q") (auto simp: pq_inv_def qabs_def)
    then have "ran ((contents (activeQ q))(k := None)) = ran (contents (activeQ q)) - {pi}"
      using 2(1) by (auto simp: ran_def keyed_by_def) (metis option.inject)
    then show ?thesis using 2 ls [OF q(2)] ls [OF 2(3)] queues_of_apart [OF 2(3)]
      by (auto simp: assms(1) PrioritySort_Less_def ran_def not_less intro!: exI [of _ pi])
  qed
  moreover have "pq_Pop c q = Ret (if closed q then Some (Inl queueClosed) else None, q)" if e: "Heap.List (activeQ q) = []"
    by (rule pq_orders.pq_Pop_inv [OF o q(2)]) (use ls [OF q(2)] e in \<open>auto simp: ran_def\<close>)
  ultimately show ?thesis using q queues_of_apart [OF q(2)] by simp
qed

definition qpod :: "string \<Rightarrow> int \<Rightarrow> kpod" where
  "qpod n pr = \<lparr>kName = n, kNamespace = ''d'', UID = n, ResourceVersion = [], specNodeName = [], Containers = [], InitContainers = [], Overhead = None,
     Affinity = None, claims = [], Priority = Some pr, NominatedNodeName = [], SchedulerName = [], deleting = False, Annotations = [], Tolerations = [], podLabels = [], StartTime = None, PreemptionPolicy = None\<rparr>"

definition ex_ops :: "pq_op list" where
  "ex_ops = [OpAdd 1 (qpod ''a'' 3), OpAdd 2 (qpod ''b'' 7), OpAdd 3 (qpod ''c'' 7), OpPop,
     OpAddUnschedulable 4 (newQueuedPodInfo 2 (qpod ''b'' 7)) 1, OpAddUnschedulable 4 (newQueuedPodInfo 2 (qpod ''e'' 9)) (-1),
     OpUpdate 5 (Some (qpod ''a'' 3)) (qpod ''a'' 8), OpUpdate 5 None (qpod ''a'' 8), OpMoveAll 6 UnschedulableTimeout None, OpFlushBackoff (5 * 10 ^ 9), OpDelete (qpod ''e'' 9), OpClose]"

lemma ex_ops_ok: "calls_ok default_pq_conf ex_ops NewPriorityQueue"
  by code_simp

theorem queue_keeps_pods_apart_witness:
  "\<exists>q pi q'. pq_run default_pq_conf ex_ops NewPriorityQueue = Ret q \<and> map (kName \<circ> qPod) (Heap.List (activeQ q)) = [''a'', ''c'', ''b''] \<and>
     pq_Pop default_pq_conf q = Ret (Some (Inr (pi\<lparr>Attempts := wrap64 (Attempts pi + 1)\<rparr>)), q') \<and> kName (qPod pi) = ''a''"
proof -
  have c: "lessFn default_pq_conf = PrioritySort_Less" by (simp add: default_pq_conf_def)
  have e: "(case pq_run default_pq_conf ex_ops NewPriorityQueue of Ret q \<Rightarrow>
      map (kName \<circ> qPod) (Heap.List (activeQ q)) = [''a'', ''c'', ''b''] \<and>
      (case pq_Pop default_pq_conf q of Ret (Some (Inr pi), _) \<Rightarrow> kName (qPod pi) = ''a'' | _ \<Rightarrow> False) | _ \<Rightarrow> False)"
    by code_simp
  obtain q where q: "pq_run default_pq_conf ex_ops NewPriorityQueue = Ret q" "Heap.List (activeQ q) \<noteq> []"
    using e by (auto split: go.splits)
  then obtain pi q' where "pq_Pop default_pq_conf q = Ret (Some (Inr (pi\<lparr>Attempts := wrap64 (Attempts pi + 1)\<rparr>)), q')"
    using queue_keeps_pods_apart [OF c ex_ops_ok] by auto
  then show ?thesis using e q(1) by auto
qed

text \<open>
  An update without the old pod of a pod that backs off puts it into two queues, and one of a pod that
  is unschedulable dereferences nil.
\<close>

theorem update_without_old:
  "(\<exists>q. pq_run default_pq_conf [OpPop, OpMoveAll 0 UnschedulableTimeout None, OpAddUnschedulable 1 (newQueuedPodInfo 1 (qpod ''a'' 3)) (-1),
        OpUpdate 2 None (qpod ''a'' 3)] NewPriorityQueue = Ret q \<and> queues_of q (qpod ''a'' 3) = [''active'', ''backoff'']) \<and>
   pq_run default_pq_conf [OpAddUnschedulable 1 (newQueuedPodInfo 1 (qpod ''a'' 3)) 1, OpUpdate 2 None (qpod ''a'' 3)] NewPriorityQueue =
     Panic NilDereference"
proof -
  have "(case pq_run default_pq_conf [OpPop, OpMoveAll 0 UnschedulableTimeout None, OpAddUnschedulable 1 (newQueuedPodInfo 1 (qpod ''a'' 3)) (-1),
        OpUpdate 2 None (qpod ''a'' 3)] NewPriorityQueue of Ret q \<Rightarrow> queues_of q (qpod ''a'' 3) = [''active'', ''backoff''] | _ \<Rightarrow> False)"
    by code_simp
  moreover have "(case pq_run default_pq_conf [OpAddUnschedulable 1 (newQueuedPodInfo 1 (qpod ''a'' 3)) 1, OpUpdate 2 None (qpod ''a'' 3)]
        NewPriorityQueue of Panic e \<Rightarrow> e = NilDereference | _ \<Rightarrow> False)"
    by code_simp
  ultimately show ?thesis by (auto split: go.splits)
qed

text \<open>
  The backoff of a pod doubles with every attempt after the first and is capped: for an initial
  backoff up to the maximum, and a maximum below half the range of a duration, no doubling overflows.
\<close>

theorem backoff_doubles_capped:
  assumes "0 \<le> podInitialBackoffDuration c" "podInitialBackoffDuration c \<le> podMaxBackoffDuration c" "podMaxBackoffDuration c < 2 ^ 62"
  shows "calculateBackoffDuration c pi = min (podInitialBackoffDuration c * 2 ^ nat (Attempts pi - 1)) (podMaxBackoffDuration c)"
proof -
  have "backoff_loop n d mx = min (d * 2 ^ n) mx" if "0 \<le> d" "d \<le> mx" "mx < 2 ^ 62" for n d mx
    using that
  proof (induction n arbitrary: d)
    case (Suc n)
    have w: "wrap64 (d * 2) = d * 2" using Suc.prems by (intro wrap64_id) (simp add: int64_def)
    show ?case
    proof (cases "d * 2 > mx")
      case True
      have "d * 2 \<le> d * 2 * 2 ^ n" using Suc.prems(1) by (simp add: mult_le_cancel_left1)
      then show ?thesis using True w by (simp add: Let_def min_def algebra_simps)
    next
      case False
      then show ?thesis using Suc.IH [of "d * 2"] Suc.prems w by (simp add: Let_def algebra_simps)
    qed
  qed simp
  then show ?thesis using assms by (simp add: calculateBackoffDuration_def)
qed

theorem backoff_doubles_capped_witness:
  "calculateBackoffDuration default_pq_conf ((newQueuedPodInfo 0 (qpod ''a'' 0))\<lparr>Attempts := 4\<rparr>) = 8 * 10 ^ 9"
  using backoff_doubles_capped [of default_pq_conf "(newQueuedPodInfo 0 (qpod ''a'' 0))\<lparr>Attempts := 4\<rparr>"]
  by (simp add: default_pq_conf_def)

end
