(* ===== verification/Node_Tree.thy ===== *)
theory Node_Tree
  imports Node_Info
begin

text \<open>
  The tree of node names by zone (\<open>pkg/scheduler/internal/cache/node_tree.go\<close>, with \<open>GetZoneKey\<close> of
  \<open>component-helpers/node/topology\<close>): the cache keeps it beside its nodes, and the order in which it
  lists them, one node of every zone in turn, is the order of the snapshot.
\<close>

section \<open>Zones\<close>

text \<open>Labels of a node that has none read as empty.\<close>

definition label_or :: "(string \<times> string) list \<Rightarrow> string \<Rightarrow> string \<Rightarrow> string" where
  "label_or ls k k' = (case map_of ls k of Some v \<Rightarrow> v | None \<Rightarrow> (case map_of ls k' of Some v \<Rightarrow> v | None \<Rightarrow> []))"

definition GetZoneKey :: "knode \<Rightarrow> string" where
  "GetZoneKey nd =
     (let zone = label_or (nodeLabels nd) ''failure-domain.beta.kubernetes.io/zone'' ''topology.kubernetes.io/zone'';
          region = label_or (nodeLabels nd) ''failure-domain.beta.kubernetes.io/region'' ''topology.kubernetes.io/region''
      in if region = [] \<and> zone = [] then [] else region @ [CHR '':'', CHR 0x00, CHR '':''] @ zone)"

section \<open>The tree\<close>

record nodeTree =
  tree :: "(string \<times> string list) list"
  zones :: "string list"
  numNodes :: int

definition nt_addNode :: "knode \<Rightarrow> nodeTree \<Rightarrow> nodeTree" where
  "nt_addNode n nt = (let zone = GetZoneKey n in case map_of (tree nt) zone of
       Some na \<Rightarrow> (if knodeName n \<in> set na then nt
                   else nt\<lparr>tree := AList.update zone (na @ [knodeName n]) (tree nt), numNodes := numNodes nt + 1\<rparr>)
     | None \<Rightarrow> nt\<lparr>zones := zones nt @ [zone], tree := AList.update zone [knodeName n] (tree nt), numNodes := numNodes nt + 1\<rparr>)"

definition newNodeTree :: "knode list \<Rightarrow> nodeTree" where
  "newNodeTree nodes = foldl (\<lambda>nt n. nt_addNode n nt) \<lparr>tree = [], zones = [], numNodes = 0\<rparr> nodes"

definition removeZone :: "string \<Rightarrow> nodeTree \<Rightarrow> nodeTree" where
  "removeZone zone nt = nt\<lparr>tree := AList.delete zone (tree nt), zones := remove1 zone (zones nt)\<rparr>"

text \<open>The error of a node that is not found is given by the two names it prints.\<close>

definition nt_removeNode :: "knode \<Rightarrow> nodeTree \<Rightarrow> (string \<times> string) option \<times> nodeTree" where
  "nt_removeNode n nt = (let zone = GetZoneKey n in case map_of (tree nt) zone of
       Some na \<Rightarrow> (if knodeName n \<in> set na
                   then let na' = remove1 (knodeName n) na;
                            nt1 = nt\<lparr>tree := AList.update zone na' (tree nt)\<rparr>;
                            nt2 = (if na' = [] then removeZone zone nt1 else nt1)
                        in (None, nt2\<lparr>numNodes := numNodes nt2 - 1\<rparr>)
                   else (Some (knodeName n, zone), nt))
     | None \<Rightarrow> (Some (knodeName n, zone), nt))"

definition nt_updateNode :: "knode option \<Rightarrow> knode \<Rightarrow> nodeTree \<Rightarrow> nodeTree go" where
  "nt_updateNode old new nt =
     (if (case old of None \<Rightarrow> [] | Some o' \<Rightarrow> GetZoneKey o') = GetZoneKey new then Ret nt
      else case old of None \<Rightarrow> Panic NilDereference
        | Some o' \<Rightarrow> Ret (nt_addNode new (snd (nt_removeNode o' nt))))"

section \<open>Listing\<close>

definition zone_nodes :: "nodeTree \<Rightarrow> string \<Rightarrow> string list" where
  "zone_nodes nt z = (case map_of (tree nt) z of None \<Rightarrow> [] | Some na \<Rightarrow> na)"

fun list_round :: "nodeTree \<Rightarrow> string list \<Rightarrow> nat \<Rightarrow> nat \<Rightarrow> string list \<Rightarrow> nat \<times> string list" where
  "list_round nt [] nodeIndex exhausted nodesList = (exhausted, nodesList)"
| "list_round nt (z # zs) nodeIndex exhausted nodesList =
     (let na = zone_nodes nt z in
      if nodeIndex \<ge> length na
      then list_round nt zs nodeIndex (if nodeIndex = length na then exhausted + 1 else exhausted) nodesList
      else list_round nt zs nodeIndex exhausted (nodesList @ [na ! nodeIndex]))"

text \<open>The result has the names and, if the zones are exhausted too early, the error.\<close>

partial_function (option) list_loop :: "nodeTree \<Rightarrow> nat \<Rightarrow> nat \<Rightarrow> string list \<Rightarrow> (string list \<times> string option) option" where
  "list_loop nt nodeIndex exhausted nodesList =
     (if int (length nodesList) < numNodes nt
      then if exhausted \<ge> length (zones nt)
           then Some (nodesList, Some ''all zones exhausted before reaching count of nodes expected'')
           else let r = list_round nt (zones nt) nodeIndex exhausted nodesList
                in list_loop nt (nodeIndex + 1) (fst r) (snd r)
      else Some (nodesList, None))"

declare list_loop.simps [code]

definition nt_list :: "nodeTree \<Rightarrow> (string list \<times> string option) go" where
  "nt_list nt = (if zones nt = [] then Ret ([], None) else go_of_option (list_loop nt 0 0 []))"

end
