(* ===== verification/Sched_Cache.thy ===== *)
theory Sched_Cache
  imports Node_Tree
begin

text \<open>
  The scheduler's cache (\<open>pkg/scheduler/internal/cache/cache.go\<close>): the pods on every node, those that
  the scheduler has assumed before their binding is confirmed, and the order in which the nodes
  changed last, as a doubly linked list.
\<close>

section \<open>State\<close>

text \<open>
  The cache creates one item of the linked list for a name and unlinks it before it drops the name,
  so the name of a node serves as the address of its item. The generations of the nodes come from a
  counter of the package, kept here with the cache. The state of a pod is shared through a pointer
  that only the map of pod states holds. The lock guards every operation.
\<close>

record nodeInfoListItem =
  info :: nodeInfo
  next_item :: "string option"
  prev_item :: "string option"

record podState =
  ps_pod :: kpod
  deadline :: "int option"
  bindingFinished :: bool

record imageState =
  img_size :: int
  img_nodes :: "string list"

record schedulerCache =
  ttl :: int
  assumedPods :: "string list"
  podStates :: "(string \<times> podState) list"
  nodes :: "(string \<times> nodeInfoListItem) list"
  headNode :: "string option"
  cnodeTree :: nodeTree
  imageStates :: "(string \<times> imageState) list"
  cgeneration :: int

definition newSchedulerCache :: "int \<Rightarrow> int \<Rightarrow> schedulerCache" where
  "newSchedulerCache d gen = \<lparr>ttl = d, assumedPods = [], podStates = [], nodes = [], headNode = None,
     cnodeTree = newNodeTree [], imageStates = [], cgeneration = gen\<rparr>"

section \<open>The linked list\<close>

definition set_next :: "string \<Rightarrow> string option \<Rightarrow> schedulerCache \<Rightarrow> schedulerCache" where
  "set_next nm v c = c\<lparr>nodes := AList.map_entry nm (\<lambda>it. it\<lparr>next_item := v\<rparr>) (nodes c)\<rparr>"

definition set_prev :: "string \<Rightarrow> string option \<Rightarrow> schedulerCache \<Rightarrow> schedulerCache" where
  "set_prev nm v c = c\<lparr>nodes := AList.map_entry nm (\<lambda>it. it\<lparr>prev_item := v\<rparr>) (nodes c)\<rparr>"

text \<open>The neighbours of an item are linked to each other.\<close>

definition unlink :: "nodeInfoListItem \<Rightarrow> schedulerCache \<Rightarrow> schedulerCache" where
  "unlink ni c =
     (let c1 = (case prev_item ni of None \<Rightarrow> c | Some p \<Rightarrow> set_next p (next_item ni) c)
      in case next_item ni of None \<Rightarrow> c1 | Some q \<Rightarrow> set_prev q (prev_item ni) c1)"

definition moveNodeInfoToHead :: "string \<Rightarrow> schedulerCache \<Rightarrow> schedulerCache" where
  "moveNodeInfoToHead nm c = (case map_of (nodes c) nm of None \<Rightarrow> c
     | Some ni \<Rightarrow> (if headNode c = Some nm then c
         else let c2 = unlink ni c;
                  c3 = (case headNode c of None \<Rightarrow> c2 | Some h \<Rightarrow> set_prev h (Some nm) c2)
              in (set_prev nm None (set_next nm (headNode c) c3))\<lparr>headNode := Some nm\<rparr>))"

definition removeNodeInfoFromList :: "string \<Rightarrow> schedulerCache \<Rightarrow> schedulerCache" where
  "removeNodeInfoFromList nm c = (case map_of (nodes c) nm of None \<Rightarrow> c
     | Some ni \<Rightarrow>
         (let c2 = unlink ni c;
              c3 = (if headNode c = Some nm then c2\<lparr>headNode := next_item ni\<rparr> else c2)
          in c3\<lparr>nodes := AList.delete nm (nodes c3)\<rparr>))"

text \<open>An item with an empty node is made for a name, and an operation runs on the node of an item.\<close>

definition newNodeInfoListItem :: "gates \<Rightarrow> string \<Rightarrow> schedulerCache \<Rightarrow> schedulerCache" where
  "newNodeInfoListItem g nm c = (case NewNodeInfo g [] (cgeneration c) of (ni, gen) \<Rightarrow>
     c\<lparr>nodes := AList.update nm \<lparr>info = ni, next_item = None, prev_item = None\<rparr> (nodes c), cgeneration := gen\<rparr>)"

definition set_info :: "string \<Rightarrow> nodeInfo \<times> int \<Rightarrow> schedulerCache \<Rightarrow> schedulerCache" where
  "set_info nm = (\<lambda>(ni, gen) c. c\<lparr>nodes := AList.map_entry nm (\<lambda>it. it\<lparr>info := ni\<rparr>) (nodes c), cgeneration := gen\<rparr>)"

definition on_info :: "string \<Rightarrow> (nodeInfo \<Rightarrow> int \<Rightarrow> nodeInfo \<times> int) \<Rightarrow> schedulerCache \<Rightarrow> schedulerCache" where
  "on_info nm f c = (case map_of (nodes c) nm of None \<Rightarrow> c
     | Some it \<Rightarrow> set_info nm (f (info it) (cgeneration c)) c)"

section \<open>Pods on nodes\<close>

definition cache_addPod :: "gates \<Rightarrow> kpod \<Rightarrow> schedulerCache \<Rightarrow> schedulerCache" where
  "cache_addPod g pod c =
     (let nm = specNodeName pod;
          c1 = (case map_of (nodes c) nm of None \<Rightarrow> newNodeInfoListItem g nm c | Some _ \<Rightarrow> c)
      in moveNodeInfoToHead nm (on_info nm (AddPodInfo g pod) c1))"

definition cache_removePod :: "gates \<Rightarrow> kpod \<Rightarrow> schedulerCache \<Rightarrow> (string option \<times> schedulerCache) go" where
  "cache_removePod g pod c = (let nm = specNodeName pod in case map_of (nodes c) nm of None \<Rightarrow> Ret (None, c)
     | Some it \<Rightarrow> go_bind (RemovePod g pod (info it) (cgeneration c)) (\<lambda>(e, ni, gen).
         let c1 = set_info nm (ni, gen) c
         in case e of Some e \<Rightarrow> Ret (Some e, c1)
            | None \<Rightarrow> Ret (None, if Pods ni = [] \<and> node ni = None then removeNodeInfoFromList nm c1 else moveNodeInfoToHead nm c1)))"

definition cache_updatePod :: "gates \<Rightarrow> kpod \<Rightarrow> kpod \<Rightarrow> schedulerCache \<Rightarrow> (string option \<times> schedulerCache) go" where
  "cache_updatePod g oldPod newPod c = go_bind (cache_removePod g oldPod c) (\<lambda>(e, c1). case e of
       Some e \<Rightarrow> Ret (Some e, c1) | None \<Rightarrow> Ret (None, cache_addPod g newPod c1))"

section \<open>Assumed pods\<close>

text \<open>A pod without a key makes every operation report it and change nothing.\<close>

definition with_key :: "kpod \<Rightarrow> schedulerCache \<Rightarrow> (string \<Rightarrow> (string option \<times> schedulerCache) go) \<Rightarrow> (string option \<times> schedulerCache) go" where
  "with_key pod c f = (case GetPodKey pod of Inl e \<Rightarrow> Ret (Some e, c) | Inr key \<Rightarrow> f key)"

definition AssumePod :: "gates \<Rightarrow> kpod \<Rightarrow> schedulerCache \<Rightarrow> (string option \<times> schedulerCache) go" where
  "AssumePod g pod c = with_key pod c (\<lambda>key. case map_of (podStates c) key of
       Some _ \<Rightarrow> Ret (Some (''pod '' @ key @ '' is in the cache, so can't be assumed''), c)
     | None \<Rightarrow>
         (let c1 = cache_addPod g pod c
          in Ret (None, c1\<lparr>podStates := AList.update key \<lparr>ps_pod = pod, deadline = None, bindingFinished = False\<rparr> (podStates c1),
                           assumedPods := List.insert key (assumedPods c1)\<rparr>)))"

definition finishBinding :: "kpod \<Rightarrow> int \<Rightarrow> schedulerCache \<Rightarrow> (string option \<times> schedulerCache) go" where
  "finishBinding pod now c = with_key pod c (\<lambda>key. case map_of (podStates c) key of
       Some currState \<Rightarrow> (if key \<in> set (assumedPods c)
         then Ret (None, c\<lparr>podStates := AList.update key (currState\<lparr>bindingFinished := True, deadline := Some (now + ttl c)\<rparr>) (podStates c)\<rparr>)
         else Ret (None, c))
     | None \<Rightarrow> Ret (None, c))"

definition forget_key :: "string \<Rightarrow> schedulerCache \<Rightarrow> schedulerCache" where
  "forget_key key c = c\<lparr>assumedPods := removeAll key (assumedPods c), podStates := AList.delete key (podStates c)\<rparr>"

definition ForgetPod :: "gates \<Rightarrow> kpod \<Rightarrow> schedulerCache \<Rightarrow> (string option \<times> schedulerCache) go" where
  "ForgetPod g pod c = with_key pod c (\<lambda>key. case map_of (podStates c) key of
       Some currState \<Rightarrow>
         (if specNodeName (ps_pod currState) \<noteq> specNodeName pod
          then Ret (Some (''pod '' @ key @ '' was assumed on '' @ specNodeName pod @ '' but assigned to '' @ specNodeName (ps_pod currState)), c)
          else if key \<in> set (assumedPods c)
          then go_bind (cache_removePod g pod c) (\<lambda>(e, c1). case e of
                 Some e \<Rightarrow> Ret (Some e, c1) | None \<Rightarrow> Ret (None, forget_key key c1))
          else Ret (Some (''pod '' @ key @ '' wasn't assumed so cannot be forgotten''), c))
     | None \<Rightarrow> Ret (Some (''pod '' @ key @ '' wasn't assumed so cannot be forgotten''), c))"

section \<open>Events of pods\<close>

definition cache_AddPod :: "gates \<Rightarrow> kpod \<Rightarrow> schedulerCache \<Rightarrow> (string option \<times> schedulerCache) go" where
  "cache_AddPod g pod c = with_key pod c (\<lambda>key. case map_of (podStates c) key of
       Some currState \<Rightarrow>
         (if key \<in> set (assumedPods c)
          then go_bind (if specNodeName (ps_pod currState) \<noteq> specNodeName pod
                        then go_bind (cache_removePod g (ps_pod currState) c) (\<lambda>(_, c1). Ret (cache_addPod g pod c1))
                        else Ret c) (\<lambda>c1.
                 Ret (None, c1\<lparr>assumedPods := removeAll key (assumedPods c1),
                              podStates := AList.update key (currState\<lparr>deadline := None, ps_pod := pod\<rparr>) (podStates c1)\<rparr>))
          else Ret (Some (''pod '' @ key @ '' was already in added state''), c))
     | None \<Rightarrow>
         (let c1 = cache_addPod g pod c
          in Ret (None, c1\<lparr>podStates := AList.update key \<lparr>ps_pod = pod, deadline = None, bindingFinished = False\<rparr> (podStates c1)\<rparr>)))"

text \<open>A pod that changes its node ends the process.\<close>

definition cache_UpdatePod :: "gates \<Rightarrow> kpod \<Rightarrow> kpod \<Rightarrow> schedulerCache \<Rightarrow> (string option \<times> schedulerCache) go" where
  "cache_UpdatePod g oldPod newPod c = with_key oldPod c (\<lambda>key. case map_of (podStates c) key of
       Some currState \<Rightarrow>
         (if key \<notin> set (assumedPods c)
          then if specNodeName (ps_pod currState) \<noteq> specNodeName newPod then Panic FatalExit
               else go_bind (cache_updatePod g oldPod newPod c) (\<lambda>(e, c1). case e of
                 Some e \<Rightarrow> Ret (Some e, c1)
               | None \<Rightarrow> Ret (None, c1\<lparr>podStates := AList.update key (currState\<lparr>ps_pod := newPod\<rparr>) (podStates c1)\<rparr>))
          else Ret (Some (''pod '' @ key @ '' is not added to scheduler cache, so cannot be updated''), c))
     | None \<Rightarrow> Ret (Some (''pod '' @ key @ '' is not added to scheduler cache, so cannot be updated''), c))"

definition cache_RemovePod :: "gates \<Rightarrow> kpod \<Rightarrow> schedulerCache \<Rightarrow> (string option \<times> schedulerCache) go" where
  "cache_RemovePod g pod c = with_key pod c (\<lambda>key. case map_of (podStates c) key of
       Some currState \<Rightarrow>
         (if key \<notin> set (assumedPods c)
          then if specNodeName (ps_pod currState) \<noteq> specNodeName pod then Panic FatalExit
               else go_bind (cache_removePod g (ps_pod currState) c) (\<lambda>(e, c1). case e of
                 Some e \<Rightarrow> Ret (Some e, c1)
               | None \<Rightarrow> Ret (None, c1\<lparr>podStates := AList.delete key (podStates c1)\<rparr>))
          else Ret (Some (''pod '' @ key @ '' is not found in scheduler cache, so cannot be removed from it''), c))
     | None \<Rightarrow> Ret (Some (''pod '' @ key @ '' is not found in scheduler cache, so cannot be removed from it''), c))"

definition IsAssumedPod :: "kpod \<Rightarrow> schedulerCache \<Rightarrow> string + bool" where
  "IsAssumedPod pod c = (case GetPodKey pod of Inl e \<Rightarrow> Inl e | Inr key \<Rightarrow> Inr (key \<in> set (assumedPods c)))"

definition GetPod :: "kpod \<Rightarrow> schedulerCache \<Rightarrow> string + kpod" where
  "GetPod pod c = (case GetPodKey pod of Inl e \<Rightarrow> Inl e
     | Inr key \<Rightarrow> (case map_of (podStates c) key of
         None \<Rightarrow> Inl (''pod '' @ key @ '' does not exist in scheduler cache'') | Some ps \<Rightarrow> Inr (ps_pod ps)))"

section \<open>Images\<close>

definition createImageStateSummary :: "imageState \<Rightarrow> int \<times> nat" where
  "createImageStateSummary st = (img_size st, length (img_nodes st))"

definition add_image :: "string \<Rightarrow> int \<Rightarrow> (string \<times> int \<times> nat) list \<times> (string \<times> imageState) list \<Rightarrow> string \<Rightarrow>
    (string \<times> int \<times> nat) list \<times> (string \<times> imageState) list" where
  "add_image nn sz = (\<lambda>(newSum, sts) name.
     let st = (case map_of sts name of None \<Rightarrow> \<lparr>img_size = sz, img_nodes = [nn]\<rparr>
               | Some st \<Rightarrow> st\<lparr>img_nodes := List.insert nn (img_nodes st)\<rparr>)
     in (case map_of newSum name of None \<Rightarrow> AList.update name (createImageStateSummary st) newSum | Some _ \<Rightarrow> newSum,
         AList.update name st sts))"

definition addNodeImageStates :: "knode \<Rightarrow> (string \<times> imageState) list \<Rightarrow> (string \<times> int \<times> nat) list \<times> (string \<times> imageState) list" where
  "addNodeImageStates nd sts =
     foldl (\<lambda>acc (names, sz). foldl (add_image (knodeName nd) sz) acc names) ([], sts) (nodeImages nd)"

definition remove_image :: "string \<Rightarrow> (string \<times> imageState) list \<Rightarrow> string \<Rightarrow> (string \<times> imageState) list" where
  "remove_image nn sts name = (case map_of sts name of None \<Rightarrow> sts
     | Some st \<Rightarrow> (let ns = removeAll nn (img_nodes st)
                   in if ns = [] then AList.delete name sts else AList.update name (st\<lparr>img_nodes := ns\<rparr>) sts))"

definition removeNodeImageStates :: "knode option \<Rightarrow> schedulerCache \<Rightarrow> schedulerCache" where
  "removeNodeImageStates nd c = (case nd of None \<Rightarrow> c
     | Some nd \<Rightarrow> c\<lparr>imageStates := foldl (\<lambda>sts (names, sz). foldl (remove_image (knodeName nd)) sts names)
                                  (imageStates c) (nodeImages nd)\<rparr>)"

section \<open>Events of nodes\<close>

text \<open>The last steps of an addition and of an update: the images, the node itself, and the copy that is returned.\<close>

definition set_node :: "gates \<Rightarrow> knode \<Rightarrow> schedulerCache \<Rightarrow> nodeInfo option \<times> schedulerCache" where
  "set_node g nd c =
     (let (newSum, sts) = addNodeImageStates nd (imageStates c);
          c1 = on_info (knodeName nd) (\<lambda>n gen. SetNode g nd (n\<lparr>ImageStates := newSum\<rparr>) gen) (c\<lparr>imageStates := sts\<rparr>)
      in (map_option info (map_of (nodes c1) (knodeName nd)), c1))"

definition AddNode :: "gates \<Rightarrow> knode \<Rightarrow> schedulerCache \<Rightarrow> nodeInfo option \<times> schedulerCache" where
  "AddNode g nd c =
     (let nm = knodeName nd;
          c1 = (case map_of (nodes c) nm of None \<Rightarrow> newNodeInfoListItem g nm c
                | Some it \<Rightarrow> removeNodeImageStates (node (info it)) c);
          c2 = moveNodeInfoToHead nm c1
      in set_node g nd (c2\<lparr>cnodeTree := nt_addNode nd (cnodeTree c2)\<rparr>))"

definition UpdateNode :: "gates \<Rightarrow> knode option \<Rightarrow> knode \<Rightarrow> schedulerCache \<Rightarrow> (nodeInfo option \<times> schedulerCache) go" where
  "UpdateNode g oldNode newNode c =
     (let nm = knodeName newNode;
          c1 = (case map_of (nodes c) nm of
                  None \<Rightarrow> (newNodeInfoListItem g nm c)\<lparr>cnodeTree := nt_addNode newNode (cnodeTree c)\<rparr>
                | Some it \<Rightarrow> removeNodeImageStates (node (info it)) c);
          c2 = moveNodeInfoToHead nm c1
      in go_bind (nt_updateNode oldNode newNode (cnodeTree c2)) (\<lambda>nt. Ret (set_node g newNode (c2\<lparr>cnodeTree := nt\<rparr>))))"

text \<open>An error is given by the names it prints.\<close>

definition cache_RemoveNode :: "knode \<Rightarrow> schedulerCache \<Rightarrow> (string \<times> string) option \<times> schedulerCache" where
  "cache_RemoveNode nd c = (let nm = knodeName nd in case map_of (nodes c) nm of
       None \<Rightarrow> (Some (nm, ''is not found''), c)
     | Some it \<Rightarrow>
         (let c1 = on_info nm RemoveNode c;
              c2 = (if Pods (info it) = [] then removeNodeInfoFromList nm c1 else moveNodeInfoToHead nm c1)
          in case nt_removeNode nd (cnodeTree c2) of
               (Some e, nt) \<Rightarrow> (Some e, c2\<lparr>cnodeTree := nt\<rparr>)
             | (None, nt) \<Rightarrow> (None, removeNodeImageStates (Some nd) (c2\<lparr>cnodeTree := nt\<rparr>))))"

section \<open>Expiry\<close>

definition expirePod :: "gates \<Rightarrow> string \<Rightarrow> podState \<Rightarrow> schedulerCache \<Rightarrow> (string option \<times> schedulerCache) go" where
  "expirePod g key ps c = go_bind (cache_removePod g (ps_pod ps) c) (\<lambda>(e, c1). case e of
       Some e \<Rightarrow> Ret (Some e, c1) | None \<Rightarrow> Ret (None, forget_key key c1))"

text \<open>The loop visits the assumed pods in any order; an expiry that fails is only logged.\<close>

fun cleanup_loop :: "gates \<Rightarrow> int \<Rightarrow> string list \<Rightarrow> schedulerCache \<Rightarrow> schedulerCache go" where
  "cleanup_loop g now [] c = Ret c"
| "cleanup_loop g now (key # keys) c = (case map_of (podStates c) key of None \<Rightarrow> Panic FatalExit
     | Some ps \<Rightarrow>
         (if \<not> bindingFinished ps then cleanup_loop g now keys c
          else case deadline ps of None \<Rightarrow> Panic NilDereference
            | Some d \<Rightarrow> (if now > d then go_bind (expirePod g key ps c) (\<lambda>(_, c1). cleanup_loop g now keys c1)
                         else cleanup_loop g now keys c)))"

definition cleanupAssumedPods :: "gates \<Rightarrow> (string list \<Rightarrow> string list) \<Rightarrow> int \<Rightarrow> schedulerCache \<Rightarrow> schedulerCache go" where
  "cleanupAssumedPods g visit now c = cleanup_loop g now (visit (assumedPods c)) c"

section \<open>Counts\<close>

definition Dump :: "schedulerCache \<Rightarrow> (string \<times> nodeInfo) list \<times> string list" where
  "Dump c = (map (\<lambda>(nm, it). (nm, info it)) (nodes c), assumedPods c)"

definition NodeCount :: "schedulerCache \<Rightarrow> nat" where
  "NodeCount c = length (nodes c)"

definition PodCount :: "schedulerCache \<Rightarrow> nat" where
  "PodCount c = foldl (\<lambda>count (_, it). count + length (Pods (info it))) 0 (nodes c)"

end
