(* ===== verification/Sched_Snapshot.thy ===== *)
theory Sched_Snapshot
  imports Sched_Cache
begin

text \<open>
  The snapshot a scheduling cycle works on (\<open>pkg/scheduler/internal/cache/snapshot.go\<close>) and the
  operation of the cache that brings it up to date (\<open>UpdateSnapshot\<close> of \<open>cache.go\<close>): only the nodes that
  changed since the last call are copied.
\<close>

section \<open>State\<close>

text \<open>
  The three lists hold pointers to the copies in the map. A copy is overwritten in place, and a list
  is made again whenever a name leaves the map, so the name of a node serves as the pointer: the
  lists hold names and read the map through them. The map of claims in use is shared by a node and
  its copy; the other parts are copied. What is stated of a copy is stated at the end of an update.
\<close>

record snapshot =
  nodeInfoMap :: "(string \<times> nodeInfo) list"
  nodeInfoList :: "string list"
  havePodsWithAffinityNodeInfoList :: "string list"
  havePodsWithRequiredAntiAffinityNodeInfoList :: "string list"
  sgeneration :: int

definition NewEmptySnapshot :: snapshot where
  "NewEmptySnapshot = \<lparr>nodeInfoMap = [], nodeInfoList = [], havePodsWithAffinityNodeInfoList = [],
     havePodsWithRequiredAntiAffinityNodeInfoList = [], sgeneration = 0\<rparr>"

definition withAffinity :: "snapshot \<Rightarrow> string \<Rightarrow> bool" where
  "withAffinity s nm = (case map_of (nodeInfoMap s) nm of None \<Rightarrow> False | Some ni \<Rightarrow> PodsWithAffinity ni \<noteq> [])"

definition withRequiredAntiAffinity :: "snapshot \<Rightarrow> string \<Rightarrow> bool" where
  "withRequiredAntiAffinity s nm =
     (case map_of (nodeInfoMap s) nm of None \<Rightarrow> False | Some ni \<Rightarrow> PodsWithRequiredAntiAffinity ni \<noteq> [])"

section \<open>Bringing a snapshot up to date\<close>

text \<open>What is to be made again: all lists, or one of the two lists of nodes with affinity.\<close>

record snap_flags =
  updateAllLists :: bool
  updateNodesHavePodsWithAffinity :: bool
  updateNodesHavePodsWithRequiredAntiAffinity :: bool

definition snap_item :: "nodeInfo \<Rightarrow> snap_flags \<times> snapshot \<Rightarrow> snap_flags \<times> snapshot" where
  "snap_item clone = (\<lambda>(fl, s). case node clone of None \<Rightarrow> (fl, s)
     | Some np \<Rightarrow>
         (let nm = knodeName np;
              fl1 = (if map_of (nodeInfoMap s) nm = None then fl\<lparr>updateAllLists := True\<rparr> else fl);
              fl2 = (if withAffinity s nm \<noteq> (PodsWithAffinity clone \<noteq> [])
                     then fl1\<lparr>updateNodesHavePodsWithAffinity := True\<rparr> else fl1);
              fl3 = (if withRequiredAntiAffinity s nm \<noteq> (PodsWithRequiredAntiAffinity clone \<noteq> [])
                     then fl2\<lparr>updateNodesHavePodsWithRequiredAntiAffinity := True\<rparr> else fl2)
          in (fl3, s\<lparr>nodeInfoMap := AList.update nm clone (nodeInfoMap s)\<rparr>)))"

text \<open>The walk over the linked list from its head; it stops at the first node the snapshot has seen.\<close>

partial_function (option) snap_loop ::
    "schedulerCache \<Rightarrow> int \<Rightarrow> string option \<Rightarrow> snap_flags \<times> snapshot \<Rightarrow> (snap_flags \<times> snapshot) option" where
  "snap_loop c snapshotGeneration ptr st = (case ptr of None \<Rightarrow> Some st
     | Some nm \<Rightarrow> (case map_of (nodes c) nm of None \<Rightarrow> Some st
         | Some it \<Rightarrow> (if Generation (info it) \<le> snapshotGeneration then Some st
                        else snap_loop c snapshotGeneration (next_item it) (snap_item (info it) st))))"

declare snap_loop.simps [code]

text \<open>A name that is in the tree but not in the map is logged and left out.\<close>

definition updateNodeInfoSnapshotList :: "schedulerCache \<Rightarrow> bool \<Rightarrow> snapshot \<Rightarrow> snapshot go" where
  "updateNodeInfoSnapshotList c updateAll s =
     go_bind (if updateAll
              then go_bind (nt_list (cnodeTree c)) (\<lambda>(nodesList, _).
                     Ret (filter (\<lambda>nm. map_of (nodeInfoMap s) nm \<noteq> None) nodesList))
              else Ret (nodeInfoList s)) (\<lambda>l.
       Ret (s\<lparr>nodeInfoList := l, havePodsWithAffinityNodeInfoList := filter (withAffinity s) l,
              havePodsWithRequiredAntiAffinityNodeInfoList := filter (withRequiredAntiAffinity s) l\<rparr>))"

definition deleted :: "schedulerCache \<Rightarrow> string \<Rightarrow> bool" where
  "deleted c nm = (case map_of (nodes c) nm of None \<Rightarrow> True | Some it \<Rightarrow> node (info it) = None)"

fun stale_loop :: "schedulerCache \<Rightarrow> string list \<Rightarrow> int \<Rightarrow> snapshot \<Rightarrow> snapshot" where
  "stale_loop c [] toDelete s = s"
| "stale_loop c (nm # nms) toDelete s = (if toDelete \<le> 0 then s
     else if deleted c nm then stale_loop c nms (toDelete - 1) (s\<lparr>nodeInfoMap := AList.delete nm (nodeInfoMap s)\<rparr>)
     else stale_loop c nms toDelete s)"

definition removeDeletedNodesFromSnapshot :: "(string list \<Rightarrow> string list) \<Rightarrow> schedulerCache \<Rightarrow> snapshot \<Rightarrow> snapshot" where
  "removeDeletedNodesFromSnapshot visit c s =
     stale_loop c (visit (map fst (nodeInfoMap s))) (int (length (nodeInfoMap s)) - numNodes (cnodeTree c)) s"

text \<open>
  An inconsistent snapshot is reported by the four counts the message prints, after its lists have
  been made again.
\<close>

definition UpdateSnapshot :: "(string list \<Rightarrow> string list) \<Rightarrow> schedulerCache \<Rightarrow> snapshot \<Rightarrow>
    ((nat \<times> int \<times> nat \<times> nat) option \<times> snapshot) go" where
  "UpdateSnapshot visit c s =
     go_bind (go_of_option (snap_loop c (sgeneration s) (headNode c)
       (\<lparr>updateAllLists = False, updateNodesHavePodsWithAffinity = False, updateNodesHavePodsWithRequiredAntiAffinity = False\<rparr>, s)))
     (\<lambda>(fl, s1).
        let s2 = (case headNode c of None \<Rightarrow> s1
                  | Some nm \<Rightarrow> (case map_of (nodes c) nm of None \<Rightarrow> s1 | Some it \<Rightarrow> s1\<lparr>sgeneration := Generation (info it)\<rparr>));
            more = int (length (nodeInfoMap s2)) > numNodes (cnodeTree c);
            s3 = (if more then removeDeletedNodesFromSnapshot visit c s2 else s2);
            all = (updateAllLists fl \<or> more)
        in go_bind (if all \<or> updateNodesHavePodsWithAffinity fl \<or> updateNodesHavePodsWithRequiredAntiAffinity fl
                    then updateNodeInfoSnapshotList c all s3 else Ret s3) (\<lambda>s4.
             if int (length (nodeInfoList s4)) \<noteq> numNodes (cnodeTree c)
             then go_bind (updateNodeInfoSnapshotList c True s4) (\<lambda>s5.
                    Ret (Some (length (nodeInfoList s4), numNodes (cnodeTree c), length (nodeInfoMap s4), length (nodes c)), s5))
             else Ret (None, s4)))"

section \<open>Snapshots made from scratch\<close>

definition createImageExistenceMap :: "knode list \<Rightarrow> (string \<times> string list) list" where
  "createImageExistenceMap nds = foldl (\<lambda>m nd. foldl (\<lambda>m (names, _). foldl (\<lambda>m name. case map_of m name of
       None \<Rightarrow> AList.update name [knodeName nd] m
     | Some ns \<Rightarrow> AList.update name (List.insert (knodeName nd) ns) m) m names) m (nodeImages nd)) [] nds"

definition getNodeImageStates :: "knode \<Rightarrow> (string \<times> string list) list \<Rightarrow> (string \<times> int \<times> nat) list" where
  "getNodeImageStates nd m = foldl (\<lambda>sts (names, sz). foldl (\<lambda>sts name.
     AList.update name (sz, case map_of m name of None \<Rightarrow> 0 | Some ns \<Rightarrow> length ns) sts) sts names) [] (nodeImages nd)"

text \<open>The information of a name, made if it is missing, goes through an operation.\<close>

definition on_name :: "gates \<Rightarrow> string \<Rightarrow> (nodeInfo \<Rightarrow> int \<Rightarrow> nodeInfo \<times> int) \<Rightarrow>
    (string \<times> nodeInfo) list \<times> int \<Rightarrow> (string \<times> nodeInfo) list \<times> int" where
  "on_name g nm f = (\<lambda>(m, gen).
     let (ni, gen1) = (case map_of m nm of None \<Rightarrow> NewNodeInfo g [] gen | Some ni \<Rightarrow> (ni, gen));
         (ni', gen2) = f ni gen1
     in (AList.update nm ni' m, gen2))"

definition createNodeInfoMap :: "gates \<Rightarrow> kpod list \<Rightarrow> knode list \<Rightarrow> int \<Rightarrow> (string \<times> nodeInfo) list \<times> int" where
  "createNodeInfoMap g pods nds gen =
     (let m1 = foldl (\<lambda>m pod. on_name g (specNodeName pod) (AddPodInfo g pod) m) ([], gen) pods;
          imageExistenceMap = createImageExistenceMap nds
      in foldl (\<lambda>m nd. on_name g (knodeName nd) (\<lambda>ni gen. case SetNode g nd ni gen of (ni', gen') \<Rightarrow>
           (ni'\<lparr>ImageStates := getNodeImageStates nd imageExistenceMap\<rparr>, gen')) m) m1 nds)"

definition NewSnapshot :: "gates \<Rightarrow> (string list \<Rightarrow> string list) \<Rightarrow> kpod list \<Rightarrow> knode list \<Rightarrow> int \<Rightarrow> snapshot \<times> int" where
  "NewSnapshot g visit pods nds gen =
     (let (m, gen') = createNodeInfoMap g pods nds gen;
          s = NewEmptySnapshot\<lparr>nodeInfoMap := m\<rparr>;
          l = visit (map fst m)
      in (s\<lparr>nodeInfoList := l, havePodsWithAffinityNodeInfoList := filter (withAffinity s) l,
            havePodsWithRequiredAntiAffinityNodeInfoList := filter (withRequiredAntiAffinity s) l\<rparr>, gen'))"

section \<open>Reading a snapshot\<close>

definition read_list :: "snapshot \<Rightarrow> string list \<Rightarrow> nodeInfo list" where
  "read_list s l = List.map_filter (map_of (nodeInfoMap s)) l"

definition NumNodes :: "snapshot \<Rightarrow> nat" where
  "NumNodes s = length (nodeInfoList s)"

definition snap_List :: "snapshot \<Rightarrow> nodeInfo list" where
  "snap_List s = read_list s (nodeInfoList s)"

definition HavePodsWithAffinityList :: "snapshot \<Rightarrow> nodeInfo list" where
  "HavePodsWithAffinityList s = read_list s (havePodsWithAffinityNodeInfoList s)"

definition HavePodsWithRequiredAntiAffinityList :: "snapshot \<Rightarrow> nodeInfo list" where
  "HavePodsWithRequiredAntiAffinityList s = read_list s (havePodsWithRequiredAntiAffinityNodeInfoList s)"

definition snap_Get :: "snapshot \<Rightarrow> string \<Rightarrow> string + nodeInfo" where
  "snap_Get s nodeName = (case map_of (nodeInfoMap s) nodeName of
       Some v \<Rightarrow> (if node v \<noteq> None then Inr v else Inl (''nodeinfo not found for node name '' @ [CHR 0x22] @ nodeName @ [CHR 0x22]))
     | None \<Rightarrow> Inl (''nodeinfo not found for node name '' @ [CHR 0x22] @ nodeName @ [CHR 0x22]))"

end
