(* ===== verification/Cache_List.thy ===== *)
theory Cache_List
  imports Sched_Cache
begin

text \<open>
  The linked list of the cache: what the pointers represent is a list of names, and the two
  operations on the pointers move a name to the front of that list or take it out. The information
  kept in the items is not touched by them.
\<close>

section \<open>Views of the items\<close>

definition links :: "schedulerCache \<Rightarrow> string \<rightharpoonup> string option \<times> string option" where
  "links c nm = map_option (\<lambda>it. (next_item it, prev_item it)) (map_of (nodes c) nm)"

definition infos :: "schedulerCache \<Rightarrow> string \<rightharpoonup> nodeInfo" where
  "infos c nm = map_option info (map_of (nodes c) nm)"

text \<open>The parts of the cache that operations on items leave alone.\<close>

definition rest :: "schedulerCache \<Rightarrow> int \<times> string list \<times> (string \<times> podState) list \<times> nodeTree \<times> (string \<times> imageState) list \<times> int" where
  "rest c = (ttl c, assumedPods c, podStates c, cnodeTree c, imageStates c, cgeneration c)"

lemma set_next_views [simp]:
  "links (set_next nm v c) = (links c)(nm := map_option (\<lambda>(n, p). (v, p)) (links c nm))"
  "infos (set_next nm v c) = infos c" "rest (set_next nm v c) = rest c" "headNode (set_next nm v c) = headNode c"
  by (auto simp: set_next_def links_def infos_def rest_def fun_eq_iff map_of_map_entry option.map_comp o_def split: option.splits)

lemma set_prev_views [simp]:
  "links (set_prev nm v c) = (links c)(nm := map_option (\<lambda>(n, p). (n, v)) (links c nm))"
  "infos (set_prev nm v c) = infos c" "rest (set_prev nm v c) = rest c" "headNode (set_prev nm v c) = headNode c"
  by (auto simp: set_prev_def links_def infos_def rest_def fun_eq_iff map_of_map_entry option.map_comp o_def split: option.splits)

lemma head_views [simp]:
  "links (c\<lparr>headNode := h\<rparr>) = links c" "infos (c\<lparr>headNode := h\<rparr>) = infos c" "rest (c\<lparr>headNode := h\<rparr>) = rest c"
  by (simp_all add: links_def infos_def rest_def fun_eq_iff)

lemma delete_views [simp]:
  "links (c\<lparr>nodes := AList.delete nm (nodes c)\<rparr>) = (links c)(nm := None)"
  "infos (c\<lparr>nodes := AList.delete nm (nodes c)\<rparr>) = (infos c)(nm := None)"
  "rest (c\<lparr>nodes := AList.delete nm (nodes c)\<rparr>) = rest c"
  by (simp_all add: links_def infos_def rest_def fun_eq_iff delete_conv')

lemma dom_infos: "dom (infos c) = dom (links c)" "dom (infos c) = dom (map_of (nodes c))"
  by (auto simp: infos_def links_def dom_def)

section \<open>Segments\<close>

definition fst_or :: "'a list \<Rightarrow> 'a option \<Rightarrow> 'a option" where
  "fst_or xs q = (case xs of [] \<Rightarrow> q | x # _ \<Rightarrow> Some x)"

definition last_or :: "'a option \<Rightarrow> 'a list \<Rightarrow> 'a option" where
  "last_or p xs = (if xs = [] then p else Some (last xs))"

lemma fst_or_simps [simp]: "fst_or [] q = q" "fst_or (x # xs) q = Some x"
  by (simp_all add: fst_or_def)

lemma last_or_simps [simp]: "last_or p [] = p" "last_or p (x # xs) = last_or (Some x) xs"
  by (simp_all add: last_or_def)

lemma fst_or_append [simp]: "fst_or (xs @ ys) q = fst_or xs (fst_or ys q)"
  by (cases xs) simp_all

text \<open>The items of the list, entered from \<open>p\<close> and left to \<open>q\<close>.\<close>

primrec dlseg :: "('a \<rightharpoonup> 'a option \<times> 'a option) \<Rightarrow> 'a option \<Rightarrow> 'a list \<Rightarrow> 'a option \<Rightarrow> bool" where
  "dlseg L p [] q = True"
| "dlseg L p (x # xs) q = (L x = Some (fst_or xs q, p) \<and> dlseg L (Some x) xs q)"

lemma dlseg_append [simp]:
  "dlseg L p (xs @ ys) q \<longleftrightarrow> dlseg L p xs (fst_or ys q) \<and> dlseg L (last_or p xs) ys q"
  by (induction xs arbitrary: p) auto

lemma dlseg_frame [simp]: "u \<notin> set xs \<Longrightarrow> dlseg (L(u := v)) p xs q = dlseg L p xs q"
  by (induction xs arbitrary: p) auto

lemma dlseg_dom: "dlseg L p xs q \<Longrightarrow> set xs \<subseteq> dom L"
  by (induction xs arbitrary: p) auto

lemma dlseg_set_last:
  assumes "dlseg L p xs q" "distinct xs"
  shows "dlseg (case last_or None xs of None \<Rightarrow> L | Some x \<Rightarrow> L(x := map_option (\<lambda>(n, p). (q', p)) (L x))) p xs q'"
  using assms by (cases xs rule: rev_cases) (auto simp: last_or_def)

lemma dlseg_set_first:
  assumes "dlseg L p xs q" "distinct xs"
  shows "dlseg (case fst_or xs None of None \<Rightarrow> L | Some x \<Rightarrow> L(x := map_option (\<lambda>(n, p). (n, p')) (L x))) p' xs q"
  using assms by (cases xs) auto

section \<open>The list a cache represents\<close>

definition linked :: "schedulerCache \<Rightarrow> string list \<Rightarrow> bool" where
  "linked c xs \<longleftrightarrow> distinct xs \<and> set xs = dom (infos c) \<and> headNode c = fst_or xs None \<and> dlseg (links c) None xs None"

lemma linked_unlink:
  assumes "linked c (as @ nm # bs)" "map_of (nodes c) nm = Some ni"
  shows "dlseg (links (unlink ni c)) None (as @ bs) None" "infos (unlink ni c) = infos c"
    "rest (unlink ni c) = rest c" "headNode (unlink ni c) = headNode c" "links (unlink ni c) nm = links c nm"
    "next_item ni = fst_or bs None"
proof -
  have d: "distinct as" "distinct bs" "set as \<inter> set bs = {}" "nm \<notin> set as" "nm \<notin> set bs"
    and s: "dlseg (links c) None as (Some nm)" "dlseg (links c) (Some nm) bs None"
    and l: "links c nm = Some (fst_or bs None, last_or None as)"
    using assms(1) by (auto simp: linked_def)
  have n: "next_item ni = fst_or bs None" "prev_item ni = last_or None as" using l assms(2) by (auto simp: links_def)
  show "next_item ni = fst_or bs None" by (rule n)
  let ?L1 = "case last_or None as of None \<Rightarrow> links c | Some x \<Rightarrow> (links c)(x := map_option (\<lambda>(n, p). (fst_or bs None, p)) (links c x))"
  let ?L2 = "case fst_or bs None of None \<Rightarrow> ?L1 | Some x \<Rightarrow> ?L1(x := map_option (\<lambda>(n, p). (n, last_or None as)) (?L1 x))"
  have L: "links (unlink ni c) = ?L2" by (auto simp: unlink_def Let_def n split: option.splits)
  have fr1: "dlseg ?L1 p bs q = dlseg (links c) p bs q" for p q
    using d(3) by (cases as rule: rev_cases) (auto simp: last_or_def)
  have fr2: "dlseg ?L2 p as q = dlseg ?L1 p as q" for p q
    using d(3) by (cases bs) auto
  have "dlseg ?L2 None as (fst_or bs None)" unfolding fr2 by (rule dlseg_set_last [OF s(1) d(1)])
  moreover have "dlseg ?L2 (last_or None as) bs None"
    using s(2) d(2) by (intro dlseg_set_first [where p = "Some nm"]) (simp_all add: fr1)
  ultimately show "dlseg (links (unlink ni c)) None (as @ bs) None" by (simp add: L)
  show "links (unlink ni c) nm = links c nm" unfolding L
    using d(4,5) by (cases as rule: rev_cases; cases bs) (auto simp: last_or_def)
  show "infos (unlink ni c) = infos c" "rest (unlink ni c) = rest c" "headNode (unlink ni c) = headNode c"
    by (auto simp: unlink_def Let_def split: option.splits)
qed

lemma linked_split:
  assumes "linked c xs" "nm \<in> set xs"
  obtains as bs ni where "xs = as @ nm # bs" "remove1 nm xs = as @ bs" "map_of (nodes c) nm = Some ni"
    "nm \<notin> set as" "nm \<notin> set bs"
proof -
  obtain as bs where xs: "xs = as @ nm # bs" using assms(2) by (meson split_list)
  have d: "nm \<notin> set as" "nm \<notin> set bs" using assms(1) xs by (auto simp: linked_def)
  have "nm \<in> dom (map_of (nodes c))" using assms dom_infos(2) by (auto simp: linked_def)
  then show ?thesis using that [of as bs] xs d by (auto simp: remove1_append)
qed

lemma removeNodeInfoFromList_linked:
  assumes "linked c xs" "nm \<in> set xs"
  shows "linked (removeNodeInfoFromList nm c) (remove1 nm xs) \<and> infos (removeNodeInfoFromList nm c) = (infos c)(nm := None) \<and>
    rest (removeNodeInfoFromList nm c) = rest c"
proof -
  obtain as bs ni where x: "xs = as @ nm # bs" "remove1 nm xs = as @ bs" "map_of (nodes c) nm = Some ni" "nm \<notin> set as" "nm \<notin> set bs"
    using linked_split [OF assms] .
  note u = linked_unlink [OF assms(1) [unfolded x(1)] x(3)]
  have h: "headNode c = fst_or as (Some nm)" using assms(1) x(1) by (simp add: linked_def)
  have dm: "dom ((infos c)(nm := None)) = set (as @ bs)" using assms(1) x by (auto simp: linked_def)
  have ds: "distinct (as @ bs)" using assms(1) x(1) by (auto simp: linked_def)
  let ?c = "removeNodeInfoFromList nm c"
  have v: "links ?c = (links (unlink ni c))(nm := None)" "infos ?c = (infos c)(nm := None)" "rest ?c = rest c"
    using u(2,3) x(3) by (simp_all add: removeNodeInfoFromList_def Let_def)
  have "headNode ?c = fst_or (as @ bs) None"
    using x u(4,6) h by (cases as) (auto simp: removeNodeInfoFromList_def Let_def)
  then show ?thesis using u(1) x(2,4,5) dm ds v unfolding linked_def by simp
qed

lemma moveNodeInfoToHead_linked:
  assumes "linked c xs" "nm \<in> set xs"
  shows "linked (moveNodeInfoToHead nm c) (nm # remove1 nm xs) \<and> infos (moveNodeInfoToHead nm c) = infos c \<and>
    rest (moveNodeInfoToHead nm c) = rest c"
proof -
  obtain as bs ni where x: "xs = as @ nm # bs" "remove1 nm xs = as @ bs" "map_of (nodes c) nm = Some ni" "nm \<notin> set as" "nm \<notin> set bs"
    using linked_split [OF assms] .
  show ?thesis
  proof (cases as)
    case Nil
    then show ?thesis using assms(1) x by (simp add: moveNodeInfoToHead_def linked_def)
  next
    case (Cons h as')
    note u = linked_unlink [OF assms(1) [unfolded x(1)] x(3)]
    have hd: "headNode c = Some h" "h \<noteq> nm" using assms(1) x Cons by (auto simp: linked_def)
    obtain n p where np: "links c nm = Some (n, p)" using x(3) by (simp add: links_def)
    let ?c = "moveNodeInfoToHead nm c" let ?L = "links (unlink ni c)"
    have v: "links ?c = (?L(h := map_option (\<lambda>(n, p). (n, Some nm)) (?L h)))(nm := Some (Some h, None))"
      "infos ?c = infos c" "rest ?c = rest c" "headNode ?c = Some nm"
      using x(3) hd u(2,3,5) np by (simp_all add: moveNodeInfoToHead_def Let_def fun_eq_iff)
    have ds: "distinct (as @ bs)" using assms(1) x(1) by (auto simp: linked_def)
    have "dlseg (?L(h := map_option (\<lambda>(n, p). (n, Some nm)) (?L h))) (Some nm) (as @ bs) None"
      using dlseg_set_first [OF u(1) ds, of "Some nm"] Cons by simp
    then have "dlseg (links ?c) None (nm # as @ bs) None" using x(4,5) hd(2) Cons by (simp add: v)
    then show ?thesis using assms(1) x v ds by (auto simp: linked_def)
  qed
qed

lemma unlink_views: "infos (unlink ni c) = infos c \<and> rest (unlink ni c) = rest c"
  by (auto simp: unlink_def Let_def split: option.splits)

lemma move_views: "infos (moveNodeInfoToHead nm c) = infos c \<and> rest (moveNodeInfoToHead nm c) = rest c"
  using unlink_views by (auto simp: moveNodeInfoToHead_def Let_def split: option.splits)

lemma newNodeInfoListItem_views:
  assumes "infos c nm = None" "NewNodeInfo g [] (cgeneration c) = (ni, gen)"
  shows "links (newNodeInfoListItem g nm c) = (links c)(nm \<mapsto> (None, None))"
    "infos (newNodeInfoListItem g nm c) = (infos c)(nm \<mapsto> ni)" "headNode (newNodeInfoListItem g nm c) = headNode c"
    "rest (newNodeInfoListItem g nm c) = (ttl c, assumedPods c, podStates c, cnodeTree c, imageStates c, gen)"
  using assms by (simp_all add: newNodeInfoListItem_def links_def infos_def rest_def fun_eq_iff update_conv')

text \<open>A new item is not in the list before it is moved to the head.\<close>

lemma move_new_item:
  assumes "linked c xs" "infos c nm = None" "map_of (nodes c') nm = Some ni" "next_item ni = None" "prev_item ni = None"
    "links c' = (links c)(nm \<mapsto> (None, None))" "infos c' = (infos c)(nm \<mapsto> i)" "headNode c' = headNode c"
  shows "linked (moveNodeInfoToHead nm c') (nm # xs) \<and> infos (moveNodeInfoToHead nm c') = infos c' \<and>
    rest (moveNodeInfoToHead nm c') = rest c'"
proof -
  have nx: "nm \<notin> set xs" using assms(1,2) by (auto simp: linked_def)
  have un: "unlink ni c' = c'" using assms(4,5) by (simp add: unlink_def)
  have hd: "headNode c' = fst_or xs None" using assms(1,8) by (simp add: linked_def)
  have hn: "headNode c' \<noteq> Some nm" unfolding hd using nx by (cases xs) auto
  let ?c = "moveNodeInfoToHead nm c'" let ?L = "links c"
  have c: "?c = (set_prev nm None (set_next nm (fst_or xs None)
      (case fst_or xs None of None \<Rightarrow> c' | Some h \<Rightarrow> set_prev h (Some nm) c')))\<lparr>headNode := Some nm\<rparr>"
    using assms(3) un hd hn by (simp add: moveNodeInfoToHead_def Let_def)
  have nh: "h \<noteq> nm" if "xs = h # ys" for h ys using nx that by auto
  have v: "links ?c = (case fst_or xs None of None \<Rightarrow> ?L | Some h \<Rightarrow> ?L(h := map_option (\<lambda>(n, p). (n, Some nm)) (?L h)))(nm := Some (fst_or xs None, None))"
    "infos ?c = infos c'" "rest ?c = rest c'" "headNode ?c = Some nm"
    unfolding c using nh by (cases xs; simp add: assms(6) fun_upd_twist)+
  have "dlseg (case fst_or xs None of None \<Rightarrow> ?L | Some h \<Rightarrow> ?L(h := map_option (\<lambda>(n, p). (n, Some nm)) (?L h))) (Some nm) xs None"
    using assms(1) by (intro dlseg_set_first [where p = None]) (simp_all add: linked_def)
  then have "dlseg (links ?c) None (nm # xs) None" using nx by (simp add: v)
  then show ?thesis using assms(1,7) v nx by (auto simp: linked_def)
qed

lemma set_info_views [simp]:
  "links (set_info nm p c) = links c" "headNode (set_info nm p c) = headNode c"
  "infos (set_info nm p c) = (infos c)(nm := map_option (\<lambda>_. fst p) (infos c nm))"
  "rest (set_info nm p c) = (ttl c, assumedPods c, podStates c, cnodeTree c, imageStates c, snd p)"
  by (auto simp: set_info_def links_def infos_def rest_def fun_eq_iff map_of_map_entry option.map_comp o_def split: option.splits prod.splits)

lemma linked_set_info: "linked c xs \<Longrightarrow> linked (set_info nm p c) xs"
  by (auto simp: linked_def split: if_splits)

end
