(* ===== verification/Node_Tree_Props.thy ===== *)
theory Node_Tree_Props
  imports Node_Tree
begin

text \<open>
  The tree stands for a set of pairs of a zone and a node name. Its operations act on that set as
  insertion and deletion, and its listing has every pair once, zone by zone in turn.
\<close>

section \<open>The invariant\<close>

definition tree_ok :: "nodeTree \<Rightarrow> bool" where
  "tree_ok nt \<longleftrightarrow> distinct (zones nt) \<and> set (zones nt) = dom (map_of (tree nt)) \<and>
     (\<forall>z na. map_of (tree nt) z = Some na \<longrightarrow> na \<noteq> [] \<and> distinct na) \<and>
     numNodes nt = sum_list (map (\<lambda>z. int (length (zone_nodes nt z))) (zones nt))"

definition entries :: "nodeTree \<Rightarrow> (string \<times> string) set" where
  "entries nt = {(z, n). n \<in> set (zone_nodes nt z)}"

lemma tree_okI:
  "distinct (zones nt) \<Longrightarrow> set (zones nt) = dom (map_of (tree nt)) \<Longrightarrow>
   (\<And>z na. map_of (tree nt) z = Some na \<Longrightarrow> na \<noteq> [] \<and> distinct na) \<Longrightarrow>
   numNodes nt = sum_list (map (\<lambda>z. int (length (zone_nodes nt z))) (zones nt)) \<Longrightarrow> tree_ok nt"
  unfolding tree_ok_def by blast

lemma tree_okD:
  assumes "tree_ok nt"
  shows "distinct (zones nt)" "set (zones nt) = dom (map_of (tree nt))" "map_of (tree nt) z = Some na \<Longrightarrow> na \<noteq> [] \<and> distinct na"
    "numNodes nt = sum_list (map (\<lambda>z. int (length (zone_nodes nt z))) (zones nt))"
  using assms unfolding tree_ok_def by blast+

lemma zone_nodes_map: "map_of (tree nt) z = Some na \<Longrightarrow> zone_nodes nt z = na" "map_of (tree nt) z = None \<Longrightarrow> zone_nodes nt z = []"
  by (simp_all add: zone_nodes_def)

lemma sum_list_upd:
  "distinct zs \<Longrightarrow> z \<in> set zs \<Longrightarrow> (\<And>y. y \<noteq> z \<Longrightarrow> g y = f y) \<Longrightarrow> sum_list (map g zs) = sum_list (map f zs) - f z + (g z :: int)"
proof (induction zs)
  case (Cons y zs)
  show ?case
  proof (cases "y = z")
    case True
    then have "z \<notin> set zs" using Cons.prems(1) by simp
    then have "map g zs = map f zs" using Cons.prems(3) by (metis (no_types, lifting) map_eq_conv)
    then have "sum_list (map g zs) = sum_list (map f zs)" by (rule arg_cong)
    then show ?thesis using True by simp
  qed (use Cons in auto)
qed simp

lemma sum_list_same: "z \<notin> set zs \<Longrightarrow> (\<And>y. y \<noteq> z \<Longrightarrow> g y = f y) \<Longrightarrow> sum_list (map g zs) = (sum_list (map f zs) :: int)"
  by (metis (no_types, lifting) map_eq_conv)

lemma sum_list_remove1: "z \<in> set zs \<Longrightarrow> sum_list (map f (remove1 z zs)) = sum_list (map f zs) - (f z :: int)"
  by (induction zs) auto

lemma add_ok:
  assumes "tree_ok nt" shows "tree_ok (nt_addNode n nt) \<and> entries (nt_addNode n nt) = insert (GetZoneKey n, knodeName n) (entries nt)"
proof (cases "map_of (tree nt) (GetZoneKey n)")
  case None
  let ?z = "GetZoneKey n" let ?nt = "nt_addNode n nt"
  have zs: "zones ?nt = zones nt @ [?z]" and nm: "numNodes ?nt = numNodes nt + 1" and tr: "map_of (tree ?nt) = (map_of (tree nt))(?z \<mapsto> [knodeName n])"
    using None by (simp_all add: nt_addNode_def Let_def update_conv')
  have zn: "zone_nodes ?nt y = (if y = ?z then [knodeName n] else zone_nodes nt y)" for y by (simp add: zone_nodes_def tr)
  have nz: "?z \<notin> set (zones nt)" using tree_okD(2) [OF assms] None by auto
  have "sum_list (map (\<lambda>z. int (length (zone_nodes ?nt z))) (zones nt)) = sum_list (map (\<lambda>z. int (length (zone_nodes nt z))) (zones nt))"
    by (rule sum_list_same [OF nz]) (simp add: zn)
  then have "numNodes ?nt = sum_list (map (\<lambda>z. int (length (zone_nodes ?nt z))) (zones ?nt))"
    using tree_okD(4) [OF assms] by (simp add: zs nm) (simp add: zn)
  then have "tree_ok ?nt" using tree_okD(1,2) [OF assms] nz by (intro tree_okI) (auto simp: zs tr split: if_splits dest: tree_okD(3) [OF assms])
  moreover have "entries ?nt = insert (?z, knodeName n) (entries nt)" using zone_nodes_map(2) [OF None] by (auto simp: entries_def zn split: if_splits)
  ultimately show ?thesis by blast
next
  case (Some na)
  let ?z = "GetZoneKey n" let ?nt = "nt_addNode n nt"
  have na: "zone_nodes nt ?z = na" "distinct na" "na \<noteq> []" "?z \<in> set (zones nt)" using tree_okD(2) [OF assms] tree_okD(3) [OF assms Some] Some by (auto simp: zone_nodes_def)
  show ?thesis
  proof (cases "knodeName n \<in> set na")
    case True
    then have "?nt = nt" using Some by (simp add: nt_addNode_def Let_def)
    then show ?thesis using assms True na(1) by (auto simp: entries_def)
  next
    case False
    have zs: "zones ?nt = zones nt" and nm: "numNodes ?nt = numNodes nt + 1" and tr: "map_of (tree ?nt) = (map_of (tree nt))(?z \<mapsto> na @ [knodeName n])"
      using Some False by (simp_all add: nt_addNode_def Let_def update_conv')
    have zn: "zone_nodes ?nt y = (if y = ?z then na @ [knodeName n] else zone_nodes nt y)" for y by (simp add: zone_nodes_def tr)
    have "sum_list (map (\<lambda>z. int (length (zone_nodes ?nt z))) (zones nt)) =
        sum_list (map (\<lambda>z. int (length (zone_nodes nt z))) (zones nt)) - int (length na) + int (length (na @ [knodeName n]))"
      using sum_list_upd [of "zones nt" ?z "\<lambda>z. int (length (zone_nodes ?nt z))" "\<lambda>z. int (length (zone_nodes nt z))"] tree_okD(1) [OF assms] na
      by (simp add: zn)
    then have "numNodes ?nt = sum_list (map (\<lambda>z. int (length (zone_nodes ?nt z))) (zones ?nt))"
      using tree_okD(4) [OF assms] by (simp add: zs nm)
    then have "tree_ok ?nt" using tree_okD(1,2) [OF assms] na False by (intro tree_okI) (auto simp: zs tr split: if_splits dest: tree_okD(3) [OF assms])
    moreover have "entries ?nt = insert (?z, knodeName n) (entries nt)" using na(1) by (auto simp: entries_def zn split: if_splits)
    ultimately show ?thesis by blast
  qed
qed

lemma remove_ok:
  assumes "tree_ok nt"
  shows "tree_ok (snd (nt_removeNode n nt)) \<and> entries (snd (nt_removeNode n nt)) = entries nt - {(GetZoneKey n, knodeName n)} \<and>
     (fst (nt_removeNode n nt) = None \<longleftrightarrow> (GetZoneKey n, knodeName n) \<in> entries nt)"
proof (cases "(GetZoneKey n, knodeName n) \<in> entries nt")
  case False
  then have "nt_removeNode n nt = (Some (knodeName n, GetZoneKey n), nt)"
    by (auto simp: nt_removeNode_def entries_def zone_nodes_def Let_def split: option.splits)
  then show ?thesis using assms False by simp
next
  case True
  let ?z = "GetZoneKey n" let ?nt = "snd (nt_removeNode n nt)"
  obtain na where na: "map_of (tree nt) ?z = Some na" "knodeName n \<in> set na"
    using True by (cases "map_of (tree nt) ?z") (auto simp: entries_def zone_nodes_def)
  have z: "zone_nodes nt ?z = na" "distinct na" "?z \<in> set (zones nt)" using tree_okD(2) [OF assms] tree_okD(3) [OF assms na(1)] na by (auto simp: zone_nodes_def)
  let ?na = "remove1 (knodeName n) na"
  have sum: "sum_list (map (\<lambda>y. int (length (if y = ?z then ?na else zone_nodes nt y))) (zones nt)) = numNodes nt - 1"
    using sum_list_upd [of "zones nt" ?z "\<lambda>y. int (length (if y = ?z then ?na else zone_nodes nt y))" "\<lambda>y. int (length (zone_nodes nt y))"]
      tree_okD(1,4) [OF assms] z length_pos_if_in_set [OF na(2)] na(2) by (simp add: length_remove1 of_nat_diff Suc_leI)
  have e: "fst (nt_removeNode n nt) = None" using na by (simp add: nt_removeNode_def Let_def)
  show ?thesis
  proof (cases "?na = []")
    case emp: True
    have zs: "zones ?nt = remove1 ?z (zones nt)" and nm: "numNodes ?nt = numNodes nt - 1" and tr: "map_of (tree ?nt) = (map_of (tree nt))(?z := None)"
      using na emp by (simp_all add: nt_removeNode_def removeZone_def Let_def update_conv' delete_conv')
    have zn: "zone_nodes ?nt y = (if y = ?z then ?na else zone_nodes nt y)" for y using emp by (simp add: zone_nodes_def tr)
    have "sum_list (map (\<lambda>y. int (length (zone_nodes ?nt y))) (zones ?nt)) = numNodes nt - 1"
      using sum_list_remove1 [OF z(3), of "\<lambda>y. int (length (zone_nodes ?nt y))"] sum emp by (simp add: zs) (simp add: zn)
    then have "tree_ok ?nt" using tree_okD(1,2) [OF assms] by (intro tree_okI) (auto simp: zs tr nm split: if_splits dest: tree_okD(3) [OF assms])
    moreover have "entries ?nt = entries nt - {(?z, knodeName n)}" using z emp by (auto simp: entries_def zn split: if_splits)
      (metis empty_iff empty_set in_set_remove1)
    ultimately show ?thesis using e True by blast
  next
    case ne: False
    have zs: "zones ?nt = zones nt" and nm: "numNodes ?nt = numNodes nt - 1" and tr: "map_of (tree ?nt) = (map_of (tree nt))(?z \<mapsto> ?na)"
      using na ne by (simp_all add: nt_removeNode_def Let_def update_conv')
    have zn: "zone_nodes ?nt y = (if y = ?z then ?na else zone_nodes nt y)" for y by (simp add: zone_nodes_def tr)
    have "sum_list (map (\<lambda>y. int (length (zone_nodes ?nt y))) (zones ?nt)) = numNodes nt - 1" using sum by (simp add: zs) (simp add: zn)
    then have "tree_ok ?nt" using tree_okD(1,2) [OF assms] z na ne by (intro tree_okI) (auto simp: zs tr nm split: if_splits dest: tree_okD(3) [OF assms])
    moreover have "entries ?nt = entries nt - {(?z, knodeName n)}" using z by (auto simp: entries_def zn split: if_splits)
    ultimately show ?thesis using e True by blast
  qed
qed

section \<open>Listing\<close>

text \<open>The nodes at position \<open>i\<close> of their zones, and the rounds one after the other.\<close>

definition nth_round :: "('z \<Rightarrow> 'a list) \<Rightarrow> 'z list \<Rightarrow> nat \<Rightarrow> 'a list" where
  "nth_round f zs i = map (\<lambda>z. f z ! i) (filter (\<lambda>z. i < length (f z)) zs)"

definition rounds :: "('z \<Rightarrow> 'a list) \<Rightarrow> 'z list \<Rightarrow> nat \<Rightarrow> 'a list" where
  "rounds f zs m = concat (map (nth_round f zs) [0..<m])"

lemma rounds_Suc: "rounds f zs (Suc m) = rounds f zs m @ nth_round f zs m"
  by (simp add: rounds_def)

lemma rounds_Cons:
  "mset (rounds f (z # zs) m) = mset (take m (f z)) + mset (rounds f zs m)"
proof (induction m)
  case (Suc m)
  then show ?case by (cases "m < length (f z)") (auto simp: rounds_Suc nth_round_def take_Suc_conv_app_nth)
qed (simp add: rounds_def)

lemma rounds_mset: "mset (rounds f zs m) = mset (concat (map (\<lambda>z. take m (f z)) zs))"
proof (induction zs)
  case Nil
  have "rounds f [] m = []" by (induction m) (simp_all add: rounds_Suc nth_round_def, simp add: rounds_def)
  then show ?case by simp
qed (simp add: rounds_Cons)

lemma list_round_eq:
  "list_round nt zs i e l = (e + length (filter (\<lambda>z. length (zone_nodes nt z) = i) zs), l @ nth_round (zone_nodes nt) zs i)"
  by (induction zs arbitrary: e l) (auto simp: nth_round_def Let_def)

lemma rounds_length: "int (length (rounds f zs m)) = sum_list (map (\<lambda>z. int (min m (length (f z)))) zs)"
proof -
  have "length (rounds f zs m) = length (concat (map (\<lambda>z. take m (f z)) zs))" using rounds_mset by (metis size_mset)
  moreover have "int (length (concat (map (\<lambda>z. take m (f z)) zs))) = sum_list (map (\<lambda>z. int (min m (length (f z)))) zs)" by (induction zs) (auto simp: min.commute)
  ultimately show ?thesis by simp
qed

lemma shorter_zone:
  "(\<forall>z\<in>set zs. int (min m (length (f z))) \<le> int (length (f z))) \<Longrightarrow>
   sum_list (map (\<lambda>z. int (min m (length (f z)))) zs) < sum_list (map (\<lambda>z. int (length (f z))) zs) \<longleftrightarrow> (\<exists>z\<in>set zs. m < length (f z))"
proof (induction zs)
  case (Cons z zs)
  have "sum_list (map (\<lambda>z. int (min m (length (f z)))) zs) \<le> sum_list (map (\<lambda>z. int (length (f z))) zs)"
    by (rule sum_list_mono) simp
  then show ?case using Cons by auto
qed simp

lemma filter_lengths:
  "length (filter (\<lambda>z. length (f z) < i) zs) + length (filter (\<lambda>z. length (f z) = i) zs) = length (filter (\<lambda>z. length (f z) < Suc i) zs)"
  by (induction zs) (auto simp: less_Suc_eq)

definition width :: "nodeTree \<Rightarrow> nat" where
  "width nt = Max (insert 0 ((\<lambda>z. length (zone_nodes nt z)) ` set (zones nt)))"

lemma width_ge: "z \<in> set (zones nt) \<Longrightarrow> length (zone_nodes nt z) \<le> width nt"
  by (simp add: width_def)

lemma width_le: "(\<And>z. z \<in> set (zones nt) \<Longrightarrow> length (zone_nodes nt z) \<le> m) \<Longrightarrow> width nt \<le> m"
  by (auto simp: width_def)

lemma list_loop_eq:
  assumes "tree_ok nt" "i \<le> width nt"
  shows "list_loop nt i (length (filter (\<lambda>z. length (zone_nodes nt z) < i) (zones nt))) (rounds (zone_nodes nt) (zones nt) i) =
     Some (rounds (zone_nodes nt) (zones nt) (width nt), None)"
  using assms(2)
proof (induction "width nt - i" arbitrary: i rule: less_induct)
  case less
  let ?f = "zone_nodes nt" let ?zs = "zones nt"
  have n: "numNodes nt = sum_list (map (\<lambda>z. int (length (?f z))) ?zs)" by (rule tree_okD(4) [OF assms(1)])
  have more: "int (length (rounds ?f ?zs i)) < numNodes nt \<longleftrightarrow> (\<exists>z\<in>set ?zs. i < length (?f z))"
    unfolding n rounds_length by (rule shorter_zone) simp
  show ?case
  proof (cases "\<exists>z\<in>set ?zs. i < length (?f z)")
    case False
    then have "width nt \<le> i" by (intro width_le) (auto simp: not_less)
    then have "i = width nt" using less.prems by simp
    then show ?thesis using False more by (subst list_loop.simps) simp
  next
    case True
    then obtain z where z: "z \<in> set ?zs" "i < length (?f z)" by blast
    have i: "i < width nt" using z width_ge by (metis less_le_trans)
    have "length (filter (\<lambda>z. length (?f z) < i) ?zs) < length ?zs" using z by (intro length_filter_less [of z]) auto
    moreover have "length (filter (\<lambda>z. length (?f z) < i) ?zs) + length (filter (\<lambda>z. length (?f z) = i) ?zs) =
        length (filter (\<lambda>z. length (?f z) < Suc i) ?zs)" by (rule filter_lengths)
    ultimately show ?thesis using True more less.hyps [of "Suc i"] i
      by (subst list_loop.simps) (simp add: list_round_eq rounds_Suc)
  qed
qed

lemma nt_list_eq:
  assumes "tree_ok nt" shows "nt_list nt = Ret (rounds (zone_nodes nt) (zones nt) (width nt), None)"
proof (cases "zones nt = []")
  case True
  have "rounds (zone_nodes nt) (zones nt) (width nt) = []" using rounds_length [of "zone_nodes nt" "zones nt" "width nt"] True by simp
  then show ?thesis using True by (simp add: nt_list_def)
next
  case False
  have "rounds (zone_nodes nt) (zones nt) 0 = []" by (simp add: rounds_def)
  then show ?thesis using list_loop_eq [OF assms, of 0] False by (simp add: nt_list_def)
qed

section \<open>Property\<close>

datatype tree_op = TAdd knode | TRemove knode | TUpdate knode knode

fun tree_exec :: "tree_op \<Rightarrow> nodeTree \<Rightarrow> nodeTree go" where
  "tree_exec (TAdd n) nt = Ret (nt_addNode n nt)"
| "tree_exec (TRemove n) nt = Ret (snd (nt_removeNode n nt))"
| "tree_exec (TUpdate old new) nt = nt_updateNode (Some old) new nt"

fun tree_run :: "tree_op list \<Rightarrow> nodeTree \<Rightarrow> nodeTree go" where
  "tree_run [] nt = Ret nt"
| "tree_run (op # ops) nt = go_bind (tree_exec op nt) (tree_run ops)"

text \<open>The specification: a set of pairs of a zone and a name.\<close>

definition entry_of :: "knode \<Rightarrow> string \<times> string" where
  "entry_of n = (GetZoneKey n, knodeName n)"

fun set_exec :: "tree_op \<Rightarrow> (string \<times> string) set \<Rightarrow> (string \<times> string) set" where
  "set_exec (TAdd n) S = insert (entry_of n) S"
| "set_exec (TRemove n) S = S - {entry_of n}"
| "set_exec (TUpdate old new) S = (if GetZoneKey old = GetZoneKey new then S else insert (entry_of new) (S - {entry_of old}))"

lemma tree_exec_ok:
  "tree_ok nt \<Longrightarrow> \<exists>nt'. tree_exec op nt = Ret nt' \<and> tree_ok nt' \<and> entries nt' = set_exec op (entries nt)"
  using add_ok remove_ok by (cases op) (auto simp: entry_of_def nt_updateNode_def)

lemma tree_run_ok:
  "tree_ok nt \<Longrightarrow> \<exists>nt'. tree_run ops nt = Ret nt' \<and> tree_ok nt' \<and> entries nt' = foldl (\<lambda>S op. set_exec op S) (entries nt) ops"
proof (induction ops arbitrary: nt)
  case (Cons op ops)
  obtain nt1 where "tree_exec op nt = Ret nt1" "tree_ok nt1" "entries nt1 = set_exec op (entries nt)" using tree_exec_ok [OF Cons.prems] by blast
  then show ?case using Cons.IH [of nt1] by simp
qed simp

lemma new_tree_ok: "tree_ok (newNodeTree [])" "entries (newNodeTree []) = {}"
  by (auto simp: tree_ok_def newNodeTree_def entries_def zone_nodes_def)

definition pairs :: "nodeTree \<Rightarrow> (string \<times> string) list" where
  "pairs nt = concat (map (\<lambda>z. map (Pair z) (zone_nodes nt z)) (zones nt))"

lemma distinct_pairs: "distinct zs \<Longrightarrow> (\<And>z. z \<in> set zs \<Longrightarrow> distinct (f z)) \<Longrightarrow> distinct (concat (map (\<lambda>z. map (Pair z) (f z)) zs))"
  by (induction zs) (auto simp: distinct_map inj_on_def)

lemma pairs_entries:
  assumes "tree_ok nt" shows "mset (pairs nt) = mset_set (entries nt)"
proof -
  have d: "distinct (zone_nodes nt z)" for z
  proof (cases "map_of (tree nt) z")
    case (Some na)
    then show ?thesis using tree_okD(3) [OF assms Some] by (simp add: zone_nodes_def)
  qed (simp add: zone_nodes_def)
  have "set (zones nt) = dom (map_of (tree nt))" by (rule tree_okD(2) [OF assms])
  then have "zone_nodes nt z = []" if "z \<notin> set (zones nt)" for z using that by (cases "map_of (tree nt) z") (auto simp: zone_nodes_def)
  then have "set (pairs nt) = entries nt" by (fastforce simp: pairs_def entries_def)
  moreover have "distinct (pairs nt)" unfolding pairs_def by (intro distinct_pairs d tree_okD(1) [OF assms])
  ultimately show ?thesis by (metis mset_set_set)
qed

lemma listed_mset:
  assumes "tree_ok nt" shows "mset (rounds (zone_nodes nt) (zones nt) (width nt)) = image_mset snd (mset_set (entries nt))"
proof -
  have "concat (map (\<lambda>z. take (width nt) (zone_nodes nt z)) (zones nt)) = map snd (pairs nt)"
    using width_ge by (auto simp: pairs_def map_concat o_def intro!: arg_cong [of _ _ concat])
  then have "mset (rounds (zone_nodes nt) (zones nt) (width nt)) = image_mset snd (mset (pairs nt))" by (simp add: rounds_mset)
  then show ?thesis by (simp add: pairs_entries [OF assms])
qed

text \<open>
  C23: Any sequence of additions, removals and updates of nodes keeps the tree equal to a set of pairs
  of a zone and a name. Listing the tree then returns without the error, its length is the count the
  tree keeps, it has every pair of the set exactly once, and it takes the nodes in rounds: the first
  node of every zone, then the second of every zone that has one, and so on.
\<close>

theorem tree_lists_the_nodes:
  "\<exists>nt ns. tree_run ops (newNodeTree []) = Ret nt \<and> nt_list nt = Ret (ns, None) \<and> int (length ns) = numNodes nt \<and>
     mset ns = image_mset snd (mset_set (foldl (\<lambda>S op. set_exec op S) {} ops)) \<and>
     ns = concat (map (\<lambda>i. map (\<lambda>z. zone_nodes nt z ! i) (filter (\<lambda>z. i < length (zone_nodes nt z)) (zones nt))) [0..<width nt])"
proof -
  obtain nt where nt: "tree_run ops (newNodeTree []) = Ret nt" "tree_ok nt" "entries nt = foldl (\<lambda>S op. set_exec op S) {} ops"
    using tree_run_ok [OF new_tree_ok(1)] new_tree_ok(2) by metis
  let ?ns = "rounds (zone_nodes nt) (zones nt) (width nt)"
  have "int (length ?ns) = numNodes nt"
    unfolding rounds_length tree_okD(4) [OF nt(2)] using width_ge by (intro arg_cong [of _ _ sum_list] map_cong) (auto simp: min_absorb2)
  moreover have "?ns = concat (map (\<lambda>i. map (\<lambda>z. zone_nodes nt z ! i) (filter (\<lambda>z. i < length (zone_nodes nt z)) (zones nt))) [0..<width nt])"
    by (simp add: rounds_def nth_round_def [abs_def])
  ultimately show ?thesis using nt(1) nt_list_eq [OF nt(2)] listed_mset [OF nt(2)] unfolding nt(3) by blast
qed

end
