(* ===== verification/Cache_Inv.thy ===== *)
theory Cache_Inv
  imports Cache_List Node_Tree_Props Node_Info_Props
begin

text \<open>
  The invariant of the cache and its preservation by the steps its operations are made of: the
  linked list is ordered by generation, the tree holds the nodes that are present, and every pod the
  cache has a state for is on its node, and no other.
\<close>

section \<open>Invariant\<close>

definition nd_of :: "(string \<rightharpoonup> nodeInfo) \<Rightarrow> string \<rightharpoonup> knode" where
  "nd_of I nm = (case I nm of None \<Rightarrow> None | Some i \<Rightarrow> node i)"

definition pods_at :: "(string \<rightharpoonup> nodeInfo) \<Rightarrow> string \<Rightarrow> kpod list" where
  "pods_at I nm = (case I nm of None \<Rightarrow> [] | Some i \<Rightarrow> Pods i)"

definition gen_of :: "(string \<rightharpoonup> nodeInfo) \<Rightarrow> string \<Rightarrow> int" where
  "gen_of I nm = (case I nm of None \<Rightarrow> 0 | Some i \<Rightarrow> Generation i)"

definition ordered :: "(string \<rightharpoonup> nodeInfo) \<Rightarrow> int \<Rightarrow> string list \<Rightarrow> bool" where
  "ordered I gen xs \<longleftrightarrow> sorted_wrt (\<lambda>a b. gen_of I b < gen_of I a) xs \<and> (\<forall>nm i. I nm = Some i \<longrightarrow> Generation i \<le> gen)"

definition zoned :: "(string \<rightharpoonup> knode) \<Rightarrow> (string \<times> string) set" where
  "zoned N = {(z, nm). \<exists>nd. N nm = Some nd \<and> z = GetZoneKey nd}"

definition treed :: "(string \<rightharpoonup> nodeInfo) \<Rightarrow> nodeTree \<Rightarrow> bool" where
  "treed I t \<longleftrightarrow> tree_ok t \<and> entries t = zoned (nd_of I) \<and>
     (\<forall>nm nd. nd_of I nm = Some nd \<longrightarrow> knodeName nd = nm)"

definition core :: "schedulerCache \<Rightarrow> bool" where
  "core c \<longleftrightarrow> (\<exists>xs. linked c xs \<and> ordered (infos c) (cgeneration c) xs) \<and> treed (infos c) (cnodeTree c)"

text \<open>The pods on the nodes agree with the states of the pods.\<close>

definition placed :: "(string \<Rightarrow> kpod list) \<Rightarrow> (string \<rightharpoonup> podState) \<Rightarrow> bool" where
  "placed P M \<longleftrightarrow> (\<forall>key ps. M key = Some ps \<longrightarrow> UID (ps_pod ps) = key \<and> key \<noteq> []) \<and>
     (\<forall>nm. distinct (map UID (P nm)) \<and> UID ` set (P nm) = {key. \<exists>ps. M key = Some ps \<and> specNodeName (ps_pod ps) = nm})"

definition assumed_ok :: "string set \<Rightarrow> (string \<rightharpoonup> podState) \<Rightarrow> bool" where
  "assumed_ok A M \<longleftrightarrow> (\<forall>key\<in>A. \<exists>ps. M key = Some ps \<and> (bindingFinished ps \<longrightarrow> deadline ps \<noteq> None))"

definition cache_inv :: "schedulerCache \<Rightarrow> bool" where
  "cache_inv c \<longleftrightarrow> core c \<and> 0 \<le> cgeneration c \<and> placed (pods_at (infos c)) (map_of (podStates c)) \<and>
     assumed_ok (set (assumedPods c)) (map_of (podStates c)) \<and> distinct (assumedPods c)"

text \<open>What a snapshot relies on: a node that changes gets a generation not given before.\<close>

definition advances :: "schedulerCache \<Rightarrow> schedulerCache \<Rightarrow> bool" where
  "advances c c' \<longleftrightarrow> cgeneration c \<le> cgeneration c' \<and>
     (\<forall>nm i. infos c' nm = Some i \<longrightarrow> infos c nm = Some i \<or> cgeneration c < Generation i)"

lemma advances_refl [simp]: "advances c c"
  by (simp add: advances_def)

lemma advances_trans: "advances a b \<Longrightarrow> advances b c \<Longrightarrow> advances a c"
  unfolding advances_def by (metis order_trans less_le_trans not_less)

section \<open>Views\<close>

lemma other_views [simp]:
  "links (c\<lparr>podStates := p\<rparr>) = links c" "infos (c\<lparr>podStates := p\<rparr>) = infos c"
  "links (c\<lparr>assumedPods := a\<rparr>) = links c" "infos (c\<lparr>assumedPods := a\<rparr>) = infos c"
  "links (c\<lparr>cnodeTree := t\<rparr>) = links c" "infos (c\<lparr>cnodeTree := t\<rparr>) = infos c"
  "links (c\<lparr>imageStates := im\<rparr>) = links c" "infos (c\<lparr>imageStates := im\<rparr>) = infos c"
  by (simp_all add: links_def infos_def fun_eq_iff)

lemma linked_other [simp]:
  "linked (c\<lparr>podStates := p\<rparr>) = linked c" "linked (c\<lparr>assumedPods := a\<rparr>) = linked c"
  "linked (c\<lparr>cnodeTree := t\<rparr>) = linked c" "linked (c\<lparr>imageStates := im\<rparr>) = linked c"
  by (simp_all add: linked_def fun_eq_iff)

lemma core_other [simp]: "core (c\<lparr>podStates := p\<rparr>) = core c" "core (c\<lparr>assumedPods := a\<rparr>) = core c"
  by (simp_all add: core_def)

lemma advances_other [simp]:
  "advances d (c\<lparr>podStates := p\<rparr>) = advances d c" "advances d (c\<lparr>assumedPods := a\<rparr>) = advances d c"
  by (simp_all add: advances_def)

lemma removeNodeImageStates_views [simp]:
  "links (removeNodeImageStates nd c) = links c" "infos (removeNodeImageStates nd c) = infos c"
  "linked (removeNodeImageStates nd c) = linked c" "cnodeTree (removeNodeImageStates nd c) = cnodeTree c"
  "podStates (removeNodeImageStates nd c) = podStates c" "assumedPods (removeNodeImageStates nd c) = assumedPods c"
  "cgeneration (removeNodeImageStates nd c) = cgeneration c"
  by (cases nd; simp add: removeNodeImageStates_def)+

lemma nextGeneration_room: "0 \<le> gen \<Longrightarrow> gen + 1 < 2 ^ 63 \<Longrightarrow> nextGeneration gen = gen + 1"
  by (simp add: nextGeneration_def wrap64_id int64_def)

section \<open>The order of the list\<close>

lemma sorted_wrt_remove1: "sorted_wrt P xs \<Longrightarrow> sorted_wrt P (remove1 x xs)"
  by (induction xs) (auto dest: notin_set_remove1)

lemma gen_of_upd: "x \<noteq> nm \<Longrightarrow> gen_of (I(nm := v)) x = gen_of I x"
  by (simp add: gen_of_def)

lemma ordered_touch:
  assumes "ordered I gen xs" "distinct xs" "set xs = dom I" "gen < Generation i"
  shows "ordered (I(nm \<mapsto> i)) (Generation i) (nm # remove1 nm xs)"
proof -
  have r: "x \<noteq> nm" if "x \<in> set (remove1 nm xs)" for x using that assms(2) by simp
  have "sorted_wrt (\<lambda>a b. gen_of I b < gen_of I a) (remove1 nm xs)" using assms(1) by (simp add: ordered_def sorted_wrt_remove1)
  then have "sorted_wrt (\<lambda>a b. gen_of (I(nm \<mapsto> i)) b < gen_of (I(nm \<mapsto> i)) a) (remove1 nm xs)"
    by (rule sorted_wrt_mono_rel [rotated]) (simp add: gen_of_upd r)
  moreover have "gen_of (I(nm \<mapsto> i)) x < gen_of (I(nm \<mapsto> i)) nm" if "x \<in> set (remove1 nm xs)" for x
  proof -
    have "x \<in> dom I" using that assms(3) by (metis notin_set_remove1)
    then obtain j where "I x = Some j" by blast
    then show ?thesis using r [OF that] assms(1,4) by (auto simp: ordered_def gen_of_def intro: le_less_trans)
  qed
  ultimately show ?thesis using assms(1,4) by (auto simp: ordered_def intro: order_trans [of _ gen])
qed

lemma ordered_drop:
  assumes "ordered I gen xs" "distinct xs" "gen \<le> gen'"
  shows "ordered (I(nm := None)) gen' (remove1 nm xs)"
proof -
  have r: "x \<noteq> nm" if "x \<in> set (remove1 nm xs)" for x using that assms(2) by simp
  have "sorted_wrt (\<lambda>a b. gen_of I b < gen_of I a) (remove1 nm xs)" using assms(1) by (simp add: ordered_def sorted_wrt_remove1)
  then have "sorted_wrt (\<lambda>a b. gen_of (I(nm := None)) b < gen_of (I(nm := None)) a) (remove1 nm xs)"
    by (rule sorted_wrt_mono_rel [rotated]) (simp add: gen_of_upd r)
  then show ?thesis using assms(1,3) by (auto simp: ordered_def intro: order_trans [of _ gen])
qed

text \<open>A node gets new information and goes to the head, or leaves; the tree follows.\<close>

lemma core_touch:
  assumes "core c" "linked c' (nm # remove1 nm xs)" "linked c xs" "ordered (infos c) (cgeneration c) xs"
    "infos c' = (infos c)(nm \<mapsto> i)" "cgeneration c' = Generation i" "cgeneration c < Generation i"
    "treed (infos c') (cnodeTree c')"
  shows "core c' \<and> advances c c'"
proof -
  have "ordered (infos c') (cgeneration c') (nm # remove1 nm xs)"
    using assms(3-7) ordered_touch [of "infos c" "cgeneration c" xs i nm] by (simp add: linked_def)
  then show ?thesis using assms(2,5-8) by (auto simp: core_def advances_def)
qed

lemma core_drop:
  assumes "linked c' (remove1 nm xs)" "linked c xs" "ordered (infos c) (cgeneration c) xs"
    "infos c' = (infos c)(nm := None)" "cgeneration c \<le> cgeneration c'" "treed (infos c') (cnodeTree c')"
  shows "core c' \<and> advances c c'"
proof -
  have "ordered (infos c') (cgeneration c') (remove1 nm xs)"
    using assms(2-5) ordered_drop [of "infos c" "cgeneration c" xs _ nm] by (simp add: linked_def)
  then show ?thesis using assms(1,4-6) by (auto simp: core_def advances_def)
qed

lemma treed_same: "treed I t \<Longrightarrow> nd_of I' = nd_of I \<Longrightarrow> treed I' t"
  by (simp add: treed_def)

lemma zoned_upd: "zoned (N(nm \<mapsto> nd)) = insert (GetZoneKey nd, nm) (zoned (N(nm := None)))"
  by (auto simp: zoned_def)

lemma zoned_drop: "N nm = Some nd \<Longrightarrow> zoned (N(nm := None)) = zoned N - {(GetZoneKey nd, nm)}"
  by (auto simp: zoned_def)

lemma treed_add:
  assumes "treed I t" "nd_of I (knodeName nd) = None" "nd_of I' = (nd_of I)(knodeName nd \<mapsto> nd)"
  shows "treed I' (nt_addNode nd t)"
proof -
  have "(nd_of I)(knodeName nd := None) = nd_of I" using assms(2) by (simp add: fun_upd_idem)
  then have "zoned (nd_of I') = insert (GetZoneKey nd, knodeName nd) (zoned (nd_of I))" unfolding assms(3) zoned_upd by simp
  moreover have "tree_ok t" "entries t = zoned (nd_of I)" "\<forall>nm nd. nd_of I nm = Some nd \<longrightarrow> knodeName nd = nm"
    using assms(1) by (simp_all add: treed_def)
  ultimately show ?thesis using add_ok [of t nd] assms(3) by (simp add: treed_def)
qed

lemma treed_remove:
  assumes "treed I t" "nd_of I (knodeName nd) = Some nd" "nd_of I' = (nd_of I)(knodeName nd := None)"
  shows "treed I' (snd (nt_removeNode nd t)) \<and> fst (nt_removeNode nd t) = None"
proof -
  have "zoned (nd_of I') = zoned (nd_of I) - {(GetZoneKey nd, knodeName nd)}" unfolding assms(3) by (rule zoned_drop [of "nd_of I", OF assms(2)])
  moreover have "(GetZoneKey nd, knodeName nd) \<in> zoned (nd_of I)" using assms(2) by (auto simp: zoned_def)
  moreover have "tree_ok t" "entries t = zoned (nd_of I)" "\<forall>nm nd. nd_of I nm = Some nd \<longrightarrow> knodeName nd = nm"
    using assms(1) by (simp_all add: treed_def)
  ultimately show ?thesis using remove_ok [of t nd] assms(3) by (simp add: treed_def)
qed

lemma treed_update:
  assumes "treed I t" "nd_of I (knodeName new) = Some old" "nd_of I' = (nd_of I)(knodeName new \<mapsto> new)"
  shows "\<exists>t'. nt_updateNode (Some old) new t = Ret t' \<and> treed I' t'"
proof -
  have t: "tree_ok t" "entries t = zoned (nd_of I)" "\<forall>nm nd. nd_of I nm = Some nd \<longrightarrow> knodeName nd = nm"
    using assms(1) by (simp_all add: treed_def)
  have n: "knodeName old = knodeName new" using t(3) assms(2) by simp
  have z: "zoned (nd_of I') = insert (GetZoneKey new, knodeName new) (zoned (nd_of I) - {(GetZoneKey old, knodeName new)})"
    unfolding assms(3) zoned_upd zoned_drop [of "nd_of I", OF assms(2)] ..
  have nm: "\<forall>nm nd. nd_of I' nm = Some nd \<longrightarrow> knodeName nd = nm" using t(3) by (simp add: assms(3))
  show ?thesis
  proof (cases "GetZoneKey old = GetZoneKey new")
    case True
    have "(GetZoneKey old, knodeName new) \<in> zoned (nd_of I)" using assms(2) by (auto simp: zoned_def)
    then have "zoned (nd_of I') = zoned (nd_of I)" using z True by (simp add: insert_absorb)
    then show ?thesis using t nm True by (simp add: nt_updateNode_def treed_def)
  next
    case False
    have r: "tree_ok (snd (nt_removeNode old t))" "entries (snd (nt_removeNode old t)) = zoned (nd_of I) - {(GetZoneKey old, knodeName new)}"
      using remove_ok [OF t(1), of old] t(2) n by simp_all
    show ?thesis using add_ok [OF r(1), of new] r(2) z nm False by (simp add: nt_updateNode_def treed_def)
  qed
qed

section \<open>Placement of pods\<close>

lemma placed_add:
  assumes "placed P M" "M (UID p) = None" "UID p \<noteq> []" "ps_pod ps = p"
  shows "placed (P(specNodeName p := P (specNodeName p) @ [p])) (M(UID p \<mapsto> ps))"
proof -
  have "UID p \<notin> UID ` set (P nm)" for nm using assms(1,2) by (auto simp: placed_def)
  then show ?thesis using assms by (auto simp: placed_def)
qed

lemma placed_remove:
  assumes "placed P M" "M key = Some ps" "nm = specNodeName (ps_pod ps)" "mset (map UID Q) = mset (map UID (P nm)) - {#key#}"
  shows "placed (P(nm := Q)) (M(key := None))"
proof -
  have d: "distinct (map UID (P nm))" and s: "UID ` set (P nm) = {key. \<exists>ps. M key = Some ps \<and> specNodeName (ps_pod ps) = nm}"
    using assms(1) by (auto simp: placed_def)
  have k: "key \<in> set (map UID (P nm))" using s assms(2,3) by auto
  have m: "mset (key # map UID Q) = mset (map UID (P nm))" using assms(4) k by simp
  have dq: "distinct (key # map UID Q)" using mset_eq_imp_distinct_iff [OF m] d by simp
  have "set (key # map UID Q) = set (map UID (P nm))" using m by (rule mset_eq_setD)
  then have "UID ` set Q = UID ` set (P nm) - {key}" using dq by auto
  then have "UID ` set Q = {k. \<exists>ps. (M(key := None)) k = Some ps \<and> specNodeName (ps_pod ps) = nm}" using s by auto
  then show ?thesis using assms dq by (auto simp: placed_def)
qed

lemma placed_same_node:
  assumes "placed P M" "M key = Some ps" "specNodeName (ps_pod ps') = specNodeName (ps_pod ps)" "UID (ps_pod ps') = key"
  shows "placed P (M(key \<mapsto> ps'))"
proof -
  have "{k. \<exists>q. (M(key \<mapsto> ps')) k = Some q \<and> specNodeName (ps_pod q) = nm} = {k. \<exists>q. M k = Some q \<and> specNodeName (ps_pod q) = nm}" for nm
    using assms(2,3) by (auto split: if_splits)
  then show ?thesis using assms unfolding placed_def by (simp add: if_distrib split: if_splits)
qed

lemma assumed_okI:
  assumes "assumed_ok A M" "\<And>k. k \<in> B \<Longrightarrow> k \<noteq> key \<Longrightarrow> k \<in> A \<and> M' k = M k"
    "key \<in> B \<Longrightarrow> \<exists>ps. M' key = Some ps \<and> (bindingFinished ps \<longrightarrow> deadline ps \<noteq> None)"
  shows "assumed_ok B M'"
  unfolding assumed_ok_def
proof
  fix k assume k: "k \<in> B"
  show "\<exists>ps. M' k = Some ps \<and> (bindingFinished ps \<longrightarrow> deadline ps \<noteq> None)"
    using k assms(2) [OF k] assms(1,3) by (cases "k = key") (simp_all add: assumed_ok_def)
qed

section \<open>Adding a pod to its node\<close>

text \<open>How far the counter of generations may move in one step.\<close>

definition within_gen :: "int \<Rightarrow> schedulerCache \<Rightarrow> schedulerCache \<Rightarrow> bool" where
  "within_gen k c c' \<longleftrightarrow> cgeneration c \<le> cgeneration c' \<and> cgeneration c' \<le> cgeneration c + k"

lemma AddPodInfo_fields:
  assumes "AddPodInfo g pod n gen = (n', gen')"
  shows "Pods n' = Pods n @ [pod]" "node n' = node n" "Generation n' = gen'" "gen' = nextGeneration gen"
  using assms by (auto simp: AddPodInfo_def Let_def split: prod.splits)

lemma NewNodeInfo_empty:
  assumes "NewNodeInfo g [] gen = (n, gen')"
  shows "Pods n = []" "node n = None" "Generation n = gen'" "gen' = nextGeneration gen"
  using assms by (auto simp: NewNodeInfo_def Let_def)

lemma rest_eqD:
  assumes "rest c' = (a, b, d, e, f, h)"
  shows "ttl c' = a" "assumedPods c' = b" "podStates c' = d" "cnodeTree c' = e" "imageStates c' = f" "cgeneration c' = h"
  using assms by (simp_all add: rest_def)

lemma item_linksD:
  assumes "links c nm = Some (a, b)"
  shows "\<exists>ni. map_of (nodes c) nm = Some ni \<and> next_item ni = a \<and> prev_item ni = b"
  using assms by (auto simp: links_def)

text \<open>The information of a node is replaced by one of a new generation and its item goes to the head.\<close>

definition touch :: "schedulerCache \<Rightarrow> string \<Rightarrow> nodeInfo \<Rightarrow> schedulerCache \<Rightarrow> bool" where
  "touch c nm i c' \<longleftrightarrow> (\<forall>xs. linked c xs \<longrightarrow> linked c' (nm # remove1 nm xs)) \<and> infos c' = (infos c)(nm \<mapsto> i) \<and>
     rest c' = (ttl c, assumedPods c, podStates c, cnodeTree c, imageStates c, Generation i) \<and> cgeneration c < Generation i"

lemma touch_core:
  assumes "core c" "touch c nm i c'" "node i = nd_of (infos c) nm"
  shows "core c' \<and> advances c c' \<and> podStates c' = podStates c \<and> assumedPods c' = assumedPods c \<and> cgeneration c' = Generation i \<and>
    pods_at (infos c') = (pods_at (infos c))(nm := Pods i)"
proof -
  obtain xs where l: "linked c xs" "ordered (infos c) (cgeneration c) xs" using assms(1) by (auto simp: core_def)
  have t: "linked c' (nm # remove1 nm xs)" "infos c' = (infos c)(nm \<mapsto> i)" "cgeneration c < Generation i"
    and r: "rest c' = (ttl c, assumedPods c, podStates c, cnodeTree c, imageStates c, Generation i)"
    using assms(2) l(1) by (simp_all add: touch_def)
  have "nd_of (infos c') = nd_of (infos c)" using t(2) assms(3) by (auto simp: nd_of_def fun_eq_iff)
  then have "treed (infos c') (cnodeTree c')" using assms(1) treed_same [of "infos c" "cnodeTree c" "infos c'"] rest_eqD(4) [OF r] by (simp add: core_def)
  then have "core c' \<and> advances c c'" using core_touch [OF assms(1) t(1) l t(2)] t(3) rest_eqD(6) [OF r] by simp
  moreover have "pods_at (infos c') = (pods_at (infos c))(nm := Pods i)" using t(2) by (auto simp: pods_at_def fun_eq_iff)
  ultimately show ?thesis using rest_eqD [OF r] by simp
qed

lemma touch_present:
  assumes "infos c nm = Some i0" "Generation i = gen" "cgeneration c < gen"
  shows "touch c nm i (moveNodeInfoToHead nm (set_info nm (i, gen) c))"
proof -
  let ?c1 = "set_info nm (i, gen) c"
  have "linked (moveNodeInfoToHead nm ?c1) (nm # remove1 nm xs) \<and> infos (moveNodeInfoToHead nm ?c1) = infos ?c1 \<and>
      rest (moveNodeInfoToHead nm ?c1) = rest ?c1" if "linked c xs" for xs
    using that assms(1) by (intro moveNodeInfoToHead_linked linked_set_info) (auto simp: linked_def)
  moreover have "infos (moveNodeInfoToHead nm ?c1) = infos ?c1 \<and> rest (moveNodeInfoToHead nm ?c1) = rest ?c1"
    by (rule move_views)
  ultimately show ?thesis using assms by (simp add: touch_def)
qed

lemma touch_absent:
  assumes "infos c nm = None" "Generation i = gen" "cgeneration c < gen"
  shows "touch c nm i (moveNodeInfoToHead nm (set_info nm (i, gen) (newNodeInfoListItem g nm c)))"
proof -
  obtain i0 gen0 where n: "NewNodeInfo g [] (cgeneration c) = (i0, gen0)" by force
  note v = newNodeInfoListItem_views [OF assms(1) n]
  let ?c1 = "set_info nm (i, gen) (newNodeInfoListItem g nm c)"
  have "links ?c1 nm = Some (None, None)" using v(1) by simp
  then obtain ni where ni: "map_of (nodes ?c1) nm = Some ni" "next_item ni = None" "prev_item ni = None"
    using item_linksD by blast
  have "linked (moveNodeInfoToHead nm ?c1) (nm # remove1 nm xs)" if l: "linked c xs" for xs
  proof -
    have "remove1 nm xs = xs" using l assms(1) by (intro remove1_idem) (auto simp: linked_def)
    moreover have "linked (moveNodeInfoToHead nm ?c1) (nm # xs) \<and> infos (moveNodeInfoToHead nm ?c1) = infos ?c1 \<and>
        rest (moveNodeInfoToHead nm ?c1) = rest ?c1"
      by (rule move_new_item [OF l assms(1) ni]) (use v in simp_all)
    ultimately show ?thesis by simp
  qed
  moreover have "infos (moveNodeInfoToHead nm ?c1) = infos ?c1 \<and> rest (moveNodeInfoToHead nm ?c1) = rest ?c1"
    by (rule move_views)
  ultimately show ?thesis using assms v rest_eqD [OF v(4)] by (simp add: touch_def)
qed

lemma cache_addPod_views:
  assumes "core c" "0 \<le> cgeneration c" "cgeneration c + 2 < 2 ^ 63" "c' = cache_addPod g pod c"
  shows "core c' \<and> advances c c' \<and> within_gen 2 c c' \<and> podStates c' = podStates c \<and> assumedPods c' = assumedPods c \<and>
    pods_at (infos c') = (pods_at (infos c))(specNodeName pod := pods_at (infos c) (specNodeName pod) @ [pod])"
proof -
  let ?nm = "specNodeName pod"
  have "\<exists>i. touch c ?nm i c' \<and> Pods i = pods_at (infos c) ?nm @ [pod] \<and> node i = nd_of (infos c) ?nm \<and> Generation i \<le> cgeneration c + 2"
  proof (cases "infos c ?nm")
    case (Some i)
    obtain it where it: "map_of (nodes c) ?nm = Some it" "info it = i" using Some by (auto simp: infos_def)
    obtain i' gen' where a: "AddPodInfo g pod i (cgeneration c) = (i', gen')" by force
    note f = AddPodInfo_fields [OF a]
    have gen: "gen' = cgeneration c + 1" using f(4) nextGeneration_room [OF assms(2)] assms(3) by simp
    have "c' = moveNodeInfoToHead ?nm (set_info ?nm (i', gen') c)" unfolding assms(4) using it a by (simp add: cache_addPod_def on_info_def Let_def)
    then show ?thesis using touch_present [OF Some f(3)] f(1-3) gen Some by (auto simp: pods_at_def nd_of_def intro!: exI [of _ i'])
  next
    case None
    obtain i0 gen0 where n: "NewNodeInfo g [] (cgeneration c) = (i0, gen0)" by force
    obtain i' gen' where a: "AddPodInfo g pod i0 gen0 = (i', gen')" by force
    note f0 = NewNodeInfo_empty [OF n] and f = AddPodInfo_fields [OF a]
    have gen: "gen' = cgeneration c + 2"
      using f(4) f0(4) nextGeneration_room [OF assms(2)] nextGeneration_room [of "cgeneration c + 1"] assms(2,3) by simp
    have m: "map_of (nodes c) ?nm = None" using None by (simp add: infos_def)
    have "c' = moveNodeInfoToHead ?nm (set_info ?nm (i', gen') (newNodeInfoListItem g ?nm c))"
      unfolding assms(4) using m n a by (simp add: cache_addPod_def on_info_def newNodeInfoListItem_def update_conv' Let_def)
    then show ?thesis using touch_absent [OF None f(3)] f(1-3) f0(1,2) gen None by (auto simp: pods_at_def nd_of_def intro!: exI [of _ i'])
  qed
  then obtain i where t: "touch c ?nm i c'" "Pods i = pods_at (infos c) ?nm @ [pod]" "node i = nd_of (infos c) ?nm" "Generation i \<le> cgeneration c + 2"
    by blast
  have "cgeneration c < Generation i" using t(1) by (simp add: touch_def)
  then show ?thesis using touch_core [OF assms(1) t(1,3)] t(2,4) by (simp add: within_gen_def)
qed

section \<open>Taking a pod from its node\<close>

lemma RemovePod_fields:
  assumes "UID pod \<noteq> []" "find_key (UID pod) (Pods n) = Some j"
  shows "\<exists>n'. RemovePod g pod n gen = Ret (None, n', nextGeneration gen) \<and> Pods n' = swap_remove j (Pods n) \<and>
    node n' = node n \<and> Generation n' = nextGeneration gen"
  using assms by (auto simp: RemovePod_def GetPodKey_def Let_def split: prod.splits)

lemma find_key_present:
  assumes "k \<in> UID ` set ps" "k \<noteq> []"
  obtains j where "find_key k ps = Some j" "j < length ps" "UID (ps ! j) = k"
proof -
  have "find_key k ps \<noteq> None" using assms by (auto simp: find_key_None GetPodKey_def)
  then obtain j where j: "find_key k ps = Some j" by blast
  then show ?thesis using that find_key_Some [OF j] by (auto simp: GetPodKey_def split: if_splits)
qed

text \<open>A node that is gone and has lost its last pod leaves the cache.\<close>

lemma drop_core:
  assumes "core c" "infos c nm = Some i0" "nd_of (infos c) nm = None" "cgeneration c \<le> gen"
    "c' = removeNodeInfoFromList nm (set_info nm (i, gen) c)"
  shows "core c' \<and> advances c c' \<and> podStates c' = podStates c \<and> assumedPods c' = assumedPods c \<and> cgeneration c' = gen \<and>
    pods_at (infos c') = (pods_at (infos c))(nm := [])"
proof -
  obtain xs where l: "linked c xs" "ordered (infos c) (cgeneration c) xs" using assms(1) by (auto simp: core_def)
  have "nm \<in> set xs" using l(1) assms(2) by (auto simp: linked_def)
  then have "linked c' (remove1 nm xs) \<and> infos c' = (infos (set_info nm (i, gen) c))(nm := None) \<and> rest c' = rest (set_info nm (i, gen) c)"
    unfolding assms(5) by (intro removeNodeInfoFromList_linked linked_set_info l)
  then have k: "linked c' (remove1 nm xs)" "infos c' = (infos c)(nm := None)"
    and r: "rest c' = (ttl c, assumedPods c, podStates c, cnodeTree c, imageStates c, gen)" by simp_all
  have "nd_of (infos c') = nd_of (infos c)" using k(2) assms(3) by (auto simp: nd_of_def fun_eq_iff)
  then have "treed (infos c') (cnodeTree c')"
    using assms(1) treed_same [of "infos c" "cnodeTree c" "infos c'"] rest_eqD(4) [OF r] by (simp add: core_def)
  then have "core c' \<and> advances c c'" using core_drop [OF k(1) l k(2)] assms(4) rest_eqD(6) [OF r] by simp
  moreover have "pods_at (infos c') = (pods_at (infos c))(nm := [])" using k(2) by (auto simp: pods_at_def fun_eq_iff)
  ultimately show ?thesis using rest_eqD [OF r] by simp
qed

lemma cache_removePod_views:
  assumes "core c" "0 \<le> cgeneration c" "cgeneration c + 1 < 2 ^ 63" "UID pod \<noteq> []"
    "find_key (UID pod) (pods_at (infos c) (specNodeName pod)) = Some j"
  shows "\<exists>c'. cache_removePod g pod c = Ret (None, c') \<and> core c' \<and> advances c c' \<and> within_gen 1 c c' \<and>
    podStates c' = podStates c \<and> assumedPods c' = assumedPods c \<and>
    pods_at (infos c') = (pods_at (infos c))(specNodeName pod := swap_remove j (pods_at (infos c) (specNodeName pod)))"
proof -
  let ?nm = "specNodeName pod"
  obtain i where i: "infos c ?nm = Some i" using assms(5) by (cases "infos c ?nm") (simp_all add: pods_at_def)
  then obtain it where it: "map_of (nodes c) ?nm = Some it" "info it = i" by (auto simp: infos_def)
  have p: "pods_at (infos c) ?nm = Pods i" using i by (simp add: pods_at_def)
  have gen: "nextGeneration (cgeneration c) = cgeneration c + 1" by (rule nextGeneration_room [OF assms(2,3)])
  obtain i' where a: "RemovePod g pod i (cgeneration c) = Ret (None, i', cgeneration c + 1)" "Pods i' = swap_remove j (Pods i)"
      "node i' = node i" "Generation i' = cgeneration c + 1"
    using RemovePod_fields [OF assms(4), of i j g "cgeneration c"] assms(5) p gen by auto
  let ?c1 = "set_info ?nm (i', cgeneration c + 1) c"
  have c: "cache_removePod g pod c = Ret (None, if Pods i' = [] \<and> node i' = None then removeNodeInfoFromList ?nm ?c1 else moveNodeInfoToHead ?nm ?c1)"
    using it a(1) by (simp add: cache_removePod_def Let_def)
  show ?thesis
  proof (cases "Pods i' = [] \<and> node i' = None")
    case True
    then show ?thesis using drop_core [OF assms(1) i _ _ refl, of "cgeneration c + 1" i'] i a(2,3) c p by (simp add: within_gen_def nd_of_def)
  next
    case False
    have t: "touch c ?nm i' (moveNodeInfoToHead ?nm ?c1)" using a(4) by (intro touch_present [OF i]) simp_all
    have "node i' = nd_of (infos c) ?nm" using i a(3) by (simp add: nd_of_def)
    moreover have "cache_removePod g pod c = Ret (None, moveNodeInfoToHead ?nm ?c1)" unfolding c using False by (simp only: if_False)
    ultimately show ?thesis using touch_core [OF assms(1) t] a(2,4) p by (simp add: within_gen_def)
  qed
qed

lemma removePod_placed:
  assumes "core c" "0 \<le> cgeneration c" "cgeneration c + 1 < 2 ^ 63" "placed (pods_at (infos c)) M"
    "M (UID pod) = Some ps" "specNodeName pod = specNodeName (ps_pod ps)"
  shows "\<exists>c'. cache_removePod g pod c = Ret (None, c') \<and> core c' \<and> advances c c' \<and> within_gen 1 c c' \<and>
    podStates c' = podStates c \<and> assumedPods c' = assumedPods c \<and> placed (pods_at (infos c')) (M(UID pod := None))"
proof -
  let ?nm = "specNodeName pod" let ?ps = "pods_at (infos c) ?nm"
  have k: "UID pod \<noteq> []" "UID pod \<in> UID ` set ?ps" using assms(4-6) by (auto simp: placed_def)
  obtain j where j: "find_key (UID pod) ?ps = Some j" "j < length ?ps" "UID (?ps ! j) = UID pod"
    using find_key_present [OF k(2,1)] .
  have "mset (map UID (swap_remove j ?ps)) = mset (map UID ?ps) - {#UID pod#}"
    using swap_remove_mset [OF j(2)] j(2,3) by (simp add: image_mset_Diff)
  then have "placed ((pods_at (infos c))(?nm := swap_remove j ?ps)) (M(UID pod := None))"
    by (rule placed_remove [OF assms(4,5,6)])
  then show ?thesis using cache_removePod_views [OF assms(1-3) k(1) j(1), of g] by auto
qed

section \<open>Nodes that come, change and go\<close>

lemma on_info_views:
  assumes "infos c nm = Some i" "f i (cgeneration c) = (i', gen)"
  shows "infos (on_info nm f c) = (infos c)(nm \<mapsto> i')" "\<And>xs. linked c xs \<Longrightarrow> linked (on_info nm f c) xs"
    "rest (on_info nm f c) = (ttl c, assumedPods c, podStates c, cnodeTree c, imageStates c, gen)"
proof -
  obtain it where "map_of (nodes c) nm = Some it" "info it = i" using assms(1) by (auto simp: infos_def)
  then have "on_info nm f c = set_info nm (i', gen) c" using assms(2) by (simp add: on_info_def)
  then show "infos (on_info nm f c) = (infos c)(nm \<mapsto> i')" "\<And>xs. linked c xs \<Longrightarrow> linked (on_info nm f c) xs"
    "rest (on_info nm f c) = (ttl c, assumedPods c, podStates c, cnodeTree c, imageStates c, gen)"
    using assms(1) by (simp_all add: linked_set_info)
qed

text \<open>Up to the item that goes to the head, adding and changing a node agree.\<close>

definition item_to_head :: "gates \<Rightarrow> string \<Rightarrow> schedulerCache \<Rightarrow> schedulerCache" where
  "item_to_head g nm c = moveNodeInfoToHead nm (case map_of (nodes c) nm of None \<Rightarrow> newNodeInfoListItem g nm c
     | Some it \<Rightarrow> removeNodeImageStates (node (info it)) c)"

lemma item_to_head_views:
  assumes "linked c xs" "0 \<le> cgeneration c" "cgeneration c + 1 < 2 ^ 63" "c' = item_to_head g nm c"
  shows "\<exists>i. infos c' = (infos c)(nm \<mapsto> i) \<and> Pods i = pods_at (infos c) nm \<and> linked c' (nm # remove1 nm xs) \<and>
    cgeneration c \<le> cgeneration c' \<and> cgeneration c' \<le> cgeneration c + 1 \<and> cnodeTree c' = cnodeTree c \<and>
    podStates c' = podStates c \<and> assumedPods c' = assumedPods c"
proof (cases "infos c nm")
  case (Some i)
  obtain it where it: "map_of (nodes c) nm = Some it" "info it = i" using Some by (auto simp: infos_def)
  let ?c1 = "removeNodeImageStates (node i) c"
  have c': "c' = moveNodeInfoToHead nm ?c1" using assms(4) it by (simp add: item_to_head_def)
  have "nm \<in> set xs" using assms(1) Some by (auto simp: linked_def)
  then have m: "linked c' (nm # remove1 nm xs)" "infos c' = infos ?c1" "rest c' = rest ?c1"
    unfolding c' using moveNodeInfoToHead_linked [of ?c1 xs nm] assms(1) by simp_all
  have "infos c' = (infos c)(nm \<mapsto> i)" using m(2) Some by (simp add: fun_upd_idem)
  then show ?thesis using m(1,3) Some by (intro exI [of _ i]) (simp add: pods_at_def rest_def)
next
  case None
  obtain i gen where n: "NewNodeInfo g [] (cgeneration c) = (i, gen)" by force
  note f = NewNodeInfo_empty [OF n] and v = newNodeInfoListItem_views [OF None n]
  let ?c1 = "newNodeInfoListItem g nm c"
  have c': "c' = moveNodeInfoToHead nm ?c1" using assms(4) None by (simp add: item_to_head_def infos_def)
  obtain ni where ni: "map_of (nodes ?c1) nm = Some ni" "next_item ni = None" "prev_item ni = None"
    using item_linksD [of ?c1 nm None None] v(1) by auto
  have m: "linked c' (nm # xs) \<and> infos c' = infos ?c1 \<and> rest c' = rest ?c1" unfolding c'
    by (rule move_new_item [OF assms(1) None ni v(1,2,3)])
  have "remove1 nm xs = xs" using assms(1) None by (intro remove1_idem) (auto simp: linked_def)
  moreover have "gen = cgeneration c + 1" using f(4) nextGeneration_room [OF assms(2,3)] by simp
  ultimately show ?thesis using m f(1) None v(2) rest_eqD [of c', OF trans [OF conjunct2 [OF conjunct2 [OF m]] v(4)]]
    by (intro exI [of _ i]) (simp add: pods_at_def)
qed

lemma set_node_views:
  assumes "infos c (knodeName nd) = Some i" "0 \<le> cgeneration c" "cgeneration c + 1 < 2 ^ 63" "c' = snd (set_node g nd c)"
  shows "\<exists>i'. infos c' = (infos c)(knodeName nd \<mapsto> i') \<and> Pods i' = Pods i \<and> node i' = Some nd \<and> Generation i' = cgeneration c + 1 \<and>
    (\<forall>xs. linked c xs \<longrightarrow> linked c' xs) \<and> cgeneration c' = cgeneration c + 1 \<and> cnodeTree c' = cnodeTree c \<and>
    podStates c' = podStates c \<and> assumedPods c' = assumedPods c"
proof -
  obtain sums sts where im: "addNodeImageStates nd (imageStates c) = (sums, sts)" by force
  let ?c = "c\<lparr>imageStates := sts\<rparr>" let ?f = "\<lambda>n gen. SetNode g nd (n\<lparr>ImageStates := sums\<rparr>) gen"
  obtain i' gen where a: "?f i (cgeneration ?c) = (i', gen)" by force
  have gen: "gen = cgeneration c + 1" using a nextGeneration_room [OF assms(2,3)] by (auto simp: SetNode_def Let_def)
  have f: "Pods i' = Pods i" "node i' = Some nd" "Generation i' = gen" using a by (auto simp: SetNode_def Let_def)
  have i: "infos ?c (knodeName nd) = Some i" using assms(1) by simp
  have c': "c' = on_info (knodeName nd) ?f ?c" using assms(4) im by (simp add: set_node_def Let_def)
  show ?thesis using on_info_views [where f = ?f, OF i a] f gen rest_eqD [OF on_info_views(3) [where f = ?f, OF i a]]
    unfolding c' by (intro exI [of _ i']) simp
qed

lemma set_node_core:
  assumes "core c" "0 \<le> cgeneration c" "cgeneration c + 2 < 2 ^ 63" "c2 = item_to_head g (knodeName nd) c"
    "c' = snd (set_node g nd (c2\<lparr>cnodeTree := t\<rparr>))"
    "\<And>I'. nd_of I' = (nd_of (infos c))(knodeName nd \<mapsto> nd) \<Longrightarrow> treed I' t"
  shows "core c' \<and> advances c c' \<and> within_gen 2 c c' \<and> podStates c' = podStates c \<and> assumedPods c' = assumedPods c \<and>
    pods_at (infos c') = pods_at (infos c)"
proof -
  let ?nm = "knodeName nd"
  obtain xs where l: "linked c xs" "ordered (infos c) (cgeneration c) xs" using assms(1) by (auto simp: core_def)
  have room: "cgeneration c + 1 < 2 ^ 63" using assms(3) by simp
  obtain i where i: "infos c2 = (infos c)(?nm \<mapsto> i)" "Pods i = pods_at (infos c) ?nm" "linked c2 (?nm # remove1 ?nm xs)"
    "cgeneration c \<le> cgeneration c2" "cgeneration c2 \<le> cgeneration c + 1" "podStates c2 = podStates c" "assumedPods c2 = assumedPods c"
    using item_to_head_views [OF l(1) assms(2) room assms(4)] by blast
  let ?c3 = "c2\<lparr>cnodeTree := t\<rparr>"
  have i3: "infos ?c3 ?nm = Some i" "0 \<le> cgeneration ?c3" "cgeneration ?c3 + 1 < 2 ^ 63" using i assms(2,3) by simp_all
  obtain i' where j: "infos c' = (infos ?c3)(?nm \<mapsto> i')" "Pods i' = Pods i" "node i' = Some nd" "Generation i' = cgeneration ?c3 + 1"
    "\<And>xs. linked ?c3 xs \<Longrightarrow> linked c' xs" "cgeneration c' = cgeneration ?c3 + 1" "cnodeTree c' = t"
    "podStates c' = podStates c2" "assumedPods c' = assumedPods c2"
    using set_node_views [OF i3 assms(5)] by auto
  have inf: "infos c' = (infos c)(?nm \<mapsto> i')" using j(1) i(1) by simp
  have "nd_of (infos c') = (nd_of (infos c))(?nm \<mapsto> nd)" using inf j(3) by (auto simp: nd_of_def fun_eq_iff)
  then have "treed (infos c') (cnodeTree c')" using assms(6) j(7) by simp
  moreover have "linked c' (?nm # remove1 ?nm xs)" using j(5) i(3) by simp
  ultimately have "core c' \<and> advances c c'" using core_touch [OF assms(1) _ l inf] j(4,6) i(4) by simp
  moreover have "pods_at (infos c') = pods_at (infos c)" using inf j(2) i(2) by (auto simp: pods_at_def fun_eq_iff)
  ultimately show ?thesis using i j by (simp add: within_gen_def)
qed

lemma item_to_head_tree [simp]: "cnodeTree (item_to_head g nm c) = cnodeTree c"
proof -
  have "cnodeTree (moveNodeInfoToHead nm d) = cnodeTree d" for d using move_views [of nm d] by (simp add: rest_def)
  then show ?thesis by (simp add: item_to_head_def newNodeInfoListItem_def split: option.splits prod.splits)
qed

lemma AddNode_core:
  assumes "core c" "0 \<le> cgeneration c" "cgeneration c + 2 < 2 ^ 63" "nd_of (infos c) (knodeName nd) = None" "c' = snd (AddNode g nd c)"
  shows "core c' \<and> advances c c' \<and> within_gen 2 c c' \<and> podStates c' = podStates c \<and> assumedPods c' = assumedPods c \<and>
    pods_at (infos c') = pods_at (infos c)"
proof -
  let ?c2 = "item_to_head g (knodeName nd) c"
  have "c' = snd (set_node g nd (?c2\<lparr>cnodeTree := nt_addNode nd (cnodeTree c)\<rparr>))"
    unfolding assms(5) AddNode_def Let_def item_to_head_def [symmetric] by simp
  then show ?thesis using assms(1,4) by (intro set_node_core [OF assms(1-3) refl]) (auto simp: core_def intro: treed_add)
qed

lemma UpdateNode_core:
  assumes "core c" "0 \<le> cgeneration c" "cgeneration c + 2 < 2 ^ 63" "nd_of (infos c) (knodeName new) = Some old"
  shows "\<exists>r c'. UpdateNode g (Some old) new c = Ret (r, c') \<and> core c' \<and> advances c c' \<and> within_gen 2 c c' \<and>
    podStates c' = podStates c \<and> assumedPods c' = assumedPods c \<and> pods_at (infos c') = pods_at (infos c)"
proof -
  let ?nm = "knodeName new" let ?c2 = "item_to_head g ?nm c" let ?I = "\<lambda>I'. nd_of I' = (nd_of (infos c))(?nm \<mapsto> new)"
  obtain it where it: "map_of (nodes c) ?nm = Some it" using assms(4) by (auto simp: nd_of_def infos_def split: option.splits)
  have td: "treed (infos c) (cnodeTree c)" using assms(1) by (simp add: core_def)
  obtain t where t: "nt_updateNode (Some old) new (cnodeTree c) = Ret t"
    by (cases "GetZoneKey old = GetZoneKey new") (auto simp: nt_updateNode_def)
  have tr: "treed I' t" if "?I I'" for I' using treed_update [OF td assms(4) that] t by simp
  have "moveNodeInfoToHead ?nm (removeNodeImageStates (node (info it)) c) = ?c2" using it by (simp add: item_to_head_def)
  then have "UpdateNode g (Some old) new c = Ret (set_node g new (?c2\<lparr>cnodeTree := t\<rparr>))"
    using it t by (simp add: UpdateNode_def Let_def)
  then have u: "UpdateNode g (Some old) new c = Ret (fst (set_node g new (?c2\<lparr>cnodeTree := t\<rparr>)), snd (set_node g new (?c2\<lparr>cnodeTree := t\<rparr>)))" by simp
  show ?thesis using set_node_core [OF assms(1-3) refl refl tr, where nd = new] u by blast
qed

lemma RemoveNode_core:
  assumes "core c" "0 \<le> cgeneration c" "cgeneration c + 1 < 2 ^ 63" "nd_of (infos c) (knodeName nd) = Some nd" "c' = snd (cache_RemoveNode nd c)"
  shows "core c' \<and> advances c c' \<and> within_gen 1 c c' \<and> podStates c' = podStates c \<and> assumedPods c' = assumedPods c \<and>
    pods_at (infos c') = pods_at (infos c) \<and> fst (cache_RemoveNode nd c) = None"
proof -
  let ?nm = "knodeName nd" let ?gen = "cgeneration c + 1"
  obtain xs where l: "linked c xs" "ordered (infos c) (cgeneration c) xs" using assms(1) by (auto simp: core_def)
  have td: "treed (infos c) (cnodeTree c)" using assms(1) by (simp add: core_def)
  obtain i where i: "infos c ?nm = Some i" "node i = Some nd" using assms(4) by (auto simp: nd_of_def split: option.splits)
  obtain it where it: "map_of (nodes c) ?nm = Some it" "info it = i" using i(1) by (auto simp: infos_def)
  have nx: "?nm \<in> set xs" using l(1) i(1) by (auto simp: linked_def)
  let ?i = "i\<lparr>node := None, Generation := ?gen\<rparr>" let ?c1 = "on_info ?nm RemoveNode c"
  have "RemoveNode i (cgeneration c) = (?i, ?gen)" using nextGeneration_room [OF assms(2,3)] by (simp add: RemoveNode_def Let_def)
  note o = on_info_views [where f = RemoveNode, OF i(1) this]
  define c2 where "c2 = (if Pods i = [] then removeNodeInfoFromList ?nm ?c1 else moveNodeInfoToHead ?nm ?c1)"
  have r: "rest c2 = rest ?c1" using removeNodeInfoFromList_linked [OF o(2) [OF l(1)] nx] move_views [of ?nm ?c1] by (simp add: c2_def)
  then have f: "podStates c2 = podStates c" "assumedPods c2 = assumedPods c" "cnodeTree c2 = cnodeTree c" "cgeneration c2 = ?gen"
    using rest_eqD [OF trans [OF r o(3)]] by simp_all
  have inf: "infos c2 = (infos c)(?nm := if Pods i = [] then None else Some ?i)"
    and lk: "linked c2 (if Pods i = [] then remove1 ?nm xs else ?nm # remove1 ?nm xs)"
    using removeNodeInfoFromList_linked [OF o(2) [OF l(1)] nx] moveNodeInfoToHead_linked [OF o(2) [OF l(1)] nx] o(1) by (simp_all add: c2_def)
  have nd: "nd_of (infos c2) = (nd_of (infos c))(?nm := None)" using inf by (auto simp: nd_of_def fun_eq_iff)
  have t: "treed (infos c2) (snd (nt_removeNode nd (cnodeTree c)))" "fst (nt_removeNode nd (cnodeTree c)) = None"
    using treed_remove [OF td assms(4) nd] by simp_all
  let ?c3 = "c2\<lparr>cnodeTree := snd (nt_removeNode nd (cnodeTree c))\<rparr>"
  have rn: "cache_RemoveNode nd c = (None, removeNodeImageStates (Some nd) ?c3)"
    using it t(2) f(3) unfolding c2_def by (cases "nt_removeNode nd (cnodeTree c)") (simp add: cache_RemoveNode_def Let_def)
  have "core ?c3 \<and> advances c ?c3"
  proof (cases "Pods i = []")
    case True
    then show ?thesis using lk inf f(4) t(1) by (intro core_drop [OF _ l]) simp_all
  next
    case False
    then show ?thesis using lk inf f(4) t(1) by (intro core_touch [where nm = ?nm and i = ?i, OF assms(1) _ l]) simp_all
  qed
  moreover have "pods_at (infos c2) = pods_at (infos c)" using inf i(1) by (auto simp: pods_at_def fun_eq_iff)
  ultimately show ?thesis using rn assms(5) f by (simp add: core_def advances_def within_gen_def)
qed

end
