(* ===== verification/Cache_Ops.thy ===== *)
theory Cache_Ops
  imports Cache_Inv
begin

text \<open>
  Every operation of the cache returns, keeps the invariant, and gives a changed node a new
  generation, provided the events of nodes and pods arrive in the order the API server sends them.
\<close>

section \<open>Single operations\<close>

definition keeps :: "schedulerCache \<Rightarrow> schedulerCache \<Rightarrow> bool" where
  "keeps c c' \<longleftrightarrow> cache_inv c' \<and> advances c c'"

definition returns :: "schedulerCache \<Rightarrow> ('e \<times> schedulerCache) go \<Rightarrow> bool" where
  "returns c r \<longleftrightarrow> (\<exists>e c'. r = Ret (e, c') \<and> keeps c c')"

lemma keeps_refl [simp]: "cache_inv c \<Longrightarrow> keeps c c"
  by (simp add: keeps_def)

lemma returnsI: "r = Ret (e, c') \<Longrightarrow> keeps c c' \<Longrightarrow> returns c r"
  by (auto simp: returns_def)

lemma returns_error [simp]: "cache_inv c \<Longrightarrow> returns c (Ret (e, c))"
  by (auto simp: returns_def)

text \<open>The counter of generations has room for the steps of one operation.\<close>

definition room :: "schedulerCache \<Rightarrow> bool" where
  "room c \<longleftrightarrow> cgeneration c + 4 + int (length (assumedPods c)) < 2 ^ 63"

lemma cache_invD:
  assumes "cache_inv c"
  shows "core c" "0 \<le> cgeneration c" "placed (pods_at (infos c)) (map_of (podStates c))"
    "assumed_ok (set (assumedPods c)) (map_of (podStates c))" "distinct (assumedPods c)"
  using assms by (simp_all add: cache_inv_def)

lemma keepsI:
  assumes "core c'" "0 \<le> cgeneration c" "advances c c'" "placed (pods_at (infos c')) (map_of (podStates c'))"
    "assumed_ok (set (assumedPods c')) (map_of (podStates c'))" "distinct (assumedPods c')"
  shows "keeps c c'"
  using assms by (auto simp: keeps_def cache_inv_def advances_def)

text \<open>An operation either reports an error at once or goes on with the key and the state of the pod.\<close>

lemma returns_by_state:
  assumes "cache_inv c" "UID pod \<noteq> [] \<Longrightarrow> map_of (podStates c) (UID pod) = None \<Longrightarrow> returns c (n (UID pod))"
    "\<And>ps. UID pod \<noteq> [] \<Longrightarrow> map_of (podStates c) (UID pod) = Some ps \<Longrightarrow> returns c (s (UID pod) ps)"
  shows "returns c (with_key pod c (\<lambda>key. case map_of (podStates c) key of Some ps \<Rightarrow> s key ps | None \<Rightarrow> n key))"
  using assms by (cases "map_of (podStates c) (UID pod)") (simp_all add: with_key_def GetPodKey_def)

lemma add_new_pod:
  assumes "cache_inv c" "room c" "UID pod \<noteq> []" "map_of (podStates c) (UID pod) = None" "ps_pod ps = pod"
    "c1 = cache_addPod g pod c" "set A \<subseteq> insert (UID pod) (set (assumedPods c))" "distinct A" "\<not> bindingFinished ps"
  shows "keeps c (c1\<lparr>podStates := AList.update (UID pod) ps (podStates c1), assumedPods := A\<rparr>)"
proof -
  note i = cache_invD [OF assms(1)]
  have "cgeneration c + 2 < 2 ^ 63" using assms(2) by (simp add: room_def)
  note a = cache_addPod_views [OF i(1,2) this assms(6)]
  have "assumed_ok (set A) ((map_of (podStates c))(UID pod \<mapsto> ps))"
    using assms(7,9) by (intro assumed_okI [OF i(4), of _ "UID pod"]) auto
  moreover have "placed (pods_at (infos c1)) ((map_of (podStates c))(UID pod \<mapsto> ps))"
    using a placed_add [OF i(3) assms(4,3,5)] by simp
  ultimately show ?thesis using a i(2) assms(8) by (intro keepsI) (simp_all add: update_conv')
qed

lemma AssumePod_ok:
  assumes "cache_inv c" "room c" shows "returns c (AssumePod g pod c)"
  unfolding AssumePod_def
proof (rule returns_by_state [OF assms(1)])
  let ?c1 = "cache_addPod g pod c"
  assume k: "UID pod \<noteq> []" "map_of (podStates c) (UID pod) = None"
  have "assumedPods ?c1 = assumedPods c" using cache_addPod_views [OF cache_invD(1,2) [OF assms(1)] _ refl] assms(2) by (simp add: room_def)
  then show "returns c (let c1 = ?c1 in Ret (None, c1\<lparr>podStates := AList.update (UID pod) \<lparr>ps_pod = pod, deadline = None, bindingFinished = False\<rparr> (podStates c1),
      assumedPods := List.insert (UID pod) (assumedPods c1)\<rparr>))"
    unfolding Let_def using cache_invD(5) [OF assms(1)] by (intro returnsI [OF refl] add_new_pod [OF assms k _ refl]) auto
qed (use assms(1) in simp)

lemma change_state:
  assumes "cache_inv c" "map_of (podStates c) key = Some ps" "specNodeName (ps_pod ps') = specNodeName (ps_pod ps)" "UID (ps_pod ps') = key"
    "set A \<subseteq> set (assumedPods c)" "distinct A" "key \<in> set A \<Longrightarrow> bindingFinished ps' \<longrightarrow> deadline ps' \<noteq> None"
  shows "keeps c (c\<lparr>assumedPods := A, podStates := AList.update key ps' (podStates c)\<rparr>)"
proof -
  note i = cache_invD [OF assms(1)]
  have "assumed_ok (set A) ((map_of (podStates c))(key \<mapsto> ps'))" using assms(5,7) by (intro assumed_okI [OF i(4), of _ key]) auto
  then show ?thesis using i assms(6) placed_same_node [OF i(3) assms(2-4)] by (intro keepsI) (simp_all add: update_conv')
qed

lemma state_uid: "cache_inv c \<Longrightarrow> map_of (podStates c) key = Some ps \<Longrightarrow> UID (ps_pod ps) = key"
  by (auto dest!: cache_invD(3) simp: placed_def)

lemma finishBinding_ok:
  assumes "cache_inv c" shows "returns c (finishBinding pod now c)"
  unfolding finishBinding_def
proof (rule returns_by_state [OF assms])
  fix ps assume s: "map_of (podStates c) (UID pod) = Some ps"
  let ?ps = "ps\<lparr>bindingFinished := True, deadline := Some (now + ttl c)\<rparr>"
  have "keeps c (c\<lparr>assumedPods := assumedPods c, podStates := AList.update (UID pod) ?ps (podStates c)\<rparr>)"
    using state_uid [OF assms s] cache_invD(5) [OF assms] by (intro change_state [OF assms s]) simp_all
  then show "returns c (if UID pod \<in> set (assumedPods c) then Ret (None, c\<lparr>podStates := AList.update (UID pod) ?ps (podStates c)\<rparr>) else Ret (None, c))"
    using assms by (auto intro: returnsI)
qed (use assms in simp)

text \<open>A pod is taken from its node and forgotten.\<close>

lemma drop_pod:
  assumes "cache_inv c" "cgeneration c + 1 < 2 ^ 63" "map_of (podStates c) (UID pod) = Some ps" "specNodeName pod = specNodeName (ps_pod ps)"
  obtains c1 where "cache_removePod g pod c = Ret (None, c1)" "podStates c1 = podStates c" "assumedPods c1 = assumedPods c"
    "within_gen 1 c c1" "core c1" "advances c c1" "placed (pods_at (infos c1)) ((map_of (podStates c))(UID pod := None))"
    "keeps c (forget_key (UID pod) c1)"
proof -
  note i = cache_invD [OF assms(1)]
  obtain c1 where c1: "cache_removePod g pod c = Ret (None, c1)" "core c1" "advances c c1" "within_gen 1 c c1"
    "podStates c1 = podStates c" "assumedPods c1 = assumedPods c" "placed (pods_at (infos c1)) ((map_of (podStates c))(UID pod := None))"
    using removePod_placed [OF i(1,2) assms(2) i(3) assms(3,4)] by blast
  have "assumed_ok (set (assumedPods c) - {UID pod}) ((map_of (podStates c))(UID pod := None))"
    by (rule assumed_okI [OF i(4), of _ "UID pod"]) auto
  then have "keeps c (forget_key (UID pod) c1)"
    using c1 i by (intro keepsI) (simp_all add: forget_key_def delete_conv' distinct_removeAll)
  then show ?thesis using that c1 by blast
qed

lemma ForgetPod_ok:
  assumes "cache_inv c" "room c" shows "returns c (ForgetPod g pod c)"
  unfolding ForgetPod_def
proof (rule returns_by_state [OF assms(1)])
  fix ps assume s: "map_of (podStates c) (UID pod) = Some ps"
  have r: "cgeneration c + 1 < 2 ^ 63" using assms(2) by (simp add: room_def)
  show "returns c (if specNodeName (ps_pod ps) \<noteq> specNodeName pod
      then Ret (Some (''pod '' @ UID pod @ '' was assumed on '' @ specNodeName pod @ '' but assigned to '' @ specNodeName (ps_pod ps)), c)
      else if UID pod \<in> set (assumedPods c)
      then go_bind (cache_removePod g pod c) (\<lambda>(e, c1). case e of Some e \<Rightarrow> Ret (Some e, c1) | None \<Rightarrow> Ret (None, forget_key (UID pod) c1))
      else Ret (Some (''pod '' @ UID pod @ '' wasn't assumed so cannot be forgotten''), c))"
  proof (cases "specNodeName pod = specNodeName (ps_pod ps)")
    case True
    obtain c1 where "cache_removePod g pod c = Ret (None, c1)" "keeps c (forget_key (UID pod) c1)"
      using drop_pod [OF assms(1) r s True, of g] by blast
    then show ?thesis using assms(1) True by (auto intro: returnsI)
  qed (use assms(1) in simp)
qed (use assms(1) in simp)

section \<open>Events of pods\<close>

text \<open>A pod that was assumed elsewhere moves to the node it was bound to.\<close>

lemma move_pod:
  assumes "cache_inv c" "room c" "map_of (podStates c) (UID old) = Some ps" "specNodeName old = specNodeName (ps_pod ps)"
    "UID pod = UID old" "ps_pod ps' = pod"
  obtains c1 c2 where "cache_removePod g old c = Ret (None, c1)" "c2 = cache_addPod g pod c1" "podStates c2 = podStates c"
    "assumedPods c2 = assumedPods c" "core c2" "advances c c2" "placed (pods_at (infos c2)) ((map_of (podStates c))(UID old \<mapsto> ps'))"
proof -
  have r: "cgeneration c + 1 < 2 ^ 63" using assms(2) by (simp add: room_def)
  have u: "UID old \<noteq> []" using cache_invD(3) [OF assms(1)] assms(3) by (simp add: placed_def)
  obtain c1 where c1: "cache_removePod g old c = Ret (None, c1)" "podStates c1 = podStates c" "assumedPods c1 = assumedPods c"
    "within_gen 1 c c1" "core c1" "advances c c1" "placed (pods_at (infos c1)) ((map_of (podStates c))(UID old := None))"
    using drop_pod [OF assms(1) r assms(3,4), of g] by blast
  have g1: "0 \<le> cgeneration c1" "cgeneration c1 + 2 < 2 ^ 63"
    using c1(4) assms(2) cache_invD(2) [OF assms(1)] by (simp_all add: within_gen_def room_def)
  note a = cache_addPod_views [OF c1(5) g1 refl, of g pod]
  have "placed (pods_at (infos (cache_addPod g pod c1))) ((map_of (podStates c))(UID old \<mapsto> ps'))"
    using a placed_add [OF c1(7), of pod ps'] assms(5,6) u by simp
  then show ?thesis using that [OF c1(1) refl] a c1 advances_trans by auto
qed

lemma cache_AddPod_ok:
  assumes "cache_inv c" "room c" shows "returns c (cache_AddPod g pod c)"
  unfolding cache_AddPod_def
proof (rule returns_by_state [OF assms(1)])
  let ?c1 = "cache_addPod g pod c" let ?ps = "\<lparr>ps_pod = pod, deadline = None, bindingFinished = False\<rparr>"
  assume k: "UID pod \<noteq> []" "map_of (podStates c) (UID pod) = None"
  have "assumedPods ?c1 = assumedPods c" using cache_addPod_views [OF cache_invD(1,2) [OF assms(1)] _ refl] assms(2) by (simp add: room_def)
  then have "keeps c (?c1\<lparr>podStates := AList.update (UID pod) ?ps (podStates ?c1), assumedPods := assumedPods ?c1\<rparr>)"
    using cache_invD(5) [OF assms(1)] by (intro add_new_pod [OF assms k _ refl]) auto
  then show "returns c (let c1 = ?c1 in Ret (None, c1\<lparr>podStates := AList.update (UID pod) ?ps (podStates c1)\<rparr>))"
    by (auto simp: Let_def intro: returnsI)
next
  fix ps assume s: "map_of (podStates c) (UID pod) = Some ps"
  note u = state_uid [OF assms(1) s] and i = cache_invD [OF assms(1)]
  let ?ps = "ps\<lparr>deadline := None, ps_pod := pod\<rparr>"
  let ?upd = "\<lambda>c1. c1\<lparr>assumedPods := removeAll (UID pod) (assumedPods c1), podStates := AList.update (UID pod) ?ps (podStates c1)\<rparr>"
  show "returns c (if UID pod \<in> set (assumedPods c)
      then go_bind (if specNodeName (ps_pod ps) \<noteq> specNodeName pod
                    then go_bind (cache_removePod g (ps_pod ps) c) (\<lambda>(_, c1). Ret (cache_addPod g pod c1))
                    else Ret c) (\<lambda>c1. Ret (None, ?upd c1))
      else Ret (Some (''pod '' @ UID pod @ '' was already in added state''), c))"
  proof (cases "specNodeName (ps_pod ps) = specNodeName pod")
    case True
    have "keeps c (?upd c)" using True i(5) by (intro change_state [OF assms(1) s]) (auto simp: distinct_removeAll)
    then show ?thesis using assms(1) True by (auto intro: returnsI)
  next
    case False
    have s': "map_of (podStates c) (UID (ps_pod ps)) = Some ps" using s u by simp
    obtain c1 c2 where m: "cache_removePod g (ps_pod ps) c = Ret (None, c1)" "c2 = cache_addPod g pod c1" "podStates c2 = podStates c"
      "assumedPods c2 = assumedPods c" "core c2" "advances c c2" "placed (pods_at (infos c2)) ((map_of (podStates c))(UID (ps_pod ps) \<mapsto> ?ps))"
      using move_pod [OF assms s' refl, of pod ?ps g] u by auto
    have "assumed_ok (set (assumedPods c) - {UID pod}) ((map_of (podStates c))(UID pod \<mapsto> ?ps))"
      by (rule assumed_okI [OF i(4), of _ "UID pod"]) auto
    then have "keeps c (?upd c2)" using m u i by (intro keepsI) (simp_all add: update_conv' distinct_removeAll)
    then show ?thesis using assms(1) False m(1,2) by (auto intro: returnsI)
  qed
qed

lemma cache_UpdatePod_ok:
  assumes "cache_inv c" "room c"
    "\<And>ps. map_of (podStates c) (UID old) = Some ps \<Longrightarrow> specNodeName old = specNodeName (ps_pod ps) \<and> specNodeName new = specNodeName old \<and> UID new = UID old"
  shows "returns c (cache_UpdatePod g old new c)"
  unfolding cache_UpdatePod_def
proof (rule returns_by_state [OF assms(1)])
  fix ps assume s: "map_of (podStates c) (UID old) = Some ps"
  note i = cache_invD [OF assms(1)] and n = assms(3) [OF s]
  let ?ps = "ps\<lparr>ps_pod := new\<rparr>"
  obtain c1 c2 where m: "cache_removePod g old c = Ret (None, c1)" "c2 = cache_addPod g new c1" "podStates c2 = podStates c"
    "assumedPods c2 = assumedPods c" "core c2" "advances c c2" "placed (pods_at (infos c2)) ((map_of (podStates c))(UID old \<mapsto> ?ps))"
    using move_pod [OF assms(1,2) s, of new ?ps g] n by auto
  have "keeps c (c2\<lparr>podStates := AList.update (UID old) ?ps (podStates c2)\<rparr>)" if a: "UID old \<notin> set (assumedPods c)"
  proof -
    have "assumed_ok (set (assumedPods c)) ((map_of (podStates c))(UID old \<mapsto> ?ps))"
      using a by (intro assumed_okI [OF i(4), of _ "UID old"]) auto
    then show ?thesis using m i by (intro keepsI) (simp_all add: update_conv')
  qed
  then show "returns c (if UID old \<notin> set (assumedPods c)
      then if specNodeName (ps_pod ps) \<noteq> specNodeName new then Panic FatalExit
           else go_bind (cache_updatePod g old new c) (\<lambda>(e, c1). case e of Some e \<Rightarrow> Ret (Some e, c1)
             | None \<Rightarrow> Ret (None, c1\<lparr>podStates := AList.update (UID old) ?ps (podStates c1)\<rparr>))
      else Ret (Some (''pod '' @ UID old @ '' is not added to scheduler cache, so cannot be updated''), c))"
    using assms(1) n m(1,2) by (auto simp: cache_updatePod_def intro: returnsI)
qed (use assms(1) in simp)

lemma cache_RemovePod_ok:
  assumes "cache_inv c" "room c" "\<And>ps. map_of (podStates c) (UID pod) = Some ps \<Longrightarrow> specNodeName pod = specNodeName (ps_pod ps)"
  shows "returns c (cache_RemovePod g pod c)"
  unfolding cache_RemovePod_def
proof (rule returns_by_state [OF assms(1)])
  fix ps assume s: "map_of (podStates c) (UID pod) = Some ps"
  note u = state_uid [OF assms(1) s] and n = assms(3) [OF s]
  have r: "cgeneration c + 1 < 2 ^ 63" using assms(2) by (simp add: room_def)
  obtain c1 where c1: "cache_removePod g (ps_pod ps) c = Ret (None, c1)" "assumedPods c1 = assumedPods c" "keeps c (forget_key (UID pod) c1)"
    using drop_pod [OF assms(1) r, of "ps_pod ps" ps g] s u by auto
  have "forget_key (UID pod) c1 = c1\<lparr>podStates := AList.delete (UID pod) (podStates c1)\<rparr>" if "UID pod \<notin> set (assumedPods c)"
    using that c1(2) by (simp add: forget_key_def)
  then show "returns c (if UID pod \<notin> set (assumedPods c)
      then if specNodeName (ps_pod ps) \<noteq> specNodeName pod then Panic FatalExit
           else go_bind (cache_removePod g (ps_pod ps) c) (\<lambda>(e, c1). case e of Some e \<Rightarrow> Ret (Some e, c1)
             | None \<Rightarrow> Ret (None, c1\<lparr>podStates := AList.delete (UID pod) (podStates c1)\<rparr>))
      else Ret (Some (''pod '' @ UID pod @ '' is not found in scheduler cache, so cannot be removed from it''), c))"
    using assms(1) n c1 by (auto intro: returnsI)
qed (use assms(1) in simp)

section \<open>Events of nodes\<close>

lemma keeps_node:
  assumes "cache_inv c" "core c'" "advances c c'" "podStates c' = podStates c" "assumedPods c' = assumedPods c" "pods_at (infos c') = pods_at (infos c)"
  shows "keeps c c'"
  using cache_invD [OF assms(1)] assms by (intro keepsI) simp_all

lemma AddNode_ok:
  assumes "cache_inv c" "room c" "nd_of (infos c) (knodeName nd) = None" shows "keeps c (snd (AddNode g nd c))"
  using AddNode_core [OF cache_invD(1,2) [OF assms(1)] _ assms(3) refl] assms(2) keeps_node [OF assms(1)] by (simp add: room_def)

lemma UpdateNode_ok:
  assumes "cache_inv c" "room c" "nd_of (infos c) (knodeName new) = Some old" shows "returns c (UpdateNode g (Some old) new c)"
proof -
  have "cgeneration c + 2 < 2 ^ 63" using assms(2) by (simp add: room_def)
  then show ?thesis using UpdateNode_core [OF cache_invD(1,2) [OF assms(1)] _ assms(3)] keeps_node [OF assms(1)] returnsI by metis
qed

lemma RemoveNode_ok:
  assumes "cache_inv c" "room c" "infos c (knodeName nd) \<noteq> None \<Longrightarrow> nd_of (infos c) (knodeName nd) = Some nd"
  shows "keeps c (snd (cache_RemoveNode nd c))"
proof (cases "infos c (knodeName nd)")
  case None
  then have "cache_RemoveNode nd c = (Some (knodeName nd, ''is not found''), c)" by (simp add: cache_RemoveNode_def infos_def)
  then show ?thesis using assms(1) by simp
next
  case (Some i)
  then show ?thesis using RemoveNode_core [OF cache_invD(1,2) [OF assms(1)] _ _ refl] assms(2,3) keeps_node [OF assms(1)] by (simp add: room_def)
qed

section \<open>Expiry\<close>

lemma keeps_trans: "keeps a b \<Longrightarrow> keeps b c \<Longrightarrow> keeps a c"
  using advances_trans by (auto simp: keeps_def)

lemma cleanup_loop_ok:
  assumes "cache_inv c" "distinct keys" "set keys \<subseteq> set (assumedPods c)" "cgeneration c + int (length keys) < 2 ^ 63"
  shows "\<exists>c'. cleanup_loop g now keys c = Ret c' \<and> keeps c c'"
  using assms
proof (induction keys arbitrary: c)
  case (Cons key keys)
  obtain ps where s: "map_of (podStates c) key = Some ps" "bindingFinished ps \<longrightarrow> deadline ps \<noteq> None"
    using cache_invD(4) [OF Cons.prems(1)] Cons.prems(3) by (auto simp: assumed_ok_def)
  note u = state_uid [OF Cons.prems(1) s(1)]
  have skip: "\<exists>c'. cleanup_loop g now keys c = Ret c' \<and> keeps c c'" using Cons by simp
  have room1: "cgeneration c + 1 < 2 ^ 63" using Cons.prems(4) by simp
  obtain c1 where c1: "cache_removePod g (ps_pod ps) c = Ret (None, c1)" "assumedPods c1 = assumedPods c" "within_gen 1 c c1"
    "keeps c (forget_key key c1)"
    using drop_pod [OF Cons.prems(1) room1, of "ps_pod ps" ps g] s(1) u by auto
  have "cache_inv (forget_key key c1)" "set keys \<subseteq> set (assumedPods (forget_key key c1))"
    "cgeneration (forget_key key c1) + int (length keys) < 2 ^ 63"
    using c1 Cons.prems by (auto simp: keeps_def forget_key_def within_gen_def)
  then have "\<exists>c'. cleanup_loop g now keys (forget_key key c1) = Ret c' \<and> keeps (forget_key key c1) c'"
    using Cons.IH Cons.prems(2) by simp
  then have "\<exists>c'. go_bind (expirePod g key ps c) (\<lambda>(_, c1). cleanup_loop g now keys c1) = Ret c' \<and> keeps c c'"
    using c1 keeps_trans by (auto simp: expirePod_def)
  then show ?case using s skip by auto
qed simp

section \<open>Reachable states\<close>

text \<open>
  The keys an expiry visits are given with it. A node is added when it is not present, and an update
  or removal names the node as it is present; a pod that is updated or deleted is where it was
  added. The API server keeps the node of a pod and its key.
\<close>

datatype cache_op = OAssume kpod | OFinish kpod int | OForget kpod | OAddPod kpod | OUpdatePod kpod kpod | ORemovePod kpod
  | OAddNode knode | OUpdateNode knode knode | ORemoveNode knode | OCleanup "string list" int

fun cache_exec :: "gates \<Rightarrow> cache_op \<Rightarrow> schedulerCache \<Rightarrow> schedulerCache go" where
  "cache_exec g (OAssume pod) c = go_bind (AssumePod g pod c) (\<lambda>(_, c'). Ret c')"
| "cache_exec g (OFinish pod now) c = go_bind (finishBinding pod now c) (\<lambda>(_, c'). Ret c')"
| "cache_exec g (OForget pod) c = go_bind (ForgetPod g pod c) (\<lambda>(_, c'). Ret c')"
| "cache_exec g (OAddPod pod) c = go_bind (cache_AddPod g pod c) (\<lambda>(_, c'). Ret c')"
| "cache_exec g (OUpdatePod old new) c = go_bind (cache_UpdatePod g old new c) (\<lambda>(_, c'). Ret c')"
| "cache_exec g (ORemovePod pod) c = go_bind (cache_RemovePod g pod c) (\<lambda>(_, c'). Ret c')"
| "cache_exec g (OAddNode nd) c = Ret (snd (AddNode g nd c))"
| "cache_exec g (OUpdateNode old new) c = go_bind (UpdateNode g (Some old) new c) (\<lambda>(_, c'). Ret c')"
| "cache_exec g (ORemoveNode nd) c = Ret (snd (cache_RemoveNode nd c))"
| "cache_exec g (OCleanup keys now) c = cleanupAssumedPods g (\<lambda>_. keys) now c"

fun allowed :: "cache_op \<Rightarrow> schedulerCache \<Rightarrow> bool" where
  "allowed (OUpdatePod old new) c = (case map_of (podStates c) (UID old) of None \<Rightarrow> True
     | Some ps \<Rightarrow> specNodeName old = specNodeName (ps_pod ps) \<and> specNodeName new = specNodeName old \<and> UID new = UID old)"
| "allowed (ORemovePod pod) c = (case map_of (podStates c) (UID pod) of None \<Rightarrow> True | Some ps \<Rightarrow> specNodeName pod = specNodeName (ps_pod ps))"
| "allowed (OAddNode nd) c = (nd_of (infos c) (knodeName nd) = None)"
| "allowed (OUpdateNode old new) c = (nd_of (infos c) (knodeName new) = Some old)"
| "allowed (ORemoveNode nd) c = (infos c (knodeName nd) = None \<or> nd_of (infos c) (knodeName nd) = Some nd)"
| "allowed (OCleanup keys now) c = (mset keys = mset (assumedPods c))"
| "allowed _ c = True"

lemma returns_exec: "returns c r \<Longrightarrow> \<exists>c'. go_bind r (\<lambda>(_, c'). Ret c') = Ret c' \<and> keeps c c'"
  by (auto simp: returns_def)

lemma cache_exec_ok:
  assumes "cache_inv c" "room c" "allowed op c" shows "\<exists>c'. cache_exec g op c = Ret c' \<and> keeps c c'"
proof (cases op)
  case (OCleanup keys now)
  then have m: "mset keys = mset (assumedPods c)" using assms(3) by simp
  have "distinct keys" "set keys = set (assumedPods c)" "length keys = length (assumedPods c)"
    using m cache_invD(5) [OF assms(1)] mset_eq_imp_distinct_iff mset_eq_setD mset_eq_length by metis+
  then show ?thesis using cleanup_loop_ok [OF assms(1), of keys g now] assms(2) OCleanup by (simp add: cleanupAssumedPods_def room_def)
next
  case (OUpdatePod old new)
  then show ?thesis using assms(3) by (auto split: option.splits intro!: returns_exec cache_UpdatePod_ok [OF assms(1,2)])
next
  case (ORemovePod pod)
  then show ?thesis using assms(3) by (auto split: option.splits intro!: returns_exec cache_RemovePod_ok [OF assms(1,2)])
next
  case (ORemoveNode nd)
  then show ?thesis using assms(3) by (auto intro!: RemoveNode_ok [OF assms(1,2)])
qed (use assms AddNode_ok in \<open>auto intro!: returns_exec AssumePod_ok finishBinding_ok ForgetPod_ok cache_AddPod_ok UpdateNode_ok\<close>)

end
