(* ===== verification/Snapshot_Props.thy ===== *)
theory Snapshot_Props
  imports Sched_Snapshot Cache_Ops
begin

text \<open>
  Copying only the nodes that changed gives the snapshot that copying all of them would give, after
  any sequence of operations of the cache and updates of the snapshot.
\<close>

section \<open>The nodes that are present\<close>

definition present :: "schedulerCache \<Rightarrow> string set" where
  "present c = {nm. nd_of (infos c) nm \<noteq> None}"

lemma present_infos: "nm \<in> present c \<longleftrightarrow> (\<exists>i. infos c nm = Some i \<and> node i \<noteq> None)"
  by (auto simp: present_def nd_of_def split: option.splits)

lemma deleted_present: "deleted c nm \<longleftrightarrow> nm \<notin> present c"
  by (auto simp: deleted_def present_infos infos_def split: option.splits)

lemma finite_present: "finite (present c)"
proof -
  have "present c \<subseteq> dom (map_of (nodes c))" by (auto simp: present_infos infos_def)
  then show ?thesis using finite_subset finite_dom_map_of by blast
qed

lemma tree_list:
  assumes "tree_ok t"
  shows "\<exists>ns. nt_list t = Ret (ns, None) \<and> int (length ns) = numNodes t \<and> mset ns = image_mset snd (mset_set (entries t))"
proof -
  let ?ns = "rounds (zone_nodes t) (zones t) (width t)"
  have "int (length ?ns) = numNodes t"
    unfolding rounds_length tree_okD(4) [OF assms] using width_ge by (intro arg_cong [of _ _ sum_list] map_cong) (auto simp: min_absorb2)
  then show ?thesis using nt_list_eq [OF assms] listed_mset [OF assms] by blast
qed

lemma present_listed:
  assumes "core c"
  obtains ns where "nt_list (cnodeTree c) = Ret (ns, None)" "int (length ns) = numNodes (cnodeTree c)"
    "distinct ns" "set ns = present c" "numNodes (cnodeTree c) = int (card (present c))"
proof -
  have t: "tree_ok (cnodeTree c)" "entries (cnodeTree c) = zoned (nd_of (infos c))" using assms by (simp_all add: core_def treed_def)
  obtain ns where ns: "nt_list (cnodeTree c) = Ret (ns, None)" "int (length ns) = numNodes (cnodeTree c)"
    "mset ns = image_mset snd (mset_set (zoned (nd_of (infos c))))" using tree_list [OF t(1)] t(2) by auto
  have "inj_on snd (zoned (nd_of (infos c)))" by (auto simp: inj_on_def zoned_def)
  moreover have "snd ` zoned (nd_of (infos c)) = present c" by (force simp: zoned_def present_def image_iff)
  ultimately have m: "mset ns = mset_set (present c)" using ns(3) image_mset_mset_set by metis
  obtain ys where ys: "set ys = present c" "distinct ys" using finite_distinct_list [OF finite_present] by blast
  have "mset ns = mset ys" using m mset_set_set [OF ys(2)] ys(1) by simp
  then have d: "distinct ns" "set ns = present c" using ys mset_eq_imp_distinct_iff mset_eq_setD by metis+
  then have "length ns = card (present c)" by (metis distinct_card)
  then show ?thesis using that [OF ns(1,2) d] ns(2) by simp
qed

section \<open>Invariants of a snapshot\<close>

definition snap_inv :: "snapshot \<Rightarrow> bool" where
  "snap_inv s \<longleftrightarrow> distinct (map fst (nodeInfoMap s)) \<and> distinct (nodeInfoList s) \<and>
     set (nodeInfoList s) = dom (map_of (nodeInfoMap s)) \<and>
     havePodsWithAffinityNodeInfoList s = filter (withAffinity s) (nodeInfoList s) \<and>
     havePodsWithRequiredAntiAffinityNodeInfoList s = filter (withRequiredAntiAffinity s) (nodeInfoList s)"

lemma with_cong:
  "nodeInfoMap s = nodeInfoMap s' \<Longrightarrow> withAffinity s = withAffinity s'"
  "nodeInfoMap s = nodeInfoMap s' \<Longrightarrow> withRequiredAntiAffinity s = withRequiredAntiAffinity s'"
  by (simp_all add: withAffinity_def withRequiredAntiAffinity_def fun_eq_iff)

text \<open>A node whose generation the snapshot has seen is in the snapshot as it is in the cache.\<close>

definition synced :: "schedulerCache \<Rightarrow> snapshot \<Rightarrow> bool" where
  "synced c s \<longleftrightarrow> sgeneration s \<le> cgeneration c \<and>
     (\<forall>nm i. infos c nm = Some i \<longrightarrow> node i \<noteq> None \<longrightarrow> Generation i \<le> sgeneration s \<longrightarrow> map_of (nodeInfoMap s) nm = Some i)"

lemma synced_advances: "synced c s \<Longrightarrow> advances c c' \<Longrightarrow> synced c' s"
  unfolding synced_def advances_def by (metis leD order_trans)

section \<open>The walk\<close>

definition seen :: "schedulerCache \<Rightarrow> int \<Rightarrow> string list \<Rightarrow> nodeInfo list" where
  "seen c G xs = map (the \<circ> infos c) (takeWhile (\<lambda>nm. G < gen_of (infos c) nm) xs)"

lemma snap_loop_eq:
  assumes "dlseg (links c) p xs None"
  shows "snap_loop c G (fst_or xs None) st = Some (foldl (\<lambda>st i. snap_item i st) st (seen c G xs))"
  using assms
proof (induction xs arbitrary: p st)
  case Nil
  then show ?case by (subst snap_loop.simps) (simp add: seen_def)
next
  case (Cons x xs)
  obtain it where it: "map_of (nodes c) x = Some it" "next_item it = fst_or xs None" using Cons.prems by (auto simp: links_def)
  then have i: "infos c x = Some (info it)" by (simp add: infos_def)
  have IH: "snap_loop c G (fst_or xs None) st = Some (foldl (\<lambda>st i. snap_item i st) st (seen c G xs))" for st
    using Cons.IH [of "Some x"] Cons.prems by simp
  show ?case using it i IH by (subst snap_loop.simps) (simp add: seen_def gen_of_def not_le)
qed

lemma takeWhile_ordered:
  assumes "sorted_wrt (\<lambda>a b. f b < f a) xs"
  shows "set (takeWhile (\<lambda>x. (G :: int) < f x) xs) = {x \<in> set xs. G < f x}"
  using assms by (induction xs) (auto intro: less_trans)

text \<open>What visiting a node does to the map and to the flags.\<close>

lemma snap_item_fields:
  assumes "snap_item i (fl, s) = (fl', s')" "node i = Some np"
  shows "map_of (nodeInfoMap s') = (map_of (nodeInfoMap s))(knodeName np \<mapsto> i)"
    "distinct (map fst (nodeInfoMap s)) \<Longrightarrow> distinct (map fst (nodeInfoMap s'))"
    "nodeInfoList s' = nodeInfoList s" "havePodsWithAffinityNodeInfoList s' = havePodsWithAffinityNodeInfoList s"
    "havePodsWithRequiredAntiAffinityNodeInfoList s' = havePodsWithRequiredAntiAffinityNodeInfoList s" "sgeneration s' = sgeneration s"
    "updateAllLists fl' \<longleftrightarrow> updateAllLists fl \<or> knodeName np \<notin> dom (map_of (nodeInfoMap s))"
    "\<not> updateNodesHavePodsWithAffinity fl' \<Longrightarrow> \<not> updateNodesHavePodsWithAffinity fl \<and> withAffinity s' = withAffinity s"
    "\<not> updateNodesHavePodsWithRequiredAntiAffinity fl' \<Longrightarrow>
      \<not> updateNodesHavePodsWithRequiredAntiAffinity fl \<and> withRequiredAntiAffinity s' = withRequiredAntiAffinity s"
  using assms by (auto simp: snap_item_def Let_def update_conv' distinct_update domIff withAffinity_def withRequiredAntiAffinity_def fun_eq_iff split: if_splits)

definition copied :: "schedulerCache \<Rightarrow> string set \<Rightarrow> snapshot \<Rightarrow> snap_flags \<times> snapshot \<Rightarrow> bool" where
  "copied c Z s = (\<lambda>(fl', s').
     (\<forall>nm. map_of (nodeInfoMap s') nm = (if nm \<in> Z \<inter> present c then infos c nm else map_of (nodeInfoMap s) nm)) \<and>
     distinct (map fst (nodeInfoMap s')) \<and>
     nodeInfoList s' = nodeInfoList s \<and> havePodsWithAffinityNodeInfoList s' = havePodsWithAffinityNodeInfoList s \<and>
     havePodsWithRequiredAntiAffinityNodeInfoList s' = havePodsWithRequiredAntiAffinityNodeInfoList s \<and> sgeneration s' = sgeneration s \<and>
     (\<not> updateAllLists fl' \<longrightarrow> Z \<inter> present c \<subseteq> dom (map_of (nodeInfoMap s))) \<and>
     (\<not> updateNodesHavePodsWithAffinity fl' \<longrightarrow> withAffinity s' = withAffinity s) \<and>
     (\<not> updateNodesHavePodsWithRequiredAntiAffinity fl' \<longrightarrow> withRequiredAntiAffinity s' = withRequiredAntiAffinity s))"

lemma copied_cong: "Z \<inter> present c = Z' \<inter> present c \<Longrightarrow> copied c Z = copied c Z'"
  unfolding copied_def by simp

lemma copied_step:
  assumes "copied c Z s (fl, s1)" "infos c nm = Some i" "\<And>np. node i = Some np \<Longrightarrow> knodeName np = nm"
  shows "copied c (insert nm Z) s (snap_item i (fl, s1))"
proof (cases "node i")
  case None
  then have "insert nm Z \<inter> present c = Z \<inter> present c" using assms(2) by (auto simp: present_infos)
  then show ?thesis using assms(1) None by (simp add: copied_def snap_item_def)
next
  case (Some np)
  obtain fl' s' where e: "snap_item i (fl, s1) = (fl', s')" by force
  note f = snap_item_fields [OF e Some] and n = assms(3) [OF Some]
  have pr: "nm \<in> present c" using assms(2) Some by (auto simp: present_infos)
  have c: "\<forall>nm. map_of (nodeInfoMap s1) nm = (if nm \<in> Z \<inter> present c then infos c nm else map_of (nodeInfoMap s) nm)"
    using assms(1) by (simp add: copied_def)
  have "map_of (nodeInfoMap s') x = (if x \<in> insert nm Z \<inter> present c then infos c x else map_of (nodeInfoMap s) x)" for x
    using f(1) n assms(2) pr c by simp
  moreover have "insert nm Z \<inter> present c \<subseteq> dom (map_of (nodeInfoMap s))" if "\<not> updateAllLists fl'"
  proof -
    have a: "\<not> updateAllLists fl" "nm \<in> dom (map_of (nodeInfoMap s1))" using f(7) that n by simp_all
    then have z: "Z \<inter> present c \<subseteq> dom (map_of (nodeInfoMap s))" using assms(1) by (simp add: copied_def)
    have "nm \<in> dom (map_of (nodeInfoMap s))" using a(2) c [rule_format, of nm] z pr by (cases "nm \<in> Z") auto
    then show ?thesis using z by auto
  qed
  ultimately show ?thesis using assms(1) f(2-6,8,9) by (simp add: copied_def e)
qed

lemma copied_fold:
  assumes "copied c Z s st" "\<And>nm. nm \<in> set zs \<Longrightarrow> nm \<in> dom (infos c)"
    "\<And>nm np. nd_of (infos c) nm = Some np \<Longrightarrow> knodeName np = nm"
  shows "copied c (Z \<union> set zs) s (foldl (\<lambda>st i. snap_item i st) st (map (the \<circ> infos c) zs))"
  using assms(1,2)
proof (induction zs arbitrary: Z st)
  case (Cons z zs)
  obtain i where i: "infos c z = Some i" using Cons.prems(2) by auto
  have "copied c (insert z Z) s (snap_item i st)"
    using copied_step [of c Z s "fst st" "snd st" z i] Cons.prems(1) i assms(3) [of z] by (simp add: nd_of_def)
  then show ?case using Cons.IH [of "insert z Z" "snap_item i st"] Cons.prems(2) i by simp
qed simp

section \<open>Removal of nodes that are gone\<close>

lemma stale_loop_eq:
  assumes "distinct nms" "toDelete = int (length (filter (deleted c) nms))"
  shows "(\<forall>nm. map_of (nodeInfoMap (stale_loop c nms toDelete s)) nm =
      (if nm \<in> set nms \<and> deleted c nm then None else map_of (nodeInfoMap s) nm)) \<and>
    (distinct (map fst (nodeInfoMap s)) \<longrightarrow> distinct (map fst (nodeInfoMap (stale_loop c nms toDelete s)))) \<and>
    nodeInfoList (stale_loop c nms toDelete s) = nodeInfoList s \<and> sgeneration (stale_loop c nms toDelete s) = sgeneration s"
  using assms
proof (induction c nms toDelete s rule: stale_loop.induct)
  case (2 c nm nms toDelete s)
  show ?case
  proof (cases "toDelete \<le> 0")
    case True
    then have "filter (deleted c) (nm # nms) = []" using 2(4) by simp
    then have "\<forall>x\<in>set (nm # nms). \<not> deleted c x" by (simp only: filter_empty_conv)
    then show ?thesis using True by auto
  next
    case False
    then show ?thesis using 2 by (cases "deleted c nm") (auto simp: delete_conv' distinct_delete)
  qed
qed simp

section \<open>The update\<close>

lemma filter_not_present:
  assumes "distinct ks" "present c \<subseteq> set ks"
  shows "int (length (filter (deleted c) ks)) = int (length ks) - int (card (present c))"
proof -
  have "set (filter (\<lambda>k. \<not> deleted c k) ks) = present c" using assms(2) by (auto simp: deleted_present)
  then have "length (filter (\<lambda>k. \<not> deleted c k) ks) = card (present c)" using assms(1) by (metis distinct_card distinct_filter)
  then show ?thesis using sum_length_filter_compl [of "deleted c" ks] by simp
qed

text \<open>The map of a snapshot once the copies are made and the nodes that are gone are removed.\<close>

definition current :: "schedulerCache \<Rightarrow> snapshot \<Rightarrow> bool" where
  "current c s \<longleftrightarrow> (\<forall>nm. map_of (nodeInfoMap s) nm = (if nm \<in> present c then infos c nm else None)) \<and> distinct (map fst (nodeInfoMap s))"

lemma current_dom: "current c s \<Longrightarrow> dom (map_of (nodeInfoMap s)) = present c"
proof -
  assume c: "current c s"
  have "nm \<in> dom (map_of (nodeInfoMap s)) \<longleftrightarrow> nm \<in> present c" for nm
  proof (cases "nm \<in> present c")
    case True
    then show ?thesis using c by (auto simp: current_def present_infos domIff)
  next
    case False
    then have "map_of (nodeInfoMap s) nm = None" using c by (simp add: current_def)
    then show ?thesis using False by (simp add: domIff)
  qed
  then show ?thesis by blast
qed

lemma remove_deleted:
  assumes "distinct (map fst (nodeInfoMap s))" "\<And>nm. nm \<in> present c \<Longrightarrow> map_of (nodeInfoMap s) nm = infos c nm"
    "numNodes (cnodeTree c) = int (card (present c))" "\<And>ks. mset (visit ks) = mset ks"
    "mr = (int (length (nodeInfoMap s)) > numNodes (cnodeTree c))"
    "s' = (if mr then removeDeletedNodesFromSnapshot visit c s else s)"
  shows "current c s' \<and> nodeInfoList s' = nodeInfoList s \<and> sgeneration s' = sgeneration s"
proof -
  let ?ks = "map fst (nodeInfoMap s)"
  have sub: "present c \<subseteq> set ?ks"
  proof
    fix nm assume p: "nm \<in> present c"
    then obtain i where "map_of (nodeInfoMap s) nm = Some i" using assms(2) by (auto simp: present_infos)
    then show "nm \<in> set ?ks" by (metis domI dom_map_of_conv_image_fst set_map)
  qed
  show ?thesis
  proof (cases mr)
    case True
    have v: "distinct (visit ?ks)" "set (visit ?ks) = set ?ks" "length (visit ?ks) = length ?ks"
      using assms(1,4) mset_eq_imp_distinct_iff mset_eq_setD mset_eq_length by metis+
    have "int (length (nodeInfoMap s)) - numNodes (cnodeTree c) = int (length (filter (deleted c) (visit ?ks)))"
      using filter_not_present [OF v(1)] sub v(2,3) assms(3) by simp
    note d = stale_loop_eq [OF v(1) this, of s]
    have s': "s' = stale_loop c (visit ?ks) (int (length (nodeInfoMap s)) - numNodes (cnodeTree c)) s"
      using assms(6) True by (simp add: removeDeletedNodesFromSnapshot_def)
    have "map_of (nodeInfoMap s') nm = (if nm \<in> present c then infos c nm else None)" for nm
    proof (cases "nm \<in> present c")
      case False
      then show ?thesis using d v(2) s' by (simp add: deleted_present map_of_eq_None_iff)
    qed (use d s' assms(2) in \<open>simp add: deleted_present\<close>)
    then show ?thesis using d assms(1) s' by (simp add: current_def)
  next
    case False
    then have "card (set ?ks) \<le> card (present c)" using assms(1,3,5) by (simp add: distinct_card del: set_map)
    then have "set ?ks = present c" using sub by (metis List.finite_set card_seteq)
    then have "map_of (nodeInfoMap s) nm = None" if "nm \<notin> present c" for nm using that by (simp add: map_of_eq_None_iff del: set_map add: set_map [symmetric])
    then show ?thesis using False assms(1,2,6) by (simp add: current_def)
  qed
qed

lemma update_lists:
  assumes "core c" "current c s"
  shows "\<exists>s'. updateNodeInfoSnapshotList c True s = Ret s' \<and> snap_inv s' \<and> current c s' \<and> sgeneration s' = sgeneration s \<and>
    int (length (nodeInfoList s')) = numNodes (cnodeTree c)"
    "set (nodeInfoList s) = present c \<Longrightarrow> distinct (nodeInfoList s) \<Longrightarrow> \<exists>s'. updateNodeInfoSnapshotList c False s = Ret s' \<and> snap_inv s' \<and> current c s' \<and>
      sgeneration s' = sgeneration s \<and> int (length (nodeInfoList s')) = numNodes (cnodeTree c)"
proof -
  obtain ns where ns: "nt_list (cnodeTree c) = Ret (ns, None)" "int (length ns) = numNodes (cnodeTree c)"
    "distinct ns" "set ns = present c" "numNodes (cnodeTree c) = int (card (present c))" using present_listed [OF assms(1)] .
  let ?upd = "\<lambda>l. s\<lparr>nodeInfoList := l, havePodsWithAffinityNodeInfoList := filter (withAffinity s) l,
      havePodsWithRequiredAntiAffinityNodeInfoList := filter (withRequiredAntiAffinity s) l\<rparr>"
  have wa: "withAffinity (?upd l) = withAffinity s" "withRequiredAntiAffinity (?upd l) = withRequiredAntiAffinity s" for l
    by (simp_all add: withAffinity_def withRequiredAntiAffinity_def fun_eq_iff)
  have inv: "snap_inv (?upd l)" "current c (?upd l)" if "distinct l" "set l = present c" for l
    using that current_dom [OF assms(2)] assms(2) wa by (simp_all add: snap_inv_def current_def)
  have "filter (\<lambda>nm. map_of (nodeInfoMap s) nm \<noteq> None) ns = ns"
    using ns(4) current_dom [OF assms(2)] by (intro filter_True) auto
  then have "updateNodeInfoSnapshotList c True s = Ret (?upd ns)" using ns(1) by (simp add: updateNodeInfoSnapshotList_def)
  then show "\<exists>s'. updateNodeInfoSnapshotList c True s = Ret s' \<and> snap_inv s' \<and> current c s' \<and> sgeneration s' = sgeneration s \<and>
    int (length (nodeInfoList s')) = numNodes (cnodeTree c)" using inv [OF ns(3,4)] ns(2) by (intro exI [of _ "?upd ns"]) simp
  assume l: "set (nodeInfoList s) = present c" "distinct (nodeInfoList s)"
  have "length (nodeInfoList s) = card (present c)" using l by (metis distinct_card)
  then show "\<exists>s'. updateNodeInfoSnapshotList c False s = Ret s' \<and> snap_inv s' \<and> current c s' \<and>
      sgeneration s' = sgeneration s \<and> int (length (nodeInfoList s')) = numNodes (cnodeTree c)"
    using inv [OF l(2,1)] ns(5) by (simp add: updateNodeInfoSnapshotList_def)
qed

lemma walk_copies:
  assumes "core c" "snap_inv s" "synced c s"
  obtains fl s1 where "snap_loop c (sgeneration s) (headNode c) (fl0, s) = Some (fl, s1)"
    "copied c {nm. sgeneration s < gen_of (infos c) nm} s (fl, s1)" "\<And>nm. nm \<in> present c \<Longrightarrow> map_of (nodeInfoMap s1) nm = infos c nm"
proof -
  let ?G = "sgeneration s"
  obtain xs where l: "linked c xs" "ordered (infos c) (cgeneration c) xs" using assms(1) by (auto simp: core_def)
  let ?zs = "takeWhile (\<lambda>nm. ?G < gen_of (infos c) nm) xs"
  obtain fl s1 where f: "foldl (\<lambda>st i. snap_item i st) (fl0, s) (seen c ?G xs) = (fl, s1)" by force
  have loop: "snap_loop c ?G (headNode c) (fl0, s) = Some (fl, s1)"
    using snap_loop_eq [of c None xs ?G "(fl0, s)"] l(1) f by (simp add: linked_def)
  have zs: "set ?zs = {nm \<in> dom (infos c). ?G < gen_of (infos c) nm}"
    using takeWhile_ordered [of "gen_of (infos c)" xs ?G] l by (simp add: ordered_def linked_def)
  have "copied c {} s (fl0, s)" using assms(2) by (simp add: copied_def snap_inv_def)
  moreover have "\<And>nm np. nd_of (infos c) nm = Some np \<Longrightarrow> knodeName np = nm" using assms(1) by (simp add: core_def treed_def)
  ultimately have "copied c ({} \<union> set ?zs) s (fl, s1)" using copied_fold [of c "{}" s "(fl0, s)" ?zs] zs f by (auto simp: seen_def)
  moreover have "({} \<union> set ?zs) \<inter> present c = {nm. ?G < gen_of (infos c) nm} \<inter> present c" using zs by (auto simp: present_infos)
  ultimately have cp: "copied c {nm. ?G < gen_of (infos c) nm} s (fl, s1)" using copied_cong by metis
  have "map_of (nodeInfoMap s1) nm = infos c nm" if p: "nm \<in> present c" for nm
  proof -
    obtain i where i: "infos c nm = Some i" "node i \<noteq> None" using p by (auto simp: present_infos)
    have "map_of (nodeInfoMap s1) nm = (if nm \<in> {nm. ?G < gen_of (infos c) nm} \<inter> present c then infos c nm else map_of (nodeInfoMap s) nm)"
      using cp by (simp add: copied_def)
    then show ?thesis using assms(3) i p by (auto simp: synced_def gen_of_def)
  qed
  then show ?thesis using that loop cp by blast
qed

lemma lists_kept:
  assumes "snap_inv s" "copied c Z s (fl, s1)" "current c s3" "nodeInfoList s3 = nodeInfoList s1" "nodeInfoMap s3 = nodeInfoMap s1"
    "\<not> updateAllLists fl"
  shows "set (nodeInfoList s3) = present c" "distinct (nodeInfoList s3)"
proof -
  have d: "dom (map_of (nodeInfoMap s1)) = present c" using current_dom [OF assms(3)] assms(5) by simp
  have m: "map_of (nodeInfoMap s1) nm = (if nm \<in> Z \<inter> present c then infos c nm else map_of (nodeInfoMap s) nm)" for nm
    using assms(2) by (simp add: copied_def)
  have z: "Z \<inter> present c \<subseteq> dom (map_of (nodeInfoMap s))" using assms(2,6) by (simp add: copied_def)
  have "nm \<in> dom (map_of (nodeInfoMap s)) \<longleftrightarrow> nm \<in> dom (map_of (nodeInfoMap s1))" for nm
  proof (cases "nm \<in> Z \<inter> present c")
    case True
    then show ?thesis using z d by auto
  next
    case False
    then have "map_of (nodeInfoMap s1) nm = map_of (nodeInfoMap s) nm" using m [of nm] by (simp only: if_not_P if_False)
    then show ?thesis by (simp add: domIff)
  qed
  then have "dom (map_of (nodeInfoMap s)) = present c" using d by blast
  then show "set (nodeInfoList s3) = present c" "distinct (nodeInfoList s3)"
    using assms(1,2,4) by (simp_all add: snap_inv_def copied_def)
qed

text \<open>The lists are made again or, if nothing they depend on has changed, kept.\<close>

lemma lists_current:
  assumes "core c" "snap_inv s" "copied c Z s (fl, s1)" "current c s3"
    "nodeInfoMap s2 = nodeInfoMap s1" "nodeInfoList s2 = nodeInfoList s1"
    "havePodsWithAffinityNodeInfoList s2 = havePodsWithAffinityNodeInfoList s1"
    "havePodsWithRequiredAntiAffinityNodeInfoList s2 = havePodsWithRequiredAntiAffinityNodeInfoList s1" "\<not> mr \<Longrightarrow> s3 = s2"
  shows "\<exists>s'. (if (updateAllLists fl \<or> mr) \<or> updateNodesHavePodsWithAffinity fl \<or> updateNodesHavePodsWithRequiredAntiAffinity fl
      then updateNodeInfoSnapshotList c (updateAllLists fl \<or> mr) s3 else Ret s3) = Ret s' \<and> snap_inv s' \<and> current c s' \<and>
    sgeneration s' = sgeneration s3 \<and> int (length (nodeInfoList s')) = numNodes (cnodeTree c)"
proof (cases "updateAllLists fl \<or> mr")
  case True
  then show ?thesis using update_lists(1) [OF assms(1,4)] by simp
next
  case False
  then have s3: "s3 = s2" using assms(9) by simp
  have l: "set (nodeInfoList s3) = present c" "distinct (nodeInfoList s3)"
    using lists_kept [OF assms(2-4)] False assms(5,6) s3 by simp_all
  have n: "numNodes (cnodeTree c) = int (card (present c))" using present_listed [OF assms(1)] by metis
  show ?thesis
  proof (cases "updateNodesHavePodsWithAffinity fl \<or> updateNodesHavePodsWithRequiredAntiAffinity fl")
    case True
    then show ?thesis using update_lists(2) [OF assms(1,4) l] False by simp
  next
    case same: False
    have "withAffinity s3 = withAffinity s" "withRequiredAntiAffinity s3 = withRequiredAntiAffinity s"
      using assms(3) same with_cong [OF assms(5)] unfolding s3 by (simp_all add: copied_def)
    moreover have "length (nodeInfoList s3) = card (present c)" using l by (metis distinct_card)
    ultimately show ?thesis using assms(2-4) l False same s3 assms(5-8) n current_dom [OF assms(4)]
      by (simp add: snap_inv_def copied_def current_def)
  qed
qed

lemma UpdateSnapshot_current:
  assumes "core c" "snap_inv s" "synced c s" "\<And>ks. mset (visit ks) = mset ks"
  shows "\<exists>s'. UpdateSnapshot visit c s = Ret (None, s') \<and> snap_inv s' \<and> current c s' \<and> synced c s'"
proof -
  let ?fl0 = "\<lparr>updateAllLists = False, updateNodesHavePodsWithAffinity = False, updateNodesHavePodsWithRequiredAntiAffinity = False\<rparr>"
  let ?Z = "{nm. sgeneration s < gen_of (infos c) nm}"
  obtain fl s1 where w: "snap_loop c (sgeneration s) (headNode c) (?fl0, s) = Some (fl, s1)" "copied c ?Z s (fl, s1)"
    "\<And>nm. nm \<in> present c \<Longrightarrow> map_of (nodeInfoMap s1) nm = infos c nm" using walk_copies [OF assms(1-3)] by metis
  define s2 where "s2 = (case headNode c of None \<Rightarrow> s1
     | Some nm \<Rightarrow> (case map_of (nodes c) nm of None \<Rightarrow> s1 | Some it \<Rightarrow> s1\<lparr>sgeneration := Generation (info it)\<rparr>))"
  define mr where "mr = (int (length (nodeInfoMap s2)) > numNodes (cnodeTree c))"
  define s3 where "s3 = (if mr then removeDeletedNodesFromSnapshot visit c s2 else s2)"
  have e2: "nodeInfoMap s2 = nodeInfoMap s1" "nodeInfoList s2 = nodeInfoList s1"
    "havePodsWithAffinityNodeInfoList s2 = havePodsWithAffinityNodeInfoList s1"
    "havePodsWithRequiredAntiAffinityNodeInfoList s2 = havePodsWithRequiredAntiAffinityNodeInfoList s1"
    by (simp_all add: s2_def split: option.splits)
  have g: "Generation (info it) \<le> cgeneration c" if "map_of (nodes c) nm = Some it" for nm it
  proof -
    have "infos c nm = Some (info it)" using that by (simp add: infos_def)
    then show ?thesis using assms(1) by (auto simp: core_def ordered_def)
  qed
  have "sgeneration s1 \<le> cgeneration c" using assms(3) w(2) by (simp add: copied_def synced_def)
  then have g2: "sgeneration s2 \<le> cgeneration c" using g by (simp add: s2_def split: option.splits)
  have n: "numNodes (cnodeTree c) = int (card (present c))" using present_listed [OF assms(1)] by metis
  have c1: "distinct (map fst (nodeInfoMap s2))" "\<And>nm. nm \<in> present c \<Longrightarrow> map_of (nodeInfoMap s2) nm = infos c nm"
    using w(2,3) by (simp_all add: e2 copied_def)
  have c3: "current c s3" "nodeInfoList s3 = nodeInfoList s2" "sgeneration s3 = sgeneration s2"
    using remove_deleted [OF c1 n assms(4) mr_def s3_def] by auto
  let ?all = "updateAllLists fl \<or> mr"
  let ?upd = "if ?all \<or> updateNodesHavePodsWithAffinity fl \<or> updateNodesHavePodsWithRequiredAntiAffinity fl
     then updateNodeInfoSnapshotList c ?all s3 else Ret s3"
  have "\<not> mr \<Longrightarrow> s3 = s2" by (simp add: s3_def)
  then have u: "\<exists>s'. ?upd = Ret s' \<and> snap_inv s' \<and> current c s' \<and> sgeneration s' = sgeneration s3 \<and> int (length (nodeInfoList s')) = numNodes (cnodeTree c)"
    using lists_current [OF assms(1,2) w(2) c3(1) e2] by blast
  obtain s' where s': "?upd = Ret s'" "snap_inv s'" "current c s'" "sgeneration s' = sgeneration s3" "int (length (nodeInfoList s')) = numNodes (cnodeTree c)"
    using u by blast
  have "UpdateSnapshot visit c s = Ret (None, s')"
    using w(1) s'(1,5) unfolding UpdateSnapshot_def s3_def mr_def s2_def by (simp add: Let_def)
  moreover have "synced c s'" using s'(3,4) c3(3) g2 by (auto simp: synced_def current_def present_infos)
  ultimately show ?thesis using s'(2,3) by blast
qed

section \<open>Reachable caches and snapshots\<close>

inductive cache_reach :: "gates \<Rightarrow> schedulerCache \<Rightarrow> snapshot \<Rightarrow> bool" for g where
  init: "0 \<le> gen \<Longrightarrow> cache_reach g (newSchedulerCache d gen) NewEmptySnapshot"
| op: "cache_reach g c s \<Longrightarrow> allowed op c \<Longrightarrow> room c \<Longrightarrow> cache_exec g op c = Ret c' \<Longrightarrow> cache_reach g c' s"
| snap: "cache_reach g c s \<Longrightarrow> (\<And>ks. mset (visit ks) = mset ks) \<Longrightarrow> UpdateSnapshot visit c s = Ret (e, s') \<Longrightarrow> cache_reach g c s'"

lemma empty_cache_inv: "0 \<le> gen \<Longrightarrow> cache_inv (newSchedulerCache d gen)"
proof -
  assume g: "0 \<le> gen"
  let ?c = "newSchedulerCache d gen"
  have i: "infos ?c = (\<lambda>_. None)" by (simp add: newSchedulerCache_def infos_def fun_eq_iff)
  have "linked ?c []" "ordered (infos ?c) (cgeneration ?c) []" by (simp_all add: linked_def ordered_def i) (simp add: newSchedulerCache_def)
  moreover have "treed (infos ?c) (cnodeTree ?c)"
  proof -
    have "cnodeTree ?c = newNodeTree []" by (simp add: newSchedulerCache_def)
    then show ?thesis using new_tree_ok by (simp add: treed_def i nd_of_def zoned_def)
  qed
  ultimately have "core ?c" unfolding core_def by blast
  moreover have "pods_at (infos ?c) = (\<lambda>_. [])" by (simp add: i pods_at_def fun_eq_iff)
  ultimately show ?thesis using g by (simp add: cache_inv_def placed_def assumed_ok_def) (simp add: newSchedulerCache_def placed_def)
qed

lemma reach_inv:
  assumes "cache_reach g c s" shows "cache_inv c \<and> snap_inv s \<and> synced c s"
  using assms
proof (induction rule: cache_reach.induct)
  case (init gen d)
  have "infos (newSchedulerCache d gen) = (\<lambda>_. None)" by (simp add: newSchedulerCache_def infos_def fun_eq_iff)
  then show ?case using empty_cache_inv [OF init] init by (simp add: snap_inv_def synced_def NewEmptySnapshot_def) (simp add: newSchedulerCache_def)
next
  case (op c s op c')
  then obtain d where "cache_exec g op c = Ret d" "keeps c d" using cache_exec_ok by blast
  then show ?case using op synced_advances by (auto simp: keeps_def)
next
  case (snap c s visit e s')
  then have "core c" by (simp add: cache_inv_def)
  then show ?case using UpdateSnapshot_current [of c s visit] snap by fastforce
qed

section \<open>Properties\<close>

text \<open>
  C24: The cache and a snapshot start empty, and then operations of the cache and updates of the
  snapshot happen in any order. The next update reports no inconsistency, whatever the order in which
  the map is visited, and afterwards the snapshot maps exactly the nodes that are present (not those
  that are gone but still have pods) to their information in the cache. Its list has each of these
  nodes once, and its lists of nodes with pods that have affinity or required anti-affinity are the
  nodes of that list that have such pods, in the same order.
\<close>

theorem snapshot_is_current:
  assumes "cache_reach g c s" "\<And>ks. mset (visit ks) = mset ks"
  shows "\<exists>s'. UpdateSnapshot visit c s = Ret (None, s') \<and>
    (\<forall>nm. map_of (nodeInfoMap s') nm = (case map_of (nodes c) nm of None \<Rightarrow> None
       | Some it \<Rightarrow> if node (info it) = None then None else Some (info it))) \<and>
    distinct (nodeInfoList s') \<and> set (nodeInfoList s') = {nm. \<exists>it. map_of (nodes c) nm = Some it \<and> node (info it) \<noteq> None} \<and>
    HavePodsWithAffinityList s' = filter (\<lambda>ni. PodsWithAffinity ni \<noteq> []) (snap_List s') \<and>
    HavePodsWithRequiredAntiAffinityList s' = filter (\<lambda>ni. PodsWithRequiredAntiAffinity ni \<noteq> []) (snap_List s')"
proof -
  have i: "cache_inv c" "snap_inv s" "synced c s" using reach_inv [OF assms(1)] by simp_all
  obtain s' where s': "UpdateSnapshot visit c s = Ret (None, s')" "snap_inv s'" "current c s'"
    using UpdateSnapshot_current [OF cache_invD(1) [OF i(1)] i(2,3) assms(2)] by blast
  have m: "map_of (nodeInfoMap s') nm = (case map_of (nodes c) nm of None \<Rightarrow> None
       | Some it \<Rightarrow> if node (info it) = None then None else Some (info it))" for nm
  proof -
    have "map_of (nodeInfoMap s') nm = (if nm \<in> present c then infos c nm else None)" using s'(3) by (simp add: current_def)
    then show ?thesis by (cases "map_of (nodes c) nm") (simp_all add: present_infos infos_def)
  qed
  have "set (nodeInfoList s') = present c" using s'(2) current_dom [OF s'(3)] by (simp add: snap_inv_def)
  moreover have "nm \<in> present c \<longleftrightarrow> (\<exists>it. map_of (nodes c) nm = Some it \<and> node (info it) \<noteq> None)" for nm
    by (cases "map_of (nodes c) nm") (simp_all add: present_infos infos_def)
  ultimately have l: "set (nodeInfoList s') = {nm. \<exists>it. map_of (nodes c) nm = Some it \<and> node (info it) \<noteq> None}" by blast
  have r: "read_list s' (filter (\<lambda>nm. case map_of (nodeInfoMap s') nm of None \<Rightarrow> False | Some ni \<Rightarrow> P ni) ns) = filter P (read_list s' ns)" for P ns
    by (induction ns) (simp_all add: read_list_def map_filter_simps split: option.split)
  have "HavePodsWithAffinityList s' = filter (\<lambda>ni. PodsWithAffinity ni \<noteq> []) (snap_List s')"
    "HavePodsWithRequiredAntiAffinityList s' = filter (\<lambda>ni. PodsWithRequiredAntiAffinity ni \<noteq> []) (snap_List s')"
    using s'(2) r by (simp_all add: snap_inv_def HavePodsWithAffinityList_def HavePodsWithRequiredAntiAffinityList_def snap_List_def
      withAffinity_def [abs_def] withRequiredAntiAffinity_def [abs_def])
  moreover have "distinct (nodeInfoList s')" using s'(2) by (simp add: snap_inv_def)
  ultimately show ?thesis using s'(1) m l by blast
qed

text \<open>Sequences of operations that keep to the order of events, run on a cache.\<close>

fun cache_run :: "gates \<Rightarrow> cache_op list \<Rightarrow> schedulerCache \<Rightarrow> schedulerCache go" where
  "cache_run g [] c = Ret c"
| "cache_run g (op # ops) c = go_bind (cache_exec g op c) (cache_run g ops)"

fun legal :: "gates \<Rightarrow> cache_op list \<Rightarrow> schedulerCache \<Rightarrow> bool" where
  "legal g [] c = True"
| "legal g (op # ops) c = (allowed op c \<and> room c \<and> (case cache_exec g op c of Ret c' \<Rightarrow> legal g ops c' | _ \<Rightarrow> False))"

lemma reach_run:
  "cache_reach g c s \<Longrightarrow> legal g ops c \<Longrightarrow> \<exists>c'. cache_run g ops c = Ret c' \<and> cache_reach g c' s"
  by (induction g ops c rule: cache_run.induct) (auto split: go.splits intro: cache_reach.op)

definition ex_gates :: gates where
  "ex_gates = \<lparr>IsScalarResourceName = (\<lambda>_. False), LocalStorage = True, PodOverhead = True\<rparr>"

definition ex_kpod :: "string \<Rightarrow> string \<Rightarrow> kpod" where
  "ex_kpod u nm = \<lparr>kName = u, kNamespace = ''d'', UID = u, ResourceVersion = [], specNodeName = nm, Containers = [], InitContainers = [], Overhead = None,
     Affinity = Some \<lparr>PodAffinity = Some \<lparr>RequiredTerms = [], PreferredTerms = []\<rparr>, PodAntiAffinity = None\<rparr>, claims = [], Priority = None, NominatedNodeName = [], SchedulerName = [], deleting = False, Annotations = [], Tolerations = [], podLabels = [], StartTime = None, PreemptionPolicy = None\<rparr>"

definition ex_knode :: "string \<Rightarrow> knode" where
  "ex_knode nm = \<lparr>knodeName = nm, nodeLabels = [], nodeAllocatable = [], nodeImages = [], specUnschedulable = False, Taints = [], nodeConditions = []\<rparr>"

definition ex_ops :: "cache_op list" where
  "ex_ops = [OAddNode (ex_knode ''a''), OAddNode (ex_knode ''b''), OAssume (ex_kpod ''p'' ''a''), OAssume (ex_kpod ''q'' ''b''),
     OAddPod (ex_kpod ''q'' ''b''), ORemoveNode (ex_knode ''b'')]"

lemmas ex_cache_defs = ex_gates_def ex_kpod_def ex_knode_def ex_ops_def

lemma ex_legal: "legal ex_gates ex_ops (newSchedulerCache 30 0)"
  by code_simp

theorem snapshot_is_current_witness:
  "\<exists>c s'. cache_run ex_gates ex_ops (newSchedulerCache 30 0) = Ret c \<and> map fst (nodes c) = [''a'', ''b''] \<and>
     UpdateSnapshot id c NewEmptySnapshot = Ret (None, s') \<and> set (nodeInfoList s') = {''a''}"
proof -
  have "cache_reach ex_gates (newSchedulerCache 30 0) NewEmptySnapshot" by (rule cache_reach.init) simp
  then obtain c where c: "cache_run ex_gates ex_ops (newSchedulerCache 30 0) = Ret c" "cache_reach ex_gates c NewEmptySnapshot"
    using reach_run ex_legal by blast
  have "(case cache_run ex_gates ex_ops (newSchedulerCache 30 0) of Ret c \<Rightarrow> map (\<lambda>(nm, it). (nm, node (info it) = None)) (nodes c) | _ \<Rightarrow> [])
      = [(''a'', False), (''b'', True)]" by code_simp
  then have n: "map (\<lambda>(nm, it). (nm, node (info it) = None)) (nodes c) = [(''a'', False), (''b'', True)]" using c(1) by simp
  then obtain x y where xy: "nodes c = [(''a'', x), (''b'', y)]" "node (info x) \<noteq> None" "node (info y) = None" by auto
  then have "{nm. \<exists>it. map_of (nodes c) nm = Some it \<and> node (info it) \<noteq> None} = {''a''}" by (auto split: if_splits)
  moreover obtain s' where "UpdateSnapshot id c NewEmptySnapshot = Ret (None, s')"
      "set (nodeInfoList s') = {nm. \<exists>it. map_of (nodes c) nm = Some it \<and> node (info it) \<noteq> None}"
    using snapshot_is_current [OF c(2), of id] by auto
  ultimately show ?thesis using c(1) xy(1) by simp
qed

text \<open>
  C25: In every reachable cache a pod with a state is on the node its specification names and nowhere
  else, every pod on a node has a state, no node has two pods with the same key, and the assumed pods
  are among the pods with a state. Every operation whose event fits the state of the cache returns:
  it neither ends the process nor dereferences a nil pointer, also on nodes that are gone.
\<close>

theorem cache_tracks_pods:
  assumes "cache_reach g c s"
  shows "(\<forall>nm. (case map_of (nodes c) nm of None \<Rightarrow> {} | Some it \<Rightarrow> UID ` set (Pods (info it))) =
       {key. \<exists>ps. map_of (podStates c) key = Some ps \<and> UID (ps_pod ps) = key \<and> specNodeName (ps_pod ps) = nm}) \<and>
     (\<forall>nm it. map_of (nodes c) nm = Some it \<longrightarrow> distinct (map UID (Pods (info it)))) \<and>
     set (assumedPods c) \<subseteq> dom (map_of (podStates c)) \<and>
     (\<forall>op. allowed op c \<and> room c \<longrightarrow> (\<exists>c'. cache_exec g op c = Ret c'))"
proof -
  have i: "cache_inv c" using reach_inv [OF assms] by simp
  have p: "placed (pods_at (infos c)) (map_of (podStates c))" by (rule cache_invD(3) [OF i])
  have at: "pods_at (infos c) nm = (case map_of (nodes c) nm of None \<Rightarrow> [] | Some it \<Rightarrow> Pods (info it))" for nm
    by (simp add: pods_at_def infos_def split: option.splits)
  have "(case map_of (nodes c) nm of None \<Rightarrow> {} | Some it \<Rightarrow> UID ` set (Pods (info it))) =
       {key. \<exists>ps. map_of (podStates c) key = Some ps \<and> UID (ps_pod ps) = key \<and> specNodeName (ps_pod ps) = nm}" for nm
  proof -
    have "UID ` set (pods_at (infos c) nm) = {key. \<exists>ps. map_of (podStates c) key = Some ps \<and> specNodeName (ps_pod ps) = nm}"
      using p by (simp add: placed_def)
    also have "\<dots> = {key. \<exists>ps. map_of (podStates c) key = Some ps \<and> UID (ps_pod ps) = key \<and> specNodeName (ps_pod ps) = nm}"
      using state_uid [OF i] by blast
    finally show ?thesis by (cases "map_of (nodes c) nm") (simp_all add: at)
  qed
  moreover have "distinct (map UID (Pods (info it)))" if "map_of (nodes c) nm = Some it" for nm it
  proof -
    have "distinct (map UID (pods_at (infos c) nm))" using p by (simp add: placed_def)
    then show ?thesis using that by (simp add: at)
  qed
  moreover have "set (assumedPods c) \<subseteq> dom (map_of (podStates c))" using cache_invD(4) [OF i] by (auto simp: assumed_ok_def)
  ultimately show ?thesis using cache_exec_ok [OF i] by blast
qed

theorem cache_tracks_pods_witness:
  "\<exists>c c'. cache_run ex_gates ex_ops (newSchedulerCache 30 0) = Ret c \<and> set (assumedPods c) \<subseteq> dom (map_of (podStates c)) \<and>
     cache_exec ex_gates (ORemovePod (ex_kpod ''q'' ''b'')) c = Ret c'"
proof -
  have "cache_reach ex_gates (newSchedulerCache 30 0) NewEmptySnapshot" by (rule cache_reach.init) simp
  then obtain c where c: "cache_run ex_gates ex_ops (newSchedulerCache 30 0) = Ret c" "cache_reach ex_gates c NewEmptySnapshot"
    using reach_run ex_legal by blast
  have "(case cache_run ex_gates ex_ops (newSchedulerCache 30 0) of Ret c \<Rightarrow> allowed (ORemovePod (ex_kpod ''q'' ''b'')) c \<and> room c | _ \<Rightarrow> False)"
    by code_simp
  then have "allowed (ORemovePod (ex_kpod ''q'' ''b'')) c" "room c" using c(1) by simp_all
  then show ?thesis using cache_tracks_pods [OF c(2)] c(1) by blast
qed

end
