(* ===== verification/Node_Fit.thy ===== *)
theory Node_Fit
  imports Fw_Runtime Go_Strings
begin

text \<open>
  The filters of the default profile that look at one node only
  (\<open>pkg/scheduler/framework/plugins\<close>: \<open>noderesources/fit.go\<close>, \<open>nodename\<close>, \<open>nodeports\<close>,
  \<open>tainttoleration\<close>, \<open>nodeunschedulable\<close>). The filter for resources takes the bandwidth of the real-time
  pods of the node into account, which they carry as an annotation.
\<close>

section \<open>Resources\<close>

text \<open>What a pod requests; the feature gate is one of the gates.\<close>

definition computePodResourceRequest :: "gates \<Rightarrow> kpod \<Rightarrow> resource" where
  "computePodResourceRequest g pod =
     (let r1 = foldl (\<lambda>r c. Add g r (Requests c)) zero_resource (Containers pod);
          r2 = foldl (\<lambda>r c. SetMaxResource g r (Requests c)) r1 (InitContainers pod)
      in case Overhead pod of Some ov \<Rightarrow> if PodOverhead g then Add g r2 ov else r2 | None \<Rightarrow> r2)"

record insufficientResource =
  ResourceName :: string
  Reason :: string
  irRequested :: int
  irUsed :: int
  irCapacity :: int

text \<open>The errors of \<open>Atoi\<close> are ignored: its value is zero for no number, and clamped for one out of range.\<close>

definition RTmilliCPU :: "nodeInfo \<Rightarrow> int" where
  "RTmilliCPU ni =
     (let sum = foldl (\<lambda>sum p. case map_of (Annotations p) ''RTbandwidth'' of None \<Rightarrow> sum
                  | Some v \<Rightarrow> wrap64 (sum + fst (atoi v))) 0 (Pods ni)
      in wrap64 (sum * 10))"

fun prefix_of :: "string \<Rightarrow> string" where
  "prefix_of [] = []"
| "prefix_of (c # cs) = (if c = CHR ''/'' then [] else c # prefix_of cs)"

text \<open>
  The scalar resources are visited in the order \<open>visit\<close> of the map. Which names belong to extended
  resources is decided by a helper of the API, here an argument.
\<close>

definition scalar_ignored :: "(string \<Rightarrow> bool) \<Rightarrow> string list \<Rightarrow> string list \<Rightarrow> string \<Rightarrow> bool" where
  "scalar_ignored isExtended ignored groups rName \<longleftrightarrow> isExtended rName \<and>
     (rName \<in> set ignored \<or> (if groups = [] then [] else prefix_of rName) \<in> set groups)"

definition fitsRequest :: "(string \<Rightarrow> bool) \<Rightarrow> ((string \<times> int) list \<Rightarrow> (string \<times> int) list) \<Rightarrow> resource \<Rightarrow> nodeInfo \<Rightarrow>
    string list \<Rightarrow> string list \<Rightarrow> insufficientResource list" where
  "fitsRequest isExtended visit podRequest ni ignored groups =
     (let alloc = Allocatable ni; req = Requested ni;
          pods = (if int (length (Pods ni)) + 1 > AllowedPodNumber alloc
                  then [\<lparr>ResourceName = ''pods'', Reason = ''Too many pods'', irRequested = 1, irUsed = int (length (Pods ni)),
                         irCapacity = AllowedPodNumber alloc\<rparr>] else [])
      in if MilliCPU podRequest = 0 \<and> Memory podRequest = 0 \<and> EphemeralStorage podRequest = 0 \<and> ScalarResources podRequest = [] then pods
         else pods @
           (if MilliCPU podRequest > wrap64 (wrap64 (MilliCPU alloc - MilliCPU req) - RTmilliCPU ni)
            then [\<lparr>ResourceName = ''cpu'', Reason = ''Insufficient cpu'', irRequested = MilliCPU podRequest, irUsed = MilliCPU req,
                   irCapacity = MilliCPU alloc\<rparr>] else []) @
           (if Memory podRequest > wrap64 (Memory alloc - Memory req)
            then [\<lparr>ResourceName = ''memory'', Reason = ''Insufficient memory'', irRequested = Memory podRequest, irUsed = Memory req,
                   irCapacity = Memory alloc\<rparr>] else []) @
           (if EphemeralStorage podRequest > wrap64 (EphemeralStorage alloc - EphemeralStorage req)
            then [\<lparr>ResourceName = ''ephemeral-storage'', Reason = ''Insufficient ephemeral-storage'', irRequested = EphemeralStorage podRequest,
                   irUsed = EphemeralStorage req, irCapacity = EphemeralStorage alloc\<rparr>] else []) @
           map (\<lambda>(rName, rQuant). \<lparr>ResourceName = rName, Reason = ''Insufficient '' @ rName, irRequested = scalar podRequest rName,
                 irUsed = scalar req rName, irCapacity = scalar alloc rName\<rparr>)
             (filter (\<lambda>(rName, rQuant). \<not> scalar_ignored isExtended ignored groups rName \<and> rQuant > wrap64 (scalar alloc rName - scalar req rName))
               (visit (ScalarResources podRequest))))"

definition resources_Fits :: "(string \<Rightarrow> bool) \<Rightarrow> ((string \<times> int) list \<Rightarrow> (string \<times> int) list) \<Rightarrow> gates \<Rightarrow> kpod \<Rightarrow> nodeInfo \<Rightarrow> insufficientResource list" where
  "resources_Fits isExtended visit g pod ni = fitsRequest isExtended visit (computePodResourceRequest g pod) ni [] []"

text \<open>The plugin keeps the request in the cycle state between \<open>PreFilter\<close> and \<open>Filter\<close>.\<close>

record fitPlugin =
  ignoredResources :: "string list"
  ignoredResourceGroups :: "string list"

definition Fit_PreFilter :: "gates \<Rightarrow> kpod \<Rightarrow> resource option \<Rightarrow> statusp \<times> resource option" where
  "Fit_PreFilter g pod state = (None, Some (computePodResourceRequest g pod))"

definition Fit_Filter :: "(string \<Rightarrow> bool) \<Rightarrow> ((string \<times> int) list \<Rightarrow> (string \<times> int) list) \<Rightarrow> fitPlugin \<Rightarrow> resource option \<Rightarrow> nodeInfo \<Rightarrow> statusp" where
  "Fit_Filter isExtended visit f state ni = (case state of
       None \<Rightarrow> AsStatus (''error reading '' @ quoted_name ''PreFilterNodeResourcesFit'' @ '' from cycleState: not found'')
     | Some s \<Rightarrow> (let ins = fitsRequest isExtended visit s ni (ignoredResources f) (ignoredResourceGroups f)
                  in if ins \<noteq> [] then NewStatus Unschedulable (map Reason ins) else None))"

section \<open>Name of the node\<close>

text \<open>The node is read without a check when the pod asks for a node.\<close>

definition nodename_Fits :: "kpod \<Rightarrow> nodeInfo \<Rightarrow> bool go" where
  "nodename_Fits pod ni = (if specNodeName pod = [] then Ret True
     else case node ni of None \<Rightarrow> Panic NilDereference | Some nd \<Rightarrow> Ret (specNodeName pod = knodeName nd))"

definition NodeName_Filter :: "kpod \<Rightarrow> nodeInfo \<Rightarrow> statusp go" where
  "NodeName_Filter pod ni = (if node ni = None then Ret (NewStatus ErrorCode [''node not found''])
     else go_bind (nodename_Fits pod ni) (\<lambda>ok.
       Ret (if ok then None else NewStatus UnschedulableAndUnresolvable [''node(s) didn't match the requested node name''])))"

section \<open>Host ports\<close>

definition getContainerPorts :: "kpod list \<Rightarrow> containerPort list" where
  "getContainerPorts pods = concat (map (\<lambda>pod. concat (map Ports (Containers pod))) pods)"

definition fitsPorts :: "containerPort list \<Rightarrow> nodeInfo \<Rightarrow> bool" where
  "fitsPorts wantPorts ni = list_all (\<lambda>cp. \<not> CheckConflict (UsedPorts ni) (HostIP cp) (Protocol cp) (HostPort cp)) wantPorts"

definition nodeports_Fits :: "kpod \<Rightarrow> nodeInfo \<Rightarrow> bool" where
  "nodeports_Fits pod ni = fitsPorts (getContainerPorts [pod]) ni"

definition NodePorts_Filter :: "containerPort list option \<Rightarrow> nodeInfo \<Rightarrow> statusp" where
  "NodePorts_Filter state ni = (case state of
       None \<Rightarrow> AsStatus (''reading '' @ quoted_name ''PreFilterNodePorts'' @ '' from cycleState: not found'')
     | Some wantPorts \<Rightarrow> (if fitsPorts wantPorts ni then None
         else NewStatus Unschedulable [''node(s) didn't have free ports for the requested pod ports'']))"

section \<open>Taints\<close>

definition ToleratesTaint :: "toleration \<Rightarrow> taint \<Rightarrow> bool" where
  "ToleratesTaint t taint =
     (if tolEffect t \<noteq> [] \<and> tolEffect t \<noteq> taintEffect taint then False
      else if tolKey t \<noteq> [] \<and> tolKey t \<noteq> taintKey taint then False
      else if tolOperator t = [] \<or> tolOperator t = ''Equal'' then tolValue t = taintValue taint
      else tolOperator t = ''Exists'')"

definition TolerationsTolerateTaint :: "toleration list \<Rightarrow> taint \<Rightarrow> bool" where
  "TolerationsTolerateTaint tolerations taint = list_ex (\<lambda>t. ToleratesTaint t taint) tolerations"

definition getFilteredTaints :: "taint list \<Rightarrow> (taint \<Rightarrow> bool) \<Rightarrow> taint list" where
  "getFilteredTaints taints inclusionFilter = filter inclusionFilter taints"

definition FindMatchingUntoleratedTaint :: "taint list \<Rightarrow> toleration list \<Rightarrow> (taint \<Rightarrow> bool) \<Rightarrow> taint option" where
  "FindMatchingUntoleratedTaint taints tolerations inclusionFilter =
     find (\<lambda>t. \<not> TolerationsTolerateTaint tolerations t) (getFilteredTaints taints inclusionFilter)"

definition no_schedule :: "taint \<Rightarrow> bool" where
  "no_schedule t \<longleftrightarrow> taintEffect t = ''NoSchedule'' \<or> taintEffect t = ''NoExecute''"

definition TaintToleration_Filter :: "kpod \<Rightarrow> nodeInfo \<Rightarrow> statusp" where
  "TaintToleration_Filter pod ni = (case node ni of None \<Rightarrow> AsStatus ''invalid nodeInfo''
     | Some nd \<Rightarrow> (case FindMatchingUntoleratedTaint (Taints nd) (Tolerations pod) no_schedule of None \<Rightarrow> None
         | Some t \<Rightarrow> NewStatus UnschedulableAndUnresolvable [''node(s) had taint {'' @ taintKey t @ '': '' @ taintValue t @ ''}, that the pod didn't tolerate'']))"

definition getAllTolerationPreferNoSchedule :: "toleration list \<Rightarrow> toleration list" where
  "getAllTolerationPreferNoSchedule tolerations = filter (\<lambda>t. tolEffect t = [] \<or> tolEffect t = ''PreferNoSchedule'') tolerations"

definition countIntolerableTaintsPreferNoSchedule :: "taint list \<Rightarrow> toleration list \<Rightarrow> int" where
  "countIntolerableTaintsPreferNoSchedule taints tolerations =
     foldl (\<lambda>n t. if taintEffect t \<noteq> ''PreferNoSchedule'' then n else if \<not> TolerationsTolerateTaint tolerations t then n + 1 else n) 0 taints"

definition NodeUnschedulable_Filter :: "kpod \<Rightarrow> nodeInfo \<Rightarrow> statusp" where
  "NodeUnschedulable_Filter pod ni = (case node ni of
       None \<Rightarrow> NewStatus UnschedulableAndUnresolvable [''node(s) had unknown conditions'']
     | Some nd \<Rightarrow>
         (let podToleratesUnschedulable = TolerationsTolerateTaint (Tolerations pod)
                \<lparr>taintKey = ''node.kubernetes.io/unschedulable'', taintValue = [], taintEffect = ''NoSchedule'', taintTimeAdded = None\<rparr>
          in if specUnschedulable nd \<and> \<not> podToleratesUnschedulable
             then NewStatus UnschedulableAndUnresolvable [''node(s) were unschedulable''] else None))"

end
