(* ===== verification/Node_Fit_Props.thy ===== *)
theory Node_Fit_Props
  imports Node_Fit Node_Info_Props
begin

text \<open>
  The filter for resources and the account of a node agree: what the filter checks for a pod is what
  the node is charged when the pod is added, so a node that passed the filter is not overcommitted.
\<close>

section \<open>The request and the account\<close>

lemma containers_request: "fst (foldl (add_container g) t cs) = foldl (\<lambda>r c. Add g r (Requests c)) (fst t) cs"
  by (induction cs arbitrary: t) (auto simp: add_container_def split: prod.splits)

lemma inits_request: "fst (foldl (max_container g) t cs) = foldl (\<lambda>r c. SetMaxResource g r (Requests c)) (fst t) cs"
  by (induction cs arbitrary: t) (auto simp: max_container_def split: prod.splits)

lemma request_accounted: "computePodResourceRequest g pod = fst (calculateResource g pod)"
proof -
  obtain r c m where t: "foldl (max_container g) (foldl (add_container g) (zero_resource, 0, 0) (Containers pod)) (InitContainers pod) = (r, c, m)"
    by (rule prod_cases3)
  have "r = foldl (\<lambda>r c. SetMaxResource g r (Requests c)) (foldl (\<lambda>r c. Add g r (Requests c)) zero_resource (Containers pod)) (InitContainers pod)"
    using inits_request [of g "foldl (add_container g) (zero_resource, 0, 0) (Containers pod)" "InitContainers pod"] containers_request [of g "(zero_resource, 0, 0)"] t
    by simp
  then show ?thesis using t by (simp add: computePodResourceRequest_def calculateResource_def Let_def split: option.splits)
qed

section \<open>The bandwidth of real-time pods\<close>

lemma RTmilliCPU_sum:
  assumes "\<forall>p\<in>set (Pods ni). map_of (Annotations p) ''RTbandwidth'' = (if b p = 0 then None else Some (itoa (b p))) \<and> 0 \<le> b p"
    "10 * sum_list (map b (Pods ni)) < 2 ^ 63"
  shows "RTmilliCPU ni = 10 * sum_list (map b (Pods ni)) \<and> 0 \<le> sum_list (map b (Pods ni))"
proof -
  let ?f = "\<lambda>sum p. case map_of (Annotations p) ''RTbandwidth'' of None \<Rightarrow> sum | Some v \<Rightarrow> wrap64 (sum + fst (atoi v))"
  have "foldl ?f s ps = s + sum_list (map b ps) \<and> 0 \<le> sum_list (map b ps)"
    if "\<forall>p\<in>set ps. map_of (Annotations p) ''RTbandwidth'' = (if b p = 0 then None else Some (itoa (b p))) \<and> 0 \<le> b p"
      "0 \<le> s" "s + sum_list (map b ps) < 2 ^ 63" for s ps
    using that
  proof (induction ps arbitrary: s)
    case (Cons p ps)
    have n: "0 \<le> sum_list (map b ps)" "0 \<le> b p" using Cons.prems(1) by (auto intro!: sum_list_nonneg)
    then have "?f s p = s + b p" using Cons.prems by (auto simp: atoi_itoa int64_def wrap64_id)
    then show ?case using Cons.IH [of "s + b p"] Cons.prems n by simp
  qed simp
  from this [of "Pods ni" 0] show ?thesis using assms by (simp add: RTmilliCPU_def wrap64_id int64_def mult.commute)
qed

section \<open>No overcommitment\<close>

lemma fits_component:
  assumes "0 \<le> q" "q < 2 ^ 62" "0 \<le> a" "a < 2 ^ 62" "0 \<le> t" "t < 2 ^ 62" "\<not> r > wrap64 (wrap64 (a - q) - t)" "int64 r"
  shows "wrap64 (q + r) + t \<le> a"
proof -
  have "wrap64 (wrap64 (a - q) - t) = a - q - t" using assms(1-6) by (simp add: wrap64_id int64_def)
  moreover have "wrap64 (q + r) = q + r" using assms calculation by (intro wrap64_id) (simp add: int64_def)
  ultimately show ?thesis using assms(7) by simp
qed

lemma fits_nothing:
  assumes "fitsRequest isExtended visit r ni [] [] = []" "\<And>xs. set (visit xs) = set xs"
    "MilliCPU r \<noteq> 0 \<or> Memory r \<noteq> 0 \<or> EphemeralStorage r \<noteq> 0 \<or> ScalarResources r \<noteq> []"
  shows "int (length (Pods ni)) + 1 \<le> AllowedPodNumber (Allocatable ni)"
    "\<not> MilliCPU r > wrap64 (wrap64 (MilliCPU (Allocatable ni) - MilliCPU (Requested ni)) - RTmilliCPU ni)"
    "\<not> Memory r > wrap64 (Memory (Allocatable ni) - Memory (Requested ni))"
    "\<not> EphemeralStorage r > wrap64 (EphemeralStorage (Allocatable ni) - EphemeralStorage (Requested ni))"
    "\<And>k v. (k, v) \<in> set (ScalarResources r) \<Longrightarrow> \<not> v > wrap64 (scalar (Allocatable ni) k - scalar (Requested ni) k)"
proof -
  note f = assms(1) [unfolded fitsRequest_def Let_def]
  have n: "\<not> (MilliCPU r = 0 \<and> Memory r = 0 \<and> EphemeralStorage r = 0 \<and> ScalarResources r = [])" using assms(3) by blast
  note f' = f [unfolded if_not_P [OF n]]
  show "int (length (Pods ni)) + 1 \<le> AllowedPodNumber (Allocatable ni)"
    "\<not> MilliCPU r > wrap64 (wrap64 (MilliCPU (Allocatable ni) - MilliCPU (Requested ni)) - RTmilliCPU ni)"
    "\<not> Memory r > wrap64 (Memory (Allocatable ni) - Memory (Requested ni))"
    "\<not> EphemeralStorage r > wrap64 (EphemeralStorage (Allocatable ni) - EphemeralStorage (Requested ni))"
    using f' by (simp_all split: if_splits)
  have s: "filter (\<lambda>(rName, rQuant). \<not> scalar_ignored isExtended [] [] rName \<and> rQuant > wrap64 (scalar (Allocatable ni) rName - scalar (Requested ni) rName))
      (visit (ScalarResources r)) = []" using f' by simp
  show "\<not> v > wrap64 (scalar (Allocatable ni) k - scalar (Requested ni) k)" if "(k, v) \<in> set (ScalarResources r)" for k v
    using s that assms(2) [of "ScalarResources r"] by (auto simp: filter_empty_conv scalar_ignored_def)
qed

text \<open>
  C31: A pod that passes the resource filter does not overcommit the node. Let the amounts of the node
  be non-negative and below \<open>2^62\<close>, let the pod request something, and let the real-time pods of the
  node carry their bandwidth as the decimal text the real-time plugin writes. If the filter finds no
  insufficient resource, then after the pod is added the requested cpu and ten times the bandwidth of
  the real-time pods that were on the node are together at most the allocatable cpu, memory, storage
  and each scalar resource the pod requests are within what is allocatable, and so is the number of
  pods. (The bandwidth of the pod itself is not part of the check.)
\<close>

theorem fit_keeps_capacity:
  assumes "resources_Fits isExtended visit g pod ni = []" "\<And>xs. set (visit xs) = set xs" "r = computePodResourceRequest g pod"
    "MilliCPU r \<noteq> 0 \<or> Memory r \<noteq> 0 \<or> EphemeralStorage r \<noteq> 0 \<or> ScalarResources r \<noteq> []"
    "\<forall>f\<in>parts. 0 \<le> f (Requested ni) \<and> f (Requested ni) < 2 ^ 62 \<and> 0 \<le> f (Allocatable ni) \<and> f (Allocatable ni) < 2 ^ 62 \<and> int64 (f r)"
    "\<forall>p\<in>set (Pods ni). map_of (Annotations p) ''RTbandwidth'' = (if b p = 0 then None else Some (itoa (b p))) \<and> 0 \<le> b p"
    "10 * sum_list (map b (Pods ni)) < 2 ^ 62" "AddPodInfo g pod ni gen = (ni', gen')"
  shows "MilliCPU (Requested ni') + 10 * sum_list (map b (Pods ni)) \<le> MilliCPU (Allocatable ni') \<and>
    Memory (Requested ni') \<le> Memory (Allocatable ni') \<and> EphemeralStorage (Requested ni') \<le> EphemeralStorage (Allocatable ni') \<and>
    (\<forall>k\<in>fst ` set (ScalarResources r). scalar (Requested ni') k \<le> scalar (Allocatable ni') k) \<and>
    int (length (Pods ni')) \<le> AllowedPodNumber (Allocatable ni')"
proof -
  have rt: "RTmilliCPU ni = 10 * sum_list (map b (Pods ni))" "0 \<le> RTmilliCPU ni" "RTmilliCPU ni < 2 ^ 62"
    using RTmilliCPU_sum [OF assms(6)] assms(7) by simp_all
  have c: "r = fst (calculateResource g pod)" "keyed r" using assms(3) request_accounted [of g pod] keyed_calculate by simp_all
  have a: "Requested ni' = add_resource (Requested ni) r" "Allocatable ni' = Allocatable ni" "length (Pods ni') = Suc (length (Pods ni))"
    using assms(8) c(1) by (auto simp: AddPodInfo_def Let_def split: prod.splits)
  have i: "int64 (scalar (Requested ni) k)" for k
    using bspec [OF assms(5), of "\<lambda>r. scalar r k"] by (auto simp: parts_def int64_def)
  note n = fits_nothing [OF assms(1) [unfolded resources_Fits_def, folded assms(3)] assms(2,4)]
  have part: "f (Requested ni') + t \<le> f (Allocatable ni')"
    if f: "f \<in> parts" "0 \<le> t" "t < 2 ^ 62" "\<not> f r > wrap64 (wrap64 (f (Allocatable ni) - f (Requested ni)) - t)" for f t
    unfolding a(1,2) parts_add [OF c(2) i f(1)] using assms(5) f by (intro fits_component) auto
  have p: "MilliCPU \<in> parts" "Memory \<in> parts" "EphemeralStorage \<in> parts" "(\<lambda>r. scalar r k) \<in> parts" for k by (auto simp: parts_def)
  have w: "wrap64 (wrap64 x - 0) = wrap64 x" for x using wrap64_wrap64_diff [of x 0] by simp
  have sc: "scalar (Requested ni') k \<le> scalar (Allocatable ni') k" if "k \<in> fst ` set (ScalarResources r)" for k
  proof -
    obtain v where v: "(k, v) \<in> set (ScalarResources r)" using \<open>k \<in> fst ` set (ScalarResources r)\<close> by auto
    then have "scalar r k = v" using c(2) by (simp add: scalar_def keyed_def)
    then show ?thesis using n(5) [OF v] part [OF p(4), of 0 k] w by simp
  qed
  show ?thesis using part [OF p(1) rt(2,3) n(2)] part [OF p(2), of 0] part [OF p(3), of 0] n(1,3,4) sc w a(2,3) rt(1) by simp
qed

definition ex_fit_gates :: gates where
  "ex_fit_gates = \<lparr>IsScalarResourceName = (\<lambda>s. s = ''gpu''), LocalStorage = True, PodOverhead = True\<rparr>"

definition ex_fit_pod :: "string \<Rightarrow> resourceList \<Rightarrow> (string \<times> string) list \<Rightarrow> kpod" where
  "ex_fit_pod u rl an = \<lparr>kName = u, kNamespace = ''d'', UID = u, ResourceVersion = [], specNodeName = [], Containers = [\<lparr>Requests = rl, Ports = [], Image = []\<rparr>], InitContainers = [],
     Overhead = None, Affinity = None, claims = [], Priority = None, NominatedNodeName = [], SchedulerName = [], deleting = False, Annotations = an, Tolerations = [], podLabels = [], StartTime = None, PreemptionPolicy = None\<rparr>"

definition ex_rt_pod :: kpod where "ex_rt_pod = ex_fit_pod ''rt'' [] [(''RTbandwidth'', itoa 50)]"

definition ex_new_pod :: kpod where
  "ex_new_pod = ex_fit_pod ''new'' [(''cpu'', \<lparr>MilliValue = 2000, Value = 2\<rparr>), (''gpu'', \<lparr>MilliValue = 1000, Value = 1\<rparr>)] []"

definition ex_fit_node :: nodeInfo where
  "ex_fit_node = \<lparr>node = None, Pods = [ex_rt_pod], PodsWithAffinity = [], PodsWithRequiredAntiAffinity = [], UsedPorts = [],
     Requested = zero_resource\<lparr>MilliCPU := 1000\<rparr>, NonZeroRequested = zero_resource,
     Allocatable = \<lparr>MilliCPU = 3500, Memory = 0, EphemeralStorage = 0, AllowedPodNumber = 2, ScalarResources = [(''gpu'', 1)]\<rparr>,
     ImageStates = [], PVCRefCounts = [], Generation = 1\<rparr>"

lemmas ex_fit_defs = ex_fit_gates_def ex_fit_pod_def ex_rt_pod_def ex_new_pod_def ex_fit_node_def

theorem fit_keeps_capacity_witness:
  "resources_Fits (\<lambda>_. True) id ex_fit_gates ex_new_pod ex_fit_node = [] \<and>
   MilliCPU (Requested (fst (AddPodInfo ex_fit_gates ex_new_pod ex_fit_node 1))) + 500 \<le> MilliCPU (Allocatable (fst (AddPodInfo ex_fit_gates ex_new_pod ex_fit_node 1)))"
proof -
  let ?ni = ex_fit_node let ?r = "computePodResourceRequest ex_fit_gates ex_new_pod"
  have r: "?r = \<lparr>MilliCPU = 2000, Memory = 0, EphemeralStorage = 0, AllowedPodNumber = 0, ScalarResources = [(''gpu'', 1)]\<rparr>"
    by (simp add: computePodResourceRequest_def ex_new_pod_def ex_fit_pod_def ex_fit_gates_def Add_def add_entry_def AddScalar_def SetScalar_def scalar_def zero_resource_def wrap64_def)
  have "RTmilliCPU ?ni = 500" by (simp add: RTmilliCPU_def ex_fit_node_def ex_rt_pod_def ex_fit_pod_def atoi_itoa int64_def wrap64_def)
  then have f: "resources_Fits (\<lambda>_. True) id ex_fit_gates ex_new_pod ?ni = []"
    unfolding resources_Fits_def r by (simp add: fitsRequest_def ex_fit_node_def zero_resource_def scalar_def wrap64_def)
  have p: "\<forall>f\<in>parts. 0 \<le> f (Requested ?ni) \<and> f (Requested ?ni) < 2 ^ 62 \<and> 0 \<le> f (Allocatable ?ni) \<and> f (Allocatable ?ni) < 2 ^ 62 \<and> int64 (f ?r)"
    unfolding r by (auto simp: parts_def ex_fit_node_def zero_resource_def scalar_def int64_def)
  obtain ni' gen' where a: "AddPodInfo ex_fit_gates ex_new_pod ?ni 1 = (ni', gen')" by (rule prod.exhaust)
  have "MilliCPU (Requested ni') + 10 * sum_list (map (\<lambda>_. 50) (Pods ?ni)) \<le> MilliCPU (Allocatable ni')"
    using fit_keeps_capacity [OF f _ refl _ p _ _ a, of "\<lambda>_. 50"] by (simp add: r) (simp add: ex_fit_defs)
  then show ?thesis using f a by (simp add: ex_fit_node_def)
qed

end
