(* ===== verification/Sched_One.thy ===== *)
theory Sched_One
  imports Generic_Sched Sched_Queue Sched_Snapshot
begin

text \<open>
  The scheduler (\<open>pkg/scheduler/scheduler.go\<close>, the default error function of \<open>factory.go\<close>): one
  scheduling cycle takes a pod from the queue, runs the algorithm on the snapshot, assumes the pod in
  the cache and runs the reserve and permit plugins; the binding cycle then waits for the permit and
  binds the pod. A failure at any point releases what the cycle has taken and puts the pod back into
  the queue.
\<close>

section \<open>State and configuration\<close>

text \<open>
  The snapshot and the index of the next node belong to the algorithm; every profile has its own
  pods that wait for a permit. The rest of the world is \<open>'w\<close>, and a cycle has its state \<open>'s\<close>.
\<close>

record 'w scheduler =
  SchedulerCache :: schedulerCache
  SchedulingQueue :: priorityQueue
  nodeInfoSnapshot :: snapshot
  nextStartNodeIndex :: nat
  waitingPods :: "string \<Rightarrow> string \<rightharpoonup> waitingPod"
  world :: 'w

text \<open>
  What the scheduler is built with: the frameworks by the name of their profile, the extenders, the
  options of the algorithm, and the parts of the cycle state that plugins use to ask for pods to be
  activated. The clients are known by what they do to the world: the lister of pods, the event
  recorder, the update of the status of a pod, and the text of an error.
\<close>

record ('s, 'w) schedConf =
  Profiles :: "string \<rightharpoonup> ('s, 'w) fwk"
  Extenders :: "extender list"
  preferNominated :: bool
  percentageOfNodesToScore :: int
  randDraw :: "nat \<Rightarrow> nat \<Rightarrow> nat"
  visitMap :: "string list \<Rightarrow> string list"
  schedGates :: gates
  queueConf :: pqConf
  NewCycleState :: 's
  PodsToActivate :: "'s \<Rightarrow> kpod list"
  clearPodsToActivate :: "'s \<Rightarrow> 's"
  cachedPod :: "'w \<Rightarrow> string \<Rightarrow> string \<Rightarrow> kpod option"
  recordEvent :: "kpod \<Rightarrow> string \<Rightarrow> 'w \<Rightarrow> 'w"
  patchStatus :: "kpod \<Rightarrow> string \<Rightarrow> string \<Rightarrow> string \<Rightarrow> 'w \<Rightarrow> 'w"
  errText :: "sched_error \<Rightarrow> string"

section \<open>Failures\<close>

definition truncateMessage :: "string \<Rightarrow> string" where
  "truncateMessage message = (if length message \<le> 1024 then message else take (1024 - length '' ...'') message @ '' ...'')"

text \<open>
  An error of the API server that says a node is not found reaches the error function only wrapped
  in another error; its type is then not that of an API error, and the node is not looked at again.
  The function changes the queued pod it is given.
\<close>

definition defaultErrorFunc :: "('s, 'w) schedConf \<Rightarrow> int \<Rightarrow> queuedPodInfo \<Rightarrow> sched_error \<Rightarrow> 'w scheduler \<Rightarrow> (queuedPodInfo \<times> 'w scheduler) go" where
  "defaultErrorFunc cfg now podInfo er sc =
     (let pod = qPod podInfo;
          pi1 = (case er of FitError k d \<Rightarrow> podInfo\<lparr>queuedPodInfo.UnschedulablePlugins := diagnosis.UnschedulablePlugins d\<rparr> | _ \<Rightarrow> podInfo)
      in case cachedPod cfg (world sc) (kNamespace pod) (kName pod) of
           None \<Rightarrow> Ret (pi1, sc)
         | Some cached \<Rightarrow>
             (if specNodeName cached \<noteq> [] then Ret (pi1, sc)
              else let pi2 = pi1\<lparr>qPod := cached\<rparr> in
                go_bind (AddUnschedulableIfNotPresent (queueConf cfg) now pi2 (schedulingCycle (SchedulingQueue sc)) (SchedulingQueue sc))
                  (\<lambda>(_, q). Ret (pi2, sc\<lparr>SchedulingQueue := q\<rparr>))))"

definition recordSchedulingFailure :: "('s, 'w) schedConf \<Rightarrow> int \<Rightarrow> queuedPodInfo \<Rightarrow> sched_error \<Rightarrow> string \<Rightarrow> string \<Rightarrow> 'w scheduler \<Rightarrow> 'w scheduler go" where
  "recordSchedulingFailure cfg now podInfo er reason nominatedNode sc =
     go_bind (defaultErrorFunc cfg now podInfo er sc) (\<lambda>(pi, sc1).
       let q = AddNominatedPod (queueConf cfg) (qPod pi) nominatedNode (SchedulingQueue sc1);
           w1 = recordEvent cfg (qPod pi) (truncateMessage (errText cfg er)) (world sc1)
       in Ret (sc1\<lparr>SchedulingQueue := q, world := patchStatus cfg (qPod pi) reason (errText cfg er) nominatedNode w1\<rparr>))"

definition unschedulableReason :: string where "unschedulableReason = ''Unschedulable''"

definition SchedulerError :: string where "SchedulerError = ''SchedulerError''"

section \<open>Assuming and binding\<close>

definition sched_assume :: "('s, 'w) schedConf \<Rightarrow> kpod \<Rightarrow> string \<Rightarrow> 'w scheduler \<Rightarrow> (string option \<times> kpod \<times> 'w scheduler) go" where
  "sched_assume cfg assumed host sc =
     (let assumed1 = assumed\<lparr>specNodeName := host\<rparr> in
      go_bind (AssumePod (schedGates cfg) assumed1 (SchedulerCache sc)) (\<lambda>(er, c).
        let sc1 = sc\<lparr>SchedulerCache := c\<rparr> in
        case er of Some e \<Rightarrow> Ret (Some e, assumed1, sc1)
        | None \<Rightarrow> Ret (None, assumed1, sc1\<lparr>SchedulingQueue := DeleteNominatedPodIfExists assumed1 (SchedulingQueue sc1)\<rparr>)))"

fun extendersBinding :: "extender list \<Rightarrow> kpod \<Rightarrow> string \<Rightarrow> bool \<times> string option" where
  "extendersBinding [] pod nn = (False, None)"
| "extendersBinding (e # es) pod nn = (case extBind e of None \<Rightarrow> extendersBinding es pod nn
     | Some f \<Rightarrow> (if \<not> IsInterested e pod then extendersBinding es pod nn else (True, f pod nn)))"

definition sched_finishBinding :: "('s, 'w) schedConf \<Rightarrow> int \<Rightarrow> kpod \<Rightarrow> string \<Rightarrow> string option \<Rightarrow> 'w scheduler \<Rightarrow> 'w scheduler go" where
  "sched_finishBinding cfg now assumed targetNode er sc =
     go_bind (finishBinding assumed now (SchedulerCache sc)) (\<lambda>(_, c).
       let sc1 = sc\<lparr>SchedulerCache := c\<rparr> in
       Ret (if er \<noteq> None then sc1
            else sc1\<lparr>world := recordEvent cfg assumed (''Successfully assigned '' @ kNamespace assumed @ ''/'' @ kName assumed @ '' to '' @ targetNode) (world sc1)\<rparr>))"

definition code_string :: "code \<Rightarrow> string" where
  "code_string c = (case c of Success \<Rightarrow> ''Success'' | ErrorCode \<Rightarrow> ''Error'' | Unschedulable \<Rightarrow> ''Unschedulable''
     | UnschedulableAndUnresolvable \<Rightarrow> ''UnschedulableAndUnresolvable'' | Wait \<Rightarrow> ''Wait'' | Skip \<Rightarrow> ''Skip'')"

definition sched_bind :: "('s, 'w) schedConf \<Rightarrow> int \<Rightarrow> ('s, 'w) fwk \<Rightarrow> kpod \<Rightarrow> string \<Rightarrow> 's \<Rightarrow> 'w scheduler \<Rightarrow> (string option \<times> 's \<times> 'w scheduler) go" where
  "sched_bind cfg now f assumed targetNode state sc =
     (let (er, state1, w1) =
            (case extendersBinding (Extenders cfg) assumed targetNode of
               (True, e) \<Rightarrow> (e, state, world sc)
             | (False, _) \<Rightarrow> (case RunBindPlugins (bindPlugins f) assumed targetNode (state, world sc) of (bindStatus, s1, w1) \<Rightarrow>
                 (if IsSuccess bindStatus then None
                  else if Code bindStatus = ErrorCode then Some (error_text bindStatus)
                  else Some (''bind status: '' @ code_string (Code bindStatus) @ '', '' @ Message bindStatus), s1, w1)))
      in go_bind (sched_finishBinding cfg now assumed targetNode er (sc\<lparr>world := w1\<rparr>)) (\<lambda>sc1. Ret (er, state1, sc1)))"

text \<open>Every failure after the pod is assumed ends in the same three steps.\<close>

definition releasePod :: "('s, 'w) schedConf \<Rightarrow> int \<Rightarrow> ('s, 'w) fwk \<Rightarrow> queuedPodInfo \<Rightarrow> string \<Rightarrow> 's \<Rightarrow> string \<Rightarrow> string \<Rightarrow> 'w scheduler \<Rightarrow> 'w scheduler go" where
  "releasePod cfg now f pinfo host state er reason sc =
     (case RunReservePluginsUnreserve (reservePlugins f) (qPod pinfo) host (state, world sc) of (state1, w1) \<Rightarrow>
        go_bind (ForgetPod (schedGates cfg) (qPod pinfo) (SchedulerCache sc)) (\<lambda>(_, c).
          recordSchedulingFailure cfg now pinfo (OtherError er) reason [] (sc\<lparr>SchedulerCache := c, world := w1\<rparr>)))"

section \<open>The scheduling cycle\<close>

definition frameworkForPod :: "('s, 'w) schedConf \<Rightarrow> kpod \<Rightarrow> ('s, 'w) fwk option" where
  "frameworkForPod cfg pod = Profiles cfg (SchedulerName pod)"

definition skipPodSchedule :: "('s, 'w) schedConf \<Rightarrow> kpod \<Rightarrow> 'w scheduler \<Rightarrow> bool \<times> 'w scheduler" where
  "skipPodSchedule cfg pod sc =
     (if deleting pod
      then (True, sc\<lparr>world := recordEvent cfg pod (''skip schedule deleting pod: '' @ kNamespace pod @ ''/'' @ kName pod) (world sc)\<rparr>)
      else case IsAssumedPod pod (SchedulerCache sc) of Inl e \<Rightarrow> (False, sc) | Inr isAssumed \<Rightarrow> (isAssumed, sc))"

text \<open>
  The algorithm begins with an update of the snapshot. The pods nominated to a node are those of the
  queue; the counter of generations is the one of the cache.
\<close>

definition runAlgorithm :: "('s, 'w) schedConf \<Rightarrow> ('s, 'w) fwk \<Rightarrow> kpod \<Rightarrow> 's \<Rightarrow> 'w scheduler \<Rightarrow> ((sched_error + scheduleResult) \<times> 's \<times> 'w scheduler) go" where
  "runAlgorithm cfg f pod state sc =
     go_bind (UpdateSnapshot (visitMap cfg) (SchedulerCache sc) (nodeInfoSnapshot sc)) (\<lambda>(incons, snap).
       go_bind (Schedule (preferNominated cfg) (randDraw cfg) (f\<lparr>NominatedPodsForNode := pq_NominatedPodsForNode (SchedulingQueue sc)\<rparr>)
           (percentageOfNodesToScore cfg) (Extenders cfg) pod
           (if incons \<noteq> None then Inl ''snapshot state is not consistent'' else Inr (snap_List snap))
           (nextStartNodeIndex sc) (cgeneration (SchedulerCache sc)) (state, world sc)) (\<lambda>(out, start, gen, state1, w1).
         Ret (out, state1, sc\<lparr>nodeInfoSnapshot := snap, nextStartNodeIndex := start,
           SchedulerCache := (SchedulerCache sc)\<lparr>cgeneration := gen\<rparr>, world := w1\<rparr>)))"

text \<open>The plugins after the filters can name a node on which the pod may fit later.\<close>

definition postFilter :: "('s, 'w) fwk \<Rightarrow> kpod \<Rightarrow> sched_error \<Rightarrow> 's \<times> 'w \<Rightarrow> (string \<times> 's \<times> 'w) go" where
  "postFilter f pod er sw = (case er of FitError k d \<Rightarrow>
       (if postFilterPlugins f = [] then Ret ([], sw)
        else go_bind (RunPostFilterPlugins (postFilterPlugins f) pod (NodeToStatusMap d) sw) (\<lambda>((result, status), sw1).
               Ret (if IsSuccess status then (case result of None \<Rightarrow> [] | Some nn \<Rightarrow> nn) else [], sw1)))
     | _ \<Rightarrow> Ret ([], sw))"

definition queued_DeepCopy :: "queuedPodInfo \<Rightarrow> queuedPodInfo" where
  "queued_DeepCopy pi = pi\<lparr>queuedPodInfo.UnschedulablePlugins := []\<rparr>"

text \<open>
  How a cycle ends: no pod yet (the queue is waited on), no pod any more, no profile, a pod that is
  skipped, a failure that is recorded, or a pod to bind, with what the binding cycle gets.
\<close>

record 's bindingTask =
  btPodInfo :: queuedPodInfo
  btHost :: string
  btState :: 's

datatype 's cycle_end = WaitForPod | NoPod | NoProfile | SkippedPod | FailedPod | AssumedPod "'s bindingTask"

definition reserveAndPermit :: "('s, 'w) schedConf \<Rightarrow> int \<Rightarrow> ('s, 'w) fwk \<Rightarrow> queuedPodInfo \<Rightarrow> string \<Rightarrow> 's \<Rightarrow> 'w scheduler \<Rightarrow> ('s cycle_end \<times> 'w scheduler) go" where
  "reserveAndPermit cfg now f pinfo host state sc =
     (let assumedPod = qPod pinfo in
      case RunReservePluginsReserve (reservePlugins f) assumedPod host (state, world sc) of (sts, state1, w1) \<Rightarrow>
        if \<not> IsSuccess sts
        then go_bind (releasePod cfg now f pinfo host state1 (error_text sts) SchedulerError (sc\<lparr>world := w1\<rparr>)) (\<lambda>sc1. Ret (FailedPod, sc1))
        else (case RunPermitPlugins (permitPlugins f) assumedPod host (waitingPods sc (SchedulerName assumedPod)) (state1, w1) of
            ((pst, wps), state2, w2) \<Rightarrow>
              let sc2 = sc\<lparr>world := w2, waitingPods := (waitingPods sc)(SchedulerName assumedPod := wps)\<rparr> in
              if Code pst \<noteq> Wait \<and> \<not> IsSuccess pst
              then go_bind (releasePod cfg now f pinfo host state2 (error_text pst)
                     (if IsUnschedulable pst then unschedulableReason else SchedulerError) sc2) (\<lambda>sc3. Ret (FailedPod, sc3))
              else if PodsToActivate cfg state2 \<noteq> []
              then go_bind (Activate (queueConf cfg) (PodsToActivate cfg state2) (SchedulingQueue sc2)) (\<lambda>q.
                     Ret (AssumedPod \<lparr>btPodInfo = pinfo, btHost = host, btState = clearPodsToActivate cfg state2\<rparr>, sc2\<lparr>SchedulingQueue := q\<rparr>))
              else Ret (AssumedPod \<lparr>btPodInfo = pinfo, btHost = host, btState = state2\<rparr>, sc2)))"

definition schedulePod :: "('s, 'w) schedConf \<Rightarrow> int \<Rightarrow> ('s, 'w) fwk \<Rightarrow> queuedPodInfo \<Rightarrow> 'w scheduler \<Rightarrow> ('s cycle_end \<times> 'w scheduler) go" where
  "schedulePod cfg now f podInfo sc =
     go_bind (runAlgorithm cfg f (qPod podInfo) (NewCycleState cfg) sc) (\<lambda>(out, state, sc1). case out of
       Inl er \<Rightarrow> go_bind (postFilter f (qPod podInfo) er (state, world sc1)) (\<lambda>(nominatedNode, _, w1).
         go_bind (recordSchedulingFailure cfg now podInfo er unschedulableReason nominatedNode (sc1\<lparr>world := w1\<rparr>)) (\<lambda>sc2. Ret (FailedPod, sc2)))
     | Inr scheduleResult \<Rightarrow>
         (let host = SuggestedHost scheduleResult in
          go_bind (sched_assume cfg (qPod podInfo) host sc1) (\<lambda>(er, assumedPod, sc2).
            let pinfo = (queued_DeepCopy podInfo)\<lparr>qPod := assumedPod\<rparr> in
            case er of
              Some e \<Rightarrow> go_bind (recordSchedulingFailure cfg now pinfo (OtherError e) SchedulerError [] sc2) (\<lambda>sc3. Ret (FailedPod, sc3))
            | None \<Rightarrow> reserveAndPermit cfg now f pinfo host state sc2)))"

definition scheduleOne :: "('s, 'w) schedConf \<Rightarrow> int \<Rightarrow> 'w scheduler \<Rightarrow> ('s cycle_end \<times> 'w scheduler) go" where
  "scheduleOne cfg now sc =
     go_bind (MakeNextPodFunc (queueConf cfg) (SchedulingQueue sc)) (\<lambda>(r, q).
       let sc1 = sc\<lparr>SchedulingQueue := q\<rparr> in
       case r of None \<Rightarrow> Ret (WaitForPod, sc1)
       | Some None \<Rightarrow> Ret (NoPod, sc1)
       | Some (Some podInfo) \<Rightarrow>
           (case frameworkForPod cfg (qPod podInfo) of None \<Rightarrow> Ret (NoProfile, sc1)
            | Some f \<Rightarrow> (case skipPodSchedule cfg (qPod podInfo) sc1 of (sk, sc2) \<Rightarrow>
                if sk then Ret (SkippedPod, sc2) else schedulePod cfg now f podInfo sc2)))"

section \<open>The binding cycle\<close>

text \<open>It runs beside later scheduling cycles, so it works on the state it finds; the result tells whether the pod was bound.\<close>

definition bindPod :: "('s, 'w) schedConf \<Rightarrow> int \<Rightarrow> ('s, 'w) fwk \<Rightarrow> queuedPodInfo \<Rightarrow> string \<Rightarrow> 's \<Rightarrow> 'w scheduler \<Rightarrow> (bool \<times> 'w scheduler) go" where
  "bindPod cfg now f pinfo host state sc =
     (let assumedPod = qPod pinfo in
      case RunPreBindPlugins (preBindPlugins f) assumedPod host (state, world sc) of (preBindStatus, state1, w1) \<Rightarrow>
        if \<not> IsSuccess preBindStatus
        then go_bind (releasePod cfg now f pinfo host state1 (error_text preBindStatus) SchedulerError (sc\<lparr>world := w1\<rparr>)) (\<lambda>sc1. Ret (False, sc1))
        else go_bind (sched_bind cfg now f assumedPod host state1 (sc\<lparr>world := w1\<rparr>)) (\<lambda>(er, state2, sc2). case er of
            Some e \<Rightarrow> go_bind (releasePod cfg now f pinfo host state2 (''binding rejected: '' @ e) SchedulerError sc2) (\<lambda>sc3. Ret (False, sc3))
          | None \<Rightarrow>
              (case RunPostBindPlugins (postBindPlugins f) assumedPod host (state2, world sc2) of (state3, w3) \<Rightarrow>
                 let sc3 = sc2\<lparr>world := w3\<rparr> in
                 if PodsToActivate cfg state3 \<noteq> []
                 then go_bind (Activate (queueConf cfg) (PodsToActivate cfg state3) (SchedulingQueue sc3)) (\<lambda>q. Ret (True, sc3\<lparr>SchedulingQueue := q\<rparr>))
                 else Ret (True, sc3))))"

definition bindingCycle :: "('s, 'w) schedConf \<Rightarrow> int \<Rightarrow> ('s, 'w) fwk \<Rightarrow> 's bindingTask \<Rightarrow> 'w scheduler \<Rightarrow> (bool \<times> 'w scheduler) go" where
  "bindingCycle cfg now f bt sc =
     (let assumedPod = qPod (btPodInfo bt); prof = SchedulerName assumedPod in
      go_bind (WaitOnPermit assumedPod (waitingPods sc prof)) (\<lambda>(st, wps).
        let sc1 = sc\<lparr>waitingPods := (waitingPods sc)(prof := wps)\<rparr> in
        if \<not> IsSuccess st
        then go_bind (releasePod cfg now f (btPodInfo bt) (btHost bt) (btState bt) (error_text st)
               (if IsUnschedulable st then unschedulableReason else SchedulerError) sc1) (\<lambda>sc2. Ret (False, sc2))
        else bindPod cfg now f (btPodInfo bt) (btHost bt) (btState bt) sc1))"

end
