(* ===== verification/Sched_Events.thy ===== *)
theory Sched_Events
  imports Sched_One Node_Fit
begin

text \<open>
  The handlers of cluster events (\<open>pkg/scheduler/eventhandlers.go\<close>, the filtering handler of
  \<open>client-go/tools/cache/controller.go\<close>): nodes and assigned pods go to the cache, the other pods of
  the scheduler go to the queue, and every event that may help a waiting pod moves pods out of the
  unschedulable queue. Objects arrive typed, as the informers deliver them; only an object whose
  deletion was missed arrives wrapped. Log messages are left out.
\<close>

section \<open>Events\<close>

definition node_event :: "64 word \<Rightarrow> string \<Rightarrow> clusterEvent" where
  "node_event at label = \<lparr>evResource = ''Node'', evActionType = at, evLabel = label\<rparr>"

definition NodeAdd :: clusterEvent where "NodeAdd = node_event 1 ''NodeAdd''"

definition NodeSpecUnschedulableChange :: clusterEvent where "NodeSpecUnschedulableChange = node_event 16 ''NodeSpecUnschedulableChange''"

definition NodeAllocatableChange :: clusterEvent where "NodeAllocatableChange = node_event 4 ''NodeAllocatableChange''"

definition NodeLabelChange :: clusterEvent where "NodeLabelChange = node_event 8 ''NodeLabelChange''"

definition NodeTaintChange :: clusterEvent where "NodeTaintChange = node_event 16 ''NodeTaintChange''"

definition NodeConditionChange :: clusterEvent where "NodeConditionChange = node_event 32 ''NodeConditionChange''"

definition AssignedPodDelete :: clusterEvent where
  "AssignedPodDelete = \<lparr>evResource = ''Pod'', evActionType = 2, evLabel = ''AssignedPodDelete''\<rparr>"

definition StorageClassAdd :: clusterEvent where
  "StorageClassAdd = \<lparr>evResource = ''storage.k8s.io/StorageClass'', evActionType = 1, evLabel = ''StorageClassAdd''\<rparr>"

section \<open>What changed on a node\<close>

text \<open>
  Two maps are compared by their entries. The comparison of allocatable resources looks at the
  representation of quantities, of which only the values are known here; it is an argument.
\<close>

definition same_map :: "('a \<times> 'b) list \<Rightarrow> ('a \<times> 'b) list \<Rightarrow> bool" where
  "same_map xs ys = list_all (\<lambda>k. map_of xs k = map_of ys k) (map fst xs @ map fst ys)"

definition nodeLabelsChanged :: "knode \<Rightarrow> knode \<Rightarrow> bool" where
  "nodeLabelsChanged newNode oldNode = (\<not> same_map (nodeLabels oldNode) (nodeLabels newNode))"

definition nodeTaintsChanged :: "knode \<Rightarrow> knode \<Rightarrow> bool" where
  "nodeTaintsChanged newNode oldNode \<longleftrightarrow> Taints newNode \<noteq> Taints oldNode"

definition strip_conditions :: "(string \<times> string) list \<Rightarrow> (string \<times> string) list" where
  "strip_conditions conditions = foldl (\<lambda>m (t, s). AList.update t s m) [] conditions"

definition nodeConditionsChanged :: "knode \<Rightarrow> knode \<Rightarrow> bool" where
  "nodeConditionsChanged newNode oldNode = (\<not> same_map (strip_conditions (nodeConditions oldNode)) (strip_conditions (nodeConditions newNode)))"

definition nodeSpecUnschedulableChanged :: "knode \<Rightarrow> knode \<Rightarrow> bool" where
  "nodeSpecUnschedulableChanged newNode oldNode \<longleftrightarrow> specUnschedulable newNode \<noteq> specUnschedulable oldNode \<and> \<not> specUnschedulable newNode"

definition nodeSchedulingPropertiesChange :: "(knode \<Rightarrow> knode \<Rightarrow> bool) \<Rightarrow> knode \<Rightarrow> knode \<Rightarrow> clusterEvent option" where
  "nodeSchedulingPropertiesChange sameAllocatable newNode oldNode =
     (if nodeSpecUnschedulableChanged newNode oldNode then Some NodeSpecUnschedulableChange
      else if \<not> sameAllocatable oldNode newNode then Some NodeAllocatableChange
      else if nodeLabelsChanged newNode oldNode then Some NodeLabelChange
      else if nodeTaintsChanged newNode oldNode then Some NodeTaintChange
      else if nodeConditionsChanged newNode oldNode then Some NodeConditionChange
      else None)"

text \<open>
  What the handlers rely on: whether the required node affinity of a pod matches a node, the names of
  extended resources, the order in which scalar resources are visited, and the comparison above.
\<close>

record evConf =
  requiredNodeAffinity :: "kpod \<Rightarrow> knode \<Rightarrow> bool"
  IsExtendedResourceName :: "string \<Rightarrow> bool"
  visitScalars :: "(string \<times> int) list \<Rightarrow> (string \<times> int) list"
  equalAllocatable :: "knode \<Rightarrow> knode \<Rightarrow> bool"

text \<open>The node of the information is the one just given to the cache, so it is never nil.\<close>

definition preCheckForNode :: "evConf \<Rightarrow> gates \<Rightarrow> nodeInfo \<Rightarrow> kpod \<Rightarrow> bool" where
  "preCheckForNode ec g ni pod = (case node ni of None \<Rightarrow> False | Some nd \<Rightarrow>
     (if resources_Fits (IsExtendedResourceName ec) (visitScalars ec) g pod ni \<noteq> [] then False
      else if \<not> requiredNodeAffinity ec pod nd then False
      else if nodename_Fits pod ni \<noteq> Ret True then False
      else if \<not> nodeports_Fits pod ni then False
      else FindMatchingUntoleratedTaint (Taints nd) (Tolerations pod) no_schedule = None))"

definition check_for :: "evConf \<Rightarrow> gates \<Rightarrow> nodeInfo option \<Rightarrow> (kpod \<Rightarrow> bool) option" where
  "check_for ec g ni = Some (case ni of None \<Rightarrow> (\<lambda>_. False) | Some i \<Rightarrow> preCheckForNode ec g i)"

section \<open>Handlers\<close>

definition moveAll :: "('s, 'w) schedConf \<Rightarrow> int \<Rightarrow> clusterEvent \<Rightarrow> (kpod \<Rightarrow> bool) option \<Rightarrow> 'w scheduler \<Rightarrow> 'w scheduler go" where
  "moveAll cfg now ev check sc = go_bind (MoveAllToActiveOrBackoffQueue (queueConf cfg) now ev check (SchedulingQueue sc)) (\<lambda>q.
     Ret (sc\<lparr>SchedulingQueue := q\<rparr>))"

definition onStorageClassAdd :: "('s, 'w) schedConf \<Rightarrow> int \<Rightarrow> string option \<Rightarrow> 'w scheduler \<Rightarrow> 'w scheduler go" where
  "onStorageClassAdd cfg now VolumeBindingMode sc =
     (if VolumeBindingMode = Some ''WaitForFirstConsumer'' then moveAll cfg now StorageClassAdd None sc else Ret sc)"

definition addNodeToCache :: "evConf \<Rightarrow> ('s, 'w) schedConf \<Rightarrow> int \<Rightarrow> knode \<Rightarrow> 'w scheduler \<Rightarrow> 'w scheduler go" where
  "addNodeToCache ec cfg now nd sc = (case AddNode (schedGates cfg) nd (SchedulerCache sc) of (ni, c) \<Rightarrow>
     moveAll cfg now NodeAdd (check_for ec (schedGates cfg) ni) (sc\<lparr>SchedulerCache := c\<rparr>))"

definition updateNodeInCache :: "evConf \<Rightarrow> ('s, 'w) schedConf \<Rightarrow> int \<Rightarrow> knode \<Rightarrow> knode \<Rightarrow> 'w scheduler \<Rightarrow> 'w scheduler go" where
  "updateNodeInCache ec cfg now oldNode newNode sc =
     go_bind (UpdateNode (schedGates cfg) (Some oldNode) newNode (SchedulerCache sc)) (\<lambda>(ni, c).
       let sc1 = sc\<lparr>SchedulerCache := c\<rparr> in
       case nodeSchedulingPropertiesChange (equalAllocatable ec) newNode oldNode of None \<Rightarrow> Ret sc1
       | Some event \<Rightarrow> moveAll cfg now event (check_for ec (schedGates cfg) ni) sc1)"

text \<open>An object that is gone: the object, the last known state of it (if it has the type), or something else.\<close>

datatype 'a deletedObj = Obj 'a | DeletedFinalStateUnknown "'a option" | OtherObj

fun deleted_value :: "'a deletedObj \<Rightarrow> 'a option" where
  "deleted_value (Obj a) = Some a"
| "deleted_value (DeletedFinalStateUnknown a) = a"
| "deleted_value OtherObj = None"

definition deleteNodeFromCache :: "knode deletedObj \<Rightarrow> 'w scheduler \<Rightarrow> 'w scheduler go" where
  "deleteNodeFromCache ob sc = Ret (case deleted_value ob of None \<Rightarrow> sc
     | Some nd \<Rightarrow> sc\<lparr>SchedulerCache := snd (cache_RemoveNode nd (SchedulerCache sc))\<rparr>)"

definition addPodToSchedulingQueue :: "('s, 'w) schedConf \<Rightarrow> int \<Rightarrow> kpod \<Rightarrow> 'w scheduler \<Rightarrow> 'w scheduler go" where
  "addPodToSchedulingQueue cfg now pod sc = go_bind (pq_Add (queueConf cfg) now pod (SchedulingQueue sc)) (\<lambda>(_, q).
     Ret (sc\<lparr>SchedulingQueue := q\<rparr>))"

definition updatePodInSchedulingQueue :: "('s, 'w) schedConf \<Rightarrow> int \<Rightarrow> kpod \<Rightarrow> kpod \<Rightarrow> 'w scheduler \<Rightarrow> 'w scheduler go" where
  "updatePodInSchedulingQueue cfg now oldPod newPod sc =
     (if ResourceVersion oldPod = ResourceVersion newPod then Ret sc
      else if (case IsAssumedPod newPod (SchedulerCache sc) of Inl e \<Rightarrow> False | Inr isAssumed \<Rightarrow> isAssumed) then Ret sc
      else go_bind (pq_Update (queueConf cfg) now (Some oldPod) newPod (SchedulingQueue sc)) (\<lambda>(_, q). Ret (sc\<lparr>SchedulingQueue := q\<rparr>)))"

definition RejectWaitingPod :: "string \<Rightarrow> (string \<rightharpoonup> waitingPod) \<Rightarrow> string \<rightharpoonup> waitingPod" where
  "RejectWaitingPod uid wps = (case wps uid of None \<Rightarrow> wps | Some wp \<Rightarrow> wps(uid \<mapsto> Reject [] ''removed'' wp))"

definition deletePodFromSchedulingQueue :: "('s, 'w) schedConf \<Rightarrow> kpod deletedObj \<Rightarrow> 'w scheduler \<Rightarrow> 'w scheduler go" where
  "deletePodFromSchedulingQueue cfg ob sc = (case deleted_value ob of None \<Rightarrow> Ret sc
     | Some pod \<Rightarrow> go_bind (pq_Delete (queueConf cfg) pod (SchedulingQueue sc)) (\<lambda>q.
         let sc1 = sc\<lparr>SchedulingQueue := q\<rparr> in
         case frameworkForPod cfg pod of None \<Rightarrow> Ret sc1
         | Some _ \<Rightarrow> Ret (sc1\<lparr>waitingPods := (waitingPods sc1)(SchedulerName pod := RejectWaitingPod (UID pod) (waitingPods sc1 (SchedulerName pod)))\<rparr>)))"

definition addPodToCache :: "('s, 'w) schedConf \<Rightarrow> int \<Rightarrow> kpod \<Rightarrow> 'w scheduler \<Rightarrow> 'w scheduler go" where
  "addPodToCache cfg now pod sc = go_bind (cache_AddPod (schedGates cfg) pod (SchedulerCache sc)) (\<lambda>(_, c).
     go_bind (AssignedPodAdded (queueConf cfg) now pod (SchedulingQueue sc)) (\<lambda>q. Ret (sc\<lparr>SchedulerCache := c, SchedulingQueue := q\<rparr>)))"

definition deletePodFromCache :: "('s, 'w) schedConf \<Rightarrow> int \<Rightarrow> kpod deletedObj \<Rightarrow> 'w scheduler \<Rightarrow> 'w scheduler go" where
  "deletePodFromCache cfg now ob sc = (case deleted_value ob of None \<Rightarrow> Ret sc
     | Some pod \<Rightarrow> go_bind (cache_RemovePod (schedGates cfg) pod (SchedulerCache sc)) (\<lambda>(_, c).
         moveAll cfg now AssignedPodDelete None (sc\<lparr>SchedulerCache := c\<rparr>)))"

definition updatePodInCache :: "('s, 'w) schedConf \<Rightarrow> int \<Rightarrow> kpod \<Rightarrow> kpod \<Rightarrow> 'w scheduler \<Rightarrow> 'w scheduler go" where
  "updatePodInCache cfg now oldPod newPod sc =
     (if UID oldPod \<noteq> UID newPod
      then go_bind (deletePodFromCache cfg now (Obj oldPod) sc) (addPodToCache cfg now newPod)
      else go_bind (cache_UpdatePod (schedGates cfg) oldPod newPod (SchedulerCache sc)) (\<lambda>(_, c).
        go_bind (AssignedPodUpdated (queueConf cfg) now newPod (SchedulingQueue sc)) (\<lambda>q. Ret (sc\<lparr>SchedulerCache := c, SchedulingQueue := q\<rparr>))))"

section \<open>Filtered handlers\<close>

definition assignedPod :: "kpod \<Rightarrow> bool" where
  "assignedPod pod \<longleftrightarrow> specNodeName pod \<noteq> []"

definition responsibleForPod :: "('s, 'w) schedConf \<Rightarrow> kpod \<Rightarrow> bool" where
  "responsibleForPod cfg pod \<longleftrightarrow> Profiles cfg (SchedulerName pod) \<noteq> None"

definition deleted_filter :: "('a \<Rightarrow> bool) \<Rightarrow> 'a deletedObj \<Rightarrow> bool" where
  "deleted_filter f ob = (case deleted_value ob of None \<Rightarrow> False | Some a \<Rightarrow> f a)"

text \<open>The filtering handler: its three callbacks, and the filter that selects among them.\<close>

record ('a, 'x) eventHandler =
  FilterFunc :: "'a \<Rightarrow> bool"
  AddFunc :: "'a \<Rightarrow> 'x \<Rightarrow> 'x go"
  UpdateFunc :: "'a \<Rightarrow> 'a \<Rightarrow> 'x \<Rightarrow> 'x go"
  DeleteFunc :: "'a deletedObj \<Rightarrow> 'x \<Rightarrow> 'x go"

definition OnAdd :: "('a, 'x) eventHandler \<Rightarrow> 'a \<Rightarrow> 'x \<Rightarrow> 'x go" where
  "OnAdd r ob x = (if \<not> FilterFunc r ob then Ret x else AddFunc r ob x)"

definition OnUpdate :: "('a, 'x) eventHandler \<Rightarrow> 'a \<Rightarrow> 'a \<Rightarrow> 'x \<Rightarrow> 'x go" where
  "OnUpdate r oldObj newObj x =
     (let newer = FilterFunc r newObj; older = FilterFunc r oldObj in
      if newer \<and> older then UpdateFunc r oldObj newObj x
      else if newer \<and> \<not> older then AddFunc r newObj x
      else if \<not> newer \<and> older then DeleteFunc r (Obj oldObj) x
      else Ret x)"

definition OnDelete :: "('a, 'x) eventHandler \<Rightarrow> 'a deletedObj \<Rightarrow> 'x \<Rightarrow> 'x go" where
  "OnDelete r ob x = (if \<not> deleted_filter (FilterFunc r) ob then Ret x else DeleteFunc r ob x)"

definition cacheHandler :: "('s, 'w) schedConf \<Rightarrow> int \<Rightarrow> (kpod, 'w scheduler) eventHandler" where
  "cacheHandler cfg now = \<lparr>FilterFunc = assignedPod, AddFunc = addPodToCache cfg now, UpdateFunc = updatePodInCache cfg now,
     DeleteFunc = deletePodFromCache cfg now\<rparr>"

definition queueHandler :: "('s, 'w) schedConf \<Rightarrow> int \<Rightarrow> (kpod, 'w scheduler) eventHandler" where
  "queueHandler cfg now = \<lparr>FilterFunc = (\<lambda>pod. \<not> assignedPod pod \<and> responsibleForPod cfg pod), AddFunc = addPodToSchedulingQueue cfg now,
     UpdateFunc = updatePodInSchedulingQueue cfg now, DeleteFunc = deletePodFromSchedulingQueue cfg\<rparr>"

text \<open>Other resources: the events a handler is built for, by the bits of the registered actions.\<close>

definition buildEvtResHandler :: "64 word \<Rightarrow> string \<Rightarrow> string \<Rightarrow> clusterEvent option \<times> clusterEvent option \<times> clusterEvent option" where
  "buildEvtResHandler at gvk shortGVK =
     (if at AND 1 \<noteq> 0 then Some \<lparr>evResource = gvk, evActionType = 1, evLabel = shortGVK @ ''Add''\<rparr> else None,
      if at AND 60 \<noteq> 0 then Some \<lparr>evResource = gvk, evActionType = 60, evLabel = shortGVK @ ''Update''\<rparr> else None,
      if at AND 2 \<noteq> 0 then Some \<lparr>evResource = gvk, evActionType = 2, evLabel = shortGVK @ ''Delete''\<rparr> else None)"

text \<open>The union of the actions that plugins register for a resource; the events come in the order of the map.\<close>

definition unionedGVKs :: "clusterEvent list \<Rightarrow> (string \<times> 64 word) list" where
  "unionedGVKs evts = foldl (\<lambda>m evt. case map_of m (evResource evt) of
       Some a \<Rightarrow> AList.update (evResource evt) (a OR evActionType evt) m
     | None \<Rightarrow> AList.update (evResource evt) (evActionType evt) m) [] evts"

end
