(* ===== verification/Sched_Total.thy ===== *)
theory Sched_Total
  imports Generic_Props Cache_Inv
begin

text \<open>
  The scheduling algorithm returns for every set of plugins, on a snapshot whose nodes are all
  present, and moves the counter of generations by a bounded number of steps: one for every nominated
  pod added to a copy of a node.
\<close>

section \<open>Growth of the counter\<close>

definition grown :: "int \<Rightarrow> int \<Rightarrow> int \<Rightarrow> bool" where
  "grown k gen gen' \<longleftrightarrow> gen \<le> gen' \<and> gen' \<le> gen + k"

lemma grown_trans: "grown j a b \<Longrightarrow> grown k b c \<Longrightarrow> grown (j + k) a c"
  by (simp add: grown_def)

lemma grown_refl: "0 \<le> k \<Longrightarrow> grown k a a"
  by (simp add: grown_def)

lemma grown_mono: "grown j a b \<Longrightarrow> j \<le> k \<Longrightarrow> grown k a b"
  by (simp add: grown_def)

lemma add_nominated_grown:
  assumes "add_nominated g pls pis pod added ni gen sw = (r, gen', sw')" "0 \<le> gen" "gen + int (length pis) < 2 ^ 63"
  shows "grown (int (length pis)) gen gen'"
  using assms
proof (induction g pls pis pod added ni gen sw rule: add_nominated.induct)
  case (2 g pls pi pis pod added ni gen sw)
  obtain ni1 gen1 where a: "AddPodInfo g pi ni gen = (ni1, gen1)" by force
  obtain st sw1 where p: "RunPreFilterExtensionAddPod pls pod pi ni1 sw = (st, sw1)" by (rule prod.exhaust)
  have g1: "gen1 = gen + 1" using AddPodInfo_fields(4) [OF a] nextGeneration_room 2(4,5) by simp
  show ?case
  proof (cases "PodPriority pi \<ge> PodPriority pod \<and> UID pi \<noteq> UID pod")
    case True
    show ?thesis
    proof (cases "IsSuccess st")
      case s: True
      have "add_nominated g pls pis pod True ni1 gen1 sw1 = (r, gen', sw')" using 2(3) True a p s by simp
      then have "grown (int (length pis)) gen1 gen'" using 2(1) [OF True a [symmetric] refl p [symmetric]] s g1 2(4,5) by simp
      then show ?thesis using g1 by (simp add: grown_def)
    next
      case False
      then have "gen' = gen1" using 2(3) True a p by simp
      then show ?thesis using g1 by (simp add: grown_def)
    qed
  next
    case False
    have "add_nominated g pls pis pod added ni gen sw = (r, gen', sw')" using 2(3) False by auto
    then have "grown (int (length pis)) gen gen'" using 2(2) [OF False] 2(4,5) by simp
    then show ?thesis by (simp add: grown_def)
  qed
qed (simp add: grown_def)

lemma addNominatedPods_grown:
  assumes "addNominatedPods g pls nominated pod ni gen sw = (r, gen', sw')" "0 \<le> gen" "gen + N < 2 ^ 63" "\<And>nn. int (length (nominated nn)) \<le> N"
  shows "grown N gen gen'"
proof -
  have N: "0 \<le> N" using assms(4) [of "[]"] by linarith
  show ?thesis
  proof (cases "clones nominated ni")
    case True
    then obtain nd where nd: "node ni = Some nd" "nominated (knodeName nd) \<noteq> []" by (auto simp: clones_def split: option.splits)
    then have "add_nominated g pls (nominated (knodeName nd)) pod False ni gen sw = (r, gen', sw')" using assms(1) by (simp add: addNominatedPods_def)
    then have "grown (int (length (nominated (knodeName nd)))) gen gen'" using assms(2,3) assms(4) [of "knodeName nd"] by (intro add_nominated_grown) simp_all
    then show ?thesis using assms(4) by (rule grown_mono)
  next
    case False
    then have "gen' = gen" using assms(1) by (auto simp: addNominatedPods_def clones_def split: option.splits)
    then show ?thesis using N by (simp add: grown_refl)
  qed
qed

section \<open>Filters\<close>

lemma filter_loop_refusals:
  "refusals acc \<Longrightarrow> refusals (fst (filter_loop runAll pls pod ni acc sw))"
proof (induction runAll pls pod ni acc sw rule: filter_loop.induct)
  case (2 runAll n f pls pod ni acc sw)
  obtain st sw1 where f: "f pod ni sw = (st, sw1)" by (rule prod.exhaust)
  have u: "refusals (AList.update n (SetFailedPlugin n st) acc)" if "IsUnschedulable st"
    using unschedulable_refusal [OF that] by (intro refusals_update [OF 2(3)]) simp
  have e: "refusals [(n, SetFailedPlugin n (AsStatus x))]" for x by (simp add: refusals_def error_refusal)
  show ?case using 2(1) [OF f [symmetric]] 2(2) [OF f [symmetric]] u e f 2(3) by (simp add: Let_def del: append.simps)
qed simp

lemma run_filters_returns:
  assumes "0 \<le> gen" "gen + N < 2 ^ 63" "\<And>nn. int (length (nominated nn)) \<le> N"
  shows "\<exists>st gen' sw'. RunFilterPluginsWithNominatedPods g runAll pfs fs nominated pod ni gen sw = Ret (st, gen', sw') \<and> grown N gen gen'"
proof -
  obtain r gen1 s1 w1 where a: "addNominatedPods g pfs nominated pod ni gen sw = (r, gen1, s1, w1)" by (metis prod_cases4)
  have g: "grown N gen gen1" using addNominatedPods_grown [OF a assms] .
  show ?thesis
  proof (cases r)
    case (Inl e)
    then show ?thesis using a g by (simp add: RunFilterPluginsWithNominatedPods_def)
  next
    case (Inr p)
    obtain added ni1 where p: "p = (added, ni1)" by force
    have m: "\<exists>st. Merge (map snd (fst (RunFilterPlugins runAll fs pod ni sw))) = Ret st" for ni sw
      using Merge_refusals [OF filter_loop_refusals, of "[]" runAll fs pod ni sw] by (auto simp: RunFilterPlugins_def refusals_def)
    obtain m1 s2 w2 where r1: "RunFilterPlugins runAll fs pod ni1 (s1, w1) = (m1, s2, w2)" by (metis prod_cases3)
    define s3 where "s3 = (if clones nominated ni then fst sw else s2)"
    obtain m2 s4 w4 where r2: "RunFilterPlugins runAll fs pod ni (s3, w2) = (m2, s4, w4)" by (metis prod_cases3)
    obtain st1 st2 where "Merge (map snd m1) = Ret st1" "Merge (map snd m2) = Ret st2" using m [of ni1 "(s1, w1)"] m [of ni "(s3, w2)"] r1 r2 by auto
    then show ?thesis using a g Inr p r1 r2 by (simp add: RunFilterPluginsWithNominatedPods_def Let_def s3_def [symmetric])
  qed
qed

text \<open>What a step of the search gives: no nil node, and a counter that has grown.\<close>

lemma check_nodes_returns:
  assumes "0 \<le> gen" "gen + int (length nis) * N < 2 ^ 63" "\<And>nn. int (length (NominatedPodsForNode f nn)) \<le> N"
    "\<forall>ni\<in>set nis. node ni \<noteq> None" "None \<notin> set feasible"
  shows "\<exists>er fs d' gen' sw'. check_nodes f pod limit nis feasible d gen sw = Ret ((er, fs, d'), gen', sw') \<and> None \<notin> set fs \<and>
    grown (int (length nis) * N) gen gen'"
  using assms(1,2,4,5)
proof (induction nis arbitrary: feasible d gen sw)
  case Nil
  then show ?case by (simp add: grown_def)
next
  case (Cons ni nis)
  have N: "0 \<le> N" using assms(3) [of "[]"] by linarith
  have l: "int (length (ni # nis)) * N = N + int (length nis) * N" by (simp add: distrib_right)
  have nl: "0 \<le> int (length nis) * N" using N by simp
  have room: "gen + N < 2 ^ 63" using Cons.prems(2) l nl by simp
  obtain st gen1 sw1 where r: "RunFilterPluginsWithNominatedPods (fwGates f) (runAllFilters f) (preFilterPlugins f) (filterPlugins f)
      (NominatedPodsForNode f) pod ni gen sw = Ret (st, gen1, sw1)" "grown N gen gen1"
    using run_filters_returns [where nominated = "NominatedPodsForNode f", OF Cons.prems(1) room assms(3)] by blast
  have g1: "0 \<le> gen1" "gen1 + int (length nis) * N < 2 ^ 63" using r(2) Cons.prems(1,2) l by (simp_all add: grown_def)
  have live: "\<forall>ni\<in>set nis. node ni \<noteq> None" and ni: "node ni \<noteq> None" using Cons.prems(3) by simp_all
  have rec: "\<exists>er fs d2 gen' sw'. check_nodes f pod limit nis fe d' gen1 sw1 = Ret ((er, fs, d2), gen', sw') \<and> None \<notin> set fs \<and>
      grown (int (length (ni # nis)) * N) gen gen'" if fe: "None \<notin> set fe" for fe d'
  proof -
    obtain er fs d2 gen' sw' where c: "check_nodes f pod limit nis fe d' gen1 sw1 = Ret ((er, fs, d2), gen', sw')" "None \<notin> set fs"
        "grown (int (length nis) * N) gen1 gen'" using Cons.IH [OF g1 live fe] by blast
    have "grown (int (length (ni # nis)) * N) gen gen'" unfolding l by (rule grown_trans [OF r(2) c(3)])
    then show ?thesis using c(1,2) by blast
  qed
  obtain nd where nd: "node ni = Some nd" using ni by blast
  have here: "grown (int (length (ni # nis)) * N) gen gen1" using r(2) nl unfolding l grown_def by linarith
  have "None \<notin> set (feasible @ [node ni])" using Cons.prems(4) nd by simp
  then have ok: "\<exists>er fs d2 gen' sw'. check_nodes f pod limit nis (feasible @ [node ni]) d gen1 sw1 = Ret ((er, fs, d2), gen', sw') \<and> None \<notin> set fs \<and>
      grown (int (length (ni # nis)) * N) gen gen'" by (rule rec)
  show ?case
  proof (cases "Code st = ErrorCode")
    case True
    then show ?thesis using r(1) here Cons.prems(4) by simp
  next
    case False
    show ?thesis
    proof (cases "IsSuccess st")
      case s: True
      show ?thesis
      proof (cases "length feasible + 1 > limit")
        case True
        then show ?thesis using r(1) here Cons.prems(4) False s by simp
      next
        case more: False
        have "check_nodes f pod limit (ni # nis) feasible d gen sw = check_nodes f pod limit nis (feasible @ [node ni]) d gen1 sw1"
          using r(1) False s more by simp
        then show ?thesis using ok by simp
      qed
    next
      case s: False
      have "check_nodes f pod limit (ni # nis) feasible d gen sw = check_nodes f pod limit nis feasible (note_failure (knodeName nd) st d) gen1 sw1"
        using r(1) False s nd by (simp add: node_name_def)
      then show ?thesis using rec [OF Cons.prems(4)] by simp
    qed
  qed
qed

section \<open>The nodes that fit\<close>

text \<open>An extender answers with nodes it was given, none of which is nil.\<close>

definition real_nodes :: "extender list \<Rightarrow> bool" where
  "real_nodes exts \<longleftrightarrow> (\<forall>e\<in>set exts. \<forall>pod ns kept failed unres.
     extFilter e pod ns = Inr (kept, failed, unres) \<longrightarrow> None \<notin> set ns \<longrightarrow> None \<notin> set kept)"

lemma extenders_real:
  assumes "real_nodes exts" "None \<notin> set feasible" "findNodesThatPassExtenders exts pod feasible m = (Inr fs, m')"
  shows "None \<notin> set fs"
  using assms
proof (induction exts pod feasible m rule: findNodesThatPassExtenders.induct)
  case (2 e es pod feasible m)
  have r: "real_nodes es" using 2(4) by (simp add: real_nodes_def)
  show ?case
  proof (cases "feasible = [] \<or> \<not> IsInterested e pod")
    case True
    then show ?thesis using 2(1) [OF _ _ r 2(5)] 2(5,6) by (auto split: if_splits)
  next
    case False
    show ?thesis
    proof (cases "extFilter e pod feasible")
      case (Inl x)
      then show ?thesis using 2(2) [OF _ _ Inl _ r 2(5)] False 2(6) by (auto split: if_splits)
    next
      case (Inr p)
      obtain kept failed unres where p: "p = (kept, failed, unres)" by (metis prod_cases3)
      have "e \<in> set (e # es)" by simp
      then have "None \<notin> set kept" using 2(4,5) Inr p unfolding real_nodes_def by blast
      then show ?thesis using 2(3) [OF _ _ Inr p [symmetric] refl r] False Inr p 2(6) by simp
    qed
  qed
qed simp

text \<open>The outcome of a search: an error or nodes that are not nil, and a counter that has grown.\<close>

definition found :: "int \<Rightarrow> int \<Rightarrow> ((string + knode option list) \<times> diagnosis \<times> nat \<times> int \<times> 's \<times> 'w) go \<Rightarrow> bool" where
  "found k gen r \<longleftrightarrow> (\<exists>out d start gen' sw'. r = Ret (out, d, start, gen', sw') \<and> grown k gen gen' \<and> (\<forall>fs. out = Inr fs \<longrightarrow> None \<notin> set fs))"

lemma pass_filters_found:
  assumes "0 \<le> gen" "gen + int (length nds) * N < 2 ^ 63" "\<And>nn. int (length (NominatedPodsForNode f nn)) \<le> N"
    "\<forall>ni\<in>set nds. node ni \<noteq> None" "nds \<noteq> []"
  shows "found (int (length nds) * N) gen (findNodesThatPassFilters f percentage pod d nds start gen sw)"
proof (cases "filterPlugins f = []")
  case True
  have N: "0 \<le> N" using assms(3) [of "[]"] by linarith
  have "node (nds ! ((start + i) mod length nds)) \<noteq> None" for i using assms(4,5) by simp
  then have "None \<notin> (\<lambda>i. node (nds ! ((start + i) mod length nds))) ` A" for A by (simp add: image_iff eq_commute [of None] del: not_None_eq)
  then show ?thesis using True assms(5) N by (simp add: findNodesThatPassFilters_def Let_def found_def grown_refl)
next
  case False
  let ?lim = "nat (numFeasibleNodesToFind percentage (wrap32 (int (length nds))))"
  obtain er fs d' gen' sw' where "check_nodes f pod ?lim (rotate start nds) [] d gen sw = Ret ((er, fs, d'), gen', sw')" "None \<notin> set fs"
      "grown (int (length nds) * N) gen gen'"
  proof -
    have "gen + int (length (rotate start nds)) * N < 2 ^ 63" "\<forall>ni\<in>set (rotate start nds). node ni \<noteq> None" "None \<notin> set []" using assms(2,4) by simp_all
    then show ?thesis using that check_nodes_returns [OF assms(1) _ assms(3), of "rotate start nds" "[]" pod ?lim d sw] by (metis length_rotate)
  qed
  then show ?thesis using False assms(5) by (cases er) (simp_all add: findNodesThatPassFilters_def Let_def found_def)
qed

lemma extenders_found:
  assumes "found k gen r" "real_nodes exts"
  shows "found k gen (go_bind r (\<lambda>(r, d1, start1, gen1, sw1).
       case r of Inl e \<Rightarrow> Ret (Inl e, d1, start1, gen1, sw1)
       | Inr feasible \<Rightarrow> (case findNodesThatPassExtenders exts pod feasible (NodeToStatusMap d1) of
           (r2, m) \<Rightarrow> Ret (r2, d1\<lparr>NodeToStatusMap := m\<rparr>, start1, gen1, sw1))))"
proof -
  obtain out d start gen' sw' where o: "r = Ret (out, d, start, gen', sw')" "grown k gen gen'" "\<forall>fs. out = Inr fs \<longrightarrow> None \<notin> set fs"
    using assms(1) by (auto simp: found_def)
  show ?thesis
  proof (cases out)
    case (Inr fs)
    obtain r2 m where e: "findNodesThatPassExtenders exts pod fs (NodeToStatusMap d) = (r2, m)" by force
    have "None \<notin> set fs2" if "r2 = Inr fs2" for fs2 using extenders_real [OF assms(2), of fs] o(3) Inr e that by simp
    then show ?thesis using o(1,2) Inr e by (simp add: found_def)
  qed (use o in \<open>simp add: found_def\<close>)
qed

lemma pass_found:
  assumes "0 \<le> gen" "gen + int (length nds) * N < 2 ^ 63" "\<And>nn. int (length (NominatedPodsForNode f nn)) \<le> N"
    "\<forall>ni\<in>set nds. node ni \<noteq> None" "nds \<noteq> []" "real_nodes exts"
  shows "found (int (length nds) * N) gen (pass_filters_and_extenders f percentage exts pod nds d start gen sw)"
  unfolding pass_filters_and_extenders_def by (intro extenders_found [OF _ assms(6)] pass_filters_found assms(1-5))

lemma nominated_found:
  assumes "0 \<le> gen" "gen + N < 2 ^ 63" "\<And>nn. int (length (NominatedPodsForNode f nn)) \<le> N"
    "\<forall>ni\<in>set nds. node ni \<noteq> None" "real_nodes exts"
  shows "found N gen (evaluateNominatedNode f percentage exts pod nds d start gen sw)"
proof (cases "find (\<lambda>ni. map_option knodeName (node ni) = Some (NominatedNodeName pod)) nds")
  case None
  have "0 \<le> N" using assms(3) [of "[]"] by linarith
  then show ?thesis using None by (simp add: evaluateNominatedNode_def found_def grown_refl)
next
  case (Some ni)
  then have "node ni \<noteq> None" by (auto simp: find_Some_iff)
  then have "found (int (length [ni]) * N) gen (findNodesThatPassFilters f percentage pod d [ni] start gen sw)"
    using assms(1-3) by (intro pass_filters_found) simp_all
  then show ?thesis using extenders_found [OF _ assms(5)] Some by (simp add: evaluateNominatedNode_def)
qed

lemma all_failed_returns: "\<forall>ni\<in>set nis. node ni \<noteq> None \<Longrightarrow> \<exists>m'. all_failed nis s m = Ret m'"
  by (induction nis arbitrary: m) (auto simp: node_name_def)

lemma found_mono: "found j gen r \<Longrightarrow> j \<le> k \<Longrightarrow> found k gen r"
  unfolding found_def using grown_mono by blast

lemma fit_found:
  assumes "0 \<le> gen" "gen + (int (length nds) + 1) * N < 2 ^ 63" "\<And>nn. int (length (NominatedPodsForNode f nn)) \<le> N"
    "\<forall>ni\<in>set nds. node ni \<noteq> None" "nds \<noteq> []" "real_nodes exts"
  shows "found ((int (length nds) + 1) * N) gen (findNodesThatFitPod prefer f percentage exts pod nds start gen sw)"
proof -
  have N: "0 \<le> N" using assms(3) [of "[]"] by linarith
  have l: "(int (length nds) + 1) * N = N + int (length nds) * N" by (simp add: distrib_right)
  have nl: "0 \<le> int (length nds) * N" using N by simp
  have pass: "found (int (length nds) * N) gen1 (pass_filters_and_extenders f percentage exts pod nds d start gen1 sw)"
    if "grown N gen gen1" for gen1 d start sw
    using that assms(1,2) l by (intro pass_found assms(3-6)) (simp_all add: grown_def)
  obtain st sw1 where pf: "RunPreFilterPlugins (preFilterPlugins f) pod sw = (st, sw1)" by (rule prod.exhaust)
  let ?d = "\<lparr>NodeToStatusMap = [], UnschedulablePlugins = []\<rparr>"
  have direct: "found ((int (length nds) + 1) * N) gen (pass_filters_and_extenders f percentage exts pod nds ?d start gen sw1)"
    by (rule found_mono [OF pass]) (use N l in \<open>simp_all add: grown_refl\<close>)
  have room: "gen + N < 2 ^ 63" using assms(2) l nl by simp
  obtain out d1 start1 gen1 s2 w2 where e: "evaluateNominatedNode f percentage exts pod nds ?d start gen sw1 = Ret (out, d1, start1, gen1, s2, w2)"
      "grown N gen gen1" "\<forall>fs. out = Inr fs \<longrightarrow> None \<notin> set fs"
    using nominated_found [OF assms(1) room assms(3,4,6), of percentage pod ?d start sw1] unfolding found_def by auto
  have after: "found ((int (length nds) + 1) * N) gen (pass_filters_and_extenders f percentage exts pod nds d1 start1 gen1 (s2, w2))"
    using pass [OF e(2), of d1 start1 "(s2, w2)"] grown_trans [OF e(2)] unfolding found_def l by blast
  have here: "grown ((int (length nds) + 1) * N) gen gen1" using e(2) nl unfolding l grown_def by linarith
  obtain m where m: "all_failed nds st [] = Ret m" using all_failed_returns [OF assms(4)] by blast
  have g0: "grown ((int (length nds) + 1) * N) gen gen" using N by (simp add: grown_refl)
  show ?thesis
  proof (cases "IsSuccess st")
    case False
    then show ?thesis using pf m g0 by (simp add: findNodesThatFitPod_def found_def)
  next
    case s: True
    show ?thesis
    proof (cases "NominatedNodeName pod \<noteq> [] \<and> prefer")
      case False
      then show ?thesis using pf s direct by (auto simp: findNodesThatFitPod_def)
    next
      case True
      have "findNodesThatFitPod prefer f percentage exts pod nds start gen sw =
          (case out of Inr (n # ns) \<Rightarrow> Ret (Inr (n # ns), d1, start1, gen1, s2, w2)
           | _ \<Rightarrow> pass_filters_and_extenders f percentage exts pod nds d1 start1 gen1 (s2, w2))"
        using True pf s e(1) by (simp add: findNodesThatFitPod_def)
      then show ?thesis using after here e(3) by (auto simp: found_def split: sum.splits list.splits)
    qed
  qed
qed

section \<open>The algorithm\<close>

lemma node_names_returns: "None \<notin> set ns \<Longrightarrow> \<exists>xs. node_names ns = Ret xs \<and> length xs = length ns"
  by (induction ns) (auto simp: node_name_def eq_commute [of None] split: option.splits)

lemma prioritize_returns:
  assumes "None \<notin> set ns" shows "\<exists>r sw'. prioritizeNodes exts f pod ns sw = Ret (r, sw')"
  using node_names_returns [OF assms] by (auto simp: prioritizeNodes_def Let_def split: prod.splits)

lemma Schedule_returns:
  assumes "0 \<le> gen" "gen + (int (length nds) + 1) * N < 2 ^ 63" "\<And>nn. int (length (NominatedPodsForNode f nn)) \<le> N"
    "\<forall>ni\<in>set nds. node ni \<noteq> None" "real_nodes exts"
  shows "\<exists>out start' gen' s' w'. Schedule prefer draw f percentage exts pod (Inr nds) start gen sw = Ret (out, start', gen', s', w') \<and>
    grown ((int (length nds) + 1) * N) gen gen'"
proof (cases "nds = []")
  case True
  have "0 \<le> N" using assms(3) [of "[]"] by linarith
  then show ?thesis using True by (cases sw) (simp add: Schedule_def grown_def)
next
  case False
  obtain out d start1 gen1 s1 w1 where e: "findNodesThatFitPod prefer f percentage exts pod nds start gen sw = Ret (out, d, start1, gen1, s1, w1)"
      "grown ((int (length nds) + 1) * N) gen gen1" "\<forall>fs. out = Inr fs \<longrightarrow> None \<notin> set fs"
    using fit_found [OF assms(1-4) False assms(5), of "prefer" percentage pod start sw] unfolding found_def by auto
  show ?thesis
  proof (cases out)
    case (Inl x)
    then show ?thesis using e False by (simp add: Schedule_def)
  next
    case (Inr fs)
    have nn: "None \<notin> set fs" using e(3) Inr by simp
    consider "fs = []" | n where "fs = [n]" | n n2 ns where "fs = n # n2 # ns" by (metis neq_Nil_conv)
    then show ?thesis
    proof cases
      case 3
      obtain r s2 w2 where "prioritizeNodes exts f pod fs (s1, w1) = Ret (r, s2, w2)" using prioritize_returns [OF nn] by (metis surj_pair)
      then show ?thesis using e(1,2) Inr False 3 by (cases r) (auto simp: Schedule_def split: sum.splits)
    qed (use e(1,2) Inr False nn in \<open>auto simp: Schedule_def node_name_def split: option.splits\<close>)
  qed
qed

end
