(* ===== verification/Sched_Effects.thy ===== *)
theory Sched_Effects
  imports Sched_One Sched_Total Snapshot_Props Queue_Props
begin

text \<open>
  What the steps of a scheduling cycle do to the pods the cache knows, and that each of them returns
  and keeps the invariant: the cache and the snapshot of the algorithm are consistent, and the queue
  is in order.
\<close>

section \<open>Effects on the cache\<close>

text \<open>The cache keeps its invariant, moves its counter by at most \<open>k\<close>, and has these states of pods and assumed pods.\<close>

definition becomes :: "int \<Rightarrow> schedulerCache \<Rightarrow> (string \<rightharpoonup> podState) \<Rightarrow> string set \<Rightarrow> schedulerCache \<Rightarrow> bool" where
  "becomes k c M A c' \<longleftrightarrow> keeps c c' \<and> within_gen k c c' \<and> map_of (podStates c') = M \<and> set (assumedPods c') = A"

lemma AssumePod_effect:
  assumes "cache_inv c" "cgeneration c + 2 < 2 ^ 63"
  shows "if UID pod \<noteq> [] \<and> map_of (podStates c) (UID pod) = None
    then \<exists>c'. AssumePod g pod c = Ret (None, c') \<and>
      becomes 2 c ((map_of (podStates c))(UID pod \<mapsto> \<lparr>ps_pod = pod, deadline = None, bindingFinished = False\<rparr>)) (insert (UID pod) (set (assumedPods c))) c'
    else \<exists>e. AssumePod g pod c = Ret (Some e, c)"
proof (cases "UID pod \<noteq> [] \<and> map_of (podStates c) (UID pod) = None")
  case True
  note i = cache_invD [OF assms(1)]
  note a = cache_addPod_views [OF i(1,2) assms(2) refl, of g pod]
  let ?ps = "\<lparr>ps_pod = pod, deadline = None, bindingFinished = False\<rparr>"
  let ?c1 = "cache_addPod g pod c"
  let ?c' = "?c1\<lparr>podStates := AList.update (UID pod) ?ps (podStates ?c1), assumedPods := List.insert (UID pod) (assumedPods ?c1)\<rparr>"
  have "assumed_ok (insert (UID pod) (set (assumedPods c))) ((map_of (podStates c))(UID pod \<mapsto> ?ps))"
    by (intro assumed_okI [OF i(4), of _ "UID pod"]) auto
  moreover have "placed (pods_at (infos ?c1)) ((map_of (podStates c))(UID pod \<mapsto> ?ps))"
    using a True placed_add [OF i(3), of pod ?ps] by simp
  ultimately have "keeps c ?c'" using a i by (intro keepsI) (simp_all add: update_conv')
  moreover have "AssumePod g pod c = Ret (None, ?c')" using True by (simp add: AssumePod_def with_key_def GetPodKey_def Let_def)
  ultimately show ?thesis using a True by (auto simp: becomes_def within_gen_def update_conv')
next
  case False
  then show ?thesis by (auto simp: AssumePod_def with_key_def GetPodKey_def)
qed

lemma ForgetPod_effect:
  assumes "cache_inv c" "cgeneration c + 1 < 2 ^ 63" "map_of (podStates c) (UID pod) = Some ps" "specNodeName pod = specNodeName (ps_pod ps)"
    "UID pod \<in> set (assumedPods c)"
  shows "\<exists>c'. ForgetPod g pod c = Ret (None, c') \<and> becomes 1 c ((map_of (podStates c))(UID pod := None)) (set (assumedPods c) - {UID pod}) c'"
proof -
  obtain c1 where c1: "cache_removePod g pod c = Ret (None, c1)" "podStates c1 = podStates c" "assumedPods c1 = assumedPods c"
    "within_gen 1 c c1" "keeps c (forget_key (UID pod) c1)" using drop_pod [OF assms(1-4), of g] by blast
  have "UID pod \<noteq> []" using cache_invD(3) [OF assms(1)] assms(3) by (simp add: placed_def)
  then have "ForgetPod g pod c = Ret (None, forget_key (UID pod) c1)"
    using assms(3-5) c1(1) by (simp add: ForgetPod_def with_key_def GetPodKey_def)
  then show ?thesis using c1(2-5) by (simp add: becomes_def within_gen_def forget_key_def delete_conv')
qed

lemma finishBinding_effect:
  assumes "cache_inv c" "map_of (podStates c) (UID pod) = Some ps" "UID pod \<in> set (assumedPods c)"
  shows "\<exists>c'. finishBinding pod now c = Ret (None, c') \<and>
    becomes 0 c ((map_of (podStates c))(UID pod \<mapsto> ps\<lparr>bindingFinished := True, deadline := Some (now + ttl c)\<rparr>)) (set (assumedPods c)) c'"
proof -
  let ?ps = "ps\<lparr>bindingFinished := True, deadline := Some (now + ttl c)\<rparr>"
  let ?c' = "c\<lparr>podStates := AList.update (UID pod) ?ps (podStates c)\<rparr>"
  have "keeps c (c\<lparr>assumedPods := assumedPods c, podStates := AList.update (UID pod) ?ps (podStates c)\<rparr>)"
    using state_uid [OF assms(1,2)] cache_invD(5) [OF assms(1)] by (intro change_state [OF assms(1,2)]) simp_all
  moreover have "UID pod \<noteq> []" using cache_invD(3) [OF assms(1)] assms(2) by (simp add: placed_def)
  ultimately show ?thesis using assms(2,3)
    by (auto simp: becomes_def within_gen_def update_conv' finishBinding_def with_key_def GetPodKey_def)
qed

text \<open>The counter of generations can move on without any node being touched.\<close>

lemma infos_gen [simp]: "infos (c\<lparr>cgeneration := g\<rparr>) = infos c" "links (c\<lparr>cgeneration := g\<rparr>) = links c"
  by (simp_all add: infos_def links_def fun_eq_iff)

lemma bump_keeps:
  assumes "cache_inv c" "cgeneration c \<le> g" shows "keeps c (c\<lparr>cgeneration := g\<rparr>)"
proof -
  note i = cache_invD [OF assms(1)]
  obtain xs where x: "linked c xs" "ordered (infos c) (cgeneration c) xs" "treed (infos c) (cnodeTree c)" using i(1) by (auto simp: core_def)
  have "linked (c\<lparr>cgeneration := g\<rparr>) xs" using x(1) by (simp add: linked_def)
  moreover have "ordered (infos c) g xs" using x(2) assms(2) by (auto simp: ordered_def intro: order_trans)
  ultimately have "core (c\<lparr>cgeneration := g\<rparr>)" using x(3) by (auto simp: core_def)
  then show ?thesis using i assms(2) by (intro keepsI) (simp_all add: advances_def)
qed

lemma becomes_trans:
  assumes "becomes j a M A b" "becomes k b M' A' c" shows "becomes (j + k) a M' A' c"
  using assms advances_trans [of a b c] by (auto simp: becomes_def keeps_def within_gen_def)

lemma becomesD:
  assumes "becomes k c M A c'"
  shows "cache_inv c'" "map_of (podStates c') = M" "set (assumedPods c') = A" "cgeneration c' \<le> cgeneration c + k" "advances c c'"
  using assms by (auto simp: becomes_def keeps_def within_gen_def)

lemma becomes_mono: "becomes j c M A c' \<Longrightarrow> j \<le> k \<Longrightarrow> becomes k c M A c'"
  by (auto simp: becomes_def within_gen_def)

lemma becomes_refl: "cache_inv c \<Longrightarrow> 0 \<le> k \<Longrightarrow> becomes k c (map_of (podStates c)) (set (assumedPods c)) c"
  by (simp add: becomes_def within_gen_def)

section \<open>The nodes of the snapshot\<close>

lemma snap_nodes:
  assumes "snap_inv s" "current c s"
  shows "set (snap_List s) = {i. \<exists>nm. nm \<in> present c \<and> infos c nm = Some i}" "length (snap_List s) \<le> length (nodes c)"
proof -
  have m: "map_of (nodeInfoMap s) nm = (if nm \<in> present c then infos c nm else None)" for nm using assms(2) by (simp add: current_def)
  have l: "set (nodeInfoList s) = present c" "distinct (nodeInfoList s)" using assms(1) current_dom [OF assms(2)] by (simp_all add: snap_inv_def)
  have r: "set (read_list s ns) = {i. \<exists>nm\<in>set ns. map_of (nodeInfoMap s) nm = Some i} \<and> length (read_list s ns) \<le> length ns" for ns
    by (induction ns) (auto simp: read_list_def map_filter_simps split: option.splits)
  show "set (snap_List s) = {i. \<exists>nm. nm \<in> present c \<and> infos c nm = Some i}" using r l(1) m by (auto simp: snap_List_def)
  have "present c \<subseteq> set (map fst (nodes c))"
    by (auto simp: present_infos infos_def dest: map_of_SomeD) (metis fst_conv image_iff map_of_SomeD)
  then have "length (nodeInfoList s) \<le> length (map fst (nodes c))"
    using l card_mono [of "set (map fst (nodes c))" "present c"] card_length [of "map fst (nodes c)"] by (metis List.finite_set distinct_card le_trans)
  then show "length (snap_List s) \<le> length (nodes c)" using r [of "nodeInfoList s"] by (simp add: snap_List_def)
qed

section \<open>Invariant and environment\<close>

definition sched_inv :: "('s, 'w) schedConf \<Rightarrow> 'w scheduler \<Rightarrow> bool" where
  "sched_inv cfg sc \<longleftrightarrow> cache_inv (SchedulerCache sc) \<and> snap_inv (nodeInfoSnapshot sc) \<and>
     synced (SchedulerCache sc) (nodeInfoSnapshot sc) \<and> pq_inv (queueConf cfg) (SchedulingQueue sc)"

lemma sched_invD:
  assumes "sched_inv cfg sc"
  shows "cache_inv (SchedulerCache sc)" "snap_inv (nodeInfoSnapshot sc)" "synced (SchedulerCache sc) (nodeInfoSnapshot sc)"
    "pq_inv (queueConf cfg) (SchedulingQueue sc)"
  using assms by (simp_all add: sched_inv_def)

text \<open>The pod exists and has no node, whatever happens in the rest of the world while the cycle runs.\<close>

definition alive :: "('s, 'w) schedConf \<Rightarrow> kpod \<Rightarrow> bool" where
  "alive cfg p \<longleftrightarrow> (\<exists>cached. specNodeName cached = [] \<and> (\<forall>w. cachedPod cfg w (kNamespace p) (kName p) = Some cached))"

text \<open>
  The result of a step: the scheduler is in order, the cache has these pods, and, if \<open>back\<close> is a pod,
  that pod is in a queue again.
\<close>

definition outcome :: "('s, 'w) schedConf \<Rightarrow> (string \<rightharpoonup> podState) \<Rightarrow> string set \<Rightarrow> kpod option \<Rightarrow> 'w scheduler \<Rightarrow> bool" where
  "outcome cfg M A backp sc' \<longleftrightarrow> sched_inv cfg sc' \<and> map_of (podStates (SchedulerCache sc')) = M \<and>
     set (assumedPods (SchedulerCache sc')) = A \<and> (\<forall>p. backp = Some p \<longrightarrow> alive cfg p \<longrightarrow> queued (qabs (SchedulingQueue sc')) p)"

lemma outcome_world [simp]:
  "outcome cfg M A b (sc\<lparr>world := w\<rparr>) = outcome cfg M A b sc" "outcome cfg M A b (sc\<lparr>waitingPods := wp\<rparr>) = outcome cfg M A b sc"
  "sched_inv cfg (sc\<lparr>world := w\<rparr>) = sched_inv cfg sc" "sched_inv cfg (sc\<lparr>waitingPods := wp\<rparr>) = sched_inv cfg sc"
  by (simp_all add: outcome_def sched_inv_def)

text \<open>A step on the cache, and a step on the queue.\<close>

lemma outcome_cache:
  assumes "sched_inv cfg sc" "becomes k (SchedulerCache sc) M A c"
  shows "sched_inv cfg (sc\<lparr>SchedulerCache := c\<rparr>)" "outcome cfg M A None (sc\<lparr>SchedulerCache := c\<rparr>)"
  using sched_invD [OF assms(1)] becomesD [OF assms(2)] synced_advances by (auto simp: sched_inv_def outcome_def)

lemma outcome_queue:
  assumes "outcome cfg M A b sc" "pq_inv (queueConf cfg) q" "\<And>p. backp = Some p \<Longrightarrow> alive cfg p \<Longrightarrow> queued (qabs q) p"
  shows "outcome cfg M A backp (sc\<lparr>SchedulingQueue := q\<rparr>)"
  using assms by (auto simp: sched_inv_def outcome_def)

lemma outcome_here: "sched_inv cfg sc \<Longrightarrow> outcome cfg (map_of (podStates (SchedulerCache sc))) (set (assumedPods (SchedulerCache sc))) None sc"
  by (simp add: outcome_def)

lemma queued_same: "kNamespace p = kNamespace p' \<Longrightarrow> kName p = kName p' \<Longrightarrow> queued m p = queued m p'"
  by (cases m) (simp add: holds_pod_def MetaNamespaceKeyFunc_def GetPodFullName_def)

lemma alive_same: "kNamespace p = kNamespace p' \<Longrightarrow> kName p = kName p' \<Longrightarrow> alive cfg p = alive cfg p'"
  by (simp add: alive_def)

lemma pq_inv_nominated [simp]:
  "pq_inv c (AddNominatedPod c' p nn q) = pq_inv c q" "pq_inv c (DeleteNominatedPodIfExists p q) = pq_inv c q"
  by (simp_all add: pq_inv_def)

locale sched_env =
  fixes cfg :: "('s, 'w) schedConf"
  assumes order: "weak_order (lessFn (queueConf cfg))"
    and lister: "\<And>w ns n p. cachedPod cfg w ns n = Some p \<Longrightarrow> kNamespace p = ns \<and> kName p = n"
    and activated: "\<And>s. list_all pod_ok (PodsToActivate cfg s)"
    and visits: "\<And>ks. mset (visitMap cfg ks) = mset ks"
    and extended: "real_nodes (Extenders cfg)"

sublocale sched_env \<subseteq> q: pq_orders "queueConf cfg"
  by (rule pq_orders.intro) (rule order)

context sched_env
begin

lemma defaultErrorFunc_outcome:
  assumes "outcome cfg M A b sc" "pod_ok (qPod pi)"
  shows "\<exists>pi' sc'. defaultErrorFunc cfg now pi er sc = Ret (pi', sc') \<and> outcome cfg M A (Some (qPod pi)) sc'"
proof -
  let ?p = "qPod pi"
  have i: "sched_inv cfg sc" using assms(1) by (simp add: outcome_def)
  define pi1 where "pi1 = (case er of FitError k d \<Rightarrow> pi\<lparr>queuedPodInfo.UnschedulablePlugins := diagnosis.UnschedulablePlugins d\<rparr> | _ \<Rightarrow> pi)"
  have gone: "outcome cfg M A (Some ?p) sc" if "\<not> alive cfg ?p" using assms(1) that by (simp add: outcome_def)
  show ?thesis
  proof (cases "\<exists>cached. cachedPod cfg (world sc) (kNamespace ?p) (kName ?p) = Some cached \<and> specNodeName cached = []")
    case True
    then obtain cached where cd: "cachedPod cfg (world sc) (kNamespace ?p) (kName ?p) = Some cached" "specNodeName cached = []" by blast
    have n: "kNamespace cached = kNamespace ?p" "kName cached = kName ?p" using lister [OF cd(1)] by simp_all
    then have "pod_ok (qPod (pi1\<lparr>qPod := cached\<rparr>))" using assms(2) by (simp add: pod_ok_def)
    then obtain r q' where q': "AddUnschedulableIfNotPresent (queueConf cfg) now (pi1\<lparr>qPod := cached\<rparr>) (schedulingCycle (SchedulingQueue sc)) (SchedulingQueue sc) = Ret (r, q')"
      "pq_inv (queueConf cfg) q'" "queued (qabs q') (qPod (pi1\<lparr>qPod := cached\<rparr>))" using q.AddUnschedulable_inv [OF sched_invD(4) [OF i]] by metis
    have "outcome cfg M A (Some ?p) (sc\<lparr>SchedulingQueue := q'\<rparr>)"
      using q'(3) queued_same [OF n] by (intro outcome_queue [OF assms(1) q'(2)]) simp
    then show ?thesis using cd q'(1) unfolding defaultErrorFunc_def Let_def pi1_def [symmetric] by simp
  next
    case False
    then have "\<not> alive cfg ?p" by (auto simp: alive_def)
    then show ?thesis using gone False unfolding defaultErrorFunc_def Let_def pi1_def [symmetric] by (auto split: option.splits)
  qed
qed

lemma recordSchedulingFailure_outcome:
  assumes "outcome cfg M A b sc" "pod_ok (qPod pi)"
  shows "\<exists>sc'. recordSchedulingFailure cfg now pi er reason nn sc = Ret sc' \<and> outcome cfg M A (Some (qPod pi)) sc'"
proof -
  obtain pi' sc' where e: "defaultErrorFunc cfg now pi er sc = Ret (pi', sc')" "outcome cfg M A (Some (qPod pi)) sc'"
    using defaultErrorFunc_outcome [OF assms] by blast
  have "pq_inv (queueConf cfg) (SchedulingQueue sc')" "alive cfg (qPod pi) \<Longrightarrow> queued (qabs (SchedulingQueue sc')) (qPod pi)"
    using e(2) by (auto simp: outcome_def sched_inv_def)
  then have "outcome cfg M A (Some (qPod pi)) (sc'\<lparr>SchedulingQueue := AddNominatedPod (queueConf cfg) (qPod pi') nn (SchedulingQueue sc')\<rparr>)"
    by (intro outcome_queue [OF e(2)]) simp_all
  then show ?thesis using e(1) by (simp add: recordSchedulingFailure_def Let_def outcome_def sched_inv_def)
qed

text \<open>A pod that was assumed is released: its state is forgotten and it goes back to a queue.\<close>

lemma releasePod_outcome:
  assumes "sched_inv cfg sc" "cgeneration (SchedulerCache sc) + 1 < 2 ^ 63" "pod_ok (qPod pinfo)" "p = qPod pinfo"
    "map_of (podStates (SchedulerCache sc)) (UID p) = Some ps" "specNodeName p = specNodeName (ps_pod ps)" "UID p \<in> set (assumedPods (SchedulerCache sc))"
  shows "\<exists>sc'. releasePod cfg now f pinfo host state er reason sc = Ret sc' \<and>
    outcome cfg ((map_of (podStates (SchedulerCache sc)))(UID p := None)) (set (assumedPods (SchedulerCache sc)) - {UID p}) (Some p) sc'"
proof -
  obtain s1 w1 where u: "RunReservePluginsUnreserve (reservePlugins f) p host (state, world sc) = (s1, w1)" by (rule prod.exhaust)
  obtain c where c: "ForgetPod (schedGates cfg) p (SchedulerCache sc) = Ret (None, c)"
    "becomes 1 (SchedulerCache sc) ((map_of (podStates (SchedulerCache sc)))(UID p := None)) (set (assumedPods (SchedulerCache sc)) - {UID p}) c"
    using ForgetPod_effect [OF sched_invD(1) [OF assms(1)] assms(2,5-7)] by blast
  have "outcome cfg ((map_of (podStates (SchedulerCache sc)))(UID p := None)) (set (assumedPods (SchedulerCache sc)) - {UID p}) None (sc\<lparr>SchedulerCache := c, world := w1\<rparr>)"
    using outcome_cache(2) [OF assms(1) c(2)] by (simp add: outcome_def sched_inv_def)
  then show ?thesis using recordSchedulingFailure_outcome [OF _ assms(3)] u c(1) unfolding assms(4) by (simp add: releasePod_def)
qed

end

end
