(* ===== verification/Sched_One_Props.thy ===== *)
theory Sched_One_Props
  imports Sched_Effects
begin

text \<open>
  The scheduling cycle and the binding cycle as a whole: a cycle that fails leaves the cache with the
  pods it had, one that succeeds has assumed the pod on the suggested host, and binding settles an
  assumed pod one way or the other. Interfaces of \<open>Sched_Effects\<close> are used through the environment
  \<open>sched_env\<close> of the scheduler.
\<close>

section \<open>Plugins after the filters\<close>

lemma post_filter_returns: "refusals m0 \<Longrightarrow> \<exists>r sw'. post_filter_loop pls pod m m0 sw = Ret (r, sw')"
proof (induction pls pod m m0 sw rule: post_filter_loop.induct)
  case (1 pod m m0 sw)
  then show ?case using Merge_refusals by fastforce
next
  case (2 n f pls pod m m0 sw)
  obtain r s sw1 where f: "f pod m sw = ((r, s), sw1)" by (metis surj_pair)
  have "refusals (AList.update n s m0)" if "IsUnschedulable s" using refusals_update [OF 2(2) unschedulable_refusal [OF that]] .
  then show ?case using 2(1) [OF f [symmetric] refl] f by auto
qed

lemma refusals_Nil: "refusals []"
  by (simp add: refusals_def)

lemma postFilter_returns: "\<exists>nn s w. postFilter f pod er sw = Ret (nn, s, w)"
proof (cases er)
  case (FitError k d)
  obtain r st s w where "post_filter_loop (postFilterPlugins f) pod (NodeToStatusMap d) [] sw = Ret ((r, st), s, w)"
    using post_filter_returns [of "[]"] by (metis refusals_Nil surj_pair)
  then show ?thesis using FitError by (cases sw) (simp add: postFilter_def RunPostFilterPlugins_def)
qed (cases sw; simp add: postFilter_def)+

section \<open>The algorithm in the cycle\<close>

lemma bump_outcome:
  assumes "sched_inv cfg sc" "snap_inv snap" "synced (SchedulerCache sc) snap" "cgeneration (SchedulerCache sc) \<le> gen"
    "sc' = sc\<lparr>nodeInfoSnapshot := snap, nextStartNodeIndex := st, SchedulerCache := (SchedulerCache sc)\<lparr>cgeneration := gen\<rparr>, world := w\<rparr>"
  shows "sched_inv cfg sc'"
proof -
  have "keeps (SchedulerCache sc) ((SchedulerCache sc)\<lparr>cgeneration := gen\<rparr>)" by (rule bump_keeps [OF sched_invD(1) [OF assms(1)] assms(4)])
  then show ?thesis using assms(1-3,5) synced_advances [OF assms(3)] by (auto simp: sched_inv_def keeps_def)
qed

text \<open>What the algorithm may add to the counter of generations: \<open>N\<close> bounds the pods nominated to a node.\<close>

definition growth :: "'w scheduler \<Rightarrow> int \<Rightarrow> int" where
  "growth sc N = (int (length (nodes (SchedulerCache sc))) + 1) * N"

context sched_env
begin

lemma runAlgorithm_outcome:
  assumes "sched_inv cfg sc" "\<And>nn. int (length (pq_NominatedPodsForNode (SchedulingQueue sc) nn)) \<le> N"
    "cgeneration (SchedulerCache sc) + growth sc N < 2 ^ 63"
  obtains out start gen state1 w1 snap where
    "runAlgorithm cfg f pod state sc = Ret (out, state1, sc\<lparr>nodeInfoSnapshot := snap, nextStartNodeIndex := start,
       SchedulerCache := (SchedulerCache sc)\<lparr>cgeneration := gen\<rparr>, world := w1\<rparr>)"
    "Schedule (preferNominated cfg) (randDraw cfg) (f\<lparr>NominatedPodsForNode := pq_NominatedPodsForNode (SchedulingQueue sc)\<rparr>)
       (percentageOfNodesToScore cfg) (Extenders cfg) pod (Inr (snap_List snap)) (nextStartNodeIndex sc) (cgeneration (SchedulerCache sc)) (state, world sc)
     = Ret (out, start, gen, state1, w1)"
    "snap_inv snap" "current (SchedulerCache sc) snap" "synced (SchedulerCache sc) snap"
    "cgeneration (SchedulerCache sc) \<le> gen" "gen \<le> cgeneration (SchedulerCache sc) + growth sc N"
proof -
  let ?c = "SchedulerCache sc" let ?f = "f\<lparr>NominatedPodsForNode := pq_NominatedPodsForNode (SchedulingQueue sc)\<rparr>"
  note i = sched_invD [OF assms(1)]
  obtain snap where s: "UpdateSnapshot (visitMap cfg) ?c (nodeInfoSnapshot sc) = Ret (None, snap)" "snap_inv snap" "current ?c snap" "synced ?c snap"
    using UpdateSnapshot_current [OF cache_invD(1) [OF i(1)] i(2,3) visits] by blast
  have N: "0 \<le> N" using assms(2) [of "[]"] by linarith
  have "(int (length (snap_List snap)) + 1) * N \<le> growth sc N"
    unfolding growth_def using snap_nodes(2) [OF s(2,3)] N by (intro mult_right_mono) simp_all
  then have r: "cgeneration ?c + (int (length (snap_List snap)) + 1) * N < 2 ^ 63" using assms(3) by linarith
  have live: "\<forall>ni\<in>set (snap_List snap). node ni \<noteq> None" using snap_nodes(1) [OF s(2,3)] by (auto simp: present_infos)
  obtain out start gen state1 w1 where a: "Schedule (preferNominated cfg) (randDraw cfg) ?f (percentageOfNodesToScore cfg) (Extenders cfg) pod
       (Inr (snap_List snap)) (nextStartNodeIndex sc) (cgeneration ?c) (state, world sc) = Ret (out, start, gen, state1, w1)"
     "grown ((int (length (snap_List snap)) + 1) * N) (cgeneration ?c) gen"
    using Schedule_returns [OF cache_invD(2) [OF i(1)] r _ live extended, of ?f "preferNominated cfg" "randDraw cfg" "percentageOfNodesToScore cfg" pod
      "nextStartNodeIndex sc" "(state, world sc)"] assms(2) by auto
  have g: "cgeneration ?c \<le> gen" "gen \<le> cgeneration ?c + growth sc N"
    using a(2) \<open>(int (length (snap_List snap)) + 1) * N \<le> growth sc N\<close> unfolding grown_def by linarith+
  show ?thesis using that [OF _ a(1) s(2-4) g] s(1) a(1) by (simp add: runAlgorithm_def)
qed

lemma reserveAndPermit_outcome:
  assumes "sched_inv cfg sc" "cgeneration (SchedulerCache sc) + 1 < 2 ^ 63" "pod_ok (qPod pinfo)" "p = qPod pinfo"
    "M = map_of (podStates (SchedulerCache sc))" "A = set (assumedPods (SchedulerCache sc))"
    "M (UID p) = Some ps" "specNodeName p = specNodeName (ps_pod ps)" "UID p \<in> A"
  shows "\<exists>r sc'. reserveAndPermit cfg now f pinfo host state sc = Ret (r, sc') \<and>
    (r = FailedPod \<and> outcome cfg (M(UID p := None)) (A - {UID p}) (Some p) sc' \<or>
     (\<exists>s. r = AssumedPod \<lparr>btPodInfo = pinfo, btHost = host, btState = s\<rparr> \<and> outcome cfg M A None sc'))"
proof -
  obtain sts s1 w1 where r: "RunReservePluginsReserve (reservePlugins f) p host (state, world sc) = (sts, s1, w1)" by (metis prod_cases3)
  obtain pst wps s2 w2 where pm: "RunPermitPlugins (permitPlugins f) p host (waitingPods sc (SchedulerName p)) (s1, w1) = ((pst, wps), s2, w2)"
    by (metis surj_pair)
  note rel = releasePod_outcome [OF _ _ assms(3,4) _ assms(8)]
  have failed: "\<exists>sc'. releasePod cfg now f pinfo host s e reason (sc\<lparr>world := w\<rparr>) = Ret sc' \<and> outcome cfg (M(UID p := None)) (A - {UID p}) (Some p) sc'"
    "\<exists>sc'. releasePod cfg now f pinfo host s e reason (sc\<lparr>world := w, waitingPods := wp\<rparr>) = Ret sc' \<and> outcome cfg (M(UID p := None)) (A - {UID p}) (Some p) sc'"
    for s e reason w wp
    using rel [of "sc\<lparr>world := w\<rparr>" now f host s e reason] rel [of "sc\<lparr>world := w, waitingPods := wp\<rparr>" now f host s e reason] assms by simp_all
  have o: "outcome cfg M A None sc" unfolding assms(5,6) by (rule outcome_here [OF assms(1)])
  obtain q where q: "Activate (queueConf cfg) (PodsToActivate cfg s2) (SchedulingQueue sc) = Ret q" "pq_inv (queueConf cfg) q"
    using q.Activate_inv [OF sched_invD(4) [OF assms(1)] activated] by blast
  have oq: "outcome cfg M A None (sc\<lparr>world := w2, waitingPods := wp, SchedulingQueue := q\<rparr>)" for wp
    by (rule outcome_queue [where b = None, OF _ q(2)]) (simp_all add: o)
  have p: "qPod pinfo = p" by (simp add: assms(4))
  consider "\<not> IsSuccess sts" | "IsSuccess sts" "Code pst \<noteq> Wait \<and> \<not> IsSuccess pst"
    | "IsSuccess sts" "\<not> (Code pst \<noteq> Wait \<and> \<not> IsSuccess pst)" by blast
  then show ?thesis
  proof cases
    case 1
    then show ?thesis using failed(1) [of s1 "error_text sts" SchedulerError w1] r by (auto simp: reserveAndPermit_def p)
  next
    case 2
    obtain sc' where "releasePod cfg now f pinfo host s2 (error_text pst) (if IsUnschedulable pst then unschedulableReason else SchedulerError)
        (sc\<lparr>world := w2, waitingPods := (waitingPods sc)(SchedulerName p := wps)\<rparr>) = Ret sc'"
        "outcome cfg (M(UID p := None)) (A - {UID p}) (Some p) sc'" using failed(2) by blast
    then show ?thesis using 2 r pm by (auto simp: reserveAndPermit_def p)
  next
    case 3
    then show ?thesis using o oq q(1) r pm by (auto simp: reserveAndPermit_def p Let_def)
  qed
qed

lemma assume_outcome:
  assumes "sched_inv cfg sc" "cgeneration (SchedulerCache sc) + 2 < 2 ^ 63" "p' = p\<lparr>specNodeName := host\<rparr>"
    "M = map_of (podStates (SchedulerCache sc))" "A = set (assumedPods (SchedulerCache sc))"
  shows "if UID p \<noteq> [] \<and> M (UID p) = None
    then \<exists>sc'. sched_assume cfg p host sc = Ret (None, p', sc') \<and> cgeneration (SchedulerCache sc') \<le> cgeneration (SchedulerCache sc) + 2 \<and>
      outcome cfg (M(UID p \<mapsto> \<lparr>ps_pod = p', deadline = None, bindingFinished = False\<rparr>)) (insert (UID p) A) None sc'
    else \<exists>e. sched_assume cfg p host sc = Ret (Some e, p', sc)"
proof (cases "UID p \<noteq> [] \<and> M (UID p) = None")
  case True
  let ?M = "M(UID p \<mapsto> \<lparr>ps_pod = p', deadline = None, bindingFinished = False\<rparr>)" let ?A = "insert (UID p) A"
  have u: "UID p' = UID p" by (simp add: assms(3))
  obtain c where c: "AssumePod (schedGates cfg) p' (SchedulerCache sc) = Ret (None, c)" "becomes 2 (SchedulerCache sc) ?M ?A c"
    using AssumePod_effect [OF sched_invD(1) [OF assms(1)] assms(2), of p' "schedGates cfg"] True by (auto simp: u assms(4,5))
  let ?sc = "sc\<lparr>SchedulerCache := c, SchedulingQueue := DeleteNominatedPodIfExists p' (SchedulingQueue sc)\<rparr>"
  have "outcome cfg ?M ?A None ?sc"
    by (rule outcome_queue [OF outcome_cache(2) [OF assms(1) c(2)]]) (simp_all add: sched_invD(4) [OF assms(1)])
  then show ?thesis using True c(1) becomesD(4) [OF c(2)] by (simp add: sched_assume_def Let_def assms(3))
next
  case False
  then obtain e where "AssumePod (schedGates cfg) p' (SchedulerCache sc) = Ret (Some e, SchedulerCache sc)"
    using AssumePod_effect [OF sched_invD(1) [OF assms(1)] assms(2), of p' "schedGates cfg"] by (auto simp: assms(3,4) split: if_splits)
  then show ?thesis using False by (auto simp: sched_assume_def Let_def assms(3))
qed

end

text \<open>The host is what the algorithm suggests on a snapshot of the cache as it is.\<close>

definition suggested :: "('s, 'w) schedConf \<Rightarrow> ('s, 'w) fwk \<Rightarrow> kpod \<Rightarrow> 'w scheduler \<Rightarrow> string \<Rightarrow> bool" where
  "suggested cfg f pod sc host \<longleftrightarrow> (\<exists>snap res rest. snap_inv snap \<and> current (SchedulerCache sc) snap \<and> host = SuggestedHost res \<and>
     Schedule (preferNominated cfg) (randDraw cfg) (f\<lparr>NominatedPodsForNode := pq_NominatedPodsForNode (SchedulingQueue sc)\<rparr>)
       (percentageOfNodesToScore cfg) (Extenders cfg) pod (Inr (snap_List snap)) (nextStartNodeIndex sc) (cgeneration (SchedulerCache sc))
       (NewCycleState cfg, world sc) = Ret (Inr res, rest))"

text \<open>
  How a cycle for a pod may end: it failed, and the cache has the pods it had; or the pod is assumed on
  the suggested host, and the binding cycle gets it.
\<close>

definition settled :: "('s, 'w) schedConf \<Rightarrow> ('s, 'w) fwk \<Rightarrow> kpod \<Rightarrow> 'w scheduler \<Rightarrow> 's cycle_end \<Rightarrow> 'w scheduler \<Rightarrow> bool" where
  "settled cfg f p sc r sc' \<longleftrightarrow>
     (let M = map_of (podStates (SchedulerCache sc)); A = set (assumedPods (SchedulerCache sc)) in
      r = FailedPod \<and> outcome cfg M A (Some p) sc' \<or>
      (\<exists>bt host. r = AssumedPod bt \<and> suggested cfg f p sc host \<and> btHost bt = host \<and> qPod (btPodInfo bt) = p\<lparr>specNodeName := host\<rparr> \<and>
         UID p \<noteq> [] \<and> M (UID p) = None \<and>
         outcome cfg (M(UID p \<mapsto> \<lparr>ps_pod = p\<lparr>specNodeName := host\<rparr>, deadline = None, bindingFinished = False\<rparr>)) (insert (UID p) A) None sc'))"

lemma pod_ok_host [simp]: "pod_ok (p\<lparr>specNodeName := h\<rparr>) = pod_ok p"
  by (simp add: pod_ok_def)

lemma outcome_back_host:
  "outcome cfg M A (Some (p\<lparr>specNodeName := h\<rparr>)) sc = outcome cfg M A (Some p) sc"
  using queued_same [of "p\<lparr>specNodeName := h\<rparr>" p] alive_same [of "p\<lparr>specNodeName := h\<rparr>" p cfg] by (simp add: outcome_def)

text \<open>How a cycle may end: with no pod to schedule and nothing changed in the cache, or settled for the next pod.\<close>

definition cycle_result :: "('s, 'w) schedConf \<Rightarrow> 'w scheduler \<Rightarrow> 's cycle_end \<Rightarrow> 'w scheduler \<Rightarrow> bool" where
  "cycle_result cfg sc r sc' \<longleftrightarrow> r \<in> {WaitForPod, NoPod, NoProfile, SkippedPod} \<and>
       outcome cfg (map_of (podStates (SchedulerCache sc))) (set (assumedPods (SchedulerCache sc))) None sc' \<or>
     (\<exists>pi f q. MakeNextPodFunc (queueConf cfg) (SchedulingQueue sc) = Ret (Some (Some pi), q) \<and> Profiles cfg (SchedulerName (qPod pi)) = Some f \<and>
        settled cfg f (qPod pi) sc r sc')"

context sched_env
begin

lemma schedulePod_outcome:
  assumes "sched_inv cfg sc" "\<And>nn. int (length (pq_NominatedPodsForNode (SchedulingQueue sc) nn)) \<le> N"
    "cgeneration (SchedulerCache sc) + growth sc N + 3 < 2 ^ 63" "pod_ok (qPod podInfo)"
  shows "\<exists>r sc'. schedulePod cfg now f podInfo sc = Ret (r, sc') \<and> settled cfg f (qPod podInfo) sc r sc'"
proof -
  let ?p = "qPod podInfo" let ?c = "SchedulerCache sc"
  define M where "M = map_of (podStates ?c)"
  define A where "A = set (assumedPods ?c)"
  have r0: "cgeneration ?c + growth sc N < 2 ^ 63" using assms(3) by linarith
  obtain out start gen s1 w1 snap where a: "runAlgorithm cfg f ?p (NewCycleState cfg) sc = Ret (out, s1, sc\<lparr>nodeInfoSnapshot := snap,
       nextStartNodeIndex := start, SchedulerCache := ?c\<lparr>cgeneration := gen\<rparr>, world := w1\<rparr>)"
    "Schedule (preferNominated cfg) (randDraw cfg) (f\<lparr>NominatedPodsForNode := pq_NominatedPodsForNode (SchedulingQueue sc)\<rparr>)
       (percentageOfNodesToScore cfg) (Extenders cfg) ?p (Inr (snap_List snap)) (nextStartNodeIndex sc) (cgeneration ?c) (NewCycleState cfg, world sc)
     = Ret (out, start, gen, s1, w1)"
    "snap_inv snap" "current ?c snap" "synced ?c snap" "cgeneration ?c \<le> gen" "gen \<le> cgeneration ?c + growth sc N"
    using runAlgorithm_outcome [OF assms(1,2) r0, where f = f and pod = ?p and state = "NewCycleState cfg"] by metis
  define sc1 where "sc1 = sc\<lparr>nodeInfoSnapshot := snap, nextStartNodeIndex := start, SchedulerCache := ?c\<lparr>cgeneration := gen\<rparr>, world := w1\<rparr>"
  have i1: "sched_inv cfg sc1" by (rule bump_outcome [OF assms(1) a(3,5,6) sc1_def])
  have v: "map_of (podStates (SchedulerCache sc1)) = M" "set (assumedPods (SchedulerCache sc1)) = A" "cgeneration (SchedulerCache sc1) = gen"
    by (simp_all add: sc1_def M_def A_def)
  have o1: "outcome cfg M A None sc1" using outcome_here [OF i1] v by simp
  note a1 = a(1) [folded sc1_def]
  show ?thesis
  proof (cases out)
    case (Inl er)
    obtain nn s w where pf: "postFilter f ?p er (s1, world sc1) = Ret (nn, s, w)" using postFilter_returns [of f ?p er "(s1, world sc1)"] by blast
    obtain sc' where "recordSchedulingFailure cfg now podInfo er unschedulableReason nn (sc1\<lparr>world := w\<rparr>) = Ret sc'" "outcome cfg M A (Some ?p) sc'"
      using recordSchedulingFailure_outcome [of M A None "sc1\<lparr>world := w\<rparr>" podInfo now er unschedulableReason nn] o1 assms(4) by auto
    then show ?thesis using a1 Inl pf by (auto simp: schedulePod_def settled_def M_def A_def Let_def)
  next
    case (Inr res)
    define host where "host = SuggestedHost res"
    let ?p' = "?p\<lparr>specNodeName := host\<rparr>" let ?pi = "(queued_DeepCopy podInfo)\<lparr>qPod := ?p'\<rparr>"
    have sg: "suggested cfg f ?p sc host" unfolding suggested_def host_def using a(2-4) Inr by blast
    have r1: "cgeneration (SchedulerCache sc1) + 2 < 2 ^ 63" using v(3) a(7) assms(3) by linarith
    note as = assume_outcome [OF i1 r1 refl v(1,2) [symmetric], of ?p host]
    show ?thesis
    proof (cases "UID ?p \<noteq> [] \<and> M (UID ?p) = None")
      case True
      let ?ps = "\<lparr>ps_pod = ?p', deadline = None, bindingFinished = False\<rparr>"
      obtain sc2 where s2: "sched_assume cfg ?p host sc1 = Ret (None, ?p', sc2)" "cgeneration (SchedulerCache sc2) \<le> cgeneration (SchedulerCache sc1) + 2"
        "outcome cfg (M(UID ?p \<mapsto> ?ps)) (insert (UID ?p) A) None sc2" using as True by auto
      have i2: "sched_inv cfg sc2" "map_of (podStates (SchedulerCache sc2)) = M(UID ?p \<mapsto> ?ps)" "set (assumedPods (SchedulerCache sc2)) = insert (UID ?p) A"
        using s2(3) by (simp_all add: outcome_def)
      have r2: "cgeneration (SchedulerCache sc2) + 1 < 2 ^ 63" using s2(2) v(3) a(7) assms(3) by linarith
      have "UID ?p \<notin> A" using cache_invD(4) [OF sched_invD(1) [OF assms(1)]] True by (auto simp: assumed_ok_def M_def A_def)
      then have undo: "(M(UID ?p \<mapsto> ?ps))(UID ?p := None) = M" "insert (UID ?p) A - {UID ?p} = A" using True by (auto simp: fun_upd_idem)
      obtain r sc' where rp: "reserveAndPermit cfg now f ?pi host s1 sc2 = Ret (r, sc')"
        "r = FailedPod \<and> outcome cfg M A (Some ?p) sc' \<or>
         (\<exists>s. r = AssumedPod \<lparr>btPodInfo = ?pi, btHost = host, btState = s\<rparr> \<and> outcome cfg (M(UID ?p \<mapsto> ?ps)) (insert (UID ?p) A) None sc')"
        using reserveAndPermit_outcome [OF i2(1) r2, of ?pi ?p' "M(UID ?p \<mapsto> ?ps)" "insert (UID ?p) A" ?ps now f host s1] i2(2,3) assms(4) undo
        by (auto simp: outcome_back_host)
      then have "settled cfg f ?p sc r sc'" using True sg unfolding settled_def Let_def M_def [symmetric] A_def [symmetric] by auto
      moreover have "schedulePod cfg now f podInfo sc = Ret (r, sc')" using a1 Inr s2(1) rp(1) by (simp add: schedulePod_def host_def Let_def)
      ultimately show ?thesis by blast
    next
      case False
      then obtain e where e: "sched_assume cfg ?p host sc1 = Ret (Some e, ?p', sc1)" using as by auto
      obtain sc' where "recordSchedulingFailure cfg now ?pi (OtherError e) SchedulerError [] sc1 = Ret sc'" "outcome cfg M A (Some ?p) sc'"
        using recordSchedulingFailure_outcome [OF o1, of ?pi now "OtherError e" SchedulerError "[]"] assms(4) by (auto simp: outcome_back_host)
      then show ?thesis using a1 Inr e by (auto simp: schedulePod_def host_def settled_def M_def A_def Let_def)
    qed
  qed
qed

lemma sched_bind_shape:
  assumes "P sc" "\<And>sc w. P sc \<Longrightarrow> P (sc\<lparr>world := w\<rparr>)" "\<And>sc w. Q sc \<Longrightarrow> Q (sc\<lparr>world := w\<rparr>)"
    "\<And>sc. P sc \<Longrightarrow> \<exists>e c. finishBinding p now (SchedulerCache sc) = Ret (e, c) \<and> Q (sc\<lparr>SchedulerCache := c\<rparr>)"
  shows "\<exists>er s' sc'. sched_bind cfg now f p host s sc = Ret (er, s', sc') \<and> Q sc'"
proof -
  obtain er s' w' where b: "(case extendersBinding (Extenders cfg) p host of (True, e) \<Rightarrow> (e, s, world sc)
       | (False, _) \<Rightarrow> (case RunBindPlugins (bindPlugins f) p host (s, world sc) of (bindStatus, s1, w1) \<Rightarrow>
           (if IsSuccess bindStatus then None
            else if Code bindStatus = ErrorCode then Some (error_text bindStatus)
            else Some (''bind status: '' @ code_string (Code bindStatus) @ '', '' @ Message bindStatus), s1, w1))) = (er, s', w')"
    by (rule prod_cases3)
  obtain e c where f: "finishBinding p now (SchedulerCache (sc\<lparr>world := w'\<rparr>)) = Ret (e, c)" "Q (sc\<lparr>world := w', SchedulerCache := c\<rparr>)"
    using assms(4) [OF assms(2) [OF assms(1)]] by blast
  have "\<exists>sc'. sched_finishBinding cfg now p host er (sc\<lparr>world := w'\<rparr>) = Ret sc' \<and> Q sc'"
    using f(1) f(2) assms(3) [OF f(2)] by (simp add: sched_finishBinding_def Let_def)
  then show ?thesis using b by (auto simp: sched_bind_def)
qed

text \<open>
  The binding cycle, for any condition \<open>P\<close> on the scheduler under which the pod can be released (then
  \<open>R\<close> holds) and its binding can be finished (then \<open>Q\<close> holds, and the pod can still be released).
\<close>

lemma bindingCycle_shape:
  assumes "P sc" "\<And>sc w wp. P sc \<Longrightarrow> P (sc\<lparr>world := w\<rparr>) \<and> P (sc\<lparr>waitingPods := wp\<rparr>)" "\<And>sc w. Q sc \<Longrightarrow> Q (sc\<lparr>world := w\<rparr>)"
    "\<And>sc q. Q sc \<Longrightarrow> pq_inv (queueConf cfg) q \<Longrightarrow> Q (sc\<lparr>SchedulingQueue := q\<rparr>)" "\<And>sc. Q sc \<Longrightarrow> pq_inv (queueConf cfg) (SchedulingQueue sc)"
    "\<And>sc s e reason. P sc \<or> Q sc \<Longrightarrow> \<exists>sc'. releasePod cfg now f (btPodInfo bt) (btHost bt) s e reason sc = Ret sc' \<and> R sc'"
    "\<And>sc. P sc \<Longrightarrow> \<exists>e c. finishBinding (qPod (btPodInfo bt)) now (SchedulerCache sc) = Ret (e, c) \<and> Q (sc\<lparr>SchedulerCache := c\<rparr>)"
    "\<And>wp. waitingPods sc (SchedulerName (qPod (btPodInfo bt))) (UID (qPod (btPodInfo bt))) = Some wp \<Longrightarrow> wpSignal wp \<noteq> None"
  shows "\<exists>b sc'. bindingCycle cfg now f bt sc = Ret (b, sc') \<and> (if b then Q sc' else R sc')"
proof -
  let ?p = "qPod (btPodInfo bt)" let ?pi = "btPodInfo bt" let ?h = "btHost bt"
  obtain st wps where w: "WaitOnPermit ?p (waitingPods sc (SchedulerName ?p)) = Ret (st, wps)"
    using assms(8) by (cases "waitingPods sc (SchedulerName ?p) (UID ?p)") (auto simp: WaitOnPermit_def)
  define sc1 where "sc1 = sc\<lparr>waitingPods := (waitingPods sc)(SchedulerName ?p := wps)\<rparr>"
  have p1: "P sc1" unfolding sc1_def using assms(1,2) by blast
  have b: "\<exists>b sc'. bindPod cfg now f ?pi ?h (btState bt) sc1 = Ret (b, sc') \<and> (if b then Q sc' else R sc')"
  proof -
    obtain pst s1 w1 where pb: "RunPreBindPlugins (preBindPlugins f) ?p ?h (btState bt, world sc1) = (pst, s1, w1)" by (metis prod_cases3)
    have p2: "P (sc1\<lparr>world := w1\<rparr>)" using p1 assms(2) by blast
    show ?thesis
    proof (cases "IsSuccess pst")
      case False
      obtain sc' where "releasePod cfg now f ?pi ?h s1 (error_text pst) SchedulerError (sc1\<lparr>world := w1\<rparr>) = Ret sc'" "R sc'" using assms(6) p2 by blast
      then show ?thesis using pb False by (auto simp: bindPod_def)
    next
      case True
      obtain er s2 sc2 where bd: "sched_bind cfg now f ?p ?h s1 (sc1\<lparr>world := w1\<rparr>) = Ret (er, s2, sc2)" "Q sc2"
        using sched_bind_shape [where P = P and Q = Q and p = ?p and now = now, OF p2 _ assms(3,7), of f ?h s1] assms(2) by blast
      show ?thesis
      proof (cases er)
        case None
        obtain s3 w3 where po: "RunPostBindPlugins (postBindPlugins f) ?p ?h (s2, world sc2) = (s3, w3)" by (rule prod.exhaust)
        obtain q where q: "Activate (queueConf cfg) (PodsToActivate cfg s3) (SchedulingQueue sc2) = Ret q" "pq_inv (queueConf cfg) q"
          using q.Activate_inv [OF assms(5) [OF bd(2)] activated] by blast
        have "Q (sc2\<lparr>world := w3\<rparr>)" "Q (sc2\<lparr>world := w3, SchedulingQueue := q\<rparr>)" using assms(3,4) bd(2) q(2) by blast+
        then show ?thesis using pb True bd(1) None po q(1) by (auto simp: bindPod_def Let_def)
      next
        case (Some e)
        obtain sc' where "releasePod cfg now f ?pi ?h s2 (''binding rejected: '' @ e) SchedulerError sc2 = Ret sc'" "R sc'" using assms(6) bd(2) by blast
        then show ?thesis using pb True bd(1) Some by (auto simp: bindPod_def)
      qed
    qed
  qed
  show ?thesis
  proof (cases "IsSuccess st")
    case True
    then show ?thesis using w b by (simp add: bindingCycle_def Let_def sc1_def)
  next
    case False
    obtain sc' where "releasePod cfg now f ?pi ?h (btState bt) (error_text st) (if IsUnschedulable st then unschedulableReason else SchedulerError) sc1 = Ret sc'" "R sc'"
      using assms(6) p1 by blast
    then show ?thesis using w False by (auto simp: bindingCycle_def Let_def sc1_def)
  qed
qed

text \<open>A pod that is still assumed is bound or released.\<close>

lemma bindingCycle_outcome:
  assumes "sched_inv cfg sc" "cgeneration (SchedulerCache sc) + 1 < 2 ^ 63" "p = qPod (btPodInfo bt)" "pod_ok p"
    "M = map_of (podStates (SchedulerCache sc))" "A = set (assumedPods (SchedulerCache sc))"
    "M (UID p) = Some ps" "specNodeName p = specNodeName (ps_pod ps)" "UID p \<in> A"
    "\<And>wp. waitingPods sc (SchedulerName p) (UID p) = Some wp \<Longrightarrow> wpSignal wp \<noteq> None"
  shows "\<exists>b sc'. bindingCycle cfg now f bt sc = Ret (b, sc') \<and>
    (if b then outcome cfg (M(UID p \<mapsto> ps\<lparr>bindingFinished := True, deadline := Some (now + ttl (SchedulerCache sc))\<rparr>)) A None sc'
     else outcome cfg (M(UID p := None)) (A - {UID p}) (Some p) sc')"
proof -
  let ?ps = "ps\<lparr>bindingFinished := True, deadline := Some (now + ttl (SchedulerCache sc))\<rparr>"
  define P where "P x \<longleftrightarrow> outcome cfg M A None x \<and> cgeneration (SchedulerCache x) + 1 < 2 ^ 63 \<and> ttl (SchedulerCache x) = ttl (SchedulerCache sc)" for x :: "'w scheduler"
  define Q where "Q x \<longleftrightarrow> outcome cfg (M(UID p \<mapsto> ?ps)) A None x \<and> cgeneration (SchedulerCache x) + 1 < 2 ^ 63" for x :: "'w scheduler"
  define R where "R x \<longleftrightarrow> outcome cfg (M(UID p := None)) (A - {UID p}) (Some p) x" for x :: "'w scheduler"
  have rel: "\<exists>x'. releasePod cfg now f (btPodInfo bt) (btHost bt) s e reason x = Ret x' \<and> R x'" if "P x \<or> Q x" for x s e reason
  proof -
    have "M(UID p \<mapsto> ps) = M" using assms(7) by (simp add: fun_upd_idem)
    then have "\<exists>ps'. outcome cfg (M(UID p \<mapsto> ps')) A None x \<and> specNodeName (ps_pod ps') = specNodeName (ps_pod ps)"
      using that by (auto simp: P_def Q_def intro: exI [of _ ps] exI [of _ ?ps])
    moreover have "cgeneration (SchedulerCache x) + 1 < 2 ^ 63" using that by (auto simp: P_def Q_def)
    ultimately obtain ps' where "outcome cfg (M(UID p \<mapsto> ps')) A None x" "cgeneration (SchedulerCache x) + 1 < 2 ^ 63" "specNodeName (ps_pod ps') = specNodeName (ps_pod ps)"
      by blast
    then show ?thesis using releasePod_outcome [of x "btPodInfo bt" p ps' now f "btHost bt" s e reason] assms(3,4,8,9) by (auto simp: outcome_def R_def)
  qed
  have fin: "\<exists>e c. finishBinding p now (SchedulerCache x) = Ret (e, c) \<and> Q (x\<lparr>SchedulerCache := c\<rparr>)" if "P x" for x
  proof -
    have x: "sched_inv cfg x" "map_of (podStates (SchedulerCache x)) = M" "set (assumedPods (SchedulerCache x)) = A" "ttl (SchedulerCache x) = ttl (SchedulerCache sc)"
      "cgeneration (SchedulerCache x) + 1 < 2 ^ 63"
      using that by (simp_all add: P_def outcome_def)
    obtain c where c: "finishBinding p now (SchedulerCache x) = Ret (None, c)" "becomes 0 (SchedulerCache x) (M(UID p \<mapsto> ?ps)) A c"
      using finishBinding_effect [OF sched_invD(1) [OF x(1)], of p ps now] x(2-4) assms(7,9) by auto
    then show ?thesis using outcome_cache(2) [OF x(1) c(2)] becomesD(4) [OF c(2)] x(5) by (auto simp: Q_def)
  qed
  have P: "P sc" using assms(1,2,5,6) outcome_here by (auto simp: P_def)
  have "\<exists>b sc'. bindingCycle cfg now f bt sc = Ret (b, sc') \<and> (if b then Q sc' else R sc')"
    by (rule bindingCycle_shape [where P = P and Q = Q, OF P _ _ _ _ rel]) (use fin assms(3,10) in \<open>auto simp: P_def Q_def outcome_def sched_inv_def\<close>)
  then show ?thesis unfolding Q_def R_def by (metis (no_types, lifting))
qed

lemma recordSchedulingFailure_inv:
  "sched_inv cfg sc \<Longrightarrow> pod_ok (qPod pi) \<Longrightarrow> \<exists>sc'. recordSchedulingFailure cfg now pi er reason nn sc = Ret sc' \<and> sched_inv cfg sc'"
  using recordSchedulingFailure_outcome [OF outcome_here, of sc pi now er reason nn] by (auto simp: outcome_def)

text \<open>In any state the binding cycle returns and leaves the scheduler in order, also if the pod has left the cache meanwhile.\<close>

lemma returns_sched:
  assumes "sched_inv cfg sc" "returns (SchedulerCache sc) r"
  shows "\<exists>e c. r = Ret (e, c) \<and> sched_inv cfg (sc\<lparr>SchedulerCache := c\<rparr>)"
  using assms synced_advances by (fastforce simp: returns_def keeps_def sched_inv_def)

lemma bindingCycle_inv:
  assumes "sched_inv cfg sc" "room (SchedulerCache sc)" "p = qPod (btPodInfo bt)" "pod_ok p"
    "\<And>wp. waitingPods sc (SchedulerName p) (UID p) = Some wp \<Longrightarrow> wpSignal wp \<noteq> None"
  shows "\<exists>b sc'. bindingCycle cfg now f bt sc = Ret (b, sc') \<and> sched_inv cfg sc'"
proof -
  define P where "P x \<longleftrightarrow> sched_inv cfg x \<and> room (SchedulerCache x)" for x :: "'w scheduler"
  have rel: "\<exists>x'. releasePod cfg now f (btPodInfo bt) (btHost bt) s e reason x = Ret x' \<and> sched_inv cfg x'" if px: "P x \<or> P x" for x s e reason
  proof -
    obtain s1 w1 where u: "RunReservePluginsUnreserve (reservePlugins f) p (btHost bt) (s, world x) = (s1, w1)" by (rule prod.exhaust)
    obtain e' c where c: "ForgetPod (schedGates cfg) p (SchedulerCache x) = Ret (e', c)" "sched_inv cfg (x\<lparr>SchedulerCache := c\<rparr>)"
      using returns_sched [OF _ ForgetPod_ok, of x "schedGates cfg" p] px sched_invD(1) by (auto simp: P_def)
    have "sched_inv cfg (x\<lparr>SchedulerCache := c, world := w1\<rparr>)" using c(2) by (simp add: sched_inv_def)
    then show ?thesis using recordSchedulingFailure_inv [of _ "btPodInfo bt" now "OtherError e" reason "[]"] u c(1) assms(3,4) by (simp add: releasePod_def)
  qed
  have fin: "\<exists>e c. finishBinding p now (SchedulerCache x) = Ret (e, c) \<and> P (x\<lparr>SchedulerCache := c\<rparr>)" if px: "P x" for x
  proof -
    obtain e c where c: "finishBinding p now (SchedulerCache x) = Ret (e, c)" "sched_inv cfg (x\<lparr>SchedulerCache := c\<rparr>)"
      using returns_sched [OF _ finishBinding_ok, of x p now] px sched_invD(1) by (auto simp: P_def)
    moreover have "room c" using px c(1)
      by (auto simp: P_def room_def finishBinding_def with_key_def GetPodKey_def split: if_splits option.splits)
    ultimately show ?thesis by (auto simp: P_def)
  qed
  have P: "P sc" using assms(1,2) by (simp add: P_def)
  have "\<exists>b sc'. bindingCycle cfg now f bt sc = Ret (b, sc') \<and> (if b then P sc' else sched_inv cfg sc')"
    by (rule bindingCycle_shape [where P = P and Q = P, OF P _ _ _ _ rel]) (use fin assms(3,5) in \<open>auto simp: P_def sched_inv_def\<close>)
  then show ?thesis by (auto simp: P_def split: if_splits)
qed

section \<open>The cycle as a whole\<close>

lemma Pop_nominator: "pq_Pop c q = Ret (r, q') \<Longrightarrow> PodNominator q' = PodNominator q"
  by (cases "Heap.Pop (lessFn c) (activeQ q)") (auto simp: pq_Pop_def on_activeQ_def split: if_splits sum.splits prod.splits)

lemma next_pod:
  assumes "pq_inv (queueConf cfg) q"
  shows "\<exists>r q'. MakeNextPodFunc (queueConf cfg) q = Ret (r, q') \<and> pq_inv (queueConf cfg) q' \<and> PodNominator q' = PodNominator q \<and>
    (\<forall>pi. r = Some (Some pi) \<longrightarrow> pod_ok (qPod pi))"
proof (rule q.pq_Pop_inv [OF assms])
  fix pi k q'
  assume a: "contents (activeQ q) k = Some pi" "pq_inv (queueConf cfg) q'" "pq_Pop (queueConf cfg) q = Ret (Some (Inr (pi\<lparr>Attempts := wrap64 (Attempts pi + 1)\<rparr>)), q')"
  have "pod_ok (qPod pi)" using assms a(1) by (auto simp: pq_inv_def qabs_def keyed_by_def)
  moreover have "PodNominator q' = PodNominator q" by (rule Pop_nominator [OF a(3)])
  ultimately show ?thesis using a(2,3) by (simp add: MakeNextPodFunc_def)
qed (use assms in \<open>auto simp: MakeNextPodFunc_def\<close>)

lemma settled_queue:
  assumes "PodNominator q = PodNominator (SchedulingQueue sc)" "settled cfg f p (sc\<lparr>SchedulingQueue := q\<rparr>) r sc'"
  shows "settled cfg f p sc r sc'"
proof -
  have "pq_NominatedPodsForNode q = pq_NominatedPodsForNode (SchedulingQueue sc)" using assms(1) by (simp add: pq_NominatedPodsForNode_def fun_eq_iff)
  then show ?thesis using assms(2) by (simp add: settled_def suggested_def Let_def)
qed

lemma scheduleOne_outcome:
  assumes "sched_inv cfg sc" "\<And>nn. int (length (pq_NominatedPodsForNode (SchedulingQueue sc) nn)) \<le> N"
    "cgeneration (SchedulerCache sc) + growth sc N + 3 < 2 ^ 63"
  shows "\<exists>r sc'. scheduleOne cfg now sc = Ret (r, sc') \<and> cycle_result cfg sc r sc'"
proof -
  obtain n q where n: "MakeNextPodFunc (queueConf cfg) (SchedulingQueue sc) = Ret (n, q)" "pq_inv (queueConf cfg) q"
    "PodNominator q = PodNominator (SchedulingQueue sc)" "\<forall>pi. n = Some (Some pi) \<longrightarrow> pod_ok (qPod pi)"
    using next_pod [OF sched_invD(4) [OF assms(1)]] by blast
  define sc1 where "sc1 = sc\<lparr>SchedulingQueue := q\<rparr>"
  have i1: "sched_inv cfg sc1" using assms(1) n(2) by (simp add: sc1_def sched_inv_def)
  have o1: "outcome cfg (map_of (podStates (SchedulerCache sc))) (set (assumedPods (SchedulerCache sc))) None sc1"
    using outcome_here [OF i1] by (simp add: sc1_def)
  consider "n = None \<or> n = Some None" | pi where "n = Some (Some pi)" "Profiles cfg (SchedulerName (qPod pi)) = None"
    | pi f where "n = Some (Some pi)" "Profiles cfg (SchedulerName (qPod pi)) = Some f" by (metis option.exhaust)
  then show ?thesis
  proof cases
    case (3 pi f)
    obtain sk sc2 where k: "skipPodSchedule cfg (qPod pi) sc1 = (sk, sc2)" by (rule prod.exhaust)
    show ?thesis
    proof (cases sk)
      case True
      have "\<exists>w. sc2 = sc1\<lparr>world := w\<rparr>" using k by (auto simp: skipPodSchedule_def split: if_splits sum.splits intro: exI [of _ "world sc1"])
      then have "outcome cfg (map_of (podStates (SchedulerCache sc))) (set (assumedPods (SchedulerCache sc))) None sc2" using o1 by auto
      then show ?thesis using True n(1) 3 k by (simp add: scheduleOne_def frameworkForPod_def sc1_def Let_def cycle_result_def)
    next
      case False
      have e: "sc2 = sc1" using k False by (auto simp: skipPodSchedule_def split: if_splits sum.splits)
      obtain r sc' where "schedulePod cfg now f pi sc1 = Ret (r, sc')" "settled cfg f (qPod pi) sc1 r sc'"
        using schedulePod_outcome [OF i1, of N pi now f] assms(2,3) n(3,4) 3(1) by (auto simp: sc1_def growth_def pq_NominatedPodsForNode_def)
      then show ?thesis using False n(1) 3 k e settled_queue [OF n(3)] by (auto simp: scheduleOne_def frameworkForPod_def sc1_def Let_def cycle_result_def)
    qed
  qed (use n(1) o1 in \<open>auto simp: scheduleOne_def frameworkForPod_def sc1_def Let_def cycle_result_def\<close>)
qed

end

end
