(* ===== verification/Sched_System.thy ===== *)
theory Sched_System
  imports Sched_Events Sched_One_Props
begin

text \<open>
  The scheduler as a system: the handlers of events, the scheduling cycle and the binding cycles that
  are under way take turns, in any order. What the rest of the cluster does is restricted only by the
  order in which the API server reports it. Every reachable state is in order and every step returns.
\<close>

section \<open>Events\<close>

datatype sys_event = NodeAdded knode | NodeUpdated knode knode | NodeDeleted "knode deletedObj"
  | CacheAdd kpod | CacheUpdate kpod kpod | CacheDelete "kpod deletedObj"
  | QueueAdd kpod | QueueUpdate kpod kpod | QueueDelete "kpod deletedObj"
  | ResourceEvent clusterEvent | StorageClassAdded "string option"
  | CleanupAssumed "string list" | FlushBackoff | FlushUnschedulable

definition on_queue :: "(priorityQueue \<Rightarrow> priorityQueue go) \<Rightarrow> 'w scheduler \<Rightarrow> 'w scheduler go" where
  "on_queue f sc = go_bind (f (SchedulingQueue sc)) (\<lambda>q. Ret (sc\<lparr>SchedulingQueue := q\<rparr>))"

fun handle :: "evConf \<Rightarrow> ('s, 'w) schedConf \<Rightarrow> int \<Rightarrow> sys_event \<Rightarrow> 'w scheduler \<Rightarrow> 'w scheduler go" where
  "handle ec cfg now (NodeAdded nd) sc = addNodeToCache ec cfg now nd sc"
| "handle ec cfg now (NodeUpdated old new) sc = updateNodeInCache ec cfg now old new sc"
| "handle ec cfg now (NodeDeleted ob) sc = deleteNodeFromCache ob sc"
| "handle ec cfg now (CacheAdd p) sc = OnAdd (cacheHandler cfg now) p sc"
| "handle ec cfg now (CacheUpdate old new) sc = OnUpdate (cacheHandler cfg now) old new sc"
| "handle ec cfg now (CacheDelete ob) sc = OnDelete (cacheHandler cfg now) ob sc"
| "handle ec cfg now (QueueAdd p) sc = OnAdd (queueHandler cfg now) p sc"
| "handle ec cfg now (QueueUpdate old new) sc = OnUpdate (queueHandler cfg now) old new sc"
| "handle ec cfg now (QueueDelete ob) sc = OnDelete (queueHandler cfg now) ob sc"
| "handle ec cfg now (ResourceEvent ev) sc = moveAll cfg now ev None sc"
| "handle ec cfg now (StorageClassAdded mode) sc = onStorageClassAdd cfg now mode sc"
| "handle ec cfg now (CleanupAssumed keys) sc =
     go_bind (cleanupAssumedPods (schedGates cfg) (\<lambda>_. keys) now (SchedulerCache sc)) (\<lambda>c. Ret (sc\<lparr>SchedulerCache := c\<rparr>))"
| "handle ec cfg now FlushBackoff sc = on_queue (flushBackoffQCompleted (queueConf cfg) now) sc"
| "handle ec cfg now FlushUnschedulable sc = on_queue (flushUnschedulableQLeftover (queueConf cfg) now) sc"

text \<open>
  The order of events: a node is added when it is not there, updated and deleted with the last state
  that was reported; an assigned pod is updated and deleted on the node where the cache has it; names
  of pods are legal, and an update is one of the same pod.
\<close>

fun in_order :: "sys_event \<Rightarrow> 'w scheduler \<Rightarrow> bool" where
  "in_order (NodeAdded nd) sc = allowed (OAddNode nd) (SchedulerCache sc)"
| "in_order (NodeUpdated old new) sc = allowed (OUpdateNode old new) (SchedulerCache sc)"
| "in_order (NodeDeleted ob) sc = (case deleted_value ob of None \<Rightarrow> True | Some nd \<Rightarrow> allowed (ORemoveNode nd) (SchedulerCache sc))"
| "in_order (CacheUpdate old new) sc = (allowed (ORemovePod old) (SchedulerCache sc) \<and>
     (UID old = UID new \<and> assignedPod new \<longrightarrow> allowed (OUpdatePod old new) (SchedulerCache sc)))"
| "in_order (CacheDelete ob) sc = (case deleted_value ob of None \<Rightarrow> True | Some p \<Rightarrow> allowed (ORemovePod p) (SchedulerCache sc))"
| "in_order (QueueAdd p) sc = pod_ok p"
| "in_order (QueueUpdate old new) sc = (pod_ok old \<and> pod_ok new \<and> same_pod old new)"
| "in_order (QueueDelete ob) sc = (case deleted_value ob of None \<Rightarrow> True | Some p \<Rightarrow> pod_ok p)"
| "in_order (CleanupAssumed keys) sc = (mset keys = mset (assumedPods (SchedulerCache sc)))"
| "in_order _ sc = True"

text \<open>The counter of generations has room for one more step of any kind.\<close>

definition nominated_max :: "'w scheduler \<Rightarrow> int" where
  "nominated_max sc = foldr max (map (int \<circ> length \<circ> snd) (nominatedPods (PodNominator (SchedulingQueue sc)))) 0"

definition roomy :: "'w scheduler \<Rightarrow> bool" where
  "roomy sc \<longleftrightarrow> cgeneration (SchedulerCache sc) + growth sc (nominated_max sc) + 8 + int (length (assumedPods (SchedulerCache sc))) < 2 ^ 63"

lemma foldr_max: "(0 :: int) \<le> foldr max xs 0" "x \<in> set xs \<Longrightarrow> x \<le> foldr max xs (0 :: int)"
  by (induction xs) (auto simp: le_max_iff_disj)

lemma nominated_bound: "int (length (pq_NominatedPodsForNode (SchedulingQueue sc) nn)) \<le> nominated_max sc"
proof (cases "map_of (nominatedPods (PodNominator (SchedulingQueue sc))) nn")
  case None
  then show ?thesis using foldr_max(1) by (simp add: pq_NominatedPodsForNode_def pods_on_def nominated_max_def)
next
  case (Some ps)
  then have "int (length ps) \<in> set (map (int \<circ> length \<circ> snd) (nominatedPods (PodNominator (SchedulingQueue sc))))"
    by (force dest: map_of_SomeD)
  then show ?thesis using foldr_max(2) Some by (simp add: pq_NominatedPodsForNode_def pods_on_def nominated_max_def)
qed

lemma growth_nonneg: "0 \<le> growth sc (nominated_max sc)"
  using foldr_max(1) by (simp add: growth_def nominated_max_def)

lemma roomyD:
  assumes "roomy sc"
  shows "room (SchedulerCache sc)" "cgeneration (SchedulerCache sc) + growth sc (nominated_max sc) + 3 < 2 ^ 63"
    "cgeneration (SchedulerCache sc) + 8 + int (length (assumedPods (SchedulerCache sc))) < 2 ^ 63"
  using assms growth_nonneg [of sc] by (simp_all add: roomy_def room_def)

section \<open>Handlers keep the scheduler in order\<close>

lemma cache_RemovePod_bound:
  assumes "cache_inv c" "room c" "allowed (ORemovePod pod) c" "cache_RemovePod g pod c = Ret (e, c')"
  shows "cgeneration c' \<le> cgeneration c + 1 \<and> assumedPods c' = assumedPods c"
proof (cases "UID pod \<noteq> [] \<and> map_of (podStates c) (UID pod) \<noteq> None \<and> UID pod \<notin> set (assumedPods c)")
  case True
  then obtain ps where s: "map_of (podStates c) (UID pod) = Some ps" by blast
  have u: "UID (ps_pod ps) = UID pod" and n: "specNodeName pod = specNodeName (ps_pod ps)" using state_uid [OF assms(1) s] assms(3) s by simp_all
  have r: "cgeneration c + 1 < 2 ^ 63" using assms(2) by (simp add: room_def)
  have s': "map_of (podStates c) (UID (ps_pod ps)) = Some ps" using s u by simp
  obtain c1 where c1: "cache_removePod g (ps_pod ps) c = Ret (None, c1)" "assumedPods c1 = assumedPods c" "within_gen 1 c c1"
    using drop_pod [OF assms(1) r s' refl, of g] by blast
  then have "c' = c1\<lparr>podStates := AList.delete (UID pod) (podStates c1)\<rparr>"
    using assms(4) True s n by (auto simp: cache_RemovePod_def with_key_def GetPodKey_def)
  then show ?thesis using c1(2,3) by (simp add: within_gen_def)
next
  case False
  then show ?thesis using assms(4) by (auto simp: cache_RemovePod_def with_key_def GetPodKey_def split: option.splits if_splits)
qed

lemma allowed_remove: "allowed (ORemovePod pod) c \<Longrightarrow> map_of (podStates c) (UID pod) = Some ps \<Longrightarrow> specNodeName pod = specNodeName (ps_pod ps)"
  by simp

context sched_env
begin

lemma moveAll_inv: "sched_inv cfg sc \<Longrightarrow> \<exists>sc'. moveAll cfg now ev check sc = Ret sc' \<and> sched_inv cfg sc' \<and> SchedulerCache sc' = SchedulerCache sc"
  using q.moves_inv(1) [of "SchedulingQueue sc" now ev check] by (auto simp: moveAll_def sched_inv_def)

lemma on_queue_inv:
  assumes "sched_inv cfg sc" "\<exists>q'. f (SchedulingQueue sc) = Ret q' \<and> pq_inv (queueConf cfg) q'"
  shows "\<exists>sc'. on_queue f sc = Ret sc' \<and> sched_inv cfg sc'"
  using assms by (auto simp: on_queue_def sched_inv_def)

lemma keeps_sched: "sched_inv cfg sc \<Longrightarrow> keeps (SchedulerCache sc) c \<Longrightarrow> sched_inv cfg (sc\<lparr>SchedulerCache := c\<rparr>)"
  using synced_advances by (fastforce simp: sched_inv_def keeps_def)

text \<open>A step of the cache followed by a step of the queue.\<close>

lemma cache_then_queue:
  assumes "sched_inv cfg sc" "returns (SchedulerCache sc) r" "\<exists>q'. f (SchedulingQueue sc) = Ret q' \<and> pq_inv (queueConf cfg) q'"
  shows "\<exists>sc'. go_bind r (\<lambda>(_, c). go_bind (f (SchedulingQueue sc)) (\<lambda>q. Ret (sc\<lparr>SchedulerCache := c, SchedulingQueue := q\<rparr>))) = Ret sc' \<and> sched_inv cfg sc'"
  using returns_sched [OF assms(1,2)] assms(3) by (auto simp: sched_inv_def)

lemma addPodToCache_inv:
  "sched_inv cfg sc \<Longrightarrow> room (SchedulerCache sc) \<Longrightarrow> \<exists>sc'. addPodToCache cfg now p sc = Ret sc' \<and> sched_inv cfg sc'"
  unfolding addPodToCache_def using cache_AddPod_ok [OF sched_invD(1)] q.moves_inv(2) [OF sched_invD(4)] by (intro cache_then_queue) blast+

lemma deletePodFromCache_inv:
  assumes "sched_inv cfg sc" "room (SchedulerCache sc)" "\<And>p. deleted_value ob = Some p \<Longrightarrow> allowed (ORemovePod p) (SchedulerCache sc)"
  shows "\<exists>sc'. deletePodFromCache cfg now ob sc = Ret sc' \<and> sched_inv cfg sc' \<and>
    cgeneration (SchedulerCache sc') \<le> cgeneration (SchedulerCache sc) + 1 \<and> assumedPods (SchedulerCache sc') = assumedPods (SchedulerCache sc)"
proof (cases "deleted_value ob")
  case (Some p)
  have a: "allowed (ORemovePod p) (SchedulerCache sc)" using assms(3) Some .
  obtain e c where c: "cache_RemovePod (schedGates cfg) p (SchedulerCache sc) = Ret (e, c)" "sched_inv cfg (sc\<lparr>SchedulerCache := c\<rparr>)"
    using returns_sched [OF assms(1) cache_RemovePod_ok [OF sched_invD(1) [OF assms(1)] assms(2) allowed_remove [OF a]]] by blast
  then show ?thesis using Some moveAll_inv [OF c(2), of now AssignedPodDelete None] cache_RemovePod_bound [OF sched_invD(1) [OF assms(1)] assms(2) a c(1)]
    by (auto simp: deletePodFromCache_def)
qed (use assms(1) in \<open>simp add: deletePodFromCache_def\<close>)

lemma updatePodInCache_inv:
  assumes "sched_inv cfg sc" "roomy sc" "allowed (ORemovePod old) (SchedulerCache sc)" "UID old = UID new \<Longrightarrow> allowed (OUpdatePod old new) (SchedulerCache sc)"
  shows "\<exists>sc'. updatePodInCache cfg now old new sc = Ret sc' \<and> sched_inv cfg sc'"
proof (cases "UID old = UID new")
  case True
  have "returns (SchedulerCache sc) (cache_UpdatePod (schedGates cfg) old new (SchedulerCache sc))"
    using assms(4) [OF True] by (intro cache_UpdatePod_ok [OF sched_invD(1) [OF assms(1)] roomyD(1) [OF assms(2)]]) simp
  then show ?thesis using True cache_then_queue [OF assms(1), where f = "AssignedPodUpdated (queueConf cfg) now new"] q.moves_inv(3) [OF sched_invD(4) [OF assms(1)]]
    by (simp add: updatePodInCache_def)
next
  case False
  obtain sc1 where d: "deletePodFromCache cfg now (Obj old) sc = Ret sc1" "sched_inv cfg sc1"
    "cgeneration (SchedulerCache sc1) \<le> cgeneration (SchedulerCache sc) + 1" "assumedPods (SchedulerCache sc1) = assumedPods (SchedulerCache sc)"
    using deletePodFromCache_inv [OF assms(1) roomyD(1) [OF assms(2)], of "Obj old" now] assms(3) by auto
  have "room (SchedulerCache sc1)" using d(3,4) roomyD(3) [OF assms(2)] by (simp add: room_def)
  then show ?thesis using False d(1) addPodToCache_inv [OF d(2)] by (simp add: updatePodInCache_def)
qed

lemma queue_handlers_inv:
  assumes "sched_inv cfg sc"
  shows "pod_ok p \<Longrightarrow> \<exists>sc'. addPodToSchedulingQueue cfg now p sc = Ret sc' \<and> sched_inv cfg sc'"
    "pod_ok old \<Longrightarrow> pod_ok new \<Longrightarrow> same_pod old new \<Longrightarrow> \<exists>sc'. updatePodInSchedulingQueue cfg now old new sc = Ret sc' \<and> sched_inv cfg sc'"
    "(\<And>p. deleted_value ob = Some p \<Longrightarrow> pod_ok p) \<Longrightarrow> \<exists>sc'. deletePodFromSchedulingQueue cfg ob sc = Ret sc' \<and> sched_inv cfg sc'"
proof -
  note i = sched_invD(4) [OF assms]
  have set_queue: "sched_inv cfg (sc\<lparr>SchedulingQueue := q\<rparr>)" if "pq_inv (queueConf cfg) q" for q using assms that by (simp add: sched_inv_def)
  show "\<exists>sc'. addPodToSchedulingQueue cfg now p sc = Ret sc' \<and> sched_inv cfg sc'" if "pod_ok p"
  proof -
    obtain q where "pq_Add (queueConf cfg) now p (SchedulingQueue sc) = Ret (None, q)" "pq_inv (queueConf cfg) q" using q.pq_Add_inv [OF i \<open>pod_ok p\<close>] .
    then show ?thesis using set_queue by (auto simp: addPodToSchedulingQueue_def)
  qed
  show "\<exists>sc'. updatePodInSchedulingQueue cfg now old new sc = Ret sc' \<and> sched_inv cfg sc'" if "pod_ok old" "pod_ok new" "same_pod old new"
    using q.pq_Update_inv [OF i that, of now] set_queue assms by (auto simp: updatePodInSchedulingQueue_def)
  show "\<exists>sc'. deletePodFromSchedulingQueue cfg ob sc = Ret sc' \<and> sched_inv cfg sc'" if ok: "\<And>p. deleted_value ob = Some p \<Longrightarrow> pod_ok p"
  proof (cases "deleted_value ob")
    case (Some p)
    obtain q where "pq_Delete (queueConf cfg) p (SchedulingQueue sc) = Ret q" "pq_inv (queueConf cfg) q" using q.pq_Delete_inv [OF i ok [OF Some]] .
    then show ?thesis using Some set_queue by (auto simp: deletePodFromSchedulingQueue_def Let_def split: option.splits)
  qed (use assms in \<open>simp add: deletePodFromSchedulingQueue_def\<close>)
qed

lemma node_handlers_inv:
  assumes "sched_inv cfg sc" "room (SchedulerCache sc)"
  shows "allowed (OAddNode nd) (SchedulerCache sc) \<Longrightarrow> \<exists>sc'. addNodeToCache ec cfg now nd sc = Ret sc' \<and> sched_inv cfg sc'"
    "allowed (OUpdateNode old new) (SchedulerCache sc) \<Longrightarrow> \<exists>sc'. updateNodeInCache ec cfg now old new sc = Ret sc' \<and> sched_inv cfg sc'"
    "(\<And>nd. deleted_value ob = Some nd \<Longrightarrow> allowed (ORemoveNode nd) (SchedulerCache sc)) \<Longrightarrow> \<exists>sc'. deleteNodeFromCache ob sc = Ret sc' \<and> sched_inv cfg sc'"
proof -
  note i = sched_invD(1) [OF assms(1)]
  show "\<exists>sc'. addNodeToCache ec cfg now nd sc = Ret sc' \<and> sched_inv cfg sc'" if "allowed (OAddNode nd) (SchedulerCache sc)"
  proof -
    obtain ni c where a: "AddNode (schedGates cfg) nd (SchedulerCache sc) = (ni, c)" by (rule prod.exhaust)
    then have "sched_inv cfg (sc\<lparr>SchedulerCache := c\<rparr>)" using keeps_sched [OF assms(1)] AddNode_ok [OF i assms(2), of nd "schedGates cfg"] that by simp
    then show ?thesis using a moveAll_inv [of "sc\<lparr>SchedulerCache := c\<rparr>" now NodeAdd] by (auto simp: addNodeToCache_def)
  qed
  show "\<exists>sc'. updateNodeInCache ec cfg now old new sc = Ret sc' \<and> sched_inv cfg sc'" if al: "allowed (OUpdateNode old new) (SchedulerCache sc)"
  proof -
    obtain ni c where a: "UpdateNode (schedGates cfg) (Some old) new (SchedulerCache sc) = Ret (ni, c)" "sched_inv cfg (sc\<lparr>SchedulerCache := c\<rparr>)"
      using returns_sched [OF assms(1) UpdateNode_ok [OF i assms(2), of new old "schedGates cfg"]] al by auto
    then show ?thesis using moveAll_inv [OF a(2), of now] by (auto simp: updateNodeInCache_def Let_def split: option.splits)
  qed
  show "\<exists>sc'. deleteNodeFromCache ob sc = Ret sc' \<and> sched_inv cfg sc'" if "\<And>nd. deleted_value ob = Some nd \<Longrightarrow> allowed (ORemoveNode nd) (SchedulerCache sc)"
  proof (cases "deleted_value ob")
    case (Some nd)
    have "keeps (SchedulerCache sc) (snd (cache_RemoveNode nd (SchedulerCache sc)))" using that [OF Some] by (intro RemoveNode_ok [OF i assms(2)]) simp
    then show ?thesis using Some keeps_sched [OF assms(1)] by (simp add: deleteNodeFromCache_def)
  qed (use assms(1) in \<open>simp add: deleteNodeFromCache_def\<close>)
qed

lemma handle_inv:
  assumes "sched_inv cfg sc" "roomy sc" "in_order ev sc"
  shows "\<exists>sc'. handle ec cfg now ev sc = Ret sc' \<and> sched_inv cfg sc'"
proof -
  note r = roomyD(1) [OF assms(2)] and i = assms(1)
  note rules = queue_handlers_inv [OF i] node_handlers_inv [OF i r] moveAll_inv [OF i] addPodToCache_inv [OF i r] deletePodFromCache_inv [OF i r]
    updatePodInCache_inv [OF i assms(2)] q.flushBackoff_inv [OF sched_invD(4) [OF i]] q.moves_inv(4) [OF sched_invD(4) [OF i]]
  show ?thesis
  proof (cases ev)
    case (CleanupAssumed keys)
    then obtain c where "cleanupAssumedPods (schedGates cfg) (\<lambda>_. keys) now (SchedulerCache sc) = Ret c" "keeps (SchedulerCache sc) c"
      using cache_exec_ok [OF sched_invD(1) [OF i] r, of "OCleanup keys now" "schedGates cfg"] assms(3) by auto
    then show ?thesis using CleanupAssumed keeps_sched [OF i] by simp
  next
    case (CacheUpdate old new)
    then show ?thesis using rules(10) [of old new now] rules(8) [of now new] rules(9) [of "Obj old" now] assms(1,3)
      by (auto simp: OnUpdate_def cacheHandler_def Let_def)
  next
    case (QueueUpdate old new)
    then show ?thesis using rules(1) [of new now] rules(2) [of old new now] rules(3) [of "Obj old"] assms(1,3)
      by (auto simp: OnUpdate_def queueHandler_def Let_def)
  next
    case (NodeDeleted ob)
    then show ?thesis using rules(6) [of ob] assms(3) by (cases "deleted_value ob") auto
  next
    case (CacheAdd p)
    then show ?thesis using rules(8) [of now p] assms(1) by (simp add: OnAdd_def cacheHandler_def)
  next
    case (CacheDelete ob)
    then show ?thesis using rules(9) [of ob now] assms(1,3) by (cases "deleted_value ob") (auto simp: OnDelete_def cacheHandler_def deleted_filter_def)
  next
    case (QueueAdd p)
    then show ?thesis using rules(1) [of p now] assms(1,3) by (simp add: OnAdd_def queueHandler_def)
  next
    case (QueueDelete ob)
    then show ?thesis using rules(3) [of ob] assms(1,3) by (cases "deleted_value ob") (auto simp: OnDelete_def queueHandler_def deleted_filter_def)
  next
    case (ResourceEvent ev')
    then show ?thesis using rules(7) [of now ev' None] by auto
  next
    case (StorageClassAdded mode)
    then show ?thesis using rules(7) [of now StorageClassAdd None] assms(1) by (auto simp: onStorageClassAdd_def)
  next
    case FlushBackoff
    then show ?thesis using on_queue_inv [OF i, of "flushBackoffQCompleted (queueConf cfg) now"] rules(11) by simp
  next
    case FlushUnschedulable
    then show ?thesis using on_queue_inv [OF i, of "flushUnschedulableQLeftover (queueConf cfg) now"] rules(12) by simp
  qed (use rules(4,5) assms(3) in simp_all)
qed

end

section \<open>Reachable schedulers\<close>

definition newScheduler :: "int \<Rightarrow> int \<Rightarrow> 'w \<Rightarrow> 'w scheduler" where
  "newScheduler expiry gen w = \<lparr>SchedulerCache = newSchedulerCache expiry gen, SchedulingQueue = NewPriorityQueue, nodeInfoSnapshot = NewEmptySnapshot,
     nextStartNodeIndex = 0, waitingPods = (\<lambda>_. Map.empty), world = w\<rparr>"

text \<open>The state of the scheduler and the binding cycles under way.\<close>

inductive sched_reach :: "evConf \<Rightarrow> ('s, 'w) schedConf \<Rightarrow> 'w scheduler \<Rightarrow> 's bindingTask list \<Rightarrow> bool" for ec cfg where
  start: "0 \<le> gen \<Longrightarrow> sched_reach ec cfg (newScheduler d gen w) []"
| event: "sched_reach ec cfg sc ts \<Longrightarrow> roomy sc \<Longrightarrow> in_order ev sc \<Longrightarrow> handle ec cfg now ev sc = Ret sc' \<Longrightarrow> sched_reach ec cfg sc' ts"
| cycle: "sched_reach ec cfg sc ts \<Longrightarrow> roomy sc \<Longrightarrow> scheduleOne cfg now sc = Ret (r, sc') \<Longrightarrow>
    sched_reach ec cfg sc' (case r of AssumedPod bt \<Rightarrow> bt # ts | _ \<Rightarrow> ts)"
| bind: "sched_reach ec cfg sc (ts1 @ bt # ts2) \<Longrightarrow> roomy sc \<Longrightarrow> Profiles cfg (SchedulerName (qPod (btPodInfo bt))) = Some f \<Longrightarrow>
    bindingCycle cfg now f bt sc = Ret (b, sc') \<Longrightarrow> sched_reach ec cfg sc' (ts1 @ ts2)"
| outside: "sched_reach ec cfg sc ts \<Longrightarrow> sched_reach ec cfg (sc\<lparr>world := w, waitingPods := wps\<rparr>) ts"

lemma signalled:
  assumes "bindingCycle cfg now f bt sc = Ret x" "waitingPods sc (SchedulerName (qPod (btPodInfo bt))) (UID (qPod (btPodInfo bt))) = Some wp"
  shows "wpSignal wp \<noteq> None"
  using assms by (auto simp: bindingCycle_def WaitOnPermit_def Let_def split: option.splits)

context sched_env
begin

lemma cycle_returns:
  assumes "sched_inv cfg sc" "roomy sc"
  shows "\<exists>r sc'. scheduleOne cfg now sc = Ret (r, sc') \<and> sched_inv cfg sc' \<and> (\<forall>bt. r = AssumedPod bt \<longrightarrow> pod_ok (qPod (btPodInfo bt)))"
proof -
  obtain r sc' where s: "scheduleOne cfg now sc = Ret (r, sc')" "cycle_result cfg sc r sc'"
    using scheduleOne_outcome [OF assms(1) nominated_bound roomyD(2) [OF assms(2)]] by blast
  have "sched_inv cfg sc' \<and> (\<forall>bt. r = AssumedPod bt \<longrightarrow> pod_ok (qPod (btPodInfo bt)))"
    using s(2) unfolding cycle_result_def
  proof (elim disjE exE conjE)
    fix pi f q assume a: "MakeNextPodFunc (queueConf cfg) (SchedulingQueue sc) = Ret (Some (Some pi), q)" "settled cfg f (qPod pi) sc r sc'"
    have "pod_ok (qPod pi)" using next_pod [OF sched_invD(4) [OF assms(1)]] a(1) by auto
    then show ?thesis using a(2) by (auto simp: settled_def Let_def outcome_def)
  qed (auto simp: outcome_def)
  then show ?thesis using s(1) by blast
qed

lemma reach_sched_inv:
  assumes "sched_reach ec cfg sc ts"
  shows "sched_inv cfg sc \<and> (\<forall>bt\<in>set ts. pod_ok (qPod (btPodInfo bt)))"
  using assms
proof (induction rule: sched_reach.induct)
  case (start gen d w)
  have "infos (newSchedulerCache d gen) = (\<lambda>_. None)" by (simp add: newSchedulerCache_def infos_def fun_eq_iff)
  then show ?case using empty_cache_inv [OF start] start q.new_queue_inv
    by (simp add: sched_inv_def newScheduler_def snap_inv_def synced_def NewEmptySnapshot_def) (simp add: newSchedulerCache_def)
next
  case (event sc ts ev now sc')
  then show ?case using handle_inv [of sc ev ec now] by auto
next
  case (cycle sc ts now r sc')
  then show ?case using cycle_returns [of sc now] by (auto split: cycle_end.split)
next
  case (bind sc ts1 bt ts2 f now b sc')
  then show ?case using bindingCycle_inv [of sc _ bt now f] roomyD(1) signalled [OF bind.hyps(4)] by fastforce
next
  case (outside sc ts w wps)
  then show ?case by (simp add: sched_inv_def)
qed

end

end
