(* ===== verification/Sched_System_Props.thy ===== *)
theory Sched_System_Props
  imports Sched_System
begin

text \<open>Properties of the scheduler as a system, on every state it can reach.\<close>

section \<open>What the scheduler is plugged into\<close>

text \<open>
  The laws of the environment: active pods are ordered by priority and age, the lister returns the pod
  it was asked for, plugins activate pods with legal names, a map is visited completely, and an
  extender returns no nil node.
\<close>

definition sched_laws :: "('s, 'w) schedConf \<Rightarrow> bool" where
  "sched_laws cfg \<longleftrightarrow> lessFn (queueConf cfg) = PrioritySort_Less \<and>
     (\<forall>w ns n p. cachedPod cfg w ns n = Some p \<longrightarrow> kNamespace p = ns \<and> kName p = n) \<and>
     (\<forall>s. list_all pod_ok (PodsToActivate cfg s)) \<and> (\<forall>ks. mset (visitMap cfg ks) = mset ks) \<and> real_nodes (Extenders cfg)"

lemma laws_env: "sched_laws cfg \<Longrightarrow> sched_env cfg"
  by (rule sched_env.intro) (simp_all add: sched_laws_def prioritySort.weak_order_axioms)

text \<open>A scheduler with any profiles, without extenders, whose lister knows a list of pods.\<close>

definition plain_conf :: "(string \<rightharpoonup> ('s, 'w) fwk) \<Rightarrow> gates \<Rightarrow> 's \<Rightarrow> kpod list \<Rightarrow> ('s, 'w) schedConf" where
  "plain_conf profs g s0 pods = \<lparr>Profiles = profs, Extenders = [], preferNominated = False, percentageOfNodesToScore = 0, randDraw = (\<lambda>_ _. 0),
     visitMap = (\<lambda>ks. ks), schedGates = g, queueConf = default_pq_conf, NewCycleState = s0, PodsToActivate = (\<lambda>_. []), clearPodsToActivate = (\<lambda>s. s),
     cachedPod = (\<lambda>_ ns n. find (\<lambda>p. kNamespace p = ns \<and> kName p = n) pods), recordEvent = (\<lambda>_ _ w. w), patchStatus = (\<lambda>_ _ _ _ w. w),
     errText = (\<lambda>_. [])\<rparr>"

lemma plain_laws: "sched_laws (plain_conf profs g s0 pods)"
  by (auto simp: sched_laws_def plain_conf_def default_pq_conf_def real_nodes_def find_Some_iff)

interpretation plain: sched_env "plain_conf profs g s0 pods" for profs g s0 pods
  by (rule laws_env [OF plain_laws])

section \<open>Every step keeps the scheduler in order\<close>


section \<open>A cycle does all or nothing\<close>

lemma placed_uids:
  assumes "placed P M" "placed P' M" shows "mset (map UID (P' nm)) = mset (map UID (P nm))"
proof -
  have "set (map UID (P' nm)) = set (map UID (P nm))" "distinct (map UID (P' nm))" "distinct (map UID (P nm))"
    using assms by (simp_all add: placed_def)
  then show ?thesis using set_eq_iff_mset_eq_distinct by blast
qed

text \<open>
  C27: A scheduling cycle does all or nothing. Either it hands a pod to a binding cycle: then the pod had
  no state in the cache before, and now it is assumed on the host that was suggested, and no other pod
  changed. Or it ends in any other way, failures of plugins after the pod was assumed included: then
  the cache has the states of pods, the assumed pods and the pods on every node that it had before.
\<close>

theorem cycle_all_or_nothing:
  assumes "sched_laws cfg" "sched_reach ec cfg sc ts" "roomy sc" "c = SchedulerCache sc"
  shows "\<exists>r sc'. scheduleOne cfg now sc = Ret (r, sc') \<and> (case r of
      AssumedPod bt \<Rightarrow> (let p = qPod (btPodInfo bt) in specNodeName p = btHost bt \<and> map_of (podStates c) (UID p) = None \<and>
        map_of (podStates (SchedulerCache sc')) = (map_of (podStates c))(UID p \<mapsto> \<lparr>ps_pod = p, deadline = None, bindingFinished = False\<rparr>) \<and>
        set (assumedPods (SchedulerCache sc')) = insert (UID p) (set (assumedPods c)))
    | _ \<Rightarrow> map_of (podStates (SchedulerCache sc')) = map_of (podStates c) \<and> set (assumedPods (SchedulerCache sc')) = set (assumedPods c) \<and>
        (\<forall>nm. mset (map UID (pods_at (infos (SchedulerCache sc')) nm)) = mset (map UID (pods_at (infos c) nm))))"
proof -
  note e = laws_env [OF assms(1)]
  have i: "sched_inv cfg sc" using sched_env.reach_sched_inv [OF e assms(2)] by simp
  obtain r sc' where s: "scheduleOne cfg now sc = Ret (r, sc')" "cycle_result cfg sc r sc'"
    using sched_env.scheduleOne_outcome [OF e i nominated_bound roomyD(2) [OF assms(3)]] by blast
  have same: "\<forall>nm. mset (map UID (pods_at (infos (SchedulerCache sc')) nm)) = mset (map UID (pods_at (infos c) nm))"
    if o: "outcome cfg (map_of (podStates c)) A b sc'" for A b
  proof -
    have "placed (pods_at (infos (SchedulerCache sc'))) (map_of (podStates c))"
      using cache_invD(3) [OF sched_invD(1), of cfg sc'] o by (simp add: outcome_def)
    then show ?thesis using placed_uids [OF cache_invD(3) [OF sched_invD(1) [OF i]], folded assms(4)] by blast
  qed
  show ?thesis
  proof (cases "\<exists>bt. r = AssumedPod bt")
    case True
    then show ?thesis using s by (auto simp: cycle_result_def settled_def outcome_def Let_def assms(4))
  next
    case False
    then have "\<exists>b. outcome cfg (map_of (podStates c)) (set (assumedPods c)) b sc'" using s(2) by (auto simp: cycle_result_def settled_def Let_def assms(4))
    then show ?thesis using s(1) False same by (auto simp: outcome_def split: cycle_end.split)
  qed
qed

section \<open>Binding settles an assumed pod\<close>

text \<open>Being in one of the maps, and being in one of the queues.\<close>

lemma queued_queues: "queued (qabs q) p \<longleftrightarrow> queues_of q p \<noteq> []"
  by (simp add: qabs_def holds_pod_def queues_of_def GetByKey_def contents_def uq_get_def)

text \<open>
  C28: A binding cycle settles its pod, whatever happened since the pod was assumed, provided it still
  is. If the cycle reports success, the pod has finished binding and will expire after the time to live
  of the cache; all else is as it was. If it reports failure (no permit, a plugin before binding, an
  extender or a binding plugin failed), the cache has forgotten the pod, and only that pod, and the pod
  is back in a queue if it still exists and has no node.
\<close>

theorem binding_settles:
  assumes "sched_laws cfg" "sched_reach ec cfg sc ts" "roomy sc" "c = SchedulerCache sc" "bt \<in> set ts" "p = qPod (btPodInfo bt)"
    "map_of (podStates c) (UID p) = Some ps" "specNodeName (ps_pod ps) = specNodeName p" "UID p \<in> set (assumedPods c)"
    "case waitingPods sc (SchedulerName p) (UID p) of None \<Rightarrow> True | Some wp \<Rightarrow> wpSignal wp \<noteq> None"
  shows "\<exists>b sc'. bindingCycle cfg now f bt sc = Ret (b, sc') \<and>
    (if b then map_of (podStates (SchedulerCache sc')) = (map_of (podStates c))(UID p \<mapsto> ps\<lparr>bindingFinished := True, deadline := Some (now + ttl c)\<rparr>) \<and>
       set (assumedPods (SchedulerCache sc')) = set (assumedPods c)
     else map_of (podStates (SchedulerCache sc')) = (map_of (podStates c))(UID p := None) \<and>
       set (assumedPods (SchedulerCache sc')) = set (assumedPods c) - {UID p} \<and>
       (\<forall>cached. specNodeName cached = [] \<and> (\<forall>w. cachedPod cfg w (kNamespace p) (kName p) = Some cached) \<longrightarrow> length (queues_of (SchedulingQueue sc') p) = 1))"
proof -
  note e = laws_env [OF assms(1)]
  have i: "sched_inv cfg sc" "pod_ok p" using sched_env.reach_sched_inv [OF e assms(2)] assms(5,6) by simp_all
  have r: "cgeneration (SchedulerCache sc) + 1 < 2 ^ 63" using roomyD(1) [OF assms(3)] by (simp add: room_def)
  have w: "\<And>wp. waitingPods sc (SchedulerName p) (UID p) = Some wp \<Longrightarrow> wpSignal wp \<noteq> None" using assms(10) by simp
  obtain b sc' where b: "bindingCycle cfg now f bt sc = Ret (b, sc')"
    "if b then outcome cfg ((map_of (podStates c))(UID p \<mapsto> ps\<lparr>bindingFinished := True, deadline := Some (now + ttl c)\<rparr>)) (set (assumedPods c)) None sc'
     else outcome cfg ((map_of (podStates c))(UID p := None)) (set (assumedPods c) - {UID p}) (Some p) sc'"
    using sched_env.bindingCycle_outcome [OF e i(1) r assms(6) i(2) refl refl, folded assms(4), OF assms(7) assms(8) [symmetric] assms(9) w, of now f] by blast
  have "length (queues_of (SchedulingQueue sc') p) = 1" if "\<not> b" "alive cfg p"
  proof -
    have "queued (qabs (SchedulingQueue sc')) p" "pq_inv (queueConf cfg) (SchedulingQueue sc')" using b(2) that by (simp_all add: outcome_def sched_inv_def)
    then show ?thesis using queues_of_apart [OF _ i(2)] by (simp add: queued_queues) (metis One_nat_def le_antisym length_greater_0_conv Suc_leI)
  qed
  then show ?thesis using b by (auto simp: outcome_def alive_def split: if_splits)
qed

section \<open>No pod is lost\<close>

text \<open>
  C29: A pod whose scheduling failed is not lost. If a cycle takes a pod from the queue and ends in a
  failure, and the pod still exists and has no node, then afterwards the pod is in exactly one of the
  three queues.
\<close>

theorem failed_pod_is_queued:
  assumes "sched_laws cfg" "sched_reach ec cfg sc ts" "roomy sc" "MakeNextPodFunc (queueConf cfg) (SchedulingQueue sc) = Ret (Some (Some pi), q)"
    "\<And>w. cachedPod cfg w (kNamespace (qPod pi)) (kName (qPod pi)) = Some cached" "specNodeName cached = []"
    "scheduleOne cfg now sc = Ret (FailedPod, sc')"
  shows "length (queues_of (SchedulingQueue sc') (qPod pi)) = 1"
proof -
  note e = laws_env [OF assms(1)]
  have i: "sched_inv cfg sc" using sched_env.reach_sched_inv [OF e assms(2)] by simp
  have ok: "pod_ok (qPod pi)" using sched_env.next_pod [OF e sched_invD(4) [OF i]] assms(4) by auto
  have "cycle_result cfg sc FailedPod sc'"
    using sched_env.scheduleOne_outcome [OF e i nominated_bound roomyD(2) [OF assms(3)], of now] assms(7) by auto
  then have o: "outcome cfg (map_of (podStates (SchedulerCache sc))) (set (assumedPods (SchedulerCache sc))) (Some (qPod pi)) sc'"
    using assms(4) by (auto simp: cycle_result_def settled_def Let_def)
  have "alive cfg (qPod pi)" using assms(5,6) by (auto simp: alive_def)
  then have "queues_of (SchedulingQueue sc') (qPod pi) \<noteq> []" "pq_inv (queueConf cfg) (SchedulingQueue sc')"
    using o by (auto simp: outcome_def sched_inv_def queued_queues [symmetric])
  then show ?thesis using queues_of_apart [OF _ ok] by (metis One_nat_def le_antisym length_greater_0_conv Suc_leI)
qed

section \<open>The host fits\<close>

text \<open>
  C30: A pod is assumed only on a node that fits. Let the filters of the profiles judge by the pod and
  the node, and let there be no extenders and no nominated pods. If a cycle hands a pod to a binding
  cycle, then the host is a node that is present in the cache, and every filter accepts the pod on the
  information the cache has about that node at that moment: the incremental snapshot never lets a pod
  be placed by stale information.
\<close>

theorem assumed_host_fits:
  assumes "sched_laws cfg" "sched_reach ec cfg sc ts" "roomy sc" "Extenders cfg = []" "\<And>nn. pq_NominatedPodsForNode (SchedulingQueue sc) nn = []"
    "\<And>n f. Profiles cfg n = Some f \<Longrightarrow> filterPlugins f = verdict_plugins V names" "names \<noteq> []"
    "length (nodes (SchedulerCache sc)) < 21474836" "scheduleOne cfg now sc = Ret (AssumedPod bt, sc')"
  shows "\<exists>pi q it. MakeNextPodFunc (queueConf cfg) (SchedulingQueue sc) = Ret (Some (Some pi), q) \<and>
    qPod (btPodInfo bt) = (qPod pi)\<lparr>specNodeName := btHost bt\<rparr> \<and> map_of (nodes (SchedulerCache sc)) (btHost bt) = Some it \<and>
    map_option knodeName (node (info it)) = Some (btHost bt) \<and> list_all (\<lambda>n. IsSuccess (V n (qPod pi) (info it))) names"
proof -
  note e = laws_env [OF assms(1)]
  have i: "sched_inv cfg sc" using sched_env.reach_sched_inv [OF e assms(2)] by simp
  have "cycle_result cfg sc (AssumedPod bt) sc'"
    using sched_env.scheduleOne_outcome [OF e i nominated_bound roomyD(2) [OF assms(3)], of now] assms(9) by auto
  then obtain pi f q where c: "MakeNextPodFunc (queueConf cfg) (SchedulingQueue sc) = Ret (Some (Some pi), q)" "Profiles cfg (SchedulerName (qPod pi)) = Some f"
    "suggested cfg f (qPod pi) sc (btHost bt)" "qPod (btPodInfo bt) = (qPod pi)\<lparr>specNodeName := btHost bt\<rparr>"
    by (auto simp: cycle_result_def settled_def Let_def)
  obtain snap res rest where s: "snap_inv snap" "current (SchedulerCache sc) snap" "btHost bt = SuggestedHost res"
    "Schedule (preferNominated cfg) (randDraw cfg) (f\<lparr>NominatedPodsForNode := pq_NominatedPodsForNode (SchedulingQueue sc)\<rparr>)
       (percentageOfNodesToScore cfg) [] (qPod pi) (Inr (snap_List snap)) (nextStartNodeIndex sc) (cgeneration (SchedulerCache sc))
       (NewCycleState cfg, world sc) = Ret (Inr res, rest)" using c(3) assms(4) by (auto simp: suggested_def)
  note sn = snap_nodes [OF s(1,2)]
  have l: "\<forall>ni\<in>set (snap_List snap). node ni \<noteq> None" using sn(1) by (auto simp: present_infos)
  obtain ni where ni: "ni \<in> set (snap_List snap)" "name_of ni = btHost bt" "list_all (\<lambda>n. IsSuccess (V n (qPod pi) ni)) names"
    using Schedule_fits [where f = "f\<lparr>NominatedPodsForNode := pq_NominatedPodsForNode (SchedulingQueue sc)\<rparr>", OF _ assms(7) _ l _ s(4)] assms(5,6,8) c(2) sn(2) s(3)
    by fastforce
  obtain nm where nm: "infos (SchedulerCache sc) nm = Some ni" using sn(1) ni(1) by auto
  have "treed (infos (SchedulerCache sc)) (cnodeTree (SchedulerCache sc))" using cache_invD(1) [OF sched_invD(1) [OF i]] by (simp add: core_def)
  then have "knodeName nd = nm" if "node ni = Some nd" for nd using that nm by (auto simp: treed_def nd_of_def)
  then have h: "nm = btHost bt" "map_option knodeName (node ni) = Some (btHost bt)" using ni(2) l ni(1) by (auto simp: name_of_def split: option.splits)
  then obtain it where "map_of (nodes (SchedulerCache sc)) (btHost bt) = Some it" "info it = ni" using nm by (auto simp: infos_def)
  then show ?thesis using c(1,4) h(2) ni(3) by blast
qed

section \<open>Examples\<close>

fun sys_run :: "evConf \<Rightarrow> ('s, 'w) schedConf \<Rightarrow> int \<Rightarrow> sys_event list \<Rightarrow> 'w scheduler \<Rightarrow> 'w scheduler go" where
  "sys_run ec cfg now [] sc = Ret sc"
| "sys_run ec cfg now (ev # evs) sc = go_bind (handle ec cfg now ev sc) (sys_run ec cfg now evs)"

fun sys_legal :: "evConf \<Rightarrow> ('s, 'w) schedConf \<Rightarrow> int \<Rightarrow> sys_event list \<Rightarrow> 'w scheduler \<Rightarrow> bool" where
  "sys_legal ec cfg now [] sc = roomy sc"
| "sys_legal ec cfg now (ev # evs) sc = (roomy sc \<and> in_order ev sc \<and> (case handle ec cfg now ev sc of Ret sc' \<Rightarrow> sys_legal ec cfg now evs sc' | _ \<Rightarrow> False))"

lemma reach_events:
  "sched_reach ec cfg sc ts \<Longrightarrow> sys_legal ec cfg now evs sc \<Longrightarrow> \<exists>sc'. sys_run ec cfg now evs sc = Ret sc' \<and> sched_reach ec cfg sc' ts \<and> roomy sc'"
  by (induction evs arbitrary: sc) (auto split: go.splits intro: sched_reach.event)

definition ex_ec :: evConf where
  "ex_ec = \<lparr>requiredNodeAffinity = (\<lambda>_ _. True), IsExtendedResourceName = (\<lambda>_. True), visitScalars = id, equalAllocatable = (\<lambda>_ _. True)\<rparr>"

definition ex_profile :: "(unit, unit) fwk" where
  "ex_profile = ex_fwk\<lparr>bindPlugins := [(''DefaultBinder'', \<lambda>pod nn sw. (None, sw))]\<rparr>"

definition ex_cfg :: "(unit, unit) schedConf" where
  "ex_cfg = plain_conf (\<lambda>n. if n = [] then Some ex_profile else None) ex_gates () [ex_pod ''p'']"

definition ex_start :: "unit scheduler" where "ex_start = newScheduler 30 0 ()"

definition ex_events :: "string list \<Rightarrow> sys_event list" where
  "ex_events nns = map (\<lambda>nn. NodeAdded (ex_knode nn)) nns @ [QueueAdd (ex_pod ''p'')]"

lemma ex_legal_sys: "sys_legal ex_ec ex_cfg 7 (ex_events [''bad'', ''good'']) ex_start" "sys_legal ex_ec ex_cfg 7 (ex_events [''bad'']) ex_start"
  by code_simp+

lemma ex_reached:
  assumes "sys_legal ex_ec ex_cfg 7 evs ex_start"
  shows "\<exists>sc. sys_run ex_ec ex_cfg 7 evs ex_start = Ret sc \<and> sched_reach ex_ec ex_cfg sc [] \<and> roomy sc"
proof -
  have "sched_reach ex_ec ex_cfg ex_start []" unfolding ex_start_def by (rule sched_reach.start) simp
  then show ?thesis using reach_events assms by blast
qed

lemma ex_laws: "sched_laws ex_cfg"
  unfolding ex_cfg_def by (rule plain_laws)


text \<open>The pod is scheduled on the good node, and cannot be scheduled when only the bad one is there.\<close>

lemma ex_cycle: "case sys_run ex_ec ex_cfg 7 (ex_events [''bad'', ''good'']) ex_start of Ret sc \<Rightarrow>
    (case scheduleOne ex_cfg 8 sc of Ret (AssumedPod bt, sc') \<Rightarrow> btHost bt = ''good'' \<and> kName (qPod (btPodInfo bt)) = ''p'' \<and> roomy sc' \<and>
       UID (qPod (btPodInfo bt)) \<in> set (assumedPods (SchedulerCache sc')) \<and> waitingPods sc' [] ''p'' = None | _ \<Rightarrow> False) | _ \<Rightarrow> False"
  by code_simp

lemma ex_failed: "case sys_run ex_ec ex_cfg 7 (ex_events [''bad'']) ex_start of Ret sc \<Rightarrow>
    (case MakeNextPodFunc (queueConf ex_cfg) (SchedulingQueue sc) of Ret (Some (Some pi), q) \<Rightarrow> qPod pi = ex_pod ''p'' | _ \<Rightarrow> False) \<and>
    (case scheduleOne ex_cfg 8 sc of Ret (FailedPod, sc') \<Rightarrow> True | _ \<Rightarrow> False) | _ \<Rightarrow> False"
  by code_simp

lemma ex_cycleE:
  obtains sc bt sc' where "sys_run ex_ec ex_cfg 7 (ex_events [''bad'', ''good'']) ex_start = Ret sc" "sched_reach ex_ec ex_cfg sc []" "roomy sc"
    "scheduleOne ex_cfg 8 sc = Ret (AssumedPod bt, sc')" "btHost bt = ''good''" "kName (qPod (btPodInfo bt)) = ''p''" "roomy sc'"
    "UID (qPod (btPodInfo bt)) \<in> set (assumedPods (SchedulerCache sc'))" "waitingPods sc' [] ''p'' = None"
proof -
  obtain sc where s: "sys_run ex_ec ex_cfg 7 (ex_events [''bad'', ''good'']) ex_start = Ret sc" "sched_reach ex_ec ex_cfg sc []" "roomy sc"
    using ex_reached [OF ex_legal_sys(1)] by blast
  obtain r sc' where "scheduleOne ex_cfg 8 sc = Ret (r, sc')" using ex_cycle s(1) by (auto split: go.split_asm)
  then show ?thesis using ex_cycle s(1) that [OF s] by (cases r) auto
qed

theorem cycle_all_or_nothing_witness:
  "\<exists>sc bt sc'. sys_run ex_ec ex_cfg 7 (ex_events [''bad'', ''good'']) ex_start = Ret sc \<and> scheduleOne ex_cfg 8 sc = Ret (AssumedPod bt, sc') \<and>
     btHost bt = ''good'' \<and> map_of (podStates (SchedulerCache sc')) (UID (qPod (btPodInfo bt))) =
       Some \<lparr>ps_pod = qPod (btPodInfo bt), deadline = None, bindingFinished = False\<rparr>"
proof -
  obtain sc bt sc' where s: "sys_run ex_ec ex_cfg 7 (ex_events [''bad'', ''good'']) ex_start = Ret sc" "sched_reach ex_ec ex_cfg sc []" "roomy sc"
    "scheduleOne ex_cfg 8 sc = Ret (AssumedPod bt, sc')" "btHost bt = ''good''" by (rule ex_cycleE)
  then show ?thesis using cycle_all_or_nothing [OF ex_laws s(2,3) refl, of 8] by (auto simp: Let_def)
qed

theorem assumed_host_fits_witness:
  "\<exists>sc bt sc' it. sys_run ex_ec ex_cfg 7 (ex_events [''bad'', ''good'']) ex_start = Ret sc \<and> scheduleOne ex_cfg 8 sc = Ret (AssumedPod bt, sc') \<and>
     map_of (nodes (SchedulerCache sc)) (btHost bt) = Some it \<and> name_of (info it) = ''good''"
proof -
  obtain sc bt sc' where s: "sys_run ex_ec ex_cfg 7 (ex_events [''bad'', ''good'']) ex_start = Ret sc" "sched_reach ex_ec ex_cfg sc []" "roomy sc"
    "scheduleOne ex_cfg 8 sc = Ret (AssumedPod bt, sc')" "btHost bt = ''good''" by (rule ex_cycleE)
  have f: "filterPlugins f = verdict_plugins (\<lambda>n pod ni. if name_of ni = ''good'' then None else NewStatus Unschedulable [n]) [''F'']"
    if "Profiles ex_cfg n = Some f" for n f using that by (auto simp: ex_cfg_def plain_conf_def ex_profile_def ex_fwk_def split: if_splits)
  have "(case sys_run ex_ec ex_cfg 7 (ex_events [''bad'', ''good'']) ex_start of Ret sc \<Rightarrow>
      nominatedPods (PodNominator (SchedulingQueue sc)) = [] \<and> length (nodes (SchedulerCache sc)) = 2 | _ \<Rightarrow> False)" by code_simp
  then have n: "\<And>nn. pq_NominatedPodsForNode (SchedulingQueue sc) nn = []" "length (nodes (SchedulerCache sc)) < 21474836"
    using s(1) by (simp_all add: pq_NominatedPodsForNode_def pods_on_def)
  have x: "Extenders ex_cfg = []" by (simp add: ex_cfg_def plain_conf_def)
  have "\<exists>pi q it. MakeNextPodFunc (queueConf ex_cfg) (SchedulingQueue sc) = Ret (Some (Some pi), q) \<and>
    qPod (btPodInfo bt) = (qPod pi)\<lparr>specNodeName := btHost bt\<rparr> \<and> map_of (nodes (SchedulerCache sc)) (btHost bt) = Some it \<and>
    map_option knodeName (node (info it)) = Some (btHost bt) \<and>
    list_all (\<lambda>n. IsSuccess (if name_of (info it) = ''good'' then None else NewStatus Unschedulable [n])) [''F'']"
    by (rule assumed_host_fits [OF ex_laws s(2,3) x n(1) _ _ n(2) s(4)]) (erule f, simp)
  then obtain it where "map_of (nodes (SchedulerCache sc)) (btHost bt) = Some it" "map_option knodeName (node (info it)) = Some (btHost bt)" by blast
  then show ?thesis using s(1,4,5) by (auto simp: name_of_def)
qed

theorem binding_settles_witness:
  "\<exists>sc bt sc1 b sc2. sys_run ex_ec ex_cfg 7 (ex_events [''bad'', ''good'']) ex_start = Ret sc \<and> scheduleOne ex_cfg 8 sc = Ret (AssumedPod bt, sc1) \<and>
     bindingCycle ex_cfg 9 ex_profile bt sc1 = Ret (b, sc2) \<and>
     (UID (qPod (btPodInfo bt)) \<in> set (assumedPods (SchedulerCache sc2))) = b"
proof -
  obtain sc bt sc1 where s: "sys_run ex_ec ex_cfg 7 (ex_events [''bad'', ''good'']) ex_start = Ret sc" "sched_reach ex_ec ex_cfg sc []" "roomy sc"
    "scheduleOne ex_cfg 8 sc = Ret (AssumedPod bt, sc1)" "roomy sc1" "UID (qPod (btPodInfo bt)) \<in> set (assumedPods (SchedulerCache sc1))" by (rule ex_cycleE)
  have r: "sched_reach ex_ec ex_cfg sc1 [bt]" using sched_reach.cycle [OF s(2-4)] by simp
  have "cycle_result ex_cfg sc (AssumedPod bt) sc1"
    using plain.scheduleOne_outcome [OF conjunct1 [OF sched_env.reach_sched_inv [OF laws_env [OF ex_laws] s(2), unfolded ex_cfg_def]] nominated_bound roomyD(2) [OF s(3)], of 8] s(4)
    by (auto simp: ex_cfg_def)
  then obtain p h where p: "qPod (btPodInfo bt) = p\<lparr>specNodeName := h\<rparr>"
    "map_of (podStates (SchedulerCache sc1)) (UID p) = Some \<lparr>ps_pod = p\<lparr>specNodeName := h\<rparr>, deadline = None, bindingFinished = False\<rparr>"
    by (auto simp: cycle_result_def settled_def outcome_def Let_def)
  have w: "case waitingPods sc1 (SchedulerName (qPod (btPodInfo bt))) (UID (qPod (btPodInfo bt))) of None \<Rightarrow> True | Some wp \<Rightarrow> wpSignal wp \<noteq> None"
  proof -
    have "(case sys_run ex_ec ex_cfg 7 (ex_events [''bad'', ''good'']) ex_start of Ret sc \<Rightarrow> (case scheduleOne ex_cfg 8 sc of Ret (AssumedPod bt, sc1) \<Rightarrow>
        waitingPods sc1 (SchedulerName (qPod (btPodInfo bt))) (UID (qPod (btPodInfo bt))) = None | _ \<Rightarrow> False) | _ \<Rightarrow> False)" by code_simp
    then show ?thesis using s(1,4) by simp
  qed
  obtain b sc2 where "bindingCycle ex_cfg 9 ex_profile bt sc1 = Ret (b, sc2)"
    "if b then set (assumedPods (SchedulerCache sc2)) = set (assumedPods (SchedulerCache sc1))
     else set (assumedPods (SchedulerCache sc2)) = set (assumedPods (SchedulerCache sc1)) - {UID (qPod (btPodInfo bt))}"
    using binding_settles [OF ex_laws r s(5) refl, where bt = bt and p = "qPod (btPodInfo bt)" and ps = "\<lparr>ps_pod = p\<lparr>specNodeName := h\<rparr>, deadline = None, bindingFinished = False\<rparr>"
      and now = 9 and f = ex_profile] p s(6) w
    by (auto split: if_splits)
  then show ?thesis using s(1,4,6) by (auto split: if_splits)
qed

theorem failed_pod_is_queued_witness:
  "\<exists>sc sc'. sys_run ex_ec ex_cfg 7 (ex_events [''bad'']) ex_start = Ret sc \<and> scheduleOne ex_cfg 8 sc = Ret (FailedPod, sc') \<and>
     length (queues_of (SchedulingQueue sc') (ex_pod ''p'')) = 1"
proof -
  obtain sc where s: "sys_run ex_ec ex_cfg 7 (ex_events [''bad'']) ex_start = Ret sc" "sched_reach ex_ec ex_cfg sc []" "roomy sc"
    using ex_reached [OF ex_legal_sys(2)] by blast
  obtain pi q sc' where c: "MakeNextPodFunc (queueConf ex_cfg) (SchedulingQueue sc) = Ret (Some (Some pi), q)" "qPod pi = ex_pod ''p''"
    "scheduleOne ex_cfg 8 sc = Ret (FailedPod, sc')" using ex_failed s(1) by (auto split: go.split_asm option.split_asm cycle_end.split_asm)
  have l: "cachedPod ex_cfg w (kNamespace (qPod pi)) (kName (qPod pi)) = Some (ex_pod ''p'')" for w
    by (simp add: ex_cfg_def plain_conf_def c(2) ex_pod_def)
  have "specNodeName (ex_pod ''p'') = []" by (simp add: ex_pod_def)
  then show ?thesis using failed_pod_is_queued [OF ex_laws s(2,3) c(1) l _ c(3)] s(1) c(2,3) by auto
qed

end
