(* ===== verification/Preemption.thy ===== *)
theory Preemption
  imports Generic_Sched Sched_Snapshot Label_Selector
begin

text \<open>
  Default preemption (\<open>pkg/scheduler/framework/plugins/defaultpreemption/default_preemption.go\<close>,
  \<open>pkg/scheduler/util/utils.go\<close>, the text of \<open>FitError\<close> in \<open>framework/types.go\<close>): for a
  pod that fits on no node, find the pods of lower priority whose removal would make room, choose one
  node, and evict its victims. A node is examined on a copy of its information and of the cycle state.
\<close>

section \<open>What the plugin uses\<close>

record victims =
  vPods :: "kpod list"
  NumPDBViolations :: int

record candidate =
  cVictims :: victims
  cName :: string

text \<open>Of a disruption budget: its selector, how many more pods may go, and the pods already counted.\<close>

record pdb =
  pdbNamespace :: string
  pdbSelector :: "labelSelector option"
  DisruptionsAllowed :: int
  DisruptedPods :: "string list"

text \<open>An extender that takes part in preemption answers with victims for some nodes; an entry may be nil.\<close>

record pextender =
  SupportsPreemption :: bool
  peInterested :: "kpod \<Rightarrow> bool"
  peIgnorable :: bool
  ProcessPreemption :: "kpod \<Rightarrow> (string \<times> victims) list \<Rightarrow> string + (string \<times> victims option) list"

text \<open>
  The handle of the framework, the arguments of the plugin, and what it gets from outside: the listers
  and the client of the API server on the world \<open>'w\<close>, a random offset, the sort of the standard library,
  the order in which a map is visited, and the clock, which does not advance during one run.
\<close>

record ('s, 'w) preemption =
  fh :: "('s, 'w) fwk"
  SnapshotSharedLister :: snapshot
  podLister :: "'w \<Rightarrow> string \<Rightarrow> string \<Rightarrow> string + kpod"
  pdbLister :: "('w \<Rightarrow> string + pdb list) option"
  MinCandidateNodesPercentage :: int
  MinCandidateNodesAbsolute :: int
  pExtenders :: "pextender list"
  Int31n :: "int \<Rightarrow> int"
  sortSlice :: "(kpod \<Rightarrow> kpod \<Rightarrow> bool) \<Rightarrow> kpod list \<Rightarrow> kpod list"
  visitKeys :: "string list \<Rightarrow> string list"
  clock :: int
  DeletePod :: "kpod \<Rightarrow> 'w \<Rightarrow> string option \<times> 'w"
  PatchPodStatus :: "kpod \<Rightarrow> 'w \<Rightarrow> string option \<times> 'w"
  Eventf :: "kpod \<Rightarrow> string \<Rightarrow> 'w \<Rightarrow> 'w"

section \<open>Priorities and start times\<close>

definition GetPodStartTime :: "int \<Rightarrow> kpod \<Rightarrow> int" where
  "GetPodStartTime now pod = (case StartTime pod of None \<Rightarrow> now | Some t \<Rightarrow> t)"

definition MoreImportantPod :: "int \<Rightarrow> kpod \<Rightarrow> kpod \<Rightarrow> bool" where
  "MoreImportantPod now pod1 pod2 =
     (if PodPriority pod1 \<noteq> PodPriority pod2 then PodPriority pod1 > PodPriority pod2
      else GetPodStartTime now pod1 < GetPodStartTime now pod2)"

fun earliest_loop :: "int \<Rightarrow> kpod list \<Rightarrow> int \<Rightarrow> int \<Rightarrow> int" where
  "earliest_loop now [] maxPriority earliest = earliest"
| "earliest_loop now (pod # pods) maxPriority earliest =
     (if PodPriority pod = maxPriority
      then earliest_loop now pods maxPriority (if GetPodStartTime now pod < earliest then GetPodStartTime now pod else earliest)
      else if PodPriority pod > maxPriority then earliest_loop now pods (PodPriority pod) (GetPodStartTime now pod)
      else earliest_loop now pods maxPriority earliest)"

definition GetEarliestPodStartTime :: "int \<Rightarrow> victims \<Rightarrow> int option" where
  "GetEarliestPodStartTime now v = (case vPods v of [] \<Rightarrow> None
     | p # ps \<Rightarrow> Some (earliest_loop now (p # ps) (PodPriority p) (GetPodStartTime now p)))"

section \<open>Disruption budgets\<close>

text \<open>A budget counts a pod of its namespace that it selects and that is not yet among the disrupted ones.\<close>

definition pdb_counts :: "kpod \<Rightarrow> pdb \<Rightarrow> bool" where
  "pdb_counts pod b \<longleftrightarrow> pdbNamespace b = kNamespace pod \<and>
     (case LabelSelectorAsSelector (pdbSelector b) of Inl e \<Rightarrow> False
      | Inr sel \<Rightarrow> \<not> selector_Empty sel \<and> selector_Matches sel (podLabels pod)) \<and>
     kName pod \<notin> set (DisruptedPods b)"

fun charge_pdbs :: "kpod \<Rightarrow> pdb list \<Rightarrow> int list \<Rightarrow> bool \<Rightarrow> bool \<times> int list" where
  "charge_pdbs pod (b # bs) (a # as) violated =
     (if pdb_counts pod b
      then let a' = wrap32 (a - 1); (v, as') = charge_pdbs pod bs as (violated \<or> a' < 0) in (v, a' # as')
      else let (v, as') = charge_pdbs pod bs as violated in (v, a # as'))"
| "charge_pdbs pod _ as violated = (violated, as)"

fun pdb_loop :: "pdb list \<Rightarrow> kpod list \<Rightarrow> int list \<Rightarrow> kpod list \<times> kpod list" where
  "pdb_loop bs [] pdbsAllowed = ([], [])"
| "pdb_loop bs (pod # pods) pdbsAllowed =
     (let (violated, as') = (if podLabels pod = [] then (False, pdbsAllowed) else charge_pdbs pod bs pdbsAllowed False);
          (vs, ns) = pdb_loop bs pods as'
      in if violated then (pod # vs, ns) else (vs, pod # ns))"

definition filterPodsWithPDBViolation :: "kpod list \<Rightarrow> pdb list \<Rightarrow> kpod list \<times> kpod list" where
  "filterPodsWithPDBViolation pods bs = pdb_loop bs pods (map DisruptionsAllowed bs)"

section \<open>The victims of one node\<close>

text \<open>
  The closures \<open>removePod\<close> and \<open>addPod\<close> change the node information and let the PreFilter plugins
  adjust the cycle state. \<open>gen\<close> is the global generation counter.
\<close>

definition removePod :: "('s, 'w) fwk \<Rightarrow> kpod \<Rightarrow> kpod \<Rightarrow> nodeInfo \<Rightarrow> int \<Rightarrow> 's \<times> 'w \<Rightarrow> (string option \<times> nodeInfo \<times> int \<times> 's \<times> 'w) go" where
  "removePod fw pod rpi ni gen sw =
     go_bind (RemovePod (fwGates fw) rpi ni gen) (\<lambda>(e, ni1, gen1). case e of
         Some x \<Rightarrow> Ret (Some x, ni1, gen1, sw)
       | None \<Rightarrow> (case RunPreFilterExtensionRemovePod (preFilterPlugins fw) pod rpi ni1 sw of (status, sw1) \<Rightarrow>
           Ret (if \<not> IsSuccess status then AsError status else None, ni1, gen1, sw1)))"

definition addPod :: "('s, 'w) fwk \<Rightarrow> kpod \<Rightarrow> kpod \<Rightarrow> nodeInfo \<Rightarrow> int \<Rightarrow> 's \<times> 'w \<Rightarrow> string option \<times> nodeInfo \<times> int \<times> 's \<times> 'w" where
  "addPod fw pod api ni gen sw =
     (case AddPodInfo (fwGates fw) api ni gen of (ni1, gen1) \<Rightarrow>
      case RunPreFilterExtensionAddPod (preFilterPlugins fw) pod api ni1 sw of (status, sw1) \<Rightarrow>
        (if \<not> IsSuccess status then AsError status else None, ni1, gen1, sw1))"

text \<open>
  The first loop ranges over the slice of pods while \<open>RemovePod\<close> overwrites and shortens it. The range
  keeps the length the slice had and reads the array behind it, \<open>arr\<close>; the array holds the pods that
  are left, followed by what was there before.
\<close>

definition behind :: "kpod list \<Rightarrow> kpod list \<Rightarrow> kpod list" where
  "behind pods arr = pods @ drop (length pods) arr"

fun remove_lower :: "('s, 'w) fwk \<Rightarrow> kpod \<Rightarrow> nat \<Rightarrow> nat \<Rightarrow> kpod list \<Rightarrow> kpod list \<Rightarrow> nodeInfo \<Rightarrow> int \<Rightarrow> 's \<times> 'w \<Rightarrow>
    ((string + kpod list) \<times> nodeInfo \<times> int \<times> 's \<times> 'w) go" where
  "remove_lower fw pod 0 i arr potentialVictims ni gen sw = Ret (Inr potentialVictims, ni, gen, sw)"
| "remove_lower fw pod (Suc k) i arr potentialVictims ni gen sw =
     (let pi = arr ! i in
      if PodPriority pi < PodPriority pod
      then go_bind (removePod fw pod pi ni gen sw) (\<lambda>(e, ni1, gen1, sw1). case e of
          Some x \<Rightarrow> Ret (Inl x, ni1, gen1, sw1)
        | None \<Rightarrow> remove_lower fw pod k (Suc i) (behind (Pods ni1) arr) (potentialVictims @ [pi]) ni1 gen1 sw1)
      else remove_lower fw pod k (Suc i) arr potentialVictims ni gen sw)"

definition runFilters :: "('s, 'w) fwk \<Rightarrow> kpod \<Rightarrow> nodeInfo \<Rightarrow> int \<Rightarrow> 's \<times> 'w \<Rightarrow> (statusp \<times> int \<times> 's \<times> 'w) go" where
  "runFilters fw pod ni gen sw = RunFilterPluginsWithNominatedPods (fwGates fw) (runAllFilters fw) (preFilterPlugins fw)
     (filterPlugins fw) (NominatedPodsForNode fw) pod ni gen sw"

definition reprievePod :: "('s, 'w) fwk \<Rightarrow> kpod \<Rightarrow> kpod \<Rightarrow> kpod list \<Rightarrow> nodeInfo \<Rightarrow> int \<Rightarrow> 's \<times> 'w \<Rightarrow>
    ((string + bool) \<times> kpod list \<times> nodeInfo \<times> int \<times> 's \<times> 'w) go" where
  "reprievePod fw pod pi vs ni gen sw =
     (case addPod fw pod pi ni gen sw of
        (Some e, ni1, gen1, sw1) \<Rightarrow> Ret (Inl e, vs, ni1, gen1, sw1)
      | (None, ni1, gen1, sw1) \<Rightarrow>
          go_bind (runFilters fw pod ni1 gen1 sw1) (\<lambda>(status, gen2, sw2).
            if IsSuccess status then Ret (Inr True, vs, ni1, gen2, sw2)
            else go_bind (removePod fw pod pi ni1 gen2 sw2) (\<lambda>(e, ni2, gen3, sw3). case e of
                Some x \<Rightarrow> Ret (Inl x, vs, ni2, gen3, sw3)
              | None \<Rightarrow> Ret (Inr False, vs @ [pi], ni2, gen3, sw3))))"

text \<open>Trying a list of pods one after the other; the number counts the pods that could not be kept.\<close>

fun reprieve_loop :: "('s, 'w) fwk \<Rightarrow> kpod \<Rightarrow> kpod list \<Rightarrow> kpod list \<Rightarrow> int \<Rightarrow> nodeInfo \<Rightarrow> int \<Rightarrow> 's \<times> 'w \<Rightarrow>
    ((string + kpod list \<times> int) \<times> nodeInfo \<times> int \<times> 's \<times> 'w) go" where
  "reprieve_loop fw pod [] vs n ni gen sw = Ret (Inr (vs, n), ni, gen, sw)"
| "reprieve_loop fw pod (p # ps) vs n ni gen sw =
     go_bind (reprievePod fw pod p vs ni gen sw) (\<lambda>(r, vs1, ni1, gen1, sw1). case r of
         Inl e \<Rightarrow> Ret (Inl e, ni1, gen1, sw1)
       | Inr fits \<Rightarrow> reprieve_loop fw pod ps vs1 (if fits then n else wrap64 (n + 1)) ni1 gen1 sw1)"

definition selectVictimsOnNode :: "('s, 'w) preemption \<Rightarrow> kpod \<Rightarrow> nodeInfo \<Rightarrow> pdb list \<Rightarrow> int \<Rightarrow> 's \<times> 'w \<Rightarrow>
    ((kpod list \<times> int \<times> statusp) \<times> nodeInfo \<times> int \<times> 's \<times> 'w) go" where
  "selectVictimsOnNode c pod nodeInfo pdbs gen sw =
     go_bind (remove_lower (fh c) pod (length (Pods nodeInfo)) 0 (Pods nodeInfo) [] nodeInfo gen sw) (\<lambda>(r, ni1, gen1, sw1). case r of
         Inl e \<Rightarrow> Ret (([], 0, AsStatus e), ni1, gen1, sw1)
       | Inr potentialVictims \<Rightarrow>
           if potentialVictims = []
           then go_bind (node_name (node ni1)) (\<lambda>nm.
                  Ret (([], 0, NewStatus UnschedulableAndUnresolvable
                    [''No victims found on node '' @ nm @ '' for preemptor pod '' @ kName pod]), ni1, gen1, sw1))
           else go_bind (runFilters (fh c) pod ni1 gen1 sw1) (\<lambda>(status, gen2, sw2).
             if \<not> IsSuccess status then Ret (([], 0, status), ni1, gen2, sw2)
             else (case filterPodsWithPDBViolation (sortSlice c (MoreImportantPod (clock c)) potentialVictims) pdbs of
               (violatingVictims, nonViolatingVictims) \<Rightarrow>
                 go_bind (reprieve_loop (fh c) pod violatingVictims [] 0 ni1 gen2 sw2) (\<lambda>(r, ni2, gen3, sw3). case r of
                     Inl e \<Rightarrow> Ret (([], 0, AsStatus e), ni2, gen3, sw3)
                   | Inr (vs, numViolatingVictim) \<Rightarrow>
                       go_bind (reprieve_loop (fh c) pod nonViolatingVictims vs 0 ni2 gen3 sw3) (\<lambda>(r, ni3, gen4, sw4). case r of
                           Inl e \<Rightarrow> Ret (([], 0, AsStatus e), ni3, gen4, sw4)
                         | Inr (vs', _) \<Rightarrow> Ret ((vs', numViolatingVictim, NewStatus Success []), ni3, gen4, sw4))))))"

section \<open>Choosing a node\<close>

definition MaxInt32 :: int where "MaxInt32 = 2147483647"
definition MaxInt64 :: int where "MaxInt64 = 9223372036854775807"

text \<open>
  The four loops that keep the nodes with the least value have one shape: start from the largest
  number, restart the list at a smaller value, and append the node if its value is the least so far. A
  slice and the number of its entries in use are one list.
\<close>

fun min_loop :: "(string \<Rightarrow> int go) \<Rightarrow> int \<Rightarrow> string list \<Rightarrow> string list \<Rightarrow> string list go" where
  "min_loop val least minNodes [] = Ret minNodes"
| "min_loop val least minNodes (n # ns) = go_bind (val n) (\<lambda>x.
     let (least', minNodes') = (if x < least then (x, []) else (least, minNodes))
     in min_loop val least' (if x = least' then minNodes' @ [n] else minNodes') ns)"

definition victims_of :: "(string \<times> victims) list \<Rightarrow> string \<Rightarrow> victims go" where
  "victims_of m n = (case map_of m n of None \<Rightarrow> Panic NilDereference | Some v \<Rightarrow> Ret v)"

definition highestPodPriority :: "(string \<times> victims) list \<Rightarrow> string \<Rightarrow> int go" where
  "highestPodPriority m n = go_bind (victims_of m n) (\<lambda>v. case vPods v of [] \<Rightarrow> Panic IndexOutOfRange | p # ps \<Rightarrow> Ret (PodPriority p))"

definition sumPriorities :: "(string \<times> victims) list \<Rightarrow> string \<Rightarrow> int go" where
  "sumPriorities m n = go_bind (victims_of m n) (\<lambda>v.
     Ret (foldl (\<lambda>acc p. wrap64 (acc + (PodPriority p + (MaxInt32 + 1)))) 0 (vPods v)))"

fun latest_loop :: "int \<Rightarrow> (string \<times> victims) list \<Rightarrow> string list \<Rightarrow> int \<Rightarrow> string \<Rightarrow> string go" where
  "latest_loop now m [] latest nodeToReturn = Ret nodeToReturn"
| "latest_loop now m (n # ns) latest nodeToReturn = go_bind (victims_of m n) (\<lambda>v.
     case GetEarliestPodStartTime now v of
       None \<Rightarrow> latest_loop now m ns latest nodeToReturn
     | Some t \<Rightarrow> (if t > latest then latest_loop now m ns t n else latest_loop now m ns latest nodeToReturn))"

definition latest_start :: "int \<Rightarrow> (string \<times> victims) list \<Rightarrow> string list \<Rightarrow> string go" where
  "latest_start now m minNodes = (case minNodes of [] \<Rightarrow> Panic IndexOutOfRange
     | n # ns \<Rightarrow> go_bind (victims_of m n) (\<lambda>v. case GetEarliestPodStartTime now v of
         None \<Rightarrow> Ret n
       | Some t \<Rightarrow> latest_loop now m ns t n))"

definition pickOneNodeForPreemption :: "int \<Rightarrow> string list \<Rightarrow> (string \<times> victims) list \<Rightarrow> string go" where
  "pickOneNodeForPreemption now visited m =
     (if m = [] then Ret []
      else go_bind (min_loop (\<lambda>n. go_bind (victims_of m n) (\<lambda>v. Ret (NumPDBViolations v))) MaxInt32 [] visited) (\<lambda>m1.
        if length m1 = 1 then Ret (hd m1)
        else go_bind (min_loop (highestPodPriority m) MaxInt32 [] m1) (\<lambda>m2.
        if length m2 = 1 then Ret (hd m2)
        else go_bind (min_loop (sumPriorities m) MaxInt64 [] m2) (\<lambda>m3.
        if length m3 = 1 then Ret (hd m3)
        else go_bind (min_loop (\<lambda>n. go_bind (victims_of m n) (\<lambda>v. Ret (int (length (vPods v))))) MaxInt32 [] m3) (\<lambda>m4.
        if length m4 = 1 then Ret (hd m4)
        else latest_start now m m4)))))"

definition candidatesToVictimsMap :: "candidate list \<Rightarrow> (string \<times> victims) list" where
  "candidatesToVictimsMap cs = foldl (\<lambda>m c. AList.update (cName c) (cVictims c) m) [] cs"

definition SelectCandidate :: "('s, 'w) preemption \<Rightarrow> candidate list \<Rightarrow> candidate option go" where
  "SelectCandidate c candidates = (case candidates of
       [] \<Rightarrow> Ret None
     | [x] \<Rightarrow> Ret (Some x)
     | x # xs \<Rightarrow> (let victimsMap = candidatesToVictimsMap candidates in
         go_bind (pickOneNodeForPreemption (clock c) (visitKeys c (map fst victimsMap)) victimsMap) (\<lambda>candidateNode.
           case map_of victimsMap candidateNode of
             Some v \<Rightarrow> Ret (Some \<lparr>cVictims = v, cName = candidateNode\<rparr>)
           | None \<Rightarrow> Ret (Some x))))"

section \<open>Extenders\<close>

text \<open>Entries without victims are dropped for an extender whose errors can be ignored, and are an error otherwise.\<close>

fun check_victims :: "bool \<Rightarrow> string list \<Rightarrow> (string \<times> victims option) list \<Rightarrow> string + (string \<times> victims option) list" where
  "check_victims ignorable [] m = Inr m"
| "check_victims ignorable (n # ns) m = (case map_of m n of
       Some (Some v) \<Rightarrow> (if vPods v = []
         then (if ignorable then check_victims ignorable ns (AList.delete n m)
               else Inl (''expected at least one victim pod on node '' @ quoted_name n))
         else check_victims ignorable ns m)
     | _ \<Rightarrow> (if ignorable then check_victims ignorable ns (AList.delete n m)
              else Inl (''expected at least one victim pod on node '' @ quoted_name n)))"

fun extender_loop :: "('s, 'w) preemption \<Rightarrow> kpod \<Rightarrow> pextender list \<Rightarrow> (string \<times> victims) list \<Rightarrow> string + (string \<times> victims) list" where
  "extender_loop c pod [] victimsMap = Inr victimsMap"
| "extender_loop c pod (e # es) victimsMap =
     (if \<not> SupportsPreemption e \<or> \<not> peInterested e pod then extender_loop c pod es victimsMap
      else case ProcessPreemption e pod victimsMap of
          Inl x \<Rightarrow> (if peIgnorable e then extender_loop c pod es victimsMap else Inl x)
        | Inr m \<Rightarrow> (case check_victims (peIgnorable e) (visitKeys c (map fst m)) m of
            Inl x \<Rightarrow> Inl x
          | Inr m' \<Rightarrow> (let vm = List.map_filter (\<lambda>(n, v). map_option (Pair n) v) m' in
              if vm = [] then Inr [] else extender_loop c pod es vm)))"

definition CallExtenders :: "('s, 'w) preemption \<Rightarrow> kpod \<Rightarrow> candidate list \<Rightarrow> candidate list \<times> statusp" where
  "CallExtenders c pod candidates =
     (if pExtenders c = [] then (candidates, None)
      else let victimsMap = candidatesToVictimsMap candidates in
        if victimsMap = [] then (candidates, None)
        else case extender_loop c pod (pExtenders c) victimsMap of
            Inl e \<Rightarrow> ([], AsStatus e)
          | Inr m \<Rightarrow> (List.map_filter (\<lambda>n. map_option (\<lambda>v. \<lparr>cVictims = v, cName = n\<rparr>) (map_of m n)) (visitKeys c (map fst m)), None))"

section \<open>Candidates\<close>

text \<open>The slots of the list are filled in order; only the filled ones are kept here.\<close>

record candidateList =
  idx :: int
  slots :: int
  items :: "candidate list"

definition newCandidateList :: "int \<Rightarrow> candidateList" where
  "newCandidateList sz = \<lparr>idx = -1, slots = sz, items = []\<rparr>"

definition cl_add :: "candidate \<Rightarrow> candidateList \<Rightarrow> candidateList" where
  "cl_add x cl = (let i = wrap32 (idx cl + 1) in
     if i < slots cl then cl\<lparr>idx := i, items := items cl @ [x]\<rparr> else cl\<lparr>idx := i\<rparr>)"

definition cl_size :: "candidateList \<Rightarrow> int" where
  "cl_size cl = (let n = wrap32 (idx cl + 1) in if n \<ge> slots cl then slots cl else n)"

definition cl_get :: "candidateList \<Rightarrow> candidate list" where
  "cl_get cl = take (nat (cl_size cl)) (items cl)"

definition calculateNumCandidates :: "('s, 'w) preemption \<Rightarrow> int \<Rightarrow> int" where
  "calculateNumCandidates c k =
     (let n = go_div (wrap32 (k * MinCandidateNodesPercentage c)) 100;
          n1 = (if n < MinCandidateNodesAbsolute c then MinCandidateNodesAbsolute c else n)
      in if n1 > k then k else n1)"

definition nodesWherePreemptionMightHelp :: "nodeInfo list \<Rightarrow> nodeToStatus \<Rightarrow> (nodeInfo list \<times> nodeToStatus) go" where
  "nodesWherePreemptionMightHelp nis m = foldl (\<lambda>acc ni. go_bind acc (\<lambda>(potentialNodes, nodeStatuses).
     go_bind (node_name (node ni)) (\<lambda>name.
       if Code (case map_of m name of None \<Rightarrow> None | Some s \<Rightarrow> s) = UnschedulableAndUnresolvable
       then Ret (potentialNodes, AList.update name (NewStatus UnschedulableAndUnresolvable [''Preemption is not helpful for scheduling'']) nodeStatuses)
       else Ret (potentialNodes @ [ni], nodeStatuses)))) (Ret ([], [])) nis"

text \<open>
  The nodes are tried from the offset on, each on its own copy of the cycle state, until there are
  enough candidates, one of them without a violated budget. The node information passed is the copy.
\<close>

fun dry_run :: "('s, 'w) preemption \<Rightarrow> kpod \<Rightarrow> pdb list \<Rightarrow> int \<Rightarrow> nodeInfo list \<Rightarrow>
    candidateList \<Rightarrow> candidateList \<Rightarrow> nodeToStatus \<Rightarrow> int \<Rightarrow> 's \<Rightarrow> 'w \<Rightarrow> ((candidate list \<times> nodeToStatus) \<times> int \<times> 'w) go" where
  "dry_run c pod pdbs numCandidates [] nvc vc nodeStatuses gen s w = Ret ((cl_get nvc @ cl_get vc, nodeStatuses), gen, w)"
| "dry_run c pod pdbs numCandidates (ni # nis) nvc vc nodeStatuses gen s w =
     go_bind (selectVictimsOnNode c pod ni pdbs gen (s, w)) (\<lambda>((pods, numPDBViolations, status), ni1, gen1, s1, w1).
       go_bind (node_name (node ni1)) (\<lambda>name.
         if IsSuccess status \<and> pods \<noteq> []
         then let x = \<lparr>cVictims = \<lparr>vPods = pods, NumPDBViolations = numPDBViolations\<rparr>, cName = name\<rparr>;
                  nvc1 = (if numPDBViolations = 0 then cl_add x nvc else nvc);
                  vc1 = (if numPDBViolations = 0 then vc else cl_add x vc)
              in if cl_size nvc1 > 0 \<and> wrap32 (cl_size nvc1 + cl_size vc1) \<ge> numCandidates
                 then Ret ((cl_get nvc1 @ cl_get vc1, nodeStatuses), gen1, w1)
                 else dry_run c pod pdbs numCandidates nis nvc1 vc1 nodeStatuses gen1 s w1
         else let status1 = (if IsSuccess status then AsStatus (''expected at least one victim pod on node '' @ quoted_name name) else status)
              in dry_run c pod pdbs numCandidates nis nvc vc (AList.update name status1 nodeStatuses) gen1 s w1))"

definition dryRunPreemption :: "('s, 'w) preemption \<Rightarrow> kpod \<Rightarrow> nodeInfo list \<Rightarrow> pdb list \<Rightarrow> int \<Rightarrow> int \<Rightarrow> int \<Rightarrow> 's \<Rightarrow> 'w \<Rightarrow>
    ((candidate list \<times> nodeToStatus) \<times> int \<times> 'w) go" where
  "dryRunPreemption c pod potentialNodes pdbs offset numCandidates gen s w =
     (if numCandidates < 0 then Panic SliceOutOfRange
      else dry_run c pod pdbs numCandidates
        (map (\<lambda>i. potentialNodes ! nat ((offset + int i) mod int (length potentialNodes))) [0..<length potentialNodes])
        (newCandidateList numCandidates) (newCandidateList numCandidates) [] gen s w)"

text \<open>Patching the status of every pod that has a nominated node; the errors are collected.\<close>

fun ClearNominatedNodeName :: "('s, 'w) preemption \<Rightarrow> kpod list \<Rightarrow> 'w \<Rightarrow> string list \<times> 'w" where
  "ClearNominatedNodeName c [] w = ([], w)"
| "ClearNominatedNodeName c (p # ps) w = (if NominatedNodeName p = [] then ClearNominatedNodeName c ps w
     else case PatchPodStatus c p w of (e, w1) \<Rightarrow> (case ClearNominatedNodeName c ps w1 of (es, w2) \<Rightarrow>
       (case e of None \<Rightarrow> es | Some x \<Rightarrow> x # es, w2)))"

definition getPodDisruptionBudgets :: "('s, 'w) preemption \<Rightarrow> 'w \<Rightarrow> string + pdb list" where
  "getPodDisruptionBudgets c w = (case pdbLister c of None \<Rightarrow> Inr [] | Some f \<Rightarrow> f w)"

definition FindCandidates :: "('s, 'w) preemption \<Rightarrow> kpod \<Rightarrow> nodeToStatus \<Rightarrow> int \<Rightarrow> 's \<Rightarrow> 'w \<Rightarrow>
    ((candidate list \<times> nodeToStatus \<times> statusp) \<times> int \<times> 'w) go" where
  "FindCandidates c pod m gen s w =
     (let allNodes = snap_List (SnapshotSharedLister c) in
      if allNodes = [] then Ret (([], [], NewStatus ErrorCode [''no nodes available'']), gen, w)
      else go_bind (nodesWherePreemptionMightHelp allNodes m) (\<lambda>(potentialNodes, unschedulableNodeStatus).
        if potentialNodes = [] then Ret (([], unschedulableNodeStatus, None), gen, snd (ClearNominatedNodeName c [pod] w))
        else case getPodDisruptionBudgets c w of
            Inl e \<Rightarrow> Ret (([], [], AsStatus e), gen, w)
          | Inr pdbs \<Rightarrow>
              (let k = wrap32 (int (length potentialNodes)) in
               go_bind (dryRunPreemption c pod potentialNodes pdbs (Int31n c k) (calculateNumCandidates c k) gen s w)
                 (\<lambda>((candidates, nodeStatuses), gen1, w1).
                   Ret ((candidates, foldl (\<lambda>st (n, x). AList.update n x st) nodeStatuses unschedulableNodeStatus, None), gen1, w1)))))"

section \<open>The plugin\<close>

definition PodEligibleToPreemptOthers :: "kpod \<Rightarrow> snapshot \<Rightarrow> statusp \<Rightarrow> bool" where
  "PodEligibleToPreemptOthers pod nodeInfos nominatedNodeStatus =
     (if PreemptionPolicy pod = Some ''Never'' then False
      else if NominatedNodeName pod \<noteq> []
      then (if Code nominatedNodeStatus = UnschedulableAndUnresolvable then True
            else case snap_Get nodeInfos (NominatedNodeName pod) of
                Inl e \<Rightarrow> True
              | Inr ni \<Rightarrow> \<not> list_ex (\<lambda>p. deleting p \<and> PodPriority p < PodPriority pod) (Pods ni))
      else True)"

definition getLowerPriorityNominatedPods :: "('s, 'w) fwk \<Rightarrow> kpod \<Rightarrow> string \<Rightarrow> kpod list" where
  "getLowerPriorityNominatedPods fw pod nodeName = filter (\<lambda>p. PodPriority p < PodPriority pod) (NominatedPodsForNode fw nodeName)"

text \<open>A victim that waits for a permit is rejected, any other one is deleted through the API.\<close>

fun evict_loop :: "('s, 'w) preemption \<Rightarrow> kpod \<Rightarrow> string \<Rightarrow> kpod list \<Rightarrow> (string \<rightharpoonup> waitingPod) \<Rightarrow> 'w \<Rightarrow>
    statusp \<times> (string \<rightharpoonup> waitingPod) \<times> 'w" where
  "evict_loop c pod nn [] wps w = (None, wps, w)"
| "evict_loop c pod nn (v # vs) wps w =
     (let note = ''Preempted by '' @ kNamespace pod @ ''/'' @ kName pod @ '' on node '' @ nn in
      case wps (UID v) of
        Some wp \<Rightarrow> evict_loop c pod nn vs (wps(UID v \<mapsto> Reject ''DefaultPreemption'' ''preempted'' wp)) (Eventf c v note w)
      | None \<Rightarrow> (case DeletePod c v w of
          (Some e, w1) \<Rightarrow> (AsStatus e, wps, w1)
        | (None, w1) \<Rightarrow> evict_loop c pod nn vs wps (Eventf c v note w1)))"

definition PrepareCandidate :: "('s, 'w) preemption \<Rightarrow> candidate \<Rightarrow> kpod \<Rightarrow> (string \<rightharpoonup> waitingPod) \<Rightarrow> 'w \<Rightarrow>
    statusp \<times> (string \<rightharpoonup> waitingPod) \<times> 'w" where
  "PrepareCandidate c x pod wps w =
     (case evict_loop c pod (cName x) (vPods (cVictims x)) wps w of
        (Some st, wps1, w1) \<Rightarrow> (Some st, wps1, w1)
      | (None, wps1, w1) \<Rightarrow> (None, wps1, snd (ClearNominatedNodeName c (getLowerPriorityNominatedPods (fh c) pod (cName x)) w1)))"

text \<open>The text of a failure to fit: how often each reason occurs, sorted.\<close>

definition add_reasons :: "(string \<times> nat) list \<Rightarrow> statusp \<Rightarrow> (string \<times> nat) list go" where
  "add_reasons m st = (case st of None \<Rightarrow> Panic NilDereference
     | Some x \<Rightarrow> Ret (foldl (\<lambda>m r. AList.update r (Suc (case map_of m r of None \<Rightarrow> 0 | Some k \<Rightarrow> k)) m) m (reasons x)))"

definition FitError_Error :: "nat \<Rightarrow> nodeToStatus \<Rightarrow> string go" where
  "FitError_Error numAllNodes m =
     go_bind (foldl (\<lambda>acc (n, st). go_bind acc (\<lambda>h. add_reasons h st)) (Ret []) m) (\<lambda>h.
       Ret (''0/'' @ itoa (int numAllNodes) @ '' nodes are available: '' @
         join '', '' (sort (map (\<lambda>(r, k). itoa (int k) @ '' '' @ r) h)) @ ''.''))"

definition preempt :: "('s, 'w) preemption \<Rightarrow> kpod \<Rightarrow> nodeToStatus \<Rightarrow> int \<Rightarrow> 's \<Rightarrow> (string \<rightharpoonup> waitingPod) \<Rightarrow> 'w \<Rightarrow>
    ((string \<times> statusp) \<times> int \<times> (string \<rightharpoonup> waitingPod) \<times> 'w) go" where
  "preempt c oldPod m gen s wps w =
     (case podLister c w (kNamespace oldPod) (kName oldPod) of
        Inl e \<Rightarrow> Ret (([], AsStatus e), gen, wps, w)
      | Inr pod \<Rightarrow>
          if \<not> PodEligibleToPreemptOthers pod (SnapshotSharedLister c)
                (case map_of m (NominatedNodeName pod) of None \<Rightarrow> None | Some st \<Rightarrow> st)
          then Ret (([], None), gen, wps, w)
          else go_bind (FindCandidates c pod m gen s w) (\<lambda>((candidates, nodeToStatusMap, status), gen1, w1).
            if \<not> IsSuccess status then Ret (([], status), gen1, wps, w1)
            else if candidates = []
            then go_bind (FitError_Error (length nodeToStatusMap) nodeToStatusMap) (\<lambda>e.
                   Ret (([], NewStatus Unschedulable [e]), gen1, wps, w1))
            else case CallExtenders c pod candidates of (candidates1, status1) \<Rightarrow>
              if \<not> IsSuccess status1 then Ret (([], status1), gen1, wps, w1)
              else go_bind (SelectCandidate c candidates1) (\<lambda>best. case best of
                  None \<Rightarrow> Ret (([], None), gen1, wps, w1)
                | Some x \<Rightarrow> if cName x = [] then Ret (([], None), gen1, wps, w1)
                    else (case PrepareCandidate c x pod wps w1 of (status2, wps1, w2) \<Rightarrow>
                      if \<not> IsSuccess status2 then Ret (([], status2), gen1, wps1, w2)
                      else Ret ((cName x, None), gen1, wps1, w2)))))"

definition PostFilter :: "('s, 'w) preemption \<Rightarrow> kpod \<Rightarrow> nodeToStatus \<Rightarrow> int \<Rightarrow> 's \<Rightarrow> (string \<rightharpoonup> waitingPod) \<Rightarrow> 'w \<Rightarrow>
    ((string option \<times> statusp) \<times> int \<times> (string \<rightharpoonup> waitingPod) \<times> 'w) go" where
  "PostFilter c pod m gen s wps w =
     go_bind (preempt c pod m gen s wps w) (\<lambda>((nnn, status), rest).
       if \<not> IsSuccess status then Ret ((None, status), rest)
       else if nnn = [] then Ret ((None, NewStatus Unschedulable []), rest)
       else Ret ((Some nnn, NewStatus Success []), rest))"

end
