(* ===== verification/Preempt_Victims.thy ===== *)
theory Preempt_Victims
  imports Preemption Generic_Props Cache_Inv
begin

text \<open>
  The victims of one node. The loop that removes pods from the slice it ranges over meets every pod
  of the node once. The victims have lower priority than the preempting pod, which fits once they are
  gone, and when the filters only ever prefer fewer pods no victim could have stayed.
\<close>

section \<open>Nodes whose pods have keys\<close>

definition named_pods :: "kpod list \<Rightarrow> bool" where
  "named_pods ps \<longleftrightarrow> distinct (map UID ps) \<and> (\<forall>p\<in>set ps. UID p \<noteq> [])"

lemma named_pods_sub:
  assumes "named_pods ps" "mset qs \<subseteq># mset ps"
  shows "named_pods qs"
proof -
  obtain M where "mset ps = mset qs + M" using assms(2) by (auto simp: mset_subset_eq_exists_conv)
  moreover obtain rs where "mset rs = M" using ex_mset by blast
  ultimately have m: "mset ps = mset (qs @ rs)" by simp
  then have "mset (map UID ps) = mset (map UID (qs @ rs))" unfolding mset_map by simp
  then have "distinct (map UID (qs @ rs))" using assms(1) by (metis named_pods_def mset_eq_imp_distinct_iff)
  moreover have "set ps = set (qs @ rs)" using m by (rule mset_eq_setD)
  ultimately show ?thesis using assms(1) by (auto simp: named_pods_def)
qed

lemma named_pods_unique:
  "named_pods ps \<Longrightarrow> p \<in> set ps \<Longrightarrow> q \<in> set ps \<Longrightarrow> UID q = UID p \<Longrightarrow> q = p"
  by (auto simp: named_pods_def distinct_map dest: inj_onD)

lemma named_pods_distinct: "named_pods ps \<Longrightarrow> distinct ps"
  by (auto simp: named_pods_def distinct_map)

lemma find_key_first:
  assumes "named_pods ps" "p \<in> set ps"
  shows "\<exists>j. find_key (UID p) ps = Some j \<and> j < length ps \<and> (\<forall>i<length ps. ps ! i = p \<longrightarrow> j = i)"
proof -
  have "UID p \<in> UID ` set ps" "UID p \<noteq> []" using assms by (auto simp: named_pods_def)
  then obtain j where j: "find_key (UID p) ps = Some j" "j < length ps" "UID (ps ! j) = UID p" by (rule find_key_present)
  then have "ps ! j = p" using named_pods_unique [OF assms] by simp
  then show ?thesis using j nth_eq_iff_index_eq [OF named_pods_distinct [OF assms(1)]] by metis
qed

section \<open>Removing while ranging\<close>

lemma removePod_returns:
  assumes "accounts (fwGates fw) ni" "named_pods (Pods ni)" "p \<in> set (Pods ni)"
  shows "\<exists>e ni' gen' sw' j. removePod fw pod p ni gen sw = Ret (e, ni', gen', sw') \<and> accounts (fwGates fw) ni' \<and> node ni' = node ni \<and>
    mset (Pods ni') = mset (Pods ni) - {#p#} \<and> find_key (UID p) (Pods ni) = Some j \<and> Pods ni' = swap_remove j (Pods ni)"
proof -
  obtain j where j: "find_key (UID p) (Pods ni) = Some j" using find_key_first [OF assms(2,3)] by metis
  have u: "UID p \<noteq> []" "\<forall>q\<in>set (Pods ni). UID q = UID p \<longrightarrow> q = p"
    using assms(2,3) named_pods_unique [OF assms(2,3)] by (auto simp: named_pods_def)
  obtain ni' gen' where r: "RemovePod (fwGates fw) p ni gen = Ret (None, ni', gen')" "accounts (fwGates fw) ni'"
      "mset (Pods ni') = mset (Pods ni) - {#p#}" "node ni' = node ni"
    using accounts_Remove [OF assms(1) u(1) assms(3) u(2), of gen] by blast
  moreover have "Pods ni' = swap_remove j (Pods ni)" using RemovePod_fields [OF u(1) j, of "fwGates fw" gen] r(1) by auto
  ultimately show ?thesis using j
    by (cases "RunPreFilterExtensionRemovePod (preFilterPlugins fw) pod p ni' sw") (auto simp: removePod_def)
qed

lemma swap_remove_nth:
  "j < length xs \<Longrightarrow> i < length xs - 1 \<Longrightarrow> i \<noteq> j \<Longrightarrow> swap_remove j xs ! i = xs ! i"
  by (simp add: swap_remove_def nth_butlast)

text \<open>The array behind the slice does not change after the position the range has reached.\<close>

lemma behind_later:
  assumes "take (length ps) arr = ps" "j < length ps" "j \<le> i"
  shows "drop (Suc i) (behind (swap_remove j ps) arr) = drop (Suc i) arr"
    "length (behind (swap_remove j ps) arr) = length arr"
    "take (length (swap_remove j ps)) (behind (swap_remove j ps) arr) = swap_remove j ps"
proof -
  have l: "length (swap_remove j ps) = length ps - 1" by (simp add: swap_remove_def)
  have le: "length ps \<le> length arr" using arg_cong [OF assms(1), of length] by simp
  show len: "length (behind (swap_remove j ps) arr) = length arr" using l le by (simp add: behind_def)
  show "take (length (swap_remove j ps)) (behind (swap_remove j ps) arr) = swap_remove j ps" by (simp add: behind_def)
  show "drop (Suc i) (behind (swap_remove j ps) arr) = drop (Suc i) arr"
  proof (rule nth_equalityI)
    fix q assume "q < length (drop (Suc i) (behind (swap_remove j ps) arr))"
    then have q: "Suc i + q < length arr" using len by simp
    have "behind (swap_remove j ps) arr ! (Suc i + q) = arr ! (Suc i + q)"
    proof (cases "Suc i + q < length ps - 1")
      case True
      then have "swap_remove j ps ! (Suc i + q) = ps ! (Suc i + q)" using assms(2,3) by (intro swap_remove_nth) auto
      also have "\<dots> = arr ! (Suc i + q)" using True assms(1) by (metis nth_take less_diff_conv add_lessD1)
      finally show ?thesis using True l by (simp add: behind_def nth_append)
    next
      case False
      then show ?thesis using l q by (simp add: behind_def nth_append)
    qed
    then show "drop (Suc i) (behind (swap_remove j ps) arr) ! q = drop (Suc i) arr ! q" using q len by simp
  qed (use len in simp)
qed

lemma remove_lower_all:
  assumes "accounts (fwGates fw) ni" "named_pods orig" "length arr = length orig" "i + k = length orig"
    "drop i arr = drop i orig" "take (length (Pods ni)) arr = Pods ni"
    "mset (Pods ni) = mset (filter (\<lambda>p. \<not> PodPriority p < PodPriority pod) (take i orig)) + mset (drop i orig)"
  shows "\<exists>r ni' gen' sw'. remove_lower fw pod k i arr pot ni gen sw = Ret (r, ni', gen', sw') \<and> node ni' = node ni \<and>
    (\<forall>pot'. r = Inr pot' \<longrightarrow> pot' = pot @ filter (\<lambda>p. PodPriority p < PodPriority pod) (drop i orig) \<and>
      accounts (fwGates fw) ni' \<and> mset (Pods ni') = mset (filter (\<lambda>p. \<not> PodPriority p < PodPriority pod) orig))"
  using assms
proof (induction k arbitrary: i arr pot ni gen sw)
  case (Suc k)
  let ?low = "\<lambda>p. PodPriority p < PodPriority pod"
  let ?p = "arr ! i"
  have i: "i < length orig" using Suc.prems(4) by simp
  have d: "drop i orig = ?p # drop (Suc i) orig"
    using Suc.prems(3,5) i by (metis Cons_nth_drop_Suc list.inject)
  have p: "orig ! i = ?p" using d i by (metis Cons_nth_drop_Suc list.inject)
  have t: "take (Suc i) orig = take i orig @ [?p]" using i p by (simp add: take_Suc_conv_app_nth)
  have dn: "drop (Suc i) arr = drop (Suc i) orig" using Suc.prems(5) by (metis drop_drop add.commute plus_1_eq_Suc)
  show ?case
  proof (cases "?low ?p")
    case False
    have "mset (Pods ni) = mset (filter (\<lambda>p. \<not> ?low p) (take (Suc i) orig)) + mset (drop (Suc i) orig)"
      using Suc.prems(7) False d t by simp
    from Suc.IH [OF Suc.prems(1,2,3) _ dn Suc.prems(6) this, of pot gen sw] show ?thesis
      using Suc.prems(4) False d by simp
  next
    case True
    have sub: "mset (Pods ni) \<subseteq># mset orig"
    proof -
      have "mset orig = mset (take i orig) + mset (drop i orig)" by (metis append_take_drop_id mset_append)
      then show ?thesis unfolding Suc.prems(7) by (simp add: multiset_filter_subset)
    qed
    note nm = named_pods_sub [OF Suc.prems(2) sub]
    have mem: "?p \<in> set (Pods ni)"
      unfolding set_mset_mset [symmetric] Suc.prems(7) d by simp
    obtain e ni1 gen1 sw1 j where r: "removePod fw pod ?p ni gen sw = Ret (e, ni1, gen1, sw1)" "accounts (fwGates fw) ni1" "node ni1 = node ni"
        "mset (Pods ni1) = mset (Pods ni) - {#?p#}" "find_key (UID ?p) (Pods ni) = Some j" "Pods ni1 = swap_remove j (Pods ni)"
      using removePod_returns [OF Suc.prems(1) nm mem, of pod gen sw] by (elim exE conjE) (rule that)
    have j: "j < length (Pods ni)" "\<forall>q<length (Pods ni). Pods ni ! q = ?p \<longrightarrow> j = q"
      using find_key_first [OF nm mem] r(5) by auto
    have "j \<le> i"
    proof (cases "i < length (Pods ni)")
      case True
      then have "Pods ni ! i = ?p" using Suc.prems(6) by (metis nth_take)
      then show ?thesis using j(2) True by simp
    qed (use j(1) in simp)
    note b = behind_later [OF Suc.prems(6) j(1) this]
    show ?thesis
    proof (cases e)
      case None
      have m: "mset (Pods ni1) = mset (filter (\<lambda>p. \<not> ?low p) (take (Suc i) orig)) + mset (drop (Suc i) orig)"
        unfolding r(4) Suc.prems(7) using True d t by simp
      have bb: "length (behind (Pods ni1) arr) = length orig" "drop (Suc i) (behind (Pods ni1) arr) = drop (Suc i) orig"
          "take (length (Pods ni1)) (behind (Pods ni1) arr) = Pods ni1"
        using b dn Suc.prems(3) r(6) by simp_all
      from Suc.IH [OF r(2) Suc.prems(2) bb(1) _ bb(2,3) m, of "pot @ [?p]" gen1 sw1] show ?thesis
        using Suc.prems(4) True d r(1,3) None by (simp add: Let_def)
    qed (use True r in \<open>simp add: Let_def\<close>)
  qed
qed simp

section \<open>Filters with nominated pods\<close>

lemma add_nominated_none:
  "add_nominated g pfs ps pod added ni gen sw = (Inr (False, ni'), gen', sw') \<Longrightarrow> ni' = ni"
proof (induction ps arbitrary: added ni gen sw)
  case (Cons p ps)
  have added: "fst y" if "add_nominated g pfs ps pod True ni gen sw = (Inr y, r)" for ps y ni gen sw r
    using that
    by (induction ps arbitrary: ni gen sw) (auto split: if_splits prod.splits)
  show ?case using Cons.prems Cons.IH by (auto simp: Let_def split: if_splits prod.splits dest: added)
qed simp

lemma filters_success_fits:
  assumes "fs = verdict_plugins V names"
  shows "\<exists>st gen' sw'. RunFilterPluginsWithNominatedPods g runAll pfs fs nominated pod ni gen sw = Ret (st, gen', sw') \<and>
    (IsSuccess st \<longrightarrow> fits V names pod ni)"
proof -
  have run: "\<exists>m s. RunFilterPlugins runAll fs pod n w = (m, w) \<and> Merge (map snd m) = Ret s \<and> (IsSuccess s \<longleftrightarrow> fits V names pod n)" for n w
  proof -
    obtain m where m: "RunFilterPlugins runAll fs pod n w = (m, w)" "refusals m" "m = [] \<longleftrightarrow> fits V names pod n"
      using filter_loop_verdicts [of "[]" runAll V names pod n w] assms by (auto simp: RunFilterPlugins_def refusals_def)
    then show ?thesis using Merge_refusals [OF m(2)] by auto
  qed
  obtain r gen1 s1 w1 where a: "addNominatedPods g pfs nominated pod ni gen sw = (r, gen1, s1, w1)" by (rule prod_cases4)
  show ?thesis
  proof (cases r)
    case (Inl e)
    then show ?thesis using a by (auto simp: RunFilterPluginsWithNominatedPods_def AsStatus_def IsSuccess_def Code_def)
  next
    case (Inr p)
    obtain added n where p: "p = (added, n)" by (rule prod.exhaust)
    have same: "n = ni" if "\<not> added"
      using a Inr p that
      by (auto simp: addNominatedPods_def split: option.splits if_splits dest: add_nominated_none)
    obtain m s where 1: "RunFilterPlugins runAll fs pod n (s1, w1) = (m, s1, w1)" "Merge (map snd m) = Ret s" "IsSuccess s \<longleftrightarrow> fits V names pod n"
      using run [of n "(s1, w1)"] by blast
    define s3 where "s3 = (if clones nominated ni then fst sw else s1)"
    obtain m' s' where 2: "RunFilterPlugins runAll fs pod ni (s3, w1) = (m', s3, w1)" "Merge (map snd m') = Ret s'" "IsSuccess s' \<longleftrightarrow> fits V names pod ni"
      using run [of ni "(s3, w1)"] by blast
    show ?thesis using a Inr p same 1 2
      by (auto simp: RunFilterPluginsWithNominatedPods_def Let_def s3_def [symmetric])
  qed
qed

section \<open>Trying to keep a pod\<close>

text \<open>Pods for which a node would accept, or refuse, the preempting pod.\<close>

definition room :: "(string \<Rightarrow> kpod \<Rightarrow> nodeInfo \<Rightarrow> statusp) \<Rightarrow> string list \<Rightarrow> kpod \<Rightarrow> gates \<Rightarrow> knode option \<Rightarrow> kpod multiset \<Rightarrow> bool" where
  "room V names pod g nd M \<longleftrightarrow> (\<exists>ni. node ni = nd \<and> accounts g ni \<and> mset (Pods ni) = M \<and> fits V names pod ni)"

definition no_room :: "(string \<Rightarrow> kpod \<Rightarrow> nodeInfo \<Rightarrow> statusp) \<Rightarrow> string list \<Rightarrow> kpod \<Rightarrow> gates \<Rightarrow> knode option \<Rightarrow> kpod multiset \<Rightarrow> bool" where
  "no_room V names pod g nd M \<longleftrightarrow> (\<exists>ni. node ni = nd \<and> accounts g ni \<and> mset (Pods ni) = M \<and> \<not> fits V names pod ni)"

lemma pdb_loop_mset: "pdb_loop bs ps as = (vs, ns) \<Longrightarrow> mset vs + mset ns = mset ps"
  by (induction ps arbitrary: as vs ns) (auto simp: Let_def split: prod.splits if_splits)

lemma reprieve_count:
  assumes "reprieve_loop fw pod ps vs n ni gen sw = Ret (Inr (vs', n'), z)" "0 \<le> n" "n + int (length ps) < 2 ^ 63"
  shows "0 \<le> n' \<and> n' \<le> n + int (length ps)"
  using assms
proof (induction ps arbitrary: vs n ni gen sw)
  case (Cons p ps)
  obtain r1 vs1 ni1 gen1 sw1 where r: "reprievePod fw pod p vs ni gen sw = Ret (r1, vs1, ni1, gen1, sw1)"
    using Cons.prems(1) by (cases "reprievePod fw pod p vs ni gen sw") auto
  then obtain ok where s: "r1 = Inr ok" "reprieve_loop fw pod ps vs1 (if ok then n else wrap64 (n + 1)) ni1 gen1 sw1 = Ret (Inr (vs', n'), z)"
    using Cons.prems(1) by (cases r1) auto
  have w: "wrap64 (n + 1) = n + 1" using Cons.prems(2,3) by (intro wrap64_range) auto
  show ?case using Cons.IH [OF s(2)] Cons.prems(2,3) w by (cases ok) auto
qed simp

definition unnominated :: "('s, 'w) preemption \<Rightarrow> bool" where
  "unnominated c \<longleftrightarrow> (\<forall>nn. NominatedPodsForNode (fh c) nn = [])"

text \<open>
  From the pods \<open>M\<close> on the node, trying \<open>ps\<close> ends with the pods \<open>M'\<close>: all but \<open>ds\<close> are kept, room is not
  lost, and (if \<open>strict\<close>) each of \<open>ds\<close> leaves no room beside some of the pods that are kept.
\<close>

definition sifted :: "(string \<Rightarrow> kpod \<Rightarrow> nodeInfo \<Rightarrow> statusp) \<Rightarrow> string list \<Rightarrow> kpod \<Rightarrow> gates \<Rightarrow> knode option \<Rightarrow> bool \<Rightarrow>
    kpod multiset \<Rightarrow> kpod list \<Rightarrow> kpod list \<Rightarrow> kpod multiset \<Rightarrow> bool" where
  "sifted V names pod g nd strict M ps ds M' \<longleftrightarrow> M \<subseteq># M' \<and> M' + mset ds = M + mset ps \<and>
     (room V names pod g nd M \<longrightarrow> room V names pod g nd M') \<and>
     (strict \<longrightarrow> (\<forall>d\<in>set ds. \<exists>K. K \<subseteq># M' \<and> no_room V names pod g nd (add_mset d K)))"

lemma sifted_Nil: "sifted V names pod g nd strict M [] [] M"
  by (simp add: sifted_def)

lemma sifted_keep:
  assumes "room V names pod g nd (add_mset p M)" "sifted V names pod g nd strict (add_mset p M) ps ds M'"
  shows "sifted V names pod g nd strict M (p # ps) ds M'"
proof -
  have "M \<subseteq># M'" using assms(2) unfolding sifted_def by (meson multi_psub_of_add_self subset_mset.less_imp_le subset_mset.order_trans)
  then show ?thesis using assms by (simp add: sifted_def)
qed

lemma sifted_drop:
  assumes "strict \<longrightarrow> no_room V names pod g nd (add_mset p M)" "sifted V names pod g nd strict M ps ds M'"
  shows "sifted V names pod g nd strict M (p # ps) (p # ds) M'"
  using assms by (simp add: sifted_def) blast

lemma sifted_append:
  assumes "sifted V names pod g nd strict M ps ds M'" "sifted V names pod g nd strict M' qs es M''"
  shows "sifted V names pod g nd strict M (ps @ qs) (ds @ es) M''"
proof -
  have m: "M \<subseteq># M'" "M' + mset ds = M + mset ps" "M' \<subseteq># M''" "M'' + mset es = M' + mset qs"
    using assms by (auto simp: sifted_def)
  have "M'' + mset (ds @ es) = (M' + mset ds) + mset qs" using m(4) by (simp add: ac_simps)
  then have "M'' + mset (ds @ es) = M + mset (ps @ qs)" unfolding m(2) by (simp add: ac_simps)
  moreover have "M \<subseteq># M''" using m(1,3) by (rule subset_mset.order_trans)
  moreover have "\<exists>K. K \<subseteq># M'' \<and> no_room V names pod g nd (add_mset d K)" if h: "strict" "d \<in> set (ds @ es)" for d
    using assms h m(3) unfolding sifted_def set_append by (meson UnE subset_mset.order_trans)
  ultimately show ?thesis using assms unfolding sifted_def by simp
qed

text \<open>What the search of one node ends with when it succeeds: victims \<open>vs\<close>, and the node without them.\<close>

definition victims_found :: "('s, 'w) preemption \<Rightarrow> (string \<Rightarrow> kpod \<Rightarrow> nodeInfo \<Rightarrow> statusp) \<Rightarrow> string list \<Rightarrow> kpod \<Rightarrow> nodeInfo \<Rightarrow> kpod list \<Rightarrow> int \<Rightarrow> bool" where
  "victims_found c V names pod ni vs n \<longleftrightarrow> (\<exists>M ps. mset ps = mset (filter (\<lambda>p. PodPriority p < PodPriority pod) (Pods ni)) \<and>
     sifted V names pod (fwGates (fh c)) (node ni) (unnominated c) (mset (filter (\<lambda>p. \<not> PodPriority p < PodPriority pod) (Pods ni))) ps vs M \<and>
     room V names pod (fwGates (fh c)) (node ni) M \<and> 0 \<le> n \<and> n \<le> int (length (Pods ni)))"

locale victim_search =
  fixes c :: "('s, 'w) preemption" and V :: "string \<Rightarrow> kpod \<Rightarrow> nodeInfo \<Rightarrow> statusp" and names :: "string list"
  assumes filters: "filterPlugins (fh c) = verdict_plugins V names"
    and sort_mset: "mset (sortSlice c lt xs) = mset xs"
begin

abbreviation G :: gates where "G \<equiv> fwGates (fh c)"

abbreviation alone :: bool where "alone \<equiv> unnominated c"

lemma runFilters_fits:
  "\<exists>st gen' sw'. runFilters (fh c) pod ni gen sw = Ret (st, gen', sw') \<and> (IsSuccess st \<longrightarrow> fits V names pod ni) \<and>
     (alone \<longrightarrow> (IsSuccess st \<longleftrightarrow> fits V names pod ni))"
proof (cases alone)
  case True
  then show ?thesis using run_filters_verdicts [of "NominatedPodsForNode (fh c)" G "runAllFilters (fh c)" "preFilterPlugins (fh c)" V names pod ni gen sw]
    filters by (auto simp: runFilters_def unnominated_def)
next
  case False
  then show ?thesis using filters_success_fits [OF filters, of G "runAllFilters (fh c)" "preFilterPlugins (fh c)" "NominatedPodsForNode (fh c)" pod ni gen sw]
    unfolding runFilters_def by blast
qed

lemma reprievePod_effect:
  assumes "accounts G ni" "named_pods (p # Pods ni)"
  shows "\<exists>r vs' ni' gen' sw'. reprievePod (fh c) pod p vs ni gen sw = Ret (r, vs', ni', gen', sw') \<and> node ni' = node ni \<and>
    (r = Inr True \<longrightarrow> vs' = vs \<and> accounts G ni' \<and> mset (Pods ni') = add_mset p (mset (Pods ni)) \<and>
       room V names pod G (node ni) (add_mset p (mset (Pods ni)))) \<and>
    (r = Inr False \<longrightarrow> vs' = vs @ [p] \<and> accounts G ni' \<and> mset (Pods ni') = mset (Pods ni) \<and>
       (alone \<longrightarrow> no_room V names pod G (node ni) (add_mset p (mset (Pods ni)))))"
proof -
  obtain e ni1 gen1 sw1 where a: "addPod (fh c) pod p ni gen sw = (e, ni1, gen1, sw1)" by (rule prod_cases4)
  then obtain gen' where ap: "AddPodInfo G p ni gen = (ni1, gen')" by (auto simp: addPod_def split: prod.splits)
  have n1: "accounts G ni1" "mset (Pods ni1) = add_mset p (mset (Pods ni))" "node ni1 = node ni"
    using accounts_Add [OF assms(1) ap] by auto
  have nm: "named_pods (Pods ni1)" using named_pods_sub [OF assms(2)] n1(2) by simp
  have mem: "p \<in> set (Pods ni1)" unfolding set_mset_mset [symmetric] n1(2) by simp
  obtain st gen2 sw2 where f: "runFilters (fh c) pod ni1 gen1 sw1 = Ret (st, gen2, sw2)" "IsSuccess st \<longrightarrow> fits V names pod ni1"
      "alone \<longrightarrow> (IsSuccess st \<longleftrightarrow> fits V names pod ni1)"
    using runFilters_fits by blast
  obtain e3 ni3 gen3 sw3 where r: "removePod (fh c) pod p ni1 gen2 sw2 = Ret (e3, ni3, gen3, sw3)" "accounts G ni3"
      "node ni3 = node ni1" "mset (Pods ni3) = mset (Pods ni1) - {#p#}"
    using removePod_returns [OF n1(1) nm mem, of pod gen2 sw2] by blast
  show ?thesis
  proof (cases e)
    case (Some x)
    then show ?thesis using a n1(3) by (auto simp: reprievePod_def)
  next
    case None
    show ?thesis
    proof (cases "IsSuccess st")
      case True
      then show ?thesis using a None f n1 by (auto simp: reprievePod_def room_def)
    next
      case False
      then show ?thesis using a None f n1 r by (cases e3) (auto simp: reprievePod_def no_room_def)
    qed
  qed
qed

lemma reprieve_loop_effect:
  assumes "accounts G ni" "named_pods (ps @ Pods ni)"
  shows "\<exists>r ni' gen' sw'. reprieve_loop (fh c) pod ps vs n ni gen sw = Ret (r, ni', gen', sw') \<and> node ni' = node ni \<and>
    (\<forall>vs' n'. r = Inr (vs', n') \<longrightarrow> (\<exists>ds. vs' = vs @ ds \<and> accounts G ni' \<and>
       sifted V names pod G (node ni) alone (mset (Pods ni)) ps ds (mset (Pods ni'))))"
  using assms
proof (induction ps arbitrary: vs n ni gen sw)
  case Nil
  show ?case using Nil.prems(1) sifted_Nil by auto
next
  case (Cons p ps)
  have nm: "named_pods (p # Pods ni)" using Cons.prems(2) by (rule named_pods_sub) simp
  obtain r1 vs1 ni1 gen1 sw1 where s: "reprievePod (fh c) pod p vs ni gen sw = Ret (r1, vs1, ni1, gen1, sw1)" "node ni1 = node ni"
      "r1 = Inr True \<longrightarrow> vs1 = vs \<and> accounts G ni1 \<and> mset (Pods ni1) = add_mset p (mset (Pods ni)) \<and>
         room V names pod G (node ni) (add_mset p (mset (Pods ni)))"
      "r1 = Inr False \<longrightarrow> vs1 = vs @ [p] \<and> accounts G ni1 \<and> mset (Pods ni1) = mset (Pods ni) \<and>
         (alone \<longrightarrow> no_room V names pod G (node ni) (add_mset p (mset (Pods ni))))"
    using reprievePod_effect [OF Cons.prems(1) nm, of pod vs gen sw] by (elim exE conjE) (rule that)
  show ?case
  proof (cases r1)
    case (Inl e)
    then show ?thesis using s(1,2) by auto
  next
    case (Inr ok)
    have acc: "accounts G ni1" and ms: "mset (Pods ni1) = mset (Pods ni) + (if ok then {#p#} else {#})"
      using s(3,4) Inr by (cases ok; simp)+
    have nm1: "named_pods (ps @ Pods ni1)" using Cons.prems(2) by (rule named_pods_sub) (simp add: ms)
    let ?n = "if ok then n else wrap64 (n + 1)"
    obtain r ni' gen' sw' where t: "reprieve_loop (fh c) pod ps vs1 ?n ni1 gen1 sw1 = Ret (r, ni', gen', sw')" "node ni' = node ni1"
        "\<forall>vs' n'. r = Inr (vs', n') \<longrightarrow> (\<exists>ds. vs' = vs1 @ ds \<and> accounts G ni' \<and>
           sifted V names pod G (node ni1) alone (mset (Pods ni1)) ps ds (mset (Pods ni')))"
      using Cons.IH [OF acc nm1, of vs1 ?n gen1 sw1] by (elim exE conjE) (rule that)
    have step: "reprieve_loop (fh c) pod (p # ps) vs n ni gen sw = Ret (r, ni', gen', sw')" using s(1) t(1) Inr by simp
    have "\<exists>ds. vs' = vs @ ds \<and> accounts G ni' \<and> sifted V names pod G (node ni) alone (mset (Pods ni)) (p # ps) ds (mset (Pods ni'))"
      if r: "r = Inr (vs', n')" for vs' n'
    proof -
      obtain ds where ds: "vs' = vs1 @ ds" "accounts G ni'"
          "sifted V names pod G (node ni) alone (mset (Pods ni1)) ps ds (mset (Pods ni'))"
        using t(3) [rule_format, OF r] unfolding s(2) by (elim exE conjE) (rule that)
      show ?thesis
      proof (cases ok)
        case True
        then have k: "vs1 = vs" "mset (Pods ni1) = add_mset p (mset (Pods ni))" "room V names pod G (node ni) (add_mset p (mset (Pods ni)))"
          using s(3) Inr by simp_all
        show ?thesis using ds(1,2) k(1) sifted_keep [OF k(3) ds(3) [unfolded k(2)]] by blast
      next
        case False
        then have k: "vs1 = vs @ [p]" "mset (Pods ni1) = mset (Pods ni)" "alone \<longrightarrow> no_room V names pod G (node ni) (add_mset p (mset (Pods ni)))"
          using s(4) Inr by simp_all
        have "vs' = vs @ (p # ds)" using ds(1) k(1) by simp
        then show ?thesis using ds(2) sifted_drop [OF k(3) ds(3) [unfolded k(2)]] by blast
      qed
    qed
    then show ?thesis using step t(2) s(2) by auto
  qed
qed

lemma select_effect:
  assumes "accounts G ni" "named_pods (Pods ni)" "node ni = Some nd" "int (length (Pods ni)) < 2 ^ 63"
  shows "\<exists>vs n st ni' gen' sw'. selectVictimsOnNode c pod ni pdbs gen sw = Ret ((vs, n, st), ni', gen', sw') \<and> node ni' = node ni \<and>
    (IsSuccess st \<longrightarrow> victims_found c V names pod ni vs n)"
proof -
  let ?low = "\<lambda>p. PodPriority p < PodPriority pod"
  let ?sel = "selectVictimsOnNode c pod ni pdbs gen sw"
  have fail: "\<not> IsSuccess (AsStatus e)" "\<not> IsSuccess (NewStatus UnschedulableAndUnresolvable m)" for e m
    by (simp_all add: IsSuccess_def AsStatus_def NewStatus_def Code_def)
  have prem: "take (length (Pods ni)) (Pods ni) = Pods ni"
      "mset (Pods ni) = mset (filter (\<lambda>p. \<not> ?low p) (take 0 (Pods ni))) + mset (drop 0 (Pods ni))" by simp_all
  obtain r ni1 gen1 sw1 where 1: "remove_lower (fh c) pod (length (Pods ni)) 0 (Pods ni) [] ni gen sw = Ret (r, ni1, gen1, sw1)" "node ni1 = node ni"
      "\<forall>pot. r = Inr pot \<longrightarrow> pot = [] @ filter ?low (drop 0 (Pods ni)) \<and> accounts G ni1 \<and> mset (Pods ni1) = mset (filter (\<lambda>p. \<not> ?low p) (Pods ni))"
    using remove_lower_all [OF assms(1,2) refl add_0 refl prem, of "[]" gen sw] by (elim exE conjE) (rule that)
  show ?thesis
  proof (cases r)
    case (Inl e)
    then show ?thesis using 1 fail by (simp add: selectVictimsOnNode_def)
  next
    case (Inr pot)
    have pot: "pot = filter ?low (Pods ni)" "accounts G ni1" "mset (Pods ni1) = mset (filter (\<lambda>p. \<not> ?low p) (Pods ni))"
      using 1(3) Inr by simp_all
    show ?thesis
    proof (cases "pot = []")
      case True
      then show ?thesis using 1 Inr assms(3) fail by (simp add: selectVictimsOnNode_def node_name_def)
    next
      case False
      obtain st gen2 sw2 where 2: "runFilters (fh c) pod ni1 gen1 sw1 = Ret (st, gen2, sw2)" "IsSuccess st \<longrightarrow> fits V names pod ni1"
        using runFilters_fits by blast
      show ?thesis
      proof (cases "IsSuccess st")
        case stf: False
        then show ?thesis using 1 2 Inr False by (simp add: selectVictimsOnNode_def)
      next
        case ok: True
        define sorted where "sorted = sortSlice c (MoreImportantPod (clock c)) pot"
        obtain viol nonviol where 3: "filterPodsWithPDBViolation sorted pdbs = (viol, nonviol)" by (rule prod.exhaust)
        have m3: "mset viol + mset nonviol = mset pot"
          using pdb_loop_mset 3 unfolding filterPodsWithPDBViolation_def sorted_def by (metis sort_mset)
        have all: "mset pot + mset (Pods ni1) = mset (Pods ni)" unfolding pot(1,3) by (simp add: multiset_partition [symmetric])
        have room1: "room V names pod G (node ni) (mset (Pods ni1))" using 1(2) 2(2) ok pot(2) by (auto simp: room_def)
        have nm1: "named_pods (viol @ Pods ni1)"
          by (rule named_pods_sub [OF assms(2)]) (simp add: all [symmetric] m3 [symmetric])
        obtain r2 ni2 gen3 sw3 where 4: "reprieve_loop (fh c) pod viol [] 0 ni1 gen2 sw2 = Ret (r2, ni2, gen3, sw3)" "node ni2 = node ni1"
            "\<forall>vs' n'. r2 = Inr (vs', n') \<longrightarrow> (\<exists>ds. vs' = [] @ ds \<and> accounts G ni2 \<and>
               sifted V names pod G (node ni1) alone (mset (Pods ni1)) viol ds (mset (Pods ni2)))"
          using reprieve_loop_effect [OF pot(2) nm1, of pod "[]" 0 gen2 sw2] by (elim exE conjE) (rule that)
        note run = 1(1) 2(1) 3 [unfolded sorted_def] 4(1)
        show ?thesis
        proof (cases r2)
          case (Inl e)
          then show ?thesis using run 1(2) 4(2) Inr False ok fail by (simp add: selectVictimsOnNode_def)
        next
          case r2: (Inr p)
          obtain vs n where p: "p = (vs, n)" by (rule prod.exhaust)
          have s1: "accounts G ni2" "sifted V names pod G (node ni) alone (mset (Pods ni1)) viol vs (mset (Pods ni2))"
            using 4(3) r2 p 1(2) by simp_all
          have "mset (Pods ni2) \<subseteq># mset (Pods ni1) + mset viol" using s1(2) unfolding sifted_def by (metis mset_subset_eq_add_left)
          then have nm2: "named_pods (nonviol @ Pods ni2)"
            by (intro named_pods_sub [OF assms(2)]) (simp add: all [symmetric] m3 [symmetric] ac_simps subset_mset.add_left_mono)
          obtain r3 ni3 gen4 sw4 where 5: "reprieve_loop (fh c) pod nonviol vs 0 ni2 gen3 sw3 = Ret (r3, ni3, gen4, sw4)" "node ni3 = node ni2"
              "\<forall>vs' n'. r3 = Inr (vs', n') \<longrightarrow> (\<exists>ds. vs' = vs @ ds \<and> accounts G ni3 \<and>
                 sifted V names pod G (node ni2) alone (mset (Pods ni2)) nonviol ds (mset (Pods ni3)))"
            using reprieve_loop_effect [OF s1(1) nm2, of pod vs 0 gen3 sw3] by (elim exE conjE) (rule that)
          show ?thesis
          proof (cases r3)
            case (Inl e)
            then show ?thesis using run 1(2) 4(2) 5(1,2) Inr False ok fail r2 p by (simp add: selectVictimsOnNode_def)
          next
            case r3: (Inr q)
            obtain vs' k where q: "q = (vs', k)" by (rule prod.exhaust)
            obtain ds where ds: "vs' = vs @ ds" "sifted V names pod G (node ni) alone (mset (Pods ni2)) nonviol ds (mset (Pods ni3))"
              using 5(3) r3 q 1(2) 4(2) by auto
            have sf: "sifted V names pod G (node ni) alone (mset (Pods ni1)) (viol @ nonviol) vs' (mset (Pods ni3))"
              unfolding ds(1) by (rule sifted_append [OF s1(2) ds(2)])
            have "length viol \<le> length (Pods ni)" using arg_cong [OF all, of size] arg_cong [OF m3, of size] by simp
            then have "0 \<le> n \<and> n \<le> int (length (Pods ni))"
              using reprieve_count [OF 4(1) [unfolded r2 p]] assms(4) by simp
            then have "victims_found c V names pod ni vs' n"
              unfolding victims_found_def using sf room1 m3 pot(1,3)
              by (intro exI [of _ "mset (Pods ni3)"] exI [of _ "viol @ nonviol"]) (auto simp: sifted_def)
            then show ?thesis using run 1(2) 4(2) 5(1,2) Inr False ok r2 p r3 q by (simp add: selectVictimsOnNode_def)
          qed
        qed
      qed
    qed
  qed
qed

end

end
