(* ===== verification/Preempt_Frame.thy ===== *)
theory Preempt_Frame
  imports Preempt_Victims "HOL-Library.Sublist"
begin

text \<open>
  What preemption does to the cluster. The search for candidates only reads it; the eviction deletes
  victims in their order and stops at the first deletion that fails.
\<close>

section \<open>The cluster's log of deletions\<close>

text \<open>
  \<open>evicted\<close> lists the identifiers of the pods the API server has agreed to delete. The deletion of a pod
  adds to it when it succeeds; changing the status of a pod, recording an event and the adjustments of
  the cycle state by the PreFilter plugins do not.
\<close>

definition logs_deletions :: "('w \<Rightarrow> string list) \<Rightarrow> ('s, 'w) preemption \<Rightarrow> bool" where
  "logs_deletions evicted c \<longleftrightarrow>
     (\<forall>p w. evicted (snd (DeletePod c p w)) = evicted w @ (if fst (DeletePod c p w) = None then [UID p] else [])) \<and>
     (\<forall>p w. evicted (snd (PatchPodStatus c p w)) = evicted w) \<and> (\<forall>p t w. evicted (Eventf c p t w) = evicted w) \<and>
     (\<forall>pl\<in>set (preFilterPlugins (fh c)). \<forall>e. pfExtensions pl = Some e \<longrightarrow>
        (\<forall>p q ni sw. evicted (snd (snd (pfAddPod e p q ni sw))) = evicted (snd sw) \<and>
           evicted (snd (snd (pfRemovePod e p q ni sw))) = evicted (snd sw)))"

locale quiet_search = victim_search c V names for c :: "('s, 'w) preemption" and V names +
  fixes evicted :: "'w \<Rightarrow> string list"
  assumes logs: "logs_deletions evicted c"
begin

section \<open>The search\<close>

lemma extensions_quiet:
  assumes "set pls \<subseteq> set (preFilterPlugins (fh c))"
  shows "RunPreFilterExtensionAddPod pls pod p ni sw = (st, sw') \<Longrightarrow> evicted (snd sw') = evicted (snd sw)"
    "RunPreFilterExtensionRemovePod pls pod p ni sw = (st, sw') \<Longrightarrow> evicted (snd sw') = evicted (snd sw)"
proof -
  have q: "evicted (snd (snd (pfAddPod e p q ni sw))) = evicted (snd sw)" "evicted (snd (snd (pfRemovePod e p q ni sw))) = evicted (snd sw)"
    if "pl \<in> set (preFilterPlugins (fh c))" "pfExtensions pl = Some e" for pl e p q ni sw
    using logs that unfolding logs_deletions_def by blast+
  show "RunPreFilterExtensionAddPod pls pod p ni sw = (st, sw') \<Longrightarrow> evicted (snd sw') = evicted (snd sw)"
    using assms
  proof (induction pls arbitrary: sw)
    case (Cons pl pls)
    show ?case
    proof (cases "pfExtensions pl")
      case (Some e)
      obtain s1 sw1 where a: "pfAddPod e pod p ni sw = (s1, sw1)" by (rule prod.exhaust)
      then have "evicted (snd sw1) = evicted (snd sw)" using q(1) [of pl e pod p ni sw] Some Cons.prems(2) by simp
      then show ?thesis using Cons Some a by (auto split: if_splits)
    qed (use Cons in simp)
  qed simp
  show "RunPreFilterExtensionRemovePod pls pod p ni sw = (st, sw') \<Longrightarrow> evicted (snd sw') = evicted (snd sw)"
    using assms
  proof (induction pls arbitrary: sw)
    case (Cons pl pls)
    show ?case
    proof (cases "pfExtensions pl")
      case (Some e)
      obtain s1 sw1 where a: "pfRemovePod e pod p ni sw = (s1, sw1)" by (rule prod.exhaust)
      then have "evicted (snd sw1) = evicted (snd sw)" using q(2) [of pl e pod p ni sw] Some Cons.prems(2) by simp
      then show ?thesis using Cons Some a by (auto split: if_splits)
    qed (use Cons in simp)
  qed simp
qed

lemma removePod_quiet: "removePod (fh c) pod p ni gen sw = Ret (e, ni', gen', sw') \<Longrightarrow> evicted (snd sw') = evicted (snd sw)"
  by (cases sw; cases sw') (auto simp: removePod_def go_bind_Ret_iff split: option.split_asm prod.split_asm dest!: extensions_quiet(2) [OF order_refl])

lemma addPod_quiet: "addPod (fh c) pod p ni gen sw = (e, ni', gen', sw') \<Longrightarrow> evicted (snd sw') = evicted (snd sw)"
  by (cases sw; cases sw') (auto simp: addPod_def split: prod.split_asm dest!: extensions_quiet(1) [OF order_refl])

lemma add_nominated_quiet:
  "add_nominated g (preFilterPlugins (fh c)) ps pod added ni gen sw = (r, gen', sw') \<Longrightarrow> evicted (snd sw') = evicted (snd sw)"
proof (induction ps arbitrary: added ni gen sw)
  case (Cons p ps)
  obtain ni1 gen1 where a: "AddPodInfo g p ni gen = (ni1, gen1)" by (rule prod.exhaust)
  obtain st sw1 where s: "RunPreFilterExtensionAddPod (preFilterPlugins (fh c)) pod p ni1 sw = (st, sw1)" by (rule prod.exhaust)
  note q = extensions_quiet(1) [OF order_refl s]
  show ?case using Cons.prems Cons.IH [of True ni1 gen1 sw1] Cons.IH [of added ni gen sw] a s q by (auto split: if_splits)
qed simp

lemma run_filters_same:
  "RunFilterPlugins runAll (filterPlugins (fh c)) pod ni sw = (m, sw') \<Longrightarrow> sw' = sw"
  using filter_loop_verdicts [of "[]" runAll V names pod ni sw] by (auto simp: RunFilterPlugins_def filters refusals_def)

lemma runFilters_quiet:
  assumes "runFilters (fh c) pod ni gen sw = Ret (st, gen', sw')"
  shows "evicted (snd sw') = evicted (snd sw)"
proof -
  obtain r gen1 s1 w1 where a: "addNominatedPods (fwGates (fh c)) (preFilterPlugins (fh c)) (NominatedPodsForNode (fh c)) pod ni gen sw = (r, gen1, s1, w1)"
    by (rule prod_cases4)
  have w1: "evicted w1 = evicted (snd sw)"
    using a by (cases sw) (auto simp: addNominatedPods_def split: option.split_asm if_splits prod.split_asm dest!: add_nominated_quiet)
  show ?thesis
  proof (cases r)
    case (Inl e)
    then show ?thesis using assms a w1 by (auto simp: runFilters_def RunFilterPluginsWithNominatedPods_def)
  next
    case (Inr x)
    obtain added n where x: "x = (added, n)" by (rule prod.exhaust)
    obtain m s2 w2 where f: "RunFilterPlugins (runAllFilters (fh c)) (filterPlugins (fh c)) pod n (s1, w1) = (m, s2, w2)" by (rule prod_cases3)
    have w2: "w2 = w1" using run_filters_same [OF f] by simp
    show ?thesis using assms a Inr x f w1 w2
      by (auto simp: runFilters_def RunFilterPluginsWithNominatedPods_def Let_def go_bind_Ret_iff
        split: if_splits prod.split_asm dest!: run_filters_same)
  qed
qed

lemma remove_lower_quiet:
  "remove_lower (fh c) pod k i arr pot ni gen sw = Ret (r, ni', gen', sw') \<Longrightarrow> evicted (snd sw') = evicted (snd sw)"
proof (induction k arbitrary: i arr pot ni gen sw)
  case (Suc k)
  show ?case
  proof (cases "PodPriority (arr ! i) < PodPriority pod")
    case True
    then obtain e ni1 gen1 sw1 where p: "removePod (fh c) pod (arr ! i) ni gen sw = Ret (e, ni1, gen1, sw1)"
      using Suc.prems by (auto simp: Let_def go_bind_Ret_iff)
    show ?thesis
      using Suc.prems Suc.IH [of "Suc i" "behind (Pods ni1) arr" "pot @ [arr ! i]" ni1 gen1 sw1] True p removePod_quiet [OF p]
      by (cases e) (auto simp: Let_def)
  qed (use Suc in \<open>simp add: Let_def\<close>)
qed simp

lemma reprievePod_quiet:
  assumes "reprievePod (fh c) pod p vs ni gen sw = Ret (r, vs', ni', gen', sw')"
  shows "evicted (snd sw') = evicted (snd sw)"
proof -
  obtain e ni1 gen1 sw1 where a: "addPod (fh c) pod p ni gen sw = (e, ni1, gen1, sw1)" by (rule prod_cases4)
  note qa = addPod_quiet [OF a]
  show ?thesis
  proof (cases e)
    case (Some x)
    then show ?thesis using assms a qa by (simp add: reprievePod_def)
  next
    case None
    then obtain st gen2 sw2 where f: "runFilters (fh c) pod ni1 gen1 sw1 = Ret (st, gen2, sw2)"
      using assms a by (auto simp: reprievePod_def go_bind_Ret_iff)
    note qf = runFilters_quiet [OF f]
    show ?thesis
    proof (cases "IsSuccess st")
      case True
      then show ?thesis using assms a None f qa qf by (simp add: reprievePod_def)
    next
      case False
      then obtain e3 ni3 gen3 sw3 where p: "removePod (fh c) pod p ni1 gen2 sw2 = Ret (e3, ni3, gen3, sw3)"
        using assms a None f by (auto simp: reprievePod_def go_bind_Ret_iff)
      then show ?thesis using assms a None f qa qf False removePod_quiet [OF p] by (cases e3) (auto simp: reprievePod_def)
    qed
  qed
qed

lemma reprieve_loop_quiet:
  "reprieve_loop (fh c) pod ps vs n ni gen sw = Ret (r, ni', gen', sw') \<Longrightarrow> evicted (snd sw') = evicted (snd sw)"
proof (induction ps arbitrary: vs n ni gen sw)
  case (Cons p ps)
  obtain r1 vs1 ni1 gen1 sw1 where p: "reprievePod (fh c) pod p vs ni gen sw = Ret (r1, vs1, ni1, gen1, sw1)"
    using Cons.prems by (auto simp: go_bind_Ret_iff)
  show ?case
  proof (cases r1)
    case (Inr b)
    then have "reprieve_loop (fh c) pod ps vs1 (if b then n else wrap64 (n + 1)) ni1 gen1 sw1 = Ret (r, ni', gen', sw')"
      using Cons.prems p by simp
    then show ?thesis using Cons.IH reprievePod_quiet [OF p] by metis
  qed (use Cons.prems p reprievePod_quiet [OF p] in auto)
qed simp

lemma select_quiet:
  assumes "selectVictimsOnNode c pod ni pdbs gen sw = Ret (x, ni', gen', sw')"
  shows "evicted (snd sw') = evicted (snd sw)"
proof -
  obtain r ni1 gen1 sw1 where 1: "remove_lower (fh c) pod (length (Pods ni)) 0 (Pods ni) [] ni gen sw = Ret (r, ni1, gen1, sw1)"
    using assms by (auto simp: selectVictimsOnNode_def go_bind_Ret_iff)
  note q1 = remove_lower_quiet [OF 1]
  show ?thesis
  proof (cases "\<exists>pot. r = Inr pot \<and> pot \<noteq> []")
    case False
    then show ?thesis using assms 1 q1 by (cases r) (auto simp: selectVictimsOnNode_def go_bind_Ret_iff)
  next
    case True
    then obtain pot where pot: "r = Inr pot" "pot \<noteq> []" by blast
    obtain st gen2 sw2 where 2: "runFilters (fh c) pod ni1 gen1 sw1 = Ret (st, gen2, sw2)"
      using assms 1 pot by (auto simp: selectVictimsOnNode_def go_bind_Ret_iff)
    note q2 = runFilters_quiet [OF 2]
    obtain viol nonviol where 3: "filterPodsWithPDBViolation (sortSlice c (MoreImportantPod (clock c)) pot) pdbs = (viol, nonviol)" by (rule prod.exhaust)
    show ?thesis
    proof (cases "IsSuccess st")
      case False
      then show ?thesis using assms 1 2 pot q1 q2 by (simp add: selectVictimsOnNode_def)
    next
      case ok: True
      then obtain r2 ni2 gen3 sw3 where 4: "reprieve_loop (fh c) pod viol [] 0 ni1 gen2 sw2 = Ret (r2, ni2, gen3, sw3)"
        using assms 1 2 3 pot by (auto simp: selectVictimsOnNode_def go_bind_Ret_iff)
      note q4 = reprieve_loop_quiet [OF 4]
      show ?thesis
      proof (cases r2)
        case (Inl e)
        then show ?thesis using assms 1 2 3 4 pot ok q1 q2 q4 by (simp add: selectVictimsOnNode_def)
      next
        case (Inr y)
        obtain vs k where y: "y = (vs, k)" by (rule prod.exhaust)
        then obtain r3 ni3 gen4 sw4 where 5: "reprieve_loop (fh c) pod nonviol vs 0 ni2 gen3 sw3 = Ret (r3, ni3, gen4, sw4)"
          using assms 1 2 3 4 pot ok Inr by (auto simp: selectVictimsOnNode_def go_bind_Ret_iff)
        then show ?thesis using assms 1 2 3 4 pot ok Inr y q1 q2 q4 reprieve_loop_quiet [OF 5]
          by (cases r3) (auto simp: selectVictimsOnNode_def)
      qed
    qed
  qed
qed

lemma dry_run_quiet:
  "dry_run c pod pdbs k nis nvc vc sts gen s w = Ret (x, gen', w') \<Longrightarrow> evicted w' = evicted w"
proof (induction nis arbitrary: nvc vc sts gen w)
  case (Cons ni nis)
  obtain pods n st ni1 gen1 s1 w1 where a: "selectVictimsOnNode c pod ni pdbs gen (s, w) = Ret ((pods, n, st), ni1, gen1, s1, w1)"
    using Cons.prems by (auto simp: go_bind_Ret_iff)
  have q: "evicted w1 = evicted w" using select_quiet [OF a] by simp
  obtain nm where nm: "node_name (node ni1) = Ret nm" using Cons.prems a by (auto simp: go_bind_Ret_iff)
  show ?case using Cons.prems Cons.IH a nm q by (auto simp: Let_def split: if_splits)
qed simp

lemma ClearNominatedNodeName_quiet: "ClearNominatedNodeName c ps w = (es, w') \<Longrightarrow> evicted w' = evicted w"
proof (induction ps arbitrary: w es)
  case (Cons p ps)
  obtain e w1 where p: "PatchPodStatus c p w = (e, w1)" by (rule prod.exhaust)
  have "evicted w1 = evicted w" using logs p unfolding logs_deletions_def by (metis snd_conv)
  then show ?case using Cons p by (auto split: if_splits prod.splits)
qed simp

lemma FindCandidates_quiet:
  assumes "FindCandidates c pod m gen s w = Ret (x, gen', w')"
  shows "evicted w' = evicted w"
proof -
  have "evicted (snd (ClearNominatedNodeName c [pod] w)) = evicted w" using ClearNominatedNodeName_quiet by (metis prod.collapse)
  then show ?thesis using assms dry_run_quiet
    by (auto simp: FindCandidates_def dryRunPreemption_def Let_def go_bind_Ret_iff split: if_splits sum.split_asm)
qed

section \<open>The eviction\<close>

lemma evict_loop_log:
  assumes "evict_loop c pod nn vs wps w = (st, wps', w')"
  shows "\<exists>ev. prefix ev vs \<and> evicted w' = evicted w @ map UID (filter (\<lambda>v. wps (UID v) = None) ev) \<and>
    (st = None \<longleftrightarrow> ev = vs) \<and> (\<forall>u. u \<notin> UID ` set ev \<longrightarrow> wps' u = wps u) \<and> dom wps' = dom wps"
  using assms
proof (induction vs arbitrary: wps w)
  case (Cons v vs)
  have ev: "evicted (Eventf c p t x) = evicted x" for p t x using logs unfolding logs_deletions_def by blast
  show ?case
  proof (cases "wps (UID v)")
    case (Some wp)
    let ?wps = "wps(UID v \<mapsto> Reject ''DefaultPreemption'' ''preempted'' wp)"
    obtain w1 where r: "evict_loop c pod nn vs ?wps w1 = (st, wps', w')" "evicted w1 = evicted w"
      using Cons.prems Some ev by (auto simp: Let_def)
    have same: "?wps u = None \<longleftrightarrow> wps u = None" for u using Some by auto
    obtain e where e: "prefix e vs" "evicted w' = evicted w1 @ map UID (filter (\<lambda>v. ?wps (UID v) = None) e)" "st = None \<longleftrightarrow> e = vs"
        "\<forall>u. u \<notin> UID ` set e \<longrightarrow> wps' u = ?wps u" "dom wps' = dom ?wps"
      using Cons.IH [OF r(1)] by blast
    have "dom wps' = dom wps" using e(5) Some by auto
    then show ?thesis using e(1-4) r(2) Some unfolding same by (intro exI [of _ "v # e"]) (auto simp del: fun_upd_apply simp add: fun_upd_other)
  next
    case None
    obtain er w1 where d: "DeletePod c v w = (er, w1)" by (rule prod.exhaust)
    have l: "evicted w1 = evicted w @ (if er = None then [UID v] else [])"
      using logs d unfolding logs_deletions_def by (metis fst_conv snd_conv)
    show ?thesis
    proof (cases er)
      case (Some x)
      then show ?thesis using Cons.prems None d l by (intro exI [of _ "[]"]) (auto simp: Let_def AsStatus_def)
    next
      case er: None
      obtain w2 where r: "evict_loop c pod nn vs wps w2 = (st, wps', w')" "evicted w2 = evicted w @ [UID v]"
        using Cons.prems None er d l ev by (auto simp: Let_def)
      obtain e where "prefix e vs" "evicted w' = evicted w2 @ map UID (filter (\<lambda>v. wps (UID v) = None) e)" "st = None \<longleftrightarrow> e = vs"
          "\<forall>u. u \<notin> UID ` set e \<longrightarrow> wps' u = wps u" "dom wps' = dom wps"
        using Cons.IH [OF r(1)] by blast
      then show ?thesis using r(2) None by (intro exI [of _ "v # e"]) auto
    qed
  qed
qed simp

lemma PrepareCandidate_log:
  assumes "PrepareCandidate c x pod wps w = (st, wps', w')"
  shows "\<exists>ev. prefix ev (vPods (cVictims x)) \<and> evicted w' = evicted w @ map UID (filter (\<lambda>v. wps (UID v) = None) ev) \<and>
    (st = None \<longleftrightarrow> ev = vPods (cVictims x)) \<and> (\<forall>u. u \<notin> UID ` set ev \<longrightarrow> wps' u = wps u) \<and> dom wps' = dom wps"
proof -
  obtain st1 wps1 w1 where e: "evict_loop c pod (cName x) (vPods (cVictims x)) wps w = (st1, wps1, w1)" by (rule prod_cases3)
  have "evicted (snd (ClearNominatedNodeName c ps w1)) = evicted w1" for ps using ClearNominatedNodeName_quiet by (metis prod.collapse)
  then have "evicted w' = evicted w1" "wps' = wps1" "st = st1"
    using assms e by (auto simp: PrepareCandidate_def split: option.split_asm)
  then show ?thesis using evict_loop_log [OF e] by simp
qed

end

end
