(* ===== verification/Preempt_Pick.thy ===== *)
theory Preempt_Pick
  imports Preemption
begin

text \<open>
  The choice of a node among the candidates. The five loops of \<open>pickOneNodeForPreemption\<close> compute the
  least node in the lexicographic order of five criteria, whatever the order in which the map is visited.
\<close>

section \<open>Keeping the least\<close>

definition argmins :: "('a \<Rightarrow> int) \<Rightarrow> 'a list \<Rightarrow> 'a list" where
  "argmins f ns = filter (\<lambda>n. \<forall>n'\<in>set ns. f n \<le> f n') ns"

lemma min_loop_fold:
  assumes "\<forall>n\<in>set ns. val n = Ret (f n)"
  shows "min_loop val least acc ns = Ret ((if fold (\<lambda>n. min (f n)) ns least = least then acc else []) @
    filter (\<lambda>n. f n = fold (\<lambda>n. min (f n)) ns least) ns)"
  using assms
proof (induction ns arbitrary: least acc)
  case (Cons n ns)
  let ?m = "\<lambda>l. fold (\<lambda>n. min (f n)) ns l"
  have le: "?m l \<le> l" for l
  proof (induction ns arbitrary: l)
    case (Cons a ns)
    show ?case using Cons.IH [of "min (f a) l"] by simp
  qed simp
  have v: "val n = Ret (f n)" "\<forall>n\<in>set ns. val n = Ret (f n)" using Cons.prems by simp_all
  consider "f n < least" | "f n = least" | "f n > least" by linarith
  then show ?case
  proof cases
    case 1
    then show ?thesis using Cons.IH [OF v(2), of "f n" "[n]"] v(1) le [of "f n"] by (auto simp: min.absorb1 less_imp_le)
  next
    case 2
    then show ?thesis using Cons.IH [OF v(2), of least "acc @ [n]"] v(1) by auto
  next
    case 3
    then show ?thesis using Cons.IH [OF v(2), of least acc] v(1) le [of least] by (auto simp: min.absorb2 less_imp_le)
  qed
qed simp

lemma fold_min_least:
  assumes "\<forall>n\<in>set ns. f n \<le> b" "ns \<noteq> []"
  shows "(\<exists>n\<in>set ns. f n = fold (\<lambda>n. min (f n)) ns (b :: int)) \<and> (\<forall>n\<in>set ns. fold (\<lambda>n. min (f n)) ns b \<le> f n)"
proof -
  have gen: "fold (\<lambda>n. min (f n)) ns b \<le> b \<and> (\<forall>n\<in>set ns. fold (\<lambda>n. min (f n)) ns b \<le> f n) \<and>
      (fold (\<lambda>n. min (f n)) ns b = b \<or> (\<exists>n\<in>set ns. f n = fold (\<lambda>n. min (f n)) ns b))" for ns b
  proof (induction ns arbitrary: b)
    case (Cons n ns)
    show ?case using Cons.IH [of "min (f n) b"] by (auto simp: min_def split: if_splits)
  qed simp
  obtain x where x: "x \<in> set ns" using assms(2) by (cases ns) auto
  then have "fold (\<lambda>n. min (f n)) ns b = b \<Longrightarrow> f x = fold (\<lambda>n. min (f n)) ns b" using gen [of ns b] assms(1) by (metis antisym)
  then show ?thesis using gen [of ns b] x by blast
qed

lemma min_loop_argmins:
  assumes "\<forall>n\<in>set ns. val n = Ret (f n)" "\<forall>n\<in>set ns. f n \<le> b" "ns \<noteq> []"
  shows "min_loop val b [] ns = Ret (argmins f ns)"
proof -
  note m = fold_min_least [OF assms(2,3)]
  have "(f n = fold (\<lambda>n. min (f n)) ns b) = (\<forall>n'\<in>set ns. f n \<le> f n')" if "n \<in> set ns" for n
    using m that by (metis antisym)
  then show ?thesis using min_loop_fold [OF assms(1), of b "[]"] by (simp add: argmins_def cong: filter_cong)
qed

lemma argmins_ne: "ns \<noteq> [] \<Longrightarrow> argmins f ns \<noteq> []"
  using fold_min_least [of ns f "Max (f ` set ns)"] by (simp add: argmins_def filter_empty_conv) metis

lemma argmins_sub: "set (argmins f ns) \<subseteq> set ns"
  by (auto simp: argmins_def)

section \<open>The lexicographic order\<close>

definition lexleast :: "('a \<Rightarrow> int) list \<Rightarrow> 'a list \<Rightarrow> 'a \<Rightarrow> bool" where
  "lexleast fs ns n \<longleftrightarrow> n \<in> set ns \<and> (\<forall>n'\<in>set ns. map (\<lambda>f. f n) fs \<le> map (\<lambda>f. f n') fs)"

lemma lexleast_stage:
  assumes "lexleast fs (argmins f ns) n"
  shows "lexleast (f # fs) ns n"
  unfolding lexleast_def
proof (intro conjI ballI)
  show "n \<in> set ns" using assms argmins_sub [of f ns] by (auto simp: lexleast_def)
  fix n' assume n': "n' \<in> set ns"
  have le: "f n \<le> f n'" using assms n' by (auto simp: lexleast_def argmins_def)
  show "map (\<lambda>f. f n) (f # fs) \<le> map (\<lambda>f. f n') (f # fs)"
  proof (cases "f n = f n'")
    case True
    then have "n' \<in> set (argmins f ns)" using assms n' by (auto simp: lexleast_def argmins_def)
    then show ?thesis using assms True by (simp add: lexleast_def)
  qed (use le in simp)
qed

lemma lexleast_single: "argmins f ns = [n] \<Longrightarrow> lexleast (f # fs) ns n"
  by (rule lexleast_stage) (simp add: lexleast_def)

section \<open>The criteria\<close>

text \<open>The earliest start of the victims of highest priority.\<close>

definition first_start :: "int \<Rightarrow> kpod list \<Rightarrow> int" where
  "first_start now ps = Min (GetPodStartTime now ` {p \<in> set ps. \<forall>q\<in>set ps. PodPriority q \<le> PodPriority p})"

definition leads :: "int \<Rightarrow> kpod list \<Rightarrow> int \<Rightarrow> int \<Rightarrow> bool" where
  "leads now ps mp t \<longleftrightarrow> (\<exists>p\<in>set ps. PodPriority p = mp \<and> GetPodStartTime now p = t) \<and>
     (\<forall>p\<in>set ps. PodPriority p \<le> mp \<and> (PodPriority p = mp \<longrightarrow> t \<le> GetPodStartTime now p))"

lemma earliest_loop_leads:
  "leads now ps mp t \<Longrightarrow> \<exists>mp'. leads now (ps @ qs) mp' (earliest_loop now qs mp t)"
proof (induction qs arbitrary: ps mp t)
  case (Cons q qs)
  let ?t = "GetPodStartTime now q"
  consider "PodPriority q = mp" "?t < t" | "PodPriority q = mp" "\<not> ?t < t" | "PodPriority q > mp" | "PodPriority q < mp" by linarith
  then show ?case
  proof cases
    case 1
    then have "leads now (ps @ [q]) mp ?t" using Cons.prems by (auto simp: leads_def)
    then show ?thesis using Cons.IH [of "ps @ [q]" mp ?t] 1 by simp
  next
    case 2
    then have "leads now (ps @ [q]) mp t" using Cons.prems by (auto simp: leads_def)
    then show ?thesis using Cons.IH [of "ps @ [q]" mp t] 2 by simp
  next
    case 3
    then have "leads now (ps @ [q]) (PodPriority q) ?t" using Cons.prems by (auto simp: leads_def)
    then show ?thesis using Cons.IH [of "ps @ [q]" "PodPriority q" ?t] 3 by simp
  next
    case 4
    then have "leads now (ps @ [q]) mp t" using Cons.prems by (auto simp: leads_def)
    then show ?thesis using Cons.IH [of "ps @ [q]" mp t] 4 by simp
  qed
qed auto

lemma leads_first: "leads now ps mp t \<Longrightarrow> first_start now ps = t"
  unfolding first_start_def by (rule Min_eqI) (auto simp: leads_def intro: antisym)

lemma GetEarliest_first: "vPods v \<noteq> [] \<Longrightarrow> GetEarliestPodStartTime now v = Some (first_start now (vPods v))"
proof (cases "vPods v")
  case (Cons p ps)
  have "leads now [p] (PodPriority p) (GetPodStartTime now p)" by (simp add: leads_def)
  then obtain mp where "leads now (p # ps) mp (earliest_loop now ps (PodPriority p) (GetPodStartTime now p))"
    using earliest_loop_leads by fastforce
  then show ?thesis using Cons leads_first by (auto simp: GetEarliestPodStartTime_def)
qed simp

text \<open>What the code compares, most important first; a later start is better.\<close>

definition pick_key :: "int \<Rightarrow> victims \<Rightarrow> int list" where
  "pick_key now v = [NumPDBViolations v, PodPriority (hd (vPods v)), sum_list (map (\<lambda>p. PodPriority p + (MaxInt32 + 1)) (vPods v)),
     int (length (vPods v)), - first_start now (vPods v)]"

text \<open>Victims as the API server gives them: 32-bit priorities, and fewer than $2^{31}$ of them.\<close>

definition int32 :: "int \<Rightarrow> bool" where
  "int32 x \<longleftrightarrow> -2147483648 \<le> x \<and> x \<le> 2147483647"

definition usual_victims :: "victims \<Rightarrow> bool" where
  "usual_victims v \<longleftrightarrow> vPods v \<noteq> [] \<and> int32 (NumPDBViolations v) \<and> int (length (vPods v)) \<le> MaxInt32 \<and> (\<forall>p\<in>set (vPods v). int32 (PodPriority p))"

lemma sum_priorities_exact:
  assumes "\<forall>p\<in>set ps. int32 (PodPriority p)" "0 \<le> acc" "acc + int (length ps) * 4294967296 \<le> MaxInt64"
  shows "foldl (\<lambda>acc p. wrap64 (acc + (PodPriority p + (MaxInt32 + 1)))) acc ps = acc + sum_list (map (\<lambda>p. PodPriority p + (MaxInt32 + 1)) ps)
    \<and> acc + sum_list (map (\<lambda>p. PodPriority p + (MaxInt32 + 1)) ps) \<le> MaxInt64"
  using assms
proof (induction ps arbitrary: acc)
  case (Cons p ps)
  let ?x = "acc + (PodPriority p + (MaxInt32 + 1))"
  have x: "0 \<le> ?x" "?x + int (length ps) * 4294967296 \<le> MaxInt64" using Cons.prems by (auto simp: int32_def MaxInt32_def algebra_simps)
  then have "wrap64 ?x = ?x" by (intro wrap64_range) (auto simp: MaxInt64_def)
  then show ?case using Cons.IH [OF _ x] Cons.prems(1) by (simp add: algebra_simps)
qed (simp add: MaxInt64_def)

lemma usual_sum:
  assumes "usual_victims v"
  shows "foldl (\<lambda>acc p. wrap64 (acc + (PodPriority p + (MaxInt32 + 1)))) 0 (vPods v) = sum_list (map (\<lambda>p. PodPriority p + (MaxInt32 + 1)) (vPods v))
    \<and> sum_list (map (\<lambda>p. PodPriority p + (MaxInt32 + 1)) (vPods v)) \<le> MaxInt64"
  using sum_priorities_exact [of "vPods v" 0] assms by (auto simp: usual_victims_def MaxInt32_def MaxInt64_def)

section \<open>The choice\<close>

lemma latest_loop_best:
  assumes "\<forall>n\<in>set ns. victims_of m n = Ret (v n) \<and> vPods (v n) \<noteq> []" "b \<in> set seen"
    "\<forall>n\<in>set seen. first_start now (vPods (v n)) \<le> first_start now (vPods (v b))"
  shows "\<exists>n. latest_loop now m ns (first_start now (vPods (v b))) b = Ret n \<and>
    lexleast [\<lambda>n. - first_start now (vPods (v n))] (seen @ ns) n"
  using assms
proof (induction ns arbitrary: b seen)
  case Nil
  then show ?case by (auto simp: lexleast_def)
next
  case (Cons n ns)
  have e: "GetEarliestPodStartTime now (v n) = Some (first_start now (vPods (v n)))" using Cons.prems(1) by (simp add: GetEarliest_first)
  let ?b = "if first_start now (vPods (v n)) > first_start now (vPods (v b)) then n else b"
  have "?b \<in> set (seen @ [n])" "\<forall>n'\<in>set (seen @ [n]). first_start now (vPods (v n')) \<le> first_start now (vPods (v ?b))"
    using Cons.prems(2,3) by auto
  from Cons.IH [OF _ this] show ?case using Cons.prems(1) e by (auto split: if_splits)
qed

lemma latest_start_best:
  assumes "\<forall>n\<in>set ns. victims_of m n = Ret (v n) \<and> vPods (v n) \<noteq> []" "ns \<noteq> []"
  shows "\<exists>n. latest_start now m ns = Ret n \<and> lexleast [\<lambda>n. - first_start now (vPods (v n))] ns n"
proof (cases ns)
  case (Cons b bs)
  then show ?thesis using latest_loop_best [of bs m v b "[b]" now] assms(1) by (simp add: latest_start_def GetEarliest_first)
qed (use assms(2) in simp)

text \<open>One stage: the list gets no longer, and a single node left is the answer.\<close>

lemma stage:
  assumes "\<forall>n\<in>set ns. val n = Ret (f n)" "\<forall>n\<in>set ns. f n \<le> b" "ns \<noteq> []"
    "\<And>ns'. ns' \<noteq> [] \<Longrightarrow> set ns' \<subseteq> set ns \<Longrightarrow> \<exists>n. cont ns' = Ret n \<and> lexleast fs ns' n"
  shows "\<exists>n. go_bind (min_loop val b [] ns) (\<lambda>m. if length m = 1 then Ret (hd m) else cont m) = Ret n \<and> lexleast (f # fs) ns n"
proof (cases "length (argmins f ns) = 1")
  case True
  then obtain n where "argmins f ns = [n]" by (auto simp: length_Suc_conv)
  then show ?thesis using min_loop_argmins [OF assms(1-3)] lexleast_single by auto
next
  case False
  obtain n where "cont (argmins f ns) = Ret n" "lexleast fs (argmins f ns) n"
    using assms(4) [OF argmins_ne [OF assms(3), of f] argmins_sub] by blast
  then show ?thesis using min_loop_argmins [OF assms(1-3)] False by (simp add: lexleast_stage)
qed

lemma pick_least:
  assumes "m \<noteq> []" "set visited = fst ` set m" "\<forall>v\<in>snd ` set m. usual_victims v"
  shows "\<exists>n. pickOneNodeForPreemption now visited m = Ret n \<and> n \<in> set visited \<and>
    (\<forall>n'\<in>set visited. pick_key now (the (map_of m n)) \<le> pick_key now (the (map_of m n')))"
proof -
  define v where "v n = the (map_of m n)" for n
  have v: "victims_of m n = Ret (v n) \<and> usual_victims (v n)" if n: "n \<in> set visited" for n
  proof -
    obtain x where "map_of m n = Some x" using n assms(2) by (metis domIff dom_map_of_conv_image_fst option.exhaust)
    moreover then have "x \<in> snd ` set m" by (metis map_of_SomeD image_eqI snd_conv)
    ultimately show ?thesis using bspec [OF assms(3)] by (simp add: v_def victims_of_def)
  qed
  have ne: "visited \<noteq> []" using assms(1,2) by (cases m) auto
  let ?fs = "[\<lambda>n. NumPDBViolations (v n), \<lambda>n. PodPriority (hd (vPods (v n))), \<lambda>n. sum_list (map (\<lambda>p. PodPriority p + (MaxInt32 + 1)) (vPods (v n))),
     \<lambda>n. int (length (vPods (v n))), \<lambda>n. - first_start now (vPods (v n))]"
  have u: "vPods (v n) \<noteq> []" "NumPDBViolations (v n) \<le> MaxInt32" "PodPriority (hd (vPods (v n))) \<le> MaxInt32" "int (length (vPods (v n))) \<le> MaxInt32"
    if "n \<in> set visited" for n using v [OF that] by (auto simp: usual_victims_def int32_def MaxInt32_def)
  have hi: "highestPodPriority m n = Ret (PodPriority (hd (vPods (v n))))" if "n \<in> set visited" for n
    using v [OF that] u(1) [OF that] by (cases "vPods (v n)") (auto simp: highestPodPriority_def)
  have su: "sumPriorities m n = Ret (sum_list (map (\<lambda>p. PodPriority p + (MaxInt32 + 1)) (vPods (v n))))" "sum_list (map (\<lambda>p. PodPriority p + (MaxInt32 + 1)) (vPods (v n))) \<le> MaxInt64" if "n \<in> set visited" for n
    using v [OF that] usual_sum by (auto simp: sumPriorities_def)
  let ?c4 = "\<lambda>m3. go_bind (min_loop (\<lambda>n. go_bind (victims_of m n) (\<lambda>v. Ret (int (length (vPods v))))) MaxInt32 [] m3) (\<lambda>m4.
        if length m4 = 1 then Ret (hd m4) else latest_start now m m4)"
  let ?c3 = "\<lambda>m2. go_bind (min_loop (sumPriorities m) MaxInt64 [] m2) (\<lambda>m3. if length m3 = 1 then Ret (hd m3) else ?c4 m3)"
  let ?c2 = "\<lambda>m1. go_bind (min_loop (highestPodPriority m) MaxInt32 [] m1) (\<lambda>m2. if length m2 = 1 then Ret (hd m2) else ?c3 m2)"
  have s5: "\<exists>n. latest_start now m ns = Ret n \<and> lexleast (drop 4 ?fs) ns n" if h: "ns \<noteq> []" "set ns \<subseteq> set visited" for ns
    using latest_start_best [of ns m v now] v u(1) h by auto
  have s4: "\<exists>n. ?c4 ns = Ret n \<and> lexleast (drop 3 ?fs) ns n" if h: "ns \<noteq> []" "set ns \<subseteq> set visited" for ns
    using stage [OF _ _ h(1) s5, where f = "\<lambda>n. int (length (vPods (v n)))"] v u(4) h(2) by (simp add: subset_iff)
  have s3: "\<exists>n. ?c3 ns = Ret n \<and> lexleast (drop 2 ?fs) ns n" if h: "ns \<noteq> []" "set ns \<subseteq> set visited" for ns
    using stage [OF _ _ h(1) s4, where f = "\<lambda>n. sum_list (map (\<lambda>p. PodPriority p + (MaxInt32 + 1)) (vPods (v n)))"] su h(2) by (simp add: subset_iff)
  have s2: "\<exists>n. ?c2 ns = Ret n \<and> lexleast (drop 1 ?fs) ns n" if h: "ns \<noteq> []" "set ns \<subseteq> set visited" for ns
    using stage [OF _ _ h(1) s3, where f = "\<lambda>n. PodPriority (hd (vPods (v n)))"] hi u(3) h(2) by (simp add: subset_iff)
  have "\<exists>n. pickOneNodeForPreemption now visited m = Ret n \<and> lexleast ?fs visited n"
    using stage [OF _ _ ne s2, where f = "\<lambda>n. NumPDBViolations (v n)" and b = MaxInt32] v u(2) assms(1)
    by (simp add: pickOneNodeForPreemption_def)
  then show ?thesis by (auto simp: lexleast_def pick_key_def v_def)
qed

end
