(* ===== verification/Preempt_Props.thy ===== *)
theory Preempt_Props
  imports Preempt_Frame Preempt_Pick
begin

text \<open>
  What preemption guarantees: the victims of a node, the budgets of the pods that may be disrupted, the
  node that is chosen, and the whole PostFilter, which returns, and evicts only pods of lower priority
  from a node on which the preempting pod then fits.
\<close>

section \<open>Victims\<close>

lemma victims_found_sub:
  assumes "victims_found c V names pod ni vs n"
  shows "mset vs \<subseteq># mset (Pods ni)" "\<forall>v\<in>set vs. PodPriority v < PodPriority pod"
    "room V names pod (fwGates (fh c)) (node ni) (mset (Pods ni) - mset vs)" "0 \<le> n" "n \<le> int (length (Pods ni))"
proof -
  let ?low = "\<lambda>p. PodPriority p < PodPriority pod"
  obtain M ps where h: "mset ps = mset (filter ?low (Pods ni))"
      "sifted V names pod (fwGates (fh c)) (node ni) (unnominated c) (mset (filter (\<lambda>p. \<not> ?low p) (Pods ni))) ps vs M"
      "room V names pod (fwGates (fh c)) (node ni) M" "0 \<le> n" "n \<le> int (length (Pods ni))"
    using assms unfolding victims_found_def by blast
  have high: "mset (filter (\<lambda>p. \<not> ?low p) (Pods ni)) \<subseteq># M" and sum: "M + mset vs = mset (Pods ni)"
    using h(1,2) unfolding sifted_def by (simp_all add: multiset_partition [symmetric] add.commute)
  show sub: "mset vs \<subseteq># mset (Pods ni)" using sum by (metis mset_subset_eq_add_right)
  have "mset (filter (\<lambda>p. \<not> ?low p) (Pods ni)) + mset vs \<subseteq># mset (Pods ni)" unfolding sum [symmetric] using high by simp
  also have "mset (Pods ni) = mset (filter (\<lambda>p. \<not> ?low p) (Pods ni)) + mset (filter ?low (Pods ni))"
    using multiset_partition [of "mset (Pods ni)" ?low] by (simp add: add.commute)
  finally have "mset vs \<subseteq># mset (filter ?low (Pods ni))" by (simp only: mset_subset_eq_mono_add_left_cancel)
  then have "set vs \<subseteq> set (filter ?low (Pods ni))" by (metis set_mset_mono set_mset_mset)
  then show "\<forall>v\<in>set vs. PodPriority v < PodPriority pod" by auto
  have "M = mset (Pods ni) - mset vs" using sum by (metis add_diff_cancel_right')
  then show "room V names pod (fwGates (fh c)) (node ni) (mset (Pods ni) - mset vs)" using h(3) by simp
  show "0 \<le> n" "n \<le> int (length (Pods ni))" using h(4,5) .
qed

text \<open>
  C33: For filters that judge the pod and the node, on a node whose totals match its pods, each with a
  key of its own, the search for victims always returns. Its first loop, which removes pods from the
  slice it ranges over, misses none: unless a PreFilter plugin refuses, it takes all pods of lower
  priority, in their order, and leaves all the others. When the search succeeds, the victims are pods of
  the node with a lower priority than the preempting pod, and a node with the other pods, and totals to
  match, passes every filter.
\<close>

theorem victims_make_room:
  assumes "filterPlugins (fh c) = verdict_plugins V names"
    and "\<And>lt xs. mset (sortSlice c lt xs) = mset xs"
    and "accounts (fwGates (fh c)) ni" "named_pods (Pods ni)" "node ni = Some nd" "int (length (Pods ni)) < 2 ^ 63"
  shows "\<exists>vs n st z taken ni1 z1. selectVictimsOnNode c pod ni pdbs gen sw = Ret ((vs, n, st), z) \<and>
    remove_lower (fh c) pod (length (Pods ni)) 0 (Pods ni) [] ni gen sw = Ret (taken, ni1, z1) \<and>
    (case taken of Inl e \<Rightarrow> vs = [] \<and> \<not> IsSuccess st
     | Inr pot \<Rightarrow> pot = filter (\<lambda>p. PodPriority p < PodPriority pod) (Pods ni) \<and>
         mset (Pods ni1) = mset (filter (\<lambda>p. \<not> PodPriority p < PodPriority pod) (Pods ni))) \<and>
    (IsSuccess st \<longrightarrow> mset vs \<subseteq># mset (Pods ni) \<and> (\<forall>v\<in>set vs. PodPriority v < PodPriority pod) \<and>
       (\<exists>ni'. node ni' = node ni \<and> accounts (fwGates (fh c)) ni' \<and> mset (Pods ni') = mset (Pods ni) - mset vs \<and> fits V names pod ni'))"
proof -
  let ?low = "\<lambda>p. PodPriority p < PodPriority pod"
  obtain vs n st ni' gen' sw' where s: "selectVictimsOnNode c pod ni pdbs gen sw = Ret ((vs, n, st), ni', gen', sw')"
      "IsSuccess st \<longrightarrow> victims_found c V names pod ni vs n"
    using victim_search.select_effect [OF victim_search.intro [OF assms(1,2)] assms(3-6), of pod pdbs gen sw] by blast
  obtain r ni1 z1 where r: "remove_lower (fh c) pod (length (Pods ni)) 0 (Pods ni) [] ni gen sw = Ret (r, ni1, z1)"
      "\<forall>pot. r = Inr pot \<longrightarrow> pot = filter ?low (Pods ni) \<and> mset (Pods ni1) = mset (filter (\<lambda>p. \<not> ?low p) (Pods ni))"
    using remove_lower_all [OF assms(3,4) refl, of 0 "length (Pods ni)" pod "[]" gen sw] by (simp del: mset_filter) blast
  have e: "vs = [] \<and> \<not> IsSuccess st" if "r = Inl e" for e
    using s(1) r(1) that by (auto simp: selectVictimsOnNode_def AsStatus_def IsSuccess_def Code_def)
  have "mset vs \<subseteq># mset (Pods ni) \<and> (\<forall>v\<in>set vs. ?low v) \<and>
      (\<exists>ni'. node ni' = node ni \<and> accounts (fwGates (fh c)) ni' \<and> mset (Pods ni') = mset (Pods ni) - mset vs \<and> fits V names pod ni')"
    if "IsSuccess st" using victims_found_sub [of c V names pod ni vs n] s(2) that by (auto simp: room_def)
  then show ?thesis using s(1) r e by (intro exI conjI) (auto split: sum.split)
qed

text \<open>
  No victim is chosen needlessly. When no pods are nominated to the node and the filters never reject
  fewer pods where they accept more, the preempting pod would not fit if any one of the victims stayed.
\<close>

theorem victims_needed:
  assumes "filterPlugins (fh c) = verdict_plugins V names"
    and "\<And>lt xs. mset (sortSlice c lt xs) = mset xs"
    and "accounts (fwGates (fh c)) ni" "named_pods (Pods ni)" "node ni = Some nd" "int (length (Pods ni)) < 2 ^ 63"
    and "\<And>nn. NominatedPodsForNode (fh c) nn = []"
    and "\<And>a b. node a = node b \<Longrightarrow> mset (Pods a) \<subseteq># mset (Pods b) \<Longrightarrow> accounts (fwGates (fh c)) a \<Longrightarrow>
      accounts (fwGates (fh c)) b \<Longrightarrow> fits V names pod b \<Longrightarrow> fits V names pod a"
    and "selectVictimsOnNode c pod ni pdbs gen sw = Ret ((vs, n, st), z)" "IsSuccess st" "v \<in> set vs"
    and "node ni' = node ni" "accounts (fwGates (fh c)) ni'" "mset (Pods ni') = add_mset v (mset (Pods ni) - mset vs)"
  shows "\<not> fits V names pod ni'"
proof
  assume f: "fits V names pod ni'"
  have "victims_found c V names pod ni vs n"
    using victim_search.select_effect [OF victim_search.intro [OF assms(1,2)] assms(3-6), of pod pdbs gen sw] assms(9,10) by auto
  then obtain M ps where h: "mset ps = mset (filter (\<lambda>p. PodPriority p < PodPriority pod) (Pods ni))"
      "sifted V names pod (fwGates (fh c)) (node ni) (unnominated c) (mset (filter (\<lambda>p. \<not> PodPriority p < PodPriority pod) (Pods ni))) ps vs M"
    unfolding victims_found_def by blast
  have "M + mset vs = mset (Pods ni)" using h unfolding sifted_def by (simp add: multiset_partition [symmetric] add.commute)
  then have M: "M = mset (Pods ni) - mset vs" by (metis add_diff_cancel_right')
  have "unnominated c" using assms(7) by (simp add: unnominated_def)
  then obtain K where K: "K \<subseteq># M" "no_room V names pod (fwGates (fh c)) (node ni) (add_mset v K)"
    using h(2) assms(11) unfolding sifted_def by blast
  then obtain a where a: "node a = node ni" "accounts (fwGates (fh c)) a" "mset (Pods a) = add_mset v K" "\<not> fits V names pod a"
    unfolding no_room_def by blast
  have "mset (Pods a) \<subseteq># mset (Pods ni')" using K(1) M a(3) assms(14) by simp
  then show False using assms(8) [of a ni'] a assms(12,13) f by simp
qed

section \<open>Budgets\<close>

text \<open>A budget is charged for a pod that has labels and that it counts.\<close>

definition charged :: "pdb \<Rightarrow> kpod \<Rightarrow> bool" where
  "charged b p \<longleftrightarrow> podLabels p \<noteq> [] \<and> pdb_counts p b"

definition over_budget :: "pdb list \<Rightarrow> kpod list \<Rightarrow> kpod \<Rightarrow> bool" where
  "over_budget bs earlier p \<longleftrightarrow> (\<exists>b\<in>set bs. charged b p \<and> DisruptionsAllowed b \<le> int (length (filter (charged b) earlier)))"

lemma wrap32_dec: "-2147483648 < a \<Longrightarrow> a \<le> 2147483647 \<Longrightarrow> wrap32 (a - 1) = a - 1"
  by (simp add: wrap32_def)

lemma charge_exact:
  assumes "length as = length bs" "\<forall>a\<in>set as. -2147483648 < a \<and> a \<le> 2147483647"
  shows "charge_pdbs pod bs as v = (v \<or> (\<exists>(b, a)\<in>set (zip bs as). pdb_counts pod b \<and> a \<le> 0),
    map2 (\<lambda>b a. if pdb_counts pod b then a - 1 else a) bs as)"
  using assms
proof (induction bs as arbitrary: v rule: list_induct2')
  case (4 b bs a as)
  then show ?case using wrap32_dec [of a] by (auto simp: Let_def split: prod.splits)
qed auto

lemma pdb_loop_exact:
  assumes "as = map (\<lambda>b. DisruptionsAllowed b - int (length (filter (charged b) xs))) bs" "distinct (xs @ ps)"
    "\<forall>b\<in>set bs. DisruptionsAllowed b \<le> 2147483647 \<and> -2147483648 + int (length (xs @ ps)) < DisruptionsAllowed b"
    "pdb_loop bs ps as = (vs, ns)" "ps = ys @ p # zs"
  shows "p \<in> set vs \<longleftrightarrow> over_budget bs (xs @ ys) p"
  using assms
proof (induction ps arbitrary: xs as ys vs ns)
  case (Cons q ps)
  define r where "r = (if podLabels q = [] then (False, as) else charge_pdbs q bs as False)"
  have bnd: "\<forall>a\<in>set as. -2147483648 < a \<and> a \<le> 2147483647"
  proof
    fix a assume "a \<in> set as"
    then obtain b where b: "b \<in> set bs" "a = DisruptionsAllowed b - int (length (filter (charged b) xs))" using Cons.prems(1) by auto
    have "length (filter (charged b) xs) \<le> length xs" by (rule length_filter_le)
    moreover have "DisruptionsAllowed b \<le> 2147483647" "-2147483648 + int (length xs) < DisruptionsAllowed b"
      using Cons.prems(3) b(1) by auto
    ultimately show "-2147483648 < a \<and> a \<le> 2147483647" unfolding b(2) by linarith
  qed
  have len: "length as = length bs" using Cons.prems(1) by simp
  have zip: "zip bs as = map (\<lambda>b. (b, DisruptionsAllowed b - int (length (filter (charged b) xs)))) bs"
    unfolding Cons.prems(1) by (simp add: zip_map2 zip_same_conv_map)
  have chq: "charged b q \<longleftrightarrow> podLabels q \<noteq> [] \<and> pdb_counts q b" for b by (simp add: charged_def)
  have r1: "fst r \<longleftrightarrow> over_budget bs xs q"
    using charge_exact [OF len bnd, of q False] zip by (auto simp: r_def over_budget_def charged_def)
  have r2: "snd r = map (\<lambda>b. DisruptionsAllowed b - int (length (filter (charged b) (xs @ [q])))) bs"
    using charge_exact [OF len bnd, of q False] chq unfolding zip r_def by (auto simp: Cons.prems(1))
  obtain vs' ns' where rest: "pdb_loop bs ps (snd r) = (vs', ns')" by (rule prod.exhaust)
  have out: "vs = (if fst r then q # vs' else vs')" using Cons.prems(4) rest by (auto simp: r_def Let_def split: prod.splits if_splits)
  have "mset vs' + mset ns' = mset ps" by (rule pdb_loop_mset [OF rest])
  then have sub: "set vs' \<subseteq> set ps" by (metis mset_subset_eq_add_left set_mset_mono set_mset_mset)
  show ?case
  proof (cases ys)
    case Nil
    then have "p = q" using Cons.prems(5) by simp
    moreover have "q \<notin> set vs'" using sub Cons.prems(2) by auto
    ultimately show ?thesis using r1 out Nil by simp
  next
    case (Cons y ys')
    then have y: "y = q" "ps = ys' @ p # zs" using Cons.prems(5) by simp_all
    have "p \<noteq> q" using y(2) Cons.prems(2) by auto
    then show ?thesis using Cons.IH [OF r2 _ _ rest y(2)] Cons.prems(2,3) out Cons y(1) by simp
  qed
qed simp

lemma pdb_loop_within:
  assumes "length as = length bs" "\<forall>a\<in>set as. a \<le> 2147483647 \<and> -2147483648 + int (length ps) < a"
    "pdb_loop bs ps as = (vs, ns)" "i < length bs"
  shows "int (length (filter (charged (bs ! i)) ns)) \<le> max 0 (as ! i)"
  using assms
proof (induction ps arbitrary: as vs ns)
  case (Cons q ps)
  define r where "r = (if podLabels q = [] then (False, as) else charge_pdbs q bs as False)"
  have bnd: "\<forall>a\<in>set as. -2147483648 < a \<and> a \<le> 2147483647" using Cons.prems(2) by auto
  note ch = charge_exact [OF Cons.prems(1) bnd, of q False]
  have as': "snd r ! j = as ! j - (if charged (bs ! j) q then 1 else 0)" if "j < length bs" for j
    using ch that Cons.prems(1) by (auto simp: r_def charged_def)
  have len: "length (snd r) = length bs" using ch Cons.prems(1) by (auto simp: r_def)
  have bnd': "\<forall>a\<in>set (snd r). a \<le> 2147483647 \<and> -2147483648 + int (length ps) < a"
  proof
    fix a assume "a \<in> set (snd r)"
    then obtain j where j: "j < length bs" "a = snd r ! j" using len by (metis in_set_conv_nth)
    have "as ! j \<le> 2147483647 \<and> -2147483648 + int (length (q # ps)) < as ! j" using Cons.prems(1,2) j(1) by simp
    then show "a \<le> 2147483647 \<and> -2147483648 + int (length ps) < a" using as' [OF j(1)] j(2) by auto
  qed
  obtain vs' ns' where rest: "pdb_loop bs ps (snd r) = (vs', ns')" by (rule prod.exhaust)
  have out: "ns = (if fst r then ns' else q # ns')" using Cons.prems(3) rest by (auto simp: r_def Let_def split: prod.splits if_splits)
  have pos: "as ! i > 0" if h: "charged (bs ! i) q" "\<not> fst r"
  proof (rule ccontr)
    assume "\<not> as ! i > 0"
    moreover have "(bs ! i, as ! i) \<in> set (zip bs as)" using Cons.prems(1,4) by (auto simp: set_zip)
    ultimately show False using h ch by (auto simp: r_def charged_def)
  qed
  have "int (length (filter (charged (bs ! i)) ns')) \<le> max 0 (snd r ! i)" by (rule Cons.IH [OF len bnd' rest Cons.prems(4)])
  then show ?case using pos as' [OF Cons.prems(4)] out by auto
qed simp

text \<open>
  C35: The pods are split by their budgets exactly: a pod is a violating one if and only if a budget that
  counts it is used up by it and the pods before it. The pods that violate nothing stay within every budget,
  so evicting all of them disrupts no more than is allowed.
\<close>

theorem budgets_respected:
  assumes "distinct ps" "filterPodsWithPDBViolation ps bs = (vs, ns)"
    and "\<And>b. b \<in> set bs \<Longrightarrow> DisruptionsAllowed b \<le> 2147483647 \<and> -2147483648 + int (length ps) < DisruptionsAllowed b"
  shows "(\<forall>ys p zs. ps = ys @ p # zs \<longrightarrow> (p \<in> set vs \<longleftrightarrow> over_budget bs ys p)) \<and>
    mset vs + mset ns = mset ps \<and>
    (\<forall>b\<in>set bs. int (length (filter (charged b) ns)) \<le> max 0 (DisruptionsAllowed b))"
proof (intro conjI allI impI ballI)
  have loop: "pdb_loop bs ps (map DisruptionsAllowed bs) = (vs, ns)" using assms(2) by (simp add: filterPodsWithPDBViolation_def)
  show "mset vs + mset ns = mset ps" by (rule pdb_loop_mset [OF loop])
  show "p \<in> set vs \<longleftrightarrow> over_budget bs ys p" if "ps = ys @ p # zs" for ys p zs
    using pdb_loop_exact [OF _ _ _ loop that, of "[]"] assms(1,3) by simp
  show "int (length (filter (charged b) ns)) \<le> max 0 (DisruptionsAllowed b)" if b: "b \<in> set bs" for b
  proof -
    obtain i where "i < length bs" "b = bs ! i" using b by (metis in_set_conv_nth)
    then show ?thesis using pdb_loop_within [OF _ _ loop, of i] assms(3) by auto
  qed
qed

section \<open>The node\<close>

text \<open>
  C34: The choice among the candidate nodes returns the node that is least in the lexicographic order of
  the number of violated budgets, the priority of the first victim, the sum of the priorities (shifted to be
  non-negative), the number of victims, and the start of the most important victims, latest first. The order
  in which the map is visited matters only between nodes that are equal in all five.
\<close>

theorem pick_is_best:
  assumes "m \<noteq> []" "set visited = fst ` set m" "\<And>n v. (n, v) \<in> set m \<Longrightarrow> usual_victims v"
  shows "\<exists>n v. pickOneNodeForPreemption now visited m = Ret n \<and> map_of m n = Some v \<and>
    (\<forall>n' v'. map_of m n' = Some v' \<longrightarrow> pick_key now v \<le> pick_key now v')"
proof -
  have u: "\<forall>v\<in>snd ` set m. usual_victims v" using assms(3) by auto
  obtain n where n: "pickOneNodeForPreemption now visited m = Ret n" "n \<in> set visited"
      "\<forall>n'\<in>set visited. pick_key now (the (map_of m n)) \<le> pick_key now (the (map_of m n'))"
    using pick_least [OF assms(1,2) u, of now] by blast
  have dom: "n' \<in> set visited \<longleftrightarrow> map_of m n' \<noteq> None" for n' unfolding assms(2) by (metis dom_map_of_conv_image_fst domIff)
  obtain v where v: "map_of m n = Some v" using n(2) dom by blast
  have "pick_key now v \<le> pick_key now v'" if "map_of m n' = Some v'" for n' v'
    using n(3) dom [of n'] v that by force
  then show ?thesis using n(1) v by blast
qed

lemma victims_map:
  "map_of (candidatesToVictimsMap cs) n = map_option cVictims (find (\<lambda>x. cName x = n) (rev cs))"
  unfolding candidatesToVictimsMap_def by (induction cs rule: rev_induct) (auto simp: update_conv)

lemma victims_map_Some:
  assumes "map_of (candidatesToVictimsMap cs) n = Some v"
  shows "\<lparr>cVictims = v, cName = n\<rparr> \<in> set cs"
proof -
  obtain x where x: "find (\<lambda>x. cName x = n) (rev cs) = Some x" "v = cVictims x" using assms by (auto simp: victims_map)
  then have "x \<in> set (rev cs) \<and> cName x = n" unfolding find_Some_iff using nth_mem by blast
  then show ?thesis using x(2) by (cases x) simp
qed

lemma victims_map_distinct: "distinct (map fst (candidatesToVictimsMap cs))"
  unfolding candidatesToVictimsMap_def by (induction cs rule: rev_induct) (auto simp: distinct_update)

lemma select_member:
  assumes "cs \<noteq> []" "\<forall>x\<in>set cs. usual_victims (cVictims x)" "\<And>ks. set (visitKeys c ks) = set ks"
  shows "\<exists>x\<in>set cs. SelectCandidate c cs = Ret (Some x)"
proof -
  consider x where "cs = [x]" | x y zs where "cs = x # y # zs" using assms(1) by (metis neq_Nil_conv)
  then show ?thesis
  proof cases
    case 2
    let ?m = "candidatesToVictimsMap cs"
    have "map_of ?m (cName x) \<noteq> None" unfolding victims_map using 2 by (auto simp: find_None_iff)
    then have ne: "?m \<noteq> []" by auto
    have u: "\<forall>v\<in>snd ` set ?m. usual_victims v"
    proof
      fix v assume "v \<in> snd ` set ?m"
      then obtain n where "map_of ?m n = Some v" using victims_map_distinct [of cs] by force
      then show "usual_victims v" using victims_map_Some [of cs n v] assms(2) by force
    qed
    obtain n where n: "pickOneNodeForPreemption (clock c) (visitKeys c (map fst ?m)) ?m = Ret n" "n \<in> set (visitKeys c (map fst ?m))"
      using pick_least [OF ne _ u, of "visitKeys c (map fst ?m)" "clock c"] assms(3) [of "map fst ?m"] by auto
    obtain v where v: "map_of ?m n = Some v" using n(2) assms(3) [of "map fst ?m"] by (metis dom_map_of_conv_image_fst domIff list.set_map option.exhaust)
    have "SelectCandidate c cs = Ret (Some \<lparr>cVictims = v, cName = n\<rparr>)" using n(1) v 2 by (simp add: SelectCandidate_def Let_def)
    then show ?thesis using victims_map_Some [OF v] by blast
  qed (simp add: SelectCandidate_def)
qed

section \<open>The dry run\<close>

definition good_candidate :: "('s, 'w) preemption \<Rightarrow> (string \<Rightarrow> kpod \<Rightarrow> nodeInfo \<Rightarrow> statusp) \<Rightarrow> string list \<Rightarrow> kpod \<Rightarrow> nodeInfo list \<Rightarrow> candidate \<Rightarrow> bool" where
  "good_candidate c V names pod nis x \<longleftrightarrow> (\<exists>ni\<in>set nis. (\<exists>nd. node ni = Some nd \<and> knodeName nd = cName x) \<and> vPods (cVictims x) \<noteq> [] \<and>
     victims_found c V names pod ni (vPods (cVictims x)) (NumPDBViolations (cVictims x)))"

text \<open>The information of a node as the snapshot has it.\<close>

definition sound_node :: "gates \<Rightarrow> nodeInfo \<Rightarrow> bool" where
  "sound_node g ni \<longleftrightarrow> node ni \<noteq> None \<and> accounts g ni \<and> named_pods (Pods ni) \<and> int (length (Pods ni)) \<le> MaxInt32 \<and>
     (\<forall>p\<in>set (Pods ni). int32 (PodPriority p))"

definition real_statuses :: "nodeToStatus \<Rightarrow> bool" where
  "real_statuses m \<longleftrightarrow> None \<notin> snd ` set m"

lemma real_statuses_update: "real_statuses m \<Longrightarrow> st \<noteq> None \<Longrightarrow> real_statuses (AList.update n st m)"
  unfolding real_statuses_def by (induction m) auto

lemma good_usual:
  assumes "good_candidate c V names pod nis x" "\<forall>ni\<in>set nis. sound_node g ni"
  shows "usual_victims (cVictims x)"
proof -
  obtain ni where ni: "ni \<in> set nis" "vPods (cVictims x) \<noteq> []" "victims_found c V names pod ni (vPods (cVictims x)) (NumPDBViolations (cVictims x))"
    using assms(1) by (auto simp: good_candidate_def)
  note f = victims_found_sub [OF ni(3)]
  have s: "int (length (Pods ni)) \<le> MaxInt32" "\<forall>p\<in>set (Pods ni). int32 (PodPriority p)" using assms(2) ni(1) by (auto simp: sound_node_def)
  have "set (vPods (cVictims x)) \<subseteq> set (Pods ni)" using f(1) by (metis set_mset_mono set_mset_mset)
  moreover have "length (vPods (cVictims x)) \<le> length (Pods ni)" using size_mset_mono [OF f(1)] by simp
  ultimately show ?thesis using f(4,5) s ni(2) by (auto simp: usual_victims_def int32_def MaxInt32_def)
qed

lemma cl_get_sub: "set (cl_get cl) \<subseteq> set (items cl)"
  unfolding cl_get_def by (rule set_take_subset)

lemma cl_add_items: "set (items (cl_add x cl)) \<subseteq> insert x (set (items cl))"
  by (auto simp: cl_add_def Let_def)

context victim_search
begin

lemma dry_run_good:
  assumes "\<forall>ni\<in>set nis. sound_node G ni" "set nis \<subseteq> set all"
    "\<forall>x\<in>set (items nvc) \<union> set (items vc). good_candidate c V names pod all x" "real_statuses sts"
  shows "\<exists>cs sts' gen' w'. dry_run c pod pdbs k nis nvc vc sts gen s w = Ret ((cs, sts'), gen', w') \<and>
    (\<forall>x\<in>set cs. good_candidate c V names pod all x) \<and> real_statuses sts'"
  using assms
proof (induction nis arbitrary: nvc vc sts gen w)
  case Nil
  then show ?case using cl_get_sub [of nvc] cl_get_sub [of vc] by auto
next
  case (Cons ni nis)
  have sn: "accounts G ni" "named_pods (Pods ni)" "int (length (Pods ni)) < 2 ^ 63" and "\<exists>nd. node ni = Some nd"
    using Cons.prems(1) by (auto simp: sound_node_def MaxInt32_def)
  then obtain nd where nd: "node ni = Some nd" by blast
  obtain vs n st ni' gen' s' w' where r: "selectVictimsOnNode c pod ni pdbs gen (s, w) = Ret ((vs, n, st), ni', gen', s', w')"
      "node ni' = node ni" "IsSuccess st \<longrightarrow> victims_found c V names pod ni vs n"
    using select_effect [OF sn(1,2) nd sn(3), of pod pdbs gen "(s, w)"] by force
  let ?x = "\<lparr>cVictims = \<lparr>vPods = vs, NumPDBViolations = n\<rparr>, cName = knodeName nd\<rparr>"
  have rest: "\<forall>ni\<in>set nis. sound_node G ni" "set nis \<subseteq> set all" using Cons.prems(1,2) by auto
  show ?case
  proof (cases "IsSuccess st \<and> vs \<noteq> []")
    case True
    define nvc1 where "nvc1 = (if n = 0 then cl_add ?x nvc else nvc)"
    define vc1 where "vc1 = (if n = 0 then vc else cl_add ?x vc)"
    have "good_candidate c V names pod all ?x" using True r(3) nd Cons.prems(2) by (auto simp: good_candidate_def)
    then have g: "\<forall>x\<in>set (items nvc1) \<union> set (items vc1). good_candidate c V names pod all x"
      using Cons.prems(3) cl_add_items [of ?x nvc] cl_add_items [of ?x vc] by (auto simp: nvc1_def vc1_def)
    have step: "dry_run c pod pdbs k (ni # nis) nvc vc sts gen s w =
      (if cl_size nvc1 > 0 \<and> wrap32 (cl_size nvc1 + cl_size vc1) \<ge> k then Ret ((cl_get nvc1 @ cl_get vc1, sts), gen', w')
       else dry_run c pod pdbs k nis nvc1 vc1 sts gen' s w')"
      using True r(1,2) nd unfolding nvc1_def vc1_def by (simp add: node_name_def Let_def)
    show ?thesis unfolding step
      using g cl_get_sub [of nvc1] cl_get_sub [of vc1] Cons.prems(4) Cons.IH [OF rest g Cons.prems(4), of gen' w'] by auto
  next
    case False
    let ?st = "if IsSuccess st then AsStatus (''expected at least one victim pod on node '' @ quoted_name (knodeName nd)) else st"
    have "?st \<noteq> None" by (cases st) (auto simp: AsStatus_def IsSuccess_def Code_def)
    then have "real_statuses (AList.update (knodeName nd) ?st sts)" using Cons.prems(4) by (rule real_statuses_update [rotated])
    moreover have "dry_run c pod pdbs k (ni # nis) nvc vc sts gen s w = dry_run c pod pdbs k nis nvc vc (AList.update (knodeName nd) ?st sts) gen' s w'"
      using False r(1,2) nd by (auto simp: node_name_def Let_def simp del: append.simps)
    ultimately show ?thesis using Cons.IH [OF rest Cons.prems(3), of "AList.update (knodeName nd) ?st sts" gen' w'] by simp
  qed
qed

lemma dryRun_good:
  assumes "\<forall>ni\<in>set nis. sound_node G ni" "0 \<le> k"
  shows "\<exists>cs sts gen' w'. dryRunPreemption c pod nis pdbs off k gen s w = Ret ((cs, sts), gen', w') \<and>
    (\<forall>x\<in>set cs. good_candidate c V names pod nis x) \<and> real_statuses sts"
proof -
  let ?l = "map (\<lambda>i. nis ! nat ((off + int i) mod int (length nis))) [0..<length nis]"
  have "nis ! nat ((off + int i) mod int (length nis)) \<in> set nis" if i: "i < length nis" for i
  proof (intro nth_mem)
    have "(off + int i) mod int (length nis) < int (length nis)" using i by (intro pos_mod_bound) auto
    moreover have "0 \<le> (off + int i) mod int (length nis)" using i by (intro pos_mod_sign) auto
    ultimately show "nat ((off + int i) mod int (length nis)) < length nis" by linarith
  qed
  then have sub: "set ?l \<subseteq> set nis" by auto
  then have "\<forall>ni\<in>set ?l. sound_node G ni" using assms(1) by blast
  from dry_run_good [OF this sub, of "newCandidateList k" "newCandidateList k" pod "[]" pdbs k gen s w]
  show ?thesis using assms(2) by (simp add: dryRunPreemption_def newCandidateList_def real_statuses_def)
qed

end

section \<open>The whole plugin\<close>

lemma might_help_sound:
  assumes "\<forall>ni\<in>set nis. node ni \<noteq> None" 
  shows "\<exists>ps sts. nodesWherePreemptionMightHelp nis m = Ret (ps, sts) \<and> set ps \<subseteq> set nis \<and> length ps \<le> length nis \<and> real_statuses sts"
  using assms
proof (induction nis rule: rev_induct)
  case Nil
  show ?case by (simp add: nodesWherePreemptionMightHelp_def real_statuses_def)
next
  case (snoc ni nis)
  obtain ps sts where i: "nodesWherePreemptionMightHelp nis m = Ret (ps, sts)" "set ps \<subseteq> set nis" "length ps \<le> length nis" "real_statuses sts"
    using snoc by auto
  obtain nd where "node ni = Some nd" using snoc.prems by auto
  then show ?case using i real_statuses_update [OF i(4)]
    by (auto simp: nodesWherePreemptionMightHelp_def node_name_def NewStatus_def)
qed

lemma FitError_returns: "real_statuses m \<Longrightarrow> \<exists>e. FitError_Error k m = Ret e"
proof -
  have "\<exists>h. foldl (\<lambda>acc (n, st). go_bind acc (\<lambda>h. add_reasons h st)) (Ret h0) m = Ret h" if "real_statuses m" for h0
    using that
  proof (induction m arbitrary: h0)
    case (Cons x m)
    obtain n st where x: "x = (n, Some st)" using Cons.prems by (cases x; cases "snd x") (auto simp: real_statuses_def)
    have "real_statuses m" using Cons.prems by (auto simp: real_statuses_def)
    then show ?case using Cons.IH x by (simp add: add_reasons_def)
  qed simp
  then obtain h where "foldl (\<lambda>acc (n, st). go_bind acc (\<lambda>h. add_reasons h st)) (Ret []) m = Ret h" if "real_statuses m" by blast
  then show "\<exists>e. FitError_Error k m = Ret e" if "real_statuses m" using that by (simp add: FitError_Error_def)
qed

lemma fold_statuses: "real_statuses sts \<Longrightarrow> real_statuses us \<Longrightarrow> real_statuses (foldl (\<lambda>st (n, x). AList.update n x st) sts us)"
proof (induction us arbitrary: sts)
  case (Cons u us)
  have "snd u \<noteq> None" "real_statuses us" using Cons.prems(2) by (force simp: real_statuses_def)+
  then show ?case using Cons real_statuses_update [OF Cons.prems(1), of "snd u" "fst u"] by (simp add: case_prod_beta)
qed simp

lemma numCandidates_nonneg: "0 \<le> k \<Longrightarrow> 0 \<le> MinCandidateNodesAbsolute c \<Longrightarrow> 0 \<le> calculateNumCandidates c k"
  by (auto simp: calculateNumCandidates_def Let_def)

lemma find_candidates_good:
  assumes "victim_search c V names" "\<forall>ni\<in>set (snap_List (SnapshotSharedLister c)). sound_node (fwGates (fh c)) ni"
    "0 \<le> MinCandidateNodesAbsolute c" "int (length (snap_List (SnapshotSharedLister c))) \<le> MaxInt32"
  shows "\<exists>cs sts st gen' w'. FindCandidates c pod m gen s w = Ret ((cs, sts, st), gen', w') \<and>
    (\<forall>x\<in>set cs. good_candidate c V names pod (snap_List (SnapshotSharedLister c)) x) \<and> real_statuses sts"
proof -
  let ?nis = "snap_List (SnapshotSharedLister c)"
  have "\<forall>ni\<in>set ?nis. node ni \<noteq> None" using assms(2) by (auto simp: sound_node_def)
  then obtain ps us where h: "nodesWherePreemptionMightHelp ?nis m = Ret (ps, us)" "set ps \<subseteq> set ?nis" "length ps \<le> length ?nis" "real_statuses us"
    using might_help_sound by blast
  have e: "real_statuses []" by (simp add: real_statuses_def)
  have lp: "0 \<le> wrap32 (int (length ps))" using h(3) assms(4) by (simp add: wrap32_def MaxInt32_def)
  have sn: "\<forall>ni\<in>set ps. sound_node (fwGates (fh c)) ni" using h(2) assms(2) by blast
  show ?thesis
  proof (cases "?nis = [] \<or> ps = []")
    case True
    then show ?thesis using h e by (cases "?nis = []") (simp_all add: FindCandidates_def)
  next
    case False
    show ?thesis
    proof (cases "getPodDisruptionBudgets c w")
      case (Inl x)
      then show ?thesis using h e False by (auto simp: FindCandidates_def)
    next
      case (Inr pdbs)
      obtain cs sts gen' w' where d: "dryRunPreemption c pod ps pdbs (Int31n c (wrap32 (int (length ps)))) (calculateNumCandidates c (wrap32 (int (length ps)))) gen s w =
          Ret ((cs, sts), gen', w')" "\<forall>x\<in>set cs. good_candidate c V names pod ps x" "real_statuses sts"
        using victim_search.dryRun_good [OF assms(1) sn numCandidates_nonneg [OF lp assms(3)], of pod pdbs] by blast
      have "\<forall>x\<in>set cs. good_candidate c V names pod ?nis x" using d(2) h(2) unfolding good_candidate_def by blast
      then show ?thesis using h d Inr False fold_statuses [OF d(3) h(4)] by (simp add: FindCandidates_def Let_def)
    qed
  qed
qed

lemma evict_status: "evict_loop c pod nn vs wps w = (st, z) \<Longrightarrow> st = None \<or> (\<exists>e. st = AsStatus e)"
  by (induction c pod nn vs wps w rule: evict_loop.induct) (auto simp: Let_def split: option.splits prod.splits)

lemma prepare_status: "PrepareCandidate c x pod wps w = (st, z) \<Longrightarrow> st = None \<or> (\<exists>e. st = AsStatus e)"
  using evict_status [of c pod "cName x" "vPods (cVictims x)" wps w]
  by (auto simp: PrepareCandidate_def split: prod.splits option.splits)

text \<open>What eviction ends with: \<open>ev\<close>, the first of the victims, are gone, and the status tells whether they are all of them.\<close>

definition evicts :: "('w \<Rightarrow> string list) \<Rightarrow> kpod list \<Rightarrow> kpod list \<Rightarrow> (string \<rightharpoonup> waitingPod) \<Rightarrow> 'w \<Rightarrow> (string \<rightharpoonup> waitingPod) \<Rightarrow> 'w \<Rightarrow> bool" where
  "evicts evicted vs ev wps w wps' w' \<longleftrightarrow> prefix ev vs \<and>
     evicted w' = evicted w @ map UID (filter (\<lambda>v. wps (UID v) = None) ev) \<and> dom wps' = dom wps \<and>
     (\<forall>u. u \<notin> UID ` set ev \<longrightarrow> wps' u = wps u)"

text \<open>
  C32: On a snapshot whose totals are right, without extenders, for filters that judge the pod and the node
  and PreFilter plugins that delete nothing, the PostFilter of preemption always returns. Either it names no
  node and has deleted no pod and rejected none that waits; or, for one node of the snapshot, there are
  victims, pods of this node of lower priority than the pod as the lister has it, without which the pod
  passes every filter, and the pods the API server has deleted since are, in order, the first of these
  victims that were not waiting for a permit, up to the first deletion that failed. The waiting pods that
  are touched are among these victims. The node is nominated, with success, exactly when no deletion failed.
\<close>

theorem preemption_sound:
  assumes "filterPlugins (fh c) = verdict_plugins V names" "logs_deletions evicted c"
    and "\<And>lt xs. mset (sortSlice c lt xs) = mset xs" "\<And>ks. set (visitKeys c ks) = set ks"
    and "\<forall>ni\<in>set (snap_List (SnapshotSharedLister c)). sound_node (fwGates (fh c)) ni"
    and "0 \<le> MinCandidateNodesAbsolute c" "int (length (snap_List (SnapshotSharedLister c))) \<le> MaxInt32" "pExtenders c = []"
  shows "\<exists>r st gen' wps' w'. PostFilter c pod m gen s wps w = Ret ((r, st), gen', wps', w') \<and>
    (r = None \<and> \<not> IsSuccess st \<and> evicted w' = evicted w \<and> wps' = wps \<or>
     (\<exists>pod' ni nd vs ev. podLister c w (kNamespace pod) (kName pod) = Inr pod' \<and>
       ni \<in> set (snap_List (SnapshotSharedLister c)) \<and> node ni = Some nd \<and> vs \<noteq> [] \<and> mset vs \<subseteq># mset (Pods ni) \<and>
       (\<forall>v\<in>set vs. PodPriority v < PodPriority pod') \<and>
       (\<exists>ni'. node ni' = node ni \<and> accounts (fwGates (fh c)) ni' \<and> fits V names pod' ni' \<and> mset (Pods ni') = mset (Pods ni) - mset vs) \<and>
       evicts evicted vs ev wps w wps' w' \<and> r = (if ev = vs then Some (knodeName nd) else None) \<and> (IsSuccess st \<longleftrightarrow> ev = vs)))"
proof -
  have ok: "IsSuccess None" "IsSuccess (NewStatus Success [])" "\<not> IsSuccess (NewStatus Unschedulable e)" "\<not> IsSuccess (AsStatus x)" for e x
    by (simp_all add: IsSuccess_def NewStatus_def AsStatus_def Code_def)
  have vs: "victim_search c V names" using assms(1,3) by (rule victim_search.intro)
  then have qs: "quiet_search c V names evicted" using assms(2) by (simp add: quiet_search_def quiet_search_axioms_def)
  show ?thesis
  proof (cases "podLister c w (kNamespace pod) (kName pod)")
    case (Inl e)
    then show ?thesis using ok by (simp add: PostFilter_def preempt_def)
  next
    case (Inr pod')
    let ?el = "PodEligibleToPreemptOthers pod' (SnapshotSharedLister c) (case map_of m (NominatedNodeName pod') of None \<Rightarrow> None | Some st \<Rightarrow> st)"
    note sn = assms(5)
    obtain cs sts st gen' w1 where f: "FindCandidates c pod' m gen s w = Ret ((cs, sts, st), gen', w1)"
        "\<forall>x\<in>set cs. good_candidate c V names pod' (snap_List (SnapshotSharedLister c)) x" "real_statuses sts"
      using find_candidates_good [OF vs sn assms(6,7), of pod' m gen s w] by blast
    have w1: "evicted w1 = evicted w" using quiet_search.FindCandidates_quiet [OF qs f(1)] .
    obtain e where fe: "FitError_Error (length sts) sts = Ret e" using FitError_returns [OF f(3)] by blast
    show ?thesis
    proof (cases "?el \<and> IsSuccess st \<and> cs \<noteq> []")
      case False
      then consider "\<not> ?el" | "?el" "\<not> IsSuccess st" | "?el" "IsSuccess st" "cs = []" by blast
      then show ?thesis
        by cases (use Inr f(1) fe ok w1 in \<open>simp_all add: PostFilter_def preempt_def\<close>)
    next
      case True
      have "\<forall>x\<in>set cs. usual_victims (cVictims x)" using good_usual f(2) sn by blast
      then obtain x where x: "x \<in> set cs" "SelectCandidate c cs = Ret (Some x)" using select_member [of cs c] True assms(4) by blast
      obtain st2 wps' w2 where p: "PrepareCandidate c x pod' wps w1 = (st2, wps', w2)" by (rule prod_cases3)
      have run: "preempt c pod m gen s wps w = (if cName x = [] then Ret (([], None), gen', wps, w1)
          else if \<not> IsSuccess st2 then Ret (([], st2), gen', wps', w2) else Ret ((cName x, None), gen', wps', w2))"
        using Inr True f(1) x(2) p ok assms(8) by (simp add: preempt_def CallExtenders_def)
      show ?thesis
      proof (cases "cName x = []")
        case True
        then show ?thesis using run ok w1 by (simp add: PostFilter_def)
      next
        case nm: False
        obtain ev where ev: "evicts evicted (vPods (cVictims x)) ev wps w wps' w2" "st2 = None \<longleftrightarrow> ev = vPods (cVictims x)"
          using quiet_search.PrepareCandidate_log [OF qs p] unfolding evicts_def w1 by blast
        have st2: "IsSuccess st2 \<longleftrightarrow> ev = vPods (cVictims x)" using prepare_status [OF p] ev(2) ok by auto
        obtain ni nd where ni: "ni \<in> set (snap_List (SnapshotSharedLister c))" "node ni = Some nd" "knodeName nd = cName x" "vPods (cVictims x) \<noteq> []"
            "victims_found c V names pod' ni (vPods (cVictims x)) (NumPDBViolations (cVictims x))"
          using f(2) x(1) by (auto simp: good_candidate_def)
        note vf = victims_found_sub [OF ni(5)]
        have ex: "\<exists>ni'. node ni' = node ni \<and> accounts (fwGates (fh c)) ni' \<and> fits V names pod' ni' \<and> mset (Pods ni') = mset (Pods ni) - mset (vPods (cVictims x))"
          using vf(3) unfolding room_def by blast
        let ?r = "if ev = vPods (cVictims x) then Some (knodeName nd) else None" and ?st = "if IsSuccess st2 then NewStatus Success [] else st2"
        have "PostFilter c pod m gen s wps w = Ret ((?r, ?st), gen', wps', w2)" "IsSuccess ?st \<longleftrightarrow> ev = vPods (cVictims x)"
          using run nm st2 ok ni(3) by (auto simp: PostFilter_def)
        then show ?thesis using Inr ni(1,2,4) vf(1,2) ex ev(1) by blast
      qed
    qed
  qed
qed

end
