(* ===== verification/Preempt_Examples.thy ===== *)
theory Preempt_Examples
  imports Preempt_Props Node_Fit
begin

text \<open>
  Preemption with the filters of \<open>Node_Fit\<close>: resources, taints and unschedulable nodes. The world is
  the list of the pods deleted so far. The examples run the plugin on small clusters.
\<close>

section \<open>A plugin with the default filters\<close>

definition default_verdict :: "gates \<Rightarrow> string \<Rightarrow> kpod \<Rightarrow> nodeInfo \<Rightarrow> statusp" where
  "default_verdict g n pod ni =
     (if n = ''NodeResourcesFit''
      then Fit_Filter (\<lambda>_. False) id \<lparr>ignoredResources = [], ignoredResourceGroups = []\<rparr> (snd (Fit_PreFilter g pod None)) ni
      else if n = ''TaintToleration'' then TaintToleration_Filter pod ni
      else NodeUnschedulable_Filter pod ni)"

definition default_filters :: "string list" where
  "default_filters = [''NodeUnschedulable'', ''NodeResourcesFit'', ''TaintToleration'']"

definition filter_fwk :: "(string \<Rightarrow> kpod \<Rightarrow> nodeInfo \<Rightarrow> statusp) \<Rightarrow> string list \<Rightarrow> gates \<Rightarrow> (unit, string list) fwk" where
  "filter_fwk V names g = \<lparr>preFilterPlugins = [], filterPlugins = verdict_plugins V names, postFilterPlugins = [], preScorePlugins = [],
     scorePlugins = [], scorePluginWeight = (\<lambda>_. 1), reservePlugins = [], permitPlugins = [], preBindPlugins = [], bindPlugins = [],
     postBindPlugins = [], runAllFilters = False, fwGates = g, NominatedPodsForNode = (\<lambda>_. [])\<rparr>"

fun ins_by :: "('a \<Rightarrow> 'a \<Rightarrow> bool) \<Rightarrow> 'a \<Rightarrow> 'a list \<Rightarrow> 'a list" where
  "ins_by lt x [] = [x]"
| "ins_by lt x (y # ys) = (if lt y x then y # ins_by lt x ys else x # y # ys)"

definition sort_by :: "('a \<Rightarrow> 'a \<Rightarrow> bool) \<Rightarrow> 'a list \<Rightarrow> 'a list" where
  "sort_by lt xs = foldr (ins_by lt) xs []"

lemma ins_by_mset: "mset (ins_by lt x ys) = add_mset x (mset ys)"
  by (induction ys) auto

lemma sort_by_mset: "mset (sort_by lt xs) = mset xs"
  by (induction xs) (simp_all add: sort_by_def ins_by_mset)

definition plain_preemption :: "(string \<Rightarrow> kpod \<Rightarrow> nodeInfo \<Rightarrow> statusp) \<Rightarrow> string list \<Rightarrow> gates \<Rightarrow> snapshot \<Rightarrow> kpod list \<Rightarrow> pdb list \<Rightarrow> (unit, string list) preemption" where
  "plain_preemption V names g snap pods pdbs = \<lparr>fh = filter_fwk V names g, SnapshotSharedLister = snap,
     podLister = (\<lambda>w ns n. case find (\<lambda>p. kNamespace p = ns \<and> kName p = n) pods of None \<Rightarrow> Inl ''not found'' | Some p \<Rightarrow> Inr p),
     pdbLister = Some (\<lambda>w. Inr pdbs), MinCandidateNodesPercentage = 10, MinCandidateNodesAbsolute = 100, pExtenders = [],
     Int31n = (\<lambda>_. 0), sortSlice = sort_by, visitKeys = (\<lambda>ks. ks), clock = 0,
     DeletePod = (\<lambda>p w. (None, w @ [UID p])), PatchPodStatus = (\<lambda>p w. (None, w)), Eventf = (\<lambda>p t w. w)\<rparr>"

lemma plain_preemption_simps [simp]:
  "fh (plain_preemption V names g snap pods pdbs) = filter_fwk V names g"
  "filterPlugins (filter_fwk V names g) = verdict_plugins V names" "fwGates (filter_fwk V names g) = g"
  "NominatedPodsForNode (filter_fwk V names g) nn = []" "preFilterPlugins (filter_fwk V names g) = []"
  "SnapshotSharedLister (plain_preemption V names g snap pods pdbs) = snap"
  "sortSlice (plain_preemption V names g snap pods pdbs) lt xs = sort_by lt xs"
  "visitKeys (plain_preemption V names g snap pods pdbs) ks = ks"
  "MinCandidateNodesAbsolute (plain_preemption V names g snap pods pdbs) = 100"
  "pExtenders (plain_preemption V names g snap pods pdbs) = []"
  by (simp_all add: plain_preemption_def filter_fwk_def)

lemma plain_logs: "logs_deletions (\<lambda>w. w) (plain_preemption V names g snap pods pdbs)"
  by (simp add: logs_deletions_def) (simp add: plain_preemption_def)

interpretation default_search: quiet_search "plain_preemption (default_verdict g) default_filters g snap pods pdbs" "default_verdict g" default_filters "\<lambda>w. w"
  for g snap pods pdbs
  by unfold_locales (simp_all add: sort_by_mset plain_logs)

section \<open>A small cluster\<close>

definition ex_pre_gates :: gates where
  "ex_pre_gates = \<lparr>IsScalarResourceName = (\<lambda>_. False), LocalStorage = False, PodOverhead = False\<rparr>"

definition ex_pre_pod :: "string \<Rightarrow> int \<Rightarrow> int \<Rightarrow> int \<Rightarrow> kpod" where
  "ex_pre_pod u prio cpu start = \<lparr>kName = u, kNamespace = ''d'', UID = u, ResourceVersion = [], specNodeName = [],
     Containers = [\<lparr>Requests = [(''cpu'', \<lparr>MilliValue = cpu, Value = 1\<rparr>)], Ports = [], Image = []\<rparr>], InitContainers = [],
     Overhead = None, Affinity = None, claims = [], Priority = Some prio, NominatedNodeName = [], SchedulerName = [], deleting = False,
     Annotations = [], Tolerations = [], podLabels = [(''app'', u)], StartTime = Some start, PreemptionPolicy = None\<rparr>"

definition ex_pre_knode :: "string \<Rightarrow> knode" where
  "ex_pre_knode nn = \<lparr>knodeName = nn, nodeLabels = [], nodeAllocatable = [(''cpu'', \<lparr>MilliValue = 3000, Value = 3\<rparr>), (''pods'', \<lparr>MilliValue = 10000, Value = 10\<rparr>)],
     nodeImages = [], specUnschedulable = False, Taints = [], nodeConditions = []\<rparr>"

definition ex_pre_node :: "string \<Rightarrow> kpod list \<Rightarrow> nodeInfo" where
  "ex_pre_node nn pods = fst (SetNode ex_pre_gates (ex_pre_knode nn) (fst (NewNodeInfo ex_pre_gates pods 0)) 5)"

definition ex_pre_pods :: "kpod list" where
  "ex_pre_pods = [ex_pre_pod ''a'' 5 1000 1, ex_pre_pod ''b'' 1 1000 2, ex_pre_pod ''c'' 2 1000 3]"

definition ex_pre_snap :: snapshot where
  "ex_pre_snap = NewEmptySnapshot\<lparr>nodeInfoMap :=
     [(''n1'', ex_pre_node ''n1'' [ex_pre_pod ''a'' 5 1000 1, ex_pre_pod ''b'' 1 1000 2, ex_pre_pod ''c'' 2 1000 3]),
      (''n2'', ex_pre_node ''n2'' [ex_pre_pod ''x'' 3 3000 4])], nodeInfoList := [''n1'', ''n2'']\<rparr>"

definition ex_pre :: "(unit, string list) preemption" where
  "ex_pre = plain_preemption (default_verdict ex_pre_gates) default_filters ex_pre_gates ex_pre_snap [ex_pre_pod ''new'' 4 1000 0] []"

lemma ex_run: "(case PostFilter ex_pre (ex_pre_pod ''new'' 4 1000 0) [] 10 () (\<lambda>_. None) [] of Ret ((Some nn, st), gen, wps, w) \<Rightarrow> nn = ''n1'' \<and> w = [''b''] | _ \<Rightarrow> False)"
  by code_simp

lemma NewNodeInfo_accounts:
  "accounts g (fst (NewNodeInfo g pods gen)) \<and> Pods (fst (NewNodeInfo g pods gen)) = pods"
proof -
  have step: "accounts g (fst (foldl (\<lambda>(ni, gen) pod. AddPodInfo g pod ni gen) z pods)) \<and>
      Pods (fst (foldl (\<lambda>(ni, gen) pod. AddPodInfo g pod ni gen) z pods)) = Pods (fst z) @ pods" if "accounts g (fst z)" for z
    using that
  proof (induction pods arbitrary: z)
    case (Cons p pods)
    obtain n gen where z: "z = (n, gen)" by (rule prod.exhaust)
    obtain n' gen' where a: "AddPodInfo g p n gen = (n', gen')" by (rule prod.exhaust)
    have "accounts g n'" "Pods n' = Pods n @ [p]" using accounts_Add [OF _ a] AddPodInfo_fields(1) [OF a] Cons.prems z by auto
    then show ?case using Cons.IH [of "(n', gen')"] z a by simp
  qed simp
  show ?thesis
    unfolding NewNodeInfo_def Let_def
    by (rule conjI; subst step) (auto simp: accounts_def zero_resource_def parts_def scalar_def wrap64_def)
qed

lemma accounts_set_node: "accounts g (n\<lparr>node := nd, Allocatable := r, Generation := k\<rparr>) = accounts g n"
  by (simp add: accounts_def)

lemma ex_pre_node_props [simp]:
  "accounts ex_pre_gates (ex_pre_node nn pods)" "Pods (ex_pre_node nn pods) = pods" "node (ex_pre_node nn pods) = Some (ex_pre_knode nn)"
  using NewNodeInfo_accounts [of ex_pre_gates pods 0] by (simp_all add: ex_pre_node_def SetNode_def Let_def accounts_set_node)

lemma ex_pre_pod_simps [simp]:
  "UID (ex_pre_pod u p r t) = u" "PodPriority (ex_pre_pod u p r t) = p" "kName (ex_pre_pod u p r t) = u" "kNamespace (ex_pre_pod u p r t) = ''d''"
  by (simp_all add: ex_pre_pod_def PodPriority_def)

lemma ex_pre_pod_eq [simp]: "ex_pre_pod u p r t = ex_pre_pod u' p' r' t' \<longleftrightarrow> u = u' \<and> p = p' \<and> r = r' \<and> t = t'"
  by (auto simp: ex_pre_pod_def)

lemma ex_snap_list:
  "snap_List ex_pre_snap = [ex_pre_node ''n1'' [ex_pre_pod ''a'' 5 1000 1, ex_pre_pod ''b'' 1 1000 2, ex_pre_pod ''c'' 2 1000 3],
     ex_pre_node ''n2'' [ex_pre_pod ''x'' 3 3000 4]]"
  by (simp add: snap_List_def read_list_def ex_pre_snap_def List.map_filter_simps NewEmptySnapshot_def)

lemma ex_pre_laws:
  "filterPlugins (fh ex_pre) = verdict_plugins (default_verdict ex_pre_gates) default_filters"
  "mset (sortSlice ex_pre lt xs) = mset xs" "set (visitKeys ex_pre ks) = set ks" "fwGates (fh ex_pre) = ex_pre_gates"
  "0 \<le> MinCandidateNodesAbsolute ex_pre" "pExtenders ex_pre = []" "SnapshotSharedLister ex_pre = ex_pre_snap"
  by (simp_all add: ex_pre_def sort_by_mset)

section \<open>Witnesses\<close>

theorem preemption_sound_witness:
  "\<exists>gen' wps' st ni'. PostFilter ex_pre (ex_pre_pod ''new'' 4 1000 0) [] 10 () (\<lambda>_. None) [] = Ret ((Some ''n1'', st), gen', wps', [''b'']) \<and>
     IsSuccess st \<and> fits (default_verdict ex_pre_gates) default_filters (ex_pre_pod ''new'' 4 1000 0) ni' \<and> node ni' = Some (ex_pre_knode ''n1'') \<and>
     mset (Pods ni') = {#ex_pre_pod ''a'' 5 1000 1, ex_pre_pod ''c'' 2 1000 3#}"
proof -
  let ?new = "ex_pre_pod ''new'' 4 1000 0" and ?w = "\<lambda>w :: string list. w"
  have l: "int (length (snap_List (SnapshotSharedLister ex_pre))) \<le> MaxInt32" by (simp add: ex_pre_laws ex_snap_list MaxInt32_def)
  have s: "\<forall>ni\<in>set (snap_List (SnapshotSharedLister ex_pre)). sound_node (fwGates (fh ex_pre)) ni"
    by (auto simp: ex_pre_laws ex_snap_list sound_node_def named_pods_def int32_def MaxInt32_def)
  have lg: "logs_deletions ?w ex_pre" unfolding ex_pre_def by (rule plain_logs)
  obtain r st gen' wps' w' where h: "PostFilter ex_pre ?new [] 10 () (\<lambda>_. None) [] = Ret ((r, st), gen', wps', w')"
    "r = None \<and> \<not> IsSuccess st \<and> w' = [] \<and> wps' = (\<lambda>_. None) \<or> (\<exists>pod' ni nd vs ev. podLister ex_pre [] (kNamespace ?new) (kName ?new) = Inr pod' \<and>
       ni \<in> set (snap_List (SnapshotSharedLister ex_pre)) \<and> node ni = Some nd \<and> vs \<noteq> [] \<and> mset vs \<subseteq># mset (Pods ni) \<and>
       (\<forall>v\<in>set vs. PodPriority v < PodPriority pod') \<and>
       (\<exists>ni'. node ni' = node ni \<and> accounts (fwGates (fh ex_pre)) ni' \<and> fits (default_verdict ex_pre_gates) default_filters pod' ni' \<and>
          mset (Pods ni') = mset (Pods ni) - mset vs) \<and>
       evicts ?w vs ev (\<lambda>_. None) [] wps' w' \<and> r = (if ev = vs then Some (knodeName nd) else None) \<and> (IsSuccess st \<longleftrightarrow> ev = vs))"
    using preemption_sound [OF ex_pre_laws(1) lg ex_pre_laws(2,3) s ex_pre_laws(5) l ex_pre_laws(6), of ?new "[]" 10 "()" "\<lambda>_. None" "[]"]
    by (elim exE conjE) (rule that)
  have r: "r = Some ''n1''" "w' = [''b'']" using ex_run h(1) by (auto split: option.splits)
  have lst: "podLister ex_pre [] ''d'' ''new'' = Inr ?new" by (simp add: ex_pre_def plain_preemption_def)
  obtain ni nd vs ev ni' where n: "ni \<in> set (snap_List ex_pre_snap)" "node ni = Some nd" "mset vs \<subseteq># mset (Pods ni)"
      "node ni' = node ni" "fits (default_verdict ex_pre_gates) default_filters ?new ni'" "mset (Pods ni') = mset (Pods ni) - mset vs"
      "evicts ?w vs ev (\<lambda>_. None) [] wps' w'" "r = (if ev = vs then Some (knodeName nd) else None)" "IsSuccess st \<longleftrightarrow> ev = vs"
    using h(2) lst r(1) unfolding ex_pre_laws(7) ex_pre_pod_simps by auto
  have e: "ev = vs" "knodeName nd = ''n1''" using n(8) r(1) by (auto split: if_splits)
  have ni: "ni = ex_pre_node ''n1'' ex_pre_pods" using n(1,2) e(2) by (auto simp: ex_snap_list ex_pre_knode_def ex_pre_pods_def)
  have "map UID vs = [''b'']" using n(7) unfolding evicts_def e(1) r(2) by simp
  moreover have "set vs \<subseteq> set ex_pre_pods" using n(3) ni by (metis ex_pre_node_props(2) set_mset_mono set_mset_mset)
  ultimately have "vs = [ex_pre_pod ''b'' 1 1000 2]" by (auto simp: ex_pre_pods_def)
  then have "mset (Pods ni') = {#ex_pre_pod ''a'' 5 1000 1, ex_pre_pod ''c'' 2 1000 3#}" using n(6) ni by (simp add: ex_pre_pods_def)
  moreover have "node ni' = Some (ex_pre_knode ''n1'')" using n(4) ni by simp
  ultimately show ?thesis using h(1) n(5,9) e(1) unfolding r by blast
qed

text \<open>The victims of the first node: with room for one more pod, only the least important one goes.\<close>

lemma ex_select: "(case selectVictimsOnNode ex_pre (ex_pre_pod ''new'' 4 1000 0) (ex_pre_node ''n1'' ex_pre_pods) [] 10 ((), []) of
    Ret ((vs, n, st), z) \<Rightarrow> vs = [ex_pre_pod ''b'' 1 1000 2] \<and> IsSuccess st | _ \<Rightarrow> False)"
  by code_simp

theorem victims_make_room_witness:
  "\<exists>st z n ni1 z1. selectVictimsOnNode ex_pre (ex_pre_pod ''new'' 4 1000 0) (ex_pre_node ''n1'' ex_pre_pods) [] 10 ((), []) = Ret (([ex_pre_pod ''b'' 1 1000 2], n, st), z) \<and> IsSuccess st \<and>
     remove_lower (fh ex_pre) (ex_pre_pod ''new'' 4 1000 0) 3 0 ex_pre_pods [] (ex_pre_node ''n1'' ex_pre_pods) 10 ((), []) =
       Ret (Inr [ex_pre_pod ''b'' 1 1000 2, ex_pre_pod ''c'' 2 1000 3], ni1, z1) \<and> mset (Pods ni1) = {#ex_pre_pod ''a'' 5 1000 1#} \<and>
     (\<exists>ni'. mset (Pods ni') = {#ex_pre_pod ''a'' 5 1000 1, ex_pre_pod ''c'' 2 1000 3#} \<and>
        fits (default_verdict ex_pre_gates) default_filters (ex_pre_pod ''new'' 4 1000 0) ni')"
proof -
  let ?new = "ex_pre_pod ''new'' 4 1000 0" and ?n1 = "ex_pre_node ''n1'' ex_pre_pods"
  have nm: "named_pods (Pods ?n1)" "int (length (Pods ?n1)) < 2 ^ 63"
    by (simp_all add: ex_pre_pods_def named_pods_def)
  have a: "accounts (fwGates (fh ex_pre)) ?n1" by (simp add: ex_pre_laws)
  obtain vs n st z taken ni1 z1 where h: "selectVictimsOnNode ex_pre ?new ?n1 [] 10 ((), []) = Ret ((vs, n, st), z)"
      "remove_lower (fh ex_pre) ?new (length (Pods ?n1)) 0 (Pods ?n1) [] ?n1 10 ((), []) = Ret (taken, ni1, z1)"
      "case taken of Inl e \<Rightarrow> vs = [] \<and> \<not> IsSuccess st | Inr pot \<Rightarrow> pot = filter (\<lambda>p. PodPriority p < PodPriority ?new) (Pods ?n1) \<and>
         mset (Pods ni1) = mset (filter (\<lambda>p. \<not> PodPriority p < PodPriority ?new) (Pods ?n1))"
      "IsSuccess st \<longrightarrow> mset vs \<subseteq># mset (Pods ?n1) \<and> (\<forall>v\<in>set vs. PodPriority v < PodPriority ?new) \<and>
         (\<exists>ni'. node ni' = node ?n1 \<and> accounts (fwGates (fh ex_pre)) ni' \<and> mset (Pods ni') = mset (Pods ?n1) - mset vs \<and>
         fits (default_verdict ex_pre_gates) default_filters ?new ni')"
    using victims_make_room [OF ex_pre_laws(1,2) a nm(1) ex_pre_node_props(3) nm(2), of ?new "[]" 10 "((), [])"]
    by (elim exE conjE) (rule that)
  have v: "vs = [ex_pre_pod ''b'' 1 1000 2]" "IsSuccess st" using ex_select h(1) by auto
  have "mset (Pods ?n1) - mset vs = {#ex_pre_pod ''a'' 5 1000 1, ex_pre_pod ''c'' 2 1000 3#}"
    unfolding v(1) by (simp add: ex_pre_pods_def)
  then obtain ni' where ni': "mset (Pods ni') = {#ex_pre_pod ''a'' 5 1000 1, ex_pre_pod ''c'' 2 1000 3#}"
      "fits (default_verdict ex_pre_gates) default_filters ?new ni'" using mp [OF h(4) v(2)] by metis
  have t: "taken = Inr [ex_pre_pod ''b'' 1 1000 2, ex_pre_pod ''c'' 2 1000 3]" "mset (Pods ni1) = {#ex_pre_pod ''a'' 5 1000 1#}"
    using h(3) v(2) by (auto simp: ex_pre_pods_def split: sum.splits)
  have "length (Pods ?n1) = 3" "Pods ?n1 = ex_pre_pods" by (simp_all add: ex_pre_pods_def)
  then show ?thesis using h(1,2) v ni' t by metis
qed

text \<open>A filter that wants at most two pods on a node.\<close>

definition two_pods :: "string \<Rightarrow> kpod \<Rightarrow> nodeInfo \<Rightarrow> statusp" where
  "two_pods n pod ni = (if length (Pods ni) < 3 then None else NewStatus Unschedulable [''Too many pods''])"

definition ex_two :: "(unit, string list) preemption" where
  "ex_two = plain_preemption two_pods [''two''] ex_pre_gates ex_pre_snap [] []"

lemma ex_two_select: "(case selectVictimsOnNode ex_two (ex_pre_pod ''new'' 4 1000 0) (ex_pre_node ''n1'' ex_pre_pods) [] 10 ((), []) of
    Ret ((vs, n, st), z) \<Rightarrow> vs = [ex_pre_pod ''b'' 1 1000 2] \<and> IsSuccess st | _ \<Rightarrow> False)"
  by code_simp

theorem victims_needed_witness:
  "\<not> fits two_pods [''two''] (ex_pre_pod ''new'' 4 1000 0) (ex_pre_node ''n1'' ex_pre_pods)"
proof -
  have nm: "named_pods (Pods (ex_pre_node ''n1'' ex_pre_pods))" "int (length (Pods (ex_pre_node ''n1'' ex_pre_pods))) < 2 ^ 63"
    by (simp_all add: ex_pre_pods_def named_pods_def)
  obtain n st z where h: "selectVictimsOnNode ex_two (ex_pre_pod ''new'' 4 1000 0) (ex_pre_node ''n1'' ex_pre_pods) [] 10 ((), []) =
      Ret (([ex_pre_pod ''b'' 1 1000 2], n, st), z)" "IsSuccess st"
    using ex_two_select by (auto split: go.splits)
  have anti: "fits two_pods [''two''] p a" if "mset (Pods a) \<subseteq># mset (Pods b)" "fits two_pods [''two''] p b" for p a b
    using that size_mset_mono [OF that(1)] by (auto simp: fits_def two_pods_def IsSuccess_def Code_def NewStatus_def split: if_splits)
  show ?thesis
    by (rule victims_needed [OF _ _ _ nm(1) _ nm(2) _ _ h, where V = two_pods and names = "[''two'']" and v = "ex_pre_pod ''b'' 1 1000 2"])
      (use anti in \<open>auto simp: ex_two_def sort_by_mset ex_pre_pods_def\<close>)
qed

definition ex_pdb :: pdb where
  "ex_pdb = \<lparr>pdbNamespace = ''d'', pdbSelector = Some \<lparr>MatchLabels = [], MatchExpressions = [\<lparr>seKey = ''app'', seOperator = ''In'', seValues = [''a'', ''b'']\<rparr>]\<rparr>,
     DisruptionsAllowed = 1, DisruptedPods = []\<rparr>"

lemma ex_pdb_split: "filterPodsWithPDBViolation [ex_pre_pod ''a'' 2 1 0, ex_pre_pod ''b'' 1 1 0, ex_pre_pod ''x'' 0 1 0] [ex_pdb] =
    ([ex_pre_pod ''b'' 1 1 0], [ex_pre_pod ''a'' 2 1 0, ex_pre_pod ''x'' 0 1 0])"
  by code_simp

theorem budgets_respected_witness:
  "over_budget [ex_pdb] [ex_pre_pod ''a'' 2 1 0] (ex_pre_pod ''b'' 1 1 0) \<and>
   int (length (filter (charged ex_pdb) [ex_pre_pod ''a'' 2 1 0, ex_pre_pod ''x'' 0 1 0])) \<le> 1"
proof -
  have d: "distinct [ex_pre_pod ''a'' 2 1 0, ex_pre_pod ''b'' 1 1 0, ex_pre_pod ''x'' 0 1 0]" by simp
  have b: "b \<in> set [ex_pdb] \<Longrightarrow> DisruptionsAllowed b \<le> 2147483647 \<and>
      -2147483648 + int (length [ex_pre_pod ''a'' 2 1 0, ex_pre_pod ''b'' 1 1 0, ex_pre_pod ''x'' 0 1 0]) < DisruptionsAllowed b" for b
    by (simp add: ex_pdb_def)
  note t = budgets_respected [OF d ex_pdb_split b]
  have split: "[ex_pre_pod ''a'' 2 1 0, ex_pre_pod ''b'' 1 1 0, ex_pre_pod ''x'' 0 1 0] = [ex_pre_pod ''a'' 2 1 0] @ ex_pre_pod ''b'' 1 1 0 # [ex_pre_pod ''x'' 0 1 0]" by simp
  have "over_budget [ex_pdb] [ex_pre_pod ''a'' 2 1 0] (ex_pre_pod ''b'' 1 1 0)"
    using conjunct1 [OF t, rule_format, OF _ split] by simp
  moreover have "max 0 (DisruptionsAllowed ex_pdb) = 1" by (simp add: ex_pdb_def)
  then have "int (length (filter (charged ex_pdb) [ex_pre_pod ''a'' 2 1 0, ex_pre_pod ''x'' 0 1 0])) \<le> 1"
    using conjunct2 [OF conjunct2 [OF t]] by (metis list.set_intros(1))
  ultimately show ?thesis by blast
qed

definition ex_choices :: "(string \<times> victims) list" where
  "ex_choices = [(''n1'', \<lparr>vPods = [ex_pre_pod ''a'' 2 1 5, ex_pre_pod ''b'' 1 1 0], NumPDBViolations = 0\<rparr>),
     (''n2'', \<lparr>vPods = [ex_pre_pod ''x'' 2 1 7, ex_pre_pod ''y'' 1 1 0], NumPDBViolations = 0\<rparr>)]"

lemma ex_choice: "pickOneNodeForPreemption 0 [''n1'', ''n2''] ex_choices = Ret ''n2''"
  by code_simp

theorem pick_is_best_witness:
  "pickOneNodeForPreemption 0 [''n1'', ''n2''] ex_choices = Ret ''n2'' \<and>
   pick_key 0 (snd (ex_choices ! 1)) \<le> pick_key 0 (snd (ex_choices ! 0))"
proof -
  have "ex_choices \<noteq> []" "set [''n1'', ''n2''] = fst ` set ex_choices" by (simp_all add: ex_choices_def)
  moreover have "usual_victims v" if "(n, v) \<in> set ex_choices" for n v
    using that by (auto simp: ex_choices_def usual_victims_def int32_def MaxInt32_def)
  ultimately obtain n v where h: "pickOneNodeForPreemption 0 [''n1'', ''n2''] ex_choices = Ret n" "map_of ex_choices n = Some v"
      "\<forall>n' v'. map_of ex_choices n' = Some v' \<longrightarrow> pick_key 0 v \<le> pick_key 0 v'"
    using pick_is_best [of ex_choices "[''n1'', ''n2'']" 0] by blast
  have "n = ''n2''" using h(1) ex_choice by simp
  then have "v = snd (ex_choices ! 1)" using h(2) by (simp add: ex_choices_def)
  moreover have "map_of ex_choices ''n1'' = Some (snd (ex_choices ! 0))" by (simp add: ex_choices_def)
  ultimately show ?thesis using h(3) ex_choice by blast
qed

text \<open>
  The first victim need not be the most important one: the victims that violate a budget come before the
  others, so the second criterion of the choice can compare a priority that is not the highest.
\<close>

lemma first_victim_not_highest:
  "(case selectVictimsOnNode ex_pre (ex_pre_pod ''new'' 4 2000 0) (ex_pre_node ''n1'' ex_pre_pods) [ex_pdb\<lparr>DisruptionsAllowed := 0\<rparr>] 10 ((), []) of
      Ret ((vs, n, st), z) \<Rightarrow> map PodPriority vs = [1, 2] \<and> n = 1 \<and> IsSuccess st | _ \<Rightarrow> False)"
  by code_simp

end
