(* ===== verification/Node_Score.thy ===== *)
theory Node_Score
  imports Node_Fit Sched_Snapshot Label_Selector Go_Float
begin

text \<open>
  The plugins that score nodes: by free or used resources (\<open>noderesources/least_allocated.go\<close>,
  \<open>most_allocated.go\<close>, \<open>requested_to_capacity_ratio.go\<close>, \<open>resource_allocation.go\<close> and the score part of
  \<open>fit.go\<close>), by images (\<open>imagelocality\<close>) and by taints (\<open>tainttoleration\<close>), with the checks of their
  arguments (\<open>apis/config/validation/validation_pluginargs.go\<close>). The snapshot is the one the
  framework hands to the plugins. Maps of resources are given by their entries; that the order of a
  visit does not matter is proved in \<open>Node_Score_Lib\<close>.
\<close>

section \<open>Requests\<close>

definition GetNonzeroRequestForResource :: "gates \<Rightarrow> string \<Rightarrow> resourceList \<Rightarrow> int" where
  "GetNonzeroRequestForResource g resource requests =
     (if resource = ''cpu'' then case map_of requests ''cpu'' of None \<Rightarrow> 100 | Some q \<Rightarrow> MilliValue q
      else if resource = ''memory'' then case map_of requests ''memory'' of None \<Rightarrow> 200 * 1024 * 1024 | Some q \<Rightarrow> Value q
      else if resource = ''ephemeral-storage'' then
        (if \<not> LocalStorage g then 0 else case map_of requests ''ephemeral-storage'' of None \<Rightarrow> 0 | Some q \<Rightarrow> Value q)
      else case map_of requests resource of None \<Rightarrow> 0 | Some q \<Rightarrow> Value q)"

definition calculatePodResourceRequest :: "gates \<Rightarrow> kpod \<Rightarrow> string \<Rightarrow> bool \<Rightarrow> int" where
  "calculatePodResourceRequest g pod resource enablePodOverhead =
     (let sum = foldl (\<lambda>podRequest c. wrap64 (podRequest + GetNonzeroRequestForResource g resource (Requests c))) 0 (Containers pod);
          podRequest = foldl (\<lambda>podRequest c. let v = GetNonzeroRequestForResource g resource (Requests c)
                         in if podRequest < v then v else podRequest) sum (InitContainers pod)
      in case Overhead pod of None \<Rightarrow> podRequest
         | Some ov \<Rightarrow> (if enablePodOverhead
             then case map_of ov resource of None \<Rightarrow> podRequest | Some q \<Rightarrow> wrap64 (podRequest + Value q)
             else podRequest))"

text \<open>The allocatable amount and the requested one.\<close>

definition calculateResourceAllocatableRequest :: "gates \<Rightarrow> nodeInfo \<Rightarrow> kpod \<Rightarrow> string \<Rightarrow> bool \<Rightarrow> int \<times> int" where
  "calculateResourceAllocatableRequest g ni pod resource enablePodOverhead =
     (let podRequest = calculatePodResourceRequest g pod resource enablePodOverhead
      in if podRequest = 0 \<and> IsScalarResourceName g resource then (0, 0)
         else if resource = ''cpu'' then (MilliCPU (Allocatable ni), wrap64 (MilliCPU (NonZeroRequested ni) + podRequest))
         else if resource = ''memory'' then (Memory (Allocatable ni), wrap64 (Memory (NonZeroRequested ni) + podRequest))
         else if resource = ''ephemeral-storage'' then
           (EphemeralStorage (Allocatable ni), wrap64 (EphemeralStorage (Requested ni) + podRequest))
         else case map_of (ScalarResources (Allocatable ni)) resource of None \<Rightarrow> (0, 0)
              | Some v \<Rightarrow> (v, wrap64 (scalar (Requested ni) resource + podRequest)))"

section \<open>The scorer of resources\<close>

type_synonym valueMap = "(string \<times> int) list"

definition value_at :: "valueMap \<Rightarrow> string \<Rightarrow> int" where
  "value_at m k = (case map_of m k of None \<Rightarrow> 0 | Some v \<Rightarrow> v)"

record resourceAllocationScorer =
  raName :: string
  scorer :: "valueMap \<Rightarrow> valueMap \<Rightarrow> int go"
  resourceToWeight :: "valueMap option"
  enableOverhead :: bool

definition ra_entries :: "gates \<Rightarrow> bool \<Rightarrow> valueMap \<Rightarrow> kpod \<Rightarrow> nodeInfo \<Rightarrow> (string \<times> int \<times> int) list" where
  "ra_entries g ov ws pod ni = filter (\<lambda>(resource, alloc, req). alloc \<noteq> 0)
     (map (\<lambda>(resource, weight). (resource, calculateResourceAllocatableRequest g ni pod resource ov)) ws)"

definition ra_score :: "gates \<Rightarrow> resourceAllocationScorer \<Rightarrow> kpod \<Rightarrow> nodeInfo \<Rightarrow> (int \<times> statusp) go" where
  "ra_score g r pod ni = (case node ni of None \<Rightarrow> Ret (0, NewStatus ErrorCode [''node not found''])
     | Some nd \<Rightarrow> (case resourceToWeight r of None \<Rightarrow> Ret (0, NewStatus ErrorCode [''resources not found''])
         | Some ws \<Rightarrow>
             (let entries = ra_entries g (enableOverhead r) ws pod ni;
                  allocatable = map (\<lambda>(resource, alloc, req). (resource, alloc)) entries;
                  requested = map (\<lambda>(resource, alloc, req). (resource, req)) entries
              in go_bind (scorer r requested allocatable) (\<lambda>score. Ret (score, None)))))"

section \<open>Free resources\<close>

definition leastRequestedScore :: "int \<Rightarrow> int \<Rightarrow> int" where
  "leastRequestedScore requested capacity = (if capacity = 0 then 0 else if requested > capacity then 0
     else wrap64 (go_div (wrap64 (wrap64 (capacity - requested) * MaxNodeScore)) capacity))"

text \<open>Resources of positive weight count for the node, the others against it.\<close>

record leastSums =
  nodeScorePos :: int
  nodeScoreNeg :: int
  weightSumPos :: int
  weightSumNeg :: int

definition least_step :: "valueMap \<Rightarrow> valueMap \<Rightarrow> valueMap \<Rightarrow> leastSums \<Rightarrow> string \<Rightarrow> leastSums" where
  "least_step ws requested allocable a resource =
     (let weight = value_at ws resource;
          resourceScore = leastRequestedScore (value_at requested resource) (value_at allocable resource)
      in if weight > 0
         then a\<lparr>nodeScorePos := wrap64 (nodeScorePos a + wrap64 (resourceScore * weight)), weightSumPos := wrap64 (weightSumPos a + weight)\<rparr>
         else a\<lparr>nodeScoreNeg := wrap64 (nodeScoreNeg a - wrap64 (resourceScore * weight)), weightSumNeg := wrap64 (weightSumNeg a - weight)\<rparr>)"

definition leastResourceScorer :: "valueMap \<Rightarrow> valueMap \<Rightarrow> valueMap \<Rightarrow> int" where
  "leastResourceScorer ws requested allocable =
     (let a = foldl (least_step ws requested allocable)
                \<lparr>nodeScorePos = 0, nodeScoreNeg = 0, weightSumPos = 0, weightSumNeg = 0\<rparr> (map fst requested);
          positiveScore = (if weightSumPos a = 0 then 0 else wrap64 (go_div (nodeScorePos a) (weightSumPos a)));
          negativeScore = (if weightSumNeg a = 0 then 0 else wrap64 (go_div (nodeScoreNeg a) (weightSumNeg a)))
      in wrap64 (positiveScore - negativeScore))"

section \<open>Used resources\<close>

definition mostRequestedScore :: "int \<Rightarrow> int \<Rightarrow> int" where
  "mostRequestedScore requested capacity = (if capacity = 0 then 0
     else let requested' = (if requested > capacity then capacity else requested)
          in wrap64 (go_div (wrap64 (requested' * MaxNodeScore)) capacity))"

definition most_step :: "valueMap \<Rightarrow> valueMap \<Rightarrow> valueMap \<Rightarrow> int \<times> int \<Rightarrow> string \<Rightarrow> int \<times> int" where
  "most_step ws requested allocable = (\<lambda>(nodeScore, weightSum) resource.
     let weight = value_at ws resource;
         resourceScore = mostRequestedScore (value_at requested resource) (value_at allocable resource)
     in (wrap64 (nodeScore + wrap64 (resourceScore * weight)), wrap64 (weightSum + weight)))"

definition mostResourceScorer :: "valueMap \<Rightarrow> valueMap \<Rightarrow> valueMap \<Rightarrow> int" where
  "mostResourceScorer ws requested allocable =
     (case foldl (most_step ws requested allocable) (0, 0) (map fst requested) of (nodeScore, weightSum) \<Rightarrow>
       if weightSum = 0 then 0 else wrap64 (go_div nodeScore weightSum))"

section \<open>A function of the utilisation\<close>

record functionShapePoint =
  Utilization :: int
  ptScore :: int

definition linear :: "functionShapePoint \<Rightarrow> functionShapePoint \<Rightarrow> int \<Rightarrow> int go" where
  "linear prev pt p = (let d = wrap64 (Utilization pt - Utilization prev)
     in if d = 0 then Panic IntegerDivideByZero
        else Ret (wrap64 (ptScore prev +
          wrap64 (go_div (wrap64 (wrap64 (ptScore pt - ptScore prev) * wrap64 (p - Utilization prev))) d))))"

text \<open>The loop from the second point on, with the point before; after the last point its score is returned.\<close>

fun segments :: "functionShapePoint \<Rightarrow> functionShapePoint list \<Rightarrow> int \<Rightarrow> int go" where
  "segments prev [] p = Ret (ptScore prev)"
| "segments prev (pt # pts) p = (if p \<le> Utilization pt then linear prev pt p else segments pt pts p)"

fun BuildBrokenLinearFunction :: "functionShapePoint list \<Rightarrow> int \<Rightarrow> int go" where
  "BuildBrokenLinearFunction [] p = Panic IndexOutOfRange"
| "BuildBrokenLinearFunction (pt # pts) p = (if p \<le> Utilization pt then Ret (ptScore pt) else segments pt pts p)"

definition maxUtilization :: int where "maxUtilization = 100"

definition resourceScoringFunction :: "functionShapePoint list \<Rightarrow> int \<Rightarrow> int \<Rightarrow> int go" where
  "resourceScoringFunction shape requested capacity =
     (if capacity = 0 \<or> requested > capacity then BuildBrokenLinearFunction shape maxUtilization
      else BuildBrokenLinearFunction shape (wrap64 (go_div (wrap64 (requested * maxUtilization)) capacity)))"

fun ratio_loop :: "functionShapePoint list \<Rightarrow> valueMap \<Rightarrow> valueMap \<Rightarrow> valueMap \<Rightarrow> string list \<Rightarrow> int \<times> int \<Rightarrow> (int \<times> int) go" where
  "ratio_loop shape ws requested allocable [] acc = Ret acc"
| "ratio_loop shape ws requested allocable (resource # rs) (nodeScore, weightSum) =
     go_bind (resourceScoringFunction shape (value_at requested resource) (value_at allocable resource)) (\<lambda>resourceScore.
       let weight = value_at ws resource
       in ratio_loop shape ws requested allocable rs
            (if resourceScore > 0 then (wrap64 (nodeScore + wrap64 (resourceScore * weight)), wrap64 (weightSum + weight))
             else (nodeScore, weightSum)))"

text \<open>\<open>math.Round\<close> rounds half away from zero.\<close>

fun math_Round :: "flt \<Rightarrow> flt" where
  "math_Round (Fin a) = Fin (sgn a * of_int \<lfloor>\<bar>a\<bar> + 1 / 2\<rfloor>)"
| "math_Round x = x"

definition buildRequestedToCapacityRatioScorerFunction :: "functionShapePoint list \<Rightarrow> valueMap \<Rightarrow> valueMap \<Rightarrow> valueMap \<Rightarrow> int go" where
  "buildRequestedToCapacityRatioScorerFunction shape ws requested allocable =
     go_bind (ratio_loop shape ws requested allocable (map fst requested) (0, 0)) (\<lambda>(nodeScore, weightSum).
       Ret (if weightSum = 0 then 0
            else int_of_f64 (math_Round (f64_div (f64_of_int nodeScore) (f64_of_int weightSum)))))"

definition MaxCustomPriorityScore :: int where "MaxCustomPriorityScore = 10"

definition requestedToCapacityRatioScorer :: "valueMap \<Rightarrow> functionShapePoint list \<Rightarrow> valueMap \<Rightarrow> valueMap \<Rightarrow> int go" where
  "requestedToCapacityRatioScorer ws shape = buildRequestedToCapacityRatioScorerFunction
     (map (\<lambda>point. point\<lparr>ptScore := ptScore point * go_div MaxNodeScore MaxCustomPriorityScore\<rparr>) shape) ws"

section \<open>Arguments and their validation\<close>

record resourceSpec =
  rsName :: string
  rsWeight :: int

definition resourcesToWeightMap :: "resourceSpec list \<Rightarrow> valueMap" where
  "resourcesToWeightMap resources = foldl (\<lambda>m r. AList.update (rsName r) (rsWeight r) m) [] resources"

text \<open>
  The errors of validation by the field and the message. A bad label name counts once, whatever is wrong
  with it, and its message is left out.
\<close>

datatype arg_error = Required string string | Invalid string string | BadLabelName string

definition field_index :: "string \<Rightarrow> nat \<Rightarrow> string" where
  "field_index p i = p @ ''['' @ itoa (int i) @ '']''"

definition validateResources :: "resourceSpec list \<Rightarrow> string \<Rightarrow> arg_error list" where
  "validateResources resources p = concat (map (\<lambda>(i, r).
     if rsWeight r < -100 \<or> rsWeight r > 100
     then [Invalid (field_index p i @ ''.weight'') (''resource weight of '' @ rsName r @ '' not in valid range (0, 100]'')]
     else []) (enumerate 0 resources))"

definition validateResourcesNoMax :: "resourceSpec list \<Rightarrow> string \<Rightarrow> arg_error list" where
  "validateResourcesNoMax resources p = concat (map (\<lambda>(i, r).
     if rsWeight r < 1
     then [Invalid (field_index p i @ ''.weight'') (''resource weight of '' @ rsName r @ '' not in valid range [1, inf)'')]
     else []) (enumerate 0 resources))"

fun first_unsorted :: "functionShapePoint list \<Rightarrow> nat \<Rightarrow> nat option" where
  "first_unsorted (a # b # pts) i = (if Utilization a \<ge> Utilization b then Some i else first_unsorted (b # pts) (i + 1))"
| "first_unsorted _ i = None"

definition point_errors :: "string \<Rightarrow> nat \<times> functionShapePoint \<Rightarrow> arg_error list" where
  "point_errors p = (\<lambda>(i, point).
     (if Utilization point < 0 \<or> Utilization point > 100
      then [Invalid (field_index p i @ ''.utilization'') ''not in valid range [0, 100]''] else []) @
     (if ptScore point < 0 \<or> ptScore point > MaxCustomPriorityScore
      then [Invalid (field_index p i @ ''.score'') ''not in valid range [0, 10]''] else []))"

definition validateFunctionShape :: "functionShapePoint list \<Rightarrow> string \<Rightarrow> arg_error list" where
  "validateFunctionShape shape p = (if shape = [] then [Required p ''at least one point must be specified'']
     else (case first_unsorted shape 1 of None \<Rightarrow> []
           | Some i \<Rightarrow> [Invalid (field_index p i @ ''.utilization'') ''utilization values must be sorted in increasing order'']) @
          concat (map (point_errors p) (enumerate 0 shape)))"

record scoringStrategy =
  stType :: string
  stResources :: "resourceSpec list"
  stRequestedToCapacityRatio :: "functionShapePoint list option"

record nodeResourcesFitArgs =
  IgnoredResources :: "string list"
  IgnoredResourceGroups :: "string list"
  ScoringStrategy :: "scoringStrategy option"

definition ValidateNodeResourcesFitArgs :: "nodeResourcesFitArgs \<Rightarrow> arg_error list" where
  "ValidateNodeResourcesFitArgs args =
     concat (map (\<lambda>(i, res). if IsQualifiedName res then [] else [BadLabelName (field_index ''ignoredResources'' i)])
       (enumerate 0 (IgnoredResources args))) @
     concat (map (\<lambda>(i, group). (if CHR ''/'' \<in> set group
           then [Invalid (field_index ''ignoredResourceGroups'' i) (''resource group name can't contain '/'' @ [CHR 0x27])] else []) @
         (if IsQualifiedName group then [] else [BadLabelName (field_index ''ignoredResourceGroups'' i)]))
       (enumerate 0 (IgnoredResourceGroups args))) @
     (case ScoringStrategy args of None \<Rightarrow> []
      | Some s \<Rightarrow> validateResources (stResources s) ''resources'' @
          (case stRequestedToCapacityRatio s of None \<Rightarrow> []
           | Some shape \<Rightarrow> if shape \<noteq> [] then validateFunctionShape shape ''shape'' else []))"

section \<open>The plugins of resources\<close>

text \<open>A constructor fails with the errors of validation or with a message. \<open>None\<close> stands for arguments of another type.\<close>

datatype new_error = Validation "arg_error list" | Errorf string

definition LeastAllocatedName :: string where "LeastAllocatedName = ''NodeResourcesLeastAllocated''"
definition MostAllocatedName :: string where "MostAllocatedName = ''NodeResourcesMostAllocated''"
definition RequestedToCapacityRatioName :: string where "RequestedToCapacityRatioName = ''RequestedToCapacityRatio''"
definition FitName :: string where "FitName = ''NodeResourcesFit''"

definition NewLeastAllocated :: "bool \<Rightarrow> resourceSpec list option \<Rightarrow> new_error + resourceAllocationScorer" where
  "NewLeastAllocated enablePodOverhead laArgs = (case laArgs of
       None \<Rightarrow> Inl (Errorf ''want args to be of type NodeResourcesLeastAllocatedArgs'')
     | Some resources \<Rightarrow> (let errs = validateResources resources ''resources''; ws = resourcesToWeightMap resources
         in if errs \<noteq> [] then Inl (Validation errs)
            else Inr \<lparr>raName = LeastAllocatedName, scorer = (\<lambda>req al. Ret (leastResourceScorer ws req al)),
                       resourceToWeight = Some ws, enableOverhead = enablePodOverhead\<rparr>))"

definition NewMostAllocated :: "bool \<Rightarrow> resourceSpec list option \<Rightarrow> new_error + resourceAllocationScorer" where
  "NewMostAllocated enablePodOverhead maArgs = (case maArgs of
       None \<Rightarrow> Inl (Errorf ''want args to be of type NodeResourcesMostAllocatedArgs'')
     | Some resources \<Rightarrow> (let errs = validateResources resources ''resources''; ws = resourcesToWeightMap resources
         in if errs \<noteq> [] then Inl (Validation errs)
            else Inr \<lparr>raName = MostAllocatedName, scorer = (\<lambda>req al. Ret (mostResourceScorer ws req al)),
                       resourceToWeight = Some ws, enableOverhead = enablePodOverhead\<rparr>))"

definition NewRequestedToCapacityRatio :: "bool \<Rightarrow> (functionShapePoint list \<times> resourceSpec list) option \<Rightarrow> new_error + resourceAllocationScorer" where
  "NewRequestedToCapacityRatio enablePodOverhead plArgs = (case plArgs of
       None \<Rightarrow> Inl (Errorf ''want args to be of type RequestedToCapacityRatioArgs'')
     | Some (shape, resources) \<Rightarrow>
         (let errs = validateFunctionShape shape ''shape'' @ validateResourcesNoMax resources ''resources'';
              ws = resourcesToWeightMap resources
          in if errs \<noteq> [] then Inl (Validation errs)
             else Inr \<lparr>raName = RequestedToCapacityRatioName, scorer = requestedToCapacityRatioScorer ws shape,
                        resourceToWeight = Some ws, enableOverhead = enablePodOverhead\<rparr>))"

text \<open>
  The scorer of the plugin \<open>Fit\<close> by its strategy. The field that asks for the overhead of pods is not
  set. The shape is read through a pointer that may be nil.
\<close>

definition nodeResourceStrategyTypeMap :: "string \<Rightarrow> (scoringStrategy \<Rightarrow> resourceAllocationScorer go) option" where
  "nodeResourceStrategyTypeMap t =
     (if t = ''LeastAllocated'' then Some (\<lambda>s. let ws = resourcesToWeightMap (stResources s) in
        Ret \<lparr>raName = LeastAllocatedName, scorer = (\<lambda>req al. Ret (leastResourceScorer ws req al)), resourceToWeight = Some ws, enableOverhead = False\<rparr>)
      else if t = ''MostAllocated'' then Some (\<lambda>s. let ws = resourcesToWeightMap (stResources s) in
        Ret \<lparr>raName = MostAllocatedName, scorer = (\<lambda>req al. Ret (mostResourceScorer ws req al)), resourceToWeight = Some ws, enableOverhead = False\<rparr>)
      else if t = ''RequestedToCapacityRatio'' then Some (\<lambda>s. let ws = resourcesToWeightMap (stResources s) in
        case stRequestedToCapacityRatio s of None \<Rightarrow> Panic NilDereference
        | Some shape \<Rightarrow> Ret \<lparr>raName = RequestedToCapacityRatioName, scorer = requestedToCapacityRatioScorer ws shape,
                             resourceToWeight = Some ws, enableOverhead = False\<rparr>)
      else None)"

record fitScorePlugin = fitPlugin +
  fitScorer :: resourceAllocationScorer

definition NewFit :: "nodeResourcesFitArgs option \<Rightarrow> (new_error + fitScorePlugin) go" where
  "NewFit plArgs = (case plArgs of None \<Rightarrow> Ret (Inl (Errorf ''want args to be of type NodeResourcesFitArgs''))
     | Some args \<Rightarrow>
         (let errs = ValidateNodeResourcesFitArgs args
          in if errs \<noteq> [] then Ret (Inl (Validation errs))
             else case ScoringStrategy args of None \<Rightarrow> Ret (Inl (Errorf ''scoring strategy not specified''))
             | Some s \<Rightarrow> (case nodeResourceStrategyTypeMap (stType s) of
                 None \<Rightarrow> Ret (Inl (Errorf (''scoring strategy '' @ stType s @ '' is not supported'')))
               | Some scorePlugin \<Rightarrow> go_bind (scorePlugin s) (\<lambda>r.
                   Ret (Inr \<lparr>ignoredResources = IgnoredResources args, ignoredResourceGroups = IgnoredResourceGroups args, fitScorer = r\<rparr>)))))"

text \<open>\<open>Score\<close> of the four plugins: the node is looked up in the snapshot.\<close>

definition from_snapshot :: "snapshot \<Rightarrow> string \<Rightarrow> (nodeInfo \<Rightarrow> (int \<times> statusp) go) \<Rightarrow> (int \<times> statusp) go" where
  "from_snapshot snap nodeName f = (case snap_Get snap nodeName of
       Inl e \<Rightarrow> Ret (0, AsStatus (''getting node '' @ quoted_name nodeName @ '' from Snapshot: '' @ e))
     | Inr ni \<Rightarrow> f ni)"

definition resource_Score :: "gates \<Rightarrow> snapshot \<Rightarrow> resourceAllocationScorer \<Rightarrow> kpod \<Rightarrow> string \<Rightarrow> (int \<times> statusp) go" where
  "resource_Score g snap r pod nodeName = from_snapshot snap nodeName (ra_score g r pod)"

definition Fit_NormalizeScore :: "nodeScore list \<Rightarrow> nodeScore list" where
  "Fit_NormalizeScore scores =
     (let highest = foldl (\<lambda>h s. if nsScore s > h then nsScore s else h) (- (2 ^ 63 - 1)) scores;
          lowest = foldl (\<lambda>l s. if nsScore s < l then nsScore s else l) (2 ^ 63 - 1) scores;
          oldRange = wrap64 (highest - lowest);
          newRange = MaxNodeScore - MinNodeScore
      in map (\<lambda>s. s\<lparr>nsScore := (if oldRange = 0 then MinNodeScore
            else wrap64 (go_div (wrap64 (wrap64 (nsScore s - lowest) * newRange)) oldRange + MinNodeScore))\<rparr>) scores)"

text \<open>
  A plugin as the framework sees it. The framework calls plugins that return; what a plugin that panics
  does to the process is no value of its model. \<open>ScoreExtensions\<close> is nil for the plugins of resources.
\<close>

definition score_effect :: "(int \<times> statusp) go \<Rightarrow> 's \<times> 'w \<Rightarrow> (int \<times> statusp) \<times> 's \<times> 'w" where
  "score_effect r sw = (case r of Ret x \<Rightarrow> (x, sw))"

definition resource_plugin :: "gates \<Rightarrow> snapshot \<Rightarrow> string \<Rightarrow> resourceAllocationScorer \<Rightarrow> ('s, 'w) scorePlugin" where
  "resource_plugin g snap name r =
     \<lparr>spName = name, spScore = (\<lambda>pod nn. score_effect (resource_Score g snap r pod nn)), spExtensions = None\<rparr>"

definition Fit_plugin :: "gates \<Rightarrow> snapshot \<Rightarrow> fitScorePlugin \<Rightarrow> ('s, 'w) scorePlugin" where
  "Fit_plugin g snap f = resource_plugin g snap FitName (fitScorer f)"

section \<open>Images\<close>

text \<open>The product of two floats; infinite operands occur only where the number of nodes is zero.\<close>

fun f64_mul :: "flt \<Rightarrow> flt \<Rightarrow> flt" where
  "f64_mul (Fin a) (Fin b) = Fin (fl 53 (a * b))"
| "f64_mul (Fin a) PosInf = (if a = 0 then NaN else if 0 < a then PosInf else NegInf)"
| "f64_mul (Fin a) NegInf = (if a = 0 then NaN else if 0 < a then NegInf else PosInf)"
| "f64_mul PosInf (Fin b) = (if b = 0 then NaN else if 0 < b then PosInf else NegInf)"
| "f64_mul NegInf (Fin b) = (if b = 0 then NaN else if 0 < b then NegInf else PosInf)"
| "f64_mul PosInf PosInf = PosInf"
| "f64_mul NegInf NegInf = PosInf"
| "f64_mul PosInf NegInf = NegInf"
| "f64_mul NegInf PosInf = NegInf"
| "f64_mul _ _ = NaN"

definition mb :: int where "mb = 1024 * 1024"
definition minThreshold :: int where "minThreshold = 23 * mb"
definition maxContainerThreshold :: int where "maxContainerThreshold = 1000 * mb"

text \<open>\<open>strings.LastIndex\<close> for a text of one character.\<close>

definition LastIndex :: "string \<Rightarrow> char \<Rightarrow> int" where
  "LastIndex s c = (if c \<in> set s then int (length s) - 1 - int (length (takeWhile (\<lambda>x. x \<noteq> c) (rev s))) else - 1)"

definition normalizedImageName :: "string \<Rightarrow> string" where
  "normalizedImageName name = (if LastIndex name (CHR '':'') \<le> LastIndex name (CHR ''/'') then name @ '':latest'' else name)"

definition scaledImageScore :: "int \<times> nat \<Rightarrow> nat \<Rightarrow> int" where
  "scaledImageScore = (\<lambda>(imageSize, numNodes) totalNumNodes.
     let spread = f64_div (f64_of_int (int numNodes)) (f64_of_int (int totalNumNodes))
     in int_of_f64 (f64_mul (f64_of_int imageSize) spread))"

definition sumImageScores :: "nodeInfo \<Rightarrow> kcontainer list \<Rightarrow> nat \<Rightarrow> int" where
  "sumImageScores ni containers totalNumNodes = foldl (\<lambda>sum container.
     case map_of (ImageStates ni) (normalizedImageName (Image container)) of None \<Rightarrow> sum
     | Some state \<Rightarrow> wrap64 (sum + scaledImageScore state totalNumNodes)) 0 containers"

definition calculatePriority :: "int \<Rightarrow> nat \<Rightarrow> int go" where
  "calculatePriority sumScores numContainers =
     (let maxThreshold = wrap64 (maxContainerThreshold * int numContainers);
          sumScores' = (if sumScores < minThreshold then minThreshold else if sumScores > maxThreshold then maxThreshold else sumScores);
          d = wrap64 (maxThreshold - minThreshold)
      in if d = 0 then Panic IntegerDivideByZero
         else Ret (wrap64 (go_div (wrap64 (MaxNodeScore * wrap64 (sumScores' - minThreshold))) d)))"

definition ImageLocality_Score :: "snapshot \<Rightarrow> kpod \<Rightarrow> string \<Rightarrow> (int \<times> statusp) go" where
  "ImageLocality_Score snap pod nodeName = from_snapshot snap nodeName (\<lambda>ni.
     go_bind (calculatePriority (sumImageScores ni (Containers pod) (length (snap_List snap))) (length (Containers pod)))
       (\<lambda>score. Ret (score, None)))"

definition ImageLocality_plugin :: "snapshot \<Rightarrow> ('s, 'w) scorePlugin" where
  "ImageLocality_plugin snap = \<lparr>spName = ''ImageLocality'', spScore = (\<lambda>pod nn. score_effect (ImageLocality_Score snap pod nn)), spExtensions = None\<rparr>"

section \<open>Taints\<close>

definition DefaultNormalizeScore :: "int \<Rightarrow> bool \<Rightarrow> nodeScore list \<Rightarrow> nodeScore list" where
  "DefaultNormalizeScore maxPriority reverse scores =
     (let maxCount = foldl (\<lambda>m s. if nsScore s > m then nsScore s else m) 0 scores
      in if maxCount = 0 then (if reverse then map (\<lambda>s. s\<lparr>nsScore := maxPriority\<rparr>) scores else scores)
         else map (\<lambda>s. let score = wrap64 (go_div (wrap64 (maxPriority * nsScore s)) maxCount)
                       in s\<lparr>nsScore := (if reverse then wrap64 (maxPriority - score) else score)\<rparr>) scores)"

definition TaintToleration_PreScore :: "kpod \<Rightarrow> string list \<Rightarrow> toleration list option \<Rightarrow> statusp \<times> toleration list option" where
  "TaintToleration_PreScore pod nds state = (if nds = [] then (None, state)
     else (None, Some (getAllTolerationPreferNoSchedule (Tolerations pod))))"

definition TaintToleration_Score :: "snapshot \<Rightarrow> toleration list option \<Rightarrow> kpod \<Rightarrow> string \<Rightarrow> (int \<times> statusp) go" where
  "TaintToleration_Score snap state pod nodeName = from_snapshot snap nodeName (\<lambda>ni.
     case state of
       None \<Rightarrow> Ret (0, AsStatus (''failed to read '' @ quoted_name ''PreScoreTaintToleration'' @ '' from cycleState: not found''))
     | Some tolerations \<Rightarrow> (case node ni of None \<Rightarrow> Panic NilDereference
         | Some nd \<Rightarrow> Ret (countIntolerableTaintsPreferNoSchedule (Taints nd) tolerations, None)))"

definition TaintToleration_NormalizeScore :: "nodeScore list \<Rightarrow> nodeScore list" where
  "TaintToleration_NormalizeScore scores = DefaultNormalizeScore MaxNodeScore True scores"

text \<open>\<open>rd\<close> reads the plugin's entry of the cycle state.\<close>

definition TaintToleration_plugin :: "('s \<Rightarrow> toleration list option) \<Rightarrow> snapshot \<Rightarrow> ('s, 'w) scorePlugin" where
  "TaintToleration_plugin rd snap =
     \<lparr>spName = ''TaintToleration'',
      spScore = (\<lambda>pod nn sw. score_effect (TaintToleration_Score snap (rd (fst sw)) pod nn) sw),
      spExtensions = Some (\<lambda>pod scores sw. ((TaintToleration_NormalizeScore scores, None), sw))\<rparr>"

end
