(* ===== verification/Node_Score_Lib.thy ===== *)
theory Node_Score_Lib
  imports Node_Score Node_Info_Props
begin

text \<open>
  What the scoring plugins compute: the scores of single resources, weighted means and their bounds (a
  locale that every resource score interprets), functions of the utilisation, and amounts in range.
\<close>

section \<open>Sums modulo 64 bits\<close>

lemma wrap64_add_wrap64 [wrap_simps]: "wrap64 (x + wrap64 y) = wrap64 (x + y)"
  using wrap64_wrap64_add [of y x] by (simp add: add.commute)

lemma wrap64_diff_wrap64 [wrap_simps]: "wrap64 (x - wrap64 y) = wrap64 (x - y)"
proof -
  have "((x - y) + 2 ^ 63 - (wrap64 y - y)) mod 2 ^ 64 = ((x - y) + 2 ^ 63) mod 2 ^ 64"
  proof -
    have "2 ^ 64 dvd (wrap64 y - y)"
      by (simp add: wrap64_def mod_eq_dvd_iff [symmetric] mod_diff_left_eq algebra_simps)
    then show ?thesis by (simp add: mod_eq_dvd_iff dvd_diff_commute)
  qed
  then show ?thesis by (simp add: wrap64_def algebra_simps)
qed

section \<open>Scores of one resource\<close>

text \<open>Amounts below \<open>2^56\<close> keep a hundredfold within 64 bits.\<close>

definition in_range :: "int \<Rightarrow> bool" where
  "in_range x \<longleftrightarrow> 0 \<le> x \<and> x \<le> 2 ^ 56"

lemma percent_of:
  fixes a c :: int
  assumes "0 \<le> a" "a \<le> c" "0 < c"
  shows "0 \<le> a * 100 div c" "a * 100 div c \<le> 100"
proof -
  show "0 \<le> a * 100 div c" using assms by (simp add: pos_imp_zdiv_nonneg_iff)
  have "a * 100 div c \<le> c * 100 div c" using assms by (intro zdiv_mono1) auto
  then show "a * 100 div c \<le> 100" using assms by simp
qed

lemma go_div_percent:
  assumes "0 \<le> a" "a \<le> c" "0 < c" "c \<le> 2 ^ 56"
  shows "wrap64 (go_div (wrap64 (a * 100)) c) = a * 100 div c"
  using assms percent_of [OF assms(1-3)] by (simp add: wrap64_range go_div_nonneg)

lemma leastRequestedScore_exact:
  assumes "0 \<le> r" "in_range c"
  shows "leastRequestedScore r c = (if c = 0 \<or> r > c then 0 else (c - r) * 100 div c)"
proof (cases "c = 0 \<or> r > c")
  case False
  then have "wrap64 (c - r) = c - r" using assms by (simp add: in_range_def wrap64_range)
  then show ?thesis
    using False assms go_div_percent [of "c - r" c] by (simp add: leastRequestedScore_def MaxNodeScore_def in_range_def)
qed (auto simp: leastRequestedScore_def)

lemma mostRequestedScore_exact:
  assumes "0 \<le> r" "in_range c"
  shows "mostRequestedScore r c = (if c = 0 then 0 else min r c * 100 div c)"
proof (cases "c = 0")
  case False
  then show ?thesis
    using assms go_div_percent [of "min r c" c]
    by (simp add: mostRequestedScore_def MaxNodeScore_def in_range_def Let_def) (simp add: min_def split: if_splits)
qed (simp add: mostRequestedScore_def)

section \<open>Weighted means\<close>

text \<open>The laws of a score of one resource that the scorers rely on.\<close>

locale resource_score =
  fixes score :: "int \<Rightarrow> int \<Rightarrow> int"
  assumes score_range: "0 \<le> r \<Longrightarrow> in_range c \<Longrightarrow> 0 \<le> score r c \<and> score r c \<le> 100"
begin

lemma weighted_sum:
  assumes "\<forall>k\<in>set ks. 0 \<le> w k \<and> 0 \<le> r k \<and> in_range (c k)"
  shows "0 \<le> (\<Sum>k\<leftarrow>ks. score (r k) (c k) * w k) \<and> (\<Sum>k\<leftarrow>ks. score (r k) (c k) * w k) \<le> 100 * (\<Sum>k\<leftarrow>ks. w k) \<and>
    0 \<le> (\<Sum>k\<leftarrow>ks. w k)"
  using assms
proof (induction ks)
  case (Cons k ks)
  have "0 \<le> score (r k) (c k)" "score (r k) (c k) \<le> 100" "0 \<le> w k"
    using score_range [of "r k" "c k"] Cons.prems by auto
  then have "0 \<le> score (r k) (c k) * w k" "score (r k) (c k) * w k \<le> 100 * w k"
    by (simp_all add: mult_right_mono)
  then show ?case using Cons \<open>0 \<le> w k\<close> by auto
qed simp_all

lemma mean_range:
  assumes ok: "\<forall>k\<in>set ks. 0 \<le> w k \<and> 0 \<le> r k \<and> in_range (c k)" and small: "(\<Sum>k\<leftarrow>ks. w k) \<le> 2 ^ 56"
  shows "wrap64 (\<Sum>k\<leftarrow>ks. w k) = (\<Sum>k\<leftarrow>ks. w k)"
    "wrap64 (\<Sum>k\<leftarrow>ks. score (r k) (c k) * w k) = (\<Sum>k\<leftarrow>ks. score (r k) (c k) * w k)"
    "(\<Sum>k\<leftarrow>ks. w k) \<noteq> 0 \<Longrightarrow> wrap64 (go_div (\<Sum>k\<leftarrow>ks. score (r k) (c k) * w k) (\<Sum>k\<leftarrow>ks. w k)) =
       (\<Sum>k\<leftarrow>ks. score (r k) (c k) * w k) div (\<Sum>k\<leftarrow>ks. w k)"
    "0 \<le> (\<Sum>k\<leftarrow>ks. score (r k) (c k) * w k) div (\<Sum>k\<leftarrow>ks. w k)"
    "(\<Sum>k\<leftarrow>ks. score (r k) (c k) * w k) div (\<Sum>k\<leftarrow>ks. w k) \<le> 100"
proof -
  define W where "W = (\<Sum>k\<leftarrow>ks. w k)"
  define S where "S = (\<Sum>k\<leftarrow>ks. score (r k) (c k) * w k)"
  note b = weighted_sum [OF ok, folded W_def S_def] small [folded W_def]
  show "wrap64 (\<Sum>k\<leftarrow>ks. w k) = (\<Sum>k\<leftarrow>ks. w k)" "wrap64 (\<Sum>k\<leftarrow>ks. score (r k) (c k) * w k) = (\<Sum>k\<leftarrow>ks. score (r k) (c k) * w k)"
    using b by (simp_all add: wrap64_range flip: W_def S_def)
  have d: "0 \<le> S div W" "S div W \<le> 100"
  proof -
    show "0 \<le> S div W" using b by (cases "W = 0") (simp_all add: pos_imp_zdiv_nonneg_iff)
    have "S div W \<le> 100 * W div W" if "W \<noteq> 0" using b that by (intro zdiv_mono1) auto
    then show "S div W \<le> 100" by (cases "W = 0") auto
  qed
  then show "0 \<le> (\<Sum>k\<leftarrow>ks. score (r k) (c k) * w k) div (\<Sum>k\<leftarrow>ks. w k)"
    "(\<Sum>k\<leftarrow>ks. score (r k) (c k) * w k) div (\<Sum>k\<leftarrow>ks. w k) \<le> 100" by (simp_all flip: W_def S_def)
  show "wrap64 (go_div (\<Sum>k\<leftarrow>ks. score (r k) (c k) * w k) (\<Sum>k\<leftarrow>ks. w k)) =
       (\<Sum>k\<leftarrow>ks. score (r k) (c k) * w k) div (\<Sum>k\<leftarrow>ks. w k)" if "(\<Sum>k\<leftarrow>ks. w k) \<noteq> 0"
    using b d that by (simp add: go_div_nonneg wrap64_range flip: W_def S_def)
qed

end

interpretation least: resource_score leastRequestedScore
proof
  fix r c :: int assume "0 \<le> r" "in_range c"
  then show "0 \<le> leastRequestedScore r c \<and> leastRequestedScore r c \<le> 100"
    using percent_of [of "c - r" c] by (simp add: leastRequestedScore_exact in_range_def del: left_diff_distrib_numeral)
qed

interpretation most: resource_score mostRequestedScore
  by unfold_locales (auto simp: mostRequestedScore_exact in_range_def percent_of)


section \<open>The scorers in closed form\<close>

definition weighted_mean :: "(int \<times> int) list \<Rightarrow> int" where
  "weighted_mean ps = (\<Sum>(w, s)\<leftarrow>ps. s * w) div (\<Sum>(w, s)\<leftarrow>ps. w)"

lemma least_fold:
  fixes ws req al :: valueMap
  assumes "int64 (nodeScorePos a)" "int64 (nodeScoreNeg a)" "int64 (weightSumPos a)" "int64 (weightSumNeg a)"
  defines "s \<equiv> \<lambda>k. leastRequestedScore (value_at req k) (value_at al k)"
  shows "foldl (least_step ws req al) a ks =
    a\<lparr>nodeScorePos := wrap64 (nodeScorePos a + (\<Sum>k\<leftarrow>ks. s k * max 0 (value_at ws k))),
      nodeScoreNeg := wrap64 (nodeScoreNeg a + (\<Sum>k\<leftarrow>ks. s k * max 0 (- value_at ws k))),
      weightSumPos := wrap64 (weightSumPos a + (\<Sum>k\<leftarrow>ks. max 0 (value_at ws k))),
      weightSumNeg := wrap64 (weightSumNeg a + (\<Sum>k\<leftarrow>ks. max 0 (- value_at ws k)))\<rparr>"
  using assms(1-4)
proof (induction ks arbitrary: a)
  case Nil
  then show ?case by (simp add: wrap_simps)
next
  case (Cons k ks)
  have "foldl (least_step ws req al) a (k # ks) = foldl (least_step ws req al) (least_step ws req al a k) ks" by simp
  also have "\<dots> = (least_step ws req al a k)\<lparr>
      nodeScorePos := wrap64 (nodeScorePos (least_step ws req al a k) + (\<Sum>k\<leftarrow>ks. s k * max 0 (value_at ws k))),
      nodeScoreNeg := wrap64 (nodeScoreNeg (least_step ws req al a k) + (\<Sum>k\<leftarrow>ks. s k * max 0 (- value_at ws k))),
      weightSumPos := wrap64 (weightSumPos (least_step ws req al a k) + (\<Sum>k\<leftarrow>ks. max 0 (value_at ws k))),
      weightSumNeg := wrap64 (weightSumNeg (least_step ws req al a k) + (\<Sum>k\<leftarrow>ks. max 0 (- value_at ws k)))\<rparr>"
    using Cons.prems by (intro Cons.IH) (auto simp: least_step_def Let_def)
  also have "\<dots> = a\<lparr>nodeScorePos := wrap64 (nodeScorePos a + (\<Sum>k\<leftarrow>k # ks. s k * max 0 (value_at ws k))),
      nodeScoreNeg := wrap64 (nodeScoreNeg a + (\<Sum>k\<leftarrow>k # ks. s k * max 0 (- value_at ws k))),
      weightSumPos := wrap64 (weightSumPos a + (\<Sum>k\<leftarrow>k # ks. max 0 (value_at ws k))),
      weightSumNeg := wrap64 (weightSumNeg a + (\<Sum>k\<leftarrow>k # ks. max 0 (- value_at ws k)))\<rparr>"
    by (simp add: least_step_def Let_def wrap_simps max_def s_def algebra_simps)
  finally show ?case .
qed

lemma most_fold:
  assumes "int64 a" "int64 b"
  shows "foldl (most_step ws req al) (a, b) ks =
    (wrap64 (a + (\<Sum>k\<leftarrow>ks. mostRequestedScore (value_at req k) (value_at al k) * value_at ws k)),
     wrap64 (b + (\<Sum>k\<leftarrow>ks. value_at ws k)))"
  using assms
proof (induction ks arbitrary: a b)
  case (Cons k ks)
  then show ?case by (simp add: most_step_def Let_def wrap_simps add.assoc)
qed (simp add: wrap_simps)

text \<open>What \<open>leastResourceScorer\<close> computes: the mean over the positive weights less the mean over the negative ones.\<close>

lemma sum_weights_bound:
  assumes "\<forall>k\<in>set ks. w k \<le> (100 :: int)" "length ks \<le> 2 ^ 32"
  shows "(\<Sum>k\<leftarrow>ks. w k) \<le> 2 ^ 56"
proof -
  have "(\<Sum>k\<leftarrow>ks. w k) \<le> 100 * int (length ks)" using assms(1) by (induction ks) auto
  also have "\<dots> \<le> 100 * 2 ^ 32" using assms(2) by (simp add: nat_le_iff flip: of_nat_le_iff)
  finally show ?thesis by simp
qed

lemma leastResourceScorer_mean:
  fixes ws req al :: valueMap
  assumes ok: "\<forall>k\<in>fst ` set req. 0 \<le> value_at req k \<and> in_range (value_at al k) \<and> \<bar>value_at ws k\<bar> \<le> 100"
    and len: "length req \<le> 2 ^ 32"
  defines "s \<equiv> \<lambda>k. leastRequestedScore (value_at req k) (value_at al k)"
  defines "pos \<equiv> weighted_mean (map (\<lambda>k. (max 0 (value_at ws k), s k)) (map fst req))"
  defines "neg \<equiv> weighted_mean (map (\<lambda>k. (max 0 (- value_at ws k), s k)) (map fst req))"
  shows "leastResourceScorer ws req al = pos - neg" "0 \<le> pos" "pos \<le> 100" "0 \<le> neg" "neg \<le> 100"
proof -
  let ?ks = "map fst req"
  have P: "\<forall>k\<in>set ?ks. 0 \<le> max 0 (value_at ws k) \<and> 0 \<le> value_at req k \<and> in_range (value_at al k)"
    and N: "\<forall>k\<in>set ?ks. 0 \<le> max 0 (- value_at ws k) \<and> 0 \<le> value_at req k \<and> in_range (value_at al k)" using ok by auto
  have p: "(\<Sum>k\<leftarrow>?ks. max 0 (value_at ws k)) \<le> 2 ^ 56" and n: "(\<Sum>k\<leftarrow>?ks. max 0 (- value_at ws k)) \<le> 2 ^ 56"
    using ok len by (intro sum_weights_bound; force)+
  have pos: "pos = (\<Sum>k\<leftarrow>?ks. s k * max 0 (value_at ws k)) div (\<Sum>k\<leftarrow>?ks. max 0 (value_at ws k))"
    and neg: "neg = (\<Sum>k\<leftarrow>?ks. s k * max 0 (- value_at ws k)) div (\<Sum>k\<leftarrow>?ks. max 0 (- value_at ws k))"
    unfolding pos_def neg_def weighted_mean_def map_map by (simp_all add: comp_def)
  note mp = least.mean_range [OF P p] and mn = least.mean_range [OF N n]
  have b: "0 \<le> pos \<and> pos \<le> 100 \<and> 0 \<le> neg \<and> neg \<le> 100" unfolding pos neg s_def using mp(4,5) mn(4,5) by blast
  then show "0 \<le> pos" "pos \<le> 100" "0 \<le> neg" "neg \<le> 100" by simp_all
  define z where "z = \<lparr>nodeScorePos = 0, nodeScoreNeg = 0, weightSumPos = 0, weightSumNeg = 0\<rparr>"
  have f: "foldl (least_step ws req al) z ?ks = \<lparr>nodeScorePos = A, nodeScoreNeg = B, weightSumPos = C, weightSumNeg = D\<rparr>"
    if "A = (\<Sum>k\<leftarrow>?ks. s k * max 0 (value_at ws k))" "B = (\<Sum>k\<leftarrow>?ks. s k * max 0 (- value_at ws k))"
      "C = (\<Sum>k\<leftarrow>?ks. max 0 (value_at ws k))" "D = (\<Sum>k\<leftarrow>?ks. max 0 (- value_at ws k))" for A B C D
    using least_fold [of z ws req al ?ks] mp(1,2) mn(1,2) by (simp add: that s_def z_def int64_def del: map_map)
  let ?A = "\<Sum>k\<leftarrow>?ks. leastRequestedScore (value_at req k) (value_at al k) * max 0 (value_at ws k)"
    and ?B = "\<Sum>k\<leftarrow>?ks. leastRequestedScore (value_at req k) (value_at al k) * max 0 (- value_at ws k)"
    and ?C = "\<Sum>k\<leftarrow>?ks. max 0 (value_at ws k)" and ?D = "\<Sum>k\<leftarrow>?ks. max 0 (- value_at ws k)"
  have q: "(if ?C = 0 then 0 else wrap64 (go_div ?A ?C)) = ?A div ?C" "(if ?D = 0 then 0 else wrap64 (go_div ?B ?D)) = ?B div ?D"
    using mp(3) mn(3) by (simp_all del: map_map)
  show "leastResourceScorer ws req al = pos - neg"
    unfolding leastResourceScorer_def Let_def z_def [symmetric] f [OF refl refl refl refl] leastSums.select_convs s_def q
    using b unfolding pos neg s_def by (intro wrap64_range) auto
qed

section \<open>Amounts in range\<close>

text \<open>Quantities of pods up to \<open>2^48\<close>, at most 64 containers, and totals of nodes up to \<open>2^56\<close>.\<close>

definition requests_ok :: "resourceList \<Rightarrow> bool" where
  "requests_ok = list_all (\<lambda>(k, q). 0 \<le> MilliValue q \<and> MilliValue q \<le> 2 ^ 48 \<and> 0 \<le> Value q \<and> Value q \<le> 2 ^ 48)"

definition pod_in_range :: "kpod \<Rightarrow> bool" where
  "pod_in_range pod \<longleftrightarrow> length (Containers pod) \<le> 64 \<and> list_all (\<lambda>c. requests_ok (Requests c)) (Containers pod) \<and>
     list_all (\<lambda>c. requests_ok (Requests c)) (InitContainers pod) \<and> (case Overhead pod of None \<Rightarrow> True | Some ov \<Rightarrow> requests_ok ov)"

definition resource_in_range :: "resource \<Rightarrow> bool" where
  "resource_in_range r \<longleftrightarrow> in_range (MilliCPU r) \<and> in_range (Memory r) \<and> in_range (EphemeralStorage r) \<and>
     list_all (\<lambda>(k, v). in_range v) (ScalarResources r)"

definition node_in_range :: "nodeInfo \<Rightarrow> bool" where
  "node_in_range ni \<longleftrightarrow> resource_in_range (Allocatable ni) \<and> resource_in_range (Requested ni) \<and> resource_in_range (NonZeroRequested ni)"

lemma requests_ok_get: "requests_ok rl \<Longrightarrow> map_of rl k = Some q \<Longrightarrow>
    0 \<le> MilliValue q \<and> MilliValue q \<le> 2 ^ 48 \<and> 0 \<le> Value q \<and> Value q \<le> 2 ^ 48"
  by (force simp: requests_ok_def list_all_iff dest: map_of_SomeD)

lemma GetNonzero_range:
  assumes "requests_ok rl"
  shows "0 \<le> GetNonzeroRequestForResource g k rl \<and> GetNonzeroRequestForResource g k rl \<le> 2 ^ 48"
  using requests_ok_get [OF assms] by (simp add: GetNonzeroRequestForResource_def split: option.split)

lemma sum_requests:
  fixes f :: "'a \<Rightarrow> int"
  assumes "\<forall>c\<in>set cs. 0 \<le> f c \<and> f c \<le> 2 ^ 48" "0 \<le> a" "a + 2 ^ 48 * int (length cs) \<le> 2 ^ 56"
  shows "foldl (\<lambda>s c. wrap64 (s + f c)) a cs = a + (\<Sum>c\<leftarrow>cs. f c) \<and> 0 \<le> (\<Sum>c\<leftarrow>cs. f c) \<and> (\<Sum>c\<leftarrow>cs. f c) \<le> 2 ^ 48 * int (length cs)"
  using assms
proof (induction cs arbitrary: a)
  case (Cons c cs)
  then have "wrap64 (a + f c) = a + f c" by (simp add: wrap64_range)
  then show ?case using Cons.IH [of "a + f c"] Cons.prems by simp
qed simp

lemma max_requests:
  fixes f :: "'a \<Rightarrow> int"
  assumes "\<forall>c\<in>set cs. 0 \<le> f c \<and> f c \<le> B" "0 \<le> a" "a \<le> B"
  shows "0 \<le> foldl (\<lambda>s c. let v = f c in if s < v then v else s) a cs \<and> foldl (\<lambda>s c. let v = f c in if s < v then v else s) a cs \<le> B"
  using assms by (induction cs arbitrary: a) (auto simp: Let_def)

lemma podRequest_range:
  assumes "pod_in_range pod"
  shows "0 \<le> calculatePodResourceRequest g pod k ov \<and> calculatePodResourceRequest g pod k ov \<le> 2 ^ 55"
proof -
  let ?f = "\<lambda>c. GetNonzeroRequestForResource g k (Requests c)"
  have q: "0 \<le> ?f c \<and> ?f c \<le> 2 ^ 48" if "c \<in> set (Containers pod) \<union> set (InitContainers pod)" for c
    by (rule GetNonzero_range) (use assms that in \<open>auto simp: pod_in_range_def list_all_iff\<close>)
  then have c: "\<forall>c\<in>set (Containers pod). 0 \<le> ?f c \<and> ?f c \<le> 2 ^ 48" by blast
  have "(2::int) ^ 48 \<le> 2 ^ 54" by simp
  then have i: "\<forall>c\<in>set (InitContainers pod). 0 \<le> ?f c \<and> ?f c \<le> 2 ^ 54" by (meson q UnI2 order_trans)
  have n: "int (length (Containers pod)) \<le> 64" using assms by (simp add: pod_in_range_def)
  then have "0 \<le> foldl (\<lambda>s c. wrap64 (s + ?f c)) 0 (Containers pod) \<and> foldl (\<lambda>s c. wrap64 (s + ?f c)) 0 (Containers pod) \<le> 2 ^ 54"
    using sum_requests [OF c, of 0] by simp
  then have m: "0 \<le> foldl (\<lambda>s c. let v = ?f c in if s < v then v else s) (foldl (\<lambda>s c. wrap64 (s + ?f c)) 0 (Containers pod)) (InitContainers pod) \<and>
      foldl (\<lambda>s c. let v = ?f c in if s < v then v else s) (foldl (\<lambda>s c. wrap64 (s + ?f c)) 0 (Containers pod)) (InitContainers pod) \<le> 2 ^ 54"
    (is "0 \<le> ?m \<and> ?m \<le> _") using max_requests [OF i] by blast
  have o: "wrap64 (?m + Value q) = ?m + Value q \<and> 0 \<le> ?m + Value q \<and> ?m + Value q \<le> 2 ^ 55"
    if "Overhead pod = Some l" "map_of l k = Some q" for l q
    using m requests_ok_get [of l k q] assms that by (simp add: pod_in_range_def wrap64_range)
  have "calculatePodResourceRequest g pod k ov = (case Overhead pod of None \<Rightarrow> ?m
      | Some l \<Rightarrow> if ov then case map_of l k of None \<Rightarrow> ?m | Some q \<Rightarrow> wrap64 (?m + Value q) else ?m)"
    by (simp only: calculatePodResourceRequest_def Let_def)
  then show ?thesis using m o by (auto split: option.split)
qed

lemma resource_in_range_scalar: "resource_in_range r \<Longrightarrow> map_of (ScalarResources r) k = Some v \<Longrightarrow> in_range v"
  by (auto simp: resource_in_range_def list_all_iff dest: map_of_SomeD)

lemma AllocatableRequest_range:
  assumes "pod_in_range pod" "node_in_range ni" "calculateResourceAllocatableRequest g ni pod k ov = (al, rq)"
  shows "in_range al" "0 \<le> rq"
proof -
  let ?p = "calculatePodResourceRequest g pod k ov"
  have p: "0 \<le> ?p" "?p \<le> 2 ^ 55" using podRequest_range [OF assms(1)] by auto
  have w: "0 \<le> wrap64 (x + ?p)" if "in_range x" for x using that p by (simp add: in_range_def wrap64_range)
  have s: "in_range (scalar (Requested ni) k)"
    using assms(2) resource_in_range_scalar [of "Requested ni" k]
    by (auto simp: node_in_range_def scalar_def in_range_def split: option.split)
  define good where "good = (\<lambda>t :: int \<times> int. in_range (fst t) \<and> 0 \<le> snd t)"
  have if_good: "good (if b then x else y)" if "good x" "good y" for b x y using that by simp
  have pair: "good (x, wrap64 (y + ?p))" if "in_range x" "in_range y" for x y using that w by (simp add: good_def)
  have "good (0, 0)" by (simp add: good_def in_range_def)
  moreover from this have "good (case map_of (ScalarResources (Allocatable ni)) k of None \<Rightarrow> (0, 0)
      | Some v \<Rightarrow> (v, wrap64 (scalar (Requested ni) k + ?p)))"
    using s assms(2) resource_in_range_scalar [of "Allocatable ni" k] pair
    by (cases "map_of (ScalarResources (Allocatable ni)) k") (auto simp: node_in_range_def)
  ultimately have "good (calculateResourceAllocatableRequest g ni pod k ov)"
    unfolding calculateResourceAllocatableRequest_def Let_def using assms(2)
    by (intro if_good pair) (simp_all add: node_in_range_def resource_in_range_def)
  then show "in_range al" "0 \<le> rq" using assms(3) by (simp_all add: good_def)
qed


section \<open>Weights and entries\<close>

lemma value_at_cases: "value_at m k = 0 \<or> (k, value_at m k) \<in> set m"
  by (auto simp: value_at_def dest: map_of_SomeD split: option.split)

lemma value_at_in: "k \<in> fst ` set m \<Longrightarrow> (k, value_at m k) \<in> set m"
  by (force simp: value_at_def map_of_eq_None_iff dest: map_of_SomeD split: option.split)

lemma weights_from:
  "(k, w) \<in> set (foldl (\<lambda>m r. AList.update (rsName r) (rsWeight r) m) m rs) \<Longrightarrow> (k, w) \<in> set m \<or> (\<exists>r\<in>set rs. rsName r = k \<and> rsWeight r = w)"
proof (induction rs arbitrary: m)
  case (Cons r rs)
  have "(k, w) \<in> set (AList.update (rsName r) (rsWeight r) m) \<Longrightarrow> (k, w) \<in> set m \<or> rsName r = k \<and> rsWeight r = w"
    by (induction m) (auto split: if_splits)
  with Cons show ?case by fastforce
qed simp

lemma resourcesToWeightMap_from: "(k, w) \<in> set (resourcesToWeightMap rs) \<Longrightarrow> \<exists>r\<in>set rs. rsName r = k \<and> rsWeight r = w"
  unfolding resourcesToWeightMap_def by (drule weights_from) simp

lemma length_update_le: "length (AList.update k v m) \<le> Suc (length m)"
  by (induction m) auto

lemma resourcesToWeightMap_length: "length (resourcesToWeightMap rs) \<le> length rs"
proof -
  have "length (foldl (\<lambda>m r. AList.update (rsName r) (rsWeight r) m) m rs) \<le> length m + length rs" for m
  proof (induction rs arbitrary: m)
    case (Cons r rs)
    show ?case using Cons [of "AList.update (rsName r) (rsWeight r) m"] length_update_le [of "rsName r" "rsWeight r" m] by simp
  qed simp
  from this [of "[]"] show ?thesis by (simp add: resourcesToWeightMap_def)
qed

text \<open>The resources a node is scored by, with the amounts of each.\<close>

definition scored_resources :: "gates \<Rightarrow> bool \<Rightarrow> valueMap \<Rightarrow> kpod \<Rightarrow> nodeInfo \<Rightarrow> string list" where
  "scored_resources g ov ws pod ni = filter (\<lambda>k. fst (calculateResourceAllocatableRequest g ni pod k ov) \<noteq> 0) (map fst ws)"

lemma ra_maps:
  "map (\<lambda>(resource, alloc, req). (resource, alloc)) (ra_entries g ov ws pod ni) =
     map (\<lambda>k. (k, fst (calculateResourceAllocatableRequest g ni pod k ov))) (scored_resources g ov ws pod ni)"
  "map (\<lambda>(resource, alloc, req). (resource, req)) (ra_entries g ov ws pod ni) =
     map (\<lambda>k. (k, snd (calculateResourceAllocatableRequest g ni pod k ov))) (scored_resources g ov ws pod ni)"
  by (induction ws) (auto simp: ra_entries_def scored_resources_def split_def)

lemma value_at_map [simp]: "k \<in> set ks \<Longrightarrow> value_at (map (\<lambda>k. (k, f k)) ks) k = f k"
  by (induction ks) (auto simp: value_at_def)

lemma scored_in_weights: "k \<in> set (scored_resources g ov ws pod ni) \<Longrightarrow> (k, value_at ws k) \<in> set ws"
  by (rule value_at_in) (auto simp: scored_resources_def)

lemma scored_length: "length (scored_resources g ov ws pod ni) \<le> length ws"
  unfolding scored_resources_def by (rule order_trans [OF length_filter_le]) simp

lemma scored_range:
  assumes "pod_in_range pod" "node_in_range ni"
  shows "in_range (fst (calculateResourceAllocatableRequest g ni pod k ov))" "0 \<le> snd (calculateResourceAllocatableRequest g ni pod k ov)"
  using AllocatableRequest_range [OF assms] by (cases "calculateResourceAllocatableRequest g ni pod k ov"; force)+

lemma ra_score_eq:
  assumes "node ni = Some nd" "resourceToWeight r = Some ws"
  shows "ra_score g r pod ni = go_bind
    (scorer r (map (\<lambda>k. (k, snd (calculateResourceAllocatableRequest g ni pod k (enableOverhead r)))) (scored_resources g (enableOverhead r) ws pod ni))
              (map (\<lambda>k. (k, fst (calculateResourceAllocatableRequest g ni pod k (enableOverhead r)))) (scored_resources g (enableOverhead r) ws pod ni)))
    (\<lambda>score. Ret (score, None))"
  using assms by (simp add: ra_score_def Let_def ra_maps)

section \<open>Validated arguments\<close>

lemma concat_enumerate_Nil: "concat (map (\<lambda>(i, x). f i x) (enumerate n xs)) = [] \<longleftrightarrow> (\<forall>i<length xs. f (n + i) (xs ! i) = [])"
  by (induction xs arbitrary: n) (auto simp: nth_Cons less_Suc_eq_0_disj split: nat.split)

lemma validateResources_ok: "validateResources rs p = [] \<longleftrightarrow> (\<forall>r\<in>set rs. \<bar>rsWeight r\<bar> \<le> 100)"
proof -
  have "\<not> (w < -100 \<or> w > 100) \<longleftrightarrow> \<bar>w\<bar> \<le> 100" for w :: int by linarith
  then have "\<bar>w\<bar> \<le> 100 \<longleftrightarrow> (w < -100 \<longrightarrow> False) \<and> (w > 100 \<longrightarrow> False)" for w :: int by blast
  then show ?thesis unfolding validateResources_def concat_enumerate_Nil by (auto simp: all_set_conv_all_nth)
qed

lemma validateResourcesNoMax_ok: "validateResourcesNoMax rs p = [] \<longleftrightarrow> (\<forall>r\<in>set rs. 1 \<le> rsWeight r)"
  unfolding validateResourcesNoMax_def concat_enumerate_Nil by (auto simp: all_set_conv_all_nth not_less split: if_splits)

definition shape_ok :: "int \<Rightarrow> functionShapePoint list \<Rightarrow> bool" where
  "shape_ok m shape \<longleftrightarrow> shape \<noteq> [] \<and> sorted_wrt (<) (map Utilization shape) \<and>
     (\<forall>pt\<in>set shape. 0 \<le> Utilization pt \<and> Utilization pt \<le> 100 \<and> 0 \<le> ptScore pt \<and> ptScore pt \<le> m)"

lemma first_unsorted_None: "first_unsorted shape i = None \<longleftrightarrow> sorted_wrt (<) (map Utilization shape)"
proof (induction shape i rule: first_unsorted.induct)
  case (1 a b pts i)
  have "sorted_wrt (<) (map Utilization (a # b # pts)) \<longleftrightarrow> Utilization a < Utilization b \<and> sorted_wrt (<) (map Utilization (b # pts))"
    by (auto dest: order.strict_trans)
  with 1 show ?case by (simp add: not_le)
qed auto

lemma point_errors_Nil: "point_errors p (i, pt) = [] \<longleftrightarrow>
    0 \<le> Utilization pt \<and> Utilization pt \<le> 100 \<and> 0 \<le> ptScore pt \<and> ptScore pt \<le> 10"
  by (auto simp: point_errors_def MaxCustomPriorityScore_def)

lemma validateFunctionShape_ok: "validateFunctionShape shape p = [] \<longleftrightarrow> shape_ok 10 shape"
proof -
  have "concat (map (point_errors p) (enumerate 0 shape)) = [] \<longleftrightarrow> (\<forall>i<length shape. point_errors p (i, shape ! i) = [])"
    using concat_enumerate_Nil [of "\<lambda>i x. point_errors p (i, x)" 0 shape] by simp
  also have "\<dots> \<longleftrightarrow> (\<forall>pt\<in>set shape. 0 \<le> Utilization pt \<and> Utilization pt \<le> 100 \<and> 0 \<le> ptScore pt \<and> ptScore pt \<le> 10)"
    by (simp add: point_errors_Nil all_set_conv_all_nth)
  finally show ?thesis
    by (cases "first_unsorted shape 1") (simp_all add: validateFunctionShape_def shape_ok_def flip: first_unsorted_None [of shape 1])
qed

section \<open>Functions of the utilisation\<close>

lemma go_div_between:
  fixes x y d :: int
  assumes "0 < d" "0 \<le> x" "x \<le> d"
  shows "min 0 y \<le> go_div (y * x) d" "go_div (y * x) d \<le> max 0 y"
proof -
  have nn: "0 \<le> z * x div d" "z * x div d \<le> z" if "0 \<le> z" for z
  proof -
    show "0 \<le> z * x div d" using assms that by (simp add: pos_imp_zdiv_nonneg_iff)
    have "z * x div d \<le> z * d div d" using assms that by (intro zdiv_mono1 mult_left_mono) auto
    then show "z * x div d \<le> z" using assms by simp
  qed
  have "go_div (y * x) d = (if 0 \<le> y then y * x div d else - (- y * x div d))"
    using assms by (auto simp: go_div_def sgn_if abs_mult zero_less_mult_iff mult_less_0_iff)
  then show "min 0 y \<le> go_div (y * x) d" "go_div (y * x) d \<le> max 0 y"
    using nn [of y] nn [of "- y"] by auto
qed

lemma go_div_mult: "0 < d \<Longrightarrow> go_div (y * d) d = y"
  by (simp add: go_div_def sgn_mult abs_mult sgn_mult_abs)

lemma linear_between:
  assumes "Utilization a < Utilization b" "Utilization a \<le> p" "p \<le> Utilization b" "0 \<le> Utilization a" "Utilization b \<le> 100"
    "0 \<le> ptScore a" "ptScore a \<le> m" "0 \<le> ptScore b" "ptScore b \<le> m" "m \<le> 1000"
  shows "\<exists>v. linear a b p = Ret v \<and> min (ptScore a) (ptScore b) \<le> v \<and> v \<le> max (ptScore a) (ptScore b) \<and> (p = Utilization b \<longrightarrow> v = ptScore b)"
proof -
  let ?d = "Utilization b - Utilization a" and ?x = "p - Utilization a" and ?y = "ptScore b - ptScore a"
  have r: "0 < ?d" "?d \<le> 100" "0 \<le> ?x" "?x \<le> ?d" "- 1000 \<le> ?y" "?y \<le> 1000" using assms by auto
  note q = go_div_between [OF r(1,3,4), of ?y]
  have "\<bar>?y * ?x\<bar> \<le> 1000 * 100" unfolding abs_mult using r by (intro mult_mono) auto
  then have w: "wrap64 ?d = ?d" "wrap64 ?x = ?x" "wrap64 ?y = ?y" "wrap64 (?y * ?x) = ?y * ?x" "wrap64 (go_div (?y * ?x) ?d) = go_div (?y * ?x) ?d"
    "wrap64 (ptScore a + go_div (?y * ?x) ?d) = ptScore a + go_div (?y * ?x) ?d"
    using r q assms by (auto intro!: wrap64_range)
  have e: "linear a b p = Ret (ptScore a + go_div (?y * ?x) ?d)"
    using r unfolding linear_def Let_def w by simp
  have "go_div (?y * ?x) ?d = ?y" if "p = Utilization b"
    using r(1) unfolding that by (rule go_div_mult)
  with e q show ?thesis by auto
qed

lemma segments_range:
  assumes "shape_ok m (a # pts)" "m \<le> 1000" "Utilization a \<le> p"
  shows "\<exists>v. segments a pts p = Ret v \<and> 0 \<le> v \<and> v \<le> m"
  using assms
proof (induction pts arbitrary: a)
  case Nil
  then show ?case by (simp add: shape_ok_def)
next
  case (Cons b pts)
  show ?case
  proof (cases "p \<le> Utilization b")
    case True
    then show ?thesis using Cons.prems linear_between [of a b p m] by (fastforce simp: shape_ok_def)
  next
    case False
    then show ?thesis using Cons.IH [of b] Cons.prems by (auto simp: shape_ok_def)
  qed
qed

lemma BuildBrokenLinearFunction_range:
  assumes "shape_ok m shape" "m \<le> 1000"
  shows "\<exists>v. BuildBrokenLinearFunction shape p = Ret v \<and> 0 \<le> v \<and> v \<le> m"
proof (cases shape)
  case (Cons a pts)
  then show ?thesis using assms segments_range [of m a pts p] by (auto simp: shape_ok_def)
qed (use assms in \<open>simp add: shape_ok_def\<close>)

lemma segments_point:
  assumes "shape_ok m (a # pts)" "m \<le> 1000" "pt \<in> set pts"
  shows "segments a pts (Utilization pt) = Ret (ptScore pt)"
  using assms
proof (induction pts arbitrary: a)
  case (Cons b pts)
  show ?case
  proof (cases "pt = b")
    case True
    then show ?thesis using Cons.prems linear_between [of a b "Utilization b" m] by (fastforce simp: shape_ok_def)
  next
    case False
    then show ?thesis using Cons.IH [of b] Cons.prems by (auto simp: shape_ok_def)
  qed
qed simp

lemma BuildBrokenLinearFunction_point:
  assumes "shape_ok m shape" "m \<le> 1000" "pt \<in> set shape"
  shows "BuildBrokenLinearFunction shape (Utilization pt) = Ret (ptScore pt)"
proof (cases shape)
  case (Cons a pts)
  then show ?thesis using assms segments_point [of m a pts pt] by (auto simp: shape_ok_def)
qed (use assms in simp)


section \<open>The score of a ratio\<close>

lemma scale_shape: "shape_ok 10 shape \<Longrightarrow> shape_ok 100 (map (\<lambda>point. point\<lparr>ptScore := ptScore point * go_div MaxNodeScore MaxCustomPriorityScore\<rparr>) shape)"
  by (auto simp: shape_ok_def comp_def MaxNodeScore_def MaxCustomPriorityScore_def go_div_def)

lemma resourceScoringFunction_range:
  "shape_ok 100 shape \<Longrightarrow> \<exists>v. resourceScoringFunction shape r c = Ret v \<and> 0 \<le> v \<and> v \<le> 100"
  using BuildBrokenLinearFunction_range [of 100 shape] by (simp add: resourceScoringFunction_def)

lemma ratio_loop_range:
  assumes shape: "shape_ok 100 shape" and w: "\<forall>k\<in>set ks. 0 \<le> value_at ws k \<and> value_at ws k \<le> 2 ^ 32"
    and acc: "0 \<le> ns" "ns \<le> 100 * W" "0 \<le> W" "W + 2 ^ 32 * int (length ks) \<le> 2 ^ 46"
  shows "\<exists>ns' W'. ratio_loop shape ws req al ks (ns, W) = Ret (ns', W') \<and> 0 \<le> ns' \<and> ns' \<le> 100 * W' \<and> 0 \<le> W' \<and> W' \<le> 2 ^ 46"
  using w acc
proof (induction ks arbitrary: ns W)
  case (Cons k ks)
  obtain v where v: "resourceScoringFunction shape (value_at req k) (value_at al k) = Ret v" "0 \<le> v" "v \<le> 100"
    using resourceScoringFunction_range [OF shape] by blast
  define u where "u = value_at ws k"
  have u: "0 \<le> u" "u \<le> 2 ^ 32" using Cons.prems(1) by (auto simp: u_def)
  have vu: "0 \<le> v * u" "v * u \<le> 100 * u" using v u by (auto intro: mult_right_mono)
  have b: "W + u + 2 ^ 32 * int (length ks) \<le> 2 ^ 46" "W + 2 ^ 32 * int (length ks) \<le> 2 ^ 46" using Cons.prems(5) u by auto
  have "wrap64 (v * u) = v * u" "wrap64 (ns + v * u) = ns + v * u" "wrap64 (W + u) = W + u"
    using vu u b Cons.prems(2-4) by (auto intro!: wrap64_range)
  then have "ratio_loop shape ws req al (k # ks) (ns, W) =
      ratio_loop shape ws req al ks (if v > 0 then (ns + v * u, W + u) else (ns, W))"
    by (simp add: v u_def Let_def)
  then show ?case
    using Cons.IH [of "ns + v * u" "W + u"] Cons.IH [of ns W] Cons.prems b vu u by (cases "v > 0") auto
qed simp

text \<open>The quotient of the two sums is rounded twice and stays between 0 and 100.\<close>

lemma rounded_mean_range:
  assumes "0 \<le> ns" "ns \<le> 100 * W" "0 < W" "W \<le> 2 ^ 46"
  shows "0 \<le> int_of_f64 (math_Round (f64_div (f64_of_int ns) (f64_of_int W)))"
    "int_of_f64 (math_Round (f64_div (f64_of_int ns) (f64_of_int W))) \<le> 100"
proof -
  have ex: "fl 53 (of_int ns) = of_int ns" "fl 53 (of_int W) = of_int W" using assms by (auto intro!: f64.exact_int)
  let ?q = "of_int ns / of_int W :: rat"
  have "(of_int ns :: rat) \<le> of_int (100 * W)" using assms(2) by (simp only: of_int_le_iff)
  then have q: "0 \<le> ?q" "?q \<le> 100" using assms by (simp_all add: divide_le_eq)
  define x where "x = fl 53 ?q"
  have "\<bar>x - ?q\<bar> \<le> \<bar>?q\<bar> / 2 ^ 53" unfolding x_def by (rule f64.rel_error)
  moreover have "\<bar>?q\<bar> / 2 ^ 53 \<le> ?q" "\<bar>?q\<bar> / 2 ^ 53 \<le> 1 / 4" using q by simp_all
  ultimately have x: "0 \<le> x" "x \<le> 100 + 1 / 4" using q by linarith+
  then have f: "0 \<le> \<lfloor>\<bar>x\<bar> + 1 / 2\<rfloor>" "\<lfloor>\<bar>x\<bar> + 1 / 2\<rfloor> \<le> 100" by (simp_all add: floor_le_iff)
  have "f64_div (f64_of_int ns) (f64_of_int W) = Fin x" using assms by (simp add: f64_of_int_def ex x_def)
  moreover have "sgn x * of_int \<lfloor>\<bar>x\<bar> + 1 / 2\<rfloor> = of_int (if x = 0 then 0 else \<lfloor>\<bar>x\<bar> + 1 / 2\<rfloor>)" using x by (simp add: sgn_if)
  ultimately have "int_of_f64 (math_Round (f64_div (f64_of_int ns) (f64_of_int W))) = (if x = 0 then 0 else \<lfloor>\<bar>x\<bar> + 1 / 2\<rfloor>)"
    using f int_of_f64_Fin_int [of 0] by (simp only: math_Round.simps) (auto intro!: int_of_f64_Fin_int simp: int64_def)
  then show "0 \<le> int_of_f64 (math_Round (f64_div (f64_of_int ns) (f64_of_int W)))"
    "int_of_f64 (math_Round (f64_div (f64_of_int ns) (f64_of_int W))) \<le> 100" using f by simp_all
qed

lemma ratio_scorer_range:
  assumes "shape_ok 10 shape" "\<forall>k\<in>fst ` set req. 0 \<le> value_at ws k \<and> value_at ws k \<le> 2 ^ 32" "length req \<le> 2 ^ 12"
  shows "\<exists>s. requestedToCapacityRatioScorer ws shape req al = Ret s \<and> 0 \<le> s \<and> s \<le> 100"
proof -
  let ?shape = "map (\<lambda>point. point\<lparr>ptScore := ptScore point * go_div MaxNodeScore MaxCustomPriorityScore\<rparr>) shape"
  have "int (length req) \<le> 2 ^ 12" using assms(3) by simp
  then have len: "0 + 2 ^ 32 * int (length (map fst req)) \<le> (2 ^ 46 :: int)" by simp
  obtain ns W where l: "ratio_loop ?shape ws req al (map fst req) (0, 0) = Ret (ns, W)" "0 \<le> ns" "ns \<le> 100 * W" "0 \<le> W" "W \<le> 2 ^ 46"
    using ratio_loop_range [OF scale_shape [OF assms(1)], of "map fst req" ws 0 0 req al] assms(2) len by auto
  show ?thesis
    unfolding requestedToCapacityRatioScorer_def buildRequestedToCapacityRatioScorerFunction_def l(1)
    using rounded_mean_range [OF l(2,3) _ l(5)] l(4) by simp
qed

end
