(* ===== verification/Score_Runs.thy ===== *)
theory Score_Runs
  imports Generic_Sched
begin

text \<open>
  Which scores the framework accepts: if every plugin scores every node and its scores are in range after
  its normalisation, a run succeeds; one score out of range makes the whole run fail, and with it the
  prioritisation of the nodes.
\<close>

section \<open>Accepted runs\<close>

definition raw_scores :: "('s, 'w) scorePlugin \<Rightarrow> kpod \<Rightarrow> string list \<Rightarrow> 's \<times> 'w \<Rightarrow> nodeScore list" where
  "raw_scores pl pod nns sw = map (\<lambda>nn. \<lparr>nsName = nn, nsScore = fst (fst (spScore pl pod nn sw))\<rparr>) nns"

definition normalized :: "('s, 'w) scorePlugin \<Rightarrow> kpod \<Rightarrow> nodeScore list \<Rightarrow> 's \<times> 'w \<Rightarrow> (nodeScore list \<times> statusp) \<times> 's \<times> 'w" where
  "normalized pl pod scores sw = (case spExtensions pl of None \<Rightarrow> ((scores, None), sw) | Some f \<Rightarrow> f pod scores sw)"

definition scores_well :: "('s, 'w) scorePlugin \<Rightarrow> kpod \<Rightarrow> string list \<Rightarrow> 's \<times> 'w \<Rightarrow> bool" where
  "scores_well pl pod nns sw \<longleftrightarrow> (\<forall>nn\<in>set nns. \<exists>x. spScore pl pod nn sw = ((x, None), sw)) \<and>
     (\<exists>ys. normalized pl pod (raw_scores pl pod nns sw) sw = ((ys, None), sw) \<and> map nsName ys = nns \<and>
        (\<forall>s\<in>set ys. 0 \<le> nsScore s \<and> nsScore s \<le> 100))"

lemma IsSuccess_None [simp]: "IsSuccess None"
  by (simp add: IsSuccess_def Code_def)

lemma score_node_well:
  assumes "\<forall>pl\<in>set pls. \<exists>x. spScore pl pod nn sw = ((x, None), sw)"
  shows "score_node pls pod nn sw = (Inr (map (\<lambda>pl. fst (fst (spScore pl pod nn sw))) pls), sw)"
  using assms by (induction pls) auto

lemma score_nodes_well:
  assumes "\<forall>pl\<in>set pls. \<forall>nn\<in>set nns. \<exists>x. spScore pl pod nn sw = ((x, None), sw)"
  shows "score_nodes pls pod nns sw = (Inr (map (\<lambda>nn. map (\<lambda>pl. fst (fst (spScore pl pod nn sw))) pls) nns), sw)"
  using assms by (induction nns) (auto simp: score_node_well)

lemma columns_well:
  "map2 (\<lambda>pl j. (pl, column nns (map (\<lambda>nn. map (\<lambda>pl. fst (fst (spScore pl pod nn sw))) pls) nns) j)) pls [0..<length pls] =
   map (\<lambda>pl. (pl, raw_scores pl pod nns sw)) pls"
proof (rule nth_equalityI, simp)
  fix i assume "i < length (map2 (\<lambda>pl j. (pl, column nns (map (\<lambda>nn. map (\<lambda>pl. fst (fst (spScore pl pod nn sw))) pls) nns) j)) pls [0..<length pls])"
  then have i: "i < length pls" by simp
  have "column nns (map (\<lambda>nn. map (\<lambda>pl. fst (fst (spScore pl pod nn sw))) pls) nns) i = raw_scores (pls ! i) pod nns sw"
    unfolding column_def raw_scores_def using i by (induction nns) auto
  with i show "map2 (\<lambda>pl j. (pl, column nns (map (\<lambda>nn. map (\<lambda>pl. fst (fst (spScore pl pod nn sw))) pls) nns) j)) pls [0..<length pls] ! i =
      map (\<lambda>pl. (pl, raw_scores pl pod nns sw)) pls ! i" by simp
qed

lemma normalize_all_well:
  assumes "\<forall>pl\<in>set pls. \<exists>ys. normalized pl pod (F pl) sw = ((ys, None), sw)"
  shows "normalize_all pod (map (\<lambda>pl. (pl, F pl)) pls) sw =
    (Inr (map (\<lambda>pl. (pl, fst (fst (normalized pl pod (F pl) sw)))) pls), sw)"
  using assms by (induction pls) (auto simp: normalized_def)

lemma apply_weight_ok:
  assumes "\<forall>s\<in>set scores. 0 \<le> nsScore s \<and> nsScore s \<le> 100"
  shows "apply_weight w (n, scores) = Inr (n, map (\<lambda>s. s\<lparr>nsScore := wrap64 (nsScore s * w)\<rparr>) scores)"
proof -
  have "find (\<lambda>s. nsScore s > MaxNodeScore \<or> nsScore s < MinNodeScore) scores = None"
    using assms by (force simp: find_None_iff MaxNodeScore_def MinNodeScore_def)
  then show ?thesis by (simp add: apply_weight_def)
qed

lemma weigh_all_well:
  assumes "\<forall>c\<in>set cs. \<forall>s\<in>set (snd c). 0 \<le> nsScore s \<and> nsScore s \<le> 100"
  shows "weigh_all wt cs = Inr (map (\<lambda>(n, scores). (n, map (\<lambda>s. s\<lparr>nsScore := wrap64 (nsScore s * wt n)\<rparr>) scores)) cs)"
  using assms by (induction cs) (auto simp: apply_weight_ok)

lemma RunScorePlugins_well:
  assumes "\<forall>pl\<in>set pls. scores_well pl pod nns sw"
  shows "RunScorePlugins pls wt pod nns sw =
    ((map (\<lambda>pl. (spName pl, map (\<lambda>s. s\<lparr>nsScore := wrap64 (nsScore s * wt (spName pl))\<rparr>)
        (fst (fst (normalized pl pod (raw_scores pl pod nns sw) sw))))) pls, None), sw)"
proof -
  have s: "\<forall>pl\<in>set pls. \<forall>nn\<in>set nns. \<exists>x. spScore pl pod nn sw = ((x, None), sw)"
    and n: "\<forall>pl\<in>set pls. \<exists>ys. normalized pl pod (raw_scores pl pod nns sw) sw = ((ys, None), sw)"
    using assms unfolding scores_well_def by blast+
  let ?cs = "map (\<lambda>pl. (spName pl, fst (fst (normalized pl pod (raw_scores pl pod nns sw) sw)))) pls"
  have r: "\<forall>c\<in>set ?cs. \<forall>s\<in>set (snd c). 0 \<le> nsScore s \<and> nsScore s \<le> 100"
    using assms unfolding scores_well_def by fastforce
  show ?thesis
    unfolding RunScorePlugins_def score_nodes_well [OF s] columns_well prod.case sum.case
      normalize_all_well [OF n]
    using weigh_all_well [OF r, of wt] by (simp add: comp_def)
qed

section \<open>Rejected runs\<close>

lemma score_node_nth:
  assumes "score_node pls pod nn sw = (Inr row, sw')" "j < length pls" "\<forall>sw. fst (spScore (pls ! j) pod nn sw) = (x, None)"
  shows "row ! j = x"
  using assms
proof (induction pls arbitrary: sw row j)
  case (Cons pl pls)
  obtain s st sw1 where s: "spScore pl pod nn sw = ((s, st), sw1)" by (metis prod.exhaust)
  obtain row' where r: "score_node pls pod nn sw1 = (Inr row', sw')" "row = s # row'"
    using Cons.prems(1) s by (auto split: if_splits prod.splits sum.splits)
  show ?case
  proof (cases j)
    case 0
    then show ?thesis using Cons.prems(3) s r by (metis fst_conv nth_Cons_0 prod.inject)
  qed (use Cons r in auto)
qed simp

lemma score_nodes_nth:
  assumes "score_nodes pls pod nns sw = (Inr rows, sw')"
  shows "length rows = length nns \<and> (\<forall>i<length nns. \<exists>sw1 sw2. score_node pls pod (nns ! i) sw1 = (Inr (rows ! i), sw2))"
  using assms
proof (induction nns arbitrary: sw rows)
  case (Cons nn nns)
  obtain row sw1 rows' where r: "score_node pls pod nn sw = (Inr row, sw1)" "score_nodes pls pod nns sw1 = (Inr rows', sw')" "rows = row # rows'"
    using Cons.prems by (auto split: prod.splits sum.splits)
  show ?case using Cons.IH [OF r(2)] r(1,3) by (simp add: All_less_Suc2 del: split_paired_Ex) blast
qed simp

lemma normalize_all_keeps:
  assumes "normalize_all pod cols sw = (Inr cols', sw')" "c \<in> set cols" "spExtensions (fst c) = None"
  shows "c \<in> set cols'"
  using assms by (induction cols arbitrary: sw cols') (auto split: prod.splits sum.splits if_splits option.splits)

lemma weigh_all_fails:
  assumes "c \<in> set cs" "s \<in> set (snd c)" "nsScore s < 0 \<or> nsScore s > 100"
  shows "\<exists>e. weigh_all wt cs = Inl e"
  using assms(1)
proof (induction cs)
  case (Cons d cs)
  have "\<exists>e. apply_weight (wt (fst c)) c = Inl e"
  proof -
    have "find (\<lambda>s. nsScore s > MaxNodeScore \<or> nsScore s < MinNodeScore) (snd c) \<noteq> None"
      using assms(2,3) by (auto simp: find_None_iff MaxNodeScore_def MinNodeScore_def)
    then show ?thesis by (auto simp: apply_weight_def split_def)
  qed
  with Cons show ?case by (auto split: sum.split)
qed simp

lemma RunScorePlugins_rejects:
  assumes "pl \<in> set pls" "spExtensions pl = None" "nn \<in> set nns" "\<forall>sw. fst (spScore pl pod nn sw) = (x, None)" "x < 0 \<or> x > 100"
  shows "\<exists>e sw'. RunScorePlugins pls wt pod nns sw = (([], AsStatus e), sw')"
proof -
  obtain r sw1 where Pair: "score_nodes pls pod nns sw = (r, sw1)" by (rule prod.exhaust)
  show ?thesis
  proof (cases r)
    case (Inl e)
    then show ?thesis using Pair by (auto simp: RunScorePlugins_def)
  next
    case (Inr rows)
    obtain j where j: "j < length pls" "pls ! j = pl" using assms(1) by (auto simp: in_set_conv_nth)
    obtain i where i: "i < length nns" "nns ! i = nn" using assms(3) by (auto simp: in_set_conv_nth)
    from score_nodes_nth Pair Inr i obtain sw1' sw2 where len: "length rows = length nns" and row: "score_node pls pod nn sw1' = (Inr (rows ! i), sw2)"
      by metis
    have x: "rows ! i ! j = x" using score_node_nth [OF row j(1)] assms(4) j(2) by simp
    let ?cols = "map2 (\<lambda>pl j. (pl, column nns rows j)) pls [0..<length pls]"
    have in_cols: "(pl, column nns rows j) \<in> set ?cols" using j by (force simp: set_zip)
    have in_col: "\<lparr>nsName = nn, nsScore = x\<rparr> \<in> set (column nns rows j)"
      unfolding column_def using i len x by (force simp: set_zip)
    obtain q sw2 where n: "normalize_all pod ?cols sw1 = (q, sw2)" by (rule prod.exhaust)
    show ?thesis
    proof (cases q)
      case (Inl e)
      then show ?thesis using Pair \<open>r = Inr rows\<close> n by (auto simp: RunScorePlugins_def)
    next
      case (Inr cols)
      then have "(pl, column nns rows j) \<in> set cols" using normalize_all_keeps [OF n [unfolded Inr] in_cols] assms(2) by simp
      then have "(spName pl, column nns rows j) \<in> set (map (\<lambda>(pl, sc). (spName pl, sc)) cols)" by force
      from weigh_all_fails [OF this, of "\<lparr>nsName = nn, nsScore = x\<rparr>" wt] in_col assms(5)
      obtain e where "weigh_all wt (map (\<lambda>(pl, sc). (spName pl, sc)) cols) = Inl e" by auto
      then show ?thesis using Pair \<open>r = Inr rows\<close> n Inr by (auto simp: RunScorePlugins_def)
    qed
  qed
qed

text \<open>A rejected score is an error of the prioritisation, whatever the other plugins and the extenders say.\<close>

lemma prioritizeNodes_rejects:
  assumes "pl \<in> set (scorePlugins fw)" "spExtensions pl = None" "node_names nds = Ret nns" "nn \<in> set nns"
    "\<forall>sw. fst (spScore pl pod nn sw) = (x, None)" "x < 0 \<or> x > 100"
  shows "\<exists>e sw'. prioritizeNodes exts fw pod nds sw = Ret (Inl e, sw')"
proof -
  obtain ps sw1 where ps: "RunPreScorePlugins (preScorePlugins fw) pod nns sw = (ps, sw1)" by (rule prod.exhaust)
  obtain e sw2 where r: "RunScorePlugins (scorePlugins fw) (scorePluginWeight fw) pod nns sw1 = (([], AsStatus e), sw2)"
    using RunScorePlugins_rejects [OF assms(1,2,4,5,6), of "scorePluginWeight fw" sw1] by blast
  have "\<not> IsSuccess (AsStatus e)" by (simp add: IsSuccess_def Code_def AsStatus_def)
  moreover have "scorePlugins fw \<noteq> []" using assms(1) by auto
  ultimately show ?thesis by (auto simp: prioritizeNodes_def assms(3) ps r)
qed

end
