(* ===== verification/Node_Score_Props.thy ===== *)
theory Node_Score_Props
  imports Node_Score_Lib Score_Runs
begin

text \<open>
  Properties of the scoring plugins: what the score by free resources is and its range, which plugins the
  framework always accepts, and where a configuration that passes validation makes scoring fail or panic.
\<close>

section \<open>Scores by free resources\<close>

definition free_percent :: "int \<times> int \<Rightarrow> int" where
  "free_percent = (\<lambda>(alloc, req). if req > alloc then 0 else (alloc - req) * 100 div alloc)"

definition pos_mean :: "(string \<Rightarrow> int \<times> int) \<Rightarrow> valueMap \<Rightarrow> string list \<Rightarrow> int" where
  "pos_mean amounts ws ks = weighted_mean (map (\<lambda>k. (max 0 (value_at ws k), free_percent (amounts k))) ks)"

definition neg_mean :: "(string \<Rightarrow> int \<times> int) \<Rightarrow> valueMap \<Rightarrow> string list \<Rightarrow> int" where
  "neg_mean amounts ws ks = weighted_mean (map (\<lambda>k. (max 0 (- value_at ws k), free_percent (amounts k))) ks)"

text \<open>The specification of the score by free resources.\<close>

definition free_score :: "gates \<Rightarrow> bool \<Rightarrow> valueMap \<Rightarrow> kpod \<Rightarrow> nodeInfo \<Rightarrow> int" where
  "free_score g ov ws pod ni =
     (let amounts = (\<lambda>k. calculateResourceAllocatableRequest g ni pod k ov); ks = scored_resources g ov ws pod ni
      in pos_mean amounts ws ks - neg_mean amounts ws ks)"

lemma least_ra_score:
  fixes r :: resourceAllocationScorer and g :: gates
  assumes r: "scorer r = (\<lambda>req al. Ret (leastResourceScorer ws req al))" "resourceToWeight r = Some ws"
    and ws: "\<forall>(k, w)\<in>set ws. \<bar>w\<bar> \<le> 100" "length ws \<le> 2 ^ 32" and ni: "node ni = Some nd"
    and rg: "pod_in_range pod" "node_in_range ni"
  defines "amounts \<equiv> \<lambda>k. calculateResourceAllocatableRequest g ni pod k (enableOverhead r)"
  defines "ks \<equiv> scored_resources g (enableOverhead r) ws pod ni"
  shows "ra_score g r pod ni = Ret (pos_mean amounts ws ks - neg_mean amounts ws ks, None)"
    "0 \<le> pos_mean amounts ws ks" "pos_mean amounts ws ks \<le> 100" "0 \<le> neg_mean amounts ws ks" "neg_mean amounts ws ks \<le> 100"
proof -
  let ?req = "map (\<lambda>k. (k, snd (amounts k))) ks" and ?al = "map (\<lambda>k. (k, fst (amounts k))) ks"
  have b: "in_range (fst (amounts k))" "0 \<le> snd (amounts k)" for k unfolding amounts_def by (rule scored_range [OF rg])+
  have w: "\<bar>value_at ws k\<bar> \<le> 100" if "k \<in> set ks" for k
    using ws(1) scored_in_weights that unfolding ks_def by fastforce
  have ok: "\<forall>k\<in>fst ` set ?req. 0 \<le> value_at ?req k \<and> in_range (value_at ?al k) \<and> \<bar>value_at ws k\<bar> \<le> 100"
    using b w by auto
  have len: "length ?req \<le> 2 ^ 32" using ws(2) scored_length [of g "enableOverhead r" ws pod ni] by (simp add: ks_def)
  have nz: "fst (amounts k) \<noteq> 0" if "k \<in> set ks" for k using that by (simp add: ks_def amounts_def scored_resources_def)
  have sc: "leastRequestedScore (value_at ?req k) (value_at ?al k) = free_percent (amounts k)" if "k \<in> set ks" for k
    using that b [of k] nz [OF that] by (simp add: leastRequestedScore_exact free_percent_def split_def)
  have m: "map (\<lambda>k. (h k, leastRequestedScore (value_at ?req k) (value_at ?al k))) (map fst ?req) = map (\<lambda>k. (h k, free_percent (amounts k))) ks" for h :: "string \<Rightarrow> int"
    using sc by (simp add: comp_def)
  note l = leastResourceScorer_mean [OF ok len, unfolded m, folded pos_mean_def neg_mean_def]
  show "ra_score g r pod ni = Ret (pos_mean amounts ws ks - neg_mean amounts ws ks, None)"
    using l(1) by (simp add: ra_score_eq [OF ni r(2)] r(1) amounts_def ks_def)
  show "0 \<le> pos_mean amounts ws ks" "pos_mean amounts ws ks \<le> 100" "0 \<le> neg_mean amounts ws ks" "neg_mean amounts ws ks \<le> 100"
    by (rule l)+
qed

lemma neg_mean_zero:
  assumes "\<forall>k\<in>set ks. 0 \<le> value_at ws k"
  shows "neg_mean amounts ws ks = 0"
proof -
  have "(\<Sum>(w, s)\<leftarrow>map (\<lambda>k. (max 0 (- value_at ws k), free_percent (amounts k))) ks. w) = 0"
    using assms by (induction ks) auto
  then show ?thesis by (simp add: neg_mean_def weighted_mean_def)
qed

lemma NewLeast_iff:
  "NewLeastAllocated ov (Some rs) = Inr r \<longleftrightarrow> (\<forall>x\<in>set rs. \<bar>rsWeight x\<bar> \<le> 100) \<and>
     r = \<lparr>raName = LeastAllocatedName, scorer = (\<lambda>req al. Ret (leastResourceScorer (resourcesToWeightMap rs) req al)),
          resourceToWeight = Some (resourcesToWeightMap rs), enableOverhead = ov\<rparr>"
  using validateResources_ok [of rs "''resources''"] by (auto simp: NewLeastAllocated_def Let_def)

lemma weight_map_bound: "\<forall>x\<in>set rs. P (rsWeight x) \<Longrightarrow> \<forall>(k, w)\<in>set (resourcesToWeightMap rs). P w"
  by (auto dest: resourcesToWeightMap_from)

lemma scored_weight:
  assumes "\<forall>x\<in>set rs. P (rsWeight x)" "k \<in> set (scored_resources g ov (resourcesToWeightMap rs) pod ni)"
  shows "P (value_at (resourcesToWeightMap rs) k)"
  using weight_map_bound [OF assms(1)] scored_in_weights [OF assms(2)] by blast

lemma free_score_range:
  fixes r :: resourceAllocationScorer and g :: gates
  assumes r: "scorer r = (\<lambda>req al. Ret (leastResourceScorer (resourcesToWeightMap rs) req al))"
    "resourceToWeight r = Some (resourcesToWeightMap rs)" and w: "\<forall>x\<in>set rs. \<bar>rsWeight x\<bar> \<le> 100"
    and rest: "length rs \<le> 2 ^ 32" "node ni = Some nd" "pod_in_range pod" "node_in_range ni"
  defines "score \<equiv> free_score g (enableOverhead r) (resourcesToWeightMap rs) pod ni"
  shows "ra_score g r pod ni = Ret (score, None)" "\<bar>score\<bar> \<le> 100" "\<forall>x\<in>set rs. 0 \<le> rsWeight x \<Longrightarrow> 0 \<le> score"
proof -
  have len: "length (resourcesToWeightMap rs) \<le> 2 ^ 32" using resourcesToWeightMap_length [of rs] rest(1) by simp
  note l = least_ra_score [OF r weight_map_bound [OF w] len rest(2-4), of g]
  show "ra_score g r pod ni = Ret (score, None)" "\<bar>score\<bar> \<le> 100"
    using l by (simp_all add: score_def free_score_def Let_def abs_le_iff)
  assume nn: "\<forall>x\<in>set rs. 0 \<le> rsWeight x"
  have "\<forall>k\<in>set (scored_resources g (enableOverhead r) (resourcesToWeightMap rs) pod ni). 0 \<le> value_at (resourcesToWeightMap rs) k"
    using scored_weight [OF nn] by blast
  then show "0 \<le> score" using l(2) by (simp add: score_def free_score_def Let_def neg_mean_zero)
qed

text \<open>
  C37: For arguments that pass validation the score by free resources is the weighted mean of the free shares over
  the resources of positive weight, less the weighted mean over the others; no intermediate sum overflows
  for amounts in range. It lies between -100 and 100, and between 0 and 100 if no weight is negative.
\<close>

theorem least_allocated_score:
  assumes "NewLeastAllocated ov (Some rs) = Inr r" "length rs \<le> 2 ^ 32" "node ni = Some nd" "pod_in_range pod" "node_in_range ni"
  shows "ra_score g r pod ni = Ret (free_score g ov (resourcesToWeightMap rs) pod ni, None) \<and>
    \<bar>free_score g ov (resourcesToWeightMap rs) pod ni\<bar> \<le> 100 \<and>
    ((\<forall>x\<in>set rs. 0 \<le> rsWeight x) \<longrightarrow> 0 \<le> free_score g ov (resourcesToWeightMap rs) pod ni)"
proof -
  have r: "scorer r = (\<lambda>req al. Ret (leastResourceScorer (resourcesToWeightMap rs) req al))"
    "resourceToWeight r = Some (resourcesToWeightMap rs)" "enableOverhead r = ov" and w: "\<forall>x\<in>set rs. \<bar>rsWeight x\<bar> \<le> 100"
    using assms(1) unfolding NewLeast_iff by auto
  show ?thesis using free_score_range [OF r(1,2) w assms(2-5), of g] unfolding r(3) by simp
qed


section \<open>Plugins the framework accepts\<close>

definition nodes_in_range :: "snapshot \<Rightarrow> string list \<Rightarrow> bool" where
  "nodes_in_range snap = list_all (\<lambda>nn. case snap_Get snap nn of Inl e \<Rightarrow> False
     | Inr ni \<Rightarrow> node_in_range ni \<and> (case node ni of None \<Rightarrow> False | Some nd \<Rightarrow> length (Taints nd) \<le> 2 ^ 32))"

lemma nodes_in_range_get:
  assumes "nodes_in_range snap nns" "nn \<in> set nns"
  shows "\<exists>ni nd. snap_Get snap nn = Inr ni \<and> node_in_range ni \<and> node ni = Some nd \<and> length (Taints nd) \<le> 2 ^ 32"
  using assms unfolding nodes_in_range_def list_all_iff by (fastforce split: sum.split_asm option.split_asm)

lemma score_effect_Ret [simp]: "score_effect (Ret x) sw = (x, sw)"
  by (simp add: score_effect_def)

text \<open>A plugin without normalisation is accepted if every score is in range.\<close>

lemma unnormalized_well:
  assumes "spExtensions pl = None" "\<forall>nn\<in>set nns. \<exists>x. spScore pl pod nn sw = ((x, None), sw) \<and> 0 \<le> x \<and> x \<le> 100"
  shows "scores_well pl pod nns sw"
proof -
  have "\<forall>s\<in>set (raw_scores pl pod nns sw). 0 \<le> nsScore s \<and> nsScore s \<le> 100"
    using assms(2) by (fastforce simp: raw_scores_def)
  then show ?thesis using assms by (auto simp: scores_well_def normalized_def raw_scores_def comp_def)
qed

lemma resource_plugin_well:
  assumes "nodes_in_range snap nns"
    "\<forall>ni nd. node ni = Some nd \<longrightarrow> node_in_range ni \<longrightarrow> (\<exists>s. ra_score g r pod ni = Ret (s, None) \<and> 0 \<le> s \<and> s \<le> 100)"
  shows "scores_well (resource_plugin g snap n r) pod nns sw"
proof (rule unnormalized_well)
  show "\<forall>nn\<in>set nns. \<exists>x. spScore (resource_plugin g snap n r) pod nn sw = ((x, None), sw) \<and> 0 \<le> x \<and> x \<le> 100"
    using nodes_in_range_get [OF assms(1)] assms(2)
    by (fastforce simp: resource_plugin_def resource_Score_def from_snapshot_def)
qed (simp add: resource_plugin_def)

lemma most_ra_score:
  fixes r :: resourceAllocationScorer
  assumes r: "scorer r = (\<lambda>req al. Ret (mostResourceScorer (resourcesToWeightMap rs) req al))"
    "resourceToWeight r = Some (resourcesToWeightMap rs)" and w: "\<forall>x\<in>set rs. 0 \<le> rsWeight x \<and> rsWeight x \<le> 100"
    and rest: "length rs \<le> 2 ^ 32" "node ni = Some nd" "pod_in_range pod" "node_in_range ni"
  shows "\<exists>s. ra_score g r pod ni = Ret (s, None) \<and> 0 \<le> s \<and> s \<le> 100"
proof -
  let ?a = "\<lambda>k. calculateResourceAllocatableRequest g ni pod k (enableOverhead r)"
  let ?ws = "resourcesToWeightMap rs" and ?ks = "scored_resources g (enableOverhead r) (resourcesToWeightMap rs) pod ni"
  let ?req = "map (\<lambda>k. (k, snd (?a k))) ?ks" and ?al = "map (\<lambda>k. (k, fst (?a k))) ?ks"
  have w: "0 \<le> value_at ?ws k \<and> value_at ?ws k \<le> 100" if "k \<in> set ?ks" for k by (rule scored_weight [OF w that])
  then have ok: "\<forall>k\<in>set ?ks. 0 \<le> value_at ?ws k \<and> 0 \<le> value_at ?req k \<and> in_range (value_at ?al k)"
    using scored_range [OF rest(3,4)] by auto
  have "(\<Sum>k\<leftarrow>?ks. value_at ?ws k) \<le> 2 ^ 56"
    using w resourcesToWeightMap_length [of rs] scored_length [of g "enableOverhead r" ?ws pod ni] rest(1) by (intro sum_weights_bound) auto
  note m = most.mean_range [OF ok this]
  have "foldl (most_step ?ws ?req ?al) (0, 0) ?ks =
      (\<Sum>k\<leftarrow>?ks. mostRequestedScore (value_at ?req k) (value_at ?al k) * value_at ?ws k, \<Sum>k\<leftarrow>?ks. value_at ?ws k)"
    using m(1,2) by (simp add: most_fold int64_def)
  then have "mostResourceScorer ?ws ?req ?al = (let S = \<Sum>k\<leftarrow>?ks. mostRequestedScore (value_at ?req k) (value_at ?al k) * value_at ?ws k;
      W = \<Sum>k\<leftarrow>?ks. value_at ?ws k in if W = 0 then 0 else wrap64 (go_div S W))"
    by (simp add: mostResourceScorer_def comp_def)
  with m(3-5) have "0 \<le> mostResourceScorer ?ws ?req ?al \<and> mostResourceScorer ?ws ?req ?al \<le> 100" unfolding Let_def by auto
  then show ?thesis by (simp add: ra_score_eq [OF rest(2) r(2)] r(1))
qed

lemma ratio_ra_score:
  fixes r :: resourceAllocationScorer
  assumes r: "scorer r = requestedToCapacityRatioScorer (resourcesToWeightMap rs) shape"
    "resourceToWeight r = Some (resourcesToWeightMap rs)" and w: "\<forall>x\<in>set rs. 0 \<le> rsWeight x \<and> rsWeight x \<le> 2 ^ 32"
    and shape: "shape_ok 10 shape" and rest: "length rs \<le> 2 ^ 12" "node ni = Some nd"
  shows "\<exists>s. ra_score g r pod ni = Ret (s, None) \<and> 0 \<le> s \<and> s \<le> 100"
proof -
  let ?a = "\<lambda>k. calculateResourceAllocatableRequest g ni pod k (enableOverhead r)"
  let ?ws = "resourcesToWeightMap rs" and ?ks = "scored_resources g (enableOverhead r) (resourcesToWeightMap rs) pod ni"
  let ?req = "map (\<lambda>k. (k, snd (?a k))) ?ks" and ?al = "map (\<lambda>k. (k, fst (?a k))) ?ks"
  have "\<forall>k\<in>fst ` set ?req. 0 \<le> value_at ?ws k \<and> value_at ?ws k \<le> 2 ^ 32" using scored_weight [OF w] by auto
  moreover have "length ?req \<le> 2 ^ 12"
    using resourcesToWeightMap_length [of rs] scored_length [of g "enableOverhead r" ?ws pod ni] rest(1) by simp
  ultimately obtain s where "requestedToCapacityRatioScorer ?ws shape ?req ?al = Ret s" "0 \<le> s" "s \<le> 100"
    using ratio_scorer_range [OF shape] by blast
  then show ?thesis by (simp add: ra_score_eq [OF rest(2) r(2)] r(1))
qed

section \<open>Images\<close>

text \<open>The sum of the sizes is cut to the thresholds, so the priority is in range whatever the sizes are.\<close>

lemma calculatePriority_range:
  assumes "n \<le> 64"
  shows "\<exists>s. calculatePriority x n = Ret s \<and> 0 \<le> s \<and> s \<le> 100"
proof (cases "n = 0")
  case True
  then show ?thesis
    by (simp add: calculatePriority_def minThreshold_def mb_def maxContainerThreshold_def wrap64_def go_div_def MaxNodeScore_def)
next
  case False
  define M where "M = maxContainerThreshold * int n"
  have M: "minThreshold < M" "M \<le> 2 ^ 56" and m: "0 < minThreshold"
    using assms False by (auto simp: M_def maxContainerThreshold_def minThreshold_def mb_def)
  define y where "y = (if x < minThreshold then minThreshold else if x > M then M else x)"
  have y: "minThreshold \<le> y" "y \<le> M" using M by (auto simp: y_def)
  have w: "wrap64 M = M" "wrap64 (M - minThreshold) = M - minThreshold" "wrap64 (y - minThreshold) = y - minThreshold"
    using M m y by (auto intro!: wrap64_range)
  have p: "wrap64 (go_div (wrap64 (MaxNodeScore * (y - minThreshold))) (M - minThreshold)) = (y - minThreshold) * 100 div (M - minThreshold)"
    using go_div_percent [of "y - minThreshold" "M - minThreshold"] M m y by (simp add: MaxNodeScore_def mult.commute)
  have "calculatePriority x n = Ret ((y - minThreshold) * 100 div (M - minThreshold))"
    unfolding calculatePriority_def Let_def M_def [symmetric] w(1) y_def [symmetric] w p using M by simp
  then show ?thesis using percent_of [of "y - minThreshold" "M - minThreshold"] M y by simp
qed

lemma ImageLocality_well:
  assumes "nodes_in_range snap nns" "length (Containers pod) \<le> 64"
  shows "scores_well (ImageLocality_plugin snap) pod nns sw"
proof (rule unnormalized_well)
  show "\<forall>nn\<in>set nns. \<exists>x. spScore (ImageLocality_plugin snap) pod nn sw = ((x, None), sw) \<and> 0 \<le> x \<and> x \<le> 100"
  proof
    fix nn assume "nn \<in> set nns"
    then obtain ni where ni: "snap_Get snap nn = Inr ni" using nodes_in_range_get [OF assms(1)] by blast
    obtain s where "calculatePriority (sumImageScores ni (Containers pod) (length (snap_List snap))) (length (Containers pod)) = Ret s" "0 \<le> s" "s \<le> 100"
      using calculatePriority_range [OF assms(2)] by blast
    then show "\<exists>x. spScore (ImageLocality_plugin snap) pod nn sw = ((x, None), sw) \<and> 0 \<le> x \<and> x \<le> 100"
      by (simp add: ImageLocality_plugin_def ImageLocality_Score_def from_snapshot_def ni)
  qed
qed (simp add: ImageLocality_plugin_def)

section \<open>Taints\<close>

lemma count_eq: "countIntolerableTaintsPreferNoSchedule ts tols =
    int (length (filter (\<lambda>t. taintEffect t = ''PreferNoSchedule'' \<and> \<not> TolerationsTolerateTaint tols t) ts))"
proof -
  have "foldl (\<lambda>n t. if taintEffect t \<noteq> ''PreferNoSchedule'' then n else if \<not> TolerationsTolerateTaint tols t then n + 1 else n) a ts =
      a + int (length (filter (\<lambda>t. taintEffect t = ''PreferNoSchedule'' \<and> \<not> TolerationsTolerateTaint tols t) ts))" for a :: int
    by (induction ts arbitrary: a) simp_all
  then show ?thesis by (simp add: countIntolerableTaintsPreferNoSchedule_def)
qed

text \<open>What the reversed normalisation computes: the node with most points gets 0, one without points 100.\<close>

lemma DefaultNormalizeScore_reverse:
  assumes "\<forall>s\<in>set scores. 0 \<le> nsScore s \<and> nsScore s \<le> 2 ^ 56"
  defines "m \<equiv> Max (insert 0 (nsScore ` set scores))"
  shows "DefaultNormalizeScore 100 True scores =
    map (\<lambda>s. s\<lparr>nsScore := (if m = 0 then 100 else 100 - nsScore s * 100 div m)\<rparr>) scores"
    "s \<in> set (DefaultNormalizeScore 100 True scores) \<Longrightarrow> 0 \<le> nsScore s \<and> nsScore s \<le> 100"
proof -
  have le: "nsScore s \<le> m" if "s \<in> set scores" for s using that by (simp add: m_def)
  have m: "0 \<le> m" "m \<le> 2 ^ 56" using assms(1) by (simp_all add: m_def)
  have e: "wrap64 (100 - wrap64 (go_div (wrap64 (100 * nsScore s)) m)) = 100 - nsScore s * 100 div m" if "s \<in> set scores" "m \<noteq> 0" for s
    using go_div_percent [of "nsScore s" m] percent_of [of "nsScore s" m] assms(1) le m that
    by (simp add: mult.commute wrap64_range)
  show d: "DefaultNormalizeScore 100 True scores =
    map (\<lambda>s. s\<lparr>nsScore := (if m = 0 then 100 else 100 - nsScore s * 100 div m)\<rparr>) scores"
    unfolding DefaultNormalizeScore_def foldl_max Let_def m_def [symmetric] using e by auto
  have "0 \<le> nsScore t * 100 div m \<and> nsScore t * 100 div m \<le> 100" if "t \<in> set scores" "m \<noteq> 0" for t
    using percent_of [of "nsScore t" m] le [OF that(1)] assms(1) m that by auto
  then show "0 \<le> nsScore s \<and> nsScore s \<le> 100" if "s \<in> set (DefaultNormalizeScore 100 True scores)"
    using that unfolding d by auto
qed

lemma TaintToleration_well:
  assumes "nodes_in_range snap nns" "rd (fst sw) = Some tols"
  shows "scores_well (TaintToleration_plugin rd snap) pod nns sw"
proof -
  let ?pl = "TaintToleration_plugin rd snap"
  have sc: "\<exists>x. spScore ?pl pod nn sw = ((x, None), sw) \<and> 0 \<le> x \<and> x \<le> 2 ^ 56" if nn: "nn \<in> set nns" for nn
  proof -
    obtain ni nd where ni: "snap_Get snap nn = Inr ni" "node ni = Some nd" "length (Taints nd) \<le> 2 ^ 32"
      using nodes_in_range_get [OF assms(1) nn] by blast
    let ?n = "length (filter (\<lambda>t. taintEffect t = ''PreferNoSchedule'' \<and> \<not> TolerationsTolerateTaint tols t) (Taints nd))"
    have "?n \<le> 2 ^ 56" using ni(3) length_filter_le [of _ "Taints nd"] by (rule_tac order_trans [of _ "length (Taints nd)"]) simp_all
    then have "int ?n \<le> 2 ^ 56" by simp
    then show ?thesis
      by (simp add: TaintToleration_plugin_def TaintToleration_Score_def from_snapshot_def ni assms(2) count_eq)
  qed
  let ?raw = "raw_scores ?pl pod nns sw"
  have raw: "\<forall>s\<in>set ?raw. 0 \<le> nsScore s \<and> nsScore s \<le> 2 ^ 56" using sc by (fastforce simp: raw_scores_def)
  note d = DefaultNormalizeScore_reverse [OF raw]
  have "\<forall>s\<in>set (DefaultNormalizeScore 100 True ?raw). 0 \<le> nsScore s \<and> nsScore s \<le> 100"
    using d(2) by blast
  moreover have "map nsName (DefaultNormalizeScore 100 True ?raw) = nns"
    unfolding d(1) by (simp add: raw_scores_def comp_def)
  moreover have "normalized ?pl pod ?raw sw = ((DefaultNormalizeScore 100 True ?raw, None), sw)"
    by (simp add: normalized_def TaintToleration_plugin_def TaintToleration_NormalizeScore_def MaxNodeScore_def)
  ultimately show ?thesis unfolding scores_well_def using sc by blast
qed


section \<open>The configured plugins\<close>

text \<open>
  A plugin made by one of the constructors from arguments it accepts, without negative weights, for at most
  4096 resources. The weights of the ratio have no upper bound in the code; beyond \<open>2^32\<close> the sums are no
  longer exact. Of the arguments of \<open>Fit\<close> one that its validation accepts is left out: the strategy
  \<open>RequestedToCapacityRatio\<close> with an empty shape, with which scoring panics (\<open>unchecked_shape_panics\<close>).
\<close>

inductive configured :: "gates \<Rightarrow> snapshot \<Rightarrow> ('s \<Rightarrow> toleration list option) \<Rightarrow> ('s, 'w) scorePlugin \<Rightarrow> bool"
  for g :: gates and snap :: snapshot and rd :: "'s \<Rightarrow> toleration list option" where
  least: "NewLeastAllocated ov (Some rs) = Inr r \<Longrightarrow> \<forall>x\<in>set rs. 0 \<le> rsWeight x \<Longrightarrow> length rs \<le> 2 ^ 12 \<Longrightarrow>
    configured g snap rd (resource_plugin g snap LeastAllocatedName r)"
| most: "NewMostAllocated ov (Some rs) = Inr r \<Longrightarrow> \<forall>x\<in>set rs. 0 \<le> rsWeight x \<Longrightarrow> length rs \<le> 2 ^ 12 \<Longrightarrow>
    configured g snap rd (resource_plugin g snap MostAllocatedName r)"
| ratio: "NewRequestedToCapacityRatio ov (Some (shape, rs)) = Inr r \<Longrightarrow> \<forall>x\<in>set rs. rsWeight x \<le> 2 ^ 32 \<Longrightarrow> length rs \<le> 2 ^ 12 \<Longrightarrow>
    configured g snap rd (resource_plugin g snap RequestedToCapacityRatioName r)"
| fit: "NewFit (Some args) = Ret (Inr f) \<Longrightarrow> ScoringStrategy args = Some st \<Longrightarrow> (stType st = ''RequestedToCapacityRatio'' \<longrightarrow> stRequestedToCapacityRatio st \<noteq> Some []) \<Longrightarrow>
    \<forall>x\<in>set (stResources st). 0 \<le> rsWeight x \<Longrightarrow> length (stResources st) \<le> 2 ^ 12 \<Longrightarrow> configured g snap rd (Fit_plugin g snap f)"
| image: "configured g snap rd (ImageLocality_plugin snap)"
| taint: "configured g snap rd (TaintToleration_plugin rd snap)"

lemma NewMost_iff:
  "NewMostAllocated ov (Some rs) = Inr r \<longleftrightarrow> (\<forall>x\<in>set rs. \<bar>rsWeight x\<bar> \<le> 100) \<and>
     r = \<lparr>raName = MostAllocatedName, scorer = (\<lambda>req al. Ret (mostResourceScorer (resourcesToWeightMap rs) req al)),
          resourceToWeight = Some (resourcesToWeightMap rs), enableOverhead = ov\<rparr>"
  using validateResources_ok [of rs "''resources''"] by (auto simp: NewMostAllocated_def Let_def)

lemma NewRatio_iff:
  "NewRequestedToCapacityRatio ov (Some (shape, rs)) = Inr r \<longleftrightarrow> shape_ok 10 shape \<and> (\<forall>x\<in>set rs. 1 \<le> rsWeight x) \<and>
     r = \<lparr>raName = RequestedToCapacityRatioName, scorer = requestedToCapacityRatioScorer (resourcesToWeightMap rs) shape,
          resourceToWeight = Some (resourcesToWeightMap rs), enableOverhead = ov\<rparr>"
  using validateResourcesNoMax_ok [of rs "''resources''"] validateFunctionShape_ok [of shape "''shape''"]
  by (auto simp: NewRequestedToCapacityRatio_def Let_def)

text \<open>What a plugin \<open>Fit\<close> made from accepted arguments scores with.\<close>

lemma NewFit_scorer:
  assumes "NewFit (Some args) = Ret (Inr f)" "ScoringStrategy args = Some st"
  shows "\<forall>x\<in>set (stResources st). \<bar>rsWeight x\<bar> \<le> 100"
    "resourceToWeight (fitScorer f) = Some (resourcesToWeightMap (stResources st))"
    "stType st = ''LeastAllocated'' \<Longrightarrow> scorer (fitScorer f) = (\<lambda>req al. Ret (leastResourceScorer (resourcesToWeightMap (stResources st)) req al))"
    "stType st \<noteq> ''LeastAllocated'' \<Longrightarrow> stType st \<noteq> ''RequestedToCapacityRatio'' \<Longrightarrow>
       scorer (fitScorer f) = (\<lambda>req al. Ret (mostResourceScorer (resourcesToWeightMap (stResources st)) req al))"
    "enableOverhead (fitScorer f) = False"
    "stType st = ''RequestedToCapacityRatio'' \<Longrightarrow> \<exists>shape. stRequestedToCapacityRatio st = Some shape \<and>
       scorer (fitScorer f) = requestedToCapacityRatioScorer (resourcesToWeightMap (stResources st)) shape \<and> (shape = [] \<or> shape_ok 10 shape)"
proof -
  have v: "ValidateNodeResourcesFitArgs args = []" using assms(1) by (auto simp: NewFit_def Let_def split: if_splits)
  then show "\<forall>x\<in>set (stResources st). \<bar>rsWeight x\<bar> \<le> 100"
    using assms(2) validateResources_ok [of "stResources st" "''resources''"] by (simp add: ValidateNodeResourcesFitArgs_def)
  obtain mk r where mk: "nodeResourceStrategyTypeMap (stType st) = Some mk" "mk st = Ret r" "fitScorer f = r"
    using assms v by (auto simp: NewFit_def Let_def go_simps split: option.split_asm)
  show "resourceToWeight (fitScorer f) = Some (resourcesToWeightMap (stResources st))"
    "stType st = ''LeastAllocated'' \<Longrightarrow> scorer (fitScorer f) = (\<lambda>req al. Ret (leastResourceScorer (resourcesToWeightMap (stResources st)) req al))"
    "stType st \<noteq> ''LeastAllocated'' \<Longrightarrow> stType st \<noteq> ''RequestedToCapacityRatio'' \<Longrightarrow>
       scorer (fitScorer f) = (\<lambda>req al. Ret (mostResourceScorer (resourcesToWeightMap (stResources st)) req al))"
    "enableOverhead (fitScorer f) = False"
    using mk(1,2) unfolding mk(3) by (auto simp: nodeResourceStrategyTypeMap_def Let_def split: if_splits option.split_asm)
  have "shape = [] \<or> shape_ok 10 shape" if "stRequestedToCapacityRatio st = Some shape" for shape
    using v assms(2) that validateFunctionShape_ok [of shape "''shape''"] by (auto simp: ValidateNodeResourcesFitArgs_def split: if_splits)
  then show "stType st = ''RequestedToCapacityRatio'' \<Longrightarrow> \<exists>shape. stRequestedToCapacityRatio st = Some shape \<and>
       scorer (fitScorer f) = requestedToCapacityRatioScorer (resourcesToWeightMap (stResources st)) shape \<and> (shape = [] \<or> shape_ok 10 shape)"
    using mk(1,2) unfolding mk(3) by (auto simp: nodeResourceStrategyTypeMap_def Let_def split: option.split_asm)
qed


lemma configured_well:
  assumes "configured g snap rd pl" "pod_in_range pod" "nodes_in_range snap nns" "rd (fst sw) = Some tols"
  shows "scores_well pl pod nns sw"
  using assms(1)
proof cases
  case (least ov rs r)
  then have r: "scorer r = (\<lambda>req al. Ret (leastResourceScorer (resourcesToWeightMap rs) req al))"
      "resourceToWeight r = Some (resourcesToWeightMap rs)" "\<forall>x\<in>set rs. \<bar>rsWeight x\<bar> \<le> 100" "length rs \<le> 2 ^ 32"
    by (auto simp: NewLeast_iff)
  show ?thesis unfolding least(1)
    by (rule resource_plugin_well [OF assms(3)]) (use free_score_range [OF r _ assms(2)] least(3) in \<open>fastforce simp: abs_le_iff\<close>)
next
  case (most ov rs r)
  then have r: "scorer r = (\<lambda>req al. Ret (mostResourceScorer (resourcesToWeightMap rs) req al))"
      "resourceToWeight r = Some (resourcesToWeightMap rs)" "\<forall>x\<in>set rs. 0 \<le> rsWeight x \<and> rsWeight x \<le> 100" "length rs \<le> 2 ^ 32"
    by (auto simp: NewMost_iff abs_le_iff)
  show ?thesis unfolding most(1)
    by (rule resource_plugin_well [OF assms(3)]) (use most_ra_score [OF r _ assms(2)] in blast)
next
  case (ratio ov shape rs r)
  then have r: "scorer r = requestedToCapacityRatioScorer (resourcesToWeightMap rs) shape"
      "resourceToWeight r = Some (resourcesToWeightMap rs)" "\<forall>x\<in>set rs. 0 \<le> rsWeight x \<and> rsWeight x \<le> 2 ^ 32" "shape_ok 10 shape"
    by (auto simp: NewRatio_iff)
  show ?thesis unfolding ratio(1)
    by (rule resource_plugin_well [OF assms(3)]) (use ratio_ra_score [OF r ratio(4)] in blast)
next
  case (fit args f st)
  note n = NewFit_scorer [OF fit(2,3)]
  have len: "length (stResources st) \<le> 2 ^ 32" using fit(6) by simp
  have w: "\<forall>x\<in>set (stResources st). 0 \<le> rsWeight x \<and> rsWeight x \<le> 100" using n(1) fit(5) by (auto simp: abs_le_iff)
  consider (least) "stType st = ''LeastAllocated''" | (ratio) "stType st = ''RequestedToCapacityRatio''"
    | (most) "stType st \<noteq> ''LeastAllocated''" "stType st \<noteq> ''RequestedToCapacityRatio''" by blast
  then show ?thesis
  proof cases
    case least
    show ?thesis unfolding fit(1) Fit_plugin_def
      by (rule resource_plugin_well [OF assms(3)])
        (use free_score_range [OF n(3) [OF least] n(2,1) len _ assms(2)] fit(5) in \<open>fastforce simp: abs_le_iff\<close>)
  next
    case ratio
    obtain shape where s: "scorer (fitScorer f) = requestedToCapacityRatioScorer (resourcesToWeightMap (stResources st)) shape" "shape_ok 10 shape"
      using n(6) [OF ratio] fit(4) ratio by auto
    have w': "\<forall>x\<in>set (stResources st). 0 \<le> rsWeight x \<and> rsWeight x \<le> 2 ^ 32" using w by fastforce
    show ?thesis unfolding fit(1) Fit_plugin_def
      by (rule resource_plugin_well [OF assms(3)]) (use ratio_ra_score [OF s(1) n(2) w' s(2) fit(6)] in blast)
  next
    case most
    show ?thesis unfolding fit(1) Fit_plugin_def
      by (rule resource_plugin_well [OF assms(3)]) (use most_ra_score [OF n(4) [OF most] n(2) w len _ assms(2)] in blast)
  qed
next
  case image
  show ?thesis unfolding image
    by (rule ImageLocality_well [OF assms(3)]) (use assms(2) in \<open>simp add: pod_in_range_def\<close>)
next
  case taint
  show ?thesis unfolding taint using assms(3,4) by (rule TaintToleration_well)
qed

text \<open>
  C36: A run of the score plugins of resources, images and taints, made by their constructors from accepted arguments
  without negative weights and, for \<open>Fit\<close> with the strategy \<open>RequestedToCapacityRatio\<close>, with a shape that is
  not empty, always succeeds on nodes of the snapshot whose amounts are in range, once PreScore has stored the
  tolerations, for at most 4096 resources, of weights up to \<open>2^32\<close> where validation sets no limit. Every plugin gives
  every node, in the order of the nodes, a score between 0 and 100 times its weight, whatever the images and taints
  are, and neither the cycle state nor anything else changes.
\<close>

theorem configured_scores_accepted:
  assumes "\<forall>pl\<in>set pls. configured g snap rd pl" "pod_in_range pod" "nodes_in_range snap nns" "rd (fst sw) = Some tols"
  shows "\<exists>m. RunScorePlugins pls wt pod nns sw = ((m, None), sw) \<and> map fst m = map spName pls \<and>
    (\<forall>(n, scores)\<in>set m. map nsName scores = nns \<and> (\<forall>s\<in>set scores. \<exists>x. 0 \<le> x \<and> x \<le> 100 \<and> nsScore s = wrap64 (x * wt n)))"
proof -
  have w: "\<forall>pl\<in>set pls. scores_well pl pod nns sw" using configured_well [where rd = rd] assms by blast
  then have y: "\<exists>ys. normalized pl pod (raw_scores pl pod nns sw) sw = ((ys, None), sw) \<and> map nsName ys = nns \<and> (\<forall>s\<in>set ys. 0 \<le> nsScore s \<and> nsScore s \<le> 100)"
    if "pl \<in> set pls" for pl using that unfolding scores_well_def by blast
  show ?thesis unfolding RunScorePlugins_well [OF w]
    by (rule exI, rule conjI [OF refl]) (fastforce simp: comp_def dest: y)
qed


section \<open>Negative weights\<close>

lemma pos_mean_zero:
  assumes "\<forall>k\<in>set ks. value_at ws k \<le> 0"
  shows "pos_mean amounts ws ks = 0"
proof -
  have "(\<Sum>(w, s)\<leftarrow>map (\<lambda>k. (max 0 (value_at ws k), free_percent (amounts k))) ks. w) = 0"
    using assms by (induction ks) auto
  then show ?thesis by (simp add: pos_mean_def weighted_mean_def)
qed

lemma neg_mean_positive:
  assumes "ks \<noteq> []" "\<forall>k\<in>set ks. value_at ws k < 0 \<and> 1 \<le> free_percent (amounts k)"
  shows "1 \<le> neg_mean amounts ws ks"
proof -
  let ?W = "\<Sum>k\<leftarrow>ks. max 0 (- value_at ws k)" and ?S = "\<Sum>k\<leftarrow>ks. free_percent (amounts k) * max 0 (- value_at ws k)"
  have "?W \<le> ?S \<and> 0 \<le> ?W" using assms(2)
  proof (induction ks)
    case (Cons k ks)
    then have e: "max 0 (- value_at ws k) = - value_at ws k" "0 \<le> - value_at ws k" by simp_all
    have "1 * (- value_at ws k) \<le> free_percent (amounts k) * (- value_at ws k)" using Cons.prems by (intro mult_right_mono) auto
    moreover have "?case = (- value_at ws k + (\<Sum>k\<leftarrow>ks. max 0 (- value_at ws k)) \<le> free_percent (amounts k) * (- value_at ws k) +
        (\<Sum>k\<leftarrow>ks. free_percent (amounts k) * max 0 (- value_at ws k)) \<and> 0 \<le> - value_at ws k + (\<Sum>k\<leftarrow>ks. max 0 (- value_at ws k)))"
      unfolding list.map sum_list.Cons e(1) ..
    ultimately show ?case using Cons.IH Cons.prems e(2) by (smt (verit) list.set_intros(2))
  qed simp
  moreover have "?W \<noteq> 0"
  proof (cases ks)
    case (Cons k ks')
    have "0 \<le> (\<Sum>k\<leftarrow>ks'. max 0 (- value_at ws k))" by (induction ks') auto
    then show ?thesis using assms(2) Cons by auto
  qed (use assms(1) in simp)
  ultimately have W: "0 < ?W" "?W \<le> ?S" by auto
  have "1 = ?W div ?W" using W(1) by simp
  also have "\<dots> \<le> ?S div ?W" using W(2,1) by (rule zdiv_mono1)
  finally show ?thesis by (simp add: neg_mean_def weighted_mean_def comp_def)
qed

lemma free_percent_positive: "0 < fst a \<Longrightarrow> fst a \<le> (fst a - snd a) * 100 \<Longrightarrow> 1 \<le> free_percent a"
  using zdiv_mono1 [of "fst a" "(fst a - snd a) * 100" "fst a"] by (auto simp: free_percent_def split_def)

text \<open>
  C38: A configuration of the plugin \<open>Fit\<close> by free resources in which all weights are negative, down to -100, passes
  validation, and a plugin is made of it. But prioritising the nodes for a pod fails as soon as one feasible node
  counts at least one of these resources for the pod and would have a hundredth of each of them left, whatever
  the other plugins, weights and extenders are: the score of that node is negative, the normalisation the plugin
  defines is not registered, and the framework rejects scores below 0.
\<close>

theorem negative_weights_stop_scheduling:
  assumes "ValidateNodeResourcesFitArgs (args\<lparr>ScoringStrategy := None\<rparr>) = []" "ScoringStrategy args = Some st"
    "stType st = ''LeastAllocated''" "stRequestedToCapacityRatio st = None"
    "\<forall>x\<in>set (stResources st). - 100 \<le> rsWeight x \<and> rsWeight x < 0" "length (stResources st) \<le> 2 ^ 32" "node_names nds = Ret nns" "nn \<in> set nns" "snap_Get snap nn = Inr ni"
    "pod_in_range pod" "node_in_range ni"
    "scored_resources g False (resourcesToWeightMap (stResources st)) pod ni \<noteq> []"
    "\<forall>k\<in>set (scored_resources g False (resourcesToWeightMap (stResources st)) pod ni).
       case calculateResourceAllocatableRequest g ni pod k False of (alloc, req) \<Rightarrow> alloc \<le> (alloc - req) * 100"
  shows "\<exists>f. NewFit (Some args) = Ret (Inr f) \<and> (Fit_plugin g snap f \<in> set (scorePlugins fw) \<longrightarrow>
    (\<exists>e sw'. prioritizeNodes exts fw pod nds sw = Ret (Inl e, sw')))"
proof -
  have "validateResources (stResources st) ''resources'' = []" using assms(5) by (auto simp: validateResources_ok abs_le_iff)
  then have "ValidateNodeResourcesFitArgs args = []"
    using assms(1,2,4) by (simp add: ValidateNodeResourcesFitArgs_def)
  then obtain f where f: "NewFit (Some args) = Ret (Inr f)"
    using assms(2,3) by (simp add: NewFit_def nodeResourceStrategyTypeMap_def Let_def)
  note n = NewFit_scorer [OF f assms(2)]
  have neg: "\<forall>x\<in>set (stResources st). rsWeight x < 0" using assms(5) by blast
  let ?ws = "resourcesToWeightMap (stResources st)"
  let ?ks = "scored_resources g False ?ws pod ni" and ?a = "\<lambda>k. calculateResourceAllocatableRequest g ni pod k False"
  obtain nd where nd: "node ni = Some nd" using assms(9) by (auto simp: snap_Get_def split: option.split_asm if_splits)
  have w: "value_at ?ws k < 0" if "k \<in> set ?ks" for k by (rule scored_weight [OF neg that])
  have p: "1 \<le> free_percent (?a k)" if k: "k \<in> set ?ks" for k
  proof (rule free_percent_positive)
    have "in_range (fst (?a k))" using scored_range [OF assms(10,11)] by blast
    moreover have "fst (?a k) \<noteq> 0" using k by (simp add: scored_resources_def)
    ultimately show "0 < fst (?a k)" by (simp add: in_range_def)
    show "fst (?a k) \<le> (fst (?a k) - snd (?a k)) * 100" using assms(13) k by (simp add: split_def)
  qed
  define x where "x = free_score g False ?ws pod ni"
  have "pos_mean ?a ?ws ?ks = 0" by (rule pos_mean_zero) (use w in \<open>auto intro: less_imp_le\<close>)
  moreover have "1 \<le> neg_mean ?a ?ws ?ks" by (rule neg_mean_positive [OF assms(12)]) (use w p in auto)
  ultimately have x: "x < 0 \<or> x > 100" by (simp add: x_def free_score_def Let_def)
  have "ra_score g (fitScorer f) pod ni = Ret (x, None)"
    using free_score_range(1) [OF n(3) [OF assms(3)] n(2,1) assms(6) nd assms(10,11), of g] by (simp add: x_def n(5))
  then have "\<forall>sw. fst (spScore (Fit_plugin g snap f) pod nn sw) = (x, None)"
    by (simp add: Fit_plugin_def resource_plugin_def resource_Score_def from_snapshot_def assms(9))
  moreover have "spExtensions (Fit_plugin g snap f) = None" by (simp add: Fit_plugin_def resource_plugin_def)
  ultimately have "\<exists>e sw'. prioritizeNodes exts fw pod nds sw = Ret (Inl e, sw')" if "Fit_plugin g snap f \<in> set (scorePlugins fw)"
    using prioritizeNodes_rejects [OF that _ assms(7,8)] x by blast
  with f show ?thesis by blast
qed

section \<open>The normalisation that is not registered\<close>

interpretation fit_norm: score_normalizer Fit_NormalizeScore
  by unfold_locales (unfold Fit_NormalizeScore_def, rule normalize_body)

lemma fit_registered_well:
  assumes "NewFit (Some args) = Ret (Inr f)" "ScoringStrategy args = Some st" "stType st = ''LeastAllocated''"
    "length (stResources st) \<le> 2 ^ 32" "pod_in_range pod" "nodes_in_range snap nns" "nns \<noteq> []"
  shows "scores_well ((Fit_plugin g snap f)\<lparr>spExtensions := Some (\<lambda>pod scores sw. ((Fit_NormalizeScore scores, None), sw))\<rparr>) pod nns sw"
    (is "scores_well ?pl pod nns sw")
proof -
  note n = NewFit_scorer [OF assms(1,2)]
  have sc: "\<exists>x. spScore ?pl pod nn sw = ((x, None), sw) \<and> \<bar>x\<bar> \<le> 100" if nn: "nn \<in> set nns" for nn
  proof -
    obtain ni nd where ni: "snap_Get snap nn = Inr ni" "node_in_range ni" "node ni = Some nd"
      using nodes_in_range_get [OF assms(6) nn] by blast
    show ?thesis
      using free_score_range(1,2) [OF n(3) [OF assms(3)] n(2,1) assms(4) ni(3) assms(5) ni(2), of g]
      by (simp add: Fit_plugin_def resource_plugin_def resource_Score_def from_snapshot_def ni(1))
  qed
  let ?raw = "raw_scores ?pl pod nns sw"
  have "\<forall>s\<in>set ?raw. \<bar>nsScore s\<bar> \<le> 100" using sc by (fastforce simp: raw_scores_def)
  then have raw: "?raw \<noteq> []" "\<forall>s\<in>set ?raw. \<bar>nsScore s\<bar> \<le> 2 ^ 55" using assms(7) by (force simp: raw_scores_def)+
  have "map nsName (Fit_NormalizeScore ?raw) = nns \<and> (\<forall>s\<in>set (Fit_NormalizeScore ?raw). 0 \<le> nsScore s \<and> nsScore s \<le> 100)"
    using fit_norm.range_and_order [OF raw] by (simp add: raw_scores_def comp_def)
  then show ?thesis unfolding scores_well_def using sc by (auto simp: normalized_def)
qed

section \<open>A shape that is missing\<close>

text \<open>
  With the strategy \<open>RequestedToCapacityRatio\<close> the plugin \<open>Fit\<close> panics on configurations that pass validation: its
  constructor dereferences a nil pointer if the strategy gives no shape, and scoring a node by any resource reads
  outside the slice if the shape is empty.
\<close>

theorem unchecked_shape_panics:
  assumes "ValidateNodeResourcesFitArgs args = []" "ScoringStrategy args = Some st" "stType st = ''RequestedToCapacityRatio''"
    "stRequestedToCapacityRatio st = None \<or> stRequestedToCapacityRatio st = Some []"
    "node ni = Some nd" "scored_resources g False (resourcesToWeightMap (stResources st)) pod ni \<noteq> []"
  shows "case stRequestedToCapacityRatio st of None \<Rightarrow> NewFit (Some args) = Panic NilDereference
    | Some shape \<Rightarrow> (\<exists>f. NewFit (Some args) = Ret (Inr f) \<and> ra_score g (fitScorer f) pod ni = Panic IndexOutOfRange)"
proof (cases "stRequestedToCapacityRatio st")
  case None
  then show ?thesis using assms(1-3) by (simp add: NewFit_def nodeResourceStrategyTypeMap_def Let_def)
next
  case (Some shape)
  then have shape: "shape = []" using assms(4) by simp
  let ?ws = "resourcesToWeightMap (stResources st)"
  define r where "r = \<lparr>raName = RequestedToCapacityRatioName, scorer = requestedToCapacityRatioScorer ?ws [], resourceToWeight = Some ?ws, enableOverhead = False\<rparr>"
  have f: "NewFit (Some args) = Ret (Inr \<lparr>ignoredResources = IgnoredResources args, ignoredResourceGroups = IgnoredResourceGroups args, fitScorer = r\<rparr>)"
    using assms(1-3) Some shape by (simp add: NewFit_def nodeResourceStrategyTypeMap_def Let_def r_def)
  have p: "resourceScoringFunction [] a c = Panic IndexOutOfRange" for a c by (simp add: resourceScoringFunction_def)
  have l: "ratio_loop [] ?ws req al ks (0, 0) = Panic IndexOutOfRange" if "ks \<noteq> []" for req al ks
    using that by (cases ks) (simp_all add: p)
  have rr: "resourceToWeight r = Some ?ws" "scorer r = requestedToCapacityRatioScorer ?ws []" "enableOverhead r = False" by (simp_all add: r_def)
  have "ra_score g r pod ni = Panic IndexOutOfRange"
    unfolding ra_score_eq [OF assms(5) rr(1)] rr
    using assms(6) by (simp add: requestedToCapacityRatioScorer_def buildRequestedToCapacityRatioScorerFunction_def l comp_def)
  with f Some show ?thesis by auto
qed


section \<open>The request of a pod\<close>

lemma GetNonzeroRequests_eq:
  "GetNonzeroRequests rl = (GetNonzeroRequestForResource g ''cpu'' rl, GetNonzeroRequestForResource g ''memory'' rl)"
  by (simp add: GetNonzeroRequests_def GetNonzeroRequestForResource_def)

lemma add_containers_snd:
  "snd (foldl (add_container g) t cs) =
    (foldl (\<lambda>s c. wrap64 (s + GetNonzeroRequestForResource g ''cpu'' (Requests c))) (fst (snd t)) cs,
     foldl (\<lambda>s c. wrap64 (s + GetNonzeroRequestForResource g ''memory'' (Requests c))) (snd (snd t)) cs)"
  by (induction cs arbitrary: t) (simp_all add: add_container_def split_def GetNonzeroRequests_eq [of _ g])

lemma max_containers_snd:
  "snd (foldl (max_container g) t cs) =
    (foldl (\<lambda>s c. let v = GetNonzeroRequestForResource g ''cpu'' (Requests c) in if s < v then v else s) (fst (snd t)) cs,
     foldl (\<lambda>s c. let v = GetNonzeroRequestForResource g ''memory'' (Requests c) in if s < v then v else s) (snd (snd t)) cs)"
proof (induction cs arbitrary: t)
  case (Cons c cs)
  have "snd (max_container g t c) = (let v = GetNonzeroRequestForResource g ''cpu'' (Requests c) in if fst (snd t) < v then v else fst (snd t),
      let v = GetNonzeroRequestForResource g ''memory'' (Requests c) in if snd (snd t) < v then v else snd (snd t))"
    by (auto simp: max_container_def split_def GetNonzeroRequests_eq [of _ g] Let_def)
  then show ?case by (simp add: Cons)
qed simp

text \<open>An amount with the overhead of the pod on top, if it is to be counted and the pod has one.\<close>

definition plus_overhead :: "bool \<Rightarrow> (quantity \<Rightarrow> int) \<Rightarrow> kpod \<Rightarrow> string \<Rightarrow> int \<Rightarrow> int" where
  "plus_overhead on amount pod resource x = (case Overhead pod of None \<Rightarrow> x
     | Some ov \<Rightarrow> if on then (case map_of ov resource of None \<Rightarrow> x | Some q \<Rightarrow> wrap64 (x + amount q)) else x)"

text \<open>
  C39: What scoring counts for a pod and what the node information counts once the pod is placed differ only by the
  overhead of the pod. Both start from the same processor time and the same memory of the containers. The node
  information adds the overhead if the feature is on, processor time in thousandths. Scoring adds it if its caller
  asks for it, processor time in whole units. So for a caller that follows the feature the memory is the same;
  the scorers of \<open>Fit\<close> never ask, and leave out the overhead that the node information counts.
\<close>

theorem scored_request_is_accounted:
  "let cpu = calculatePodResourceRequest g pod ''cpu'' False; memory = calculatePodResourceRequest g pod ''memory'' False
   in calculatePodResourceRequest g pod ''cpu'' enablePodOverhead = plus_overhead enablePodOverhead Value pod ''cpu'' cpu \<and>
      calculatePodResourceRequest g pod ''memory'' enablePodOverhead = plus_overhead enablePodOverhead Value pod ''memory'' memory \<and>
      snd (calculateResource g pod) =
        (plus_overhead (PodOverhead g) MilliValue pod ''cpu'' cpu, plus_overhead (PodOverhead g) Value pod ''memory'' memory)"
proof -
  obtain res c m where t: "foldl (max_container g) (foldl (add_container g) (zero_resource, 0, 0) (Containers pod)) (InitContainers pod) = (res, c, m)"
    by (rule prod_cases3)
  have base: "calculatePodResourceRequest g pod ''cpu'' en = plus_overhead en Value pod ''cpu'' c"
    "calculatePodResourceRequest g pod ''memory'' en = plus_overhead en Value pod ''memory'' m" for en
    using arg_cong [OF t, of snd] unfolding max_containers_snd add_containers_snd calculatePodResourceRequest_def plus_overhead_def
    by (simp_all add: Let_def split: option.split)
  have off: "plus_overhead False amount pod k x = x" for amount k x by (simp add: plus_overhead_def split: option.split)
  have "snd (calculateResource g pod) = (plus_overhead (PodOverhead g) MilliValue pod ''cpu'' c, plus_overhead (PodOverhead g) Value pod ''memory'' m)"
    by (auto simp: calculateResource_def t wrap_simps plus_overhead_def split: option.split bool.split)
  then show ?thesis by (simp add: Let_def base off)
qed

end
