(* ===== verification/Node_Score_Examples.thy ===== *)
theory Node_Score_Examples
  imports Node_Score_Props Generic_Props
begin

text \<open>
  The scoring plugins on a small cluster: one node with a free processor, on which the properties of
  \<open>Node_Score_Props\<close> apply, and a mixture of weights that drives a score out of range.
\<close>

definition score_gates :: gates where
  "score_gates = \<lparr>IsScalarResourceName = (\<lambda>_. False), LocalStorage = True, PodOverhead = True\<rparr>"

definition score_pod :: kpod where
  "score_pod = (ex_pod ''p'')\<lparr>Containers := [\<lparr>Requests = [(''cpu'', \<lparr>MilliValue = 250, Value = 1\<rparr>), (''memory'', \<lparr>MilliValue = 100000, Value = 100\<rparr>)], Ports = [], Image = ''a''\<rparr>]\<rparr>"

definition score_info :: nodeInfo where
  "score_info = (ex_node ''n1'')\<lparr>Allocatable := zero_resource\<lparr>MilliCPU := 1000, Memory := 1000\<rparr>\<rparr>"

definition score_snap :: snapshot where
  "score_snap = NewEmptySnapshot\<lparr>nodeInfoMap := [(''n1'', score_info)], nodeInfoList := [''n1'']\<rparr>"

definition cpu_and_memory :: "int \<Rightarrow> int \<Rightarrow> resourceSpec list" where
  "cpu_and_memory a b = [\<lparr>rsName = ''cpu'', rsWeight = a\<rparr>, \<lparr>rsName = ''memory'', rsWeight = b\<rparr>]"

definition fit_args :: "string \<Rightarrow> resourceSpec list \<Rightarrow> functionShapePoint list option \<Rightarrow> nodeResourcesFitArgs" where
  "fit_args t rs shape = \<lparr>IgnoredResources = [], IgnoredResourceGroups = [],
     ScoringStrategy = Some \<lparr>stType = t, stResources = rs, stRequestedToCapacityRatio = shape\<rparr>\<rparr>"

lemma score_node: "node score_info = Some \<lparr>knodeName = ''n1'', nodeLabels = [], nodeAllocatable = [], nodeImages = [], specUnschedulable = False, Taints = [], nodeConditions = []\<rparr>"
  by (simp add: score_info_def ex_node_def)

lemma score_get: "snap_Get score_snap ''n1'' = Inr score_info"
  by (simp add: score_snap_def snap_Get_def score_node)

lemma score_ranges: "pod_in_range score_pod" "node_in_range score_info" "nodes_in_range score_snap [''n1'']"
proof -
  show "pod_in_range score_pod" by (simp add: pod_in_range_def score_pod_def ex_pod_def requests_ok_def)
  show n: "node_in_range score_info"
    by (simp add: node_in_range_def score_info_def ex_node_def resource_in_range_def in_range_def zero_resource_def)
  show "nodes_in_range score_snap [''n1'']" using n by (simp add: nodes_in_range_def score_get score_node)
qed

theorem least_allocated_score_witness:
  "\<exists>r. NewLeastAllocated False (Some (cpu_and_memory 1 (- 3))) = Inr r \<and> ra_score score_gates r score_pod score_info = Ret (- 15, None)"
proof -
  obtain r where r: "NewLeastAllocated False (Some (cpu_and_memory 1 (- 3))) = Inr r"
    unfolding NewLeast_iff by (simp add: cpu_and_memory_def)
  have "free_score score_gates False (resourcesToWeightMap (cpu_and_memory 1 (- 3))) score_pod score_info = - 15" by code_simp
  then show ?thesis using least_allocated_score [OF r _ score_node score_ranges(1,2), of score_gates] r by (simp add: cpu_and_memory_def)
qed

definition score_plugins :: "resourceAllocationScorer \<Rightarrow> fitScorePlugin \<Rightarrow> (unit, unit) scorePlugin list" where
  "score_plugins r f = [resource_plugin score_gates score_snap LeastAllocatedName r, Fit_plugin score_gates score_snap f,
     ImageLocality_plugin score_snap, TaintToleration_plugin (\<lambda>s. Some []) score_snap]"

text \<open>Three quarters of the processor and nine tenths of the memory are free; a rising shape counts what is used.\<close>

definition rising :: "functionShapePoint list" where
  "rising = [\<lparr>Utilization = 0, ptScore = 0\<rparr>, \<lparr>Utilization = 100, ptScore = 10\<rparr>]"

lemma score_scorers:
  obtains r f where "NewLeastAllocated False (Some (cpu_and_memory 1 1)) = Inr r"
    "NewFit (Some (fit_args ''RequestedToCapacityRatio'' (cpu_and_memory 1 1) (Some rising))) = Ret (Inr f)"
proof -
  have "validateFunctionShape rising ''shape'' = []" unfolding validateFunctionShape_ok by (simp add: shape_ok_def rising_def)
  then have "\<exists>f. NewFit (Some (fit_args ''RequestedToCapacityRatio'' (cpu_and_memory 1 1) (Some rising))) = Ret (Inr f)"
    by (simp add: NewFit_def ValidateNodeResourcesFitArgs_def fit_args_def cpu_and_memory_def validateResources_def nodeResourceStrategyTypeMap_def Let_def)
  moreover have "\<exists>r. NewLeastAllocated False (Some (cpu_and_memory 1 1)) = Inr r" unfolding NewLeast_iff by (simp add: cpu_and_memory_def)
  ultimately show ?thesis using that by blast
qed

theorem configured_scores_accepted_witness:
  "\<exists>r f m. NewLeastAllocated False (Some (cpu_and_memory 1 1)) = Inr r \<and>
     NewFit (Some (fit_args ''RequestedToCapacityRatio'' (cpu_and_memory 1 1) (Some rising))) = Ret (Inr f) \<and>
     RunScorePlugins (score_plugins r f) (\<lambda>_. 1) score_pod [''n1''] ((), ()) = ((m, None), ((), ())) \<and>
     map fst m = [LeastAllocatedName, FitName, ''ImageLocality'', ''TaintToleration'']"
proof -
  obtain r f where rf: "NewLeastAllocated False (Some (cpu_and_memory 1 1)) = Inr r"
    "NewFit (Some (fit_args ''RequestedToCapacityRatio'' (cpu_and_memory 1 1) (Some rising))) = Ret (Inr f)" by (rule score_scorers)
  have w: "\<forall>x\<in>set (cpu_and_memory 1 1). 0 \<le> rsWeight x" "length (cpu_and_memory 1 1) \<le> 2 ^ 12" by (simp_all add: cpu_and_memory_def)
  have st: "ScoringStrategy (fit_args ''RequestedToCapacityRatio'' (cpu_and_memory 1 1) (Some rising)) =
      Some \<lparr>stType = ''RequestedToCapacityRatio'', stResources = cpu_and_memory 1 1, stRequestedToCapacityRatio = Some rising\<rparr>"
    by (simp add: fit_args_def)
  have "configured score_gates score_snap (\<lambda>s :: unit. Some []) (Fit_plugin score_gates score_snap f :: (unit, unit) scorePlugin)"
    by (rule configured.fit [OF rf(2) st]) (use w in \<open>simp_all add: rising_def\<close>)
  then have c: "\<forall>pl\<in>set (score_plugins r f). configured score_gates score_snap (\<lambda>s. Some []) pl"
    by (auto simp: score_plugins_def intro: configured.least [OF rf(1) w] configured.image configured.taint)
  obtain m where "RunScorePlugins (score_plugins r f) (\<lambda>_. 1) score_pod [''n1''] ((), ()) = ((m, None), ((), ()))" "map fst m = map spName (score_plugins r f)"
    using configured_scores_accepted [OF c score_ranges(1,3), where sw = "((), ())" and tols = "[]" and wt = "\<lambda>_. 1"] by auto
  then show ?thesis using rf by (auto simp: score_plugins_def resource_plugin_def Fit_plugin_def ImageLocality_plugin_def TaintToleration_plugin_def)
qed

definition neg_fwk :: "fitScorePlugin \<Rightarrow> (unit, unit) fwk" where
  "neg_fwk f = ex_fwk\<lparr>scorePlugins := [Fit_plugin score_gates score_snap f]\<rparr>"

theorem negative_weights_stop_scheduling_witness:
  "\<exists>f e sw'. NewFit (Some (fit_args ''LeastAllocated'' (cpu_and_memory (- 1) (- 1)) None)) = Ret (Inr f) \<and>
     prioritizeNodes [] (neg_fwk f) score_pod [node score_info] ((), ()) = Ret (Inl e, sw')"
proof -
  let ?args = "fit_args ''LeastAllocated'' (cpu_and_memory (- 1) (- 1)) None"
  have v: "ValidateNodeResourcesFitArgs (?args\<lparr>ScoringStrategy := None\<rparr>) = []" by (simp add: ValidateNodeResourcesFitArgs_def fit_args_def)
  have st: "ScoringStrategy ?args = Some \<lparr>stType = ''LeastAllocated'', stResources = cpu_and_memory (- 1) (- 1), stRequestedToCapacityRatio = None\<rparr>"
    by (simp add: fit_args_def)
  have ks: "scored_resources score_gates False (resourcesToWeightMap (cpu_and_memory (- 1) (- 1))) score_pod score_info = [''cpu'', ''memory'']"
    by code_simp
  have a: "calculateResourceAllocatableRequest score_gates score_info score_pod ''cpu'' False = (1000, 250)"
    "calculateResourceAllocatableRequest score_gates score_info score_pod ''memory'' False = (1000, 100)" by code_simp+
  have w: "\<forall>x\<in>set (cpu_and_memory (- 1) (- 1)). - 100 \<le> rsWeight x \<and> rsWeight x < 0" "length (cpu_and_memory (- 1) (- 1)) = 2" by (simp_all add: cpu_and_memory_def)
  have "\<exists>f. NewFit (Some ?args) = Ret (Inr f) \<and> (Fit_plugin score_gates score_snap f \<in> set (scorePlugins (neg_fwk h)) \<longrightarrow>
      (\<exists>e sw'. prioritizeNodes [] (neg_fwk h) score_pod [node score_info] ((), ()) = Ret (Inl e, sw')))" for h
    by (rule negative_weights_stop_scheduling [OF v st, where nn = "''n1''" and ni = score_info and nns = "[''n1'']"])
      (simp_all add: ks a score_ranges score_get score_node node_name_def w)
  then obtain F where F: "\<And>h. NewFit (Some ?args) = Ret (Inr (F h)) \<and> (Fit_plugin score_gates score_snap (F h) \<in> set (scorePlugins (neg_fwk h)) \<longrightarrow>
      (\<exists>e sw'. prioritizeNodes [] (neg_fwk h) score_pod [node score_info] ((), ()) = Ret (Inl e, sw')))" by metis
  have "F (F undefined) = F undefined" using F by (metis go.inject(1) sum.inject(2))
  then show ?thesis using F [of "F undefined"] by (auto simp: neg_fwk_def)
qed

theorem unchecked_shape_panics_witness:
  "NewFit (Some (fit_args ''RequestedToCapacityRatio'' (cpu_and_memory 1 1) None)) = Panic NilDereference \<and>
   (\<exists>f. NewFit (Some (fit_args ''RequestedToCapacityRatio'' (cpu_and_memory 1 1) (Some []))) = Ret (Inr f) \<and>
     ra_score score_gates (fitScorer f) score_pod score_info = Panic IndexOutOfRange)"
proof -
  have v: "ValidateNodeResourcesFitArgs (fit_args t (cpu_and_memory 1 1) s) = []" if "s = None \<or> s = Some []" for t s
    using that by (auto simp: ValidateNodeResourcesFitArgs_def fit_args_def cpu_and_memory_def validateResources_def)
  have st: "ScoringStrategy (fit_args t (cpu_and_memory 1 1) s) = Some \<lparr>stType = t, stResources = cpu_and_memory 1 1, stRequestedToCapacityRatio = s\<rparr>" for t s
    by (simp add: fit_args_def)
  have ks: "scored_resources score_gates False (resourcesToWeightMap (cpu_and_memory 1 1)) score_pod score_info = [''cpu'', ''memory'']" by code_simp
  show ?thesis
    using unchecked_shape_panics [OF v st _ _ score_node, of None _ score_gates score_pod]
      unchecked_shape_panics [OF v st _ _ score_node, of "Some []" _ score_gates score_pod] by (simp add: ks)
qed

text \<open>
  Weights of both signs are accepted, but the mean over used resources divides by their sum: a node with a free
  processor and a full memory gets 200 of 100 points.
\<close>

lemma most_allocated_out_of_range:
  "validateResources (cpu_and_memory 2 (- 1)) ''resources'' = [] \<and>
   mostResourceScorer (resourcesToWeightMap (cpu_and_memory 2 (- 1))) [(''cpu'', 1000), (''memory'', 0)] [(''cpu'', 1000), (''memory'', 1000)] = 200"
proof
  show "validateResources (cpu_and_memory 2 (- 1)) ''resources'' = []" by (simp add: validateResources_def cpu_and_memory_def)
  show "mostResourceScorer (resourcesToWeightMap (cpu_and_memory 2 (- 1))) [(''cpu'', 1000), (''memory'', 0)] [(''cpu'', 1000), (''memory'', 1000)] = 200"
    by code_simp
qed

end
