(* ===== verification/Pod_Affinity.thy ===== *)
theory Pod_Affinity
  imports Fw_Runtime Sched_Snapshot
begin

text \<open>
  The filter of the plugin for affinity between pods (\<open>plugins/interpodaffinity/filtering.go\<close> and
  \<open>plugin.go\<close>) and the affinity terms of a pod (\<open>framework/types.go\<close>). \<open>PreFilter\<close> counts, for each label of a
  node, the pods that match terms; the counts are kept while preemption and nominated pods add and remove pods, and
  \<open>Filter\<close> looks only at the counts. The lister of namespaces is a parameter.
\<close>

section \<open>The terms of a pod\<close>

record affinityTerm =
  atNamespaces :: "string list"
  atSelector :: selector
  atTopologyKey :: string
  atNamespaceSelector :: selector

definition getNamespacesFromPodAffinityTerm :: "kpod \<Rightarrow> podAffinityTerm \<Rightarrow> string list" where
  "getNamespacesFromPodAffinityTerm pod t =
     (if ptNamespaces t = [] \<and> ptNamespaceSelector t = None then [kNamespace pod] else remdups (ptNamespaces t))"

definition newAffinityTerm :: "kpod \<Rightarrow> podAffinityTerm \<Rightarrow> selector_error + affinityTerm" where
  "newAffinityTerm pod t = (case LabelSelectorAsSelector (ptLabelSelector t) of Inl e \<Rightarrow> Inl e
     | Inr sel \<Rightarrow> (case LabelSelectorAsSelector (ptNamespaceSelector t) of Inl e \<Rightarrow> Inl e
         | Inr nsSelector \<Rightarrow> Inr \<lparr>atNamespaces = getNamespacesFromPodAffinityTerm pod t, atSelector = sel,
              atTopologyKey = ptTopologyKey t, atNamespaceSelector = nsSelector\<rparr>))"

fun getAffinityTerms :: "kpod \<Rightarrow> podAffinityTerm list \<Rightarrow> selector_error + affinityTerm list" where
  "getAffinityTerms pod [] = Inr []"
| "getAffinityTerms pod (t # ts) = (case newAffinityTerm pod t of Inl e \<Rightarrow> Inl e
     | Inr at \<Rightarrow> (case getAffinityTerms pod ts of Inl e \<Rightarrow> Inl e | Inr ats \<Rightarrow> Inr (at # ats)))"

fun getWeightedAffinityTerms :: "kpod \<Rightarrow> (int \<times> podAffinityTerm) list \<Rightarrow> selector_error + (affinityTerm \<times> int) list" where
  "getWeightedAffinityTerms pod [] = Inr []"
| "getWeightedAffinityTerms pod ((w, t) # ts) = (case newAffinityTerm pod t of Inl e \<Rightarrow> Inl e
     | Inr at \<Rightarrow> (case getWeightedAffinityTerms pod ts of Inl e \<Rightarrow> Inl e | Inr ats \<Rightarrow> Inr ((at, w) # ats)))"

definition getPodAffinityTerms :: "affinity option \<Rightarrow> podAffinityTerm list" where
  "getPodAffinityTerms a = (case a of None \<Rightarrow> [] | Some a \<Rightarrow> (case PodAffinity a of None \<Rightarrow> [] | Some pa \<Rightarrow> RequiredTerms pa))"

definition getPodAntiAffinityTerms :: "affinity option \<Rightarrow> podAffinityTerm list" where
  "getPodAntiAffinityTerms a = (case a of None \<Rightarrow> [] | Some a \<Rightarrow> (case PodAntiAffinity a of None \<Rightarrow> [] | Some pa \<Rightarrow> RequiredTerms pa))"

text \<open>A group of terms that does not parse is empty, and its error is kept.\<close>

record podInfo =
  piPod :: kpod
  RequiredAffinityTerms :: "affinityTerm list"
  RequiredAntiAffinityTerms :: "affinityTerm list"
  PreferredAffinityTerms :: "(affinityTerm \<times> int) list"
  PreferredAntiAffinityTerms :: "(affinityTerm \<times> int) list"
  ParseError :: "selector_error list"

definition terms_or_nil :: "selector_error + 'a list \<Rightarrow> 'a list" where
  "terms_or_nil r = (case r of Inl e \<Rightarrow> [] | Inr ts \<Rightarrow> ts)"

definition parse_errors :: "selector_error + 'a list \<Rightarrow> selector_error list" where
  "parse_errors r = (case r of Inl e \<Rightarrow> [e] | Inr ts \<Rightarrow> [])"

definition NewPodInfo :: "kpod \<Rightarrow> podInfo" where
  "NewPodInfo pod =
     (let preferredAffinity = (case Affinity pod of None \<Rightarrow> [] | Some a \<Rightarrow> (case PodAffinity a of None \<Rightarrow> [] | Some pa \<Rightarrow> PreferredTerms pa));
          preferredAntiAffinity = (case Affinity pod of None \<Rightarrow> [] | Some a \<Rightarrow> (case PodAntiAffinity a of None \<Rightarrow> [] | Some pa \<Rightarrow> PreferredTerms pa));
          required = getAffinityTerms pod (getPodAffinityTerms (Affinity pod));
          requiredAnti = getAffinityTerms pod (getPodAntiAffinityTerms (Affinity pod));
          weighted = getWeightedAffinityTerms pod preferredAffinity;
          weightedAnti = getWeightedAffinityTerms pod preferredAntiAffinity
      in \<lparr>piPod = pod, RequiredAffinityTerms = terms_or_nil required, RequiredAntiAffinityTerms = terms_or_nil requiredAnti,
          PreferredAffinityTerms = terms_or_nil weighted, PreferredAntiAffinityTerms = terms_or_nil weightedAnti,
          ParseError = parse_errors required @ parse_errors requiredAnti @ parse_errors weighted @ parse_errors weightedAnti\<rparr>)"

definition term_Matches :: "affinityTerm \<Rightarrow> kpod \<Rightarrow> labels \<Rightarrow> bool \<Rightarrow> bool" where
  "term_Matches at pod nsLabels nsSelectorEnabled \<longleftrightarrow>
     (kNamespace pod \<in> set (atNamespaces at) \<or> nsSelectorEnabled \<and> selector_Matches (atNamespaceSelector at) nsLabels) \<and>
     selector_Matches (atSelector at) (podLabels pod)"

definition podMatchesAllAffinityTerms :: "affinityTerm list \<Rightarrow> kpod \<Rightarrow> bool \<Rightarrow> bool" where
  "podMatchesAllAffinityTerms terms pod enableNamespaceSelector \<longleftrightarrow>
     terms \<noteq> [] \<and> list_all (\<lambda>t. term_Matches t pod [] enableNamespaceSelector) terms"

section \<open>Counts\<close>

type_synonym topologyPair = "string \<times> string"
type_synonym termCounts = "(topologyPair \<times> int) list"

definition counts_get :: "termCounts \<Rightarrow> topologyPair \<Rightarrow> int" where
  "counts_get m p = (case map_of m p of None \<Rightarrow> 0 | Some v \<Rightarrow> v)"

definition counts_append :: "termCounts \<Rightarrow> termCounts \<Rightarrow> termCounts" where
  "counts_append m toAppend = foldl (\<lambda>m (pair, v). AList.update pair (wrap64 (counts_get m pair + v)) m) m toAppend"

definition counts_clone :: "termCounts \<Rightarrow> termCounts" where
  "counts_clone m = counts_append [] m"

definition counts_update :: "termCounts \<Rightarrow> knode \<Rightarrow> string \<Rightarrow> int \<Rightarrow> termCounts" where
  "counts_update m nd tk v = (case map_of (nodeLabels nd) tk of None \<Rightarrow> m
     | Some tv \<Rightarrow> (let pair = (tk, tv); n = wrap64 (counts_get m pair + v)
                   in if n = 0 then AList.delete pair m else AList.update pair n m))"

definition updateWithAffinityTerms :: "termCounts \<Rightarrow> affinityTerm list \<Rightarrow> kpod \<Rightarrow> knode \<Rightarrow> int \<Rightarrow> bool \<Rightarrow> termCounts" where
  "updateWithAffinityTerms m terms pod nd v enableNamespaceSelector =
     (if podMatchesAllAffinityTerms terms pod enableNamespaceSelector
      then foldl (\<lambda>m t. counts_update m nd (atTopologyKey t) v) m terms else m)"

definition updateWithAntiAffinityTerms :: "termCounts \<Rightarrow> affinityTerm list \<Rightarrow> kpod \<Rightarrow> labels \<Rightarrow> knode \<Rightarrow> int \<Rightarrow> bool \<Rightarrow> termCounts" where
  "updateWithAntiAffinityTerms m terms pod nsLabels nd v enableNamespaceSelector =
     foldl (\<lambda>m t. if term_Matches t pod nsLabels enableNamespaceSelector then counts_update m nd (atTopologyKey t) v else m) m terms"

record affinityState =
  existingAntiAffinityCounts :: termCounts
  affinityCounts :: termCounts
  antiAffinityCounts :: termCounts
  asPodInfo :: podInfo
  namespaceLabels :: labels
  enableNamespaceSelector :: bool

definition affinity_Clone :: "affinityState \<Rightarrow> affinityState" where
  "affinity_Clone s = s\<lparr>affinityCounts := counts_clone (affinityCounts s), antiAffinityCounts := counts_clone (antiAffinityCounts s),
     existingAntiAffinityCounts := counts_clone (existingAntiAffinityCounts s)\<rparr>"

definition updateWithPod :: "affinityState \<Rightarrow> podInfo \<Rightarrow> knode \<Rightarrow> int \<Rightarrow> affinityState" where
  "updateWithPod s pInfo nd multiplier = s\<lparr>
     existingAntiAffinityCounts := updateWithAntiAffinityTerms (existingAntiAffinityCounts s) (RequiredAntiAffinityTerms pInfo)
       (piPod (asPodInfo s)) (namespaceLabels s) nd multiplier (enableNamespaceSelector s),
     affinityCounts := updateWithAffinityTerms (affinityCounts s) (RequiredAffinityTerms (asPodInfo s)) (piPod pInfo) nd multiplier (enableNamespaceSelector s),
     antiAffinityCounts := updateWithAntiAffinityTerms (antiAffinityCounts s) (RequiredAntiAffinityTerms (asPodInfo s))
       (piPod pInfo) [] nd multiplier (enableNamespaceSelector s)\<rparr>"

section \<open>PreFilter\<close>

text \<open>
  Nodes are counted in the order of the indices, and a node without matches leaves no entry. A node whose
  object is missing is skipped.
\<close>

definition existing_of_node :: "kpod \<Rightarrow> labels \<Rightarrow> bool \<Rightarrow> nodeInfo \<Rightarrow> termCounts option" where
  "existing_of_node pod nsLabels en ni = (case node ni of None \<Rightarrow> None
     | Some nd \<Rightarrow> (let topoMap = foldl (\<lambda>m existingPod.
           updateWithAntiAffinityTerms m (RequiredAntiAffinityTerms (NewPodInfo existingPod)) pod nsLabels nd 1 en) [] (PodsWithRequiredAntiAffinity ni)
         in if topoMap \<noteq> [] then Some topoMap else None))"

definition getExistingAntiAffinityCounts :: "kpod \<Rightarrow> labels \<Rightarrow> nodeInfo list \<Rightarrow> bool \<Rightarrow> termCounts" where
  "getExistingAntiAffinityCounts pod nsLabels nis en = foldl counts_append [] (List.map_filter (existing_of_node pod nsLabels en) nis)"

definition incoming_of_node :: "podInfo \<Rightarrow> bool \<Rightarrow> nodeInfo \<Rightarrow> (termCounts \<times> termCounts) option" where
  "incoming_of_node pInfo en ni = (case node ni of None \<Rightarrow> None
     | Some nd \<Rightarrow>
         (let aff = foldl (\<lambda>m existingPod. updateWithAffinityTerms m (RequiredAffinityTerms pInfo) existingPod nd 1 en) [] (Pods ni);
              anti = foldl (\<lambda>m existingPod. updateWithAntiAffinityTerms m (RequiredAntiAffinityTerms pInfo) existingPod [] nd 1 en) [] (Pods ni)
          in if aff \<noteq> [] \<or> anti \<noteq> [] then Some (aff, anti) else None))"

definition getIncomingAffinityAntiAffinityCounts :: "podInfo \<Rightarrow> nodeInfo list \<Rightarrow> bool \<Rightarrow> termCounts \<times> termCounts" where
  "getIncomingAffinityAntiAffinityCounts pInfo allNodes en =
     (if RequiredAffinityTerms pInfo = [] \<and> RequiredAntiAffinityTerms pInfo = [] then ([], [])
      else foldl (\<lambda>(aff, anti) (a, b). (counts_append aff a, counts_append anti b)) ([], [])
             (List.map_filter (incoming_of_node pInfo en) allNodes))"

text \<open>The lister: names of the namespaces a selector matches, and the labels of a namespace.\<close>

record affinityPlugin =
  nsList :: "selector \<Rightarrow> string + string list"
  nsGet :: "string \<Rightarrow> labels option"
  plEnableNamespaceSelector :: bool

definition mergeAffinityTermNamespacesIfNotEmpty :: "affinityPlugin \<Rightarrow> affinityTerm \<Rightarrow> string + affinityTerm" where
  "mergeAffinityTermNamespacesIfNotEmpty pl at = (if selector_Empty (atNamespaceSelector at) then Inr at
     else case nsList pl (atNamespaceSelector at) of Inl e \<Rightarrow> Inl e
       | Inr ns \<Rightarrow> Inr (at\<lparr>atNamespaces := remdups (atNamespaces at @ ns), atNamespaceSelector := NothingSelector\<rparr>))"

fun merge_terms :: "affinityPlugin \<Rightarrow> affinityTerm list \<Rightarrow> string + affinityTerm list" where
  "merge_terms pl [] = Inr []"
| "merge_terms pl (at # ats) = (case mergeAffinityTermNamespacesIfNotEmpty pl at of Inl e \<Rightarrow> Inl e
     | Inr at' \<Rightarrow> (case merge_terms pl ats of Inl e \<Rightarrow> Inl e | Inr ats' \<Rightarrow> Inr (at' # ats')))"

definition GetNamespaceLabelsSnapshot :: "affinityPlugin \<Rightarrow> string \<Rightarrow> labels" where
  "GetNamespaceLabelsSnapshot pl ns = (case nsGet pl ns of None \<Rightarrow> [] | Some ls \<Rightarrow> ls)"

text \<open>The terms of the incoming pod with the namespaces its selectors stand for, or the status that ends \<open>PreFilter\<close>.\<close>

definition prepare_terms :: "affinityPlugin \<Rightarrow> kpod \<Rightarrow> statusp + podInfo" where
  "prepare_terms pl pod =
     (let pInfo = NewPodInfo pod
      in if ParseError pInfo \<noteq> [] then Inl (NewStatus UnschedulableAndUnresolvable [''parsing pod''])
         else if plEnableNamespaceSelector pl
         then case merge_terms pl (RequiredAffinityTerms pInfo) of Inl e \<Rightarrow> Inl (AsStatus e)
           | Inr aff \<Rightarrow> (case merge_terms pl (RequiredAntiAffinityTerms pInfo) of Inl e \<Rightarrow> Inl (AsStatus e)
               | Inr anti \<Rightarrow> Inr (pInfo\<lparr>RequiredAffinityTerms := aff, RequiredAntiAffinityTerms := anti\<rparr>))
         else Inr pInfo)"

definition affinity_PreFilter :: "affinityPlugin \<Rightarrow> snapshot \<Rightarrow> kpod \<Rightarrow> affinityState option \<Rightarrow> statusp \<times> affinityState option" where
  "affinity_PreFilter pl snap pod state = (case prepare_terms pl pod of Inl st \<Rightarrow> (st, state)
     | Inr pInfo \<Rightarrow>
         (let en = plEnableNamespaceSelector pl;
              nsLabels = (if en then GetNamespaceLabelsSnapshot pl (kNamespace pod) else []);
              (aff, anti) = getIncomingAffinityAntiAffinityCounts pInfo (snap_List snap) en
          in (None, Some \<lparr>existingAntiAffinityCounts = getExistingAntiAffinityCounts pod nsLabels (HavePodsWithRequiredAntiAffinityList snap) en,
                affinityCounts = aff, antiAffinityCounts = anti, asPodInfo = pInfo, namespaceLabels = nsLabels, enableNamespaceSelector = en\<rparr>)))"

section \<open>Adding and removing pods\<close>

definition state_missing :: statusp where
  "state_missing = AsStatus (''error reading '' @ quoted_name ''PreFilterInterPodAffinity'' @ '' from cycleState: not found'')"

text \<open>The node is used only when a term matches; \<open>nodeInfo.Node()\<close> is present wherever the framework calls these.\<close>

definition affinity_AddPod :: "podInfo \<Rightarrow> knode \<Rightarrow> affinityState option \<Rightarrow> statusp \<times> affinityState option" where
  "affinity_AddPod podInfoToAdd nd state = (case state of None \<Rightarrow> (state_missing, None)
     | Some s \<Rightarrow> (None, Some (updateWithPod s podInfoToAdd nd 1)))"

definition affinity_RemovePod :: "podInfo \<Rightarrow> knode \<Rightarrow> affinityState option \<Rightarrow> statusp \<times> affinityState option" where
  "affinity_RemovePod podInfoToRemove nd state = (case state of None \<Rightarrow> (state_missing, None)
     | Some s \<Rightarrow> (None, Some (updateWithPod s podInfoToRemove nd (- 1))))"

section \<open>Filter\<close>

definition satisfyExistingPodsAntiAffinity :: "affinityState \<Rightarrow> knode \<Rightarrow> bool" where
  "satisfyExistingPodsAntiAffinity s nd \<longleftrightarrow> existingAntiAffinityCounts s = [] \<or>
     list_all (\<lambda>tp. \<not> counts_get (existingAntiAffinityCounts s) tp > 0) (nodeLabels nd)"

definition satisfyPodAntiAffinity :: "affinityState \<Rightarrow> knode \<Rightarrow> bool" where
  "satisfyPodAntiAffinity s nd \<longleftrightarrow> antiAffinityCounts s = [] \<or>
     list_all (\<lambda>t. case map_of (nodeLabels nd) (atTopologyKey t) of None \<Rightarrow> True
       | Some v \<Rightarrow> \<not> counts_get (antiAffinityCounts s) (atTopologyKey t, v) > 0) (RequiredAntiAffinityTerms (asPodInfo s))"

text \<open>\<open>None\<close> if a topology label is missing, else whether every term has a pod.\<close>

fun pods_exist :: "termCounts \<Rightarrow> knode \<Rightarrow> affinityTerm list \<Rightarrow> bool \<Rightarrow> bool option" where
  "pods_exist m nd [] podsExist = Some podsExist"
| "pods_exist m nd (t # ts) podsExist = (case map_of (nodeLabels nd) (atTopologyKey t) of None \<Rightarrow> None
     | Some v \<Rightarrow> pods_exist m nd ts (if counts_get m (atTopologyKey t, v) \<le> 0 then False else podsExist))"

definition satisfyPodAffinity :: "affinityState \<Rightarrow> knode \<Rightarrow> bool" where
  "satisfyPodAffinity s nd = (case pods_exist (affinityCounts s) nd (RequiredAffinityTerms (asPodInfo s)) True of
       None \<Rightarrow> False
     | Some True \<Rightarrow> True
     | Some False \<Rightarrow> affinityCounts s = [] \<and>
         podMatchesAllAffinityTerms (RequiredAffinityTerms (asPodInfo s)) (piPod (asPodInfo s)) (enableNamespaceSelector s))"

definition affinity_Filter :: "affinityState option \<Rightarrow> nodeInfo \<Rightarrow> statusp" where
  "affinity_Filter state ni = (case node ni of None \<Rightarrow> NewStatus ErrorCode [''node not found'']
     | Some nd \<Rightarrow> (case state of None \<Rightarrow> state_missing
         | Some s \<Rightarrow>
             if \<not> satisfyPodAffinity s nd then NewStatus UnschedulableAndUnresolvable [''node(s) didn't match pod affinity rules'']
             else if \<not> satisfyPodAntiAffinity s nd then NewStatus Unschedulable [''node(s) didn't match pod anti-affinity rules'']
             else if \<not> satisfyExistingPodsAntiAffinity s nd then NewStatus Unschedulable [''node(s) didn't satisfy existing pods anti-affinity rules'']
             else None))"

end
