(* ===== verification/Pod_Affinity_Props.thy ===== *)
theory Pod_Affinity_Props
  imports Pod_Affinity "HOL-Library.Multiset"
begin

text \<open>
  The counts of the affinity filter stand for the pods placed on the nodes: after \<open>PreFilter\<close> and any additions and
  removals they are what counting from scratch gives, and \<open>Filter\<close> decides the rules about the pods themselves.
\<close>

declare split_paired_All [simp del] split_paired_Ex [simp del]

section \<open>What a map of counts stands for\<close>

definition stands_for :: "termCounts \<Rightarrow> (topologyPair \<Rightarrow> int) \<Rightarrow> bool" where
  "stands_for m f \<longleftrightarrow> distinct (map fst m) \<and> (\<forall>p. map_of m p = (if f p = 0 then None else Some (f p)))"

lemma stands_for_get: "stands_for m f \<Longrightarrow> counts_get m p = f p"
  by (simp add: stands_for_def counts_get_def)

lemma stands_for_Nil [simp]: "stands_for [] (\<lambda>p. 0)"
  by (simp add: stands_for_def)

lemma stands_for_empty: "stands_for m f \<Longrightarrow> m = [] \<longleftrightarrow> (\<forall>p. f p = 0)"
proof -
  assume s: "stands_for m f"
  have "m = [] \<longleftrightarrow> (\<forall>p. map_of m p = None)" by (cases m) (auto simp: map_of_eq_None_iff)
  then show ?thesis using s by (simp add: stands_for_def)
qed

text \<open>The pairs a node has for a list of keys, with their numbers.\<close>

definition pairs_of :: "knode \<Rightarrow> string list \<Rightarrow> topologyPair \<Rightarrow> int" where
  "pairs_of nd ks = (\<lambda>(k, v). if map_of (nodeLabels nd) k = Some v then int (count_list ks k) else 0)"

lemma pairs_of_nonneg: "0 \<le> pairs_of nd ks p" and pairs_of_le: "pairs_of nd ks p \<le> int (length ks)"
  by (auto simp: pairs_of_def split_def intro: count_le_length)

lemma update_stands_for:
  assumes "stands_for m f" "\<forall>p. \<bar>f p\<bar> < 2 ^ 62" "\<bar>x\<bar> \<le> 1"
  shows "stands_for (counts_update m nd k x) (\<lambda>p. f p + x * pairs_of nd [k] p)"
proof (cases "map_of (nodeLabels nd) k")
  case None
  then have "pairs_of nd [k] p = 0" for p by (auto simp: pairs_of_def split_def)
  then show ?thesis using None assms(1) by (simp add: counts_update_def)
next
  case (Some v)
  have "\<bar>f (k, v)\<bar> < 2 ^ 62" using assms(2) by blast
  then have w: "wrap64 (f (k, v) + x) = f (k, v) + x" using assms(3) by (intro wrap64_range) auto
  have p: "pairs_of nd [k] p = (if p = (k, v) then 1 else 0)" for p using Some by (auto simp: pairs_of_def split_def prod_eq_iff)
  show ?thesis
    using assms(1) Some w by (auto simp: counts_update_def Let_def stands_for_get [OF assms(1)] stands_for_def p
        AList.distinct_update delete_conv update_conv' intro: distinct_delete)
qed

lemma pairs_of_Cons: "pairs_of nd (k # ks) p = pairs_of nd [k] p + pairs_of nd ks p"
  by (auto simp: pairs_of_def split_def)

lemma fold_stands_for:
  assumes "stands_for m f" "\<forall>p. \<bar>f p\<bar> + int (length ks) < 2 ^ 62" "\<bar>x\<bar> \<le> 1"
  shows "stands_for (foldl (\<lambda>m k. counts_update m nd k x) m ks) (\<lambda>p. f p + x * pairs_of nd ks p)"
  using assms(1,2)
proof (induction ks arbitrary: m f)
  case Nil
  moreover have "pairs_of nd [] p = 0" for p by (simp add: pairs_of_def split_def)
  ultimately show ?case by simp
next
  case (Cons k ks)
  let ?f = "\<lambda>p. f p + x * pairs_of nd [k] p"
  have "\<forall>p. \<bar>f p\<bar> < 2 ^ 62"
  proof
    fix p show "\<bar>f p\<bar> < 2 ^ 62" using Cons.prems(2) [rule_format, of p] by simp
  qed
  then have u: "stands_for (counts_update m nd k x) ?f" by (rule update_stands_for [OF Cons.prems(1) _ assms(3)])
  have "\<bar>?f p\<bar> \<le> \<bar>f p\<bar> + 1" for p
  proof -
    have "\<bar>x * pairs_of nd [k] p\<bar> \<le> 1 * 1"
      unfolding abs_mult using assms(3) pairs_of_le [of nd "[k]" p] pairs_of_nonneg [of nd "[k]" p] by (intro mult_mono) auto
    then show ?thesis by linarith
  qed
  note le = this
  have "\<forall>p. \<bar>?f p\<bar> + int (length ks) < 2 ^ 62"
  proof
    fix p show "\<bar>?f p\<bar> + int (length ks) < 2 ^ 62" using Cons.prems(2) [rule_format, of p] le [of p] by simp
  qed
  from Cons.IH [OF u this] show ?case by (simp add: pairs_of_Cons [of nd k ks] algebra_simps)
qed

lemma append_stands_for:
  assumes "stands_for m f" "stands_for m' f'" "\<forall>p. 0 \<le> f p" "\<forall>p. 0 \<le> f' p" "\<forall>p. f p + f' p < 2 ^ 62"
  shows "stands_for (counts_append m m') (\<lambda>p. f p + f' p)"
proof -
  have "stands_for (foldl (\<lambda>m (pair, v). AList.update pair (wrap64 (counts_get m pair + v)) m) m m')
      (\<lambda>p. f p + (case map_of m' p of None \<Rightarrow> 0 | Some v \<Rightarrow> v))"
    if "stands_for m f" "distinct (map fst m')" "\<forall>p. 0 \<le> f p" "\<forall>(p, v)\<in>set m'. 0 < v \<and> f p + v < 2 ^ 62" for m m' f
    using that
  proof (induction m' arbitrary: m f)
    case Nil
    then show ?case by simp
  next
    case (Cons pv m')
    obtain p v where pv: "pv = (p, v)" by (rule prod.exhaust)
    let ?f = "f(p := f p + v)"
    have b: "0 < v" "f p + v < 2 ^ 62" "0 \<le> f p" using Cons.prems pv by auto
    then have w: "wrap64 (f p + v) = f p + v" by (intro wrap64_range) auto
    have s: "stands_for (AList.update p (wrap64 (counts_get m p + v)) m) ?f"
      using Cons.prems(1) b w by (auto simp: stands_for_get [OF Cons.prems(1)] stands_for_def AList.distinct_update update_conv')
    have np: "p \<notin> fst ` set m'" using Cons.prems(2) pv by simp
    have r: "\<forall>(q, u)\<in>set m'. 0 < u \<and> ?f q + u < 2 ^ 62"
    proof
      fix qu assume q: "qu \<in> set m'"
      then have "fst qu \<noteq> p" using np by auto
      moreover have "0 < snd qu \<and> f (fst qu) + snd qu < 2 ^ 62" using bspec [OF Cons.prems(4), of qu] q by (simp add: split_def)
      ultimately show "case qu of (q, u) \<Rightarrow> 0 < u \<and> ?f q + u < 2 ^ 62" by (simp add: split_def)
    qed
    have n: "\<forall>q. 0 \<le> ?f q" using Cons.prems(3) b by simp
    from Cons.IH [OF s _ n r] Cons.prems(2) have
      "stands_for (foldl (\<lambda>m (pair, v). AList.update pair (wrap64 (counts_get m pair + v)) m) (AList.update p (wrap64 (counts_get m p + v)) m) m')
        (\<lambda>q. ?f q + (case map_of m' q of None \<Rightarrow> 0 | Some v \<Rightarrow> v))" by simp
    moreover have "?f q + (case map_of m' q of None \<Rightarrow> 0 | Some v \<Rightarrow> v) = f q + (case map_of (pv # m') q of None \<Rightarrow> 0 | Some v \<Rightarrow> v)" for q
    proof (cases "q = p")
      case True
      then have "map_of m' q = None" using np by (simp add: map_of_eq_None_iff)
      with True show ?thesis by (simp add: pv)
    qed (simp add: pv)
    ultimately show ?case by (simp add: pv fun_upd_def)
  qed
  note l = this
  have d: "distinct (map fst m')" "\<forall>p. map_of m' p = (if f' p = 0 then None else Some (f' p))" using assms(2) by (simp_all add: stands_for_def)
  have "\<forall>(p, v)\<in>set m'. 0 < v \<and> f p + v < 2 ^ 62"
  proof
    fix pv assume "pv \<in> set m'"
    then have "map_of m' (fst pv) = Some (snd pv)" using d(1) by simp
    then have "snd pv = f' (fst pv)" "f' (fst pv) \<noteq> 0" using d(2) by (auto split: if_splits)
    then show "case pv of (p, v) \<Rightarrow> 0 < v \<and> f p + v < 2 ^ 62" using assms(4,5) by (simp add: split_def order.not_eq_order_implies_strict)
  qed
  from l [OF assms(1) d(1) assms(3) this] have "stands_for (counts_append m m') (\<lambda>p. f p + (case map_of m' p of None \<Rightarrow> 0 | Some v \<Rightarrow> v))"
    by (simp add: counts_append_def)
  moreover have "(case map_of m' p of None \<Rightarrow> 0 | Some v \<Rightarrow> v) = f' p" for p using d(2) by simp
  ultimately show ?thesis by simp
qed

section \<open>Pods on nodes\<close>

text \<open>A placement is a pod with the node it is on; the keys of a pod are those of the terms that match it.\<close>

type_synonym placements = "(knode \<times> kpod) list"

definition tally :: "(kpod \<Rightarrow> string list) \<Rightarrow> placements \<Rightarrow> topologyPair \<Rightarrow> int" where
  "tally keys ps p = (\<Sum>(nd, q)\<leftarrow>ps. pairs_of nd (keys q) p)"

definition existing_keys :: "kpod \<Rightarrow> labels \<Rightarrow> bool \<Rightarrow> kpod \<Rightarrow> string list" where
  "existing_keys pod nsl en q = map atTopologyKey (filter (\<lambda>t. term_Matches t pod nsl en) (RequiredAntiAffinityTerms (NewPodInfo q)))"

definition affinity_keys :: "affinityTerm list \<Rightarrow> bool \<Rightarrow> kpod \<Rightarrow> string list" where
  "affinity_keys ts en q = (if podMatchesAllAffinityTerms ts q en then map atTopologyKey ts else [])"

definition anti_keys :: "affinityTerm list \<Rightarrow> bool \<Rightarrow> kpod \<Rightarrow> string list" where
  "anti_keys ts en q = map atTopologyKey (filter (\<lambda>t. term_Matches t q [] en) ts)"

definition add_keys :: "(kpod \<Rightarrow> string list) \<Rightarrow> int \<Rightarrow> knode \<Rightarrow> termCounts \<Rightarrow> kpod \<Rightarrow> termCounts" where
  "add_keys keys x nd m q = foldl (\<lambda>m k. counts_update m nd k x) m (keys q)"

lemma anti_update_keys: "updateWithAntiAffinityTerms m ts q nsl nd x en =
    foldl (\<lambda>m k. counts_update m nd k x) m (map atTopologyKey (filter (\<lambda>t. term_Matches t q nsl en) ts))"
  unfolding updateWithAntiAffinityTerms_def by (induction ts arbitrary: m) auto

lemma update_keys:
  "updateWithAntiAffinityTerms m (RequiredAntiAffinityTerms (NewPodInfo q)) pod nsl nd x en = add_keys (existing_keys pod nsl en) x nd m q"
  "updateWithAffinityTerms m ts q nd x en = add_keys (affinity_keys ts en) x nd m q"
  "updateWithAntiAffinityTerms m ts q [] nd x en = add_keys (anti_keys ts en) x nd m q"
  by (simp_all add: anti_update_keys add_keys_def existing_keys_def anti_keys_def affinity_keys_def updateWithAffinityTerms_def foldl_map)

lemma tally_simps [simp]:
  "tally keys [] p = 0" "tally keys ((nd, q) # ps) p = pairs_of nd (keys q) p + tally keys ps p"
  "tally keys (ps @ ps') p = tally keys ps p + tally keys ps' p"
  by (simp_all add: tally_def)

lemma tally_nonneg: "0 \<le> tally keys ps p"
  by (induction ps) (auto simp: pairs_of_nonneg)

lemma tally_le: "\<forall>(nd, q)\<in>set ps. length (keys q) \<le> B \<Longrightarrow> tally keys ps p \<le> int (length ps) * int B"
proof (induction ps)
  case (Cons x ps)
  obtain nd q where x: "x = (nd, q)" by (rule prod.exhaust)
  have "pairs_of nd (keys q) p \<le> int B" using pairs_of_le [of nd "keys q" p] Cons.prems x by fastforce
  with Cons x show ?case by (simp add: distrib_right)
qed simp

lemma tally_remove1: "(nd, q) \<in> set ps \<Longrightarrow> tally keys (remove1 (nd, q) ps) p = tally keys ps p - pairs_of nd (keys q) p"
  by (induction ps) (auto split: prod.splits)

lemma tally_mset:
  assumes "mset ps = mset ps'"
  shows "tally keys ps p = tally keys ps' p"
proof -
  let ?f = "\<lambda>(nd, q). pairs_of nd (keys q) p"
  have "sum_mset (mset (map ?f ps)) = sum_mset (mset (map ?f ps'))" using assms by simp
  then show ?thesis by (simp only: tally_def sum_mset_sum_list)
qed

lemma tally_small:
  assumes "length ps \<le> 2 ^ 30" "\<forall>(nd, q)\<in>set ps. length (keys q) \<le> 2 ^ 30"
  shows "tally keys ps p \<le> 2 ^ 60"
proof -
  have "int (length ps) * int (2 ^ 30) \<le> 2 ^ 30 * 2 ^ 30" using assms(1) by (intro mult_mono) auto
  then show ?thesis using tally_le [OF assms(2), of p] by simp
qed

lemma add_pod_stands_for:
  assumes "stands_for m (tally keys ps)" "length ps \<le> 2 ^ 30" "\<forall>(nd, q)\<in>set ps. length (keys q) \<le> 2 ^ 30" "length (keys q) \<le> 2 ^ 30"
  shows "stands_for (add_keys keys 1 nd m q) (tally keys ((nd, q) # ps))"
    "(nd, q) \<in> set ps \<Longrightarrow> stands_for (add_keys keys (- 1) nd m q) (tally keys (remove1 (nd, q) ps))"
proof -
  have b: "\<forall>p. \<bar>tally keys ps p\<bar> + int (length (keys q)) < 2 ^ 62"
  proof
    fix p
    have "int (length (keys q)) \<le> 2 ^ 30" using assms(4) by simp
    then show "\<bar>tally keys ps p\<bar> + int (length (keys q)) < 2 ^ 62" using tally_nonneg [of keys ps p] tally_small [OF assms(2,3), of p] by simp
  qed
  have t: "tally keys ((nd, q) # ps) = (\<lambda>p. tally keys ps p + pairs_of nd (keys q) p)" by (rule ext) simp
  show "stands_for (add_keys keys 1 nd m q) (tally keys ((nd, q) # ps))"
    using fold_stands_for [OF assms(1) b, of 1 nd] by (simp add: add_keys_def t)
  show "stands_for (add_keys keys (- 1) nd m q) (tally keys (remove1 (nd, q) ps))" if "(nd, q) \<in> set ps"
  proof -
    have "tally keys (remove1 (nd, q) ps) = (\<lambda>p. tally keys ps p + - 1 * pairs_of nd (keys q) p)"
      by (rule ext) (simp add: tally_remove1 [OF that])
    then show ?thesis using fold_stands_for [OF assms(1) b, of "- 1" nd] by (simp add: add_keys_def)
  qed
qed

section \<open>Counting from scratch\<close>

definition node_pods :: "nodeInfo \<Rightarrow> placements" where
  "node_pods ni = (case node ni of None \<Rightarrow> [] | Some nd \<Rightarrow> map (Pair nd) (Pods ni))"

definition placements_of :: "snapshot \<Rightarrow> placements" where
  "placements_of snap = concat (map node_pods (snap_List snap))"

lemma fold_pods_stands_for:
  assumes "length qs \<le> 2 ^ 30" "\<forall>q\<in>set qs. length (keys q) \<le> 2 ^ 30"
  shows "stands_for (foldl (add_keys keys 1 nd) [] qs) (tally keys (map (Pair nd) qs))"
  using assms
proof (induction qs rule: rev_induct)
  case Nil
  have "tally keys [] = (\<lambda>p. 0)" by (rule ext) simp
  then show ?case by simp
next
  case (snoc q qs)
  have "stands_for (foldl (add_keys keys 1 nd) [] qs) (tally keys (map (Pair nd) qs))" using snoc by simp
  then have "stands_for (add_keys keys 1 nd (foldl (add_keys keys 1 nd) [] qs) q) (tally keys ((nd, q) # map (Pair nd) qs))"
    by (rule add_pod_stands_for(1)) (use snoc.prems in auto)
  moreover have "tally keys ((nd, q) # map (Pair nd) qs) = tally keys (map (Pair nd) (qs @ [q]))" by (rule ext) simp
  ultimately show ?case by (simp del: tally_simps)
qed

lemma append_Nil2 [simp]: "counts_append m [] = m"
  by (simp add: counts_append_def)

lemma append_nodes_stands_for:
  assumes "stands_for m (tally keys ps)" "\<forall>ni\<in>set nis. stands_for (G ni) (tally keys (T ni))"
    "length (ps @ concat (map T nis)) \<le> 2 ^ 30" "\<forall>(nd, q)\<in>set (ps @ concat (map T nis)). length (keys q) \<le> 2 ^ 30"
  shows "stands_for (foldl counts_append m (map G nis)) (tally keys (ps @ concat (map T nis)))"
  using assms
proof (induction nis arbitrary: m ps)
  case (Cons ni nis)
  have "stands_for (counts_append m (G ni)) (\<lambda>p. tally keys ps p + tally keys (T ni) p)"
  proof (rule append_stands_for [OF Cons.prems(1)])
    show "\<forall>p. tally keys ps p + tally keys (T ni) p < 2 ^ 62"
    proof
      fix p
      have "tally keys (ps @ T ni) p \<le> 2 ^ 60" using Cons.prems(3,4) by (intro tally_small) auto
      then show "tally keys ps p + tally keys (T ni) p < 2 ^ 62" by simp
    qed
  qed (use Cons.prems(2) tally_nonneg in auto)
  moreover have "tally keys (ps @ T ni) = (\<lambda>p. tally keys ps p + tally keys (T ni) p)" by (rule ext) simp
  ultimately have "stands_for (counts_append m (G ni)) (tally keys (ps @ T ni))" by simp
  from Cons.IH [OF this] Cons.prems(2-4) show ?case by simp
qed simp

lemma fold_append_skip:
  "foldl counts_append m (List.map_filter (\<lambda>ni. if G ni \<noteq> [] then Some (G ni) else None) nis) = foldl counts_append m (map G nis)"
  by (induction nis arbitrary: m) (auto simp: map_filter_simps)

lemma fold_append_pairs:
  "foldl (\<lambda>(aff, anti) (a, b). (counts_append aff a, counts_append anti b)) (m, m')
     (List.map_filter (\<lambda>ni. if G ni \<noteq> [] \<or> H ni \<noteq> [] then Some (G ni, H ni) else None) nis) =
   (foldl counts_append m (map G nis), foldl counts_append m' (map H nis))"
  by (induction nis arbitrary: m m') (auto simp: map_filter_simps)

text \<open>The counts of one node for the pods of a list.\<close>

definition node_counts :: "(kpod \<Rightarrow> string list) \<Rightarrow> (nodeInfo \<Rightarrow> kpod list) \<Rightarrow> nodeInfo \<Rightarrow> termCounts" where
  "node_counts keys sel ni = (case node ni of None \<Rightarrow> [] | Some nd \<Rightarrow> foldl (add_keys keys 1 nd) [] (sel ni))"

lemma existing_of_node_eq: "existing_of_node pod nsl en ni =
    (if node_counts (existing_keys pod nsl en) PodsWithRequiredAntiAffinity ni \<noteq> []
     then Some (node_counts (existing_keys pod nsl en) PodsWithRequiredAntiAffinity ni) else None)"
  by (simp add: existing_of_node_def node_counts_def update_keys Let_def split: option.split)

lemma incoming_of_node_eq: "incoming_of_node pInfo en ni =
    (if node_counts (affinity_keys (RequiredAffinityTerms pInfo) en) Pods ni \<noteq> [] \<or> node_counts (anti_keys (RequiredAntiAffinityTerms pInfo) en) Pods ni \<noteq> []
     then Some (node_counts (affinity_keys (RequiredAffinityTerms pInfo) en) Pods ni, node_counts (anti_keys (RequiredAntiAffinityTerms pInfo) en) Pods ni) else None)"
  by (simp add: incoming_of_node_def node_counts_def update_keys Let_def split: option.split)

lemma node_pods_length: "ni \<in> set nis \<Longrightarrow> length (node_pods ni) \<le> length (concat (map node_pods nis))"
  by (induction nis) auto

lemma all_counts_stand_for:
  assumes "length (concat (map node_pods nis)) \<le> 2 ^ 30" "\<forall>(nd, q)\<in>set (concat (map node_pods nis)). length (keys q) \<le> 2 ^ 30"
  shows "stands_for (foldl counts_append [] (map (node_counts keys Pods) nis)) (tally keys (concat (map node_pods nis)))"
proof -
  have "stands_for (node_counts keys Pods ni) (tally keys (node_pods ni))" if ni: "ni \<in> set nis" for ni
  proof (cases "node ni")
    case None
    have "tally keys [] = (\<lambda>p. 0)" by (rule ext) simp
    with None show ?thesis by (simp add: node_counts_def node_pods_def)
  next
    case (Some nd)
    have l: "length (Pods ni) \<le> 2 ^ 30" using Some assms(1) node_pods_length [OF ni] by (simp add: node_pods_def)
    have "\<forall>q\<in>set (Pods ni). length (keys q) \<le> 2 ^ 30"
    proof
      fix q assume "q \<in> set (Pods ni)"
      then have "(nd, q) \<in> set (concat (map node_pods nis))" using ni Some by (auto simp: node_pods_def intro!: bexI [of _ ni])
      from bspec [OF assms(2) this] show "length (keys q) \<le> 2 ^ 30" by simp
    qed
    from fold_pods_stands_for [OF l this, of nd] Some show ?thesis by (simp add: node_counts_def node_pods_def)
  qed
  moreover have "tally keys [] = (\<lambda>p. 0)" by (rule ext) simp
  ultimately show ?thesis using append_nodes_stands_for [of "[]" keys "[]" nis "node_counts keys Pods" node_pods] assms by simp
qed

text \<open>Only pods with required anti-affinity contribute to the counts of the pods that are there.\<close>

lemma no_terms_no_keys: "\<not> podWithRequiredAntiAffinity q \<Longrightarrow> existing_keys pod nsl en q = []"
  by (auto simp: existing_keys_def NewPodInfo_def Let_def getPodAntiAffinityTerms_def podWithRequiredAntiAffinity_def terms_or_nil_def
      split: option.splits)

definition snapshot_ok :: "snapshot \<Rightarrow> bool" where
  "snapshot_ok snap \<longleftrightarrow> HavePodsWithRequiredAntiAffinityList snap = filter (\<lambda>ni. PodsWithRequiredAntiAffinity ni \<noteq> []) (snap_List snap) \<and>
     list_all (\<lambda>ni. mset (PodsWithRequiredAntiAffinity ni) = mset (filter podWithRequiredAntiAffinity (Pods ni))) (snap_List snap)"

lemma existing_stand_for:
  fixes pod nsl en
  defines "keys \<equiv> existing_keys pod nsl en"
  assumes ok: "snapshot_ok snap" and len: "length (placements_of snap) \<le> 2 ^ 30"
    and few: "\<forall>(nd, q)\<in>set (placements_of snap). length (keys q) \<le> 2 ^ 30"
  shows "stands_for (getExistingAntiAffinityCounts pod nsl (HavePodsWithRequiredAntiAffinityList snap) en) (tally keys (placements_of snap))"
proof -
  let ?nis = "snap_List snap" and ?G = "node_counts keys PodsWithRequiredAntiAffinity"
  have e: "?G ni = []" if "PodsWithRequiredAntiAffinity ni = []" for ni using that by (simp add: node_counts_def split: option.split)
  have "foldl counts_append m (map ?G (filter (\<lambda>ni. PodsWithRequiredAntiAffinity ni \<noteq> []) nis)) = foldl counts_append m (map ?G nis)" for m nis
    by (induction nis arbitrary: m) (auto simp: e)
  then have c: "getExistingAntiAffinityCounts pod nsl (HavePodsWithRequiredAntiAffinityList snap) en = foldl counts_append [] (map ?G ?nis)"
    using ok by (simp add: getExistingAntiAffinityCounts_def snapshot_ok_def existing_of_node_eq [abs_def] fold_append_skip keys_def)
  have "stands_for (?G ni) (tally keys (node_pods ni))" if ni: "ni \<in> set ?nis" for ni
  proof (cases "node ni")
    case None
    have "tally keys [] = (\<lambda>p. 0)" by (rule ext) simp
    with None show ?thesis by (simp add: node_counts_def node_pods_def)
  next
    case (Some nd)
    let ?qs = "PodsWithRequiredAntiAffinity ni"
    have ms: "mset ?qs = mset (filter podWithRequiredAntiAffinity (Pods ni))" using ok ni by (simp add: snapshot_ok_def list_all_iff)
    have sub: "set ?qs \<subseteq> set (Pods ni)" using arg_cong [OF ms, of set_mset] by auto
    have "length ?qs \<le> length (Pods ni)" unfolding mset_eq_length [OF ms] by (rule length_filter_le)
    moreover have "length (Pods ni) \<le> length (placements_of snap)"
      using node_pods_length [OF ni] Some by (simp add: placements_of_def node_pods_def)
    ultimately have l: "length ?qs \<le> 2 ^ 30" using len by simp
    have k: "\<forall>q\<in>set ?qs. length (keys q) \<le> 2 ^ 30"
    proof
      fix q assume "q \<in> set ?qs"
      then have "(nd, q) \<in> set (placements_of snap)" using ni Some sub by (auto simp: placements_of_def node_pods_def intro!: bexI [of _ ni])
      from bspec [OF few this] show "length (keys q) \<le> 2 ^ 30" by simp
    qed
    have "tally keys (map (Pair nd) ?qs) = tally keys (map (Pair nd) (Pods ni))"
    proof
      fix p
      have "tally keys (map (Pair nd) ?qs) p = tally keys (map (Pair nd) (filter podWithRequiredAntiAffinity (Pods ni))) p"
        by (rule tally_mset) (simp add: ms)
      also have "\<dots> = tally keys (map (Pair nd) qs) p" if "qs = Pods ni" for qs unfolding that [symmetric]
        by (induction qs) (auto simp: keys_def no_terms_no_keys pairs_of_def split_def)
      finally show "tally keys (map (Pair nd) ?qs) p = tally keys (map (Pair nd) (Pods ni)) p" by simp
    qed
    with fold_pods_stands_for [OF l k, of nd] Some show ?thesis by (simp add: node_counts_def node_pods_def)
  qed
  moreover have "tally keys [] = (\<lambda>p. 0)" by (rule ext) simp
  ultimately show ?thesis
    using append_nodes_stands_for [of "[]" keys "[]" ?nis ?G node_pods] len few unfolding c placements_of_def by simp
qed

section \<open>The state stands for the placements\<close>

definition represents :: "affinityState \<Rightarrow> placements \<Rightarrow> bool" where
  "represents s ps \<longleftrightarrow>
     stands_for (existingAntiAffinityCounts s) (tally (existing_keys (piPod (asPodInfo s)) (namespaceLabels s) (enableNamespaceSelector s)) ps) \<and>
     stands_for (affinityCounts s) (tally (affinity_keys (RequiredAffinityTerms (asPodInfo s)) (enableNamespaceSelector s)) ps) \<and>
     stands_for (antiAffinityCounts s) (tally (anti_keys (RequiredAntiAffinityTerms (asPodInfo s)) (enableNamespaceSelector s)) ps)"

definition few_terms :: "kpod \<Rightarrow> bool" where
  "few_terms q \<longleftrightarrow> length (getPodAffinityTerms (Affinity q)) \<le> 2 ^ 30 \<and> length (getPodAntiAffinityTerms (Affinity q)) \<le> 2 ^ 30"

definition few_info :: "podInfo \<Rightarrow> bool" where
  "few_info i \<longleftrightarrow> length (RequiredAffinityTerms i) \<le> 2 ^ 30 \<and> length (RequiredAntiAffinityTerms i) \<le> 2 ^ 30"

lemma getAffinityTerms_length: "getAffinityTerms pod ts = Inr ats \<Longrightarrow> length ats = length ts"
  by (induction ts arbitrary: ats) (auto split: sum.splits)

lemma few_NewPodInfo: "few_terms q \<Longrightarrow> few_info (NewPodInfo q)"
  by (auto simp: few_terms_def few_info_def NewPodInfo_def Let_def terms_or_nil_def getAffinityTerms_length split: sum.split)

lemma keys_few:
  "few_terms q \<Longrightarrow> length (existing_keys pod nsl en q) \<le> 2 ^ 30"
  "few_info i \<Longrightarrow> length (affinity_keys (RequiredAffinityTerms i) en q) \<le> 2 ^ 30"
  "few_info i \<Longrightarrow> length (anti_keys (RequiredAntiAffinityTerms i) en q) \<le> 2 ^ 30"
proof -
  show "length (existing_keys pod nsl en q) \<le> 2 ^ 30" if "few_terms q"
    using few_NewPodInfo [OF that] by (auto simp: few_info_def existing_keys_def intro: order_trans [OF length_filter_le])
  show "length (anti_keys (RequiredAntiAffinityTerms i) en q) \<le> 2 ^ 30" if "few_info i"
    using that by (auto simp: few_info_def anti_keys_def intro: order_trans [OF length_filter_le])
qed (simp add: few_info_def affinity_keys_def)

lemma represents_update:
  assumes "represents s ps" "few_info (asPodInfo s)" "length ps \<le> 2 ^ 30" "\<forall>(nd, q)\<in>set ps. few_terms q" "few_terms q"
  shows "represents (updateWithPod s (NewPodInfo q) nd 1) ((nd, q) # ps)"
    "(nd, q) \<in> set ps \<Longrightarrow> represents (updateWithPod s (NewPodInfo q) nd (- 1)) (remove1 (nd, q) ps)"
proof -
  have pod: "piPod (NewPodInfo q) = q" by (simp add: NewPodInfo_def Let_def)
  let ?e = "existing_keys (piPod (asPodInfo s)) (namespaceLabels s) (enableNamespaceSelector s)"
    and ?a = "affinity_keys (RequiredAffinityTerms (asPodInfo s)) (enableNamespaceSelector s)"
    and ?n = "anti_keys (RequiredAntiAffinityTerms (asPodInfo s)) (enableNamespaceSelector s)"
  have r: "stands_for (existingAntiAffinityCounts s) (tally ?e ps)" "stands_for (affinityCounts s) (tally ?a ps)"
    "stands_for (antiAffinityCounts s) (tally ?n ps)" using assms(1) by (simp_all add: represents_def)
  have e: "\<forall>(nd, q)\<in>set ps. length (?e q) \<le> 2 ^ 30" using assms(4) keys_few(1) by blast
  have a: "\<forall>(nd, q)\<in>set ps. length (?a q) \<le> 2 ^ 30" and n: "\<forall>(nd, q)\<in>set ps. length (?n q) \<le> 2 ^ 30"
    using keys_few(2,3) [OF assms(2)] by blast+
  note es = add_pod_stands_for [OF r(1) assms(3) e keys_few(1) [OF assms(5)]]
    and as = add_pod_stands_for [OF r(2) assms(3) a keys_few(2) [OF assms(2)]]
    and ns = add_pod_stands_for [OF r(3) assms(3) n keys_few(3) [OF assms(2)]]
  show "represents (updateWithPod s (NewPodInfo q) nd 1) ((nd, q) # ps)"
    using es(1) as(1) ns(1) by (simp add: represents_def updateWithPod_def update_keys pod del: tally_simps)
  show "represents (updateWithPod s (NewPodInfo q) nd (- 1)) (remove1 (nd, q) ps)" if "(nd, q) \<in> set ps"
    using es(2) [OF that] as(2) [OF that] ns(2) [OF that] by (simp add: represents_def updateWithPod_def update_keys pod)
qed

section \<open>What the filter decides\<close>

definition same_topology :: "knode \<Rightarrow> knode \<Rightarrow> string \<Rightarrow> bool" where
  "same_topology nd nd' k \<longleftrightarrow> (\<exists>v. map_of (nodeLabels nd) k = Some v \<and> map_of (nodeLabels nd') k = Some v)"

text \<open>
  The rules about the pods themselves. Every required term needs a pod that matches all terms in the same
  topology, unless no placed pod that matches counts for any term and the pod matches its own terms; no placed pod may
  match an anti-affinity term in the same topology, and no anti-affinity term of a placed pod may match the pod there.
\<close>

definition affinity_rule :: "podInfo \<Rightarrow> bool \<Rightarrow> knode \<Rightarrow> placements \<Rightarrow> bool" where
  "affinity_rule i en nd ps \<longleftrightarrow>
     (\<forall>t\<in>set (RequiredAffinityTerms i). map_of (nodeLabels nd) (atTopologyKey t) \<noteq> None) \<and>
     ((\<forall>t\<in>set (RequiredAffinityTerms i). \<exists>(nd', q)\<in>set ps.
         podMatchesAllAffinityTerms (RequiredAffinityTerms i) q en \<and> same_topology nd nd' (atTopologyKey t)) \<or>
      (\<forall>(nd', q)\<in>set ps. podMatchesAllAffinityTerms (RequiredAffinityTerms i) q en \<longrightarrow>
         (\<forall>t\<in>set (RequiredAffinityTerms i). map_of (nodeLabels nd') (atTopologyKey t) = None)) \<and>
      podMatchesAllAffinityTerms (RequiredAffinityTerms i) (piPod i) en)"

definition anti_affinity_rule :: "podInfo \<Rightarrow> bool \<Rightarrow> knode \<Rightarrow> placements \<Rightarrow> bool" where
  "anti_affinity_rule i en nd ps \<longleftrightarrow> (\<forall>(nd', q)\<in>set ps. \<forall>t\<in>set (RequiredAntiAffinityTerms i).
     term_Matches t q [] en \<longrightarrow> \<not> same_topology nd nd' (atTopologyKey t))"

definition existing_rule :: "podInfo \<Rightarrow> labels \<Rightarrow> bool \<Rightarrow> knode \<Rightarrow> placements \<Rightarrow> bool" where
  "existing_rule i nsl en nd ps \<longleftrightarrow> (\<forall>(nd', q)\<in>set ps. \<forall>t\<in>set (RequiredAntiAffinityTerms (NewPodInfo q)).
     term_Matches t (piPod i) nsl en \<longrightarrow> \<not> same_topology nd nd' (atTopologyKey t))"

lemma pairs_of_pos: "0 < pairs_of nd ks (k, v) \<longleftrightarrow> k \<in> set ks \<and> map_of (nodeLabels nd) k = Some v"
proof -
  have "0 < count_list ks k \<longleftrightarrow> k \<in> set ks" using count_list_0_iff [of ks k] by auto
  then show ?thesis by (simp add: pairs_of_def)
qed

lemma tally_pos: "0 < tally keys ps (k, v) \<longleftrightarrow> (\<exists>(nd, q)\<in>set ps. k \<in> set (keys q) \<and> map_of (nodeLabels nd) k = Some v)"
proof (induction ps)
  case (Cons x ps)
  obtain nd q where x: "x = (nd, q)" by (rule prod.exhaust)
  have "0 < pairs_of nd (keys q) (k, v) + tally keys ps (k, v) \<longleftrightarrow> 0 < pairs_of nd (keys q) (k, v) \<or> 0 < tally keys ps (k, v)"
    using pairs_of_nonneg [of nd "keys q" "(k, v)"] tally_nonneg [of keys ps "(k, v)"] by linarith
  with Cons x show ?case by (simp add: pairs_of_pos)
qed simp

lemma tally_topology:
  assumes "map_of (nodeLabels nd) k = Some v"
  shows "0 < tally keys ps (k, v) \<longleftrightarrow> (\<exists>(nd', q)\<in>set ps. k \<in> set (keys q) \<and> same_topology nd nd' k)"
  using assms by (auto simp: tally_pos same_topology_def)

lemma stands_for_pos:
  assumes "stands_for m (tally keys ps)" "map_of (nodeLabels nd) k = Some v"
  shows "counts_get m (k, v) > 0 \<longleftrightarrow> (\<exists>(nd', q)\<in>set ps. k \<in> set (keys q) \<and> same_topology nd nd' k)"
  using tally_topology [OF assms(2)] by (simp add: stands_for_get [OF assms(1)])

lemma empty_counts:
  assumes "stands_for m (tally keys ps)"
  shows "m = [] \<longleftrightarrow> (\<forall>(nd, q)\<in>set ps. \<forall>k\<in>set (keys q). map_of (nodeLabels nd) k = None)"
proof -
  have "m = [] \<longleftrightarrow> (\<forall>k v. \<not> 0 < tally keys ps (k, v))"
    unfolding stands_for_empty [OF assms] split_paired_All using tally_nonneg [of keys ps] by (metis less_irrefl order_less_le)
  also have "\<dots> \<longleftrightarrow> (\<forall>(nd, q)\<in>set ps. \<forall>k\<in>set (keys q). map_of (nodeLabels nd) k = None)"
    unfolding tally_pos split_def not_Some_eq [symmetric] by metis
  finally show ?thesis .
qed

lemma satisfyPodAntiAffinity_iff:
  assumes "represents s ps"
  shows "satisfyPodAntiAffinity s nd \<longleftrightarrow> anti_affinity_rule (asPodInfo s) (enableNamespaceSelector s) nd ps"
proof -
  let ?ts = "RequiredAntiAffinityTerms (asPodInfo s)" and ?en = "enableNamespaceSelector s"
  have sf: "stands_for (antiAffinityCounts s) (tally (anti_keys ?ts ?en) ps)" using assms by (simp add: represents_def)
  have keys: "k \<in> set (anti_keys ?ts ?en q) \<longleftrightarrow> (\<exists>t\<in>set ?ts. term_Matches t q [] ?en \<and> atTopologyKey t = k)" for k q
    by (auto simp: anti_keys_def)
  have one: "(case map_of (nodeLabels nd) k of None \<Rightarrow> True | Some v \<Rightarrow> \<not> counts_get (antiAffinityCounts s) (k, v) > 0) \<longleftrightarrow>
      (\<forall>(nd', q)\<in>set ps. k \<in> set (anti_keys ?ts ?en q) \<longrightarrow> \<not> same_topology nd nd' k)" for k
  proof (cases "map_of (nodeLabels nd) k")
    case None
    then show ?thesis by (auto simp: same_topology_def)
  next
    case (Some v)
    then show ?thesis using stands_for_pos [OF sf Some] by auto
  qed
  have "antiAffinityCounts s = [] \<Longrightarrow> anti_affinity_rule (asPodInfo s) ?en nd ps"
    unfolding empty_counts [OF sf] anti_affinity_rule_def same_topology_def split_def using keys by (metis option.distinct(1))
  moreover have "list_all (\<lambda>t. case map_of (nodeLabels nd) (atTopologyKey t) of None \<Rightarrow> True
       | Some v \<Rightarrow> \<not> counts_get (antiAffinityCounts s) (atTopologyKey t, v) > 0) ?ts \<longleftrightarrow> anti_affinity_rule (asPodInfo s) ?en nd ps"
    unfolding list_all_iff one keys anti_affinity_rule_def split_def by metis
  ultimately show ?thesis unfolding satisfyPodAntiAffinity_def by blast
qed

lemma satisfyExisting_iff:
  assumes "represents s ps" "distinct (map fst (nodeLabels nd))"
  shows "satisfyExistingPodsAntiAffinity s nd \<longleftrightarrow> existing_rule (asPodInfo s) (namespaceLabels s) (enableNamespaceSelector s) nd ps"
proof -
  let ?keys = "existing_keys (piPod (asPodInfo s)) (namespaceLabels s) (enableNamespaceSelector s)"
  let ?r = "existing_rule (asPodInfo s) (namespaceLabels s) (enableNamespaceSelector s) nd ps"
  have sf: "stands_for (existingAntiAffinityCounts s) (tally ?keys ps)" using assms(1) by (simp add: represents_def)
  have r: "?r \<longleftrightarrow> (\<forall>(nd', q)\<in>set ps. \<forall>k\<in>set (?keys q). \<not> same_topology nd nd' k)"
    unfolding existing_rule_def existing_keys_def split_def by auto
  have "existingAntiAffinityCounts s = [] \<Longrightarrow> ?r"
    unfolding empty_counts [OF sf] r same_topology_def split_def by (metis option.distinct(1))
  moreover have "list_all (\<lambda>tp. \<not> counts_get (existingAntiAffinityCounts s) tp > 0) (nodeLabels nd) \<longleftrightarrow> ?r"
  proof -
    have "list_all (\<lambda>tp. \<not> counts_get (existingAntiAffinityCounts s) tp > 0) (nodeLabels nd) \<longleftrightarrow>
        (\<forall>k v. map_of (nodeLabels nd) k = Some v \<longrightarrow> \<not> counts_get (existingAntiAffinityCounts s) (k, v) > 0)"
      using assms(2) by (auto simp: list_all_iff)
    also have "\<dots> \<longleftrightarrow> (\<forall>k v. map_of (nodeLabels nd) k = Some v \<longrightarrow> \<not> (\<exists>(nd', q)\<in>set ps. k \<in> set (?keys q) \<and> same_topology nd nd' k))"
      using stands_for_pos [OF sf] by blast
    also have "\<dots> \<longleftrightarrow> ?r" unfolding r same_topology_def split_def by metis
    finally show ?thesis .
  qed
  ultimately show ?thesis unfolding satisfyExistingPodsAntiAffinity_def by blast
qed

lemma pods_exist_iff:
  "pods_exist m nd ts b = (if \<exists>t\<in>set ts. map_of (nodeLabels nd) (atTopologyKey t) = None then None
     else Some (b \<and> (\<forall>t\<in>set ts. \<forall>v. map_of (nodeLabels nd) (atTopologyKey t) = Some v \<longrightarrow> counts_get m (atTopologyKey t, v) > 0)))"
  by (induction ts arbitrary: b) (auto split: option.split)

lemma satisfyPodAffinity_iff:
  assumes "represents s ps"
  shows "satisfyPodAffinity s nd \<longleftrightarrow> affinity_rule (asPodInfo s) (enableNamespaceSelector s) nd ps"
proof -
  let ?ts = "RequiredAffinityTerms (asPodInfo s)" and ?en = "enableNamespaceSelector s"
  let ?all = "\<lambda>q. podMatchesAllAffinityTerms ?ts q ?en"
  have sf: "stands_for (affinityCounts s) (tally (affinity_keys ?ts ?en) ps)" using assms by (simp add: represents_def)
  have keys: "k \<in> set (affinity_keys ?ts ?en q) \<longleftrightarrow> ?all q \<and> (\<exists>t\<in>set ?ts. atTopologyKey t = k)" for k q
    by (auto simp: affinity_keys_def)
  have e: "affinityCounts s = [] \<longleftrightarrow> (\<forall>(nd', q)\<in>set ps. ?all q \<longrightarrow> (\<forall>t\<in>set ?ts. map_of (nodeLabels nd') (atTopologyKey t) = None))"
    unfolding empty_counts [OF sf] Ball_def keys split_def by metis
  show ?thesis
  proof (cases "\<exists>t\<in>set ?ts. map_of (nodeLabels nd) (atTopologyKey t) = None")
    case True
    then show ?thesis by (simp add: satisfyPodAffinity_def pods_exist_iff affinity_rule_def)
  next
    case False
    have "counts_get (affinityCounts s) (atTopologyKey t, v) > 0 \<longleftrightarrow> (\<exists>(nd', q)\<in>set ps. ?all q \<and> same_topology nd nd' (atTopologyKey t))"
      if "t \<in> set ?ts" "map_of (nodeLabels nd) (atTopologyKey t) = Some v" for t v
      unfolding stands_for_pos [OF sf that(2)] keys using that(1) by auto
    then have "(\<forall>t\<in>set ?ts. \<forall>v. map_of (nodeLabels nd) (atTopologyKey t) = Some v \<longrightarrow> counts_get (affinityCounts s) (atTopologyKey t, v) > 0) \<longleftrightarrow>
        (\<forall>t\<in>set ?ts. \<exists>(nd', q)\<in>set ps. ?all q \<and> same_topology nd nd' (atTopologyKey t))"
      using False by (metis (no_types, lifting) not_None_eq)
    then show ?thesis using False e unfolding satisfyPodAffinity_def pods_exist_iff affinity_rule_def by (auto split: bool.split)
  qed
qed

section \<open>Additions and removals\<close>

datatype affinity_op = PodAdded knode kpod | PodRemoved knode kpod

text \<open>The calls the framework makes between \<open>PreFilter\<close> and \<open>Filter\<close>, up to the first status that is not nil.\<close>

fun affinity_step :: "affinity_op \<Rightarrow> affinityState option \<Rightarrow> statusp \<times> affinityState option" where
  "affinity_step (PodAdded nd q) state = affinity_AddPod (NewPodInfo q) nd state"
| "affinity_step (PodRemoved nd q) state = affinity_RemovePod (NewPodInfo q) nd state"

fun affinity_run :: "affinity_op list \<Rightarrow> affinityState option \<Rightarrow> statusp \<times> affinityState option" where
  "affinity_run [] state = (None, state)"
| "affinity_run (op # ops) state = (case affinity_step op state of
     (None, state') \<Rightarrow> affinity_run ops state' | (Some e, state') \<Rightarrow> (Some e, state'))"

text \<open>The placements after the calls; a pod is removed only where it is.\<close>

fun placed :: "affinity_op list \<Rightarrow> placements \<Rightarrow> placements option" where
  "placed [] ps = Some ps"
| "placed (PodAdded nd q # ops) ps = placed ops ((nd, q) # ps)"
| "placed (PodRemoved nd q # ops) ps = (if (nd, q) \<in> set ps then placed ops (remove1 (nd, q) ps) else None)"

fun op_few :: "affinity_op \<Rightarrow> bool" where
  "op_few (PodAdded nd q) = few_terms q"
| "op_few (PodRemoved nd q) = few_terms q"

lemma run_represents:
  assumes "represents s ps" "few_info (asPodInfo s)" "placed ops ps = Some ps'" "length ps + length ops \<le> 2 ^ 30"
    "\<forall>(nd, q)\<in>set ps. few_terms q" "list_all op_few ops"
  shows "\<exists>s'. affinity_run ops (Some s) = (None, Some s') \<and> represents s' ps' \<and> asPodInfo s' = asPodInfo s \<and>
    namespaceLabels s' = namespaceLabels s \<and> enableNamespaceSelector s' = enableNamespaceSelector s"
  using assms
proof (induction ops arbitrary: s ps)
  case (Cons op ops)
  have len: "length ps \<le> 2 ^ 30" using Cons.prems(4) by simp
  show ?case
  proof (cases op)
    case (PodAdded nd q)
    let ?s = "updateWithPod s (NewPodInfo q) nd 1"
    have q: "few_terms q" using Cons.prems(6) PodAdded by simp
    have r: "represents ?s ((nd, q) # ps)" by (rule represents_update(1) [OF Cons.prems(1,2) len Cons.prems(5) q])
    have "\<exists>s'. affinity_run ops (Some ?s) = (None, Some s') \<and> represents s' ps' \<and> asPodInfo s' = asPodInfo ?s \<and>
        namespaceLabels s' = namespaceLabels ?s \<and> enableNamespaceSelector s' = enableNamespaceSelector ?s"
      using Cons.prems PodAdded q by (intro Cons.IH [OF r]) (auto simp: updateWithPod_def)
    then show ?thesis using PodAdded by (auto simp: affinity_AddPod_def updateWithPod_def)
  next
    case (PodRemoved nd q)
    let ?s = "updateWithPod s (NewPodInfo q) nd (- 1)" and ?ps = "remove1 (nd, q) ps"
    have q: "few_terms q" using Cons.prems(6) PodRemoved by simp
    have m: "(nd, q) \<in> set ps" "placed ops ?ps = Some ps'" using Cons.prems(3) PodRemoved by (auto split: if_splits)
    have r: "represents ?s ?ps" by (rule represents_update(2) [OF Cons.prems(1,2) len Cons.prems(5) q m(1)])
    have f: "\<forall>(nd, q)\<in>set ?ps. few_terms q" using Cons.prems(5) set_remove1_subset [of "(nd, q)" ps] by blast
    have "\<exists>s'. affinity_run ops (Some ?s) = (None, Some s') \<and> represents s' ps' \<and> asPodInfo s' = asPodInfo ?s \<and>
        namespaceLabels s' = namespaceLabels ?s \<and> enableNamespaceSelector s' = enableNamespaceSelector ?s"
      using Cons.prems m(1) by (intro Cons.IH [OF r _ m(2) _ f]) (auto simp: updateWithPod_def length_remove1)
    then show ?thesis using PodRemoved by (auto simp: affinity_RemovePod_def updateWithPod_def)
  qed
qed auto

lemma merge_terms_length: "merge_terms pl ts = Inr ts' \<Longrightarrow> length ts' = length ts"
  by (induction ts arbitrary: ts') (auto split: sum.splits)

lemma prepare_terms_few:
  assumes "prepare_terms pl pod = Inr i" "few_terms pod"
  shows "few_info i" "piPod i = pod"
proof -
  have f: "few_info (NewPodInfo pod)" by (rule few_NewPodInfo [OF assms(2)])
  have p: "piPod (NewPodInfo pod) = pod" by (simp add: NewPodInfo_def Let_def)
  show "few_info i" "piPod i = pod"
    using assms(1) f p by (auto simp: prepare_terms_def Let_def few_info_def merge_terms_length split: if_splits sum.split_asm)
qed

lemma PreFilter_represents:
  assumes "affinity_PreFilter pl snap pod st0 = (None, Some s)" "prepare_terms pl pod = Inr i" "snapshot_ok snap"
    "length (placements_of snap) \<le> 2 ^ 30" "\<forall>(nd, q)\<in>set (placements_of snap). few_terms q" "few_terms pod"
  shows "represents s (placements_of snap)" "asPodInfo s = i" "enableNamespaceSelector s = plEnableNamespaceSelector pl"
    "namespaceLabels s = (if plEnableNamespaceSelector pl then GetNamespaceLabelsSnapshot pl (kNamespace pod) else [])"
proof -
  let ?en = "plEnableNamespaceSelector pl"
  define nsl where "nsl = (if ?en then GetNamespaceLabelsSnapshot pl (kNamespace pod) else [])"
  obtain aff anti where c: "getIncomingAffinityAntiAffinityCounts i (snap_List snap) ?en = (aff, anti)" by (rule prod.exhaust)
  have s: "s = \<lparr>existingAntiAffinityCounts = getExistingAntiAffinityCounts pod nsl (HavePodsWithRequiredAntiAffinityList snap) ?en,
      affinityCounts = aff, antiAffinityCounts = anti, asPodInfo = i, namespaceLabels = nsl, enableNamespaceSelector = ?en\<rparr>"
    using assms(1) by (simp add: affinity_PreFilter_def assms(2) c Let_def nsl_def)
  then show "asPodInfo s = i" "enableNamespaceSelector s = ?en" "namespaceLabels s = (if ?en then GetNamespaceLabelsSnapshot pl (kNamespace pod) else [])"
    by (simp_all add: nsl_def)
  have i: "few_info i" "piPod i = pod" by (rule prepare_terms_few [OF assms(2,6)])+
  have e: "\<forall>(nd, q)\<in>set (placements_of snap). length (existing_keys pod nsl ?en q) \<le> 2 ^ 30"
    using assms(5) keys_few(1) by blast
  have a: "\<forall>(nd, q)\<in>set (placements_of snap). length (affinity_keys (RequiredAffinityTerms i) ?en q) \<le> 2 ^ 30"
    and n: "\<forall>(nd, q)\<in>set (placements_of snap). length (anti_keys (RequiredAntiAffinityTerms i) ?en q) \<le> 2 ^ 30"
    using keys_few(2,3) [OF i(1)] by blast+
  let ?A = "foldl counts_append [] (map (node_counts (affinity_keys (RequiredAffinityTerms i) ?en) Pods) (snap_List snap))"
    and ?N = "foldl counts_append [] (map (node_counts (anti_keys (RequiredAntiAffinityTerms i) ?en) Pods) (snap_List snap))"
  have A: "stands_for ?A (tally (affinity_keys (RequiredAffinityTerms i) ?en) (placements_of snap))"
    and N: "stands_for ?N (tally (anti_keys (RequiredAntiAffinityTerms i) ?en) (placements_of snap))"
    using all_counts_stand_for assms(4) a n unfolding placements_of_def by blast+
  have "aff = ?A \<and> anti = ?N"
  proof (cases "RequiredAffinityTerms i = [] \<and> RequiredAntiAffinityTerms i = []")
    case True
    have "tally (affinity_keys [] ?en) ps p = 0" "tally (anti_keys [] ?en) ps p = 0" for ps p
      by (induction ps) (auto simp: affinity_keys_def anti_keys_def podMatchesAllAffinityTerms_def pairs_of_def split_def)
    then have "?A = []" "?N = []" using stands_for_empty [OF A] stands_for_empty [OF N] True by simp_all
    with True c show ?thesis by (simp add: getIncomingAffinityAntiAffinityCounts_def)
  next
    case False
    then have "getIncomingAffinityAntiAffinityCounts i (snap_List snap) ?en = (?A, ?N)"
      unfolding getIncomingAffinityAntiAffinityCounts_def incoming_of_node_eq [abs_def] fold_append_pairs by (rule if_not_P)
    with c show ?thesis by simp
  qed
  with A N existing_stand_for [OF assms(3,4) e] show "represents s (placements_of snap)" by (simp add: s represents_def i(2))
qed

text \<open>
  C40: The filter for affinity between pods decides the rules about the pods, not only about its counts. After \<open>PreFilter\<close>
  on a snapshot and any sequence of pods added to and removed from nodes, every call has returned without error, and a node
  passes exactly if for every required term a pod that matches all terms is in the same topology (or the pod is the first of
  its kind), no placed pod matches an anti-affinity term there, and no anti-affinity term of a placed pod matches the pod.
\<close>

theorem affinity_filter_decides:
  assumes "affinity_PreFilter pl snap pod st0 = (None, Some s0)" "prepare_terms pl pod = Inr i" "snapshot_ok snap"
    "placed ops (placements_of snap) = Some ps" "length (placements_of snap) + length ops \<le> 2 ^ 30"
    "few_terms pod" "\<forall>(nd, q)\<in>set (placements_of snap). few_terms q" "list_all op_few ops"
    "node ni = Some nd" "distinct (map fst (nodeLabels nd))"
  shows "\<exists>s. affinity_run ops (Some s0) = (None, Some s) \<and>
    (IsSuccess (affinity_Filter (Some s) ni) \<longleftrightarrow>
      affinity_rule i (plEnableNamespaceSelector pl) nd ps \<and> anti_affinity_rule i (plEnableNamespaceSelector pl) nd ps \<and>
      existing_rule i (if plEnableNamespaceSelector pl then GetNamespaceLabelsSnapshot pl (kNamespace pod) else []) (plEnableNamespaceSelector pl) nd ps)"
proof -
  have len: "length (placements_of snap) \<le> 2 ^ 30" using assms(5) by simp
  note r = PreFilter_represents [OF assms(1-3) len assms(7,6)]
  have few: "few_info (asPodInfo s0)" using prepare_terms_few(1) [OF assms(2,6)] r(2) by simp
  obtain s where s: "affinity_run ops (Some s0) = (None, Some s)" "represents s ps" "asPodInfo s = i"
      "namespaceLabels s = namespaceLabels s0" "enableNamespaceSelector s = plEnableNamespaceSelector pl"
    using run_represents [OF r(1) few assms(4,5,7,8)] r(2,3) by auto
  have "IsSuccess (affinity_Filter (Some s) ni) \<longleftrightarrow> satisfyPodAffinity s nd \<and> satisfyPodAntiAffinity s nd \<and> satisfyExistingPodsAntiAffinity s nd"
    by (simp add: affinity_Filter_def assms(9) IsSuccess_def Code_def NewStatus_def)
  then show ?thesis
    using s(1) satisfyPodAffinity_iff [OF s(2)] satisfyPodAntiAffinity_iff [OF s(2)] satisfyExisting_iff [OF s(2) assms(10)] s(3-5) r(4) by simp
qed

end
