(* ===== verification/Pod_Affinity_Examples.thy ===== *)
theory Pod_Affinity_Examples
  imports Pod_Affinity_Props Generic_Props
begin

text \<open>
  A pod that must not share a zone with pods of an application, and a node that has such a pod until it is removed.
\<close>

definition aff_node :: knode where
  "aff_node = \<lparr>knodeName = ''n1'', nodeLabels = [(''zone'', ''a'')], nodeAllocatable = [], nodeImages = [], specUnschedulable = False, Taints = [], nodeConditions = []\<rparr>"

definition aff_placed :: kpod where
  "aff_placed = (ex_pod ''q'')\<lparr>podLabels := [(''app'', ''x'')]\<rparr>"

definition aff_incoming :: kpod where
  "aff_incoming = (ex_pod ''p'')\<lparr>Affinity := Some \<lparr>PodAffinity = None, PodAntiAffinity = Some \<lparr>RequiredTerms =
     [\<lparr>ptLabelSelector = Some \<lparr>MatchLabels = [(''app'', ''x'')], MatchExpressions = []\<rparr>, ptNamespaces = [], ptTopologyKey = ''zone'', ptNamespaceSelector = None\<rparr>],
     PreferredTerms = []\<rparr>\<rparr>\<rparr>"

definition aff_info :: nodeInfo where
  "aff_info = (ex_node ''n1'')\<lparr>node := Some aff_node, Pods := [aff_placed]\<rparr>"

definition aff_snap :: snapshot where
  "aff_snap = NewEmptySnapshot\<lparr>nodeInfoMap := [(''n1'', aff_info)], nodeInfoList := [''n1'']\<rparr>"

definition aff_plugin :: affinityPlugin where
  "aff_plugin = \<lparr>nsList = (\<lambda>_. Inr []), nsGet = (\<lambda>_. None), plEnableNamespaceSelector = False\<rparr>"

definition aff_state :: affinityState where
  "aff_state = (case affinity_PreFilter aff_plugin aff_snap aff_incoming None of (_, Some s) \<Rightarrow> s)"

lemma aff_prefilter: "affinity_PreFilter aff_plugin aff_snap aff_incoming None = (None, Some aff_state)"
proof -
  have "(case affinity_PreFilter aff_plugin aff_snap aff_incoming None of (None, Some s) \<Rightarrow> True | _ \<Rightarrow> False)" by code_simp
  then show ?thesis by (auto simp: aff_state_def split: prod.splits option.splits)
qed

lemma aff_prepared: "prepare_terms aff_plugin aff_incoming = Inr (NewPodInfo aff_incoming)"
proof -
  have "ParseError (NewPodInfo aff_incoming) = []" by code_simp
  then show ?thesis by (simp add: prepare_terms_def Let_def aff_plugin_def)
qed

lemma aff_placements: "placements_of aff_snap = [(aff_node, aff_placed)]"
  by (simp add: placements_of_def snap_List_def read_list_def aff_snap_def map_filter_simps node_pods_def aff_info_def)

lemma aff_snapshot_ok: "snapshot_ok aff_snap"
  by (simp add: snapshot_ok_def HavePodsWithRequiredAntiAffinityList_def snap_List_def read_list_def aff_snap_def NewEmptySnapshot_def
      map_filter_simps aff_info_def ex_node_def podWithRequiredAntiAffinity_def aff_placed_def ex_pod_def)

lemma aff_few: "few_terms aff_incoming" "few_terms aff_placed"
  by (simp_all add: few_terms_def aff_incoming_def aff_placed_def ex_pod_def getPodAffinityTerms_def getPodAntiAffinityTerms_def)

lemma aff_labels: "node aff_info = Some aff_node" "distinct (map fst (nodeLabels aff_node))"
  by (simp_all add: aff_info_def aff_node_def)

lemma aff_terms: "RequiredAffinityTerms (NewPodInfo aff_incoming) = []"
  by code_simp

theorem affinity_filter_decides_witness:
  "\<not> IsSuccess (affinity_Filter (Some aff_state) aff_info) \<and>
   (\<exists>s. affinity_run [PodRemoved aff_node aff_placed] (Some aff_state) = (None, Some s) \<and> IsSuccess (affinity_Filter (Some s) aff_info))"
proof -
  let ?i = "NewPodInfo aff_incoming"
  note d = affinity_filter_decides [OF aff_prefilter aff_prepared aff_snapshot_ok, unfolded aff_placements, OF _ _ aff_few(1) _ _ aff_labels]
  have t: "\<exists>t\<in>set (RequiredAntiAffinityTerms ?i). term_Matches t aff_placed [] False \<and> atTopologyKey t = ''zone''" by code_simp
  have "same_topology aff_node aff_node ''zone''" by (simp add: same_topology_def aff_node_def)
  with t have n: "\<not> anti_affinity_rule ?i False aff_node [(aff_node, aff_placed)]" by (auto simp: anti_affinity_rule_def)
  have "\<not> IsSuccess (affinity_Filter (Some aff_state) aff_info)"
    using d [of "[]" "[(aff_node, aff_placed)]"] n by (simp add: aff_few aff_plugin_def)
  moreover have "affinity_rule ?i False aff_node [] \<and> anti_affinity_rule ?i False aff_node [] \<and> existing_rule ?i [] False aff_node []"
    by (simp add: affinity_rule_def anti_affinity_rule_def existing_rule_def aff_terms)
  ultimately show ?thesis
    using d [of "[PodRemoved aff_node aff_placed]" "[]"] by (simp add: aff_few aff_plugin_def)
qed

end
