(* ===== verification/Spec2Isabelle.thy ===== *)
theory Spec2Isabelle
  imports Rubicante_Props Rubicante_Store_Props Rubicante_Http_Props Tdma_Props Rt_Props Assurance_Props Malacoda_Props
    Node_Info_Props Generic_Props Sim_Props Queue_Props Snapshot_Props Node_Fit_Props Sched_System_Props Preempt_Examples Node_Score_Examples Pod_Affinity_Examples
begin

text \<open>
  \<^bold>\<open>Verification of k4.0s.\<close> k4.0s orchestrates containers of mixed criticality with Kubernetes: it
  adds plugins to the scheduler (a fork of Kubernetes under \<open>submodules/kubernetes\<close>), daemons on the
  nodes the plugins talk to, and a simulator that runs the scheduler without a cluster.

  \<^bold>\<open>The parts and how they interact.\<close> The scheduler takes a pod from its queue, filters and scores the
  nodes with its plugins, assumes the pod on the chosen node and binds it. Three plugins are the
  repository's own. The real-time plugin decodes the tasks a pod declares and asks the daemon
  \<open>rubicante\<close> of each node, over HTTP, whether the node can take them; the daemon runs an admission
  test (response times of fixed-priority tasks inside servers whose bandwidth is found by bisection),
  keeps the admitted containers in memory and dumps them to files. The TDMA plugin reserves slices of
  a communication cycle and tells the master daemon \<open>scarmiglione\<close>. The assurance plugin ranks nodes
  by a level the daemon \<open>malacoda\<close> publishes on them; \<open>malacoda\<close> also samples the kernel's counters
  and raises alarms. The simulator wraps the plugins of the scheduler and records their verdicts.

  \<^bold>\<open>Theories and sources.\<close>
  \<^item> \<open>K4_Prelude\<close>: outcomes of Go code (\<open>Ret\<close>, \<open>Panic\<close>, \<open>Diverge\<close>), 64-bit wrap-around, division,
    stable sorting. \<open>Go_Float\<close>: rounded division, ceiling and conversions, as a locale of rounding
    functions interpreted for 53 bits. \<open>Go_Strings\<close>, \<open>Go_Json\<close>: numbers and JSON as printed and read,
    with the bytes of a string that are not valid UTF-8 replaced as \<open>encoding/json\<close> replaces them.
  \<^item> \<open>Rubicante_Sched\<close>: \<open>rubicante/nodeImplementation.go\<close>. \<open>Rta\<close> has the two search loops over an
    arbitrary body as locales; \<open>Rubicante_Exact\<close>, \<open>Rubicante_Termination\<close>, \<open>Rubicante_Priority\<close> and
    \<open>Rubicante_Admission\<close> interpret them and carry \<open>Rubicante_Props\<close>: the test returns, its machine
    arithmetic is exact, the bandwidth is the least feasible, accepted containers stay schedulable,
    priorities are rate monotonic, and where the code panics or loses bandwidth.
  \<^item> \<open>Rubicante_Http\<close> (\<open>rubicante/routers.go\<close>) and \<open>Rubicante_Store\<close> (\<open>data_storage.go\<close>) with their
    properties: the handlers reply and release the mutex, an empty request locks the daemon, what a
    restart reads back, when deleting a pod panics.
  \<^item> \<open>K8s_Framework\<close>, \<open>Score_Norm\<close>: statuses and their merging, scores and their normalisation (a
    locale that both scoring plugins interpret). \<open>Rt_Plugin\<close>, \<open>Rt_Props\<close>: the real-time plugin, alone
    and composed with the daemon through the network. \<open>Tdma\<close>, \<open>Tdma_Props\<close>: the TDMA plugin with its
    reachable states. \<open>Scarmiglione\<close>: the master daemon. \<open>Assurance\<close>, \<open>Assurance_Props\<close>: the
    assurance plugin and the publishing loop of \<open>malacoda\<close> against an API server that refuses stale
    resource versions. \<open>Malacoda\<close>, \<open>Malacoda_Monitor\<close>,
    \<open>Malacoda_Props\<close>: its resource monitor.
  \<^item> \<open>Node_Info\<close>, \<open>Node_Info_Props\<close>: \<open>pkg/scheduler/framework/types.go\<close>, the totals and ports of a node.
    \<open>Fw_Runtime\<close>: \<open>framework/runtime\<close>, the loops over the plugins of every extension point.
    \<open>Generic_Sched\<close>, \<open>Generic_Props\<close>: \<open>generic_scheduler.go\<close>. \<open>Heap\<close>, \<open>Heap_Props\<close>: the heap of
    \<open>internal/heap\<close> under a locale of orders. \<open>Sched_Queue\<close>, \<open>Queue_Props\<close>: \<open>internal/queue\<close>, built on
    the heap. \<open>Node_Fit\<close>, \<open>Node_Fit_Props\<close>: the filters of \<open>framework/plugins\<close> that look at one node, with
    the bandwidth of real-time pods; a pod that passes does not overcommit the node.
  \<^item> \<open>Node_Tree\<close>, \<open>Sched_Cache\<close>, \<open>Sched_Snapshot\<close>: \<open>internal/cache\<close>. \<open>Node_Tree_Props\<close> refines the tree to a
    set of nodes, \<open>Cache_List\<close> the linked items to a list, \<open>Cache_Inv\<close> has the invariant of the cache,
    \<open>Cache_Ops\<close> shows that every operation keeps it, and \<open>Snapshot_Props\<close> that the incremental snapshot
    is a copy of the nodes that are present.
  \<^item> \<open>Sched_One\<close>: \<open>scheduler.go\<close> and the error function of \<open>factory.go\<close>, the scheduling cycle and the
    binding cycle. \<open>Sched_Events\<close>: \<open>eventhandlers.go\<close>. \<open>Sched_Total\<close> shows that the algorithm returns,
    \<open>Sched_Effects\<close> and \<open>Sched_One_Props\<close> what each step of a cycle does to cache and queue (under the locale
    \<open>sched_env\<close> of the laws of the environment), \<open>Sched_System\<close> puts the cycles and the handlers together as
    a step relation, and \<open>Sched_System_Props\<close> has the properties of all its reachable states: every step
    returns and keeps the invariants, a cycle does all or nothing, binding settles a pod, no failed pod is lost, and the host fits.
  \<^item> \<open>Label_Selector\<close>: label selectors (\<open>labels/selector.go\<close>) and what they match. \<open>Preemption\<close>:
    \<open>plugins/defaultpreemption\<close>, from the search for nodes on which evicting pods may help to the eviction.
    \<open>Preempt_Victims\<close> has the loop that removes pods from the slice it ranges over and the search for the
    victims of a node under the locale \<open>victim_search\<close>, \<open>Preempt_Frame\<close> extends it to \<open>quiet_search\<close> with what
    the search and the eviction do to the cluster, \<open>Preempt_Pick\<close> has the five loops that choose a node;
    \<open>Preempt_Props\<close> shows that the pods preemption deletes are victims of lower priority on one node where they
    make room, also when a deletion fails, that no victim could have stayed, that budgets are respected and
    that the chosen node is the best, and \<open>Preempt_Examples\<close> interprets the locales for filters of one node.
  \<^item> \<open>Node_Score\<close>: the scoring plugins of \<open>plugins/noderesources\<close>, which the repository changed to take negative
    weights, of \<open>imagelocality\<close> and \<open>tainttoleration\<close>, and the validation of their arguments.
    \<open>Node_Score_Lib\<close> has means of scores as a locale that the scores of a resource interpret, \<open>Score_Runs\<close>
    which scores the framework accepts; \<open>Node_Score_Props\<close> and \<open>Node_Score_Examples\<close> show that configured plugins
    are accepted, what the score by free resources is, how it accounts for the overhead of pods, and that
    negative weights stop scheduling.
  \<^item> \<open>Pod_Affinity\<close>: the filter of \<open>plugins/interpodaffinity\<close> and the affinity terms of \<open>framework/types.go\<close>.
    \<open>Pod_Affinity_Props\<close> refines the maps of counts to the pods placed on nodes and shows that the filter decides
    the affinity rules after any additions and removals; \<open>Pod_Affinity_Examples\<close> has a small cluster.
  \<^item> \<open>Sim_Store\<close>, \<open>Sim_Plugin\<close>, \<open>Sim_Props\<close>: \<open>scheduler/plugin\<close>, the simulator's store, wrappers and
    configuration; running the plugins through the wrappers changes nothing but the store.

  \<^bold>\<open>Correspondence.\<close> A Go struct is a record, a map an association list or a function, a pointer that may be
  nil an option; a function that can panic or block has a result of type \<open>go\<close>. State is passed
  explicitly: the daemon's containers, the plugin's slices, the queue, and for plugins the cycle
  state and a world \<open>'w\<close> standing for everything else they touch. Integers are unbounded with
  \<open>wrap64\<close> where the code can overflow, or words where bits matter. Floats are exact rationals rounded
  to 53 or 24 bits. The network between a plugin and a daemon, the API server, random draws, the
  clock, and third-party code are parameters; what is assumed of them is a hypothesis of the theorem.

  \<^bold>\<open>Loops.\<close> Loops whose exit depends on computed values (the response-time iteration, the bisection, the
  search for TDMA gaps) are partial functions into \<open>option\<close>, and that they return is proved for
  requests in range: periods up to \<open>2^32\<close> microseconds and at most a thousand tasks, bounds under
  which no operation overflows. Other loops are structural or have a termination proof; the flush
  of the backoff queue ends because every \<open>Pop\<close> shortens the heap. No fuel is used, but for the six
  steps of the backoff the code itself counts. Scores are exact for quantities of pods up to \<open>2^48\<close>, 64
  containers and totals of nodes up to \<open>2^56\<close>, a hundredth of what 64 bits hold; affinity counts for up to
  \<open>2^30\<close> placed pods with \<open>2^30\<close> terms each.

  \<^bold>\<open>Not modelled.\<close> Generated code (\<open>k8sapiserver/openapi\<close>, deepcopy, conversions), the API server and
  the volume controller the simulator starts, the scenario in \<open>sched.go\<close>, start-up code that only
  calls client libraries, the SQL variant of the storage, and the rest of Kubernetes the scheduler does
  not use. Goroutines that filter or score nodes in parallel run in the order of the indices; the
  operations of the cache and of the queue are atomic, as under their locks, and cycles and handlers
  interleave as whole steps. Plugins of the framework do not change the pod they are given. Metrics
  and log messages are left out. In preemption the clock does not move during a run, and the visit order of
  maps, the sort, the random offset and the API server are parameters. The plugins for node affinity,
  topology and volumes, the score of pod affinity, the balance of resources (square roots of floats) and the
  construction of profiles from a configuration are not modelled: a plugin that is not modelled is an
  arbitrary function of the framework's interface, so the properties of the framework hold for it too, as
  long as it returns. A plugin that panics or loops forever is no such function. Two plugins of the repository
  can: the real-time plugin on an empty annotation and the TDMA plugin on a negative length. They are
  modelled on their own with results of type \<open>go\<close>, in which these outcomes are values.
\<close>

end
